(* ===== verification/Prelude.thy ===== *)
theory Prelude
  imports Main "HOL-Library.Word" "HOL-Library.Monad_Syntax"
begin

text \<open>
  Shared vocabulary of the development: the machine integer types of the C++ sources, byte
  buffers with bounds-checked access, the little- and big-endian codecs that the packed structs
  of the sources denote, and list facts used by several components.

  A value of type \<open>'a option\<close> that a model function returns is the outcome of running the C++
  code: \<^term>\<open>None\<close> stands for an execution the code does not survive (an access outside its
  buffer, or an exception that nothing catches), \<^term>\<open>Some x\<close> for a normal return. The host is
  little-endian, as on the x86 and ARM machines the drivers are built for.
\<close>

unbundle bit_operations_syntax

type_synonym u8 = "8 word"
type_synonym u16 = "16 word"
type_synonym u32 = "32 word"
type_synonym u64 = "64 word"
type_synonym bytes = "8 word list"

named_theorems mem_simps

lemma unat_less: "unat (x :: 'a::len word) < 2 ^ LENGTH('a)"
  by (rule unsigned_less)

lemma unat_u8_less [simp]: "unat (x :: u8) < 256"
  using unat_less [of x] by simp

lemma xor_word_cancel: "x XOR d = y XOR d \<Longrightarrow> x = (y :: 'a::len word)"
  by (drule arg_cong [where f = "\<lambda>z. z XOR d"]) (simp add: xor.assoc)

lemma unat_ucast_u8: "LENGTH('a) \<ge> 8 \<Longrightarrow> unat (ucast (x :: u8) :: 'a::len word) = unat x"
proof -
  assume "LENGTH('a) \<ge> 8"
  then have "(2 :: nat) ^ 8 \<le> 2 ^ LENGTH('a)" by (intro power_increasing) simp_all
  then have "unat x < 2 ^ LENGTH('a)"
    by (rule less_le_trans [rotated]) simp
  then show ?thesis by (simp add: unsigned_ucast_eq take_bit_nat_eq_self_iff)
qed

section \<open>Byte buffers\<close>

text \<open>
  \<open>rd m off n\<close> reads \<open>n\<close> bytes at offset \<open>off\<close>, \<open>wr m off bs\<close> is \<^verbatim>\<open>memcpy(m + off, bs)\<close>.
\<close>

definition rd :: "'a list \<Rightarrow> nat \<Rightarrow> nat \<Rightarrow> 'a list option" where
  "rd m off n = (if off + n \<le> length m then Some (take n (drop off m)) else None)"

definition wr :: "'a list \<Rightarrow> nat \<Rightarrow> 'a list \<Rightarrow> 'a list option" where
  "wr m off bs =
     (if off + length bs \<le> length m
      then Some (take off m @ bs @ drop (off + length bs) m) else None)"

lemma rd_Some_iff: "rd m off n = Some bs \<longleftrightarrow> off + n \<le> length m \<and> bs = take n (drop off m)"
  by (auto simp: rd_def)

lemma rd_eq_None [mem_simps]: "rd m off n = None \<longleftrightarrow> length m < off + n"
  by (auto simp: rd_def)

lemma length_rd: "rd m off n = Some bs \<Longrightarrow> length bs = n"
  by (auto simp: rd_def split: if_splits)

lemma length_wr: "wr m off bs = Some m' \<Longrightarrow> length m' = length m"
  by (auto simp: wr_def split: if_splits)

lemma wr_eq_None [mem_simps]: "wr m off bs = None \<longleftrightarrow> length m < off + length bs"
  by (auto simp: wr_def)

lemma rd_wr_same: "wr m off bs = Some m' \<Longrightarrow> rd m' off (length bs) = Some bs"
  by (auto simp: wr_def rd_def split: if_splits)

lemma nth_wr:
  assumes "wr m off bs = Some m'" and "i < length m"
  shows "m' ! i = (if off \<le> i \<and> i < off + length bs then bs ! (i - off) else m ! i)"
  using assms by (auto simp: wr_def nth_append split: if_splits)

lemma wr_fits: "off + length bs \<le> length m \<Longrightarrow> \<exists>m'. wr m off bs = Some m' \<and> length m' = length m"
  by (auto simp: wr_def)

text \<open>A read away from the written range sees the old buffer.\<close>

lemma rd_wr_disjoint:
  assumes w: "wr m off bs = Some m'"
    and d: "o2 + n \<le> off \<or> off + length bs \<le> o2"
  shows "rd m' o2 n = rd m o2 n"
proof (cases "o2 + n \<le> length m")
  case True
  have len: "length m' = length m" by (rule length_wr [OF w])
  have "take n (drop o2 m') = take n (drop o2 m)"
  proof (rule nth_equalityI)
    show "length (take n (drop o2 m')) = length (take n (drop o2 m))" by (simp add: len)
    fix i assume i: "i < length (take n (drop o2 m'))"
    then have "o2 + i < length m" using True by (simp add: len)
    then have "m' ! (o2 + i) = m ! (o2 + i)" using d i by (auto simp: nth_wr [OF w])
    then show "take n (drop o2 m') ! i = take n (drop o2 m) ! i" using i len True by simp
  qed
  then show ?thesis by (simp add: rd_def len)
next
  case False
  then show ?thesis by (simp add: rd_def length_wr [OF w])
qed

lemma rd_append_left: "off + n \<le> length xs \<Longrightarrow> rd (xs @ ys) off n = rd xs off n"
  by (simp add: rd_def)

lemma rd_append_right: "length xs \<le> off \<Longrightarrow> rd (xs @ ys) off n = rd ys (off - length xs) n"
  by (auto simp: rd_def)

lemma rd_whole [simp]: "rd m 0 (length m) = Some m"
  by (simp add: rd_def)

lemma rd_middle: "length pre = off \<Longrightarrow> length bs = n \<Longrightarrow> rd (pre @ bs @ post) off n = Some bs"
  by (auto simp: rd_def)

text \<open>A C string in memory: it must end inside it. \<open>c_chars\<close> is the image that \<^verbatim>\<open>strcpy\<close> leaves.\<close>

definition cstring :: "bytes \<Rightarrow> nat \<Rightarrow> string option" where
  "cstring m off = (if 0 \<in> set (drop off m)
     then Some (map (\<lambda>b. char_of (unat b)) (takeWhile (\<lambda>b. b \<noteq> 0) (drop off m))) else None)"

definition c_chars :: "string \<Rightarrow> bytes" where
  "c_chars s = map (\<lambda>c. of_nat (of_char c)) s @ [0]"

lemma length_c_chars [simp]: "length (c_chars s) = Suc (length s)"
  by (simp add: c_chars_def)

lemma char_of_byte [simp]: "char_of (unat (of_nat (of_char c) :: u8)) = (c :: char)"
proof -
  have "of_char c < (256 :: nat)" by (rule nat_of_char_less_256)
  then show ?thesis by (simp add: unat_of_nat)
qed

lemma cstring_c_chars:
  assumes "CHR 0x00 \<notin> set s"
  shows "cstring (c_chars s @ rest) 0 = Some s"
proof -
  have nz: "of_nat (of_char c) \<noteq> (0 :: u8)" if "c \<in> set s" for c
  proof
    assume "of_nat (of_char c) = (0 :: u8)"
    then have "char_of (unat (of_nat (of_char c) :: u8)) = (char_of (0 :: nat) :: char)" by simp
    then have "c = char_of (0 :: nat)" by simp
    then show False using that assms by (simp add: char_of_def)
  qed
  have "takeWhile (\<lambda>b. b \<noteq> 0) (c_chars s @ rest) = map (\<lambda>c. of_nat (of_char c)) s"
    unfolding c_chars_def append_assoc by (subst takeWhile_append2) (auto dest: nz)
  then show ?thesis by (simp add: cstring_def comp_def) (simp add: c_chars_def)
qed

text \<open>A string that ends inside an array of the memory is the string at the place of the array.\<close>

lemma cstring_slice:
  assumes "cstring (take n (drop off m)) 0 = Some s"
  shows "cstring m off = Some s"
proof -
  have z: "0 \<in> set (take n (drop off m))" using assms by (auto simp: cstring_def split: if_splits)
  then have "0 \<in> set (drop off m)" by (meson in_set_takeD)
  moreover have "takeWhile (\<lambda>b. b \<noteq> 0) (drop off m) = takeWhile (\<lambda>b. b \<noteq> 0) (take n (drop off m))"
    using z by (subst append_take_drop_id [of n "drop off m", symmetric], subst takeWhile_append1) auto
  ultimately show ?thesis using assms z by (simp add: cstring_def)
qed

section \<open>Packed structs\<close>

text \<open>The place of a member in a packed struct is the sum of the sizes of the members before it.\<close>

definition field_off :: "('f \<Rightarrow> nat) \<Rightarrow> 'f list \<Rightarrow> 'f \<Rightarrow> nat" where
  "field_off sz fs f = sum_list (map sz (takeWhile (\<lambda>x. x \<noteq> f) fs))"

lemma field_off_Cons: "field_off sz (g # fs) f = (if g = f then 0 else sz g + field_off sz fs f)"
  by (simp add: field_off_def)

lemma field_off_bound: "f \<in> set fs \<Longrightarrow> field_off sz fs f + sz f \<le> sum_list (map sz fs)"
  by (induction fs) (auto simp: field_off_Cons)

lemma field_off_disjoint:
  "f \<in> set fs \<Longrightarrow> g \<in> set fs \<Longrightarrow> f \<noteq> g \<Longrightarrow>
   field_off sz fs f + sz f \<le> field_off sz fs g \<or> field_off sz fs g + sz g \<le> field_off sz fs f"
  by (induction fs) (auto simp: field_off_Cons)

lemma slice_wr_disjoint:
  assumes "wr m off bs = Some m'" and "o2 + n \<le> off \<or> off + length bs \<le> o2" and "o2 + n \<le> length m"
  shows "take n (drop o2 m') = take n (drop o2 m)"
  using rd_wr_disjoint [OF assms(1,2)] assms(3) length_wr [OF assms(1)] by (simp add: rd_def)

lemma slice_wr_inside:
  assumes w: "wr m (off + i) bs = Some m'" and "i + length bs \<le> n" and "off + n \<le> length m"
  shows "wr (take n (drop off m)) i bs = Some (take n (drop off m'))"
proof -
  have len: "length (take n (drop off m)) = n" "length m' = length m"
    using assms(3) length_wr [OF w] by simp_all
  then obtain b where b: "wr (take n (drop off m)) i bs = Some b"
    using wr_fits [of i bs "take n (drop off m)"] assms(2) by auto
  have "b = take n (drop off m')"
  proof (rule nth_equalityI)
    show "length b = length (take n (drop off m'))" using length_wr [OF b] len assms(3) by simp
    fix j assume "j < length b"
    then have j: "j < n" using length_wr [OF b] len by simp
    then show "b ! j = take n (drop off m') ! j"
      using assms(3) len by (simp add: nth_wr [OF b] nth_wr [OF w])
  qed
  then show ?thesis using b by simp
qed

section \<open>Integer codecs\<close>

text \<open>
  \<open>le_enc n x\<close> is the little-endian image of \<open>x\<close> in \<open>n\<close> bytes, the memory of an integer field
  of a packed struct; \<open>le_dec\<close> reads it back. The big-endian pair is the wire format behind
  \<^verbatim>\<open>ntohs\<close> and \<^verbatim>\<open>htons\<close>.
\<close>

primrec le_enc :: "nat \<Rightarrow> 'a::len word \<Rightarrow> bytes" where
  "le_enc 0 x = []"
| "le_enc (Suc n) x = ucast x # le_enc n (drop_bit 8 x)"

primrec le_dec :: "bytes \<Rightarrow> 'a::len word" where
  "le_dec [] = 0"
| "le_dec (b # bs) = ucast b OR push_bit 8 (le_dec bs)"

definition be_enc :: "nat \<Rightarrow> 'a::len word \<Rightarrow> bytes" where
  "be_enc n x = rev (le_enc n x)"

definition be_dec :: "bytes \<Rightarrow> 'a::len word" where
  "be_dec bs = le_dec (rev bs)"

lemma length_le_enc [simp]: "length (le_enc n x) = n"
  by (induction n arbitrary: x) auto

lemma length_be_enc [simp]: "length (be_enc n x) = n"
  by (simp add: be_enc_def)

lemma le_dec_enc_take_bit: "le_dec (le_enc n x) = take_bit (8 * n) x"
proof (induction n arbitrary: x)
  case 0
  then show ?case by simp
next
  case (Suc n)
  show ?case
    by (rule bit_word_eqI)
      (auto simp: Suc.IH bit_simps not_less)
qed

lemma le_dec_enc: "LENGTH('a) \<le> 8 * n \<Longrightarrow> le_dec (le_enc n (x :: 'a::len word)) = x"
  by (simp add: le_dec_enc_take_bit take_bit_word_eq_self)

lemma bit_le_dec: "bit (le_dec bs :: 'a::len word) n \<Longrightarrow> n < 8 * length bs"
proof (induction bs arbitrary: n)
  case Nil
  then show ?case by simp
next
  case (Cons b bs)
  then show ?case
    by (fastforce simp: bit_simps dest: bit_imp_le_length)
qed

lemma le_enc_dec:
  "8 * length bs \<le> LENGTH('a) \<Longrightarrow> le_enc (length bs) (le_dec bs :: 'a::len word) = bs"
proof (induction bs)
  case Nil
  then show ?case by simp
next
  case (Cons b bs)
  have "ucast (ucast b OR push_bit 8 (le_dec bs) :: 'a word) = b"
    using Cons.prems by (intro bit_word_eqI) (auto simp: bit_simps)
  moreover have "drop_bit 8 (ucast b OR push_bit 8 (le_dec bs) :: 'a word)
      = take_bit (LENGTH('a) - 8) (le_dec bs)"
    by (rule bit_word_eqI) (auto simp: bit_simps dest: bit_imp_le_length)
  moreover have "take_bit (LENGTH('a) - 8) (le_dec bs :: 'a word) = le_dec bs"
    using Cons.prems by (intro bit_word_eqI) (auto simp: bit_simps dest: bit_le_dec)
  ultimately show ?case using Cons by simp
qed

lemma be_dec_enc: "LENGTH('a) \<le> 8 * n \<Longrightarrow> be_dec (be_enc n (x :: 'a::len word)) = x"
  by (simp add: be_dec_def be_enc_def le_dec_enc)

section \<open>Decimal strings\<close>

text \<open>\<open>dec_string\<close> is \<^verbatim>\<open>std::to_string\<close> on an unsigned integer; \<open>dec_value\<close> reads digits back.\<close>

definition digit_char :: "nat \<Rightarrow> char" where
  "digit_char d = char_of (48 + d)"

definition is_digit :: "char \<Rightarrow> bool" where
  "is_digit c \<longleftrightarrow> 48 \<le> (of_char c :: nat) \<and> (of_char c :: nat) \<le> 57"

fun dec_string :: "nat \<Rightarrow> string" where
  "dec_string n = (if n < 10 then [digit_char n] else dec_string (n div 10) @ [digit_char (n mod 10)])"

declare dec_string.simps [simp del]

definition dec_value :: "string \<Rightarrow> nat" where
  "dec_value cs = foldl (\<lambda>v c. v * 10 + (of_char c - 48)) 0 cs"

lemma of_char_digit [simp]: "d < 10 \<Longrightarrow> (of_char (digit_char d) :: nat) = 48 + d"
  by (simp add: digit_char_def)

lemma is_digit_digit_char [simp]: "d < 10 \<Longrightarrow> is_digit (digit_char d)"
  by (simp add: is_digit_def)

lemma dec_value_dec_string [simp]: "dec_value (dec_string n) = n"
proof (induction n rule: dec_string.induct)
  case (1 n)
  then show ?case by (subst dec_string.simps) (auto simp: dec_value_def)
qed

lemma dec_string_inj: "dec_string m = dec_string n \<longleftrightarrow> m = n"
  by (metis dec_value_dec_string)

lemma dec_string_digits: "list_all is_digit (dec_string n)"
proof (induction n rule: dec_string.induct)
  case (1 n)
  then show ?case by (subst dec_string.simps) auto
qed

lemma dec_string_nonempty [simp]: "dec_string n \<noteq> []"
  by (subst dec_string.simps) simp

section \<open>Arrays and loops with failure\<close>

text \<open>An element of an array, and a loop whose body may fail.\<close>

definition nth_opt :: "'a list \<Rightarrow> nat \<Rightarrow> 'a option" where
  "nth_opt xs i = (if i < length xs then Some (xs ! i) else None)"

primrec foldM :: "('a \<Rightarrow> 's \<Rightarrow> 's option) \<Rightarrow> 'a list \<Rightarrow> 's \<Rightarrow> 's option" where
  "foldM f [] s = Some s"
| "foldM f (x # xs) s = do { s \<leftarrow> f x s; foldM f xs s }"

lemma nth_opt_Some [simp]: "i < length xs \<Longrightarrow> nth_opt xs i = Some (xs ! i)"
  by (simp add: nth_opt_def)

lemma foldM_append: "foldM f (xs @ ys) s = do { s \<leftarrow> foldM f xs s; foldM f ys s }"
  by (induction xs arbitrary: s) (simp_all split: bind_splits)

text \<open>An invariant of the loop together with what it computes.\<close>

lemma foldM_invariant:
  assumes "I xs0 s0" and "\<And>pre x s. I pre s \<Longrightarrow> x \<in> set xs \<Longrightarrow> \<exists>s'. f x s = Some s' \<and> I (pre @ [x]) s'"
  shows "\<exists>s'. foldM f xs s0 = Some s' \<and> I (xs0 @ xs) s'"
  using assms
proof (induction xs arbitrary: xs0 s0)
  case Nil
  then show ?case by simp
next
  case (Cons x xs)
  then obtain s' where s': "f x s0 = Some s'" "I (xs0 @ [x]) s'" by force
  have "\<exists>t. foldM f xs s' = Some t \<and> I ((xs0 @ [x]) @ xs) t"
    by (rule Cons.IH [OF s'(2)]) (simp add: Cons.prems)
  then show ?case using s'(1) by simp
qed

text \<open>A relation between the states before and after the loop that each round keeps.\<close>

lemma foldM_relates:
  assumes "foldM f xs s = Some t" and "R s" and "\<And>x u v. x \<in> set xs \<Longrightarrow> R u \<Longrightarrow> f x u = Some v \<Longrightarrow> R v"
  shows "R t"
  using assms
proof (induction xs arbitrary: s)
  case Nil
  then show ?case by simp
next
  case (Cons a xs)
  then obtain u where u: "f a s = Some u" "foldM f xs u = Some t" by (auto split: bind_splits)
  have "R u" by (rule Cons.prems(3) [OF _ Cons.prems(2) u(1)]) simp
  from u(2) this show ?case
  proof (rule Cons.IH)
    fix x u v assume "x \<in> set xs" "R u" "f x u = Some v"
    from \<open>x \<in> set xs\<close> have "x \<in> set (a # xs)" by (rule list.set_intros)
    from Cons.prems(3) [OF this \<open>R u\<close> \<open>f x u = Some v\<close>] show "R v" .
  qed
qed

section \<open>Ordered maps\<close>

text \<open>A \<^verbatim>\<open>std::map\<close>, as a list in key order.\<close>

fun cmap_put :: "'k::linorder \<Rightarrow> 'v \<Rightarrow> ('k \<times> 'v) list \<Rightarrow> ('k \<times> 'v) list" where
  "cmap_put k v [] = [(k, v)]"
| "cmap_put k v ((k', v') # m) =
     (if k < k' then (k, v) # (k', v') # m
      else if k = k' then (k, v) # m
      else (k', v') # cmap_put k v m)"

definition cmap_erase :: "'k \<Rightarrow> ('k \<times> 'v) list \<Rightarrow> ('k \<times> 'v) list" where
  "cmap_erase k m = filter (\<lambda>(k', _). k' \<noteq> k) m"

lemma map_of_cmap_put [simp]: "map_of (cmap_put k v m) = (map_of m)(k \<mapsto> v)"
  by (induction k v m rule: cmap_put.induct) auto

lemma map_of_cmap_erase [simp]: "map_of (cmap_erase k m) = (map_of m)(k := None)"
proof (induction m)
  case Nil
  then show ?case by (simp add: cmap_erase_def)
next
  case (Cons a m)
  then show ?case by (cases a) (auto simp: cmap_erase_def)
qed

lemma cmap_put_cases:
  "(\<exists>xs ys. m = xs @ ys \<and> cmap_put k v m = xs @ (k, v) # ys) \<or>
   (\<exists>xs w ys. m = xs @ (k, w) # ys \<and> cmap_put k v m = xs @ (k, v) # ys)"
proof (induction k v m rule: cmap_put.induct)
  case (1 k v)
  then show ?case by simp
next
  case (2 k v k' v' m)
  show ?case
  proof (cases "k < k'")
    case True
    then have "(k', v') # m = [] @ ((k', v') # m)" "cmap_put k v ((k', v') # m) = [] @ (k, v) # ((k', v') # m)"
      by simp_all
    then show ?thesis by blast
  next
    case False
    show ?thesis
    proof (cases "k = k'")
      case True
      then have "(k', v') # m = [] @ (k, v') # m" "cmap_put k v ((k', v') # m) = [] @ (k, v) # m"
        by simp_all
      then show ?thesis by blast
    next
      case k: False
      then have e: "cmap_put k v ((k', v') # m) = (k', v') # cmap_put k v m" using False by simp
      from 2 [OF False k] show ?thesis
      proof
        assume "\<exists>xs ys. m = xs @ ys \<and> cmap_put k v m = xs @ (k, v) # ys"
        then obtain xs ys where "m = xs @ ys" "cmap_put k v m = xs @ (k, v) # ys" by blast
        then have "(k', v') # m = ((k', v') # xs) @ ys"
          "cmap_put k v ((k', v') # m) = ((k', v') # xs) @ (k, v) # ys" using e by simp_all
        then show ?thesis by blast
      next
        assume "\<exists>xs w ys. m = xs @ (k, w) # ys \<and> cmap_put k v m = xs @ (k, v) # ys"
        then obtain xs w ys where "m = xs @ (k, w) # ys" "cmap_put k v m = xs @ (k, v) # ys" by blast
        then have "(k', v') # m = ((k', v') # xs) @ (k, w) # ys"
          "cmap_put k v ((k', v') # m) = ((k', v') # xs) @ (k, v) # ys" using e by simp_all
        then show ?thesis by blast
      qed
    qed
  qed
qed

lemma set_keys_cmap_put [simp]: "set (map fst (cmap_put k v m)) = insert k (set (map fst m))"
  by (induction k v m rule: cmap_put.induct) auto

lemma sorted_cmap_put: "sorted_wrt (<) (map fst m) \<Longrightarrow> sorted_wrt (<) (map fst (cmap_put k v m))"
proof (induction k v m rule: cmap_put.induct)
  case (1 k v)
  then show ?case by simp
next
  case (2 k v k' v' m)
  have "\<forall>x \<in> set (map fst (cmap_put k v m)). k' < x" if "k' < k"
    using 2(2) that by (simp only: set_keys_cmap_put) auto
  then show ?case using 2 by auto
qed

end
