(* ===== verification/Rs_BasicAttr.thy ===== *)
theory Rs_BasicAttr
  imports Prelude
begin

text \<open>
  The basic attributes of RoboSense packets (\<^verbatim>\<open>rs_driver/driver/decoder/basic_attr.hpp\<close>): the
  UTC time stamp, the two temperature encodings and the CRC-32 of an MSOP packet. Shown here:
  creating and parsing a time stamp are inverse, the temperature formats denote sign and
  magnitude, the table-driven CRC is the bit-serial one, a CRC may be computed in pieces, and a
  corrupted byte never passes the check.
\<close>

section \<open>UTC time stamps\<close>

record RSTimestampUTC =
  utc_sec :: bytes
  utc_ss :: bytes

definition wf_utc :: "RSTimestampUTC \<Rightarrow> bool" where
  "wf_utc ts \<longleftrightarrow> length (utc_sec ts) = 6 \<and> length (utc_ss ts) = 4"

text \<open>
  The loops \<^verbatim>\<open>sec <<= 8; sec += b\<close> over a byte array, and \<^verbatim>\<open>a[i] = sec & 0xFF; sec >>= 8\<close>
  downwards over an array of \<open>n\<close> bytes. The macro \<^verbatim>\<open>ENABLE_STAMP_WITH_LOCAL\<close> is the argument
  \<open>tz\<close>: \<^term>\<open>None\<close> when it is not defined, \<^term>\<open>Some z\<close> when it is, with \<open>z\<close> the value of
  \<^verbatim>\<open>getTimezone()\<close> converted to 64 bits.
\<close>

definition shift_in :: "bytes \<Rightarrow> u64" where
  "shift_in bs = foldl (\<lambda>acc b. push_bit 8 acc + ucast b) 0 bs"

fun shift_out :: "nat \<Rightarrow> u64 \<Rightarrow> bytes" where
  "shift_out 0 v = []"
| "shift_out (Suc n) v = shift_out n (drop_bit 8 v) @ [ucast (v AND 0xFF)]"

definition parseTimeUTCWithUs :: "u64 option \<Rightarrow> RSTimestampUTC \<Rightarrow> u64" where
  "parseTimeUTCWithUs tz ts =
     (let sec = shift_in (utc_sec ts);
          us = shift_in (utc_ss ts);
          sec = (case tz of None \<Rightarrow> sec | Some z \<Rightarrow> sec - z)
      in sec * 1000000 + us)"

definition parseTimeUTCWithNs :: "u64 option \<Rightarrow> RSTimestampUTC \<Rightarrow> u64" where
  "parseTimeUTCWithNs tz ts =
     (let sec = shift_in (utc_sec ts);
          ns = shift_in (utc_ss ts);
          sec = (case tz of None \<Rightarrow> sec | Some z \<Rightarrow> sec - z)
      in sec * 1000000000 + ns)"

definition createTimeUTCWithUs :: "u64 option \<Rightarrow> u64 \<Rightarrow> RSTimestampUTC" where
  "createTimeUTCWithUs tz us =
     (let sec = us div 1000000;
          usec = us mod 1000000;
          sec = (case tz of None \<Rightarrow> sec | Some z \<Rightarrow> sec + z)
      in \<lparr>utc_sec = shift_out 6 sec, utc_ss = shift_out 4 usec\<rparr>)"

definition createTimeUTCWithNs :: "u64 option \<Rightarrow> u64 \<Rightarrow> RSTimestampUTC" where
  "createTimeUTCWithNs tz ns =
     (let sec = ns div 1000000000;
          nanoSec = ns mod 1000000000;
          sec = (case tz of None \<Rightarrow> sec | Some z \<Rightarrow> sec + z)
      in \<lparr>utc_sec = shift_out 6 sec, utc_ss = shift_out 4 nanoSec\<rparr>)"

lemma length_shift_out [simp]: "length (shift_out n v) = n"
  by (induction n arbitrary: v) auto

lemma shift_in_snoc: "shift_in (bs @ [b]) = push_bit 8 (shift_in bs) + ucast b"
  by (simp add: shift_in_def)

lemma shift_in_out: "shift_in (shift_out n v) = take_bit (8 * n) v"
proof (induction n arbitrary: v)
  case 0
  then show ?case by (simp add: shift_in_def)
next
  case (Suc n)
  have "shift_in (shift_out (Suc n) v)
      = push_bit 8 (take_bit (8 * n) (drop_bit 8 v)) + ucast (ucast (v AND 0xFF) :: u8)"
    by (simp add: shift_in_snoc Suc.IH)
  also have "\<dots> = push_bit 8 (take_bit (8 * n) (drop_bit 8 v)) OR ucast (ucast (v AND 0xFF) :: u8)"
    by (rule disjunctive_add) (auto simp: bit_simps dest: bit_imp_le_length)
  also have "\<dots> = take_bit (8 * Suc n) v"
  proof (rule bit_word_eqI)
    fix i :: nat
    have m: "(0xFF :: u64) = mask 8" by (simp add: mask_eq_exp_minus_1)
    assume "i < LENGTH(64)"
    then show "bit (push_bit 8 (take_bit (8 * n) (drop_bit 8 v)) OR
        ucast (ucast (v AND 0xFF) :: u8)) i = bit (take_bit (8 * Suc n) v) i"
      unfolding m by (auto simp: bit_simps)
  qed
  finally show ?case .
qed

lemma take_bit_small: "unat (x :: 'a::len word) < 2 ^ n \<Longrightarrow> take_bit n x = x"
  by (simp add: word_unat_eq_iff unsigned_take_bit_eq take_bit_nat_eq_self_iff)

lemma unat_div_less_48: "1000000 \<le> unat k \<Longrightarrow> unat ((x :: u64) div k) < 2 ^ 48"
proof -
  assume k: "1000000 \<le> unat k"
  have "unat x div unat k \<le> unat x div 1000000" using k by (simp add: div_le_mono2)
  also have "\<dots> < 2 ^ 48" using unat_less [of x] by simp
  finally show ?thesis by (simp add: unat_div)
qed

text \<open>Shared by both resolutions: the parts of a time stamp survive the byte arrays.\<close>

lemma shift_in_sec:
  assumes "unat (s :: u64) < 2 ^ 48"
  shows "shift_in (shift_out 6 s) = s"
  using assms by (simp add: shift_in_out take_bit_small)

lemma shift_in_sub:
  assumes "0 < unat (k :: u64)" and "unat k \<le> 2 ^ 32"
  shows "shift_in (shift_out 4 (x mod k)) = x mod k"
proof -
  have "unat (x mod k) < 2 ^ 32"
    using assms by (simp add: unat_mod) (meson mod_less_divisor order_less_le_trans)
  then show ?thesis by (simp add: shift_in_out take_bit_small)
qed

lemma word_div_mod_recombine: "(x :: 'a::len word) div k * k + x mod k = x"
  by (simp add: word_mod_div_equality)

text \<open>Creating a UTC time stamp and parsing it back is the identity, in microseconds and in
  nanoseconds, for every 64-bit instant.\<close>

theorem create_parse_us:
  "parseTimeUTCWithUs None (createTimeUTCWithUs None us) = us \<and>
   parseTimeUTCWithNs None (createTimeUTCWithNs None us) = us"
proof -
  have "shift_in (shift_out 6 (us div 1000000)) = us div 1000000"
    and "shift_in (shift_out 6 (us div 1000000000)) = us div 1000000000"
    by (rule shift_in_sec, rule unat_div_less_48, simp)+
  moreover have "shift_in (shift_out 4 (us mod 1000000)) = us mod 1000000"
    and "shift_in (shift_out 4 (us mod 1000000000)) = us mod 1000000000"
    by (rule shift_in_sub; simp)+
  ultimately show ?thesis
    by (simp add: parseTimeUTCWithUs_def createTimeUTCWithUs_def parseTimeUTCWithNs_def
        createTimeUTCWithNs_def word_div_mod_recombine)
qed

text \<open>With the time zone correction the seconds must still fit the six bytes of the packet.\<close>

lemma create_parse_local:
  assumes "unat (us div 1000000 + z) < 2 ^ 48"
  shows "parseTimeUTCWithUs (Some z) (createTimeUTCWithUs (Some z) us) = us"
proof -
  have "shift_in (shift_out 6 (us div 1000000 + z)) = us div 1000000 + z"
    using assms by (rule shift_in_sec)
  moreover have "shift_in (shift_out 4 (us mod 1000000)) = us mod 1000000"
    by (rule shift_in_sub) simp_all
  ultimately show ?thesis
    by (simp add: parseTimeUTCWithUs_def createTimeUTCWithUs_def word_div_mod_recombine)
qed

section \<open>Temperatures\<close>

record RSTemperature =
  tt0 :: u8
  tt1 :: u8

definition parseTempInLe :: "RSTemperature \<Rightarrow> u16" where
  "parseTempInLe tmp =
     (let lsb = drop_bit 3 (tt0 tmp);
          neg = tt1 tmp AND 0x80;
          msb = tt1 tmp AND 0x7F;
          t = push_bit 5 (ucast msb :: u16) + ucast lsb
      in if neg \<noteq> 0 then - t else t)"

definition parseTempInBe :: "RSTemperature \<Rightarrow> u16" where
  "parseTempInBe tmp =
     (let neg = tt0 tmp AND 0x80;
          msb = tt0 tmp AND 0x7F;
          lsb = drop_bit 4 (tt1 tmp);
          t = push_bit 4 (ucast msb :: u16) + ucast lsb
      in if neg \<noteq> 0 then - t else t)"

text \<open>A sign bit of its own and a magnitude below \<open>2 ^ 15\<close> give the signed value.\<close>

lemma sint_small_u16:
  assumes "unat (x :: u16) < 2 ^ 15"
  shows "sint x = int (unat x)" and "sint (- x) = - int (unat x)"
proof -
  have conv: "sint (word_of_int k :: u16) = k" if "- 32768 \<le> k" and "k < 32768" for k
    using that by (simp add: sint_sbintrunc' signed_take_bit_int_eq_self)
  have "unat x < 32768" using assms by simp
  then have b: "int (unat x) < 32768" by linarith
  have "sint (word_of_int (int (unat x)) :: u16) = int (unat x)" using b by (intro conv) linarith+
  then show "sint x = int (unat x)" by simp
  have "sint (word_of_int (- int (unat x)) :: u16) = - int (unat x)" using b by (intro conv) linarith+
  then show "sint (- x) = - int (unat x)" by simp
qed

lemma unat_and_7F: "unat (x AND 0x7F :: u8) = unat x mod 128"
proof -
  have "(0x7F :: u8) = mask 7" by (simp add: mask_eq_exp_minus_1)
  then have "x AND 0x7F = take_bit 7 x" by (simp only: take_bit_eq_mask)
  then have "unat (x AND 0x7F) = take_bit 7 (unat x)" by (simp only: unsigned_take_bit_eq)
  then show ?thesis by (simp add: take_bit_eq_mod)
qed

lemma and_80_bit: "(x AND 0x80 :: u8) \<noteq> 0 \<longleftrightarrow> bit x 7"
proof -
  have "(0x80 :: u8) = 2 ^ 7" by simp
  then show ?thesis by (metis and_exp_eq_0_iff_not_bit)
qed

lemma unat_magnitude:
  assumes "unat (m :: u8) < 128" and "unat (l :: u8) < 2 ^ k" and "k \<le> 5"
  shows "unat (push_bit k (ucast m :: u16) + ucast l) = 2 ^ k * unat m + unat l"
proof -
  have "(2 :: nat) ^ k \<le> 2 ^ 5" using assms(3) by (intro power_increasing) simp_all
  then have b: "2 ^ k * unat m \<le> 32 * 127" using assms(1) by (intro mult_mono) auto
  have "unat (push_bit k (ucast m :: u16)) = 2 ^ k * unat m"
    using b by (simp only: unsigned_push_bit_eq)
      (simp add: push_bit_eq_mult unat_ucast_u8 take_bit_nat_eq_self_iff mult.commute)
  then show ?thesis
    using b assms(2) \<open>2 ^ k \<le> 2 ^ 5\<close> by (simp add: unat_word_ariths unat_ucast_u8)
qed

text \<open>Both temperature formats denote a sign bit and a 12- or 11-bit magnitude, and the code
  returns the signed value of it.\<close>

theorem parseTemp_value:
  "sint (parseTempInLe t)
    = (if bit (tt1 t) 7 then - 1 else 1) * int (32 * (unat (tt1 t) mod 128) + unat (tt0 t) div 8) \<and>
   sint (parseTempInBe t)
    = (if bit (tt0 t) 7 then - 1 else 1) * int (16 * (unat (tt0 t) mod 128) + unat (tt1 t) div 16)"
proof -
  have le: "unat (push_bit 5 (ucast (tt1 t AND 0x7F) :: u16) + ucast (drop_bit 3 (tt0 t)))
      = 2 ^ 5 * (unat (tt1 t) mod 128) + unat (tt0 t) div 8"
    by (subst unat_magnitude)
      (simp_all add: unat_and_7F unsigned_drop_bit_eq drop_bit_eq_div unat_div less_mult_imp_div_less)
  have be: "unat (push_bit 4 (ucast (tt0 t AND 0x7F) :: u16) + ucast (drop_bit 4 (tt1 t)))
      = 2 ^ 4 * (unat (tt0 t) mod 128) + unat (tt1 t) div 16"
    by (subst unat_magnitude)
      (simp_all add: unat_and_7F unsigned_drop_bit_eq drop_bit_eq_div unat_div less_mult_imp_div_less)
  have small: "32 * (a mod 128) + b div 8 < 2 ^ 15 \<and> 16 * (a mod 128) + b div 16 < 2 ^ 15"
    if "b < 256" for a b :: nat
  proof -
    have "a mod 128 \<le> 127" and "b div 8 \<le> 31" and "b div 16 \<le> 15" using that by auto
    then show ?thesis by simp
  qed
  note sle = sint_small_u16 [OF le [THEN ord_eq_less_trans]]
    and sbe = sint_small_u16 [OF be [THEN ord_eq_less_trans]]
  have "2 ^ 5 * (unat (tt1 t) mod 128) + unat (tt0 t) div 8 < 2 ^ 15"
    and "2 ^ 4 * (unat (tt0 t) mod 128) + unat (tt1 t) div 16 < 2 ^ 15"
    using small [of "unat (tt0 t)" "unat (tt1 t)"] small [of "unat (tt1 t)" "unat (tt0 t)"] by simp_all
  note sle = sle [OF this(1), unfolded le] and sbe = sbe [OF this(2), unfolded be]
  show ?thesis
    unfolding parseTempInLe_def parseTempInBe_def Let_def and_80_bit
    by (cases "bit (tt1 t) 7"; cases "bit (tt0 t) 7")
      (simp_all only: if_True if_False sle sbe not_True_eq_False not_False_eq_True, simp_all)
qed

section \<open>CRC-32\<close>

definition crc32table :: "u32 list" where
  "crc32table = concat [
    [0x00000000, 0x77073096, 0xee0e612c, 0x990951ba, 0x076dc419, 0x706af48f,
     0xe963a535, 0x9e6495a3, 0x0edb8832, 0x79dcb8a4, 0xe0d5e91e, 0x97d2d988,
     0x09b64c2b, 0x7eb17cbd, 0xe7b82d07, 0x90bf1d91],
    [0x1db71064, 0x6ab020f2, 0xf3b97148, 0x84be41de, 0x1adad47d, 0x6ddde4eb,
     0xf4d4b551, 0x83d385c7, 0x136c9856, 0x646ba8c0, 0xfd62f97a, 0x8a65c9ec,
     0x14015c4f, 0x63066cd9, 0xfa0f3d63, 0x8d080df5],
    [0x3b6e20c8, 0x4c69105e, 0xd56041e4, 0xa2677172, 0x3c03e4d1, 0x4b04d447,
     0xd20d85fd, 0xa50ab56b, 0x35b5a8fa, 0x42b2986c, 0xdbbbc9d6, 0xacbcf940,
     0x32d86ce3, 0x45df5c75, 0xdcd60dcf, 0xabd13d59],
    [0x26d930ac, 0x51de003a, 0xc8d75180, 0xbfd06116, 0x21b4f4b5, 0x56b3c423,
     0xcfba9599, 0xb8bda50f, 0x2802b89e, 0x5f058808, 0xc60cd9b2, 0xb10be924,
     0x2f6f7c87, 0x58684c11, 0xc1611dab, 0xb6662d3d],
    [0x76dc4190, 0x01db7106, 0x98d220bc, 0xefd5102a, 0x71b18589, 0x06b6b51f,
     0x9fbfe4a5, 0xe8b8d433, 0x7807c9a2, 0x0f00f934, 0x9609a88e, 0xe10e9818,
     0x7f6a0dbb, 0x086d3d2d, 0x91646c97, 0xe6635c01],
    [0x6b6b51f4, 0x1c6c6162, 0x856530d8, 0xf262004e, 0x6c0695ed, 0x1b01a57b,
     0x8208f4c1, 0xf50fc457, 0x65b0d9c6, 0x12b7e950, 0x8bbeb8ea, 0xfcb9887c,
     0x62dd1ddf, 0x15da2d49, 0x8cd37cf3, 0xfbd44c65],
    [0x4db26158, 0x3ab551ce, 0xa3bc0074, 0xd4bb30e2, 0x4adfa541, 0x3dd895d7,
     0xa4d1c46d, 0xd3d6f4fb, 0x4369e96a, 0x346ed9fc, 0xad678846, 0xda60b8d0,
     0x44042d73, 0x33031de5, 0xaa0a4c5f, 0xdd0d7cc9],
    [0x5005713c, 0x270241aa, 0xbe0b1010, 0xc90c2086, 0x5768b525, 0x206f85b3,
     0xb966d409, 0xce61e49f, 0x5edef90e, 0x29d9c998, 0xb0d09822, 0xc7d7a8b4,
     0x59b33d17, 0x2eb40d81, 0xb7bd5c3b, 0xc0ba6cad],
    [0xedb88320, 0x9abfb3b6, 0x03b6e20c, 0x74b1d29a, 0xead54739, 0x9dd277af,
     0x04db2615, 0x73dc1683, 0xe3630b12, 0x94643b84, 0x0d6d6a3e, 0x7a6a5aa8,
     0xe40ecf0b, 0x9309ff9d, 0x0a00ae27, 0x7d079eb1],
    [0xf00f9344, 0x8708a3d2, 0x1e01f268, 0x6906c2fe, 0xf762575d, 0x806567cb,
     0x196c3671, 0x6e6b06e7, 0xfed41b76, 0x89d32be0, 0x10da7a5a, 0x67dd4acc,
     0xf9b9df6f, 0x8ebeeff9, 0x17b7be43, 0x60b08ed5],
    [0xd6d6a3e8, 0xa1d1937e, 0x38d8c2c4, 0x4fdff252, 0xd1bb67f1, 0xa6bc5767,
     0x3fb506dd, 0x48b2364b, 0xd80d2bda, 0xaf0a1b4c, 0x36034af6, 0x41047a60,
     0xdf60efc3, 0xa867df55, 0x316e8eef, 0x4669be79],
    [0xcb61b38c, 0xbc66831a, 0x256fd2a0, 0x5268e236, 0xcc0c7795, 0xbb0b4703,
     0x220216b9, 0x5505262f, 0xc5ba3bbe, 0xb2bd0b28, 0x2bb45a92, 0x5cb36a04,
     0xc2d7ffa7, 0xb5d0cf31, 0x2cd99e8b, 0x5bdeae1d],
    [0x9b64c2b0, 0xec63f226, 0x756aa39c, 0x026d930a, 0x9c0906a9, 0xeb0e363f,
     0x72076785, 0x05005713, 0x95bf4a82, 0xe2b87a14, 0x7bb12bae, 0x0cb61b38,
     0x92d28e9b, 0xe5d5be0d, 0x7cdcefb7, 0x0bdbdf21],
    [0x86d3d2d4, 0xf1d4e242, 0x68ddb3f8, 0x1fda836e, 0x81be16cd, 0xf6b9265b,
     0x6fb077e1, 0x18b74777, 0x88085ae6, 0xff0f6a70, 0x66063bca, 0x11010b5c,
     0x8f659eff, 0xf862ae69, 0x616bffd3, 0x166ccf45],
    [0xa00ae278, 0xd70dd2ee, 0x4e048354, 0x3903b3c2, 0xa7672661, 0xd06016f7,
     0x4969474d, 0x3e6e77db, 0xaed16a4a, 0xd9d65adc, 0x40df0b66, 0x37d83bf0,
     0xa9bcae53, 0xdebb9ec5, 0x47b2cf7f, 0x30b5ffe9],
    [0xbdbdf21c, 0xcabac28a, 0x53b39330, 0x24b4a3a6, 0xbad03605, 0xcdd70693,
     0x54de5729, 0x23d967bf, 0xb3667a2e, 0xc4614ab8, 0x5d681b02, 0x2a6f2b94,
     0xb40bbe37, 0xc30c8ea1, 0x5a05df1b, 0x2d02ef8d]]"

definition crc32_byte :: "u32 \<Rightarrow> u8 \<Rightarrow> u32" where
  "crc32_byte v d = crc32table ! unat (ucast v XOR d) XOR drop_bit 8 v"

definition calcCrc32 :: "bytes \<Rightarrow> u32 \<Rightarrow> bool \<Rightarrow> u32" where
  "calcCrc32 data startValue isFirstCall =
     (let v = (if isFirstCall then 0xFFFFFFFF else startValue XOR 0xFFFFFFFF)
      in foldl crc32_byte v data XOR 0xFFFFFFFF)"

text \<open>
  \<^verbatim>\<open>isCrc32Correct(pkt, size)\<close>: \<open>size - 6\<close> is computed in \<^verbatim>\<open>size_t\<close>, so a packet shorter than
  six bytes makes the code read far outside it.
\<close>

definition isCrc32Correct :: "bytes \<Rightarrow> bool option" where
  "isCrc32Correct pkt =
     (let size = length pkt in
      if size < 6 then None else
      do {
        body \<leftarrow> rd pkt 0 (size - 6);
        let expected = calcCrc32 body 0 True;
        counter \<leftarrow> rd pkt (size - 2) 2;
        let expected = calcCrc32 counter expected False;
        stored \<leftarrow> rd pkt (size - 6) 4;
        let actual = be_dec stored;
        Some (expected = actual)
      })"

text \<open>The reference: the reflected polynomial, one bit at a time.\<close>

definition crc32_bit :: "u32 \<Rightarrow> u32" where
  "crc32_bit v = (if bit v 0 then drop_bit 1 v XOR 0xEDB88320 else drop_bit 1 v)"

definition crc32_ref :: "bytes \<Rightarrow> u32" where
  "crc32_ref data = NOT (foldl (\<lambda>v d. (crc32_bit ^^ 8) (v XOR ucast d)) (NOT 0) data)"

subsection \<open>The table is the bit-serial division\<close>

text \<open>
  The 256 entries are evaluated once, over the integers, where the kernel computes fastest;
  \<open>crc32_bit_int\<close> carries the result over to words.
\<close>

definition crc_int :: "int \<Rightarrow> int" where
  "crc_int v = (if odd v then (v div 2) XOR 0xEDB88320 else v div 2)"

definition crc_int8 :: "int \<Rightarrow> int" where
  "crc_int8 v = crc_int (crc_int (crc_int (crc_int (crc_int (crc_int (crc_int (crc_int v)))))))"

fun table_ok :: "int \<Rightarrow> int list \<Rightarrow> bool" where
  "table_ok k [] = True"
| "table_ok k (t # ts) = (t = crc_int8 k \<and> table_ok (k + 1) ts)"

lemma crc32table_all: "table_ok 0 (map uint crc32table)"
  by code_simp

lemma table_ok_nth: "table_ok k ts \<Longrightarrow> i < length ts \<Longrightarrow> ts ! i = crc_int8 (k + int i)"
proof (induction ts arbitrary: k i)
  case Nil
  then show ?case by simp
next
  case (Cons t ts)
  then show ?case using Cons.IH [of "k + 1" "i - 1"] by (cases i) (auto simp: algebra_simps)
qed

lemma uint_crc32_bit: "uint (crc32_bit v) = crc_int (uint v)"
proof -
  have "uint (drop_bit 1 v) = uint v div 2" by (simp add: drop_bit_eq_div uint_div)
  moreover have "bit v 0 = odd (uint v)" by (metis bit_0 bit_uint_iff len_gt_0)
  ultimately show ?thesis
    by (simp add: crc32_bit_def crc_int_def unsigned_xor_eq)
qed

lemma uint_crc32_bits8: "uint ((crc32_bit ^^ 8) v) = crc_int8 (uint v)"
  by (simp add: crc_int8_def uint_crc32_bit eval_nat_numeral)

lemma length_crc32table: "length crc32table = 256"
  by (simp add: crc32table_def)

lemma crc32table_nth: "crc32table ! unat (b :: u8) = (crc32_bit ^^ 8) (ucast b)"
proof -
  have "uint (crc32table ! unat b) = crc_int8 (int (unat b))"
    using table_ok_nth [OF crc32table_all, of "unat b"] by (simp add: length_crc32table)
  also have "int (unat b) = uint (ucast b :: u32)"
    by (subst uint_nat, subst unat_ucast_u8) simp_all
  finally have "uint (crc32table ! unat b) = uint ((crc32_bit ^^ 8) (ucast b :: u32))"
    by (simp only: uint_crc32_bits8)
  then show ?thesis by (simp only: word_uint_eq_iff)
qed

lemma crc32_bit_xor: "crc32_bit (a XOR b) = crc32_bit a XOR crc32_bit b"
  by (rule bit_word_eqI) (auto simp: crc32_bit_def bit_xor_iff bit_drop_bit_eq)

lemma crc32_bits_xor: "(crc32_bit ^^ n) (a XOR b) = (crc32_bit ^^ n) a XOR (crc32_bit ^^ n) b"
  by (induction n) (simp_all add: crc32_bit_xor)

lemma crc32_bits_high: "(\<And>i. i < n \<Longrightarrow> \<not> bit v i) \<Longrightarrow> (crc32_bit ^^ n) v = drop_bit n v"
proof (induction n)
  case 0
  then show ?case by simp
next
  case (Suc n)
  then have "(crc32_bit ^^ n) v = drop_bit n v" by simp
  moreover have "\<not> bit (drop_bit n v) 0"
    using Suc.prems [of n] by (simp add: bit_drop_bit_eq)
  moreover have "crc32_bit x = drop_bit 1 x" if "\<not> bit x 0" for x
    using that by (simp add: crc32_bit_def)
  ultimately show ?case by simp
qed

lemma drop_push_bit_8: "drop_bit 8 (push_bit 8 (drop_bit 8 (v :: u32))) = drop_bit 8 v"
proof (rule bit_word_eqI)
  fix n :: nat
  show "bit (drop_bit 8 (push_bit 8 (drop_bit 8 v))) n = bit (drop_bit 8 v) n"
    using bit_imp_le_length [of v "n + 8"] by (auto simp: bit_simps ac_simps)
qed

lemma crc32_byte_ref: "crc32_byte v d = (crc32_bit ^^ 8) (v XOR ucast d)"
proof -
  let ?lo = "ucast (ucast v XOR d :: u8) :: u32"
  let ?hi = "push_bit 8 (drop_bit 8 v) :: u32"
  have "v XOR ucast d = ?lo XOR ?hi"
    by (rule bit_word_eqI) (auto simp: bit_simps dest: bit_imp_le_length)
  then have "(crc32_bit ^^ 8) (v XOR ucast d) = (crc32_bit ^^ 8) ?lo XOR (crc32_bit ^^ 8) ?hi"
    by (simp only: crc32_bits_xor)
  also have "(crc32_bit ^^ 8) ?hi = drop_bit 8 v"
    by (subst crc32_bits_high) (simp_all add: bit_push_bit_iff drop_push_bit_8)
  finally show ?thesis by (simp only: crc32_byte_def crc32table_nth)
qed

text \<open>C12: the table-driven checksum of a whole buffer equals the bit-serial CRC-32 with the
  reflected polynomial 0xEDB88320.\<close>

theorem calcCrc32_is_reference: "calcCrc32 data s True = crc32_ref data"
proof -
  have all: "(0xFFFFFFFF :: u32) = - 1" by simp
  have "(0xFFFFFFFF :: u32) = NOT 0" and "x XOR 0xFFFFFFFF = NOT x" for x :: u32
    unfolding all by (simp_all only: bit.xor_one_right bit.compl_zero)
  moreover have "crc32_byte = (\<lambda>v d. (crc32_bit ^^ 8) (v XOR ucast d))"
    by (intro ext) (rule crc32_byte_ref)
  ultimately show ?thesis by (simp only: calcCrc32_def crc32_ref_def if_True Let_def)
qed

lemma calcCrc32_append:
  "calcCrc32 (xs @ ys) s True = calcCrc32 ys (calcCrc32 xs s True) False"
  by (simp add: calcCrc32_def xor.assoc)

text \<open>A packet passes the check exactly if its stored big-endian checksum is that of the
  header and data followed by the rolling counter.\<close>

theorem isCrc32Correct_iff:
  assumes "length stored = 4" and "length counter = 2"
  shows "isCrc32Correct (body @ stored @ counter)
    = Some (be_dec stored = calcCrc32 (body @ counter) 0 True)"
  using assms
  by (auto simp: isCrc32Correct_def rd_def calcCrc32_append [of body counter 0])

theorem isCrc32Correct_iff_witness:
  "isCrc32Correct ([1, 2] @ [0x8E, 0x6C, 0x12, 0x2E] @ [3, 4])
    = Some (be_dec [0x8E, 0x6C, 0x12, 0x2E] = calcCrc32 ([1, 2] @ [3, 4]) 0 True)"
  by (rule isCrc32Correct_iff) simp_all

lemma isCrc32Correct_seal:
  assumes "length counter = 2"
  shows "isCrc32Correct (body @ be_enc 4 (calcCrc32 (body @ counter) 0 True) @ counter) = Some True"
  using assms by (simp add: isCrc32Correct_def rd_def calcCrc32_append [of body counter 0] be_dec_enc)

subsection \<open>A corrupted byte changes the checksum\<close>

lemma bit_drop_bit_31: "\<not> bit (drop_bit (Suc 0) (v :: u32)) 31"
  by (auto simp: bit_simps dest: bit_imp_le_length)

lemma bit_crc32_bit_31: "bit (crc32_bit v) 31 = bit v 0"
  using bit_drop_bit_31 [of v] by (simp add: crc32_bit_def bit_xor_iff)

lemma crc32_bit_inj: "crc32_bit v = crc32_bit w \<Longrightarrow> v = w"
proof -
  assume eq: "crc32_bit v = crc32_bit w"
  then have b0: "bit v 0 = bit w 0" using bit_crc32_bit_31 by metis
  then have d: "drop_bit 1 v = drop_bit 1 w"
    using eq by (cases "bit v 0") (auto simp: crc32_bit_def intro: xor_word_cancel)
  show "v = w"
  proof (rule bit_word_eqI)
    fix n :: nat
    show "bit v n = bit w n"
      using b0 arg_cong [OF d, of "\<lambda>x. bit x (n - 1)"] by (cases n) (auto simp: bit_simps)
  qed
qed

lemma crc32_bits_inj: "(crc32_bit ^^ n) v = (crc32_bit ^^ n) w \<Longrightarrow> v = w"
  by (induction n) (auto dest: crc32_bit_inj)

lemma crc32_byte_inj_state: "crc32_byte v d = crc32_byte w d \<Longrightarrow> v = w"
  by (auto simp: crc32_byte_ref dest!: crc32_bits_inj xor_word_cancel)

lemma ucast_u32_inj: "ucast (d :: u8) = (ucast e :: u32) \<Longrightarrow> d = e"
  by (drule arg_cong [where f = unat]) (simp add: unat_ucast_u8 word_unat_eq_iff)

lemma crc32_byte_inj_data: "crc32_byte v d = crc32_byte v e \<Longrightarrow> d = e"
proof -
  assume "crc32_byte v d = crc32_byte v e"
  then have "crc32_byte (v XOR ucast d) 0 = crc32_byte (v XOR ucast e) 0"
    by (simp add: crc32_byte_ref)
  then have "v XOR ucast d = v XOR ucast e" by (rule crc32_byte_inj_state)
  then have "ucast d = (ucast e :: u32)" by (metis bit.xor_left_self)
  then show "d = e" by (metis ucast_u32_inj)
qed

lemma crc32_fold_inj: "foldl crc32_byte v xs = foldl crc32_byte w xs \<Longrightarrow> v = w"
  by (induction xs arbitrary: v w) (auto dest: crc32_byte_inj_state)

lemma calcCrc32_changes:
  assumes "d \<noteq> e"
  shows "calcCrc32 (xs @ d # ys) 0 True \<noteq> calcCrc32 (xs @ e # ys) 0 True"
proof
  let ?v = "foldl crc32_byte 0xFFFFFFFF xs"
  assume "calcCrc32 (xs @ d # ys) 0 True = calcCrc32 (xs @ e # ys) 0 True"
  then have "foldl crc32_byte (crc32_byte ?v d) ys = foldl crc32_byte (crc32_byte ?v e) ys"
    by (auto simp: calcCrc32_def dest: xor_word_cancel)
  then have "crc32_byte ?v d = crc32_byte ?v e" by (rule crc32_fold_inj)
  then show False using assms by (auto dest: crc32_byte_inj_data)
qed

lemma calcCrc32_update:
  assumes "i < length xs" and "xs ! i \<noteq> b"
  shows "calcCrc32 (xs[i := b]) 0 True \<noteq> calcCrc32 xs 0 True"
proof -
  have u: "xs[i := b] = take i xs @ b # drop (Suc i) xs" using assms(1) by (rule upd_conv_take_nth_drop)
  have x: "take i xs @ xs ! i # drop (Suc i) xs = xs" using assms(1) by (rule id_take_nth_drop [symmetric])
  have "calcCrc32 (take i xs @ b # drop (Suc i) xs) 0 True \<noteq> calcCrc32 (take i xs @ xs ! i # drop (Suc i) xs) 0 True"
    by (rule calcCrc32_changes [OF not_sym [OF assms(2)]])
  then show ?thesis unfolding u x .
qed

lemma be_dec_inj:
  assumes "(be_dec xs :: 'a::len word) = be_dec ys" and "length xs = length ys" and "8 * length xs \<le> LENGTH('a)"
  shows "xs = ys"
proof -
  have x: "rev xs = le_enc (length xs) (be_dec xs :: 'a word)"
    using le_enc_dec [of "rev xs", where ?'a = 'a] assms(3) by (simp add: be_dec_def)
  have y: "rev ys = le_enc (length ys) (be_dec ys :: 'a word)"
    using le_enc_dec [of "rev ys", where ?'a = 'a] assms(2,3) by (simp add: be_dec_def)
  have "rev xs = rev ys" unfolding x y assms(1,2) ..
  then show ?thesis by simp
qed

text \<open>C20: a packet that passes the check fails it when any one of its bytes is replaced by another value,
  whether the byte is one that the checksum covers, header, data or rolling counter, or one of the stored checksum.\<close>

theorem crc32_detects_byte_error:
  assumes "isCrc32Correct pkt = Some True" and "i < length pkt" and "pkt ! i \<noteq> b"
  shows "isCrc32Correct (pkt[i := b]) = Some False"
proof -
  have "6 \<le> length pkt" using assms(1) by (simp add: isCrc32Correct_def Let_def split: if_splits)
  then obtain body stored counter where split: "pkt = body @ stored @ counter" and len: "length stored = 4" "length counter = 2"
    using that [of "take (length pkt - 6) pkt" "take 4 (drop (length pkt - 6) pkt)" "drop 4 (drop (length pkt - 6) pkt)"]
    by (simp del: drop_drop)
  have ok: "be_dec stored = calcCrc32 (body @ counter) 0 True"
    using assms(1) isCrc32Correct_iff [OF len] split by simp
  consider "i < length body" | j where "i = length body + j" "j < 4" | j where "i = length body + (4 + j)" "j < 2"
  proof (cases "i < length body + 4")
    case True
    then show ?thesis using that(1) that(2) [of "i - length body"] by (cases "i < length body") simp_all
  next
    case False
    then show ?thesis using that(3) [of "i - length body - 4"] assms(2) split len by simp
  qed
  then show ?thesis
  proof cases
    case 1
    then have "calcCrc32 ((body @ counter)[i := b]) 0 True \<noteq> calcCrc32 (body @ counter) 0 True"
      using assms(3) split by (intro calcCrc32_update) (simp_all add: nth_append)
    then show ?thesis using 1 len ok split isCrc32Correct_iff [OF len, of "body[i := b]"] by (simp add: list_update_append1)
  next
    case 2
    then have "stored[j := b] \<noteq> stored" using assms(3) split len by (auto simp: nth_append list_update_same_conv)
    then have "be_dec (stored[j := b]) \<noteq> (be_dec stored :: u32)" using be_dec_inj [of "stored[j := b]" stored, where ?'a = 32] len by auto
    then show ?thesis
      using 2 len ok split isCrc32Correct_iff [of "stored[j := b]" counter body] by (simp add: list_update_append)
  next
    case 3
    then have "calcCrc32 ((body @ counter)[length body + j := b]) 0 True \<noteq> calcCrc32 (body @ counter) 0 True"
      using assms(3) split len by (intro calcCrc32_update) (simp_all add: nth_append)
    then show ?thesis
      using 3 len ok split isCrc32Correct_iff [of stored "counter[j := b]" body] by (simp add: list_update_append)
  qed
qed

definition sealed_packet :: bytes where
  "sealed_packet = [1, 2] @ be_enc 4 (calcCrc32 ([1, 2] @ [3, 4]) 0 True) @ [3, 4]"

theorem crc32_detects_byte_error_witness:
  "isCrc32Correct (sealed_packet[0 := 7]) = Some False \<and> isCrc32Correct (sealed_packet[7 := 5]) = Some False"
proof -
  have "isCrc32Correct sealed_packet = Some True" unfolding sealed_packet_def by (rule isCrc32Correct_seal) simp
  moreover have "length sealed_packet = 8" "sealed_packet ! 0 = 1" "sealed_packet ! 7 = 4"
    by (simp_all add: sealed_packet_def nth_append)
  ultimately show ?thesis using crc32_detects_byte_error by simp
qed

end
