(* ===== verification/Rs_Section.thy ===== *)
theory Rs_Section
  imports Prelude "HOL-Library.Signed_Division"
begin

text \<open>
  Azimuth and distance sections (\<^verbatim>\<open>rs_driver/driver/decoder/section.hpp\<close>), the filters a decoder
  applies to every point. Angles are in hundredths of a degree. The C++ type is \<^verbatim>\<open>int32_t\<close>; the
  constructor is only called on user angles of a few turns, far from overflow, so the model uses
  integers, with the division of C++ that truncates towards zero.
\<close>

record AzimuthSection =
  full_round :: bool
  sec_start :: int
  sec_end :: int
  cross_zero :: bool

definition round_angle :: "int \<Rightarrow> int" where
  "round_angle v = (v smod 36000 + 36000) smod 36000"

definition mk_AzimuthSection :: "int \<Rightarrow> int \<Rightarrow> AzimuthSection" where
  "mk_AzimuthSection a_start a_end =
     (let s = round_angle a_start; e = round_angle a_end in
      \<lparr>full_round = (round_angle (a_end - a_start) = 0), sec_start = s, sec_end = e, cross_zero = (s > e)\<rparr>)"

definition azimuth_in :: "AzimuthSection \<Rightarrow> int \<Rightarrow> bool" where
  "azimuth_in sec angle =
     (if full_round sec then True
      else if cross_zero sec then angle \<ge> sec_start sec \<or> angle < sec_end sec
      else angle \<ge> sec_start sec \<and> angle < sec_end sec)"

text \<open>
  Distances are floats; the section only compares them, so it is a function over any ordered type
  with a zero, and no law of floating-point arithmetic is used.
\<close>

record 'f DistanceSection =
  sec_min :: 'f
  sec_max :: 'f

definition mk_DistanceSection :: "'f::{zero,ord} \<Rightarrow> 'f \<Rightarrow> 'f \<Rightarrow> 'f \<Rightarrow> 'f DistanceSection" where
  "mk_DistanceSection dmin dmax usr_min usr_max =
     (let usr_min = (if usr_min < 0 then 0 else usr_min);
          usr_max = (if usr_max < 0 then 0 else usr_max)
      in if usr_min \<noteq> 0 \<or> usr_max \<noteq> 0 then \<lparr>sec_min = usr_min, sec_max = usr_max\<rparr>
         else \<lparr>sec_min = dmin, sec_max = dmax\<rparr>)"

definition distance_in :: "'f::{zero,ord} DistanceSection \<Rightarrow> 'f \<Rightarrow> bool" where
  "distance_in sec d \<longleftrightarrow> sec_min sec \<le> d \<and> d \<le> sec_max sec"

lemma smod_36000: "(v :: int) smod 36000 = (if v < 0 then - ((- v) mod 36000) else v mod 36000)"
  by (simp add: signed_modulo_int_def signed_divide_int_def sgn_if minus_div_mult_eq_mod [symmetric])

lemma round_angle_mod: "round_angle v = v mod 36000"
proof (cases "v < 0")
  case True
  have "0 \<le> 36000 - (- v) mod 36000" by simp
  then have "round_angle v = (36000 - (- v) mod 36000) mod 36000"
    using True by (simp add: round_angle_def smod_36000)
  also have "\<dots> = (36000 - (- v)) mod 36000" by (rule mod_diff_right_eq)
  finally show ?thesis by simp
next
  case False
  have "0 \<le> v mod 36000 + 36000" by simp
  then show ?thesis using False by (simp add: round_angle_def smod_36000)
qed

text \<open>For a normalised azimuth, membership in a section is membership in the arc from the
  start to the end angle, whatever the turn the two angles were given in and whether or not the
  arc crosses zero; equal angles mean the full round.\<close>

theorem azimuth_in_arc:
  assumes "0 \<le> a" and "a < 36000"
  shows "azimuth_in (mk_AzimuthSection s e) a \<longleftrightarrow>
    (e - s) mod 36000 = 0 \<or> (a - s) mod 36000 < (e - s) mod 36000"
proof -
  define s' e' where "s' = s mod 36000" and "e' = e mod 36000"
  have r: "0 \<le> s'" "s' < 36000" "0 \<le> e'" "e' < 36000" by (simp_all add: s'_def e'_def)
  have es: "(e - s) mod 36000 = (e' - s') mod 36000" by (simp add: s'_def e'_def mod_diff_eq)
  have as: "(a - s) mod 36000 = (a - s') mod 36000"
    unfolding s'_def by (rule mod_diff_right_eq [symmetric])
  have wrap: "x mod 36000 = (if x < 0 then x + 36000 else x)" if "-36000 \<le> x" "x < 36000" for x :: int
  proof (cases "x < 0")
    case True
    then have "(x + 36000) mod 36000 = x + 36000" using that by (intro mod_pos_pos_trivial) simp_all
    then show ?thesis using True by simp
  qed (use that in simp)
  have "(e' - s') mod 36000 = (if e' < s' then e' - s' + 36000 else e' - s')"
    using r by (subst wrap) auto
  moreover have "(a - s') mod 36000 = (if a < s' then a - s' + 36000 else a - s')"
    using r assms by (subst wrap) auto
  ultimately show ?thesis
    using r assms unfolding es as
    by (auto simp: azimuth_in_def mk_AzimuthSection_def Let_def round_angle_mod es
        simp flip: s'_def e'_def)
qed

theorem azimuth_in_arc_witness:
  "azimuth_in (mk_AzimuthSection 35000 1000) 500 \<longleftrightarrow>
    ((1000 :: int) - 35000) mod 36000 = 0 \<or> ((500 :: int) - 35000) mod 36000 < (1000 - 35000) mod 36000"
  by (rule azimuth_in_arc) simp_all

lemma azimuth_section_wf:
  "0 \<le> sec_start (mk_AzimuthSection s e)" "sec_start (mk_AzimuthSection s e) < 36000"
  "0 \<le> sec_end (mk_AzimuthSection s e)" "sec_end (mk_AzimuthSection s e) < 36000"
  by (simp_all add: mk_AzimuthSection_def Let_def round_angle_mod)

text \<open>
  The filter does not normalise its argument: a decoder that adds a channel correction to an
  azimuth just below the full turn asks about an angle of 36000 or more.
\<close>

lemma azimuth_in_not_periodic:
  "azimuth_in (mk_AzimuthSection 0 9000) (36005 mod 36000) \<and>
   \<not> azimuth_in (mk_AzimuthSection 0 9000) 36005"
  by (simp add: azimuth_in_def mk_AzimuthSection_def Let_def round_angle_mod)

text \<open>The user's range replaces the sensor's as soon as one of its ends is positive.\<close>

lemma distance_section_user:
  fixes lo hi :: "'f::{zero,linorder}"
  shows "0 < hi \<Longrightarrow> 0 \<le> lo \<Longrightarrow> distance_in (mk_DistanceSection m n lo hi) d \<longleftrightarrow> lo \<le> d \<and> d \<le> hi"
  by (auto simp: distance_in_def mk_DistanceSection_def Let_def)

lemma distance_section_default:
  fixes lo hi :: "'f::{zero,linorder}"
  shows "lo \<le> 0 \<Longrightarrow> hi \<le> 0 \<Longrightarrow> distance_in (mk_DistanceSection m n lo hi) d \<longleftrightarrow> m \<le> d \<and> d \<le> n"
  by (auto simp: distance_in_def mk_DistanceSection_def Let_def)

end
