(* ===== verification/Rs_Split.thy ===== *)
theory Rs_Split
  imports Prelude
begin

text \<open>
  The strategies that cut the stream of blocks or packets into frames
  (\<^verbatim>\<open>rs_driver/driver/decoder/split_strategy.hpp\<close>): by azimuth, by number of blocks, and by
  packet sequence number. Each is a step function that returns whether a new frame starts and the
  next state. The interface \<open>splitter\<close> is what a decoder relies on; the three strategies are
  instances of it.
\<close>

section \<open>Running a strategy\<close>

fun run_split :: "('i \<Rightarrow> 's \<Rightarrow> bool \<times> 's) \<Rightarrow> 'i list \<Rightarrow> 's \<Rightarrow> bool list \<times> 's" where
  "run_split step [] s = ([], s)"
| "run_split step (i # is) s =
     (let (v, s') = step i s; (vs, s'') = run_split step is s' in (v # vs, s''))"

definition frames_cut :: "('i \<Rightarrow> 's \<Rightarrow> bool \<times> 's) \<Rightarrow> 'i list \<Rightarrow> 's \<Rightarrow> nat" where
  "frames_cut step is s = length (filter id (fst (run_split step is s)))"

lemma snd_run_split_Cons [simp]:
  "snd (run_split step (i # is) s) = snd (run_split step is (snd (step i s)))"
  by (simp split: prod.splits)

lemma run_split_append:
  "run_split step (is @ js) s =
     (let (vs, s') = run_split step is s; (ws, s'') = run_split step js s' in (vs @ ws, s''))"
  by (induction "is" arbitrary: s) (auto simp: Let_def split: prod.splits)

lemma snd_run_split_append:
  "snd (run_split step (is @ js) s) = snd (run_split step js (snd (run_split step is s)))"
  by (simp add: run_split_append split: prod.splits)

lemma frames_cut_Nil [simp]: "frames_cut step [] s = 0"
  by (simp add: frames_cut_def)

lemma frames_cut_Cons [simp]:
  "frames_cut step (i # is) s =
     (if fst (step i s) then 1 else 0) + frames_cut step is (snd (step i s))"
  by (simp add: frames_cut_def split: prod.splits)

lemma frames_cut_append:
  "frames_cut step (is @ js) s =
     frames_cut step is s + frames_cut step js (snd (run_split step is s))"
  by (simp add: frames_cut_def run_split_append split: prod.splits)

locale splitter =
  fixes step :: "'i \<Rightarrow> 's \<Rightarrow> bool \<times> 's"
    and ok :: "'i \<Rightarrow> bool"
    and inv :: "'s \<Rightarrow> bool"
  assumes step_inv: "inv s \<Longrightarrow> ok i \<Longrightarrow> inv (snd (step i s))"
begin

lemma run_inv: "inv s \<Longrightarrow> list_all ok is \<Longrightarrow> inv (snd (run_split step is s))"
proof (induction "is" arbitrary: s)
  case Nil
  then show ?case by simp
next
  case (Cons i "is")
  then have "inv (snd (run_split step is (snd (step i s))))"
    by (intro Cons.IH step_inv) simp_all
  then show ?case by (simp del: run_split.simps)
qed

end

text \<open>A strategy that also keeps a ledger: a potential that each step advances by a known amount
  and that a new frame takes \<open>quota\<close> units off. The number of frames is then a quotient.\<close>

fun run_adv :: "('i \<Rightarrow> 's \<Rightarrow> int) \<Rightarrow> ('i \<Rightarrow> 's \<Rightarrow> bool \<times> 's) \<Rightarrow> 'i list \<Rightarrow> 's \<Rightarrow> int" where
  "run_adv adv step [] s = 0"
| "run_adv adv step (i # is) s = adv i s + run_adv adv step is (snd (step i s))"

lemma run_adv_const: "run_adv (\<lambda>_ _. c) step is s = c * int (length is)"
  by (induction "is" arbitrary: s) (simp_all add: algebra_simps)

locale metered_splitter = splitter step ok inv
  for step :: "'i \<Rightarrow> 's \<Rightarrow> bool \<times> 's" and ok inv +
  fixes level :: "'s \<Rightarrow> int" and adv :: "'i \<Rightarrow> 's \<Rightarrow> int" and quota :: int
  assumes level_range: "inv s \<Longrightarrow> 0 \<le> level s \<and> level s < quota"
    and step_level: "inv s \<Longrightarrow> ok i \<Longrightarrow>
      level (snd (step i s)) + (if fst (step i s) then quota else 0) = level s + adv i s"
begin

lemma level_total:
  "inv s \<Longrightarrow> list_all ok is \<Longrightarrow>
   level (snd (run_split step is s)) + quota * int (frames_cut step is s) = level s + run_adv adv step is s"
proof (induction "is" arbitrary: s)
  case Nil
  then show ?case by simp
next
  case (Cons i "is")
  let ?s = "snd (step i s)"
  have "level ?s + (if fst (step i s) then quota else 0) = level s + adv i s"
    using Cons.prems by (intro step_level) simp_all
  moreover have "level (snd (run_split step is ?s)) + quota * int (frames_cut step is ?s)
      = level ?s + run_adv adv step is ?s"
    using Cons.prems by (intro Cons.IH step_inv) simp_all
  ultimately show ?case
    by (simp del: run_split.simps add: algebra_simps split: if_splits)
qed

lemma frames_eq_div:
  assumes "inv s" and "list_all ok is"
  shows "int (frames_cut step is s) = (level s + run_adv adv step is s) div quota"
proof -
  have "0 \<le> level (snd (run_split step is s)) \<and> level (snd (run_split step is s)) < quota"
    using assms by (intro level_range run_inv)
  then show ?thesis
    unfolding level_total [OF assms, symmetric] by simp
qed

end

section \<open>By azimuth\<close>

record SplitByAngle =
  split_angle :: int
  prev_angle :: int

definition mk_SplitByAngle :: "int \<Rightarrow> SplitByAngle" where
  "mk_SplitByAngle a = \<lparr>split_angle = a, prev_angle = a\<rparr>"

definition angle_newBlock :: "int \<Rightarrow> SplitByAngle \<Rightarrow> bool \<times> SplitByAngle" where
  "angle_newBlock angle s =
     (let prev = (if angle < prev_angle s then prev_angle s - 36000 else prev_angle s);
          v = (prev < split_angle s \<and> split_angle s \<le> angle)
      in (v, s\<lparr>prev_angle := angle\<rparr>))"

definition angle_ok :: "int \<Rightarrow> bool" where
  "angle_ok a \<longleftrightarrow> 0 \<le> a \<and> a < 36000"

definition angle_inv :: "int \<Rightarrow> SplitByAngle \<Rightarrow> bool" where
  "angle_inv c s \<longleftrightarrow> split_angle s = c \<and> angle_ok (prev_angle s)"

text \<open>The forward turn from one azimuth to the next.\<close>

definition turn :: "int \<Rightarrow> int \<Rightarrow> int" where
  "turn a b = (b - a) mod 36000"

lemma turn_normal:
  "angle_ok a \<Longrightarrow> angle_ok b \<Longrightarrow> turn a b = (if b < a then b - a + 36000 else b - a)"
proof -
  assume *: "angle_ok a" "angle_ok b"
  show ?thesis
  proof (cases "b < a")
    case True
    then have "(b - a + 36000) mod 36000 = b - a + 36000"
      using * by (intro mod_pos_pos_trivial) (simp_all add: angle_ok_def)
    then show ?thesis using True by (simp add: turn_def)
  next
    case False
    then show ?thesis using * by (simp add: turn_def angle_ok_def)
  qed
qed

interpretation ang: splitter angle_newBlock angle_ok "angle_inv c" for c
  by unfold_locales (simp add: angle_newBlock_def angle_inv_def Let_def)

text \<open>Between two azimuths of one rotation a frame starts exactly when the turn from the old to
  the new azimuth passes the split angle, except for the one case the code misses: the turn passes
  first the split angle and then zero.\<close>

theorem angle_newBlock_crossing:
  assumes "angle_ok (prev_angle s)" and "angle_ok (split_angle s)" and "angle_ok angle"
  shows "fst (angle_newBlock angle s) \<longleftrightarrow>
    0 < turn (prev_angle s) (split_angle s) \<and>
    turn (prev_angle s) (split_angle s) \<le> turn (prev_angle s) angle \<and>
    \<not> (angle < prev_angle s \<and> prev_angle s < split_angle s)"
  using assms
  by (auto simp: angle_newBlock_def Let_def turn_normal) (auto simp: angle_ok_def)

theorem angle_newBlock_crossing_witness:
  "fst (angle_newBlock 30 \<lparr>split_angle = 10, prev_angle = 35990\<rparr>) \<longleftrightarrow>
    0 < turn 35990 10 \<and> turn 35990 10 \<le> turn 35990 30 \<and> \<not> ((30::int) < 35990 \<and> (35990::int) < 10)"
  using angle_newBlock_crossing [of "\<lparr>split_angle = 10, prev_angle = 35990\<rparr>" 30]
  by (simp add: angle_ok_def)

text \<open>The missed case is reachable: with a split angle of 359.9 degrees, blocks at 359.8, 0.1
  and 0.3 degrees pass the split angle and no frame is cut.\<close>

theorem angle_newBlock_misses_split:
  "frames_cut angle_newBlock [35980, 10, 30] \<lparr>split_angle = 35990, prev_angle = 35960\<rparr> = 0 \<and>
   turn 35980 35990 \<le> turn 35980 10"
  by (simp add: angle_newBlock_def turn_def)

text \<open>With the default split angle zero every wrap is a frame, so frames meter revolutions.\<close>

interpretation ang0: metered_splitter angle_newBlock angle_ok "angle_inv 0" prev_angle
  "\<lambda>a s. turn (prev_angle s) a" 36000
  by unfold_locales
    (auto simp: angle_newBlock_def angle_inv_def Let_def turn_normal angle_ok_def)

fun total_turn :: "int \<Rightarrow> int list \<Rightarrow> int" where
  "total_turn p [] = 0"
| "total_turn p (a # as) = turn p a + total_turn a as"

lemma prev_angle_step [simp]: "prev_angle (snd (angle_newBlock a s)) = a"
  by (simp add: angle_newBlock_def Let_def)

lemma run_adv_turn:
  "run_adv (\<lambda>a s. turn (prev_angle s) a) angle_newBlock as s = total_turn (prev_angle s) as"
  by (induction as arbitrary: s) simp_all

text \<open>C26: with the default split angle, over any sequence of blocks the number of frames cut is
  the number of full revolutions: the azimuth before the first block plus all forward turns, divided
  by the full turn.\<close>

theorem angle_frames_are_revolutions:
  assumes "angle_ok (prev_angle s)" and "split_angle s = 0" and "list_all angle_ok as"
  shows "int (frames_cut angle_newBlock as s) = (prev_angle s + total_turn (prev_angle s) as) div 36000"
  using ang0.frames_eq_div [of s as] assms by (simp add: angle_inv_def run_adv_turn)

theorem angle_frames_are_revolutions_witness:
  "int (frames_cut angle_newBlock [12000, 24000, 6000] (mk_SplitByAngle 0))
    = (0 + total_turn 0 [12000, 24000, 6000]) div 36000"
  using angle_frames_are_revolutions [of "mk_SplitByAngle 0" "[12000, 24000, 6000]"]
  by (simp add: mk_SplitByAngle_def angle_ok_def)

section \<open>By number of blocks\<close>

text \<open>
  \<^verbatim>\<open>max_blks_\<close> is a pointer to a counter that the decoder may change between blocks; its value at
  the time of the call is the argument. The block counter is 16 bits wide.
\<close>

record SplitByNum =
  blks :: u16

definition mk_SplitByNum :: SplitByNum where
  "mk_SplitByNum = \<lparr>blks = 0\<rparr>"

definition num_newBlock :: "u16 \<Rightarrow> SplitByNum \<Rightarrow> bool \<times> SplitByNum" where
  "num_newBlock max_blks s =
     (let b = blks s + 1 in if b \<ge> max_blks then (True, s\<lparr>blks := 0\<rparr>) else (False, s\<lparr>blks := b\<rparr>))"

lemma num_step_cases:
  fixes m :: u16
  assumes "uint (blks s) < uint m"
  shows "num_newBlock m s = (if uint (blks s) + 1 = uint m then (True, s\<lparr>blks := 0\<rparr>)
    else (False, s\<lparr>blks := blks s + 1\<rparr>))" and "uint (blks s + 1) = uint (blks s) + 1"
proof -
  have "uint m < 2 ^ 16" using uint_bounded [of m] by simp
  then have "uint (blks s) + 1 < 2 ^ 16" "0 \<le> uint (blks s)" using assms by simp_all
  then show u: "uint (blks s + 1) = uint (blks s) + 1"
    by (subst uint_word_ariths) simp
  show "num_newBlock m s = (if uint (blks s) + 1 = uint m then (True, s\<lparr>blks := 0\<rparr>)
    else (False, s\<lparr>blks := blks s + 1\<rparr>))"
    using assms u by (auto simp: num_newBlock_def Let_def word_le_def)
qed

interpretation num: metered_splitter num_newBlock "\<lambda>i. i = m"
  "\<lambda>s. uint (blks s) < uint m" "\<lambda>s. uint (blks s)" "\<lambda>_ _. 1" "uint m" for m
proof (unfold_locales, goal_cases)
  case (1 s i)
  then have "0 < uint m" using uint_ge_0 [of "blks s"] by linarith
  with 1 show ?case by (auto simp: num_step_cases)
next
  case (2 s)
  then show ?case by simp
next
  case (3 s i)
  then show ?case by (auto simp: num_step_cases)
qed

text \<open>With a limit of \<open>m\<close> blocks, every \<open>m\<close>-th block starts a frame: \<open>n\<close> blocks from the initial
  state cut \<open>n div m\<close> frames, whatever the 16-bit width of the counter.\<close>

theorem num_frames:
  assumes "m \<noteq> 0"
  shows "frames_cut num_newBlock (replicate n m) mk_SplitByNum = n div unat m"
proof -
  have "0 < uint m" using assms by (metis order_le_less uint_0_iff uint_ge_0)
  then have "int (frames_cut num_newBlock (replicate n m) mk_SplitByNum) = int n div int (unat m)"
    using num.frames_eq_div [of mk_SplitByNum m "replicate n m"]
    by (simp add: mk_SplitByNum_def list_all_iff run_adv_const)
  then show ?thesis by (simp only: of_nat_div [symmetric] of_nat_eq_iff)
qed

theorem num_frames_witness: "frames_cut num_newBlock (replicate 7 3) mk_SplitByNum = 7 div unat (3 :: u16)"
  by (rule num_frames) simp

section \<open>By packet sequence number\<close>

record SplitBySeq =
  prev_seq :: u16
  safe_seq_min :: u16
  safe_seq_max :: u16
  max_seq :: u16
  looped :: bool

definition setSafeRange :: "SplitBySeq \<Rightarrow> SplitBySeq" where
  "setSafeRange s = s\<lparr>
     safe_seq_min := (if prev_seq s > 10 then prev_seq s - 10 else 0),
     safe_seq_max := prev_seq s + 10\<rparr>"

definition mk_SplitBySeq :: SplitBySeq where
  "mk_SplitBySeq = setSafeRange
     \<lparr>prev_seq = 0, safe_seq_min = 0, safe_seq_max = 0, max_seq = 0, looped = False\<rparr>"

definition seq_newPacket :: "u16 \<Rightarrow> SplitBySeq \<Rightarrow> bool \<times> SplitBySeq" where
  "seq_newPacket q s0 =
     (let s = (if q > max_seq s0 then s0\<lparr>max_seq := q\<rparr> else s0);
          (v, s) =
            (if q < safe_seq_min s then (True, s\<lparr>prev_seq := q, looped := True\<rparr>)
             else if q < prev_seq s then (False, s)
             else if q \<le> safe_seq_max s then (False, s\<lparr>prev_seq := q\<rparr>)
             else (False, if prev_seq s = 0 then s\<lparr>prev_seq := q\<rparr> else s))
      in (v, setSafeRange s))"

definition maxSeq :: "SplitBySeq \<Rightarrow> u16" where
  "maxSeq s = (if looped s then max_seq s else 0)"

definition seq_inv :: "SplitBySeq \<Rightarrow> bool" where
  "seq_inv s \<longleftrightarrow> setSafeRange s = s \<and> prev_seq s \<le> max_seq s"

lemma setSafeRange_sel [simp]:
  "prev_seq (setSafeRange s) = prev_seq s" "max_seq (setSafeRange s) = max_seq s"
  "looped (setSafeRange s) = looped s" "setSafeRange (setSafeRange s) = setSafeRange s"
  by (simp_all add: setSafeRange_def)

lemma seq_inv_init: "seq_inv mk_SplitBySeq"
  by (simp add: seq_inv_def mk_SplitBySeq_def)

interpretation sq: splitter seq_newPacket "\<lambda>_. True" seq_inv
  by unfold_locales (auto simp: seq_newPacket_def seq_inv_def Let_def split: if_splits)

lemma seq_inv_range:
  assumes "seq_inv s"
  shows "unat (safe_seq_min s) = unat (prev_seq s) - 10"
    and "safe_seq_max s = prev_seq s + 10"
proof -
  have r: "s = setSafeRange s" using assms by (simp add: seq_inv_def)
  show "safe_seq_max s = prev_seq s + 10" by (subst r) (simp add: setSafeRange_def)
  show "unat (safe_seq_min s) = unat (prev_seq s) - 10"
    by (subst r) (auto simp: setSafeRange_def word_less_nat_alt unat_sub word_le_nat_alt)
qed

lemma seq_split_iff:
  assumes "seq_inv s"
  shows "fst (seq_newPacket q s) \<longleftrightarrow> unat q + 10 < unat (prev_seq s)"
  using seq_inv_range [OF assms]
  by (auto simp: seq_newPacket_def Let_def word_less_nat_alt)

lemma seq_near:
  assumes "seq_inv s" and "unat (prev_seq s) \<le> unat q + 10" and "unat q \<le> unat (prev_seq s) + 10"
    and "unat (prev_seq s) + 10 < 2 ^ 16"
  shows "unat (prev_seq (snd (seq_newPacket q s))) = max (unat (prev_seq s)) (unat q)"
proof -
  have "unat (prev_seq s + 10) = unat (prev_seq s) + 10"
    using assms(4) by (simp add: unat_word_ariths)
  then show ?thesis
    using seq_inv_range [OF assms(1)] assms(2-)
    by (auto simp: seq_newPacket_def Let_def word_less_nat_alt word_le_nat_alt)
qed

text \<open>In every state the strategy reaches, a packet cuts a frame exactly when its sequence number is
  more than 10 behind the largest one accepted; a packet within 10 of it, early or late, is tolerated
  and the reference moves to the maximum of the two.\<close>

theorem seq_newPacket_tolerance:
  assumes "s = snd (run_split seq_newPacket qs mk_SplitBySeq)"
  shows "(fst (seq_newPacket q s) \<longleftrightarrow> unat q + 10 < unat (prev_seq s)) \<and>
    (unat (prev_seq s) \<le> unat q + 10 \<longrightarrow> unat q \<le> unat (prev_seq s) + 10 \<longrightarrow>
     unat (prev_seq s) + 10 < 2 ^ 16 \<longrightarrow>
     unat (prev_seq (snd (seq_newPacket q s))) = max (unat (prev_seq s)) (unat q))"
proof -
  have "seq_inv s" unfolding assms by (rule sq.run_inv) (simp_all add: seq_inv_init list_all_iff)
  then show ?thesis by (simp add: seq_split_iff seq_near)
qed

theorem seq_newPacket_tolerance_witness:
  "fst (seq_newPacket 5 (snd (run_split seq_newPacket [10, 20] mk_SplitBySeq)))"
  using seq_newPacket_tolerance [OF refl, of 5 "[10, 20]"]
  by (simp add: seq_newPacket_def mk_SplitBySeq_def setSafeRange_def)

lemma seq_rewind:
  assumes "seq_inv s" and "unat q + 10 < unat (prev_seq s)"
  shows "prev_seq (snd (seq_newPacket q s)) = q \<and> looped (snd (seq_newPacket q s))"
  using seq_inv_range [OF assms(1)] assms(2)
  by (auto simp: seq_newPacket_def Let_def word_less_nat_alt)

definition seqs :: "nat \<Rightarrow> nat \<Rightarrow> u16 list" where
  "seqs a b = map of_nat [a..<Suc b]"

lemma seq_run_up:
  assumes "seq_inv s" and "unat (prev_seq s) = a" and "a + n + 10 < 2 ^ 16"
  shows "frames_cut seq_newPacket (seqs (Suc a) (a + n)) s = 0 \<and>
    unat (prev_seq (snd (run_split seq_newPacket (seqs (Suc a) (a + n)) s))) = a + n"
  using assms
proof (induction n arbitrary: s a)
  case 0
  then show ?case by (simp add: seqs_def)
next
  case (Suc n)
  let ?q = "of_nat (Suc a) :: u16" let ?s = "snd (seq_newPacket ?q s)"
  have q: "unat ?q = Suc a" using Suc.prems by (simp add: unat_of_nat del: of_nat_Suc)
  have e: "seqs (Suc a) (a + Suc n) = ?q # seqs (Suc (Suc a)) (Suc a + n)"
    unfolding seqs_def by (subst upt_conv_Cons) simp_all
  have i: "seq_inv ?s" using sq.step_inv [OF Suc.prems(1)] by simp
  have p: "unat (prev_seq ?s) = Suc a"
    using Suc.prems q by (subst seq_near) simp_all
  have c: "\<not> fst (seq_newPacket ?q s)"
    using Suc.prems q by (simp add: seq_split_iff)
  show ?case using Suc.IH [OF i p] Suc.prems c
    unfolding e by (simp del: of_nat_Suc run_split.simps)
qed

lemma seq_round_again:
  assumes "seq_inv s" and "unat (prev_seq s) = N" and "12 \<le> N" and "N + 10 < 2 ^ 16"
  shows "frames_cut seq_newPacket (seqs 1 N) s = 1 \<and>
    unat (prev_seq (snd (run_split seq_newPacket (seqs 1 N) s))) = N"
proof -
  let ?s = "snd (seq_newPacket 1 s)"
  have e: "seqs 1 N = 1 # seqs (Suc 1) (1 + (N - 1))"
    using assms(3) unfolding seqs_def by (subst upt_conv_Cons) simp_all
  have i: "seq_inv ?s" using sq.step_inv [OF assms(1)] by simp
  have p: "unat (prev_seq ?s) = 1"
    using assms seq_rewind [OF assms(1), of 1] by simp
  have c: "fst (seq_newPacket 1 s)" using assms by (simp add: seq_split_iff)
  show ?thesis using seq_run_up [OF i p, of "N - 1"] assms c
    unfolding e by (simp del: run_split.simps)
qed

text \<open>A device that numbers the packets of each revolution \<open>1 \<dots> N\<close>, with at least 12 and at most
  65525 of them, gets exactly one frame boundary between two revolutions: \<open>k + 1\<close> revolutions cut \<open>k\<close>
  frames, and the strategy then reports the right packet count \<open>N\<close> through the last number seen.\<close>

theorem seq_one_frame_per_revolution:
  assumes "12 \<le> N" and "N + 10 < 2 ^ 16"
  shows "frames_cut seq_newPacket (concat (replicate (Suc k) (seqs 1 N))) mk_SplitBySeq = k \<and>
    unat (prev_seq (snd (run_split seq_newPacket (concat (replicate (Suc k) (seqs 1 N))) mk_SplitBySeq))) = N"
proof (induction k)
  case 0
  have "unat (prev_seq mk_SplitBySeq) = 0" by (simp add: mk_SplitBySeq_def)
  from seq_run_up [OF seq_inv_init this, of N] assms show ?case by simp
next
  case (Suc k)
  let ?is = "concat (replicate (Suc k) (seqs 1 N))"
  have i: "seq_inv (snd (run_split seq_newPacket ?is mk_SplitBySeq))"
    by (rule sq.run_inv) (simp_all add: seq_inv_init list_all_iff)
  have e: "concat (replicate (Suc (Suc k)) (seqs 1 N)) = ?is @ seqs 1 N"
    by (simp only: replicate_append_same [symmetric] replicate_Suc [of "Suc k"] concat_append) simp
  show ?case
    unfolding e frames_cut_append snd_run_split_append
    using Suc seq_round_again [OF i _ assms] by (simp del: replicate_Suc)
qed

theorem seq_one_frame_per_revolution_witness:
  "frames_cut seq_newPacket (concat (replicate (Suc 2) (seqs 1 12))) mk_SplitBySeq = 2"
  using seq_one_frame_per_revolution [of 12 2] by simp

text \<open>Losing more than 10 consecutive packets freezes the reference number until the next rewind; when
  that happens within the first packets of a revolution, the next boundary is missed. Here packets 6
  to 17 of the first revolution are lost, and two revolutions of 40 packets cut no frame.\<close>

theorem seq_loss_misses_boundary:
  "frames_cut seq_newPacket (seqs 1 5 @ seqs 18 40 @ seqs 1 40) mk_SplitBySeq = 0 \<and>
   frames_cut seq_newPacket (seqs 1 40 @ seqs 1 40) mk_SplitBySeq = 1"
  by code_simp

end
