(* ===== verification/Rs_Blocks.thy ===== *)
theory Rs_Blocks
  imports Prelude
begin

text \<open>
  The block iterators of rs_driver (\<^verbatim>\<open>driver/decoder/block_iterator.hpp\<close>): for each block of a packet
  the azimuth swept until the next block and the time since the first block. The six iterators over
  whole packets differ in how many blocks share one firing (the stride) and in the durations; the AB
  iterator handles three blocks by hand. Times are elements of any type with a zero and an addition.
  \<^term>\<open>None\<close> is an access outside the packet or outside the arrays of 16 entries.
\<close>

text \<open>\<open>ntohs\<close> on a little-endian host.\<close>

definition ntohs :: "u16 \<Rightarrow> u16" where
  "ntohs x = be_dec (le_enc 2 x)"

record 'd BlockIterator =
  az_diffs :: "int list"
  tss :: "'d list"

abbreviation MAX_BLOCKS_PER_PKT :: nat where "MAX_BLOCKS_PER_PKT \<equiv> 16"

definition bi_get :: "'d BlockIterator \<Rightarrow> nat \<Rightarrow> (int \<times> 'd) option" where
  "bi_get it blk = (if blk < length (az_diffs it) \<and> blk < length (tss it)
     then Some (az_diffs it ! blk, tss it ! blk) else None)"

text \<open>The step between two blocks: \<open>D\<close>, \<open>A\<close> and \<open>F\<close> are the block duration, the azimuth of a block and
  the duration of the blind zone.\<close>

definition az_step :: "'d \<Rightarrow> int \<Rightarrow> 'd \<Rightarrow> u16 \<Rightarrow> u16 \<Rightarrow> int \<times> 'd" where
  "az_step D A F cur nxt =
     (let az_diff = uint (ntohs nxt) - uint (ntohs cur);
          az_diff = (if az_diff < 0 then az_diff + 36000 else az_diff)
      in if az_diff > 100 then (A, F) else (az_diff, D))"

definition put_blocks :: "nat \<Rightarrow> nat \<Rightarrow> int \<Rightarrow> 'd \<Rightarrow> 'd BlockIterator \<Rightarrow> 'd BlockIterator option" where
  "put_blocks blk k a t it = do {
     azs \<leftarrow> wr (az_diffs it) blk (replicate k a);
     ts \<leftarrow> wr (tss it) blk (replicate k t);
     Some (it\<lparr>az_diffs := azs, tss := ts\<rparr>)
   }"

function stride_loop :: "nat \<Rightarrow> nat \<Rightarrow> 'd::plus \<Rightarrow> int \<Rightarrow> 'd \<Rightarrow> u16 list \<Rightarrow> nat \<Rightarrow> 'd \<Rightarrow> 'd BlockIterator
    \<Rightarrow> 'd BlockIterator option" where
  "stride_loop k n D A F azs blk t it =
     (if 0 < k \<and> blk + k < n
      then (if blk + k < length azs
            then (let (az_diff, ts_diff) = az_step D A F (azs ! blk) (azs ! (blk + k)) in
              case put_blocks blk k az_diff t it of
                None \<Rightarrow> None
              | Some it' \<Rightarrow> stride_loop k n D A F azs (blk + k) (t + ts_diff) it')
            else None)
      else put_blocks blk k A t it)"
  by pat_completeness auto
termination by (relation "measure (\<lambda>(k, n, _, _, _, _, blk, _). n - blk)") auto

declare stride_loop.simps [simp del]

definition SingleReturn :: "u16 list \<Rightarrow> nat \<Rightarrow> 'd::{zero,plus} \<Rightarrow> int \<Rightarrow> 'd \<Rightarrow> 'd BlockIterator \<Rightarrow> 'd BlockIterator option" where
  "SingleReturn azs n D A F it = stride_loop 1 n D A F azs 0 0 it"

definition DualReturn :: "u16 list \<Rightarrow> nat \<Rightarrow> 'd::{zero,plus} \<Rightarrow> int \<Rightarrow> 'd \<Rightarrow> 'd BlockIterator \<Rightarrow> 'd BlockIterator option" where
  "DualReturn azs n D A F it = stride_loop 2 n D A F azs 0 0 it"

definition TwoInOne :: "u16 list \<Rightarrow> nat \<Rightarrow> 'd::{zero,plus} \<Rightarrow> int \<Rightarrow> 'd \<Rightarrow> 'd BlockIterator \<Rightarrow> 'd BlockIterator option" where
  "TwoInOne azs n D A F it = stride_loop 2 n D A F azs 0 0 it"

definition FourInOne :: "u16 list \<Rightarrow> nat \<Rightarrow> 'd::{zero,plus} \<Rightarrow> int \<Rightarrow> 'd \<Rightarrow> 'd BlockIterator \<Rightarrow> 'd BlockIterator option" where
  "FourInOne azs n D A F it = stride_loop 4 n D A F azs 0 0 it"

text \<open>The doubled duration \<^verbatim>\<open>BLOCK_DURATION * 2\<close> is written as a sum.\<close>

definition Rs16SingleReturn :: "u16 list \<Rightarrow> nat \<Rightarrow> 'd::{zero,plus} \<Rightarrow> int \<Rightarrow> 'd \<Rightarrow> 'd BlockIterator \<Rightarrow> 'd BlockIterator option" where
  "Rs16SingleReturn azs n D A F it = stride_loop 1 n (D + D) (A * 2) F azs 0 0 it"

definition Rs16DualReturn :: "u16 list \<Rightarrow> nat \<Rightarrow> 'd::{zero,plus} \<Rightarrow> int \<Rightarrow> 'd \<Rightarrow> 'd BlockIterator \<Rightarrow> 'd BlockIterator option" where
  "Rs16DualReturn azs n D A F it = stride_loop 1 n D A F azs 0 0 it"

definition ABDualReturn :: "u16 list \<Rightarrow> 'd::{zero,plus} \<Rightarrow> int \<Rightarrow> 'd \<Rightarrow> 'd BlockIterator \<Rightarrow> 'd BlockIterator option" where
  "ABDualReturn azs D A F it =
     (if length azs < 3 then None
      else (let (az_diff, ts_diff) = az_step D A F (azs ! 0) (azs ! 2) in
        if ntohs (azs ! 0) = ntohs (azs ! 1)
        then do { it \<leftarrow> put_blocks 0 2 az_diff 0 it; put_blocks 2 1 A (0 + ts_diff) it }
        else do { it \<leftarrow> put_blocks 0 1 az_diff 0 it; put_blocks 1 2 A (0 + ts_diff) it }))"

section \<open>What the iterators compute\<close>

text \<open>The reference: group \<open>g\<close> of \<open>k\<close> blocks turns by the forward angle to the next group, unless that is
  more than one degree; the last group turns by the nominal angle. Its time is the sum of the
  durations of the groups before it.\<close>

definition group_az :: "nat \<Rightarrow> nat \<Rightarrow> int \<Rightarrow> u16 list \<Rightarrow> nat \<Rightarrow> int" where
  "group_az k m A azs g =
     (let d = (uint (ntohs (azs ! (g * k + k))) - uint (ntohs (azs ! (g * k)))) mod 36000
      in if g + 1 < m \<and> d \<le> 100 then d else A)"

definition group_dur :: "nat \<Rightarrow> 'd \<Rightarrow> 'd \<Rightarrow> u16 list \<Rightarrow> nat \<Rightarrow> 'd" where
  "group_dur k D F azs g =
     (if (uint (ntohs (azs ! (g * k + k))) - uint (ntohs (azs ! (g * k)))) mod 36000 \<le> 100 then D else F)"

primrec group_ts :: "nat \<Rightarrow> 'd::{zero,plus} \<Rightarrow> 'd \<Rightarrow> u16 list \<Rightarrow> nat \<Rightarrow> 'd" where
  "group_ts k D F azs 0 = 0"
| "group_ts k D F azs (Suc g) = group_ts k D F azs g + group_dur k D F azs g"

lemma az_step_eq:
  assumes "uint (ntohs cur) < 36000" and "uint (ntohs nxt) < 36000"
  shows "az_step D A F cur nxt =
    (let d = (uint (ntohs nxt) - uint (ntohs cur)) mod 36000 in (if d \<le> 100 then d else A, if d \<le> 100 then D else F))"
proof -
  let ?d = "uint (ntohs nxt) - uint (ntohs cur)"
  have "?d mod 36000 = (if ?d < 0 then ?d + 36000 else ?d)"
  proof (cases "?d < 0")
    case True
    have "0 \<le> ?d + 36000" using assms(1) uint_ge_0 [of "ntohs nxt"] by linarith
    then have "(?d + 36000) mod 36000 = ?d + 36000"
      using True by (intro mod_pos_pos_trivial) simp_all
    then show ?thesis using True by simp
  next
    case False
    have "?d < 36000" using assms(2) uint_ge_0 [of "ntohs cur"] by linarith
    then show ?thesis using False by (simp add: mod_pos_pos_trivial)
  qed
  then show ?thesis by (simp add: az_step_def Let_def)
qed

lemma put_blocks_spec:
  assumes "length (az_diffs it) = N" and "length (tss it) = N" and "blk + k \<le> N"
  obtains it' where "put_blocks blk k a t it = Some it'" "length (az_diffs it') = N" "length (tss it') = N"
    "\<And>i. i < N \<Longrightarrow> az_diffs it' ! i = (if blk \<le> i \<and> i < blk + k then a else az_diffs it ! i)"
    "\<And>i. i < N \<Longrightarrow> tss it' ! i = (if blk \<le> i \<and> i < blk + k then t else tss it ! i)"
proof -
  obtain azs where a: "wr (az_diffs it) blk (replicate k a) = Some azs" "length azs = N"
    using wr_fits [of blk "replicate k a" "az_diffs it"] assms by auto
  obtain ts where t: "wr (tss it) blk (replicate k t) = Some ts" "length ts = N"
    using wr_fits [of blk "replicate k t" "tss it"] assms by auto
  show thesis
  proof (rule that [of "it\<lparr>az_diffs := azs, tss := ts\<rparr>"])
    show "az_diffs (it\<lparr>az_diffs := azs, tss := ts\<rparr>) ! i = (if blk \<le> i \<and> i < blk + k then a else az_diffs it ! i)"
      if "i < N" for i using that assms(1) by (auto simp: nth_wr [OF a(1)] less_diff_conv2)
    show "tss (it\<lparr>az_diffs := azs, tss := ts\<rparr>) ! i = (if blk \<le> i \<and> i < blk + k then t else tss it ! i)"
      if "i < N" for i using that assms(2) by (auto simp: nth_wr [OF t(1)] less_diff_conv2)
  qed (simp_all add: put_blocks_def a t)
qed

lemma stride_loop_spec:
  assumes k: "0 < k" and n: "n = k * m" "n \<le> MAX_BLOCKS_PER_PKT" "n \<le> length azs"
    and az: "\<forall>a \<in> set azs. uint (ntohs a) < 36000"
  shows "g < m \<Longrightarrow> length (az_diffs it) = 16 \<Longrightarrow> length (tss it) = 16 \<Longrightarrow>
    \<exists>it'. stride_loop k n D A F azs (g * k) (group_ts k D F azs g) it = Some it' \<and>
      length (az_diffs it') = 16 \<and> length (tss it') = 16 \<and>
      (\<forall>i < 16. az_diffs it' ! i = (if g * k \<le> i \<and> i < n then group_az k m A azs (i div k) else az_diffs it ! i) \<and>
        tss it' ! i = (if g * k \<le> i \<and> i < n then group_ts k D F azs (i div k) else tss it ! i))"
proof (induction "m - g" arbitrary: g it)
  case 0
  then show ?case by simp
next
  case (Suc r)
  let ?b = "g * k"
  have gk: "?b + k \<le> n" using Suc.prems(1) n(1) mult_le_mono1 [of "g + 1" m k] by (simp add: algebra_simps)
  have "?b + k \<le> 16" using gk n(2) by simp
  have in_group: "i div k = g" if "?b \<le> i" "i < ?b + k" for i
    using that k by (simp add: div_nat_eqI algebra_simps)
  show ?case
  proof (cases "g + 1 < m")
    case True
    then have lt: "?b + k < n" using n(1) k mult_less_mono1 [of "g + 1" m k] by (simp add: algebra_simps)
    let ?d = "(uint (ntohs (azs ! (?b + k))) - uint (ntohs (azs ! ?b))) mod 36000"
    have "azs ! ?b \<in> set azs" "azs ! (?b + k) \<in> set azs" using lt n(3) by simp_all
    then have st: "az_step D A F (azs ! ?b) (azs ! (?b + k)) = (group_az k m A azs g, group_dur k D F azs g)"
      using az True by (simp add: az_step_eq group_az_def group_dur_def Let_def)
    obtain it1 where it1: "put_blocks ?b k (group_az k m A azs g) (group_ts k D F azs g) it = Some it1"
      "length (az_diffs it1) = 16" "length (tss it1) = 16"
      "\<And>i. i < 16 \<Longrightarrow> az_diffs it1 ! i = (if ?b \<le> i \<and> i < ?b + k then group_az k m A azs g else az_diffs it ! i)"
      "\<And>i. i < 16 \<Longrightarrow> tss it1 ! i = (if ?b \<le> i \<and> i < ?b + k then group_ts k D F azs g else tss it ! i)"
      using put_blocks_spec [OF Suc.prems(2,3) \<open>?b + k \<le> 16\<close>] by metis
    have step: "stride_loop k n D A F azs ?b (group_ts k D F azs g) it =
        stride_loop k n D A F azs (Suc g * k) (group_ts k D F azs (Suc g)) it1"
      using lt k n(3) st it1(1) by (subst stride_loop.simps) (simp add: add.commute)
    have rm: "r = m - Suc g" and sg: "Suc g < m" using Suc.hyps(2) True by simp_all
    obtain it' where it': "stride_loop k n D A F azs (Suc g * k) (group_ts k D F azs (Suc g)) it1 = Some it'"
      "length (az_diffs it') = 16" "length (tss it') = 16"
      "\<forall>i < 16. az_diffs it' ! i = (if Suc g * k \<le> i \<and> i < n then group_az k m A azs (i div k) else az_diffs it1 ! i) \<and>
        tss it' ! i = (if Suc g * k \<le> i \<and> i < n then group_ts k D F azs (i div k) else tss it1 ! i)"
      using Suc.hyps(1) [OF rm sg it1(2,3)] by blast
    have "az_diffs it' ! i = (if ?b \<le> i \<and> i < n then group_az k m A azs (i div k) else az_diffs it ! i) \<and>
        tss it' ! i = (if ?b \<le> i \<and> i < n then group_ts k D F azs (i div k) else tss it ! i)" if "i < 16" for i
      using it'(4) [rule_format, OF that] it1(4,5) [OF that] in_group [of i] lt
      by (cases "i < ?b + k") (auto simp: add.commute)
    then show ?thesis using step it'(1-3) by auto
  next
    case False
    have e2: "m = Suc g" using Suc.prems(1) False by simp
    then have e: "n = ?b + k" "m = Suc g" using n(1) by (simp_all add: algebra_simps)
    obtain it1 where it1: "put_blocks ?b k A (group_ts k D F azs g) it = Some it1"
      "length (az_diffs it1) = 16" "length (tss it1) = 16"
      "\<And>i. i < 16 \<Longrightarrow> az_diffs it1 ! i = (if ?b \<le> i \<and> i < ?b + k then A else az_diffs it ! i)"
      "\<And>i. i < 16 \<Longrightarrow> tss it1 ! i = (if ?b \<le> i \<and> i < ?b + k then group_ts k D F azs g else tss it ! i)"
      using put_blocks_spec [OF Suc.prems(2,3) \<open>?b + k \<le> 16\<close>] by metis
    have "stride_loop k n D A F azs ?b (group_ts k D F azs g) it = Some it1"
      using e it1(1) by (subst stride_loop.simps) simp
    moreover have "group_az k m A azs g = A" using e(2) by (simp add: group_az_def Let_def)
    ultimately show ?thesis using it1(2-5) e(1) in_group by auto
  qed
qed

text \<open>The loops from their first group on.\<close>

lemma stride_loop_all:
  fixes D :: "'d::{zero,plus}"
  assumes "0 < k" and "n = k * m" and "0 < m" and "n \<le> MAX_BLOCKS_PER_PKT" and "n \<le> length azs"
    and "\<forall>a \<in> set azs. uint (ntohs a) < 36000"
    and "length (az_diffs it) = 16" and "length (tss it) = 16"
  shows "\<exists>it'. stride_loop k n D A F azs 0 0 it = Some it' \<and> length (az_diffs it') = 16 \<and> length (tss it') = 16 \<and>
    (\<forall>i < n. az_diffs it' ! i = group_az k m A azs (i div k) \<and> tss it' ! i = group_ts k D F azs (i div k))"
proof -
  obtain it' where "stride_loop k n D A F azs 0 0 it = Some it'" "length (az_diffs it') = 16" "length (tss it') = 16"
    "\<forall>i < 16. az_diffs it' ! i = (if 0 \<le> i \<and> i < n then group_az k m A azs (i div k) else az_diffs it ! i) \<and>
        tss it' ! i = (if 0 \<le> i \<and> i < n then group_ts k D F azs (i div k) else tss it ! i)"
    using stride_loop_spec [OF assms(1,2,4-6,3,7,8), of D A F] by (auto simp: mult_0)
  then show ?thesis using assms(4) by (intro exI [of _ it']) simp
qed

text \<open>Whatever the azimuths, the loops stay inside the packet and the tables.\<close>

lemma stride_loop_total:
  assumes "0 < k" and "n = k * m" and "n \<le> MAX_BLOCKS_PER_PKT" and "n \<le> length azs"
  shows "g < m \<Longrightarrow> length (az_diffs it) = 16 \<Longrightarrow> length (tss it) = 16 \<Longrightarrow>
    \<exists>it'. stride_loop k n D A F azs (g * k) t it = Some it' \<and> length (az_diffs it') = 16 \<and> length (tss it') = 16"
proof (induction "m - g" arbitrary: g t it)
  case (Suc r)
  have gk: "g * k + k \<le> n" using Suc.prems(1) assms(2) mult_le_mono1 [of "g + 1" m k] by (simp add: algebra_simps)
  then have fits: "g * k + k \<le> 16" using assms(3) by simp
  show ?case
  proof (cases "g + 1 < m")
    case True
    then have lt: "g * k + k < n" using assms(1,2) mult_less_mono1 [of "g + 1" m k] by (simp add: algebra_simps)
    obtain a d where st: "az_step D A F (azs ! (g * k)) (azs ! (g * k + k)) = (a, d)" by force
    obtain it1 where it1: "put_blocks (g * k) k a t it = Some it1" "length (az_diffs it1) = 16" "length (tss it1) = 16"
      using put_blocks_spec [OF Suc.prems(2,3) fits, of a t] by metis
    have "r = m - Suc g" "Suc g < m" using Suc.hyps(2) True by simp_all
    from Suc.hyps(1) [OF this it1(2,3), of "t + d"] show ?thesis
      using lt assms(1,4) st it1(1) by (subst stride_loop.simps) (simp add: add.commute)
  next
    case False
    then have "m = Suc g" using Suc.prems(1) by simp
    then have e: "n = g * k + k" using assms(2) by (simp add: algebra_simps)
    obtain it1 where "put_blocks (g * k) k A t it = Some it1" "length (az_diffs it1) = 16" "length (tss it1) = 16"
      using put_blocks_spec [OF Suc.prems(2,3) fits, of A t] by metis
    then show ?thesis using e by (subst stride_loop.simps) simp
  qed
qed simp

definition empty_iterator :: "'d::zero BlockIterator" where
  "empty_iterator = \<lparr>az_diffs = replicate 16 0, tss = replicate 16 0\<rparr>"

text \<open>C25: The single-return iterator, for every packet of up to 16 blocks with azimuths below 36000, fills
  the tables so that \<open>get\<close> of block \<open>blk\<close> returns the forward angle to the next block (or the nominal
  angle over the blind zone and for the last block) and the sum of the durations of the blocks before.\<close>

theorem SingleReturn_blocks:
  assumes "0 < n" and "n \<le> MAX_BLOCKS_PER_PKT" and "n \<le> length azs" and "\<forall>a \<in> set azs. uint (ntohs a) < 36000"
    and "length (az_diffs it) = 16" and "length (tss it) = 16"
  shows "\<exists>it'. SingleReturn azs n D A F it = Some it' \<and>
    (\<forall>blk < n. bi_get it' blk = Some (group_az 1 n A azs blk, group_ts 1 D F azs blk))"
proof -
  obtain it' where "stride_loop 1 n D A F azs 0 0 it = Some it'" "length (az_diffs it') = 16" "length (tss it') = 16"
    "\<forall>i < n. az_diffs it' ! i = group_az 1 n A azs (i div 1) \<and> tss it' ! i = group_ts 1 D F azs (i div 1)"
    using stride_loop_all [of 1 n n azs it D A F] assms by auto
  then show ?thesis using assms(2) by (intro exI [of _ it']) (simp add: SingleReturn_def bi_get_def)
qed

lemma SingleReturn_blocks_witness:
  "\<exists>it'. SingleReturn [0, 0x1400, 0xE803, 0] 3 (5::int) 20 90 empty_iterator = Some it' \<and>
    (\<forall>blk < 3. bi_get it' blk = Some (group_az 1 3 20 [0, 0x1400, 0xE803, 0] blk, group_ts 1 5 90 [0, 0x1400, 0xE803, 0] blk))"
  by (rule SingleReturn_blocks) (simp_all add: empty_iterator_def, code_simp)

text \<open>The iterators whose blocks share a firing (two in dual-return and two-in-one packets, four in
  four-in-one packets) give all blocks of a firing the same angle and the same time, those of the firing.\<close>

theorem shared_firing_blocks:
  assumes "0 < m" and "4 * m \<le> MAX_BLOCKS_PER_PKT" and "4 * m \<le> length azs" and "\<forall>a \<in> set azs. uint (ntohs a) < 36000"
    and "length (az_diffs it) = 16" and "length (tss it) = 16"
  shows "\<exists>it2 it4. DualReturn azs (2 * m) D A F it = Some it2 \<and> TwoInOne azs (2 * m) D A F it = Some it2 \<and>
    FourInOne azs (4 * m) D A F it = Some it4 \<and>
    (\<forall>blk < 2 * m. bi_get it2 blk = Some (group_az 2 m A azs (blk div 2), group_ts 2 D F azs (blk div 2))) \<and>
    (\<forall>blk < 4 * m. bi_get it4 blk = Some (group_az 4 m A azs (blk div 4), group_ts 4 D F azs (blk div 4)))"
proof -
  obtain it2 where 2: "stride_loop 2 (2 * m) D A F azs 0 0 it = Some it2" "length (az_diffs it2) = 16" "length (tss it2) = 16"
    "\<forall>i < 2 * m. az_diffs it2 ! i = group_az 2 m A azs (i div 2) \<and> tss it2 ! i = group_ts 2 D F azs (i div 2)"
    using stride_loop_all [of 2 "2 * m" m azs it D A F] assms by auto
  obtain it4 where 4: "stride_loop 4 (4 * m) D A F azs 0 0 it = Some it4" "length (az_diffs it4) = 16" "length (tss it4) = 16"
    "\<forall>i < 4 * m. az_diffs it4 ! i = group_az 4 m A azs (i div 4) \<and> tss it4 ! i = group_ts 4 D F azs (i div 4)"
    using stride_loop_all [of 4 "4 * m" m azs it D A F] assms by auto
  show ?thesis using 2 4 assms(2)
    by (intro exI [of _ it2] exI [of _ it4]) (simp add: DualReturn_def TwoInOne_def FourInOne_def bi_get_def)
qed

lemma shared_firing_blocks_witness:
  "\<exists>it2 it4. DualReturn [0, 0, 0x1400, 0x1400] (2 * 1) (5::int) 20 90 empty_iterator = Some it2 \<and>
    TwoInOne [0, 0, 0x1400, 0x1400] (2 * 1) (5::int) 20 90 empty_iterator = Some it2 \<and>
    FourInOne [0, 0, 0x1400, 0x1400] (4 * 1) (5::int) 20 90 empty_iterator = Some it4 \<and>
    (\<forall>blk < 2 * 1. bi_get it2 blk = Some (group_az 2 1 20 [0, 0, 0x1400, 0x1400] (blk div 2), group_ts 2 5 90 [0, 0, 0x1400, 0x1400] (blk div 2))) \<and>
    (\<forall>blk < 4 * 1. bi_get it4 blk = Some (group_az 4 1 20 [0, 0, 0x1400, 0x1400] (blk div 4), group_ts 4 5 90 [0, 0, 0x1400, 0x1400] (blk div 4)))"
  by (rule shared_firing_blocks) (simp_all add: empty_iterator_def, code_simp)

end
