(* ===== verification/Rs_ChanAngles.thy ===== *)
theory Rs_ChanAngles
  imports Rs_Blocks Complex_Main
begin

text \<open>
  The channel angles and the trigonometric tables of rs_driver (\<^verbatim>\<open>driver/decoder/chan_angles.hpp\<close>,
  \<^verbatim>\<open>driver/decoder/trigon.hpp\<close>). The angles of the lasers come from a file or from a DIFOP packet, and
  the lasers are numbered by their vertical angle. A loader returns the code's result together with
  the object; the object changes only when the result is 0. \<^verbatim>\<open>float\<close> and \<^verbatim>\<open>double\<close> are an ordered
  field with a floor (such as \<^typ>\<open>rat\<close> or \<^typ>\<open>real\<close>), so rounding is not modelled.
\<close>

section \<open>Conversions\<close>

text \<open>A conversion to an integer type truncates towards zero, \<^verbatim>\<open>std::round\<close> rounds halves away from zero.\<close>

definition trunc :: "'r::floor_ceiling \<Rightarrow> int" where
  "trunc x = (if x < 0 then \<lceil>x\<rceil> else \<lfloor>x\<rfloor>)"

definition round_half :: "'r::floor_ceiling \<Rightarrow> int" where
  "round_half x = (if x < 0 then \<lceil>x - 1 / 2\<rceil> else \<lfloor>x + 1 / 2\<rfloor>)"

lemma trunc_of_int [simp]: "trunc (of_int i) = i"
  by (simp add: trunc_def)

section \<open>Channel angles\<close>

record RSCalibrationAngle =
  cal_sign :: u8
  cal_value :: u16

record ChanAngles =
  chan_num :: u16
  vert_angles :: "int list"
  horiz_angles :: "int list"
  user_chans :: "u16 list"

definition mk_ChanAngles :: "u16 \<Rightarrow> ChanAngles" where
  "mk_ChanAngles n = \<lparr>chan_num = n, vert_angles = replicate (unat n) 0, horiz_angles = replicate (unat n) 0,
     user_chans = replicate (unat n) 0\<rparr>"

text \<open>The number of a laser counts the lasers below it.\<close>

definition genUserChan :: "int list \<Rightarrow> u16 list" where
  "genUserChan vs = map (\<lambda>angle. of_nat (length (filter (\<lambda>v. v < angle) vs))) vs"

definition angleCheck :: "int \<Rightarrow> bool" where
  "angleCheck v \<longleftrightarrow> - 9000 \<le> v \<and> v < 18000"

definition set_angles :: "int list \<Rightarrow> int list \<Rightarrow> ChanAngles \<Rightarrow> ChanAngles" where
  "set_angles vs hs c = c\<lparr>vert_angles := vs, horiz_angles := hs, user_chans := genUserChan vs\<rparr>"

text \<open>One laser of a DIFOP packet; \<^term>\<open>None\<close> is the return of \<open>-1\<close>.\<close>

definition difop_angles :: "RSCalibrationAngle \<Rightarrow> RSCalibrationAngle \<Rightarrow> (int \<times> int) option" where
  "difop_angles vert horiz =
     (if cal_sign vert = 0xFF then None
      else (let v = uint (ntohs (cal_value vert)); v = (if cal_sign vert \<noteq> 0 then - v else v)
        in if \<not> angleCheck v then None
        else (let h = uint (ntohs (cal_value horiz)); h = (if cal_sign horiz \<noteq> 0 then - h else h)
          in if \<not> angleCheck h then None else Some (v, h))))"

text \<open>The loop over the lasers; the outer \<^term>\<open>None\<close> is a read behind the arrays.\<close>

fun difop_loop :: "nat \<Rightarrow> RSCalibrationAngle list \<Rightarrow> RSCalibrationAngle list \<Rightarrow> (int \<times> int) list option option" where
  "difop_loop 0 vs hs = Some (Some [])"
| "difop_loop (Suc n) (v # vs) (h # hs) =
     (case difop_angles v h of
        None \<Rightarrow> Some None
      | Some a \<Rightarrow> map_option (map_option ((#) a)) (difop_loop n vs hs))"
| "difop_loop (Suc n) _ _ = None"

definition loadFromDifop :: "RSCalibrationAngle list \<Rightarrow> RSCalibrationAngle list \<Rightarrow> ChanAngles
    \<Rightarrow> (int \<times> ChanAngles) option" where
  "loadFromDifop vert_arr horiz_arr c =
     (case difop_loop (unat (chan_num c)) vert_arr horiz_arr of
        None \<Rightarrow> None
      | Some None \<Rightarrow> Some (-1, c)
      | Some (Some angles) \<Rightarrow> Some (if angles = [] then (-1, c)
          else (0, set_angles (map fst angles) (map snd angles) c)))"

text \<open>The lines of the angle file, \<^term>\<open>None\<close> when it cannot be opened; \<open>stof\<close> is \<^verbatim>\<open>std::stof\<close>, \<^term>\<open>None\<close> when
  it throws, which nothing catches.\<close>

definition file_line :: "(string \<Rightarrow> 'r::floor_ceiling option) \<Rightarrow> string \<Rightarrow> (int \<times> int) option" where
  "file_line stof line = do {
     vert \<leftarrow> stof line;
     horiz \<leftarrow> (if CHR '','' \<in> set line then stof (tl (dropWhile (\<lambda>c. c \<noteq> CHR '','') line)) else Some 0);
     Some (trunc (vert * 100), trunc (horiz * 100))
   }"

fun file_loop :: "(string \<Rightarrow> 'r::floor_ceiling option) \<Rightarrow> nat \<Rightarrow> string list \<Rightarrow> (int \<times> int) list option option" where
  "file_loop stof 0 ls = Some (Some [])"
| "file_loop stof (Suc n) [] = Some None"
| "file_loop stof (Suc n) (l # ls) =
     (case file_line stof l of
        None \<Rightarrow> None
      | Some a \<Rightarrow> map_option (map_option ((#) a)) (file_loop stof n ls))"

definition loadFromFile :: "(string \<Rightarrow> 'r::floor_ceiling option) \<Rightarrow> string list option \<Rightarrow> ChanAngles
    \<Rightarrow> (int \<times> ChanAngles) option" where
  "loadFromFile stof file c =
     (case file of
        None \<Rightarrow> Some (-1, c)
      | Some ls \<Rightarrow> (case file_loop stof (unat (chan_num c)) ls of
            None \<Rightarrow> None
          | Some None \<Rightarrow> Some (-1, c)
          | Some (Some angles) \<Rightarrow> Some (if length angles \<noteq> unat (chan_num c) then (-1, c)
              else (0, set_angles (map fst angles) (map snd angles) c))))"

text \<open>The 24 channels of an AIRY Lite packet: values in two bytes, signs in a bit field. All values are
  read before a bad one is reported.\<close>

definition airylite_angle :: "bytes \<Rightarrow> nat \<Rightarrow> nat \<Rightarrow> nat \<Rightarrow> int" where
  "airylite_angle m val_idx symb_idx i =
     (let v = uint (m ! (val_idx + i * 2)) * 256 + uint (m ! (val_idx + i * 2 + 1))
      in if bit (m ! (symb_idx + i div 8)) (i mod 8) then - v else v)"

definition loadFromDifopAIRYLITE :: "bytes option \<Rightarrow> nat \<Rightarrow> ChanAngles \<Rightarrow> int \<times> ChanAngles" where
  "loadFromDifopAIRYLITE packet_angle n c =
     (case packet_angle of
        None \<Rightarrow> (-1, c)
      | Some m \<Rightarrow>
          if n < 102 then (-1, c)
          else (let vs = map (airylite_angle m 0 48) [0..<24]; hs = map (airylite_angle m 51 99) [0..<24]
            in if \<exists>v \<in> set (vs @ hs). \<not> (- 9000 \<le> v \<and> v < 9000) then (-1, c)
               else (0, set_angles vs hs c)))"

definition toUserChan :: "ChanAngles \<Rightarrow> nat \<Rightarrow> u16 option" where
  "toUserChan c chan = nth_opt (user_chans c) chan"

definition horizAdjust :: "ChanAngles \<Rightarrow> nat \<Rightarrow> int \<Rightarrow> int option" where
  "horizAdjust c chan horiz = do { h \<leftarrow> nth_opt (horiz_angles c) chan; Some (horiz + h) }"

definition vertAdjust :: "ChanAngles \<Rightarrow> nat \<Rightarrow> int option" where
  "vertAdjust c chan = nth_opt (vert_angles c) chan"

section \<open>Tables of sine and cosine\<close>

text \<open>The tables are indexed by hundredths (and thousandths) of a degree; \<open>e_sin\<close> and \<open>e_cos\<close> stand for
  \<^verbatim>\<open>std::sin\<close> and \<^verbatim>\<open>std::cos\<close> of an angle in degrees.\<close>

record 'r trigon =
  e_sin :: "'r \<Rightarrow> 'r"
  e_cos :: "'r \<Rightarrow> 'r"

abbreviation ANGLE_MIN :: int where "ANGLE_MIN \<equiv> - 9000"
abbreviation ANGLE_MAX :: int where "ANGLE_MAX \<equiv> 45000"

definition clamp_angle :: "int \<Rightarrow> int" where
  "clamp_angle angle = (if angle < ANGLE_MIN \<or> angle \<ge> ANGLE_MAX then 0 else angle)"

definition clamp_fine :: "int \<Rightarrow> int" where
  "clamp_fine angle = (if angle < - 90000 \<or> angle \<ge> 450000 then 0 else angle)"

definition SIN :: "'r::floor_ceiling trigon \<Rightarrow> int \<Rightarrow> 'r" where
  "SIN m angle = e_sin m (of_int (clamp_angle angle) / 100)"

definition COS :: "'r::floor_ceiling trigon \<Rightarrow> int \<Rightarrow> 'r" where
  "COS m angle = e_cos m (of_int (clamp_angle angle) / 100)"

definition SIN_FINE :: "'r::floor_ceiling trigon \<Rightarrow> int \<Rightarrow> 'r" where
  "SIN_FINE m angle = e_sin m (of_int (clamp_fine angle) / 1000)"

definition COS_FINE :: "'r::floor_ceiling trigon \<Rightarrow> int \<Rightarrow> 'r" where
  "COS_FINE m angle = e_cos m (of_int (clamp_fine angle) / 1000)"

section \<open>Loading is all or nothing\<close>

definition chan_inv :: "ChanAngles \<Rightarrow> bool" where
  "chan_inv c \<longleftrightarrow> length (vert_angles c) = unat (chan_num c) \<and> length (horiz_angles c) = unat (chan_num c) \<and>
     length (user_chans c) = unat (chan_num c)"

lemma chan_inv_init: "chan_inv (mk_ChanAngles n)"
  by (simp add: chan_inv_def mk_ChanAngles_def)

lemma length_genUserChan [simp]: "length (genUserChan vs) = length vs"
  by (simp add: genUserChan_def)

lemma difop_loop_Some:
  "difop_loop n vs hs = Some (Some as) \<Longrightarrow> length as = n \<and> n \<le> length vs \<and> n \<le> length hs \<and>
    (\<forall>i < n. difop_angles (vs ! i) (hs ! i) = Some (as ! i))"
proof (induction n vs hs arbitrary: as rule: difop_loop.induct)
  case (2 n v vs h hs)
  then obtain a bs where a: "difop_angles v h = Some a" "difop_loop n vs hs = Some (Some bs)" "as = a # bs"
    by (auto split: option.splits)
  from 2(1) [OF a(1,2)] a show ?case by (auto simp: nth_Cons')
qed simp_all

lemma difop_loop_total: "n \<le> length vs \<Longrightarrow> n \<le> length hs \<Longrightarrow> difop_loop n vs hs \<noteq> None"
  by (induction n vs hs rule: difop_loop.induct) (auto split: option.split)

lemma difop_loop_None: "difop_loop n vs hs = Some None \<Longrightarrow> n \<le> length vs \<Longrightarrow> n \<le> length hs \<Longrightarrow>
    \<exists>i < n. difop_angles (vs ! i) (hs ! i) = None"
proof (induction n vs hs rule: difop_loop.induct)
  case (2 n v vs h hs)
  show ?case
  proof (cases "difop_angles v h")
    case None
    then show ?thesis by (intro exI [of _ 0]) simp
  next
    case (Some a)
    then have "difop_loop n vs hs = Some None" using 2(2) by (auto split: option.splits)
    from 2(1) [OF Some this] 2(3,4) obtain i where "i < n" "difop_angles (vs ! i) (hs ! i) = None" by auto
    then show ?thesis by (intro exI [of _ "Suc i"]) simp
  qed
qed simp_all

lemma difop_angles_range:
  "difop_angles v h = Some (a, b) \<Longrightarrow> angleCheck a \<and> angleCheck b"
  by (auto simp: difop_angles_def Let_def split: if_splits)

lemma file_loop_length: "file_loop stof n ls = Some (Some as) \<Longrightarrow> length as = n"
  by (induction stof n ls arbitrary: as rule: file_loop.induct) (auto split: option.splits)

lemma loadFromFile_inv: "chan_inv c \<Longrightarrow> loadFromFile stof f c = Some (r, c') \<Longrightarrow> chan_inv c' \<and> chan_num c' = chan_num c"
  by (auto simp: loadFromFile_def chan_inv_def set_angles_def split: option.splits if_splits)

lemma loadFromDifop_inv: "chan_inv c \<Longrightarrow> loadFromDifop vs hs c = Some (r, c') \<Longrightarrow> chan_inv c' \<and> chan_num c' = chan_num c"
  by (auto simp: loadFromDifop_def chan_inv_def set_angles_def dest: difop_loop_Some split: option.splits if_splits)

section \<open>The numbering of the lasers\<close>

lemma rank_mono:
  assumes "a \<in> set vs" and "a < b"
  shows "length (filter (\<lambda>v. v < a) vs) < length (filter (\<lambda>v. v < b) (vs :: int list))"
  using assms
proof (induction vs)
  case Nil
  then show ?case by simp
next
  case (Cons x xs)
  have le: "length (filter (\<lambda>v. v < a) xs) \<le> length (filter (\<lambda>v. v < b) xs)"
    using Cons.prems(2) by (induction xs) auto
  show ?case
  proof (cases "a \<in> set xs")
    case True
    then show ?thesis using Cons by auto
  next
    case False
    then have "x = a" using Cons.prems(1) by simp
    then show ?thesis using le Cons.prems(2) by simp
  qed
qed

lemma genUserChan_nth:
  assumes "length vs < 65536" and "i < length vs"
  shows "unat (genUserChan vs ! i) = length (filter (\<lambda>v. v < vs ! i) vs)"
proof -
  have "length (filter (\<lambda>v. v < vs ! i) vs) < 65536" using assms(1) length_filter_le [of "\<lambda>v. v < vs ! i" vs] by linarith
  then show ?thesis using assms(2) by (simp add: genUserChan_def unat_of_nat)
qed

lemma genUserChan_less:
  assumes "length vs < 65536" and "i < length vs"
  shows "unat (genUserChan vs ! i) < length vs"
proof -
  have "vs ! i \<in> set vs" using assms(2) by simp
  then have "length (filter (\<lambda>v. v < vs ! i) vs) < length vs"
    by (metis (mono_tags, lifting) length_filter_less order_less_irrefl)
  then show ?thesis using genUserChan_nth [OF assms] by simp
qed

lemma genUserChan_mono:
  assumes "length vs < 65536" and "i < length vs" and "j < length vs"
  shows "genUserChan vs ! i < genUserChan vs ! j \<longleftrightarrow> vs ! i < vs ! j"
proof -
  have "vs ! i \<in> set vs" "vs ! j \<in> set vs" using assms(2,3) by simp_all
  then show ?thesis
    using rank_mono [of "vs ! i" vs "vs ! j"] rank_mono [of "vs ! j" vs "vs ! i"]
    by (simp add: word_less_nat_alt genUserChan_nth assms) (metis less_irrefl linorder_neqE less_asym)
qed

lemma genUserChan_permutation:
  assumes "length vs < 65536" and "distinct vs"
  shows "distinct (genUserChan vs) \<and> unat ` set (genUserChan vs) = {..<length vs}"
proof -
  have "distinct (genUserChan vs)"
    using genUserChan_mono [OF assms(1)] assms(2)
    by (simp add: distinct_conv_nth) (metis linorder_neqE less_irrefl)
  moreover have "unat ` set (genUserChan vs) \<subseteq> {..<length vs}"
    using genUserChan_less [OF assms(1)] by (auto simp: in_set_conv_nth)
  moreover have "card (unat ` set (genUserChan vs)) = length vs" if "distinct (genUserChan vs)"
    using that card_image [of unat "set (genUserChan vs)"] inj_onI [of "set (genUserChan vs)" unat]
    by (simp add: word_unat_eq_iff distinct_card)
  ultimately show ?thesis by (simp add: card_subset_eq)
qed

text \<open>C31: loading the angles of a DIFOP packet is all or nothing. If a laser has an invalid sign or an angle out of
  range, the result is -1 and nothing changes. Otherwise the angles are those of the packet, and the
  lasers are numbered from 0 by their vertical angle: a permutation when the angles differ.\<close>

theorem loadFromDifop_numbers:
  assumes "chan_inv c" and "0 < chan_num c" and "unat (chan_num c) \<le> length vs" and "unat (chan_num c) \<le> length hs"
  shows "\<exists>r c'. loadFromDifop vs hs c = Some (r, c') \<and>
    (if \<exists>i < unat (chan_num c). difop_angles (vs ! i) (hs ! i) = None then r = -1 \<and> c' = c
     else r = 0 \<and> chan_inv c' \<and>
       (\<forall>i < unat (chan_num c). difop_angles (vs ! i) (hs ! i) = Some (vert_angles c' ! i, horiz_angles c' ! i) \<and>
          angleCheck (vert_angles c' ! i) \<and> angleCheck (horiz_angles c' ! i)) \<and>
       (\<forall>i < unat (chan_num c). \<forall>j < unat (chan_num c).
          user_chans c' ! i < user_chans c' ! j \<longleftrightarrow> vert_angles c' ! i < vert_angles c' ! j) \<and>
       (distinct (vert_angles c') \<longrightarrow> unat ` set (user_chans c') = {..<unat (chan_num c)}))"
proof -
  let ?n = "unat (chan_num c)"
  from difop_loop_total [OF assms(3,4)] obtain r where r: "difop_loop ?n vs hs = Some r" by blast
  show ?thesis
  proof (cases r)
    case None
    with r have "\<exists>i < ?n. difop_angles (vs ! i) (hs ! i) = None"
      using difop_loop_None [OF _ assms(3,4)] by simp
    then show ?thesis using r None by (auto simp: loadFromDifop_def)
  next
    case (Some as)
    with r have as: "length as = ?n" "\<forall>i < ?n. difop_angles (vs ! i) (hs ! i) = Some (as ! i)"
      using difop_loop_Some [of ?n vs hs as] by simp_all
    let ?c = "set_angles (map fst as) (map snd as) c"
    have small: "length (map fst as) < 65536" using unat_less [of "chan_num c"] as(1) by simp
    have "as \<noteq> []" using as(1) assms(2) by (auto simp: word_less_nat_alt)
    then have load: "loadFromDifop vs hs c = Some (0, ?c)" using r Some by (simp add: loadFromDifop_def)
    have "angleCheck (fst (as ! i)) \<and> angleCheck (snd (as ! i))" if "i < ?n" for i
      using as(2) that difop_angles_range [of "vs ! i" "hs ! i" "fst (as ! i)" "snd (as ! i)"] by simp
    then show ?thesis
      using load as genUserChan_mono [OF small] genUserChan_permutation [OF small] assms(1)
      by (intro exI [of _ 0] exI [of _ ?c]) (auto simp: set_angles_def chan_inv_def)
  qed
qed

lemma loadFromDifop_numbers_witness:
  "\<exists>c'. loadFromDifop [\<lparr>cal_sign = 0, cal_value = 0x0A00\<rparr>, \<lparr>cal_sign = 1, cal_value = 0x0500\<rparr>]
      [\<lparr>cal_sign = 0, cal_value = 0\<rparr>, \<lparr>cal_sign = 0, cal_value = 0\<rparr>] (mk_ChanAngles 2) = Some (0, c') \<and>
    user_chans c' ! 1 < user_chans c' ! 0"
proof -
  let ?vs = "[\<lparr>cal_sign = 0, cal_value = 0x0A00\<rparr>, \<lparr>cal_sign = 1, cal_value = 0x0500\<rparr>]"
  let ?hs = "[\<lparr>cal_sign = 0, cal_value = 0\<rparr>, \<lparr>cal_sign = 0, cal_value = 0\<rparr>]"
  have a: "difop_angles (?vs ! 0) (?hs ! 0) = Some (10, 0)" "difop_angles (?vs ! 1) (?hs ! 1) = Some (-5, 0)"
    by code_simp+
  have n: "unat (chan_num (mk_ChanAngles 2)) = 2" by (simp add: mk_ChanAngles_def)
  have all: "\<not> (\<exists>i < 2. difop_angles (?vs ! i) (?hs ! i) = None)"
    using a by (auto simp: less_2_cases_iff)
  have "0 < chan_num (mk_ChanAngles 2)" "unat (chan_num (mk_ChanAngles 2)) \<le> length ?vs"
    "unat (chan_num (mk_ChanAngles 2)) \<le> length ?hs" by (simp_all add: mk_ChanAngles_def)
  from loadFromDifop_numbers [OF chan_inv_init this]
  obtain r c' where l: "loadFromDifop ?vs ?hs (mk_ChanAngles 2) = Some (r, c')" and
    c': "if \<exists>i < 2. difop_angles (?vs ! i) (?hs ! i) = None then r = -1 \<and> c' = mk_ChanAngles 2
     else r = 0 \<and> chan_inv c' \<and>
       (\<forall>i < 2. difop_angles (?vs ! i) (?hs ! i) = Some (vert_angles c' ! i, horiz_angles c' ! i) \<and>
          angleCheck (vert_angles c' ! i) \<and> angleCheck (horiz_angles c' ! i)) \<and>
       (\<forall>i < 2. \<forall>j < 2. user_chans c' ! i < user_chans c' ! j \<longleftrightarrow> vert_angles c' ! i < vert_angles c' ! j) \<and>
       (distinct (vert_angles c') \<longrightarrow> unat ` set (user_chans c') = {..<2})"
    unfolding n by blast
  note c = c' [unfolded if_not_P [OF all]]
  have p: "(0::nat) < 2" "(1::nat) < 2" by simp_all
  note A = c [THEN conjunct2, THEN conjunct2, THEN conjunct1, rule_format, THEN conjunct1]
  have "vert_angles c' ! 0 = 10" using A [OF p(1)] unfolding a by simp
  moreover have "vert_angles c' ! 1 = -5" using A [OF p(2)] unfolding a by simp
  moreover note c [THEN conjunct2, THEN conjunct2, THEN conjunct2, THEN conjunct1, rule_format, OF p(2,1)]
  ultimately have "user_chans c' ! 1 < user_chans c' ! 0" by presburger
  moreover note r = c [THEN conjunct1]
  ultimately show ?thesis using l r by blast
qed

end
