(* ===== verification/Rs_Decoder.thy ===== *)
theory Rs_Decoder
  imports Rs_BasicAttr Rs_Section Rs_Split Rs_Blocks Rs_ChanAngles
begin

text \<open>
  The base class of the packet decoders of rs_driver (\<^verbatim>\<open>driver/decoder/decoder.hpp\<close>) with its parameters
  (\<^verbatim>\<open>driver/driver_param.hpp\<close>), its error codes (\<^verbatim>\<open>common/error_code.hpp\<close>) and the callback by which the
  driver takes a finished cloud (\<^verbatim>\<open>driver/lidar_driver_impl.hpp\<close>). The virtual functions of a
  lidar are arguments. Calls of the exception callback and published clouds are lists in the state.
  \<^term>\<open>None\<close> is a read behind the packet or outside a table.
\<close>

section \<open>The host\<close>

text \<open>The parts of \<^verbatim>\<open>std::tm\<close> that are used.\<close>

record tm =
  tm_year :: int
  tm_mon :: int
  tm_mday :: int
  tm_hour :: int
  tm_min :: int
  tm_sec :: int

text \<open>What the decoders take from the host while they process one packet: the n-th reading of the clock in
  microseconds, the seconds of \<^verbatim>\<open>time(NULL)\<close>, the calendar functions, the trigonometric functions, the square root and the number pi, the
  transformation of points (the identity unless \<^verbatim>\<open>ENABLE_TRANSFORM\<close> is defined), the number that a float's
  bits stand for, and the other macros.\<close>

record 'r host =
  h_clock :: "nat \<Rightarrow> u64"
  h_seconds :: int
  h_mktime :: "tm \<Rightarrow> u64"
  h_localtime :: "u64 \<Rightarrow> tm"
  h_timezone :: "u64 option"
  h_trig :: "'r trigon"
  h_transform :: "'r \<times> 'r \<times> 'r \<Rightarrow> 'r \<times> 'r \<times> 'r"
  h_float :: "u32 \<Rightarrow> 'r"
  h_sqrt :: "'r \<Rightarrow> 'r"
  h_pi :: 'r
  h_crc_check :: bool
  h_difop_parse :: bool

record RSTimestampYMD =
  ymd_year :: u8
  ymd_month :: u8
  ymd_day :: u8
  ymd_hour :: u8
  ymd_minute :: u8
  ymd_second :: u8
  ymd_ms :: u16
  ymd_us :: u16

definition parseTimeYMD :: "'r host \<Rightarrow> RSTimestampYMD \<Rightarrow> u64" where
  "parseTimeYMD h ts =
     (let sec = h_mktime h \<lparr>tm_year = uint (ymd_year ts) + (2000 - 1900), tm_mon = uint (ymd_month ts) - 1,
            tm_mday = uint (ymd_day ts), tm_hour = uint (ymd_hour ts), tm_min = uint (ymd_minute ts),
            tm_sec = uint (ymd_second ts)\<rparr>;
          ms = ucast (ntohs (ymd_ms ts)); us = ucast (ntohs (ymd_us ts));
          sec = (case h_timezone h of None \<Rightarrow> sec | Some z \<Rightarrow> sec - z)
      in sec * 1000000 + ms * 1000 + us)"

definition createTimeYMD :: "'r host \<Rightarrow> u64 \<Rightarrow> RSTimestampYMD" where
  "createTimeYMD h usec =
     (let us = usec mod 1000; tot_ms = (usec - us) div 1000; ms = tot_ms mod 1000; sec = tot_ms div 1000;
          sec = (case h_timezone h of None \<Rightarrow> sec | Some z \<Rightarrow> sec + z);
          stm = h_localtime h sec
      in \<lparr>ymd_year = of_int (tm_year stm - (2000 - 1900)), ymd_month = of_int (tm_mon stm + 1),
          ymd_day = of_int (tm_mday stm), ymd_hour = of_int (tm_hour stm), ymd_minute = of_int (tm_min stm),
          ymd_second = of_int (tm_sec stm), ymd_ms = ntohs (ucast ms), ymd_us = ntohs (ucast us)\<rparr>)"

text \<open>Both formats as ten bytes of a packet.\<close>

definition read_ymd :: "bytes \<Rightarrow> nat \<Rightarrow> RSTimestampYMD option" where
  "read_ymd m off = do {
     b \<leftarrow> rd m off 6; ms \<leftarrow> rd m (off + 6) 2; us \<leftarrow> rd m (off + 8) 2;
     Some \<lparr>ymd_year = b ! 0, ymd_month = b ! 1, ymd_day = b ! 2, ymd_hour = b ! 3, ymd_minute = b ! 4,
       ymd_second = b ! 5, ymd_ms = le_dec ms, ymd_us = le_dec us\<rparr>
   }"

definition write_ymd :: "bytes \<Rightarrow> nat \<Rightarrow> RSTimestampYMD \<Rightarrow> bytes option" where
  "write_ymd m off ts = wr m off ([ymd_year ts, ymd_month ts, ymd_day ts, ymd_hour ts, ymd_minute ts, ymd_second ts]
     @ le_enc 2 (ymd_ms ts) @ le_enc 2 (ymd_us ts))"

definition read_utc :: "bytes \<Rightarrow> nat \<Rightarrow> RSTimestampUTC option" where
  "read_utc m off = do { s \<leftarrow> rd m off 6; ss \<leftarrow> rd m (off + 6) 4; Some \<lparr>utc_sec = s, utc_ss = ss\<rparr> }"

definition write_utc :: "bytes \<Rightarrow> nat \<Rightarrow> RSTimestampUTC \<Rightarrow> bytes option" where
  "write_utc m off ts = wr m off (utc_sec ts @ utc_ss ts)"

definition read_temp :: "bytes \<Rightarrow> nat \<Rightarrow> RSTemperature option" where
  "read_temp m off = do { t \<leftarrow> rd m off 2; Some \<lparr>tt0 = t ! 0, tt1 = t ! 1\<rparr> }"

definition read_u8 :: "bytes \<Rightarrow> nat \<Rightarrow> u8 option" where
  "read_u8 m off = map_option hd (rd m off 1)"

text \<open>A 16-bit field as the host sees it, in the byte order of memory.\<close>

definition read_u16 :: "bytes \<Rightarrow> nat \<Rightarrow> u16 option" where
  "read_u16 m off = map_option le_dec (rd m off 2)"

section \<open>Parameters\<close>

datatype ErrCode =
  ERRCODE_PCAPREPEAT | ERRCODE_PCAPEXIT | ERRCODE_MSOPTIMEOUT | ERRCODE_NODIFOPRECV | ERRCODE_WRONGMSOPLEN
| ERRCODE_WRONGMSOPID | ERRCODE_WRONGMSOPBLKID | ERRCODE_WRONGDIFOPLEN | ERRCODE_WRONGDIFOPID | ERRCODE_ZEROPOINTS
| ERRCODE_PKTBUFOVERFLOW | ERRCODE_CLOUDOVERFLOW | ERRCODE_WRONGCRC32 | ERRCODE_WRONGIMULEN | ERRCODE_WRONGIMUID
| ERRCODE_WRONGMSOPPCAPPARSE | ERRCODE_WRONGDIFOPPCAPPARSE | ERRCODE_WRONGIMUPCAPPARSE | ERRCODE_STARTBEFOREINIT
| ERRCODE_PCAPWRONGPATH | ERRCODE_POINTCLOUDNULL | ERRCODE_IMUDATANULL

datatype RSEchoMode = ECHO_SINGLE | ECHO_DUAL

datatype SplitFrameMode = SPLIT_BY_ANGLE | SPLIT_BY_FIXED_BLKS | SPLIT_BY_CUSTOM_BLKS

record 'r RSDecoderParam =
  min_distance :: 'r
  max_distance :: 'r
  use_lidar_clock :: bool
  dense_points :: bool
  ts_first_point :: bool
  wait_for_difop :: bool
  config_from_file :: bool
  angle_path :: string
  start_angle :: 'r
  end_angle :: 'r
  split_frame_mode :: SplitFrameMode
  prm_split_angle :: 'r
  num_blks_split :: u16

definition default_param :: "'r::floor_ceiling RSDecoderParam" where
  "default_param = \<lparr>min_distance = 0, max_distance = 0, use_lidar_clock = False, dense_points = False,
     ts_first_point = False, wait_for_difop = True, config_from_file = False, angle_path = [], start_angle = 0,
     end_angle = 360, split_frame_mode = SPLIT_BY_ANGLE, prm_split_angle = 0, num_blks_split = 1\<rparr>"

record 'r RSDecoderConstParam =
  MSOP_LEN :: nat
  DIFOP_LEN :: nat
  MSOP_ID_LEN :: nat
  DIFOP_ID_LEN :: nat
  MSOP_ID :: bytes
  DIFOP_ID :: bytes
  BLOCK_ID :: bytes
  LASER_NUM :: nat
  BLOCKS_PER_PKT :: nat
  CHANNELS_PER_BLOCK :: nat
  DISTANCE_MIN :: 'r
  DISTANCE_MAX :: 'r
  DISTANCE_RES :: 'r
  TEMPERATURE_RES :: 'r
  IMU_LEN :: nat
  IMU_ID_LEN :: nat
  IMU_ID :: bytes

record 'r DeviceInfo =
  di_state :: bool
  di_sn :: bytes
  di_mac :: bytes
  di_top_ver :: bytes
  di_bottom_ver :: bytes
  di_qx :: 'r
  di_qy :: 'r
  di_qz :: 'r
  di_qw :: 'r
  di_x :: 'r
  di_y :: 'r
  di_z :: 'r

definition new_DeviceInfo :: "'r::floor_ceiling DeviceInfo" where
  "new_DeviceInfo = \<lparr>di_state = False, di_sn = replicate 6 0, di_mac = replicate 6 0, di_top_ver = replicate 5 0,
     di_bottom_ver = replicate 5 0, di_qx = 0, di_qy = 0, di_qz = 0, di_qw = 1, di_x = 0, di_y = 0, di_z = 0\<rparr>"

record DeviceStatus =
  ds_voltage :: u16
  ds_state :: bool

definition new_DeviceStatus :: DeviceStatus where
  "new_DeviceStatus = \<lparr>ds_voltage = 0, ds_state = False\<rparr>"

section \<open>State\<close>

text \<open>A point; \<^term>\<open>None\<close> for the coordinates is three times NaN, \<^term>\<open>None\<close> for the feature that the decoder
  does not set it.\<close>

record 'r point =
  pt_xyz :: "('r \<times> 'r \<times> 'r) option"
  pt_intensity :: u8
  pt_timestamp :: 'r
  pt_ring :: u16
  pt_feature :: "u8 option"

record 'r PointCloud =
  height :: nat
  width :: nat
  is_dense :: bool
  timestamp :: 'r
  seq :: u32
  cloud_points :: "'r point list"

record 'r ImuData =
  imu_state :: bool
  imu_timestamp :: 'r
  orientation_x :: 'r
  orientation_y :: 'r
  orientation_z :: 'r
  orientation_w :: 'r
  angular_velocity_x :: 'r
  angular_velocity_y :: 'r
  angular_velocity_z :: 'r
  linear_acceleration_x :: 'r
  linear_acceleration_y :: 'r
  linear_acceleration_z :: 'r

definition new_ImuData :: "'r::floor_ceiling ImuData" where
  "new_ImuData = \<lparr>imu_state = False, imu_timestamp = 0, orientation_x = 0, orientation_y = 0, orientation_z = 0,
     orientation_w = 1, angular_velocity_x = 0, angular_velocity_y = 0, angular_velocity_z = 0,
     linear_acceleration_x = 0, linear_acceleration_y = 0, linear_acceleration_z = 0\<rparr>"

record 'r Decoder =
  bCheckMsopLen :: bool
  bCheckDifopLen :: bool
  const_param :: "'r RSDecoderConstParam"
  param :: "'r RSDecoderParam"
  write_pkt_ts :: bool
  packet_duration :: 'r
  distance_section :: "'r DistanceSection"
  echo_mode :: RSEchoMode
  temperature :: 'r
  is_get_temperature :: bool
  device_info :: "'r DeviceInfo"
  device_status :: DeviceStatus
  angles_ready :: bool
  prev_pkt_ts :: 'r
  prev_point_ts :: 'r
  first_point_ts :: 'r
  point_cloud :: "'r point list"
  is_mech :: bool
  pre_split_comm :: SplitBySeq
  imuDataPtr :: "'r ImuData option"
  cb_imu_registered :: bool
  limits :: "ErrCode \<Rightarrow> int option"
  exceptions :: "ErrCode list"
  clouds :: "'r PointCloud list"
  imus :: "'r ImuData list"

definition mk_Decoder :: "'r::floor_ceiling RSDecoderConstParam \<Rightarrow> 'r RSDecoderParam \<Rightarrow> 'r Decoder" where
  "mk_Decoder c p = \<lparr>bCheckMsopLen = True, bCheckDifopLen = True, const_param = c, param = p, write_pkt_ts = False, packet_duration = 0,
     distance_section = mk_DistanceSection (DISTANCE_MIN c) (DISTANCE_MAX c) (min_distance p) (max_distance p),
     echo_mode = ECHO_SINGLE, temperature = 0, is_get_temperature = False, device_info = new_DeviceInfo,
     device_status = new_DeviceStatus, angles_ready = False, prev_pkt_ts = 0, prev_point_ts = 0, first_point_ts = 0,
     point_cloud = [], is_mech = False, pre_split_comm = mk_SplitBySeq, imuDataPtr = None,
     cb_imu_registered = False, limits = (\<lambda>_. None), exceptions = [], clouds = [], imus = []\<rparr>"

section \<open>Operations\<close>

definition cb_excep :: "ErrCode \<Rightarrow> ('r, 'a) Decoder_scheme \<Rightarrow> ('r, 'a) Decoder_scheme" where
  "cb_excep e d = d\<lparr>exceptions := exceptions d @ [e]\<rparr>"

text \<open>The macros \<^verbatim>\<open>LIMIT_CALL\<close> and \<^verbatim>\<open>DELAY_LIMIT_CALL\<close> with a limit of one second: at most one report in two
  seconds, and none in the first one for the delayed form. Each call site has its own time and its own
  error code. In the source the time is a static variable of the call site, shared by all decoders of the process; here each decoder
  has its own, which is the same for a process with one decoder.\<close>

definition limit_excep :: "'r host \<Rightarrow> ErrCode \<Rightarrow> ('r, 'a) Decoder_scheme \<Rightarrow> ('r, 'a) Decoder_scheme" where
  "limit_excep h e d =
     (let prev = (case limits d e of None \<Rightarrow> 0 | Some t \<Rightarrow> t)
      in if h_seconds h - prev > 1 then (cb_excep e d)\<lparr>limits := (limits d)(e \<mapsto> h_seconds h)\<rparr>
         else d\<lparr>limits := (limits d)(e \<mapsto> prev)\<rparr>)"

definition delay_limit_excep :: "'r host \<Rightarrow> ErrCode \<Rightarrow> ('r, 'a) Decoder_scheme \<Rightarrow> ('r, 'a) Decoder_scheme" where
  "delay_limit_excep h e d =
     (let prev = (case limits d e of None \<Rightarrow> h_seconds h | Some t \<Rightarrow> t)
      in if h_seconds h - prev > 1 then (cb_excep e d)\<lparr>limits := (limits d)(e \<mapsto> h_seconds h)\<rparr>
         else d\<lparr>limits := (limits d)(e \<mapsto> prev)\<rparr>)"

definition enableWritePktTs :: "bool \<Rightarrow> ('r, 'a) Decoder_scheme \<Rightarrow> ('r, 'a) Decoder_scheme" where
  "enableWritePktTs v d = d\<lparr>write_pkt_ts := v\<rparr>"

definition getTemperature :: "('r, 'a) Decoder_scheme \<Rightarrow> 'r option" where
  "getTemperature d = (if \<not> is_get_temperature d then None else Some (temperature d))"

definition getDeviceInfo :: "('r, 'a) Decoder_scheme \<Rightarrow> 'r DeviceInfo option" where
  "getDeviceInfo d = (if \<not> di_state (device_info d) then None else Some (device_info d))"

definition getDeviceStatus :: "('r, 'a) Decoder_scheme \<Rightarrow> DeviceStatus option \<times> ('r, 'a) Decoder_scheme" where
  "getDeviceStatus d =
     (if \<not> ds_state (device_status d) then (None, d)
      else (Some (device_status d), d\<lparr>device_status := new_DeviceStatus\<rparr>))"

definition cloudTs :: "('r, 'a) Decoder_scheme \<Rightarrow> 'r" where
  "cloudTs d = (if ts_first_point (param d) then first_point_ts d else prev_point_ts d)"

text \<open>\<^verbatim>\<open>splitFrame\<close> of the driver, the callback \<^verbatim>\<open>cb_split_frame_\<close>. The number of the cloud is the number of
  clouds before it. The user's function that hands out an empty cloud is assumed to return one.\<close>

definition setPointCloudHeader :: "nat \<Rightarrow> 'r \<Rightarrow> ('r, 'a) Decoder_scheme \<Rightarrow> 'r PointCloud" where
  "setPointCloudHeader h ts d =
     (let n = length (point_cloud d); dense = dense_points (param d)
      in \<lparr>height = (if dense then 1 else h), width = (if dense then n else n div h), is_dense = dense,
          timestamp = ts, seq = of_nat (length (clouds d)), cloud_points = point_cloud d\<rparr>)"

definition splitFrame :: "nat \<Rightarrow> 'r \<Rightarrow> ('r, 'a) Decoder_scheme \<Rightarrow> ('r, 'a) Decoder_scheme" where
  "splitFrame h ts d =
     (if point_cloud d \<noteq> [] then d\<lparr>clouds := clouds d @ [setPointCloudHeader h ts d], point_cloud := []\<rparr> else d)"

definition cb_split_frame :: "('r, 'a) Decoder_scheme \<Rightarrow> ('r, 'a) Decoder_scheme" where
  "cb_split_frame d = splitFrame (LASER_NUM (const_param d)) (cloudTs d) d"

text \<open>\<^verbatim>\<open>putImuData\<close> of the driver, the callback \<^verbatim>\<open>cb_imu_data_\<close>: the user takes the data and hands out
  another object, assumed to be new. \<^term>\<open>None\<close> is the null pointer.\<close>

definition putImuData :: "('r::floor_ceiling, 'a) Decoder_scheme \<Rightarrow> ('r, 'a) Decoder_scheme option" where
  "putImuData d =
     (case imuDataPtr d of
        None \<Rightarrow> None
      | Some imu \<Rightarrow> Some (if imu_state imu then d\<lparr>imus := imus d @ [imu], imuDataPtr := Some new_ImuData\<rparr> else d))"

definition processDifopPkt :: "(bytes \<Rightarrow> ('r, 'a) Decoder_scheme \<Rightarrow> ('r, 'a) Decoder_scheme option) \<Rightarrow> 'r host
    \<Rightarrow> bytes \<Rightarrow> ('r, 'a) Decoder_scheme \<Rightarrow> ('r, 'a) Decoder_scheme option" where
  "processDifopPkt decodeDifopPkt h pkt d =
     (if length pkt \<noteq> DIFOP_LEN (const_param d) \<and> bCheckDifopLen d then Some (limit_excep h ERRCODE_WRONGDIFOPLEN d)
      else do {
        i \<leftarrow> rd pkt 0 (DIFOP_ID_LEN (const_param d));
        if i \<noteq> take (DIFOP_ID_LEN (const_param d)) (DIFOP_ID (const_param d))
        then Some (limit_excep h ERRCODE_WRONGDIFOPID d)
        else decodeDifopPkt pkt d
      })"

definition processImuPkt :: "(bytes \<Rightarrow> ('r, 'a) Decoder_scheme \<Rightarrow> ('r, 'a) Decoder_scheme option) \<Rightarrow> 'r host
    \<Rightarrow> bytes \<Rightarrow> ('r, 'a) Decoder_scheme \<Rightarrow> (bool \<times> ('r, 'a) Decoder_scheme) option" where
  "processImuPkt decodeImuPkt h pkt d =
     (if length pkt \<noteq> IMU_LEN (const_param d) then Some (False, limit_excep h ERRCODE_WRONGIMULEN d)
      else do {
        i \<leftarrow> rd pkt 0 (IMU_ID_LEN (const_param d));
        if i \<noteq> take (IMU_ID_LEN (const_param d)) (IMU_ID (const_param d))
        then Some (False, limit_excep h ERRCODE_WRONGIMUID d)
        else do { d \<leftarrow> decodeImuPkt pkt d; Some (True, d) }
      })"

abbreviation CLOUD_POINT_MAX :: nat where "CLOUD_POINT_MAX \<equiv> 5000000"

text \<open>Decoding may write the time of the host into the packet, so the packet is a result, too.\<close>

definition processMsopPkt :: "(bytes \<Rightarrow> ('r, 'a) Decoder_scheme \<Rightarrow> (bool \<times> bytes \<times> ('r, 'a) Decoder_scheme) option)
    \<Rightarrow> 'r host \<Rightarrow> bytes \<Rightarrow> ('r, 'a) Decoder_scheme \<Rightarrow> (bool \<times> bytes \<times> ('r, 'a) Decoder_scheme) option" where
  "processMsopPkt decodeMsopPkt h pkt d =
     (let d = (if length (point_cloud d) > CLOUD_POINT_MAX
               then (limit_excep h ERRCODE_CLOUDOVERFLOW d)\<lparr>point_cloud := []\<rparr> else d)
      in if wait_for_difop (param d) \<and> \<not> angles_ready d
         then Some (False, pkt, delay_limit_excep h ERRCODE_NODIFOPRECV d)
         else if length pkt \<noteq> MSOP_LEN (const_param d) \<and> bCheckMsopLen d then Some (False, pkt, limit_excep h ERRCODE_WRONGMSOPLEN d)
         else do {
           i \<leftarrow> rd pkt 0 (MSOP_ID_LEN (const_param d));
           if i \<noteq> take (MSOP_ID_LEN (const_param d)) (MSOP_ID (const_param d))
           then Some (False, pkt, limit_excep h ERRCODE_WRONGMSOPID d)
           else do {
             crc \<leftarrow> (if h_crc_check h then isCrc32Correct pkt else Some True);
             if \<not> crc then Some (False, pkt, limit_excep h ERRCODE_WRONGCRC32 d)
             else decodeMsopPkt pkt d
           }
         })"

text \<open>The sequence number is big-endian at offset 4.\<close>

definition isNewFrameCommon :: "bytes \<Rightarrow> ('r, 'a) Decoder_scheme \<Rightarrow> (bool \<times> ('r, 'a) Decoder_scheme) option" where
  "isNewFrameCommon packet d = do {
     hi \<leftarrow> nth_opt packet 4; lo \<leftarrow> nth_opt packet 5;
     let pkt_seq = push_bit 8 (ucast hi) OR ucast lo;
     let (v, s) = seq_newPacket pkt_seq (pre_split_comm d);
     Some (v, d\<lparr>pre_split_comm := s\<rparr>)
   }"

definition isNewFrame_base :: "bytes \<Rightarrow> ('r, 'a) Decoder_scheme \<Rightarrow> (bool \<times> ('r, 'a) Decoder_scheme) option" where
  "isNewFrame_base packet d = (if \<not> is_mech d then isNewFrameCommon packet d else Some (False, d))"

section \<open>What a decoder promises to the driver\<close>

text \<open>A decoder keeps its invariant \<open>ok\<close> and never reads or writes outside a packet of the right length. The driver's checks then
  make every packet safe, whatever its length and content. The contract for MSOP packets comes first, since one decoder
  does not have the length of its DIFOP packets checked.\<close>

locale msop_contract =
  fixes ok :: "('r::floor_ceiling, 'a) Decoder_scheme \<Rightarrow> bool" and c :: "'r RSDecoderConstParam"
    and msop :: "bytes \<Rightarrow> ('r, 'a) Decoder_scheme \<Rightarrow> (bool \<times> bytes \<times> ('r, 'a) Decoder_scheme) option"
  assumes msop_const: "ok d \<Longrightarrow> MSOP_LEN (const_param d) = MSOP_LEN c \<and> MSOP_ID_LEN (const_param d) = MSOP_ID_LEN c \<and> bCheckMsopLen d"
    and msop_limit: "ok d \<Longrightarrow> ok (limit_excep h e d)" "ok d \<Longrightarrow> ok (delay_limit_excep h e d)"
    and msop_clear: "ok d \<Longrightarrow> ok (d\<lparr>point_cloud := []\<rparr>)"
    and msop_keeps: "ok d \<Longrightarrow> length pkt = MSOP_LEN c \<Longrightarrow> \<exists>ret pkt' d'. msop pkt d = Some (ret, pkt', d') \<and> length pkt' = length pkt \<and> ok d'"
    and msop_lens: "MSOP_ID_LEN c \<le> MSOP_LEN c" "6 \<le> MSOP_LEN c"
begin

lemma isCrc32Correct_total: "6 \<le> length pkt \<Longrightarrow> isCrc32Correct pkt \<noteq> None"
  by (simp add: isCrc32Correct_def rd_def Let_def)

lemma processMsopPkt_ok:
  assumes "ok d"
  shows "\<exists>ret pkt' d'. processMsopPkt msop h pkt d = Some (ret, pkt', d') \<and> length pkt' = length pkt \<and> ok d'"
proof -
  define e where "e = (if length (point_cloud d) > CLOUD_POINT_MAX
    then (limit_excep h ERRCODE_CLOUDOVERFLOW d)\<lparr>point_cloud := []\<rparr> else d)"
  have e: "ok e" using assms msop_limit(1) msop_clear by (simp add: e_def)
  note c = msop_const [OF e] and l = msop_limit [OF e]
  have p: "processMsopPkt msop h pkt d = (if wait_for_difop (param e) \<and> \<not> angles_ready e
         then Some (False, pkt, delay_limit_excep h ERRCODE_NODIFOPRECV e)
         else if length pkt \<noteq> MSOP_LEN (const_param e) \<and> bCheckMsopLen e then Some (False, pkt, limit_excep h ERRCODE_WRONGMSOPLEN e)
         else do {
           i \<leftarrow> rd pkt 0 (MSOP_ID_LEN (const_param e));
           if i \<noteq> take (MSOP_ID_LEN (const_param e)) (MSOP_ID (const_param e))
           then Some (False, pkt, limit_excep h ERRCODE_WRONGMSOPID e)
           else do {
             crc \<leftarrow> (if h_crc_check h then isCrc32Correct pkt else Some True);
             if \<not> crc then Some (False, pkt, limit_excep h ERRCODE_WRONGCRC32 e)
             else msop pkt e
           }
         })" unfolding processMsopPkt_def e_def by (simp only: Let_def)
  show ?thesis
  proof (cases "length pkt = MSOP_LEN c")
    case True
    then obtain b where "isCrc32Correct pkt = Some b" using isCrc32Correct_total [of pkt] msop_lens(2) by auto
    then show ?thesis unfolding p using c l msop_lens(1) True msop_keeps [OF e True] by (auto simp: rd_def)
  qed (use c l p in auto)
qed

end

locale decoder_contract =
  fixes ok :: "('r::floor_ceiling, 'a) Decoder_scheme \<Rightarrow> bool" and c :: "'r RSDecoderConstParam"
    and msop :: "bytes \<Rightarrow> ('r, 'a) Decoder_scheme \<Rightarrow> (bool \<times> bytes \<times> ('r, 'a) Decoder_scheme) option"
    and difop :: "bytes \<Rightarrow> ('r, 'a) Decoder_scheme \<Rightarrow> ('r, 'a) Decoder_scheme option"
  assumes ok_const: "ok d \<Longrightarrow> MSOP_LEN (const_param d) = MSOP_LEN c \<and> MSOP_ID_LEN (const_param d) = MSOP_ID_LEN c \<and>
      DIFOP_LEN (const_param d) = DIFOP_LEN c \<and> DIFOP_ID_LEN (const_param d) = DIFOP_ID_LEN c \<and>
      bCheckMsopLen d \<and> bCheckDifopLen d"
    and ok_limit: "ok d \<Longrightarrow> ok (limit_excep h e d)" "ok d \<Longrightarrow> ok (delay_limit_excep h e d)"
    and ok_clear: "ok d \<Longrightarrow> ok (d\<lparr>point_cloud := []\<rparr>)"
    and msop_ok: "ok d \<Longrightarrow> length pkt = MSOP_LEN c \<Longrightarrow> \<exists>ret pkt' d'. msop pkt d = Some (ret, pkt', d') \<and> length pkt' = length pkt \<and> ok d'"
    and difop_ok: "ok d \<Longrightarrow> length pkt = DIFOP_LEN c \<Longrightarrow> \<exists>d'. difop pkt d = Some d' \<and> ok d'"
    and lens: "MSOP_ID_LEN c \<le> MSOP_LEN c" "6 \<le> MSOP_LEN c" "DIFOP_ID_LEN c \<le> DIFOP_LEN c"
begin

lemma processDifopPkt_ok:
  assumes "ok d"
  shows "\<exists>d'. processDifopPkt difop h pkt d = Some d' \<and> ok d'"
proof (cases "length pkt = DIFOP_LEN c")
  case True
  then show ?thesis
    using assms ok_const [OF assms] ok_limit [OF assms] difop_ok [OF assms] lens by (auto simp: processDifopPkt_def rd_def)
next
  case False
  then show ?thesis using assms ok_const [OF assms] ok_limit [OF assms] by (simp add: processDifopPkt_def)
qed

end

sublocale decoder_contract \<subseteq> msop_contract
  by unfold_locales (use ok_const in blast, ((rule ok_limit ok_clear msop_ok, assumption+) | rule lens)+)

text \<open>A decoder of a lidar with IMU; \<open>fits\<close> says which packets stay in the range of the arithmetic.\<close>

locale imu_contract = decoder_contract ok c msop difop
  for ok :: "('r::floor_ceiling, 'a) Decoder_scheme \<Rightarrow> bool" and c msop difop +
  fixes imu :: "bytes \<Rightarrow> ('r, 'a) Decoder_scheme \<Rightarrow> ('r, 'a) Decoder_scheme option" and fits :: "bytes \<Rightarrow> bool"
  assumes imu_const: "ok d \<Longrightarrow> IMU_LEN (const_param d) = IMU_LEN c \<and> IMU_ID_LEN (const_param d) = IMU_ID_LEN c"
    and imu_ok: "ok d \<Longrightarrow> length pkt = IMU_LEN c \<Longrightarrow> fits pkt \<Longrightarrow> \<exists>d'. imu pkt d = Some d' \<and> ok d'"
    and imu_lens: "IMU_ID_LEN c \<le> IMU_LEN c"
begin

lemma processImuPkt_ok:
  assumes "ok d" and "fits pkt"
  shows "\<exists>ret d'. processImuPkt imu h pkt d = Some (ret, d') \<and> ok d'"
proof (cases "length pkt = IMU_LEN c")
  case True
  obtain d' where "imu pkt d = Some d'" "ok d'" using imu_ok [OF assms(1) True assms(2)] by blast
  then show ?thesis using True imu_const [OF assms(1)] ok_limit(1) [OF assms(1)] imu_lens
    by (auto simp: processImuPkt_def rd_def)
next
  case False
  then show ?thesis using imu_const [OF assms(1)] ok_limit(1) [OF assms(1)] by (auto simp: processImuPkt_def)
qed

end

end
