(* ===== verification/Rs_Mech.thy ===== *)
theory Rs_Mech
  imports Rs_Decoder
begin

text \<open>
  The decoder of mechanical lidars of rs_driver (\<^verbatim>\<open>driver/decoder/decoder_mech.hpp\<close>) and the loops over the
  blocks and channels of an MSOP packet, which every mechanical lidar repeats with its own packet
  layout. Shown here: no point is lost on the way into the published clouds, the clouds of
  a lidar that keeps its invalid points are organised, frames are cut where the split strategy says,
  and a valid point lies at the measured distance from the lens.
\<close>

section \<open>Parameters and state\<close>

record 'r RSDecoderMechConstParam =
  base :: "'r RSDecoderConstParam"
  RX :: 'r
  RY :: 'r
  RZ :: 'r
  BLOCK_DURATION :: 'r
  CHAN_TSS :: "'r list"
  CHAN_AZIS :: "'r list"

text \<open>The tables have 128 entries, zero beyond the channels of the lidar.\<close>

definition fill128 :: "'r::zero list \<Rightarrow> 'r list" where
  "fill128 xs = xs @ replicate (128 - length xs) 0"

text \<open>The loop at the end of most \<^verbatim>\<open>getConstParam\<close>: firing times and block time in microseconds.\<close>

definition set_firing :: "'r::floor_ceiling \<Rightarrow> 'r list \<Rightarrow> 'r RSDecoderMechConstParam \<Rightarrow> 'r RSDecoderMechConstParam" where
  "set_firing blk_ts firing c = c\<lparr>CHAN_TSS := fill128 (map (\<lambda>t. t / 1000000) firing),
     CHAN_AZIS := fill128 (map (\<lambda>t. t / blk_ts) firing)\<rparr>"

text \<open>The fields of a DIFOP packet that the mechanical lidars share, in memory order of their bytes.\<close>

record AdapterDifopPkt =
  rpm :: u16
  fov_start_angle :: u16
  fov_end_angle :: u16
  top_ver :: bytes
  bottom_ver :: bytes
  mac_addr :: bytes
  sn :: bytes
  return_mode :: u8
  vol_12v :: u16
  vert_angle_cali :: "RSCalibrationAngle list"
  horiz_angle_cali :: "RSCalibrationAngle list"

datatype SplitStrategy = ByAngle SplitByAngle | ByFixedBlks SplitByNum | ByCustomBlks SplitByNum

record 'r DecoderMech = "'r Decoder" +
  mech_const :: "'r RSDecoderMechConstParam"
  chan_angles :: ChanAngles
  scan_section :: AzimuthSection
  split_strategy :: SplitStrategy
  pre_split_strategy :: SplitStrategy
  rps :: u16
  blks_per_frame :: u16
  split_blks_per_frame :: u16
  block_az_diff :: u16
  fov_blind_ts_diff :: 'r

definition mk_split :: "'r::floor_ceiling RSDecoderParam \<Rightarrow> SplitStrategy" where
  "mk_split p = (case split_frame_mode p of
     SPLIT_BY_FIXED_BLKS \<Rightarrow> ByFixedBlks mk_SplitByNum
   | SPLIT_BY_CUSTOM_BLKS \<Rightarrow> ByCustomBlks mk_SplitByNum
   | SPLIT_BY_ANGLE \<Rightarrow> ByAngle (mk_SplitByAngle (uint (of_int (trunc (prm_split_angle p * 100)) :: u16))))"

text \<open>The counting strategies read their limit through a pointer, each time.\<close>

definition newBlock :: "('r, 'a) DecoderMech_scheme \<Rightarrow> int \<Rightarrow> SplitStrategy \<Rightarrow> bool \<times> SplitStrategy" where
  "newBlock d az s = (case s of
     ByAngle a \<Rightarrow> (let (v, a) = angle_newBlock az a in (v, ByAngle a))
   | ByFixedBlks n \<Rightarrow> (let (v, n) = num_newBlock (split_blks_per_frame d) n in (v, ByFixedBlks n))
   | ByCustomBlks n \<Rightarrow> (let (v, n) = num_newBlock (num_blks_split (param d)) n in (v, ByCustomBlks n)))"

definition blocks_of :: "'r::floor_ceiling \<Rightarrow> 'r \<Rightarrow> u16" where
  "blocks_of rounds dur = of_int (trunc (1 / (rounds * dur)))"

definition mk_DecoderMech :: "(string \<Rightarrow> 'r::floor_ceiling option) \<Rightarrow> (string \<Rightarrow> string list option)
    \<Rightarrow> 'r RSDecoderMechConstParam \<Rightarrow> 'r RSDecoderParam \<Rightarrow> 'r DecoderMech option" where
  "mk_DecoderMech stof files c p =
     (let dur = BLOCK_DURATION c;
          d = Decoder.extend ((mk_Decoder (base c) p)\<lparr>packet_duration := dur * of_nat (BLOCKS_PER_PKT (base c)), is_mech := True\<rparr>)
            (DecoderMech.fields c (mk_ChanAngles (of_nat (LASER_NUM (base c))))
              (mk_AzimuthSection (trunc (start_angle p * 100)) (trunc (end_angle p * 100)))
              (mk_split p) (mk_split p) 10 (blocks_of 10 dur) (blocks_of 10 dur) 20 0)
      in if config_from_file p
         then do {
           (ret, ca) \<leftarrow> loadFromFile stof (files (angle_path p)) (chan_angles d);
           Some (d\<lparr>chan_angles := ca, angles_ready := (ret = 0), param := p\<lparr>wait_for_difop := False\<rparr>\<rparr>)
         }
         else Some d)"

section \<open>DIFOP packets\<close>

definition decodeDifopCommon :: "'r::floor_ceiling host \<Rightarrow> AdapterDifopPkt \<Rightarrow> ('r, 'a) DecoderMech_scheme
    \<Rightarrow> ('r, 'a) DecoderMech_scheme option" where
  "decodeDifopCommon h pkt d =
     (let dur = BLOCK_DURATION (mech_const d);
          rounds = ntohs (rpm pkt) div 60; rounds = (if rounds = 0 then 10 else rounds);
          r = of_nat (unat rounds);
          fov_start = ntohs (fov_start_angle pkt); fov_end = ntohs (fov_end_angle pkt);
          fov_range = (if fov_start < fov_end then fov_end - fov_start else fov_end + 36000 - fov_start);
          fov_blind_range = 36000 - fov_range;
          d = d\<lparr>rps := rounds, blks_per_frame := blocks_of r dur,
            block_az_diff := of_int (round_half (36000 * r * dur)),
            fov_blind_ts_diff := of_nat (unat fov_blind_range) / (36000 * r)\<rparr>
      in do {
        d \<leftarrow> (if \<not> config_from_file (param d) \<and> \<not> angles_ready d
              then do {
                (ret, ca) \<leftarrow> loadFromDifop (vert_angle_cali pkt) (horiz_angle_cali pkt) (chan_angles d);
                Some (d\<lparr>chan_angles := ca, angles_ready := (ret = 0)\<rparr>)
              }
              else Some d);
        Some (if h_difop_parse h
              then d\<lparr>device_info := device_info d\<lparr>di_state := True, di_sn := take 6 (sn pkt), di_mac := take 6 (mac_addr pkt),
                     di_top_ver := take 5 (top_ver pkt), di_bottom_ver := take 5 (bottom_ver pkt)\<rparr>,
                   device_status := \<lparr>ds_voltage = ntohs (vol_12v pkt), ds_state = True\<rparr>\<rparr>
              else d)
      })"

section \<open>MSOP packets\<close>

text \<open>The layout of a packet: where its blocks begin and how long they are, how many bytes of the block
  id are compared and which error a wrong one is; where a block has its azimuth and its channels of 3 bytes; the laser
  and the entry of the time tables of a channel; the distance and the feature in a raw distance;
  how the number of a laser becomes the ring of its points; whether the lens is off the axis in two directions; and
  the rows of a cloud, when they are not the lasers.\<close>

record mech_layout =
  blk_off :: nat
  blk_size :: nat
  id_len :: nat
  blk_err :: "ErrCode option"
  az_off :: nat
  chan_off :: nat
  laser_of :: "nat \<Rightarrow> nat \<Rightarrow> nat"
  entry_of :: "nat \<Rightarrow> nat \<Rightarrow> nat"
  raw_dist :: "u16 \<Rightarrow> u16 \<times> u8 option"
  ring_of :: "u16 \<Rightarrow> u16"
  lens_xy :: bool
  cloud_rows :: "nat option"

text \<open>The layout of most lidars, up to the blocks and the lasers.\<close>

definition mech_plain :: "nat \<Rightarrow> nat \<Rightarrow> nat \<Rightarrow> ErrCode option \<Rightarrow> (nat \<Rightarrow> nat) \<Rightarrow> mech_layout" where
  "mech_plain off sz idl err laser = \<lparr>blk_off = off, blk_size = sz, id_len = idl, blk_err = err, az_off = 2, chan_off = 4,
     laser_of = (\<lambda>blk. laser), entry_of = (\<lambda>blk chan. chan), raw_dist = (\<lambda>raw. (raw, None)), ring_of = (\<lambda>ring. ring),
     lens_xy = False, cloud_rows = None\<rparr>"

definition time_utc :: "'r::floor_ceiling host \<Rightarrow> nat \<Rightarrow> bytes \<Rightarrow> ('r, 'a) Decoder_scheme \<Rightarrow> ('r \<times> bytes) option" where
  "time_utc h off pkt d =
     (if use_lidar_clock (param d)
      then do { t \<leftarrow> read_utc pkt off; Some (of_nat (unat (parseTimeUTCWithUs (h_timezone h) t)) / 1000000, pkt) }
      else do {
        let ts = h_clock h 0;
        pkt \<leftarrow> (if write_pkt_ts d then write_utc pkt off (createTimeUTCWithUs (h_timezone h) ts) else Some pkt);
        Some (of_nat (unat ts) / 1000000 - packet_duration d, pkt)
      })"

definition time_ymd :: "'r::floor_ceiling host \<Rightarrow> nat \<Rightarrow> bytes \<Rightarrow> ('r, 'a) Decoder_scheme \<Rightarrow> ('r \<times> bytes) option" where
  "time_ymd h off pkt d =
     (if use_lidar_clock (param d)
      then do { t \<leftarrow> read_ymd pkt off; Some (of_nat (unat (parseTimeYMD h t)) / 1000000, pkt) }
      else do {
        let ts = h_clock h 0;
        pkt \<leftarrow> (if write_pkt_ts d then write_ymd pkt off (createTimeYMD h ts) else Some pkt);
        Some (of_nat (unat ts) / 1000000 - packet_duration d, pkt)
      })"

definition temp_le :: "nat \<Rightarrow> bytes \<Rightarrow> ('r::floor_ceiling, 'a) Decoder_scheme \<Rightarrow> ('r, 'a) Decoder_scheme option" where
  "temp_le off pkt d = do {
     t \<leftarrow> read_temp pkt off;
     Some (d\<lparr>temperature := of_int (sint (parseTempInLe t)) * TEMPERATURE_RES (const_param d), is_get_temperature := True\<rparr>)
   }"

definition temp_be :: "nat \<Rightarrow> bytes \<Rightarrow> ('r::floor_ceiling, 'a) Decoder_scheme \<Rightarrow> ('r, 'a) Decoder_scheme option" where
  "temp_be off pkt d = do {
     t \<leftarrow> read_temp pkt off;
     Some (d\<lparr>temperature := of_int (sint (parseTempInBe t)) * TEMPERATURE_RES (const_param d), is_get_temperature := True\<rparr>)
   }"

text \<open>The azimuths of all blocks, which the iterator is built from.\<close>

primrec all_some :: "'a option list \<Rightarrow> 'a list option" where
  "all_some [] = Some []"
| "all_some (x # xs) = do { x \<leftarrow> x; xs \<leftarrow> all_some xs; Some (x # xs) }"

lemma all_some_total: "\<forall>x \<in> set xs. \<exists>y. f x = Some y \<Longrightarrow> \<exists>ys. all_some (map f xs) = Some ys \<and> length ys = length xs"
  by (induction xs) auto

definition block_azimuths :: "mech_layout \<Rightarrow> bytes \<Rightarrow> nat \<Rightarrow> u16 list option" where
  "block_azimuths L pkt n = all_some (map (\<lambda>blk. read_u16 pkt (blk_off L + blk * blk_size L + az_off L)) [0..<n])"

text \<open>The coordinates of a point.\<close>

definition mech_xyz :: "'r::floor_ceiling trigon \<Rightarrow> 'r \<Rightarrow> 'r \<Rightarrow> 'r \<Rightarrow> int \<Rightarrow> int \<Rightarrow> int \<Rightarrow> 'r \<times> 'r \<times> 'r" where
  "mech_xyz m lens rz distance angle_vert angle_horiz angle_horiz_final =
     (distance * COS m angle_vert * COS m angle_horiz_final + lens * COS m angle_horiz,
      - distance * COS m angle_vert * SIN m angle_horiz_final - lens * SIN m angle_horiz,
      distance * SIN m angle_vert + rz)"

text \<open>\<^verbatim>\<open>lidar_lens_center_Rxy_\<close>, whose lidars keep their lens center, or \<^verbatim>\<open>RX\<close>.\<close>

definition lens_x :: "'r::floor_ceiling host \<Rightarrow> mech_layout \<Rightarrow> 'r RSDecoderMechConstParam \<Rightarrow> 'r" where
  "lens_x h L c = (if lens_xy L then h_sqrt h (RX c * RX c + RY c * RY c) else RX c)"

text \<open>The point of a channel, if it makes one, and its time.\<close>

definition channel_point :: "'r::floor_ceiling host \<Rightarrow> mech_layout \<Rightarrow> bool \<Rightarrow> bytes \<Rightarrow> nat \<Rightarrow> 'r \<Rightarrow> int \<Rightarrow> int
    \<Rightarrow> ('r, 'a) DecoderMech_scheme \<Rightarrow> nat \<Rightarrow> ('r point option \<times> 'r) option" where
  "channel_point h L mirrored pkt blk block_ts block_az az_diff d chan = do {
     let off = blk_off L + blk * blk_size L + chan_off L + 3 * chan;
     raw \<leftarrow> read_u16 pkt off;
     intens \<leftarrow> read_u8 pkt (off + 2);
     ts_off \<leftarrow> nth_opt (CHAN_TSS (mech_const d)) (entry_of L blk chan);
     azi \<leftarrow> nth_opt (CHAN_AZIS (mech_const d)) (entry_of L blk chan);
     let chan_ts = block_ts + ts_off;
     let angle_horiz = block_az + trunc (of_int az_diff * azi);
     let laser = laser_of L blk chan;
     angle_vert \<leftarrow> vertAdjust (chan_angles d) laser;
     angle_horiz_final \<leftarrow> horizAdjust (chan_angles d) laser angle_horiz;
     let (dist, feature) = raw_dist L (ntohs raw);
     let distance = of_nat (unat dist) * DISTANCE_RES (const_param d);
     let (angle_horiz_final, angle_horiz) = (if mirrored then (36000 - angle_horiz_final, 36000 - angle_horiz)
       else (angle_horiz_final, angle_horiz));
     if distance_in (distance_section d) distance \<and> azimuth_in (scan_section d) angle_horiz_final
     then do {
       ring \<leftarrow> toUserChan (chan_angles d) laser;
       Some (Some \<lparr>pt_xyz = Some (h_transform h (mech_xyz (h_trig h) (lens_x h L (mech_const d)) (RZ (mech_const d))
           distance angle_vert angle_horiz angle_horiz_final)),
         pt_intensity = intens, pt_timestamp = chan_ts, pt_ring = ring_of L ring, pt_feature = feature\<rparr>, chan_ts)
     }
     else if \<not> dense_points (param d)
     then do {
       ring \<leftarrow> toUserChan (chan_angles d) laser;
       Some (Some \<lparr>pt_xyz = None, pt_intensity = 0, pt_timestamp = chan_ts, pt_ring = ring_of L ring, pt_feature = feature\<rparr>, chan_ts)
     }
     else Some (None, chan_ts)
   }"

definition mech_channel :: "'r::floor_ceiling host \<Rightarrow> mech_layout \<Rightarrow> bool \<Rightarrow> bytes \<Rightarrow> nat \<Rightarrow> 'r \<Rightarrow> int \<Rightarrow> int \<Rightarrow> nat
    \<Rightarrow> ('r, 'a) DecoderMech_scheme \<Rightarrow> ('r, 'a) DecoderMech_scheme option" where
  "mech_channel h L mirrored pkt blk block_ts block_az az_diff chan d = do {
     (p, chan_ts) \<leftarrow> channel_point h L mirrored pkt blk block_ts block_az az_diff d chan;
     Some (d\<lparr>point_cloud := point_cloud d @ (case p of None \<Rightarrow> [] | Some p \<Rightarrow> [p]), prev_point_ts := chan_ts\<rparr>)
   }"

definition mech_cut :: "mech_layout \<Rightarrow> ('r, 'a) Decoder_scheme \<Rightarrow> ('r, 'a) Decoder_scheme" where
  "mech_cut L d = (case cloud_rows L of None \<Rightarrow> cb_split_frame d | Some n \<Rightarrow> splitFrame n (cloudTs d) d)"

definition mech_block :: "'r::floor_ceiling host \<Rightarrow> mech_layout \<Rightarrow> bool \<Rightarrow> bytes \<Rightarrow> 'r BlockIterator \<Rightarrow> 'r \<Rightarrow> nat
    \<Rightarrow> bool \<Rightarrow> ('r, 'a) DecoderMech_scheme \<Rightarrow> (bool \<times> ('r, 'a) DecoderMech_scheme) option" where
  "mech_block h L mirrored pkt iter pkt_ts blk ret d = do {
     (az_diff, block_ts_off) \<leftarrow> bi_get iter blk;
     az \<leftarrow> read_u16 pkt (blk_off L + blk * blk_size L + az_off L);
     let block_ts = pkt_ts + block_ts_off;
     let block_az = uint (ntohs az);
     let (new, s) = newBlock d block_az (split_strategy d);
     let d = d\<lparr>split_strategy := s\<rparr>;
     let d = (if new then (mech_cut L d)\<lparr>first_point_ts := block_ts\<rparr> else d);
     d \<leftarrow> foldM (mech_channel h L mirrored pkt blk block_ts block_az az_diff) [0..<CHANNELS_PER_BLOCK (const_param d)] d;
     Some (ret \<or> new, d)
   }"

fun mech_blocks :: "'r::floor_ceiling host \<Rightarrow> mech_layout \<Rightarrow> bool \<Rightarrow> bytes \<Rightarrow> 'r BlockIterator \<Rightarrow> 'r \<Rightarrow> nat list
    \<Rightarrow> bool \<Rightarrow> ('r, 'a) DecoderMech_scheme \<Rightarrow> (bool \<times> ('r, 'a) DecoderMech_scheme) option" where
  "mech_blocks h L mirrored pkt iter pkt_ts [] ret d = Some (ret, d)"
| "mech_blocks h L mirrored pkt iter pkt_ts (blk # bs) ret d = do {
     i \<leftarrow> rd pkt (blk_off L + blk * blk_size L) (id_len L);
     if i \<noteq> take (id_len L) (BLOCK_ID (const_param d))
     then Some (ret, case blk_err L of None \<Rightarrow> d | Some e \<Rightarrow> cb_excep e d)
     else do {
       (ret, d) \<leftarrow> mech_block h L mirrored pkt iter pkt_ts blk ret d;
       mech_blocks h L mirrored pkt iter pkt_ts bs ret d
     }
   }"

text \<open>The end of every \<^verbatim>\<open>internDecodeMsopPkt\<close>, with the iterator \<open>mk_iter\<close> of the echo mode.\<close>

type_synonym 'r mk_iter = "u16 list \<Rightarrow> nat \<Rightarrow> 'r \<Rightarrow> int \<Rightarrow> 'r \<Rightarrow> 'r BlockIterator \<Rightarrow> 'r BlockIterator option"

definition blank_iter :: "'r::zero BlockIterator" where
  "blank_iter = \<lparr>az_diffs = replicate MAX_BLOCKS_PER_PKT 0, tss = replicate MAX_BLOCKS_PER_PKT 0\<rparr>"

definition decode_iter :: "mech_layout \<Rightarrow> 'r::floor_ceiling mk_iter \<Rightarrow> bytes \<Rightarrow> ('r, 'a) DecoderMech_scheme
    \<Rightarrow> 'r BlockIterator option" where
  "decode_iter L mk_iter pkt d = do {
     let n = BLOCKS_PER_PKT (const_param d);
     azs \<leftarrow> block_azimuths L pkt n;
     mk_iter azs n (BLOCK_DURATION (mech_const d)) (uint (block_az_diff d)) (fov_blind_ts_diff d) blank_iter
   }"

definition mech_decode :: "'r::floor_ceiling host \<Rightarrow> mech_layout \<Rightarrow> 'r mk_iter \<Rightarrow> bool \<Rightarrow> bytes \<Rightarrow> 'r
    \<Rightarrow> ('r, 'a) DecoderMech_scheme \<Rightarrow> (bool \<times> bytes \<times> ('r, 'a) DecoderMech_scheme) option" where
  "mech_decode h L mk_iter mirrored pkt pkt_ts d = do {
     iter \<leftarrow> decode_iter L mk_iter pkt d;
     (ret, d) \<leftarrow> mech_blocks h L mirrored pkt iter pkt_ts [0..<BLOCKS_PER_PKT (const_param d)] False d;
     Some (ret, pkt, d\<lparr>prev_pkt_ts := pkt_ts\<rparr>)
   }"

text \<open>The loop of every \<^verbatim>\<open>isNewFrame\<close>; it stops at the first frame.\<close>

fun mech_newFrame :: "mech_layout \<Rightarrow> bytes \<Rightarrow> nat list \<Rightarrow> ('r, 'a) DecoderMech_scheme
    \<Rightarrow> (bool \<times> ('r, 'a) DecoderMech_scheme) option" where
  "mech_newFrame L pkt [] d = Some (False, d)"
| "mech_newFrame L pkt (blk # bs) d = do {
     i \<leftarrow> rd pkt (blk_off L + blk * blk_size L) (id_len L);
     if i \<noteq> take (id_len L) (BLOCK_ID (const_param d)) then Some (False, d)
     else do {
       az \<leftarrow> read_u16 pkt (blk_off L + blk * blk_size L + az_off L);
       let (new, s) = newBlock d (uint (ntohs az)) (pre_split_strategy d);
       let d = d\<lparr>pre_split_strategy := s\<rparr>;
       if new then Some (True, d) else mech_newFrame L pkt bs d
     }
   }"

section \<open>The points of a packet\<close>

text \<open>Everything that decoding a packet leaves unchanged and that its points depend on.\<close>

definition fixed_part :: "('r, 'a) DecoderMech_scheme \<Rightarrow> 'r RSDecoderConstParam \<times> 'r RSDecoderParam \<times>
    'r RSDecoderMechConstParam \<times> ChanAngles \<times> AzimuthSection \<times> 'r DistanceSection \<times> u16 \<times> bool \<times> bool" where
  "fixed_part d = (const_param d, param d, mech_const d, chan_angles d, scan_section d, distance_section d,
     split_blks_per_frame d, bCheckMsopLen d, bCheckDifopLen d)"

lemma fixed_part_eqD:
  assumes "fixed_part d = fixed_part d'"
  shows "const_param d = const_param d'" "param d = param d'" "mech_const d = mech_const d'"
    "chan_angles d = chan_angles d'" "scan_section d = scan_section d'" "distance_section d = distance_section d'"
    "split_blks_per_frame d = split_blks_per_frame d'" "bCheckMsopLen d = bCheckMsopLen d'"
    "bCheckDifopLen d = bCheckDifopLen d'"
  using assms by (simp_all add: fixed_part_def)

text \<open>A frame cut and the points of a block, on published frames and the frame being collected; the cuts of a
  packet, from the azimuths of its blocks. This is what decoding is measured against.\<close>

definition frame_step :: "bool \<times> 'b list \<Rightarrow> 'b list list \<times> 'b list \<Rightarrow> 'b list list \<times> 'b list" where
  "frame_step x f = (let (cut, ps) = x; (out, cur) = f
     in if cut \<and> cur \<noteq> [] then (out @ [cur], ps) else (out, cur @ ps))"

lemma frame_step_all: "concat (fst (fold frame_step xs f)) @ snd (fold frame_step xs f)
    = concat (fst f) @ snd f @ concat (map snd xs)"
  by (induction xs arbitrary: f) (auto simp: frame_step_def split: prod.splits)

fun split_cuts :: "('r, 'a) DecoderMech_scheme \<Rightarrow> int list \<Rightarrow> SplitStrategy \<Rightarrow> bool list \<times> SplitStrategy" where
  "split_cuts d [] s = ([], s)"
| "split_cuts d (az # azs) s = (let (new, s) = newBlock d az s; (cuts, s) = split_cuts d azs s in (new # cuts, s))"

lemma length_split_cuts: "length (fst (split_cuts d azs s)) = length azs"
proof (induction azs arbitrary: s)
  case (Cons az azs)
  obtain new s' where "newBlock d az s = (new, s')" by force
  then show ?case using Cons [of s'] by (auto split: prod.split)
qed simp

definition frames :: "('r, 'a) Decoder_scheme \<Rightarrow> 'r point list list \<times> 'r point list" where
  "frames d = (map cloud_points (clouds d), point_cloud d)"

lemma frames_cb_split_frame: "frames (cb_split_frame d) = (fst (frames d) @ (if snd (frames d) = [] then [] else [snd (frames d)]), [])"
  by (simp add: frames_def cb_split_frame_def splitFrame_def setPointCloudHeader_def Let_def)

text \<open>Every published cloud: its number, its points, and its shape. A lidar that keeps its invalid points
  publishes organised clouds, one row for each laser.\<close>

definition cloud_ok :: "'r RSDecoderParam \<Rightarrow> nat \<Rightarrow> nat \<Rightarrow> 'r PointCloud \<Rightarrow> bool" where
  "cloud_ok p lasers n c \<longleftrightarrow> seq c = of_nat n \<and> cloud_points c \<noteq> [] \<and> is_dense c = dense_points p \<and>
     height c = (if dense_points p then 1 else lasers) \<and> width c * height c = length (cloud_points c)"

definition clouds_ok :: "('r, 'a) Decoder_scheme \<Rightarrow> bool" where
  "clouds_ok d \<longleftrightarrow> (\<forall>n < length (clouds d). cloud_ok (param d) (LASER_NUM (const_param d)) n (clouds d ! n)) \<and>
     (dense_points (param d) \<or> LASER_NUM (const_param d) dvd length (point_cloud d))"

lemma clouds_ok_cb_split_frame: "clouds_ok d \<Longrightarrow> clouds_ok (cb_split_frame d)"
  by (auto simp: clouds_ok_def cb_split_frame_def splitFrame_def setPointCloudHeader_def cloud_ok_def Let_def
      nth_append less_Suc_eq)

definition all_pts :: "('r, 'a) Decoder_scheme \<Rightarrow> 'r point list" where
  "all_pts d = concat (map cloud_points (clouds d)) @ point_cloud d"

lemma mech_cut_None: "cloud_rows L = None \<Longrightarrow> mech_cut L d = cb_split_frame d"
  by (simp add: mech_cut_def)

lemma frames_mech_cut: "frames (mech_cut L d) = (fst (frames d) @ (if snd (frames d) = [] then [] else [snd (frames d)]), [])"
  by (simp add: frames_def mech_cut_def cb_split_frame_def splitFrame_def setPointCloudHeader_def Let_def split: option.split)

lemma mech_cut_sel [simp]:
  "split_strategy (mech_cut L d) = split_strategy d" "fixed_part (mech_cut L d) = fixed_part d"
  by (simp_all add: mech_cut_def cb_split_frame_def splitFrame_def fixed_part_def Let_def split: option.split)

lemma cb_split_frame_sel [simp]:
  "split_strategy (cb_split_frame d) = split_strategy d" "fixed_part (cb_split_frame d) = fixed_part d"
  "split_strategy (cb_excep x d) = split_strategy d"
  by (simp_all add: cb_split_frame_def splitFrame_def fixed_part_def cb_excep_def Let_def)

lemma frames_sel [simp]:
  "frames (d\<lparr>first_point_ts := t\<rparr>) = frames d" "frames (d\<lparr>prev_pkt_ts := t\<rparr>) = frames d"
  "frames (d\<lparr>temperature := x, is_get_temperature := b\<rparr>) = frames d"
  "frames (e\<lparr>split_strategy := s\<rparr>) = frames e" "frames (cb_excep c d) = frames d"
  by (simp_all add: frames_def cb_excep_def)

lemma clouds_ok_sel [simp]:
  "clouds_ok (d\<lparr>first_point_ts := t\<rparr>) = clouds_ok d" "clouds_ok (d\<lparr>prev_pkt_ts := t\<rparr>) = clouds_ok d"
  "clouds_ok (d\<lparr>temperature := x, is_get_temperature := b\<rparr>) = clouds_ok d"
  "clouds_ok (e\<lparr>split_strategy := s\<rparr>) = clouds_ok e" "clouds_ok (cb_excep c d) = clouds_ok d"
  by (simp_all add: clouds_ok_def cb_excep_def)

lemma fixed_part_sel [simp]:
  "fixed_part (d\<lparr>first_point_ts := t\<rparr>) = fixed_part d" "fixed_part (d\<lparr>prev_pkt_ts := t\<rparr>) = fixed_part d"
  "fixed_part (d\<lparr>temperature := x, is_get_temperature := b\<rparr>) = fixed_part d"
  "fixed_part (d\<lparr>split_strategy := s\<rparr>) = fixed_part d" "fixed_part (cb_excep c d) = fixed_part d"
  "fixed_part (d\<lparr>point_cloud := ps, prev_point_ts := t\<rparr>) = fixed_part d"
  by (simp_all add: fixed_part_def cb_excep_def)

lemma newBlock_cong:
  assumes "fixed_part d = fixed_part d'"
  shows "newBlock d = newBlock d'"
  by (intro ext) (simp only: newBlock_def fixed_part_eqD [OF assms])

lemma split_cuts_cong:
  assumes "fixed_part d = fixed_part d'"
  shows "split_cuts d azs s = split_cuts d' azs s"
  by (induction azs arbitrary: s) (simp_all add: newBlock_cong [OF assms])

lemma channel_point_cong:
  assumes "fixed_part d = fixed_part d'"
  shows "channel_point h L m pkt blk t az diff d = channel_point h L m pkt blk t az diff d'"
  by (intro ext) (simp only: channel_point_def fixed_part_eqD [OF assms])

definition block_points :: "'r::floor_ceiling host \<Rightarrow> mech_layout \<Rightarrow> bool \<Rightarrow> bytes \<Rightarrow> 'r BlockIterator \<Rightarrow> 'r
    \<Rightarrow> ('r, 'a) DecoderMech_scheme \<Rightarrow> nat \<Rightarrow> 'r point list" where
  "block_points h L m pkt iter pkt_ts d blk =
     (let az = uint (ntohs (the (read_u16 pkt (blk_off L + blk * blk_size L + az_off L))))
      in concat (map (\<lambda>chan. case fst (the (channel_point h L m pkt blk (pkt_ts + tss iter ! blk) az (az_diffs iter ! blk) d chan))
        of None \<Rightarrow> [] | Some p \<Rightarrow> [p]) [0..<CHANNELS_PER_BLOCK (const_param d)]))"

lemma block_points_cong:
  assumes "fixed_part d = fixed_part d'"
  shows "block_points h L m pkt iter t d = block_points h L m pkt iter t d'"
  by (intro ext) (simp only: block_points_def fixed_part_eqD(1) [OF assms] channel_point_cong [OF assms])

definition good_block :: "mech_layout \<Rightarrow> bytes \<Rightarrow> 'r RSDecoderConstParam \<Rightarrow> nat \<Rightarrow> bool" where
  "good_block L pkt c blk \<longleftrightarrow> rd pkt (blk_off L + blk * blk_size L) (id_len L) = Some (take (id_len L) (BLOCK_ID c))"

definition block_az :: "mech_layout \<Rightarrow> bytes \<Rightarrow> nat \<Rightarrow> int" where
  "block_az L pkt blk = uint (ntohs (the (read_u16 pkt (blk_off L + blk * blk_size L + az_off L))))"

definition good_blocks :: "mech_layout \<Rightarrow> bytes \<Rightarrow> 'r RSDecoderConstParam \<Rightarrow> nat list" where
  "good_blocks L pkt c = takeWhile (good_block L pkt c) [0..<BLOCKS_PER_PKT c]"

subsection \<open>A lidar\<close>

text \<open>What the packet layout of a lidar, its constants and its iterator promise.\<close>

locale mech_lidar =
  fixes L :: mech_layout and c :: "'r::floor_ceiling RSDecoderConstParam" and mk_iter :: "'r mk_iter"
  assumes block_fits: "chan_off L + 3 * CHANNELS_PER_BLOCK c \<le> blk_size L" "az_off L + 2 \<le> chan_off L"
    and packet_fits: "blk_off L + BLOCKS_PER_PKT c * blk_size L \<le> MSOP_LEN c"
    and blocks: "BLOCKS_PER_PKT c \<le> MAX_BLOCKS_PER_PKT"
    and lasers: "0 < LASER_NUM c" "LASER_NUM c < 65536"
      "\<And>blk chan. chan < CHANNELS_PER_BLOCK c \<Longrightarrow> laser_of L blk chan < LASER_NUM c"
      "\<And>blk chan. chan < CHANNELS_PER_BLOCK c \<Longrightarrow> entry_of L blk chan < 128"
    and whole: "cloud_rows L = None \<Longrightarrow> LASER_NUM c dvd CHANNELS_PER_BLOCK c" and id_fits: "id_len L \<le> chan_off L"
    and iter_total: "\<And>azs D A F. length azs = BLOCKS_PER_PKT c \<Longrightarrow>
      \<exists>iter. mk_iter azs (BLOCKS_PER_PKT c) D A F blank_iter = Some iter \<and>
        length (az_diffs iter) = MAX_BLOCKS_PER_PKT \<and> length (tss iter) = MAX_BLOCKS_PER_PKT"

text \<open>The decoder of a lidar: constants of the same shape, tables of the right size.\<close>

definition mech_inv :: "'r RSDecoderConstParam \<Rightarrow> ('r, 'a) DecoderMech_scheme \<Rightarrow> bool" where
  "mech_inv c d \<longleftrightarrow> const_param d = c\<lparr>DISTANCE_RES := DISTANCE_RES (const_param d)\<rparr> \<and>
     length (CHAN_TSS (mech_const d)) = 128 \<and> length (CHAN_AZIS (mech_const d)) = 128 \<and>
     chan_inv (chan_angles d) \<and> unat (chan_num (chan_angles d)) = LASER_NUM c"

lemma mech_inv_cong: "fixed_part d = fixed_part d' \<Longrightarrow> mech_inv c d = mech_inv c d'"
  by (simp add: mech_inv_def fixed_part_def)

lemma mech_invD:
  assumes "mech_inv c d"
  shows "LASER_NUM (const_param d) = LASER_NUM c" "BLOCKS_PER_PKT (const_param d) = BLOCKS_PER_PKT c"
    "CHANNELS_PER_BLOCK (const_param d) = CHANNELS_PER_BLOCK c" "BLOCK_ID (const_param d) = BLOCK_ID c"
    "MSOP_LEN (const_param d) = MSOP_LEN c" "MSOP_ID (const_param d) = MSOP_ID c"
    "MSOP_ID_LEN (const_param d) = MSOP_ID_LEN c" "DIFOP_LEN (const_param d) = DIFOP_LEN c"
    "DIFOP_ID_LEN (const_param d) = DIFOP_ID_LEN c"
proof -
  obtain x where "const_param d = c\<lparr>DISTANCE_RES := x\<rparr>" using assms unfolding mech_inv_def by blast
  then show "LASER_NUM (const_param d) = LASER_NUM c" "BLOCKS_PER_PKT (const_param d) = BLOCKS_PER_PKT c"
    "CHANNELS_PER_BLOCK (const_param d) = CHANNELS_PER_BLOCK c" "BLOCK_ID (const_param d) = BLOCK_ID c"
    "MSOP_LEN (const_param d) = MSOP_LEN c" "MSOP_ID (const_param d) = MSOP_ID c"
    "MSOP_ID_LEN (const_param d) = MSOP_ID_LEN c" "DIFOP_LEN (const_param d) = DIFOP_LEN c"
    "DIFOP_ID_LEN (const_param d) = DIFOP_ID_LEN c" by simp_all
qed

context mech_lidar begin

lemma reads:
  assumes "length pkt = MSOP_LEN c" and "blk < BLOCKS_PER_PKT c"
  shows "\<exists>i. rd pkt (blk_off L + blk * blk_size L) (id_len L) = Some i"
    and "\<exists>az. read_u16 pkt (blk_off L + blk * blk_size L + az_off L) = Some az"
    and "chan < CHANNELS_PER_BLOCK c \<Longrightarrow> \<exists>x y. read_u16 pkt (blk_off L + blk * blk_size L + chan_off L + 3 * chan) = Some x \<and>
      read_u8 pkt (blk_off L + blk * blk_size L + chan_off L + 3 * chan + 2) = Some y"
proof -
  have "(blk + 1) * blk_size L \<le> BLOCKS_PER_PKT c * blk_size L" using assms(2) by (intro mult_le_mono1) simp
  then have "blk_off L + blk * blk_size L + chan_off L + 3 * CHANNELS_PER_BLOCK c \<le> length pkt"
    using assms(1) packet_fits block_fits by simp
  moreover note block_fits(2)
  ultimately show "\<exists>i. rd pkt (blk_off L + blk * blk_size L) (id_len L) = Some i"
    "\<exists>az. read_u16 pkt (blk_off L + blk * blk_size L + az_off L) = Some az"
    "chan < CHANNELS_PER_BLOCK c \<Longrightarrow> \<exists>x y. read_u16 pkt (blk_off L + blk * blk_size L + chan_off L + 3 * chan) = Some x \<and>
      read_u8 pkt (blk_off L + blk * blk_size L + chan_off L + 3 * chan + 2) = Some y"
    using id_fits by (auto simp: rd_def read_u16_def read_u8_def)
qed

lemma channel_total:
  assumes "mech_inv c d" and "length pkt = MSOP_LEN c" and "blk < BLOCKS_PER_PKT c" and "chan < CHANNELS_PER_BLOCK c"
  shows "\<exists>p ts. channel_point h L m pkt blk t az diff d chan = Some (p, ts) \<and>
    (\<not> dense_points (param d) \<longrightarrow> p \<noteq> None)"
proof -
  obtain x y where r: "read_u16 pkt (blk_off L + blk * blk_size L + chan_off L + 3 * chan) = Some x"
    "read_u8 pkt (blk_off L + blk * blk_size L + chan_off L + 3 * chan + 2) = Some y"
    using reads(3) [OF assms(2,3,4)] by blast
  have l: "laser_of L blk chan < LASER_NUM c" using lasers(3) assms(4) by blast
  then have "laser_of L blk chan < length (vert_angles (chan_angles d))" "laser_of L blk chan < length (horiz_angles (chan_angles d))"
    "laser_of L blk chan < length (user_chans (chan_angles d))"
    using assms(1) by (simp_all add: mech_inv_def chan_inv_def)
  moreover have "entry_of L blk chan < length (CHAN_TSS (mech_const d))" "entry_of L blk chan < length (CHAN_AZIS (mech_const d))"
    using assms(1,4) lasers(4) by (simp_all add: mech_inv_def)
  ultimately show ?thesis
    using r by (simp add: channel_point_def vertAdjust_def horizAdjust_def toUserChan_def Let_def split: prod.split)
qed

lemma channels_spec:
  assumes "mech_inv c d" and "length pkt = MSOP_LEN c" and "blk < BLOCKS_PER_PKT c" and "n \<le> CHANNELS_PER_BLOCK c"
  shows "\<exists>d'. foldM (mech_channel h L m pkt blk t az diff) [0..<n] d = Some d' \<and> fixed_part d' = fixed_part d \<and>
    split_strategy d' = split_strategy d \<and> clouds d' = clouds d \<and>
    point_cloud d' = point_cloud d @ concat (map (\<lambda>chan. case fst (the (channel_point h L m pkt blk t az diff d chan))
      of None \<Rightarrow> [] | Some p \<Rightarrow> [p]) [0..<n])"
  using assms(4)
proof (induction n)
  case 0
  then show ?case by simp
next
  case (Suc n)
  then obtain d' where d': "foldM (mech_channel h L m pkt blk t az diff) [0..<n] d = Some d'" "fixed_part d' = fixed_part d"
    "split_strategy d' = split_strategy d" "clouds d' = clouds d"
    "point_cloud d' = point_cloud d @ concat (map (\<lambda>chan. case fst (the (channel_point h L m pkt blk t az diff d chan))
      of None \<Rightarrow> [] | Some p \<Rightarrow> [p]) [0..<n])" by auto
  have "n < CHANNELS_PER_BLOCK c" using Suc.prems by simp
  then obtain p ts where p: "channel_point h L m pkt blk t az diff d n = Some (p, ts)"
    using channel_total [OF assms(1-3), of n h m t az diff] by blast
  have "channel_point h L m pkt blk t az diff d' n = Some (p, ts)"
    using p channel_point_cong [OF d'(2)] by metis
  then have "mech_channel h L m pkt blk t az diff n d' = Some (d'\<lparr>point_cloud := point_cloud d' @
      (case p of None \<Rightarrow> [] | Some p \<Rightarrow> [p]), prev_point_ts := ts\<rparr>)" by (simp add: mech_channel_def)
  then show ?case using d' p by (simp add: foldM_append)
qed

lemma channels_length:
  assumes "mech_inv c d" and "length pkt = MSOP_LEN c" and "blk < BLOCKS_PER_PKT c" and "\<not> dense_points (param d)"
  shows "length (block_points h L m pkt iter t d blk) = CHANNELS_PER_BLOCK c"
proof -
  have "n \<le> CHANNELS_PER_BLOCK c \<Longrightarrow> length (concat (map (\<lambda>chan. case fst (the (channel_point h L m pkt blk x az y d chan))
        of None \<Rightarrow> [] | Some p \<Rightarrow> [p]) [0..<n])) = n" for n az x y
  proof (induction n)
    case (Suc n)
    then have "n < CHANNELS_PER_BLOCK c" by simp
    then obtain p ts where "channel_point h L m pkt blk x az y d n = Some (Some p, ts)"
      using channel_total [OF assms(1-3), of n h m x az y] assms(4) by blast
    then show ?case using Suc by simp
  qed simp
  then show ?thesis using mech_invD(3) [OF assms(1)] by (simp add: block_points_def Let_def)
qed

lemma block_spec:
  assumes inv: "mech_inv c d" and len: "length pkt = MSOP_LEN c" and blk: "blk < BLOCKS_PER_PKT c"
    and iter: "length (az_diffs iter) = MAX_BLOCKS_PER_PKT" "length (tss iter) = MAX_BLOCKS_PER_PKT"
    and new: "newBlock d (block_az L pkt blk) (split_strategy d) = (new, s)"
  shows "\<exists>d'. mech_block h L m pkt iter t blk ret d = Some (ret \<or> new, d') \<and> fixed_part d' = fixed_part d \<and>
    split_strategy d' = s \<and> frames d' = frame_step (new, block_points h L m pkt iter t d blk) (frames d) \<and>
    (cloud_rows L = None \<and> clouds_ok d \<longrightarrow> clouds_ok d')"
proof -
  obtain az where az: "read_u16 pkt (blk_off L + blk * blk_size L + az_off L) = Some az" using reads(2) [OF len blk] by blast
  have i: "blk < MAX_BLOCKS_PER_PKT" using blk blocks by simp
  let ?d = "d\<lparr>split_strategy := s\<rparr>" and ?t = "t + tss iter ! blk"
  define e where "e = (if new then (mech_cut L ?d)\<lparr>first_point_ts := ?t\<rparr> else ?d)"
  have e: "fixed_part e = fixed_part d" "split_strategy e = s"
    "frames e = (if new \<and> snd (frames d) \<noteq> [] then (fst (frames d) @ [snd (frames d)], []) else frames d)"
    "cloud_rows L = None \<Longrightarrow> clouds_ok d \<Longrightarrow> clouds_ok e"
    using clouds_ok_cb_split_frame [of ?d] by (auto simp: e_def frames_mech_cut mech_cut_None prod_eq_iff)
  have inv': "mech_inv c e" using inv mech_inv_cong [OF e(1)] by blast
  obtain d' where d': "foldM (mech_channel h L m pkt blk ?t (uint (ntohs az)) (az_diffs iter ! blk))
      [0..<CHANNELS_PER_BLOCK c] e = Some d'" "fixed_part d' = fixed_part e" "split_strategy d' = split_strategy e"
    "clouds d' = clouds e" "point_cloud d' = point_cloud e @ concat (map (\<lambda>chan. case fst (the (channel_point h L m pkt
      blk ?t (uint (ntohs az)) (az_diffs iter ! blk) e chan)) of None \<Rightarrow> [] | Some p \<Rightarrow> [p]) [0..<CHANNELS_PER_BLOCK c])"
    using channels_spec [OF inv' len blk order_refl] by blast
  have pts: "point_cloud d' = point_cloud e @ block_points h L m pkt iter t d blk"
    using d'(5) az mech_invD(3) [OF inv'] unfolding block_points_cong [OF e(1), symmetric]
    by (simp add: block_points_def)
  have "frames d' = (fst (frames e), snd (frames e) @ block_points h L m pkt iter t d blk)"
    using d'(4) pts by (simp add: frames_def)
  then have fr: "frames d' = frame_step (new, block_points h L m pkt iter t d blk) (frames d)"
    using e(3) by (simp add: frame_step_def split: prod.splits)
  have ok: "clouds_ok d'" if "cloud_rows L = None" "clouds_ok d"
  proof -
    have p: "param d' = param e" "const_param d' = const_param e" "param e = param d"
      using fixed_part_eqD [OF d'(2)] fixed_part_eqD [OF e(1)] by auto
    have "dense_points (param d) \<or> LASER_NUM c dvd length (block_points h L m pkt iter t d blk)"
      using channels_length [OF inv len blk] whole [OF that(1)] by fastforce
    then show ?thesis using e(4) [OF that] p d'(4) pts mech_invD(1) [OF inv'] by (auto simp: clouds_ok_def)
  qed
  have "mech_block h L m pkt iter t blk ret d = Some (ret \<or> new, d')"
    using d'(1) az i iter new mech_invD(3) [OF inv'] by (simp add: mech_block_def bi_get_def block_az_def e_def)
  then show ?thesis using d'(2,3) e fr ok by simp
qed

lemma blocks_spec:
  assumes "mech_inv c d" and len: "length pkt = MSOP_LEN c" and "\<forall>blk \<in> set bs. blk < BLOCKS_PER_PKT c"
    and iter: "length (az_diffs iter) = MAX_BLOCKS_PER_PKT" "length (tss iter) = MAX_BLOCKS_PER_PKT"
    and "split_cuts d (map (block_az L pkt) (takeWhile (good_block L pkt c) bs)) (split_strategy d) = (cuts, s)"
  shows "\<exists>d'. mech_blocks h L m pkt iter t bs ret d = Some (ret \<or> True \<in> set cuts, d') \<and> fixed_part d' = fixed_part d \<and>
    split_strategy d' = s \<and> (cloud_rows L = None \<and> clouds_ok d \<longrightarrow> clouds_ok d') \<and> frames d' = fold frame_step
      (zip cuts (map (block_points h L m pkt iter t d) (takeWhile (good_block L pkt c) bs))) (frames d)"
  using assms(1,3,6)
proof (induction bs arbitrary: d ret cuts)
  case Nil
  then show ?case by simp
next
  case (Cons blk bs)
  have blk: "blk < BLOCKS_PER_PKT c" using Cons.prems by simp
  obtain i where i: "rd pkt (blk_off L + blk * blk_size L) (id_len L) = Some i" using reads(1) [OF len blk] by blast
  show ?case
  proof (cases "good_block L pkt c blk")
    case False
    then show ?thesis using i Cons.prems(3) mech_invD(4) [OF Cons.prems(1)]
      by (auto simp: good_block_def split: option.split)
  next
    case True
    obtain new s1 where new: "newBlock d (block_az L pkt blk) (split_strategy d) = (new, s1)" by force
    obtain d1 where d1: "mech_block h L m pkt iter t blk ret d = Some (ret \<or> new, d1)" "fixed_part d1 = fixed_part d"
      "split_strategy d1 = s1" "frames d1 = frame_step (new, block_points h L m pkt iter t d blk) (frames d)"
      "cloud_rows L = None \<and> clouds_ok d \<longrightarrow> clouds_ok d1"
      using block_spec [OF Cons.prems(1) len blk iter new] by blast
    obtain cuts1 where cuts1: "split_cuts d1 (map (block_az L pkt) (takeWhile (good_block L pkt c) bs)) (split_strategy d1)
        = (cuts1, s)" "cuts = new # cuts1"
      using Cons.prems(3) True new d1(3) split_cuts_cong [OF d1(2)] by (auto split: prod.splits)
    have inv1: "mech_inv c d1" using Cons.prems(1) mech_inv_cong [OF d1(2)] by blast
    obtain d2 where d2: "mech_blocks h L m pkt iter t bs (ret \<or> new) d1 = Some ((ret \<or> new) \<or> True \<in> set cuts1, d2)"
      "fixed_part d2 = fixed_part d1" "split_strategy d2 = s" "cloud_rows L = None \<and> clouds_ok d1 \<longrightarrow> clouds_ok d2"
      "frames d2 = fold frame_step (zip cuts1 (map (block_points h L m pkt iter t d1) (takeWhile (good_block L pkt c) bs)))
        (frames d1)"
      using Cons.IH [OF inv1 _ cuts1(1), of "ret \<or> new"] Cons.prems(2) by auto
    have "i = take (id_len L) (BLOCK_ID (const_param d))"
      using i True mech_invD(4) [OF Cons.prems(1)] by (simp add: good_block_def)
    then show ?thesis
      using i True d1 d2 cuts1(2) block_points_cong [OF d1(2)] by (intro exI [of _ d2]) auto
  qed
qed

text \<open>A whole packet.\<close>

lemma decode_spec:
  assumes inv: "mech_inv c d" and len: "length pkt = MSOP_LEN c"
    and cuts: "split_cuts d (map (block_az L pkt) (good_blocks L pkt c)) (split_strategy d) = (cuts, s)"
  shows "\<exists>iter d'. decode_iter L mk_iter pkt d = Some iter \<and> mech_decode h L mk_iter m pkt t d = Some (True \<in> set cuts, pkt, d') \<and> fixed_part d' = fixed_part d \<and>
    split_strategy d' = s \<and> (cloud_rows L = None \<and> clouds_ok d \<longrightarrow> clouds_ok d') \<and>
    frames d' = fold frame_step (zip cuts (map (block_points h L m pkt iter t d) (good_blocks L pkt c))) (frames d)"
proof -
  have "\<forall>x \<in> set [0..<BLOCKS_PER_PKT c]. \<exists>az. read_u16 pkt (blk_off L + x * blk_size L + az_off L) = Some az"
    using reads(2) [OF len] by simp
  from all_some_total [OF this]
  obtain azs where azs: "block_azimuths L pkt (BLOCKS_PER_PKT c) = Some azs" "length azs = BLOCKS_PER_PKT c"
    unfolding block_azimuths_def by auto
  obtain iter where iter: "mk_iter azs (BLOCKS_PER_PKT c) (BLOCK_DURATION (mech_const d)) (uint (block_az_diff d))
      (fov_blind_ts_diff d) blank_iter = Some iter" "length (az_diffs iter) = MAX_BLOCKS_PER_PKT"
    "length (tss iter) = MAX_BLOCKS_PER_PKT"
    using iter_total [OF azs(2)] by blast
  have "\<forall>blk \<in> set [0..<BLOCKS_PER_PKT c]. blk < BLOCKS_PER_PKT c" by simp
  from blocks_spec [OF inv len this iter(2,3) cuts [unfolded good_blocks_def], folded good_blocks_def, of h m t False]
  obtain d' where d': "mech_blocks h L m pkt iter t [0..<BLOCKS_PER_PKT c] False d = Some (True \<in> set cuts, d')"
    "fixed_part d' = fixed_part d" "split_strategy d' = s" "cloud_rows L = None \<and> clouds_ok d \<longrightarrow> clouds_ok d'"
    "frames d' = fold frame_step (zip cuts (map (block_points h L m pkt iter t d) (good_blocks L pkt c))) (frames d)"
    unfolding simp_thms by (elim exE conjE) (rule that)
  moreover have "decode_iter L mk_iter pkt d = Some iter" using azs iter(1) mech_invD(2) [OF inv] by (simp add: decode_iter_def)
  ultimately show ?thesis using mech_invD(2) [OF inv]
    by (intro exI [of _ iter] exI [of _ "d'\<lparr>prev_pkt_ts := t\<rparr>"]) (simp add: mech_decode_def)
qed

end

section \<open>The result of a packet\<close>

text \<open>The contract of \<^verbatim>\<open>decodeMsopPkt\<close>: the packet keeps its length and its blocks, the tables and parameters
  stay, a frame is reported exactly when a block begins one, the published clouds and the current one
  grow by the points of the blocks up to the first one with a wrong id, cut before the blocks that begin
  a frame, and the clouds stay well-formed.\<close>

definition mech_result :: "mech_layout \<Rightarrow> 'r::floor_ceiling RSDecoderConstParam \<Rightarrow> 'r mk_iter \<Rightarrow> bool \<Rightarrow> 'r host \<Rightarrow> bytes
    \<Rightarrow> ('r, 'a) DecoderMech_scheme \<Rightarrow> bool \<times> bytes \<times> ('r, 'a) DecoderMech_scheme \<Rightarrow> bool" where
  "mech_result L c mk m h pkt d r \<longleftrightarrow> (case r of (ret, pkt', d') \<Rightarrow>
     length pkt' = length pkt \<and> drop (blk_off L) pkt' = drop (blk_off L) pkt \<and> fixed_part d' = fixed_part d \<and>
     (\<exists>iter t cuts. decode_iter L mk pkt' d = Some iter \<and>
       split_cuts d (map (block_az L pkt') (good_blocks L pkt' c)) (split_strategy d) = (cuts, split_strategy d') \<and>
       ret = (True \<in> set cuts) \<and> (cloud_rows L = None \<and> clouds_ok d \<longrightarrow> clouds_ok d') \<and>
       frames d' = fold frame_step (zip cuts (map (block_points h L m pkt' iter t d) (good_blocks L pkt' c))) (frames d)))"

lemma temp_total:
  assumes "off + 2 \<le> length pkt"
  shows "\<exists>x. temp_le off pkt d = Some (d\<lparr>temperature := x, is_get_temperature := True\<rparr>)"
    and "\<exists>x. temp_be off pkt d = Some (d\<lparr>temperature := x, is_get_temperature := True\<rparr>)"
  using assms by (simp_all add: temp_le_def temp_be_def read_temp_def rd_def) blast+

lemma wr_drop: "off + length bs \<le> length m \<Longrightarrow> off + length bs \<le> n \<Longrightarrow>
    \<exists>m'. wr m off bs = Some m' \<and> length m' = length m \<and> drop n m' = drop n m"
  by (auto simp: wr_def)

lemma pkt_time_total:
  assumes "off + 10 \<le> length pkt" and "off + 10 \<le> n"
  shows "\<exists>t pkt'. time_utc h off pkt d = Some (t, pkt') \<and> length pkt' = length pkt \<and> drop n pkt' = drop n pkt"
    and "\<exists>t pkt'. time_ymd h off pkt d = Some (t, pkt') \<and> length pkt' = length pkt \<and> drop n pkt' = drop n pkt"
proof -
  obtain pkt1 where 1: "write_utc pkt off (createTimeUTCWithUs (h_timezone h) (h_clock h 0)) = Some pkt1"
    "length pkt1 = length pkt" "drop n pkt1 = drop n pkt"
    unfolding write_utc_def using wr_drop [of off _ pkt n] assms by (force simp: createTimeUTCWithUs_def Let_def)
  obtain pkt2 where 2: "write_ymd pkt off (createTimeYMD h (h_clock h 0)) = Some pkt2"
    "length pkt2 = length pkt" "drop n pkt2 = drop n pkt"
    unfolding write_ymd_def using wr_drop [of off _ pkt n] assms by force
  have "read_utc pkt off \<noteq> None" "read_ymd pkt off \<noteq> None"
    using assms(1) by (simp_all add: read_utc_def read_ymd_def rd_def)
  then show "\<exists>t pkt'. time_utc h off pkt d = Some (t, pkt') \<and> length pkt' = length pkt \<and> drop n pkt' = drop n pkt"
    "\<exists>t pkt'. time_ymd h off pkt d = Some (t, pkt') \<and> length pkt' = length pkt \<and> drop n pkt' = drop n pkt"
    using 1 2 by (auto simp: time_utc_def time_ymd_def Let_def simp del: divide_eq_eq_numeral1 eq_divide_eq_numeral1)
qed

lemma decode_iter_temp [simp]:
  "decode_iter L mk pkt (d\<lparr>temperature := x, is_get_temperature := b\<rparr>) = decode_iter L mk pkt d"
  by (simp add: decode_iter_def)

context mech_lidar begin

lemma decode_result:
  assumes inv: "mech_inv c d" and len: "length pkt = MSOP_LEN c"
    and pkt': "length pkt' = length pkt" "drop (blk_off L) pkt' = drop (blk_off L) pkt"
  shows "\<exists>r. mech_decode h L mk_iter m pkt' t (d\<lparr>temperature := x, is_get_temperature := True\<rparr>) = Some r \<and>
    mech_result L c mk_iter m h pkt d r"
proof -
  let ?d = "d\<lparr>temperature := x, is_get_temperature := True\<rparr>"
  have f: "fixed_part ?d = fixed_part d" by simp
  have i: "mech_inv c ?d" using inv mech_inv_cong [OF f] by blast
  obtain cuts s where cuts: "split_cuts ?d (map (block_az L pkt') (good_blocks L pkt' c)) (split_strategy ?d) = (cuts, s)" by force
  have l: "length pkt' = MSOP_LEN c" using len pkt' by simp
  from decode_spec [OF i l cuts, of h m t]
  obtain iter d' where d': "decode_iter L mk_iter pkt' ?d = Some iter"
    "mech_decode h L mk_iter m pkt' t ?d = Some (True \<in> set cuts, pkt', d')" "fixed_part d' = fixed_part ?d"
    "split_strategy d' = s" "cloud_rows L = None \<and> clouds_ok ?d \<longrightarrow> clouds_ok d'"
    "frames d' = fold frame_step (zip cuts (map (block_points h L m pkt' iter t ?d) (good_blocks L pkt' c))) (frames ?d)"
    by (elim exE conjE) (rule that)
  show ?thesis
    using d' cuts pkt' split_cuts_cong [OF f] block_points_cong [OF f] by (auto simp: mech_result_def)
qed

end

section \<open>Every packet keeps the decoder consistent\<close>

definition mech_ok :: "'r RSDecoderConstParam \<Rightarrow> ('r, 'a) DecoderMech_scheme \<Rightarrow> bool" where
  "mech_ok c d \<longleftrightarrow> mech_inv c d \<and> clouds_ok d \<and> bCheckMsopLen d \<and> bCheckDifopLen d"

lemma mech_ok_cong:
  "fixed_part d' = fixed_part d \<Longrightarrow> clouds_ok d' \<Longrightarrow> mech_ok c d \<Longrightarrow> mech_ok c d'"
  using mech_inv_cong [of d' d c] fixed_part_eqD(8,9) [of d' d] by (simp add: mech_ok_def)

lemma limit_sel [simp]:
  "fixed_part (limit_excep h e d) = fixed_part d" "fixed_part (delay_limit_excep h e d) = fixed_part d"
  "clouds_ok (limit_excep h e d) = clouds_ok d" "clouds_ok (delay_limit_excep h e d) = clouds_ok d"
  "frames (limit_excep h e d) = frames d" "frames (delay_limit_excep h e d) = frames d"
  by (simp_all add: limit_excep_def delay_limit_excep_def cb_excep_def fixed_part_def clouds_ok_def frames_def Let_def)

lemma mech_ok_limit [simp]:
  "mech_ok c d \<Longrightarrow> mech_ok c (limit_excep h e d)" "mech_ok c d \<Longrightarrow> mech_ok c (delay_limit_excep h e d)"
  using mech_ok_cong [of "limit_excep h e d" d c] mech_ok_cong [of "delay_limit_excep h e d" d c]
  by (auto simp: mech_ok_def)

lemma mech_ok_result: "mech_ok c d \<Longrightarrow> cloud_rows L = None \<Longrightarrow> mech_result L c mk m h pkt d (ret, pkt', d')
    \<Longrightarrow> length pkt' = length pkt \<and> mech_ok c d'"
  using mech_ok_cong [of d' d c] by (auto simp: mech_result_def mech_ok_def)

lemma mech_msop_ok:
  assumes "mech_ok c d" and "cloud_rows L = None" and "mech_inv c d \<Longrightarrow> \<exists>r. X = Some r \<and> mech_result L c mk m h pkt d r"
  shows "\<exists>ret pkt' d'. X = Some (ret, pkt', d') \<and> length pkt' = length pkt \<and> mech_ok c d'"
proof -
  have "mech_inv c d" using assms(1) by (simp add: mech_ok_def)
  then obtain r where r: "X = Some r" "mech_result L c mk m h pkt d r" using assms(3) by blast
  obtain ret pkt' d' where e: "r = (ret, pkt', d')" by (cases r)
  show ?thesis using r(1) mech_ok_result [OF assms(1,2) r(2) [unfolded e]] unfolding e by blast
qed

lemma decodeDifopCommon_inv:
  assumes "mech_inv c d" and "LASER_NUM c \<le> length (vert_angle_cali a)" and "LASER_NUM c \<le> length (horiz_angle_cali a)"
  shows "\<exists>d'. decodeDifopCommon h a d = Some d' \<and> mech_inv c d' \<and> frames d' = frames d \<and> clouds_ok d' = clouds_ok d \<and>
    bCheckMsopLen d' = bCheckMsopLen d \<and> bCheckDifopLen d' = bCheckDifopLen d"
proof -
  have ci: "chan_inv (chan_angles d)" "unat (chan_num (chan_angles d)) = LASER_NUM c"
    using assms(1) by (simp_all add: mech_inv_def)
  have "loadFromDifop (vert_angle_cali a) (horiz_angle_cali a) (chan_angles d) \<noteq> None"
    using difop_loop_total [of "LASER_NUM c" "vert_angle_cali a" "horiz_angle_cali a"] assms(2,3) ci(2)
    by (simp add: loadFromDifop_def split: option.split)
  then obtain r ca where l: "loadFromDifop (vert_angle_cali a) (horiz_angle_cali a) (chan_angles d) = Some (r, ca)"
    by force
  have ca: "chan_inv ca" "chan_num ca = chan_num (chan_angles d)" using loadFromDifop_inv [OF ci(1) l] by simp_all
  show ?thesis using assms(1) ca l
    by (auto simp: decodeDifopCommon_def mech_inv_def clouds_ok_def frames_def Let_def)
qed

lemma decodeDifopCommon_ok:
  assumes "mech_ok c d" and "LASER_NUM c \<le> length (vert_angle_cali a)" and "LASER_NUM c \<le> length (horiz_angle_cali a)"
  shows "\<exists>d'. decodeDifopCommon h a d = Some d' \<and> mech_ok c d' \<and> frames d' = frames d"
  using decodeDifopCommon_inv [of c d a h] assms by (auto simp: mech_ok_def)

lemma mech_ok_const: "mech_ok c d \<Longrightarrow> MSOP_LEN (const_param d) = MSOP_LEN c \<and> MSOP_ID_LEN (const_param d) = MSOP_ID_LEN c \<and>
    DIFOP_LEN (const_param d) = DIFOP_LEN c \<and> DIFOP_ID_LEN (const_param d) = DIFOP_ID_LEN c \<and>
    bCheckMsopLen d \<and> bCheckDifopLen d"
  using mech_invD [of c d] by (simp add: mech_ok_def)

lemma mech_ok_clear: "mech_ok c d \<Longrightarrow> mech_ok c (d\<lparr>point_cloud := []\<rparr>)"
  by (auto simp: mech_ok_def mech_inv_def clouds_ok_def)

lemmas mech_contract = mech_ok_const mech_ok_limit mech_ok_clear

end
