(* ===== verification/Rs_MechLidars.thy ===== *)
theory Rs_MechLidars
  imports Rs_Mech
begin

text \<open>
  The eleven mechanical lidars of rs_driver (\<^verbatim>\<open>driver/decoder/decoder_RS16.hpp\<close>, \<^verbatim>\<open>decoder_RS32.hpp\<close>,
  \<^verbatim>\<open>decoder_RSBP.hpp\<close>, \<^verbatim>\<open>decoder_RS128.hpp\<close>, \<^verbatim>\<open>decoder_RS80.hpp\<close>, \<^verbatim>\<open>decoder_RS48.hpp\<close>,
  \<^verbatim>\<open>decoder_RSP128.hpp\<close>, \<^verbatim>\<open>decoder_RSP80.hpp\<close>, \<^verbatim>\<open>decoder_RSP48.hpp\<close>, \<^verbatim>\<open>decoder_RSHELIOS.hpp\<close>,
  \<^verbatim>\<open>decoder_RSHELIOS_16P.hpp\<close>): constants and firing tables, echo modes, and what each class does with
  a DIFOP and an MSOP packet, by the loops of \<^verbatim>\<open>Rs_Mech\<close> over its own packet layout. Offsets are those of
  the packed structs.
\<close>

section \<open>Fields of DIFOP packets\<close>

primrec read_angles :: "bytes \<Rightarrow> nat \<Rightarrow> nat \<Rightarrow> RSCalibrationAngle list option" where
  "read_angles pkt off 0 = Some []"
| "read_angles pkt off (Suc n) = do {
     s \<leftarrow> read_u8 pkt off; v \<leftarrow> read_u16 pkt (off + 1);
     as \<leftarrow> read_angles pkt (off + 3) n;
     Some (\<lparr>cal_sign = s, cal_value = v\<rparr> # as)
   }"

text \<open>The head of the DIFOP structs is the same up to the voltage, whose place depends on the status struct;
  \<open>top_ver\<close> is at 40 in both version structs.\<close>

definition read_difop :: "nat \<Rightarrow> RSCalibrationAngle list \<Rightarrow> RSCalibrationAngle list \<Rightarrow> bytes \<Rightarrow> AdapterDifopPkt option" where
  "read_difop vol_off vert horiz pkt = do {
     r \<leftarrow> read_u16 pkt 8; mac \<leftarrow> rd pkt 18 6; fs \<leftarrow> read_u16 pkt 32; fe \<leftarrow> read_u16 pkt 34;
     tv \<leftarrow> rd pkt 40 5; bv \<leftarrow> rd pkt 45 5; n \<leftarrow> rd pkt 292 6; mode \<leftarrow> read_u8 pkt 300; vol \<leftarrow> read_u16 pkt vol_off;
     Some \<lparr>rpm = r, fov_start_angle = fs, fov_end_angle = fe, top_ver = tv, bottom_ver = bv, mac_addr = mac, sn = n,
       return_mode = mode, vol_12v = vol, vert_angle_cali = vert, horiz_angle_cali = horiz\<rparr>
   }"

text \<open>The pitch of RS16 in three bytes, to hundredths of a degree, where a value beyond 16 bits (undefined in
  C++) wraps; the angles of RS32, rounded to hundredths. \<open>htons\<close> is \<^const>\<open>ntohs\<close>.\<close>

definition pitch_value :: "bytes \<Rightarrow> u16" where
  "pitch_value b = (let v = be_dec b :: u32 in ntohs (of_int (trunc (of_nat (unat v) * 0.01 :: rat))))"

definition coarse_angle :: "RSCalibrationAngle \<Rightarrow> RSCalibrationAngle" where
  "coarse_angle a = a\<lparr>cal_value := ntohs (of_int (round_half (of_nat (unat (ntohs (cal_value a))) * 0.1 :: rat)))\<rparr>"

text \<open>The end of \<^verbatim>\<open>decodeDifopPkt\<close> in all classes but RS16 and RSHELIOS-16P.\<close>

definition set_echo_mode :: "RSEchoMode \<Rightarrow> ('r, 'a) DecoderMech_scheme \<Rightarrow> ('r, 'a) DecoderMech_scheme" where
  "set_echo_mode mode d = d\<lparr>echo_mode := mode,
     split_blks_per_frame := (if mode = ECHO_DUAL then push_bit 1 (blks_per_frame d) else blks_per_frame d)\<rparr>"

text \<open>\<^verbatim>\<open>calcChannel\<close> of the two iterators of 16-laser packets.\<close>

definition Rs16Single_calcChannel :: "'r::floor_ceiling \<Rightarrow> 'r list \<Rightarrow> 'r RSDecoderMechConstParam \<Rightarrow> 'r RSDecoderMechConstParam" where
  "Rs16Single_calcChannel blk_ts firing c = c\<lparr>
     CHAN_AZIS := map (\<lambda>chan. firing ! chan / (blk_ts * 2)) [0..<32] @ drop 32 (CHAN_AZIS c),
     CHAN_TSS := map (\<lambda>chan. firing ! chan / 1000000) [0..<32] @ drop 32 (CHAN_TSS c)\<rparr>"

definition Rs16Dual_calcChannel :: "'r::floor_ceiling \<Rightarrow> 'r list \<Rightarrow> 'r RSDecoderMechConstParam \<Rightarrow> 'r RSDecoderMechConstParam" where
  "Rs16Dual_calcChannel blk_ts firing c = c\<lparr>
     CHAN_AZIS := map (\<lambda>chan. firing ! (chan mod 16) / blk_ts) [0..<32] @ drop 32 (CHAN_AZIS c),
     CHAN_TSS := map (\<lambda>chan. firing ! (chan mod 16) / 1000000) [0..<32] @ drop 32 (CHAN_TSS c)\<rparr>"

section \<open>RS16\<close>

definition RS16_layout :: mech_layout where
  "RS16_layout = mech_plain 42 100 2 (Some ERRCODE_WRONGMSOPBLKID) (\<lambda>chan. chan mod 16)"

definition RS16_firing_tss :: "'r::floor_ceiling list" where
  "RS16_firing_tss = [
     0, 2.8, 5.6, 8.4, 11.2, 14, 16.8, 19.6, 22.4, 25.2, 28, 30.8, 33.6, 36.4, 39.2, 42,
     55.5, 58.3, 61.1, 63.9, 66.7, 69.5, 72.3, 75.1, 77.9, 80.7, 83.5, 86.3, 89.1, 91.9, 94.7, 97.5]"

definition RS16_getConstParam :: "'r::floor_ceiling RSDecoderMechConstParam" where
  "RS16_getConstParam =
    \<lparr>base = \<lparr>MSOP_LEN = 1248, DIFOP_LEN = 1248, MSOP_ID_LEN = 8, DIFOP_ID_LEN = 8,
       MSOP_ID = [0x55, 0xAA, 0x05, 0x0A, 0x5A, 0xA5, 0x50, 0xA0],
       DIFOP_ID = [0xA5, 0xFF, 0x00, 0x5A, 0x11, 0x11, 0x55, 0x55],
       BLOCK_ID = [0xFF, 0xEE], LASER_NUM = 16, BLOCKS_PER_PKT = 12, CHANNELS_PER_BLOCK = 32,
       DISTANCE_MIN = 0.4, DISTANCE_MAX = 230, DISTANCE_RES = 0.005, TEMPERATURE_RES = 0.0625,
       IMU_LEN = 0, IMU_ID_LEN = 0, IMU_ID = []\<rparr>,
     RX = 0.03825, RY = - 0.01088, RZ = 0, BLOCK_DURATION = 55.5 / 1000000,
     CHAN_TSS = fill128 [], CHAN_AZIS = fill128 []\<rparr>"

definition RS16_calcParam :: "('r::floor_ceiling, 'a) DecoderMech_scheme \<Rightarrow> ('r, 'a) DecoderMech_scheme" where
  "RS16_calcParam d =
     (let calc = (if echo_mode d = ECHO_SINGLE then Rs16Single_calcChannel else Rs16Dual_calcChannel)
      in d\<lparr>mech_const := calc 55.5 RS16_firing_tss (mech_const d)\<rparr>)"

definition RS16_getEchoMode :: "u8 \<Rightarrow> RSEchoMode" where
  "RS16_getEchoMode mode = (if mode = 0x00 then ECHO_DUAL else ECHO_SINGLE)"

definition mk_DecoderRS16 :: "(string \<Rightarrow> 'r::floor_ceiling option) \<Rightarrow> (string \<Rightarrow> string list option) \<Rightarrow> 'r RSDecoderParam
    \<Rightarrow> 'r DecoderMech option" where
  "mk_DecoderRS16 stof files p = do {
     d \<leftarrow> mk_DecoderMech stof files RS16_getConstParam p;
     Some (RS16_calcParam (d\<lparr>packet_duration := BLOCK_DURATION (mech_const d) * of_nat (BLOCKS_PER_PKT (const_param d)) * 2\<rparr>))
   }"

definition RS16DifopPkt2Adapter :: "bytes \<Rightarrow> AdapterDifopPkt option" where
  "RS16DifopPkt2Adapter pkt = do {
     vals \<leftarrow> rd pkt 1165 48;
     read_difop 319 (map (\<lambda>i. \<lparr>cal_sign = (if i < 8 then 1 else 0), cal_value = pitch_value (take 3 (drop (i * 3) vals))\<rparr>) [0..<16])
       (replicate 16 \<lparr>cal_sign = 0, cal_value = 0\<rparr>) pkt
   }"

definition RS16_decodeDifopPkt :: "'r::floor_ceiling host \<Rightarrow> bytes \<Rightarrow> ('r, 'a) DecoderMech_scheme \<Rightarrow> ('r, 'a) DecoderMech_scheme option" where
  "RS16_decodeDifopPkt h pkt d = do {
     a \<leftarrow> RS16DifopPkt2Adapter pkt;
     d \<leftarrow> decodeDifopCommon h a d;
     let mode = RS16_getEchoMode (return_mode a);
     Some (if echo_mode d \<noteq> mode
           then RS16_calcParam (d\<lparr>echo_mode := mode,
             split_blks_per_frame := (if mode = ECHO_DUAL then blks_per_frame d else drop_bit 1 (blks_per_frame d))\<rparr>)
           else d)
   }"

definition RS16_internDecodeMsopPkt :: "'r::floor_ceiling mk_iter \<Rightarrow> 'r host \<Rightarrow> bytes \<Rightarrow> ('r, 'a) DecoderMech_scheme
    \<Rightarrow> (bool \<times> bytes \<times> ('r, 'a) DecoderMech_scheme) option" where
  "RS16_internDecodeMsopPkt iter h pkt d = do {
     d \<leftarrow> temp_le 38 pkt d;
     (pkt_ts, pkt) \<leftarrow> time_ymd h 20 pkt d;
     mech_decode h RS16_layout iter False pkt pkt_ts d
   }"

definition RS16_decodeMsopPkt :: "'r::floor_ceiling host \<Rightarrow> bytes \<Rightarrow> ('r, 'a) DecoderMech_scheme
    \<Rightarrow> (bool \<times> bytes \<times> ('r, 'a) DecoderMech_scheme) option" where
  "RS16_decodeMsopPkt h pkt d =
     (if echo_mode d = ECHO_SINGLE then RS16_internDecodeMsopPkt Rs16SingleReturn h pkt d
      else RS16_internDecodeMsopPkt Rs16DualReturn h pkt d)"

definition RS16_isNewFrame :: "bytes \<Rightarrow> ('r, 'a) DecoderMech_scheme \<Rightarrow> (bool \<times> ('r, 'a) DecoderMech_scheme) option" where
  "RS16_isNewFrame pkt d = mech_newFrame RS16_layout pkt [0..<BLOCKS_PER_PKT (const_param d)] d"

section \<open>RS32\<close>

definition RS32_layout :: mech_layout where
  "RS32_layout = mech_plain 42 100 2 (Some ERRCODE_WRONGMSOPID) (\<lambda>chan. chan)"

definition RS32_firing_tss :: "'r::floor_ceiling list" where
  "RS32_firing_tss = [
     0, 2.88, 5.76, 8.64, 11.52, 14.4, 17.28, 20.16, 23.04, 25.92, 28.8, 31.68, 34.56, 37.44, 40.32, 44.64,
     1.44, 4.32, 7.2, 10.08, 12.96, 15.84, 18.72, 21.6, 24.48, 27.36, 30.24, 33.12, 36, 38.88, 41.76, 46.08]"

definition RS32_getConstParam :: "'r::floor_ceiling RSDecoderMechConstParam" where
  "RS32_getConstParam = set_firing 55.52 RS32_firing_tss
    \<lparr>base = \<lparr>MSOP_LEN = 1248, DIFOP_LEN = 1248, MSOP_ID_LEN = 8, DIFOP_ID_LEN = 8,
       MSOP_ID = [0x55, 0xAA, 0x05, 0x0A, 0x5A, 0xA5, 0x50, 0xA0],
       DIFOP_ID = [0xA5, 0xFF, 0x00, 0x5A, 0x11, 0x11, 0x55, 0x55],
       BLOCK_ID = [0xFF, 0xEE], LASER_NUM = 32, BLOCKS_PER_PKT = 12, CHANNELS_PER_BLOCK = 32,
       DISTANCE_MIN = 0.4, DISTANCE_MAX = 230, DISTANCE_RES = 0.005, TEMPERATURE_RES = 0.0625,
       IMU_LEN = 0, IMU_ID_LEN = 0, IMU_ID = []\<rparr>,
     RX = 0.03997, RY = - 0.01087, RZ = 0, BLOCK_DURATION = 55.52 / 1000000,
     CHAN_TSS = fill128 [], CHAN_AZIS = fill128 []\<rparr>"

definition RS32_getEchoMode :: "u8 \<Rightarrow> RSEchoMode" where
  "RS32_getEchoMode mode = (if mode = 0x00 then ECHO_DUAL else ECHO_SINGLE)"

definition mk_DecoderRS32 :: "(string \<Rightarrow> 'r::floor_ceiling option) \<Rightarrow> (string \<Rightarrow> string list option) \<Rightarrow> 'r RSDecoderParam
    \<Rightarrow> 'r DecoderMech option" where
  "mk_DecoderRS32 stof files = mk_DecoderMech stof files RS32_getConstParam"

definition RS32DifopPkt2Adapter :: "bytes \<Rightarrow> AdapterDifopPkt option" where
  "RS32DifopPkt2Adapter pkt = do {
     vert \<leftarrow> read_angles pkt 468 32; horiz \<leftarrow> read_angles pkt 564 32;
     read_difop 319 (map coarse_angle vert) (map coarse_angle horiz) pkt
   }"

definition RS32_decodeDifopPkt :: "'r::floor_ceiling host \<Rightarrow> bytes \<Rightarrow> ('r, 'a) DecoderMech_scheme \<Rightarrow> ('r, 'a) DecoderMech_scheme option" where
  "RS32_decodeDifopPkt h pkt d = do {
     a \<leftarrow> RS32DifopPkt2Adapter pkt;
     d \<leftarrow> decodeDifopCommon h a d;
     Some (set_echo_mode (RS32_getEchoMode (return_mode a)) d)
   }"

definition RS32_internDecodeMsopPkt :: "'r::floor_ceiling mk_iter \<Rightarrow> 'r host \<Rightarrow> bytes \<Rightarrow> ('r, 'a) DecoderMech_scheme
    \<Rightarrow> (bool \<times> bytes \<times> ('r, 'a) DecoderMech_scheme) option" where
  "RS32_internDecodeMsopPkt iter h pkt d = do {
     d \<leftarrow> temp_le 38 pkt d;
     (pkt_ts, pkt) \<leftarrow> time_ymd h 20 pkt d;
     mech_decode h RS32_layout iter False pkt pkt_ts d
   }"

definition RS32_decodeMsopPkt :: "'r::floor_ceiling host \<Rightarrow> bytes \<Rightarrow> ('r, 'a) DecoderMech_scheme
    \<Rightarrow> (bool \<times> bytes \<times> ('r, 'a) DecoderMech_scheme) option" where
  "RS32_decodeMsopPkt h pkt d =
     (if echo_mode d = ECHO_SINGLE then RS32_internDecodeMsopPkt SingleReturn h pkt d
      else RS32_internDecodeMsopPkt DualReturn h pkt d)"

definition RS32_isNewFrame :: "bytes \<Rightarrow> ('r, 'a) DecoderMech_scheme \<Rightarrow> (bool \<times> ('r, 'a) DecoderMech_scheme) option" where
  "RS32_isNewFrame pkt d = mech_newFrame RS32_layout pkt [0..<BLOCKS_PER_PKT (const_param d)] d"

section \<open>RSBP\<close>

definition RSBP_layout :: mech_layout where
  "RSBP_layout = mech_plain 42 100 2 (Some ERRCODE_WRONGMSOPBLKID) (\<lambda>chan. chan)"

definition RSBP_firing_tss :: "'r::floor_ceiling list" where
  "RSBP_firing_tss = [
     0, 2.56, 5.12, 7.68, 10.24, 12.8, 15.36, 17.92, 25.68, 28.24, 30.8, 33.36, 35.92, 38.48, 41.04, 43.6,
     1.28, 3.84, 6.4, 8.96, 11.52, 14.08, 16.64, 19.2, 26.96, 29.52, 32.08, 34.64, 37.2, 39.76, 42.32, 44.88]"

definition RSBP_getConstParam :: "'r::floor_ceiling RSDecoderMechConstParam" where
  "RSBP_getConstParam = set_firing 55.52 RSBP_firing_tss
    \<lparr>base = \<lparr>MSOP_LEN = 1248, DIFOP_LEN = 1248, MSOP_ID_LEN = 8, DIFOP_ID_LEN = 8,
       MSOP_ID = [0x55, 0xAA, 0x05, 0x0A, 0x5A, 0xA5, 0x50, 0xA0],
       DIFOP_ID = [0xA5, 0xFF, 0x00, 0x5A, 0x11, 0x11, 0x55, 0x55],
       BLOCK_ID = [0xFF, 0xEE], LASER_NUM = 32, BLOCKS_PER_PKT = 12, CHANNELS_PER_BLOCK = 32,
       DISTANCE_MIN = 0.1, DISTANCE_MAX = 150, DISTANCE_RES = 0.005, TEMPERATURE_RES = 0.0625,
       IMU_LEN = 0, IMU_ID_LEN = 0, IMU_ID = []\<rparr>,
     RX = 0.01473, RY = 0.0085, RZ = 0.09427, BLOCK_DURATION = 55.52 / 1000000,
     CHAN_TSS = fill128 [], CHAN_AZIS = fill128 []\<rparr>"

definition RSBP_getEchoMode :: "u8 \<Rightarrow> RSEchoMode" where
  "RSBP_getEchoMode mode = (if mode = 0x00 then ECHO_DUAL else ECHO_SINGLE)"

record 'r DecoderRSBP = "'r DecoderMech" +
  reversal :: bool
  isBpV4 :: bool
  isFirstPkt :: bool

definition mk_DecoderRSBP :: "(string \<Rightarrow> 'r::floor_ceiling option) \<Rightarrow> (string \<Rightarrow> string list option) \<Rightarrow> 'r RSDecoderParam
    \<Rightarrow> 'r DecoderRSBP option" where
  "mk_DecoderRSBP stof files p = map_option (\<lambda>d. DecoderMech.extend d (DecoderRSBP.fields False False True))
     (mk_DecoderMech stof files RSBP_getConstParam p)"

definition RSBPDifopPkt :: "bytes \<Rightarrow> AdapterDifopPkt option" where
  "RSBPDifopPkt pkt = do {
     vert \<leftarrow> read_angles pkt 468 32; horiz \<leftarrow> read_angles pkt 564 32;
     read_difop 319 vert horiz pkt
   }"

definition RSBP_decodeDifopPkt :: "'r::floor_ceiling host \<Rightarrow> bytes \<Rightarrow> ('r, 'a) DecoderRSBP_scheme \<Rightarrow> ('r, 'a) DecoderRSBP_scheme option" where
  "RSBP_decodeDifopPkt h pkt d = do {
     a \<leftarrow> RSBPDifopPkt pkt;
     d \<leftarrow> decodeDifopCommon h a d;
     r \<leftarrow> read_u8 pkt 337;
     Some (set_echo_mode (RSBP_getEchoMode (return_mode a)) (d\<lparr>reversal := r \<noteq> 0\<rparr>))
   }"

definition RSBP_v4_firing_tss :: "'r::floor_ceiling list" where
  "RSBP_v4_firing_tss = [
     0, 1.67, 3.34, 5, 6.67, 8.34, 10.01, 11.68, 13.34, 15.01, 16.68, 18.35, 20.02, 21.68, 23.35, 25.02,
     26.69, 28.36, 30.02, 31.69, 33.36, 35.03, 36.7, 38.36, 40.03, 41.7, 43.37, 45.04, 46.7, 48.37, 50.04, 51.71]"

definition RSBP_first_packet :: "bytes \<Rightarrow> ('r::floor_ceiling, 'a) DecoderRSBP_scheme \<Rightarrow> ('r, 'a) DecoderRSBP_scheme option" where
  "RSBP_first_packet pkt d =
     (if isFirstPkt d
      then do {
        lidar_type \<leftarrow> read_u8 pkt 31; md \<leftarrow> read_u8 pkt 32;
        let d = d\<lparr>isFirstPkt := False\<rparr>;
        Some (if lidar_type = 0x03 \<and> md = 0x04
              then d\<lparr>isBpV4 := True, const_param := const_param d\<lparr>DISTANCE_RES := 0.0025\<rparr>,
                mech_const := set_firing 55.56 RSBP_v4_firing_tss (mech_const d\<lparr>RX := 0.01619, RY := 0.0085, RZ := 0.09571,
                  BLOCK_DURATION := 55.56 / 1000000\<rparr>)\<rparr>
              else d)
      }
      else Some d)"

definition RSBP_internDecodeMsopPkt :: "'r::floor_ceiling mk_iter \<Rightarrow> 'r host \<Rightarrow> bytes \<Rightarrow> ('r, 'a) DecoderRSBP_scheme
    \<Rightarrow> (bool \<times> bytes \<times> ('r, 'a) DecoderRSBP_scheme) option" where
  "RSBP_internDecodeMsopPkt iter h pkt d = do {
     d \<leftarrow> RSBP_first_packet pkt d;
     d \<leftarrow> temp_le 38 pkt d;
     (pkt_ts, pkt) \<leftarrow> (if isBpV4 d then time_utc h 20 pkt d else time_ymd h 20 pkt d);
     mech_decode h RSBP_layout iter (reversal d) pkt pkt_ts d
   }"

definition RSBP_decodeMsopPkt :: "'r::floor_ceiling host \<Rightarrow> bytes \<Rightarrow> ('r, 'a) DecoderRSBP_scheme
    \<Rightarrow> (bool \<times> bytes \<times> ('r, 'a) DecoderRSBP_scheme) option" where
  "RSBP_decodeMsopPkt h pkt d =
     (if echo_mode d = ECHO_SINGLE then RSBP_internDecodeMsopPkt SingleReturn h pkt d
      else RSBP_internDecodeMsopPkt DualReturn h pkt d)"

definition RSBP_isNewFrame :: "bytes \<Rightarrow> ('r, 'a) DecoderMech_scheme \<Rightarrow> (bool \<times> ('r, 'a) DecoderMech_scheme) option" where
  "RSBP_isNewFrame pkt d = mech_newFrame RSBP_layout pkt [0..<BLOCKS_PER_PKT (const_param d)] d"

section \<open>RS128\<close>

definition RS128_layout :: mech_layout where
  "RS128_layout = mech_plain 80 388 1 None (\<lambda>chan. chan)"

definition RS128_firing_tss :: "'r::floor_ceiling list" where
  "RS128_firing_tss = [
     0, 0, 0, 0, 3.236, 3.236, 3.236, 3.236, 6.472, 6.472, 6.472, 6.472, 9.708, 9.708, 9.708, 9.708,
     12.944, 12.944, 12.944, 12.944, 16.18, 16.18, 16.18, 16.18, 19.416, 19.416, 19.416, 19.416, 22.652, 22.652, 22.652, 22.652,
     25.888, 25.888, 25.888, 25.888, 29.124, 29.124, 29.124, 29.124, 32.36, 32.36, 32.36, 32.36, 35.596, 35.596, 35.596, 35.596,
     38.832, 38.832, 38.832, 38.832, 42.068, 42.068, 42.068, 42.068, 45.304, 45.304, 45.304, 45.304, 48.54, 48.54, 48.54, 48.54,
     0, 0, 0, 0, 3.236, 3.236, 3.236, 3.236, 6.472, 6.472, 6.472, 6.472, 9.708, 9.708, 9.708, 9.708,
     12.944, 12.944, 12.944, 12.944, 16.18, 16.18, 16.18, 16.18, 19.416, 19.416, 19.416, 19.416, 22.652, 22.652, 22.652, 22.652,
     25.888, 25.888, 25.888, 25.888, 29.124, 29.124, 29.124, 29.124, 32.36, 32.36, 32.36, 32.36, 35.596, 35.596, 35.596, 35.596,
     38.832, 38.832, 38.832, 38.832, 42.068, 42.068, 42.068, 42.068, 45.304, 45.304, 45.304, 45.304, 48.54, 48.54, 48.54, 48.54]"

definition RS128_getConstParam :: "'r::floor_ceiling RSDecoderMechConstParam" where
  "RS128_getConstParam = set_firing 55.55 RS128_firing_tss
    \<lparr>base = \<lparr>MSOP_LEN = 1248, DIFOP_LEN = 1248, MSOP_ID_LEN = 4, DIFOP_ID_LEN = 8,
       MSOP_ID = [0x55, 0xAA, 0x05, 0x5A, 0, 0, 0, 0],
       DIFOP_ID = [0xA5, 0xFF, 0x00, 0x5A, 0x11, 0x11, 0x55, 0x55],
       BLOCK_ID = [0xFE, 0], LASER_NUM = 128, BLOCKS_PER_PKT = 3, CHANNELS_PER_BLOCK = 128,
       DISTANCE_MIN = 0.4, DISTANCE_MAX = 250, DISTANCE_RES = 0.005, TEMPERATURE_RES = 0.0625,
       IMU_LEN = 0, IMU_ID_LEN = 0, IMU_ID = []\<rparr>,
     RX = 0.03615, RY = - 0.017, RZ = 0, BLOCK_DURATION = 55.55 / 1000000,
     CHAN_TSS = fill128 [], CHAN_AZIS = fill128 []\<rparr>"

definition RS128_getEchoMode :: "u8 \<Rightarrow> RSEchoMode" where
  "RS128_getEchoMode mode = (if mode = 0x03 then ECHO_DUAL else ECHO_SINGLE)"

definition mk_DecoderRS128 :: "(string \<Rightarrow> 'r::floor_ceiling option) \<Rightarrow> (string \<Rightarrow> string list option) \<Rightarrow> 'r RSDecoderParam
    \<Rightarrow> 'r DecoderMech option" where
  "mk_DecoderRS128 stof files = mk_DecoderMech stof files RS128_getConstParam"

definition RS128DifopPkt :: "bytes \<Rightarrow> AdapterDifopPkt option" where
  "RS128DifopPkt pkt = do {
     vert \<leftarrow> read_angles pkt 468 128; horiz \<leftarrow> read_angles pkt 852 128;
     read_difop 319 vert horiz pkt
   }"

definition RS128_decodeDifopPkt :: "'r::floor_ceiling host \<Rightarrow> bytes \<Rightarrow> ('r, 'a) DecoderMech_scheme \<Rightarrow> ('r, 'a) DecoderMech_scheme option" where
  "RS128_decodeDifopPkt h pkt d = do {
     a \<leftarrow> RS128DifopPkt pkt;
     d \<leftarrow> decodeDifopCommon h a d;
     Some (set_echo_mode (RS128_getEchoMode (return_mode a)) d)
   }"

definition RS128_internDecodeMsopPkt :: "'r::floor_ceiling mk_iter \<Rightarrow> 'r host \<Rightarrow> bytes \<Rightarrow> ('r, 'a) DecoderMech_scheme
    \<Rightarrow> (bool \<times> bytes \<times> ('r, 'a) DecoderMech_scheme) option" where
  "RS128_internDecodeMsopPkt iter h pkt d = do {
     d \<leftarrow> temp_be 8 pkt d;
     (pkt_ts, pkt) \<leftarrow> time_utc h 10 pkt d;
     mech_decode h RS128_layout iter False pkt pkt_ts d
   }"

definition RS128_decodeMsopPkt :: "'r::floor_ceiling host \<Rightarrow> bytes \<Rightarrow> ('r, 'a) DecoderMech_scheme
    \<Rightarrow> (bool \<times> bytes \<times> ('r, 'a) DecoderMech_scheme) option" where
  "RS128_decodeMsopPkt h pkt d =
     (if echo_mode d = ECHO_SINGLE then RS128_internDecodeMsopPkt SingleReturn h pkt d
      else RS128_internDecodeMsopPkt (\<lambda>azs n. ABDualReturn azs) h pkt d)"

definition RS128_isNewFrame :: "bytes \<Rightarrow> ('r, 'a) DecoderMech_scheme \<Rightarrow> (bool \<times> ('r, 'a) DecoderMech_scheme) option" where
  "RS128_isNewFrame pkt d = mech_newFrame RS128_layout pkt [0..<BLOCKS_PER_PKT (const_param d)] d"

section \<open>RS80\<close>

definition RS80_layout :: mech_layout where
  "RS80_layout = mech_plain 80 244 1 None (\<lambda>chan. chan)"

definition RS80_firing_tss :: "'r::floor_ceiling list" where
  "RS80_firing_tss = [
     0, 0, 0, 3.236, 3.236, 6.472, 6.472, 6.472, 6.472, 9.708, 9.708, 9.708, 12.944, 12.944, 12.944, 16.18,
     16.18, 16.18, 19.416, 19.416, 19.416, 22.652, 22.652, 25.888, 25.888, 29.124, 29.124, 32.36, 32.36, 35.596, 35.596, 38.832,
     38.832, 42.068, 42.068, 45.304, 45.304, 48.54, 48.54, 48.54, 0, 0, 0, 3.236, 3.236, 3.236, 6.472, 6.472,
     6.472, 9.708, 9.708, 12.944, 12.944, 12.944, 12.944, 16.18, 16.18, 19.416, 19.416, 19.416, 22.652, 22.652, 22.652, 25.888,
     25.888, 29.124, 29.124, 32.36, 32.36, 35.596, 35.596, 35.596, 38.832, 38.832, 42.068, 45.304, 45.304, 48.54, 48.54, 48.54]"

definition RS80_getConstParam :: "'r::floor_ceiling RSDecoderMechConstParam" where
  "RS80_getConstParam = set_firing 55.552 RS80_firing_tss
    \<lparr>base = \<lparr>MSOP_LEN = 1248, DIFOP_LEN = 1248, MSOP_ID_LEN = 4, DIFOP_ID_LEN = 8,
       MSOP_ID = [0x55, 0xAA, 0x05, 0x5A, 0, 0, 0, 0],
       DIFOP_ID = [0xA5, 0xFF, 0x00, 0x5A, 0x11, 0x11, 0x55, 0x55],
       BLOCK_ID = [0xFE, 0], LASER_NUM = 80, BLOCKS_PER_PKT = 4, CHANNELS_PER_BLOCK = 80,
       DISTANCE_MIN = 0.4, DISTANCE_MAX = 250, DISTANCE_RES = 0.005, TEMPERATURE_RES = 0.0625,
       IMU_LEN = 0, IMU_ID_LEN = 0, IMU_ID = []\<rparr>,
     RX = 0.03615, RY = - 0.017, RZ = 0, BLOCK_DURATION = 55.552 / 1000000,
     CHAN_TSS = fill128 [], CHAN_AZIS = fill128 []\<rparr>"

definition RS80_getEchoMode :: "u8 \<Rightarrow> RSEchoMode" where
  "RS80_getEchoMode mode = (if mode = 0x03 then ECHO_DUAL else ECHO_SINGLE)"

definition mk_DecoderRS80 :: "(string \<Rightarrow> 'r::floor_ceiling option) \<Rightarrow> (string \<Rightarrow> string list option) \<Rightarrow> 'r RSDecoderParam
    \<Rightarrow> 'r DecoderMech option" where
  "mk_DecoderRS80 stof files = mk_DecoderMech stof files RS80_getConstParam"

definition RS80DifopPkt :: "bytes \<Rightarrow> AdapterDifopPkt option" where
  "RS80DifopPkt pkt = do {
     vert \<leftarrow> read_angles pkt 468 128; horiz \<leftarrow> read_angles pkt 852 128;
     read_difop 319 vert horiz pkt
   }"

definition RS80_decodeDifopPkt :: "'r::floor_ceiling host \<Rightarrow> bytes \<Rightarrow> ('r, 'a) DecoderMech_scheme \<Rightarrow> ('r, 'a) DecoderMech_scheme option" where
  "RS80_decodeDifopPkt h pkt d = do {
     a \<leftarrow> RS80DifopPkt pkt;
     d \<leftarrow> decodeDifopCommon h a d;
     Some (set_echo_mode (RS80_getEchoMode (return_mode a)) d)
   }"

definition RS80_internDecodeMsopPkt :: "'r::floor_ceiling mk_iter \<Rightarrow> 'r host \<Rightarrow> bytes \<Rightarrow> ('r, 'a) DecoderMech_scheme
    \<Rightarrow> (bool \<times> bytes \<times> ('r, 'a) DecoderMech_scheme) option" where
  "RS80_internDecodeMsopPkt iter h pkt d = do {
     d \<leftarrow> temp_be 8 pkt d;
     (pkt_ts, pkt) \<leftarrow> time_utc h 10 pkt d;
     mech_decode h RS80_layout iter False pkt pkt_ts d
   }"

definition RS80_decodeMsopPkt :: "'r::floor_ceiling host \<Rightarrow> bytes \<Rightarrow> ('r, 'a) DecoderMech_scheme
    \<Rightarrow> (bool \<times> bytes \<times> ('r, 'a) DecoderMech_scheme) option" where
  "RS80_decodeMsopPkt h pkt d =
     (if echo_mode d = ECHO_SINGLE then RS80_internDecodeMsopPkt SingleReturn h pkt d
      else RS80_internDecodeMsopPkt DualReturn h pkt d)"

definition RS80_isNewFrame :: "bytes \<Rightarrow> ('r, 'a) DecoderMech_scheme \<Rightarrow> (bool \<times> ('r, 'a) DecoderMech_scheme) option" where
  "RS80_isNewFrame pkt d = mech_newFrame RS80_layout pkt [0..<BLOCKS_PER_PKT (const_param d)] d"

section \<open>RSP48\<close>

definition RSP48_layout :: mech_layout where
  "RSP48_layout = mech_plain 80 148 1 (Some ERRCODE_WRONGMSOPBLKID) (\<lambda>chan. chan)"

definition RSP48_firing_tss :: "'r::floor_ceiling list" where
  "RSP48_firing_tss = [
     0, 0, 1.217, 1.217, 2.434, 2.434, 3.652, 3.652, 4.869, 4.869, 6.086, 6.086, 7.304, 7.304, 8.521, 8.521,
     9.739, 9.739, 11.323, 11.323, 12.907, 12.907, 14.924, 14.924, 16.941, 16.941, 18.959, 18.959, 20.976, 20.976, 23.127, 23.127,
     25.278, 25.278, 27.428, 27.428, 29.579, 29.579, 31.963, 31.963, 34.347, 34.347, 36.498, 36.498, 38.648, 38.648, 40.666, 40.666]"

definition RSP48_getConstParam :: "'r::floor_ceiling RSDecoderMechConstParam" where
  "RSP48_getConstParam = set_firing 55.56 RSP48_firing_tss
    \<lparr>base = \<lparr>MSOP_LEN = 1268, DIFOP_LEN = 1248, MSOP_ID_LEN = 4, DIFOP_ID_LEN = 8,
       MSOP_ID = [0x55, 0xAA, 0x05, 0x5A, 0, 0, 0, 0],
       DIFOP_ID = [0xA5, 0xFF, 0x00, 0x5A, 0x11, 0x11, 0x55, 0x55],
       BLOCK_ID = [0xFE, 0], LASER_NUM = 48, BLOCKS_PER_PKT = 8, CHANNELS_PER_BLOCK = 48,
       DISTANCE_MIN = 0.4, DISTANCE_MAX = 250, DISTANCE_RES = 0.005, TEMPERATURE_RES = 0.0625,
       IMU_LEN = 0, IMU_ID_LEN = 0, IMU_ID = []\<rparr>,
     RX = 0.02892, RY = - 0.013, RZ = 0, BLOCK_DURATION = 55.56 / 1000000,
     CHAN_TSS = fill128 [], CHAN_AZIS = fill128 []\<rparr>"

definition RSP48_getEchoMode :: "u8 \<Rightarrow> RSEchoMode" where
  "RSP48_getEchoMode mode = (if mode \<in> {0x00, 0x01, 0x02} then ECHO_SINGLE else ECHO_DUAL)"

definition mk_DecoderRSP48 :: "(string \<Rightarrow> 'r::floor_ceiling option) \<Rightarrow> (string \<Rightarrow> string list option) \<Rightarrow> 'r RSDecoderParam
    \<Rightarrow> 'r DecoderMech option" where
  "mk_DecoderRSP48 stof files = mk_DecoderMech stof files RSP48_getConstParam"

definition RSP48DifopPkt :: "bytes \<Rightarrow> AdapterDifopPkt option" where
  "RSP48DifopPkt pkt = do {
     vert \<leftarrow> read_angles pkt 468 128; horiz \<leftarrow> read_angles pkt 852 128;
     read_difop 319 vert horiz pkt
   }"

definition RSP48_decodeDifopPkt :: "'r::floor_ceiling host \<Rightarrow> bytes \<Rightarrow> ('r, 'a) DecoderMech_scheme \<Rightarrow> ('r, 'a) DecoderMech_scheme option" where
  "RSP48_decodeDifopPkt h pkt d = do {
     a \<leftarrow> RSP48DifopPkt pkt;
     d \<leftarrow> decodeDifopCommon h a d;
     Some (set_echo_mode (RSP48_getEchoMode (return_mode a)) d)
   }"

definition RSP48_internDecodeMsopPkt :: "'r::floor_ceiling mk_iter \<Rightarrow> 'r host \<Rightarrow> bytes \<Rightarrow> ('r, 'a) DecoderMech_scheme
    \<Rightarrow> (bool \<times> bytes \<times> ('r, 'a) DecoderMech_scheme) option" where
  "RSP48_internDecodeMsopPkt iter h pkt d = do {
     d \<leftarrow> temp_be 8 pkt d;
     (pkt_ts, pkt) \<leftarrow> time_utc h 10 pkt d;
     mech_decode h RSP48_layout iter False pkt pkt_ts d
   }"

definition RSP48_decodeMsopPkt :: "'r::floor_ceiling host \<Rightarrow> bytes \<Rightarrow> ('r, 'a) DecoderMech_scheme
    \<Rightarrow> (bool \<times> bytes \<times> ('r, 'a) DecoderMech_scheme) option" where
  "RSP48_decodeMsopPkt h pkt d =
     (if echo_mode d = ECHO_SINGLE then RSP48_internDecodeMsopPkt SingleReturn h pkt d
      else RSP48_internDecodeMsopPkt DualReturn h pkt d)"

definition RSP48_isNewFrame :: "bytes \<Rightarrow> ('r, 'a) DecoderMech_scheme \<Rightarrow> (bool \<times> ('r, 'a) DecoderMech_scheme) option" where
  "RSP48_isNewFrame pkt d = mech_newFrame RSP48_layout pkt [0..<BLOCKS_PER_PKT (const_param d)] d"

section \<open>RS48\<close>

definition RS48_layout :: mech_layout where
  "RS48_layout = mech_plain 80 148 1 (Some ERRCODE_WRONGMSOPBLKID) (\<lambda>chan. chan)"

definition RS48_firing_tss :: "'r::floor_ceiling list" where
  "RS48_firing_tss = [
     0, 3.236, 6.472, 9.708, 12.944, 12.944, 16.18, 16.18, 19.416, 19.416, 22.652, 22.652, 25.888, 29.124, 32.36, 35.596,
     38.832, 38.832, 42.068, 42.068, 45.304, 45.304, 48.54, 48.54, 0, 3.236, 6.472, 9.708, 12.944, 12.944, 16.18, 16.18,
     19.416, 19.416, 22.652, 22.652, 25.888, 29.124, 32.36, 35.596, 38.832, 38.832, 42.068, 42.068, 45.304, 45.304, 48.54, 48.54]"

definition RS48_getConstParam :: "'r::floor_ceiling RSDecoderMechConstParam" where
  "RS48_getConstParam = set_firing 55.552 RS48_firing_tss
    \<lparr>base = \<lparr>MSOP_LEN = 1268, DIFOP_LEN = 1248, MSOP_ID_LEN = 4, DIFOP_ID_LEN = 8,
       MSOP_ID = [0x55, 0xAA, 0x05, 0x5A, 0, 0, 0, 0],
       DIFOP_ID = [0xA5, 0xFF, 0x00, 0x5A, 0x11, 0x11, 0x55, 0x55],
       BLOCK_ID = [0xFE, 0], LASER_NUM = 48, BLOCKS_PER_PKT = 8, CHANNELS_PER_BLOCK = 48,
       DISTANCE_MIN = 0.4, DISTANCE_MAX = 250, DISTANCE_RES = 0.005, TEMPERATURE_RES = 0.0625,
       IMU_LEN = 0, IMU_ID_LEN = 0, IMU_ID = []\<rparr>,
     RX = 0.03615, RY = - 0.017, RZ = 0, BLOCK_DURATION = 55.552 / 1000000,
     CHAN_TSS = fill128 [], CHAN_AZIS = fill128 []\<rparr>"

definition RS48_getEchoMode :: "u8 \<Rightarrow> RSEchoMode" where
  "RS48_getEchoMode mode = (if mode = 0x03 then ECHO_DUAL else ECHO_SINGLE)"

definition mk_DecoderRS48 :: "(string \<Rightarrow> 'r::floor_ceiling option) \<Rightarrow> (string \<Rightarrow> string list option) \<Rightarrow> 'r RSDecoderParam
    \<Rightarrow> 'r DecoderMech option" where
  "mk_DecoderRS48 stof files = mk_DecoderMech stof files RS48_getConstParam"

definition RS48_decodeDifopPkt :: "'r::floor_ceiling host \<Rightarrow> bytes \<Rightarrow> ('r, 'a) DecoderMech_scheme \<Rightarrow> ('r, 'a) DecoderMech_scheme option" where
  "RS48_decodeDifopPkt h pkt d = do {
     a \<leftarrow> RSP48DifopPkt pkt;
     d \<leftarrow> decodeDifopCommon h a d;
     Some (set_echo_mode (RS48_getEchoMode (return_mode a)) d)
   }"

definition RS48_internDecodeMsopPkt :: "'r::floor_ceiling mk_iter \<Rightarrow> 'r host \<Rightarrow> bytes \<Rightarrow> ('r, 'a) DecoderMech_scheme
    \<Rightarrow> (bool \<times> bytes \<times> ('r, 'a) DecoderMech_scheme) option" where
  "RS48_internDecodeMsopPkt iter h pkt d = do {
     d \<leftarrow> temp_be 8 pkt d;
     (pkt_ts, pkt) \<leftarrow> time_utc h 10 pkt d;
     mech_decode h RS48_layout iter False pkt pkt_ts d
   }"

definition RS48_decodeMsopPkt :: "'r::floor_ceiling host \<Rightarrow> bytes \<Rightarrow> ('r, 'a) DecoderMech_scheme
    \<Rightarrow> (bool \<times> bytes \<times> ('r, 'a) DecoderMech_scheme) option" where
  "RS48_decodeMsopPkt h pkt d =
     (if echo_mode d = ECHO_SINGLE then RS48_internDecodeMsopPkt SingleReturn h pkt d
      else RS48_internDecodeMsopPkt DualReturn h pkt d)"

definition RS48_isNewFrame :: "bytes \<Rightarrow> ('r, 'a) DecoderMech_scheme \<Rightarrow> (bool \<times> ('r, 'a) DecoderMech_scheme) option" where
  "RS48_isNewFrame pkt d = mech_newFrame RS48_layout pkt [0..<BLOCKS_PER_PKT (const_param d)] d"

section \<open>RSP128\<close>

definition RSP128_layout :: mech_layout where
  "RSP128_layout = mech_plain 80 388 1 (Some ERRCODE_WRONGMSOPBLKID) (\<lambda>chan. chan)"

definition RSP128_firing_tss :: "'r::floor_ceiling list" where
  "RSP128_firing_tss = [
     0, 0, 0, 0, 1.13, 1.13, 1.13, 1.13, 2.13, 2.13, 2.13, 2.13, 3.26, 3.26, 3.26, 3.26,
     4.26, 4.26, 4.26, 4.26, 5.38, 5.38, 5.38, 5.38, 6.38, 6.38, 6.38, 6.38, 7.51, 7.51, 7.51, 7.51,
     8.51, 8.51, 8.51, 8.51, 10.01, 10.01, 10.01, 10.01, 11.38, 11.38, 11.38, 11.38, 13.31, 13.31, 13.31, 13.31,
     15.11, 15.11, 15.11, 15.11, 17.04, 17.04, 17.04, 17.04, 18.85, 18.85, 18.85, 18.85, 21.14, 21.14, 21.14, 21.14,
     21.14, 23.31, 23.31, 23.31, 23.31, 25.61, 25.61, 25.61, 25.61, 27.78, 27.78, 27.78, 27.78, 30.07, 30.07, 30.07,
     30.07, 32.24, 32.24, 32.24, 32.24, 34.54, 34.54, 34.54, 34.54, 36.7, 36.7, 36.7, 36.7, 38.64, 38.64, 38.64,
     38.64, 40.44, 40.44, 40.44, 40.44, 41.94, 41.94, 41.94, 41.94, 43.3, 43.3, 43.3, 43.3, 44.8, 44.8, 44.8,
     44.8, 46.17, 46.17, 46.17, 46.17, 47.66, 47.66, 47.66, 47.66, 49.03, 49.03, 49.03, 49.03, 50.53, 50.53, 53.771]"

definition RSP128_getConstParam :: "'r::floor_ceiling RSDecoderMechConstParam" where
  "RSP128_getConstParam = set_firing 55.56 RSP128_firing_tss
    \<lparr>base = \<lparr>MSOP_LEN = 1248, DIFOP_LEN = 1248, MSOP_ID_LEN = 4, DIFOP_ID_LEN = 8,
       MSOP_ID = [0x55, 0xAA, 0x05, 0x5A, 0, 0, 0, 0],
       DIFOP_ID = [0xA5, 0xFF, 0x00, 0x5A, 0x11, 0x11, 0x55, 0x55],
       BLOCK_ID = [0xFE, 0], LASER_NUM = 128, BLOCKS_PER_PKT = 3, CHANNELS_PER_BLOCK = 128,
       DISTANCE_MIN = 0.4, DISTANCE_MAX = 250, DISTANCE_RES = 0.005, TEMPERATURE_RES = 0.0625,
       IMU_LEN = 0, IMU_ID_LEN = 0, IMU_ID = []\<rparr>,
     RX = 0.02892, RY = - 0.013, RZ = 0, BLOCK_DURATION = 55.56 / 1000000,
     CHAN_TSS = fill128 [], CHAN_AZIS = fill128 []\<rparr>"

definition RSP128_getEchoMode :: "u8 \<Rightarrow> RSEchoMode" where
  "RSP128_getEchoMode mode = (if mode \<in> {0x00, 0x01, 0x02} then ECHO_SINGLE else ECHO_DUAL)"

definition mk_DecoderRSP128 :: "(string \<Rightarrow> 'r::floor_ceiling option) \<Rightarrow> (string \<Rightarrow> string list option) \<Rightarrow> 'r RSDecoderParam
    \<Rightarrow> 'r DecoderMech option" where
  "mk_DecoderRSP128 stof files = mk_DecoderMech stof files RSP128_getConstParam"

definition RSP128DifopPkt :: "bytes \<Rightarrow> AdapterDifopPkt option" where
  "RSP128DifopPkt pkt = do {
     vert \<leftarrow> read_angles pkt 468 128; horiz \<leftarrow> read_angles pkt 852 128;
     read_difop 319 vert horiz pkt
   }"

definition RSP128_decodeDifopPkt :: "'r::floor_ceiling host \<Rightarrow> bytes \<Rightarrow> ('r, 'a) DecoderMech_scheme \<Rightarrow> ('r, 'a) DecoderMech_scheme option" where
  "RSP128_decodeDifopPkt h pkt d = do {
     a \<leftarrow> RSP128DifopPkt pkt;
     d \<leftarrow> decodeDifopCommon h a d;
     Some (set_echo_mode (RSP128_getEchoMode (return_mode a)) d)
   }"

definition RSP128_internDecodeMsopPkt :: "'r::floor_ceiling mk_iter \<Rightarrow> 'r host \<Rightarrow> bytes \<Rightarrow> ('r, 'a) DecoderMech_scheme
    \<Rightarrow> (bool \<times> bytes \<times> ('r, 'a) DecoderMech_scheme) option" where
  "RSP128_internDecodeMsopPkt iter h pkt d = do {
     d \<leftarrow> temp_be 8 pkt d;
     (pkt_ts, pkt) \<leftarrow> time_utc h 10 pkt d;
     mech_decode h RSP128_layout iter False pkt pkt_ts d
   }"

definition RSP128_decodeMsopPkt :: "'r::floor_ceiling host \<Rightarrow> bytes \<Rightarrow> ('r, 'a) DecoderMech_scheme
    \<Rightarrow> (bool \<times> bytes \<times> ('r, 'a) DecoderMech_scheme) option" where
  "RSP128_decodeMsopPkt h pkt d =
     (if echo_mode d = ECHO_SINGLE then RSP128_internDecodeMsopPkt SingleReturn h pkt d
      else RSP128_internDecodeMsopPkt (\<lambda>azs n. ABDualReturn azs) h pkt d)"

definition RSP128_isNewFrame :: "bytes \<Rightarrow> ('r, 'a) DecoderMech_scheme \<Rightarrow> (bool \<times> ('r, 'a) DecoderMech_scheme) option" where
  "RSP128_isNewFrame pkt d = mech_newFrame RSP128_layout pkt [0..<BLOCKS_PER_PKT (const_param d)] d"

section \<open>RSP80\<close>

definition RSP80_layout :: mech_layout where
  "RSP80_layout = mech_plain 80 244 1 (Some ERRCODE_WRONGMSOPBLKID) (\<lambda>chan. chan)"

definition RSP80_firing_tss_80 :: "'r::floor_ceiling list" where
  "RSP80_firing_tss_80 = [
     0, 0, 0, 0, 1.217, 1.217, 1.217, 1.217, 2.434, 2.434, 3.652, 3.652, 3.652, 4.869, 4.869, 6.086,
     6.086, 7.304, 7.304, 8.521, 8.521, 9.739, 9.739, 11.323, 11.323, 12.907, 12.907, 14.924, 14.924, 16.941, 16.941, 16.941,
     16.941, 18.959, 18.959, 18.959, 18.959, 20.976, 20.976, 20.976, 20.976, 23.127, 23.127, 23.127, 23.127, 25.278, 25.278, 25.278,
     25.278, 27.428, 27.428, 27.428, 27.428, 29.579, 29.579, 29.579, 29.579, 31.963, 31.963, 31.963, 31.963, 34.347, 34.347, 34.347,
     34.347, 36.498, 36.498, 36.498, 36.498, 38.648, 38.648, 40.666, 40.666, 42.683, 50.603, 52.187, 52.187, 52.187, 53.771, 53.771]"

definition RSP80_firing_tss_80v :: "'r::floor_ceiling list" where
  "RSP80_firing_tss_80v = [
     0, 0, 0, 0, 1.217, 1.217, 1.217, 1.217, 2.434, 2.434, 2.434, 2.434, 3.652, 3.652, 3.652, 3.652,
     4.869, 4.869, 4.869, 4.869, 6.086, 6.086, 6.086, 6.086, 7.304, 7.304, 7.304, 7.304, 8.521, 8.521, 8.521, 8.521,
     9.739, 9.739, 9.739, 9.739, 11.323, 11.323, 11.323, 11.323, 12.907, 12.907, 12.907, 12.907, 14.924, 14.924, 14.924, 14.924,
     16.941, 16.941, 16.941, 16.941, 18.959, 18.959, 18.959, 18.959, 20.976, 20.976, 20.976, 20.976, 23.127, 23.127, 23.127, 23.127,
     25.278, 25.278, 25.278, 25.278, 27.428, 27.428, 27.428, 27.428, 29.579, 29.579, 29.579, 29.579, 31.963, 31.963, 31.963, 31.963]"

definition RSP80_getConstParam :: "'r::floor_ceiling RSDecoderMechConstParam" where
  "RSP80_getConstParam =
    \<lparr>base = \<lparr>MSOP_LEN = 1248, DIFOP_LEN = 1248, MSOP_ID_LEN = 4, DIFOP_ID_LEN = 8,
       MSOP_ID = [0x55, 0xAA, 0x05, 0x5A, 0, 0, 0, 0],
       DIFOP_ID = [0xA5, 0xFF, 0x00, 0x5A, 0x11, 0x11, 0x55, 0x55],
       BLOCK_ID = [0xFE, 0], LASER_NUM = 80, BLOCKS_PER_PKT = 4, CHANNELS_PER_BLOCK = 80,
       DISTANCE_MIN = 0.4, DISTANCE_MAX = 250, DISTANCE_RES = 0.005, TEMPERATURE_RES = 0.0625,
       IMU_LEN = 0, IMU_ID_LEN = 0, IMU_ID = []\<rparr>,
     RX = 0.02892, RY = - 0.013, RZ = 0, BLOCK_DURATION = 55.56 / 1000000,
     CHAN_TSS = fill128 [], CHAN_AZIS = fill128 []\<rparr>"

definition RSP80_calcParam :: "u8 \<Rightarrow> 'r::floor_ceiling RSDecoderMechConstParam \<Rightarrow> 'r RSDecoderMechConstParam" where
  "RSP80_calcParam md c = set_firing 55.56 (if md = 0x03 then RSP80_firing_tss_80v else RSP80_firing_tss_80) c"

definition RSP80_getEchoMode :: "u8 \<Rightarrow> RSEchoMode" where
  "RSP80_getEchoMode mode = (if mode \<in> {0x00, 0x01, 0x02} then ECHO_SINGLE else ECHO_DUAL)"

definition RSP80DifopPkt :: "bytes \<Rightarrow> AdapterDifopPkt option" where
  "RSP80DifopPkt pkt = do {
     vert \<leftarrow> read_angles pkt 468 128; horiz \<leftarrow> read_angles pkt 852 128;
     read_difop 319 vert horiz pkt
   }"

definition RSP80_decodeDifopPkt :: "'r::floor_ceiling host \<Rightarrow> bytes \<Rightarrow> ('r, 'a) DecoderMech_scheme \<Rightarrow> ('r, 'a) DecoderMech_scheme option" where
  "RSP80_decodeDifopPkt h pkt d = do {
     a \<leftarrow> RSP80DifopPkt pkt;
     d \<leftarrow> decodeDifopCommon h a d;
     Some (set_echo_mode (RSP80_getEchoMode (return_mode a)) d)
   }"

record 'r DecoderRSP80 = "'r DecoderMech" +
  lidar_model :: u8

definition mk_DecoderRSP80 :: "(string \<Rightarrow> 'r::floor_ceiling option) \<Rightarrow> (string \<Rightarrow> string list option) \<Rightarrow> 'r RSDecoderParam
    \<Rightarrow> 'r DecoderRSP80 option" where
  "mk_DecoderRSP80 stof files p = map_option (\<lambda>d. DecoderMech.extend d (DecoderRSP80.fields 0))
     (mk_DecoderMech stof files RSP80_getConstParam p)"

definition RSP80_model :: "bytes \<Rightarrow> ('r::floor_ceiling, 'a) DecoderRSP80_scheme \<Rightarrow> ('r, 'a) DecoderRSP80_scheme option" where
  "RSP80_model pkt d = do {
     md \<leftarrow> read_u8 pkt 31;
     Some (if lidar_model d \<noteq> md
           then d\<lparr>lidar_model := md, mech_const := RSP80_calcParam md (mech_const d)\<rparr> else d)
   }"

definition RSP80_internDecodeMsopPkt :: "'r::floor_ceiling mk_iter \<Rightarrow> 'r host \<Rightarrow> bytes \<Rightarrow> ('r, 'a) DecoderRSP80_scheme
    \<Rightarrow> (bool \<times> bytes \<times> ('r, 'a) DecoderRSP80_scheme) option" where
  "RSP80_internDecodeMsopPkt iter h pkt d = do {
     d \<leftarrow> RSP80_model pkt d;
     d \<leftarrow> temp_be 8 pkt d;
     (pkt_ts, pkt) \<leftarrow> time_utc h 10 pkt d;
     mech_decode h RSP80_layout iter False pkt pkt_ts d
   }"

definition RSP80_decodeMsopPkt :: "'r::floor_ceiling host \<Rightarrow> bytes \<Rightarrow> ('r, 'a) DecoderRSP80_scheme
    \<Rightarrow> (bool \<times> bytes \<times> ('r, 'a) DecoderRSP80_scheme) option" where
  "RSP80_decodeMsopPkt h pkt d =
     (if echo_mode d = ECHO_SINGLE then RSP80_internDecodeMsopPkt SingleReturn h pkt d
      else RSP80_internDecodeMsopPkt DualReturn h pkt d)"

definition RSP80_isNewFrame :: "bytes \<Rightarrow> ('r, 'a) DecoderMech_scheme \<Rightarrow> (bool \<times> ('r, 'a) DecoderMech_scheme) option" where
  "RSP80_isNewFrame pkt d = mech_newFrame RSP80_layout pkt [0..<BLOCKS_PER_PKT (const_param d)] d"

section \<open>RSHELIOS\<close>

definition RSHELIOS_layout :: mech_layout where
  "RSHELIOS_layout = mech_plain 42 100 2 (Some ERRCODE_WRONGMSOPBLKID) (\<lambda>chan. chan)"

definition RSHELIOS_firing_tss :: "'r::floor_ceiling list" where
  "RSHELIOS_firing_tss = [
     0, 1.73, 3.46, 5.19, 6.92, 8.65, 10.38, 12.11, 13.84, 15.57, 17.3, 19.03, 20.76, 22.49, 24.22, 25.95,
     27.68, 29.41, 31.14, 32.87, 34.6, 36.33, 38.06, 39.79, 41.52, 43.25, 44.98, 46.71, 48.44, 50.17, 51.9, 53.63]"

definition RSHELIOS_getConstParam :: "'r::floor_ceiling RSDecoderMechConstParam" where
  "RSHELIOS_getConstParam = set_firing 55.56 RSHELIOS_firing_tss
    \<lparr>base = \<lparr>MSOP_LEN = 1248, DIFOP_LEN = 1248, MSOP_ID_LEN = 4, DIFOP_ID_LEN = 8,
       MSOP_ID = [0x55, 0xAA, 0x05, 0x5A, 0, 0, 0, 0],
       DIFOP_ID = [0xA5, 0xFF, 0x00, 0x5A, 0x11, 0x11, 0x55, 0x55],
       BLOCK_ID = [0xFF, 0xEE], LASER_NUM = 32, BLOCKS_PER_PKT = 12, CHANNELS_PER_BLOCK = 32,
       DISTANCE_MIN = 0.1, DISTANCE_MAX = 180, DISTANCE_RES = 0.0025, TEMPERATURE_RES = 0.0625,
       IMU_LEN = 0, IMU_ID_LEN = 0, IMU_ID = []\<rparr>,
     RX = 0.03498, RY = - 0.015, RZ = 0, BLOCK_DURATION = 55.56 / 1000000,
     CHAN_TSS = fill128 [], CHAN_AZIS = fill128 []\<rparr>"

definition RSHELIOS_getEchoMode :: "u8 \<Rightarrow> RSEchoMode" where
  "RSHELIOS_getEchoMode mode = (if mode = 0x00 then ECHO_DUAL else ECHO_SINGLE)"

definition mk_DecoderRSHELIOS :: "(string \<Rightarrow> 'r::floor_ceiling option) \<Rightarrow> (string \<Rightarrow> string list option) \<Rightarrow> 'r RSDecoderParam
    \<Rightarrow> 'r DecoderMech option" where
  "mk_DecoderRSHELIOS stof files = mk_DecoderMech stof files RSHELIOS_getConstParam"

definition RSHELIOSDifopPkt :: "bytes \<Rightarrow> AdapterDifopPkt option" where
  "RSHELIOSDifopPkt pkt = do {
     vert \<leftarrow> read_angles pkt 468 32; horiz \<leftarrow> read_angles pkt 564 32;
     read_difop 317 vert horiz pkt
   }"

definition RSHELIOS_decodeDifopPkt :: "'r::floor_ceiling host \<Rightarrow> bytes \<Rightarrow> ('r, 'a) DecoderMech_scheme \<Rightarrow> ('r, 'a) DecoderMech_scheme option" where
  "RSHELIOS_decodeDifopPkt h pkt d = do {
     a \<leftarrow> RSHELIOSDifopPkt pkt;
     d \<leftarrow> decodeDifopCommon h a d;
     Some (set_echo_mode (RSHELIOS_getEchoMode (return_mode a)) d)
   }"

definition RSHELIOS_internDecodeMsopPkt :: "'r::floor_ceiling mk_iter \<Rightarrow> 'r host \<Rightarrow> bytes \<Rightarrow> ('r, 'a) DecoderMech_scheme
    \<Rightarrow> (bool \<times> bytes \<times> ('r, 'a) DecoderMech_scheme) option" where
  "RSHELIOS_internDecodeMsopPkt iter h pkt d = do {
     d \<leftarrow> temp_le 38 pkt d;
     (pkt_ts, pkt) \<leftarrow> time_utc h 20 pkt d;
     mech_decode h RSHELIOS_layout iter False pkt pkt_ts d
   }"

definition RSHELIOS_decodeMsopPkt :: "'r::floor_ceiling host \<Rightarrow> bytes \<Rightarrow> ('r, 'a) DecoderMech_scheme
    \<Rightarrow> (bool \<times> bytes \<times> ('r, 'a) DecoderMech_scheme) option" where
  "RSHELIOS_decodeMsopPkt h pkt d =
     (if echo_mode d = ECHO_SINGLE then RSHELIOS_internDecodeMsopPkt SingleReturn h pkt d
      else RSHELIOS_internDecodeMsopPkt DualReturn h pkt d)"

definition RSHELIOS_isNewFrame :: "bytes \<Rightarrow> ('r, 'a) DecoderMech_scheme \<Rightarrow> (bool \<times> ('r, 'a) DecoderMech_scheme) option" where
  "RSHELIOS_isNewFrame pkt d = mech_newFrame RSHELIOS_layout pkt [0..<BLOCKS_PER_PKT (const_param d)] d"

section \<open>RSHELIOS-16P\<close>

definition RSHELIOS_16P_layout :: mech_layout where
  "RSHELIOS_16P_layout = mech_plain 42 100 2 (Some ERRCODE_WRONGMSOPBLKID) (\<lambda>chan. chan mod 16)"

definition RSHELIOS_16P_getConstParam :: "'r::floor_ceiling RSDecoderMechConstParam" where
  "RSHELIOS_16P_getConstParam =
    \<lparr>base = \<lparr>MSOP_LEN = 1248, DIFOP_LEN = 1248, MSOP_ID_LEN = 4, DIFOP_ID_LEN = 8,
       MSOP_ID = [0x55, 0xAA, 0x05, 0x5A, 0, 0, 0, 0],
       DIFOP_ID = [0xA5, 0xFF, 0x00, 0x5A, 0x11, 0x11, 0x55, 0x55],
       BLOCK_ID = [0xFF, 0xEE], LASER_NUM = 16, BLOCKS_PER_PKT = 12, CHANNELS_PER_BLOCK = 32,
       DISTANCE_MIN = 0.1, DISTANCE_MAX = 180, DISTANCE_RES = 0.0025, TEMPERATURE_RES = 0.0625,
       IMU_LEN = 0, IMU_ID_LEN = 0, IMU_ID = []\<rparr>,
     RX = 0.03498, RY = - 0.015, RZ = 0, BLOCK_DURATION = 55.56 / 1000000,
     CHAN_TSS = fill128 [], CHAN_AZIS = fill128 []\<rparr>"

definition RSHELIOS_16P_calcParam :: "('r::floor_ceiling, 'a) DecoderMech_scheme \<Rightarrow> ('r, 'a) DecoderMech_scheme" where
  "RSHELIOS_16P_calcParam d =
     (let calc = (if echo_mode d = ECHO_SINGLE then Rs16Single_calcChannel else Rs16Dual_calcChannel)
      in d\<lparr>mech_const := calc 55.56 RSHELIOS_firing_tss (mech_const d)\<rparr>)"

definition RSHELIOS_16P_getEchoMode :: "u8 \<Rightarrow> RSEchoMode" where
  "RSHELIOS_16P_getEchoMode mode = (if mode = 0x00 then ECHO_DUAL else ECHO_SINGLE)"

definition mk_DecoderRSHELIOS_16P :: "(string \<Rightarrow> 'r::floor_ceiling option) \<Rightarrow> (string \<Rightarrow> string list option) \<Rightarrow> 'r RSDecoderParam
    \<Rightarrow> 'r DecoderMech option" where
  "mk_DecoderRSHELIOS_16P stof files p = do {
     d \<leftarrow> mk_DecoderMech stof files RSHELIOS_16P_getConstParam p;
     Some (RSHELIOS_16P_calcParam (d\<lparr>packet_duration := BLOCK_DURATION (mech_const d) * of_nat (BLOCKS_PER_PKT (const_param d)) * 2\<rparr>))
   }"

definition RSHELIOS_16P_decodeDifopPkt :: "'r::floor_ceiling host \<Rightarrow> bytes \<Rightarrow> ('r, 'a) DecoderMech_scheme \<Rightarrow> ('r, 'a) DecoderMech_scheme option" where
  "RSHELIOS_16P_decodeDifopPkt h pkt d = do {
     a \<leftarrow> RSHELIOSDifopPkt pkt;
     d \<leftarrow> decodeDifopCommon h a d;
     let mode = RSHELIOS_16P_getEchoMode (return_mode a);
     Some (if echo_mode d \<noteq> mode
           then RSHELIOS_16P_calcParam (d\<lparr>echo_mode := mode,
             split_blks_per_frame := (if mode = ECHO_DUAL then blks_per_frame d else drop_bit 1 (blks_per_frame d))\<rparr>)
           else d)
   }"

definition RSHELIOS_16P_internDecodeMsopPkt :: "'r::floor_ceiling mk_iter \<Rightarrow> 'r host \<Rightarrow> bytes \<Rightarrow> ('r, 'a) DecoderMech_scheme
    \<Rightarrow> (bool \<times> bytes \<times> ('r, 'a) DecoderMech_scheme) option" where
  "RSHELIOS_16P_internDecodeMsopPkt iter h pkt d = do {
     d \<leftarrow> temp_le 38 pkt d;
     (pkt_ts, pkt) \<leftarrow> time_utc h 20 pkt d;
     mech_decode h RSHELIOS_16P_layout iter False pkt pkt_ts d
   }"

definition RSHELIOS_16P_decodeMsopPkt :: "'r::floor_ceiling host \<Rightarrow> bytes \<Rightarrow> ('r, 'a) DecoderMech_scheme
    \<Rightarrow> (bool \<times> bytes \<times> ('r, 'a) DecoderMech_scheme) option" where
  "RSHELIOS_16P_decodeMsopPkt h pkt d =
     (if echo_mode d = ECHO_SINGLE then RSHELIOS_16P_internDecodeMsopPkt Rs16SingleReturn h pkt d
      else RSHELIOS_16P_internDecodeMsopPkt Rs16DualReturn h pkt d)"

definition RSHELIOS_16P_isNewFrame :: "bytes \<Rightarrow> ('r, 'a) DecoderMech_scheme \<Rightarrow> (bool \<times> ('r, 'a) DecoderMech_scheme) option" where
  "RSHELIOS_16P_isNewFrame pkt d = mech_newFrame RSHELIOS_16P_layout pkt [0..<BLOCKS_PER_PKT (const_param d)] d"

section \<open>The layouts and iterators keep the contract\<close>

lemma blank_iter_length: "length (az_diffs blank_iter) = 16" "length (tss blank_iter) = 16"
  by (simp_all add: blank_iter_def)

lemma stride_iter:
  assumes "length azs = n" and "0 < k" and "n = k * m" and "0 < m" and "n \<le> MAX_BLOCKS_PER_PKT"
  shows "\<exists>iter. stride_loop k n D A F azs 0 0 blank_iter = Some iter \<and> length (az_diffs iter) = MAX_BLOCKS_PER_PKT \<and>
    length (tss iter) = MAX_BLOCKS_PER_PKT"
  using stride_loop_total [OF assms(2,3,5), of azs 0 blank_iter D A F 0] assms(1,4) by (simp add: blank_iter_length)

lemma iters_total:
  assumes "length azs = n" and "0 < n" and "n \<le> MAX_BLOCKS_PER_PKT"
  shows "\<exists>iter. SingleReturn azs n D A F blank_iter = Some iter \<and> length (az_diffs iter) = 16 \<and> length (tss iter) = 16"
    "even n \<Longrightarrow> \<exists>iter. DualReturn azs n D A F blank_iter = Some iter \<and> length (az_diffs iter) = 16 \<and> length (tss iter) = 16"
    "\<exists>iter. Rs16SingleReturn azs n D A F blank_iter = Some iter \<and> length (az_diffs iter) = 16 \<and> length (tss iter) = 16"
    "\<exists>iter. Rs16DualReturn azs n D A F blank_iter = Some iter \<and> length (az_diffs iter) = 16 \<and> length (tss iter) = 16"
proof -
  show "\<exists>iter. DualReturn azs n D A F blank_iter = Some iter \<and> length (az_diffs iter) = 16 \<and> length (tss iter) = 16" if "even n"
  proof -
    from that obtain k where k: "n = 2 * k" by blast
    then have "0 < k" using assms(2) by simp
    from stride_iter [OF assms(1) _ k this assms(3)] show ?thesis by (simp add: DualReturn_def)
  qed
qed (use stride_iter [OF assms(1) _ _ assms(2,3), of 1] in
  \<open>simp_all add: SingleReturn_def Rs16SingleReturn_def Rs16DualReturn_def\<close>)

lemma AB_total:
  assumes "length azs = 3"
  shows "\<exists>iter. ABDualReturn azs D A F blank_iter = Some iter \<and> length (az_diffs iter) = 16 \<and> length (tss iter) = 16"
  using assms
  by (auto simp: ABDualReturn_def blank_iter_def put_blocks_def wr_def Let_def split: prod.split)

lemmas mech_layouts = RS16_layout_def RS32_layout_def RSBP_layout_def RS128_layout_def RS80_layout_def RS48_layout_def
  RSP128_layout_def RSP80_layout_def RSP48_layout_def RSHELIOS_layout_def RSHELIOS_16P_layout_def mech_plain_def

lemmas mech_consts = RS16_getConstParam_def RS32_getConstParam_def RSBP_getConstParam_def RS128_getConstParam_def
  RS80_getConstParam_def RS48_getConstParam_def RSP128_getConstParam_def RSP80_getConstParam_def
  RSP48_getConstParam_def RSHELIOS_getConstParam_def RSHELIOS_16P_getConstParam_def set_firing_def

interpretation rs16_single: mech_lidar RS16_layout "base RS16_getConstParam :: 'r::floor_ceiling RSDecoderConstParam" "Rs16SingleReturn"
  by unfold_locales (simp_all add: mech_layouts mech_consts iters_total AB_total)

interpretation rs16_dual: mech_lidar RS16_layout "base RS16_getConstParam :: 'r::floor_ceiling RSDecoderConstParam" "Rs16DualReturn"
  by unfold_locales (simp_all add: mech_layouts mech_consts iters_total AB_total)

lemma RS16_msop:
  assumes "mech_inv (base RS16_getConstParam) d" and "length pkt = MSOP_LEN (base RS16_getConstParam :: 'r::floor_ceiling RSDecoderConstParam)"
  shows "\<exists>r. RS16_decodeMsopPkt h pkt d = Some r \<and> mech_result RS16_layout (base RS16_getConstParam)
    (if echo_mode d = ECHO_SINGLE then Rs16SingleReturn else Rs16DualReturn) False h pkt (d :: ('r, 'a) DecoderMech_scheme) r"
proof -
  have len: "20 + 10 \<le> length pkt" "38 + 2 \<le> length pkt" using assms(2) by (simp_all add: mech_consts)
  obtain x where x: "temp_le 38 pkt d = Some (d\<lparr>temperature := x, is_get_temperature := True\<rparr>)"
    using temp_total(1) [OF len(2)] by blast
  obtain t pkt' where t: "time_ymd h 20 pkt (d\<lparr>temperature := x, is_get_temperature := True\<rparr>) = Some (t, pkt')"
    "length pkt' = length pkt" "drop 42 pkt' = drop 42 pkt"
    using pkt_time_total(2) [OF len(1), of 42] by fastforce
  have "drop (blk_off RS16_layout) pkt' = drop (blk_off RS16_layout) pkt" using t(3) by (simp add: mech_layouts)
  from rs16_single.decode_result [OF assms t(2) this, of h False t x]
    rs16_dual.decode_result [OF assms t(2) this, of h False t x] x t(1)
  show ?thesis by (auto simp: RS16_decodeMsopPkt_def RS16_internDecodeMsopPkt_def)
qed

interpretation rs32_single: mech_lidar RS32_layout "base RS32_getConstParam :: 'r::floor_ceiling RSDecoderConstParam" "SingleReturn"
  by unfold_locales (simp_all add: mech_layouts mech_consts iters_total AB_total)

interpretation rs32_dual: mech_lidar RS32_layout "base RS32_getConstParam :: 'r::floor_ceiling RSDecoderConstParam" "DualReturn"
  by unfold_locales (simp_all add: mech_layouts mech_consts iters_total AB_total)

lemma RS32_msop:
  assumes "mech_inv (base RS32_getConstParam) d" and "length pkt = MSOP_LEN (base RS32_getConstParam :: 'r::floor_ceiling RSDecoderConstParam)"
  shows "\<exists>r. RS32_decodeMsopPkt h pkt d = Some r \<and> mech_result RS32_layout (base RS32_getConstParam)
    (if echo_mode d = ECHO_SINGLE then SingleReturn else DualReturn) False h pkt (d :: ('r, 'a) DecoderMech_scheme) r"
proof -
  have len: "20 + 10 \<le> length pkt" "38 + 2 \<le> length pkt" using assms(2) by (simp_all add: mech_consts)
  obtain x where x: "temp_le 38 pkt d = Some (d\<lparr>temperature := x, is_get_temperature := True\<rparr>)"
    using temp_total(1) [OF len(2)] by blast
  obtain t pkt' where t: "time_ymd h 20 pkt (d\<lparr>temperature := x, is_get_temperature := True\<rparr>) = Some (t, pkt')"
    "length pkt' = length pkt" "drop 42 pkt' = drop 42 pkt"
    using pkt_time_total(2) [OF len(1), of 42] by fastforce
  have "drop (blk_off RS32_layout) pkt' = drop (blk_off RS32_layout) pkt" using t(3) by (simp add: mech_layouts)
  from rs32_single.decode_result [OF assms t(2) this, of h False t x]
    rs32_dual.decode_result [OF assms t(2) this, of h False t x] x t(1)
  show ?thesis by (auto simp: RS32_decodeMsopPkt_def RS32_internDecodeMsopPkt_def)
qed

interpretation rsbp_single: mech_lidar RSBP_layout "base RSBP_getConstParam :: 'r::floor_ceiling RSDecoderConstParam" "SingleReturn"
  by unfold_locales (simp_all add: mech_layouts mech_consts iters_total AB_total)

interpretation rsbp_dual: mech_lidar RSBP_layout "base RSBP_getConstParam :: 'r::floor_ceiling RSDecoderConstParam" "DualReturn"
  by unfold_locales (simp_all add: mech_layouts mech_consts iters_total AB_total)

interpretation rs128_single: mech_lidar RS128_layout "base RS128_getConstParam :: 'r::floor_ceiling RSDecoderConstParam" "SingleReturn"
  by unfold_locales (simp_all add: mech_layouts mech_consts iters_total AB_total)

interpretation rs128_dual: mech_lidar RS128_layout "base RS128_getConstParam :: 'r::floor_ceiling RSDecoderConstParam" "\<lambda>azs n. ABDualReturn azs"
  by unfold_locales (simp_all add: mech_layouts mech_consts iters_total AB_total)

lemma RS128_msop:
  assumes "mech_inv (base RS128_getConstParam) d" and "length pkt = MSOP_LEN (base RS128_getConstParam :: 'r::floor_ceiling RSDecoderConstParam)"
  shows "\<exists>r. RS128_decodeMsopPkt h pkt d = Some r \<and> mech_result RS128_layout (base RS128_getConstParam)
    (if echo_mode d = ECHO_SINGLE then SingleReturn else (\<lambda>azs n. ABDualReturn azs)) False h pkt (d :: ('r, 'a) DecoderMech_scheme) r"
proof -
  have len: "10 + 10 \<le> length pkt" "8 + 2 \<le> length pkt" using assms(2) by (simp_all add: mech_consts)
  obtain x where x: "temp_be 8 pkt d = Some (d\<lparr>temperature := x, is_get_temperature := True\<rparr>)"
    using temp_total(2) [OF len(2)] by blast
  obtain t pkt' where t: "time_utc h 10 pkt (d\<lparr>temperature := x, is_get_temperature := True\<rparr>) = Some (t, pkt')"
    "length pkt' = length pkt" "drop 80 pkt' = drop 80 pkt"
    using pkt_time_total(1) [OF len(1), of 80] by fastforce
  have "drop (blk_off RS128_layout) pkt' = drop (blk_off RS128_layout) pkt" using t(3) by (simp add: mech_layouts)
  from rs128_single.decode_result [OF assms t(2) this, of h False t x]
    rs128_dual.decode_result [OF assms t(2) this, of h False t x] x t(1)
  show ?thesis by (auto simp: RS128_decodeMsopPkt_def RS128_internDecodeMsopPkt_def)
qed

interpretation rs80_single: mech_lidar RS80_layout "base RS80_getConstParam :: 'r::floor_ceiling RSDecoderConstParam" "SingleReturn"
  by unfold_locales (simp_all add: mech_layouts mech_consts iters_total AB_total)

interpretation rs80_dual: mech_lidar RS80_layout "base RS80_getConstParam :: 'r::floor_ceiling RSDecoderConstParam" "DualReturn"
  by unfold_locales (simp_all add: mech_layouts mech_consts iters_total AB_total)

lemma RS80_msop:
  assumes "mech_inv (base RS80_getConstParam) d" and "length pkt = MSOP_LEN (base RS80_getConstParam :: 'r::floor_ceiling RSDecoderConstParam)"
  shows "\<exists>r. RS80_decodeMsopPkt h pkt d = Some r \<and> mech_result RS80_layout (base RS80_getConstParam)
    (if echo_mode d = ECHO_SINGLE then SingleReturn else DualReturn) False h pkt (d :: ('r, 'a) DecoderMech_scheme) r"
proof -
  have len: "10 + 10 \<le> length pkt" "8 + 2 \<le> length pkt" using assms(2) by (simp_all add: mech_consts)
  obtain x where x: "temp_be 8 pkt d = Some (d\<lparr>temperature := x, is_get_temperature := True\<rparr>)"
    using temp_total(2) [OF len(2)] by blast
  obtain t pkt' where t: "time_utc h 10 pkt (d\<lparr>temperature := x, is_get_temperature := True\<rparr>) = Some (t, pkt')"
    "length pkt' = length pkt" "drop 80 pkt' = drop 80 pkt"
    using pkt_time_total(1) [OF len(1), of 80] by fastforce
  have "drop (blk_off RS80_layout) pkt' = drop (blk_off RS80_layout) pkt" using t(3) by (simp add: mech_layouts)
  from rs80_single.decode_result [OF assms t(2) this, of h False t x]
    rs80_dual.decode_result [OF assms t(2) this, of h False t x] x t(1)
  show ?thesis by (auto simp: RS80_decodeMsopPkt_def RS80_internDecodeMsopPkt_def)
qed

interpretation rs48_single: mech_lidar RS48_layout "base RS48_getConstParam :: 'r::floor_ceiling RSDecoderConstParam" "SingleReturn"
  by unfold_locales (simp_all add: mech_layouts mech_consts iters_total AB_total)

interpretation rs48_dual: mech_lidar RS48_layout "base RS48_getConstParam :: 'r::floor_ceiling RSDecoderConstParam" "DualReturn"
  by unfold_locales (simp_all add: mech_layouts mech_consts iters_total AB_total)

lemma RS48_msop:
  assumes "mech_inv (base RS48_getConstParam) d" and "length pkt = MSOP_LEN (base RS48_getConstParam :: 'r::floor_ceiling RSDecoderConstParam)"
  shows "\<exists>r. RS48_decodeMsopPkt h pkt d = Some r \<and> mech_result RS48_layout (base RS48_getConstParam)
    (if echo_mode d = ECHO_SINGLE then SingleReturn else DualReturn) False h pkt (d :: ('r, 'a) DecoderMech_scheme) r"
proof -
  have len: "10 + 10 \<le> length pkt" "8 + 2 \<le> length pkt" using assms(2) by (simp_all add: mech_consts)
  obtain x where x: "temp_be 8 pkt d = Some (d\<lparr>temperature := x, is_get_temperature := True\<rparr>)"
    using temp_total(2) [OF len(2)] by blast
  obtain t pkt' where t: "time_utc h 10 pkt (d\<lparr>temperature := x, is_get_temperature := True\<rparr>) = Some (t, pkt')"
    "length pkt' = length pkt" "drop 80 pkt' = drop 80 pkt"
    using pkt_time_total(1) [OF len(1), of 80] by fastforce
  have "drop (blk_off RS48_layout) pkt' = drop (blk_off RS48_layout) pkt" using t(3) by (simp add: mech_layouts)
  from rs48_single.decode_result [OF assms t(2) this, of h False t x]
    rs48_dual.decode_result [OF assms t(2) this, of h False t x] x t(1)
  show ?thesis by (auto simp: RS48_decodeMsopPkt_def RS48_internDecodeMsopPkt_def)
qed

interpretation rsp128_single: mech_lidar RSP128_layout "base RSP128_getConstParam :: 'r::floor_ceiling RSDecoderConstParam" "SingleReturn"
  by unfold_locales (simp_all add: mech_layouts mech_consts iters_total AB_total)

interpretation rsp128_dual: mech_lidar RSP128_layout "base RSP128_getConstParam :: 'r::floor_ceiling RSDecoderConstParam" "\<lambda>azs n. ABDualReturn azs"
  by unfold_locales (simp_all add: mech_layouts mech_consts iters_total AB_total)

lemma RSP128_msop:
  assumes "mech_inv (base RSP128_getConstParam) d" and "length pkt = MSOP_LEN (base RSP128_getConstParam :: 'r::floor_ceiling RSDecoderConstParam)"
  shows "\<exists>r. RSP128_decodeMsopPkt h pkt d = Some r \<and> mech_result RSP128_layout (base RSP128_getConstParam)
    (if echo_mode d = ECHO_SINGLE then SingleReturn else (\<lambda>azs n. ABDualReturn azs)) False h pkt (d :: ('r, 'a) DecoderMech_scheme) r"
proof -
  have len: "10 + 10 \<le> length pkt" "8 + 2 \<le> length pkt" using assms(2) by (simp_all add: mech_consts)
  obtain x where x: "temp_be 8 pkt d = Some (d\<lparr>temperature := x, is_get_temperature := True\<rparr>)"
    using temp_total(2) [OF len(2)] by blast
  obtain t pkt' where t: "time_utc h 10 pkt (d\<lparr>temperature := x, is_get_temperature := True\<rparr>) = Some (t, pkt')"
    "length pkt' = length pkt" "drop 80 pkt' = drop 80 pkt"
    using pkt_time_total(1) [OF len(1), of 80] by fastforce
  have "drop (blk_off RSP128_layout) pkt' = drop (blk_off RSP128_layout) pkt" using t(3) by (simp add: mech_layouts)
  from rsp128_single.decode_result [OF assms t(2) this, of h False t x]
    rsp128_dual.decode_result [OF assms t(2) this, of h False t x] x t(1)
  show ?thesis by (auto simp: RSP128_decodeMsopPkt_def RSP128_internDecodeMsopPkt_def)
qed

interpretation rsp80_single: mech_lidar RSP80_layout "base RSP80_getConstParam :: 'r::floor_ceiling RSDecoderConstParam" "SingleReturn"
  by unfold_locales (simp_all add: mech_layouts mech_consts iters_total AB_total)

interpretation rsp80_dual: mech_lidar RSP80_layout "base RSP80_getConstParam :: 'r::floor_ceiling RSDecoderConstParam" "DualReturn"
  by unfold_locales (simp_all add: mech_layouts mech_consts iters_total AB_total)

interpretation rsp48_single: mech_lidar RSP48_layout "base RSP48_getConstParam :: 'r::floor_ceiling RSDecoderConstParam" "SingleReturn"
  by unfold_locales (simp_all add: mech_layouts mech_consts iters_total AB_total)

interpretation rsp48_dual: mech_lidar RSP48_layout "base RSP48_getConstParam :: 'r::floor_ceiling RSDecoderConstParam" "DualReturn"
  by unfold_locales (simp_all add: mech_layouts mech_consts iters_total AB_total)

lemma RSP48_msop:
  assumes "mech_inv (base RSP48_getConstParam) d" and "length pkt = MSOP_LEN (base RSP48_getConstParam :: 'r::floor_ceiling RSDecoderConstParam)"
  shows "\<exists>r. RSP48_decodeMsopPkt h pkt d = Some r \<and> mech_result RSP48_layout (base RSP48_getConstParam)
    (if echo_mode d = ECHO_SINGLE then SingleReturn else DualReturn) False h pkt (d :: ('r, 'a) DecoderMech_scheme) r"
proof -
  have len: "10 + 10 \<le> length pkt" "8 + 2 \<le> length pkt" using assms(2) by (simp_all add: mech_consts)
  obtain x where x: "temp_be 8 pkt d = Some (d\<lparr>temperature := x, is_get_temperature := True\<rparr>)"
    using temp_total(2) [OF len(2)] by blast
  obtain t pkt' where t: "time_utc h 10 pkt (d\<lparr>temperature := x, is_get_temperature := True\<rparr>) = Some (t, pkt')"
    "length pkt' = length pkt" "drop 80 pkt' = drop 80 pkt"
    using pkt_time_total(1) [OF len(1), of 80] by fastforce
  have "drop (blk_off RSP48_layout) pkt' = drop (blk_off RSP48_layout) pkt" using t(3) by (simp add: mech_layouts)
  from rsp48_single.decode_result [OF assms t(2) this, of h False t x]
    rsp48_dual.decode_result [OF assms t(2) this, of h False t x] x t(1)
  show ?thesis by (auto simp: RSP48_decodeMsopPkt_def RSP48_internDecodeMsopPkt_def)
qed

interpretation rshelios_single: mech_lidar RSHELIOS_layout "base RSHELIOS_getConstParam :: 'r::floor_ceiling RSDecoderConstParam" "SingleReturn"
  by unfold_locales (simp_all add: mech_layouts mech_consts iters_total AB_total)

interpretation rshelios_dual: mech_lidar RSHELIOS_layout "base RSHELIOS_getConstParam :: 'r::floor_ceiling RSDecoderConstParam" "DualReturn"
  by unfold_locales (simp_all add: mech_layouts mech_consts iters_total AB_total)

lemma RSHELIOS_msop:
  assumes "mech_inv (base RSHELIOS_getConstParam) d" and "length pkt = MSOP_LEN (base RSHELIOS_getConstParam :: 'r::floor_ceiling RSDecoderConstParam)"
  shows "\<exists>r. RSHELIOS_decodeMsopPkt h pkt d = Some r \<and> mech_result RSHELIOS_layout (base RSHELIOS_getConstParam)
    (if echo_mode d = ECHO_SINGLE then SingleReturn else DualReturn) False h pkt (d :: ('r, 'a) DecoderMech_scheme) r"
proof -
  have len: "20 + 10 \<le> length pkt" "38 + 2 \<le> length pkt" using assms(2) by (simp_all add: mech_consts)
  obtain x where x: "temp_le 38 pkt d = Some (d\<lparr>temperature := x, is_get_temperature := True\<rparr>)"
    using temp_total(1) [OF len(2)] by blast
  obtain t pkt' where t: "time_utc h 20 pkt (d\<lparr>temperature := x, is_get_temperature := True\<rparr>) = Some (t, pkt')"
    "length pkt' = length pkt" "drop 42 pkt' = drop 42 pkt"
    using pkt_time_total(1) [OF len(1), of 42] by fastforce
  have "drop (blk_off RSHELIOS_layout) pkt' = drop (blk_off RSHELIOS_layout) pkt" using t(3) by (simp add: mech_layouts)
  from rshelios_single.decode_result [OF assms t(2) this, of h False t x]
    rshelios_dual.decode_result [OF assms t(2) this, of h False t x] x t(1)
  show ?thesis by (auto simp: RSHELIOS_decodeMsopPkt_def RSHELIOS_internDecodeMsopPkt_def)
qed

interpretation rshelios16p_single: mech_lidar RSHELIOS_16P_layout "base RSHELIOS_16P_getConstParam :: 'r::floor_ceiling RSDecoderConstParam" "Rs16SingleReturn"
  by unfold_locales (simp_all add: mech_layouts mech_consts iters_total AB_total)

interpretation rshelios16p_dual: mech_lidar RSHELIOS_16P_layout "base RSHELIOS_16P_getConstParam :: 'r::floor_ceiling RSDecoderConstParam" "Rs16DualReturn"
  by unfold_locales (simp_all add: mech_layouts mech_consts iters_total AB_total)

lemma RSHELIOS_16P_msop:
  assumes "mech_inv (base RSHELIOS_16P_getConstParam) d" and "length pkt = MSOP_LEN (base RSHELIOS_16P_getConstParam :: 'r::floor_ceiling RSDecoderConstParam)"
  shows "\<exists>r. RSHELIOS_16P_decodeMsopPkt h pkt d = Some r \<and> mech_result RSHELIOS_16P_layout (base RSHELIOS_16P_getConstParam)
    (if echo_mode d = ECHO_SINGLE then Rs16SingleReturn else Rs16DualReturn) False h pkt (d :: ('r, 'a) DecoderMech_scheme) r"
proof -
  have len: "20 + 10 \<le> length pkt" "38 + 2 \<le> length pkt" using assms(2) by (simp_all add: mech_consts)
  obtain x where x: "temp_le 38 pkt d = Some (d\<lparr>temperature := x, is_get_temperature := True\<rparr>)"
    using temp_total(1) [OF len(2)] by blast
  obtain t pkt' where t: "time_utc h 20 pkt (d\<lparr>temperature := x, is_get_temperature := True\<rparr>) = Some (t, pkt')"
    "length pkt' = length pkt" "drop 42 pkt' = drop 42 pkt"
    using pkt_time_total(1) [OF len(1), of 42] by fastforce
  have "drop (blk_off RSHELIOS_16P_layout) pkt' = drop (blk_off RSHELIOS_16P_layout) pkt" using t(3) by (simp add: mech_layouts)
  from rshelios16p_single.decode_result [OF assms t(2) this, of h False t x]
    rshelios16p_dual.decode_result [OF assms t(2) this, of h False t x] x t(1)
  show ?thesis by (auto simp: RSHELIOS_16P_decodeMsopPkt_def RSHELIOS_16P_internDecodeMsopPkt_def)
qed

lemma set_firing_length: "length f \<le> 128 \<Longrightarrow> length (CHAN_TSS (set_firing b f c)) = 128 \<and> length (CHAN_AZIS (set_firing b f c)) = 128"
  by (simp add: set_firing_def fill128_def)

lemma RSBP_v4_length: "length (CHAN_TSS (set_firing b RSBP_v4_firing_tss c)) = 128" "length (CHAN_AZIS (set_firing b RSBP_v4_firing_tss c)) = 128"
  using set_firing_length [of RSBP_v4_firing_tss b c] by (simp_all add: RSBP_v4_firing_tss_def)

lemma RSP80_calc_length: "length (CHAN_TSS (RSP80_calcParam m c)) = 128" "length (CHAN_AZIS (RSP80_calcParam m c)) = 128"
  unfolding RSP80_calcParam_def
  by (simp_all add: set_firing_length RSP80_firing_tss_80_def RSP80_firing_tss_80v_def)

lemma mech_inv_update:
  assumes "mech_inv c d" and "length (CHAN_TSS k) = 128" and "length (CHAN_AZIS k) = 128"
  shows "mech_inv c (d\<lparr>mech_const := k\<rparr>)" "mech_inv c (d\<lparr>const_param := const_param d\<lparr>DISTANCE_RES := x\<rparr>, mech_const := k\<rparr>)"
proof -
  obtain y where "const_param d = c\<lparr>DISTANCE_RES := y\<rparr>" using assms(1) unfolding mech_inv_def by blast
  then show "mech_inv c (d\<lparr>mech_const := k\<rparr>)" "mech_inv c (d\<lparr>const_param := const_param d\<lparr>DISTANCE_RES := x\<rparr>, mech_const := k\<rparr>)"
    using assms by (simp_all add: mech_inv_def)
qed

lemma mech_inv_more [simp]:
  "mech_inv c (d\<lparr>isFirstPkt := b\<rparr>) = mech_inv c d" "mech_inv c (d\<lparr>isBpV4 := b\<rparr>) = mech_inv c d"
  "mech_inv c (e\<lparr>lidar_model := x\<rparr>) = mech_inv c e"
  by (simp_all add: mech_inv_def)

lemma RSBP_first:
  assumes "mech_inv (base RSBP_getConstParam) d" and "length pkt = MSOP_LEN (base RSBP_getConstParam :: 'r::floor_ceiling RSDecoderConstParam)"
  obtains d1 :: "('r::floor_ceiling, 'a) DecoderRSBP_scheme" where "RSBP_first_packet pkt d = Some d1" "mech_inv (base RSBP_getConstParam) d1"
    "clouds_ok d1 = clouds_ok d" "frames d1 = frames d" "bCheckMsopLen d1 = bCheckMsopLen d" "bCheckDifopLen d1 = bCheckDifopLen d"
    "echo_mode d1 = echo_mode d" "reversal d1 = reversal d"
proof -
  obtain x y where "read_u8 pkt 31 = Some x" "read_u8 pkt 32 = Some y"
    using assms(2) by (simp add: read_u8_def rd_def mech_consts)
  then have "RSBP_first_packet pkt d \<noteq> None" by (simp add: RSBP_first_packet_def Let_def)
  then obtain d1 where d1: "RSBP_first_packet pkt d = Some d1" by blast
  show thesis
    by (rule that [OF d1])
      (use assms(1) d1 in \<open>auto simp: RSBP_first_packet_def clouds_ok_def frames_def Let_def
        mech_inv_update(2) [where d = "d\<lparr>isFirstPkt := b, isBpV4 := b'\<rparr>" for b b', simplified] RSBP_v4_length
        split: bind_splits if_splits\<close>)
qed

lemma RSBP_msop:
  assumes "mech_inv (base RSBP_getConstParam) d" and "length pkt = MSOP_LEN (base RSBP_getConstParam :: 'r::floor_ceiling RSDecoderConstParam)"
  shows "\<exists>d1 r. RSBP_first_packet pkt d = Some d1 \<and> RSBP_decodeMsopPkt h pkt d = Some r \<and> mech_result RSBP_layout (base RSBP_getConstParam)
    (if echo_mode d = ECHO_SINGLE then SingleReturn else DualReturn) (reversal d) h pkt (d1 :: ('r::floor_ceiling, 'a) DecoderRSBP_scheme) r"
proof -
  have len: "20 + 10 \<le> length pkt" "38 + 2 \<le> length pkt" using assms(2) by (simp_all add: mech_consts)
  obtain d1 where d1: "RSBP_first_packet pkt d = Some d1" "mech_inv (base RSBP_getConstParam) d1"
    "echo_mode d1 = echo_mode d" "reversal d1 = reversal d"
    by (rule RSBP_first [OF assms])
  obtain x where x: "temp_le 38 pkt d1 = Some (d1\<lparr>temperature := x, is_get_temperature := True\<rparr>)"
    using temp_total(1) [OF len(2)] by blast
  let ?d = "d1\<lparr>temperature := x, is_get_temperature := True\<rparr>"
  obtain t pkt' where t: "(if isBpV4 d1 then time_utc h 20 pkt ?d else time_ymd h 20 pkt ?d) = Some (t, pkt')"
    "length pkt' = length pkt" "drop 42 pkt' = drop 42 pkt"
    using pkt_time_total [OF len(1), of 42 h ?d] by (cases "isBpV4 d1") force+
  have "drop (blk_off RSBP_layout) pkt' = drop (blk_off RSBP_layout) pkt" using t(3) by (simp add: mech_layouts)
  from rsbp_single.decode_result [OF d1(2) assms(2) t(2) this, of h "reversal d" t x]
    rsbp_dual.decode_result [OF d1(2) assms(2) t(2) this, of h "reversal d" t x] x t(1) d1
  show ?thesis by (auto simp: RSBP_decodeMsopPkt_def RSBP_internDecodeMsopPkt_def)
qed

lemma RSP80_model_inv:
  assumes "mech_inv (base RSP80_getConstParam) d" and "length pkt = MSOP_LEN (base RSP80_getConstParam :: 'r::floor_ceiling RSDecoderConstParam)"
  obtains d1 :: "('r::floor_ceiling, 'a) DecoderRSP80_scheme" where "RSP80_model pkt d = Some d1" "mech_inv (base RSP80_getConstParam) d1"
    "clouds_ok d1 = clouds_ok d" "frames d1 = frames d" "bCheckMsopLen d1 = bCheckMsopLen d" "bCheckDifopLen d1 = bCheckDifopLen d"
    "echo_mode d1 = echo_mode d"
proof -
  obtain x where "read_u8 pkt 31 = Some x"
    using assms(2) by (simp add: read_u8_def rd_def mech_consts)
  then have "RSP80_model pkt d \<noteq> None" by (simp add: RSP80_model_def)
  then obtain d1 where d1: "RSP80_model pkt d = Some d1" by blast
  show thesis
    by (rule that [OF d1])
      (use assms(1) d1 in \<open>auto simp: RSP80_model_def clouds_ok_def frames_def
        mech_inv_update(1) [where d = "d\<lparr>lidar_model := b\<rparr>" for b, simplified] RSP80_calc_length
        split: bind_splits if_splits\<close>)
qed

lemma RSP80_msop:
  assumes "mech_inv (base RSP80_getConstParam) d" and "length pkt = MSOP_LEN (base RSP80_getConstParam :: 'r::floor_ceiling RSDecoderConstParam)"
  shows "\<exists>d1 r. RSP80_model pkt d = Some d1 \<and> RSP80_decodeMsopPkt h pkt d = Some r \<and> mech_result RSP80_layout (base RSP80_getConstParam)
    (if echo_mode d = ECHO_SINGLE then SingleReturn else DualReturn) False h pkt (d1 :: ('r::floor_ceiling, 'a) DecoderRSP80_scheme) r"
proof -
  have len: "10 + 10 \<le> length pkt" "8 + 2 \<le> length pkt" using assms(2) by (simp_all add: mech_consts)
  obtain d1 where d1: "RSP80_model pkt d = Some d1" "mech_inv (base RSP80_getConstParam) d1" "echo_mode d1 = echo_mode d"
    by (rule RSP80_model_inv [OF assms])
  obtain x where x: "temp_be 8 pkt d1 = Some (d1\<lparr>temperature := x, is_get_temperature := True\<rparr>)"
    using temp_total(2) [OF len(2)] by blast
  obtain t pkt' where t: "time_utc h 10 pkt (d1\<lparr>temperature := x, is_get_temperature := True\<rparr>) = Some (t, pkt')"
    "length pkt' = length pkt" "drop 80 pkt' = drop 80 pkt"
    using pkt_time_total(1) [OF len(1), of 80] by fastforce
  have "drop (blk_off RSP80_layout) pkt' = drop (blk_off RSP80_layout) pkt" using t(3) by (simp add: mech_layouts)
  from rsp80_single.decode_result [OF d1(2) assms(2) t(2) this, of h False t x]
    rsp80_dual.decode_result [OF d1(2) assms(2) t(2) this, of h False t x] x t(1) d1
  show ?thesis by (auto simp: RSP80_decodeMsopPkt_def RSP80_internDecodeMsopPkt_def)
qed

section \<open>DIFOP packets keep the contract\<close>

lemma read_angles_total: "off + 3 * n \<le> length pkt \<Longrightarrow> \<exists>as. read_angles pkt off n = Some as \<and> length as = n"
proof (induction n arbitrary: off)
  case (Suc n)
  then have "off + 3 + 3 * n \<le> length pkt" by simp
  then obtain as where "read_angles pkt (off + 3) n = Some as" "length as = n" using Suc.IH by blast
  then show ?case using Suc.prems by (simp add: read_u8_def read_u16_def rd_def)
qed simp

lemma read_difop_total:
  assumes "400 \<le> length pkt" and "vol \<le> 350"
  shows "\<exists>a. read_difop vol v h pkt = Some a \<and> vert_angle_cali a = v \<and> horiz_angle_cali a = h"
  using assms by (simp add: read_difop_def read_u8_def read_u16_def rd_def)

lemma set_echo_mode_ok:
  "mech_ok c d \<Longrightarrow> mech_ok c (set_echo_mode m d)" "frames (set_echo_mode m d) = frames d"
  by (simp_all add: set_echo_mode_def mech_ok_def mech_inv_def clouds_ok_def frames_def)

lemma calcChannel_length:
  "length (CHAN_TSS c) = 128 \<Longrightarrow> length (CHAN_TSS (Rs16Single_calcChannel b f c)) = 128"
  "length (CHAN_AZIS c) = 128 \<Longrightarrow> length (CHAN_AZIS (Rs16Single_calcChannel b f c)) = 128"
  "length (CHAN_TSS c) = 128 \<Longrightarrow> length (CHAN_TSS (Rs16Dual_calcChannel b f c)) = 128"
  "length (CHAN_AZIS c) = 128 \<Longrightarrow> length (CHAN_AZIS (Rs16Dual_calcChannel b f c)) = 128"
  by (simp_all add: Rs16Single_calcChannel_def Rs16Dual_calcChannel_def)

lemma calcParam_ok:
  "mech_ok c d \<Longrightarrow> mech_ok c (RS16_calcParam d)" "mech_ok c d \<Longrightarrow> mech_ok c (RSHELIOS_16P_calcParam d)"
  "frames (RS16_calcParam d) = frames d" "frames (RSHELIOS_16P_calcParam d) = frames d"
  by (simp_all add: RS16_calcParam_def RSHELIOS_16P_calcParam_def mech_ok_def mech_inv_def clouds_ok_def frames_def
      Let_def calcChannel_length)

lemma echo_split_ok:
  "mech_ok c d \<Longrightarrow> mech_ok c (d\<lparr>echo_mode := m, split_blks_per_frame := n\<rparr>)"
  "frames (d\<lparr>echo_mode := m, split_blks_per_frame := n\<rparr>) = frames d"
  by (simp_all add: mech_ok_def mech_inv_def clouds_ok_def frames_def)

lemma reversal_ok:
  "mech_ok c d \<Longrightarrow> mech_ok c (d\<lparr>reversal := b\<rparr>)" "frames (d\<lparr>reversal := b\<rparr>) = frames d"
  by (simp_all add: mech_ok_def mech_inv_def clouds_ok_def frames_def)

lemmas difop_oks = set_echo_mode_ok calcParam_ok echo_split_ok reversal_ok

lemma RS16_difop:
  assumes "mech_ok (base RS16_getConstParam) d" and "length pkt = DIFOP_LEN (base RS16_getConstParam :: 'r::floor_ceiling RSDecoderConstParam)"
  shows "\<exists>d'. RS16_decodeDifopPkt h pkt (d :: ('r::floor_ceiling, 'a) DecoderMech_scheme) = Some d' \<and> mech_ok (base RS16_getConstParam) d' \<and> frames d' = frames d"
proof -
  have len: "400 \<le> length pkt" using assms(2) by (simp add: mech_consts)
  obtain a where a: "RS16DifopPkt2Adapter pkt = Some a" "length (vert_angle_cali a) = 16" "length (horiz_angle_cali a) = 16"
    using read_difop_total [OF len, of 319] assms(2) by (fastforce simp: RS16DifopPkt2Adapter_def rd_def mech_consts)
  then obtain e where "decodeDifopCommon h a d = Some e" "mech_ok (base RS16_getConstParam) e" "frames e = frames d"
    using decodeDifopCommon_ok [OF assms(1), of a h] by (auto simp: mech_consts)
  then show ?thesis using a(1) by (simp add: RS16_decodeDifopPkt_def Let_def difop_oks)
qed

lemma RS32_difop:
  assumes "mech_ok (base RS32_getConstParam) d" and "length pkt = DIFOP_LEN (base RS32_getConstParam :: 'r::floor_ceiling RSDecoderConstParam)"
  shows "\<exists>d'. RS32_decodeDifopPkt h pkt (d :: ('r::floor_ceiling, 'a) DecoderMech_scheme) = Some d' \<and> mech_ok (base RS32_getConstParam) d' \<and> frames d' = frames d"
proof -
  have len: "400 \<le> length pkt" using assms(2) by (simp add: mech_consts)
  obtain v g where vg: "read_angles pkt 468 32 = Some v" "length v = 32" "read_angles pkt 564 32 = Some g" "length g = 32"
    using read_angles_total [of 468 32 pkt] read_angles_total [of 564 32 pkt] assms(2) by (auto simp: mech_consts)
  then obtain a where a: "RS32DifopPkt2Adapter pkt = Some a" "length (vert_angle_cali a) = 32" "length (horiz_angle_cali a) = 32"
    using read_difop_total [OF len, of 319] by (fastforce simp: RS32DifopPkt2Adapter_def)
  then obtain e where "decodeDifopCommon h a d = Some e" "mech_ok (base RS32_getConstParam) e" "frames e = frames d"
    using decodeDifopCommon_ok [OF assms(1), of a h] by (auto simp: mech_consts)
  then show ?thesis using a(1) by (simp add: RS32_decodeDifopPkt_def Let_def difop_oks)
qed

lemma RSBP_difop:
  assumes "mech_ok (base RSBP_getConstParam) d" and "length pkt = DIFOP_LEN (base RSBP_getConstParam :: 'r::floor_ceiling RSDecoderConstParam)"
  shows "\<exists>d'. RSBP_decodeDifopPkt h pkt (d :: ('r::floor_ceiling, 'a) DecoderRSBP_scheme) = Some d' \<and> mech_ok (base RSBP_getConstParam) d' \<and> frames d' = frames d"
proof -
  have len: "400 \<le> length pkt" using assms(2) by (simp add: mech_consts)
  obtain v g where vg: "read_angles pkt 468 32 = Some v" "length v = 32" "read_angles pkt 564 32 = Some g" "length g = 32"
    using read_angles_total [of 468 32 pkt] read_angles_total [of 564 32 pkt] assms(2) by (auto simp: mech_consts)
  then obtain a where a: "RSBPDifopPkt pkt = Some a" "length (vert_angle_cali a) = 32" "length (horiz_angle_cali a) = 32"
    using read_difop_total [OF len, of 319] by (fastforce simp: RSBPDifopPkt_def)
  then obtain e where "decodeDifopCommon h a d = Some e" "mech_ok (base RSBP_getConstParam) e" "frames e = frames d"
    using decodeDifopCommon_ok [OF assms(1), of a h] by (auto simp: mech_consts)
  moreover obtain u where "read_u8 pkt 337 = Some u" using len by (simp add: read_u8_def rd_def)
  ultimately show ?thesis using a(1) by (simp add: RSBP_decodeDifopPkt_def Let_def difop_oks)
qed

lemma RS128_difop:
  assumes "mech_ok (base RS128_getConstParam) d" and "length pkt = DIFOP_LEN (base RS128_getConstParam :: 'r::floor_ceiling RSDecoderConstParam)"
  shows "\<exists>d'. RS128_decodeDifopPkt h pkt (d :: ('r::floor_ceiling, 'a) DecoderMech_scheme) = Some d' \<and> mech_ok (base RS128_getConstParam) d' \<and> frames d' = frames d"
proof -
  have len: "400 \<le> length pkt" using assms(2) by (simp add: mech_consts)
  obtain v g where vg: "read_angles pkt 468 128 = Some v" "length v = 128" "read_angles pkt 852 128 = Some g" "length g = 128"
    using read_angles_total [of 468 128 pkt] read_angles_total [of 852 128 pkt] assms(2) by (auto simp: mech_consts)
  then obtain a where a: "RS128DifopPkt pkt = Some a" "length (vert_angle_cali a) = 128" "length (horiz_angle_cali a) = 128"
    using read_difop_total [OF len, of 319] by (fastforce simp: RS128DifopPkt_def)
  then obtain e where "decodeDifopCommon h a d = Some e" "mech_ok (base RS128_getConstParam) e" "frames e = frames d"
    using decodeDifopCommon_ok [OF assms(1), of a h] by (auto simp: mech_consts)
  then show ?thesis using a(1) by (simp add: RS128_decodeDifopPkt_def Let_def difop_oks)
qed

lemma RS80_difop:
  assumes "mech_ok (base RS80_getConstParam) d" and "length pkt = DIFOP_LEN (base RS80_getConstParam :: 'r::floor_ceiling RSDecoderConstParam)"
  shows "\<exists>d'. RS80_decodeDifopPkt h pkt (d :: ('r::floor_ceiling, 'a) DecoderMech_scheme) = Some d' \<and> mech_ok (base RS80_getConstParam) d' \<and> frames d' = frames d"
proof -
  have len: "400 \<le> length pkt" using assms(2) by (simp add: mech_consts)
  obtain v g where vg: "read_angles pkt 468 128 = Some v" "length v = 128" "read_angles pkt 852 128 = Some g" "length g = 128"
    using read_angles_total [of 468 128 pkt] read_angles_total [of 852 128 pkt] assms(2) by (auto simp: mech_consts)
  then obtain a where a: "RS80DifopPkt pkt = Some a" "length (vert_angle_cali a) = 128" "length (horiz_angle_cali a) = 128"
    using read_difop_total [OF len, of 319] by (fastforce simp: RS80DifopPkt_def)
  then obtain e where "decodeDifopCommon h a d = Some e" "mech_ok (base RS80_getConstParam) e" "frames e = frames d"
    using decodeDifopCommon_ok [OF assms(1), of a h] by (auto simp: mech_consts)
  then show ?thesis using a(1) by (simp add: RS80_decodeDifopPkt_def Let_def difop_oks)
qed

lemma RS48_difop:
  assumes "mech_ok (base RS48_getConstParam) d" and "length pkt = DIFOP_LEN (base RS48_getConstParam :: 'r::floor_ceiling RSDecoderConstParam)"
  shows "\<exists>d'. RS48_decodeDifopPkt h pkt (d :: ('r::floor_ceiling, 'a) DecoderMech_scheme) = Some d' \<and> mech_ok (base RS48_getConstParam) d' \<and> frames d' = frames d"
proof -
  have len: "400 \<le> length pkt" using assms(2) by (simp add: mech_consts)
  obtain v g where vg: "read_angles pkt 468 128 = Some v" "length v = 128" "read_angles pkt 852 128 = Some g" "length g = 128"
    using read_angles_total [of 468 128 pkt] read_angles_total [of 852 128 pkt] assms(2) by (auto simp: mech_consts)
  then obtain a where a: "RSP48DifopPkt pkt = Some a" "length (vert_angle_cali a) = 128" "length (horiz_angle_cali a) = 128"
    using read_difop_total [OF len, of 319] by (fastforce simp: RSP48DifopPkt_def)
  then obtain e where "decodeDifopCommon h a d = Some e" "mech_ok (base RS48_getConstParam) e" "frames e = frames d"
    using decodeDifopCommon_ok [OF assms(1), of a h] by (auto simp: mech_consts)
  then show ?thesis using a(1) by (simp add: RS48_decodeDifopPkt_def Let_def difop_oks)
qed

lemma RSP128_difop:
  assumes "mech_ok (base RSP128_getConstParam) d" and "length pkt = DIFOP_LEN (base RSP128_getConstParam :: 'r::floor_ceiling RSDecoderConstParam)"
  shows "\<exists>d'. RSP128_decodeDifopPkt h pkt (d :: ('r::floor_ceiling, 'a) DecoderMech_scheme) = Some d' \<and> mech_ok (base RSP128_getConstParam) d' \<and> frames d' = frames d"
proof -
  have len: "400 \<le> length pkt" using assms(2) by (simp add: mech_consts)
  obtain v g where vg: "read_angles pkt 468 128 = Some v" "length v = 128" "read_angles pkt 852 128 = Some g" "length g = 128"
    using read_angles_total [of 468 128 pkt] read_angles_total [of 852 128 pkt] assms(2) by (auto simp: mech_consts)
  then obtain a where a: "RSP128DifopPkt pkt = Some a" "length (vert_angle_cali a) = 128" "length (horiz_angle_cali a) = 128"
    using read_difop_total [OF len, of 319] by (fastforce simp: RSP128DifopPkt_def)
  then obtain e where "decodeDifopCommon h a d = Some e" "mech_ok (base RSP128_getConstParam) e" "frames e = frames d"
    using decodeDifopCommon_ok [OF assms(1), of a h] by (auto simp: mech_consts)
  then show ?thesis using a(1) by (simp add: RSP128_decodeDifopPkt_def Let_def difop_oks)
qed

lemma RSP80_difop:
  assumes "mech_ok (base RSP80_getConstParam) d" and "length pkt = DIFOP_LEN (base RSP80_getConstParam :: 'r::floor_ceiling RSDecoderConstParam)"
  shows "\<exists>d'. RSP80_decodeDifopPkt h pkt (d :: ('r::floor_ceiling, 'a) DecoderMech_scheme) = Some d' \<and> mech_ok (base RSP80_getConstParam) d' \<and> frames d' = frames d"
proof -
  have len: "400 \<le> length pkt" using assms(2) by (simp add: mech_consts)
  obtain v g where vg: "read_angles pkt 468 128 = Some v" "length v = 128" "read_angles pkt 852 128 = Some g" "length g = 128"
    using read_angles_total [of 468 128 pkt] read_angles_total [of 852 128 pkt] assms(2) by (auto simp: mech_consts)
  then obtain a where a: "RSP80DifopPkt pkt = Some a" "length (vert_angle_cali a) = 128" "length (horiz_angle_cali a) = 128"
    using read_difop_total [OF len, of 319] by (fastforce simp: RSP80DifopPkt_def)
  then obtain e where "decodeDifopCommon h a d = Some e" "mech_ok (base RSP80_getConstParam) e" "frames e = frames d"
    using decodeDifopCommon_ok [OF assms(1), of a h] by (auto simp: mech_consts)
  then show ?thesis using a(1) by (simp add: RSP80_decodeDifopPkt_def Let_def difop_oks)
qed

lemma RSP48_difop:
  assumes "mech_ok (base RSP48_getConstParam) d" and "length pkt = DIFOP_LEN (base RSP48_getConstParam :: 'r::floor_ceiling RSDecoderConstParam)"
  shows "\<exists>d'. RSP48_decodeDifopPkt h pkt (d :: ('r::floor_ceiling, 'a) DecoderMech_scheme) = Some d' \<and> mech_ok (base RSP48_getConstParam) d' \<and> frames d' = frames d"
proof -
  have len: "400 \<le> length pkt" using assms(2) by (simp add: mech_consts)
  obtain v g where vg: "read_angles pkt 468 128 = Some v" "length v = 128" "read_angles pkt 852 128 = Some g" "length g = 128"
    using read_angles_total [of 468 128 pkt] read_angles_total [of 852 128 pkt] assms(2) by (auto simp: mech_consts)
  then obtain a where a: "RSP48DifopPkt pkt = Some a" "length (vert_angle_cali a) = 128" "length (horiz_angle_cali a) = 128"
    using read_difop_total [OF len, of 319] by (fastforce simp: RSP48DifopPkt_def)
  then obtain e where "decodeDifopCommon h a d = Some e" "mech_ok (base RSP48_getConstParam) e" "frames e = frames d"
    using decodeDifopCommon_ok [OF assms(1), of a h] by (auto simp: mech_consts)
  then show ?thesis using a(1) by (simp add: RSP48_decodeDifopPkt_def Let_def difop_oks)
qed

lemma RSHELIOS_difop:
  assumes "mech_ok (base RSHELIOS_getConstParam) d" and "length pkt = DIFOP_LEN (base RSHELIOS_getConstParam :: 'r::floor_ceiling RSDecoderConstParam)"
  shows "\<exists>d'. RSHELIOS_decodeDifopPkt h pkt (d :: ('r::floor_ceiling, 'a) DecoderMech_scheme) = Some d' \<and> mech_ok (base RSHELIOS_getConstParam) d' \<and> frames d' = frames d"
proof -
  have len: "400 \<le> length pkt" using assms(2) by (simp add: mech_consts)
  obtain v g where vg: "read_angles pkt 468 32 = Some v" "length v = 32" "read_angles pkt 564 32 = Some g" "length g = 32"
    using read_angles_total [of 468 32 pkt] read_angles_total [of 564 32 pkt] assms(2) by (auto simp: mech_consts)
  then obtain a where a: "RSHELIOSDifopPkt pkt = Some a" "length (vert_angle_cali a) = 32" "length (horiz_angle_cali a) = 32"
    using read_difop_total [OF len, of 317] by (fastforce simp: RSHELIOSDifopPkt_def)
  then obtain e where "decodeDifopCommon h a d = Some e" "mech_ok (base RSHELIOS_getConstParam) e" "frames e = frames d"
    using decodeDifopCommon_ok [OF assms(1), of a h] by (auto simp: mech_consts)
  then show ?thesis using a(1) by (simp add: RSHELIOS_decodeDifopPkt_def Let_def difop_oks)
qed

lemma RSHELIOS_16P_difop:
  assumes "mech_ok (base RSHELIOS_16P_getConstParam) d" and "length pkt = DIFOP_LEN (base RSHELIOS_16P_getConstParam :: 'r::floor_ceiling RSDecoderConstParam)"
  shows "\<exists>d'. RSHELIOS_16P_decodeDifopPkt h pkt (d :: ('r::floor_ceiling, 'a) DecoderMech_scheme) = Some d' \<and> mech_ok (base RSHELIOS_16P_getConstParam) d' \<and> frames d' = frames d"
proof -
  have len: "400 \<le> length pkt" using assms(2) by (simp add: mech_consts)
  obtain v g where vg: "read_angles pkt 468 32 = Some v" "length v = 32" "read_angles pkt 564 32 = Some g" "length g = 32"
    using read_angles_total [of 468 32 pkt] read_angles_total [of 564 32 pkt] assms(2) by (auto simp: mech_consts)
  then obtain a where a: "RSHELIOSDifopPkt pkt = Some a" "length (vert_angle_cali a) = 32" "length (horiz_angle_cali a) = 32"
    using read_difop_total [OF len, of 317] by (fastforce simp: RSHELIOSDifopPkt_def)
  then obtain e where "decodeDifopCommon h a d = Some e" "mech_ok (base RSHELIOS_16P_getConstParam) e" "frames e = frames d"
    using decodeDifopCommon_ok [OF assms(1), of a h] by (auto simp: mech_consts)
  then show ?thesis using a(1) by (simp add: RSHELIOS_16P_decodeDifopPkt_def Let_def difop_oks)
qed

section \<open>New decoders keep the contract\<close>

lemma mk_DecoderMech_ok:
  assumes "mk_DecoderMech stof files k p = Some d" and "length (CHAN_TSS k) = 128" and "length (CHAN_AZIS k) = 128"
    and "LASER_NUM (base k) < 65536"
  shows "mech_ok (base k) d"
proof -
  have u: "unat (of_nat (LASER_NUM (base k)) :: u16) = LASER_NUM (base k)" using assms(4) by (simp add: unat_of_nat)
  let ?ca = "mk_ChanAngles (of_nat (LASER_NUM (base k)))"
  have ci: "chan_inv ?ca" "unat (chan_num ?ca) = LASER_NUM (base k)" using u by (simp_all add: chan_inv_init) (simp add: mk_ChanAngles_def)
  define e where "e = Decoder.extend ((mk_Decoder (base k) p)\<lparr>packet_duration := BLOCK_DURATION k * of_nat (BLOCKS_PER_PKT (base k)),
      is_mech := True\<rparr>) (DecoderMech.fields k ?ca (mk_AzimuthSection (trunc (start_angle p * 100)) (trunc (end_angle p * 100)))
      (mk_split p) (mk_split p) 10 (blocks_of 10 (BLOCK_DURATION k)) (blocks_of 10 (BLOCK_DURATION k)) 20 0)"
  have e: "mech_ok (base k) e" "chan_angles e = ?ca" "clouds e = []" "point_cloud e = []"
    using assms(2,3) ci by (simp_all add: e_def mech_ok_def mech_inv_def clouds_ok_def mk_Decoder_def Decoder.defs DecoderMech.defs)
  have "mech_ok (base k) (e\<lparr>chan_angles := ca, angles_ready := b, param := q\<rparr>)"
    if "loadFromFile stof f (chan_angles e) = Some (r, ca)" for r ca b f q
    using e loadFromFile_inv [OF _ that] ci by (simp add: mech_ok_def mech_inv_def clouds_ok_def)
  moreover have "mk_DecoderMech stof files k p = (if config_from_file p
         then do {
           (ret, ca) \<leftarrow> loadFromFile stof (files (angle_path p)) (chan_angles e);
           Some (e\<lparr>chan_angles := ca, angles_ready := (ret = 0), param := p\<lparr>wait_for_difop := False\<rparr>\<rparr>)
         }
         else Some e)" by (simp only: mk_DecoderMech_def e_def Let_def)
  ultimately show ?thesis using assms(1) e(1) by (auto split: if_splits bind_splits)
qed

lemma duration_ok [simp]: "mech_ok c (d\<lparr>packet_duration := x\<rparr>) = mech_ok c d"
  by (simp add: mech_ok_def mech_inv_def clouds_ok_def)

lemma RS16_tables: "length (CHAN_TSS RS16_getConstParam) = 128 \<and> length (CHAN_AZIS RS16_getConstParam) = 128 \<and>
    LASER_NUM (base RS16_getConstParam) < 65536"
  by (simp add: RS16_getConstParam_def fill128_def)

lemma mk_DecoderRS16_ok: "mk_DecoderRS16 stof files p = Some d \<Longrightarrow> mech_ok (base RS16_getConstParam) d"
  by (auto simp: mk_DecoderRS16_def RS16_tables intro!: calcParam_ok dest!: mk_DecoderMech_ok split: bind_splits)

lemma RS32_tables: "length (CHAN_TSS RS32_getConstParam) = 128 \<and> length (CHAN_AZIS RS32_getConstParam) = 128 \<and>
    LASER_NUM (base RS32_getConstParam) < 65536"
  unfolding RS32_getConstParam_def
  by (intro conjI set_firing_length [THEN conjunct1] set_firing_length [THEN conjunct2])
    (simp_all add: RS32_firing_tss_def set_firing_def)

lemma mk_DecoderRS32_ok: "mk_DecoderRS32 stof files p = Some d \<Longrightarrow> mech_ok (base RS32_getConstParam) d"
  unfolding mk_DecoderRS32_def by (rule mk_DecoderMech_ok) (simp_all add: RS32_tables)

lemma RSBP_tables: "length (CHAN_TSS RSBP_getConstParam) = 128 \<and> length (CHAN_AZIS RSBP_getConstParam) = 128 \<and>
    LASER_NUM (base RSBP_getConstParam) < 65536"
  unfolding RSBP_getConstParam_def
  by (intro conjI set_firing_length [THEN conjunct1] set_firing_length [THEN conjunct2])
    (simp_all add: RSBP_firing_tss_def set_firing_def)

lemma mk_DecoderRSBP_ok: "mk_DecoderRSBP stof files p = Some d \<Longrightarrow> mech_ok (base RSBP_getConstParam) d"
  unfolding mk_DecoderRSBP_def map_option_eq_Some
  by (elim exE conjE) (drule mk_DecoderMech_ok, auto simp: RSBP_tables mech_ok_def mech_inv_def clouds_ok_def DecoderMech.defs)

lemma RS128_tables: "length (CHAN_TSS RS128_getConstParam) = 128 \<and> length (CHAN_AZIS RS128_getConstParam) = 128 \<and>
    LASER_NUM (base RS128_getConstParam) < 65536"
  unfolding RS128_getConstParam_def
  by (intro conjI set_firing_length [THEN conjunct1] set_firing_length [THEN conjunct2])
    (simp_all add: RS128_firing_tss_def set_firing_def)

lemma mk_DecoderRS128_ok: "mk_DecoderRS128 stof files p = Some d \<Longrightarrow> mech_ok (base RS128_getConstParam) d"
  unfolding mk_DecoderRS128_def by (rule mk_DecoderMech_ok) (simp_all add: RS128_tables)

lemma RS80_tables: "length (CHAN_TSS RS80_getConstParam) = 128 \<and> length (CHAN_AZIS RS80_getConstParam) = 128 \<and>
    LASER_NUM (base RS80_getConstParam) < 65536"
  unfolding RS80_getConstParam_def
  by (intro conjI set_firing_length [THEN conjunct1] set_firing_length [THEN conjunct2])
    (simp_all add: RS80_firing_tss_def set_firing_def)

lemma mk_DecoderRS80_ok: "mk_DecoderRS80 stof files p = Some d \<Longrightarrow> mech_ok (base RS80_getConstParam) d"
  unfolding mk_DecoderRS80_def by (rule mk_DecoderMech_ok) (simp_all add: RS80_tables)

lemma RS48_tables: "length (CHAN_TSS RS48_getConstParam) = 128 \<and> length (CHAN_AZIS RS48_getConstParam) = 128 \<and>
    LASER_NUM (base RS48_getConstParam) < 65536"
  unfolding RS48_getConstParam_def
  by (intro conjI set_firing_length [THEN conjunct1] set_firing_length [THEN conjunct2])
    (simp_all add: RS48_firing_tss_def set_firing_def)

lemma mk_DecoderRS48_ok: "mk_DecoderRS48 stof files p = Some d \<Longrightarrow> mech_ok (base RS48_getConstParam) d"
  unfolding mk_DecoderRS48_def by (rule mk_DecoderMech_ok) (simp_all add: RS48_tables)

lemma RSP128_tables: "length (CHAN_TSS RSP128_getConstParam) = 128 \<and> length (CHAN_AZIS RSP128_getConstParam) = 128 \<and>
    LASER_NUM (base RSP128_getConstParam) < 65536"
  unfolding RSP128_getConstParam_def
  by (intro conjI set_firing_length [THEN conjunct1] set_firing_length [THEN conjunct2])
    (simp_all add: RSP128_firing_tss_def set_firing_def)

lemma mk_DecoderRSP128_ok: "mk_DecoderRSP128 stof files p = Some d \<Longrightarrow> mech_ok (base RSP128_getConstParam) d"
  unfolding mk_DecoderRSP128_def by (rule mk_DecoderMech_ok) (simp_all add: RSP128_tables)

lemma RSP80_tables: "length (CHAN_TSS RSP80_getConstParam) = 128 \<and> length (CHAN_AZIS RSP80_getConstParam) = 128 \<and>
    LASER_NUM (base RSP80_getConstParam) < 65536"
  by (simp add: RSP80_getConstParam_def fill128_def)

lemma mk_DecoderRSP80_ok: "mk_DecoderRSP80 stof files p = Some d \<Longrightarrow> mech_ok (base RSP80_getConstParam) d"
  unfolding mk_DecoderRSP80_def map_option_eq_Some
  by (elim exE conjE) (drule mk_DecoderMech_ok, auto simp: RSP80_tables mech_ok_def mech_inv_def clouds_ok_def DecoderMech.defs)

lemma RSP48_tables: "length (CHAN_TSS RSP48_getConstParam) = 128 \<and> length (CHAN_AZIS RSP48_getConstParam) = 128 \<and>
    LASER_NUM (base RSP48_getConstParam) < 65536"
  unfolding RSP48_getConstParam_def
  by (intro conjI set_firing_length [THEN conjunct1] set_firing_length [THEN conjunct2])
    (simp_all add: RSP48_firing_tss_def set_firing_def)

lemma mk_DecoderRSP48_ok: "mk_DecoderRSP48 stof files p = Some d \<Longrightarrow> mech_ok (base RSP48_getConstParam) d"
  unfolding mk_DecoderRSP48_def by (rule mk_DecoderMech_ok) (simp_all add: RSP48_tables)

lemma RSHELIOS_tables: "length (CHAN_TSS RSHELIOS_getConstParam) = 128 \<and> length (CHAN_AZIS RSHELIOS_getConstParam) = 128 \<and>
    LASER_NUM (base RSHELIOS_getConstParam) < 65536"
  unfolding RSHELIOS_getConstParam_def
  by (intro conjI set_firing_length [THEN conjunct1] set_firing_length [THEN conjunct2])
    (simp_all add: RSHELIOS_firing_tss_def set_firing_def)

lemma mk_DecoderRSHELIOS_ok: "mk_DecoderRSHELIOS stof files p = Some d \<Longrightarrow> mech_ok (base RSHELIOS_getConstParam) d"
  unfolding mk_DecoderRSHELIOS_def by (rule mk_DecoderMech_ok) (simp_all add: RSHELIOS_tables)

lemma RSHELIOS_16P_tables: "length (CHAN_TSS RSHELIOS_16P_getConstParam) = 128 \<and> length (CHAN_AZIS RSHELIOS_16P_getConstParam) = 128 \<and>
    LASER_NUM (base RSHELIOS_16P_getConstParam) < 65536"
  by (simp add: RSHELIOS_16P_getConstParam_def fill128_def)

lemma mk_DecoderRSHELIOS_16P_ok: "mk_DecoderRSHELIOS_16P stof files p = Some d \<Longrightarrow> mech_ok (base RSHELIOS_16P_getConstParam) d"
  by (auto simp: mk_DecoderRSHELIOS_16P_def RSHELIOS_16P_tables intro!: calcParam_ok dest!: mk_DecoderMech_ok split: bind_splits)

section \<open>The contract with the driver\<close>

lemma plain_rows:
  "cloud_rows RS16_layout = None"
  "cloud_rows RS32_layout = None"
  "cloud_rows RSBP_layout = None"
  "cloud_rows RS128_layout = None"
  "cloud_rows RS80_layout = None"
  "cloud_rows RS48_layout = None"
  "cloud_rows RSP128_layout = None"
  "cloud_rows RSP80_layout = None"
  "cloud_rows RSP48_layout = None"
  "cloud_rows RSHELIOS_layout = None"
  "cloud_rows RSHELIOS_16P_layout = None"
  by (simp_all add: mech_layouts)

lemma RS16_msop_ok:
  assumes "mech_ok (base RS16_getConstParam) d" and "length pkt = MSOP_LEN (base RS16_getConstParam :: 'r::floor_ceiling RSDecoderConstParam)"
  shows "\<exists>ret pkt' d'. RS16_decodeMsopPkt h pkt (d :: ('r::floor_ceiling, 'a) DecoderMech_scheme) = Some (ret, pkt', d') \<and> length pkt' = length pkt \<and> mech_ok (base RS16_getConstParam) d'"
  by (rule mech_msop_ok [OF assms(1) plain_rows(1)]) (rule RS16_msop [OF _ assms(2)])

interpretation rs16: decoder_contract "mech_ok (base RS16_getConstParam)" "base RS16_getConstParam"
  "RS16_decodeMsopPkt h" "RS16_decodeDifopPkt h" for h
  by unfold_locales ((rule mech_contract RS16_msop_ok, assumption+)+, use RS16_difop in blast, simp_all add: mech_consts)

lemma RS32_msop_ok:
  assumes "mech_ok (base RS32_getConstParam) d" and "length pkt = MSOP_LEN (base RS32_getConstParam :: 'r::floor_ceiling RSDecoderConstParam)"
  shows "\<exists>ret pkt' d'. RS32_decodeMsopPkt h pkt (d :: ('r::floor_ceiling, 'a) DecoderMech_scheme) = Some (ret, pkt', d') \<and> length pkt' = length pkt \<and> mech_ok (base RS32_getConstParam) d'"
  by (rule mech_msop_ok [OF assms(1) plain_rows(2)]) (rule RS32_msop [OF _ assms(2)])

interpretation rs32: decoder_contract "mech_ok (base RS32_getConstParam)" "base RS32_getConstParam"
  "RS32_decodeMsopPkt h" "RS32_decodeDifopPkt h" for h
  by unfold_locales ((rule mech_contract RS32_msop_ok, assumption+)+, use RS32_difop in blast, simp_all add: mech_consts)

lemma RSBP_msop_ok:
  assumes "mech_ok (base RSBP_getConstParam) d" and "length pkt = MSOP_LEN (base RSBP_getConstParam :: 'r::floor_ceiling RSDecoderConstParam)"
  shows "\<exists>ret pkt' d'. RSBP_decodeMsopPkt h pkt (d :: ('r::floor_ceiling, 'a) DecoderRSBP_scheme) = Some (ret, pkt', d') \<and> length pkt' = length pkt \<and> mech_ok (base RSBP_getConstParam) d'"
proof -
  have i: "mech_inv (base RSBP_getConstParam) d" using assms(1) by (simp add: mech_ok_def)
  obtain d1 r where r: "RSBP_first_packet pkt d = Some d1" "RSBP_decodeMsopPkt h pkt d = Some r"
    "mech_result RSBP_layout (base RSBP_getConstParam) (if echo_mode d = ECHO_SINGLE then SingleReturn else DualReturn)
      (reversal d) h pkt d1 r"
    using RSBP_msop [OF i assms(2)] by blast
  have "mech_ok (base RSBP_getConstParam) d1"
    by (rule RSBP_first [OF i assms(2)]) (use r(1) assms(1) in \<open>simp add: mech_ok_def\<close>)
  then show ?thesis using r(2,3) mech_ok_result plain_rows by (cases r) blast
qed

interpretation rsbp: decoder_contract "mech_ok (base RSBP_getConstParam)" "base RSBP_getConstParam"
  "RSBP_decodeMsopPkt h" "RSBP_decodeDifopPkt h" for h
  by unfold_locales ((rule mech_contract RSBP_msop_ok, assumption+)+, use RSBP_difop in blast, simp_all add: mech_consts)

lemma RS128_msop_ok:
  assumes "mech_ok (base RS128_getConstParam) d" and "length pkt = MSOP_LEN (base RS128_getConstParam :: 'r::floor_ceiling RSDecoderConstParam)"
  shows "\<exists>ret pkt' d'. RS128_decodeMsopPkt h pkt (d :: ('r::floor_ceiling, 'a) DecoderMech_scheme) = Some (ret, pkt', d') \<and> length pkt' = length pkt \<and> mech_ok (base RS128_getConstParam) d'"
  by (rule mech_msop_ok [OF assms(1) plain_rows(4)]) (rule RS128_msop [OF _ assms(2)])

interpretation rs128: decoder_contract "mech_ok (base RS128_getConstParam)" "base RS128_getConstParam"
  "RS128_decodeMsopPkt h" "RS128_decodeDifopPkt h" for h
  by unfold_locales ((rule mech_contract RS128_msop_ok, assumption+)+, use RS128_difop in blast, simp_all add: mech_consts)

lemma RS80_msop_ok:
  assumes "mech_ok (base RS80_getConstParam) d" and "length pkt = MSOP_LEN (base RS80_getConstParam :: 'r::floor_ceiling RSDecoderConstParam)"
  shows "\<exists>ret pkt' d'. RS80_decodeMsopPkt h pkt (d :: ('r::floor_ceiling, 'a) DecoderMech_scheme) = Some (ret, pkt', d') \<and> length pkt' = length pkt \<and> mech_ok (base RS80_getConstParam) d'"
  by (rule mech_msop_ok [OF assms(1) plain_rows(5)]) (rule RS80_msop [OF _ assms(2)])

interpretation rs80: decoder_contract "mech_ok (base RS80_getConstParam)" "base RS80_getConstParam"
  "RS80_decodeMsopPkt h" "RS80_decodeDifopPkt h" for h
  by unfold_locales ((rule mech_contract RS80_msop_ok, assumption+)+, use RS80_difop in blast, simp_all add: mech_consts)

lemma RS48_msop_ok:
  assumes "mech_ok (base RS48_getConstParam) d" and "length pkt = MSOP_LEN (base RS48_getConstParam :: 'r::floor_ceiling RSDecoderConstParam)"
  shows "\<exists>ret pkt' d'. RS48_decodeMsopPkt h pkt (d :: ('r::floor_ceiling, 'a) DecoderMech_scheme) = Some (ret, pkt', d') \<and> length pkt' = length pkt \<and> mech_ok (base RS48_getConstParam) d'"
  by (rule mech_msop_ok [OF assms(1) plain_rows(6)]) (rule RS48_msop [OF _ assms(2)])

interpretation rs48: decoder_contract "mech_ok (base RS48_getConstParam)" "base RS48_getConstParam"
  "RS48_decodeMsopPkt h" "RS48_decodeDifopPkt h" for h
  by unfold_locales ((rule mech_contract RS48_msop_ok, assumption+)+, use RS48_difop in blast, simp_all add: mech_consts)

lemma RSP128_msop_ok:
  assumes "mech_ok (base RSP128_getConstParam) d" and "length pkt = MSOP_LEN (base RSP128_getConstParam :: 'r::floor_ceiling RSDecoderConstParam)"
  shows "\<exists>ret pkt' d'. RSP128_decodeMsopPkt h pkt (d :: ('r::floor_ceiling, 'a) DecoderMech_scheme) = Some (ret, pkt', d') \<and> length pkt' = length pkt \<and> mech_ok (base RSP128_getConstParam) d'"
  by (rule mech_msop_ok [OF assms(1) plain_rows(7)]) (rule RSP128_msop [OF _ assms(2)])

interpretation rsp128: decoder_contract "mech_ok (base RSP128_getConstParam)" "base RSP128_getConstParam"
  "RSP128_decodeMsopPkt h" "RSP128_decodeDifopPkt h" for h
  by unfold_locales ((rule mech_contract RSP128_msop_ok, assumption+)+, use RSP128_difop in blast, simp_all add: mech_consts)

lemma RSP80_msop_ok:
  assumes "mech_ok (base RSP80_getConstParam) d" and "length pkt = MSOP_LEN (base RSP80_getConstParam :: 'r::floor_ceiling RSDecoderConstParam)"
  shows "\<exists>ret pkt' d'. RSP80_decodeMsopPkt h pkt (d :: ('r::floor_ceiling, 'a) DecoderRSP80_scheme) = Some (ret, pkt', d') \<and> length pkt' = length pkt \<and> mech_ok (base RSP80_getConstParam) d'"
proof -
  have i: "mech_inv (base RSP80_getConstParam) d" using assms(1) by (simp add: mech_ok_def)
  obtain d1 r where r: "RSP80_model pkt d = Some d1" "RSP80_decodeMsopPkt h pkt d = Some r"
    "mech_result RSP80_layout (base RSP80_getConstParam) (if echo_mode d = ECHO_SINGLE then SingleReturn else DualReturn)
      False h pkt d1 r"
    using RSP80_msop [OF i assms(2)] by blast
  have "mech_ok (base RSP80_getConstParam) d1"
    by (rule RSP80_model_inv [OF i assms(2)]) (use r(1) assms(1) in \<open>simp add: mech_ok_def\<close>)
  then show ?thesis using r(2,3) mech_ok_result plain_rows by (cases r) blast
qed

interpretation rsp80: decoder_contract "mech_ok (base RSP80_getConstParam)" "base RSP80_getConstParam"
  "RSP80_decodeMsopPkt h" "RSP80_decodeDifopPkt h" for h
  by unfold_locales ((rule mech_contract RSP80_msop_ok, assumption+)+, use RSP80_difop in blast, simp_all add: mech_consts)

lemma RSP48_msop_ok:
  assumes "mech_ok (base RSP48_getConstParam) d" and "length pkt = MSOP_LEN (base RSP48_getConstParam :: 'r::floor_ceiling RSDecoderConstParam)"
  shows "\<exists>ret pkt' d'. RSP48_decodeMsopPkt h pkt (d :: ('r::floor_ceiling, 'a) DecoderMech_scheme) = Some (ret, pkt', d') \<and> length pkt' = length pkt \<and> mech_ok (base RSP48_getConstParam) d'"
  by (rule mech_msop_ok [OF assms(1) plain_rows(9)]) (rule RSP48_msop [OF _ assms(2)])

interpretation rsp48: decoder_contract "mech_ok (base RSP48_getConstParam)" "base RSP48_getConstParam"
  "RSP48_decodeMsopPkt h" "RSP48_decodeDifopPkt h" for h
  by unfold_locales ((rule mech_contract RSP48_msop_ok, assumption+)+, use RSP48_difop in blast, simp_all add: mech_consts)

lemma RSHELIOS_msop_ok:
  assumes "mech_ok (base RSHELIOS_getConstParam) d" and "length pkt = MSOP_LEN (base RSHELIOS_getConstParam :: 'r::floor_ceiling RSDecoderConstParam)"
  shows "\<exists>ret pkt' d'. RSHELIOS_decodeMsopPkt h pkt (d :: ('r::floor_ceiling, 'a) DecoderMech_scheme) = Some (ret, pkt', d') \<and> length pkt' = length pkt \<and> mech_ok (base RSHELIOS_getConstParam) d'"
  by (rule mech_msop_ok [OF assms(1) plain_rows(10)]) (rule RSHELIOS_msop [OF _ assms(2)])

interpretation rshelios: decoder_contract "mech_ok (base RSHELIOS_getConstParam)" "base RSHELIOS_getConstParam"
  "RSHELIOS_decodeMsopPkt h" "RSHELIOS_decodeDifopPkt h" for h
  by unfold_locales ((rule mech_contract RSHELIOS_msop_ok, assumption+)+, use RSHELIOS_difop in blast, simp_all add: mech_consts)

lemma RSHELIOS_16P_msop_ok:
  assumes "mech_ok (base RSHELIOS_16P_getConstParam) d" and "length pkt = MSOP_LEN (base RSHELIOS_16P_getConstParam :: 'r::floor_ceiling RSDecoderConstParam)"
  shows "\<exists>ret pkt' d'. RSHELIOS_16P_decodeMsopPkt h pkt (d :: ('r::floor_ceiling, 'a) DecoderMech_scheme) = Some (ret, pkt', d') \<and> length pkt' = length pkt \<and> mech_ok (base RSHELIOS_16P_getConstParam) d'"
  by (rule mech_msop_ok [OF assms(1) plain_rows(11)]) (rule RSHELIOS_16P_msop [OF _ assms(2)])

interpretation rshelios16p: decoder_contract "mech_ok (base RSHELIOS_16P_getConstParam)" "base RSHELIOS_16P_getConstParam"
  "RSHELIOS_16P_decodeMsopPkt h" "RSHELIOS_16P_decodeDifopPkt h" for h
  by unfold_locales ((rule mech_contract RSHELIOS_16P_msop_ok, assumption+)+, use RSHELIOS_16P_difop in blast, simp_all add: mech_consts)

end
