(* ===== verification/Rs_Airy.thy ===== *)
theory Rs_Airy
  imports Rs_MechLidars
begin

text \<open>
  The lidars of the AIRY family of rs_driver (\<^verbatim>\<open>driver/decoder/decoder_RSAIRY.hpp\<close>, \<^verbatim>\<open>decoder_RSFAIRY.hpp\<close>,
  \<^verbatim>\<open>decoder_RSAIRYLITE_ETH.hpp\<close>). They are mechanical lidars whose packets also hold features and IMU
  data. AIRY and FAIRY learn their model from the first packets; with 96 channels, two blocks make one firing.
  Branches under \<^verbatim>\<open>ENABLE_TRANSFORM\<close> change the transformation of the host, which is an argument of every step.
\<close>

section \<open>IMU packets\<close>

definition imu_time :: "'r::floor_ceiling host \<Rightarrow> bytes \<Rightarrow> nat \<Rightarrow> ('r, 'a) Decoder_scheme \<Rightarrow> 'r option" where
  "imu_time h pkt off d =
     (if use_lidar_clock (param d)
      then map_option (\<lambda>t. of_nat (unat (parseTimeUTCWithUs (h_timezone h) t)) / 1000000) (read_utc pkt off)
      else Some (of_nat (unat (h_clock h 0)) / 1000000))"

text \<open>The guard of every IMU decoder, and the callback; \<open>f\<close> fills in the data.\<close>

definition imu_guarded :: "('r::floor_ceiling ImuData \<Rightarrow> 'r ImuData option) \<Rightarrow> ('r, 'a) Decoder_scheme
    \<Rightarrow> ('r, 'a) Decoder_scheme option" where
  "imu_guarded f d =
     (case imuDataPtr d of
        None \<Rightarrow> Some d
      | Some imu \<Rightarrow> if cb_imu_registered d \<and> \<not> imu_state imu
          then do { imu \<leftarrow> f imu; putImuData (d\<lparr>imuDataPtr := Some imu\<rparr>) }
          else Some d)"

definition float_imu :: "'r::floor_ceiling host \<Rightarrow> bytes \<Rightarrow> nat \<Rightarrow> 'r \<Rightarrow> 'r ImuData \<Rightarrow> 'r ImuData option" where
  "float_imu h pkt off t imu = do {
     let rf = (\<lambda>o'. map_option (\<lambda>b. h_float h (be_dec b)) (rd pkt o' 4));
     ax \<leftarrow> rf off; ay \<leftarrow> rf (off + 4); az \<leftarrow> rf (off + 8);
     gx \<leftarrow> rf (off + 12); gy \<leftarrow> rf (off + 16); gz \<leftarrow> rf (off + 20);
     Some (imu\<lparr>imu_state := True, imu_timestamp := t, linear_acceleration_x := ax, linear_acceleration_y := ay,
       linear_acceleration_z := az, angular_velocity_x := gx, angular_velocity_y := gy, angular_velocity_z := gz\<rparr>)
   }"

text \<open>\<^verbatim>\<open>u8ArrayToInt32\<close>.\<close>

definition u8ArrayToInt32 :: "bytes \<Rightarrow> int" where
  "u8ArrayToInt32 b = sint (be_dec b :: u32)"

text \<open>The units of AIRY: a full scale in a \<^verbatim>\<open>uint8_t\<close> and one in a \<^verbatim>\<open>uint16_t\<close>, so large exponents shift
  everything out. Beyond the range of \<^verbatim>\<open>int\<close> the shift and the product are undefined, \<^term>\<open>None\<close>.\<close>

definition AIRY_imu :: "'r::floor_ceiling host \<Rightarrow> bytes \<Rightarrow> 'r \<Rightarrow> 'r ImuData \<Rightarrow> 'r ImuData option" where
  "AIRY_imu h pkt t imu = do {
     afsr \<leftarrow> read_u8 pkt 43; gfsr \<leftarrow> read_u8 pkt 44;
     _ \<leftarrow> (if unat afsr + 1 < 32 \<and> 250 * 2 ^ unat gfsr < (2 ^ 31 :: int) then Some () else None);
     let acclFsr = (push_bit (unat afsr + 1) 1 :: u8);
     let acceUnit = of_nat (unat acclFsr) / 32768;
     let gyroFsr = (250 * push_bit (unat gfsr) 1 :: u16);
     let gyroUnit = of_nat (unat gyroFsr) / 32768 * h_pi h / 180;
     let ri = (\<lambda>o'. map_option (\<lambda>b. of_int (u8ArrayToInt32 b)) (rd pkt o' 4));
     ax \<leftarrow> ri 14; ay \<leftarrow> ri 18; az \<leftarrow> ri 22; gx \<leftarrow> ri 26; gy \<leftarrow> ri 30; gz \<leftarrow> ri 34;
     Some (imu\<lparr>imu_state := True, imu_timestamp := t, linear_acceleration_x := ax * acceUnit,
       linear_acceleration_y := ay * acceUnit, linear_acceleration_z := az * acceUnit, angular_velocity_x := gx * gyroUnit,
       angular_velocity_y := gy * gyroUnit, angular_velocity_z := gz * gyroUnit\<rparr>)
   }"

section \<open>AIRY and FAIRY\<close>

datatype AiryModel = CHANNEL_48 | CHANNEL_96 | CHANNEL_192

record 'r DecoderFairy = "'r DecoderMech" +
  lidarModel :: AiryModel
  channelNum :: nat
  bInit :: bool

record 'r DecoderAiry = "'r DecoderFairy" +
  loaded_install_info :: bool
  install_mode :: u16

text \<open>The blocks of both; \<open>bits\<close> is the width of the distance, the bits above are the feature.\<close>

definition airy_layout :: "nat \<Rightarrow> bool \<Rightarrow> AiryModel \<Rightarrow> nat \<Rightarrow> mech_layout" where
  "airy_layout bits fold_ring model rows = \<lparr>blk_off = 42, blk_size = 148, id_len = 2, blk_err = Some ERRCODE_WRONGMSOPBLKID,
     az_off = 2, chan_off = 4,
     laser_of = (\<lambda>blk chan. if model = CHANNEL_96 \<and> blk mod 2 = 1 then chan + 48 else chan),
     entry_of = (\<lambda>blk chan. if model = CHANNEL_96 \<and> blk mod 2 = 1 then chan + 48 else chan),
     raw_dist = (\<lambda>raw. (take_bit bits raw, Some (ucast (drop_bit bits raw)))),
     ring_of = (\<lambda>ring. if fold_ring \<and> 48 \<le> ring \<and> model = CHANNEL_48 then ring - 48 else ring),
     lens_xy = True, cloud_rows = Some rows\<rparr>"

text \<open>A table that is shorter than the one it replaces leaves the other entries.\<close>

definition put_firing :: "'r::floor_ceiling \<Rightarrow> 'r list \<Rightarrow> 'r RSDecoderMechConstParam \<Rightarrow> 'r RSDecoderMechConstParam" where
  "put_firing blk_ts firing c = c\<lparr>
     CHAN_TSS := map (\<lambda>t. t / 1000000) firing @ drop (length firing) (CHAN_TSS c),
     CHAN_AZIS := map (\<lambda>t. t / blk_ts) firing @ drop (length firing) (CHAN_AZIS c)\<rparr>"

text \<open>The echo mode is at offset 17 of the packet, the model at 32.\<close>

definition airy_echo :: "u8 \<Rightarrow> ('r, 'a) DecoderMech_scheme \<Rightarrow> ('r, 'a) DecoderMech_scheme" where
  "airy_echo mode d =
     (let e = (if mode = 0x03 then ECHO_DUAL else ECHO_SINGLE)
      in d\<lparr>echo_mode := e,
           split_blks_per_frame := (if e = ECHO_DUAL then push_bit 1 (blks_per_frame d) else blks_per_frame d)\<rparr>)"

text \<open>The pose in a DIFOP packet, seven floats at 1092.\<close>

definition airy_pose :: "'r host \<Rightarrow> nat \<Rightarrow> bytes \<Rightarrow> 'r DeviceInfo \<Rightarrow> 'r DeviceInfo option" where
  "airy_pose h off pkt i = do {
     let rf = (\<lambda>o'. map_option (\<lambda>b. h_float h (be_dec b)) (rd pkt o' 4));
     qx \<leftarrow> rf off; qy \<leftarrow> rf (off + 4); qz \<leftarrow> rf (off + 8); qw \<leftarrow> rf (off + 12);
     x \<leftarrow> rf (off + 16); y \<leftarrow> rf (off + 20); z \<leftarrow> rf (off + 24);
     Some (i\<lparr>di_qx := qx, di_qy := qy, di_qz := qz, di_qw := qw, di_x := x, di_y := y, di_z := z\<rparr>)
   }"

definition airy_iter :: "AiryModel \<Rightarrow> RSEchoMode \<Rightarrow> 'r::floor_ceiling mk_iter" where
  "airy_iter model mode =
     (if model = CHANNEL_48 then (if mode = ECHO_SINGLE then SingleReturn else DualReturn)
      else (if mode = ECHO_SINGLE then TwoInOne else FourInOne))"

section \<open>AIRY\<close>

definition AIRY_firing_tss_airy_m :: "'r::floor_ceiling list" where
  "AIRY_firing_tss_airy_m = [
     0, 0, 0, 0, 0, 0, 0, 0, 7.616, 7.616, 7.616, 7.616, 7.616, 7.616, 7.616, 7.616,
     16.184, 16.184, 16.184, 16.184, 16.184, 16.184, 16.184, 16.184, 24.752, 24.752, 24.752, 24.752, 24.752, 24.752, 24.752, 24.752,
     33.32, 33.32, 33.32, 33.32, 33.32, 33.32, 33.32, 33.32, 42.84, 42.84, 42.84, 42.84, 42.84, 42.84, 42.84, 42.84,
     52.36, 52.36, 52.36, 52.36, 52.36, 52.36, 52.36, 52.36, 61.88, 61.88, 61.88, 61.88, 61.88, 61.88, 61.88, 61.88,
     71.4, 71.4, 71.4, 71.4, 71.4, 71.4, 71.4, 71.4, 79.968, 79.968, 79.968, 79.968, 79.968, 79.968, 79.968, 79.968,
     88.536, 88.536, 88.536, 88.536, 88.536, 88.536, 88.536, 88.536, 97.104, 97.104, 97.104, 97.104, 97.104, 97.104, 97.104, 97.104]"

definition AIRY_firing_tss_48L :: "'r::floor_ceiling list" where
  "AIRY_firing_tss_48L = [
     0, 0, 0, 0, 7.616, 7.616, 7.616, 7.616, 16.184, 16.184, 16.184, 16.184, 24.752, 24.752, 24.752, 24.752,
     33.32, 33.32, 33.32, 33.32, 42.84, 42.84, 42.84, 42.84, 52.36, 52.36, 52.36, 52.36, 61.88, 61.88, 61.88, 61.88,
     71.4, 71.4, 71.4, 71.4, 79.968, 79.968, 79.968, 79.968, 88.536, 88.536, 88.536, 88.536, 97.104, 97.104, 97.104, 97.104]"

definition AIRY_firing_tss_side :: "'r::floor_ceiling list" where
  "AIRY_firing_tss_side = [
     0, 0, 0, 0, 0, 0, 0, 0, 11.424, 11.424, 11.424, 11.424, 11.424, 11.424, 11.424, 11.424,
     22.848, 22.848, 22.848, 22.848, 22.848, 22.848, 22.848, 22.848, 34.272, 34.272, 34.272, 34.272, 34.272, 34.272, 34.272, 34.272,
     45.696, 45.696, 45.696, 45.696, 45.696, 45.696, 45.696, 45.696, 54.264, 54.264, 54.264, 54.264, 54.264, 54.264, 54.264, 54.264,
     62.832, 62.832, 62.832, 62.832, 62.832, 62.832, 62.832, 62.832, 71.4, 71.4, 71.4, 71.4, 71.4, 71.4, 71.4, 71.4,
     79.016, 79.016, 79.016, 79.016, 79.016, 79.016, 79.016, 79.016, 85.68, 85.68, 85.68, 85.68, 85.68, 85.68, 85.68, 85.68,
     92.344, 92.344, 92.344, 92.344, 92.344, 92.344, 92.344, 92.344, 99.008, 99.008, 99.008, 99.008, 99.008, 99.008, 99.008, 99.008]"

definition AIRY_firing_tss_normal :: "'r::floor_ceiling list" where
  "AIRY_firing_tss_normal = [
     0, 0, 0, 0, 0, 0, 0, 0, 5.712, 5.712, 5.712, 5.712, 5.712, 5.712, 5.712, 5.712,
     12.376, 12.376, 12.376, 12.376, 12.376, 12.376, 12.376, 12.376, 19.04, 19.04, 19.04, 19.04, 19.04, 19.04, 19.04, 19.04,
     25.704, 25.704, 25.704, 25.704, 25.704, 25.704, 25.704, 25.704, 33.32, 33.32, 33.32, 33.32, 33.32, 33.32, 33.32, 33.32,
     41.888, 41.888, 41.888, 41.888, 41.888, 41.888, 41.888, 41.888, 50.456, 50.456, 50.456, 50.456, 50.456, 50.456, 50.456, 50.456,
     59.024, 59.024, 59.024, 59.024, 59.024, 59.024, 59.024, 59.024, 70.448, 70.448, 70.448, 70.448, 70.448, 70.448, 70.448, 70.448,
     81.872, 81.872, 81.872, 81.872, 81.872, 81.872, 81.872, 81.872, 93.296, 93.296, 93.296, 93.296, 93.296, 93.296, 93.296, 93.296]"

definition AIRY_getConstParam :: "'r::floor_ceiling RSDecoderMechConstParam" where
  "AIRY_getConstParam = set_firing 111.08 AIRY_firing_tss_airy_m
    \<lparr>base = \<lparr>MSOP_LEN = 1248, DIFOP_LEN = 1248, MSOP_ID_LEN = 4, DIFOP_ID_LEN = 8,
       MSOP_ID = [0x55, 0xAA, 0x05, 0x5A, 0, 0, 0, 0],
       DIFOP_ID = [0xA5, 0xFF, 0x00, 0x5A, 0x11, 0x11, 0x55, 0x55],
       BLOCK_ID = [0xFF, 0xEE], LASER_NUM = 96, BLOCKS_PER_PKT = 8, CHANNELS_PER_BLOCK = 48,
       DISTANCE_MIN = 0.1, DISTANCE_MAX = 60, DISTANCE_RES = 0.005, TEMPERATURE_RES = 0.0625,
       IMU_LEN = 51, IMU_ID_LEN = 4, IMU_ID = [0xAA, 0x55, 0x5A, 0x05]\<rparr>,
     RX = 0.0075, RY = 0.00664, RZ = 0.04532, BLOCK_DURATION = 111.08 / 1000000,
     CHAN_TSS = fill128 [], CHAN_AZIS = fill128 []\<rparr>"

definition mk_DecoderAIRY :: "(string \<Rightarrow> 'r::floor_ceiling option) \<Rightarrow> (string \<Rightarrow> string list option) \<Rightarrow> 'r RSDecoderParam
    \<Rightarrow> 'r DecoderAiry option" where
  "mk_DecoderAIRY stof files p = map_option (\<lambda>d. DecoderFairy.extend (DecoderMech.extend d (DecoderFairy.fields CHANNEL_96 96 False))
     (DecoderAiry.fields False 0xFF)) (mk_DecoderMech stof files AIRY_getConstParam p)"

definition AIRY_getLidarModel :: "u8 \<Rightarrow> AiryModel \<times> nat" where
  "AIRY_getLidarModel mode = (if mode = 0x01 then (CHANNEL_48, 48) else if mode = 0x02 then (CHANNEL_96, 96)
     else if mode = 0x03 then (CHANNEL_192, 192) else (CHANNEL_96, 96))"

definition AIRY_decodeImuPkt :: "'r::floor_ceiling host \<Rightarrow> bytes \<Rightarrow> ('r, 'a) Decoder_scheme \<Rightarrow> ('r, 'a) Decoder_scheme option" where
  "AIRY_decodeImuPkt h pkt d = imu_guarded (\<lambda>imu. do { t \<leftarrow> imu_time h pkt 4 d; AIRY_imu h pkt t imu }) d"

definition airy_difop :: "bytes \<Rightarrow> AdapterDifopPkt option" where
  "airy_difop pkt = do {
     vert \<leftarrow> read_angles pkt 468 96; horiz \<leftarrow> read_angles pkt 756 96;
     read_difop 1068 vert horiz pkt
   }"

definition AIRY_decodeDifopPkt :: "'r::floor_ceiling host \<Rightarrow> bytes \<Rightarrow> ('r, 'a) DecoderAiry_scheme \<Rightarrow> ('r, 'a) DecoderAiry_scheme option" where
  "AIRY_decodeDifopPkt h pkt d = do {
     a \<leftarrow> airy_difop pkt;
     d \<leftarrow> decodeDifopCommon h a d;
     i \<leftarrow> airy_pose h 1092 pkt (device_info d);
     m \<leftarrow> read_u8 pkt 289;
     let d = d\<lparr>device_info := i\<lparr>di_state := True\<rparr>\<rparr>;
     Some (if m \<noteq> 0xFF then d\<lparr>install_mode := ucast m, loaded_install_info := True\<rparr> else d)
   }"

text \<open>The set-up by the first packets, until the model and, with 96 channels, the installation are known.\<close>

definition AIRY_init :: "bytes \<Rightarrow> ('r::floor_ceiling, 'a) DecoderAiry_scheme \<Rightarrow> ('r, 'a) DecoderAiry_scheme option" where
  "AIRY_init pkt d =
     (if bInit d then Some d
      else do {
        mode \<leftarrow> read_u8 pkt 17; m \<leftarrow> read_u8 pkt 32;
        let d = airy_echo mode d;
        let (model, n) = AIRY_getLidarModel m;
        let d = d\<lparr>lidarModel := model, channelNum := n, mech_const := mech_const d\<lparr>BLOCK_DURATION := 111.08 / 1000000\<rparr>\<rparr>;
        Some (if model = CHANNEL_48
              then d\<lparr>mech_const := put_firing 111.08 AIRY_firing_tss_48L (mech_const d), bInit := True\<rparr>
              else if model = CHANNEL_96 \<and> loaded_install_info d
              then (if install_mode d = 0x1
                    then d\<lparr>mech_const := put_firing 111.08 AIRY_firing_tss_side (mech_const d), bInit := True\<rparr>
                    else if install_mode d = 0x0
                    then d\<lparr>mech_const := put_firing 111.08 AIRY_firing_tss_normal (mech_const d), bInit := True\<rparr>
                    else if install_mode d = 0x2 then d\<lparr>bInit := True\<rparr> else d)
              else d)
      })"

definition AIRY_internDecodeMsopPkt :: "'r::floor_ceiling mk_iter \<Rightarrow> 'r host \<Rightarrow> bytes \<Rightarrow> ('r, 'a) DecoderAiry_scheme
    \<Rightarrow> (bool \<times> bytes \<times> ('r, 'a) DecoderAiry_scheme) option" where
  "AIRY_internDecodeMsopPkt iter h pkt d = do {
     d \<leftarrow> temp_le 38 pkt d;
     (pkt_ts, pkt) \<leftarrow> time_utc h 20 pkt d;
     mech_decode h (airy_layout 14 False (lidarModel d) (channelNum d)) iter False pkt pkt_ts d
   }"

definition AIRY_decodeMsopPkt :: "'r::floor_ceiling host \<Rightarrow> bytes \<Rightarrow> ('r, 'a) DecoderAiry_scheme
    \<Rightarrow> (bool \<times> bytes \<times> ('r, 'a) DecoderAiry_scheme) option" where
  "AIRY_decodeMsopPkt h pkt d = do {
     t \<leftarrow> read_u8 pkt 16;
     if t \<noteq> 0 then Some (False, pkt, d)
     else do {
       d \<leftarrow> AIRY_init pkt d;
       if lidarModel d = CHANNEL_192 then Some (False, pkt, d)
       else AIRY_internDecodeMsopPkt (airy_iter (lidarModel d) (echo_mode d)) h pkt d
     }
   }"

text \<open>This loop compares one byte of the block id only.\<close>

definition AIRY_isNewFrame :: "bytes \<Rightarrow> ('r, 'a) DecoderFairy_scheme \<Rightarrow> (bool \<times> ('r, 'a) DecoderFairy_scheme) option" where
  "AIRY_isNewFrame pkt d = do {
     t \<leftarrow> read_u8 pkt 16;
     if t > 0 then Some (False, d)
     else mech_newFrame (airy_layout 14 False (lidarModel d) (channelNum d)\<lparr>id_len := 1\<rparr>) pkt [0..<BLOCKS_PER_PKT (const_param d)] d
   }"

section \<open>FAIRY\<close>

definition FAIRY_firing_tss :: "'r::floor_ceiling list" where
  "FAIRY_firing_tss = [
     0, 0, 0, 0, 0, 0, 0, 0, 0, 0, 0, 0, 0, 0, 0, 0,
     0, 0, 0, 0, 0, 0, 0, 0, 0, 0, 0, 0, 0, 0, 0, 0,
     8.16, 8.16, 8.16, 8.16, 8.16, 8.16, 8.16, 8.16, 8.16, 8.16, 8.16, 8.16, 8.16, 8.16, 8.16, 8.16,
     31.008, 31.008, 31.008, 31.008, 31.008, 31.008, 31.008, 31.008, 31.008, 31.008, 31.008, 31.008, 31.008, 31.008, 31.008, 31.008,
     53.856, 53.856, 53.856, 53.856, 53.856, 53.856, 53.856, 53.856, 53.856, 53.856, 53.856, 53.856, 53.856, 53.856, 53.856, 53.856,
     53.856, 53.856, 53.856, 53.856, 53.856, 53.856, 53.856, 53.856, 53.856, 53.856, 53.856, 53.856, 53.856, 53.856, 53.856, 53.856]"

definition FAIRY_48_firing_tss :: "'r::floor_ceiling list" where
  "FAIRY_48_firing_tss = [
     0, 0, 0, 0, 0, 0, 0, 0, 5.28, 5.28, 5.28, 5.28, 5.28, 5.28, 5.28, 5.28,
     14.08, 14.08, 14.08, 14.08, 14.08, 14.08, 14.08, 14.08, 28.16, 28.16, 28.16, 28.16, 28.16, 28.16, 28.16, 28.16,
     42.24, 42.24, 42.24, 42.24, 42.24, 42.24, 42.24, 42.24, 51.04, 51.04, 51.04, 51.04, 51.04, 51.04, 51.04, 51.04]"

definition FAIRY_getConstParam :: "'r::floor_ceiling RSDecoderMechConstParam" where
  "FAIRY_getConstParam = set_firing 69.462 FAIRY_firing_tss
    \<lparr>base = \<lparr>MSOP_LEN = 1248, DIFOP_LEN = 1248, MSOP_ID_LEN = 4, DIFOP_ID_LEN = 8,
       MSOP_ID = [0x55, 0xAA, 0x05, 0x5A, 0, 0, 0, 0],
       DIFOP_ID = [0xA5, 0xFF, 0x00, 0x5A, 0x11, 0x11, 0x55, 0x55],
       BLOCK_ID = [0xFF, 0xEE], LASER_NUM = 96, BLOCKS_PER_PKT = 8, CHANNELS_PER_BLOCK = 48,
       DISTANCE_MIN = 0.1, DISTANCE_MAX = 150, DISTANCE_RES = 0.005, TEMPERATURE_RES = 0.0625,
       IMU_LEN = 51, IMU_ID_LEN = 4, IMU_ID = [0xAA, 0x55, 0x5A, 0x05]\<rparr>,
     RX = 0.01952, RY = - 0.0095, RZ = 0.045, BLOCK_DURATION = 69.462 / 1000000,
     CHAN_TSS = fill128 [], CHAN_AZIS = fill128 []\<rparr>"

definition mk_DecoderFAIRY :: "(string \<Rightarrow> 'r::floor_ceiling option) \<Rightarrow> (string \<Rightarrow> string list option) \<Rightarrow> 'r RSDecoderParam
    \<Rightarrow> 'r DecoderFairy option" where
  "mk_DecoderFAIRY stof files p = map_option (\<lambda>d. DecoderMech.extend d (DecoderFairy.fields CHANNEL_96 96 False))
     (mk_DecoderMech stof files FAIRY_getConstParam p)"

definition FAIRY_getLidarModel :: "u8 \<Rightarrow> AiryModel \<times> nat" where
  "FAIRY_getLidarModel mode = (if mode = 0x01 then (CHANNEL_48, 48) else (CHANNEL_96, 96))"

definition FAIRY_decodeImuPkt :: "'r::floor_ceiling host \<Rightarrow> bytes \<Rightarrow> ('r, 'a) Decoder_scheme \<Rightarrow> ('r, 'a) Decoder_scheme option" where
  "FAIRY_decodeImuPkt h pkt d = imu_guarded (\<lambda>imu. do { t \<leftarrow> imu_time h pkt 4 d; float_imu h pkt 14 t imu }) d"

definition FAIRY_decodeDifopPkt :: "'r::floor_ceiling host \<Rightarrow> bytes \<Rightarrow> ('r, 'a) DecoderMech_scheme \<Rightarrow> ('r, 'a) DecoderMech_scheme option" where
  "FAIRY_decodeDifopPkt h pkt d = do {
     a \<leftarrow> airy_difop pkt;
     d \<leftarrow> decodeDifopCommon h a d;
     i \<leftarrow> airy_pose h 1092 pkt (device_info d);
     Some (d\<lparr>device_info := i\<lparr>di_state := True\<rparr>\<rparr>)
   }"

definition FAIRY_init :: "bytes \<Rightarrow> ('r::floor_ceiling, 'a) DecoderFairy_scheme \<Rightarrow> ('r, 'a) DecoderFairy_scheme option" where
  "FAIRY_init pkt d =
     (if bInit d then Some d
      else do {
        mode \<leftarrow> read_u8 pkt 17; m \<leftarrow> read_u8 pkt 32;
        let d = airy_echo mode d;
        let (model, n) = FAIRY_getLidarModel m;
        let d = d\<lparr>lidarModel := model, channelNum := n, bInit := True\<rparr>;
        Some (if model = CHANNEL_48
              then d\<lparr>mech_const := put_firing 69.462 FAIRY_48_firing_tss (mech_const d\<lparr>BLOCK_DURATION := 69.462 / 1000000\<rparr>)\<rparr>
              else d)
      })"

text \<open>The temperature is a signed number in eighths, read in the byte order of the host.\<close>

definition FAIRY_temp :: "bytes \<Rightarrow> ('r::floor_ceiling, 'a) Decoder_scheme \<Rightarrow> ('r, 'a) Decoder_scheme option" where
  "FAIRY_temp pkt d = do {
     t \<leftarrow> read_u16 pkt 38;
     let Temp = (if bit t 15 then - (0xFFFF - uint t + 1) else uint t);
     Some (d\<lparr>temperature := of_int Temp / 8 * TEMPERATURE_RES (const_param d), is_get_temperature := True\<rparr>)
   }"

definition FAIRY_internDecodeMsopPkt :: "'r::floor_ceiling mk_iter \<Rightarrow> 'r host \<Rightarrow> bytes \<Rightarrow> ('r, 'a) DecoderFairy_scheme
    \<Rightarrow> (bool \<times> bytes \<times> ('r, 'a) DecoderFairy_scheme) option" where
  "FAIRY_internDecodeMsopPkt iter h pkt d = do {
     d \<leftarrow> FAIRY_temp pkt d;
     (pkt_ts, pkt) \<leftarrow> time_utc h 20 pkt d;
     mech_decode h (airy_layout 15 True (lidarModel d) (channelNum d)) iter False pkt pkt_ts d
   }"

definition FAIRY_decodeMsopPkt :: "'r::floor_ceiling host \<Rightarrow> bytes \<Rightarrow> ('r, 'a) DecoderFairy_scheme
    \<Rightarrow> (bool \<times> bytes \<times> ('r, 'a) DecoderFairy_scheme) option" where
  "FAIRY_decodeMsopPkt h pkt d = do {
     t \<leftarrow> read_u8 pkt 16;
     if t \<noteq> 0 then Some (False, pkt, d)
     else do {
       d \<leftarrow> FAIRY_init pkt d;
       if lidarModel d = CHANNEL_192 then Some (False, pkt, d)
       else FAIRY_internDecodeMsopPkt (airy_iter (lidarModel d) (echo_mode d)) h pkt d
     }
   }"

definition FAIRY_isNewFrame :: "bytes \<Rightarrow> ('r, 'a) DecoderFairy_scheme \<Rightarrow> (bool \<times> ('r, 'a) DecoderFairy_scheme) option" where
  "FAIRY_isNewFrame pkt d = do {
     t \<leftarrow> read_u8 pkt 16;
     if t > 0 then Some (False, d)
     else mech_newFrame (airy_layout 15 True (lidarModel d) (channelNum d)\<lparr>id_len := 1\<rparr>) pkt [0..<BLOCKS_PER_PKT (const_param d)] d
   }"

section \<open>AIRY Lite\<close>

text \<open>Its blocks have no id; the constant \<^verbatim>\<open>u16ChannelNum_\<close> is the number of lasers.\<close>

definition AIRYLITE_layout :: mech_layout where
  "AIRYLITE_layout = \<lparr>blk_off = 20, blk_size = 74, id_len = 0, blk_err = None, az_off = 0, chan_off = 2,
     laser_of = (\<lambda>blk chan. chan), entry_of = (\<lambda>blk chan. chan),
     raw_dist = (\<lambda>raw. (take_bit 14 raw, Some (ucast (drop_bit 14 raw)))), ring_of = (\<lambda>ring. ring),
     lens_xy = True, cloud_rows = None\<rparr>"

definition AIRYLITE_firing_tss :: "'r::floor_ceiling list" where
  "AIRYLITE_firing_tss = [
     0, 0, 0, 0, 0, 0, 21.46, 21.46, 21.46, 21.46, 21.46, 21.46, 64.38, 64.38, 64.38, 64.38,
     64.38, 64.38, 107.3, 107.3, 107.3, 107.3, 107.3, 107.3]"

definition AIRYLITE_getConstParam :: "'r::floor_ceiling RSDecoderMechConstParam" where
  "AIRYLITE_getConstParam = set_firing 166.667 AIRYLITE_firing_tss
    \<lparr>base = \<lparr>MSOP_LEN = 1280, DIFOP_LEN = 540, MSOP_ID_LEN = 4, DIFOP_ID_LEN = 4,
       MSOP_ID = [0x5A, 0xFF, 0x55, 0xAA, 0, 0, 0, 0],
       DIFOP_ID = [0x5A, 0xFF, 0x55, 0xAA, 0, 0, 0, 0],
       BLOCK_ID = [0xFF, 0xEE], LASER_NUM = 24, BLOCKS_PER_PKT = 16, CHANNELS_PER_BLOCK = 24,
       DISTANCE_MIN = 0.1, DISTANCE_MAX = 100, DISTANCE_RES = 0.005, TEMPERATURE_RES = 0.01,
       IMU_LEN = 51, IMU_ID_LEN = 4, IMU_ID = [0x5A, 0xFF, 0x55, 0xAA]\<rparr>,
     RX = 0.0088, RY = 0.0066, RZ = 0.0511, BLOCK_DURATION = 166.667 / 1000000,
     CHAN_TSS = fill128 [], CHAN_AZIS = fill128 []\<rparr>"

definition mk_DecoderAIRYLITE :: "(string \<Rightarrow> 'r::floor_ceiling option) \<Rightarrow> (string \<Rightarrow> string list option) \<Rightarrow> 'r RSDecoderParam
    \<Rightarrow> 'r DecoderMech option" where
  "mk_DecoderAIRYLITE stof files = mk_DecoderMech stof files AIRYLITE_getConstParam"

definition AIRYLITE_decodeImuPkt :: "'r::floor_ceiling host \<Rightarrow> bytes \<Rightarrow> ('r, 'a) Decoder_scheme \<Rightarrow> ('r, 'a) Decoder_scheme option" where
  "AIRYLITE_decodeImuPkt h pkt d = imu_guarded (\<lambda>imu. do { t \<leftarrow> imu_time h pkt 6 d; float_imu h pkt 16 t imu }) d"

definition decodeDifopAngles :: "bytes \<Rightarrow> ('r::floor_ceiling, 'a) DecoderMech_scheme \<Rightarrow> ('r, 'a) DecoderMech_scheme option" where
  "decodeDifopAngles pkt d = do {
     r \<leftarrow> read_u16 pkt 340;
     let rounds = ntohs r div 600;
     let rounds = (if rounds = 0 then 10 else rounds);
     let dur = BLOCK_DURATION (mech_const d);
     let blks = blocks_of (of_nat (unat rounds)) dur;
     let d = d\<lparr>rps := rounds, blks_per_frame := blks, split_blks_per_frame := blks,
       block_az_diff := of_int (trunc (36000 * of_nat (unat rounds) * dur))\<rparr>;
     Some (if \<not> config_from_file (param d) \<and> length pkt > 348
       then (let (ret, ca) = loadFromDifopAIRYLITE (Some (drop 348 pkt)) (length pkt - 348) (chan_angles d)
         in d\<lparr>chan_angles := ca, angles_ready := (ret = 0)\<rparr>)
       else d)
   }"

definition AIRYLITE_decodeDifopPkt :: "'r::floor_ceiling host \<Rightarrow> bytes \<Rightarrow> ('r, 'a) DecoderMech_scheme \<Rightarrow> ('r, 'a) DecoderMech_scheme option" where
  "AIRYLITE_decodeDifopPkt h pkt d = do {
     t \<leftarrow> read_u16 pkt 516;
     i \<leftarrow> airy_pose h 473 pkt (device_info d);
     let d = d\<lparr>is_get_temperature := True, temperature := of_nat (unat (ntohs t)) * TEMPERATURE_RES (const_param d), device_info := i\<rparr>;
     d \<leftarrow> (if h_difop_parse h
       then do {
         n \<leftarrow> rd pkt 49 6; mac \<leftarrow> rd pkt 26 6; tv \<leftarrow> rd pkt 6 4; bv \<leftarrow> rd pkt 10 4;
         Some (d\<lparr>device_info := (device_info d)\<lparr>di_sn := n, di_mac := mac, di_top_ver := tv @ drop 4 (di_top_ver (device_info d)),
           di_bottom_ver := bv @ drop 4 (di_bottom_ver (device_info d)), di_state := True\<rparr>\<rparr>)
       }
       else Some d);
     decodeDifopAngles pkt d
   }"

definition AIRYLITE_decodeMsopPkt :: "'r::floor_ceiling host \<Rightarrow> bytes \<Rightarrow> ('r, 'a) DecoderMech_scheme
    \<Rightarrow> (bool \<times> bytes \<times> ('r, 'a) DecoderMech_scheme) option" where
  "AIRYLITE_decodeMsopPkt h pkt d = do {
     (pkt_ts, pkt) \<leftarrow> time_utc h 6 pkt d;
     mech_decode h AIRYLITE_layout SingleReturn False pkt pkt_ts d
   }"

definition AIRYLITE_isNewFrame :: "bytes \<Rightarrow> ('r, 'a) DecoderMech_scheme \<Rightarrow> (bool \<times> ('r, 'a) DecoderMech_scheme) option" where
  "AIRYLITE_isNewFrame pkt d = mech_newFrame AIRYLITE_layout pkt [0..<BLOCKS_PER_PKT (const_param d)] d"

section \<open>The layouts keep the contract\<close>

text \<open>The clouds of AIRY and FAIRY have their number of rows from the packets, and with 96 channels a cloud can begin
  between the two blocks of a firing, so their shape is no part of the invariant.\<close>

definition airy_ok :: "'r RSDecoderConstParam \<Rightarrow> ('r, 'a) DecoderMech_scheme \<Rightarrow> bool" where
  "airy_ok c d \<longleftrightarrow> mech_inv c d \<and> bCheckMsopLen d \<and> bCheckDifopLen d"

lemma airy_ok_cong: "fixed_part d' = fixed_part d \<Longrightarrow> airy_ok c d \<Longrightarrow> airy_ok c d'"
  using mech_inv_cong [of d' d c] fixed_part_eqD(8,9) [of d' d] by (simp add: airy_ok_def)

lemma airy_ok_const: "airy_ok c d \<Longrightarrow> MSOP_LEN (const_param d) = MSOP_LEN c \<and> MSOP_ID_LEN (const_param d) = MSOP_ID_LEN c \<and>
    DIFOP_LEN (const_param d) = DIFOP_LEN c \<and> DIFOP_ID_LEN (const_param d) = DIFOP_ID_LEN c \<and>
    bCheckMsopLen d \<and> bCheckDifopLen d"
  using mech_invD [of c d] by (simp add: airy_ok_def)

lemma airy_ok_limit: "airy_ok c d \<Longrightarrow> airy_ok c (limit_excep h e d)" "airy_ok c d \<Longrightarrow> airy_ok c (delay_limit_excep h e d)"
  using airy_ok_cong [of "limit_excep h e d" d c] airy_ok_cong [of "delay_limit_excep h e d" d c] by auto

lemma airy_ok_clear: "airy_ok c d \<Longrightarrow> airy_ok c (d\<lparr>point_cloud := []\<rparr>)"
  by (auto simp: airy_ok_def mech_inv_def)

lemmas airy_contract = airy_ok_const airy_ok_limit airy_ok_clear

lemmas airy_consts = AIRY_getConstParam_def FAIRY_getConstParam_def AIRYLITE_getConstParam_def set_firing_def

lemma airy_iters_total:
  assumes "length azs = 8"
  shows "\<exists>iter. airy_iter model mode azs 8 D A F blank_iter = Some iter \<and> length (az_diffs iter) = 16 \<and> length (tss iter) = 16"
  using stride_iter [OF assms, of 1 8 D A F] stride_iter [OF assms, of 2 4 D A F] stride_iter [OF assms, of 4 2 D A F]
  by (simp add: airy_iter_def SingleReturn_def DualReturn_def TwoInOne_def FourInOne_def)

interpretation airy_l: mech_lidar "airy_layout bits fold_ring model rows" "base AIRY_getConstParam :: 'r::floor_ceiling RSDecoderConstParam"
  "airy_iter model mode" for bits fold_ring model rows mode
  by unfold_locales (simp_all add: airy_layout_def airy_consts airy_iters_total)

interpretation fairy_l: mech_lidar "airy_layout bits fold_ring model rows" "base FAIRY_getConstParam :: 'r::floor_ceiling RSDecoderConstParam"
  "airy_iter model mode" for bits fold_ring model rows mode
  by unfold_locales (simp_all add: airy_layout_def airy_consts airy_iters_total)

interpretation airylite_l: mech_lidar AIRYLITE_layout "base AIRYLITE_getConstParam :: 'r::floor_ceiling RSDecoderConstParam" SingleReturn
  by unfold_locales (simp_all add: AIRYLITE_layout_def airy_consts iters_total)

section \<open>The set-up keeps the contract\<close>

lemma put_firing_length:
  assumes "length f \<le> 128" and "length (CHAN_TSS c) = 128" and "length (CHAN_AZIS c) = 128"
  shows "length (CHAN_TSS (put_firing b f c)) = 128" "length (CHAN_AZIS (put_firing b f c)) = 128"
  using assms by (simp_all add: put_firing_def)

lemma airy_tables: "length AIRY_firing_tss_48L \<le> 128" "length AIRY_firing_tss_side \<le> 128"
  "length AIRY_firing_tss_normal \<le> 128" "length FAIRY_48_firing_tss \<le> 128"
  by (simp_all add: AIRY_firing_tss_48L_def AIRY_firing_tss_side_def AIRY_firing_tss_normal_def FAIRY_48_firing_tss_def)

lemma airy_ok_more [simp]:
  "airy_ok c (d\<lparr>mech_const := mech_const d\<lparr>BLOCK_DURATION := x\<rparr>\<rparr>) = airy_ok c d"
  "airy_ok c (e\<lparr>lidarModel := m\<rparr>) = airy_ok c e" "airy_ok c (e\<lparr>channelNum := n\<rparr>) = airy_ok c e"
  "airy_ok c (e\<lparr>bInit := b\<rparr>) = airy_ok c e"
  "airy_ok c (airy_echo mode d) = airy_ok c d"
  by (simp_all add: airy_ok_def mech_inv_def airy_echo_def Let_def)

lemma airy_ok_tables:
  assumes "airy_ok c d" and "length f \<le> 128"
  shows "airy_ok c (d\<lparr>mech_const := put_firing b f (mech_const d)\<rparr>)"
    "airy_ok c (d\<lparr>mech_const := put_firing b f (mech_const d\<lparr>BLOCK_DURATION := x\<rparr>)\<rparr>)"
  using assms put_firing_length [OF assms(2)] by (simp_all add: airy_ok_def mech_inv_def)

lemma FAIRY_init_ok:
  assumes "airy_ok c d" and "33 \<le> length pkt"
  shows "\<exists>d1. FAIRY_init pkt d = Some d1 \<and> airy_ok c d1 \<and> frames d1 = frames d"
proof -
  obtain x y where r: "read_u8 pkt 17 = Some x" "read_u8 pkt 32 = Some y"
    using assms(2) by (simp add: read_u8_def rd_def)
  then have "FAIRY_init pkt d \<noteq> None" by (simp add: FAIRY_init_def Let_def split: prod.split)
  then obtain d1 where d1: "FAIRY_init pkt d = Some d1" by blast
  have "airy_ok c d1 \<and> frames d1 = frames d"
    using d1 assms(1) r
    by (auto simp: FAIRY_init_def airy_ok_def mech_inv_def airy_echo_def frames_def Let_def put_firing_length airy_tables
        split: prod.splits if_splits)
  then show ?thesis using d1 by blast
qed

lemma AIRY_init_ok:
  assumes "airy_ok c d" and "33 \<le> length pkt"
  shows "\<exists>d1. AIRY_init pkt d = Some d1 \<and> airy_ok c d1 \<and> frames d1 = frames d"
proof -
  obtain x y where r: "read_u8 pkt 17 = Some x" "read_u8 pkt 32 = Some y"
    using assms(2) by (simp add: read_u8_def rd_def)
  then have "AIRY_init pkt d \<noteq> None" by (simp add: AIRY_init_def Let_def split: prod.split)
  then obtain d1 where d1: "AIRY_init pkt d = Some d1" by blast
  have "airy_ok c d1 \<and> frames d1 = frames d"
    using d1 assms(1) r
    by (auto simp: AIRY_init_def airy_ok_def mech_inv_def airy_echo_def frames_def Let_def put_firing_length airy_tables
        split: prod.splits if_splits)
  then show ?thesis using d1 by blast
qed

section \<open>Every packet keeps the contract\<close>

lemma FAIRY_temp_total: "40 \<le> length pkt \<Longrightarrow> \<exists>x. FAIRY_temp pkt d = Some (d\<lparr>temperature := x, is_get_temperature := True\<rparr>)"
  by (simp add: FAIRY_temp_def read_u16_def rd_def) blast

text \<open>A packet of another type and one of an unknown model do nothing; any other is decoded with the tables of its model.\<close>

definition airy_result :: "nat \<Rightarrow> bool \<Rightarrow> 'r::floor_ceiling RSDecoderConstParam \<Rightarrow> 'r host \<Rightarrow> bytes
    \<Rightarrow> ('r, 'a) DecoderFairy_scheme \<Rightarrow> bool \<times> bytes \<times> ('r, 'a) DecoderFairy_scheme \<Rightarrow> bool" where
  "airy_result bits fold_ring c h pkt d r \<longleftrightarrow>
     (if pkt ! 16 \<noteq> 0 \<or> lidarModel d = CHANNEL_192 then r = (False, pkt, d)
      else mech_result (airy_layout bits fold_ring (lidarModel d) (channelNum d)) c (airy_iter (lidarModel d) (echo_mode d)) False h pkt d r)"

lemma read_u8_nth: "off < length pkt \<Longrightarrow> read_u8 pkt off = Some (pkt ! off)"
  by (simp add: read_u8_def rd_def hd_drop_conv_nth)

lemma AIRY_msop:
  assumes "airy_ok (base AIRY_getConstParam) d" and "length pkt = MSOP_LEN (base AIRY_getConstParam :: 'r::floor_ceiling RSDecoderConstParam)"
  shows "\<exists>d1 r. (if pkt ! 16 = 0 then AIRY_init pkt d else Some d) = Some d1 \<and> airy_ok (base AIRY_getConstParam) d1 \<and>
    frames d1 = frames d \<and> AIRY_decodeMsopPkt h pkt d = Some r \<and>
    airy_result 14 False (base AIRY_getConstParam) h pkt (d1 :: ('r, 'a) DecoderAiry_scheme) r"
proof -
  have len: "20 + 10 \<le> length pkt" "38 + 2 \<le> length pkt" "33 \<le> length pkt" using assms(2) by (simp_all add: airy_consts)
  obtain d1 where d1: "(if pkt ! 16 = 0 then AIRY_init pkt d else Some d) = Some d1" "airy_ok (base AIRY_getConstParam) d1"
    "frames d1 = frames d"
    using AIRY_init_ok [OF assms(1) len(3)] assms(1) by (cases "pkt ! 16 = 0") auto
  obtain x where x: "temp_le 38 pkt d1 = Some (d1\<lparr>temperature := x, is_get_temperature := True\<rparr>)"
    using temp_total(1) [OF len(2)] by blast
  obtain t pkt' where t: "time_utc h 20 pkt (d1\<lparr>temperature := x, is_get_temperature := True\<rparr>) = Some (t, pkt')"
    "length pkt' = length pkt" "drop 42 pkt' = drop 42 pkt"
    using pkt_time_total(1) [OF len(1), of 42] by fastforce
  let ?L = "airy_layout 14 False (lidarModel d1) (channelNum d1)"
  have "drop (blk_off ?L) pkt' = drop (blk_off ?L) pkt" using t(3) by (simp add: airy_layout_def)
  from airy_l.decode_result [OF _ assms(2) t(2) this, where d = d1 and mode = "echo_mode d1" and h = h and m = False and t = t and x = x] d1(2)
  obtain r where r: "mech_decode h ?L (airy_iter (lidarModel d1) (echo_mode d1)) False pkt' t
      (d1\<lparr>temperature := x, is_get_temperature := True\<rparr>) = Some r"
    "mech_result ?L (base AIRY_getConstParam) (airy_iter (lidarModel d1) (echo_mode d1)) False h pkt d1 r"
    by (auto simp: airy_ok_def)
  have "AIRY_decodeMsopPkt h pkt d = Some (if pkt ! 16 \<noteq> 0 \<or> lidarModel d1 = CHANNEL_192 then (False, pkt, d1) else r)"
    using d1(1) x t(1) r(1) len(3)
    by (auto simp: AIRY_decodeMsopPkt_def AIRY_internDecodeMsopPkt_def read_u8_nth split: if_splits)
  then show ?thesis using d1 r(2) by (auto simp: airy_result_def)
qed

lemma FAIRY_msop:
  assumes "airy_ok (base FAIRY_getConstParam) d" and "length pkt = MSOP_LEN (base FAIRY_getConstParam :: 'r::floor_ceiling RSDecoderConstParam)"
  shows "\<exists>d1 r. (if pkt ! 16 = 0 then FAIRY_init pkt d else Some d) = Some d1 \<and> airy_ok (base FAIRY_getConstParam) d1 \<and>
    frames d1 = frames d \<and> FAIRY_decodeMsopPkt h pkt d = Some r \<and>
    airy_result 15 True (base FAIRY_getConstParam) h pkt (d1 :: ('r, 'a) DecoderFairy_scheme) r"
proof -
  have len: "20 + 10 \<le> length pkt" "40 \<le> length pkt" "33 \<le> length pkt" using assms(2) by (simp_all add: airy_consts)
  obtain d1 where d1: "(if pkt ! 16 = 0 then FAIRY_init pkt d else Some d) = Some d1" "airy_ok (base FAIRY_getConstParam) d1"
    "frames d1 = frames d"
    using FAIRY_init_ok [OF assms(1) len(3)] assms(1) by (cases "pkt ! 16 = 0") auto
  obtain x where x: "FAIRY_temp pkt d1 = Some (d1\<lparr>temperature := x, is_get_temperature := True\<rparr>)"
    using FAIRY_temp_total [OF len(2)] by blast
  obtain t pkt' where t: "time_utc h 20 pkt (d1\<lparr>temperature := x, is_get_temperature := True\<rparr>) = Some (t, pkt')"
    "length pkt' = length pkt" "drop 42 pkt' = drop 42 pkt"
    using pkt_time_total(1) [OF len(1), of 42] by fastforce
  let ?L = "airy_layout 15 True (lidarModel d1) (channelNum d1)"
  have "drop (blk_off ?L) pkt' = drop (blk_off ?L) pkt" using t(3) by (simp add: airy_layout_def)
  from fairy_l.decode_result [OF _ assms(2) t(2) this, where d = d1 and mode = "echo_mode d1" and h = h and m = False and t = t and x = x] d1(2)
  obtain r where r: "mech_decode h ?L (airy_iter (lidarModel d1) (echo_mode d1)) False pkt' t
      (d1\<lparr>temperature := x, is_get_temperature := True\<rparr>) = Some r"
    "mech_result ?L (base FAIRY_getConstParam) (airy_iter (lidarModel d1) (echo_mode d1)) False h pkt d1 r"
    by (auto simp: airy_ok_def)
  have "FAIRY_decodeMsopPkt h pkt d = Some (if pkt ! 16 \<noteq> 0 \<or> lidarModel d1 = CHANNEL_192 then (False, pkt, d1) else r)"
    using d1(1) x t(1) r(1) len(3)
    by (auto simp: FAIRY_decodeMsopPkt_def FAIRY_internDecodeMsopPkt_def read_u8_nth split: if_splits)
  then show ?thesis using d1 r(2) by (auto simp: airy_result_def)
qed

lemma airy_ok_result:
  assumes "airy_result bits fold_ring c h pkt d (ret, pkt', d')" and "airy_ok c d"
  shows "length pkt' = length pkt \<and> airy_ok c d'"
  using assms airy_ok_cong [of d' d c] by (auto simp: airy_result_def mech_result_def split: if_splits)

lemma AIRYLITE_msop:
  assumes "mech_inv (base AIRYLITE_getConstParam) d" and "length pkt = MSOP_LEN (base AIRYLITE_getConstParam :: 'r::floor_ceiling RSDecoderConstParam)"
  shows "\<exists>r. AIRYLITE_decodeMsopPkt h pkt d = Some r \<and> mech_result AIRYLITE_layout (base AIRYLITE_getConstParam) SingleReturn False h pkt
    (d :: ('r, 'a) DecoderMech_scheme) r"
proof -
  let ?d = "d\<lparr>temperature := temperature d, is_get_temperature := True\<rparr>"
  have len: "6 + 10 \<le> length pkt" using assms(2) by (simp add: airy_consts)
  obtain t pkt' where t: "time_utc h 6 pkt d = Some (t, pkt')" "length pkt' = length pkt" "drop 20 pkt' = drop 20 pkt"
    using pkt_time_total(1) [OF len, of 20] by fastforce
  have l: "length pkt' = MSOP_LEN (base AIRYLITE_getConstParam :: 'r RSDecoderConstParam)" using assms(2) t(2) by simp
  obtain cuts s where cuts: "split_cuts d (map (block_az AIRYLITE_layout pkt')
      (good_blocks AIRYLITE_layout pkt' (base AIRYLITE_getConstParam :: 'r RSDecoderConstParam))) (split_strategy d) = (cuts, s)" by force
  from airylite_l.decode_spec [OF assms(1) l cuts, of h False t]
  show ?thesis using t cuts by (auto simp: AIRYLITE_decodeMsopPkt_def mech_result_def AIRYLITE_layout_def)
qed

lemma AIRY_msop_ok:
  assumes "airy_ok (base AIRY_getConstParam) d" and "length pkt = MSOP_LEN (base AIRY_getConstParam :: 'r::floor_ceiling RSDecoderConstParam)"
  shows "\<exists>ret pkt' d'. AIRY_decodeMsopPkt h pkt (d :: ('r, 'a) DecoderAiry_scheme) = Some (ret, pkt', d') \<and> length pkt' = length pkt \<and> airy_ok (base AIRY_getConstParam) d'"
  using AIRY_msop [OF assms, of h] airy_ok_result by (metis prod.exhaust)

lemma FAIRY_msop_ok:
  assumes "airy_ok (base FAIRY_getConstParam) d" and "length pkt = MSOP_LEN (base FAIRY_getConstParam :: 'r::floor_ceiling RSDecoderConstParam)"
  shows "\<exists>ret pkt' d'. FAIRY_decodeMsopPkt h pkt (d :: ('r, 'a) DecoderFairy_scheme) = Some (ret, pkt', d') \<and> length pkt' = length pkt \<and> airy_ok (base FAIRY_getConstParam) d'"
  using FAIRY_msop [OF assms, of h] airy_ok_result by (metis prod.exhaust)

lemma AIRYLITE_msop_ok:
  assumes "mech_ok (base AIRYLITE_getConstParam) d" and "length pkt = MSOP_LEN (base AIRYLITE_getConstParam :: 'r::floor_ceiling RSDecoderConstParam)"
  shows "\<exists>ret pkt' d'. AIRYLITE_decodeMsopPkt h pkt (d :: ('r, 'a) DecoderMech_scheme) = Some (ret, pkt', d') \<and> length pkt' = length pkt \<and> mech_ok (base AIRYLITE_getConstParam) d'"
proof -
  have "cloud_rows AIRYLITE_layout = None" by (simp add: AIRYLITE_layout_def)
  then show ?thesis by (rule mech_msop_ok [OF assms(1)]) (rule AIRYLITE_msop [OF _ assms(2)])
qed

lemma airy_pose_total: "off + 28 \<le> length pkt \<Longrightarrow> \<exists>j. airy_pose h off pkt i = Some j"
  by (simp add: airy_pose_def rd_def Let_def)

lemma airy_difop_total:
  assumes "1248 \<le> length pkt"
  shows "\<exists>a. airy_difop pkt = Some a \<and> length (vert_angle_cali a) = 96 \<and> length (horiz_angle_cali a) = 96"
proof -
  obtain v g where "read_angles pkt 468 96 = Some v" "length v = 96" "read_angles pkt 756 96 = Some g" "length g = 96"
    using read_angles_total [of 468 96 pkt] read_angles_total [of 756 96 pkt] assms by auto
  then show ?thesis using assms by (simp add: airy_difop_def read_difop_def read_u8_def read_u16_def rd_def)
qed

lemma airy_difop_common:
  assumes "airy_ok c d" and "LASER_NUM c = 96" and "length pkt = 1248"
  obtains a e i x where "airy_difop pkt = Some a" "decodeDifopCommon h a d = Some e" "airy_ok c e" "frames e = frames d"
    "airy_pose h 1092 pkt (device_info e) = Some i" "read_u8 pkt 289 = Some x"
proof -
  obtain a where a: "airy_difop pkt = Some a" "length (vert_angle_cali a) = 96" "length (horiz_angle_cali a) = 96"
    using airy_difop_total [of pkt] assms(3) by auto
  obtain e where e: "decodeDifopCommon h a d = Some e" "airy_ok c e" "frames e = frames d"
    using decodeDifopCommon_inv [of c d a h] assms(1,2) a(2,3) by (auto simp: airy_ok_def)
  obtain i where "airy_pose h 1092 pkt (device_info e) = Some i" using airy_pose_total [of 1092 pkt] assms(3) by auto
  then show thesis using that [OF a(1) e] assms(3) by (simp add: read_u8_nth)
qed

lemma AIRY_difop:
  assumes "airy_ok (base AIRY_getConstParam) d" and "length pkt = DIFOP_LEN (base AIRY_getConstParam :: 'r::floor_ceiling RSDecoderConstParam)"
  shows "\<exists>d'. AIRY_decodeDifopPkt h pkt (d :: ('r, 'a) DecoderAiry_scheme) = Some d' \<and> airy_ok (base AIRY_getConstParam) d' \<and> frames d' = frames d"
proof -
  obtain a e i x where r: "airy_difop pkt = Some a" "decodeDifopCommon h a d = Some e" "airy_ok (base AIRY_getConstParam) e"
    "frames e = frames d" "airy_pose h 1092 pkt (device_info e) = Some i" "read_u8 pkt 289 = Some x"
    by (rule airy_difop_common [OF assms(1), of pkt h]) (use assms(2) in \<open>simp_all add: airy_consts\<close>)
  then show ?thesis by (simp add: AIRY_decodeDifopPkt_def airy_ok_def mech_inv_def frames_def Let_def)
qed

lemma FAIRY_difop:
  assumes "airy_ok (base FAIRY_getConstParam) d" and "length pkt = DIFOP_LEN (base FAIRY_getConstParam :: 'r::floor_ceiling RSDecoderConstParam)"
  shows "\<exists>d'. FAIRY_decodeDifopPkt h pkt (d :: ('r, 'a) DecoderMech_scheme) = Some d' \<and> airy_ok (base FAIRY_getConstParam) d' \<and> frames d' = frames d"
proof -
  obtain a e i x where r: "airy_difop pkt = Some a" "decodeDifopCommon h a d = Some e" "airy_ok (base FAIRY_getConstParam) e"
    "frames e = frames d" "airy_pose h 1092 pkt (device_info e) = Some i" "read_u8 pkt 289 = Some x"
    by (rule airy_difop_common [OF assms(1), of pkt h]) (use assms(2) in \<open>simp_all add: airy_consts\<close>)
  then show ?thesis by (simp add: FAIRY_decodeDifopPkt_def airy_ok_def mech_inv_def frames_def)
qed

lemma loadFromDifopAIRYLITE_inv:
  "chan_inv c \<Longrightarrow> unat (chan_num c) = 24 \<Longrightarrow> loadFromDifopAIRYLITE m n c = (r, c') \<Longrightarrow> chan_inv c' \<and> chan_num c' = chan_num c"
  by (auto simp: loadFromDifopAIRYLITE_def Let_def chan_inv_def set_angles_def split: option.splits if_splits)

lemma decodeDifopAngles_ok:
  assumes "mech_ok c d" and "LASER_NUM c = 24" and "342 \<le> length pkt"
  shows "\<exists>d'. decodeDifopAngles pkt d = Some d' \<and> mech_ok c d' \<and> frames d' = frames d"
proof -
  obtain ret ca where l: "loadFromDifopAIRYLITE (Some (drop 348 pkt)) (length pkt - 348) (chan_angles d) = (ret, ca)" by force
  have "chan_inv (chan_angles d)" "unat (chan_num (chan_angles d)) = 24" using assms(1,2) by (simp_all add: mech_ok_def mech_inv_def)
  from loadFromDifopAIRYLITE_inv [OF this l]
  show ?thesis using assms l
    by (auto simp: decodeDifopAngles_def read_u16_def rd_def Let_def mech_ok_def mech_inv_def clouds_ok_def frames_def)
qed

lemma AIRYLITE_difop:
  assumes "mech_ok (base AIRYLITE_getConstParam) d" and "length pkt = DIFOP_LEN (base AIRYLITE_getConstParam :: 'r::floor_ceiling RSDecoderConstParam)"
  shows "\<exists>d'. AIRYLITE_decodeDifopPkt h pkt (d :: ('r, 'a) DecoderMech_scheme) = Some d' \<and> mech_ok (base AIRYLITE_getConstParam) d' \<and> frames d' = frames d"
proof -
  let ?c = "base AIRYLITE_getConstParam :: 'r RSDecoderConstParam"
  have len: "length pkt = 540" "LASER_NUM ?c = 24" using assms(2) by (simp_all add: airy_consts)
  obtain i where i: "airy_pose h 473 pkt (device_info d) = Some i" using airy_pose_total [of 473 pkt] len by auto
  have step: "mech_ok ?c (d\<lparr>is_get_temperature := b, temperature := t, device_info := j\<rparr>)"
    "frames (d\<lparr>is_get_temperature := b, temperature := t, device_info := j\<rparr>) = frames d" for b t j
    using assms(1) by (auto simp: mech_ok_def mech_inv_def clouds_ok_def frames_def)
  have "\<exists>d'. decodeDifopAngles pkt (d\<lparr>is_get_temperature := b, temperature := t, device_info := j\<rparr>) = Some d' \<and>
      mech_ok ?c d' \<and> frames d' = frames d" for b t j
    using decodeDifopAngles_ok [OF step(1) [where b = b and t = t and j = j] len(2), of pkt] len(1) unfolding step(2) by simp
  then show ?thesis using i len(1) by (simp add: AIRYLITE_decodeDifopPkt_def read_u16_def rd_def Let_def)
qed

section \<open>IMU packets keep the contract\<close>

lemma imu_guarded_total:
  fixes d :: "('r::floor_ceiling, 'a) DecoderMech_scheme"
  assumes "\<And>imu. \<exists>i. f imu = Some i"
  shows "\<exists>d'. imu_guarded f d = Some d' \<and> fixed_part d' = fixed_part d \<and> clouds_ok d' = clouds_ok d"
proof (cases "imuDataPtr d")
  case (Some imu)
  obtain i where "f imu = Some i" using assms by blast
  then show ?thesis using Some
    by (auto simp: imu_guarded_def putImuData_def fixed_part_def clouds_ok_def)
qed (simp add: imu_guarded_def)

lemma imu_time_total: "off + 10 \<le> length pkt \<Longrightarrow> \<exists>t. imu_time h pkt off d = Some t"
  by (simp add: imu_time_def read_utc_def rd_def del: divide_eq_eq_numeral1 eq_divide_eq_numeral1)

lemma float_imu_total: "off + 24 \<le> length pkt \<Longrightarrow> \<exists>i. float_imu h pkt off t imu = Some i"
  by (simp add: float_imu_def rd_def Let_def)

text \<open>The scales of an AIRY IMU packet are in range.\<close>

definition AIRY_imu_fits :: "bytes \<Rightarrow> bool" where
  "AIRY_imu_fits pkt \<longleftrightarrow> unat (pkt ! 43) < 31 \<and> unat (pkt ! 44) < 24"

lemma gyro_range: "125 * 2 ^ n < (1073741824 :: int) \<longleftrightarrow> n < 24"
proof
  assume a: "125 * 2 ^ n < (1073741824 :: int)"
  show "n < 24"
  proof (rule ccontr)
    assume "\<not> n < 24"
    then have "(2 :: int) ^ 24 \<le> 2 ^ n" by (intro power_increasing) simp_all
    then show False using a by simp
  qed
next
  assume "n < 24"
  then have "(2 :: int) ^ n \<le> 2 ^ 23" by (intro power_increasing) simp_all
  then show "125 * 2 ^ n < (1073741824 :: int)" by simp
qed

lemma AIRY_imu_total:
  assumes "45 \<le> length pkt"
  shows "(\<exists>i. AIRY_imu h pkt t imu = Some i) \<longleftrightarrow> AIRY_imu_fits pkt"
proof -
  have "read_u8 pkt 43 = Some (pkt ! 43)" "read_u8 pkt 44 = Some (pkt ! 44)" using assms by (simp_all add: read_u8_nth)
  then show ?thesis using assms by (simp add: AIRY_imu_def AIRY_imu_fits_def gyro_range rd_def Let_def)
qed

lemma imu_guarded_ok:
  assumes "\<And>imu. \<exists>i. f imu = Some i"
  shows "airy_ok c d \<Longrightarrow> \<exists>d'. imu_guarded f d = Some d' \<and> airy_ok c d'"
    "mech_ok c d \<Longrightarrow> \<exists>d'. imu_guarded f d = Some d' \<and> mech_ok c d'"
proof -
  obtain d' where d': "imu_guarded f d = Some d'" "fixed_part d' = fixed_part d" "clouds_ok d' = clouds_ok d"
    using imu_guarded_total [of f d] assms by blast
  then show "airy_ok c d \<Longrightarrow> \<exists>d'. imu_guarded f d = Some d' \<and> airy_ok c d'"
    "mech_ok c d \<Longrightarrow> \<exists>d'. imu_guarded f d = Some d' \<and> mech_ok c d'"
    using airy_ok_cong [OF d'(2)] mech_ok_cong [OF d'(2)] by (auto simp: mech_ok_def)
qed

lemma AIRY_imu_ok:
  assumes "airy_ok c d" and "length pkt = 51" and "AIRY_imu_fits pkt"
  shows "\<exists>d'. AIRY_decodeImuPkt h pkt d = Some d' \<and> airy_ok c d'"
proof -
  obtain t where t: "imu_time h pkt 4 d = Some t" using imu_time_total [of 4 pkt] assms(2) by auto
  have "\<exists>i. AIRY_imu h pkt t imu = Some i" for imu using AIRY_imu_total assms(2,3) by force
  then show ?thesis unfolding AIRY_decodeImuPkt_def t by (intro imu_guarded_ok assms(1)) simp
qed

lemma FAIRY_imu_ok:
  assumes "airy_ok c d" and "length pkt = 51"
  shows "\<exists>d'. FAIRY_decodeImuPkt h pkt d = Some d' \<and> airy_ok c d'"
proof -
  obtain t where t: "imu_time h pkt 4 d = Some t" using imu_time_total [of 4 pkt] assms(2) by auto
  have "\<exists>i. float_imu h pkt 14 t imu = Some i" for imu using float_imu_total [of 14 pkt] assms(2) by simp
  then show ?thesis unfolding FAIRY_decodeImuPkt_def t by (intro imu_guarded_ok assms(1)) simp
qed

lemma AIRYLITE_imu_ok:
  assumes "mech_ok c d" and "length pkt = 51"
  shows "\<exists>d'. AIRYLITE_decodeImuPkt h pkt d = Some d' \<and> mech_ok c d'"
proof -
  obtain t where t: "imu_time h pkt 6 d = Some t" using imu_time_total [of 6 pkt] assms(2) by auto
  have "\<exists>i. float_imu h pkt 16 t imu = Some i" for imu using float_imu_total [of 16 pkt] assms(2) by simp
  then show ?thesis unfolding AIRYLITE_decodeImuPkt_def t by (intro imu_guarded_ok assms(1)) simp
qed

section \<open>The contract with the driver\<close>

lemma AIRY_tables: "length (CHAN_TSS AIRY_getConstParam) = 128 \<and> length (CHAN_AZIS AIRY_getConstParam) = 128 \<and>
    LASER_NUM (base AIRY_getConstParam) < 65536"
  unfolding AIRY_getConstParam_def
  by (intro conjI set_firing_length [THEN conjunct1] set_firing_length [THEN conjunct2])
    (simp_all add: AIRY_firing_tss_airy_m_def set_firing_def)

lemma FAIRY_tables: "length (CHAN_TSS FAIRY_getConstParam) = 128 \<and> length (CHAN_AZIS FAIRY_getConstParam) = 128 \<and>
    LASER_NUM (base FAIRY_getConstParam) < 65536"
  unfolding FAIRY_getConstParam_def
  by (intro conjI set_firing_length [THEN conjunct1] set_firing_length [THEN conjunct2])
    (simp_all add: FAIRY_firing_tss_def set_firing_def)

lemma AIRYLITE_tables: "length (CHAN_TSS AIRYLITE_getConstParam) = 128 \<and> length (CHAN_AZIS AIRYLITE_getConstParam) = 128 \<and>
    LASER_NUM (base AIRYLITE_getConstParam) < 65536"
  unfolding AIRYLITE_getConstParam_def
  by (intro conjI set_firing_length [THEN conjunct1] set_firing_length [THEN conjunct2])
    (simp_all add: AIRYLITE_firing_tss_def set_firing_def)

lemma mk_DecoderAIRY_ok: "mk_DecoderAIRY stof files p = Some d \<Longrightarrow> airy_ok (base AIRY_getConstParam) d"
  unfolding mk_DecoderAIRY_def map_option_eq_Some
  by (elim exE conjE) (drule mk_DecoderMech_ok, auto simp: AIRY_tables airy_ok_def mech_ok_def mech_inv_def DecoderMech.defs
    DecoderFairy.defs DecoderAiry.defs)

lemma mk_DecoderFAIRY_ok: "mk_DecoderFAIRY stof files p = Some d \<Longrightarrow> airy_ok (base FAIRY_getConstParam) d"
  unfolding mk_DecoderFAIRY_def map_option_eq_Some
  by (elim exE conjE) (drule mk_DecoderMech_ok, auto simp: FAIRY_tables airy_ok_def mech_ok_def mech_inv_def DecoderMech.defs
    DecoderFairy.defs)

lemma mk_DecoderAIRYLITE_ok: "mk_DecoderAIRYLITE stof files p = Some d \<Longrightarrow> mech_ok (base AIRYLITE_getConstParam) d"
  unfolding mk_DecoderAIRYLITE_def by (rule mk_DecoderMech_ok) (simp_all add: AIRYLITE_tables)

lemma mech_imu_const:
  assumes "mech_inv c d"
  shows "IMU_LEN (const_param d) = IMU_LEN c \<and> IMU_ID_LEN (const_param d) = IMU_ID_LEN c"
proof -
  obtain x where "const_param d = c\<lparr>DISTANCE_RES := x\<rparr>" using assms unfolding mech_inv_def by blast
  then show ?thesis by simp
qed

lemma airy_lens:
  "MSOP_ID_LEN (base AIRY_getConstParam) \<le> MSOP_LEN (base AIRY_getConstParam)" "6 \<le> MSOP_LEN (base AIRY_getConstParam)"
  "DIFOP_ID_LEN (base AIRY_getConstParam) \<le> DIFOP_LEN (base AIRY_getConstParam)"
  "MSOP_ID_LEN (base FAIRY_getConstParam) \<le> MSOP_LEN (base FAIRY_getConstParam)" "6 \<le> MSOP_LEN (base FAIRY_getConstParam)"
  "DIFOP_ID_LEN (base FAIRY_getConstParam) \<le> DIFOP_LEN (base FAIRY_getConstParam)"
  "MSOP_ID_LEN (base AIRYLITE_getConstParam) \<le> MSOP_LEN (base AIRYLITE_getConstParam)" "6 \<le> MSOP_LEN (base AIRYLITE_getConstParam)"
  "DIFOP_ID_LEN (base AIRYLITE_getConstParam) \<le> DIFOP_LEN (base AIRYLITE_getConstParam)"
  "IMU_LEN (base AIRY_getConstParam) = 51" "IMU_ID_LEN (base AIRY_getConstParam) = 4"
  "IMU_LEN (base FAIRY_getConstParam) = 51" "IMU_ID_LEN (base FAIRY_getConstParam) = 4"
  "IMU_LEN (base AIRYLITE_getConstParam) = 51" "IMU_ID_LEN (base AIRYLITE_getConstParam) = 4"
  by (simp_all add: airy_consts)

lemma AIRY_difop_ok:
  "airy_ok (base AIRY_getConstParam) (d :: ('r::floor_ceiling, 'a) DecoderAiry_scheme) \<Longrightarrow>
    length pkt = DIFOP_LEN (base AIRY_getConstParam :: 'r RSDecoderConstParam) \<Longrightarrow>
    \<exists>d'. AIRY_decodeDifopPkt h pkt d = Some d' \<and> airy_ok (base AIRY_getConstParam) d'"
  using AIRY_difop by blast

lemma FAIRY_difop_ok:
  "airy_ok (base FAIRY_getConstParam) (d :: ('r::floor_ceiling, 'a) DecoderFairy_scheme) \<Longrightarrow>
    length pkt = DIFOP_LEN (base FAIRY_getConstParam :: 'r RSDecoderConstParam) \<Longrightarrow>
    \<exists>d'. FAIRY_decodeDifopPkt h pkt d = Some d' \<and> airy_ok (base FAIRY_getConstParam) d'"
  using FAIRY_difop by blast

lemma AIRYLITE_difop_ok:
  "mech_ok (base AIRYLITE_getConstParam) (d :: ('r::floor_ceiling, 'a) DecoderMech_scheme) \<Longrightarrow>
    length pkt = DIFOP_LEN (base AIRYLITE_getConstParam :: 'r RSDecoderConstParam) \<Longrightarrow>
    \<exists>d'. AIRYLITE_decodeDifopPkt h pkt d = Some d' \<and> mech_ok (base AIRYLITE_getConstParam) d'"
  using AIRYLITE_difop by blast

lemma airy_imu_const:
  "airy_ok c d \<Longrightarrow> IMU_LEN (const_param d) = IMU_LEN c \<and> IMU_ID_LEN (const_param d) = IMU_ID_LEN c"
  "mech_ok c d \<Longrightarrow> IMU_LEN (const_param d) = IMU_LEN c \<and> IMU_ID_LEN (const_param d) = IMU_ID_LEN c"
  using mech_imu_const [of c d] by (simp_all add: airy_ok_def mech_ok_def)

interpretation airy: imu_contract "airy_ok (base AIRY_getConstParam)" "base AIRY_getConstParam"
  "AIRY_decodeMsopPkt h" "AIRY_decodeDifopPkt h" "AIRY_decodeImuPkt h" AIRY_imu_fits for h
  by unfold_locales
    ((rule airy_contract AIRY_msop_ok AIRY_difop_ok airy_imu_const, assumption+) | rule airy_lens | simp add: airy_lens AIRY_imu_ok)+

interpretation fairy: imu_contract "airy_ok (base FAIRY_getConstParam)" "base FAIRY_getConstParam"
  "FAIRY_decodeMsopPkt h" "FAIRY_decodeDifopPkt h" "FAIRY_decodeImuPkt h" "\<lambda>_. True" for h
  by unfold_locales
    ((rule airy_contract FAIRY_msop_ok FAIRY_difop_ok airy_imu_const, assumption+) | rule airy_lens | simp add: airy_lens FAIRY_imu_ok)+

interpretation airylite: imu_contract "mech_ok (base AIRYLITE_getConstParam)" "base AIRYLITE_getConstParam"
  "AIRYLITE_decodeMsopPkt h" "AIRYLITE_decodeDifopPkt h" "AIRYLITE_decodeImuPkt h" "\<lambda>_. True" for h
  by unfold_locales
    ((rule mech_contract AIRYLITE_msop_ok AIRYLITE_difop_ok airy_imu_const, assumption+) | rule airy_lens | simp add: airy_lens AIRYLITE_imu_ok)+

end
