(* ===== verification/Rs_Mems.thy ===== *)
theory Rs_Mems
  imports Rs_Mech
begin

text \<open>
  The solid-state lidars of rs_driver whose packets are numbered (\<^verbatim>\<open>driver/decoder/decoder_RSM1.hpp\<close>,
  \<^verbatim>\<open>decoder_RSM2.hpp\<close>, \<^verbatim>\<open>decoder_RSM3.hpp\<close>, \<^verbatim>\<open>decoder_RSE1.hpp\<close>, \<^verbatim>\<open>decoder_RSMX.hpp\<close>, \<^verbatim>\<open>decoder_RSM1_Jumbo.hpp\<close>):
  frames are cut by packet number, and every packet holds a fixed number of points. Shown here: every packet is decoded
  within its bounds, no point is lost, and the clouds keep their shape.
\<close>

section \<open>Packets\<close>

record 'r DecoderMems = "'r Decoder" +
  seq_strategy :: SplitBySeq

text \<open>The layout of a packet behind its header of 32 bytes: the size of a block, whether the time of a block has
  16 bits, where its channels begin and their size; how the coordinates of a channel are computed from
  its distance. A return of a channel is the place of its distance and that of its intensity.\<close>

record 'r mems_layout =
  m_blk_size :: nat
  m_time16 :: bool
  m_chan_off :: nat
  m_chan_size :: nat
  m_xyz :: "'r host \<Rightarrow> bytes \<Rightarrow> nat \<Rightarrow> 'r \<Rightarrow> ('r \<times> 'r \<times> 'r) option"

type_synonym mems_return = "nat \<times> nat"

definition mems_point :: "'r::floor_ceiling host \<Rightarrow> 'r mems_layout \<Rightarrow> bytes \<Rightarrow> 'r \<Rightarrow> nat \<Rightarrow> nat \<Rightarrow> mems_return
    \<Rightarrow> ('r, 'a) Decoder_scheme \<Rightarrow> 'r point option option" where
  "mems_point h L pkt point_time off chan x d = (case x of (dist_off, intens_off) \<Rightarrow> do {
     raw \<leftarrow> read_u16 pkt (off + dist_off);
     intens \<leftarrow> read_u8 pkt (off + intens_off);
     let distance = of_nat (unat (ntohs raw)) * DISTANCE_RES (const_param d);
     if distance_in (distance_section d) distance
     then do {
       xyz \<leftarrow> m_xyz L h pkt off distance;
       Some (Some \<lparr>pt_xyz = Some (h_transform h xyz), pt_intensity = intens, pt_timestamp = point_time,
         pt_ring = of_nat chan, pt_feature = None\<rparr>)
     }
     else Some (if \<not> dense_points (param d)
       then Some \<lparr>pt_xyz = None, pt_intensity = 0, pt_timestamp = point_time, pt_ring = of_nat chan, pt_feature = None\<rparr>
       else None)
   })"

definition mems_add :: "'r::floor_ceiling host \<Rightarrow> 'r mems_layout \<Rightarrow> bytes \<Rightarrow> 'r \<Rightarrow> nat \<Rightarrow> nat \<Rightarrow> mems_return
    \<Rightarrow> ('r, 'a) Decoder_scheme \<Rightarrow> ('r, 'a) Decoder_scheme option" where
  "mems_add h L pkt point_time off chan x d = do {
     p \<leftarrow> mems_point h L pkt point_time off chan x d;
     Some (d\<lparr>point_cloud := point_cloud d @ (case p of None \<Rightarrow> [] | Some p \<Rightarrow> [p])\<rparr>)
   }"

definition mems_channel :: "'r::floor_ceiling host \<Rightarrow> 'r mems_layout \<Rightarrow> mems_return list \<Rightarrow> bytes \<Rightarrow> 'r \<Rightarrow> nat \<Rightarrow> nat
    \<Rightarrow> ('r, 'a) Decoder_scheme \<Rightarrow> ('r, 'a) Decoder_scheme option" where
  "mems_channel h L xs pkt point_time blk chan d =
     foldM (mems_add h L pkt point_time (32 + blk * m_blk_size L + m_chan_off L + chan * m_chan_size L) chan) xs d"

definition mems_time :: "'r::floor_ceiling mems_layout \<Rightarrow> bytes \<Rightarrow> nat \<Rightarrow> 'r option" where
  "mems_time L pkt blk =
     (if m_time16 L then map_option (\<lambda>t. of_nat (unat (ntohs t)) / 1000000) (read_u16 pkt (32 + blk * m_blk_size L))
      else map_option (\<lambda>t. of_nat (unat t) / 1000000) (read_u8 pkt (32 + blk * m_blk_size L)))"

definition mems_block :: "'r::floor_ceiling host \<Rightarrow> 'r mems_layout \<Rightarrow> mems_return list \<Rightarrow> bytes \<Rightarrow> 'r \<Rightarrow> nat
    \<Rightarrow> ('r, 'a) Decoder_scheme \<Rightarrow> ('r, 'a) Decoder_scheme option" where
  "mems_block h L xs pkt pkt_ts blk d = do {
     t \<leftarrow> mems_time L pkt blk;
     d \<leftarrow> foldM (mems_channel h L xs pkt (pkt_ts + t) blk) [0..<CHANNELS_PER_BLOCK (const_param d)] d;
     Some (d\<lparr>prev_point_ts := pkt_ts + t\<rparr>)
   }"

text \<open>The time of a packet; without the clock of the lidar, the host's clock is read twice.\<close>

definition mems_pkt_ts :: "'r::floor_ceiling host \<Rightarrow> bytes \<Rightarrow> ('r, 'a) Decoder_scheme \<Rightarrow> ('r \<times> bytes) option" where
  "mems_pkt_ts h pkt d =
     (if use_lidar_clock (param d)
      then do { t \<leftarrow> read_utc pkt 10; Some (of_nat (unat (parseTimeUTCWithUs (h_timezone h) t)) / 1000000, pkt) }
      else do {
        let ts = h_clock h 0;
        let pkt_ts = of_nat (unat (h_clock h 1)) / 1000000 - packet_duration d;
        pkt \<leftarrow> (if write_pkt_ts d then write_utc pkt 10 (createTimeUTCWithUs (h_timezone h) ts) else Some pkt);
        Some (pkt_ts, pkt)
      })"

definition mems_temp :: "bytes \<Rightarrow> ('r::floor_ceiling, 'a) Decoder_scheme \<Rightarrow> ('r, 'a) Decoder_scheme option" where
  "mems_temp pkt d = do {
     t \<leftarrow> read_u8 pkt 31;
     Some (d\<lparr>temperature := of_nat (unat t) - TEMPERATURE_RES (const_param d)\<rparr>)
   }"

text \<open>The frame cut before the packet, and its blocks.\<close>

definition mems_split :: "u16 \<Rightarrow> 'r \<Rightarrow> ('r, 'a) DecoderMems_scheme \<Rightarrow> bool \<times> ('r, 'a) DecoderMems_scheme" where
  "mems_split pkt_seq pkt_ts d =
     (let (new, s) = seq_newPacket pkt_seq (seq_strategy d); d = d\<lparr>seq_strategy := s\<rparr>
      in (new, if new then (cb_split_frame d)\<lparr>first_point_ts := pkt_ts\<rparr> else d))"

definition mems_decode :: "'r::floor_ceiling host \<Rightarrow> 'r mems_layout \<Rightarrow> mems_return list \<Rightarrow> bool \<Rightarrow> bytes \<Rightarrow> 'r
    \<Rightarrow> ('r, 'a) DecoderMems_scheme \<Rightarrow> (bool \<times> bytes \<times> ('r, 'a) DecoderMems_scheme) option" where
  "mems_decode h L xs cut_at_max pkt pkt_ts d = do {
     s \<leftarrow> read_u16 pkt 4;
     let pkt_seq = ntohs s;
     let (ret, d) = mems_split pkt_seq pkt_ts d;
     d \<leftarrow> foldM (mems_block h L xs pkt pkt_ts) [0..<BLOCKS_PER_PKT (const_param d)] d;
     let d = (if cut_at_max \<and> maxSeq (seq_strategy d) = pkt_seq then cb_split_frame d else d);
     Some (ret, pkt, d\<lparr>prev_pkt_ts := pkt_ts\<rparr>)
   }"

definition mk_DecoderMems :: "'r::floor_ceiling RSDecoderConstParam \<Rightarrow> nat \<Rightarrow> 'r RSDecoderParam \<Rightarrow> 'r DecoderMems" where
  "mk_DecoderMems c single_pkt_num p = Decoder.extend
     ((mk_Decoder c p)\<lparr>packet_duration := 0.1 / of_nat single_pkt_num, angles_ready := True\<rparr>)
     (DecoderMems.fields mk_SplitBySeq)"

text \<open>Coordinates by two angles and by a vector. \<open>swap16\<close> is \<^verbatim>\<open>RS_SWAP_INT16\<close>.\<close>

definition angles_xyz :: "'r::floor_ceiling host \<Rightarrow> bytes \<Rightarrow> nat \<Rightarrow> 'r \<Rightarrow> ('r \<times> 'r \<times> 'r) option" where
  "angles_xyz h pkt off distance = do {
     p \<leftarrow> read_u16 pkt (off + 2); y \<leftarrow> read_u16 pkt (off + 4);
     let pitch = uint (ntohs p) - 32768;
     let yaw = uint (ntohs y) - 32768;
     Some (distance * COS (h_trig h) pitch * COS (h_trig h) yaw, distance * COS (h_trig h) pitch * SIN (h_trig h) yaw,
       distance * SIN (h_trig h) pitch)
   }"

definition swap16 :: "u16 \<Rightarrow> u16" where
  "swap16 x = be_dec (le_enc 2 x)"

definition vector_xyz :: "(u16 \<Rightarrow> int) \<Rightarrow> nat \<Rightarrow> 'r::floor_ceiling host \<Rightarrow> bytes \<Rightarrow> nat \<Rightarrow> 'r \<Rightarrow> ('r \<times> 'r \<times> 'r) option" where
  "vector_xyz x_val vec_off h pkt off distance = do {
     x \<leftarrow> read_u16 pkt (off + vec_off); y \<leftarrow> read_u16 pkt (off + vec_off + 2); z \<leftarrow> read_u16 pkt (off + vec_off + 4);
     let vector_x = x_val (swap16 x);
     let vector_y = sint (swap16 y);
     let vector_z = sint (swap16 z);
     Some (of_int vector_x * distance / 32768, of_int vector_y * distance / 32768, of_int vector_z * distance / 32768)
   }"

section \<open>RSM1\<close>

definition RSM1_getConstParam :: "'r::floor_ceiling RSDecoderConstParam" where
  "RSM1_getConstParam = \<lparr>MSOP_LEN = 1210, DIFOP_LEN = 256, MSOP_ID_LEN = 4, DIFOP_ID_LEN = 8,
     MSOP_ID = [0x55, 0xAA, 0x5A, 0xA5, 0, 0, 0, 0], DIFOP_ID = [0xA5, 0xFF, 0x00, 0x5A, 0x11, 0x11, 0x55, 0x55],
     BLOCK_ID = [0, 0], LASER_NUM = 5, BLOCKS_PER_PKT = 25, CHANNELS_PER_BLOCK = 5,
     DISTANCE_MIN = 0.2, DISTANCE_MAX = 200, DISTANCE_RES = 0.005, TEMPERATURE_RES = 80,
     IMU_LEN = 0, IMU_ID_LEN = 0, IMU_ID = []\<rparr>"

definition RSM1_layout :: "'r::floor_ceiling mems_layout" where
  "RSM1_layout = \<lparr>m_blk_size = 47, m_time16 = False, m_chan_off = 2, m_chan_size = 9, m_xyz = angles_xyz\<rparr>"

definition RSM1_getEchoMode :: "u8 \<Rightarrow> RSEchoMode" where
  "RSM1_getEchoMode mode = (if mode = 0x00 then ECHO_DUAL else ECHO_SINGLE)"

definition mk_DecoderRSM1 :: "'r::floor_ceiling RSDecoderParam \<Rightarrow> 'r DecoderMems" where
  "mk_DecoderRSM1 = mk_DecoderMems RSM1_getConstParam 630"

text \<open>Device data of a DIFOP packet, which RSM2 reads, too.\<close>

definition RSM1_device :: "'r host \<Rightarrow> bytes \<Rightarrow> ('r, 'a) Decoder_scheme \<Rightarrow> ('r, 'a) Decoder_scheme option" where
  "RSM1_device h pkt d =
     (if h_difop_parse h
      then do {
        n \<leftarrow> rd pkt 38 6; mac \<leftarrow> rd pkt 18 6; tv \<leftarrow> rd pkt 28 5; bv \<leftarrow> rd pkt 33 5; v \<leftarrow> read_u16 pkt 63;
        Some (d\<lparr>device_info := device_info d\<lparr>di_state := True, di_sn := n, di_mac := mac, di_top_ver := tv, di_bottom_ver := bv\<rparr>,
          device_status := \<lparr>ds_voltage = ntohs v, ds_state = True\<rparr>\<rparr>)
      }
      else Some d)"

definition RSM1_decodeDifopPkt :: "'r host \<Rightarrow> bytes \<Rightarrow> ('r, 'a) Decoder_scheme \<Rightarrow> ('r, 'a) Decoder_scheme option" where
  "RSM1_decodeDifopPkt h pkt d = do {
     mode \<leftarrow> read_u8 pkt 44;
     RSM1_device h pkt (d\<lparr>echo_mode := RSM1_getEchoMode mode\<rparr>)
   }"

definition RSM1_decodeMsopPkt :: "'r::floor_ceiling host \<Rightarrow> bytes \<Rightarrow> ('r, 'a) DecoderMems_scheme
    \<Rightarrow> (bool \<times> bytes \<times> ('r, 'a) DecoderMems_scheme) option" where
  "RSM1_decodeMsopPkt h pkt d = do {
     d \<leftarrow> mems_temp pkt d;
     let d = d\<lparr>is_get_temperature := True\<rparr>;
     (pkt_ts, pkt) \<leftarrow> mems_pkt_ts h pkt d;
     mems_decode h RSM1_layout [(0, 6)] True pkt pkt_ts d
   }"

section \<open>RSM2\<close>

definition RSM2_getConstParam :: "'r::floor_ceiling RSDecoderConstParam" where
  "RSM2_getConstParam = \<lparr>MSOP_LEN = 1342, DIFOP_LEN = 256, MSOP_ID_LEN = 4, DIFOP_ID_LEN = 8,
     MSOP_ID = [0x55, 0xAA, 0x5A, 0xA5, 0, 0, 0, 0], DIFOP_ID = [0xA5, 0xFF, 0x00, 0x5A, 0x11, 0x11, 0x55, 0x55],
     BLOCK_ID = [0, 0], LASER_NUM = 5, BLOCKS_PER_PKT = 25, CHANNELS_PER_BLOCK = 5,
     DISTANCE_MIN = 0.2, DISTANCE_MAX = 250, DISTANCE_RES = 0.005, TEMPERATURE_RES = 80,
     IMU_LEN = 0, IMU_ID_LEN = 0, IMU_ID = []\<rparr>"

definition RSM2_layout :: "'r::floor_ceiling mems_layout" where
  "RSM2_layout = \<lparr>m_blk_size = 52, m_time16 = False, m_chan_off = 2, m_chan_size = 10, m_xyz = vector_xyz sint 2\<rparr>"

definition RSM2_getEchoMode :: "u8 \<Rightarrow> RSEchoMode" where
  "RSM2_getEchoMode mode = (if mode = 0x00 then ECHO_DUAL else ECHO_SINGLE)"

definition mk_DecoderRSM2 :: "'r::floor_ceiling RSDecoderParam \<Rightarrow> 'r DecoderMems" where
  "mk_DecoderRSM2 = mk_DecoderMems RSM2_getConstParam 1260"

definition RSM2_decodeDifopPkt :: "'r host \<Rightarrow> bytes \<Rightarrow> ('r, 'a) Decoder_scheme \<Rightarrow> ('r, 'a) Decoder_scheme option" where
  "RSM2_decodeDifopPkt h pkt d = do {
     mode \<leftarrow> read_u8 pkt 44;
     RSM1_device h pkt (d\<lparr>echo_mode := RSM2_getEchoMode mode\<rparr>)
   }"

definition RSM2_decodeMsopPkt :: "'r::floor_ceiling host \<Rightarrow> bytes \<Rightarrow> ('r, 'a) DecoderMems_scheme
    \<Rightarrow> (bool \<times> bytes \<times> ('r, 'a) DecoderMems_scheme) option" where
  "RSM2_decodeMsopPkt h pkt d = do {
     d \<leftarrow> mems_temp pkt d;
     let d = d\<lparr>is_get_temperature := True\<rparr>;
     (pkt_ts, pkt) \<leftarrow> mems_pkt_ts h pkt d;
     mems_decode h RSM2_layout [(0, 8)] False pkt pkt_ts d
   }"

section \<open>RSM3\<close>

definition RSM3_getConstParam :: "'r::floor_ceiling RSDecoderConstParam" where
  "RSM3_getConstParam = \<lparr>MSOP_LEN = 1448, DIFOP_LEN = 512, MSOP_ID_LEN = 4, DIFOP_ID_LEN = 8,
     MSOP_ID = [0x55, 0xAA, 0x5A, 0xA5, 0, 0, 0, 0], DIFOP_ID = [0xA5, 0xFF, 0x00, 0x5A, 0x11, 0x11, 0x55, 0x55],
     BLOCK_ID = [0, 0], LASER_NUM = 28, BLOCKS_PER_PKT = 5, CHANNELS_PER_BLOCK = 28,
     DISTANCE_MIN = 0.1, DISTANCE_MAX = 300, DISTANCE_RES = 0.005, TEMPERATURE_RES = 80,
     IMU_LEN = 0, IMU_ID_LEN = 0, IMU_ID = []\<rparr>"

definition RSM3_layout :: "'r::floor_ceiling mems_layout" where
  "RSM3_layout = \<lparr>m_blk_size = 282, m_time16 = True, m_chan_off = 2, m_chan_size = 10, m_xyz = vector_xyz sint 2\<rparr>"

definition mk_DecoderRSM3 :: "'r::floor_ceiling RSDecoderParam \<Rightarrow> 'r DecoderMems" where
  "mk_DecoderRSM3 = mk_DecoderMems RSM3_getConstParam 2270"

text \<open>The DIFOP packet has no effect; its time is only computed.\<close>

definition RSM3_decodeDifopPkt :: "'r host \<Rightarrow> bytes \<Rightarrow> ('r, 'a) Decoder_scheme \<Rightarrow> ('r, 'a) Decoder_scheme option" where
  "RSM3_decodeDifopPkt h pkt d = (if h_difop_parse h then do { t \<leftarrow> read_utc pkt 112; Some d } else Some d)"

definition RSM3_decodeMsopPkt :: "'r::floor_ceiling host \<Rightarrow> bytes \<Rightarrow> ('r, 'a) DecoderMems_scheme
    \<Rightarrow> (bool \<times> bytes \<times> ('r, 'a) DecoderMems_scheme) option" where
  "RSM3_decodeMsopPkt h pkt d = do {
     d \<leftarrow> mems_temp pkt d;
     (pkt_ts, pkt) \<leftarrow> mems_pkt_ts h pkt d;
     mems_decode h RSM3_layout [(0, 8)] False pkt pkt_ts d
   }"

section \<open>RSE1\<close>

definition RSE1_getConstParam :: "'r::floor_ceiling RSDecoderConstParam" where
  "RSE1_getConstParam = \<lparr>MSOP_LEN = 1200, DIFOP_LEN = 256, MSOP_ID_LEN = 4, DIFOP_ID_LEN = 8,
     MSOP_ID = [0x55, 0xAA, 0x5A, 0xA5, 0, 0, 0, 0], DIFOP_ID = [0xA5, 0xFF, 0x00, 0x5A, 0x11, 0x11, 0x55, 0x55],
     BLOCK_ID = [0, 0], LASER_NUM = 1, BLOCKS_PER_PKT = 96, CHANNELS_PER_BLOCK = 1,
     DISTANCE_MIN = 0, DISTANCE_MAX = 200, DISTANCE_RES = 0.005, TEMPERATURE_RES = 80,
     IMU_LEN = 0, IMU_ID_LEN = 0, IMU_ID = []\<rparr>"

definition RSE1_layout :: "'r::floor_ceiling mems_layout" where
  "RSE1_layout = \<lparr>m_blk_size = 12, m_time16 = True, m_chan_off = 2, m_chan_size = 10, m_xyz = vector_xyz sint 2\<rparr>"

definition RSE1_getEchoMode :: "u8 \<Rightarrow> RSEchoMode" where
  "RSE1_getEchoMode mode = (if mode = 0x00 then ECHO_DUAL else ECHO_SINGLE)"

definition mk_DecoderRSE1 :: "'r::floor_ceiling RSDecoderParam \<Rightarrow> 'r DecoderMems" where
  "mk_DecoderRSE1 = mk_DecoderMems RSE1_getConstParam 288"

text \<open>The IMU data of a DIFOP packet, as floats in network byte order.\<close>

definition read_float :: "'r host \<Rightarrow> bytes \<Rightarrow> nat \<Rightarrow> 'r option" where
  "read_float h pkt off = map_option (\<lambda>b. h_float h (be_dec b)) (rd pkt off 4)"

definition RSE1_imu :: "'r::floor_ceiling host \<Rightarrow> bytes \<Rightarrow> 'r ImuData \<Rightarrow> ('r, 'a) Decoder_scheme \<Rightarrow> 'r ImuData option" where
  "RSE1_imu h pkt imu d = do {
     t \<leftarrow> (if use_lidar_clock (param d)
       then map_option (\<lambda>t. of_nat (unat (parseTimeUTCWithUs (h_timezone h) t)) / 1000000) (read_utc pkt 103)
       else Some (of_nat (unat (h_clock h 0)) / 1000000));
     ax \<leftarrow> read_float h pkt 208; ay \<leftarrow> read_float h pkt 212; az \<leftarrow> read_float h pkt 216;
     gx \<leftarrow> read_float h pkt 220; gy \<leftarrow> read_float h pkt 224; gz \<leftarrow> read_float h pkt 228;
     Some (imu\<lparr>imu_state := True, imu_timestamp := t, linear_acceleration_x := ax, linear_acceleration_y := ay,
       linear_acceleration_z := az, angular_velocity_x := gx, angular_velocity_y := gy, angular_velocity_z := gz\<rparr>)
   }"

definition RSE1_decodeDifopPkt :: "'r::floor_ceiling host \<Rightarrow> bytes \<Rightarrow> ('r, 'a) Decoder_scheme \<Rightarrow> ('r, 'a) Decoder_scheme option" where
  "RSE1_decodeDifopPkt h pkt d =
     (if h_difop_parse h
      then do {
        d \<leftarrow> (case imuDataPtr d of
            None \<Rightarrow> Some d
          | Some imu \<Rightarrow> if cb_imu_registered d \<and> \<not> imu_state imu
              then do { imu \<leftarrow> RSE1_imu h pkt imu d; putImuData (d\<lparr>imuDataPtr := Some imu\<rparr>) }
              else Some d);
        Some (d\<lparr>device_info := device_info d\<lparr>di_state := True\<rparr>, device_status := device_status d\<lparr>ds_state := True\<rparr>\<rparr>)
      }
      else Some d)"

definition RSE1_decodeMsopPkt :: "'r::floor_ceiling host \<Rightarrow> bytes \<Rightarrow> ('r, 'a) DecoderMems_scheme
    \<Rightarrow> (bool \<times> bytes \<times> ('r, 'a) DecoderMems_scheme) option" where
  "RSE1_decodeMsopPkt h pkt d = do {
     d \<leftarrow> mems_temp pkt d;
     let d = d\<lparr>is_get_temperature := True\<rparr>;
     (pkt_ts, pkt) \<leftarrow> mems_pkt_ts h pkt d;
     mems_decode h RSE1_layout [(0, 8)] False pkt pkt_ts d
   }"

section \<open>RSMX\<close>

text \<open>The x coordinate of the vector is kept in a \<^verbatim>\<open>uint16_t\<close>.\<close>

definition RSMX_getConstParam :: "'r::floor_ceiling RSDecoderConstParam" where
  "RSMX_getConstParam = \<lparr>MSOP_LEN = 1404, DIFOP_LEN = 256, MSOP_ID_LEN = 4, DIFOP_ID_LEN = 8,
     MSOP_ID = [0x55, 0xAA, 0x5A, 0xA5, 0, 0, 0, 0], DIFOP_ID = [0xA5, 0xFF, 0x00, 0x5A, 0x11, 0x11, 0x55, 0x55],
     BLOCK_ID = [0, 0], LASER_NUM = 2, BLOCKS_PER_PKT = 50, CHANNELS_PER_BLOCK = 2,
     DISTANCE_MIN = 0.2, DISTANCE_MAX = 200, DISTANCE_RES = 0.005, TEMPERATURE_RES = 80,
     IMU_LEN = 0, IMU_ID_LEN = 0, IMU_ID = []\<rparr>"

definition RSMX_layout :: "'r::floor_ceiling mems_layout" where
  "RSMX_layout = \<lparr>m_blk_size = 27, m_time16 = False, m_chan_off = 1, m_chan_size = 13, m_xyz = vector_xyz uint 4\<rparr>"

definition RSMX_getEchoMode :: "u8 \<Rightarrow> RSEchoMode" where
  "RSMX_getEchoMode mode = (if mode = 0x00 then ECHO_DUAL else ECHO_SINGLE)"

definition mk_DecoderRSMX :: "'r::floor_ceiling RSDecoderParam \<Rightarrow> 'r DecoderMems" where
  "mk_DecoderRSMX = mk_DecoderMems RSMX_getConstParam 630"

definition RSMX_decodeDifopPkt :: "'r host \<Rightarrow> bytes \<Rightarrow> ('r, 'a) Decoder_scheme \<Rightarrow> ('r, 'a) Decoder_scheme option" where
  "RSMX_decodeDifopPkt h pkt d =
     (if h_difop_parse h
      then do {
        n \<leftarrow> rd pkt 38 4;
        Some (d\<lparr>device_info := device_info d\<lparr>di_sn := n @ drop 4 (di_sn (device_info d)), di_state := True\<rparr>,
          device_status := device_status d\<lparr>ds_state := False\<rparr>\<rparr>)
      }
      else Some d)"

definition RSMX_decodeMsopPkt :: "'r::floor_ceiling host \<Rightarrow> bytes \<Rightarrow> ('r, 'a) DecoderMems_scheme
    \<Rightarrow> (bool \<times> bytes \<times> ('r, 'a) DecoderMems_scheme) option" where
  "RSMX_decodeMsopPkt h pkt d = do {
     d \<leftarrow> mems_temp pkt d;
     let d = d\<lparr>is_get_temperature := True\<rparr>;
     (pkt_ts, pkt) \<leftarrow> mems_pkt_ts h pkt d;
     mode \<leftarrow> read_u8 pkt 8;
     mems_decode h RSMX_layout (if mode = 0 then [(0, 10), (2, 11)] else [(0, 10)]) False pkt pkt_ts d
   }"

section \<open>RSM1 Jumbo\<close>

text \<open>A jumbo packet holds 63 packets of 984 bytes, each with an id of its own.\<close>

definition RSM1_Jumbo_getConstParam :: "'r::floor_ceiling RSDecoderConstParam" where
  "RSM1_Jumbo_getConstParam = \<lparr>MSOP_LEN = 62152, DIFOP_LEN = 256, MSOP_ID_LEN = 4, DIFOP_ID_LEN = 8,
     MSOP_ID = [0x55, 0xAA, 0x5A, 0xA5, 0, 0, 0, 0], DIFOP_ID = [0xA5, 0xFF, 0x00, 0x5A, 0x11, 0x11, 0x55, 0x55],
     BLOCK_ID = [0, 0], LASER_NUM = 5, BLOCKS_PER_PKT = 25, CHANNELS_PER_BLOCK = 5,
     DISTANCE_MIN = 0.2, DISTANCE_MAX = 200, DISTANCE_RES = 0.005, TEMPERATURE_RES = 80,
     IMU_LEN = 0, IMU_ID_LEN = 0, IMU_ID = []\<rparr>"

definition RSM1_Jumbo_layout :: "'r::floor_ceiling mems_layout" where
  "RSM1_Jumbo_layout = \<lparr>m_blk_size = 37, m_time16 = False, m_chan_off = 2, m_chan_size = 7, m_xyz = angles_xyz\<rparr>"

definition RSM1_Jumbo_getEchoMode :: "u8 \<Rightarrow> RSEchoMode" where
  "RSM1_Jumbo_getEchoMode mode = (if mode = 0x00 then ECHO_DUAL else ECHO_SINGLE)"

definition mk_DecoderRSM1_Jumbo :: "'r::floor_ceiling RSDecoderParam \<Rightarrow> 'r DecoderMems" where
  "mk_DecoderRSM1_Jumbo = mk_DecoderMems RSM1_Jumbo_getConstParam 630"

definition RSM1_Jumbo_decodeDifopPkt :: "'r host \<Rightarrow> bytes \<Rightarrow> ('r, 'a) Decoder_scheme \<Rightarrow> ('r, 'a) Decoder_scheme option" where
  "RSM1_Jumbo_decodeDifopPkt h pkt d = do {
     mode \<leftarrow> read_u8 pkt 44;
     Some (d\<lparr>echo_mode := RSM1_Jumbo_getEchoMode mode\<rparr>)
   }"

definition RSM1_Jumbo_internDecodeMsopPkt :: "'r::floor_ceiling host \<Rightarrow> bytes \<Rightarrow> ('r, 'a) DecoderMems_scheme
    \<Rightarrow> (bool \<times> bytes \<times> ('r, 'a) DecoderMems_scheme) option" where
  "RSM1_Jumbo_internDecodeMsopPkt h pkt d = do {
     i \<leftarrow> rd pkt 0 (MSOP_ID_LEN (const_param d));
     if i \<noteq> take (MSOP_ID_LEN (const_param d)) (MSOP_ID (const_param d)) then Some (False, pkt, d)
     else do {
       d \<leftarrow> mems_temp pkt d;
       let d = d\<lparr>is_get_temperature := True\<rparr>;
       (pkt_ts, pkt) \<leftarrow> mems_pkt_ts h pkt d;
       mems_decode h RSM1_Jumbo_layout [(0, 6)] False pkt pkt_ts d
     }
   }"

text \<open>The loop over the packets; \<open>hs\<close> are the host's answers for each of them.\<close>

fun RSM1_Jumbo_packets :: "(nat \<Rightarrow> 'r::floor_ceiling host) \<Rightarrow> nat list \<Rightarrow> bool \<Rightarrow> bytes \<Rightarrow> ('r, 'a) DecoderMems_scheme
    \<Rightarrow> (bool \<times> bytes \<times> ('r, 'a) DecoderMems_scheme) option" where
  "RSM1_Jumbo_packets hs [] ret jumbo d = Some (ret, jumbo, d)"
| "RSM1_Jumbo_packets hs (i # js) ret jumbo d = do {
     pkt \<leftarrow> rd jumbo (i * 984) 984;
     (r, pkt, d) \<leftarrow> RSM1_Jumbo_internDecodeMsopPkt (hs i) pkt d;
     jumbo \<leftarrow> wr jumbo (i * 984) pkt;
     RSM1_Jumbo_packets hs js (ret \<or> r) jumbo d
   }"

definition RSM1_Jumbo_decodeMsopPkt :: "(nat \<Rightarrow> 'r::floor_ceiling host) \<Rightarrow> bytes \<Rightarrow> ('r, 'a) DecoderMems_scheme
    \<Rightarrow> (bool \<times> bytes \<times> ('r, 'a) DecoderMems_scheme) option" where
  "RSM1_Jumbo_decodeMsopPkt hs jumbo d =
     (if length jumbo \<noteq> 62152 then Some (False, jumbo, d) else RSM1_Jumbo_packets hs [0..<63] False jumbo d)"

section \<open>The points of a packet\<close>

definition mems_fixed :: "('r, 'a) Decoder_scheme \<Rightarrow> 'r RSDecoderConstParam \<times> 'r RSDecoderParam \<times> 'r DistanceSection \<times> bool \<times> bool" where
  "mems_fixed d = (const_param d, param d, distance_section d, bCheckMsopLen d, bCheckDifopLen d)"

lemma mems_fixedD:
  assumes "mems_fixed d = mems_fixed e"
  shows "const_param d = const_param e" "param d = param e" "distance_section d = distance_section e"
    "bCheckMsopLen d = bCheckMsopLen e" "bCheckDifopLen d = bCheckDifopLen e"
  using assms by (simp_all add: mems_fixed_def)

text \<open>What the loops keep: only points are added.\<close>

definition mems_same :: "('r, 'a) DecoderMems_scheme \<Rightarrow> ('r, 'a) DecoderMems_scheme \<Rightarrow> bool" where
  "mems_same d e \<longleftrightarrow> mems_fixed e = mems_fixed d \<and> clouds e = clouds d \<and> seq_strategy e = seq_strategy d"

lemma mems_same_trans: "mems_same d e \<Longrightarrow> mems_same e f \<Longrightarrow> mems_same d f"
  by (simp add: mems_same_def)

lemma mems_same_upd:
  "mems_same d (d\<lparr>point_cloud := ps\<rparr>)" "mems_same d e \<Longrightarrow> mems_same d (e\<lparr>prev_point_ts := t\<rparr>)"
  by (simp_all add: mems_same_def mems_fixed_def)

lemma foldM_points:
  assumes "\<And>x e. x \<in> set xs \<Longrightarrow> mems_same d e \<Longrightarrow>
      \<exists>e'. f x e = Some e' \<and> mems_same e e' \<and> point_cloud e' = point_cloud e @ g x"
    and "mems_same d e"
  shows "\<exists>e'. foldM f xs e = Some e' \<and> mems_same e e' \<and> point_cloud e' = point_cloud e @ concat (map g xs)"
  using assms
proof (induction xs arbitrary: e)
  case Nil
  then show ?case by (simp add: mems_same_def)
next
  case (Cons x xs)
  obtain e1 where e1: "f x e = Some e1" "mems_same e e1" "point_cloud e1 = point_cloud e @ g x"
    using Cons.prems(1) [of x e] Cons.prems(2) by auto
  have "mems_same d e1" using Cons.prems(2) e1(2) by (rule mems_same_trans)
  then obtain e2 where "foldM f xs e1 = Some e2" "mems_same e1 e2" "point_cloud e2 = point_cloud e1 @ concat (map g xs)"
    using Cons.IH [of e1] Cons.prems(1) by auto
  then show ?case using e1 mems_same_trans [of e e1 e2] by simp
qed

definition return_points :: "'r::floor_ceiling host \<Rightarrow> 'r mems_layout \<Rightarrow> bytes \<Rightarrow> 'r \<Rightarrow> nat \<Rightarrow> nat \<Rightarrow> ('r, 'a) Decoder_scheme
    \<Rightarrow> mems_return \<Rightarrow> 'r point list" where
  "return_points h L pkt t off chan d x = (case the (mems_point h L pkt t off chan x d) of None \<Rightarrow> [] | Some p \<Rightarrow> [p])"

definition channel_points :: "'r::floor_ceiling host \<Rightarrow> 'r mems_layout \<Rightarrow> mems_return list \<Rightarrow> bytes \<Rightarrow> 'r \<Rightarrow> nat \<Rightarrow> ('r, 'a) Decoder_scheme
    \<Rightarrow> nat \<Rightarrow> 'r point list" where
  "channel_points h L xs pkt t blk d chan =
     concat (map (return_points h L pkt t (32 + blk * m_blk_size L + m_chan_off L + chan * m_chan_size L) chan d) xs)"

definition mems_block_points :: "'r::floor_ceiling host \<Rightarrow> 'r mems_layout \<Rightarrow> mems_return list \<Rightarrow> bytes \<Rightarrow> 'r \<Rightarrow> ('r, 'a) Decoder_scheme
    \<Rightarrow> nat \<Rightarrow> 'r point list" where
  "mems_block_points h L xs pkt pkt_ts d blk =
     concat (map (channel_points h L xs pkt (pkt_ts + the (mems_time L pkt blk)) blk d) [0..<CHANNELS_PER_BLOCK (const_param d)])"

definition packet_points :: "'r::floor_ceiling host \<Rightarrow> 'r mems_layout \<Rightarrow> mems_return list \<Rightarrow> bytes \<Rightarrow> 'r \<Rightarrow> ('r, 'a) Decoder_scheme
    \<Rightarrow> 'r point list" where
  "packet_points h L xs pkt pkt_ts d = concat (map (mems_block_points h L xs pkt pkt_ts d) [0..<BLOCKS_PER_PKT (const_param d)])"

lemma mems_point_cong:
  assumes "mems_fixed d = mems_fixed e"
  shows "mems_point h L pkt t off chan x d = mems_point h L pkt t off chan x e"
  by (simp only: mems_point_def mems_fixedD [OF assms])

lemma packet_points_cong:
  assumes "mems_fixed d = mems_fixed e"
  shows "packet_points h L xs pkt t d = packet_points h L xs pkt t e"
proof -
  have "return_points h L pkt t o' chan d = return_points h L pkt t o' chan e" for t o' chan
    by (intro ext) (simp only: return_points_def mems_point_cong [OF assms])
  then have "channel_points h L xs pkt t blk d = channel_points h L xs pkt t blk e" for t blk
    by (intro ext) (simp only: channel_points_def)
  then have "mems_block_points h L xs pkt t d = mems_block_points h L xs pkt t e"
    by (intro ext) (simp only: mems_block_points_def mems_fixedD [OF assms])
  then show ?thesis by (simp only: packet_points_def mems_fixedD [OF assms])
qed

locale mems_lidar =
  fixes L :: "'r::floor_ceiling mems_layout" and xs :: "mems_return list" and c :: "'r RSDecoderConstParam" and N :: nat
  assumes packet_fits: "32 + BLOCKS_PER_PKT c * m_blk_size L \<le> N"
    and block_fits: "m_chan_off L + CHANNELS_PER_BLOCK c * m_chan_size L \<le> m_blk_size L" and off: "2 \<le> m_blk_size L"
    and returns: "\<And>a b. (a, b) \<in> set xs \<Longrightarrow> a + 2 \<le> m_chan_size L \<and> b < m_chan_size L"
    and xyz_total: "\<And>h pkt o' dist. o' + m_chan_size L \<le> length pkt \<Longrightarrow> \<exists>v. m_xyz L h pkt o' dist = Some v"
    and whole: "LASER_NUM c dvd CHANNELS_PER_BLOCK c"
begin

lemma channel_fits:
  assumes "length pkt = N" and "blk < BLOCKS_PER_PKT c" and "chan < CHANNELS_PER_BLOCK c"
  shows "32 + blk * m_blk_size L + m_chan_off L + chan * m_chan_size L + m_chan_size L \<le> length pkt"
    and "32 + blk * m_blk_size L + 2 \<le> length pkt"
proof -
  have "(blk + 1) * m_blk_size L \<le> BLOCKS_PER_PKT c * m_blk_size L" using assms(2) by (intro mult_le_mono1) simp
  moreover have "(chan + 1) * m_chan_size L \<le> CHANNELS_PER_BLOCK c * m_chan_size L" using assms(3) by (intro mult_le_mono1) simp
  ultimately show "32 + blk * m_blk_size L + m_chan_off L + chan * m_chan_size L + m_chan_size L \<le> length pkt"
    "32 + blk * m_blk_size L + 2 \<le> length pkt"
    using packet_fits block_fits off assms(1) by simp_all
qed

lemma point_total:
  assumes "o' + m_chan_size L \<le> length pkt" and "x \<in> set xs"
  shows "\<exists>p. mems_point h L pkt t o' chan x d = Some p \<and> (\<not> dense_points (param d) \<longrightarrow> p \<noteq> None)"
proof -
  obtain a b where x: "x = (a, b)" by force
  then have "a + 2 \<le> m_chan_size L" "b < m_chan_size L" using returns assms(2) by auto
  then have "\<exists>r i. read_u16 pkt (o' + a) = Some r \<and> read_u8 pkt (o' + b) = Some i"
    using assms(1) by (simp add: read_u16_def read_u8_def rd_def)
  then obtain r i where "read_u16 pkt (o' + a) = Some r" "read_u8 pkt (o' + b) = Some i" by blast
  moreover obtain v where "m_xyz L h pkt o' (of_nat (unat (ntohs r)) * DISTANCE_RES (const_param d)) = Some v"
    using xyz_total [OF assms(1)] by blast
  ultimately show ?thesis by (auto simp: mems_point_def x Let_def)
qed

lemma channel_spec:
  fixes d :: "('r, 'a) DecoderMems_scheme"
  assumes "length pkt = N" and "blk < BLOCKS_PER_PKT c" and "chan < CHANNELS_PER_BLOCK c" and "mems_same d e"
  shows "\<exists>e'. mems_channel h L xs pkt t blk chan e = Some e' \<and> mems_same e e' \<and>
    point_cloud e' = point_cloud e @ channel_points h L xs pkt t blk d chan"
  unfolding mems_channel_def channel_points_def
proof (rule foldM_points [OF _ assms(4)])
  fix x and f :: "('r, 'a) DecoderMems_scheme"
  let ?o = "32 + blk * m_blk_size L + m_chan_off L + chan * m_chan_size L"
  assume x: "x \<in> set xs" and f: "mems_same d f"
  obtain p where "mems_point h L pkt t ?o chan x f = Some p" using point_total [OF channel_fits(1) [OF assms(1-3)] x] by blast
  moreover have "mems_point h L pkt t ?o chan x d = mems_point h L pkt t ?o chan x f"
    using f by (intro mems_point_cong) (simp add: mems_same_def)
  ultimately show "\<exists>f'. mems_add h L pkt t ?o chan x f = Some f' \<and> mems_same f f' \<and>
      point_cloud f' = point_cloud f @ return_points h L pkt t ?o chan d x"
    by (simp add: mems_add_def return_points_def mems_same_upd)
qed

lemma time_total:
  assumes "32 + blk * m_blk_size L + 2 \<le> length pkt"
  shows "\<exists>t. mems_time L pkt blk = Some t"
proof -
  have "mems_time L pkt blk \<noteq> None" using assms by (simp add: mems_time_def read_u16_def read_u8_def rd_def del: not_None_eq)
  then show ?thesis by blast
qed

lemma block_spec:
  assumes "length pkt = N" and "blk < BLOCKS_PER_PKT c" and "const_param d = c" and "mems_same d e"
  shows "\<exists>e'. mems_block h L xs pkt t blk e = Some e' \<and> mems_same e e' \<and>
    point_cloud e' = point_cloud e @ mems_block_points h L xs pkt t d blk"
proof -
  have c: "const_param e = c" using assms(3,4) mems_fixedD(1) [of e d] by (simp add: mems_same_def)
  have "32 + blk * m_blk_size L + m_blk_size L \<le> 32 + BLOCKS_PER_PKT c * m_blk_size L"
    using assms(2) mult_le_mono1 [of "blk + 1" "BLOCKS_PER_PKT c" "m_blk_size L"] by simp
  then have "32 + blk * m_blk_size L + 2 \<le> length pkt" using packet_fits off assms(1) by simp
  then obtain dt where dt: "mems_time L pkt blk = Some dt" using time_total by blast
  have "\<exists>e'. foldM (mems_channel h L xs pkt (t + dt) blk) [0..<CHANNELS_PER_BLOCK c] e = Some e' \<and> mems_same e e' \<and>
    point_cloud e' = point_cloud e @ concat (map (channel_points h L xs pkt (t + dt) blk d) [0..<CHANNELS_PER_BLOCK c])"
    by (rule foldM_points [OF _ assms(4)]) (use channel_spec [OF assms(1,2)] in simp)
  then obtain e' where "foldM (mems_channel h L xs pkt (t + dt) blk) [0..<CHANNELS_PER_BLOCK c] e = Some e'" "mems_same e e'"
    "point_cloud e' = point_cloud e @ concat (map (channel_points h L xs pkt (t + dt) blk d) [0..<CHANNELS_PER_BLOCK c])" by blast
  then show ?thesis using dt c assms(3) mems_same_upd(2) [of e e']
    by (simp add: mems_block_def mems_block_points_def)
qed

lemma packet_spec:
  assumes "length pkt = N" and "const_param d = c"
  shows "\<exists>e. foldM (mems_block h L xs pkt t) [0..<BLOCKS_PER_PKT c] d = Some e \<and> mems_same d e \<and>
    point_cloud e = point_cloud d @ packet_points h L xs pkt t d"
  unfolding packet_points_def assms(2)
  by (rule foldM_points [where d = d]) (use block_spec [OF assms(1) _ assms(2)] in \<open>simp_all add: mems_same_def\<close>)

lemma concat_map_length: "(\<And>x. x \<in> set ys \<Longrightarrow> length (f x) = n) \<Longrightarrow> length (concat (map f ys)) = length ys * n"
  by (induction ys) auto

lemma packet_length:
  assumes "length pkt = N" and "const_param d = c" and "\<not> dense_points (param d)"
  shows "length (packet_points h L xs pkt t d) = BLOCKS_PER_PKT c * (CHANNELS_PER_BLOCK c * length xs)"
proof -
  have 1: "length (return_points h L pkt t' (32 + blk * m_blk_size L + m_chan_off L + chan * m_chan_size L) chan d x) = 1"
    if "blk < BLOCKS_PER_PKT c" "chan < CHANNELS_PER_BLOCK c" "x \<in> set xs" for blk chan t' x
    using point_total [OF channel_fits(1) [OF assms(1) that(1,2)] that(3), of h t' chan d] assms(3)
    by (auto simp: return_points_def)
  have 2: "length (channel_points h L xs pkt t' blk d chan) = length xs"
    if "blk < BLOCKS_PER_PKT c" "chan < CHANNELS_PER_BLOCK c" for blk chan t'
    using concat_map_length [OF 1 [OF that]] by (simp add: channel_points_def)
  have 3: "length (mems_block_points h L xs pkt t d blk) = CHANNELS_PER_BLOCK c * length xs"
    if "blk < BLOCKS_PER_PKT c" for blk
    using concat_map_length [of "[0..<CHANNELS_PER_BLOCK c]", OF 2 [OF that]] by (simp add: mems_block_points_def assms(2))
  have "length (packet_points h L xs pkt t d) = length [0..<BLOCKS_PER_PKT c] * (CHANNELS_PER_BLOCK c * length xs)"
    unfolding packet_points_def assms(2) by (rule concat_map_length) (use 3 in simp)
  then show ?thesis by simp
qed

end

text \<open>The contract of \<^verbatim>\<open>decodeMsopPkt\<close>: as for mechanical lidars, with one cut before the packet and, for some, another one
  behind it.\<close>

definition mems_result :: "'r::floor_ceiling host \<Rightarrow> 'r mems_layout \<Rightarrow> mems_return list \<Rightarrow> bool \<Rightarrow> bytes
    \<Rightarrow> ('r, 'a) DecoderMems_scheme \<Rightarrow> bool \<times> bytes \<times> ('r, 'a) DecoderMems_scheme \<Rightarrow> bool" where
  "mems_result h L xs cut_at_max pkt d r \<longleftrightarrow> (case r of (ret, pkt', d') \<Rightarrow>
     length pkt' = length pkt \<and> take 10 pkt' = take 10 pkt \<and> drop 20 pkt' = drop 20 pkt \<and> mems_fixed d' = mems_fixed d \<and>
     (clouds_ok d \<longrightarrow> clouds_ok d') \<and>
     (\<exists>t q. read_u16 pkt 4 = Some q \<and> seq_newPacket (ntohs q) (seq_strategy d) = (ret, seq_strategy d') \<and>
       frames d' = frame_step (cut_at_max \<and> maxSeq (seq_strategy d') = ntohs q, [])
         (frame_step (ret, packet_points h L xs pkt' t d) (frames d))))"

lemma mems_cb_split_frame [simp]:
  "mems_fixed (cb_split_frame d) = mems_fixed d" "seq_strategy (cb_split_frame e) = seq_strategy e"
  by (simp_all add: mems_fixed_def cb_split_frame_def splitFrame_def Let_def)

lemma mems_fixed_sel [simp]:
  "mems_fixed (d\<lparr>first_point_ts := t\<rparr>) = mems_fixed d" "mems_fixed (d\<lparr>prev_pkt_ts := t\<rparr>) = mems_fixed d"
  "mems_fixed (e\<lparr>seq_strategy := s\<rparr>) = mems_fixed e" "frames (e\<lparr>seq_strategy := s\<rparr>) = frames e"
  "clouds_ok (e\<lparr>seq_strategy := s\<rparr>) = clouds_ok e"
  by (simp_all add: mems_fixed_def frames_def clouds_ok_def)

lemma mems_pkt_ts_total:
  assumes "20 \<le> length pkt"
  shows "\<exists>t pkt'. mems_pkt_ts h pkt d = Some (t, pkt') \<and> length pkt' = length pkt \<and> take 10 pkt' = take 10 pkt \<and>
    drop 20 pkt' = drop 20 pkt"
proof -
  obtain pkt1 where 1: "write_utc pkt 10 (createTimeUTCWithUs (h_timezone h) (h_clock h 0)) = Some pkt1"
    "length pkt1 = length pkt" "take 10 pkt1 = take 10 pkt" "drop 20 pkt1 = drop 20 pkt"
    using assms by (force simp: write_utc_def wr_def createTimeUTCWithUs_def Let_def)
  have "read_utc pkt 10 \<noteq> None" using assms by (simp add: read_utc_def rd_def)
  then show ?thesis
    using 1 by (auto simp: mems_pkt_ts_def Let_def simp del: divide_eq_eq_numeral1 eq_divide_eq_numeral1)
qed

lemma mems_split_spec:
  assumes "seq_newPacket q (seq_strategy d) = (new, s)"
  shows "\<exists>e. mems_split q t d = (new, e) \<and> mems_fixed e = mems_fixed d \<and> seq_strategy e = s \<and>
    frames e = frame_step (new, []) (frames d) \<and> (clouds_ok d \<longrightarrow> clouds_ok e)"
proof (cases new)
  case True
  then show ?thesis using assms clouds_ok_cb_split_frame [of "d\<lparr>seq_strategy := s\<rparr>"]
    by (simp add: mems_split_def frames_cb_split_frame frame_step_def split: prod.split)
next
  case False
  then show ?thesis using assms by (simp add: mems_split_def frame_step_def split: prod.split)
qed

lemma clouds_ok_append:
  assumes "clouds_ok d" and "mems_same d e" and "point_cloud e = point_cloud d @ ps"
    and "dense_points (param d) \<or> LASER_NUM (const_param d) dvd length ps"
  shows "clouds_ok e"
  using assms mems_fixedD [of e d] by (auto simp: clouds_ok_def mems_same_def)

context mems_lidar begin

lemma decode_result:
  assumes d: "const_param d = c" and len: "length pkt = N"
    and pkt': "length pkt' = length pkt" "take 10 pkt' = take 10 pkt" "drop 20 pkt' = drop 20 pkt"
  shows "\<exists>r. mems_decode h L xs fin pkt' t d = Some r \<and> mems_result h L xs fin pkt d r"
proof -
  have "read_u16 pkt' 4 = read_u16 (take 10 pkt') 4" "read_u16 pkt 4 = read_u16 (take 10 pkt) 4"
    using packet_fits len pkt'(1) by (simp_all add: read_u16_def rd_def drop_take min_def)
  moreover have "read_u16 pkt 4 \<noteq> None" using packet_fits len by (simp add: read_u16_def rd_def)
  ultimately obtain q where q: "read_u16 pkt 4 = Some q" "read_u16 pkt' 4 = Some q" using pkt'(2) by auto
  obtain new s where s: "seq_newPacket (ntohs q) (seq_strategy d) = (new, s)" by force
  obtain e where e: "mems_split (ntohs q) t d = (new, e)" "mems_fixed e = mems_fixed d" "seq_strategy e = s"
    "frames e = frame_step (new, []) (frames d)" "clouds_ok d \<longrightarrow> clouds_ok e"
    using mems_split_spec [OF s] by blast
  have c: "const_param e = c" "param e = param d" using mems_fixedD [OF e(2)] d by simp_all
  have l: "length pkt' = N" using len pkt'(1) by simp
  let ?ps = "packet_points h L xs pkt' t d"
  obtain f where f: "foldM (mems_block h L xs pkt' t) [0..<BLOCKS_PER_PKT c] e = Some f" "mems_same e f"
    "point_cloud f = point_cloud e @ ?ps"
    using packet_spec [OF l c(1), of h t] unfolding packet_points_cong [OF e(2)] by blast
  have "dense_points (param e) \<or> LASER_NUM (const_param e) dvd length ?ps"
    using packet_length [OF l d, of h t] dvd_mult [OF dvd_mult2 [OF whole]] c by simp metis
  then have okf: "clouds_ok d \<longrightarrow> clouds_ok f" using clouds_ok_append [OF _ f(2,3)] e(5) by blast
  have "frames f = frame_step (new, ?ps) (frames d)"
    using e(4) f(2,3) by (auto simp: frames_def frame_step_def mems_same_def split: if_splits)
  then have fr: "frames (if fin \<and> maxSeq s = ntohs q then cb_split_frame f else f)
      = frame_step (fin \<and> maxSeq s = ntohs q, []) (frame_step (new, ?ps) (frames d))"
    by (auto simp: frames_cb_split_frame frame_step_def split: prod.splits)
  have sf: "seq_strategy f = s" "mems_fixed f = mems_fixed d" using e f(2) by (simp_all add: mems_same_def)
  show ?thesis
    using q s e(1) c(1) f(1) sf fr okf clouds_ok_cb_split_frame [of f] pkt'
    by (auto simp: mems_decode_def mems_result_def)
qed

end

section \<open>The lidars keep the contract\<close>

lemma vector_xyz_total: "k + v + 6 \<le> length pkt \<Longrightarrow> \<exists>r. vector_xyz f v h pkt k r0 = Some r"
  by (simp add: vector_xyz_def read_u16_def rd_def del: split_paired_Ex)

lemma angles_xyz_total: "k + 6 \<le> length pkt \<Longrightarrow> \<exists>r. angles_xyz h pkt k r0 = Some r"
  by (simp add: angles_xyz_def read_u16_def rd_def Let_def del: split_paired_Ex)

lemmas mems_layouts = RSM1_layout_def RSM2_layout_def RSM3_layout_def RSE1_layout_def RSMX_layout_def RSM1_Jumbo_layout_def

lemmas mems_consts = RSM1_getConstParam_def RSM2_getConstParam_def RSM3_getConstParam_def RSE1_getConstParam_def
  RSMX_getConstParam_def RSM1_Jumbo_getConstParam_def

interpretation rsm1_l: mems_lidar RSM1_layout "[(0, 6)]" "RSM1_getConstParam :: 'r::floor_ceiling RSDecoderConstParam" 1210
  by unfold_locales (auto simp: mems_layouts mems_consts simp del: split_paired_Ex intro!: vector_xyz_total angles_xyz_total)

interpretation rsm2_l: mems_lidar RSM2_layout "[(0, 8)]" "RSM2_getConstParam :: 'r::floor_ceiling RSDecoderConstParam" 1342
  by unfold_locales (auto simp: mems_layouts mems_consts simp del: split_paired_Ex intro!: vector_xyz_total angles_xyz_total)

interpretation rsm3_l: mems_lidar RSM3_layout "[(0, 8)]" "RSM3_getConstParam :: 'r::floor_ceiling RSDecoderConstParam" 1448
  by unfold_locales (auto simp: mems_layouts mems_consts simp del: split_paired_Ex intro!: vector_xyz_total angles_xyz_total)

interpretation rse1_l: mems_lidar RSE1_layout "[(0, 8)]" "RSE1_getConstParam :: 'r::floor_ceiling RSDecoderConstParam" 1200
  by unfold_locales (auto simp: mems_layouts mems_consts simp del: split_paired_Ex intro!: vector_xyz_total angles_xyz_total)

interpretation rsm1_jumbo_l: mems_lidar RSM1_Jumbo_layout "[(0, 6)]" "RSM1_Jumbo_getConstParam :: 'r::floor_ceiling RSDecoderConstParam" 984
  by unfold_locales (auto simp: mems_layouts mems_consts simp del: split_paired_Ex intro!: vector_xyz_total angles_xyz_total)

interpretation rsmx_single: mems_lidar RSMX_layout "[(0, 10)]" "RSMX_getConstParam :: 'r::floor_ceiling RSDecoderConstParam" 1404
  by unfold_locales (auto simp: mems_layouts mems_consts simp del: split_paired_Ex intro!: vector_xyz_total)

interpretation rsmx_dual: mems_lidar RSMX_layout "[(0, 10), (2, 11)]" "RSMX_getConstParam :: 'r::floor_ceiling RSDecoderConstParam" 1404
  by unfold_locales (auto simp: mems_layouts mems_consts simp del: split_paired_Ex intro!: vector_xyz_total)

definition mems_ok :: "'r RSDecoderConstParam \<Rightarrow> ('r, 'a) DecoderMems_scheme \<Rightarrow> bool" where
  "mems_ok c d \<longleftrightarrow> const_param d = c \<and> clouds_ok d \<and> bCheckMsopLen d \<and> bCheckDifopLen d"

lemma mems_ok_const: "mems_ok c d \<Longrightarrow> MSOP_LEN (const_param d) = MSOP_LEN c \<and> MSOP_ID_LEN (const_param d) = MSOP_ID_LEN c \<and>
    DIFOP_LEN (const_param d) = DIFOP_LEN c \<and> DIFOP_ID_LEN (const_param d) = DIFOP_ID_LEN c \<and>
    bCheckMsopLen d \<and> bCheckDifopLen d"
  by (simp add: mems_ok_def)

lemma mems_ok_limit: "mems_ok c d \<Longrightarrow> mems_ok c (limit_excep h e d)" "mems_ok c d \<Longrightarrow> mems_ok c (delay_limit_excep h e d)"
  by (auto simp: mems_ok_def limit_excep_def delay_limit_excep_def cb_excep_def clouds_ok_def Let_def)

lemma mems_ok_clear: "mems_ok c d \<Longrightarrow> mems_ok c (d\<lparr>point_cloud := []\<rparr>)"
  by (auto simp: mems_ok_def clouds_ok_def)

lemmas mems_contract = mems_ok_const mems_ok_limit mems_ok_clear

lemma mems_ok_result: "mems_ok c d \<Longrightarrow> mems_result h L xs fin pkt d (ret, pkt', d') \<Longrightarrow> length pkt' = length pkt \<and> mems_ok c d'"
  using mems_fixedD [of d' d] by (auto simp: mems_result_def mems_ok_def)

lemma mems_temp_total:
  assumes "32 \<le> length pkt"
  shows "\<exists>x. mems_temp pkt d = Some (d\<lparr>temperature := x\<rparr>)"
  using assms by (simp add: mems_temp_def read_u8_def rd_def) blast

lemma mems_temp_sel [simp]:
  "mems_fixed (d\<lparr>temperature := x\<rparr>) = mems_fixed d" "mems_fixed (d\<lparr>temperature := x, is_get_temperature := b\<rparr>) = mems_fixed d"
  "frames (d\<lparr>temperature := x\<rparr>) = frames d" "frames (d\<lparr>temperature := x, is_get_temperature := b\<rparr>) = frames d"
  "clouds_ok (d\<lparr>temperature := x\<rparr>) = clouds_ok d" "clouds_ok (d\<lparr>temperature := x, is_get_temperature := b\<rparr>) = clouds_ok d"
  by (simp_all add: mems_fixed_def frames_def clouds_ok_def)

lemma mems_result_temp:
  "mems_result h L xs fin pkt (d\<lparr>temperature := x\<rparr>) r = mems_result h L xs fin pkt d r"
  "mems_result h L xs fin pkt (d\<lparr>temperature := x, is_get_temperature := b\<rparr>) r = mems_result h L xs fin pkt d r"
  using packet_points_cong [of "d\<lparr>temperature := x\<rparr>" d] packet_points_cong [of "d\<lparr>temperature := x, is_get_temperature := b\<rparr>" d]
  by (simp_all add: mems_result_def split: prod.split)

text \<open>The end of every \<^verbatim>\<open>decodeMsopPkt\<close>: the time and the blocks.\<close>

context mems_lidar begin

lemma timed_result:
  assumes "const_param d = c" and "length pkt = N"
  shows "\<exists>t pkt' r. mems_pkt_ts h pkt d = Some (t, pkt') \<and> length pkt' = length pkt \<and> take 10 pkt' = take 10 pkt \<and>
    mems_decode h L xs fin pkt' t d = Some r \<and> mems_result h L xs fin pkt d r"
proof -
  have "20 \<le> length pkt" using packet_fits assms(2) by simp
  from mems_pkt_ts_total [OF this, of h d] obtain t pkt' where t: "mems_pkt_ts h pkt d = Some (t, pkt')"
    "length pkt' = length pkt" "take 10 pkt' = take 10 pkt" "drop 20 pkt' = drop 20 pkt" by blast
  from decode_result [OF assms t(2-4), of h fin t] show ?thesis using t by blast
qed

end

lemma RSM1_msop:
  assumes "const_param d = RSM1_getConstParam" and "length pkt = MSOP_LEN (RSM1_getConstParam :: 'r::floor_ceiling RSDecoderConstParam)"
  shows "\<exists>r. RSM1_decodeMsopPkt h pkt (d :: ('r, 'a) DecoderMems_scheme) = Some r \<and> mems_result h RSM1_layout [(0, 6)] True pkt d r"
proof -
  have len: "length pkt = 1210" "32 \<le> length pkt" using assms(2) by (simp_all add: mems_consts)
  obtain x where x: "mems_temp pkt d = Some (d\<lparr>temperature := x\<rparr>)" using mems_temp_total [OF len(2)] by blast
  have "const_param (d\<lparr>temperature := x, is_get_temperature := True\<rparr>) = RSM1_getConstParam" using assms(1) by simp
  from rsm1_l.timed_result [OF this len(1), of h True] x show ?thesis
    by (auto simp: RSM1_decodeMsopPkt_def mems_result_temp)
qed

lemma RSM2_msop:
  assumes "const_param d = RSM2_getConstParam" and "length pkt = MSOP_LEN (RSM2_getConstParam :: 'r::floor_ceiling RSDecoderConstParam)"
  shows "\<exists>r. RSM2_decodeMsopPkt h pkt (d :: ('r, 'a) DecoderMems_scheme) = Some r \<and> mems_result h RSM2_layout [(0, 8)] False pkt d r"
proof -
  have len: "length pkt = 1342" "32 \<le> length pkt" using assms(2) by (simp_all add: mems_consts)
  obtain x where x: "mems_temp pkt d = Some (d\<lparr>temperature := x\<rparr>)" using mems_temp_total [OF len(2)] by blast
  have "const_param (d\<lparr>temperature := x, is_get_temperature := True\<rparr>) = RSM2_getConstParam" using assms(1) by simp
  from rsm2_l.timed_result [OF this len(1), of h False] x show ?thesis
    by (auto simp: RSM2_decodeMsopPkt_def mems_result_temp)
qed

lemma RSM3_msop:
  assumes "const_param d = RSM3_getConstParam" and "length pkt = MSOP_LEN (RSM3_getConstParam :: 'r::floor_ceiling RSDecoderConstParam)"
  shows "\<exists>r. RSM3_decodeMsopPkt h pkt (d :: ('r, 'a) DecoderMems_scheme) = Some r \<and> mems_result h RSM3_layout [(0, 8)] False pkt d r"
proof -
  have len: "length pkt = 1448" "32 \<le> length pkt" using assms(2) by (simp_all add: mems_consts)
  obtain x where x: "mems_temp pkt d = Some (d\<lparr>temperature := x\<rparr>)" using mems_temp_total [OF len(2)] by blast
  have "const_param (d\<lparr>temperature := x\<rparr>) = RSM3_getConstParam" using assms(1) by simp
  from rsm3_l.timed_result [OF this len(1), of h False] x show ?thesis
    by (auto simp: RSM3_decodeMsopPkt_def mems_result_temp)
qed

lemma RSE1_msop:
  assumes "const_param d = RSE1_getConstParam" and "length pkt = MSOP_LEN (RSE1_getConstParam :: 'r::floor_ceiling RSDecoderConstParam)"
  shows "\<exists>r. RSE1_decodeMsopPkt h pkt (d :: ('r, 'a) DecoderMems_scheme) = Some r \<and> mems_result h RSE1_layout [(0, 8)] False pkt d r"
proof -
  have len: "length pkt = 1200" "32 \<le> length pkt" using assms(2) by (simp_all add: mems_consts)
  obtain x where x: "mems_temp pkt d = Some (d\<lparr>temperature := x\<rparr>)" using mems_temp_total [OF len(2)] by blast
  have "const_param (d\<lparr>temperature := x, is_get_temperature := True\<rparr>) = RSE1_getConstParam" using assms(1) by simp
  from rse1_l.timed_result [OF this len(1), of h False] x show ?thesis
    by (auto simp: RSE1_decodeMsopPkt_def mems_result_temp)
qed

lemma RSMX_msop:
  assumes "const_param d = RSMX_getConstParam" and "length pkt = MSOP_LEN (RSMX_getConstParam :: 'r::floor_ceiling RSDecoderConstParam)"
  shows "\<exists>r. RSMX_decodeMsopPkt h pkt (d :: ('r, 'a) DecoderMems_scheme) = Some r \<and>
    mems_result h RSMX_layout (if read_u8 pkt 8 = Some 0 then [(0, 10), (2, 11)] else [(0, 10)]) False pkt d r"
proof -
  have len: "length pkt = 1404" "32 \<le> length pkt" using assms(2) by (simp_all add: mems_consts)
  obtain x where x: "mems_temp pkt d = Some (d\<lparr>temperature := x\<rparr>)" using mems_temp_total [OF len(2)] by blast
  let ?d = "d\<lparr>temperature := x, is_get_temperature := True\<rparr>"
  have c: "const_param ?d = RSMX_getConstParam" using assms(1) by simp
  have mode: "read_u8 p 8 = read_u8 (take 10 p) 8" if "length p = 1404" for p
    using that by (simp add: read_u8_def rd_def drop_take)
  have "read_u8 pkt 8 \<noteq> None" using len by (simp add: read_u8_def rd_def)
  then obtain m where m: "read_u8 pkt 8 = Some m" by blast
  from rsmx_single.timed_result [OF c len(1), of h False] rsmx_dual.timed_result [OF c len(1), of h False] x m len(1) mode
  show ?thesis by (auto simp: RSMX_decodeMsopPkt_def mems_result_temp)
qed

text \<open>A jumbo packet: every packet in it has the contract of its own.\<close>

lemma Jumbo_intern:
  assumes "mems_ok RSM1_Jumbo_getConstParam d" and "length pkt = 984"
  shows "\<exists>ret pkt' d'. RSM1_Jumbo_internDecodeMsopPkt h pkt (d :: ('r::floor_ceiling, 'a) DecoderMems_scheme) = Some (ret, pkt', d') \<and> length pkt' = length pkt \<and>
    mems_ok RSM1_Jumbo_getConstParam d'"
proof -
  have c: "const_param d = RSM1_Jumbo_getConstParam" using assms(1) by (simp add: mems_ok_def)
  obtain x where x: "mems_temp pkt d = Some (d\<lparr>temperature := x\<rparr>)" using mems_temp_total [of pkt d] assms(2) by auto
  let ?d = "d\<lparr>temperature := x, is_get_temperature := True\<rparr>"
  have "const_param ?d = RSM1_Jumbo_getConstParam" using c by simp
  from rsm1_jumbo_l.timed_result [OF this assms(2), of h False] obtain t pkt' r where
    r: "mems_pkt_ts h pkt ?d = Some (t, pkt')" "mems_decode h RSM1_Jumbo_layout [(0, 6)] False pkt' t ?d = Some r"
    "mems_result h RSM1_Jumbo_layout [(0, 6)] False pkt d r" by (auto simp: mems_result_temp)
  obtain ret pkt2 d' where r2: "r = (ret, pkt2, d')" by (cases r)
  have "length pkt2 = length pkt" using r(3) unfolding r2 by (simp add: mems_result_def)
  moreover have "mems_ok RSM1_Jumbo_getConstParam d'" using mems_ok_result [OF assms(1) r(3) [unfolded r2]] by blast
  moreover have "rd pkt 0 4 = Some (take 4 pkt)" using assms(2) by (simp add: rd_def)
  ultimately show ?thesis
    using x r(1,2) r2 c assms(1) by (simp add: RSM1_Jumbo_internDecodeMsopPkt_def)
      (auto simp: RSM1_Jumbo_getConstParam_def intro: exI [of _ False])
qed

lemma Jumbo_packets:
  assumes "mems_ok RSM1_Jumbo_getConstParam d" and "length jumbo = 62152" and "\<forall>i \<in> set js. i < 63"
  shows "\<exists>ret' jumbo' d'. RSM1_Jumbo_packets hs js ret jumbo (d :: ('r::floor_ceiling, 'a) DecoderMems_scheme) = Some (ret', jumbo', d') \<and>
    length jumbo' = length jumbo \<and> mems_ok RSM1_Jumbo_getConstParam d'"
  using assms
proof (induction js arbitrary: ret jumbo d)
  case (Cons i js)
  then have i: "i * 984 + 984 \<le> length jumbo" by simp
  then obtain pkt where pkt: "rd jumbo (i * 984) 984 = Some pkt" "length pkt = 984" by (simp add: rd_def)
  obtain r pkt' d' where d': "RSM1_Jumbo_internDecodeMsopPkt (hs i) pkt d = Some (r, pkt', d')" "length pkt' = 984"
    "mems_ok RSM1_Jumbo_getConstParam d'" using Jumbo_intern [OF Cons.prems(1) pkt(2), of "hs i"] pkt(2) by auto
  obtain jumbo' where "wr jumbo (i * 984) pkt' = Some jumbo'" "length jumbo' = 62152"
    using wr_fits [of "i * 984" pkt' jumbo] i d'(2) Cons.prems(2) by auto
  then show ?case using Cons.IH [OF d'(3), of jumbo' "ret \<or> r"] Cons.prems(2,3) pkt(1) d'(1) by simp
qed simp

lemma RSM1_Jumbo_msop_ok:
  assumes "mems_ok RSM1_Jumbo_getConstParam d" and "length pkt = MSOP_LEN (RSM1_Jumbo_getConstParam :: 'r::floor_ceiling RSDecoderConstParam)"
  shows "\<exists>ret pkt' d'. RSM1_Jumbo_decodeMsopPkt hs pkt (d :: ('r::floor_ceiling, 'a) DecoderMems_scheme) = Some (ret, pkt', d') \<and> length pkt' = length pkt \<and>
    mems_ok RSM1_Jumbo_getConstParam d'"
  using Jumbo_packets [OF assms(1), of pkt "[0..<63]" hs False] assms(2)
  by (simp add: RSM1_Jumbo_decodeMsopPkt_def mems_consts)

lemma RSM1_device_ok:
  assumes "mems_ok c d" and "100 \<le> length pkt"
  shows "\<exists>d'. RSM1_device h pkt (d\<lparr>echo_mode := m\<rparr>) = Some d' \<and> mems_ok c d'"
  using assms by (auto simp: RSM1_device_def rd_def read_u16_def mems_ok_def clouds_ok_def)

lemma RSE1_imu_total:
  assumes "256 \<le> length pkt"
  shows "\<exists>i. RSE1_imu h pkt imu d = Some i"
proof -
  have "RSE1_imu h pkt imu d \<noteq> None"
    using assms by (simp add: RSE1_imu_def read_float_def read_utc_def rd_def del: not_None_eq)
  then show ?thesis by blast
qed

lemma mems_ok_imu: "mems_ok c d \<Longrightarrow> mems_ok c (d\<lparr>imuDataPtr := i\<rparr>)" "mems_ok c d \<Longrightarrow> mems_ok c (d\<lparr>imus := xs, imuDataPtr := i\<rparr>)"
  "mems_ok c d \<Longrightarrow> mems_ok c (d\<lparr>device_info := x, device_status := y\<rparr>)" "mems_ok c d \<Longrightarrow> mems_ok c (d\<lparr>echo_mode := m\<rparr>)"
  by (auto simp: mems_ok_def clouds_ok_def)

lemma putImuData_ok:
  assumes "mems_ok c d" and "imuDataPtr d \<noteq> None"
  shows "\<exists>d'. putImuData d = Some d' \<and> mems_ok c d'"
  using assms by (auto simp: putImuData_def intro: mems_ok_imu)

lemma RSM1_msop_ok:
  assumes "mems_ok RSM1_getConstParam d" and "length pkt = MSOP_LEN (RSM1_getConstParam :: 'r::floor_ceiling RSDecoderConstParam)"
  shows "\<exists>ret pkt' d'. RSM1_decodeMsopPkt h pkt (d :: ('r::floor_ceiling, 'a) DecoderMems_scheme) = Some (ret, pkt', d') \<and> length pkt' = length pkt \<and>
    mems_ok RSM1_getConstParam d'"
  using RSM1_msop [of d pkt h] assms mems_ok_result [OF assms(1)] by (fastforce simp: mems_ok_def)

lemma RSM1_difop_ok:
  assumes "mems_ok RSM1_getConstParam d" and "length pkt = DIFOP_LEN (RSM1_getConstParam :: 'r::floor_ceiling RSDecoderConstParam)"
  shows "\<exists>d'. RSM1_decodeDifopPkt h pkt (d :: ('r::floor_ceiling, 'a) DecoderMems_scheme) = Some d' \<and> mems_ok RSM1_getConstParam d'"
proof -
  have "100 \<le> length pkt" using assms(2) by (simp add: mems_consts)
  then show ?thesis using RSM1_device_ok [OF assms(1), of pkt h] by (simp add: RSM1_decodeDifopPkt_def read_u8_def rd_def)
qed

interpretation rsm1: decoder_contract "mems_ok RSM1_getConstParam" "RSM1_getConstParam"
  "RSM1_decodeMsopPkt h" "RSM1_decodeDifopPkt h" for h 
  by unfold_locales ((rule mems_contract RSM1_msop_ok RSM1_difop_ok, assumption+)+, simp_all add: mems_consts)

lemma mk_DecoderRSM1_ok: "mems_ok RSM1_getConstParam (mk_DecoderRSM1 p)"
  by (simp add: mk_DecoderRSM1_def mk_DecoderMems_def mems_ok_def clouds_ok_def mk_Decoder_def Decoder.defs)

lemma RSM2_msop_ok:
  assumes "mems_ok RSM2_getConstParam d" and "length pkt = MSOP_LEN (RSM2_getConstParam :: 'r::floor_ceiling RSDecoderConstParam)"
  shows "\<exists>ret pkt' d'. RSM2_decodeMsopPkt h pkt (d :: ('r::floor_ceiling, 'a) DecoderMems_scheme) = Some (ret, pkt', d') \<and> length pkt' = length pkt \<and>
    mems_ok RSM2_getConstParam d'"
  using RSM2_msop [of d pkt h] assms mems_ok_result [OF assms(1)] by (fastforce simp: mems_ok_def)

lemma RSM2_difop_ok:
  assumes "mems_ok RSM2_getConstParam d" and "length pkt = DIFOP_LEN (RSM2_getConstParam :: 'r::floor_ceiling RSDecoderConstParam)"
  shows "\<exists>d'. RSM2_decodeDifopPkt h pkt (d :: ('r::floor_ceiling, 'a) DecoderMems_scheme) = Some d' \<and> mems_ok RSM2_getConstParam d'"
proof -
  have "100 \<le> length pkt" using assms(2) by (simp add: mems_consts)
  then show ?thesis using RSM1_device_ok [OF assms(1), of pkt h] by (simp add: RSM2_decodeDifopPkt_def read_u8_def rd_def)
qed

interpretation rsm2: decoder_contract "mems_ok RSM2_getConstParam" "RSM2_getConstParam"
  "RSM2_decodeMsopPkt h" "RSM2_decodeDifopPkt h" for h 
  by unfold_locales ((rule mems_contract RSM2_msop_ok RSM2_difop_ok, assumption+)+, simp_all add: mems_consts)

lemma mk_DecoderRSM2_ok: "mems_ok RSM2_getConstParam (mk_DecoderRSM2 p)"
  by (simp add: mk_DecoderRSM2_def mk_DecoderMems_def mems_ok_def clouds_ok_def mk_Decoder_def Decoder.defs)

lemma RSM3_msop_ok:
  assumes "mems_ok RSM3_getConstParam d" and "length pkt = MSOP_LEN (RSM3_getConstParam :: 'r::floor_ceiling RSDecoderConstParam)"
  shows "\<exists>ret pkt' d'. RSM3_decodeMsopPkt h pkt (d :: ('r::floor_ceiling, 'a) DecoderMems_scheme) = Some (ret, pkt', d') \<and> length pkt' = length pkt \<and>
    mems_ok RSM3_getConstParam d'"
  using RSM3_msop [of d pkt h] assms mems_ok_result [OF assms(1)] by (fastforce simp: mems_ok_def)

lemma RSM3_difop_ok:
  assumes "mems_ok RSM3_getConstParam d" and "length pkt = DIFOP_LEN (RSM3_getConstParam :: 'r::floor_ceiling RSDecoderConstParam)"
  shows "\<exists>d'. RSM3_decodeDifopPkt h pkt (d :: ('r::floor_ceiling, 'a) DecoderMems_scheme) = Some d' \<and> mems_ok RSM3_getConstParam d'"
proof -
  have "122 \<le> length pkt" using assms(2) by (simp add: mems_consts)
  then show ?thesis using assms(1) by (simp add: RSM3_decodeDifopPkt_def read_utc_def rd_def)
qed

interpretation rsm3: decoder_contract "mems_ok RSM3_getConstParam" "RSM3_getConstParam"
  "RSM3_decodeMsopPkt h" "RSM3_decodeDifopPkt h" for h 
  by unfold_locales ((rule mems_contract RSM3_msop_ok RSM3_difop_ok, assumption+)+, simp_all add: mems_consts)

lemma mk_DecoderRSM3_ok: "mems_ok RSM3_getConstParam (mk_DecoderRSM3 p)"
  by (simp add: mk_DecoderRSM3_def mk_DecoderMems_def mems_ok_def clouds_ok_def mk_Decoder_def Decoder.defs)

lemma RSE1_msop_ok:
  assumes "mems_ok RSE1_getConstParam d" and "length pkt = MSOP_LEN (RSE1_getConstParam :: 'r::floor_ceiling RSDecoderConstParam)"
  shows "\<exists>ret pkt' d'. RSE1_decodeMsopPkt h pkt (d :: ('r::floor_ceiling, 'a) DecoderMems_scheme) = Some (ret, pkt', d') \<and> length pkt' = length pkt \<and>
    mems_ok RSE1_getConstParam d'"
  using RSE1_msop [of d pkt h] assms mems_ok_result [OF assms(1)] by (fastforce simp: mems_ok_def)

lemma RSE1_difop_ok:
  assumes "mems_ok RSE1_getConstParam d" and "length pkt = DIFOP_LEN (RSE1_getConstParam :: 'r::floor_ceiling RSDecoderConstParam)"
  shows "\<exists>d'. RSE1_decodeDifopPkt h pkt (d :: ('r::floor_ceiling, 'a) DecoderMems_scheme) = Some d' \<and> mems_ok RSE1_getConstParam d'"
proof -
  have len: "256 \<le> length pkt" using assms(2) by (simp add: mems_consts)
  show ?thesis
  proof (cases "imuDataPtr d")
    case None
    then show ?thesis using assms(1) by (auto simp: RSE1_decodeDifopPkt_def intro: mems_ok_imu)
  next
    case (Some imu)
    obtain i where i: "RSE1_imu h pkt imu d = Some i" using RSE1_imu_total [OF len] by blast
    obtain e where "putImuData (d\<lparr>imuDataPtr := Some i\<rparr>) = Some e" "mems_ok RSE1_getConstParam e"
      using putImuData_ok [OF mems_ok_imu(1) [OF assms(1)], of "Some i"] by auto
    then show ?thesis using Some i assms(1) by (auto simp: RSE1_decodeDifopPkt_def intro: mems_ok_imu)
  qed
qed

interpretation rse1: decoder_contract "mems_ok RSE1_getConstParam" "RSE1_getConstParam"
  "RSE1_decodeMsopPkt h" "RSE1_decodeDifopPkt h" for h 
  by unfold_locales ((rule mems_contract RSE1_msop_ok RSE1_difop_ok, assumption+)+, simp_all add: mems_consts)

lemma mk_DecoderRSE1_ok: "mems_ok RSE1_getConstParam (mk_DecoderRSE1 p)"
  by (simp add: mk_DecoderRSE1_def mk_DecoderMems_def mems_ok_def clouds_ok_def mk_Decoder_def Decoder.defs)

lemma RSMX_msop_ok:
  assumes "mems_ok RSMX_getConstParam d" and "length pkt = MSOP_LEN (RSMX_getConstParam :: 'r::floor_ceiling RSDecoderConstParam)"
  shows "\<exists>ret pkt' d'. RSMX_decodeMsopPkt h pkt (d :: ('r::floor_ceiling, 'a) DecoderMems_scheme) = Some (ret, pkt', d') \<and> length pkt' = length pkt \<and>
    mems_ok RSMX_getConstParam d'"
  using RSMX_msop [of d pkt h] assms mems_ok_result [OF assms(1)] by (fastforce simp: mems_ok_def)

lemma RSMX_difop_ok:
  assumes "mems_ok RSMX_getConstParam d" and "length pkt = DIFOP_LEN (RSMX_getConstParam :: 'r::floor_ceiling RSDecoderConstParam)"
  shows "\<exists>d'. RSMX_decodeDifopPkt h pkt (d :: ('r::floor_ceiling, 'a) DecoderMems_scheme) = Some d' \<and> mems_ok RSMX_getConstParam d'"
proof -
  have "122 \<le> length pkt" using assms(2) by (simp add: mems_consts)
  then show ?thesis using assms(1) by (auto simp: RSMX_decodeDifopPkt_def rd_def intro: mems_ok_imu)
qed

interpretation rsmx: decoder_contract "mems_ok RSMX_getConstParam" "RSMX_getConstParam"
  "RSMX_decodeMsopPkt h" "RSMX_decodeDifopPkt h" for h 
  by unfold_locales ((rule mems_contract RSMX_msop_ok RSMX_difop_ok, assumption+)+, simp_all add: mems_consts)

lemma mk_DecoderRSMX_ok: "mems_ok RSMX_getConstParam (mk_DecoderRSMX p)"
  by (simp add: mk_DecoderRSMX_def mk_DecoderMems_def mems_ok_def clouds_ok_def mk_Decoder_def Decoder.defs)

lemma RSM1_Jumbo_difop_ok:
  assumes "mems_ok RSM1_Jumbo_getConstParam d" and "length pkt = DIFOP_LEN (RSM1_Jumbo_getConstParam :: 'r::floor_ceiling RSDecoderConstParam)"
  shows "\<exists>d'. RSM1_Jumbo_decodeDifopPkt h pkt (d :: ('r::floor_ceiling, 'a) DecoderMems_scheme) = Some d' \<and> mems_ok RSM1_Jumbo_getConstParam d'"
proof -
  have "122 \<le> length pkt" using assms(2) by (simp add: mems_consts)
  then show ?thesis using assms(1) by (auto simp: RSM1_Jumbo_decodeDifopPkt_def read_u8_def rd_def intro: mems_ok_imu)
qed

interpretation rsm1jumbo: decoder_contract "mems_ok RSM1_Jumbo_getConstParam" "RSM1_Jumbo_getConstParam"
  "RSM1_Jumbo_decodeMsopPkt hs" "RSM1_Jumbo_decodeDifopPkt h" for h hs
  by unfold_locales ((rule mems_contract RSM1_Jumbo_msop_ok RSM1_Jumbo_difop_ok, assumption+)+, simp_all add: mems_consts)

lemma mk_DecoderRSM1_Jumbo_ok: "mems_ok RSM1_Jumbo_getConstParam (mk_DecoderRSM1_Jumbo p)"
  by (simp add: mk_DecoderRSM1_Jumbo_def mk_DecoderMems_def mems_ok_def clouds_ok_def mk_Decoder_def Decoder.defs)

end
