(* ===== verification/Rs_Emx.thy ===== *)
theory Rs_Emx
  imports Rs_Mems
begin

text \<open>
  The lidar EMX of rs_driver (\<^verbatim>\<open>driver/decoder/decoder_RSEMX.hpp\<close>). A packet is one column of 192 pixels;
  their pitch angles come from DIFOP packets of four formats, told apart by their length, so the length of a DIFOP packet
  is not checked against the constant of the lidar.
\<close>

section \<open>State\<close>

record 'r DecoderEMX = "'r DecoderMems" +
  pitch_angle :: "int list"

definition RSEMX_getConstParam :: "'r::floor_ceiling RSDecoderConstParam" where
  "RSEMX_getConstParam = \<lparr>MSOP_LEN = 812, DIFOP_LEN = 654, MSOP_ID_LEN = 4, DIFOP_ID_LEN = 3,
     MSOP_ID = [0x55, 0xAA, 0x5A, 0xA5, 0, 0, 0, 0], DIFOP_ID = [0xA5, 0xFF, 0x00, 0x5A, 0x11, 0x11, 0x55, 0x55],
     BLOCK_ID = [0, 0], LASER_NUM = 1, BLOCKS_PER_PKT = 192, CHANNELS_PER_BLOCK = 1,
     DISTANCE_MIN = 0.2, DISTANCE_MAX = 300, DISTANCE_RES = 0.005, TEMPERATURE_RES = 80,
     IMU_LEN = 0, IMU_ID_LEN = 0, IMU_ID = []\<rparr>"

text \<open>The default angles, whose halves are exact, and the pixel of every return when each pixel has two.\<close>

definition EMX_defaultAngle :: "int list" where
  "EMX_defaultAngle = map (\<lambda>i. (- 24160 + int i * 210) div 2) [0..<192]"

definition dual_return_pitch_index :: "nat list" where
  "dual_return_pitch_index = concat (map (\<lambda>i. [i, i]) [0..<192])"

definition mk_DecoderRSEMX :: "'r::floor_ceiling RSDecoderParam \<Rightarrow> 'r DecoderEMX" where
  "mk_DecoderRSEMX p = DecoderMems.extend
     (Decoder.extend ((mk_Decoder RSEMX_getConstParam p)\<lparr>packet_duration := 0.1 / 1520, bCheckMsopLen := True, bCheckDifopLen := False\<rparr>)
       (DecoderMems.fields mk_SplitBySeq)) (DecoderEMX.fields EMX_defaultAngle)"

section \<open>DIFOP packets\<close>

text \<open>The place of the angles in the four formats.\<close>

definition EMX_pitch_off :: "nat \<Rightarrow> nat option" where
  "EMX_pitch_off n = (if n = 654 then Some 140 else if n = 500 then Some 94 else if n = 740 then Some 334
     else if n = 756 then Some 350 else None)"

definition RSEMX_decodeDifopPkt :: "bytes \<Rightarrow> ('r, 'a) DecoderEMX_scheme \<Rightarrow> ('r, 'a) DecoderEMX_scheme option" where
  "RSEMX_decodeDifopPkt pkt d =
     (case EMX_pitch_off (length pkt) of
        None \<Rightarrow> Some d
      | Some off \<Rightarrow> do {
          angles \<leftarrow> all_some (map (\<lambda>i. map_option (\<lambda>a. sint (swap16 a) * 10 div 2) (read_u16 pkt (off + 2 * i))) [0..<192]);
          Some (d\<lparr>pitch_angle := angles, angles_ready := True\<rparr>)
        })"

section \<open>MSOP packets\<close>

text \<open>The pixel of a block. With two returns, a column takes two packets.\<close>

definition emx_chan :: "bool \<Rightarrow> u16 \<Rightarrow> nat \<Rightarrow> nat option" where
  "emx_chan dual pkt_seq blk =
     (let seq_mod = (if dual \<and> pkt_seq mod 2 \<noteq> 0 then 192 else 0)
      in if dual then nth_opt dual_return_pitch_index (blk + seq_mod) else Some blk)"

text \<open>One pixel; \<open>tab\<close> are the pitch angles. The angles are in thousandths of a degree.\<close>

definition emx_point :: "'r::floor_ceiling host \<Rightarrow> int list \<Rightarrow> bytes \<Rightarrow> 'r \<Rightarrow> bool \<Rightarrow> u16 \<Rightarrow> ('r, 'a) Decoder_scheme \<Rightarrow> nat
    \<Rightarrow> 'r point option option" where
  "emx_point h tab pkt pkt_ts dual pkt_seq d blk = do {
     y \<leftarrow> read_u16 pkt 24; po \<leftarrow> read_u16 pkt 6;
     real_chan \<leftarrow> emx_chan dual pkt_seq blk;
     p \<leftarrow> nth_opt tab real_chan;
     let yaw = round_half (of_int (sint (swap16 y)) * (1000 / 512) :: 'r);
     let pitch_offset = (of_int (sint (ntohs po)) / 32768 :: 'r);
     let pitch = p - round_half (pitch_offset * 1000);
     raw \<leftarrow> read_u16 pkt (32 + 4 * blk); intens \<leftarrow> read_u8 pkt (32 + 4 * blk + 2); feature \<leftarrow> read_u8 pkt (32 + 4 * blk + 3);
     let distance = of_nat (unat (ntohs raw)) * DISTANCE_RES (const_param d);
     Some (if distance_in (distance_section d) distance
       then Some \<lparr>pt_xyz = Some (h_transform h (distance * COS_FINE (h_trig h) pitch * COS_FINE (h_trig h) yaw,
           distance * COS_FINE (h_trig h) pitch * SIN_FINE (h_trig h) yaw, distance * SIN_FINE (h_trig h) pitch)),
         pt_intensity = intens, pt_timestamp = pkt_ts, pt_ring = of_nat real_chan, pt_feature = Some feature\<rparr>
       else if \<not> dense_points (param d)
       then Some \<lparr>pt_xyz = None, pt_intensity = 0, pt_timestamp = pkt_ts, pt_ring = of_nat real_chan, pt_feature = Some feature\<rparr>
       else None)
   }"

definition emx_add :: "'r::floor_ceiling host \<Rightarrow> int list \<Rightarrow> bytes \<Rightarrow> 'r \<Rightarrow> bool \<Rightarrow> u16 \<Rightarrow> nat \<Rightarrow> ('r, 'a) Decoder_scheme
    \<Rightarrow> ('r, 'a) Decoder_scheme option" where
  "emx_add h tab pkt pkt_ts dual pkt_seq blk d = do {
     p \<leftarrow> emx_point h tab pkt pkt_ts dual pkt_seq d blk;
     Some (d\<lparr>point_cloud := point_cloud d @ (case p of None \<Rightarrow> [] | Some p \<Rightarrow> [p])\<rparr>)
   }"

definition emx_temp :: "bytes \<Rightarrow> ('r::floor_ceiling, 'a) Decoder_scheme \<Rightarrow> ('r, 'a) Decoder_scheme option" where
  "emx_temp pkt d = do {
     t \<leftarrow> read_u16 pkt 28;
     Some (d\<lparr>temperature := of_nat (unat t) * (503.975 / 65536) - 273.15\<rparr>)
   }"

text \<open>The packets are numbered from 1; two surfaces are known.\<close>

definition RSEMX_decodeMsopPkt :: "'r::floor_ceiling host \<Rightarrow> bytes \<Rightarrow> ('r, 'a) DecoderEMX_scheme
    \<Rightarrow> (bool \<times> bytes \<times> ('r, 'a) DecoderEMX_scheme) option" where
  "RSEMX_decodeMsopPkt h pkt d = do {
     d \<leftarrow> emx_temp pkt d;
     (pkt_ts, pkt) \<leftarrow> mems_pkt_ts h pkt d;
     s \<leftarrow> read_u16 pkt 4; surface_index \<leftarrow> read_u8 pkt 27;
     let pkt_seq = ntohs s - 1;
     if surface_index \<ge> 2 then Some (False, pkt, d)
     else do {
       let (ret, d) = mems_split pkt_seq pkt_ts d;
       mode \<leftarrow> read_u8 pkt 8;
       d \<leftarrow> foldM (emx_add h (pitch_angle d) pkt pkt_ts (mode = 0) pkt_seq) [0..<BLOCKS_PER_PKT (const_param d)] d;
       Some (ret, pkt, d\<lparr>prev_point_ts := pkt_ts, prev_pkt_ts := pkt_ts\<rparr>)
     }
   }"

section \<open>Every packet keeps the contract\<close>

definition emx_points :: "'r::floor_ceiling host \<Rightarrow> bytes \<Rightarrow> 'r \<Rightarrow> ('r, 'a) DecoderEMX_scheme \<Rightarrow> 'r point list" where
  "emx_points h pkt t d = concat (map (\<lambda>blk. case the (emx_point h (pitch_angle d) pkt t (pkt ! 8 = 0)
     (ntohs (the (read_u16 pkt 4)) - 1) d blk) of None \<Rightarrow> [] | Some p \<Rightarrow> [p]) [0..<192])"

text \<open>The contract of \<^verbatim>\<open>decodeMsopPkt\<close>.\<close>

definition emx_result :: "'r::floor_ceiling host \<Rightarrow> bytes \<Rightarrow> ('r, 'a) DecoderEMX_scheme
    \<Rightarrow> bool \<times> bytes \<times> ('r, 'a) DecoderEMX_scheme \<Rightarrow> bool" where
  "emx_result h pkt d r \<longleftrightarrow> (case r of (ret, pkt', d') \<Rightarrow>
     length pkt' = length pkt \<and> take 10 pkt' = take 10 pkt \<and> drop 20 pkt' = drop 20 pkt \<and> mems_fixed d' = mems_fixed d \<and>
     pitch_angle d' = pitch_angle d \<and> (clouds_ok d \<longrightarrow> clouds_ok d') \<and>
     (if 2 \<le> pkt ! 27 then \<not> ret \<and> frames d' = frames d \<and> seq_strategy d' = seq_strategy d
      else \<exists>t q. read_u16 pkt 4 = Some q \<and> seq_newPacket (ntohs q - 1) (seq_strategy d) = (ret, seq_strategy d') \<and>
        frames d' = frame_step (ret, emx_points h pkt' t d) (frames d)))"

lemma dual_index: "length dual_return_pitch_index = 384" "i < 384 \<Longrightarrow> dual_return_pitch_index ! i = i div 2"
proof -
  have l: "length (concat (map (\<lambda>i. [i, i]) [0..<n])) = 2 * n" for n :: nat
    by (induction n) simp_all
  have n: "i < 2 * n \<Longrightarrow> concat (map (\<lambda>i. [i, i]) [0..<n]) ! i = i div 2" for n i :: nat
  proof (induction n)
    case (Suc n)
    show ?case
    proof (cases "i < 2 * n")
      case True
      then show ?thesis using Suc.IH l [of n] by (simp add: nth_append)
    next
      case False
      then have "i = 2 * n \<or> i = 2 * n + 1" using Suc.prems by auto
      then show ?thesis using l [of n] by (auto simp: nth_append)
    qed
  qed simp
  show "length dual_return_pitch_index = 384" "i < 384 \<Longrightarrow> dual_return_pitch_index ! i = i div 2"
    using l [of 192] n [of i 192] by (simp_all only: dual_return_pitch_index_def)
qed

lemma emx_point_total:
  assumes "length pkt = 812" and "length tab = 192" and "blk < 192"
  shows "\<exists>p. emx_point h tab pkt t dual s d blk = Some p \<and> (\<not> dense_points (param d) \<longrightarrow> p \<noteq> None)"
proof -
  obtain c p where c: "emx_chan dual s blk = Some c" "nth_opt tab c = Some p"
    using dual_index(1) dual_index(2) [of "blk + 192"] dual_index(2) [of blk] assms(2,3)
    by (cases dual; cases "s mod 2 = 0") (auto simp: emx_chan_def Let_def)
  obtain y po raw it ft where "read_u16 pkt 24 = Some y" "read_u16 pkt 6 = Some po" "read_u16 pkt (32 + 4 * blk) = Some raw"
    "read_u8 pkt (32 + 4 * blk + 2) = Some it" "read_u8 pkt (32 + 4 * blk + 3) = Some ft"
    using assms(1,3) by (simp add: read_u16_def read_u8_def rd_def)
  then show ?thesis using c by (simp add: emx_point_def Let_def)
qed

lemma emx_point_cong:
  assumes "mems_fixed d = mems_fixed e"
  shows "emx_point h tab pkt t dual s d blk = emx_point h tab pkt t dual s e blk"
  by (simp only: emx_point_def mems_fixedD [OF assms])

lemma emx_loop:
  fixes d :: "('r::floor_ceiling, 'a) DecoderEMX_scheme"
  assumes "length pkt = 812" and "length tab = 192"
  shows "\<exists>e. foldM (emx_add h tab pkt t dual s) [0..<192] d = Some e \<and> mems_same d e \<and> pitch_angle e = pitch_angle d \<and>
    point_cloud e = point_cloud d @ concat (map (\<lambda>blk. case the (emx_point h tab pkt t dual s d blk) of None \<Rightarrow> [] | Some p \<Rightarrow> [p]) [0..<192])"
proof -
  have "n \<le> 192 \<Longrightarrow> \<exists>e. foldM (emx_add h tab pkt t dual s) [0..<n] d = Some e \<and> mems_same d e \<and> pitch_angle e = pitch_angle d \<and>
    point_cloud e = point_cloud d @ concat (map (\<lambda>blk. case the (emx_point h tab pkt t dual s d blk) of None \<Rightarrow> [] | Some p \<Rightarrow> [p]) [0..<n])"
    for n
  proof (induction n)
    case 0
    then show ?case by (simp add: mems_same_def)
  next
    case (Suc n)
    then obtain e where e: "foldM (emx_add h tab pkt t dual s) [0..<n] d = Some e" "mems_same d e" "pitch_angle e = pitch_angle d"
      "point_cloud e = point_cloud d @ concat (map (\<lambda>blk. case the (emx_point h tab pkt t dual s d blk) of None \<Rightarrow> [] | Some p \<Rightarrow> [p]) [0..<n])"
      by auto
    obtain p where p: "emx_point h tab pkt t dual s d n = Some p" using emx_point_total [OF assms, of n h t dual s d] Suc.prems by auto
    have "mems_fixed d = mems_fixed e" using e(2) by (simp add: mems_same_def)
    from emx_point_cong [OF this] p have "emx_point h tab pkt t dual s e n = Some p" by metis
    then have "emx_add h tab pkt t dual s n e = Some (e\<lparr>point_cloud := point_cloud e @ (case p of None \<Rightarrow> [] | Some p \<Rightarrow> [p])\<rparr>)"
      by (simp add: emx_add_def)
    then show ?case using e p mems_same_trans [OF e(2) mems_same_upd(1)] by (simp add: foldM_append)
  qed
  from this [of 192] show ?thesis by simp
qed

lemma emx_points_length:
  assumes "length pkt = 812" and "length (pitch_angle d) = 192" and "\<not> dense_points (param d)"
  shows "length (emx_points h pkt t d) = 192"
proof -
  have "length (case the (emx_point h (pitch_angle d) pkt t b s d blk) of None \<Rightarrow> [] | Some p \<Rightarrow> [p]) = 1" if "blk < 192" for blk b s
    using emx_point_total [OF assms(1,2) that, of h t b s d] assms(3) by auto
  from rsm1_l.concat_map_length [of "[0..<192]", OF this] show ?thesis by (simp add: emx_points_def)
qed

lemma emx_mems_split:
  "pitch_angle (snd (mems_split q t d)) = pitch_angle d"
  by (simp add: mems_split_def cb_split_frame_def splitFrame_def Let_def split: prod.split)

lemma emx_stamp:
  "mems_fixed (f\<lparr>prev_point_ts := t\<rparr>) = mems_fixed f" "frames (f\<lparr>prev_point_ts := t\<rparr>) = frames f"
  "clouds_ok (f\<lparr>prev_point_ts := t\<rparr>) = clouds_ok f"
  by (simp_all add: mems_fixed_def frames_def clouds_ok_def)

lemma RSEMX_msop:
  fixes d :: "('r::floor_ceiling, 'a) DecoderEMX_scheme"
  assumes "const_param d = RSEMX_getConstParam" and "length (pitch_angle d) = 192" and "length pkt = 812"
  shows "\<exists>r. RSEMX_decodeMsopPkt h pkt d = Some r \<and> emx_result h pkt d r"
proof -
  obtain x where x: "emx_temp pkt d = Some (d\<lparr>temperature := x\<rparr>)"
    using assms(3) by (simp add: emx_temp_def read_u16_def rd_def)
  let ?d = "d\<lparr>temperature := x\<rparr>"
  obtain t pkt' where t: "mems_pkt_ts h pkt ?d = Some (t, pkt')" "length pkt' = length pkt" "take 10 pkt' = take 10 pkt"
    "drop 20 pkt' = drop 20 pkt"
    using mems_pkt_ts_total [of pkt h ?d] assms(3) by auto
  have nth: "pkt' ! i = pkt ! i" if "20 \<le> i" "i < 812" for i
    using arg_cong [OF t(4), of "\<lambda>xs. xs ! (i - 20)"] that assms(3) t(2) by simp
  have "read_u16 pkt' 4 = read_u16 (take 10 pkt') 4" "read_u16 pkt 4 = read_u16 (take 10 pkt) 4"
    using assms(3) t(2) by (simp_all add: read_u16_def rd_def drop_take min_def)
  moreover have "read_u16 pkt 4 \<noteq> None" using assms(3) by (simp add: read_u16_def rd_def)
  ultimately obtain q where q: "read_u16 pkt 4 = Some q" "read_u16 pkt' 4 = Some q" using t(3) by auto
  have r: "read_u8 pkt' 27 = Some (pkt ! 27)" "read_u8 pkt' 8 = Some (pkt' ! 8)"
    using nth [of 27] assms(3) t(2) by (simp_all add: read_u8_def rd_def hd_drop_conv_nth)
  show ?thesis
  proof (cases "2 \<le> pkt ! 27")
    case True
    then show ?thesis using x t q r by (simp add: RSEMX_decodeMsopPkt_def emx_result_def mems_fixed_def frames_def clouds_ok_def)
  next
    case False
    let ?q = "ntohs q - 1"
    obtain new s where s: "seq_newPacket ?q (seq_strategy ?d) = (new, s)" by force
    obtain e where e: "mems_split ?q t ?d = (new, e)" "mems_fixed e = mems_fixed ?d" "seq_strategy e = s"
      "frames e = frame_step (new, []) (frames ?d)" "clouds_ok ?d \<longrightarrow> clouds_ok e"
      using mems_split_spec [OF s] by blast
    have tab: "pitch_angle e = pitch_angle d" using emx_mems_split [of ?q t ?d] e(1) by simp
    have fx: "mems_fixed e = mems_fixed d" using e(2) by (simp add: mems_fixed_def)
    have c: "const_param e = RSEMX_getConstParam" using mems_fixedD [OF fx] assms(1) by simp
    let ?ps = "emx_points h pkt' t d"
    have l: "length pkt' = 812" "length (pitch_angle e) = 192" using assms t(2) tab by simp_all
    obtain f where f: "foldM (emx_add h (pitch_angle e) pkt' t (pkt' ! 8 = 0) ?q) [0..<192] e = Some f" "mems_same e f"
      "pitch_angle f = pitch_angle e" "point_cloud f = point_cloud e @ ?ps"
      using emx_loop [OF l, of h t "pkt' ! 8 = 0" ?q e] q(2) tab unfolding emx_point_cong [OF fx] by (auto simp: emx_points_def)
    have "dense_points (param e) \<or> LASER_NUM (const_param e) dvd length ?ps" using c by (simp add: RSEMX_getConstParam_def)
    then have okf: "clouds_ok d \<longrightarrow> clouds_ok f"
      using clouds_ok_append [OF _ f(2,4)] e(5) by (simp add: clouds_ok_def)
    have "frames f = frame_step (new, ?ps) (frames d)"
      using e(4) f(2,4) by (auto simp: frames_def frame_step_def mems_same_def split: if_splits)
    moreover have "BLOCKS_PER_PKT (const_param e) = 192" using c by (simp add: RSEMX_getConstParam_def)
    then have "RSEMX_decodeMsopPkt h pkt d = Some (new, pkt', f\<lparr>prev_point_ts := t, prev_pkt_ts := t\<rparr>)"
      using False q e(1) f(1) t(1) r x by (simp add: RSEMX_decodeMsopPkt_def)
    moreover have "seq_newPacket ?q (seq_strategy d) = (new, s)" "seq_strategy f = s" "mems_fixed f = mems_fixed d"
      using s e(3) f(2) fx by (simp_all add: mems_same_def)
    ultimately show ?thesis
      using False q(1) f(3) t(2-4) okf tab by (simp add: emx_result_def emx_stamp) blast
  qed
qed

definition emx_ok :: "('r::floor_ceiling, 'a) DecoderEMX_scheme \<Rightarrow> bool" where
  "emx_ok d \<longleftrightarrow> const_param d = RSEMX_getConstParam \<and> clouds_ok d \<and> bCheckMsopLen d \<and> length (pitch_angle d) = 192"

lemma emx_ok_limit: "emx_ok d \<Longrightarrow> emx_ok (limit_excep h e d)" "emx_ok d \<Longrightarrow> emx_ok (delay_limit_excep h e d)"
  by (auto simp: emx_ok_def limit_excep_def delay_limit_excep_def cb_excep_def clouds_ok_def Let_def)

lemma RSEMX_msop_ok:
  assumes "emx_ok d" and "length pkt = MSOP_LEN (RSEMX_getConstParam :: 'r::floor_ceiling RSDecoderConstParam)"
  shows "\<exists>ret pkt' d'. RSEMX_decodeMsopPkt h pkt (d :: ('r, 'a) DecoderEMX_scheme) = Some (ret, pkt', d') \<and> length pkt' = length pkt \<and> emx_ok d'"
proof -
  have "length pkt = 812" using assms(2) by (simp add: RSEMX_getConstParam_def)
  then obtain r where r: "RSEMX_decodeMsopPkt h pkt d = Some r" "emx_result h pkt d r"
    using RSEMX_msop [of d pkt h] assms(1) by (auto simp: emx_ok_def)
  obtain ret pkt' d' where e: "r = (ret, pkt', d')" by (cases r)
  have "length pkt' = length pkt" "emx_ok d'" using r(2) assms(1) mems_fixedD [of d' d] by (auto simp: emx_result_def emx_ok_def e)
  then show ?thesis using r(1) e by blast
qed

lemma emx_ok_const: "emx_ok (d :: ('r::floor_ceiling, 'a) DecoderEMX_scheme) \<Longrightarrow>
    MSOP_LEN (const_param d) = MSOP_LEN (RSEMX_getConstParam :: 'r RSDecoderConstParam) \<and>
    MSOP_ID_LEN (const_param d) = MSOP_ID_LEN (RSEMX_getConstParam :: 'r RSDecoderConstParam) \<and> bCheckMsopLen d"
  by (simp add: emx_ok_def)

lemma emx_ok_clear: "emx_ok d \<Longrightarrow> emx_ok (d\<lparr>point_cloud := []\<rparr>)"
  by (auto simp: emx_ok_def clouds_ok_def)

lemma emx_lens: "MSOP_ID_LEN RSEMX_getConstParam \<le> MSOP_LEN RSEMX_getConstParam" "6 \<le> MSOP_LEN RSEMX_getConstParam"
  by (simp_all add: RSEMX_getConstParam_def)

interpretation rsemx: msop_contract emx_ok RSEMX_getConstParam "RSEMX_decodeMsopPkt h" for h
  by unfold_locales ((rule emx_ok_const emx_ok_limit emx_ok_clear RSEMX_msop_ok, assumption+) | rule emx_lens)+

lemma RSEMX_difop:
  assumes "emx_ok d"
  shows "\<exists>d'. RSEMX_decodeDifopPkt pkt d = Some d' \<and> emx_ok d' \<and> frames d' = frames d"
proof (cases "EMX_pitch_off (length pkt)")
  case None
  then show ?thesis using assms by (simp add: RSEMX_decodeDifopPkt_def)
next
  case (Some off)
  then have "off + 384 \<le> length pkt" by (auto simp: EMX_pitch_off_def split: if_splits)
  then have "\<forall>i \<in> set [0..<192]. \<exists>a. map_option (\<lambda>a. sint (swap16 a) * 10 div 2) (read_u16 pkt (off + 2 * i)) = Some a"
    by (simp add: read_u16_def rd_def)
  from all_some_total [OF this] Some show ?thesis using assms
    by (auto simp: RSEMX_decodeDifopPkt_def emx_ok_def clouds_ok_def frames_def)
qed

lemma RSEMX_processDifop:
  assumes "emx_ok d" and "3 \<le> length pkt"
  shows "\<exists>d'. processDifopPkt RSEMX_decodeDifopPkt h pkt d = Some d' \<and> emx_ok d'"
  using RSEMX_difop [OF assms(1), of pkt] emx_ok_limit(1) [OF assms(1)] assms
  by (auto simp: processDifopPkt_def emx_ok_def RSEMX_getConstParam_def rd_def)

lemma mk_DecoderRSEMX_ok: "emx_ok (mk_DecoderRSEMX p)"
  by (simp add: emx_ok_def mk_DecoderRSEMX_def mk_Decoder_def clouds_ok_def EMX_defaultAngle_def DecoderMems.defs DecoderEMX.defs Decoder.defs)

end
