(* ===== verification/Rs_Factory.thy ===== *)
theory Rs_Factory
  imports Rs_Airy Rs_Emx
begin

text \<open>
  The decoders behind one interface: the lidar types and their names (\<^verbatim>\<open>driver/driver_param.hpp\<close>), the factory
  (\<^verbatim>\<open>driver/decoder/decoder_factory.hpp\<close>) and the virtual functions of \<^verbatim>\<open>Decoder\<close>. An object is the
  record of the base class, extended by the fields of its class; the tag of the extension is the class. Shown here: every
  type has its own name, the factory makes an object of the class of the type in a consistent state, and every
  class keeps the contract of the interface, so that any packet can be given to any decoder.
\<close>

section \<open>Types of lidars\<close>

datatype LidarType =
  RS16 | RS32 | RSBP | RSAIRY | RSAIRYLITE_ETH | RSFAIRY | RSHELIOS
| RSHELIOS_16P | RS128 | RS80 | RS48 | RSP128 | RSP80 | RSP48
| RSM1 | RSM2 | RSM3 | RSE1 | RSMX | RSEMX | RSM1_JUMBO

definition type_code :: "LidarType \<Rightarrow> nat" where
  "type_code t = (case t of RS16 \<Rightarrow> 1 | RS32 \<Rightarrow> 2 | RSBP \<Rightarrow> 3 | RSAIRY \<Rightarrow> 4 | RSAIRYLITE_ETH \<Rightarrow> 5 | RSFAIRY \<Rightarrow> 6
     | RSHELIOS \<Rightarrow> 7 | RSHELIOS_16P \<Rightarrow> 8 | RS128 \<Rightarrow> 9 | RS80 \<Rightarrow> 10 | RS48 \<Rightarrow> 11 | RSP128 \<Rightarrow> 12 | RSP80 \<Rightarrow> 13 | RSP48 \<Rightarrow> 14
     | RSM1 \<Rightarrow> 0x20 | RSM2 \<Rightarrow> 0x21 | RSM3 \<Rightarrow> 0x22 | RSE1 \<Rightarrow> 0x23 | RSMX \<Rightarrow> 0x24 | RSEMX \<Rightarrow> 0x71 | RSM1_JUMBO \<Rightarrow> 0x120)"

definition isMech :: "LidarType \<Rightarrow> bool" where
  "isMech t \<longleftrightarrow> 0x01 \<le> type_code t \<and> type_code t < 0x20"

definition isMems :: "LidarType \<Rightarrow> bool" where
  "isMems t \<longleftrightarrow> 0x20 \<le> type_code t \<and> type_code t < 0x100"

definition isJumbo :: "LidarType \<Rightarrow> bool" where
  "isJumbo t \<longleftrightarrow> 0x100 \<le> type_code t"

definition lidarTypeMap :: "(LidarType \<times> string) list" where
  "lidarTypeMap = [(RS16, ''RS16''), (RS32, ''RS32''), (RSBP, ''RSBP''), (RSAIRY, ''RSAIRY''), (RSAIRYLITE_ETH, ''RSAIRYLITE_ETH''), (RSFAIRY, ''RSFAIRY''),
     (RSHELIOS, ''RSHELIOS''), (RSHELIOS_16P, ''RSHELIOS_16P''), (RS128, ''RS128''), (RS80, ''RS80''), (RS48, ''RS48''),
     (RSP128, ''RSP128''), (RSP80, ''RSP80''), (RSP48, ''RSP48''), (RSM1, ''RSM1''), (RSM2, ''RSM2''), (RSM3, ''RSM3''),
     (RSE1, ''RSE1''), (RSMX, ''RSMX''), (RSEMX, ''RSEMX''), (RSM1_JUMBO, ''RSM1_JUMBO'')]"

definition strLidarTypeMap :: "(string \<times> LidarType) list" where
  "strLidarTypeMap = [(''RS16'', RS16), (''RS32'', RS32), (''RSBP'', RSBP), (''RSHELIOS'', RSHELIOS), (''RSHELIOS_16P'', RSHELIOS_16P),
     (''RS128'', RS128), (''RS80'', RS80), (''RS48'', RS48), (''RSP128'', RSP128), (''RSP80'', RSP80), (''RSP48'', RSP48), (''RSM1'', RSM1),
     (''RSM2'', RSM2), (''RSM3'', RSM3), (''RSE1'', RSE1), (''RSMX'', RSMX), (''RSEMX'', RSEMX),
     (''RSAIRY'', RSAIRY), (''RSAIRYLITE_ETH'', RSAIRYLITE_ETH), (''RSFAIRY'', RSFAIRY), (''RSM1_JUMBO'', RSM1_JUMBO)]"

text \<open>An unknown name ends the program, which is \<^term>\<open>None\<close>.\<close>

definition lidarTypeToStr :: "LidarType \<Rightarrow> string" where
  "lidarTypeToStr t = (case map_of lidarTypeMap t of Some s \<Rightarrow> s | None \<Rightarrow> ''ERROR'')"

definition strToLidarType :: "string \<Rightarrow> LidarType option" where
  "strToLidarType s = map_of strLidarTypeMap s"

section \<open>Objects and the factory\<close>

text \<open>The fields that each class adds to the base class.\<close>

datatype 'r sub =
  Is_RS16 "('r, unit) DecoderMech_ext"
| Is_RS32 "('r, unit) DecoderMech_ext"
| Is_RSBP "('r, unit DecoderRSBP_ext) DecoderMech_ext"
| Is_RSAIRY "('r, unit DecoderAiry_ext DecoderFairy_ext) DecoderMech_ext"
| Is_RSAIRYLITE_ETH "('r, unit) DecoderMech_ext"
| Is_RSFAIRY "('r, unit DecoderFairy_ext) DecoderMech_ext"
| Is_RSHELIOS "('r, unit) DecoderMech_ext"
| Is_RSHELIOS_16P "('r, unit) DecoderMech_ext"
| Is_RS128 "('r, unit) DecoderMech_ext"
| Is_RS80 "('r, unit) DecoderMech_ext"
| Is_RS48 "('r, unit) DecoderMech_ext"
| Is_RSP128 "('r, unit) DecoderMech_ext"
| Is_RSP80 "('r, unit DecoderRSP80_ext) DecoderMech_ext"
| Is_RSP48 "('r, unit) DecoderMech_ext"
| Is_RSM1 "unit DecoderMems_ext"
| Is_RSM2 "unit DecoderMems_ext"
| Is_RSM3 "unit DecoderMems_ext"
| Is_RSE1 "unit DecoderMems_ext"
| Is_RSMX "unit DecoderMems_ext"
| Is_RSEMX "unit DecoderEMX_ext DecoderMems_ext"
| Is_RSM1_JUMBO "unit DecoderMems_ext"

type_synonym 'r AnyDecoder = "('r, 'r sub) Decoder_scheme"

text \<open>The view of an object as one of its class, and back.\<close>

definition down :: "('r, 'b) Decoder_scheme \<Rightarrow> 'a \<Rightarrow> ('r, 'a) Decoder_scheme" where
  "down d x = Decoder.extend (Decoder.truncate d) x"

definition up :: "('a \<Rightarrow> 'b) \<Rightarrow> ('r, 'a) Decoder_scheme \<Rightarrow> ('r, 'b) Decoder_scheme" where
  "up C d = Decoder.extend (Decoder.truncate d) (C (Decoder.more d))"

definition class_of :: "'r AnyDecoder \<Rightarrow> LidarType" where
  "class_of d = (case Decoder.more d of
       Is_RS16 x \<Rightarrow> RS16
     | Is_RS32 x \<Rightarrow> RS32
     | Is_RSBP x \<Rightarrow> RSBP
     | Is_RSAIRY x \<Rightarrow> RSAIRY
     | Is_RSAIRYLITE_ETH x \<Rightarrow> RSAIRYLITE_ETH
     | Is_RSFAIRY x \<Rightarrow> RSFAIRY
     | Is_RSHELIOS x \<Rightarrow> RSHELIOS
     | Is_RSHELIOS_16P x \<Rightarrow> RSHELIOS_16P
     | Is_RS128 x \<Rightarrow> RS128
     | Is_RS80 x \<Rightarrow> RS80
     | Is_RS48 x \<Rightarrow> RS48
     | Is_RSP128 x \<Rightarrow> RSP128
     | Is_RSP80 x \<Rightarrow> RSP80
     | Is_RSP48 x \<Rightarrow> RSP48
     | Is_RSM1 x \<Rightarrow> RSM1
     | Is_RSM2 x \<Rightarrow> RSM2
     | Is_RSM3 x \<Rightarrow> RSM3
     | Is_RSE1 x \<Rightarrow> RSE1
     | Is_RSMX x \<Rightarrow> RSMX
     | Is_RSEMX x \<Rightarrow> RSEMX
     | Is_RSM1_JUMBO x \<Rightarrow> RSM1_JUMBO)"

definition createDecoder :: "(string \<Rightarrow> 'r::floor_ceiling option) \<Rightarrow> (string \<Rightarrow> string list option) \<Rightarrow> LidarType
    \<Rightarrow> 'r RSDecoderParam \<Rightarrow> 'r AnyDecoder option" where
  "createDecoder stof files t p = (case t of
       RS16 \<Rightarrow> map_option (up Is_RS16) (mk_DecoderRS16 stof files p)
     | RS32 \<Rightarrow> map_option (up Is_RS32) (mk_DecoderRS32 stof files p)
     | RSBP \<Rightarrow> map_option (up Is_RSBP) (mk_DecoderRSBP stof files p)
     | RSAIRY \<Rightarrow> map_option (up Is_RSAIRY) (mk_DecoderAIRY stof files p)
     | RSAIRYLITE_ETH \<Rightarrow> map_option (up Is_RSAIRYLITE_ETH) (mk_DecoderAIRYLITE stof files p)
     | RSFAIRY \<Rightarrow> map_option (up Is_RSFAIRY) (mk_DecoderFAIRY stof files p)
     | RSHELIOS \<Rightarrow> map_option (up Is_RSHELIOS) (mk_DecoderRSHELIOS stof files p)
     | RSHELIOS_16P \<Rightarrow> map_option (up Is_RSHELIOS_16P) (mk_DecoderRSHELIOS_16P stof files p)
     | RS128 \<Rightarrow> map_option (up Is_RS128) (mk_DecoderRS128 stof files p)
     | RS80 \<Rightarrow> map_option (up Is_RS80) (mk_DecoderRS80 stof files p)
     | RS48 \<Rightarrow> map_option (up Is_RS48) (mk_DecoderRS48 stof files p)
     | RSP128 \<Rightarrow> map_option (up Is_RSP128) (mk_DecoderRSP128 stof files p)
     | RSP80 \<Rightarrow> map_option (up Is_RSP80) (mk_DecoderRSP80 stof files p)
     | RSP48 \<Rightarrow> map_option (up Is_RSP48) (mk_DecoderRSP48 stof files p)
     | RSM1 \<Rightarrow> Some (up Is_RSM1 (mk_DecoderRSM1 p))
     | RSM2 \<Rightarrow> Some (up Is_RSM2 (mk_DecoderRSM2 p))
     | RSM3 \<Rightarrow> Some (up Is_RSM3 (mk_DecoderRSM3 p))
     | RSE1 \<Rightarrow> Some (up Is_RSE1 (mk_DecoderRSE1 p))
     | RSMX \<Rightarrow> Some (up Is_RSMX (mk_DecoderRSMX p))
     | RSEMX \<Rightarrow> Some (up Is_RSEMX (mk_DecoderRSEMX p))
     | RSM1_JUMBO \<Rightarrow> Some (up Is_RSM1_JUMBO (mk_DecoderRSM1_Jumbo p)))"

section \<open>Virtual functions\<close>

definition msop_up :: "('a \<Rightarrow> 'b) \<Rightarrow> (bool \<times> bytes \<times> ('r, 'a) Decoder_scheme) option
    \<Rightarrow> (bool \<times> bytes \<times> ('r, 'b) Decoder_scheme) option" where
  "msop_up C = map_option (\<lambda>(ret, pkt, d). (ret, pkt, up C d))"

definition frame_up :: "('a \<Rightarrow> 'b) \<Rightarrow> (bool \<times> ('r, 'a) Decoder_scheme) option \<Rightarrow> (bool \<times> ('r, 'b) Decoder_scheme) option" where
  "frame_up C = map_option (\<lambda>(v, d). (v, up C d))"

text \<open>A jumbo packet holds many packets, which are decoded at different times: \<open>hs i\<close> is the host at the \<open>i\<close>-th.\<close>

definition decodeMsopPkt :: "(nat \<Rightarrow> 'r::floor_ceiling host) \<Rightarrow> bytes \<Rightarrow> 'r AnyDecoder
    \<Rightarrow> (bool \<times> bytes \<times> 'r AnyDecoder) option" where
  "decodeMsopPkt hs pkt d = (case Decoder.more d of
       Is_RS16 x \<Rightarrow> msop_up Is_RS16 (RS16_decodeMsopPkt (hs 0) pkt (down d x))
     | Is_RS32 x \<Rightarrow> msop_up Is_RS32 (RS32_decodeMsopPkt (hs 0) pkt (down d x))
     | Is_RSBP x \<Rightarrow> msop_up Is_RSBP (RSBP_decodeMsopPkt (hs 0) pkt (down d x))
     | Is_RSAIRY x \<Rightarrow> msop_up Is_RSAIRY (AIRY_decodeMsopPkt (hs 0) pkt (down d x))
     | Is_RSAIRYLITE_ETH x \<Rightarrow> msop_up Is_RSAIRYLITE_ETH (AIRYLITE_decodeMsopPkt (hs 0) pkt (down d x))
     | Is_RSFAIRY x \<Rightarrow> msop_up Is_RSFAIRY (FAIRY_decodeMsopPkt (hs 0) pkt (down d x))
     | Is_RSHELIOS x \<Rightarrow> msop_up Is_RSHELIOS (RSHELIOS_decodeMsopPkt (hs 0) pkt (down d x))
     | Is_RSHELIOS_16P x \<Rightarrow> msop_up Is_RSHELIOS_16P (RSHELIOS_16P_decodeMsopPkt (hs 0) pkt (down d x))
     | Is_RS128 x \<Rightarrow> msop_up Is_RS128 (RS128_decodeMsopPkt (hs 0) pkt (down d x))
     | Is_RS80 x \<Rightarrow> msop_up Is_RS80 (RS80_decodeMsopPkt (hs 0) pkt (down d x))
     | Is_RS48 x \<Rightarrow> msop_up Is_RS48 (RS48_decodeMsopPkt (hs 0) pkt (down d x))
     | Is_RSP128 x \<Rightarrow> msop_up Is_RSP128 (RSP128_decodeMsopPkt (hs 0) pkt (down d x))
     | Is_RSP80 x \<Rightarrow> msop_up Is_RSP80 (RSP80_decodeMsopPkt (hs 0) pkt (down d x))
     | Is_RSP48 x \<Rightarrow> msop_up Is_RSP48 (RSP48_decodeMsopPkt (hs 0) pkt (down d x))
     | Is_RSM1 x \<Rightarrow> msop_up Is_RSM1 (RSM1_decodeMsopPkt (hs 0) pkt (down d x))
     | Is_RSM2 x \<Rightarrow> msop_up Is_RSM2 (RSM2_decodeMsopPkt (hs 0) pkt (down d x))
     | Is_RSM3 x \<Rightarrow> msop_up Is_RSM3 (RSM3_decodeMsopPkt (hs 0) pkt (down d x))
     | Is_RSE1 x \<Rightarrow> msop_up Is_RSE1 (RSE1_decodeMsopPkt (hs 0) pkt (down d x))
     | Is_RSMX x \<Rightarrow> msop_up Is_RSMX (RSMX_decodeMsopPkt (hs 0) pkt (down d x))
     | Is_RSEMX x \<Rightarrow> msop_up Is_RSEMX (RSEMX_decodeMsopPkt (hs 0) pkt (down d x))
     | Is_RSM1_JUMBO x \<Rightarrow> msop_up Is_RSM1_JUMBO (RSM1_Jumbo_decodeMsopPkt hs pkt (down d x)))"

definition decodeDifopPkt :: "'r::floor_ceiling host \<Rightarrow> bytes \<Rightarrow> 'r AnyDecoder \<Rightarrow> 'r AnyDecoder option" where
  "decodeDifopPkt h pkt d = (case Decoder.more d of
       Is_RS16 x \<Rightarrow> map_option (up Is_RS16) (RS16_decodeDifopPkt h pkt (down d x))
     | Is_RS32 x \<Rightarrow> map_option (up Is_RS32) (RS32_decodeDifopPkt h pkt (down d x))
     | Is_RSBP x \<Rightarrow> map_option (up Is_RSBP) (RSBP_decodeDifopPkt h pkt (down d x))
     | Is_RSAIRY x \<Rightarrow> map_option (up Is_RSAIRY) (AIRY_decodeDifopPkt h pkt (down d x))
     | Is_RSAIRYLITE_ETH x \<Rightarrow> map_option (up Is_RSAIRYLITE_ETH) (AIRYLITE_decodeDifopPkt h pkt (down d x))
     | Is_RSFAIRY x \<Rightarrow> map_option (up Is_RSFAIRY) (FAIRY_decodeDifopPkt h pkt (down d x))
     | Is_RSHELIOS x \<Rightarrow> map_option (up Is_RSHELIOS) (RSHELIOS_decodeDifopPkt h pkt (down d x))
     | Is_RSHELIOS_16P x \<Rightarrow> map_option (up Is_RSHELIOS_16P) (RSHELIOS_16P_decodeDifopPkt h pkt (down d x))
     | Is_RS128 x \<Rightarrow> map_option (up Is_RS128) (RS128_decodeDifopPkt h pkt (down d x))
     | Is_RS80 x \<Rightarrow> map_option (up Is_RS80) (RS80_decodeDifopPkt h pkt (down d x))
     | Is_RS48 x \<Rightarrow> map_option (up Is_RS48) (RS48_decodeDifopPkt h pkt (down d x))
     | Is_RSP128 x \<Rightarrow> map_option (up Is_RSP128) (RSP128_decodeDifopPkt h pkt (down d x))
     | Is_RSP80 x \<Rightarrow> map_option (up Is_RSP80) (RSP80_decodeDifopPkt h pkt (down d x))
     | Is_RSP48 x \<Rightarrow> map_option (up Is_RSP48) (RSP48_decodeDifopPkt h pkt (down d x))
     | Is_RSM1 x \<Rightarrow> map_option (up Is_RSM1) (RSM1_decodeDifopPkt h pkt (down d x))
     | Is_RSM2 x \<Rightarrow> map_option (up Is_RSM2) (RSM2_decodeDifopPkt h pkt (down d x))
     | Is_RSM3 x \<Rightarrow> map_option (up Is_RSM3) (RSM3_decodeDifopPkt h pkt (down d x))
     | Is_RSE1 x \<Rightarrow> map_option (up Is_RSE1) (RSE1_decodeDifopPkt h pkt (down d x))
     | Is_RSMX x \<Rightarrow> map_option (up Is_RSMX) (RSMX_decodeDifopPkt h pkt (down d x))
     | Is_RSEMX x \<Rightarrow> map_option (up Is_RSEMX) (RSEMX_decodeDifopPkt pkt (down d x))
     | Is_RSM1_JUMBO x \<Rightarrow> map_option (up Is_RSM1_JUMBO) (RSM1_Jumbo_decodeDifopPkt h pkt (down d x)))"

text \<open>The base class ignores IMU packets.\<close>

definition decodeImuPkt :: "'r::floor_ceiling host \<Rightarrow> bytes \<Rightarrow> 'r AnyDecoder \<Rightarrow> 'r AnyDecoder option" where
  "decodeImuPkt h pkt d = (case Decoder.more d of
       Is_RSAIRY x \<Rightarrow> map_option (up Is_RSAIRY) (AIRY_decodeImuPkt h pkt (down d x))
     | Is_RSFAIRY x \<Rightarrow> map_option (up Is_RSFAIRY) (FAIRY_decodeImuPkt h pkt (down d x))
     | Is_RSAIRYLITE_ETH x \<Rightarrow> map_option (up Is_RSAIRYLITE_ETH) (AIRYLITE_decodeImuPkt h pkt (down d x))
     | _ \<Rightarrow> Some d)"

definition isNewFrame :: "bytes \<Rightarrow> 'r::floor_ceiling AnyDecoder \<Rightarrow> (bool \<times> 'r AnyDecoder) option" where
  "isNewFrame pkt d = (case Decoder.more d of
       Is_RS16 x \<Rightarrow> frame_up Is_RS16 (RS16_isNewFrame pkt (down d x))
     | Is_RS32 x \<Rightarrow> frame_up Is_RS32 (RS32_isNewFrame pkt (down d x))
     | Is_RSBP x \<Rightarrow> frame_up Is_RSBP (RSBP_isNewFrame pkt (down d x))
     | Is_RSAIRY x \<Rightarrow> frame_up Is_RSAIRY (AIRY_isNewFrame pkt (down d x))
     | Is_RSAIRYLITE_ETH x \<Rightarrow> frame_up Is_RSAIRYLITE_ETH (AIRYLITE_isNewFrame pkt (down d x))
     | Is_RSFAIRY x \<Rightarrow> frame_up Is_RSFAIRY (FAIRY_isNewFrame pkt (down d x))
     | Is_RSHELIOS x \<Rightarrow> frame_up Is_RSHELIOS (RSHELIOS_isNewFrame pkt (down d x))
     | Is_RSHELIOS_16P x \<Rightarrow> frame_up Is_RSHELIOS_16P (RSHELIOS_16P_isNewFrame pkt (down d x))
     | Is_RS128 x \<Rightarrow> frame_up Is_RS128 (RS128_isNewFrame pkt (down d x))
     | Is_RS80 x \<Rightarrow> frame_up Is_RS80 (RS80_isNewFrame pkt (down d x))
     | Is_RS48 x \<Rightarrow> frame_up Is_RS48 (RS48_isNewFrame pkt (down d x))
     | Is_RSP128 x \<Rightarrow> frame_up Is_RSP128 (RSP128_isNewFrame pkt (down d x))
     | Is_RSP80 x \<Rightarrow> frame_up Is_RSP80 (RSP80_isNewFrame pkt (down d x))
     | Is_RSP48 x \<Rightarrow> frame_up Is_RSP48 (RSP48_isNewFrame pkt (down d x))
     | _ \<Rightarrow> isNewFrame_base pkt d)"

section \<open>Every class keeps the contract\<close>

definition type_const :: "LidarType \<Rightarrow> 'r::floor_ceiling RSDecoderConstParam" where
  "type_const t = (case t of
       RS16 \<Rightarrow> base RS16_getConstParam
     | RS32 \<Rightarrow> base RS32_getConstParam
     | RSBP \<Rightarrow> base RSBP_getConstParam
     | RSAIRY \<Rightarrow> base AIRY_getConstParam
     | RSAIRYLITE_ETH \<Rightarrow> base AIRYLITE_getConstParam
     | RSFAIRY \<Rightarrow> base FAIRY_getConstParam
     | RSHELIOS \<Rightarrow> base RSHELIOS_getConstParam
     | RSHELIOS_16P \<Rightarrow> base RSHELIOS_16P_getConstParam
     | RS128 \<Rightarrow> base RS128_getConstParam
     | RS80 \<Rightarrow> base RS80_getConstParam
     | RS48 \<Rightarrow> base RS48_getConstParam
     | RSP128 \<Rightarrow> base RSP128_getConstParam
     | RSP80 \<Rightarrow> base RSP80_getConstParam
     | RSP48 \<Rightarrow> base RSP48_getConstParam
     | RSM1 \<Rightarrow> RSM1_getConstParam
     | RSM2 \<Rightarrow> RSM2_getConstParam
     | RSM3 \<Rightarrow> RSM3_getConstParam
     | RSE1 \<Rightarrow> RSE1_getConstParam
     | RSMX \<Rightarrow> RSMX_getConstParam
     | RSEMX \<Rightarrow> RSEMX_getConstParam
     | RSM1_JUMBO \<Rightarrow> RSM1_Jumbo_getConstParam)"

text \<open>A consistent object of a class: its invariant, and the constants that the driver's checks use.\<close>

definition any_ok :: "LidarType \<Rightarrow> 'r::floor_ceiling AnyDecoder \<Rightarrow> bool" where
  "any_ok t d \<longleftrightarrow> class_of d = t \<and> (case Decoder.more d of
       Is_RS16 x \<Rightarrow> mech_ok (base RS16_getConstParam) (down d x)
     | Is_RS32 x \<Rightarrow> mech_ok (base RS32_getConstParam) (down d x)
     | Is_RSBP x \<Rightarrow> mech_ok (base RSBP_getConstParam) (down d x)
     | Is_RSAIRY x \<Rightarrow> airy_ok (base AIRY_getConstParam) (down d x)
     | Is_RSAIRYLITE_ETH x \<Rightarrow> mech_ok (base AIRYLITE_getConstParam) (down d x)
     | Is_RSFAIRY x \<Rightarrow> airy_ok (base FAIRY_getConstParam) (down d x)
     | Is_RSHELIOS x \<Rightarrow> mech_ok (base RSHELIOS_getConstParam) (down d x)
     | Is_RSHELIOS_16P x \<Rightarrow> mech_ok (base RSHELIOS_16P_getConstParam) (down d x)
     | Is_RS128 x \<Rightarrow> mech_ok (base RS128_getConstParam) (down d x)
     | Is_RS80 x \<Rightarrow> mech_ok (base RS80_getConstParam) (down d x)
     | Is_RS48 x \<Rightarrow> mech_ok (base RS48_getConstParam) (down d x)
     | Is_RSP128 x \<Rightarrow> mech_ok (base RSP128_getConstParam) (down d x)
     | Is_RSP80 x \<Rightarrow> mech_ok (base RSP80_getConstParam) (down d x)
     | Is_RSP48 x \<Rightarrow> mech_ok (base RSP48_getConstParam) (down d x)
     | Is_RSM1 x \<Rightarrow> mems_ok RSM1_getConstParam (down d x)
     | Is_RSM2 x \<Rightarrow> mems_ok RSM2_getConstParam (down d x)
     | Is_RSM3 x \<Rightarrow> mems_ok RSM3_getConstParam (down d x)
     | Is_RSE1 x \<Rightarrow> mems_ok RSE1_getConstParam (down d x)
     | Is_RSMX x \<Rightarrow> mems_ok RSMX_getConstParam (down d x)
     | Is_RSEMX x \<Rightarrow> emx_ok (down d x)
     | Is_RSM1_JUMBO x \<Rightarrow> mems_ok RSM1_Jumbo_getConstParam (down d x))"

lemma down_sel [simp]:
  "Decoder.more (down d x) = x" "const_param (down d x) = const_param d" "bCheckMsopLen (down d x) = bCheckMsopLen d"
  "bCheckDifopLen (down d x) = bCheckDifopLen d" "down (up C e) y = down e y" "Decoder.more (up C e) = C (Decoder.more e)"
  "down e (Decoder.more e) = e" "const_param (up C e) = const_param e"
  by (simp_all add: down_def up_def Decoder.defs)

lemma down_upd [simp]:
  "down (d\<lparr>point_cloud := ps\<rparr>) x = (down d x)\<lparr>point_cloud := ps\<rparr>"
  "down (limit_excep h e d) x = limit_excep h e (down d x)" "down (delay_limit_excep h e d) x = delay_limit_excep h e (down d x)"
  "Decoder.more (limit_excep h e d) = Decoder.more d" "Decoder.more (delay_limit_excep h e d) = Decoder.more d"
  by (simp_all add: down_def limit_excep_def delay_limit_excep_def cb_excep_def Decoder.defs Let_def)

lemma class_of_upd [simp]:
  "class_of (d\<lparr>point_cloud := ps\<rparr>) = class_of d" "class_of (limit_excep h e d) = class_of d"
  "class_of (delay_limit_excep h e d) = class_of d"
  by (simp_all add: class_of_def)

lemma any_ok_up [simp]:
  "any_ok t (up Is_RS16 e0) \<longleftrightarrow> t = RS16 \<and> mech_ok (base RS16_getConstParam) e0"
  "any_ok t (up Is_RS32 e1) \<longleftrightarrow> t = RS32 \<and> mech_ok (base RS32_getConstParam) e1"
  "any_ok t (up Is_RSBP e2) \<longleftrightarrow> t = RSBP \<and> mech_ok (base RSBP_getConstParam) e2"
  "any_ok t (up Is_RSAIRY e3) \<longleftrightarrow> t = RSAIRY \<and> airy_ok (base AIRY_getConstParam) e3"
  "any_ok t (up Is_RSAIRYLITE_ETH e4) \<longleftrightarrow> t = RSAIRYLITE_ETH \<and> mech_ok (base AIRYLITE_getConstParam) e4"
  "any_ok t (up Is_RSFAIRY e5) \<longleftrightarrow> t = RSFAIRY \<and> airy_ok (base FAIRY_getConstParam) e5"
  "any_ok t (up Is_RSHELIOS e6) \<longleftrightarrow> t = RSHELIOS \<and> mech_ok (base RSHELIOS_getConstParam) e6"
  "any_ok t (up Is_RSHELIOS_16P e7) \<longleftrightarrow> t = RSHELIOS_16P \<and> mech_ok (base RSHELIOS_16P_getConstParam) e7"
  "any_ok t (up Is_RS128 e8) \<longleftrightarrow> t = RS128 \<and> mech_ok (base RS128_getConstParam) e8"
  "any_ok t (up Is_RS80 e9) \<longleftrightarrow> t = RS80 \<and> mech_ok (base RS80_getConstParam) e9"
  "any_ok t (up Is_RS48 e10) \<longleftrightarrow> t = RS48 \<and> mech_ok (base RS48_getConstParam) e10"
  "any_ok t (up Is_RSP128 e11) \<longleftrightarrow> t = RSP128 \<and> mech_ok (base RSP128_getConstParam) e11"
  "any_ok t (up Is_RSP80 e12) \<longleftrightarrow> t = RSP80 \<and> mech_ok (base RSP80_getConstParam) e12"
  "any_ok t (up Is_RSP48 e13) \<longleftrightarrow> t = RSP48 \<and> mech_ok (base RSP48_getConstParam) e13"
  "any_ok t (up Is_RSM1 e14) \<longleftrightarrow> t = RSM1 \<and> mems_ok RSM1_getConstParam e14"
  "any_ok t (up Is_RSM2 e15) \<longleftrightarrow> t = RSM2 \<and> mems_ok RSM2_getConstParam e15"
  "any_ok t (up Is_RSM3 e16) \<longleftrightarrow> t = RSM3 \<and> mems_ok RSM3_getConstParam e16"
  "any_ok t (up Is_RSE1 e17) \<longleftrightarrow> t = RSE1 \<and> mems_ok RSE1_getConstParam e17"
  "any_ok t (up Is_RSMX e18) \<longleftrightarrow> t = RSMX \<and> mems_ok RSMX_getConstParam e18"
  "any_ok t (up Is_RSEMX e19) \<longleftrightarrow> t = RSEMX \<and> emx_ok e19"
  "any_ok t (up Is_RSM1_JUMBO e20) \<longleftrightarrow> t = RSM1_JUMBO \<and> mems_ok RSM1_Jumbo_getConstParam e20"
  by (auto simp: any_ok_def class_of_def)

lemma any_ok_emx: "any_ok RSEMX d \<Longrightarrow> \<exists>x. Decoder.more d = Is_RSEMX x \<and> emx_ok (down d x)"
  by (cases "Decoder.more d") (simp_all add: any_ok_def class_of_def)

lemma msop_upI:
  assumes "\<exists>ret pkt' e. m = Some (ret, pkt', e) \<and> length pkt' = length pkt \<and> P e" and "length pkt = n" and "\<And>e. P e \<Longrightarrow> any_ok t (up C e)"
  shows "\<exists>ret pkt' d'. msop_up C m = Some (ret, pkt', d') \<and> length pkt' = n \<and> any_ok t d'"
  using assms by (auto simp: msop_up_def)

lemma opt_upI:
  assumes "\<exists>e. m = Some e \<and> P e" and "\<And>e. P e \<Longrightarrow> any_ok t (up C e)"
  shows "\<exists>d'. map_option (up C) m = Some d' \<and> any_ok t d'"
  using assms by auto

text \<open>The contracts of the classes, which the dispatch lifts to the interface.\<close>

lemmas class_const = rs16.ok_const rs32.ok_const rsbp.ok_const airy.ok_const airylite.ok_const fairy.ok_const rshelios.ok_const rshelios16p.ok_const rs128.ok_const rs80.ok_const rs48.ok_const rsp128.ok_const rsp80.ok_const rsp48.ok_const rsm1.ok_const rsm2.ok_const rsm3.ok_const rse1.ok_const rsmx.ok_const rsm1jumbo.ok_const
lemmas class_limit = rs16.ok_limit rs32.ok_limit rsbp.ok_limit airy.ok_limit airylite.ok_limit fairy.ok_limit rshelios.ok_limit rshelios16p.ok_limit rs128.ok_limit rs80.ok_limit rs48.ok_limit rsp128.ok_limit rsp80.ok_limit rsp48.ok_limit rsm1.ok_limit rsm2.ok_limit rsm3.ok_limit rse1.ok_limit rsmx.ok_limit rsm1jumbo.ok_limit emx_ok_limit
lemmas class_clear = rs16.ok_clear rs32.ok_clear rsbp.ok_clear airy.ok_clear airylite.ok_clear fairy.ok_clear rshelios.ok_clear rshelios16p.ok_clear rs128.ok_clear rs80.ok_clear rs48.ok_clear rsp128.ok_clear rsp80.ok_clear rsp48.ok_clear rsm1.ok_clear rsm2.ok_clear rsm3.ok_clear rse1.ok_clear rsmx.ok_clear rsm1jumbo.ok_clear emx_ok_clear
lemmas class_msop = rs16.msop_ok rs32.msop_ok rsbp.msop_ok airy.msop_ok airylite.msop_ok fairy.msop_ok rshelios.msop_ok rshelios16p.msop_ok rs128.msop_ok rs80.msop_ok rs48.msop_ok rsp128.msop_ok rsp80.msop_ok rsp48.msop_ok rsm1.msop_ok rsm2.msop_ok rsm3.msop_ok rse1.msop_ok rsmx.msop_ok rsm1jumbo.msop_ok rsemx.msop_keeps
lemmas class_difop = rs16.difop_ok rs32.difop_ok rsbp.difop_ok airy.difop_ok airylite.difop_ok fairy.difop_ok rshelios.difop_ok rshelios16p.difop_ok rs128.difop_ok rs80.difop_ok rs48.difop_ok rsp128.difop_ok rsp80.difop_ok rsp48.difop_ok rsm1.difop_ok rsm2.difop_ok rsm3.difop_ok rse1.difop_ok rsmx.difop_ok rsm1jumbo.difop_ok
lemmas type_simps = any_ok_def class_of_def type_const_def

lemma any_ok_limit:
  assumes "any_ok t d"
  shows "any_ok t (limit_excep h e d)" and "any_ok t (delay_limit_excep h e d)"
  using assms by (cases "Decoder.more d"; auto simp: type_simps intro: class_limit)+

lemma any_ok_clear: "any_ok t d \<Longrightarrow> any_ok t (d\<lparr>point_cloud := []\<rparr>)"
  by (cases "Decoder.more d"; auto simp: type_simps intro: class_clear)

lemma any_ok_msop_const:
  assumes "any_ok t (d :: 'r::floor_ceiling AnyDecoder)"
  shows "MSOP_LEN (const_param d) = MSOP_LEN (type_const t :: 'r RSDecoderConstParam) \<and>
    MSOP_ID_LEN (const_param d) = MSOP_ID_LEN (type_const t :: 'r RSDecoderConstParam) \<and> bCheckMsopLen d"
  using assms by (cases "Decoder.more d"; auto simp: type_simps dest: class_const emx_ok_const)

lemma any_ok_difop_const:
  assumes "any_ok t (d :: 'r::floor_ceiling AnyDecoder)" and "t \<noteq> RSEMX"
  shows "DIFOP_LEN (const_param d) = DIFOP_LEN (type_const t :: 'r RSDecoderConstParam) \<and>
    DIFOP_ID_LEN (const_param d) = DIFOP_ID_LEN (type_const t :: 'r RSDecoderConstParam) \<and> bCheckDifopLen d"
  using assms by (cases "Decoder.more d"; auto simp: type_simps dest: class_const)

lemma any_msop_ok:
  assumes "any_ok t (d :: 'r::floor_ceiling AnyDecoder)" and "length pkt = MSOP_LEN (type_const t :: 'r RSDecoderConstParam)"
  shows "\<exists>ret pkt' d'. decodeMsopPkt hs pkt d = Some (ret, pkt', d') \<and> length pkt' = length pkt \<and> any_ok t d'"
  by (insert assms; cases "Decoder.more d"; simp add: decodeMsopPkt_def any_ok_def [of t d] class_of_def [of d] type_const_def del: split_paired_Ex;
    (elim conjE)?; (hypsubst)?; (rule msop_upI, rule class_msop, assumption, simp, simp, simp))

lemma any_difop_ok:
  assumes "any_ok t (d :: 'r::floor_ceiling AnyDecoder)" and "t \<noteq> RSEMX"
    and "length pkt = DIFOP_LEN (type_const t :: 'r RSDecoderConstParam)"
  shows "\<exists>d'. decodeDifopPkt h pkt d = Some d' \<and> any_ok t d'"
  by (insert assms; cases "Decoder.more d"; simp add: decodeDifopPkt_def any_ok_def [of t d] class_of_def [of d] type_const_def del: map_option_eq_Some;
    (elim conjE)?; (hypsubst)?; (rule opt_upI, rule class_difop, assumption, simp, simp))

text \<open>The IMU packets that the lidar can take: an AIRY lidar computes with the scales of the packet.\<close>

definition any_imu_fits :: "LidarType \<Rightarrow> bytes \<Rightarrow> bool" where
  "any_imu_fits t pkt \<longleftrightarrow> (t = RSAIRY \<and> length pkt = 51 \<longrightarrow> AIRY_imu_fits pkt)"

text \<open>Only the AIRY lidars send IMU packets; the constant of the others has no length, and their identification is empty.\<close>

lemma any_imu_const:
  assumes "any_ok t (d :: 'r::floor_ceiling AnyDecoder)"
  shows "IMU_LEN (const_param d) = IMU_LEN (type_const t :: 'r RSDecoderConstParam) \<and>
    IMU_ID_LEN (const_param d) = IMU_ID_LEN (type_const t :: 'r RSDecoderConstParam)"
proof (cases "Decoder.more d")
  case (Is_RS16 x)
  then show ?thesis using assms airy_imu_const(2) [of "base RS16_getConstParam" "down d x"] by (simp add: type_simps)
next
  case (Is_RS32 x)
  then show ?thesis using assms airy_imu_const(2) [of "base RS32_getConstParam" "down d x"] by (simp add: type_simps)
next
  case (Is_RSBP x)
  then show ?thesis using assms airy_imu_const(2) [of "base RSBP_getConstParam" "down d x"] by (simp add: type_simps)
next
  case (Is_RSAIRY x)
  then show ?thesis using assms airy_imu_const(1) [of "base AIRY_getConstParam" "down d x"] by (simp add: type_simps)
next
  case (Is_RSAIRYLITE_ETH x)
  then show ?thesis using assms airy_imu_const(2) [of "base AIRYLITE_getConstParam" "down d x"] by (simp add: type_simps)
next
  case (Is_RSFAIRY x)
  then show ?thesis using assms airy_imu_const(1) [of "base FAIRY_getConstParam" "down d x"] by (simp add: type_simps)
next
  case (Is_RSHELIOS x)
  then show ?thesis using assms airy_imu_const(2) [of "base RSHELIOS_getConstParam" "down d x"] by (simp add: type_simps)
next
  case (Is_RSHELIOS_16P x)
  then show ?thesis using assms airy_imu_const(2) [of "base RSHELIOS_16P_getConstParam" "down d x"] by (simp add: type_simps)
next
  case (Is_RS128 x)
  then show ?thesis using assms airy_imu_const(2) [of "base RS128_getConstParam" "down d x"] by (simp add: type_simps)
next
  case (Is_RS80 x)
  then show ?thesis using assms airy_imu_const(2) [of "base RS80_getConstParam" "down d x"] by (simp add: type_simps)
next
  case (Is_RS48 x)
  then show ?thesis using assms airy_imu_const(2) [of "base RS48_getConstParam" "down d x"] by (simp add: type_simps)
next
  case (Is_RSP128 x)
  then show ?thesis using assms airy_imu_const(2) [of "base RSP128_getConstParam" "down d x"] by (simp add: type_simps)
next
  case (Is_RSP80 x)
  then show ?thesis using assms airy_imu_const(2) [of "base RSP80_getConstParam" "down d x"] by (simp add: type_simps)
next
  case (Is_RSP48 x)
  then show ?thesis using assms airy_imu_const(2) [of "base RSP48_getConstParam" "down d x"] by (simp add: type_simps)
next
  case (Is_RSM1 x)
  then show ?thesis using assms by (simp add: type_simps mems_ok_def emx_ok_def)
next
  case (Is_RSM2 x)
  then show ?thesis using assms by (simp add: type_simps mems_ok_def emx_ok_def)
next
  case (Is_RSM3 x)
  then show ?thesis using assms by (simp add: type_simps mems_ok_def emx_ok_def)
next
  case (Is_RSE1 x)
  then show ?thesis using assms by (simp add: type_simps mems_ok_def emx_ok_def)
next
  case (Is_RSMX x)
  then show ?thesis using assms by (simp add: type_simps mems_ok_def emx_ok_def)
next
  case (Is_RSEMX x)
  then show ?thesis using assms by (simp add: type_simps mems_ok_def emx_ok_def)
next
  case (Is_RSM1_JUMBO x)
  then show ?thesis using assms by (simp add: type_simps mems_ok_def emx_ok_def)
qed

lemma any_imu_ok:
  assumes "any_ok t (d :: 'r::floor_ceiling AnyDecoder)" and "length pkt = IMU_LEN (type_const t :: 'r RSDecoderConstParam)"
    and "any_imu_fits t pkt"
  shows "\<exists>d'. decodeImuPkt h pkt d = Some d' \<and> any_ok t d'"
proof (cases "Decoder.more d")
  case (Is_RSAIRY x)
  then have "t = RSAIRY" "airy_ok (base AIRY_getConstParam) (down d x)" using assms(1) by (auto simp: any_ok_def class_of_def)
  then show ?thesis using assms(2,3) airy.imu_ok [of "down d x" pkt h] Is_RSAIRY airy_lens(10)
    by (auto simp: decodeImuPkt_def any_imu_fits_def type_const_def)
next
  case (Is_RSFAIRY x)
  then have "t = RSFAIRY" "airy_ok (base FAIRY_getConstParam) (down d x)" using assms(1) by (auto simp: any_ok_def class_of_def)
  then show ?thesis using assms(2) fairy.imu_ok [of "down d x" pkt h] Is_RSFAIRY
    by (auto simp: decodeImuPkt_def type_const_def)
next
  case (Is_RSAIRYLITE_ETH x)
  then have "t = RSAIRYLITE_ETH" "mech_ok (base AIRYLITE_getConstParam) (down d x)" using assms(1)
    by (auto simp: any_ok_def class_of_def)
  then show ?thesis using assms(2) airylite.imu_ok [of "down d x" pkt h] Is_RSAIRYLITE_ETH
    by (auto simp: decodeImuPkt_def type_const_def)
qed (use assms(1) in \<open>simp_all add: decodeImuPkt_def\<close>)

lemma type_lens:
  "MSOP_ID_LEN (type_const t :: 'r::floor_ceiling RSDecoderConstParam) \<le> MSOP_LEN (type_const t :: 'r RSDecoderConstParam)"
  "6 \<le> MSOP_LEN (type_const t :: 'r RSDecoderConstParam)"
  "DIFOP_ID_LEN (type_const t :: 'r RSDecoderConstParam) \<le> DIFOP_LEN (type_const t :: 'r RSDecoderConstParam)"
  "IMU_ID_LEN (type_const t :: 'r RSDecoderConstParam) \<le> IMU_LEN (type_const t :: 'r RSDecoderConstParam)"
  by (cases t; simp add: type_const_def mech_consts mems_consts airy_lens airy_consts RSEMX_getConstParam_def)+

interpretation any: msop_contract "any_ok t" "type_const t" "decodeMsopPkt hs" for t hs
  by unfold_locales ((rule any_ok_msop_const any_ok_limit any_ok_clear any_msop_ok, assumption+) | rule type_lens)+

interpretation checked: imu_contract "\<lambda>d. any_ok t d \<and> t \<noteq> RSEMX" "type_const t" "decodeMsopPkt hs" "decodeDifopPkt h"
  "decodeImuPkt h" "any_imu_fits t" for t hs h
proof (unfold_locales, goal_cases)
  case (1 d)
  then show ?case using any_ok_msop_const [of t d] any_ok_difop_const [of t d] by simp
next
  case (2 d h e)
  then show ?case using any_ok_limit(1) [of t d h e] by simp
next
  case (3 d h e)
  then show ?case using any_ok_limit(2) [of t d h e] by simp
next
  case (4 d)
  then show ?case using any_ok_clear [of t d] by simp
next
  case (5 d pkt)
  then show ?case using any_msop_ok [of t d pkt hs] by blast
next
  case (6 d pkt)
  then show ?case using any_difop_ok [of t d pkt h] by blast
next
  case (10 d)
  then show ?case using any_imu_const [of t d] by simp
next
  case (11 d pkt)
  then show ?case using any_imu_ok [of t d pkt h] by blast
qed (rule type_lens)+

text \<open>The DIFOP packets of the EMX lidar are taken whatever their length, but compared to an identification of some bytes.\<close>

definition difop_fits :: "LidarType \<Rightarrow> bytes \<Rightarrow> bool" where
  "difop_fits t pkt \<longleftrightarrow> (t = RSEMX \<longrightarrow> 3 \<le> length pkt)"

lemma any_processDifop_ok:
  assumes "any_ok t d" and "difop_fits t pkt"
  shows "\<exists>d'. processDifopPkt (decodeDifopPkt h) h pkt d = Some d' \<and> any_ok t d'"
proof (cases "t = RSEMX")
  case False
  then show ?thesis using checked.processDifopPkt_ok [of t d h h pkt] assms(1) by blast
next
  case True
  then obtain x where x: "Decoder.more d = Is_RSEMX x" "emx_ok (down d x)" using assms(1) any_ok_emx by blast
  have c: "const_param d = RSEMX_getConstParam" using x(2) by (simp add: emx_ok_def)
  obtain e where e: "RSEMX_decodeDifopPkt pkt (down d x) = Some e" "emx_ok e" using RSEMX_difop [OF x(2), of pkt] by blast
  have "decodeDifopPkt h pkt d = Some (up Is_RSEMX e)" using x(1) e(1) by (simp add: decodeDifopPkt_def)
  moreover have "any_ok t (up Is_RSEMX e)" using e(2) True by simp
  ultimately show ?thesis using assms True c any_ok_limit [OF assms(1)]
    by (auto simp: processDifopPkt_def RSEMX_getConstParam_def rd_def difop_fits_def)
qed

lemma any_processImu_ok:
  assumes "any_ok t d" and "any_imu_fits t pkt"
  shows "\<exists>ret d'. processImuPkt (decodeImuPkt h) h pkt d = Some (ret, d') \<and> any_ok t d'"
proof (cases "t = RSEMX")
  case False
  then show ?thesis using checked.processImuPkt_ok [of t d pkt h h] assms by blast
next
  case True
  then obtain x where x: "Decoder.more d = Is_RSEMX x" using assms(1) any_ok_emx by blast
  then show ?thesis using any_imu_const [OF assms(1)] any_ok_limit(1) [OF assms(1)] assms(1) True
    by (auto simp: processImuPkt_def rd_def decodeImuPkt_def type_const_def RSEMX_getConstParam_def)
qed

section \<open>Looking for frames in a file\<close>

lemma mech_newFrame_total:
  assumes "\<forall>blk \<in> set bs. blk < B" and "blk_off L + B * blk_size L \<le> length pkt" and "id_len L \<le> blk_size L" and "az_off L + 2 \<le> blk_size L"
  shows "\<exists>v d'. mech_newFrame L pkt bs d = Some (v, d') \<and> fixed_part d' = fixed_part d \<and> clouds_ok d' = clouds_ok d"
  using assms(1)
proof (induction bs arbitrary: d)
  case (Cons blk bs)
  have "Suc blk * blk_size L \<le> B * blk_size L" using Cons.prems by (intro mult_le_mono) auto
  then have n: "blk_off L + blk * blk_size L + blk_size L \<le> length pkt" using assms(2) by simp
  obtain new s where s: "newBlock d (uint (ntohs (le_dec (take 2 (drop (blk_off L + blk * blk_size L + az_off L) pkt)))))
    (pre_split_strategy d) = (new, s)" by force
  have "fixed_part (d\<lparr>pre_split_strategy := s\<rparr>) = fixed_part d" "clouds_ok (d\<lparr>pre_split_strategy := s\<rparr>) = clouds_ok d"
    by (simp_all add: fixed_part_def clouds_ok_def)
  moreover have "\<exists>v d'. mech_newFrame L pkt bs (d\<lparr>pre_split_strategy := s\<rparr>) = Some (v, d') \<and>
      fixed_part d' = fixed_part (d\<lparr>pre_split_strategy := s\<rparr>) \<and> clouds_ok d' = clouds_ok (d\<lparr>pre_split_strategy := s\<rparr>)"
    using Cons.prems by (intro Cons.IH) simp
  ultimately show ?case using n s assms(3,4) by (simp add: rd_def read_u16_def Let_def) blast
qed auto

lemma mech_isNewFrame_ok:
  assumes "blk_off L + BLOCKS_PER_PKT c * blk_size L \<le> length pkt" and "id_len L \<le> blk_size L" and "az_off L + 2 \<le> blk_size L"
  shows "mech_ok c d \<Longrightarrow> \<exists>d'. (\<exists>v. mech_newFrame L pkt [0..<BLOCKS_PER_PKT (const_param d)] d = Some (v, d')) \<and> mech_ok c d'"
    "airy_ok c d \<Longrightarrow> \<exists>d'. (\<exists>v. mech_newFrame L pkt [0..<BLOCKS_PER_PKT (const_param d)] d = Some (v, d')) \<and> airy_ok c d'"
proof -
  obtain v d' where d': "mech_newFrame L pkt [0..<BLOCKS_PER_PKT c] d = Some (v, d')" "fixed_part d' = fixed_part d" "clouds_ok d' = clouds_ok d"
    using mech_newFrame_total [of "[0..<BLOCKS_PER_PKT c]" "BLOCKS_PER_PKT c" L pkt d] assms by auto
  show "mech_ok c d \<Longrightarrow> \<exists>d'. (\<exists>v. mech_newFrame L pkt [0..<BLOCKS_PER_PKT (const_param d)] d = Some (v, d')) \<and> mech_ok c d'"
    "airy_ok c d \<Longrightarrow> \<exists>d'. (\<exists>v. mech_newFrame L pkt [0..<BLOCKS_PER_PKT (const_param d)] d = Some (v, d')) \<and> airy_ok c d'"
    using d' mech_ok_cong [OF d'(2), of c] airy_ok_cong [OF d'(2), of c] mech_invD(2) [of c d] by (auto simp: mech_ok_def airy_ok_def)
qed

lemma frame_upI:
  assumes "\<exists>e. (\<exists>v. m = Some (v, e)) \<and> P e" and "\<And>e. P e \<Longrightarrow> any_ok t (up C e)"
  shows "\<exists>v d'. frame_up C m = Some (v, d') \<and> any_ok t d'"
  using assms by (auto simp: frame_up_def)

lemma newFrame_layouts:
  assumes "1300 \<le> length (pkt :: bytes)"
  shows
  "blk_off RS16_layout + BLOCKS_PER_PKT (base RS16_getConstParam) * blk_size RS16_layout \<le> length pkt" "id_len RS16_layout \<le> blk_size RS16_layout" "az_off RS16_layout + 2 \<le> blk_size RS16_layout"
  "blk_off RS32_layout + BLOCKS_PER_PKT (base RS32_getConstParam) * blk_size RS32_layout \<le> length pkt" "id_len RS32_layout \<le> blk_size RS32_layout" "az_off RS32_layout + 2 \<le> blk_size RS32_layout"
  "blk_off RSBP_layout + BLOCKS_PER_PKT (base RSBP_getConstParam) * blk_size RSBP_layout \<le> length pkt" "id_len RSBP_layout \<le> blk_size RSBP_layout" "az_off RSBP_layout + 2 \<le> blk_size RSBP_layout"
  "blk_off (airy_layout 14 False m r\<lparr>id_len := 1\<rparr>) + BLOCKS_PER_PKT (base AIRY_getConstParam) * blk_size (airy_layout 14 False m r\<lparr>id_len := 1\<rparr>) \<le> length pkt" "id_len (airy_layout 14 False m r\<lparr>id_len := 1\<rparr>) \<le> blk_size (airy_layout 14 False m r\<lparr>id_len := 1\<rparr>)" "az_off (airy_layout 14 False m r\<lparr>id_len := 1\<rparr>) + 2 \<le> blk_size (airy_layout 14 False m r\<lparr>id_len := 1\<rparr>)"
  "blk_off AIRYLITE_layout + BLOCKS_PER_PKT (base AIRYLITE_getConstParam) * blk_size AIRYLITE_layout \<le> length pkt" "id_len AIRYLITE_layout \<le> blk_size AIRYLITE_layout" "az_off AIRYLITE_layout + 2 \<le> blk_size AIRYLITE_layout"
  "blk_off (airy_layout 15 True m r\<lparr>id_len := 1\<rparr>) + BLOCKS_PER_PKT (base FAIRY_getConstParam) * blk_size (airy_layout 15 True m r\<lparr>id_len := 1\<rparr>) \<le> length pkt" "id_len (airy_layout 15 True m r\<lparr>id_len := 1\<rparr>) \<le> blk_size (airy_layout 15 True m r\<lparr>id_len := 1\<rparr>)" "az_off (airy_layout 15 True m r\<lparr>id_len := 1\<rparr>) + 2 \<le> blk_size (airy_layout 15 True m r\<lparr>id_len := 1\<rparr>)"
  "blk_off RSHELIOS_layout + BLOCKS_PER_PKT (base RSHELIOS_getConstParam) * blk_size RSHELIOS_layout \<le> length pkt" "id_len RSHELIOS_layout \<le> blk_size RSHELIOS_layout" "az_off RSHELIOS_layout + 2 \<le> blk_size RSHELIOS_layout"
  "blk_off RSHELIOS_16P_layout + BLOCKS_PER_PKT (base RSHELIOS_16P_getConstParam) * blk_size RSHELIOS_16P_layout \<le> length pkt" "id_len RSHELIOS_16P_layout \<le> blk_size RSHELIOS_16P_layout" "az_off RSHELIOS_16P_layout + 2 \<le> blk_size RSHELIOS_16P_layout"
  "blk_off RS128_layout + BLOCKS_PER_PKT (base RS128_getConstParam) * blk_size RS128_layout \<le> length pkt" "id_len RS128_layout \<le> blk_size RS128_layout" "az_off RS128_layout + 2 \<le> blk_size RS128_layout"
  "blk_off RS80_layout + BLOCKS_PER_PKT (base RS80_getConstParam) * blk_size RS80_layout \<le> length pkt" "id_len RS80_layout \<le> blk_size RS80_layout" "az_off RS80_layout + 2 \<le> blk_size RS80_layout"
  "blk_off RS48_layout + BLOCKS_PER_PKT (base RS48_getConstParam) * blk_size RS48_layout \<le> length pkt" "id_len RS48_layout \<le> blk_size RS48_layout" "az_off RS48_layout + 2 \<le> blk_size RS48_layout"
  "blk_off RSP128_layout + BLOCKS_PER_PKT (base RSP128_getConstParam) * blk_size RSP128_layout \<le> length pkt" "id_len RSP128_layout \<le> blk_size RSP128_layout" "az_off RSP128_layout + 2 \<le> blk_size RSP128_layout"
  "blk_off RSP80_layout + BLOCKS_PER_PKT (base RSP80_getConstParam) * blk_size RSP80_layout \<le> length pkt" "id_len RSP80_layout \<le> blk_size RSP80_layout" "az_off RSP80_layout + 2 \<le> blk_size RSP80_layout"
  "blk_off RSP48_layout + BLOCKS_PER_PKT (base RSP48_getConstParam) * blk_size RSP48_layout \<le> length pkt" "id_len RSP48_layout \<le> blk_size RSP48_layout" "az_off RSP48_layout + 2 \<le> blk_size RSP48_layout"
  using assms by (simp_all add: mech_layouts mech_consts AIRYLITE_layout_def airy_layout_def airy_consts)

lemma class_newFrame:
  assumes "1300 \<le> length (pkt :: bytes)"
  shows
  "mech_ok (base RS16_getConstParam) d0 \<Longrightarrow> \<exists>e. (\<exists>v. RS16_isNewFrame pkt d0 = Some (v, e)) \<and> mech_ok (base RS16_getConstParam) e"
  "mech_ok (base RS32_getConstParam) d1 \<Longrightarrow> \<exists>e. (\<exists>v. RS32_isNewFrame pkt d1 = Some (v, e)) \<and> mech_ok (base RS32_getConstParam) e"
  "mech_ok (base RSBP_getConstParam) d2 \<Longrightarrow> \<exists>e. (\<exists>v. RSBP_isNewFrame pkt d2 = Some (v, e)) \<and> mech_ok (base RSBP_getConstParam) e"
  "mech_ok (base AIRYLITE_getConstParam) d3 \<Longrightarrow> \<exists>e. (\<exists>v. AIRYLITE_isNewFrame pkt d3 = Some (v, e)) \<and> mech_ok (base AIRYLITE_getConstParam) e"
  "mech_ok (base RSHELIOS_getConstParam) d4 \<Longrightarrow> \<exists>e. (\<exists>v. RSHELIOS_isNewFrame pkt d4 = Some (v, e)) \<and> mech_ok (base RSHELIOS_getConstParam) e"
  "mech_ok (base RSHELIOS_16P_getConstParam) d5 \<Longrightarrow> \<exists>e. (\<exists>v. RSHELIOS_16P_isNewFrame pkt d5 = Some (v, e)) \<and> mech_ok (base RSHELIOS_16P_getConstParam) e"
  "mech_ok (base RS128_getConstParam) d6 \<Longrightarrow> \<exists>e. (\<exists>v. RS128_isNewFrame pkt d6 = Some (v, e)) \<and> mech_ok (base RS128_getConstParam) e"
  "mech_ok (base RS80_getConstParam) d7 \<Longrightarrow> \<exists>e. (\<exists>v. RS80_isNewFrame pkt d7 = Some (v, e)) \<and> mech_ok (base RS80_getConstParam) e"
  "mech_ok (base RS48_getConstParam) d8 \<Longrightarrow> \<exists>e. (\<exists>v. RS48_isNewFrame pkt d8 = Some (v, e)) \<and> mech_ok (base RS48_getConstParam) e"
  "mech_ok (base RSP128_getConstParam) d9 \<Longrightarrow> \<exists>e. (\<exists>v. RSP128_isNewFrame pkt d9 = Some (v, e)) \<and> mech_ok (base RSP128_getConstParam) e"
  "mech_ok (base RSP80_getConstParam) d10 \<Longrightarrow> \<exists>e. (\<exists>v. RSP80_isNewFrame pkt d10 = Some (v, e)) \<and> mech_ok (base RSP80_getConstParam) e"
  "mech_ok (base RSP48_getConstParam) d11 \<Longrightarrow> \<exists>e. (\<exists>v. RSP48_isNewFrame pkt d11 = Some (v, e)) \<and> mech_ok (base RSP48_getConstParam) e"
  unfolding RS16_isNewFrame_def RS32_isNewFrame_def RSBP_isNewFrame_def AIRYLITE_isNewFrame_def RSHELIOS_isNewFrame_def RSHELIOS_16P_isNewFrame_def RS128_isNewFrame_def RS80_isNewFrame_def RS48_isNewFrame_def RSP128_isNewFrame_def RSP80_isNewFrame_def RSP48_isNewFrame_def
  by (rule mech_isNewFrame_ok(1), rule newFrame_layouts [OF assms], rule newFrame_layouts [OF assms], rule newFrame_layouts [OF assms],
    assumption)+

lemma airy_class_newFrame:
  assumes "1300 \<le> length (pkt :: bytes)"
  shows
  "airy_ok (base AIRY_getConstParam) d0 \<Longrightarrow> \<exists>e. (\<exists>v. AIRY_isNewFrame pkt d0 = Some (v, e)) \<and> airy_ok (base AIRY_getConstParam) e"
  "airy_ok (base FAIRY_getConstParam) d1 \<Longrightarrow> \<exists>e. (\<exists>v. FAIRY_isNewFrame pkt d1 = Some (v, e)) \<and> airy_ok (base FAIRY_getConstParam) e"
  using mech_isNewFrame_ok(2) [OF newFrame_layouts(10-12) [OF assms], of d0]
    mech_isNewFrame_ok(2) [OF newFrame_layouts(16-18) [OF assms], of d1] assms
  by (auto simp: AIRY_isNewFrame_def FAIRY_isNewFrame_def read_u8_def rd_def simp del: mech_newFrame.simps)

lemma down_base_upd [simp]:
  "down (d\<lparr>pre_split_comm := s\<rparr>) x = (down d x)\<lparr>pre_split_comm := s\<rparr>"
  "down (d\<lparr>write_pkt_ts := b\<rparr>) x = (down d x)\<lparr>write_pkt_ts := b\<rparr>"
  "down (d\<lparr>imuDataPtr := i, cb_imu_registered := b\<rparr>) x = (down d x)\<lparr>imuDataPtr := i, cb_imu_registered := b\<rparr>"
  by (simp_all add: down_def Decoder.defs)

lemma class_ok_upd:
  "mech_ok c (d\<lparr>pre_split_comm := s\<rparr>) = mech_ok c d" "airy_ok c (d\<lparr>pre_split_comm := s\<rparr>) = airy_ok c d"
  "mems_ok c (e\<lparr>pre_split_comm := s\<rparr>) = mems_ok c e" "emx_ok (f\<lparr>pre_split_comm := s\<rparr>) = emx_ok f"
  "mech_ok c (d\<lparr>write_pkt_ts := b\<rparr>) = mech_ok c d" "airy_ok c (d\<lparr>write_pkt_ts := b\<rparr>) = airy_ok c d"
  "mems_ok c (e\<lparr>write_pkt_ts := b\<rparr>) = mems_ok c e" "emx_ok (f\<lparr>write_pkt_ts := b\<rparr>) = emx_ok f"
  "mech_ok c (d\<lparr>imuDataPtr := i, cb_imu_registered := b\<rparr>) = mech_ok c d"
  "airy_ok c (d\<lparr>imuDataPtr := i, cb_imu_registered := b\<rparr>) = airy_ok c d"
  "mems_ok c (e\<lparr>imuDataPtr := i, cb_imu_registered := b\<rparr>) = mems_ok c e"
  "emx_ok (f\<lparr>imuDataPtr := i, cb_imu_registered := b\<rparr>) = emx_ok f"
  by (simp_all add: mech_ok_def airy_ok_def mems_ok_def emx_ok_def mech_inv_def clouds_ok_def)

lemma any_ok_upd [simp]:
  "any_ok t (d\<lparr>pre_split_comm := s\<rparr>) = any_ok t d" "any_ok t (d\<lparr>write_pkt_ts := b\<rparr>) = any_ok t d"
  "any_ok t (d\<lparr>imuDataPtr := i, cb_imu_registered := b\<rparr>) = any_ok t d"
  by (cases "Decoder.more d"; simp add: any_ok_def class_of_def class_ok_upd)+

lemma any_isNewFrame_ok:
  assumes "any_ok t d" and "1300 \<le> length pkt"
  shows "\<exists>v d'. isNewFrame pkt d = Some (v, d') \<and> any_ok t d'"
proof -
  have b: "\<exists>v d'. isNewFrame_base pkt d = Some (v, d') \<and> any_ok t d'"
    using assms by (auto simp: isNewFrame_base_def isNewFrameCommon_def Let_def split: prod.split)
  show ?thesis
    by (insert assms b; cases "Decoder.more d"; simp add: isNewFrame_def any_ok_def [of t d] class_of_def [of d] del: split_paired_Ex;
      (elim conjE)?; (hypsubst)?; (rule frame_upI, rule class_newFrame airy_class_newFrame, assumption, assumption, simp))
qed

section \<open>What the factory makes\<close>

lemmas class_made = mk_DecoderRS16_ok mk_DecoderRS32_ok mk_DecoderRSBP_ok mk_DecoderAIRY_ok mk_DecoderAIRYLITE_ok mk_DecoderFAIRY_ok mk_DecoderRSHELIOS_ok mk_DecoderRSHELIOS_16P_ok mk_DecoderRS128_ok mk_DecoderRS80_ok mk_DecoderRS48_ok mk_DecoderRSP128_ok mk_DecoderRSP80_ok mk_DecoderRSP48_ok mk_DecoderRSM1_ok mk_DecoderRSM2_ok mk_DecoderRSM3_ok mk_DecoderRSE1_ok mk_DecoderRSMX_ok mk_DecoderRSEMX_ok mk_DecoderRSM1_Jumbo_ok

lemma createDecoder_any_ok: "createDecoder stof files t p = Some d \<Longrightarrow> any_ok t d"
  by (cases t) (auto simp: createDecoder_def intro: class_made)

lemma any_ok_class: "any_ok t d \<Longrightarrow> class_of d = t"
  by (simp add: any_ok_def)

text \<open>C13: the factory makes an object of the class of the asked type in a consistent state, and the object stays one:
  whatever MSOP packet it is given, and whatever DIFOP and IMU packet that the class can take, it is processed inside its
  bounds, keeps the packet's length, and leaves a consistent object of the same class.\<close>

theorem createDecoder_typed:
  assumes "createDecoder stof files t p = Some d"
  shows "class_of d = t \<and> any_ok t d \<and>
    (\<forall>e hs h pkt. any_ok t e \<longrightarrow>
      (\<exists>ret pkt' e'. processMsopPkt (decodeMsopPkt hs) h pkt e = Some (ret, pkt', e') \<and> length pkt' = length pkt \<and>
        class_of e' = t \<and> any_ok t e') \<and>
      (difop_fits t pkt \<longrightarrow> (\<exists>e'. processDifopPkt (decodeDifopPkt h) h pkt e = Some e' \<and> class_of e' = t \<and> any_ok t e')) \<and>
      (any_imu_fits t pkt \<longrightarrow>
        (\<exists>ret e'. processImuPkt (decodeImuPkt h) h pkt e = Some (ret, e') \<and> class_of e' = t \<and> any_ok t e')))"
  using createDecoder_any_ok [OF assms] any_ok_class [OF createDecoder_any_ok [OF assms]]
    any.processMsopPkt_ok any_processDifop_ok any_processImu_ok any_ok_class by meson

theorem createDecoder_typed_witness:
  "\<exists>d :: rat AnyDecoder. createDecoder (\<lambda>_. None) (\<lambda>_. None) RSM1 default_param = Some d \<and> class_of d = RSM1 \<and>
    (\<forall>hs h pkt. processMsopPkt (decodeMsopPkt hs) h pkt d \<noteq> None)"
proof -
  let ?d = "up Is_RSM1 (mk_DecoderRSM1 default_param) :: rat AnyDecoder"
  have c: "createDecoder (\<lambda>_. None) (\<lambda>_. None) RSM1 default_param = Some ?d" by (simp add: createDecoder_def)
  note k = createDecoder_typed [OF c]
  have "processMsopPkt (decodeMsopPkt hs) h pkt ?d \<noteq> None" for hs h pkt
    using k [THEN conjunct2, THEN conjunct2, rule_format, OF k [THEN conjunct2, THEN conjunct1], of hs h pkt] by auto
  then show ?thesis using c k by blast
qed

text \<open>A string is read as a type exactly when it is the name that the type is printed with.\<close>

theorem strToLidarType_iff: "strToLidarType s = Some t \<longleftrightarrow> s = lidarTypeToStr t"
proof
  assume "strToLidarType s = Some t"
  then have "(s, t) \<in> set strLidarTypeMap" unfolding strToLidarType_def by (rule map_of_SomeD)
  then show "s = lidarTypeToStr t" by (auto simp: strLidarTypeMap_def lidarTypeToStr_def lidarTypeMap_def)
next
  assume "s = lidarTypeToStr t"
  then show "strToLidarType s = Some t"
    by (cases t) (simp_all add: strToLidarType_def strLidarTypeMap_def lidarTypeToStr_def lidarTypeMap_def)
qed

end
