(* ===== verification/Rs_Frames.thy ===== *)
theory Rs_Frames
  imports Rs_Factory
begin

text \<open>
  The frames that the virtual \<^verbatim>\<open>decodeMsopPkt\<close> of \<open>Rs_Factory\<close> makes, for the lidars whose packets are decoded without a state of the
  class: each is described by the layout of its packets and its iterator or its returns, and decoding is then the
  cutting of one stream of points.
\<close>

section \<open>Mechanical lidars\<close>

text \<open>The fields of the mechanical decoders that add no others.\<close>

definition mech_part :: "'r sub \<Rightarrow> ('r, unit) DecoderMech_ext option" where
  "mech_part s = (case s of
       Is_RS16 x \<Rightarrow> Some x | Is_RS32 x \<Rightarrow> Some x | Is_RSHELIOS x \<Rightarrow> Some x | Is_RSHELIOS_16P x \<Rightarrow> Some x
     | Is_RS128 x \<Rightarrow> Some x | Is_RS80 x \<Rightarrow> Some x | Is_RS48 x \<Rightarrow> Some x | Is_RSP128 x \<Rightarrow> Some x | Is_RSP48 x \<Rightarrow> Some x
     | Is_RSAIRYLITE_ETH x \<Rightarrow> Some x | _ \<Rightarrow> None)"

text \<open>Layout, and iterator for one and for two returns.\<close>

definition mech_table :: "LidarType \<Rightarrow> (mech_layout \<times> 'r::floor_ceiling mk_iter \<times> 'r mk_iter) option" where
  "mech_table t = (case t of
       RS16 \<Rightarrow> Some (RS16_layout, Rs16SingleReturn, Rs16DualReturn)
     | RS32 \<Rightarrow> Some (RS32_layout, SingleReturn, DualReturn)
     | RSHELIOS \<Rightarrow> Some (RSHELIOS_layout, SingleReturn, DualReturn)
     | RSHELIOS_16P \<Rightarrow> Some (RSHELIOS_16P_layout, Rs16SingleReturn, Rs16DualReturn)
     | RS128 \<Rightarrow> Some (RS128_layout, SingleReturn, \<lambda>azs n. ABDualReturn azs)
     | RS80 \<Rightarrow> Some (RS80_layout, SingleReturn, DualReturn)
     | RS48 \<Rightarrow> Some (RS48_layout, SingleReturn, DualReturn)
     | RSP128 \<Rightarrow> Some (RSP128_layout, SingleReturn, \<lambda>azs n. ABDualReturn azs)
     | RSP48 \<Rightarrow> Some (RSP48_layout, SingleReturn, DualReturn)
     | RSAIRYLITE_ETH \<Rightarrow> Some (AIRYLITE_layout, SingleReturn, SingleReturn)
     | _ \<Rightarrow> None)"

text \<open>The points of the blocks of a packet up to the first one with a wrong id, each with whether a frame is cut before it.\<close>

definition cut_blocks :: "'r::floor_ceiling host \<Rightarrow> mech_layout \<Rightarrow> 'r mk_iter \<Rightarrow> bytes \<Rightarrow> 'r \<Rightarrow> ('r, 'a) DecoderMech_scheme
    \<Rightarrow> (bool \<times> 'r point list) list option" where
  "cut_blocks h L mk pkt t d = do {
     iter \<leftarrow> decode_iter L mk pkt d;
     let bs = good_blocks L pkt (const_param d);
     let (cuts, s) = split_cuts d (map (block_az L pkt) bs) (split_strategy d);
     Some (zip cuts (map (block_points h L False pkt iter t d) bs))
   }"

lemma mech_result_frames:
  assumes "mech_result L c mk False h pkt d r" and "mech_inv c d"
  shows "\<exists>ret pkt' d' t xs. r = (ret, pkt', d') \<and> drop (blk_off L) pkt' = drop (blk_off L) pkt \<and>
    cut_blocks h L mk pkt' t d = Some xs \<and> ret = (\<exists>x \<in> set xs. fst x) \<and> frames d' = fold frame_step xs (frames d)"
proof -
  obtain ret pkt' d' where r: "r = (ret, pkt', d')" by (cases r)
  have g: "good_blocks L pkt' (const_param d) = good_blocks L pkt' c"
    using mech_invD(2,4) [OF assms(2)] by (simp add: good_blocks_def good_block_def [abs_def])
  obtain iter t cuts where k: "drop (blk_off L) pkt' = drop (blk_off L) pkt" "decode_iter L mk pkt' d = Some iter"
    "split_cuts d (map (block_az L pkt') (good_blocks L pkt' c)) (split_strategy d) = (cuts, split_strategy d')"
    "ret = (True \<in> set cuts)"
    "frames d' = fold frame_step (zip cuts (map (block_points h L False pkt' iter t d) (good_blocks L pkt' c))) (frames d)"
    using assms(1) r by (auto simp: mech_result_def)
  let ?xs = "zip cuts (map (block_points h L False pkt' iter t d) (good_blocks L pkt' c))"
  have "length cuts = length (good_blocks L pkt' c)"
    using length_split_cuts [of d "map (block_az L pkt') (good_blocks L pkt' c)" "split_strategy d"] k(3) by simp
  then have "map fst ?xs = cuts" by simp
  then have "set cuts = fst ` set ?xs" by (metis list.set_map)
  then have "ret = (\<exists>x \<in> set ?xs. fst x)" using k(4) by auto
  moreover have "cut_blocks h L mk pkt' t d = Some ?xs" using g k(2,3) by (simp add: cut_blocks_def)
  ultimately show ?thesis using r k(1,5) by blast
qed

lemma echo_mode_down [simp]: "echo_mode (down d x) = echo_mode d"
  by (simp add: down_def Decoder.defs)

lemma mech_table_msop:
  assumes "any_ok t (d :: 'r::floor_ceiling AnyDecoder)" and "mech_table t = Some (L, single, dual)"
    and "mech_part (Decoder.more d) = Some x" and "length pkt = MSOP_LEN (type_const t :: 'r RSDecoderConstParam)"
  shows "\<exists>r C. decodeMsopPkt hs pkt d = msop_up C (Some r) \<and> mech_inv (type_const t) (down d x) \<and>
    mech_result L (type_const t) (if echo_mode d = ECHO_SINGLE then single else dual) False (hs 0) pkt (down d x) r"
proof (cases "Decoder.more d")
  case (Is_RS16 y)
  then have k: "t = RS16" "mech_ok (base RS16_getConstParam) (down d x)" "y = x" using assms(1,3) by (auto simp: any_ok_def class_of_def mech_part_def)
  then obtain r where "RS16_decodeMsopPkt (hs 0) pkt (down d x) = Some r" "mech_result RS16_layout (base RS16_getConstParam)
      (if echo_mode d = ECHO_SINGLE then single else dual) False (hs 0) pkt (down d x) r"
    using RS16_msop [of "down d x" pkt "hs 0"] assms(2,4) by (auto simp: type_const_def mech_table_def mech_ok_def)
  then show ?thesis using k assms(2) Is_RS16
    by (intro exI [of _ r] exI [of _ Is_RS16]) (simp add: decodeMsopPkt_def type_const_def mech_table_def mech_ok_def)
next
  case (Is_RS32 y)
  then have k: "t = RS32" "mech_ok (base RS32_getConstParam) (down d x)" "y = x" using assms(1,3) by (auto simp: any_ok_def class_of_def mech_part_def)
  then obtain r where "RS32_decodeMsopPkt (hs 0) pkt (down d x) = Some r" "mech_result RS32_layout (base RS32_getConstParam)
      (if echo_mode d = ECHO_SINGLE then single else dual) False (hs 0) pkt (down d x) r"
    using RS32_msop [of "down d x" pkt "hs 0"] assms(2,4) by (auto simp: type_const_def mech_table_def mech_ok_def)
  then show ?thesis using k assms(2) Is_RS32
    by (intro exI [of _ r] exI [of _ Is_RS32]) (simp add: decodeMsopPkt_def type_const_def mech_table_def mech_ok_def)
next
  case (Is_RSHELIOS y)
  then have k: "t = RSHELIOS" "mech_ok (base RSHELIOS_getConstParam) (down d x)" "y = x" using assms(1,3) by (auto simp: any_ok_def class_of_def mech_part_def)
  then obtain r where "RSHELIOS_decodeMsopPkt (hs 0) pkt (down d x) = Some r" "mech_result RSHELIOS_layout (base RSHELIOS_getConstParam)
      (if echo_mode d = ECHO_SINGLE then single else dual) False (hs 0) pkt (down d x) r"
    using RSHELIOS_msop [of "down d x" pkt "hs 0"] assms(2,4) by (auto simp: type_const_def mech_table_def mech_ok_def)
  then show ?thesis using k assms(2) Is_RSHELIOS
    by (intro exI [of _ r] exI [of _ Is_RSHELIOS]) (simp add: decodeMsopPkt_def type_const_def mech_table_def mech_ok_def)
next
  case (Is_RSHELIOS_16P y)
  then have k: "t = RSHELIOS_16P" "mech_ok (base RSHELIOS_16P_getConstParam) (down d x)" "y = x" using assms(1,3) by (auto simp: any_ok_def class_of_def mech_part_def)
  then obtain r where "RSHELIOS_16P_decodeMsopPkt (hs 0) pkt (down d x) = Some r" "mech_result RSHELIOS_16P_layout (base RSHELIOS_16P_getConstParam)
      (if echo_mode d = ECHO_SINGLE then single else dual) False (hs 0) pkt (down d x) r"
    using RSHELIOS_16P_msop [of "down d x" pkt "hs 0"] assms(2,4) by (auto simp: type_const_def mech_table_def mech_ok_def)
  then show ?thesis using k assms(2) Is_RSHELIOS_16P
    by (intro exI [of _ r] exI [of _ Is_RSHELIOS_16P]) (simp add: decodeMsopPkt_def type_const_def mech_table_def mech_ok_def)
next
  case (Is_RS128 y)
  then have k: "t = RS128" "mech_ok (base RS128_getConstParam) (down d x)" "y = x" using assms(1,3) by (auto simp: any_ok_def class_of_def mech_part_def)
  then obtain r where "RS128_decodeMsopPkt (hs 0) pkt (down d x) = Some r" "mech_result RS128_layout (base RS128_getConstParam)
      (if echo_mode d = ECHO_SINGLE then single else dual) False (hs 0) pkt (down d x) r"
    using RS128_msop [of "down d x" pkt "hs 0"] assms(2,4) by (auto simp: type_const_def mech_table_def mech_ok_def)
  then show ?thesis using k assms(2) Is_RS128
    by (intro exI [of _ r] exI [of _ Is_RS128]) (simp add: decodeMsopPkt_def type_const_def mech_table_def mech_ok_def)
next
  case (Is_RS80 y)
  then have k: "t = RS80" "mech_ok (base RS80_getConstParam) (down d x)" "y = x" using assms(1,3) by (auto simp: any_ok_def class_of_def mech_part_def)
  then obtain r where "RS80_decodeMsopPkt (hs 0) pkt (down d x) = Some r" "mech_result RS80_layout (base RS80_getConstParam)
      (if echo_mode d = ECHO_SINGLE then single else dual) False (hs 0) pkt (down d x) r"
    using RS80_msop [of "down d x" pkt "hs 0"] assms(2,4) by (auto simp: type_const_def mech_table_def mech_ok_def)
  then show ?thesis using k assms(2) Is_RS80
    by (intro exI [of _ r] exI [of _ Is_RS80]) (simp add: decodeMsopPkt_def type_const_def mech_table_def mech_ok_def)
next
  case (Is_RS48 y)
  then have k: "t = RS48" "mech_ok (base RS48_getConstParam) (down d x)" "y = x" using assms(1,3) by (auto simp: any_ok_def class_of_def mech_part_def)
  then obtain r where "RS48_decodeMsopPkt (hs 0) pkt (down d x) = Some r" "mech_result RS48_layout (base RS48_getConstParam)
      (if echo_mode d = ECHO_SINGLE then single else dual) False (hs 0) pkt (down d x) r"
    using RS48_msop [of "down d x" pkt "hs 0"] assms(2,4) by (auto simp: type_const_def mech_table_def mech_ok_def)
  then show ?thesis using k assms(2) Is_RS48
    by (intro exI [of _ r] exI [of _ Is_RS48]) (simp add: decodeMsopPkt_def type_const_def mech_table_def mech_ok_def)
next
  case (Is_RSP128 y)
  then have k: "t = RSP128" "mech_ok (base RSP128_getConstParam) (down d x)" "y = x" using assms(1,3) by (auto simp: any_ok_def class_of_def mech_part_def)
  then obtain r where "RSP128_decodeMsopPkt (hs 0) pkt (down d x) = Some r" "mech_result RSP128_layout (base RSP128_getConstParam)
      (if echo_mode d = ECHO_SINGLE then single else dual) False (hs 0) pkt (down d x) r"
    using RSP128_msop [of "down d x" pkt "hs 0"] assms(2,4) by (auto simp: type_const_def mech_table_def mech_ok_def)
  then show ?thesis using k assms(2) Is_RSP128
    by (intro exI [of _ r] exI [of _ Is_RSP128]) (simp add: decodeMsopPkt_def type_const_def mech_table_def mech_ok_def)
next
  case (Is_RSP48 y)
  then have k: "t = RSP48" "mech_ok (base RSP48_getConstParam) (down d x)" "y = x" using assms(1,3) by (auto simp: any_ok_def class_of_def mech_part_def)
  then obtain r where "RSP48_decodeMsopPkt (hs 0) pkt (down d x) = Some r" "mech_result RSP48_layout (base RSP48_getConstParam)
      (if echo_mode d = ECHO_SINGLE then single else dual) False (hs 0) pkt (down d x) r"
    using RSP48_msop [of "down d x" pkt "hs 0"] assms(2,4) by (auto simp: type_const_def mech_table_def mech_ok_def)
  then show ?thesis using k assms(2) Is_RSP48
    by (intro exI [of _ r] exI [of _ Is_RSP48]) (simp add: decodeMsopPkt_def type_const_def mech_table_def mech_ok_def)
next
  case (Is_RSAIRYLITE_ETH y)
  then have k: "t = RSAIRYLITE_ETH" "mech_ok (base AIRYLITE_getConstParam) (down d x)" "y = x" using assms(1,3) by (auto simp: any_ok_def class_of_def mech_part_def)
  then obtain r where "AIRYLITE_decodeMsopPkt (hs 0) pkt (down d x) = Some r" "mech_result AIRYLITE_layout (base AIRYLITE_getConstParam)
      (if echo_mode d = ECHO_SINGLE then single else dual) False (hs 0) pkt (down d x) r"
    using AIRYLITE_msop [of "down d x" pkt "hs 0"] assms(2,4) by (auto simp: type_const_def mech_table_def mech_ok_def)
  then show ?thesis using k assms(2) Is_RSAIRYLITE_ETH
    by (intro exI [of _ r] exI [of _ Is_RSAIRYLITE_ETH]) (simp add: decodeMsopPkt_def type_const_def mech_table_def mech_ok_def)
qed (use assms(3) in \<open>simp_all add: mech_part_def\<close>)

lemma frames_view [simp]: "frames (up C e) = frames e" "frames (down d x) = frames d"
  by (simp_all add: frames_def up_def down_def Decoder.defs)

text \<open>C5: a MSOP packet of a mechanical lidar without a state of its own grows its frames by the points of the blocks of
  the packet, in their order, up to the first block with a wrong id, and cuts a frame before exactly the blocks where the strategy says
  so; the result is whether it cut one. This is the same for all ten lidars, which differ in the layout of the packet
  and the iterator over its blocks.\<close>

theorem mech_frames:
  assumes "any_ok t (d :: 'r::floor_ceiling AnyDecoder)" and "mech_table t = Some (L, single, dual)"
    and "mech_part (Decoder.more d) = Some x" and "length pkt = MSOP_LEN (type_const t :: 'r RSDecoderConstParam)"
  shows "\<exists>ret pkt' d' ts xs. decodeMsopPkt hs pkt d = Some (ret, pkt', d') \<and> drop (blk_off L) pkt' = drop (blk_off L) pkt \<and>
    cut_blocks (hs 0) L (if echo_mode d = ECHO_SINGLE then single else dual) pkt' ts (down d x) = Some xs \<and>
    ret = (\<exists>b \<in> set xs. fst b) \<and> frames d' = fold frame_step xs (frames d)"
proof -
  obtain r C where r: "decodeMsopPkt hs pkt d = msop_up C (Some r)" "mech_inv (type_const t) (down d x)"
    "mech_result L (type_const t) (if echo_mode d = ECHO_SINGLE then single else dual) False (hs 0) pkt (down d x) r"
    using mech_table_msop [OF assms] by blast
  from mech_result_frames [OF r(3,2)] show ?thesis using r(1) by (fastforce simp: msop_up_def)
qed

lemma sample_mech:
  obtains d x where "createDecoder (\<lambda>_. None) (\<lambda>_. None) RS32 (default_param :: rat RSDecoderParam) = Some d"
    "mech_part (Decoder.more d) = Some x" "echo_mode d = ECHO_SINGLE" "frames d = ([], [])"
proof -
  have "\<exists>d. mk_DecoderMech (\<lambda>_. None) (\<lambda>_. None) c (default_param :: rat RSDecoderParam) = Some d \<and> echo_mode d = ECHO_SINGLE \<and>
      frames d = ([], [])" for c
    by (simp add: mk_DecoderMech_def default_param_def mk_Decoder_def Decoder.defs frames_def Let_def)
  then obtain e where e: "mk_DecoderRS32 (\<lambda>_. None) (\<lambda>_. None) (default_param :: rat RSDecoderParam) = Some e" "echo_mode e = ECHO_SINGLE"
      "frames e = ([], [])"
    unfolding mk_DecoderRS32_def by blast
  then have "createDecoder (\<lambda>_. None) (\<lambda>_. None) RS32 (default_param :: rat RSDecoderParam) = Some (up Is_RS32 e)"
    by (simp add: createDecoder_def)
  moreover have "echo_mode (up Is_RS32 e) = echo_mode e" by (simp add: up_def Decoder.defs)
  ultimately show thesis using that [of "up Is_RS32 e" "Decoder.more e"] e by (simp add: mech_part_def)
qed

theorem mech_frames_witness:
  "\<exists>d x. createDecoder (\<lambda>_. None) (\<lambda>_. None) RS32 (default_param :: rat RSDecoderParam) = Some d \<and>
    (\<forall>hs. \<exists>ret pkt' d' ts xs. decodeMsopPkt hs (replicate 1248 0) d = Some (ret, pkt', d') \<and>
      cut_blocks (hs 0) RS32_layout SingleReturn pkt' ts (down d x :: rat DecoderMech) = Some xs \<and> frames d' = fold frame_step xs ([], []))"
proof -
  obtain d x where d: "createDecoder (\<lambda>_. None) (\<lambda>_. None) RS32 (default_param :: rat RSDecoderParam) = Some d"
    "mech_part (Decoder.more d) = Some x" "echo_mode d = ECHO_SINGLE" "frames d = ([], [])" by (rule sample_mech)
  have l: "length (replicate 1248 (0 :: u8)) = MSOP_LEN (type_const RS32 :: rat RSDecoderConstParam)"
    by (simp add: type_const_def mech_consts)
  have t: "mech_table RS32 = Some (RS32_layout, SingleReturn :: rat mk_iter, DualReturn)" by (simp add: mech_table_def)
  note m = mech_frames [OF createDecoder_any_ok [OF d(1)] t d(2) l, unfolded d(3,4) simp_thms if_True]
  have "\<exists>ret pkt' d' ts xs. decodeMsopPkt hs (replicate 1248 0) d = Some (ret, pkt', d') \<and>
      cut_blocks (hs 0) RS32_layout SingleReturn pkt' ts (down d x) = Some xs \<and> frames d' = fold frame_step xs ([], [])" for hs
    using m [of hs] by blast
  then show ?thesis by (intro exI [of _ d] exI [of _ x] conjI allI d(1))
qed

section \<open>MEMS lidars\<close>

definition mems_part :: "'r sub \<Rightarrow> unit DecoderMems_ext option" where
  "mems_part s = (case s of Is_RSM1 x \<Rightarrow> Some x | Is_RSM2 x \<Rightarrow> Some x | Is_RSM3 x \<Rightarrow> Some x | Is_RSE1 x \<Rightarrow> Some x | Is_RSMX x \<Rightarrow> Some x
     | _ \<Rightarrow> None)"

text \<open>Layout, the returns of a packet, and whether the last packet of a frame is known.\<close>

definition mems_table :: "LidarType \<Rightarrow> bytes \<Rightarrow> ('r::floor_ceiling mems_layout \<times> mems_return list \<times> bool) option" where
  "mems_table t pkt = (case t of
       RSM1 \<Rightarrow> Some (RSM1_layout, [(0, 6)], True)
     | RSM2 \<Rightarrow> Some (RSM2_layout, [(0, 8)], False)
     | RSM3 \<Rightarrow> Some (RSM3_layout, [(0, 8)], False)
     | RSE1 \<Rightarrow> Some (RSE1_layout, [(0, 8)], False)
     | RSMX \<Rightarrow> Some (RSMX_layout, if read_u8 pkt 8 = Some 0 then [(0, 10), (2, 11)] else [(0, 10)], False)
     | _ \<Rightarrow> None)"

lemma mems_table_msop:
  assumes "any_ok t (d :: 'r::floor_ceiling AnyDecoder)" and "mems_table t pkt = Some (L, xs, ends)"
    and "mems_part (Decoder.more d) = Some x" and "length pkt = MSOP_LEN (type_const t :: 'r RSDecoderConstParam)"
  shows "\<exists>r C. decodeMsopPkt hs pkt d = msop_up C (Some r) \<and> mems_result (hs 0) L xs ends pkt (down d x) r"
proof (cases "Decoder.more d")
  case (Is_RSM1 y)
  then have k: "t = RSM1" "mems_ok RSM1_getConstParam (down d x)" "y = x" using assms(1,3) by (auto simp: any_ok_def class_of_def mems_part_def)
  then obtain r where "RSM1_decodeMsopPkt (hs 0) pkt (down d x) = Some r" "mems_result (hs 0) L xs ends pkt (down d x) r"
    using RSM1_msop [of "down d x" pkt "hs 0"] assms(2,4) by (auto simp: type_const_def mems_table_def mems_ok_def)
  then show ?thesis using k Is_RSM1
    by (intro exI [of _ r] exI [of _ Is_RSM1]) (simp add: decodeMsopPkt_def)
next
  case (Is_RSM2 y)
  then have k: "t = RSM2" "mems_ok RSM2_getConstParam (down d x)" "y = x" using assms(1,3) by (auto simp: any_ok_def class_of_def mems_part_def)
  then obtain r where "RSM2_decodeMsopPkt (hs 0) pkt (down d x) = Some r" "mems_result (hs 0) L xs ends pkt (down d x) r"
    using RSM2_msop [of "down d x" pkt "hs 0"] assms(2,4) by (auto simp: type_const_def mems_table_def mems_ok_def)
  then show ?thesis using k Is_RSM2
    by (intro exI [of _ r] exI [of _ Is_RSM2]) (simp add: decodeMsopPkt_def)
next
  case (Is_RSM3 y)
  then have k: "t = RSM3" "mems_ok RSM3_getConstParam (down d x)" "y = x" using assms(1,3) by (auto simp: any_ok_def class_of_def mems_part_def)
  then obtain r where "RSM3_decodeMsopPkt (hs 0) pkt (down d x) = Some r" "mems_result (hs 0) L xs ends pkt (down d x) r"
    using RSM3_msop [of "down d x" pkt "hs 0"] assms(2,4) by (auto simp: type_const_def mems_table_def mems_ok_def)
  then show ?thesis using k Is_RSM3
    by (intro exI [of _ r] exI [of _ Is_RSM3]) (simp add: decodeMsopPkt_def)
next
  case (Is_RSE1 y)
  then have k: "t = RSE1" "mems_ok RSE1_getConstParam (down d x)" "y = x" using assms(1,3) by (auto simp: any_ok_def class_of_def mems_part_def)
  then obtain r where "RSE1_decodeMsopPkt (hs 0) pkt (down d x) = Some r" "mems_result (hs 0) L xs ends pkt (down d x) r"
    using RSE1_msop [of "down d x" pkt "hs 0"] assms(2,4) by (auto simp: type_const_def mems_table_def mems_ok_def)
  then show ?thesis using k Is_RSE1
    by (intro exI [of _ r] exI [of _ Is_RSE1]) (simp add: decodeMsopPkt_def)
next
  case (Is_RSMX y)
  then have k: "t = RSMX" "mems_ok RSMX_getConstParam (down d x)" "y = x" using assms(1,3) by (auto simp: any_ok_def class_of_def mems_part_def)
  then obtain r where "RSMX_decodeMsopPkt (hs 0) pkt (down d x) = Some r" "mems_result (hs 0) L xs ends pkt (down d x) r"
    using RSMX_msop [of "down d x" pkt "hs 0"] assms(2,4) by (auto simp: type_const_def mems_table_def mems_ok_def)
  then show ?thesis using k Is_RSMX
    by (intro exI [of _ r] exI [of _ Is_RSMX]) (simp add: decodeMsopPkt_def)
qed (use assms(3) in \<open>simp_all add: mems_part_def\<close>)

text \<open>C14: a MSOP packet of a MEMS lidar is cut as a whole: the points of all its blocks join the frame being collected, behind a cut if its
  number goes back, and for the lidar that knows its last packet another cut follows that one.\<close>

theorem mems_frames:
  assumes "any_ok t (d :: 'r::floor_ceiling AnyDecoder)" and "mems_table t pkt = Some (L, xs, ends)"
    and "mems_part (Decoder.more d) = Some x" and "length pkt = MSOP_LEN (type_const t :: 'r RSDecoderConstParam)"
  shows "\<exists>ret pkt' d' ts q s. decodeMsopPkt hs pkt d = Some (ret, pkt', d') \<and> drop 20 pkt' = drop 20 pkt \<and>
    read_u16 pkt 4 = Some q \<and> seq_newPacket (ntohs q) (seq_strategy (down d x)) = (ret, s) \<and>
    frames d' = frame_step (ends \<and> maxSeq s = ntohs q, []) (frame_step (ret, packet_points (hs 0) L xs pkt' ts (down d x)) (frames d))"
proof -
  obtain r C where "decodeMsopPkt hs pkt d = msop_up C (Some r)" "mems_result (hs 0) L xs ends pkt (down d x) r"
    using mems_table_msop [OF assms] by blast
  then show ?thesis by (cases r) (fastforce simp: msop_up_def mems_result_def)
qed

theorem mems_frames_witness:
  "\<forall>hs. \<exists>ret pkt' d' ts. decodeMsopPkt hs (replicate 1342 0) (up Is_RSM2 (mk_DecoderRSM2 default_param)) = Some (ret, pkt', d') \<and>
    frames d' = frame_step (ret, packet_points (hs 0) RSM2_layout [(0, 8)] pkt' ts (mk_DecoderRSM2 (default_param :: rat RSDecoderParam))) ([], [])"
proof -
  let ?e = "mk_DecoderRSM2 default_param :: rat DecoderMems" and ?z = "replicate 1342 (0 :: u8)"
  have a: "any_ok RSM2 (up Is_RSM2 ?e)" by (simp add: mk_DecoderRSM2_ok)
  have t: "mems_table RSM2 ?z = Some (RSM2_layout :: rat mems_layout, [(0, 8)], False)" by (simp add: mems_table_def)
  have l: "length ?z = MSOP_LEN (type_const RSM2 :: rat RSDecoderConstParam)" by (simp add: type_const_def mems_consts)
  have p: "mems_part (Decoder.more (up Is_RSM2 ?e)) = Some (Decoder.more ?e)" by (simp add: mems_part_def)
  have f: "frames ?e = ([], [])" by (simp add: frames_def mk_DecoderRSM2_def mk_DecoderMems_def mk_Decoder_def Decoder.defs)
  show ?thesis using mems_frames [OF a t p l] f by (fastforce simp: frame_step_def split: prod.splits)
qed

end
