(* ===== verification/Rs_Input.thy ===== *)
theory Rs_Input
  imports Rs_Blocks
begin

text \<open>
  The inputs of rs_driver: the packet buffer (\<^verbatim>\<open>utility/buffer.hpp\<close>), packets fed by the user
  (\<^verbatim>\<open>driver/input/input_raw.hpp\<close>), received from sockets (\<^verbatim>\<open>driver/input/unix/input_sock_epoll.hpp\<close>,
  \<^verbatim>\<open>input_sock_select.hpp\<close>) and captured in a file (\<^verbatim>\<open>driver/input/input_pcap.hpp\<close>), and the reassembly of
  IP fragments (\<^verbatim>\<open>driver/input/jumbo.hpp\<close>). The buffers come from and go to the driver. Sockets are queues
  of datagrams; the system calls of their set-up and the pcap library are not modelled. Shown here: which
  datagrams are taken within the buffer, and that every fragmented datagram is put together again.
\<close>

section \<open>Buffers\<close>

record Buffer =
  buf :: bytes
  data_off :: nat
  data_size :: nat

definition mk_Buffer :: "nat \<Rightarrow> Buffer" where
  "mk_Buffer n = \<lparr>buf = replicate n 0, data_off = 0, data_size = 0\<rparr>"

definition setData :: "nat \<Rightarrow> nat \<Rightarrow> Buffer \<Rightarrow> Buffer" where
  "setData off n b = b\<lparr>data_off := off, data_size := n\<rparr>"

abbreviation bufSize :: "Buffer \<Rightarrow> nat" where
  "bufSize b \<equiv> length (buf b)"

text \<open>The memory at \<^verbatim>\<open>data()\<close>, to the end of the buffer.\<close>

definition data_mem :: "Buffer \<Rightarrow> bytes" where
  "data_mem b = drop (data_off b) (buf b)"

definition buffer_ok :: "Buffer \<Rightarrow> bool" where
  "buffer_ok b \<longleftrightarrow> data_off b + data_size b \<le> bufSize b"

abbreviation ETH_LEN :: nat where "ETH_LEN \<equiv> 1546"
abbreviation IP_LEN :: nat where "IP_LEN \<equiv> 65536"

section \<open>Packets from the user\<close>

text \<open>\<open>raw_offset\<close> and \<open>raw_tail\<close> are the bytes of the user's layers before and behind the packet. The length that is copied
  is computed in \<^verbatim>\<open>size_t\<close>.\<close>

definition feedPacket :: "nat \<Rightarrow> nat \<Rightarrow> bytes \<Rightarrow> Buffer \<Rightarrow> Buffer option" where
  "feedPacket raw_offset raw_tail dat pkt = do {
     let n = unat (of_nat (length dat) - of_nat raw_offset - of_nat raw_tail :: u64);
     src \<leftarrow> rd dat raw_offset n;
     m \<leftarrow> wr (buf pkt) (data_off pkt) src;
     Some (setData 0 n (pkt\<lparr>buf := m\<rparr>))
   }"

section \<open>Packets from sockets\<close>

text \<open>\<^verbatim>\<open>recvfrom\<close> into the whole buffer; a longer datagram is cut.\<close>

definition recvfrom :: "bytes \<Rightarrow> Buffer \<Rightarrow> nat \<times> Buffer" where
  "recvfrom dg pkt = (let n = min (length dg) (bufSize pkt) in (n, pkt\<lparr>buf := take n dg @ drop n (buf pkt)\<rparr>))"

datatype sock = MSOP_SOCK | DIFOP_SOCK | IMU_SOCK

text \<open>The descriptor that \<^verbatim>\<open>init\<close> stores with each socket it registers with epoll.\<close>

definition epoll_fd :: "sock \<Rightarrow> sock" where
  "epoll_fd s = (case s of MSOP_SOCK \<Rightarrow> MSOP_SOCK | DIFOP_SOCK \<Rightarrow> DIFOP_SOCK | IMU_SOCK \<Rightarrow> DIFOP_SOCK)"

text \<open>One readable event: the datagram comes from the stored descriptor, and an error (an empty queue of a
  non-blocking socket) ends the thread, which is the first result. \<open>fresh\<close> is the buffer of the driver.\<close>

definition epoll_event :: "nat \<Rightarrow> nat \<Rightarrow> Buffer \<Rightarrow> sock \<Rightarrow> (sock \<Rightarrow> bytes list) \<Rightarrow> bool \<times> Buffer option \<times> (sock \<Rightarrow> bytes list)" where
  "epoll_event sock_offset sock_tail fresh s q =
     (case q (epoll_fd s) of
        [] \<Rightarrow> (True, None, q)
      | dg # dgs \<Rightarrow> (let (n, pkt) = recvfrom dg fresh; q = q(epoll_fd s := dgs)
          in (False, if n > 0 then Some (setData sock_offset (unat (of_nat n - of_nat sock_offset - of_nat sock_tail :: u64)) pkt)
              else None, q)))"

text \<open>The version with \<^verbatim>\<open>select\<close> reads up to 16 datagrams of a socket at once, each into a buffer of its
  pool, and keeps the buffers of those that are too short.\<close>

fun select_batch :: "nat \<Rightarrow> nat \<Rightarrow> bytes list \<Rightarrow> Buffer list \<Rightarrow> Buffer list \<times> Buffer list" where
  "select_batch sock_offset sock_tail (dg # dgs) (b # pool) =
     (let (n, pkt) = recvfrom dg b; (out, pool) = select_batch sock_offset sock_tail dgs pool
      in if n > sock_offset + sock_tail then (setData sock_offset (n - sock_offset - sock_tail) pkt # out, pool)
         else (out, pkt # pool))"
| "select_batch sock_offset sock_tail _ pool = ([], pool)"

definition select_socket :: "nat \<Rightarrow> nat \<Rightarrow> bytes list \<Rightarrow> Buffer list \<Rightarrow> Buffer list \<times> Buffer list \<times> bytes list" where
  "select_socket sock_offset sock_tail q pool =
     (let (out, pool) = select_batch sock_offset sock_tail (take 16 q) pool in (out, pool, drop 16 q))"

section \<open>Packets from a file\<close>

text \<open>What is taken from a captured packet, of which \<open>cap\<close> are the captured bytes and \<open>len\<close> is the length on the
  wire; \<^term>\<open>Inl ()\<close> is the error of its kind.\<close>

definition pcap_take :: "nat \<Rightarrow> nat \<Rightarrow> nat \<Rightarrow> bytes \<Rightarrow> Buffer \<Rightarrow> (unit + Buffer) option" where
  "pcap_take pcap_offset pcap_tail len cap pkt =
     (let dataLen = int len - int pcap_offset - int pcap_tail
      in if dataLen < 0 then Some (Inl ())
         else if nat dataLen > bufSize pkt then Some (Inl ())
         else do {
           src \<leftarrow> rd cap pcap_offset (nat dataLen);
           m \<leftarrow> wr (buf pkt) (data_off pkt) src;
           Some (Inr (setData 0 (nat dataLen) (pkt\<lparr>buf := m\<rparr>)))
         })"

section \<open>IP fragments\<close>

record Jumbo =
  ip_id :: u16
  jbuf :: bytes
  buf_off :: u16

text \<open>The buffer of the object is not initialised; \<open>mem\<close> are its first contents.\<close>

definition mk_Jumbo :: "bytes \<Rightarrow> Jumbo" where
  "mk_Jumbo mem = \<lparr>ip_id = 0, jbuf = mem, buf_off = 0\<rparr>"

definition read_be16 :: "bytes \<Rightarrow> nat \<Rightarrow> u16 option" where
  "read_be16 m off = map_option be_dec (rd m off 2)"

definition dst_port :: "bytes \<Rightarrow> u16 option" where
  "dst_port m = read_be16 m 2"

text \<open>The result is the port and the payload of a complete datagram. The payload behind the UDP header is handed out as a
  pointer with a length; here it is read at once, so a length that wraps below the header is \<^term>\<open>None\<close>, as
  the read of the caller.\<close>

definition udp_result :: "bytes \<Rightarrow> u16 \<Rightarrow> (u16 \<times> bytes) option" where
  "udp_result m n = do {
     port \<leftarrow> dst_port m;
     dat \<leftarrow> (if unat n < 8 then None else rd m 8 (unat n - 8));
     Some (port, dat)
   }"

text \<open>The header: the IP data and their length, the identification, whether more fragments follow, and the place;
  the inner \<^term>\<open>None\<close> is a packet that is not UDP.\<close>

definition parse_fragment :: "bytes \<Rightarrow> (bytes \<times> u16 \<times> u16 \<times> bool \<times> u16) option option" where
  "parse_fragment pkt = do {
     eth_type \<leftarrow> read_be16 pkt 12;
     if eth_type \<noteq> 0x0800 then Some None
     else do {
       proto \<leftarrow> rd pkt 23 1;
       if proto \<noteq> [0x11] then Some None
       else do {
         ver \<leftarrow> rd pkt 14 1; ip_len \<leftarrow> read_be16 pkt 16; i \<leftarrow> read_be16 pkt 18; f_off \<leftarrow> read_be16 pkt 20;
         let ip_hdr_size = ucast (hd ver AND 0xf) * (4 :: u16);
         Some (Some (drop (14 + unat ip_hdr_size) pkt, ip_len - ip_hdr_size, i, bit f_off 13, (f_off AND 0x1fff) * 8))
       }
     }
   }"

definition new_fragment :: "bytes \<Rightarrow> Jumbo \<Rightarrow> ((u16 \<times> bytes) option \<times> Jumbo) option" where
  "new_fragment pkt j = do {
     hdr \<leftarrow> parse_fragment pkt;
     case hdr of
       None \<Rightarrow> Some (None, j)
     | Some (ip_data, ip_data_len, i, mf, frag_off) \<Rightarrow>
         (if i = ip_id j
          then if frag_off = buf_off j
            then do {
              src \<leftarrow> rd ip_data 0 (unat ip_data_len);
              m \<leftarrow> wr (jbuf j) (unat (buf_off j)) src;
              let j = j\<lparr>jbuf := m, buf_off := buf_off j + ip_data_len\<rparr>;
              if \<not> mf
              then do { r \<leftarrow> udp_result m (buf_off j); Some (Some r, j\<lparr>ip_id := 0\<rparr>) }
              else Some (None, j)
            }
            else Some (None, j)
          else if frag_off = 0
          then if mf
            then do {
              src \<leftarrow> rd ip_data 0 (unat ip_data_len);
              m \<leftarrow> wr (jbuf j) 0 src;
              Some (None, j\<lparr>ip_id := i, jbuf := m, buf_off := ip_data_len\<rparr>)
            }
            else do { r \<leftarrow> udp_result ip_data ip_data_len; Some (Some r, j) }
          else Some (None, j))
   }"

section \<open>Which packets fit\<close>

lemma size_t_diff:
  assumes "m + k \<le> n" and "n < 2 ^ 64"
  shows "unat (of_nat n - of_nat m - of_nat k :: u64) = n - m - k"
proof -
  have "(of_nat n - of_nat m - of_nat k :: u64) = of_nat (n - m - k)" using assms(1) by (simp add: of_nat_diff)
  then show ?thesis using assms(2) by (simp add: unat_of_nat)
qed

lemma size_t_wrap:
  assumes "n < m + k" and "m + k < 2 ^ 64"
  shows "2 ^ 64 - (m + k - n) = unat (of_nat n - of_nat m - of_nat k :: u64)"
proof -
  let ?d = "of_nat (m + k - n) :: u64"
  have e: "(of_nat n - of_nat m - of_nat k :: u64) = - ?d" using assms(1) by (simp add: of_nat_diff)
  have "(of_nat (2 ^ 64 - (m + k - n)) :: u64) = of_nat (2 ^ 64) - ?d"
    using assms by (intro of_nat_diff) simp
  also have "(of_nat (2 ^ 64) :: u64) = 0" by simp
  finally have d: "- ?d = of_nat (2 ^ 64 - (m + k - n))" by simp
  have "2 ^ 64 - (m + k - n) < (2 ^ 64 :: nat)" using assms(1) by simp
  then have "unat (of_nat (2 ^ 64 - (m + k - n)) :: u64) = 2 ^ 64 - (m + k - n)" unfolding unat_of_nat by simp
  then show ?thesis unfolding e d by (rule sym)
qed

section \<open>Reassembly\<close>

text \<open>What makes a captured packet the fragment of a datagram: its identification, whether more fragments follow, its
  place and its bytes. Options of the IP header and padding behind the fragment are allowed.\<close>

definition is_fragment :: "bytes \<Rightarrow> u16 \<Rightarrow> bool \<Rightarrow> nat \<Rightarrow> bytes \<Rightarrow> bool" where
  "is_fragment pkt i mf off p \<longleftrightarrow>
     (case (rd pkt 14 1, read_be16 pkt 16, read_be16 pkt 20) of
        (Some v, Some len, Some fo) \<Rightarrow> (let hs = 4 * unat (hd v AND 0xf) in
          read_be16 pkt 12 = Some 0x0800 \<and> rd pkt 23 1 = Some [0x11] \<and> unat len = hs + length p \<and> read_be16 pkt 18 = Some i \<and>
          bit fo 13 = mf \<and> 8 * unat (fo AND 0x1fff) = off \<and> rd pkt (14 + hs) (length p) = Some p)
      | _ \<Rightarrow> False)"

text \<open>The fragments of a datagram in their order.\<close>

fun frag_seq :: "u16 \<Rightarrow> nat \<Rightarrow> bytes list \<Rightarrow> bytes list \<Rightarrow> bool" where
  "frag_seq i off [p] [pkt] = is_fragment pkt i False off p"
| "frag_seq i off (p # q # ps) (pkt # pkts) = (is_fragment pkt i True off p \<and> frag_seq i (off + length p) (q # ps) pkts)"
| "frag_seq i off _ _ = False"

text \<open>A sequence of captured packets; the complete datagrams in their order.\<close>

fun jumbo_run :: "bytes list \<Rightarrow> Jumbo \<Rightarrow> ((u16 \<times> bytes) list \<times> Jumbo) option" where
  "jumbo_run [] j = Some ([], j)"
| "jumbo_run (pkt # pkts) j = do {
     (r, j) \<leftarrow> new_fragment pkt j;
     (rs, j) \<leftarrow> jumbo_run pkts j;
     Some ((case r of None \<Rightarrow> [] | Some d \<Rightarrow> [d]) @ rs, j)
   }"

lemma unat_mult4: "unat (ucast (v AND 0xf :: u8) * 4 :: u16) = 4 * unat (v AND 0xf)"
proof -
  have "v AND 0xf \<le> 0xf" by (rule word_and_le1)
  then have "unat (v AND 0xf) \<le> 15" by (simp add: word_le_nat_alt)
  then show ?thesis by (simp add: unat_word_ariths unat_ucast_u8)
qed

lemma unat_mult8: "unat ((fo AND 0x1fff) * 8 :: u16) = 8 * unat (fo AND 0x1fff)"
proof -
  have "fo AND 0x1fff \<le> 0x1fff" by (rule word_and_le1)
  then have "unat (fo AND 0x1fff) \<le> 8191" by (simp add: word_le_nat_alt)
  then show ?thesis by (simp add: unat_word_ariths)
qed

lemma rd_drop: "k \<le> length m \<Longrightarrow> rd (drop k m) off n = rd m (k + off) n"
  by (auto simp: rd_def add.commute)

text \<open>What the code computes from the header of a fragment.\<close>

lemma fragment_header:
  assumes "is_fragment pkt i mf off p"
  obtains dat len o' where "parse_fragment pkt = Some (Some (dat, len, i, mf, o'))" "unat len = length p" "len = of_nat (length p)"
    "unat o' = off" "rd dat 0 (length p) = Some p"
proof -
  obtain v len fo where f: "rd pkt 14 1 = Some v" "read_be16 pkt 16 = Some len" "read_be16 pkt 20 = Some fo"
    "read_be16 pkt 12 = Some 0x0800" "rd pkt 23 1 = Some [0x11]" "unat len = 4 * unat (hd v AND 0xf) + length p" "read_be16 pkt 18 = Some i"
    "bit fo 13 = mf" "8 * unat (fo AND 0x1fff) = off" "rd pkt (14 + 4 * unat (hd v AND 0xf)) (length p) = Some p"
    using assms by (auto simp: is_fragment_def Let_def split: option.splits)
  define hs where "hs = ucast (hd v AND 0xf) * (4 :: u16)"
  have h: "unat hs = 4 * unat (hd v AND 0xf)" unfolding hs_def by (rule unat_mult4)
  have "hs \<le> len" using f(6) h by (simp add: word_le_nat_alt)
  then have u: "unat (len - hs) = length p" using f(6) h by (simp add: unat_sub)
  have "len - hs = of_nat (length p)" unfolding u [symmetric] by simp
  moreover have "14 + unat hs + length p \<le> length pkt" "take (length p) (drop (14 + unat hs) pkt) = p"
    using f(10) unfolding h [symmetric] rd_Some_iff by simp_all
  then have "rd (drop (14 + unat hs) pkt) 0 (length p) = Some p" unfolding rd_def by auto
  moreover have "parse_fragment pkt = Some (Some (drop (14 + unat hs) pkt, len - hs, i, mf, (fo AND 0x1fff) * 8))"
    using f(1-5,7,8) by (simp add: parse_fragment_def hs_def [symmetric])
  ultimately show thesis using that u f(9) unat_mult8 [of fo] by blast
qed

lemma fragment_start:
  assumes "is_fragment pkt i True 0 p" and "i \<noteq> ip_id j" and "length p \<le> length (jbuf j)"
  shows "new_fragment pkt j = Some (None, j\<lparr>ip_id := i, jbuf := p @ drop (length p) (jbuf j), buf_off := of_nat (length p)\<rparr>)"
proof -
  obtain dat len o' where h: "parse_fragment pkt = Some (Some (dat, len, i, True, o'))" "unat len = length p" "len = of_nat (length p)"
    "unat o' = 0" "rd dat 0 (length p) = Some p" by (rule fragment_header [OF assms(1)])
  have "o' = 0" using h(4) by (simp add: unsigned_eq_0_iff)
  moreover have "rd dat 0 (unat len) = Some p" using h(2,5) by simp
  ultimately show ?thesis using h(1,3) assms(2,3) by (simp add: new_fragment_def wr_def)
qed

lemma fragment_next:
  assumes "is_fragment pkt (ip_id j) mf (unat (buf_off j)) p"
  shows "new_fragment pkt j = do {
    m \<leftarrow> wr (jbuf j) (unat (buf_off j)) p;
    let j = j\<lparr>jbuf := m, buf_off := buf_off j + of_nat (length p)\<rparr>;
    if \<not> mf then do { r \<leftarrow> udp_result m (buf_off j); Some (Some r, j\<lparr>ip_id := 0\<rparr>) } else Some (None, j)
  }"
proof -
  obtain dat len o' where h: "parse_fragment pkt = Some (Some (dat, len, ip_id j, mf, o'))" "unat len = length p" "len = of_nat (length p)"
    "unat o' = unat (buf_off j)" "rd dat 0 (length p) = Some p" by (rule fragment_header [OF assms])
  have "o' = buf_off j" using h(4) by (simp add: word_unat_eq_iff)
  moreover have "rd dat 0 (unat len) = Some p" using h(2,5) by simp
  ultimately show ?thesis using h(1,3) by (simp add: new_fragment_def)
qed

text \<open>The fragments behind the first.\<close>

lemma fragments_rest:
  assumes "frag_seq i (length pre) ps pkts" and "ip_id j = i" and "unat (buf_off j) = length pre" and "take (length pre) (jbuf j) = pre"
    and "length (jbuf j) = IP_LEN" and "length (pre @ concat ps) < IP_LEN" and "8 \<le> length (pre @ concat ps)"
  shows "\<exists>j'. jumbo_run pkts j = Some ([(be_dec (take 2 (drop 2 (pre @ concat ps))), drop 8 (pre @ concat ps))], j') \<and>
    ip_id j' = 0 \<and> length (jbuf j') = IP_LEN \<and> buf_off j' = of_nat (length (pre @ concat ps))"
  using assms
proof (induction i "length pre" ps pkts arbitrary: pre j rule: frag_seq.induct)
  case (1 i p pkt)
  let ?d = "pre @ p" and ?n = "buf_off j + of_nat (length p)"
  have w: "wr (jbuf j) (length pre) p = Some (?d @ drop (length ?d) (jbuf j))"
    using "1.prems"(4-6) by (simp add: wr_def)
  have "length pre + length p < 65536" using "1.prems"(6) by simp
  then have n: "unat ?n = length ?d" using "1.prems"(3) by (simp add: unat_word_ariths unat_of_nat)
  have n': "?n = of_nat (length ?d)" unfolding n [symmetric] by simp
  have "udp_result (?d @ drop (length ?d) (jbuf j)) ?n = Some (be_dec (take 2 (drop 2 ?d)), drop 8 ?d)"
    using n "1.prems"(7) by (simp add: udp_result_def dst_port_def read_be16_def rd_def)
  then show ?case using fragment_next [of pkt j False p] "1.prems"(1-5) w n' "1.prems"(6) by simp
next
  case (2 i p q ps pkt pkts)
  let ?d = "pre @ p" and ?n = "buf_off j + of_nat (length p)"
  have w: "wr (jbuf j) (length pre) p = Some (?d @ drop (length ?d) (jbuf j))"
    using "2.prems"(4-6) by (simp add: wr_def)
  have "length pre + length p < 65536" using "2.prems"(6) by simp
  then have n: "unat ?n = length ?d" using "2.prems"(3) by (simp add: unat_word_ariths unat_of_nat)
  let ?j = "j\<lparr>jbuf := ?d @ drop (length ?d) (jbuf j), buf_off := ?n\<rparr>"
  have "is_fragment pkt (ip_id j) True (unat (buf_off j)) p" using "2.prems"(1-3) by simp
  then have s: "new_fragment pkt j = Some (None, ?j)" using fragment_next w "2.prems"(3) by simp
  have "\<exists>j'. jumbo_run pkts ?j = Some ([(be_dec (take 2 (drop 2 (?d @ concat (q # ps)))), drop 8 (?d @ concat (q # ps)))], j') \<and>
    ip_id j' = 0 \<and> length (jbuf j') = IP_LEN \<and> buf_off j' = of_nat (length (?d @ concat (q # ps)))"
    using "2.prems" n by (intro "2.hyps") simp_all
  then show ?case using s by auto
qed simp_all

lemma datagram_run:
  assumes "frag_seq i 0 (p # q # ps) pkts" and "ip_id j \<noteq> i" and "length (jbuf j) = IP_LEN"
    and "d = concat (p # q # ps)" and "length d < IP_LEN" and "8 \<le> length d"
  shows "\<exists>j'. jumbo_run pkts j = Some ([(be_dec (take 2 (drop 2 d)), drop 8 d)], j') \<and> ip_id j' = 0 \<and>
    length (jbuf j') = IP_LEN \<and> buf_off j' = of_nat (length d)"
proof -
  obtain pkt pkts' where pkts: "pkts = pkt # pkts'" "is_fragment pkt i True 0 p" "frag_seq i (length p) (q # ps) pkts'"
    using assms(1) by (cases pkts) auto
  let ?j = "j\<lparr>ip_id := i, jbuf := p @ drop (length p) (jbuf j), buf_off := of_nat (length p)\<rparr>"
  have len: "length p < 65536" using assms(4,5) by simp
  have s: "new_fragment pkt j = Some (None, ?j)"
    using fragment_start [OF pkts(2)] assms(2,3) len by simp
  from fragments_rest [OF pkts(3), of ?j] obtain j' where
    "jumbo_run pkts' ?j = Some ([(be_dec (take 2 (drop 2 d)), drop 8 d)], j')" "ip_id j' = 0" "length (jbuf j') = IP_LEN"
    "buf_off j' = of_nat (length d)"
    using len assms(3-6) by (auto simp: unat_of_nat)
  then show ?thesis using s pkts(1) by auto
qed

lemma jumbo_run_append: "jumbo_run (xs @ ys) j = do { (a, j) \<leftarrow> jumbo_run xs j; (b, j) \<leftarrow> jumbo_run ys j; Some (a @ b, j) }"
  by (induction xs arbitrary: j) (auto split: bind_splits)

text \<open>Two fragments of a datagram to port 6699 with the payload 1 2 3 4.\<close>

definition sample_fragments :: "bytes list" where
  "sample_fragments = [replicate 12 0 @ [0x08, 0, 0x45, 0, 0, 28, 0, 7, 0x20, 0, 64, 0x11] @ replicate 10 0 @
       [0x1A, 0x2B, 0x1A, 0x2B, 0, 12, 0, 0],
     replicate 12 0 @ [0x08, 0, 0x45, 0, 0, 24, 0, 7, 0, 1, 64, 0x11] @ replicate 10 0 @ [1, 2, 3, 4]]"

definition sample_unnumbered :: bytes where
  "sample_unnumbered = replicate 12 0 @ [0x08, 0, 0x45, 0, 0, 29, 0, 0, 0, 0, 64, 0x11] @ replicate 10 0 @
     [0x1A, 0x2B, 0x1A, 0x2B, 0, 9, 0, 0, 5]"

lemma sample_frag_seq: "frag_seq 7 0 [[0x1A, 0x2B, 0x1A, 0x2B, 0, 12, 0, 0], [1, 2, 3, 4]] sample_fragments"
  by code_simp

lemma sample_unnumbered_fragment: "is_fragment sample_unnumbered 0 False 0 [0x1A, 0x2B, 0x1A, 0x2B, 0, 9, 0, 0, 5]"
  by code_simp

text \<open>C19: a datagram that arrives in fragments, in their order, is put together again: the input hands out one
  datagram, with the port of its header and the bytes behind it, and is ready for the next one. This holds for datagrams
  of at least the 8 bytes of the UDP header and below 64 KiB in two or more fragments, whose identification is not the one that
  the input holds: that of a datagram that is under way, or 0 when none is. So a datagram with identification 0,
  which the protocol allows, is not put together by an input that has just finished another one.\<close>

lemma jumbo_reassembles:
  assumes "frag_seq i 0 (p # q # ps) pkts" and "ip_id j \<noteq> i" and "length (jbuf j) = IP_LEN"
    and "d = concat (p # q # ps)" and "length d < IP_LEN" and "8 \<le> length d"
  shows "\<exists>j'. jumbo_run pkts j = Some ([(be_dec (take 2 (drop 2 d)), drop 8 d)], j') \<and> ip_id j' = 0 \<and> length (jbuf j') = IP_LEN"
  using datagram_run [OF assms] by blast

lemma jumbo_reassembles_witness:
  "\<exists>j'. jumbo_run sample_fragments (mk_Jumbo (replicate IP_LEN 0)) = Some ([(0x1A2B, [1, 2, 3, 4])], j') \<and> ip_id j' = 0"
proof -
  let ?d = "[0x1A, 0x2B, 0x1A, 0x2B, 0, 12, 0, 0, 1, 2, 3, 4] :: bytes"
  have j: "ip_id (mk_Jumbo (replicate IP_LEN 0)) \<noteq> 7" "length (jbuf (mk_Jumbo (replicate IP_LEN 0))) = IP_LEN"
    by (simp_all add: mk_Jumbo_def)
  have d: "?d = concat [[0x1A, 0x2B, 0x1A, 0x2B, 0, 12, 0, 0], [1, 2, 3, 4]]" "length ?d < IP_LEN" "8 \<le> length ?d" by simp_all
  have "be_dec (take 2 (drop 2 ?d)) = (0x1A2B :: u16)" "drop 8 ?d = [1, 2, 3, 4]" by code_simp+
  then show ?thesis using jumbo_reassembles [OF sample_frag_seq j d] by auto
qed

text \<open>Once a datagram has been put together, an unfragmented datagram whose identification is 0 is dropped: the input
  takes it for a continuation of the finished one, whose identification it keeps as 0 while its length stays.\<close>

lemma jumbo_drops_unnumbered:
  assumes "frag_seq i 0 (p # q # ps) pkts" and "ip_id j \<noteq> i" and "length (jbuf j) = IP_LEN"
    and "d = concat (p # q # ps)" and "length d < IP_LEN" and "8 \<le> length d" and "is_fragment pkt 0 False 0 u"
  shows "\<exists>j'. jumbo_run (pkts @ [pkt]) j = Some ([(be_dec (take 2 (drop 2 d)), drop 8 d)], j')"
proof -
  obtain j' where j': "jumbo_run pkts j = Some ([(be_dec (take 2 (drop 2 d)), drop 8 d)], j')" "ip_id j' = 0"
    "buf_off j' = of_nat (length d)"
    using datagram_run [OF assms(1-6)] by blast
  obtain dat len o' where h: "parse_fragment pkt = Some (Some (dat, len, 0, False, o'))" "unat o' = 0"
    by (rule fragment_header [OF assms(7)])
  have "unat (buf_off j') = length d" using j'(3) assms(5) by (simp add: unat_of_nat)
  then have "o' \<noteq> buf_off j'" using h(2) assms(6) by auto
  then have "new_fragment pkt j' = Some (None, j')" using h(1) j'(2) by (simp add: new_fragment_def)
  then show ?thesis using j'(1) by (simp add: jumbo_run_append)
qed

lemma jumbo_drops_unnumbered_witness:
  "\<exists>j'. jumbo_run (sample_fragments @ [sample_unnumbered]) (mk_Jumbo (replicate IP_LEN 0)) = Some ([(0x1A2B, [1, 2, 3, 4])], j')"
proof -
  let ?d = "[0x1A, 0x2B, 0x1A, 0x2B, 0, 12, 0, 0, 1, 2, 3, 4] :: bytes"
  have j: "ip_id (mk_Jumbo (replicate IP_LEN 0)) \<noteq> 7" "length (jbuf (mk_Jumbo (replicate IP_LEN 0))) = IP_LEN"
    by (simp_all add: mk_Jumbo_def)
  have d: "?d = concat [[0x1A, 0x2B, 0x1A, 0x2B, 0, 12, 0, 0], [1, 2, 3, 4]]" "length ?d < IP_LEN" "8 \<le> length ?d" by simp_all
  have "be_dec (take 2 (drop 2 ?d)) = (0x1A2B :: u16)" "drop 8 ?d = [1, 2, 3, 4]" by code_simp+
  then show ?thesis using jumbo_drops_unnumbered [OF sample_frag_seq j d sample_unnumbered_fragment] by auto
qed

text \<open>The buffer of the reassembly is not guarded: the last fragment of an oversized datagram is written behind it.\<close>

lemma jumbo_overflow:
  assumes "is_fragment pkt (ip_id j) mf (unat (buf_off j)) p" and "length (jbuf j) = IP_LEN" and "IP_LEN < unat (buf_off j) + length p"
  shows "new_fragment pkt j = None"
  using fragment_next [OF assms(1)] assms(2,3) by (simp add: wr_def)

section \<open>What the inputs hand to the driver\<close>

text \<open>The bytes of a packet between the user's layers.\<close>

definition middle :: "nat \<Rightarrow> nat \<Rightarrow> bytes \<Rightarrow> bytes" where
  "middle off tn dg = take (length dg - off - tn) (drop off dg)"

definition packet_of :: "Buffer \<Rightarrow> bytes" where
  "packet_of b = take (data_size b) (data_mem b)"

lemma wr_packet:
  assumes "length src \<le> bufSize b" and "data_off b = 0"
  shows "\<exists>m. wr (buf b) (data_off b) src = Some m \<and> length m = bufSize b \<and> take (length src) m = src"
  using assms by (simp add: wr_def)

lemma feed_in_bounds:
  assumes "raw_offset + raw_tail \<le> length dat" and "length dat - raw_offset - raw_tail \<le> bufSize b" and "length dat < 2 ^ 63"
    and "data_off b = 0"
  shows "\<exists>b'. feedPacket raw_offset raw_tail dat b = Some b' \<and> packet_of b' = middle raw_offset raw_tail dat \<and> buffer_ok b' \<and>
    bufSize b' = bufSize b \<and> data_off b' = 0"
proof -
  define n where "n = length dat - raw_offset - raw_tail"
  have n: "unat (of_nat (length dat) - of_nat raw_offset - of_nat raw_tail :: u64) = n"
    using assms(1,3) unfolding n_def by (intro size_t_diff) simp_all
  have r: "rd dat raw_offset n = Some (middle raw_offset raw_tail dat)" "length (middle raw_offset raw_tail dat) = n"
    using assms(1) by (simp_all add: rd_def middle_def n_def)
  obtain m where "wr (buf b) (data_off b) (middle raw_offset raw_tail dat) = Some m" "length m = bufSize b"
    "take n m = middle raw_offset raw_tail dat"
    using wr_packet [of "middle raw_offset raw_tail dat" b] assms(2,4) r(2) by (auto simp: n_def)
  moreover have "n \<le> bufSize b" using assms(2) by (simp add: n_def)
  ultimately show ?thesis
    by (simp add: feedPacket_def n r(1) setData_def packet_of_def data_mem_def buffer_ok_def Let_def)
qed

text \<open>A packet from the user is taken within its bounds and those of the buffer exactly when it has the bytes of
  the user's layers and the rest fits the buffer; then the driver gets the bytes between the layers. The code checks
  neither.\<close>

lemma feedPacket_safe:
  assumes "raw_offset + raw_tail < 2 ^ 17" and "length dat < 2 ^ 63" and "data_off b = 0"
  shows "case feedPacket raw_offset raw_tail dat b of
      None \<Rightarrow> length dat < raw_offset + raw_tail \<or> bufSize b < length dat - raw_offset - raw_tail
    | Some b' \<Rightarrow> raw_offset + raw_tail \<le> length dat \<and> packet_of b' = middle raw_offset raw_tail dat \<and> buffer_ok b' \<and>
        bufSize b' = bufSize b"
proof (cases "raw_offset + raw_tail \<le> length dat")
  case True
  show ?thesis
  proof (cases "length dat - raw_offset - raw_tail \<le> bufSize b")
    case fits: True
    show ?thesis using feed_in_bounds [OF True fits assms(2,3)] True by auto
  next
    case False
    have "unat (of_nat (length dat) - of_nat raw_offset - of_nat raw_tail :: u64) = length dat - raw_offset - raw_tail"
      using True assms(2) by (intro size_t_diff) simp_all
    then have "feedPacket raw_offset raw_tail dat b = None"
      using False True assms(3) by (auto simp: feedPacket_def rd_def wr_def Let_def)
    then show ?thesis using False by simp
  qed
next
  case False
  have "unat (of_nat (length dat) - of_nat raw_offset - of_nat raw_tail :: u64) = 2 ^ 64 - (raw_offset + raw_tail - length dat)"
    using False assms(1) by (intro size_t_wrap [symmetric]) simp_all
  then have "rd dat raw_offset (unat (of_nat (length dat) - of_nat raw_offset - of_nat raw_tail :: u64)) = None"
    using assms(1,2) by (simp add: rd_eq_None)
  then show ?thesis using False by (simp add: feedPacket_def Let_def)
qed

lemma feedPacket_safe_witness:
  "(case feedPacket 1 1 [9, 1, 2, 9] (mk_Buffer 4) of
      None \<Rightarrow> length [9, 1, 2, 9 :: u8] < 1 + 1 \<or> bufSize (mk_Buffer 4) < length [9, 1, 2, 9 :: u8] - 1 - 1
    | Some b' \<Rightarrow> 1 + 1 \<le> length [9, 1, 2, 9 :: u8] \<and> packet_of b' = middle 1 1 [9, 1, 2, 9] \<and> buffer_ok b' \<and>
        bufSize b' = bufSize (mk_Buffer 4))"
  by (rule feedPacket_safe) (simp_all add: mk_Buffer_def)

text \<open>A captured packet is copied within the buffer whenever the file has all of its bytes.\<close>

lemma pcap_take_ok:
  assumes "len \<le> length cap" and "data_off b = 0"
  shows "\<exists>r. pcap_take off tn len cap b = Some r \<and>
    (case r of Inl _ \<Rightarrow> len < off + tn \<or> bufSize b < len - off - tn
     | Inr b' \<Rightarrow> packet_of b' = middle off tn (take len cap) \<and> buffer_ok b' \<and> bufSize b' = bufSize b \<and> data_off b' = 0)"
proof (cases "off + tn \<le> len \<and> len - off - tn \<le> bufSize b")
  case True
  define n where "n = len - off - tn"
  have n: "nat (int len - int off - int tn) = n" "\<not> int len - int off - int tn < 0" using True by (auto simp: n_def)
  have "min n (len - off) = n" by (simp add: n_def)
  then have r: "rd cap off n = Some (middle off tn (take len cap))" "length (middle off tn (take len cap)) = n"
    using True assms(1) by (simp_all add: rd_def middle_def drop_take min_absorb2 n_def [symmetric]) (simp_all add: n_def)
  obtain m where m: "wr (buf b) (data_off b) (middle off tn (take len cap)) = Some m" "length m = bufSize b"
    "take n m = middle off tn (take len cap)"
    using wr_packet [of "middle off tn (take len cap)" b] True assms(2) r(2) by (auto simp: n_def)
  moreover have "n \<le> bufSize b" using True by (simp add: n_def)
  ultimately show ?thesis using n
    by (simp add: pcap_take_def n r(1) setData_def packet_of_def data_mem_def buffer_ok_def Let_def)
next
  case False
  then show ?thesis by (auto simp: pcap_take_def Let_def nat_diff_distrib')
qed

lemma packet_of_take:
  assumes "k \<le> length dg" and "off + tn \<le> k"
  shows "packet_of (setData off (k - off - tn) (b\<lparr>buf := take k dg @ r\<rparr>)) = middle off tn (take k dg)"
  using assms by (simp add: packet_of_def setData_def data_mem_def middle_def)

text \<open>The buffers of the version with \<^verbatim>\<open>select\<close> hold the datagrams that are long enough, in their order; the pool keeps
  the other buffers.\<close>

lemma select_batch_ok:
  "length dgs \<le> length pool \<Longrightarrow> \<forall>b \<in> set pool. bufSize b = N \<Longrightarrow>
    (case select_batch off tn dgs pool of (out, rest) \<Rightarrow>
      map packet_of out = map (\<lambda>dg. middle off tn (take N dg)) (filter (\<lambda>dg. off + tn < min (length dg) N) dgs) \<and>
      (\<forall>b \<in> set out. buffer_ok b \<and> bufSize b = N) \<and> (\<forall>b \<in> set rest. bufSize b = N) \<and> length out + length rest = length pool)"
proof (induction off tn dgs pool rule: select_batch.induct)
  case (1 off tn dg dgs b pool)
  obtain out rest where sb: "select_batch off tn dgs pool = (out, rest)" by force
  have b: "bufSize b = N" using "1.prems"(2) by simp
  let ?n = "min (length dg) N" and ?pkt = "b\<lparr>buf := take (min (length dg) N) dg @ drop (min (length dg) N) (buf b)\<rparr>"
  have r: "recvfrom dg b = (?n, ?pkt)" using b by (simp add: recvfrom_def Let_def)
  have t: "take (min N (length dg)) dg = take N dg" by (simp add: min_def)
  have p: "packet_of (setData off (?n - off - tn) ?pkt) = middle off tn (take N dg)" if "off + tn < ?n"
    using packet_of_take [where k = ?n and dg = dg and off = off and tn = tn and b = b and r = "drop ?n (buf b)"] that by (simp add: min.commute t)
  have "case select_batch off tn dgs pool of (out, rest) \<Rightarrow>
      map packet_of out = map (\<lambda>dg. middle off tn (take N dg)) (filter (\<lambda>dg. off + tn < min (length dg) N) dgs) \<and>
      (\<forall>b \<in> set out. buffer_ok b \<and> bufSize b = N) \<and> (\<forall>b \<in> set rest. bufSize b = N) \<and> length out + length rest = length pool"
    using "1.prems" by (intro "1.IH" [OF r [symmetric] refl]) simp_all
  then show ?case using sb r p b by (auto simp: setData_def buffer_ok_def)
qed auto

text \<open>A datagram of the IMU socket is signalled, but the code receives from the DIFOP socket; when that is empty, the
  receiving thread ends.\<close>

lemma epoll_imu_stops: "q DIFOP_SOCK = [] \<Longrightarrow> epoll_event off tn b IMU_SOCK q = (True, None, q)"
  by (simp add: epoll_event_def epoll_fd_def)

end
