(* ===== verification/Fifo.thy ===== *)
theory Fifo
  imports Prelude
begin

text \<open>
  The contract of the bounded first-in first-out queues of the repository. The locale \<open>bounded_fifo\<close>
  is the interface a client relies on; it is interpreted on the lock-free ring of rs_driver
  (\<open>Rs_SyncQueue\<close>) and on the power-of-two ring of livox_ros_driver2 (\<open>Ros_Ldq\<close>). The section
  on rings holds the index arithmetic the two share.
\<close>

section \<open>Rings\<close>

text \<open>The \<open>k\<close> elements of a circular buffer from index \<open>h\<close> on.\<close>

definition ring_contents :: "'a list \<Rightarrow> nat \<Rightarrow> nat \<Rightarrow> 'a list" where
  "ring_contents buf h k = map (\<lambda>i. buf ! ((h + i) mod length buf)) [0..<k]"

lemma length_ring_contents [simp]: "length (ring_contents buf h k) = k"
  by (simp add: ring_contents_def)

lemma ring_contents_0 [simp]: "ring_contents buf h 0 = []"
  by (simp add: ring_contents_def)

lemma nth_ring_contents: "i < k \<Longrightarrow> ring_contents buf h k ! i = buf ! ((h + i) mod length buf)"
  by (simp add: ring_contents_def)

lemma ring_contents_mod [simp]: "ring_contents buf (h mod length buf) k = ring_contents buf h k"
  by (simp add: ring_contents_def mod_simps)

lemma ring_contents_Suc:
  "ring_contents buf h (Suc k) = buf ! (h mod length buf) # ring_contents buf (Suc h) k"
  by (rule nth_equalityI) (auto simp: nth_ring_contents nth_Cons split: nat.splits)

lemma ring_contents_drop: "j \<le> k \<Longrightarrow> ring_contents buf (h + j) (k - j) = drop j (ring_contents buf h k)"
  by (rule nth_equalityI) (auto simp: nth_ring_contents add.assoc)

lemma ring_contents_take: "j \<le> k \<Longrightarrow> ring_contents buf h j = take j (ring_contents buf h k)"
  by (rule nth_equalityI) (auto simp: nth_ring_contents)

lemma mod_add_le_imp_eq:
  fixes h i j n :: nat
  assumes "(h + j) mod n = (h + i) mod n" and "i \<le> j" and "j < n"
  shows "i = j"
proof -
  have "n dvd (h + j) - (h + i)" using assms by (subst mod_eq_dvd_iff_nat [symmetric]) simp_all
  then have "n dvd j - i" by simp
  moreover have "j - i < n" using assms by simp
  ultimately have "j - i = 0" by (meson dvd_imp_le not_less gr_zeroI)
  then show ?thesis using assms by simp
qed

lemma mod_add_eq_imp_eq:
  fixes h i j n :: nat
  assumes "(h + i) mod n = (h + j) mod n" and "i < n" and "j < n"
  shows "i = j"
  using mod_add_le_imp_eq [of h j n i] mod_add_le_imp_eq [of h i n j] assms
  by (cases "i \<le> j") (auto dest: sym)

lemma ring_contents_put:
  assumes "k < length buf"
  shows "ring_contents (buf[(h + k) mod length buf := v]) h (Suc k) = ring_contents buf h k @ [v]"
proof (rule nth_equalityI)
  fix i assume "i < length (ring_contents (buf[(h + k) mod length buf := v]) h (Suc k))"
  then have i: "i < Suc k" by simp
  have lt: "(h + j) mod length buf < length buf" for j using assms by (intro mod_less_divisor) linarith
  show "ring_contents (buf[(h + k) mod length buf := v]) h (Suc k) ! i = (ring_contents buf h k @ [v]) ! i"
  proof (cases "i = k")
    case True
    then show ?thesis by (simp add: nth_ring_contents nth_append lt)
  next
    case False
    then have "(h + k) mod length buf \<noteq> (h + i) mod length buf"
      using mod_add_eq_imp_eq [of h k "length buf" i] i assms by auto
    then show ?thesis using False i by (simp add: nth_ring_contents nth_append)
  qed
qed simp

text \<open>Writing the free slot after the contents leaves them alone.\<close>

lemma ring_contents_put_free:
  assumes "k < length buf"
  shows "ring_contents (buf[(h + k) mod length buf := v]) h k = ring_contents buf h k"
  using ring_contents_take [of k "Suc k" "buf[(h + k) mod length buf := v]" h]
  by (simp add: ring_contents_put [OF assms])

section \<open>The contract\<close>

datatype 'a fifo_op = Enq 'a | Deq

text \<open>
  \<open>run_fifo\<close> performs a list of operations, and returns the accepted values, the delivered values
  and the final state; a refused operation leaves no trace.
\<close>

fun run_fifo :: "('a \<Rightarrow> 's \<Rightarrow> 's option) \<Rightarrow> ('s \<Rightarrow> ('a \<times> 's) option) \<Rightarrow>
    'a fifo_op list \<Rightarrow> 's \<Rightarrow> 'a list \<times> 'a list \<times> 's" where
  "run_fifo enq deq [] s = ([], [], s)"
| "run_fifo enq deq (Enq a # ops) s =
     (case enq a s of
        None \<Rightarrow> run_fifo enq deq ops s
      | Some s' \<Rightarrow> (let (xs, ys, t) = run_fifo enq deq ops s' in (a # xs, ys, t)))"
| "run_fifo enq deq (Deq # ops) s =
     (case deq s of
        None \<Rightarrow> run_fifo enq deq ops s
      | Some (y, s') \<Rightarrow> (let (xs, ys, t) = run_fifo enq deq ops s' in (xs, y # ys, t)))"

fun enqueued :: "'a fifo_op list \<Rightarrow> 'a list" where
  "enqueued [] = []"
| "enqueued (Enq a # ops) = a # enqueued ops"
| "enqueued (Deq # ops) = enqueued ops"

text \<open>The reference: a list with a bound.\<close>

definition list_enq :: "nat \<Rightarrow> 'a \<Rightarrow> 'a list \<Rightarrow> 'a list option" where
  "list_enq cap a xs = (if length xs < cap then Some (xs @ [a]) else None)"

fun list_deq :: "'a list \<Rightarrow> ('a \<times> 'a list) option" where
  "list_deq [] = None"
| "list_deq (x # xs) = Some (x, xs)"

locale bounded_fifo =
  fixes ok :: "'a \<Rightarrow> bool"
    and inv :: "'s \<Rightarrow> bool"
    and abs :: "'s \<Rightarrow> 'a list"
    and cap :: nat
    and enq :: "'a \<Rightarrow> 's \<Rightarrow> 's option"
    and deq :: "'s \<Rightarrow> ('a \<times> 's) option"
  assumes enq_refines: "inv s \<Longrightarrow> ok a \<Longrightarrow> map_option abs (enq a s) = list_enq cap a (abs s)"
    and enq_inv: "inv s \<Longrightarrow> ok a \<Longrightarrow> enq a s = Some s' \<Longrightarrow> inv s'"
    and deq_refines: "inv s \<Longrightarrow> map_option (\<lambda>(x, t). (x, abs t)) (deq s) = list_deq (abs s)"
    and deq_inv: "inv s \<Longrightarrow> deq s = Some (x, s') \<Longrightarrow> inv s'"
begin

lemma enq_cases:
  assumes "inv s" and "ok a"
  obtains (full) "cap \<le> length (abs s)" "enq a s = None"
    | (room) s' where "length (abs s) < cap" "enq a s = Some s'" "abs s' = abs s @ [a]" "inv s'"
  using enq_refines [OF assms] enq_inv [OF assms]
  by (cases "enq a s") (auto simp: list_enq_def split: if_splits)

lemma deq_cases:
  assumes "inv s"
  obtains (empty) "abs s = []" "deq s = None"
    | (some) x s' where "deq s = Some (x, s')" "abs s = x # abs s'" "inv s'"
  using deq_refines [OF assms] deq_inv [OF assms]
  by (cases "deq s"; cases "abs s") auto

text \<open>Running the implementation and the reference side by side gives the same values.\<close>

lemma run_refines:
  "inv s \<Longrightarrow> list_all ok (enqueued ops) \<Longrightarrow> run_fifo enq deq ops s = (xs, ys, t) \<Longrightarrow>
   run_fifo (list_enq cap) list_deq ops (abs s) = (xs, ys, abs t) \<and> inv t"
proof (induction ops arbitrary: s xs ys t)
  case Nil
  then show ?case by simp
next
  case (Cons op ops)
  show ?case
  proof (cases op)
    case (Enq a)
    then have "ok a" using Cons.prems(2) by simp
    with Cons.prems(1) show ?thesis
    proof (cases rule: enq_cases)
      case full
      then show ?thesis using Cons Enq by (simp add: list_enq_def)
    next
      case (room s')
      then show ?thesis
        using Cons.prems Enq Cons.IH [OF room(4)] by (auto simp: list_enq_def split: prod.splits)
    qed
  next
    case Deq
    from Cons.prems(1) show ?thesis
    proof (cases rule: deq_cases)
      case empty
      then show ?thesis using Cons.prems Deq Cons.IH [OF Cons.prems(1)] by simp
    next
      case (some x s')
      then show ?thesis
        using Cons.prems Deq Cons.IH [OF some(3)] by (auto split: prod.splits)
    qed
  qed
qed

end

lemma list_run_fifo:
  "run_fifo (list_enq cap) list_deq ops zs = (xs, ys, ts) \<Longrightarrow>
   zs @ xs = ys @ ts \<and> (length zs \<le> cap \<longrightarrow> length ts \<le> cap)"
proof (induction ops arbitrary: zs xs ys ts)
  case Nil
  then show ?case by simp
next
  case (Cons op ops)
  show ?case
  proof (cases op)
    case (Enq a)
    show ?thesis
    proof (cases "length zs < cap")
      case True
      then have "list_enq cap a zs = Some (zs @ [a])" by (simp add: list_enq_def)
      with Enq Cons.prems obtain xs' where "xs = a # xs'"
        "run_fifo (list_enq cap) list_deq ops (zs @ [a]) = (xs', ys, ts)"
        by (auto split: prod.splits)
      then show ?thesis using Cons.IH True by fastforce
    next
      case False
      then show ?thesis using Enq Cons by (simp add: list_enq_def)
    qed
  next
    case Deq
    show ?thesis
    proof (cases zs)
      case Nil
      then show ?thesis using Deq Cons.prems Cons.IH [of "[]"] by simp
    next
      case zs: (Cons z zs')
      with Deq Cons.prems obtain ys' where "ys = z # ys'"
        "run_fifo (list_enq cap) list_deq ops zs' = (xs, ys', ts)"
        by (auto split: prod.splits)
      then show ?thesis using Cons.IH zs by fastforce
    qed
  qed
qed

context bounded_fifo begin

text \<open>What goes in comes out, once, in order, and at most \<open>cap\<close> values are held.\<close>

lemma fifo:
  assumes "inv s" and "list_all ok (enqueued ops)" and "run_fifo enq deq ops s = (xs, ys, t)"
  shows "abs s @ xs = ys @ abs t" and "length (abs s) \<le> cap \<Longrightarrow> length (abs t) \<le> cap"
  using list_run_fifo run_refines [OF assms] by blast+

end

end
