(* ===== verification/Rs_SyncQueue.thy ===== *)
theory Rs_SyncQueue
  imports Fifo
begin

text \<open>
  The single-producer single-consumer queue between the receiving and the decoding thread
  (\<^verbatim>\<open>rs_driver/utility/sync_queue.hpp\<close>): its operations as sequential functions, the refinement to
  a bounded list, and the interleavings of one producer and one consumer at the granularity of the
  atomic loads and stores. \<^verbatim>\<open>Capacity\<close> is the length of \<open>sq_buffer\<close>. The interleaving model is
  sequentially consistent, which the acquire and release orders of the code provide for one producer
  and one consumer.
\<close>

record 'a SyncQueue =
  sq_buffer :: "'a list"
  head_idx :: nat
  tail_idx :: nat

definition mk_SyncQueue :: "'a list \<Rightarrow> 'a SyncQueue" where
  "mk_SyncQueue mem = \<lparr>sq_buffer = mem, head_idx = 0, tail_idx = 0\<rparr>"

abbreviation Capacity :: "('a, 'b) SyncQueue_scheme \<Rightarrow> nat" where
  "Capacity s \<equiv> length (sq_buffer s)"

definition sq_size :: "('a, 'b) SyncQueue_scheme \<Rightarrow> nat" where
  "sq_size s = (if tail_idx s \<ge> head_idx s then tail_idx s - head_idx s
                else Capacity s - head_idx s + tail_idx s)"

definition sq_push :: "'a \<Rightarrow> 'a SyncQueue \<Rightarrow> u64 \<times> 'a SyncQueue" where
  "sq_push v s =
     (let next_tail = (tail_idx s + 1) mod Capacity s in
      if next_tail = head_idx s then (-1, s)
      else (let s' = s\<lparr>sq_buffer := (sq_buffer s)[tail_idx s := v], tail_idx := next_tail\<rparr>
            in (of_nat (sq_size s'), s')))"

text \<open>\<open>None\<close> is the default-constructed value that \<^verbatim>\<open>pop\<close> returns on an empty queue.\<close>

definition sq_pop :: "'a SyncQueue \<Rightarrow> 'a option \<times> 'a SyncQueue" where
  "sq_pop s =
     (if head_idx s = tail_idx s then (None, s)
      else (Some (sq_buffer s ! head_idx s), s\<lparr>head_idx := (head_idx s + 1) mod Capacity s\<rparr>))"

definition sq_clear :: "'a SyncQueue \<Rightarrow> 'a SyncQueue" where
  "sq_clear s = s\<lparr>head_idx := 0, tail_idx := 0\<rparr>"

text \<open>
  The two waiting operations poll until an element is there or the time is up. Here the states seen
  by the successive polls are an argument, ended by the poll at which the time is up; the interleaving
  model below is where those states come from.
\<close>

fun sq_popWait :: "'a SyncQueue list \<Rightarrow> 'a SyncQueue \<Rightarrow> 'a option \<times> 'a SyncQueue" where
  "sq_popWait [] s = sq_pop s"
| "sq_popWait (s # later) t = (if head_idx s \<noteq> tail_idx s then sq_pop s else sq_popWait later t)"

definition sq_take :: "nat \<Rightarrow> 'a list \<Rightarrow> 'a SyncQueue \<Rightarrow> nat \<times> 'a list \<times> 'a SyncQueue" where
  "sq_take max_count out s =
     (let available = (if tail_idx s \<ge> head_idx s then tail_idx s - head_idx s
                       else Capacity s - head_idx s + tail_idx s);
          real_count = (if max_count < available then max_count else available)
      in (real_count,
          out @ map (\<lambda>i. sq_buffer s ! ((head_idx s + i) mod Capacity s)) [0..<real_count],
          s\<lparr>head_idx := (head_idx s + real_count) mod Capacity s\<rparr>))"

fun sq_popBatch :: "'a SyncQueue list \<Rightarrow> nat \<Rightarrow> 'a list \<Rightarrow> 'a SyncQueue \<Rightarrow> nat \<times> 'a list \<times> 'a SyncQueue" where
  "sq_popBatch [] max_count out s =
     (if head_idx s \<noteq> tail_idx s then sq_take max_count out s else (0, out, s))"
| "sq_popBatch (s # later) max_count out t =
     (if head_idx s \<noteq> tail_idx s then sq_take max_count out s else sq_popBatch later max_count out t)"

section \<open>The queue is a bounded list\<close>

definition sq_inv :: "nat \<Rightarrow> ('a, 'b) SyncQueue_scheme \<Rightarrow> bool" where
  "sq_inv n s \<longleftrightarrow> Capacity s = n \<and> head_idx s < n \<and> tail_idx s < n"

definition sq_list :: "('a, 'b) SyncQueue_scheme \<Rightarrow> 'a list" where
  "sq_list s = ring_contents (sq_buffer s) (head_idx s) (sq_size s)"

lemma length_sq_list [simp]: "length (sq_list s) = sq_size s"
  by (simp add: sq_list_def)

lemma sq_size_tail:
  assumes "sq_inv n s"
  shows "sq_size s < n" and "tail_idx s = (head_idx s + sq_size s) mod n"
  using assms by (auto simp: sq_inv_def sq_size_def mod_if)

lemma sq_size_eqI:
  assumes "head_idx s < Capacity s" and "tail_idx s = (head_idx s + k) mod Capacity s" and "k < Capacity s"
  shows "sq_size s = k"
  using assms by (auto simp: sq_size_def mod_if)

lemma sq_empty_iff: "sq_inv n s \<Longrightarrow> head_idx s = tail_idx s \<longleftrightarrow> sq_size s = 0"
  by (auto simp: sq_inv_def sq_size_def)

lemma sq_full_iff:
  assumes "sq_inv n s"
  shows "(tail_idx s + 1) mod n = head_idx s \<longleftrightarrow> sq_size s = n - 1"
  using assms by (auto simp: sq_inv_def sq_size_def mod_if)

text \<open>Storing a value in the free slot and advancing the tail appends it.\<close>

lemma sq_store:
  assumes "sq_inv n s" and "(tail_idx s + 1) mod n \<noteq> head_idx s"
    and "s' = s\<lparr>sq_buffer := (sq_buffer s)[tail_idx s := v], tail_idx := (tail_idx s + 1) mod n\<rparr>"
  shows "sq_size s' = sq_size s + 1" and "sq_list s' = sq_list s @ [v]" and "sq_inv n s'"
proof -
  have k: "sq_size s + 1 < n"
    using assms(1,2) sq_full_iff [OF assms(1)] sq_size_tail(1) [OF assms(1)] by linarith
  have n: "Capacity s = n" "head_idx s < n" using assms(1) by (simp_all add: sq_inv_def)
  show inv: "sq_inv n s'" using assms by (auto simp: sq_inv_def)
  show sz: "sq_size s' = sq_size s + 1"
    using k n assms(3) sq_size_tail(2) [OF assms(1)]
    by (intro sq_size_eqI) (simp_all add: mod_simps)
  show "sq_list s' = sq_list s @ [v]"
    using k n assms(3) sq_size_tail(2) [OF assms(1)] sz
      ring_contents_put [of "sq_size s" "sq_buffer s" "head_idx s" v]
    by (simp add: sq_list_def)
qed

text \<open>Advancing the head by \<open>j\<close> drops \<open>j\<close> elements.\<close>

lemma sq_advance:
  assumes "sq_inv n s" and "j \<le> sq_size s"
    and "s' = s\<lparr>head_idx := (head_idx s + j) mod n\<rparr>"
  shows "sq_list s' = drop j (sq_list s)" and "sq_inv n s'"
proof -
  have n: "Capacity s = n" "head_idx s < n" using assms(1) by (simp_all add: sq_inv_def)
  show inv: "sq_inv n s'" using assms by (auto simp: sq_inv_def)
  have "(head_idx s + j + (sq_size s - j)) mod n = tail_idx s"
    using assms(2) sq_size_tail(2) [OF assms(1)] by simp
  then have "sq_size s' = sq_size s - j"
    using n assms(3) sq_size_tail(1) [OF assms(1)]
    by (intro sq_size_eqI) (auto simp: mod_simps)
  then show "sq_list s' = drop j (sq_list s)"
    using n assms(2,3) ring_contents_drop [of j "sq_size s" "sq_buffer s" "head_idx s"]
      ring_contents_mod [of "sq_buffer s" "head_idx s + j" "sq_size s - j"]
    by (simp add: sq_list_def)
qed

definition sq_enq :: "'a \<Rightarrow> 'a SyncQueue \<Rightarrow> 'a SyncQueue option" where
  "sq_enq v s = (let (r, s') = sq_push v s in if r = -1 then None else Some s')"

definition sq_deq :: "'a SyncQueue \<Rightarrow> ('a \<times> 'a SyncQueue) option" where
  "sq_deq s = (let (r, s') = sq_pop s in map_option (\<lambda>v. (v, s')) r)"

lemma sq_push_cases:
  assumes "sq_inv n s" and "n < 2 ^ 64"
  shows "sq_size s = n - 1 \<and> sq_push v s = (-1, s) \<or>
    sq_size s < n - 1 \<and> (\<exists>s'. sq_push v s = (of_nat (sq_size s + 1), s') \<and>
      of_nat (sq_size s + 1) \<noteq> (-1 :: u64) \<and> sq_list s' = sq_list s @ [v] \<and> sq_inv n s')"
proof (cases "(tail_idx s + 1) mod n = head_idx s")
  case True
  then show ?thesis using assms sq_full_iff [OF assms(1)]
    by (simp add: sq_push_def Let_def sq_inv_def)
next
  case False
  let ?s' = "s\<lparr>sq_buffer := (sq_buffer s)[tail_idx s := v], tail_idx := (tail_idx s + 1) mod n\<rparr>"
  have k: "sq_size s < n - 1"
    using False sq_full_iff [OF assms(1)] sq_size_tail(1) [OF assms(1)] by linarith
  have u: "unat (of_nat (sq_size s + 1) :: u64) = sq_size s + 1"
    using k assms(2) by (simp add: unat_of_nat del: of_nat_Suc)
  have m: "unat (-1 :: u64) = 2 ^ 64 - 1" by (simp add: unsigned_minus_1_eq_mask mask_eq_exp_minus_1)
  have "of_nat (sq_size s + 1) \<noteq> (-1 :: u64)"
  proof
    assume "of_nat (sq_size s + 1) = (-1 :: u64)"
    then have "sq_size s + 1 = 2 ^ 64 - 1" using u m by metis
    then show False using k assms(2) by simp
  qed
  moreover have "sq_push v s = (of_nat (sq_size s + 1), ?s')"
    using False assms(1) sq_store(1) [OF assms(1) False refl, of v]
    by (simp add: sq_push_def Let_def sq_inv_def)
  ultimately show ?thesis using k sq_store [OF assms(1) False refl, of v] by blast
qed

lemma sq_take_eq:
  assumes "sq_inv n s"
  shows "\<exists>s'. sq_take m out s = (min m (sq_size s), out @ take m (sq_list s), s') \<and>
    sq_list s' = drop m (sq_list s) \<and> sq_inv n s'"
proof -
  let ?k = "min m (sq_size s)"
  let ?s' = "s\<lparr>head_idx := (head_idx s + ?k) mod n\<rparr>"
  have n: "Capacity s = n" using assms by (simp add: sq_inv_def)
  have c: "(if m < sq_size s then m else sq_size s) = ?k" by simp
  have t: "map (\<lambda>i. sq_buffer s ! ((head_idx s + i) mod Capacity s)) [0..<?k] = take m (sq_list s)"
    using ring_contents_take [of ?k "sq_size s" "sq_buffer s" "head_idx s"]
    by (simp add: sq_list_def ring_contents_def [of _ _ "?k"]) (simp add: min_def)
  have "sq_take m out s = (?k, out @ take m (sq_list s), ?s')"
    unfolding sq_take_def Let_def sq_size_def [symmetric] c t by (simp add: n)
  moreover have "drop ?k (sq_list s) = drop m (sq_list s)" by (simp add: min_def)
  ultimately show ?thesis using sq_advance [OF assms _ refl, of ?k] by auto
qed

lemma sq_pop_cases:
  assumes "sq_inv n s"
  shows "sq_list s = [] \<and> sq_pop s = (None, s) \<or>
    (\<exists>v s'. sq_pop s = (Some v, s') \<and> sq_list s = v # sq_list s' \<and> sq_inv n s')"
proof (cases "head_idx s = tail_idx s")
  case True
  then show ?thesis using sq_empty_iff [OF assms] by (simp add: sq_pop_def sq_list_def)
next
  case False
  then obtain k where k: "sq_size s = Suc k" using sq_empty_iff [OF assms] by (cases "sq_size s") auto
  have n: "Capacity s = n" "head_idx s < n" using assms by (simp_all add: sq_inv_def)
  have "sq_list s = sq_buffer s ! head_idx s # drop 1 (sq_list s)"
    using n by (simp add: sq_list_def k ring_contents_Suc)
  then show ?thesis
    using False n sq_advance [OF assms _ refl, of 1] k by (simp add: sq_pop_def)
qed

interpretation sq: bounded_fifo "\<lambda>_. True" "\<lambda>s. sq_inv n s \<and> n < 2 ^ 64" sq_list "n - 1" sq_enq sq_deq for n
proof (unfold_locales, goal_cases)
  case (1 s a)
  then show ?case using sq_push_cases [of n s a] by (auto simp: sq_enq_def list_enq_def)
next
  case (2 s a s')
  then show ?case using sq_push_cases [of n s a] by (auto simp: sq_enq_def split: if_splits)
next
  case (3 s)
  then show ?case using sq_pop_cases [of n s] by (auto simp: sq_deq_def)
next
  case (4 s x s')
  then show ?case using sq_pop_cases [of n s] by (auto simp: sq_deq_def)
qed

lemma sq_init:
  "mem \<noteq> [] \<Longrightarrow> sq_inv (length mem) (mk_SyncQueue mem) \<and> sq_list (mk_SyncQueue mem) = []"
  by (simp add: sq_inv_def mk_SyncQueue_def sq_list_def sq_size_def)

text \<open>Whatever sequence of pushes and pops runs on a new queue, the values accepted by \<^verbatim>\<open>push\<close> are,
  in order, the values delivered by \<^verbatim>\<open>pop\<close> followed by those still queued, of which there are at
  most \<^verbatim>\<open>Capacity - 1\<close>.\<close>

theorem sq_sequential_fifo:
  assumes "mem \<noteq> []" and "length mem < 2 ^ 64"
    and "run_fifo sq_enq sq_deq ops (mk_SyncQueue mem) = (pushed, popped, s)"
  shows "pushed = popped @ sq_list s \<and> length (sq_list s) \<le> length mem - 1"
  using sq.fifo [of "length mem" "mk_SyncQueue mem" ops, OF _ _ assms(3)] assms sq_init [OF assms(1)] by (auto simp: list_all_iff)

theorem sq_sequential_fifo_witness:
  "[1, 2] = [1] @ sq_list (snd (snd (run_fifo sq_enq sq_deq [Enq 1, Enq 2, Deq] (mk_SyncQueue [0::int, 0, 0]))))"
  using sq_sequential_fifo [of "[0, 0, 0::int]" "[Enq 1, Enq 2, Deq]" "[1, 2]" "[1]"]
  by (simp add: sq_enq_def sq_deq_def sq_push_def sq_pop_def mk_SyncQueue_def sq_size_def Let_def)

text \<open>\<^verbatim>\<open>popBatch\<close> appends to the caller's vector exactly the oldest \<^verbatim>\<open>max_count\<close> elements (all of them
  when there are fewer), returns how many it moved, and leaves the others queued in order.\<close>

theorem sq_popBatch_takes_oldest:
  assumes "sq_inv n s"
  shows "\<exists>s'. sq_popBatch [] m out s = (min m (length (sq_list s)), out @ take m (sq_list s), s') \<and>
    sq_list s' = drop m (sq_list s) \<and> sq_inv n s'"
proof (cases "head_idx s = tail_idx s")
  case True
  then have "sq_size s = 0" using sq_empty_iff [OF assms] by simp
  then have "sq_list s = []" by (simp add: sq_list_def)
  then show ?thesis using True assms by auto
next
  case False
  then show ?thesis using sq_take_eq [OF assms, of m out] by simp
qed

theorem sq_popBatch_takes_oldest_witness:
  "\<exists>s'. sq_popBatch [] 2 [9] \<lparr>sq_buffer = [3, 0, 1, 2 :: int], head_idx = 2, tail_idx = 1\<rparr> =
     (min 2 3, [9] @ [1, 2], s') \<and> sq_list s' = [3]"
  using sq_popBatch_takes_oldest [of 4 "\<lparr>sq_buffer = [3, 0, 1, 2 :: int], head_idx = 2, tail_idx = 1\<rparr>" 2 "[9]"]
  by (auto simp: sq_inv_def sq_list_def sq_size_def ring_contents_def)

section \<open>One producer and one consumer\<close>

text \<open>
  Where each thread is inside its operation, with its local variables. Producer: \<open>PTail v t\<close> has
  loaded the tail, \<open>PStore\<close> has found a free slot, \<open>PPublish\<close> has written it. Consumer in \<^verbatim>\<open>pop\<close>:
  \<open>CHead h\<close> has loaded the head, \<open>CRead\<close> has found an element, \<open>CMove\<close> has copied it; in
  \<^verbatim>\<open>popBatch\<close>: \<open>BWait m\<close> polls, \<open>BHead\<close> has loaded the head, \<open>BCopy h k out\<close> has copied \<open>out\<close>
  of the \<open>k\<close> elements to take.
\<close>

datatype 'a prod_pc = PIdle | PTail 'a nat | PStore 'a nat | PPublish 'a nat

datatype 'a cons_pc = CIdle | CHead nat | CRead nat | CMove nat 'a
  | BWait nat | BHead nat nat | BCopy nat nat "'a list"

record 'a sq_sys = "'a SyncQueue" +
  prod :: "'a prod_pc"
  cons :: "'a cons_pc"
  pushed :: "'a list"
  popped :: "'a list"

definition sq_sys_init :: "'a list \<Rightarrow> 'a sq_sys" where
  "sq_sys_init mem = \<lparr>sq_buffer = mem, head_idx = 0, tail_idx = 0,
     prod = PIdle, cons = CIdle, pushed = [], popped = []\<rparr>"

inductive sq_step :: "'a sq_sys \<Rightarrow> 'a sq_sys \<Rightarrow> bool" where
  push_load_tail: "prod s = PIdle \<Longrightarrow> sq_step s (s\<lparr>prod := PTail v (tail_idx s)\<rparr>)"
| push_full: "prod s = PTail v t \<Longrightarrow> (t + 1) mod Capacity s = head_idx s \<Longrightarrow> sq_step s (s\<lparr>prod := PIdle\<rparr>)"
| push_room: "prod s = PTail v t \<Longrightarrow> (t + 1) mod Capacity s \<noteq> head_idx s \<Longrightarrow>
    sq_step s (s\<lparr>prod := PStore v t\<rparr>)"
| push_write: "prod s = PStore v t \<Longrightarrow>
    sq_step s (s\<lparr>sq_buffer := (sq_buffer s)[t := v], prod := PPublish v t\<rparr>)"
| push_publish: "prod s = PPublish v t \<Longrightarrow>
    sq_step s (s\<lparr>tail_idx := (t + 1) mod Capacity s, prod := PIdle, pushed := pushed s @ [v]\<rparr>)"
| pop_load_head: "cons s = CIdle \<Longrightarrow> sq_step s (s\<lparr>cons := CHead (head_idx s)\<rparr>)"
| pop_empty: "cons s = CHead h \<Longrightarrow> h = tail_idx s \<Longrightarrow> sq_step s (s\<lparr>cons := CIdle\<rparr>)"
| pop_some: "cons s = CHead h \<Longrightarrow> h \<noteq> tail_idx s \<Longrightarrow> sq_step s (s\<lparr>cons := CRead h\<rparr>)"
| pop_read: "cons s = CRead h \<Longrightarrow> sq_step s (s\<lparr>cons := CMove h (sq_buffer s ! h)\<rparr>)"
| pop_move: "cons s = CMove h v \<Longrightarrow>
    sq_step s (s\<lparr>head_idx := (h + 1) mod Capacity s, cons := CIdle, popped := popped s @ [v]\<rparr>)"
| batch_start: "cons s = CIdle \<Longrightarrow> sq_step s (s\<lparr>cons := BWait m\<rparr>)"
| batch_timeout: "cons s = BWait m \<Longrightarrow> head_idx s = tail_idx s \<Longrightarrow> sq_step s (s\<lparr>cons := CIdle\<rparr>)"
| batch_ready: "cons s = BWait m \<Longrightarrow> head_idx s \<noteq> tail_idx s \<Longrightarrow>
    sq_step s (s\<lparr>cons := BHead m (head_idx s)\<rparr>)"
| batch_count: "cons s = BHead m h \<Longrightarrow>
    k = (let available = (if tail_idx s \<ge> h then tail_idx s - h else Capacity s - h + tail_idx s)
         in if m < available then m else available) \<Longrightarrow>
    sq_step s (s\<lparr>cons := BCopy h k []\<rparr>)"
| batch_copy: "cons s = BCopy h k out \<Longrightarrow> length out < k \<Longrightarrow>
    sq_step s (s\<lparr>cons := BCopy h k (out @ [sq_buffer s ! ((h + length out) mod Capacity s)])\<rparr>)"
| batch_done: "cons s = BCopy h k out \<Longrightarrow> length out = k \<Longrightarrow>
    sq_step s (s\<lparr>head_idx := (h + k) mod Capacity s, cons := CIdle, popped := popped s @ out\<rparr>)"

inductive sq_reach :: "'a list \<Rightarrow> 'a sq_sys \<Rightarrow> bool" for mem where
  start: "sq_reach mem (sq_sys_init mem)"
| next_step: "sq_reach mem s \<Longrightarrow> sq_step s s' \<Longrightarrow> sq_reach mem s'"

fun prod_ok :: "nat \<Rightarrow> 'a prod_pc \<Rightarrow> ('a, 'b) SyncQueue_scheme \<Rightarrow> bool" where
  "prod_ok n PIdle s \<longleftrightarrow> True"
| "prod_ok n (PTail v t) s \<longleftrightarrow> t = tail_idx s"
| "prod_ok n (PStore v t) s \<longleftrightarrow> t = tail_idx s \<and> (t + 1) mod n \<noteq> head_idx s"
| "prod_ok n (PPublish v t) s \<longleftrightarrow> t = tail_idx s \<and> (t + 1) mod n \<noteq> head_idx s \<and> sq_buffer s ! t = v"

fun cons_ok :: "'a cons_pc \<Rightarrow> ('a, 'b) SyncQueue_scheme \<Rightarrow> bool" where
  "cons_ok CIdle s \<longleftrightarrow> True"
| "cons_ok (CHead h) s \<longleftrightarrow> h = head_idx s"
| "cons_ok (CRead h) s \<longleftrightarrow> h = head_idx s \<and> sq_list s \<noteq> []"
| "cons_ok (CMove h v) s \<longleftrightarrow> h = head_idx s \<and> (\<exists>vs. sq_list s = v # vs)"
| "cons_ok (BWait m) s \<longleftrightarrow> True"
| "cons_ok (BHead m h) s \<longleftrightarrow> h = head_idx s"
| "cons_ok (BCopy h k out) s \<longleftrightarrow> h = head_idx s \<and> k \<le> sq_size s \<and> length out \<le> k \<and>
     out = take (length out) (sq_list s)"

definition sys_inv :: "nat \<Rightarrow> 'a sq_sys \<Rightarrow> bool" where
  "sys_inv n s \<longleftrightarrow> sq_inv n s \<and> pushed s = popped s @ sq_list s \<and> prod_ok n (prod s) s \<and> cons_ok (cons s) s"

text \<open>What each side has to know of the other's step.\<close>

lemma sq_list_frame [simp]:
  "sq_list (s\<lparr>prod := p\<rparr>) = sq_list s" "sq_list (s\<lparr>cons := c\<rparr>) = sq_list s"
  "sq_list (s\<lparr>pushed := xs\<rparr>) = sq_list s" "sq_list (s\<lparr>popped := xs\<rparr>) = sq_list s"
  "sq_size (s\<lparr>prod := p\<rparr>) = sq_size s" "sq_size (s\<lparr>cons := c\<rparr>) = sq_size s"
  "sq_size (s\<lparr>pushed := xs\<rparr>) = sq_size s" "sq_size (s\<lparr>popped := xs\<rparr>) = sq_size s"
  "sq_inv n (s\<lparr>prod := p\<rparr>) = sq_inv n s" "sq_inv n (s\<lparr>cons := c\<rparr>) = sq_inv n s"
  "sq_inv n (s\<lparr>pushed := xs\<rparr>) = sq_inv n s" "sq_inv n (s\<lparr>popped := xs\<rparr>) = sq_inv n s"
  by (simp_all add: sq_list_def sq_size_def sq_inv_def)

lemma ok_frame [simp]:
  "prod_ok n q (s\<lparr>prod := p\<rparr>) = prod_ok n q s" "prod_ok n q (s\<lparr>cons := c\<rparr>) = prod_ok n q s"
  "prod_ok n q (s\<lparr>pushed := xs\<rparr>) = prod_ok n q s" "prod_ok n q (s\<lparr>popped := xs\<rparr>) = prod_ok n q s"
  "cons_ok d (s\<lparr>prod := p\<rparr>) = cons_ok d s" "cons_ok d (s\<lparr>cons := c\<rparr>) = cons_ok d s"
  "cons_ok d (s\<lparr>pushed := xs\<rparr>) = cons_ok d s" "cons_ok d (s\<lparr>popped := xs\<rparr>) = cons_ok d s"
  by (cases q; simp)+ (cases d; simp)+

lemma cons_ok_grow:
  assumes "cons_ok c s" and "sq_list s' = sq_list s @ vs" and "head_idx s' = head_idx s"
  shows "cons_ok c s'"
proof -
  have "sq_size s' = sq_size s + length vs"
    using arg_cong [where f = length, OF assms(2)] by simp
  then show ?thesis using assms by (cases c) (auto simp: take_append)
qed

lemma prod_ok_advance:
  assumes "prod_ok n p s" and "sq_inv n s" and "j \<le> sq_size s"
    and s': "s' = s\<lparr>head_idx := (head_idx s + j) mod n\<rparr>"
  shows "prod_ok n p s'"
proof -
  have "sq_size s' = sq_size s - j"
    using arg_cong [where f = length, OF sq_advance(1) [OF assms(2,3) s']] by simp
  moreover have "sq_size s < n" by (rule sq_size_tail(1) [OF assms(2)])
  ultimately have "(tail_idx s + 1) mod n \<noteq> head_idx s \<Longrightarrow> (tail_idx s + 1) mod n \<noteq> head_idx s'"
    using sq_full_iff [OF assms(2)] sq_full_iff [OF sq_advance(2) [OF assms(2,3) s']] s' assms(3)
    by auto
  then show ?thesis using assms(1) s' by (cases p) auto
qed

lemma sq_write_free:
  assumes "sq_inv n s" and "s' = s\<lparr>sq_buffer := (sq_buffer s)[tail_idx s := v]\<rparr>"
  shows "sq_list s' = sq_list s" and "sq_size s' = sq_size s" and "sq_inv n s'"
proof -
  show sz: "sq_size s' = sq_size s" and "sq_inv n s'"
    using assms by (simp_all add: sq_size_def sq_inv_def)
  show "sq_list s' = sq_list s"
    using ring_contents_put_free [of "sq_size s" "sq_buffer s" "head_idx s" v] assms sz
      sq_size_tail [OF assms(1)]
    by (simp add: sq_list_def sq_inv_def)
qed

lemma sys_inv_init: "mem \<noteq> [] \<Longrightarrow> sys_inv (length mem) (sq_sys_init mem)"
  by (simp add: sys_inv_def sq_sys_init_def sq_inv_def sq_list_def sq_size_def)

lemma sys_inv_publish:
  assumes "sys_inv n s" and "prod s = PPublish v t"
  shows "sys_inv n (s\<lparr>tail_idx := (t + 1) mod Capacity s, prod := PIdle, pushed := pushed s @ [v]\<rparr>)"
proof -
  let ?t = "s\<lparr>tail_idx := (t + 1) mod Capacity s\<rparr>"
  have n: "Capacity s = n" and i: "sq_inv n s" and p: "prod_ok n (PPublish v t) s"
    using assms by (auto simp: sys_inv_def sq_inv_def)
  have e: "?t = s\<lparr>sq_buffer := (sq_buffer s)[tail_idx s := v], tail_idx := (tail_idx s + 1) mod n\<rparr>"
    using p n by (cases s) auto
  have l: "sq_list ?t = sq_list s @ [v]" and i': "sq_inv n ?t"
    using sq_store [OF i _ e] p by auto
  have "cons_ok (cons s) ?t"
    using assms(1) by (intro cons_ok_grow [OF _ l]) (simp_all add: sys_inv_def)
  then show ?thesis using assms(1) l i' by (simp add: sys_inv_def)
qed

lemma sys_inv_consume:
  assumes "sys_inv n s" and "j \<le> sq_size s" and "out = take j (sq_list s)"
  shows "sys_inv n (s\<lparr>head_idx := (head_idx s + j) mod Capacity s, cons := CIdle, popped := popped s @ out\<rparr>)"
proof -
  have n: "Capacity s = n" and i: "sq_inv n s" using assms by (simp_all add: sys_inv_def sq_inv_def)
  show ?thesis
    using assms sq_advance [OF i assms(2) refl] prod_ok_advance [OF _ i assms(2) refl, of "prod s"]
    by (simp add: sys_inv_def n)
qed

lemma sys_inv_step: "sq_step s s' \<Longrightarrow> sys_inv n s \<Longrightarrow> sys_inv n s'"
proof (induction rule: sq_step.induct)
  case (push_load_tail s v)
  then show ?case by (simp add: sys_inv_def)
next
  case (push_full s v t)
  then show ?case by (simp add: sys_inv_def)
next
  case (push_room s v t)
  then show ?case by (simp add: sys_inv_def sq_inv_def)
next
  case (push_write s v t)
  then have i: "sq_inv n s" and t: "t = tail_idx s" by (simp_all add: sys_inv_def)
  let ?t = "s\<lparr>sq_buffer := (sq_buffer s)[t := v]\<rparr>"
  have w: "sq_list ?t = sq_list s" "sq_inv n ?t"
    unfolding t by (rule sq_write_free [OF i refl])+
  have "cons_ok (cons s) ?t"
    using push_write by (intro cons_ok_grow [of _ s ?t "[]"]) (simp_all add: sys_inv_def w w [unfolded t])
  then show ?case using push_write w w [unfolded t] by (auto simp: sys_inv_def sq_inv_def)
next
  case (push_publish s v t)
  then show ?case by (intro sys_inv_publish)
next
  case (pop_load_head s)
  then show ?case by (simp add: sys_inv_def)
next
  case (pop_empty s h)
  then show ?case by (simp add: sys_inv_def)
next
  case (pop_some s h)
  then have "sq_list s \<noteq> []"
    using sq_empty_iff [of n s] by (auto simp: sys_inv_def simp flip: length_0_conv)
  with pop_some show ?case by (simp add: sys_inv_def)
next
  case (pop_read s h)
  then obtain k where "sq_size s = Suc k" by (cases "sq_size s") (auto simp: sys_inv_def simp flip: length_0_conv)
  with pop_read show ?case by (auto simp: sys_inv_def sq_inv_def sq_list_def ring_contents_Suc)
next
  case (pop_move s h v)
  then obtain vs where "sq_list s = v # vs" "h = head_idx s" by (auto simp: sys_inv_def)
  then show ?case using sys_inv_consume [of n s 1 "[v]"] pop_move length_sq_list [of s] by simp
next
  case (batch_start s m)
  then show ?case by (simp add: sys_inv_def)
next
  case (batch_timeout s m)
  then show ?case by (simp add: sys_inv_def)
next
  case (batch_ready s m)
  then show ?case by (simp add: sys_inv_def)
next
  case (batch_count s m h k)
  then have "h = head_idx s" by (simp add: sys_inv_def)
  then have "k \<le> sq_size s" using batch_count(2) by (simp add: sq_size_def Let_def split: if_splits)
  with batch_count \<open>h = head_idx s\<close> show ?case by (simp add: sys_inv_def)
next
  case (batch_copy s h k out)
  then have k: "h = head_idx s" "k \<le> sq_size s" "out = take (length out) (sq_list s)"
    by (simp_all add: sys_inv_def)
  have "take (Suc (length out)) (sq_list s) = out @ [sq_buffer s ! ((h + length out) mod Capacity s)]"
    using k batch_copy(2)
    by (simp add: take_Suc_conv_app_nth) (simp add: sq_list_def nth_ring_contents)
  with batch_copy k show ?case by (simp add: sys_inv_def)
next
  case (batch_done s h k out)
  then have "h = head_idx s" "k \<le> sq_size s" "out = take k (sq_list s)"
    by (simp_all add: sys_inv_def)
  then show ?case using sys_inv_consume [of n s k out] batch_done by simp
qed

lemma sys_inv_reach: "sq_reach mem s \<Longrightarrow> mem \<noteq> [] \<Longrightarrow> sys_inv (length mem) s"
  by (induction rule: sq_reach.induct) (auto intro: sys_inv_init sys_inv_step)

text \<open>C1: under every interleaving of one producer thread (in \<^verbatim>\<open>push\<close>) and one consumer thread (in \<^verbatim>\<open>pop\<close>
  or \<^verbatim>\<open>popBatch\<close>) the values published are, in order and without loss or duplication, the values
  consumed followed by those in the queue, which never holds more than \<^verbatim>\<open>Capacity - 1\<close>; a consumer
  about to hand out a value has read the oldest one.\<close>

theorem sq_concurrent_fifo:
  assumes "sq_reach mem s" and "mem \<noteq> []"
  shows "pushed s = popped s @ sq_list s \<and> length (sq_list s) \<le> length mem - 1 \<and>
    (\<forall>h v. cons s = CMove h v \<longrightarrow> v = (pushed s) ! length (popped s))"
proof -
  have i: "sys_inv (length mem) s" by (rule sys_inv_reach [OF assms])
  then have "length (sq_list s) \<le> length mem - 1"
    using sq_size_tail(1) [of "length mem" s] by (simp add: sys_inv_def)
  with i show ?thesis by (auto simp: sys_inv_def)
qed

lemma sq_example_reach:
  "sq_reach [0, 0 :: int] ((sq_sys_init [0, 0])
     \<lparr>sq_buffer := [7, 0], tail_idx := 1, pushed := [7], cons := CMove 0 7\<rparr>)"
proof -
  let ?i = "sq_sys_init [0, 0 :: int]"
  have 1: "sq_reach [0, 0] (?i\<lparr>prod := PTail 7 0\<rparr>)"
    using next_step [OF sq_reach.start [of "[0, 0 :: int]"] push_load_tail [of ?i 7]] by (simp add: sq_sys_init_def)
  have 2: "sq_reach [0, 0] (?i\<lparr>prod := PStore 7 0\<rparr>)"
    using next_step [OF 1 push_room [of _ 7 0]] by (simp add: sq_sys_init_def)
  have 3: "sq_reach [0, 0] (?i\<lparr>prod := PPublish 7 0, sq_buffer := [7, 0]\<rparr>)"
    using next_step [OF 2 push_write [of _ 7 0]] by (simp add: sq_sys_init_def)
  have 4: "sq_reach [0, 0] (?i\<lparr>sq_buffer := [7, 0], tail_idx := 1, pushed := [7]\<rparr>)"
    using next_step [OF 3 push_publish [of _ 7 0]] by (simp add: sq_sys_init_def)
  have 5: "sq_reach [0, 0] (?i\<lparr>sq_buffer := [7, 0], tail_idx := 1, pushed := [7], cons := CHead 0\<rparr>)"
    using next_step [OF 4 pop_load_head] by (simp add: sq_sys_init_def)
  have 6: "sq_reach [0, 0] (?i\<lparr>sq_buffer := [7, 0], tail_idx := 1, pushed := [7], cons := CRead 0\<rparr>)"
    using next_step [OF 5 pop_some [of _ 0]] by (simp add: sq_sys_init_def)
  show ?thesis
    using next_step [OF 6 pop_read [of _ 0]] by (simp add: sq_sys_init_def)
qed

theorem sq_concurrent_fifo_witness:
  "pushed ((sq_sys_init [0, 0 :: int])\<lparr>sq_buffer := [7, 0], tail_idx := 1, pushed := [7], cons := CMove 0 7\<rparr>)
   = [] @ sq_list ((sq_sys_init [0, 0 :: int])\<lparr>sq_buffer := [7, 0], tail_idx := 1, pushed := [7], cons := CMove 0 7\<rparr>)"
  using sq_concurrent_fifo [OF sq_example_reach] by (simp add: sq_sys_init_def)

end
