(* ===== verification/Rs_Driver.thy ===== *)
theory Rs_Driver
  imports Rs_Factory Rs_Input Rs_SyncQueue
begin

text \<open>
  The driver of rs_driver (\<^verbatim>\<open>driver/lidar_driver_impl.hpp\<close>) with the factory of inputs (\<^verbatim>\<open>driver/input/input_factory.hpp\<close>):
  an input puts packets into a queue, and the handler takes them out in batches, gives them to the decoder by their
  header, and publishes them numbered. The steps of both threads are events, each atomic: \<open>Rs_SyncQueue\<close>
  shows that the pushes and pops of two threads are, and below why clearing the queue is not. The decoder is any of
  \<open>Rs_Factory\<close>, the queues are those of \<open>Rs_SyncQueue\<close> with a null pointer as \<^term>\<open>None\<close>. A packet whose length
  reaches behind its buffer, a null dereference and a call of an empty function are \<^term>\<open>None\<close>.
\<close>

section \<open>Parameters and inputs\<close>

datatype InputType = ONLINE_LIDAR | PCAP_FILE | RAW_PACKET

record RSInputParam =
  user_layer_bytes :: u16
  tail_layer_bytes :: u16
  use_vlan :: bool

record 'r RSDriverParam =
  lidar_type :: LidarType
  input_type :: InputType
  frame_id :: string
  input_param :: RSInputParam
  decoder_param :: "'r RSDecoderParam"

datatype InputClass = InputSock | InputSockJumbo | InputPcap | InputPcapJumbo | InputRaw | InputRawJumbo

text \<open>An input: its class, the bytes that it skips before and behind a packet, and the size of its buffers.\<close>

record Input =
  in_class :: InputClass
  in_offset :: nat
  in_tail :: nat
  pkt_buf_len :: nat

definition createInput :: "InputType \<Rightarrow> RSInputParam \<Rightarrow> bool \<Rightarrow> Input" where
  "createInput ty p is_jumbo =
     (let off = unat (user_layer_bytes p); tn = unat (tail_layer_bytes p);
          pcap_off = 42 + (if use_vlan p then 4 else 0) + off
      in case ty of
           ONLINE_LIDAR \<Rightarrow> (if is_jumbo then \<lparr>in_class = InputSockJumbo, in_offset = off, in_tail = tn, pkt_buf_len = IP_LEN\<rparr>
             else \<lparr>in_class = InputSock, in_offset = off, in_tail = tn, pkt_buf_len = ETH_LEN\<rparr>)
         | PCAP_FILE \<Rightarrow> (if is_jumbo then \<lparr>in_class = InputPcapJumbo, in_offset = pcap_off, in_tail = tn, pkt_buf_len = IP_LEN\<rparr>
             else \<lparr>in_class = InputPcap, in_offset = pcap_off, in_tail = tn, pkt_buf_len = ETH_LEN\<rparr>)
         | RAW_PACKET \<Rightarrow> (if is_jumbo then \<lparr>in_class = InputRawJumbo, in_offset = off, in_tail = tn, pkt_buf_len = IP_LEN\<rparr>
             else \<lparr>in_class = InputRaw, in_offset = off, in_tail = tn, pkt_buf_len = ETH_LEN\<rparr>))"

definition is_raw :: "Input \<Rightarrow> bool" where
  "is_raw i \<longleftrightarrow> in_class i = InputRaw \<or> in_class i = InputRawJumbo"

definition is_sock :: "Input \<Rightarrow> bool" where
  "is_sock i \<longleftrightarrow> in_class i = InputSock \<or> in_class i = InputSockJumbo"

section \<open>The driver\<close>

record 'r Packet =
  pk_timestamp :: 'r
  pk_seq :: u32
  pk_is_difop :: u8
  pk_is_frame_begin :: u8
  pk_frame_id :: string
  pk_buf :: bytes

text \<open>Published packets and reported exceptions are lists; \<open>pkt_pool\<close> are the buffers of the receiving thread, \<open>put_limit\<close> is the time of the last report of an overflow.\<close>

record 'r Driver =
  driver_param :: "'r RSDriverParam"
  put_pkt_registered :: bool
  put_imu_registered :: bool
  decoder_ptr :: "'r AnyDecoder option"
  input_ptr :: "Input option"
  cb_feed_pkt :: "Input option"
  free_pkt_queue :: "Buffer option SyncQueue"
  pkt_queue :: "Buffer option SyncQueue"
  pkt_pool :: "Buffer option list"
  pkt_seq :: u32
  to_exit_handle :: bool
  init_flag :: bool
  start_flag :: bool
  put_limit :: "int option"
  drv_exceptions :: "ErrCode list"
  packets :: "'r Packet list"

text \<open>A new driver with queues of \<open>n\<close> slots, after the callbacks have been registered; it is not given its parameters yet.\<close>

definition mk_Driver :: "nat \<Rightarrow> bool \<Rightarrow> bool \<Rightarrow> 'r RSDriverParam \<Rightarrow> 'r Driver" where
  "mk_Driver n put_pkt put_imu p = \<lparr>driver_param = p, put_pkt_registered = put_pkt, put_imu_registered = put_imu, decoder_ptr = None,
     input_ptr = None, cb_feed_pkt = None, free_pkt_queue = mk_SyncQueue (replicate n None),
     pkt_queue = mk_SyncQueue (replicate n None), pkt_pool = [], pkt_seq = 0, to_exit_handle = False, init_flag = False, start_flag = False,
     put_limit = None, drv_exceptions = [], packets = []\<rparr>"

text \<open>\<open>input_init\<close> is what the system says when sockets or the file are opened; a raw input needs nothing. The user's functions
  are assumed to hand out a cloud and, if asked, an object for IMU data.\<close>

definition drv_init :: "(string \<Rightarrow> 'r::floor_ceiling option) \<Rightarrow> (string \<Rightarrow> string list option) \<Rightarrow> bool \<Rightarrow> 'r RSDriverParam
    \<Rightarrow> 'r Driver \<Rightarrow> (bool \<times> 'r Driver) option" where
  "drv_init stof files input_init p drv =
     (if init_flag drv then Some (True, drv)
      else do {
        dec \<leftarrow> createDecoder stof files (lidar_type p) (decoder_param p);
        let dec = dec\<lparr>write_pkt_ts := put_pkt_registered drv\<rparr>;
        let dec = dec\<lparr>point_cloud := []\<rparr>;
        let dec = (if put_imu_registered drv then dec\<lparr>imuDataPtr := Some new_ImuData, cb_imu_registered := True\<rparr> else dec);
        let i = createInput (input_type p) (input_param p) (isJumbo (lidar_type p));
        let drv = (if is_raw i then drv\<lparr>cb_feed_pkt := Some i\<rparr> else drv);
        if \<not> (is_raw i \<or> input_init) then Some (False, drv\<lparr>input_ptr := None, decoder_ptr := None\<rparr>)
        else Some (True, drv\<lparr>decoder_ptr := Some dec, input_ptr := Some i, driver_param := p, init_flag := True\<rparr>)
      })"

definition drv_start :: "'r Driver \<Rightarrow> bool \<times> 'r Driver" where
  "drv_start drv = (if start_flag drv then (True, drv) else if \<not> init_flag drv then (False, drv)
     else (True, drv\<lparr>to_exit_handle := False, pkt_pool := replicate 16 None, start_flag := True\<rparr>))"

definition drv_stop :: "'r Driver \<Rightarrow> 'r Driver option" where
  "drv_stop drv = (if \<not> start_flag drv then Some drv
     else do {
       dec \<leftarrow> decoder_ptr drv;
       Some (drv\<lparr>to_exit_handle := True, decoder_ptr := Some (dec\<lparr>point_cloud := []\<rparr>), start_flag := False\<rparr>)
     })"

definition drv_getTemperature :: "'r Driver \<Rightarrow> 'r option" where
  "drv_getTemperature drv = (case decoder_ptr drv of None \<Rightarrow> None | Some dec \<Rightarrow> getTemperature dec)"

definition drv_getDeviceInfo :: "'r Driver \<Rightarrow> 'r Rs_Decoder.DeviceInfo option" where
  "drv_getDeviceInfo drv = (case decoder_ptr drv of None \<Rightarrow> None | Some dec \<Rightarrow> getDeviceInfo dec)"

definition drv_getDeviceStatus :: "'r Driver \<Rightarrow> DeviceStatus option \<times> 'r Driver" where
  "drv_getDeviceStatus drv = (case decoder_ptr drv of None \<Rightarrow> (None, drv)
     | Some dec \<Rightarrow> (let (s, dec) = getDeviceStatus dec in (s, drv\<lparr>decoder_ptr := Some dec\<rparr>)))"

definition runPacketCallBack :: "bytes \<Rightarrow> 'r \<Rightarrow> u8 \<Rightarrow> u8 \<Rightarrow> 'r Driver \<Rightarrow> 'r Driver" where
  "runPacketCallBack dat ts difop frame_begin drv =
     (if put_pkt_registered drv
      then drv\<lparr>packets := packets drv @ [\<lparr>pk_timestamp = ts, pk_seq = pkt_seq drv, pk_is_difop = difop,
             pk_is_frame_begin = frame_begin, pk_frame_id = frame_id (driver_param drv), pk_buf = dat\<rparr>],
           pkt_seq := pkt_seq drv + 1\<rparr>
      else drv)"

section \<open>From the input to the queue\<close>

definition packetGet :: "nat \<Rightarrow> 'r Driver \<Rightarrow> Buffer \<times> 'r Driver" where
  "packetGet n drv =
     (let (pkt, q) = sq_pop (free_pkt_queue drv); drv = drv\<lparr>free_pkt_queue := q\<rparr>
      in case pkt of Some (Some b) \<Rightarrow> (b, drv) | _ \<Rightarrow> (mk_Buffer n, drv))"

text \<open>The result of \<^verbatim>\<open>push\<close> is cut to an \<^verbatim>\<open>int\<close>; \<open>now\<close> is the time in seconds.\<close>

definition packetPut :: "int \<Rightarrow> Buffer \<Rightarrow> bool \<Rightarrow> 'r Driver \<Rightarrow> 'r Driver" where
  "packetPut now b stuffed drv =
     (if \<not> stuffed then drv\<lparr>free_pkt_queue := snd (sq_push (Some b) (free_pkt_queue drv))\<rparr>
      else (let (r, q) = sq_push (Some b) (pkt_queue drv); drv = drv\<lparr>pkt_queue := q\<rparr>
            in if (ucast r :: u32) = -1
               then (let prev = (case put_limit drv of None \<Rightarrow> 0 | Some t \<Rightarrow> t);
                         drv = (if now - prev > 1
                                then drv\<lparr>drv_exceptions := drv_exceptions drv @ [ERRCODE_PKTBUFOVERFLOW], put_limit := Some now\<rparr>
                                else drv\<lparr>put_limit := Some prev\<rparr>)
                     in drv\<lparr>pkt_queue := sq_clear (pkt_queue drv)\<rparr>)
               else drv))"

definition decodePacket :: "int \<Rightarrow> bytes \<Rightarrow> 'r Driver \<Rightarrow> 'r Driver option" where
  "decodePacket now dat drv = do {
     i \<leftarrow> cb_feed_pkt drv;
     let (b, drv) = packetGet (pkt_buf_len i) drv;
     b \<leftarrow> feedPacket (in_offset i) (in_tail i) dat b;
     Some (packetPut now b True drv)
   }"

text \<open>A socket of the input is readable: with \<^verbatim>\<open>epoll\<close>, one datagram is read; with \<^verbatim>\<open>select\<close>, up to 16 at once, each into its buffer of a pool
  in which the buffers that were put into the queue are replaced, and a datagram without a packet is left in its buffer.\<close>

definition recvPacket :: "int \<Rightarrow> sock \<Rightarrow> (sock \<Rightarrow> bytes list) \<Rightarrow> 'r Driver \<Rightarrow> 'r Driver option" where
  "recvPacket now s socks drv = do {
     i \<leftarrow> input_ptr drv;
     let (b, drv) = packetGet (pkt_buf_len i) drv;
     let (stop, pkt, socks) = epoll_event (in_offset i) (in_tail i) b s socks;
     Some (case pkt of None \<Rightarrow> drv | Some b \<Rightarrow> packetPut now b True drv)
   }"

fun fillPool :: "nat \<Rightarrow> Buffer option list \<Rightarrow> 'r Driver \<Rightarrow> Buffer list \<times> 'r Driver" where
  "fillPool n [] drv = ([], drv)"
| "fillPool n (p # ps) drv =
     (let (b, drv) = (case p of None \<Rightarrow> packetGet n drv | Some b \<Rightarrow> (b, drv)); (bs, drv) = fillPool n ps drv in (b # bs, drv))"

fun takeBatch :: "int \<Rightarrow> Input \<Rightarrow> bytes list \<Rightarrow> Buffer list \<Rightarrow> 'r Driver \<Rightarrow> Buffer option list \<times> 'r Driver" where
  "takeBatch now i (dg # dgs) (b # bs) drv =
     (let (n, b) = recvfrom dg b
      in if n > in_offset i + in_tail i
         then (let drv = packetPut now (setData (in_offset i) (n - in_offset i - in_tail i) b) True drv;
                   (ps, drv) = takeBatch now i dgs bs drv in (None # ps, drv))
         else (let (ps, drv) = takeBatch now i dgs bs drv in (Some b # ps, drv)))"
| "takeBatch now i dgs bs drv = (map Some bs, drv)"

definition recvBatch :: "int \<Rightarrow> bytes list \<Rightarrow> 'r Driver \<Rightarrow> 'r Driver option" where
  "recvBatch now dgs drv = do {
     i \<leftarrow> input_ptr drv;
     let (bs, drv) = fillPool (pkt_buf_len i) (pkt_pool drv) drv;
     let (ps, drv) = takeBatch now i (take 16 dgs) bs drv;
     Some (drv\<lparr>pkt_pool := ps\<rparr>)
   }"

section \<open>From the queue to the decoder\<close>

datatype pkt_kind = MsopPkt | DifopPkt | ImuPkt | OtherPkt

definition header_kind :: "bytes \<Rightarrow> pkt_kind option" where
  "header_kind m = do {
     i \<leftarrow> rd m 0 2;
     k \<leftarrow> (if i = [0x5A, 0xFF] then map_option Some (nth_opt m 5) else Some None);
     Some (if i = [0x55, 0xAA] \<or> k = Some 1 then MsopPkt
           else if i = [0xA5, 0xFF] \<or> k = Some 3 then DifopPkt
           else if i = [0xAA, 0x55] \<or> k = Some 2 then ImuPkt else OtherPkt)
   }"

definition drv_isNewFrame :: "bytes \<Rightarrow> 'r::floor_ceiling Driver \<Rightarrow> (bool \<times> 'r Driver) option" where
  "drv_isNewFrame m drv =
     (case decoder_ptr drv of
        None \<Rightarrow> Some (False, drv)
      | Some dec \<Rightarrow> do {
          kind \<leftarrow> header_kind m;
          if kind = MsopPkt then do { (v, dec) \<leftarrow> isNewFrame m dec; Some (v, drv\<lparr>decoder_ptr := Some dec\<rparr>) } else Some (False, drv)
        })"

text \<open>A packet of a file that passes the filter of its kind; how long the reader waits after a frame is left out.\<close>

definition pcapPacket :: "int \<Rightarrow> sock \<Rightarrow> nat \<Rightarrow> bytes \<Rightarrow> 'r::floor_ceiling Driver \<Rightarrow> 'r Driver option" where
  "pcapPacket now s len cap drv = do {
     i \<leftarrow> input_ptr drv;
     let err = (case s of MSOP_SOCK \<Rightarrow> ERRCODE_WRONGMSOPPCAPPARSE | DIFOP_SOCK \<Rightarrow> ERRCODE_WRONGDIFOPPCAPPARSE
       | IMU_SOCK \<Rightarrow> ERRCODE_WRONGIMUPCAPPARSE);
     if int len - int (in_offset i) - int (in_tail i) < 0 then Some (drv\<lparr>drv_exceptions := drv_exceptions drv @ [err]\<rparr>)
     else do {
       let (b, drv) = packetGet ETH_LEN drv;
       r \<leftarrow> pcap_take (in_offset i) (in_tail i) len cap b;
       case r of
         Inl _ \<Rightarrow> Some (drv\<lparr>drv_exceptions := drv_exceptions drv @ [err]\<rparr>)
       | Inr b \<Rightarrow> do {
           (v, drv) \<leftarrow> (if s = MSOP_SOCK then drv_isNewFrame (data_mem b) drv else Some (False, drv));
           Some (packetPut now b True drv)
         }
     }
   }"

text \<open>One packet of the queue. The decoder may write into the packet, so the buffer is a result, too.\<close>

definition handlePacket :: "(nat \<Rightarrow> 'r::floor_ceiling host) \<Rightarrow> Buffer \<Rightarrow> 'r Driver \<Rightarrow> (Buffer \<times> 'r Driver) option" where
  "handlePacket hs b drv = do {
     kind \<leftarrow> header_kind (data_mem b);
     case kind of
       MsopPkt \<Rightarrow> do {
         dec \<leftarrow> decoder_ptr drv; dat \<leftarrow> rd (buf b) (data_off b) (data_size b);
         (pkt_to_split, dat, dec) \<leftarrow> processMsopPkt (decodeMsopPkt hs) (hs 0) dat dec;
         m \<leftarrow> wr (buf b) (data_off b) dat;
         Some (b\<lparr>buf := m\<rparr>, runPacketCallBack dat (prev_pkt_ts dec) 0 (of_bool pkt_to_split) (drv\<lparr>decoder_ptr := Some dec\<rparr>))
       }
     | DifopPkt \<Rightarrow> do {
         dec \<leftarrow> decoder_ptr drv; dat \<leftarrow> rd (buf b) (data_off b) (data_size b);
         dec \<leftarrow> processDifopPkt (decodeDifopPkt (hs 0)) (hs 0) dat dec;
         Some (b, runPacketCallBack dat 0 1 0 (drv\<lparr>decoder_ptr := Some dec\<rparr>))
       }
     | ImuPkt \<Rightarrow> do {
         dec \<leftarrow> decoder_ptr drv; dat \<leftarrow> rd (buf b) (data_off b) (data_size b);
         (ret, dec) \<leftarrow> processImuPkt (decodeImuPkt (hs 0)) (hs 0) dat dec;
         Some (b, drv\<lparr>decoder_ptr := Some dec\<rparr>)
       }
     | OtherPkt \<Rightarrow> Some (b, drv)
   }"

definition internalProcessPacket :: "(nat \<Rightarrow> 'r::floor_ceiling host) \<Rightarrow> Buffer option \<Rightarrow> 'r Driver \<Rightarrow> 'r Driver option" where
  "internalProcessPacket hs pkt drv = do {
     b \<leftarrow> pkt;
     (b, drv) \<leftarrow> handlePacket hs b drv;
     Some (drv\<lparr>free_pkt_queue := snd (sq_push (Some b) (free_pkt_queue drv))\<rparr>)
   }"

text \<open>One round of the loop of \<^verbatim>\<open>processPacket\<close>; \<open>hss i\<close> is the host at the \<open>i\<close>-th packet of the batch.\<close>

fun processBatch :: "(nat \<Rightarrow> nat \<Rightarrow> 'r::floor_ceiling host) \<Rightarrow> Buffer option list \<Rightarrow> 'r Driver \<Rightarrow> 'r Driver option" where
  "processBatch hss [] drv = Some drv"
| "processBatch hss (pkt # pkts) drv = do {
     drv \<leftarrow> internalProcessPacket (hss 0) pkt drv;
     processBatch (\<lambda>i. hss (Suc i)) pkts drv
   }"

definition processRound :: "(nat \<Rightarrow> nat \<Rightarrow> 'r::floor_ceiling host) \<Rightarrow> 'r Driver \<Rightarrow> 'r Driver option" where
  "processRound hss drv =
     (if to_exit_handle drv \<or> \<not> start_flag drv then Some drv
      else (let (n, batch, q) = sq_popBatch [] 50 [] (pkt_queue drv) in processBatch hss batch (drv\<lparr>pkt_queue := q\<rparr>)))"

section \<open>The state of a running driver\<close>

text \<open>A buffer of an input, and one with a packet that the decoder of a lidar can take.\<close>

definition shape :: "Input \<Rightarrow> Buffer \<Rightarrow> bool" where
  "shape i b \<longleftrightarrow> bufSize b = pkt_buf_len i \<and> (data_off b = 0 \<or> is_sock i \<and> data_off b = in_offset i)"

definition readable :: "LidarType \<Rightarrow> Buffer \<Rightarrow> bool" where
  "readable t b \<longleftrightarrow> buffer_ok b \<and> data_off b + 6 \<le> bufSize b \<and> difop_fits t (packet_of b) \<and> any_imu_fits t (packet_of b)"

definition free_ok :: "nat \<Rightarrow> Input \<Rightarrow> Buffer option SyncQueue \<Rightarrow> bool" where
  "free_ok n i q \<longleftrightarrow> sq_inv n q \<and> n < 2 ^ 31 \<and> (\<forall>x \<in> set (sq_list q). \<exists>b. x = Some b \<and> shape i b)"

definition queue_ok :: "nat \<Rightarrow> Input \<Rightarrow> LidarType \<Rightarrow> Buffer option SyncQueue \<Rightarrow> bool" where
  "queue_ok n i t q \<longleftrightarrow> sq_inv n q \<and> n < 2 ^ 31 \<and> (\<forall>x \<in> set (sq_list q). \<exists>b. x = Some b \<and> shape i b \<and> readable t b)"

definition drv_ok :: "nat \<Rightarrow> Input \<Rightarrow> LidarType \<Rightarrow> 'r::floor_ceiling Driver \<Rightarrow> bool" where
  "drv_ok n i t drv \<longleftrightarrow> input_ptr drv = Some i \<and> (is_raw i \<longrightarrow> cb_feed_pkt drv = Some i) \<and>
     (\<exists>d. decoder_ptr drv = Some d \<and> any_ok t d) \<and> queue_ok n i t (pkt_queue drv) \<and> free_ok n i (free_pkt_queue drv) \<and>
     (\<forall>b. Some b \<in> set (pkt_pool drv) \<longrightarrow> shape i b) \<and> map pk_seq (packets drv) = map of_nat [0..<length (packets drv)] \<and> pkt_seq drv = of_nat (length (packets drv))"

text \<open>What is published: MSOP and DIFOP packets, in their order and numbered, with what the header says.\<close>

definition published :: "Buffer \<Rightarrow> bool" where
  "published b \<longleftrightarrow> header_kind (data_mem b) \<in> {Some MsopPkt, Some DifopPkt}"

definition publishes :: "Buffer \<Rightarrow> 'r Packet \<Rightarrow> bool" where
  "publishes b p \<longleftrightarrow> length (pk_buf p) = data_size b \<and>
     (if header_kind (data_mem b) = Some DifopPkt then pk_is_difop p = 1 \<and> pk_is_frame_begin p = 0 \<and> pk_buf p = packet_of b
      else pk_is_difop p = 0)"

definition new_packets :: "bool \<Rightarrow> u32 \<Rightarrow> Buffer list \<Rightarrow> 'r Packet list \<Rightarrow> bool" where
  "new_packets registered n bs ps \<longleftrightarrow>
     (if registered then list_all2 publishes (filter published bs) ps \<and> map pk_seq ps = map (\<lambda>i. n + of_nat i) [0..<length ps]
      else ps = [])"

lemma new_packets_Nil [simp]: "new_packets r n [] []"
  by (simp add: new_packets_def)

lemma new_packets_append:
  assumes "new_packets r n bs ps" and "new_packets r (n + of_nat (length ps)) cs qs"
  shows "new_packets r n (bs @ cs) (ps @ qs)"
proof (cases r)
  case True
  have "map (\<lambda>i. n + of_nat (length ps) + of_nat i) [0..<length qs] = map (\<lambda>i. n + of_nat i) [length ps..<length ps + length qs]"
    by (rule nth_equalityI) (simp_all add: add.assoc)
  moreover have "map pk_seq ps = map (\<lambda>i. n + of_nat i) [0..<length ps]"
    "map pk_seq qs = map (\<lambda>i. n + of_nat (length ps) + of_nat i) [0..<length qs]"
    using assms True by (simp_all add: new_packets_def)
  ultimately have "map pk_seq (ps @ qs) = map (\<lambda>i. n + of_nat i) [0..<length (ps @ qs)]"
    unfolding length_append upt_add_eq_append [OF le0] map_append by metis
  moreover have "list_all2 publishes (filter published bs @ filter published cs) (ps @ qs)"
    using assms True by (intro list_all2_appendI) (simp_all add: new_packets_def)
  ultimately show ?thesis using True by (simp only: new_packets_def filter_append if_True)
qed (use assms in \<open>simp add: new_packets_def\<close>)

lemma wr_rd_back: "rd m off n = Some dat \<Longrightarrow> length dat' = n \<Longrightarrow> \<exists>m'. wr m off dat' = Some m' \<and> length m' = length m"
  by (intro wr_fits) (auto simp: rd_Some_iff)

lemma readable_data:
  assumes "readable t b"
  shows "rd (buf b) (data_off b) (data_size b) = Some (packet_of b)" and "\<exists>k. header_kind (data_mem b) = Some k"
    and "length (packet_of b) = data_size b"
  using assms by (auto simp: readable_def buffer_ok_def packet_of_def data_mem_def rd_def header_kind_def)

lemma runPacketCallBack_new:
  assumes "published b" and "publishes b \<lparr>pk_timestamp = ts, pk_seq = pkt_seq drv, pk_is_difop = k, pk_is_frame_begin = f,
    pk_frame_id = frame_id (driver_param drv), pk_buf = dat\<rparr>"
  shows "\<exists>ps. runPacketCallBack dat ts k f drv = drv\<lparr>pkt_seq := pkt_seq drv + of_nat (length ps), packets := packets drv @ ps\<rparr> \<and>
    new_packets (put_pkt_registered drv) (pkt_seq drv) [b] ps"
proof (cases "put_pkt_registered drv")
  case True
  then show ?thesis using assms
    by (intro exI [of _ "[\<lparr>pk_timestamp = ts, pk_seq = pkt_seq drv, pk_is_difop = k, pk_is_frame_begin = f,
      pk_frame_id = frame_id (driver_param drv), pk_buf = dat\<rparr>]"]) (simp add: runPacketCallBack_def new_packets_def)
qed (auto simp: runPacketCallBack_def new_packets_def intro!: exI [of _ "[]"])

lemma handlePacket_ok:
  assumes "shape i b" and "readable t b" and "decoder_ptr drv = Some d" and "any_ok t d"
  shows "\<exists>b' d' ps. handlePacket hs b drv = Some (b', drv\<lparr>decoder_ptr := Some d', pkt_seq := pkt_seq drv + of_nat (length ps),
      packets := packets drv @ ps\<rparr>) \<and> any_ok t d' \<and> shape i b' \<and> new_packets (put_pkt_registered drv) (pkt_seq drv) [b] ps"
proof -
  note rd = readable_data [OF assms(2)]
  obtain k where k: "header_kind (data_mem b) = Some k" using rd(2) by blast
  show ?thesis
  proof (cases k)
    case MsopPkt
    obtain ret dat d' where p: "processMsopPkt (decodeMsopPkt hs) (hs 0) (packet_of b) d = Some (ret, dat, d')"
      "length dat = length (packet_of b)" "any_ok t d'" using any.processMsopPkt_ok [OF assms(4)] by blast
    obtain m where m: "wr (buf b) (data_off b) dat = Some m" "length m = bufSize b"
      using wr_rd_back [OF rd(1), of dat] p(2) rd(3) by auto
    obtain ps where "runPacketCallBack dat (prev_pkt_ts d') 0 (of_bool ret) (drv\<lparr>decoder_ptr := Some d'\<rparr>) =
        drv\<lparr>decoder_ptr := Some d', pkt_seq := pkt_seq drv + of_nat (length ps), packets := packets drv @ ps\<rparr>"
      "new_packets (put_pkt_registered drv) (pkt_seq drv) [b] ps"
      using runPacketCallBack_new [of b "prev_pkt_ts d'" "drv\<lparr>decoder_ptr := Some d'\<rparr>" 0 "of_bool ret" dat] k MsopPkt p(2) rd(3)
      by (auto simp: published_def publishes_def)
    then show ?thesis using k MsopPkt rd(1) p m assms(1,3) by (fastforce simp: handlePacket_def shape_def)
  next
    case DifopPkt
    obtain d' where p: "processDifopPkt (decodeDifopPkt (hs 0)) (hs 0) (packet_of b) d = Some d'" "any_ok t d'"
      using any_processDifop_ok [OF assms(4)] assms(2) by (auto simp: readable_def)
    obtain ps where "runPacketCallBack (packet_of b) 0 1 0 (drv\<lparr>decoder_ptr := Some d'\<rparr>) =
        drv\<lparr>decoder_ptr := Some d', pkt_seq := pkt_seq drv + of_nat (length ps), packets := packets drv @ ps\<rparr>"
      "new_packets (put_pkt_registered drv) (pkt_seq drv) [b] ps"
      using runPacketCallBack_new [of b 0 "drv\<lparr>decoder_ptr := Some d'\<rparr>" 1 0 "packet_of b"] k DifopPkt rd(3)
      by (auto simp: published_def publishes_def)
    then show ?thesis using k DifopPkt rd(1) p assms(1,3) by (fastforce simp: handlePacket_def)
  next
    case ImuPkt
    obtain ret d' where p: "processImuPkt (decodeImuPkt (hs 0)) (hs 0) (packet_of b) d = Some (ret, d')" "any_ok t d'"
      using any_processImu_ok [OF assms(4), of "packet_of b" "hs 0"] assms(2) by (auto simp: readable_def)
    then show ?thesis using k ImuPkt rd(1) assms(1,3)
      by (intro exI [of _ b] exI [of _ d'] exI [of _ "[]"]) (simp add: handlePacket_def new_packets_def published_def)
  next
    case OtherPkt
    then show ?thesis using k assms
      by (intro exI [of _ b] exI [of _ d] exI [of _ "[]"]) (simp add: handlePacket_def new_packets_def published_def)
  qed
qed

lemma free_push:
  assumes "free_ok n i q" and "shape i b"
  shows "free_ok n i (snd (sq_push (Some b) q))"
proof -
  have "n < 2 ^ 64" using assms(1) by (simp add: free_ok_def)
  then show ?thesis using sq_push_cases [of n q "Some b"] assms by (auto simp: free_ok_def)
qed

lemma processBatch_ok:
  assumes "\<forall>b \<in> set bs. shape i b \<and> readable t b" and "decoder_ptr drv = Some d" and "any_ok t d" and "free_ok n i (free_pkt_queue drv)"
  shows "\<exists>d' q ps. processBatch hss (map Some bs) drv = Some (drv\<lparr>decoder_ptr := Some d', free_pkt_queue := q,
      pkt_seq := pkt_seq drv + of_nat (length ps), packets := packets drv @ ps\<rparr>) \<and> any_ok t d' \<and> free_ok n i q \<and>
      new_packets (put_pkt_registered drv) (pkt_seq drv) bs ps"
  using assms
proof (induction bs arbitrary: drv d hss)
  case Nil
  then show ?case by (intro exI [of _ d] exI [of _ "free_pkt_queue drv"] exI [of _ "[]"]) simp
next
  case (Cons b bs)
  obtain b' d' ps where h: "handlePacket (hss 0) b drv = Some (b', drv\<lparr>decoder_ptr := Some d',
      pkt_seq := pkt_seq drv + of_nat (length ps), packets := packets drv @ ps\<rparr>)" "any_ok t d'" "shape i b'"
    "new_packets (put_pkt_registered drv) (pkt_seq drv) [b] ps"
    using handlePacket_ok [of i b t drv d "hss 0"] Cons.prems by auto
  define e where "e = drv\<lparr>decoder_ptr := Some d', free_pkt_queue := snd (sq_push (Some b') (free_pkt_queue drv)),
      pkt_seq := pkt_seq drv + of_nat (length ps), packets := packets drv @ ps\<rparr>"
  have e: "internalProcessPacket (hss 0) (Some b) drv = Some e" using h(1) by (simp add: internalProcessPacket_def e_def)
  have "free_ok n i (free_pkt_queue e)" using free_push [OF Cons.prems(4) h(3)] by (simp add: e_def)
  then obtain d'' q qs where r: "processBatch (\<lambda>j. hss (Suc j)) (map Some bs) e = Some (e\<lparr>decoder_ptr := Some d'', free_pkt_queue := q,
      pkt_seq := pkt_seq e + of_nat (length qs), packets := packets e @ qs\<rparr>)" "any_ok t d''" "free_ok n i q"
    "new_packets (put_pkt_registered e) (pkt_seq e) bs qs"
    using Cons.IH [of e d' "\<lambda>j. hss (Suc j)"] Cons.prems(1) h(2) by (auto simp: e_def)
  have "new_packets (put_pkt_registered drv) (pkt_seq drv) ([b] @ bs) (ps @ qs)"
    using new_packets_append [OF h(4)] r(4) by (simp add: e_def)
  then show ?case using e r(1-3)
    by (intro exI [of _ d''] exI [of _ q] exI [of _ "ps @ qs"]) (simp add: e_def add.assoc)
qed

text \<open>A round takes the oldest packets of the queue, at most 50.\<close>

lemma popBatch_oldest:
  assumes "sq_inv n q"
  shows "\<exists>k q'. sq_popBatch [] m [] q = (k, take m (sq_list q), q') \<and> sq_list q' = drop m (sq_list q) \<and> sq_inv n q'"
proof (cases "head_idx q = tail_idx q")
  case True
  then have "sq_list q = []" using sq_empty_iff [OF assms] by (simp add: sq_list_def)
  then show ?thesis using True assms by auto
next
  case False
  then show ?thesis using sq_take_eq [OF assms, of m "[]"] by auto
qed

lemma processRound_ok:
  assumes "drv_ok n i t drv" and "start_flag drv" and "\<not> to_exit_handle drv"
  obtains bs d' q f ps where "map Some bs = take 50 (sq_list (pkt_queue drv))"
    "processRound hss drv = Some (drv\<lparr>pkt_queue := q, decoder_ptr := Some d', free_pkt_queue := f,
       pkt_seq := pkt_seq drv + of_nat (length ps), packets := packets drv @ ps\<rparr>)"
    "any_ok t d'" "free_ok n i f" "sq_list q = drop 50 (sq_list (pkt_queue drv))" "queue_ok n i t q"
    "new_packets (put_pkt_registered drv) (pkt_seq drv) bs ps"
proof -
  obtain d where d: "decoder_ptr drv = Some d" "any_ok t d" using assms(1) by (auto simp: drv_ok_def)
  have q: "queue_ok n i t (pkt_queue drv)" "free_ok n i (free_pkt_queue drv)" using assms(1) by (simp_all add: drv_ok_def)
  obtain k q' where p: "sq_popBatch [] 50 [] (pkt_queue drv) = (k, take 50 (sq_list (pkt_queue drv)), q')"
    "sq_list q' = drop 50 (sq_list (pkt_queue drv))" "sq_inv n q'"
    using popBatch_oldest [of n "pkt_queue drv" 50] q(1) unfolding queue_ok_def by blast
  define bs where "bs = map the (take 50 (sq_list (pkt_queue drv)))"
  have g: "\<forall>x \<in> set (take 50 (sq_list (pkt_queue drv))). \<exists>b. x = Some b \<and> shape i b \<and> readable t b"
    using q(1) by (auto simp: queue_ok_def dest: in_set_takeD)
  then have bs: "map Some bs = take 50 (sq_list (pkt_queue drv))" "\<forall>b \<in> set bs. shape i b \<and> readable t b"
    unfolding bs_def by (auto intro!: map_idI)
  obtain d' f ps where r: "processBatch hss (map Some bs) (drv\<lparr>pkt_queue := q'\<rparr>) = Some (drv\<lparr>pkt_queue := q', decoder_ptr := Some d',
      free_pkt_queue := f, pkt_seq := pkt_seq drv + of_nat (length ps), packets := packets drv @ ps\<rparr>)"
    "any_ok t d'" "free_ok n i f" "new_packets (put_pkt_registered drv) (pkt_seq drv) bs ps"
    using processBatch_ok [OF bs(2), where drv = "drv\<lparr>pkt_queue := q'\<rparr>" and hss = hss and d = d and n = n] d q(2) by auto
  have "queue_ok n i t q'" using q(1) p(2,3) by (auto simp: queue_ok_def dest: in_set_dropD)
  then show thesis using that [OF bs(1) _ r(2,3) p(2) _ r(4)] r(1) assms(2,3) p(1) bs(1) by (simp add: processRound_def)
qed

lemma numbered_append:
  assumes "map pk_seq ps = map of_nat [0..<length ps]" and "n = of_nat (length ps)" and "new_packets r n bs qs"
  shows "map pk_seq (ps @ qs) = map of_nat [0..<length (ps @ qs)]"
proof -
  have "map (\<lambda>i. n + of_nat i) [0..<length qs] = map of_nat [length ps..<length ps + length qs]"
    by (rule nth_equalityI) (simp_all add: assms(2))
  moreover have "map pk_seq qs = map (\<lambda>i. n + of_nat i) [0..<length qs]" using assms(3) by (auto simp: new_packets_def split: if_splits)
  ultimately show ?thesis unfolding length_append upt_add_eq_append [OF le0] map_append using assms(1) by metis
qed

lemma processRound_drv_ok:
  assumes "drv_ok n i t drv"
  shows "\<exists>drv'. processRound hss drv = Some drv' \<and> drv_ok n i t drv'"
proof (cases "start_flag drv \<and> \<not> to_exit_handle drv")
  case True
  then obtain bs d' q f ps where r: "processRound hss drv = Some (drv\<lparr>pkt_queue := q, decoder_ptr := Some d', free_pkt_queue := f,
       pkt_seq := pkt_seq drv + of_nat (length ps), packets := packets drv @ ps\<rparr>)"
    "any_ok t d'" "free_ok n i f" "queue_ok n i t q" "new_packets (put_pkt_registered drv) (pkt_seq drv) bs ps"
    using processRound_ok [OF assms] by metis
  have "map pk_seq (packets drv @ ps) = map of_nat [0..<length (packets drv @ ps)]"
    using numbered_append [OF _ _ r(5)] assms by (simp add: drv_ok_def)
  then show ?thesis using r(1-4) assms by (simp add: drv_ok_def)
next
  case False
  then show ?thesis using assms by (auto simp: processRound_def)
qed

section \<open>Packets from the input\<close>

lemma packetGet_ok:
  assumes "drv_ok n i t drv" and "packetGet (pkt_buf_len i) drv = (b, drv')"
  shows "drv_ok n i t drv'" and "shape i b"
proof -
  have f: "free_ok n i (free_pkt_queue drv)" using assms(1) by (simp add: drv_ok_def)
  then have "sq_inv n (free_pkt_queue drv)" by (simp add: free_ok_def)
  from sq_pop_cases [OF this] have "drv_ok n i t drv' \<and> shape i b"
  proof
    assume "sq_list (free_pkt_queue drv) = [] \<and> sq_pop (free_pkt_queue drv) = (None, free_pkt_queue drv)"
    then show ?thesis using assms by (auto simp: packetGet_def shape_def mk_Buffer_def)
  next
    assume "\<exists>v s'. sq_pop (free_pkt_queue drv) = (Some v, s') \<and> sq_list (free_pkt_queue drv) = v # sq_list s' \<and> sq_inv n s'"
    then obtain v q where q: "sq_pop (free_pkt_queue drv) = (Some v, q)" "sq_list (free_pkt_queue drv) = v # sq_list q" "sq_inv n q" by blast
    then show ?thesis using f assms by (auto simp: packetGet_def free_ok_def drv_ok_def)
  qed
  then show "drv_ok n i t drv'" "shape i b" by simp_all
qed

definition overflow :: "int \<Rightarrow> 'r Driver \<Rightarrow> 'r Driver" where
  "overflow now drv = (let prev = (case put_limit drv of None \<Rightarrow> 0 | Some s \<Rightarrow> s)
     in drv\<lparr>pkt_queue := sq_clear (pkt_queue drv), put_limit := Some (if now - prev > 1 then now else prev),
       drv_exceptions := drv_exceptions drv @ (if now - prev > 1 then [ERRCODE_PKTBUFOVERFLOW] else [])\<rparr>)"

text \<open>A put appends the packet, or, if the queue is full, empties the queue and reports it.\<close>

lemma int_of_push:
  assumes "k < 2 ^ 31"
  shows "(ucast (of_nat k :: u64) :: u32) \<noteq> -1"
proof
  assume e: "(ucast (of_nat k :: u64) :: u32) = -1"
  have "unat (ucast (of_nat k :: u64) :: u32) = k" using assms by (simp add: unsigned_ucast_eq unsigned_take_bit_eq unat_of_nat take_bit_nat_eq_self)
  moreover have "unat (-1 :: u32) = 2 ^ 32 - 1" by (simp add: unsigned_minus_1_eq_mask mask_eq_exp_minus_1)
  ultimately show False using assms e by simp
qed

lemma packetPut_cases:
  assumes "sq_inv n (pkt_queue drv)" and "n < 2 ^ 31"
  shows "(sq_size (pkt_queue drv) < n - 1 \<and> (\<exists>q. packetPut now b True drv = drv\<lparr>pkt_queue := q\<rparr> \<and> sq_inv n q \<and>
      sq_list q = sq_list (pkt_queue drv) @ [Some b])) \<or>
    (sq_size (pkt_queue drv) = n - 1 \<and> packetPut now b True drv = overflow now drv \<and> sq_inv n (sq_clear (pkt_queue drv)) \<and>
      sq_list (sq_clear (pkt_queue drv)) = [])"
proof -
  let ?q = "pkt_queue drv"
  have n: "n < 2 ^ 64" using assms(2) by simp
  have c: "sq_inv n (sq_clear ?q)" "sq_list (sq_clear ?q) = []"
    using assms(1) by (auto simp: sq_inv_def sq_clear_def sq_list_def sq_size_def)
  from sq_push_cases [OF assms(1) n, of "Some b"] show ?thesis
  proof
    assume "sq_size ?q = n - 1 \<and> sq_push (Some b) ?q = (-1, ?q)"
    moreover have "(ucast (-1 :: u64) :: u32) = -1" by code_simp
    ultimately show ?thesis using c by (simp add: packetPut_def overflow_def Let_def)
  next
    assume "sq_size ?q < n - 1 \<and> (\<exists>s'. sq_push (Some b) ?q = (of_nat (sq_size ?q + 1), s') \<and>
      of_nat (sq_size ?q + 1) \<noteq> (-1 :: u64) \<and> sq_list s' = sq_list ?q @ [Some b] \<and> sq_inv n s')"
    then obtain s' where s: "sq_size ?q < n - 1" "sq_push (Some b) ?q = (of_nat (sq_size ?q + 1), s')"
      "sq_list s' = sq_list ?q @ [Some b]" "sq_inv n s'" by blast
    moreover have "(ucast (of_nat (sq_size ?q + 1) :: u64) :: u32) \<noteq> -1" using s(1) assms(2) by (intro int_of_push) simp
    ultimately show ?thesis by (auto simp: packetPut_def Let_def intro!: exI [of _ s'] simp del: of_nat_Suc of_nat_add)
  qed
qed

lemma packetPut_ok:
  assumes "drv_ok n i t drv" and "shape i b" and "readable t b"
  shows "drv_ok n i t (packetPut now b True drv)"
proof -
  have "sq_inv n (pkt_queue drv)" "n < 2 ^ 31" using assms(1) by (simp_all add: drv_ok_def queue_ok_def)
  from packetPut_cases [OF this, of now b] show ?thesis using assms by (auto simp: drv_ok_def queue_ok_def overflow_def Let_def)
qed

definition takes :: "LidarType \<Rightarrow> bytes \<Rightarrow> bool" where
  "takes t pkt \<longleftrightarrow> difop_fits t pkt \<and> any_imu_fits t pkt"

definition input_ok :: "Input \<Rightarrow> bool" where
  "input_ok i \<longleftrightarrow> in_offset i < 2 ^ 16 + 46 \<and> in_tail i < 2 ^ 16 \<and> ETH_LEN \<le> pkt_buf_len i \<and> pkt_buf_len i \<le> IP_LEN \<and>
     (in_class i = InputPcap \<longrightarrow> pkt_buf_len i = ETH_LEN)"

lemma createInput_ok: "input_ok (createInput ty p jumbo)"
  using unat_less [of "user_layer_bytes p"] unat_less [of "tail_layer_bytes p"]
  by (auto simp: input_ok_def createInput_def Let_def split: InputType.split)

lemma decodePacket_ok:
  assumes "drv_ok n i t drv" and "input_ok i" and "is_raw i" and "in_offset i + in_tail i \<le> length dat"
    and "length dat - in_offset i - in_tail i \<le> pkt_buf_len i" and "length dat < 2 ^ 63"
    and "takes t (middle (in_offset i) (in_tail i) dat)"
  shows "\<exists>drv'. decodePacket now dat drv = Some drv' \<and> drv_ok n i t drv'"
proof -
  obtain b d where g: "packetGet (pkt_buf_len i) drv = (b, d)" by force
  note k = packetGet_ok [OF assms(1) g]
  have b: "data_off b = 0" "bufSize b = pkt_buf_len i" using k(2) assms(3) by (auto simp: shape_def is_raw_def is_sock_def)
  have "in_offset i + in_tail i < 2 ^ 17 + 46" using assms(2) by (simp add: input_ok_def)
  obtain b' where f: "feedPacket (in_offset i) (in_tail i) dat b = Some b'"
    "packet_of b' = middle (in_offset i) (in_tail i) dat" "buffer_ok b'" "bufSize b' = bufSize b"
    using feed_in_bounds [OF assms(4) _ assms(6) b(1)] assms(5) b(2) by auto
  have o: "data_off b' = 0" using f(1) by (auto simp: feedPacket_def setData_def Let_def split: bind_splits)
  have "shape i b'" "readable t b'" using f b o assms(2,7) by (auto simp: shape_def readable_def takes_def input_ok_def)
  then have "drv_ok n i t (packetPut now b' True d)" using packetPut_ok [OF k(1)] by blast
  then show ?thesis using assms(1,3) f(1) g by (auto simp: decodePacket_def drv_ok_def)
qed

lemma recvPacket_ok:
  assumes "drv_ok n i t drv" and "input_ok i" and "is_sock i" and "in_offset i + 6 \<le> pkt_buf_len i"
    and "\<And>dg dgs. socks (epoll_fd s) = dg # dgs \<Longrightarrow> in_offset i + in_tail i \<le> min (length dg) (pkt_buf_len i) \<and>
      takes t (middle (in_offset i) (in_tail i) (take (pkt_buf_len i) dg))"
  shows "\<exists>drv'. recvPacket now s socks drv = Some drv' \<and> drv_ok n i t drv'"
proof -
  obtain b d where g: "packetGet (pkt_buf_len i) drv = (b, d)" by force
  note k = packetGet_ok [OF assms(1) g]
  have i: "input_ptr drv = Some i" using assms(1) by (simp add: drv_ok_def)
  show ?thesis
  proof (cases "socks (epoll_fd s)")
    case Nil
    then show ?thesis using g i k(1) by (simp add: recvPacket_def epoll_event_def)
  next
    case (Cons dg dgs)
    let ?n = "min (length dg) (pkt_buf_len i)"
    have d: "in_offset i + in_tail i \<le> ?n" "takes t (middle (in_offset i) (in_tail i) (take (pkt_buf_len i) dg))"
      using assms(5) [OF Cons] by simp_all
    let ?b = "setData (in_offset i) (?n - in_offset i - in_tail i) (b\<lparr>buf := take ?n dg @ drop ?n (buf b)\<rparr>)"
    have "?n < 2 ^ 64" using assms(2) by (auto simp: input_ok_def min_def)
    then have u: "unat (of_nat ?n - of_nat (in_offset i) - of_nat (in_tail i) :: u64) = ?n - in_offset i - in_tail i"
      using size_t_diff [OF d(1)] by blast
    have e: "epoll_event (in_offset i) (in_tail i) b s socks =
        (False, if ?n > 0 then Some ?b else None, socks(epoll_fd s := dgs))"
      using Cons k(2) u by (auto simp: epoll_event_def recvfrom_def shape_def Let_def)
    have "take (min (pkt_buf_len i) (length dg)) dg = take (pkt_buf_len i) dg" by (simp add: min_def)
    then have "packet_of ?b = middle (in_offset i) (in_tail i) (take (pkt_buf_len i) dg)"
      using packet_of_take [of ?n dg "in_offset i" "in_tail i"] d(1) by (simp add: min.commute)
    then have "shape i ?b" "readable t ?b" using k(2) d assms(3,4)
      by (auto simp: shape_def readable_def takes_def buffer_ok_def setData_def)
    then have "drv_ok n i t (packetPut now ?b True d)" using packetPut_ok [OF k(1)] by blast
    then show ?thesis using g i e k(1) by (simp add: recvPacket_def)
  qed
qed

lemma fillPool_ok:
  assumes "drv_ok n i t drv" and "\<forall>b. Some b \<in> set ps \<longrightarrow> shape i b" and "fillPool (pkt_buf_len i) ps drv = (bs, drv')"
  shows "drv_ok n i t drv' \<and> (\<forall>b \<in> set bs. shape i b)"
  using assms
proof (induction "pkt_buf_len i" ps drv arbitrary: bs drv' rule: fillPool.induct)
  case (2 p ps drv)
  obtain b d where g: "(case p of None \<Rightarrow> packetGet (pkt_buf_len i) drv | Some b \<Rightarrow> (b, drv)) = (b, d)" by force
  have d: "drv_ok n i t d" "shape i b" using g 2(2,3) packetGet_ok [OF 2(2)] by (cases p; fastforce)+
  obtain cs e where r: "fillPool (pkt_buf_len i) ps d = (cs, e)" by force
  have "drv_ok n i t e \<and> (\<forall>b \<in> set cs. shape i b)" using 2(1) [OF g [symmetric] refl d(1) _ r] 2(3) by simp
  then show ?case using 2(4) g r d(2) by auto
qed simp

lemma takeBatch_ok:
  assumes "drv_ok n i t drv" and "input_ok i" and "is_sock i" and "in_offset i + 6 \<le> pkt_buf_len i" and "\<forall>b \<in> set bs. shape i b"
    and "\<forall>dg \<in> set dgs. in_offset i + in_tail i < min (length dg) (pkt_buf_len i) \<longrightarrow>
      takes t (middle (in_offset i) (in_tail i) (take (pkt_buf_len i) dg))"
    and "takeBatch now i dgs bs drv = (ps, drv')"
  shows "drv_ok n i t drv' \<and> (\<forall>b. Some b \<in> set ps \<longrightarrow> shape i b)"
  using assms
proof (induction now i dgs bs drv arbitrary: ps drv' rule: takeBatch.induct)
  case (1 now i dg dgs b bs drv)
  let ?n = "min (length dg) (pkt_buf_len i)" and ?b = "b\<lparr>buf := take (min (length dg) (pkt_buf_len i)) dg @ drop (min (length dg) (pkt_buf_len i)) (buf b)\<rparr>"
  have b: "shape i b" using "1.prems"(5) by simp
  then have r: "recvfrom dg b = (?n, ?b)" by (simp add: recvfrom_def shape_def Let_def)
  have sb: "shape i ?b" using b by (auto simp: shape_def)
  show ?case
  proof (cases "?n > in_offset i + in_tail i")
    case True
    let ?c = "setData (in_offset i) (?n - in_offset i - in_tail i) ?b"
    obtain qs e where e: "takeBatch now i dgs bs (packetPut now ?c True drv) = (qs, e)" by force
    have d: "takes t (middle (in_offset i) (in_tail i) (take (pkt_buf_len i) dg))" using "1.prems"(6) True by simp
    have "take (min (pkt_buf_len i) (length dg)) dg = take (pkt_buf_len i) dg" by (simp add: min_def)
    then have "packet_of ?c = middle (in_offset i) (in_tail i) (take (pkt_buf_len i) dg)"
      using packet_of_take [of ?n dg "in_offset i" "in_tail i"] True by (simp add: min.commute)
    then have "shape i ?c" "readable t ?c" using b d True "1.prems"(3,4)
      by (auto simp: shape_def readable_def takes_def buffer_ok_def setData_def)
    then have "drv_ok n i t (packetPut now ?c True drv)" using packetPut_ok [OF "1.prems"(1)] by blast
    from "1.IH"(1) [OF r [symmetric] refl True refl this "1.prems"(2-4) _ _ e] "1.prems"(5,6)
    have "drv_ok n i t e \<and> (\<forall>b. Some b \<in> set qs \<longrightarrow> shape i b)" by simp
    then show ?thesis using "1.prems"(7) r True e by auto
  next
    case False
    obtain qs e where e: "takeBatch now i dgs bs drv = (qs, e)" by force
    from "1.IH"(2) [OF r [symmetric] refl False "1.prems"(1-4) _ _ e] "1.prems"(5,6)
    have "drv_ok n i t e \<and> (\<forall>b. Some b \<in> set qs \<longrightarrow> shape i b)" by simp
    then show ?thesis using "1.prems"(7) r False e sb by auto
  qed
qed auto

lemma recvBatch_ok:
  assumes "drv_ok n i t drv" and "input_ok i" and "is_sock i" and "in_offset i + 6 \<le> pkt_buf_len i"
    and "\<forall>dg \<in> set dgs. in_offset i + in_tail i < min (length dg) (pkt_buf_len i) \<longrightarrow>
      takes t (middle (in_offset i) (in_tail i) (take (pkt_buf_len i) dg))"
  shows "\<exists>drv'. recvBatch now dgs drv = Some drv' \<and> drv_ok n i t drv'"
proof -
  obtain bs d where f: "fillPool (pkt_buf_len i) (pkt_pool drv) drv = (bs, d)" by force
  obtain ps e where b: "takeBatch now i (take 16 dgs) bs d = (ps, e)" by force
  have "\<forall>b. Some b \<in> set (pkt_pool drv) \<longrightarrow> shape i b" using assms(1) by (simp add: drv_ok_def)
  note d = fillPool_ok [OF assms(1) this f]
  have t: "\<forall>dg \<in> set (take 16 dgs). in_offset i + in_tail i < min (length dg) (pkt_buf_len i) \<longrightarrow>
      takes t (middle (in_offset i) (in_tail i) (take (pkt_buf_len i) dg))"
  proof
    fix dg assume "dg \<in> set (take 16 dgs)"
    then have "dg \<in> set dgs" by (rule in_set_takeD)
    with assms(5) show "in_offset i + in_tail i < min (length dg) (pkt_buf_len i) \<longrightarrow>
      takes t (middle (in_offset i) (in_tail i) (take (pkt_buf_len i) dg))" by (rule bspec)
  qed
  have e: "drv_ok n i t e \<and> (\<forall>b. Some b \<in> set ps \<longrightarrow> shape i b)"
    by (rule takeBatch_ok [OF conjunct1 [OF d] assms(2-4) conjunct2 [OF d] t b])
  have "input_ptr drv = Some i" using assms(1) by (simp add: drv_ok_def)
  then have "recvBatch now dgs drv = Some (e\<lparr>pkt_pool := ps\<rparr>)" using f b by (simp add: recvBatch_def)
  moreover have "drv_ok n i t (e\<lparr>pkt_pool := ps\<rparr>)" using e by (simp add: drv_ok_def)
  ultimately show ?thesis by blast
qed

lemma header_kind_total: "6 \<le> length m \<Longrightarrow> header_kind m \<noteq> None"
  by (simp add: header_kind_def rd_def)

lemma drv_isNewFrame_ok:
  assumes "drv_ok n i t drv" and "1300 \<le> length m"
  shows "\<exists>v drv'. drv_isNewFrame m drv = Some (v, drv') \<and> drv_ok n i t drv'"
proof -
  obtain d where d: "decoder_ptr drv = Some d" "any_ok t d" using assms(1) by (auto simp: drv_ok_def)
  obtain k where "header_kind m = Some k" using header_kind_total [of m] assms(2) by auto
  moreover obtain v d' where "isNewFrame m d = Some (v, d')" "any_ok t d'" using any_isNewFrame_ok [OF d(2) assms(2)] by blast
  ultimately show ?thesis using d assms(1) by (auto simp: drv_isNewFrame_def drv_ok_def)
qed

lemma drv_ok_excep [simp]: "drv_ok n i t (drv\<lparr>drv_exceptions := es\<rparr>) = drv_ok n i t drv"
  by (simp add: drv_ok_def)

lemma pcapPacket_ok:
  assumes "drv_ok n i t drv" and "input_ok i" and "in_class i = InputPcap" and "len \<le> length cap"
    and "takes t (middle (in_offset i) (in_tail i) (take len cap))"
  shows "\<exists>drv'. pcapPacket now s len cap drv = Some drv' \<and> drv_ok n i t drv'"
proof -
  have i: "input_ptr drv = Some i" using assms(1) by (simp add: drv_ok_def)
  have l: "pkt_buf_len i = ETH_LEN" using assms(2,3) by (simp add: input_ok_def)
  obtain b d where g: "packetGet ETH_LEN drv = (b, d)" by force
  note k = packetGet_ok [OF assms(1), unfolded l, OF g]
  have b: "data_off b = 0" "bufSize b = ETH_LEN" using k(2) assms(3) l by (auto simp: shape_def is_sock_def)
  obtain r where r: "pcap_take (in_offset i) (in_tail i) len cap b = Some r" "case r of Inl _ \<Rightarrow> len < in_offset i + in_tail i \<or> bufSize b < len - in_offset i - in_tail i
     | Inr b' \<Rightarrow> packet_of b' = middle (in_offset i) (in_tail i) (take len cap) \<and> buffer_ok b' \<and> bufSize b' = bufSize b \<and> data_off b' = 0"
    using pcap_take_ok [OF assms(4) b(1), of "in_offset i" "in_tail i"] by blast
  show ?thesis
  proof (cases r)
    case (Inl u)
    then show ?thesis using i g r(1) k(1) assms(1) by (simp add: pcapPacket_def Let_def)
  next
    case (Inr b')
    then have b': "shape i b'" "readable t b'" "1300 \<le> length (data_mem b')" using r(2) b l assms(5)
      by (auto simp: shape_def readable_def takes_def data_mem_def)
    obtain v d' where d': "(if s = MSOP_SOCK then drv_isNewFrame (data_mem b') d else Some (False, d)) = Some (v, d')" "drv_ok n i t d'"
      using drv_isNewFrame_ok [OF k(1) b'(3)] k(1) by (cases "s = MSOP_SOCK") auto
    then show ?thesis using i g r(1) Inr packetPut_ok [OF d'(2) b'(1,2)] d'(1) assms(1) by (simp add: pcapPacket_def Let_def)
  qed
qed

section \<open>Runs of the driver\<close>

text \<open>The steps of both threads, in any order. The user gives a packet to a raw input, a socket is readable (in the version with \<^verbatim>\<open>epoll\<close>, and in the one with \<^verbatim>\<open>select\<close>), the file has another packet, or the
  handler makes a round.\<close>

datatype 'r drv_event =
  Feed int bytes
| Readable int sock "sock \<Rightarrow> bytes list"
| Datagrams int "bytes list"
| Captured int sock nat bytes
| Round "nat \<Rightarrow> nat \<Rightarrow> 'r host"

fun drv_step :: "'r::floor_ceiling drv_event \<Rightarrow> 'r Driver \<Rightarrow> 'r Driver option" where
  "drv_step (Feed now dat) drv = decodePacket now dat drv"
| "drv_step (Readable now s socks) drv = recvPacket now s socks drv"
| "drv_step (Datagrams now dgs) drv = recvBatch now dgs drv"
| "drv_step (Captured now s len cap) drv = pcapPacket now s len cap drv"
| "drv_step (Round hss) drv = processRound hss drv"

text \<open>What an input needs of its packets: the bytes that are skipped are there, a packet from the user fits the
  buffer, the file has all bytes of the packet; and what the lidar needs of the rest.\<close>

fun event_ok :: "Input \<Rightarrow> LidarType \<Rightarrow> 'r drv_event \<Rightarrow> bool" where
  "event_ok i t (Feed now dat) \<longleftrightarrow> is_raw i \<and> in_offset i + in_tail i \<le> length dat \<and>
     length dat - in_offset i - in_tail i \<le> pkt_buf_len i \<and> length dat < 2 ^ 63 \<and> takes t (middle (in_offset i) (in_tail i) dat)"
| "event_ok i t (Readable now s socks) \<longleftrightarrow> is_sock i \<and> in_offset i + 6 \<le> pkt_buf_len i \<and>
     (case socks (epoll_fd s) of [] \<Rightarrow> True | dg # dgs \<Rightarrow> in_offset i + in_tail i \<le> min (length dg) (pkt_buf_len i) \<and>
       takes t (middle (in_offset i) (in_tail i) (take (pkt_buf_len i) dg)))"
| "event_ok i t (Datagrams now dgs) \<longleftrightarrow> is_sock i \<and> in_offset i + 6 \<le> pkt_buf_len i \<and>
     (\<forall>dg \<in> set dgs. in_offset i + in_tail i < min (length dg) (pkt_buf_len i) \<longrightarrow>
       takes t (middle (in_offset i) (in_tail i) (take (pkt_buf_len i) dg)))"
| "event_ok i t (Captured now s len cap) \<longleftrightarrow> in_class i = InputPcap \<and> len \<le> length cap \<and>
     takes t (middle (in_offset i) (in_tail i) (take len cap))"
| "event_ok i t (Round hss) \<longleftrightarrow> True"

lemma drv_step_ok:
  assumes "drv_ok n i t drv" and "input_ok i" and "event_ok i t ev"
  shows "\<exists>drv'. drv_step ev drv = Some drv' \<and> drv_ok n i t drv'"
proof (cases ev)
  case (Readable now s socks)
  then show ?thesis using assms recvPacket_ok [OF assms(1,2), where socks = socks and s = s and now = now]
    by (cases "socks (epoll_fd s)") simp_all
qed (use assms decodePacket_ok recvBatch_ok pcapPacket_ok processRound_drv_ok in auto)

lemma drv_run_ok:
  assumes "drv_ok n i t drv" and "input_ok i" and "\<forall>ev \<in> set evs. event_ok i t ev"
  shows "\<exists>drv'. foldM drv_step evs drv = Some drv' \<and> drv_ok n i t drv'"
  by (rule foldM_invariant [where I = "\<lambda>_. drv_ok n i t" and ?xs0.0 = "[]"]) (use assms drv_step_ok in blast)+

lemma drv_init_ok:
  assumes "drv_init stof files opened p (mk_Driver n put_pkt put_imu p0) = Some (True, drv)" and "0 < n" and "n < 2 ^ 31"
  shows "drv_ok n (createInput (input_type p) (input_param p) (isJumbo (lidar_type p))) (lidar_type p) drv"
    and "init_flag drv" and "start_flag drv = False"
proof -
  obtain d where "createDecoder stof files (lidar_type p) (decoder_param p) = Some d"
    using assms(1) by (auto simp: drv_init_def mk_Driver_def split: bind_splits)
  moreover have "any_ok (lidar_type p) d" using createDecoder_any_ok calculation by blast
  then have "any_ok (lidar_type p) (d\<lparr>write_pkt_ts := put_pkt, point_cloud := []\<rparr>)"
    "any_ok (lidar_type p) (d\<lparr>write_pkt_ts := put_pkt, point_cloud := [], imuDataPtr := Some new_ImuData, cb_imu_registered := True\<rparr>)"
    using any_ok_clear [of "lidar_type p" "d\<lparr>write_pkt_ts := put_pkt\<rparr>"] by simp_all
  moreover have "sq_inv n (mk_SyncQueue (replicate n None) :: Buffer option SyncQueue)"
    "sq_list (mk_SyncQueue (replicate n None) :: Buffer option SyncQueue) = []"
    using sq_init [of "replicate n None :: Buffer option list"] assms(2) by auto
  ultimately show "drv_ok n (createInput (input_type p) (input_param p) (isJumbo (lidar_type p))) (lidar_type p) drv"
    and "init_flag drv" and "start_flag drv = False"
    using assms by (auto simp: drv_init_def mk_Driver_def drv_ok_def queue_ok_def free_ok_def Let_def split: if_splits)
qed

text \<open>A user's raw packets of an M1 lidar.\<close>

definition sample_param :: "rat RSDriverParam" where
  "sample_param = \<lparr>lidar_type = RSM1, input_type = RAW_PACKET, frame_id = ''rslidar'',
     input_param = \<lparr>user_layer_bytes = 0, tail_layer_bytes = 0, use_vlan = False\<rparr>, decoder_param = default_param\<rparr>"

lemma sample_init:
  obtains drv where "drv_init (\<lambda>_. None) (\<lambda>_. None) False sample_param (mk_Driver 4 True False p0) = Some (True, drv)"
    "pkt_queue drv = mk_SyncQueue (replicate 4 None)"
  by (simp add: drv_init_def sample_param_def createDecoder_def mk_Driver_def createInput_def is_raw_def isJumbo_def type_code_def Let_def)

lemma sample_event: "event_ok (createInput (input_type sample_param) (input_param sample_param) (isJumbo (lidar_type sample_param)))
    (lidar_type sample_param) (Feed now (replicate 1210 0))"
  by (simp add: sample_param_def createInput_def isJumbo_def type_code_def is_raw_def takes_def difop_fits_def any_imu_fits_def)

text \<open>C2: a driver that is fed packets of the sizes that its parts need, however the handler's rounds fall between them, runs
  on: nothing is read or written outside a buffer and no null pointer is followed. The decoder stays a consistent object of the class of the
  lidar, the queue below its capacity, and the packets that have been published are numbered consecutively from 0. The
  sizes, none of which the code checks, are \<open>event_ok\<close>: a packet given by the user has the bytes of the skipped layers
  and fits the packet buffer, a datagram that \<open>recvPacket\<close> takes has the bytes of those layers, a captured frame is as long
  as its header says, and a DIFOP or IMU packet is not shorter than the struct that the decoder of the lidar reads. Without
  them the code does read outside its buffers. Everything else of a packet, MSOP packets of any size included, is
  arbitrary, and overflows of the queue are among the runs.\<close>

theorem driver_safe:
  assumes "drv_init stof files opened p (mk_Driver n put_pkt put_imu p0) = Some (True, drv)" and "0 < n" and "n < 2 ^ 31"
    and "\<forall>ev \<in> set evs. event_ok (createInput (input_type p) (input_param p) (isJumbo (lidar_type p))) (lidar_type p) ev"
  shows "\<exists>drv' d. foldM drv_step evs (snd (drv_start drv)) = Some drv' \<and> decoder_ptr drv' = Some d \<and> any_ok (lidar_type p) d \<and>
    length (sq_list (pkt_queue drv')) < n \<and> map pk_seq (packets drv') = map of_nat [0..<length (packets drv')]"
proof -
  note i = drv_init_ok [OF assms(1-3)]
  let ?i = "createInput (input_type p) (input_param p) (isJumbo (lidar_type p))"
  have "drv_ok n ?i (lidar_type p) (snd (drv_start drv))" using i by (simp add: drv_start_def drv_ok_def)
  from drv_run_ok [OF this createInput_ok assms(4)]
  obtain drv' where d: "foldM drv_step evs (snd (drv_start drv)) = Some drv'" "drv_ok n ?i (lidar_type p) drv'" by blast
  then have "sq_inv n (pkt_queue drv')" by (simp add: drv_ok_def queue_ok_def)
  then have "length (sq_list (pkt_queue drv')) < n" using sq_size_tail(1) by simp
  then show ?thesis using d by (auto simp: drv_ok_def)
qed

theorem driver_safe_witness:
  "\<exists>drv. drv_init (\<lambda>_. None) (\<lambda>_. None) False sample_param (mk_Driver 4 True False sample_param) = Some (True, drv) \<and>
    (\<forall>hss. \<exists>drv'. foldM drv_step [Feed 0 (replicate 1210 0), Round hss] (snd (drv_start drv)) = Some drv' \<and>
      map pk_seq (packets drv') = map of_nat [0..<length (packets drv')])"
proof -
  obtain drv where d: "drv_init (\<lambda>_. None) (\<lambda>_. None) False sample_param (mk_Driver 4 True False sample_param) = Some (True, drv)"
    using sample_init by metis
  have "\<exists>drv' d. foldM drv_step [Feed 0 (replicate 1210 0), Round hss] (snd (drv_start drv)) = Some drv' \<and> decoder_ptr drv' = Some d \<and>
      any_ok (lidar_type sample_param) d \<and> length (sq_list (pkt_queue drv')) < 4 \<and>
      map pk_seq (packets drv') = map of_nat [0..<length (packets drv')]" for hss
    by (rule driver_safe [OF d]) (use sample_event in simp_all)
  then show ?thesis using d by meson
qed

text \<open>A full queue does not push back: the packet that does not fit is dropped and with it all packets that wait, and the user is told at
  most once in two seconds; otherwise the packet joins the end of the queue.\<close>

theorem packetPut_drops_all:
  assumes "sq_inv n (pkt_queue drv)" and "n < 2 ^ 31"
  shows "sq_list (pkt_queue (packetPut now b True drv)) =
      (if length (sq_list (pkt_queue drv)) < n - 1 then sq_list (pkt_queue drv) @ [Some b] else []) \<and>
    drv_exceptions (packetPut now b True drv) = drv_exceptions drv @
      (if length (sq_list (pkt_queue drv)) < n - 1 \<or> now - (case put_limit drv of None \<Rightarrow> 0 | Some t \<Rightarrow> t) \<le> 1 then []
       else [ERRCODE_PKTBUFOVERFLOW])"
  using packetPut_cases [OF assms, of now b] by (auto simp: overflow_def Let_def)

theorem packetPut_drops_all_witness:
  "sq_list (pkt_queue (packetPut 7 (mk_Buffer 0) True ((mk_Driver 1 True True sample_param)\<lparr>put_limit := Some 3\<rparr>))) = [] \<and>
    drv_exceptions (packetPut 7 (mk_Buffer 0) True ((mk_Driver 1 True True sample_param)\<lparr>put_limit := Some 3\<rparr>)) = [ERRCODE_PKTBUFOVERFLOW]"
  using packetPut_drops_all [of 1 "(mk_Driver 1 True True sample_param)\<lparr>put_limit := Some 3\<rparr>" 7 "mk_Buffer 0"]
    sq_init [of "[None :: Buffer option]"]
  by (simp add: mk_Driver_def)

section \<open>Every packet of the queue is handled\<close>

lemma rounds_step:
  assumes "drv_ok n i t drv" and "start_flag drv" and "\<not> to_exit_handle drv"
  obtains drv' ps where "processRound hss drv = Some drv'" "drv_ok n i t drv'" "start_flag drv'" "\<not> to_exit_handle drv'"
    "sq_list (pkt_queue drv') = drop 50 (sq_list (pkt_queue drv))" "packets drv' = packets drv @ ps"
    "put_pkt_registered drv' = put_pkt_registered drv" "pkt_seq drv' = pkt_seq drv + of_nat (length ps)"
    "new_packets (put_pkt_registered drv) (pkt_seq drv) (map the (take 50 (sq_list (pkt_queue drv)))) ps"
proof -
  from processRound_ok [OF assms, of hss] obtain bs d' q f ps where r: "map Some bs = take 50 (sq_list (pkt_queue drv))"
    "processRound hss drv = Some (drv\<lparr>pkt_queue := q, decoder_ptr := Some d', free_pkt_queue := f,
       pkt_seq := pkt_seq drv + of_nat (length ps), packets := packets drv @ ps\<rparr>)"
    "any_ok t d'" "free_ok n i f" "sq_list q = drop 50 (sq_list (pkt_queue drv))" "queue_ok n i t q"
    "new_packets (put_pkt_registered drv) (pkt_seq drv) bs ps" by metis
  have "map the (take 50 (sq_list (pkt_queue drv))) = bs" unfolding r(1) [symmetric] by (simp add: comp_def)
  moreover obtain drv' where "processRound hss drv = Some drv'" "drv_ok n i t drv'" using processRound_drv_ok [OF assms(1)] by blast
  ultimately show thesis using that [of drv' ps] r assms(2,3) by auto
qed

lemma rounds_drain:
  assumes "drv_ok n i t drv" and "start_flag drv" and "\<not> to_exit_handle drv" and "length (sq_list (pkt_queue drv)) \<le> 50 * length hsss"
  shows "\<exists>drv' ps. foldM processRound hsss drv = Some drv' \<and> drv_ok n i t drv' \<and> sq_list (pkt_queue drv') = [] \<and>
    packets drv' = packets drv @ ps \<and>
    new_packets (put_pkt_registered drv) (pkt_seq drv) (map the (sq_list (pkt_queue drv))) ps"
  using assms
proof (induction hsss arbitrary: drv)
  case Nil
  then have "sq_list (pkt_queue drv) = []" by (simp del: length_sq_list)
  then show ?case using Nil.prems(1) by simp
next
  case (Cons hss hsss)
  from rounds_step [OF Cons.prems(1-3), of hss] obtain e ps where e: "processRound hss drv = Some e" "drv_ok n i t e"
    "start_flag e" "\<not> to_exit_handle e" "sq_list (pkt_queue e) = drop 50 (sq_list (pkt_queue drv))" "packets e = packets drv @ ps"
    "put_pkt_registered e = put_pkt_registered drv" "pkt_seq e = pkt_seq drv + of_nat (length ps)"
    "new_packets (put_pkt_registered drv) (pkt_seq drv) (map the (take 50 (sq_list (pkt_queue drv)))) ps" by metis
  have "length (sq_list (pkt_queue e)) \<le> 50 * length hsss" using Cons.prems(4) e(5) by simp
  from Cons.IH [OF e(2-4) this] obtain drv' qs where d: "foldM processRound hsss e = Some drv'" "drv_ok n i t drv'"
    "sq_list (pkt_queue drv') = []" "packets drv' = packets e @ qs"
    "new_packets (put_pkt_registered drv) (pkt_seq drv + of_nat (length ps)) (map the (drop 50 (sq_list (pkt_queue drv)))) qs"
    unfolding e(5,7,8) by blast
  have "new_packets (put_pkt_registered drv) (pkt_seq drv) (map the (sq_list (pkt_queue drv))) (ps @ qs)"
    using new_packets_append [OF e(9) d(5)] by (simp flip: map_append)
  then show ?case using e(1,6) d by auto
qed

text \<open>No step starts or stops the driver.\<close>

definition flags :: "'r Driver \<Rightarrow> bool \<times> bool" where
  "flags drv = (start_flag drv, to_exit_handle drv)"

lemma flags_put: "flags (packetPut now b st drv) = flags drv" "flags (runPacketCallBack dat ts k f drv) = flags drv"
  by (simp_all add: flags_def packetPut_def runPacketCallBack_def Let_def split: prod.split)

lemma flags_get: "packetGet n drv = (b, drv') \<Longrightarrow> flags drv' = flags drv"
  by (auto simp: flags_def packetGet_def Let_def split: prod.splits option.splits)

lemma flags_upd [simp]: "flags (drv\<lparr>decoder_ptr := d\<rparr>) = flags drv" "flags (drv\<lparr>free_pkt_queue := q\<rparr>) = flags drv"
  "flags (drv\<lparr>pkt_queue := q\<rparr>) = flags drv" "flags (drv\<lparr>pkt_pool := ps\<rparr>) = flags drv" "flags (drv\<lparr>drv_exceptions := es\<rparr>) = flags drv"
  by (simp_all add: flags_def)

lemma flags_handle: "handlePacket hs b drv = Some (b', drv') \<Longrightarrow> flags drv' = flags drv"
  by (auto simp: handlePacket_def flags_put split: bind_splits pkt_kind.splits)

lemma flags_batch: "processBatch hss pkts drv = Some drv' \<Longrightarrow> flags drv' = flags drv"
proof (induction hss pkts drv rule: processBatch.induct)
  case (2 hss pkt pkts drv)
  then obtain e where e: "internalProcessPacket (hss 0) pkt drv = Some e" "processBatch (\<lambda>i. hss (Suc i)) pkts e = Some drv'"
    by (auto split: bind_splits)
  have "flags e = flags drv" using e(1) by (auto simp: internalProcessPacket_def dest: flags_handle split: bind_splits)
  then show ?case using "2.IH" [OF e] by simp
qed simp

lemma flags_newFrame: "drv_isNewFrame m drv = Some (v, drv') \<Longrightarrow> flags drv' = flags drv"
  by (auto simp: drv_isNewFrame_def split: option.splits bind_splits if_splits)

lemma flags_fill: "fillPool n ps drv = (bs, drv') \<Longrightarrow> flags drv' = flags drv"
proof (induction n ps drv arbitrary: bs drv' rule: fillPool.induct)
  case (2 n p ps drv)
  obtain b d where g: "(case p of None \<Rightarrow> packetGet n drv | Some b \<Rightarrow> (b, drv)) = (b, d)" by force
  obtain cs e where r: "fillPool n ps d = (cs, e)" by force
  have "flags d = flags drv" using g by (cases p) (auto dest: flags_get)
  then show ?case using "2.IH" [OF g [symmetric] refl r] "2.prems" g r by simp
qed simp

lemma flags_take: "takeBatch now i dgs bs drv = (ps, drv') \<Longrightarrow> flags drv' = flags drv"
proof (induction now i dgs bs drv arbitrary: ps drv' rule: takeBatch.induct)
  case (1 now i dg dgs b bs drv)
  obtain n c where r: "recvfrom dg b = (n, c)" by force
  show ?case
  proof (cases "n > in_offset i + in_tail i")
    case True
    obtain qs e where e: "takeBatch now i dgs bs (packetPut now (setData (in_offset i) (n - in_offset i - in_tail i) c) True drv) = (qs, e)"
      by force
    show ?thesis using "1.IH"(1) [OF r [symmetric] refl True refl e] "1.prems" r True e by (simp add: flags_put)
  next
    case False
    obtain qs e where e: "takeBatch now i dgs bs drv = (qs, e)" by force
    show ?thesis using "1.IH"(2) [OF r [symmetric] refl False e] "1.prems" r False e by simp
  qed
qed auto

lemma drv_step_flags: "drv_step ev drv = Some drv' \<Longrightarrow> flags drv' = flags drv"
proof (cases ev)
  case (Feed now dat)
  then show "drv_step ev drv = Some drv' \<Longrightarrow> ?thesis"
    by (auto simp: decodePacket_def flags_put Let_def dest!: flags_get split: bind_splits prod.splits)
next
  case (Readable now s socks)
  then show "drv_step ev drv = Some drv' \<Longrightarrow> ?thesis"
    by (auto simp: recvPacket_def flags_put Let_def dest!: flags_get split: bind_splits prod.splits option.splits)
next
  case (Datagrams now dgs)
  then show "drv_step ev drv = Some drv' \<Longrightarrow> ?thesis"
    by (auto simp: recvBatch_def Let_def dest!: flags_fill flags_take split: bind_splits prod.splits)
next
  case (Captured now s len cap)
  then show "drv_step ev drv = Some drv' \<Longrightarrow> ?thesis"
    by (auto simp: pcapPacket_def flags_put Let_def dest!: flags_get dest: flags_newFrame split: bind_splits prod.splits if_splits sum.splits)
next
  case (Round hss)
  then show "drv_step ev drv = Some drv' \<Longrightarrow> ?thesis"
    by (auto simp: processRound_def Let_def dest: flags_batch split: if_splits prod.splits)
qed

text \<open>C3: no packet waits for ever: whatever the run before, as many rounds of the handler as there are fifties of packets in the queue empty
  it without stopping, and when the user asked for packets, exactly the MSOP and DIFOP packets that waited have been published, in
  their order, with their lengths, numbered on from the last one, and marked by their kind; DIFOP packets are unchanged.\<close>

theorem queue_drains:
  assumes "drv_init stof files opened p (mk_Driver n put_pkt put_imu p0) = Some (True, drv0)" and "0 < n" and "n < 2 ^ 31"
    and "\<forall>ev \<in> set evs. event_ok (createInput (input_type p) (input_param p) (isJumbo (lidar_type p))) (lidar_type p) ev"
    and "foldM drv_step evs (snd (drv_start drv0)) = Some drv" and "length (sq_list (pkt_queue drv)) \<le> 50 * length hsss"
  shows "\<exists>drv' ps. foldM processRound hsss drv = Some drv' \<and> sq_list (pkt_queue drv') = [] \<and> packets drv' = packets drv @ ps \<and>
    new_packets (put_pkt_registered drv) (pkt_seq drv) (map the (sq_list (pkt_queue drv))) ps"
proof -
  note i = drv_init_ok [OF assms(1-3)]
  let ?i = "createInput (input_type p) (input_param p) (isJumbo (lidar_type p))"
  have s: "drv_ok n ?i (lidar_type p) (snd (drv_start drv0))" using i by (simp add: drv_start_def drv_ok_def)
  have "drv_ok n ?i (lidar_type p) drv" using drv_run_ok [OF s createInput_ok assms(4)] assms(5) by simp
  moreover have "flags drv = flags (snd (drv_start drv0))"
    by (rule foldM_relates [OF assms(5), where R = "\<lambda>s. flags s = flags (snd (drv_start drv0))"]) (auto dest: drv_step_flags)
  then have "start_flag drv" "\<not> to_exit_handle drv" using i(2,3) by (simp_all add: flags_def drv_start_def)
  ultimately show ?thesis using rounds_drain assms(6) by blast
qed

theorem queue_drains_witness:
  "\<exists>drv (drv' :: rat Driver). foldM drv_step [Feed 0 (replicate 1210 0)] drv = Some drv' \<and> sq_list (pkt_queue drv') \<noteq> [] \<and>
    (\<forall>hss. \<exists>e. foldM processRound [hss] drv' = Some e \<and> sq_list (pkt_queue e) = [])"
proof -
  obtain drv0 where d: "drv_init (\<lambda>_. None) (\<lambda>_. None) False sample_param (mk_Driver 4 True False sample_param) = Some (True, drv0)"
    "pkt_queue drv0 = mk_SyncQueue (replicate 4 None)"
    by (rule sample_init)
  let ?i = "createInput (input_type sample_param) (input_param sample_param) (isJumbo (lidar_type sample_param))"
  note i = drv_init_ok [OF d(1)]
  have s: "drv_ok 4 ?i RSM1 (snd (drv_start drv0))" using i by (simp add: drv_start_def drv_ok_def sample_param_def)
  obtain drv where r: "foldM drv_step [Feed 0 (replicate 1210 0)] (snd (drv_start drv0)) = Some drv" "drv_ok 4 ?i RSM1 drv"
    using drv_run_ok [OF s createInput_ok, of "[Feed 0 (replicate 1210 0)]"] sample_event by (auto simp: sample_param_def)
  have "sq_inv 4 (pkt_queue drv)" using r(2) by (simp add: drv_ok_def queue_ok_def)
  then have l: "length (sq_list (pkt_queue drv)) \<le> 50 * length [hss]" for hss :: "nat \<Rightarrow> nat \<Rightarrow> rat host"
    using sq_size_tail(1) [of 4 "pkt_queue drv"] by simp
  obtain k b b' e where e: "packetGet k (snd (drv_start drv0)) = (b, e)" "drv = packetPut 0 b' True e"
    using r(1) by (auto simp: decodePacket_def Let_def split: bind_splits prod.splits)
  have "pkt_queue e = pkt_queue drv0" using e(1)
    by (auto simp: packetGet_def drv_start_def Let_def split: prod.splits option.splits if_splits)
  then have "sq_inv 4 (pkt_queue e)" "sq_size (pkt_queue e) = 0"
    using d(2) by (simp_all add: sq_inv_def mk_SyncQueue_def sq_size_def)
  then have "sq_list (pkt_queue drv) \<noteq> []" using packetPut_cases [of 4 e 0 b'] e(2) by auto
  moreover have "\<exists>e. foldM processRound [hss] drv = Some e \<and> sq_list (pkt_queue e) = []" for hss
    using queue_drains [OF d(1) _ _ _ r(1) l [of hss]] sample_event by auto
  ultimately show ?thesis using r(1) by blast
qed

section \<open>Clearing the queue races\<close>

text \<open>A full queue is cleared by the producer, while the consumer may be inside \<^verbatim>\<open>popBatch\<close>, in the steps of \<open>Rs_SyncQueue\<close>.\<close>

lemma reach_push:
  assumes "sq_reach mem s" and "prod s = PIdle" and "(tail_idx s + 1) mod Capacity s \<noteq> head_idx s"
  shows "sq_reach mem (s\<lparr>sq_buffer := (sq_buffer s)[tail_idx s := v], tail_idx := (tail_idx s + 1) mod Capacity s, prod := PIdle,
    pushed := pushed s @ [v]\<rparr>)"
proof -
  let ?a = "s\<lparr>prod := PTail v (tail_idx s)\<rparr>"
  let ?b = "?a\<lparr>prod := PStore v (tail_idx s)\<rparr>"
  let ?c = "?b\<lparr>sq_buffer := (sq_buffer ?b)[tail_idx s := v], prod := PPublish v (tail_idx s)\<rparr>"
  have "sq_reach mem ?a" using assms(1) push_load_tail [OF assms(2)] by (rule sq_reach.next_step)
  then have "sq_reach mem ?b" by (rule sq_reach.next_step) (rule push_room, use assms(3) in simp_all)
  then have "sq_reach mem ?c" by (rule sq_reach.next_step) (rule push_write, simp)
  then have "sq_reach mem (?c\<lparr>tail_idx := (tail_idx s + 1) mod Capacity ?c, prod := PIdle, pushed := pushed ?c @ [v]\<rparr>)"
    by (rule sq_reach.next_step) (rule push_publish, simp)
  then show ?thesis by simp
qed

lemma upd4: "[x, y, z, w][2 := v] = [x, y, v, w]"
  by (simp add: numeral_2_eq_2)

definition race_state :: "'a \<Rightarrow> 'a \<Rightarrow> 'a \<Rightarrow> 'a option sq_sys" where
  "race_state a b c = \<lparr>sq_buffer = [Some a, Some b, Some c, None], head_idx = 0, tail_idx = 3, prod = PIdle, cons = BCopy 0 2 [Some a, Some b],
     pushed = [Some a, Some b, Some c], popped = []\<rparr>"

lemma race_reachable: "sq_reach [None, None, None, None] (race_state a b c)"
proof -
  have 0: "sq_reach [None, None, None, None] (sq_sys_init [None, None, None, None] :: 'a option sq_sys)" by (rule sq_reach.start)
  let ?s1 = "\<lparr>sq_buffer = [Some a, None, None, None], head_idx = 0, tail_idx = 1, prod = PIdle, cons = CIdle, pushed = [Some a], popped = []\<rparr>"
  have "sq_reach [None, None, None, None] ?s1" using reach_push [OF 0, of "Some a"] by (simp add: sq_sys_init_def)
  from reach_push [OF this, of "Some b"]
  have "sq_reach [None, None, None, None] \<lparr>sq_buffer = [Some a, Some b, None, None], head_idx = 0, tail_idx = 2, prod = PIdle,
      cons = CIdle, pushed = [Some a, Some b], popped = []\<rparr>" by (simp add: upd4 flip: numeral_2_eq_2 numeral_3_eq_3)
  from reach_push [OF this, of "Some c"]
  have "sq_reach [None, None, None, None] \<lparr>sq_buffer = [Some a, Some b, Some c, None], head_idx = 0, tail_idx = 3, prod = PIdle,
      cons = CIdle, pushed = [Some a, Some b, Some c], popped = []\<rparr>" (is "sq_reach _ ?s")
    by (simp add: upd4 flip: numeral_2_eq_2 numeral_3_eq_3)
  then have "sq_reach [None, None, None, None] (?s\<lparr>cons := BWait 2\<rparr>)" by (rule sq_reach.next_step) (rule batch_start, simp)
  then have "sq_reach [None, None, None, None] (?s\<lparr>cons := BWait 2\<rparr>\<lparr>cons := BHead 2 (head_idx (?s\<lparr>cons := BWait 2\<rparr>))\<rparr>)"
    by (rule sq_reach.next_step) (rule batch_ready, simp_all)
  then have "sq_reach [None, None, None, None] (?s\<lparr>cons := BHead 2 0\<rparr>)" by simp
  then have "sq_reach [None, None, None, None] (?s\<lparr>cons := BHead 2 0\<rparr>\<lparr>cons := BCopy 0 2 []\<rparr>)"
    by (rule sq_reach.next_step) (use batch_count [of "?s\<lparr>cons := BHead 2 0\<rparr>" 2 0 2] in simp)
  then have "sq_reach [None, None, None, None] (?s\<lparr>cons := BCopy 0 2 []\<rparr>)" by simp
  then have "sq_reach [None, None, None, None] (?s\<lparr>cons := BCopy 0 2 []\<rparr>\<lparr>cons := BCopy 0 2 ([] @ [Some a])\<rparr>)"
    by (rule sq_reach.next_step) (use batch_copy [of "?s\<lparr>cons := BCopy 0 2 []\<rparr>" 0 2 "[]"] in simp)
  then have "sq_reach [None, None, None, None] (?s\<lparr>cons := BCopy 0 2 [Some a]\<rparr>)" by simp
  then have "sq_reach [None, None, None, None] (?s\<lparr>cons := BCopy 0 2 [Some a]\<rparr>\<lparr>cons := BCopy 0 2 ([Some a] @ [Some b])\<rparr>)"
    by (rule sq_reach.next_step) (use batch_copy [of "?s\<lparr>cons := BCopy 0 2 [Some a]\<rparr>" 0 2 "[Some a]"] in simp)
  then show ?thesis by (simp add: race_state_def)
qed

text \<open>C33: clearing the full queue is not safe. With four slots: three packets wait, the handler has copied two of them for a batch, and the
  receiver finds the queue full and clears it. The handler then stores the head that it computed before, and the queue looks as if it held
  the third packet, which was cleared, and behind it a slot that was never written: handling that null pointer stops the
  driver.\<close>

theorem clear_races:
  "\<exists>s s'. sq_reach [None, None, None, None] s \<and> prod s = PIdle \<and> (tail_idx s + 1) mod Capacity s = head_idx s \<and>
    sq_step (s\<lparr>head_idx := head_idx (sq_clear (SyncQueue.truncate s)), tail_idx := tail_idx (sq_clear (SyncQueue.truncate s))\<rparr>) s' \<and>
    cons s' = CIdle \<and> sq_list s' = [Some c, None] \<and> (\<forall>hss (drv :: 'r::floor_ceiling Driver). processBatch hss (sq_list s') drv = None)"
proof -
  let ?s = "race_state c c c" and ?t = "(race_state c c c)\<lparr>tail_idx := 0\<rparr>"
  let ?u = "?t\<lparr>head_idx := (0 + 2) mod Capacity ?t, cons := CIdle, popped := popped ?t @ [Some c, Some c]\<rparr>"
  have t: "?s\<lparr>head_idx := head_idx (sq_clear (SyncQueue.truncate ?s)), tail_idx := tail_idx (sq_clear (SyncQueue.truncate ?s))\<rparr> = ?t"
    by (simp add: sq_clear_def race_state_def)
  have "sq_step ?t ?u" by (rule batch_done [of ?t 0 2 "[Some c, Some c]"]) (simp_all add: race_state_def)
  moreover have l: "sq_list ?u = [Some c, None]"
    by (simp add: sq_list_def sq_size_def race_state_def ring_contents_def upt_rec)
  moreover have "processBatch hss [Some c, None] drv = None" for hss and drv :: "'r Driver"
    by (simp add: internalProcessPacket_def split: bind_splits)
  moreover have "prod ?s = PIdle" "(tail_idx ?s + 1) mod Capacity ?s = head_idx ?s" "cons ?u = CIdle" by (simp_all add: race_state_def)
  ultimately have "sq_reach [None, None, None, None] ?s \<and> prod ?s = PIdle \<and> (tail_idx ?s + 1) mod Capacity ?s = head_idx ?s \<and>
    sq_step (?s\<lparr>head_idx := head_idx (sq_clear (SyncQueue.truncate ?s)), tail_idx := tail_idx (sq_clear (SyncQueue.truncate ?s))\<rparr>) ?u \<and>
    cons ?u = CIdle \<and> sq_list ?u = [Some c, None] \<and> (\<forall>hss (drv :: 'r Driver). processBatch hss (sq_list ?u) drv = None)"
    using race_reachable [of c c c] unfolding t l by blast
  then show ?thesis by blast
qed

end
