(* ===== verification/Ros_Ldq.thy ===== *)
theory Ros_Ldq
  imports Fifo
begin

text \<open>
  The point-cloud queue of livox_ros_driver2 (\<^verbatim>\<open>comm/ldq.cpp\<close>, \<^verbatim>\<open>comm/ldq.h\<close>): a ring whose size is a
  power of two, with free-running 32-bit read and write indices that are masked on access. The
  array behind it is owned through a raw pointer, so its state is part of the model: null, live, or
  freed. \<^term>\<open>None\<close> is an access through a null or freed pointer, or outside an array. The queue is a
  value here, so the guards against a null \<^verbatim>\<open>queue\<close> argument have no counterpart; a slot's fields
  \<^verbatim>\<open>lidar_type\<close> and \<^verbatim>\<open>handle\<close>, which no operation reads or writes, are left out.
\<close>

record 'p StoragePacket =
  base_time :: u64
  points_num :: u32
  points :: "'p list"

record 'p PointPacket =
  pp_handle :: u32
  pp_lidar_type :: u8
  pp_points_num :: u32
  pp_points :: "'p list"

datatype 'a owned = Nullptr | Live "'a list" | Freed

record 'p LidarDataQueue =
  storage_packet :: "'p StoragePacket owned"
  rd_idx :: u32
  wr_idx :: u32
  qmask :: u32
  qsize :: u32

section \<open>Operations\<close>

definition IsPowerOf2 :: "u32 \<Rightarrow> bool" where
  "IsPowerOf2 sz \<longleftrightarrow> sz \<noteq> 0 \<and> sz AND (sz - 1) = 0"

text \<open>\<open>roundup_loop k\<close> is the loop with \<open>k\<close> iterations left, at \<^verbatim>\<open>i = 32 - k\<close>.\<close>

primrec roundup_loop :: "nat \<Rightarrow> u32 \<Rightarrow> u32 \<Rightarrow> u32" where
  "roundup_loop 0 sz p = p"
| "roundup_loop (Suc k) sz p =
     (let p = push_bit (31 - k) 1 in if sz \<le> p then p else roundup_loop k sz p)"

definition RoundupPowerOf2 :: "u32 \<Rightarrow> u32" where
  "RoundupPowerOf2 sz = roundup_loop 32 sz 0"

text \<open>\<open>fresh\<close> is the content of a newly allocated slot.\<close>

definition InitQueue :: "'p StoragePacket \<Rightarrow> u32 \<Rightarrow> 'p LidarDataQueue \<Rightarrow> 'p LidarDataQueue option" where
  "InitQueue fresh queue_size q =
     (let n = (if IsPowerOf2 queue_size then queue_size else RoundupPowerOf2 queue_size) in
      case storage_packet q of
        Freed \<Rightarrow> None
      | _ \<Rightarrow> Some \<lparr>storage_packet = Live (replicate (unat n) fresh),
               rd_idx = 0, wr_idx = 0, qmask = n - 1, qsize = n\<rparr>)"

definition DeInitQueue :: "'p LidarDataQueue \<Rightarrow> 'p LidarDataQueue option" where
  "DeInitQueue q =
     (let r = q\<lparr>rd_idx := 0, wr_idx := 0, qsize := 0, qmask := 0\<rparr> in
      case storage_packet q of
        Freed \<Rightarrow> None
      | Live _ \<Rightarrow> Some (r\<lparr>storage_packet := Freed\<rparr>)
      | Nullptr \<Rightarrow> Some r)"

definition ResetQueue :: "'p LidarDataQueue \<Rightarrow> 'p LidarDataQueue" where
  "ResetQueue q = q\<lparr>rd_idx := 0, wr_idx := 0\<rparr>"

definition QueueUsedSize :: "'p LidarDataQueue \<Rightarrow> u32" where
  "QueueUsedSize q = wr_idx q - rd_idx q"

definition QueueUnusedSize :: "'p LidarDataQueue \<Rightarrow> u32" where
  "QueueUnusedSize q = qsize q - QueueUsedSize q"

definition QueueIsFull :: "'p LidarDataQueue \<Rightarrow> bool" where
  "QueueIsFull q \<longleftrightarrow> wr_idx q - rd_idx q > qmask q"

definition QueueIsEmpty :: "'p LidarDataQueue \<Rightarrow> bool" where
  "QueueIsEmpty q \<longleftrightarrow> rd_idx q = wr_idx q"

definition slot :: "'p LidarDataQueue \<Rightarrow> u32 \<Rightarrow> 'p StoragePacket option" where
  "slot q i = (case storage_packet q of
     Live arr \<Rightarrow> if unat i < length arr then Some (arr ! unat i) else None
   | _ \<Rightarrow> None)"

text \<open>The inner option is the result: \<^term>\<open>Some None\<close> is a return of \<^verbatim>\<open>false\<close> on an empty queue.\<close>

definition QueuePrePop :: "'p LidarDataQueue \<Rightarrow> 'p StoragePacket option option" where
  "QueuePrePop q =
     (if QueueIsEmpty q then Some None
      else do {
        s \<leftarrow> slot q (rd_idx q AND qmask q);
        ps \<leftarrow> rd (points s) 0 (unat (points_num s));
        Some (Some \<lparr>base_time = base_time s, points_num = points_num s, points = ps\<rparr>)
      })"

definition QueuePopUpdate :: "'p LidarDataQueue \<Rightarrow> 'p LidarDataQueue" where
  "QueuePopUpdate q = q\<lparr>rd_idx := rd_idx q + 1\<rparr>"

definition QueuePop :: "'p LidarDataQueue \<Rightarrow> ('p StoragePacket option \<times> 'p LidarDataQueue) option" where
  "QueuePop q = do {
     r \<leftarrow> QueuePrePop q;
     case r of
       None \<Rightarrow> Some (None, q)
     | Some s \<Rightarrow> Some (Some s, QueuePopUpdate q)
   }"

definition QueuePushAny :: "'p PointPacket \<Rightarrow> u64 \<Rightarrow> 'p LidarDataQueue \<Rightarrow> 'p LidarDataQueue option" where
  "QueuePushAny pkt t q =
     (let i = wr_idx q AND qmask q in
      case storage_packet q of
        Live arr \<Rightarrow>
          if unat i < length arr
          then do {
            ps \<leftarrow> rd (pp_points pkt) 0 (unat (pp_points_num pkt));
            Some (q\<lparr>storage_packet := Live (arr[unat i :=
                    \<lparr>base_time = t, points_num = pp_points_num pkt, points = ps\<rparr>]),
                  wr_idx := wr_idx q + 1\<rparr>)
          }
          else None
      | _ \<Rightarrow> None)"

section \<open>Powers of two\<close>

lemma unat_pow2:
  assumes "i < 32"
  shows "unat (2 ^ i :: u32) = 2 ^ i"
proof -
  have "(2 :: nat) ^ i < 2 ^ 32" using assms by (intro power_strict_increasing) simp_all
  moreover have "unat (of_nat (2 ^ i) :: u32) = 2 ^ i mod 2 ^ LENGTH(32)" by (rule unat_of_nat)
  ultimately have "unat (of_nat (2 ^ i) :: u32) = 2 ^ i" by (simp only: len_bit0 len_num1) simp
  then show ?thesis by simp
qed

lemma unat_push_bit_1: "i < 32 \<Longrightarrow> unat (push_bit i 1 :: u32) = 2 ^ i"
  using unat_pow2 [of i] by (simp add: push_bit_eq_mult)

lemma unat_mask_index: "k < 32 \<Longrightarrow> unat (i AND (2 ^ k - 1) :: u32) = unat i mod 2 ^ k"
proof -
  have "i AND (2 ^ k - 1) = take_bit k i" by (simp add: take_bit_eq_mask mask_eq_exp_minus_1)
  then show ?thesis by (simp only: unsigned_take_bit_eq) (simp add: take_bit_eq_mod)
qed

lemma unat_add_mod_pow2: "k < 32 \<Longrightarrow> unat (a + b :: u32) mod 2 ^ k = (unat a + unat b) mod 2 ^ k"
proof -
  assume "k < 32"
  then have "(2 :: nat) ^ k dvd 2 ^ 32" by (intro le_imp_power_dvd) simp
  then show ?thesis by (simp only: unat_word_ariths len_bit0 len_num1) (simp add: mod_mod_cancel)
qed

lemma roundup_loop_spec:
  assumes "unat sz \<le> 2 ^ 31" and "k \<le> 32" and "0 < k"
    and "32 - k = 0 \<or> 2 ^ (31 - k) < unat sz"
  shows "\<exists>i < 32. roundup_loop k sz p = push_bit i 1 \<and> unat sz \<le> 2 ^ i \<and> (i = 0 \<or> 2 ^ (i - 1) < unat sz)"
  using assms
proof (induction k arbitrary: p)
  case 0
  then show ?case by simp
next
  case (Suc k)
  have u: "unat (push_bit (31 - k) 1 :: u32) = 2 ^ (31 - k)"
    by (rule unat_push_bit_1) simp
  show ?case
  proof (cases "sz \<le> push_bit (31 - k) 1")
    case True
    then have "unat sz \<le> 2 ^ (31 - k)" using u by (simp only: word_le_nat_alt)
    then show ?thesis using True Suc.prems
      by (intro exI [of _ "31 - k"]) (auto simp: Let_def)
  next
    case False
    then have lt: "2 ^ (31 - k) < unat sz" using u by (simp only: word_le_nat_alt not_le)
    moreover have "0 < k" using lt Suc.prems(1) by (cases k) auto
    ultimately show ?thesis using False Suc.prems Suc.IH [of "push_bit (31 - k) 1"]
      by (simp add: Let_def)
  qed
qed

lemma roundup_unat:
  assumes "unat sz \<le> 2 ^ 31"
  obtains i where "i < 32" "RoundupPowerOf2 sz = push_bit i 1" "unat (RoundupPowerOf2 sz) = 2 ^ i"
    "unat sz \<le> 2 ^ i" "i = 0 \<or> 2 ^ (i - 1) < unat sz"
proof -
  from roundup_loop_spec [OF assms, of 32 0] obtain i where i: "i < 32"
    "RoundupPowerOf2 sz = push_bit i 1" "unat sz \<le> 2 ^ i" "i = 0 \<or> 2 ^ (i - 1) < unat sz"
    by (auto simp: RoundupPowerOf2_def)
  moreover have "unat (push_bit i 1 :: u32) = 2 ^ i"
    by (rule unat_push_bit_1 [OF i(1)])
  ultimately show thesis using that by metis
qed

text \<open>For a request of at most 2^31 the rounded size is the least power of two that is not below it.\<close>

theorem RoundupPowerOf2_least:
  assumes "unat sz \<le> 2 ^ 31"
  shows "\<exists>i < 32. unat (RoundupPowerOf2 sz) = 2 ^ i \<and> unat sz \<le> 2 ^ i \<and>
    (\<forall>j. unat sz \<le> 2 ^ j \<longrightarrow> i \<le> j)"
proof -
  obtain i where i: "i < 32" "unat (RoundupPowerOf2 sz) = 2 ^ i" "unat sz \<le> 2 ^ i"
    "i = 0 \<or> 2 ^ (i - 1) < unat sz"
    using roundup_unat [OF assms] by metis
  have "i \<le> j" if "unat sz \<le> 2 ^ j" for j
  proof (rule ccontr)
    assume "\<not> i \<le> j"
    then have "(2 :: nat) ^ j \<le> 2 ^ (i - 1)" by (intro power_increasing) simp_all
    then have "unat sz \<le> 2 ^ (i - 1)" using that by (rule le_trans [rotated])
    then show False using i(4) \<open>\<not> i \<le> j\<close> by (cases i) auto
  qed
  with i show ?thesis by blast
qed

theorem RoundupPowerOf2_least_witness:
  "\<exists>i < 32. unat (RoundupPowerOf2 11) = 2 ^ i \<and> (11 :: nat) \<le> 2 ^ i"
  using RoundupPowerOf2_least [of 11] by auto

section \<open>The queue is a bounded list\<close>

definition ldq_inv :: "nat \<Rightarrow> 'p LidarDataQueue \<Rightarrow> bool" where
  "ldq_inv k q \<longleftrightarrow> k < 32 \<and> qsize q = 2 ^ k \<and> qmask q = 2 ^ k - 1 \<and>
     unat (QueueUsedSize q) \<le> 2 ^ k \<and>
     (\<exists>arr. storage_packet q = Live arr \<and> length arr = 2 ^ k \<and>
        (\<forall>s \<in> set (ring_contents arr (unat (rd_idx q)) (unat (QueueUsedSize q))).
           unat (points_num s) = length (points s)))"

definition ldq_list :: "'p LidarDataQueue \<Rightarrow> 'p StoragePacket list" where
  "ldq_list q = (case storage_packet q of
     Live arr \<Rightarrow> ring_contents arr (unat (rd_idx q)) (unat (QueueUsedSize q)) | _ \<Rightarrow> [])"

text \<open>The writer of the repository, \<^verbatim>\<open>Lds::PushLidarData\<close>, drops a packet when the queue is full.\<close>

definition ldq_enq :: "'p StoragePacket \<Rightarrow> 'p LidarDataQueue \<Rightarrow> 'p LidarDataQueue option" where
  "ldq_enq s q = (if QueueIsFull q then None
     else QueuePushAny \<lparr>pp_handle = 0, pp_lidar_type = 8, pp_points_num = points_num s, pp_points = points s\<rparr>
            (base_time s) q)"

definition ldq_deq :: "'p LidarDataQueue \<Rightarrow> ('p StoragePacket \<times> 'p LidarDataQueue) option" where
  "ldq_deq q = (case QueuePop q of Some (Some s, q') \<Rightarrow> Some (s, q') | _ \<Rightarrow> None)"

lemma ldq_list_Live:
  "storage_packet q = Live arr \<Longrightarrow> ldq_list q = ring_contents arr (unat (rd_idx q)) (unat (QueueUsedSize q))"
  by (simp add: ldq_list_def)

lemma length_ldq_list: "ldq_inv k q \<Longrightarrow> length (ldq_list q) = unat (QueueUsedSize q)"
  by (auto simp: ldq_inv_def ldq_list_def)

lemma QueueIsFull_iff:
  assumes "ldq_inv k q"
  shows "QueueIsFull q \<longleftrightarrow> length (ldq_list q) = 2 ^ k"
proof -
  have k: "k < 32" "qmask q = 2 ^ k - 1" "unat (QueueUsedSize q) \<le> 2 ^ k"
    using assms by (simp_all add: ldq_inv_def)
  have "unat (2 ^ k - 1 :: u32) = 2 ^ k - 1"
    using k(1) unat_mask_index [of k "-1"] by (simp add: unat_pow2 unat_sub word_le_nat_alt)
  then have "QueueIsFull q \<longleftrightarrow> 2 ^ k - 1 < unat (QueueUsedSize q)"
    by (simp add: QueueIsFull_def QueueUsedSize_def k(2) word_less_nat_alt)
  also have "\<dots> \<longleftrightarrow> unat (QueueUsedSize q) = 2 ^ k"
    using k(3) zero_less_power [of "2 :: nat" k] by linarith
  finally show ?thesis using length_ldq_list [OF assms] by simp
qed

lemma QueueIsEmpty_iff:
  assumes "ldq_inv k q"
  shows "QueueIsEmpty q \<longleftrightarrow> ldq_list q = []"
proof -
  have "ldq_list q = [] \<longleftrightarrow> QueueUsedSize q = 0"
    using length_ldq_list [OF assms] by (metis length_0_conv unat_eq_zero)
  then show ?thesis by (auto simp: QueueIsEmpty_def QueueUsedSize_def)
qed

lemma ldq_push:
  assumes q: "ldq_inv k q" and room: "length (ldq_list q) < 2 ^ k"
    and pkt: "unat (pp_points_num pkt) \<le> length (pp_points pkt)"
    and s: "s = \<lparr>base_time = t, points_num = pp_points_num pkt,
        points = take (unat (pp_points_num pkt)) (pp_points pkt)\<rparr>"
  shows "\<exists>q'. QueuePushAny pkt t q = Some q' \<and> ldq_list q' = ldq_list q @ [s] \<and> ldq_inv k q'"
proof -
  obtain arr where arr: "storage_packet q = Live arr" "length arr = 2 ^ k"
    "\<forall>s \<in> set (ring_contents arr (unat (rd_idx q)) (unat (QueueUsedSize q))).
       unat (points_num s) = length (points s)"
    and k: "k < 32" "qsize q = 2 ^ k" "qmask q = 2 ^ k - 1"
    using q by (auto simp: ldq_inv_def)
  let ?u = "unat (QueueUsedSize q)" and ?i = "unat (wr_idx q AND qmask q)"
  let ?q = "q\<lparr>storage_packet := Live (arr[?i := s]), wr_idx := wr_idx q + 1\<rparr>"
  have u: "?u < 2 ^ k" using room length_ldq_list [OF q] by simp
  have "(2 :: nat) ^ k \<le> 2 ^ 31" using k(1) by (intro power_increasing) simp_all
  then have u1: "unat (QueueUsedSize q + 1) = ?u + 1" using u by (simp add: unat_word_ariths)
  have "unat (rd_idx q + QueueUsedSize q) mod 2 ^ k = (unat (rd_idx q) + ?u) mod 2 ^ k"
    by (rule unat_add_mod_pow2 [OF k(1)])
  then have i: "?i = (unat (rd_idx q) + ?u) mod 2 ^ k"
    by (simp add: k(3) unat_mask_index [OF k(1)] QueueUsedSize_def)
  have used: "QueueUsedSize ?q = QueueUsedSize q + 1"
    by (simp add: QueueUsedSize_def algebra_simps)
  have l: "ldq_list ?q = ldq_list q @ [s]"
    using ring_contents_put [of ?u arr "unat (rd_idx q)" s] u arr(1,2) i used u1
    by (simp add: ldq_list_Live)
  have "QueuePushAny pkt t q = Some ?q"
    using pkt arr(1,2) i by (simp add: QueuePushAny_def Let_def rd_def s)
  moreover have "ldq_inv k ?q"
    using k arr(2,3) u used u1 l [unfolded ldq_list_Live [of ?q "arr[?i := s]", simplified] ldq_list_Live [OF arr(1)]]
      pkt s by (auto simp: ldq_inv_def)
  ultimately show ?thesis using l by blast
qed

lemma ldq_pop:
  assumes q: "ldq_inv k q"
  shows "ldq_list q = [] \<and> QueuePop q = Some (None, q) \<or>
    (\<exists>s q'. QueuePop q = Some (Some s, q') \<and> ldq_list q = s # ldq_list q' \<and> ldq_inv k q')"
proof (cases "ldq_list q = []")
  case True
  then show ?thesis using QueueIsEmpty_iff [OF q] by (simp add: QueuePop_def QueuePrePop_def)
next
  case False
  obtain arr where arr: "storage_packet q = Live arr" "length arr = 2 ^ k"
    "\<forall>s \<in> set (ring_contents arr (unat (rd_idx q)) (unat (QueueUsedSize q))).
       unat (points_num s) = length (points s)"
    and k: "k < 32" "qsize q = 2 ^ k" "qmask q = 2 ^ k - 1" "unat (QueueUsedSize q) \<le> 2 ^ k"
    using q by (auto simp: ldq_inv_def)
  let ?q = "q\<lparr>rd_idx := rd_idx q + 1\<rparr>"
  obtain u where u: "unat (QueueUsedSize q) = Suc u"
    using False length_ldq_list [OF q] by (cases "unat (QueueUsedSize q)") auto
  have "QueueUsedSize ?q = QueueUsedSize q - 1" by (simp add: QueueUsedSize_def algebra_simps)
  then have used: "unat (QueueUsedSize ?q) = u"
    using u by (simp add: unat_sub word_le_nat_alt)
  have "unat (rd_idx q + 1) mod 2 ^ k = Suc (unat (rd_idx q)) mod 2 ^ k"
    using unat_add_mod_pow2 [OF k(1), of "rd_idx q" 1] by simp
  then have next_rd: "ring_contents arr (unat (rd_idx q + 1)) u = ring_contents arr (Suc (unat (rd_idx q))) u"
    using ring_contents_mod [of arr] arr(2) by metis
  let ?s = "arr ! (unat (rd_idx q) mod 2 ^ k)"
  have l: "ldq_list q = ?s # ldq_list ?q"
    using arr(1,2) u used next_rd by (simp add: ldq_list_Live ring_contents_Suc)
  have "unat (points_num ?s) = length (points ?s)"
    using arr l by (auto simp: ldq_list_Live)
  then have "QueuePrePop q = Some (Some ?s)"
    using False QueueIsEmpty_iff [OF q] arr(1,2)
    by (simp add: QueuePrePop_def slot_def k(3) unat_mask_index [OF k(1)] rd_def)
  then have "QueuePop q = Some (Some ?s, ?q)" by (simp add: QueuePop_def QueuePopUpdate_def)
  moreover have "ldq_inv k ?q"
    using k arr u used next_rd by (auto simp: ldq_inv_def ring_contents_Suc)
  ultimately show ?thesis using l by blast
qed

definition packet_ok :: "'p StoragePacket \<Rightarrow> bool" where
  "packet_ok s \<longleftrightarrow> unat (points_num s) = length (points s)"

lemma ldq_enq_cases:
  assumes "ldq_inv k q" and "packet_ok s"
  shows "length (ldq_list q) = 2 ^ k \<and> ldq_enq s q = None \<or>
    length (ldq_list q) < 2 ^ k \<and> (\<exists>q'. ldq_enq s q = Some q' \<and> ldq_list q' = ldq_list q @ [s] \<and> ldq_inv k q')"
proof (cases "QueueIsFull q")
  case True
  then show ?thesis using QueueIsFull_iff [OF assms(1)] by (simp add: ldq_enq_def)
next
  case False
  then have "length (ldq_list q) < 2 ^ k"
    using QueueIsFull_iff [OF assms(1)] length_ldq_list [OF assms(1)] assms(1) by (auto simp: ldq_inv_def)
  then show ?thesis
    using ldq_push [OF assms(1), of _ s "base_time s"] False assms(2)
    by (simp add: ldq_enq_def packet_ok_def)
qed

interpretation ldq: bounded_fifo packet_ok "ldq_inv k" ldq_list "2 ^ k" ldq_enq ldq_deq for k
proof (unfold_locales, goal_cases)
  case (1 q s)
  then show ?case using ldq_enq_cases [of k q s] by (auto simp: list_enq_def)
next
  case (2 q s q')
  then show ?case using ldq_enq_cases [of k q s] by auto
next
  case (3 q)
  then show ?case using ldq_pop [of k q] by (auto simp: ldq_deq_def)
next
  case (4 q s q')
  then show ?case using ldq_pop [of k q] by (auto simp: ldq_deq_def)
qed

text \<open>C24: a queue in a well-formed state, whatever its free-running indices are (they may wrap around 2^32
  in between), delivers the packets it accepts once, in order, and holds at most its size 2^k: all of its slots.\<close>

theorem ldq_fifo:
  assumes "ldq_inv k q" and "list_all packet_ok (enqueued ops)"
    and "run_fifo ldq_enq ldq_deq ops q = (ins, outs, q')"
  shows "ldq_list q @ ins = outs @ ldq_list q' \<and> length (ldq_list q') \<le> 2 ^ k"
proof -
  have "length (ldq_list q) \<le> 2 ^ k"
    using length_ldq_list [OF assms(1)] assms(1) by (simp add: ldq_inv_def)
  then show ?thesis using ldq.fifo [OF assms] by blast
qed

definition ldq_example :: "nat LidarDataQueue" where
  "ldq_example = \<lparr>storage_packet = Live (replicate 2 \<lparr>base_time = 0, points_num = 0, points = []\<rparr>),
     rd_idx = -1, wr_idx = -1, qmask = 1, qsize = 2\<rparr>"

theorem ldq_fifo_witness:
  "\<exists>q'. run_fifo ldq_enq ldq_deq
      [Enq \<lparr>base_time = 5, points_num = 1, points = [7]\<rparr>, Enq \<lparr>base_time = 6, points_num = 1, points = [8]\<rparr>,
       Deq, Deq] ldq_example =
    ([\<lparr>base_time = 5, points_num = 1, points = [7]\<rparr>, \<lparr>base_time = 6, points_num = 1, points = [8]\<rparr>],
     [\<lparr>base_time = 5, points_num = 1, points = [7]\<rparr>, \<lparr>base_time = 6, points_num = 1, points = [8]\<rparr>], q') \<and>
    ldq_list q' = []"
proof -
  let ?p = "\<lambda>t x. \<lparr>base_time = t, points_num = 1, points = [x :: nat]\<rparr>"
  obtain ins outs q' where run: "run_fifo ldq_enq ldq_deq [Enq (?p 5 7), Enq (?p 6 8), Deq, Deq] ldq_example
      = (ins, outs, q')" by (metis prod_cases3)
  have v: "ins = [?p 5 7, ?p 6 8] \<and> outs = [?p 5 7, ?p 6 8]"
    using run by (auto simp: ldq_example_def ldq_enq_def ldq_deq_def QueueIsFull_def QueuePushAny_def
        QueuePop_def QueuePrePop_def QueueIsEmpty_def QueuePopUpdate_def slot_def rd_def Let_def numeral_2_eq_2)
  have "ldq_inv 1 ldq_example"
    by (simp add: ldq_inv_def ldq_example_def QueueUsedSize_def)
  from ldq_fifo [OF this _ run] v have "ldq_list q' = []"
    by (simp add: packet_ok_def ldq_list_def ldq_example_def QueueUsedSize_def)
  with run v show ?thesis by blast
qed

section \<open>Life cycle\<close>

lemma IsPowerOf2_pow2: "i < 32 \<Longrightarrow> IsPowerOf2 (2 ^ i)"
proof -
  assume i: "i < 32"
  then have "unat ((2 :: u32) ^ i AND (2 ^ i - 1)) = 0"
    using unat_mask_index [of i "2 ^ i"] unat_pow2 [of i] by simp
  moreover have "(2 :: u32) ^ i \<noteq> 0" using unat_pow2 [OF i] by (metis unat_0 power_not_zero zero_neq_numeral)
  ultimately show ?thesis by (simp add: IsPowerOf2_def unat_0_iff)
qed

lemma InitQueue_inv:
  assumes "storage_packet q \<noteq> Freed" and "i < 32"
    and "(if IsPowerOf2 n then n else RoundupPowerOf2 n) = 2 ^ i"
  shows "\<exists>q'. InitQueue fresh n q = Some q' \<and> ldq_inv i q' \<and> ldq_list q' = []"
  using assms
  by (cases "storage_packet q")
    (auto simp: InitQueue_def Let_def ldq_inv_def ldq_list_def QueueUsedSize_def unat_pow2)

text \<open>Initialising a queue that owns no freed memory gives an empty well-formed queue of the least
  sufficient power-of-two size, for every request that is not a power of two and at most 2^31.\<close>

theorem InitQueue_ready:
  assumes "storage_packet q \<noteq> Freed" and "\<not> IsPowerOf2 n" and "unat n \<le> 2 ^ 31"
  shows "\<exists>i q'. InitQueue fresh n q = Some q' \<and> ldq_inv i q' \<and> ldq_list q' = [] \<and>
    unat n \<le> 2 ^ i \<and> (i = 0 \<or> 2 ^ (i - 1) < unat n)"
proof -
  obtain i where i: "i < 32" "RoundupPowerOf2 n = push_bit i 1"
    "unat n \<le> 2 ^ i" "i = 0 \<or> 2 ^ (i - 1) < unat n"
    using roundup_unat [OF assms(3)] by metis
  then show ?thesis using InitQueue_inv [OF assms(1) i(1), of n fresh] assms(2)
    by (auto simp: push_bit_eq_mult)
qed

theorem InitQueue_ready_witness:
  "\<exists>i q'. InitQueue \<lparr>base_time = 0, points_num = 0, points = []\<rparr> 11
       (ldq_example\<lparr>storage_packet := Nullptr\<rparr>) = Some q' \<and> ldq_inv i q' \<and> (11 :: nat) \<le> 2 ^ i"
  using InitQueue_ready [of "ldq_example\<lparr>storage_packet := Nullptr\<rparr>" 11 "\<lparr>base_time = 0, points_num = 0, points = []\<rparr>"]
  by (auto simp: IsPowerOf2_def)

text \<open>\<^verbatim>\<open>DeInitQueue\<close> leaves the pointer to the memory it frees in place: after it, initialising the queue
  again and a second \<^verbatim>\<open>DeInitQueue\<close> free that memory once more, and a push writes into it.\<close>

theorem DeInitQueue_dangling:
  assumes "storage_packet q = Live arr"
  shows "\<exists>q'. DeInitQueue q = Some q' \<and> DeInitQueue q' = None \<and> InitQueue fresh n q' = None \<and>
    \<not> QueueIsFull q' \<and> QueuePushAny pkt t q' = None"
  using assms by (auto simp: DeInitQueue_def InitQueue_def QueueIsFull_def QueuePushAny_def Let_def)

theorem DeInitQueue_dangling_witness:
  "\<exists>q'. DeInitQueue ldq_example = Some q' \<and> DeInitQueue q' = None"
proof -
  have "storage_packet ldq_example = Live (replicate 2 \<lparr>base_time = 0, points_num = 0, points = []\<rparr>)"
    by (simp add: ldq_example_def)
  from DeInitQueue_dangling [OF this] show ?thesis by blast
qed

end
