(* ===== verification/Ros_Comm.thy ===== *)
theory Ros_Comm
  imports Ros_Ldq Complex_Main
begin

text \<open>
  The data that the components of livox_ros_driver2 share (\<^verbatim>\<open>comm/comm.h\<close>, \<^verbatim>\<open>comm/comm.cpp\<close>,
  \<^verbatim>\<open>comm/lidar_imu_data_queue.h\<close>). Floating-point values are elements of a type \<open>'r\<close>, a field where
  they are computed with; floats that are only copied are their 32-bit images.
\<close>

abbreviation kMaxSourceLidar :: nat where "kMaxSourceLidar \<equiv> 32"
abbreviation kLivoxLidarType :: u8 where "kLivoxLidarType \<equiv> 8"

record 'r PointXyzlt =
  px :: 'r
  py :: 'r
  pz :: 'r
  intensity :: 'r
  pt_tag :: u8
  pt_line :: u8
  offset_time :: u64

record 'p PointFrame =
  frame_base_time :: "u64 list"
  lidar_num :: u8
  lidar_point :: "'p PointPacket list"

text \<open>The translation is in millimetres, \<^verbatim>\<open>int32_t\<close>.\<close>

record 'r ExtParameter =
  roll :: 'r
  pitch :: 'r
  yaw :: 'r
  ext_x :: u32
  ext_y :: u32
  ext_z :: u32

text \<open>The settings are \<^verbatim>\<open>int8_t\<close> and \<^verbatim>\<open>int32_t\<close> values; \<open>-1\<close> stands for a setting that is not configured.\<close>

record 'r UserLivoxLidarConfig =
  cfg_handle :: u32
  pcl_data_type :: int
  pattern_mode :: int
  blind_spot_set :: int
  dual_emit_en :: int
  extrinsic_param :: "'r ExtParameter"
  set_bits :: u32
  get_bits :: u32

datatype LidarConnectState =
  kConnectStateOff | kConnectStateOn | kConnectStateConfig | kConnectStateSampling

record ImuData =
  imu_lidar_type :: u8
  imu_handle :: u32
  imu_time_stamp :: u64
  imu_gyro :: "u32 \<times> u32 \<times> u32"
  imu_acc :: "u32 \<times> u32 \<times> u32"

record ('p, 'r) LidarDevice =
  lidar_type :: u8
  handle :: u32
  data_src :: u8
  connect_state :: LidarConnectState
  data :: "'p LidarDataQueue"
  imu_data :: "ImuData list"
  livox_config :: "'r UserLivoxLidarConfig"

definition CalculatePacketQueueSize :: "rat \<Rightarrow> u32" where
  "CalculatePacketQueueSize publish_freq =
     (if publish_freq > 10 then of_int \<lfloor>publish_freq\<rfloor> + 1 else 10)"

lemma first_period:
  assumes "CHR ''.'' \<in> set s"
  obtains a b where "s = a @ CHR ''.'' # b" "CHR ''.'' \<notin> set a"
    "takeWhile (\<lambda>c. c \<noteq> CHR ''.'') s = a" "tl (dropWhile (\<lambda>c. c \<noteq> CHR ''.'') s) = b"
proof -
  from split_list_first [OF assms] obtain a b where "s = a @ CHR ''.'' # b" "CHR ''.'' \<notin> set a" by blast
  moreover from this have "takeWhile (\<lambda>c. c \<noteq> CHR ''.'') s = a" "dropWhile (\<lambda>c. c \<noteq> CHR ''.'') s = CHR ''.'' # b"
    by (auto simp: takeWhile_append dropWhile_append)
  ultimately show thesis using that by simp
qed

text \<open>The loop of \<^verbatim>\<open>ReplacePeriodByUnderline\<close> always replaces the first period that is left.\<close>

function ReplacePeriodByUnderline :: "string \<Rightarrow> string" where
  "ReplacePeriodByUnderline s =
     (if CHR ''.'' \<in> set s
      then ReplacePeriodByUnderline
        (takeWhile (\<lambda>c. c \<noteq> CHR ''.'') s @ CHR ''_'' # tl (dropWhile (\<lambda>c. c \<noteq> CHR ''.'') s))
      else s)"
  by pat_completeness auto

termination ReplacePeriodByUnderline
proof (relation "measure (\<lambda>s. length (filter (\<lambda>c. c = CHR ''.'') s))")
  fix s :: string assume "CHR ''.'' \<in> set s"
  then show "(takeWhile (\<lambda>c. c \<noteq> CHR ''.'') s @ CHR ''_'' # tl (dropWhile (\<lambda>c. c \<noteq> CHR ''.'') s), s)
      \<in> measure (\<lambda>s. length (filter (\<lambda>c. c = CHR ''.'') s))"
    by (rule first_period) simp
qed simp

declare ReplacePeriodByUnderline.simps [simp del]

lemma ReplacePeriodByUnderline_map:
  "ReplacePeriodByUnderline s = map (\<lambda>c. if c = CHR ''.'' then CHR ''_'' else c) s"
proof (induction s rule: ReplacePeriodByUnderline.induct)
  case (1 s)
  show ?case
  proof (cases "CHR ''.'' \<in> set s")
    case True
    then obtain a b where s: "s = a @ CHR ''.'' # b" "CHR ''.'' \<notin> set a"
      "takeWhile (\<lambda>c. c \<noteq> CHR ''.'') s = a" "tl (dropWhile (\<lambda>c. c \<noteq> CHR ''.'') s) = b"
      by (rule first_period)
    have "ReplacePeriodByUnderline s = map (\<lambda>c. if c = CHR ''.'' then CHR ''_'' else c) (a @ CHR ''_'' # b)"
      using True 1 s(3,4) by (subst ReplacePeriodByUnderline.simps) simp
    then show ?thesis using s(1) by simp
  next
    case False
    then have "map (\<lambda>c. if c = CHR ''.'' then CHR ''_'' else c) s = s"
      by (intro map_idI) auto
    then show ?thesis using False by (subst ReplacePeriodByUnderline.simps) simp
  qed
qed

end
