(* ===== verification/Ros_Lds.thy ===== *)
theory Ros_Lds
  imports Ros_Comm
begin

text \<open>
  The lidar data source of livox_ros_driver2: the table of slots (\<^verbatim>\<open>comm/cache_index.cpp\<close>), the 32 lidar
  devices with their queues (\<^verbatim>\<open>lds.cpp\<close>, \<^verbatim>\<open>comm/lidar_imu_data_queue.cpp\<close>) and the callbacks that
  store what the point and IMU handlers deliver (\<^verbatim>\<open>call_back/lidar_common_callback.cpp\<close>).
\<close>

section \<open>Slots\<close>

record CacheIndex =
  map_index :: "string \<Rightarrow> u8 option"
  index_cache :: "bool list"

definition mk_CacheIndex :: CacheIndex where
  "mk_CacheIndex = \<lparr>map_index = (\<lambda>_. None), index_cache = replicate kMaxSourceLidar False\<rparr>"

text \<open>A return of \<open>-1\<close> is \<^term>\<open>None\<close>, a return of \<open>0\<close> with the index or key set is \<^term>\<open>Some i\<close>.\<close>

definition GenerateIndexKey :: "u8 \<Rightarrow> u32 \<Rightarrow> string option" where
  "GenerateIndexKey livox_lidar_type h =
     (if livox_lidar_type = kLivoxLidarType then Some (''livox_lidar_'' @ dec_string (unat h)) else None)"

fun free_slot :: "nat \<Rightarrow> bool list \<Rightarrow> nat option" where
  "free_slot i [] = None"
| "free_slot i (used # rest) = (if \<not> used then Some i else free_slot (Suc i) rest)"

text \<open>\<open>GetFreeIndex\<close> takes the lock twice: once to look the key up, once to take the first free slot.\<close>

definition take_slot :: "string \<Rightarrow> CacheIndex \<Rightarrow> u8 option \<times> CacheIndex" where
  "take_slot key s =
     (case free_slot 0 (index_cache s) of
        None \<Rightarrow> (None, s)
      | Some i \<Rightarrow> (Some (of_nat i), s\<lparr>index_cache := (index_cache s)[i := True],
            map_index := (map_index s)(key \<mapsto> of_nat i)\<rparr>))"

definition GetFreeIndex :: "u8 \<Rightarrow> u32 \<Rightarrow> CacheIndex \<Rightarrow> u8 option \<times> CacheIndex" where
  "GetFreeIndex t h s =
     (case GenerateIndexKey t h of
        None \<Rightarrow> (None, s)
      | Some key \<Rightarrow> (case map_index s key of
            Some i \<Rightarrow> (Some i, s)
          | None \<Rightarrow> take_slot key s))"

definition GetIndex :: "u8 \<Rightarrow> u32 \<Rightarrow> CacheIndex \<Rightarrow> u8 option" where
  "GetIndex t h s = do { key \<leftarrow> GenerateIndexKey t h; map_index s key }"

definition LvxGetIndex :: "u8 \<Rightarrow> u32 \<Rightarrow> CacheIndex \<Rightarrow> u8 option \<times> CacheIndex" where
  "LvxGetIndex t h s =
     (case GenerateIndexKey t h of
        None \<Rightarrow> (None, s)
      | Some key \<Rightarrow> (case map_index s key of
            Some i \<Rightarrow> (Some i, s)
          | None \<Rightarrow> GetFreeIndex t h s))"

definition ResetIndex :: "u8 \<Rightarrow> u32 \<Rightarrow> CacheIndex \<Rightarrow> CacheIndex" where
  "ResetIndex t h s =
     (case GenerateIndexKey t h of
        None \<Rightarrow> s
      | Some key \<Rightarrow> (case map_index s key of
            None \<Rightarrow> s
          | Some i \<Rightarrow> s\<lparr>map_index := (map_index s)(key := None),
                index_cache := (index_cache s)[unat i := False]\<rparr>))"

text \<open>Every key in use has a slot of its own, and every slot in use has a key.\<close>

definition ci_inv :: "CacheIndex \<Rightarrow> bool" where
  "ci_inv s \<longleftrightarrow> length (index_cache s) = kMaxSourceLidar \<and> inj_on (map_index s) (dom (map_index s)) \<and>
     (\<forall>i < kMaxSourceLidar. index_cache s ! i \<longleftrightarrow> (\<exists>k. map_index s k = Some (of_nat i))) \<and>
     (\<forall>k i. map_index s k = Some i \<longrightarrow> unat i < kMaxSourceLidar)"

lemma ci_inv_init: "ci_inv mk_CacheIndex"
  by (simp add: ci_inv_def mk_CacheIndex_def)

lemma free_slot_Some: "free_slot k bs = Some i \<Longrightarrow> k \<le> i \<and> i < k + length bs \<and> \<not> bs ! (i - k)"
proof (induction k bs rule: free_slot.induct)
  case (1 i)
  then show ?case by simp
next
  case (2 k used rest)
  then show ?case by (auto simp: nth_Cons' split: if_splits)
qed

lemma free_slot_None: "free_slot k bs = None \<longleftrightarrow> list_all (\<lambda>b. b) bs"
  by (induction k bs rule: free_slot.induct) auto

lemma GenerateIndexKey_inj:
  "GenerateIndexKey t h = Some k \<Longrightarrow> GenerateIndexKey t' h' = Some k \<Longrightarrow> h = h'"
  by (auto simp: GenerateIndexKey_def dec_string_inj word_unat_eq_iff split: if_splits)

lemma GenerateIndexKey_type: "GenerateIndexKey t h = Some k \<Longrightarrow> t = kLivoxLidarType"
  by (simp add: GenerateIndexKey_def split: if_splits)

lemma unat_of_nat_slot [simp]: "i < 32 \<Longrightarrow> unat (of_nat i :: u8) = i"
  by (simp add: unat_of_nat)

lemma slot_word: "unat (i :: u8) < 32 \<Longrightarrow> of_nat (unat i) = i"
  by simp

lemma ex_map_upd:
  "m key \<noteq> Some x \<Longrightarrow> v \<noteq> Some x \<Longrightarrow> (\<exists>k. (m(key := v)) k = Some x) \<longleftrightarrow> (\<exists>k. m k = Some x)"
  by (metis fun_upd_other fun_upd_same)

lemma take_slot_cases:
  assumes "ci_inv s" and "map_index s key = None"
  shows "(\<forall>i < kMaxSourceLidar. \<exists>k. map_index s k = Some (of_nat i)) \<and> take_slot key s = (None, s) \<or>
    (\<exists>i s'. unat i < kMaxSourceLidar \<and> (\<forall>k. map_index s k \<noteq> Some i) \<and> take_slot key s = (Some i, s') \<and>
       map_index s' = (map_index s)(key \<mapsto> i) \<and> ci_inv s')"
proof (cases "free_slot 0 (index_cache s)")
  case None
  then have "\<forall>i < kMaxSourceLidar. index_cache s ! i"
    using assms(1) by (simp add: free_slot_None ci_inv_def list_all_length)
  then show ?thesis using assms(1) None by (simp add: take_slot_def ci_inv_def)
next
  case (Some i)
  have i: "i < 32" "\<not> index_cache s ! i"
    using free_slot_Some [OF Some] assms(1) by (simp_all add: ci_inv_def)
  let ?s = "s\<lparr>index_cache := (index_cache s)[i := True], map_index := (map_index s)(key \<mapsto> of_nat i)\<rparr>"
  have fresh: "map_index s k \<noteq> Some (of_nat i)" for k
    using assms(1) i by (auto simp: ci_inv_def)
  have "inj_on (map_index ?s) (dom (map_index ?s))"
    using assms fresh by (force simp: ci_inv_def inj_on_def)
  moreover have "index_cache ?s ! j \<longleftrightarrow> (\<exists>k. map_index ?s k = Some (of_nat j))" if j: "j < 32" for j
  proof (cases "j = i")
    case True
    then show ?thesis using i(1) assms(1) by (auto simp: ci_inv_def)
  next
    case False
    then have "(of_nat i :: u8) \<noteq> of_nat j" using i(1) j by (metis unat_of_nat_slot)
    then have "(\<exists>k. ((map_index s)(key \<mapsto> of_nat i)) k = Some (of_nat j)) \<longleftrightarrow> (\<exists>k. map_index s k = Some (of_nat j))"
      using assms(2) by (intro ex_map_upd) simp_all
    moreover have "index_cache s ! j \<longleftrightarrow> (\<exists>k. map_index s k = Some (of_nat j))"
      using assms(1) j by (simp add: ci_inv_def)
    ultimately show ?thesis using False by simp
  qed
  ultimately have "ci_inv ?s" using assms(1) i(1) by (auto simp: ci_inv_def)
  then show ?thesis using Some fresh i(1)
    by (intro disjI2 exI [of _ "of_nat i :: u8"] exI [of _ ?s]) (simp add: take_slot_def)
qed

lemma ci_inv_ResetIndex:
  assumes "ci_inv s"
  shows "ci_inv (ResetIndex t h s)"
proof (cases "\<exists>key i. GenerateIndexKey t h = Some key \<and> map_index s key = Some i")
  case False
  then show ?thesis using assms by (auto simp: ResetIndex_def split: option.splits)
next
  case True
  then obtain key i where k: "GenerateIndexKey t h = Some key" "map_index s key = Some i" by blast
  have "k = key" if "map_index s k = Some i" for k
    using assms k(2) that inj_onD [of "map_index s" "dom (map_index s)" k key] by (auto simp: ci_inv_def)
  then have only: "map_index s k = Some i \<longleftrightarrow> k = key" for k using k(2) by blast
  have i: "unat i < 32" using assms k(2) by (auto simp: ci_inv_def)
  have slots: "index_cache s ! j \<longleftrightarrow> (\<exists>k. map_index s k = Some (of_nat j))" if "j < 32" for j
    using assms that by (simp add: ci_inv_def)
  have "(index_cache s)[unat i := False] ! j \<longleftrightarrow> (\<exists>k. ((map_index s)(key := None)) k = Some (of_nat j))"
    if j: "j < 32" for j
  proof (cases "j = unat i")
    case True
    then show ?thesis using assms only i by (auto simp: ci_inv_def)
  next
    case False
    then have "(of_nat j :: u8) \<noteq> i" using j by (metis unat_of_nat_slot)
    then have "(\<exists>k. ((map_index s)(key := None)) k = Some (of_nat j)) \<longleftrightarrow> (\<exists>k. map_index s k = Some (of_nat j))"
      using k(2) by (intro ex_map_upd) simp_all
    then show ?thesis using False slots [OF j] by simp
  qed
  moreover have "inj_on ((map_index s)(key := None)) (dom ((map_index s)(key := None)))"
    using assms by (auto simp: ci_inv_def inj_on_def)
  ultimately show ?thesis using assms k by (auto simp: ResetIndex_def ci_inv_def)
qed

lemma ci_inv_take_slot: "ci_inv s \<Longrightarrow> map_index s key = None \<Longrightarrow> ci_inv (snd (take_slot key s))"
  using take_slot_cases [of s key] by auto

lemma ci_inv_GetFreeIndex: "ci_inv s \<Longrightarrow> ci_inv (snd (GetFreeIndex t h s))"
  using ci_inv_take_slot [of s] by (simp add: GetFreeIndex_def split: option.split)

lemma LvxGetIndex_eq: "LvxGetIndex t h s = GetFreeIndex t h s"
  by (simp add: LvxGetIndex_def GetFreeIndex_def split: option.splits)

subsection \<open>Sequences of requests\<close>

datatype slot_op = Acquire u32 | Release u32

fun slot_step :: "slot_op \<Rightarrow> CacheIndex \<Rightarrow> CacheIndex" where
  "slot_step (Acquire h) s = snd (GetFreeIndex kLivoxLidarType h s)"
| "slot_step (Release h) s = ResetIndex kLivoxLidarType h s"

definition run_slots :: "slot_op list \<Rightarrow> CacheIndex" where
  "run_slots ops = fold slot_step ops mk_CacheIndex"

definition ci_keys :: "CacheIndex \<Rightarrow> bool" where
  "ci_keys s \<longleftrightarrow> (\<forall>k \<in> dom (map_index s). \<exists>h. GenerateIndexKey kLivoxLidarType h = Some k)"

lemma take_slot_keys: "ci_keys s \<Longrightarrow> GenerateIndexKey kLivoxLidarType h = Some key \<Longrightarrow> ci_keys (snd (take_slot key s))"
  by (auto simp: take_slot_def ci_keys_def split: option.splits)

lemma slot_step_inv:
  assumes "ci_inv s" and "ci_keys s"
  shows "ci_inv (slot_step x s) \<and> ci_keys (slot_step x s)"
proof (cases x)
  case (Acquire h)
  have "ci_keys (snd (GetFreeIndex kLivoxLidarType h s))"
    using assms(2) take_slot_keys [OF assms(2), of h] by (simp add: GetFreeIndex_def split: option.split)
  then show ?thesis using Acquire ci_inv_GetFreeIndex [OF assms(1)] by simp
next
  case (Release h)
  have "ci_keys (ResetIndex kLivoxLidarType h s)"
    using assms(2) by (auto simp: ResetIndex_def ci_keys_def split: option.splits)
  then show ?thesis using Release ci_inv_ResetIndex [OF assms(1)] by simp
qed

lemma run_slots_inv: "ci_inv (run_slots ops) \<and> ci_keys (run_slots ops)"
proof -
  have "ci_inv s \<Longrightarrow> ci_keys s \<Longrightarrow> ci_inv (fold slot_step ops s) \<and> ci_keys (fold slot_step ops s)" for s
  proof (induction ops arbitrary: s)
    case Nil
    then show ?case by simp
  next
    case (Cons x ops)
    then show ?case using slot_step_inv [of s x] by simp
  qed
  then show ?thesis using ci_inv_init by (simp add: run_slots_def ci_keys_def mk_CacheIndex_def)
qed

lemma GetIndex_key: "GenerateIndexKey kLivoxLidarType h = Some (''livox_lidar_'' @ dec_string (unat h))"
  by (simp add: GenerateIndexKey_def)

lemma GetIndex_inj:
  assumes "ci_inv s" and "GetIndex t h s = Some i" and "GetIndex t' h' s = Some i"
  shows "h = h'"
proof -
  obtain k k' where k: "GenerateIndexKey t h = Some k" "map_index s k = Some i"
    "GenerateIndexKey t' h' = Some k'" "map_index s k' = Some i"
    using assms(2,3) by (auto simp: GetIndex_def split: bind_splits)
  then have "k = k'" using assms(1) inj_onD [of "map_index s" "dom (map_index s)" k k'] by (auto simp: ci_inv_def)
  then show ?thesis using k GenerateIndexKey_inj by blast
qed

lemma GetIndex_lt: "ci_inv s \<Longrightarrow> GetIndex t h s = Some i \<Longrightarrow> unat i < kMaxSourceLidar"
  by (auto simp: GetIndex_def ci_inv_def split: bind_splits)

lemma GetIndex_upd:
  assumes "GenerateIndexKey kLivoxLidarType h = Some key" and "map_index s' = (map_index s)(key := v)"
  shows "GetIndex kLivoxLidarType h' s' = (if h' = h then v else GetIndex kLivoxLidarType h' s)"
proof (cases "h' = h")
  case True
  then show ?thesis using assms by (simp add: GetIndex_def)
next
  case False
  obtain k' where k': "GenerateIndexKey kLivoxLidarType h' = Some k'" using GetIndex_key by blast
  with False assms(1) have "k' \<noteq> key" using GenerateIndexKey_inj by blast
  then show ?thesis using False k' assms(2) by (simp add: GetIndex_def)
qed

text \<open>C23: the table of slots, after any sequence of acquisitions and releases: different lidars have different
  slots below 32; acquiring gives a lidar the slot it has, or a free one, without touching the
  others; it is refused only when 32 other lidars hold all slots; a release frees the slot.\<close>

theorem slots_are_owned:
  assumes "s = run_slots ops"
  shows "(\<forall>a b i. GetIndex kLivoxLidarType a s = Some i \<longrightarrow> GetIndex kLivoxLidarType b s = Some i \<longrightarrow> a = b) \<and>
    (\<forall>a i. GetIndex kLivoxLidarType a s = Some i \<longrightarrow> unat i < kMaxSourceLidar) \<and>
    (case GetFreeIndex kLivoxLidarType h s of
        (None, s') \<Rightarrow> s' = s \<and> GetIndex kLivoxLidarType h s = None \<and>
          (\<forall>i < kMaxSourceLidar. \<exists>a. GetIndex kLivoxLidarType a s = Some (of_nat i))
      | (Some i, s') \<Rightarrow> GetIndex kLivoxLidarType h s \<in> {None, Some i} \<and>
          (\<forall>a. GetIndex kLivoxLidarType a s' = (if a = h then Some i else GetIndex kLivoxLidarType a s))) \<and>
    (\<forall>a. GetIndex kLivoxLidarType a (ResetIndex kLivoxLidarType h s) = (if a = h then None else GetIndex kLivoxLidarType a s))"
proof -
  have inv: "ci_inv s" "ci_keys s" using run_slots_inv assms by simp_all
  obtain key where key: "GenerateIndexKey kLivoxLidarType h = Some key" using GetIndex_key by blast
  have get: "GetIndex kLivoxLidarType h s = map_index s key" using key by (simp add: GetIndex_def)
  have owner: "\<exists>a. GetIndex kLivoxLidarType a s = Some i" if "map_index s k = Some i" for k i
  proof -
    have "k \<in> dom (map_index s)" using that by blast
    with inv(2) obtain a where "GenerateIndexKey kLivoxLidarType a = Some k" unfolding ci_keys_def by blast
    with that have "GetIndex kLivoxLidarType a s = Some i" by (simp add: GetIndex_def)
    then show ?thesis ..
  qed
  have free: "case GetFreeIndex kLivoxLidarType h s of
        (None, s') \<Rightarrow> s' = s \<and> GetIndex kLivoxLidarType h s = None \<and>
          (\<forall>i < kMaxSourceLidar. \<exists>a. GetIndex kLivoxLidarType a s = Some (of_nat i))
      | (Some i, s') \<Rightarrow> GetIndex kLivoxLidarType h s \<in> {None, Some i} \<and>
          (\<forall>a. GetIndex kLivoxLidarType a s' = (if a = h then Some i else GetIndex kLivoxLidarType a s))"
  proof (cases "map_index s key")
    case None
    from take_slot_cases [OF inv(1) None] show ?thesis
    proof (elim disjE conjE exE)
      assume "\<forall>i < kMaxSourceLidar. \<exists>k. map_index s k = Some (of_nat i)" "take_slot key s = (None, s)"
      then show ?thesis using key None get owner by (simp add: GetFreeIndex_def) blast
    next
      fix i s' assume "take_slot key s = (Some i, s')" "map_index s' = (map_index s)(key \<mapsto> i)"
      then show ?thesis using key None get GetIndex_upd [OF key] by (simp add: GetFreeIndex_def)
    qed
  next
    case (Some i)
    then show ?thesis using key get by (simp add: GetFreeIndex_def)
  qed
  have reset: "GetIndex kLivoxLidarType a (ResetIndex kLivoxLidarType h s)
      = (if a = h then None else GetIndex kLivoxLidarType a s)" for a
  proof (cases "map_index s key")
    case None
    then show ?thesis using key get by (simp add: ResetIndex_def)
  next
    case (Some i)
    then show ?thesis using key GetIndex_upd [OF key, of "ResetIndex kLivoxLidarType h s" s None]
      by (simp add: ResetIndex_def)
  qed
  show ?thesis using GetIndex_inj [OF inv(1)] GetIndex_lt [OF inv(1)] free reset by blast
qed

lemma slots_are_owned_witness:
  "GetIndex kLivoxLidarType 7 (run_slots [Acquire 5, Acquire 7, Release 5]) \<noteq>
   GetIndex kLivoxLidarType 9 (snd (GetFreeIndex kLivoxLidarType 9 (run_slots [Acquire 5, Acquire 7, Release 5])))"
proof -
  let ?s = "run_slots [Acquire 5, Acquire 7, Release 5]"
  have "GetIndex kLivoxLidarType 7 ?s = Some 1" "fst (GetFreeIndex kLivoxLidarType 9 ?s) = Some 0"
    by code_simp+
  moreover from this slots_are_owned [OF refl, where ops = "[Acquire 5, Acquire 7, Release 5]" and h = 9]
  have "GetIndex kLivoxLidarType 9 (snd (GetFreeIndex kLivoxLidarType 9 ?s)) = Some 0" by (cases "GetFreeIndex kLivoxLidarType 9 ?s") (auto split: option.splits)
  ultimately show ?thesis by simp
qed

text \<open>Two threads that acquire a slot for the same lidar may both find no entry before either takes a slot:
  the second then overwrites the entry of the first, whose slot stays in use without an owner.\<close>

theorem GetFreeIndex_race:
  assumes "ci_inv s" and "map_index s key = None"
    and "take_slot key s = (Some i, s1)" and "take_slot key s1 = (Some j, s2)"
  shows "i \<noteq> j \<and> map_index s2 key = Some j \<and> index_cache s2 ! unat i \<and> (\<forall>k. map_index s2 k \<noteq> Some i)"
proof -
  have fresh: "unat i < 32" "\<forall>k. map_index s k \<noteq> Some i" "map_index s1 = (map_index s)(key \<mapsto> i)" "ci_inv s1"
    using take_slot_cases [OF assms(1,2)] assms(3) by auto
  then have "index_cache s1 ! unat i"
    by (auto simp: ci_inv_def)
  obtain n where n: "free_slot 0 (index_cache s1) = Some n" "j = of_nat n"
    "s2 = s1\<lparr>index_cache := (index_cache s1)[n := True], map_index := (map_index s1)(key \<mapsto> of_nat n)\<rparr>"
    using assms(4) by (auto simp: take_slot_def split: option.splits)
  have "n < 32" "\<not> index_cache s1 ! n" using free_slot_Some [OF n(1)] fresh(4) by (simp_all add: ci_inv_def)
  with \<open>index_cache s1 ! unat i\<close> have "i \<noteq> j" using n(2) by auto
  then show ?thesis using n fresh \<open>index_cache s1 ! unat i\<close> \<open>n < 32\<close>
    by (auto simp: nth_list_update ci_inv_def)
qed

lemma GetFreeIndex_race_witness:
  "\<exists>s1 s2. take_slot ''k'' mk_CacheIndex = (Some 0, s1) \<and> take_slot ''k'' s1 = (Some 1, s2) \<and>
    (\<forall>k. map_index s2 k \<noteq> Some 0)"
proof -
  let ?s1 = "snd (take_slot ''k'' mk_CacheIndex)" and ?s2 = "snd (take_slot ''k'' (snd (take_slot ''k'' mk_CacheIndex)))"
  have t: "fst (take_slot ''k'' mk_CacheIndex) = Some 0" "fst (take_slot ''k'' ?s1) = Some 1" by code_simp+
  then have "take_slot ''k'' mk_CacheIndex = (Some 0, ?s1)" "take_slot ''k'' ?s1 = (Some 1, ?s2)"
    by (metis prod.collapse)+
  then show ?thesis using GetFreeIndex_race [OF ci_inv_init, of "''k''" 0 ?s1 1 ?s2] by (auto simp: mk_CacheIndex_def)
qed

section \<open>The data source\<close>

record ('p, 'r) Lds =
  lidar_count :: u8
  lidars :: "('p, 'r) LidarDevice list"
  pcd_semaphore :: int
  imu_semaphore :: int
  cache_index :: CacheIndex
  publish_freq :: rat
  lds_data_src :: u8
  request_exit :: bool

definition Signal :: "int \<Rightarrow> int" where
  "Signal count = count + 1"

text \<open>\<^term>\<open>None\<close>: the caller blocks.\<close>

definition Wait :: "int \<Rightarrow> int option" where
  "Wait count = (if count > 0 then Some (count - 1) else None)"

definition imu_Push :: "ImuData \<Rightarrow> ImuData list \<Rightarrow> ImuData list" where
  "imu_Push d q = q @ [d]"

definition imu_Pop :: "ImuData list \<Rightarrow> (ImuData \<times> ImuData list) option" where
  "imu_Pop q = (case q of [] \<Rightarrow> None | d # rest \<Rightarrow> Some (d, rest))"

definition imu_Empty :: "ImuData list \<Rightarrow> bool" where
  "imu_Empty q \<longleftrightarrow> q = []"

definition imu_Clear :: "ImuData list \<Rightarrow> ImuData list" where
  "imu_Clear q = []"

text \<open>\<^term>\<open>None\<close> is the second release of a queue.\<close>

definition ResetLidar :: "u8 \<Rightarrow> ('p, 'r) LidarDevice \<Rightarrow> ('p, 'r) LidarDevice option" where
  "ResetLidar src d = do {
     q \<leftarrow> DeInitQueue (data d);
     Some (d\<lparr>data := q, imu_data := imu_Clear (imu_data d), data_src := src, connect_state := kConnectStateOff\<rparr>)
   }"

definition SetLidarDataSrc :: "u8 \<Rightarrow> ('p, 'r) LidarDevice \<Rightarrow> ('p, 'r) LidarDevice" where
  "SetLidarDataSrc src d = d\<lparr>data_src := src\<rparr>"

definition update_lidar :: "(('p, 'r) LidarDevice \<Rightarrow> ('p, 'r) LidarDevice option) \<Rightarrow> nat \<Rightarrow> ('p, 'r) Lds \<Rightarrow> ('p, 'r) Lds option" where
  "update_lidar f i s = do { d \<leftarrow> nth_opt (lidars s) i; d \<leftarrow> f d; Some (s\<lparr>lidars := (lidars s)[i := d]\<rparr>) }"

definition ResetLds :: "u8 \<Rightarrow> ('p, 'r) Lds \<Rightarrow> ('p, 'r) Lds option" where
  "ResetLds src s = foldM (update_lidar (ResetLidar src)) [0..<kMaxSourceLidar] (s\<lparr>lidar_count := 32\<rparr>)"

definition RequestExit :: "('p, 'r) Lds \<Rightarrow> ('p, 'r) Lds" where
  "RequestExit s = s\<lparr>request_exit := True\<rparr>"

definition IsAllQueueEmpty :: "('p, 'r) Lds \<Rightarrow> bool" where
  "IsAllQueueEmpty s = list_all (\<lambda>d. QueueIsEmpty (data d)) (take (unat (lidar_count s)) (lidars s))"

definition IsAllQueueReadStop :: "('p, 'r) Lds \<Rightarrow> bool" where
  "IsAllQueueReadStop s = list_all (\<lambda>d. QueueUsedSize (data d) = 0) (take (unat (lidar_count s)) (lidars s))"

definition fresh_packet :: "'p StoragePacket" where
  "fresh_packet = \<lparr>base_time = 0, points_num = 0, points = []\<rparr>"

definition signal_pcd :: "('p, 'r) Lds \<Rightarrow> ('p, 'r) Lds" where
  "signal_pcd s = (if pcd_semaphore s \<le> 0 then s\<lparr>pcd_semaphore := Signal (pcd_semaphore s)\<rparr> else s)"

definition ensure_queue :: "rat \<Rightarrow> 'p LidarDataQueue \<Rightarrow> 'p LidarDataQueue option" where
  "ensure_queue freq q =
     (if storage_packet q = Nullptr then InitQueue fresh_packet (CalculatePacketQueueSize freq) q else Some q)"

definition PushLidarData :: "'p PointPacket \<Rightarrow> u8 \<Rightarrow> u64 \<Rightarrow> ('p, 'r) Lds \<Rightarrow> ('p, 'r) Lds option" where
  "PushLidarData pkt index t s = do {
     d \<leftarrow> nth_opt (lidars s) (unat index);
     q \<leftarrow> ensure_queue (publish_freq s) (data d);
     if \<not> QueueIsFull q
     then do {
       q \<leftarrow> QueuePushAny pkt t q;
       let s = s\<lparr>lidars := (lidars s)[unat index := d\<lparr>data := q\<rparr>]\<rparr>;
       Some (if \<not> QueueIsEmpty q then signal_pcd s else s)
     }
     else Some (signal_pcd (s\<lparr>lidars := (lidars s)[unat index := d\<lparr>data := q\<rparr>]\<rparr>))
   }"

definition StorageImuData :: "ImuData \<Rightarrow> ('p, 'r) Lds \<Rightarrow> ('p, 'r) Lds option" where
  "StorageImuData d s =
     (if imu_lidar_type d \<noteq> kLivoxLidarType then Some s
      else (case GetIndex (imu_lidar_type d) (imu_handle d) (cache_index s) of
          None \<Rightarrow> Some s
        | Some i \<Rightarrow> do {
            dev \<leftarrow> nth_opt (lidars s) (unat i);
            let q = imu_Push d (imu_data dev);
            let s = s\<lparr>lidars := (lidars s)[unat i := dev\<lparr>imu_data := q\<rparr>]\<rparr>;
            Some (if \<not> imu_Empty q \<and> imu_semaphore s \<le> 0
                  then s\<lparr>imu_semaphore := Signal (imu_semaphore s)\<rparr> else s)
          }))"

definition store_point :: "'p PointFrame \<Rightarrow> nat \<Rightarrow> ('p, 'r) Lds \<Rightarrow> ('p, 'r) Lds option" where
  "store_point frame i s = do {
     pkt \<leftarrow> nth_opt (lidar_point frame) i;
     t \<leftarrow> nth_opt (frame_base_time frame) i;
     case GetIndex (pp_lidar_type pkt) (pp_handle pkt) (cache_index s) of
       None \<Rightarrow> Some s
     | Some index \<Rightarrow> PushLidarData pkt index t s
   }"

definition StoragePointData :: "'p PointFrame \<Rightarrow> ('p, 'r) Lds \<Rightarrow> ('p, 'r) Lds option" where
  "StoragePointData frame s = foldM (store_point frame) [0..<unat (lidar_num frame)] s"

definition store_lvx_point :: "'p PointFrame \<Rightarrow> nat \<Rightarrow> ('p, 'r) Lds \<Rightarrow> ('p, 'r) Lds option" where
  "store_lvx_point frame i s = do {
     pkt \<leftarrow> nth_opt (lidar_point frame) i;
     t \<leftarrow> nth_opt (frame_base_time frame) i;
     case LvxGetIndex (pp_lidar_type pkt) (pp_handle pkt) (cache_index s) of
       (None, c) \<Rightarrow> Some (s\<lparr>cache_index := c\<rparr>)
     | (Some index, c) \<Rightarrow> do {
         s \<leftarrow> update_lidar (\<lambda>d. Some (d\<lparr>connect_state := kConnectStateSampling\<rparr>)) (unat index) (s\<lparr>cache_index := c\<rparr>);
         PushLidarData pkt index t s
       }
   }"

definition StorageLvxPointData :: "'p PointFrame \<Rightarrow> ('p, 'r) Lds \<Rightarrow> ('p, 'r) Lds option" where
  "StorageLvxPointData frame s = foldM (store_lvx_point frame) [0..<unat (lidar_num frame)] s"

definition OnLidarPointClounCb :: "'p PointFrame \<Rightarrow> ('p, 'r) Lds \<Rightarrow> ('p, 'r) Lds option" where
  "OnLidarPointClounCb frame s = (if lidar_num frame = 0 then Some s else StoragePointData frame s)"

definition LidarImuDataCallback :: "ImuData \<Rightarrow> ('p, 'r) Lds \<Rightarrow> ('p, 'r) Lds option" where
  "LidarImuDataCallback d s = StorageImuData d s"

section \<open>Storing points\<close>

text \<open>The contract: per lidar a list with a bound, to which a packet is added unless it is full.\<close>

definition queue_of :: "u32 \<Rightarrow> ('p, 'r) Lds \<Rightarrow> 'p StoragePacket list" where
  "queue_of h s = (case GetIndex kLivoxLidarType h (cache_index s) of
     None \<Rightarrow> [] | Some i \<Rightarrow> ldq_list (data (lidars s ! unat i)))"

definition to_storage :: "u64 \<Rightarrow> 'p PointPacket \<Rightarrow> 'p StoragePacket" where
  "to_storage t pkt = \<lparr>base_time = t, points_num = pp_points_num pkt,
     points = take (unat (pp_points_num pkt)) (pp_points pkt)\<rparr>"

definition add_bounded :: "nat \<Rightarrow> 'a \<Rightarrow> 'a list \<Rightarrow> 'a list" where
  "add_bounded n x xs = (if length xs < n then xs @ [x] else xs)"

definition packets_of :: "'p PointFrame \<Rightarrow> u32 \<Rightarrow> nat list \<Rightarrow> 'p StoragePacket list" where
  "packets_of frame h js = map (\<lambda>j. to_storage (frame_base_time frame ! j) (lidar_point frame ! j))
     (filter (\<lambda>j. pp_handle (lidar_point frame ! j) = h) js)"

definition queue_ok :: "nat \<Rightarrow> 'p LidarDataQueue \<Rightarrow> bool" where
  "queue_ok k q \<longleftrightarrow> storage_packet q = Nullptr \<or> ldq_inv k q"

definition lds_inv :: "nat \<Rightarrow> ('p, 'r) Lds \<Rightarrow> bool" where
  "lds_inv k s \<longleftrightarrow> ci_inv (cache_index s) \<and> length (lidars s) = kMaxSourceLidar \<and> k < 32 \<and>
     (\<forall>d \<in> set (lidars s). queue_ok k (data d)) \<and>
     (let n = CalculatePacketQueueSize (publish_freq s) in (if IsPowerOf2 n then n else RoundupPowerOf2 n) = 2 ^ k)"

definition frame_ok :: "'p PointFrame \<Rightarrow> bool" where
  "frame_ok frame \<longleftrightarrow> unat (lidar_num frame) \<le> kMaxSourceLidar \<and> length (lidar_point frame) = kMaxSourceLidar \<and>
     length (frame_base_time frame) = kMaxSourceLidar \<and>
     (\<forall>i < unat (lidar_num frame). pp_lidar_type (lidar_point frame ! i) = kLivoxLidarType \<and>
        unat (pp_points_num (lidar_point frame ! i)) \<le> length (pp_points (lidar_point frame ! i)))"

lemma ensure_queue_ok:
  assumes "queue_ok k q" and "k < 32"
    and "(if IsPowerOf2 (CalculatePacketQueueSize f) then CalculatePacketQueueSize f
          else RoundupPowerOf2 (CalculatePacketQueueSize f)) = 2 ^ k"
  shows "\<exists>q'. ensure_queue f q = Some q' \<and> ldq_inv k q' \<and> ldq_list q' = ldq_list q"
proof (cases "storage_packet q = Nullptr")
  case True
  then have "ldq_list q = []" by (simp add: ldq_list_def)
  then show ?thesis
    using InitQueue_inv [OF _ assms(2,3), of q fresh_packet] True by (simp add: ensure_queue_def)
next
  case False
  then show ?thesis using assms(1) by (simp add: ensure_queue_def queue_ok_def)
qed

lemma signal_pcd_sel [simp]:
  "lidars (signal_pcd s) = lidars s" "cache_index (signal_pcd s) = cache_index s"
  "publish_freq (signal_pcd s) = publish_freq s" "0 < pcd_semaphore (signal_pcd s) \<longleftrightarrow> 0 \<le> pcd_semaphore s"
  by (auto simp: signal_pcd_def Signal_def)

text \<open>What pushing one packet does.\<close>

lemma PushLidarData_spec:
  assumes "lds_inv k s" and "unat i < kMaxSourceLidar" and "unat (pp_points_num pkt) \<le> length (pp_points pkt)"
  shows "\<exists>s'. PushLidarData pkt i t s = Some s' \<and> lds_inv k s' \<and> cache_index s' = cache_index s \<and>
    (0 \<le> pcd_semaphore s \<longrightarrow> 0 < pcd_semaphore s') \<and>
    (\<forall>j < kMaxSourceLidar. ldq_list (data (lidars s' ! j)) =
       (if j = unat i then add_bounded (2 ^ k) (to_storage t pkt) (ldq_list (data (lidars s ! j)))
        else ldq_list (data (lidars s ! j))))"
proof -
  have len: "length (lidars s) = 32" and k: "k < 32"
    using assms(1) by (simp_all add: lds_inv_def)
  have i: "unat i < 32" using assms(2) by simp
  let ?d = "lidars s ! unat i"
  have "queue_ok k (data ?d)" using assms(1) i len by (simp add: lds_inv_def)
  then obtain q where q: "ensure_queue (publish_freq s) (data ?d) = Some q" "ldq_inv k q"
    "ldq_list q = ldq_list (data ?d)"
    using ensure_queue_ok [of k "data ?d" "publish_freq s"] assms(1) by (auto simp: lds_inv_def Let_def)
  have step: "lds_inv k (s\<lparr>lidars := (lidars s)[unat i := ?d\<lparr>data := q'\<rparr>]\<rparr>)"
    if "ldq_inv k q'" for q' :: "'a LidarDataQueue"
    using assms(1) that by (auto simp: lds_inv_def queue_ok_def dest!: set_update_subset_insert [THEN subsetD])
  have sig: "lds_inv k (signal_pcd x) \<longleftrightarrow> lds_inv k x" for x :: "('a, 'b) Lds" by (simp add: lds_inv_def)
  show ?thesis
  proof (cases "QueueIsFull q")
    case True
    then have "add_bounded (2 ^ k) (to_storage t pkt) (ldq_list q) = ldq_list q"
      using QueueIsFull_iff [OF q(2)] by (simp add: add_bounded_def)
    then show ?thesis
      using True q len i step [OF q(2)] by (auto simp: PushLidarData_def sig nth_list_update)
  next
    case False
    then have room: "length (ldq_list q) < 2 ^ k"
      using QueueIsFull_iff [OF q(2)] length_ldq_list [OF q(2)] q(2) by (auto simp: ldq_inv_def)
    from ldq_push [OF q(2) room assms(3) refl, of t] obtain q' where
      q': "QueuePushAny pkt t q = Some q'" "ldq_list q' = ldq_list q @ [to_storage t pkt]" "ldq_inv k q'"
      by (auto simp: to_storage_def)
    then have "\<not> QueueIsEmpty q'" using QueueIsEmpty_iff [OF q'(3)] by simp
    then show ?thesis
      using False q q' room len i step [OF q'(3)]
      by (auto simp: PushLidarData_def sig add_bounded_def nth_list_update)
  qed
qed

definition known :: "('p, 'r) Lds \<Rightarrow> u32 \<Rightarrow> bool" where
  "known s h \<longleftrightarrow> GetIndex kLivoxLidarType h (cache_index s) \<noteq> None"

definition stored_inv :: "nat \<Rightarrow> 'p PointFrame \<Rightarrow> ('p, 'r) Lds \<Rightarrow> nat list \<Rightarrow> ('p, 'r) Lds \<Rightarrow> bool" where
  "stored_inv k frame s0 js s \<longleftrightarrow> lds_inv k s \<and> cache_index s = cache_index s0 \<and> 0 \<le> pcd_semaphore s \<and>
     ((\<exists>j \<in> set js. known s0 (pp_handle (lidar_point frame ! j))) \<longrightarrow> 0 < pcd_semaphore s) \<and>
     (\<forall>h. known s0 h \<longrightarrow> queue_of h s = fold (add_bounded (2 ^ k)) (packets_of frame h js) (queue_of h s0))"

lemma stored_inv_step:
  assumes "stored_inv k frame s0 js s" and "frame_ok frame" and "j < unat (lidar_num frame)"
  shows "\<exists>s'. store_point frame j s = Some s' \<and> stored_inv k frame s0 (js @ [j]) s'"
proof -
  let ?p = "lidar_point frame ! j"
  have len: "j < length (lidar_point frame)" "j < length (frame_base_time frame)"
    and p: "pp_lidar_type ?p = kLivoxLidarType" "unat (pp_points_num ?p) \<le> length (pp_points ?p)"
    using assms(2,3) by (simp_all add: frame_ok_def)
  have inv0: "lds_inv k s" "cache_index s = cache_index s0" "0 \<le> pcd_semaphore s"
    using assms(1) by (simp_all add: stored_inv_def)
  have "ci_inv (cache_index s)" using inv0(1) by (simp add: lds_inv_def)
  note inv = inv0(1) this inv0(2,3)
  show ?thesis
  proof (cases "GetIndex kLivoxLidarType (pp_handle ?p) (cache_index s)")
    case None
    then have "known s0 h \<Longrightarrow> pp_handle ?p \<noteq> h" for h using inv(3) by (auto simp: known_def)
    then have "stored_inv k frame s0 (js @ [j]) s"
      using assms(1) None by (auto simp: stored_inv_def packets_of_def known_def)
    then show ?thesis using None len p by (simp add: store_point_def)
  next
    case (Some i)
    have i: "unat i < 32" using GetIndex_lt [OF inv(2) Some] by simp
    obtain s' where s': "PushLidarData ?p i (frame_base_time frame ! j) s = Some s'" "lds_inv k s'"
      "cache_index s' = cache_index s" "0 < pcd_semaphore s'"
      "\<forall>l < kMaxSourceLidar. ldq_list (data (lidars s' ! l)) =
       (if l = unat i then add_bounded (2 ^ k) (to_storage (frame_base_time frame ! j) ?p) (ldq_list (data (lidars s ! l)))
        else ldq_list (data (lidars s ! l)))"
      using PushLidarData_spec [OF inv(1) i p(2)] inv(4) by blast
    have "queue_of h s' = fold (add_bounded (2 ^ k)) (packets_of frame h (js @ [j])) (queue_of h s0)" if h: "known s0 h" for h
    proof -
      obtain l where l: "GetIndex kLivoxLidarType h (cache_index s) = Some l" using h inv(3) by (auto simp: known_def)
      have "unat l < 32" using GetIndex_lt [OF inv(2) l] by simp
      have same: "l = i \<longleftrightarrow> pp_handle ?p = h" using GetIndex_inj [OF inv(2)] l Some by auto
      have "queue_of h s' = (if pp_handle ?p = h
          then add_bounded (2 ^ k) (to_storage (frame_base_time frame ! j) ?p) (queue_of h s) else queue_of h s)"
        using s'(3,5) l same \<open>unat l < 32\<close> by (auto simp: queue_of_def word_unat_eq_iff)
      moreover have "queue_of h s = fold (add_bounded (2 ^ k)) (packets_of frame h js) (queue_of h s0)"
        using assms(1) h by (simp add: stored_inv_def)
      ultimately show ?thesis by (simp add: packets_of_def)
    qed
    then have "stored_inv k frame s0 (js @ [j]) s'"
      using s' inv(3) by (simp add: stored_inv_def)
    then show ?thesis using s'(1) Some len p by (simp add: store_point_def)
  qed
qed

text \<open>C22: storing a frame of up to 32 lidars does not fail, keeps the data source well-formed, adds each
  packet to the queue of the lidar it is from and to no other, unless that queue is full, drops those
  of unknown lidars, and wakes the publishing thread when one is stored.\<close>

theorem StoragePointData_stores:
  assumes "lds_inv k s" and "frame_ok frame" and "0 \<le> pcd_semaphore s"
  shows "\<exists>s'. StoragePointData frame s = Some s' \<and> lds_inv k s' \<and> cache_index s' = cache_index s \<and>
    ((\<exists>j < unat (lidar_num frame). known s (pp_handle (lidar_point frame ! j))) \<longrightarrow> 0 < pcd_semaphore s') \<and>
    (\<forall>h. known s h \<longrightarrow> queue_of h s' =
       fold (add_bounded (2 ^ k)) (packets_of frame h [0..<unat (lidar_num frame)]) (queue_of h s))"
proof -
  have init: "stored_inv k frame s [] s" using assms by (simp add: stored_inv_def packets_of_def)
  have "\<exists>s'. foldM (store_point frame) [0..<unat (lidar_num frame)] s = Some s' \<and>
      stored_inv k frame s ([] @ [0..<unat (lidar_num frame)]) s'"
    by (rule foldM_invariant [where I = "stored_inv k frame s", OF init]) (simp add: stored_inv_step assms(2))
  then show ?thesis
    by (auto simp: StoragePointData_def stored_inv_def atLeast0LessThan Bex_def)
qed

definition example_device :: "(nat, nat) LidarDevice" where
  "example_device = \<lparr>lidar_type = 8, handle = 0, data_src = 0, connect_state = kConnectStateSampling,
     data = ldq_example\<lparr>storage_packet := Nullptr\<rparr>, imu_data = [],
     livox_config = \<lparr>cfg_handle = 0, pcl_data_type = -1, pattern_mode = -1, blind_spot_set = -1, dual_emit_en = -1,
       extrinsic_param = \<lparr>roll = 0, pitch = 0, yaw = 0, ext_x = 0, ext_y = 0, ext_z = 0\<rparr>,
       set_bits = 0, get_bits = 0\<rparr>\<rparr>"

definition example_lds :: "(nat, nat) Lds" where
  "example_lds = \<lparr>lidar_count = 32, lidars = replicate 32 example_device, pcd_semaphore = 0, imu_semaphore = 0,
     cache_index = run_slots [Acquire 5, Acquire 7], publish_freq = 10, lds_data_src = 0, request_exit = False\<rparr>"

definition example_frame :: "nat PointFrame" where
  "example_frame = \<lparr>frame_base_time = replicate 32 100, lidar_num = 2,
     lidar_point = replicate 32 \<lparr>pp_handle = 7, pp_lidar_type = 8, pp_points_num = 1, pp_points = [3]\<rparr>\<rparr>"

lemma example_lds_inv: "lds_inv 4 example_lds"
proof -
  have "RoundupPowerOf2 10 = 16" "\<not> IsPowerOf2 10" by code_simp+
  then show ?thesis
    using run_slots_inv by (simp add: lds_inv_def example_lds_def queue_ok_def example_device_def
        CalculatePacketQueueSize_def Let_def)
qed

lemma StoragePointData_stores_witness:
  "\<exists>s'. StoragePointData example_frame example_lds = Some s' \<and> lds_inv 4 s' \<and> 0 < pcd_semaphore s'"
proof -
  have "known example_lds 7" unfolding known_def example_lds_def by code_simp
  moreover have "frame_ok example_frame" by (simp add: frame_ok_def example_frame_def)
  moreover have "(0 :: nat) < unat (lidar_num example_frame)" "pp_handle (lidar_point example_frame ! 0) = 7"
    by (simp_all add: example_frame_def)
  ultimately show ?thesis
    using StoragePointData_stores [OF example_lds_inv, of example_frame] by (auto simp: example_lds_def)
qed

end
