(* ===== verification/Ros_PubHandler.thy ===== *)
theory Ros_PubHandler
  imports Ros_Lds
begin

text \<open>
  The point handler of livox_ros_driver2 (\<^verbatim>\<open>comm/pub_handler.cpp\<close>): packets of the SDK become points in
  metres in the frame of the vehicle, are collected per lidar, and are published as frames. The
  coordinates are elements of a field in place of \<^verbatim>\<open>float\<close>; rounding is not modelled. The clock is an
  argument. \<^term>\<open>None\<close> is a read behind the packet, a division by zero, a write outside the frame or a call through
  a null handler.
\<close>

section \<open>One lidar\<close>

record 'r math =
  m_sin :: "'r \<Rightarrow> 'r"
  m_cos :: "'r \<Rightarrow> 'r"
  m_pi :: 'r

record 'r ExtParameterDetailed =
  trans :: "nat \<Rightarrow> 'r"
  rotation :: "nat \<Rightarrow> nat \<Rightarrow> 'r"

record RawPacket =
  rp_lidar_type :: u8
  rp_handle :: u32
  extrinsic_enable :: bool
  point_num :: u32
  data_type :: u8
  line_num :: u8
  time_stamp :: u64
  point_interval :: u64
  raw_data :: bytes

record 'r LidarPubHandler =
  points_clouds :: "'r PointXyzlt list"
  extrinsic :: "'r ExtParameterDetailed"
  is_set_extrinsic_params :: bool

text \<open>The initial rotation, as the class declares it.\<close>

definition default_extrinsic :: "'r::field_char_0 ExtParameterDetailed" where
  "default_extrinsic = \<lparr>trans = (\<lambda>i. [0, 0, 0] ! i),
     rotation = (\<lambda>i j. [[1, 0, 0], [0, 1, 1], [0, 0, 1]] ! i ! j)\<rparr>"

definition mk_LidarPubHandler :: "'r::field_char_0 LidarPubHandler" where
  "mk_LidarPubHandler = \<lparr>points_clouds = [], extrinsic = default_extrinsic, is_set_extrinsic_params = False\<rparr>"

definition GetLidarBaseTime :: "'r LidarPubHandler \<Rightarrow> u64" where
  "GetLidarBaseTime d = (case points_clouds d of [] \<Rightarrow> 0 | p # _ \<Rightarrow> offset_time p)"

definition GetRecentTimeStamp :: "'r LidarPubHandler \<Rightarrow> u64" where
  "GetRecentTimeStamp d = (if points_clouds d = [] then 0 else offset_time (last (points_clouds d)))"

text \<open>The swap: the caller's points go in, the collected points come out.\<close>

definition GetLidarPointClouds :: "'r PointXyzlt list \<Rightarrow> 'r LidarPubHandler \<Rightarrow> 'r PointXyzlt list \<times> 'r LidarPubHandler" where
  "GetLidarPointClouds ps d = (points_clouds d, d\<lparr>points_clouds := ps\<rparr>)"

definition GetLidarPointCloudsSize :: "'r LidarPubHandler \<Rightarrow> u32" where
  "GetLidarPointCloudsSize d = of_nat (length (points_clouds d))"

definition SetLidarsExtParam :: "'r::field_char_0 math \<Rightarrow> 'r ExtParameter \<Rightarrow> 'r LidarPubHandler \<Rightarrow> 'r LidarPubHandler" where
  "SetLidarsExtParam m p d =
     (if is_set_extrinsic_params d then d
      else (let cos_roll = m_cos m (roll p * m_pi m / 180); cos_pitch = m_cos m (pitch p * m_pi m / 180);
                cos_yaw = m_cos m (yaw p * m_pi m / 180); sin_roll = m_sin m (roll p * m_pi m / 180);
                sin_pitch = m_sin m (pitch p * m_pi m / 180); sin_yaw = m_sin m (yaw p * m_pi m / 180)
        in d\<lparr>extrinsic := \<lparr>
              trans = (\<lambda>i. [of_int (sint (ext_x p)), of_int (sint (ext_y p)), of_int (sint (ext_z p))] ! i),
              rotation = (\<lambda>i j.
                [[cos_pitch * cos_yaw, sin_roll * sin_pitch * cos_yaw - cos_roll * sin_yaw,
                  cos_roll * sin_pitch * cos_yaw + sin_roll * sin_yaw],
                 [cos_pitch * sin_yaw, sin_roll * sin_pitch * sin_yaw + cos_roll * cos_yaw,
                  cos_roll * sin_pitch * sin_yaw - sin_roll * cos_yaw],
                 [- sin_pitch, sin_roll * cos_pitch, cos_roll * cos_pitch]] ! i ! j)\<rparr>,
            is_set_extrinsic_params := True\<rparr>))"

text \<open>The row \<open>i\<close> of the transformation.\<close>

definition apply_row :: "'r::field_char_0 ExtParameterDetailed \<Rightarrow> nat \<Rightarrow> 'r \<times> 'r \<times> 'r \<Rightarrow> 'r" where
  "apply_row e i v = (case v of (x, y, z) \<Rightarrow> x * rotation e i 0 + y * rotation e i 1 + z * rotation e i 2)"

text \<open>The raw points of the three data types: coordinates, reflectivity and tag. The packed structures have
  14, 8 and 10 bytes.\<close>

definition high_raw :: "bytes \<Rightarrow> nat \<Rightarrow> ((int \<times> int \<times> int) \<times> u8 \<times> u8) option" where
  "high_raw m i = do {
     x \<leftarrow> rd m (14 * i) 4; y \<leftarrow> rd m (14 * i + 4) 4; z \<leftarrow> rd m (14 * i + 8) 4;
     r \<leftarrow> rd m (14 * i + 12) 2;
     Some ((sint (le_dec x :: u32), sint (le_dec y :: u32), sint (le_dec z :: u32)), r ! 0, r ! 1)
   }"

definition low_raw :: "bytes \<Rightarrow> nat \<Rightarrow> ((int \<times> int \<times> int) \<times> u8 \<times> u8) option" where
  "low_raw m i = do {
     x \<leftarrow> rd m (8 * i) 2; y \<leftarrow> rd m (8 * i + 2) 2; z \<leftarrow> rd m (8 * i + 4) 2;
     r \<leftarrow> rd m (8 * i + 6) 2;
     Some ((sint (le_dec x :: u16), sint (le_dec y :: u16), sint (le_dec z :: u16)), r ! 0, r ! 1)
   }"

definition spher_raw :: "bytes \<Rightarrow> nat \<Rightarrow> ((int \<times> int \<times> int) \<times> u8 \<times> u8) option" where
  "spher_raw m i = do {
     d \<leftarrow> rd m (10 * i) 4; t \<leftarrow> rd m (10 * i + 4) 2; p \<leftarrow> rd m (10 * i + 6) 2;
     r \<leftarrow> rd m (10 * i + 8) 2;
     Some ((uint (le_dec d :: u32), uint (le_dec t :: u16), uint (le_dec p :: u16)), r ! 0, r ! 1)
   }"

text \<open>Coordinates in metres.\<close>

definition high_xyz :: "bool \<Rightarrow> 'r::field_char_0 ExtParameterDetailed \<Rightarrow> int \<times> int \<times> int \<Rightarrow> nat \<Rightarrow> 'r" where
  "high_xyz enable e v i = (case v of (x, y, z) \<Rightarrow>
     (if enable then of_int ([x, y, z] ! i) / 1000
      else (apply_row e i (of_int x, of_int y, of_int z) + trans e i) / 1000))"

definition low_xyz :: "bool \<Rightarrow> 'r::field_char_0 ExtParameterDetailed \<Rightarrow> int \<times> int \<times> int \<Rightarrow> nat \<Rightarrow> 'r" where
  "low_xyz enable e v i = (case v of (x, y, z) \<Rightarrow>
     (if enable then of_int ([x, y, z] ! i) / 100
      else (apply_row e i (of_int x, of_int y, of_int z) + trans e i) / 100))"

definition spher_xyz :: "'r::field_char_0 math \<Rightarrow> bool \<Rightarrow> 'r ExtParameterDetailed \<Rightarrow> int \<times> int \<times> int \<Rightarrow> nat \<Rightarrow> 'r" where
  "spher_xyz m enable e v i = (case v of (depth, theta, phi) \<Rightarrow>
     (let radius = of_int depth / 1000; theta = of_int theta / 100 / 180 * m_pi m; phi = of_int phi / 100 / 180 * m_pi m;
          src_x = radius * m_sin m theta * m_cos m phi; src_y = radius * m_sin m theta * m_sin m phi;
          src_z = radius * m_cos m theta
      in if enable then [src_x, src_y, src_z] ! i
         else apply_row e i (src_x, src_y, src_z) + trans e i / 1000))"

text \<open>The loop over the points of a packet, with the reader and the conversion of its data type.\<close>

definition push_point :: "(bytes \<Rightarrow> nat \<Rightarrow> ((int \<times> int \<times> int) \<times> u8 \<times> u8) option)
    \<Rightarrow> ('r::field_char_0 ExtParameterDetailed \<Rightarrow> int \<times> int \<times> int \<Rightarrow> nat \<Rightarrow> 'r)
    \<Rightarrow> RawPacket \<Rightarrow> nat \<Rightarrow> 'r LidarPubHandler \<Rightarrow> 'r LidarPubHandler option" where
  "push_point raw xyz pkt i d = do {
     (v, refl, tag) \<leftarrow> raw (raw_data pkt) i;
     if line_num pkt = 0 then None
     else Some (d\<lparr>points_clouds := points_clouds d @ [\<lparr>
       px = xyz (extrinsic d) v 0, py = xyz (extrinsic d) v 1, pz = xyz (extrinsic d) v 2,
       intensity = of_nat (unat refl), pt_tag = tag, pt_line = of_nat (i mod unat (line_num pkt)),
       offset_time = time_stamp pkt + of_nat i * point_interval pkt\<rparr>]\<rparr>)
   }"

definition ProcessCartesianHighPoint :: "RawPacket \<Rightarrow> 'r::field_char_0 LidarPubHandler \<Rightarrow> 'r LidarPubHandler option" where
  "ProcessCartesianHighPoint pkt =
     foldM (push_point high_raw (high_xyz (extrinsic_enable pkt)) pkt) [0..<unat (point_num pkt)]"

definition ProcessCartesianLowPoint :: "RawPacket \<Rightarrow> 'r::field_char_0 LidarPubHandler \<Rightarrow> 'r LidarPubHandler option" where
  "ProcessCartesianLowPoint pkt =
     foldM (push_point low_raw (low_xyz (extrinsic_enable pkt)) pkt) [0..<unat (point_num pkt)]"

definition ProcessSphericalPoint :: "'r::field_char_0 math \<Rightarrow> RawPacket \<Rightarrow> 'r LidarPubHandler \<Rightarrow> 'r LidarPubHandler option" where
  "ProcessSphericalPoint m pkt =
     foldM (push_point spher_raw (spher_xyz m (extrinsic_enable pkt)) pkt) [0..<unat (point_num pkt)]"

definition LivoxLidarPointCloudProcess :: "'r::field_char_0 math \<Rightarrow> RawPacket \<Rightarrow> 'r LidarPubHandler \<Rightarrow> 'r LidarPubHandler option" where
  "LivoxLidarPointCloudProcess m pkt d =
     (if data_type pkt = 1 then ProcessCartesianHighPoint pkt d
      else if data_type pkt = 2 then ProcessCartesianLowPoint pkt d
      else if data_type pkt = 3 then ProcessSphericalPoint m pkt d
      else Some d)"

definition PointCloudProcess :: "'r::field_char_0 math \<Rightarrow> RawPacket \<Rightarrow> 'r LidarPubHandler \<Rightarrow> 'r LidarPubHandler option" where
  "PointCloudProcess m pkt d =
     (if rp_lidar_type pkt = kLivoxLidarType then LivoxLidarPointCloudProcess m pkt d else Some d)"

section \<open>All lidars\<close>

record EthernetPacket =
  eth_length :: u16
  time_interval :: u16
  dot_num :: u16
  eth_data_type :: u8
  time_type :: u8
  eth_timestamp :: u64
  eth_data :: bytes

record 'r PubHandler =
  raw_packet_queue :: "RawPacket list"
  process_handlers :: "(u32 \<times> 'r LidarPubHandler) list"
  lidar_extrinsics :: "u32 \<Rightarrow> 'r ExtParameter option"
  is_timestamp_sync :: bool
  publish_interval :: u64
  publish_interval_tolerance :: u64
  publish_interval_ms :: u64
  last_pub_time :: int
  first_check :: bool
  frame :: "'r PointXyzlt PointFrame"
  has_points_callback :: bool
  has_imu_callback :: bool
  published :: "'r PointXyzlt PointFrame list"
  published_imu :: "ImuData list"

definition empty_frame :: "'p PointFrame" where
  "empty_frame = \<lparr>frame_base_time = replicate kMaxSourceLidar 0, lidar_num = 0,
     lidar_point = replicate kMaxSourceLidar \<lparr>pp_handle = 0, pp_lidar_type = 0, pp_points_num = 0, pp_points = []\<rparr>\<rparr>"

definition mk_PubHandler :: "'r PubHandler" where
  "mk_PubHandler = \<lparr>raw_packet_queue = [], process_handlers = [], lidar_extrinsics = (\<lambda>_. None),
     is_timestamp_sync = False, publish_interval = 100000000, publish_interval_tolerance = 100000000,
     publish_interval_ms = 100, last_pub_time = 0, first_check = True, frame = empty_frame,
     has_points_callback = False, has_imu_callback = False, published = [], published_imu = []\<rparr>"

definition SetPointCloudConfig :: "rat \<Rightarrow> 'r PubHandler \<Rightarrow> 'r PubHandler" where
  "SetPointCloudConfig freq s =
     (let interval = of_int \<lfloor>1000000000 / (freq * 10) * 10\<rfloor>
      in s\<lparr>publish_interval := interval, publish_interval_tolerance := interval - 1000000,
           publish_interval_ms := interval div 1000000\<rparr>)"

definition GetLidarId :: "u8 \<Rightarrow> u32 \<Rightarrow> u32 option" where
  "GetLidarId t h = (if t = kLivoxLidarType then Some h else None)"

definition AddLidarsExtParam :: "u8 \<Rightarrow> u32 \<Rightarrow> 'r ExtParameter \<Rightarrow> 'r PubHandler \<Rightarrow> 'r PubHandler" where
  "AddLidarsExtParam t h p s =
     s\<lparr>lidar_extrinsics := (lidar_extrinsics s)(case GetLidarId t h of Some i \<Rightarrow> i | None \<Rightarrow> 0 \<mapsto> p)\<rparr>"

definition ClearAllLidarsExtrinsicParams :: "'r PubHandler \<Rightarrow> 'r PubHandler" where
  "ClearAllLidarsExtrinsicParams s = s\<lparr>lidar_extrinsics := (\<lambda>_. None)\<rparr>"

text \<open>Only PTP and GPS times of the device are used; \<open>now\<close> is the host clock.\<close>

definition GetEthPacketTimestamp :: "u64 \<Rightarrow> u8 \<Rightarrow> u64 \<Rightarrow> u64" where
  "GetEthPacketTimestamp now t stamp = (if t = 1 \<or> t = 2 then stamp else now)"

definition line_num_of :: "u8 \<Rightarrow> u8" where
  "line_num_of dev_type = (if dev_type = 10 then 6 else if dev_type = 9 \<or> dev_type = 35 then 4 else 1)"

definition read_imu :: "bytes \<Rightarrow> ((u32 \<times> u32 \<times> u32) \<times> (u32 \<times> u32 \<times> u32)) option" where
  "read_imu m = do {
     gx \<leftarrow> rd m 0 4; gy \<leftarrow> rd m 4 4; gz \<leftarrow> rd m 8 4; ax \<leftarrow> rd m 12 4; ay \<leftarrow> rd m 16 4; az \<leftarrow> rd m 20 4;
     Some ((le_dec gx, le_dec gy, le_dec gz), (le_dec ax, le_dec ay, le_dec az))
   }"

definition OnLivoxLidarPointCloudCallback :: "u64 \<Rightarrow> u32 \<Rightarrow> u8 \<Rightarrow> EthernetPacket \<Rightarrow> 'r PubHandler \<Rightarrow> 'r PubHandler option" where
  "OnLivoxLidarPointCloudCallback now h dev_type d s =
     (let s = s\<lparr>is_timestamp_sync := (time_type d \<noteq> 0)\<rparr>;
          stamp = GetEthPacketTimestamp now (time_type d) (eth_timestamp d)
      in if eth_data_type d = 0
         then (if has_imu_callback s
               then do {
                 (gyro, acc) \<leftarrow> read_imu (eth_data d);
                 Some (s\<lparr>published_imu := published_imu s @ [\<lparr>imu_lidar_type = kLivoxLidarType, imu_handle = h,
                   imu_time_stamp = stamp, imu_gyro = gyro, imu_acc = acc\<rparr>]\<rparr>)
               }
               else Some s)
         else if dot_num d = 0 then None
         else do {
           raw \<leftarrow> rd (eth_data d) 0 (unat (ucast (eth_length d) - 37 + 1 :: u32));
           Some (s\<lparr>raw_packet_queue := raw_packet_queue s @ [\<lparr>rp_lidar_type = kLivoxLidarType, rp_handle = h,
             extrinsic_enable = False, point_num = ucast (dot_num d), data_type = eth_data_type d,
             line_num = line_num_of dev_type, time_stamp = stamp,
             point_interval = ucast (ucast (time_interval d) * 100 div ucast (dot_num d) :: u32),
             raw_data = raw\<rparr>]\<rparr>)
         })"

definition PublishPointCloud :: "'r PubHandler \<Rightarrow> 'r PubHandler" where
  "PublishPointCloud s = (if has_points_callback s then s\<lparr>published := published s @ [frame s]\<rparr> else s)"

text \<open>The points of the lidar \<open>h\<close> move into the next entry of the frame, if there are any.\<close>

definition add_to_frame :: "u32 \<Rightarrow> 'r PubHandler \<Rightarrow> 'r PubHandler option" where
  "add_to_frame h s = do {
     d \<leftarrow> map_of (process_handlers s) h;
     let n = unat (lidar_num (frame s));
     if \<not> n < kMaxSourceLidar then None else do {
     let f = (frame s)\<lparr>frame_base_time := (frame_base_time (frame s))[n := GetLidarBaseTime d]\<rparr>;
     let (ps, d) = GetLidarPointClouds [] d;
     let s = s\<lparr>frame := f, process_handlers := cmap_put h d (process_handlers s)\<rparr>;
     Some (if ps = [] then s
       else s\<lparr>frame := f\<lparr>lidar_point := (lidar_point f)[n := \<lparr>pp_handle = h, pp_lidar_type = kLivoxLidarType,
         pp_points_num = of_nat (length ps), pp_points = ps\<rparr>], lidar_num := lidar_num f + 1\<rparr>\<rparr>)
   }}"

definition CheckTimer :: "int \<Rightarrow> u32 \<Rightarrow> 'r PubHandler \<Rightarrow> 'r PubHandler option" where
  "CheckTimer now h s =
     (if is_timestamp_sync s
      then do {
        d \<leftarrow> map_of (process_handlers s) h;
        let recent_time_ms = GetRecentTimeStamp d div 1000000;
        if publish_interval_ms s = 0 then None
        else if recent_time_ms mod publish_interval_ms s \<noteq> 0 \<or> recent_time_ms = 0 then Some s
        else if GetRecentTimeStamp d - GetLidarBaseTime d < publish_interval_tolerance s then Some s
        else do {
          s \<leftarrow> add_to_frame h s;
          Some (if points_clouds d = [] then s
            else if lidar_num (frame s) \<noteq> 0
            then (PublishPointCloud s)\<lparr>frame := (frame s)\<lparr>lidar_num := 0\<rparr>\<rparr> else s)
        }
      }
      else if first_check s then Some (s\<lparr>last_pub_time := now, first_check := False\<rparr>)
      else if now - last_pub_time s < uint (publish_interval s) then Some s
      else do {
        let s = s\<lparr>last_pub_time := last_pub_time s + uint (publish_interval s)\<rparr>;
        s \<leftarrow> foldM add_to_frame (map fst (process_handlers s)) s;
        Some ((PublishPointCloud s)\<lparr>frame := (frame s)\<lparr>lidar_num := 0\<rparr>\<rparr>)
      })"

text \<open>One round of the processing thread on a queue that is not empty; on an empty queue it waits.\<close>

definition RawDataProcess :: "'r::field_char_0 math \<Rightarrow> int \<Rightarrow> 'r PubHandler \<Rightarrow> 'r PubHandler option" where
  "RawDataProcess m now s =
     (case raw_packet_queue s of
        [] \<Rightarrow> Some s
      | pkt # rest \<Rightarrow>
          (let h = (case GetLidarId (rp_lidar_type pkt) (rp_handle pkt) of Some i \<Rightarrow> i | None \<Rightarrow> 0);
               d = (case map_of (process_handlers s) h of None \<Rightarrow> mk_LidarPubHandler | Some d \<Rightarrow> d);
               d = (case lidar_extrinsics s h of None \<Rightarrow> d | Some p \<Rightarrow> SetLidarsExtParam m p d)
           in do {
             d \<leftarrow> PointCloudProcess m pkt d;
             CheckTimer now h (s\<lparr>raw_packet_queue := rest, process_handlers := cmap_put h d (process_handlers s)\<rparr>)
           }))"

section \<open>Points are neither lost nor duplicated\<close>

text \<open>The reference for the contents: a packet of points is a sequence of records of 14, 8 or 10 bytes, one behind the
  other. The coordinates of a record are turned and moved by the parameters of the lidar.\<close>

definition point_type :: "u8 \<Rightarrow> bool" where
  "point_type ty \<longleftrightarrow> ty \<in> {1, 2, 3}"

fun chunks :: "nat \<Rightarrow> nat \<Rightarrow> bytes \<Rightarrow> bytes list" where
  "chunks k 0 bs = []"
| "chunks k (Suc n) bs = take k bs # chunks k n (drop k bs)"

definition turned :: "'r::field_char_0 ExtParameterDetailed \<Rightarrow> 'r list \<Rightarrow> nat \<Rightarrow> 'r" where
  "turned e v i = (\<Sum>j<3. v ! j * rotation e i j)"

definition signed_at :: "nat \<Rightarrow> nat \<Rightarrow> bytes \<Rightarrow> 'r::field_char_0" where
  "signed_at i n c = (if n = 4 then of_int (sint (le_dec (take 4 (drop i c)) :: u32))
     else of_int (sint (le_dec (take 2 (drop i c)) :: u16)))"

definition angle_at :: "'r::field_char_0 math \<Rightarrow> nat \<Rightarrow> bytes \<Rightarrow> 'r" where
  "angle_at m i c = of_int (uint (le_dec (take 2 (drop i c)) :: u16)) / 100 / 180 * m_pi m"

definition wire_xyz :: "'r::field_char_0 math \<Rightarrow> u8 \<Rightarrow> 'r ExtParameterDetailed \<Rightarrow> bytes \<Rightarrow> nat \<Rightarrow> 'r" where
  "wire_xyz m ty e c i =
     (if ty = 1 then (turned e [signed_at 0 4 c, signed_at 4 4 c, signed_at 8 4 c] i + trans e i) / 1000
      else if ty = 2 then (turned e [signed_at 0 2 c, signed_at 2 2 c, signed_at 4 2 c] i + trans e i) / 100
      else (let r = of_int (uint (le_dec (take 4 c) :: u32)) / 1000; theta = angle_at m 4 c; phi = angle_at m 6 c
        in turned e [r * m_sin m theta * m_cos m phi, r * m_sin m theta * m_sin m phi, r * m_cos m theta] i + trans e i / 1000))"

definition wire_size :: "u8 \<Rightarrow> nat" where
  "wire_size ty = (if ty = 1 then 14 else if ty = 2 then 8 else 10)"

definition wire_point :: "'r::field_char_0 math \<Rightarrow> 'r ExtParameterDetailed \<Rightarrow> u8 \<Rightarrow> u64 \<Rightarrow> EthernetPacket \<Rightarrow> nat \<times> bytes \<Rightarrow> 'r PointXyzlt" where
  "wire_point m e dev stamp d = (\<lambda>(i, c). let ty = eth_data_type d in
     \<lparr>px = wire_xyz m ty e c 0, py = wire_xyz m ty e c 1, pz = wire_xyz m ty e c 2,
      intensity = of_nat (unat (c ! (wire_size ty - 2))), pt_tag = c ! (wire_size ty - 1),
      pt_line = of_nat (i mod unat (line_num_of dev)),
      offset_time = stamp + of_nat i * of_nat (unat (time_interval d) * 100 div unat (dot_num d))\<rparr>)"

definition packet_points :: "'r::field_char_0 math \<Rightarrow> 'r ExtParameterDetailed \<Rightarrow> u8 \<Rightarrow> u64 \<Rightarrow> EthernetPacket \<Rightarrow> 'r PointXyzlt list" where
  "packet_points m e dev stamp d =
     (if point_type (eth_data_type d)
      then map (wire_point m e dev stamp d) (enumerate 0 (chunks (wire_size (eth_data_type d)) (unat (dot_num d)) (eth_data d)))
      else [])"

lemma length_chunks [simp]: "length (chunks k n bs) = n"
  by (induction n arbitrary: bs) simp_all

lemma chunks_nth: "i < n \<Longrightarrow> chunks k n bs ! i = take k (drop (k * i) bs)"
proof (induction n arbitrary: i bs)
  case 0
  then show ?case by simp
next
  case (Suc n)
  then show ?case by (cases i) (simp_all add: add.commute)
qed

lemma enumerate_upt: "map f (enumerate 0 xs) = map (\<lambda>i. f (i, xs ! i)) [0..<length xs]"
  by (rule nth_equalityI) (simp_all add: nth_enumerate_eq)

text \<open>What the loop adds to the points.\<close>

definition point_at :: "(bytes \<Rightarrow> nat \<Rightarrow> ((int \<times> int \<times> int) \<times> u8 \<times> u8) option)
    \<Rightarrow> ('r::field_char_0 ExtParameterDetailed \<Rightarrow> int \<times> int \<times> int \<Rightarrow> nat \<Rightarrow> 'r)
    \<Rightarrow> RawPacket \<Rightarrow> 'r ExtParameterDetailed \<Rightarrow> nat \<Rightarrow> 'r PointXyzlt" where
  "point_at raw xyz pkt e i = (case the (raw (raw_data pkt) i) of (v, r, tag) \<Rightarrow>
     \<lparr>px = xyz e v 0, py = xyz e v 1, pz = xyz e v 2, intensity = of_nat (unat r), pt_tag = tag,
      pt_line = of_nat (i mod unat (line_num pkt)), offset_time = time_stamp pkt + of_nat i * point_interval pkt\<rparr>)"

lemma push_points:
  assumes "foldM (push_point raw xyz pkt) [0..<n] d = Some d'"
  shows "(\<forall>i < n. raw (raw_data pkt) i \<noteq> None) \<and>
    d' = d\<lparr>points_clouds := points_clouds d @ map (point_at raw xyz pkt (extrinsic d)) [0..<n]\<rparr>"
  using assms
proof (induction n arbitrary: d')
  case 0
  then show ?case by simp
next
  case (Suc n)
  then obtain e where e: "foldM (push_point raw xyz pkt) [0..<n] d = Some e" "push_point raw xyz pkt n e = Some d'"
    by (auto simp: foldM_append split: bind_splits)
  then show ?case using Suc.IH [OF e(1)]
    by (auto simp: push_point_def point_at_def less_Suc_eq split: bind_splits if_splits prod.splits)
qed

lemma rd_of_rd:
  assumes "rd a 0 n = Some r" and "rd r off k = Some x"
  shows "x = take k (drop off a)"
  using assms by (auto simp: rd_def drop_take min_def split: if_splits)

lemma take_of_record: "off + k \<le> n \<Longrightarrow> take k (drop off (take n (drop j bs))) = take k (drop (j + off) bs)"
  by (simp add: drop_take min_def add.commute)

lemma nth_of_record:
  assumes "take 2 (drop (j + off) bs) = r" and "length r = 2" and "off + 2 \<le> n"
  shows "take n (drop j bs) ! off = r ! 0 \<and> take n (drop j bs) ! Suc off = r ! 1"
proof -
  have "j + off + 2 \<le> length bs" using assms(1,2) by auto
  then show ?thesis using assms by (auto simp: add.commute add.assoc)
qed

lemma turned_row: "turned e [x, y, z] i = apply_row e i (x, y, z)"
  by (simp add: turned_def apply_row_def lessThan_Suc numeral_3_eq_3 numeral_2_eq_2)

lemma high_record:
  fixes e :: "'r::field_char_0 ExtParameterDetailed"
  assumes b: "rd b 0 n = Some raw" and "high_raw raw i = Some (v, r, tag)"
  defines "c \<equiv> take 14 (drop (14 * i) b)"
  shows "high_xyz False e v j = wire_xyz m 1 e c j" "r = c ! 12" "tag = c ! 13"
proof -
  obtain x y z q where h: "rd raw (14 * i) 4 = Some x" "rd raw (14 * i + 4) 4 = Some y" "rd raw (14 * i + 8) 4 = Some z"
    "rd raw (14 * i + 12) 2 = Some q"
    and v: "v = (sint (le_dec x :: u32), sint (le_dec y :: u32), sint (le_dec z :: u32))" "r = q ! 0" "tag = q ! 1"
    using assms(2) by (auto simp: high_raw_def split: bind_splits)
  note x = h [THEN rd_of_rd [OF b]]
  have xyz: "take 4 (drop 0 c) = x" "take 4 (drop 4 c) = y" "take 4 (drop 8 c) = z"
    using x unfolding c_def by (simp_all add: take_of_record)
  have "(signed_at 0 4 c :: 'r) = of_int (sint (le_dec x :: u32))" "(signed_at 4 4 c :: 'r) = of_int (sint (le_dec y :: u32))"
    "(signed_at 8 4 c :: 'r) = of_int (sint (le_dec z :: u32))"
    unfolding signed_at_def xyz by simp_all
  then show "high_xyz False e v j = wire_xyz m 1 e c j"
    by (simp add: high_xyz_def wire_xyz_def v(1) turned_row)
  have "length q = 2" using h(4) by (auto simp: rd_def split: if_splits)
  then show "r = c ! 12" "tag = c ! 13"
    using nth_of_record [OF x(4) [symmetric], of 14] unfolding c_def v by simp_all
qed

lemma low_record:
  fixes e :: "'r::field_char_0 ExtParameterDetailed"
  assumes b: "rd b 0 n = Some raw" and "low_raw raw i = Some (v, r, tag)"
  defines "c \<equiv> take 8 (drop (8 * i) b)"
  shows "low_xyz False e v j = wire_xyz m 2 e c j" "r = c ! 6" "tag = c ! 7"
proof -
  obtain x y z q where h: "rd raw (8 * i) 2 = Some x" "rd raw (8 * i + 2) 2 = Some y" "rd raw (8 * i + 4) 2 = Some z"
    "rd raw (8 * i + 6) 2 = Some q"
    and v: "v = (sint (le_dec x :: u16), sint (le_dec y :: u16), sint (le_dec z :: u16))" "r = q ! 0" "tag = q ! 1"
    using assms(2) by (auto simp: low_raw_def split: bind_splits)
  note x = h [THEN rd_of_rd [OF b]]
  have xyz: "take 2 (drop 0 c) = x" "take 2 (drop 2 c) = y" "take 2 (drop 4 c) = z"
    using x unfolding c_def by (simp_all add: take_of_record)
  have "(signed_at 0 2 c :: 'r) = of_int (sint (le_dec x :: u16))" "(signed_at 2 2 c :: 'r) = of_int (sint (le_dec y :: u16))"
    "(signed_at 4 2 c :: 'r) = of_int (sint (le_dec z :: u16))"
    unfolding signed_at_def xyz by simp_all
  then show "low_xyz False e v j = wire_xyz m 2 e c j"
    by (simp add: low_xyz_def wire_xyz_def v(1) turned_row)
  have "length q = 2" using h(4) by (auto simp: rd_def split: if_splits)
  then show "r = c ! 6" "tag = c ! 7"
    using nth_of_record [OF x(4) [symmetric], of 8] unfolding c_def v by simp_all
qed

lemma spher_record:
  assumes b: "rd b 0 n = Some raw" and "spher_raw raw i = Some (v, r, tag)" and j: "j < 3"
  defines "c \<equiv> take 10 (drop (10 * i) b)"
  shows "spher_xyz m False e v j = wire_xyz m 3 e c j" "r = c ! 8" "tag = c ! 9"
proof -
  obtain x y z q where h: "rd raw (10 * i) 4 = Some x" "rd raw (10 * i + 4) 2 = Some y" "rd raw (10 * i + 6) 2 = Some z"
    "rd raw (10 * i + 8) 2 = Some q"
    and v: "v = (uint (le_dec x :: u32), uint (le_dec y :: u16), uint (le_dec z :: u16))" "r = q ! 0" "tag = q ! 1"
    using assms(2) by (auto simp: spher_raw_def split: bind_splits)
  note x = h [THEN rd_of_rd [OF b]]
  have xyz: "take 4 c = x" "take 2 (drop 4 c) = y" "take 2 (drop 6 c) = z"
    using x take_of_record [of 0 4 10 "10 * i" b] unfolding c_def by (simp_all add: take_of_record)
  show "spher_xyz m False e v j = wire_xyz m 3 e c j"
    by (simp add: spher_xyz_def wire_xyz_def angle_at_def v(1) turned_row Let_def xyz)
  have "length q = 2" using h(4) by (auto simp: rd_def split: if_splits)
  then show "r = c ! 8" "tag = c ! 9"
    using nth_of_record [OF x(4) [symmetric], of 10] unfolding c_def v by simp_all
qed

lemma interval_word:
  "(ucast (ucast (t :: u16) * 100 div ucast (n :: u16) :: u32) :: u64) = of_nat (unat t * 100 div unat n)"
proof -
  have l: "unat t < 2 ^ 16" "unat n < 2 ^ 16" using unat_less [of t] unat_less [of n] by simp_all
  then have u: "unat (ucast t :: u32) = unat t" "unat (ucast n :: u32) = unat n"
    by (simp_all add: unsigned_ucast_eq take_bit_nat_eq_self_iff)
  have "unat (ucast t * 100 :: u32) = unat t * 100" using l(1) by (simp add: unat_word_ariths(2) u(1) del: unsigned_ucast_eq)
  then have "unat (ucast t * 100 div ucast n :: u32) = unat t * 100 div unat n" using u(2) by (simp only: unat_div)
  then show ?thesis by (metis of_nat_unat)
qed

text \<open>\<open>says m pkt f\<close>: under the parameters \<open>e\<close> of its lidar the packet in the queue adds the points \<open>f e\<close>, and nothing else changes.\<close>

definition says :: "'r::field_char_0 math \<Rightarrow> RawPacket \<Rightarrow> ('r ExtParameterDetailed \<Rightarrow> 'r PointXyzlt list) \<Rightarrow> bool" where
  "says m pkt f \<longleftrightarrow> (\<forall>d d'. PointCloudProcess m pkt d = Some d' \<longrightarrow>
     d' = d\<lparr>points_clouds := points_clouds d @ f (extrinsic d)\<rparr>)"

lemma received_says:
  assumes "rd (eth_data d) 0 n = Some raw"
    and "pkt = \<lparr>rp_lidar_type = kLivoxLidarType, rp_handle = h, extrinsic_enable = False, point_num = ucast (dot_num d),
      data_type = eth_data_type d, line_num = line_num_of dev, time_stamp = stamp,
      point_interval = ucast (ucast (time_interval d) * 100 div ucast (dot_num d) :: u32), raw_data = raw\<rparr>"
  shows "says m pkt (\<lambda>e. packet_points m e dev stamp d)"
  unfolding says_def
proof (intro allI impI)
  fix u u' :: "'a LidarPubHandler" assume p: "PointCloudProcess m pkt u = Some u'"
  let ?n = "unat (dot_num d)" and ?e = "extrinsic u" and ?ty = "eth_data_type d"
  have n: "unat (point_num pkt) = ?n"
    using unat_less [of "dot_num d"] by (simp add: assms(2) unsigned_ucast_eq take_bit_nat_eq_self_iff)
  have ext: "extrinsic_enable pkt = False" by (simp add: assms(2))
  have points: "map (point_at rw xyz pkt ?e) [0..<?n] = packet_points m ?e dev stamp d"
    if ty: "point_type ?ty" and ok: "\<forall>i < ?n. rw raw i \<noteq> None"
      and rec: "\<And>i v r tag j. rw raw i = Some (v, r, tag) \<Longrightarrow> j < 3 \<Longrightarrow>
        xyz ?e v j = wire_xyz m ?ty ?e (take (wire_size ?ty) (drop (wire_size ?ty * i) (eth_data d))) j \<and>
        r = take (wire_size ?ty) (drop (wire_size ?ty * i) (eth_data d)) ! (wire_size ?ty - 2) \<and>
        tag = take (wire_size ?ty) (drop (wire_size ?ty * i) (eth_data d)) ! (wire_size ?ty - 1)"
    for rw :: "bytes \<Rightarrow> nat \<Rightarrow> ((int \<times> int \<times> int) \<times> u8 \<times> u8) option" and xyz
  proof -
    have "point_at rw xyz pkt ?e i = wire_point m ?e dev stamp d
        (i, take (wire_size ?ty) (drop (wire_size ?ty * i) (eth_data d)))" if "i < ?n" for i
    proof -
      obtain v r tag where w: "rw raw i = Some (v, r, tag)" using ok \<open>i < ?n\<close> by (metis not_Some_eq prod_cases3)
      show ?thesis
        using rec [OF w, of 0] rec [OF w, of 1] rec [OF w, of 2] w
        by (simp add: point_at_def wire_point_def assms(2) interval_word Let_def)
    qed
    then show ?thesis using ty by (simp add: packet_points_def enumerate_upt chunks_nth)
  qed
  show "u' = u\<lparr>points_clouds := points_clouds u @ packet_points m ?e dev stamp d\<rparr>"
  proof -
    consider "?ty = 1" | "?ty = 2" | "?ty = 3" | "\<not> point_type ?ty" by (auto simp: point_type_def)
    then show ?thesis
    proof cases
      case 1
      then have f: "foldM (push_point high_raw (high_xyz False) pkt) [0..<?n] u = Some u'"
        using p n ext by (simp add: PointCloudProcess_def LivoxLidarPointCloudProcess_def ProcessCartesianHighPoint_def assms(2))
      note l = push_points [OF f]
      moreover have "map (point_at high_raw (high_xyz False) pkt ?e) [0..<?n] = packet_points m ?e dev stamp d"
        by (rule points) (use 1 l high_record [OF assms(1)] in \<open>simp_all add: point_type_def wire_size_def assms(2)\<close>)
      ultimately show ?thesis by simp
    next
      case 2
      then have f: "foldM (push_point low_raw (low_xyz False) pkt) [0..<?n] u = Some u'"
        using p n ext by (simp add: PointCloudProcess_def LivoxLidarPointCloudProcess_def ProcessCartesianLowPoint_def assms(2))
      note l = push_points [OF f]
      moreover have "map (point_at low_raw (low_xyz False) pkt ?e) [0..<?n] = packet_points m ?e dev stamp d"
        by (rule points) (use 2 l low_record [OF assms(1)] in \<open>simp_all add: point_type_def wire_size_def assms(2)\<close>)
      ultimately show ?thesis by simp
    next
      case 3
      then have f: "foldM (push_point spher_raw (spher_xyz m False) pkt) [0..<?n] u = Some u'"
        using p n ext by (simp add: PointCloudProcess_def LivoxLidarPointCloudProcess_def ProcessSphericalPoint_def assms(2))
      note l = push_points [OF f]
      moreover have "map (point_at spher_raw (spher_xyz m False) pkt ?e) [0..<?n] = packet_points m ?e dev stamp d"
        by (rule points) (use 3 l spher_record [OF assms(1)] in \<open>simp_all add: point_type_def wire_size_def assms(2)\<close>)
      ultimately show ?thesis by simp
    next
      case 4
      then have "u' = u" using p by (auto simp: point_type_def PointCloudProcess_def LivoxLidarPointCloudProcess_def assms(2) split: if_splits)
      then show ?thesis using 4 by (simp add: packet_points_def)
    qed
  qed
qed

text \<open>The points of a lidar that were published, that are in the frame, and that are collected.\<close>

definition frame_points :: "u32 \<Rightarrow> 'p PointFrame \<Rightarrow> 'p list" where
  "frame_points h f = concat (map pp_points (filter (\<lambda>p. pp_handle p = h) (take (unat (lidar_num f)) (lidar_point f))))"

definition pending :: "u32 \<Rightarrow> 'r PubHandler \<Rightarrow> 'r PointXyzlt list" where
  "pending h s = (case map_of (process_handlers s) h of None \<Rightarrow> [] | Some d \<Rightarrow> points_clouds d)"

definition delivered :: "u32 \<Rightarrow> 'r PubHandler \<Rightarrow> 'r PointXyzlt list" where
  "delivered h s = concat (map (frame_points h) (published s))"

definition all_points :: "u32 \<Rightarrow> 'r PubHandler \<Rightarrow> 'r PointXyzlt list" where
  "all_points h s = delivered h s @ frame_points h (frame s) @ pending h s"

text \<open>The parameters that the points of a lidar are moved by, and whether they are final.\<close>

definition parameters :: "u32 \<Rightarrow> 'r::field_char_0 PubHandler \<Rightarrow> bool \<times> 'r ExtParameterDetailed" where
  "parameters h s = (case map_of (process_handlers s) h of None \<Rightarrow> (False, default_extrinsic)
     | Some d \<Rightarrow> (is_set_extrinsic_params d, extrinsic d))"

definition pub_inv :: "'r PubHandler \<Rightarrow> bool" where
  "pub_inv s \<longleftrightarrow> length (lidar_point (frame s)) = kMaxSourceLidar \<and> has_points_callback s"

text \<open>Steps that only move points towards the application.\<close>

definition only_moves :: "'r::field_char_0 PubHandler \<Rightarrow> 'r PubHandler \<Rightarrow> bool" where
  "only_moves s s' \<longleftrightarrow> pub_inv s' \<and> raw_packet_queue s' = raw_packet_queue s \<and> lidar_extrinsics s' = lidar_extrinsics s \<and>
     (\<forall>k. all_points k s' = all_points k s \<and> parameters k s' = parameters k s)"

lemma only_moves_trans: "only_moves s t \<Longrightarrow> only_moves t u \<Longrightarrow> only_moves s u"
  by (simp add: only_moves_def)

lemma frame_points_0 [simp]: "lidar_num f = 0 \<Longrightarrow> frame_points h f = []"
  by (simp add: frame_points_def)

lemma add_to_frame_spec:
  assumes "add_to_frame h s = Some s'" and "pub_inv s"
  shows "only_moves s s'"
proof -
  obtain d where d: "map_of (process_handlers s) h = Some d" using assms(1) by (auto simp: add_to_frame_def split: bind_splits)
  let ?n = "unat (lidar_num (frame s))"
  have n: "?n < 32" using assms(1) d by (auto simp: add_to_frame_def Let_def split: if_splits)
  then have n1: "unat (lidar_num (frame s) + 1) = ?n + 1" by (simp add: unat_word_ariths)
  have "pub_inv s' \<and> all_points k s' = all_points k s" for k
  proof (cases "points_clouds d = []")
    case True
    then show ?thesis using assms d n
      by (auto simp: add_to_frame_def GetLidarPointClouds_def Let_def pub_inv_def all_points_def delivered_def
          frame_points_def pending_def)
  next
    case False
    have "take (?n + 1) ((lidar_point (frame s))[?n := p]) = take ?n (lidar_point (frame s)) @ [p]" for p
      using assms(2) n by (simp add: pub_inv_def take_Suc_conv_app_nth)
    then show ?thesis using False assms d n n1
      by (auto simp: add_to_frame_def GetLidarPointClouds_def Let_def pub_inv_def all_points_def delivered_def
          frame_points_def pending_def)
  qed
  moreover have "raw_packet_queue s' = raw_packet_queue s \<and> lidar_extrinsics s' = lidar_extrinsics s \<and>
      parameters k s' = parameters k s" for k
    using assms(1) d n by (auto simp: add_to_frame_def GetLidarPointClouds_def Let_def parameters_def)
  ultimately show ?thesis by (auto simp: only_moves_def)
qed

lemma add_all_to_frame:
  assumes "foldM add_to_frame hs s = Some s'" and "pub_inv s"
  shows "only_moves s s'"
  using assms(1)
proof (rule foldM_relates)
  show "only_moves s s" using assms(2) by (simp add: only_moves_def)
  fix h u v assume "only_moves s u" and "add_to_frame h u = Some v"
  then show "only_moves s v" using add_to_frame_spec [of h u v] by (auto simp: only_moves_def)
qed

lemma publish_spec:
  assumes "pub_inv s"
  shows "only_moves s ((PublishPointCloud s)\<lparr>frame := (frame s)\<lparr>lidar_num := 0\<rparr>\<rparr>)"
  using assms by (simp add: only_moves_def PublishPointCloud_def pub_inv_def all_points_def delivered_def pending_def parameters_def)

lemma CheckTimer_spec:
  assumes "CheckTimer now h s = Some s'" and "pub_inv s"
  shows "only_moves s s'"
proof (cases "is_timestamp_sync s")
  case True
  obtain d where d: "map_of (process_handlers s) h = Some d"
    using assms(1) True by (auto simp: CheckTimer_def split: bind_splits)
  show ?thesis
  proof (cases "s' = s")
    case True
    then show ?thesis using assms(2) by (simp add: only_moves_def)
  next
    case False
    then obtain t where t: "add_to_frame h s = Some t"
      "s' = t \<or> s' = (PublishPointCloud t)\<lparr>frame := (frame t)\<lparr>lidar_num := 0\<rparr>\<rparr>"
      using assms(1) True d by (auto simp: CheckTimer_def Let_def split: if_splits bind_splits)
    have "only_moves s t" by (rule add_to_frame_spec [OF t(1) assms(2)])
    then show ?thesis using t(2) publish_spec [of t] only_moves_trans by (auto simp: only_moves_def)
  qed
next
  case False
  show ?thesis
  proof (cases "first_check s \<or> now - last_pub_time s < uint (publish_interval s)")
    case True
    then show ?thesis
      using assms \<open>\<not> is_timestamp_sync s\<close>
      by (auto simp: only_moves_def CheckTimer_def pub_inv_def all_points_def delivered_def pending_def parameters_def split: if_splits)
  next
    case late: False
    let ?s = "s\<lparr>last_pub_time := last_pub_time s + uint (publish_interval s)\<rparr>"
    obtain t where t: "foldM add_to_frame (map fst (process_handlers s)) ?s = Some t"
      "s' = (PublishPointCloud t)\<lparr>frame := (frame t)\<lparr>lidar_num := 0\<rparr>\<rparr>"
      using assms(1) False late by (auto simp: CheckTimer_def Let_def split: bind_splits)
    have s: "only_moves s ?s"
      using assms(2) by (simp add: only_moves_def pub_inv_def all_points_def delivered_def pending_def parameters_def)
    then have "pub_inv ?s" by (simp add: only_moves_def)
    then have st: "only_moves s t" using add_all_to_frame [OF t(1)] s only_moves_trans by blast
    then have "pub_inv t" by (simp add: only_moves_def)
    then show ?thesis unfolding t(2) using only_moves_trans [OF st] publish_spec by blast
  qed
qed

datatype 'r pub_event = Receive u64 u32 u8 EthernetPacket | Process int | Configure u32 "'r ExtParameter"

fun pub_step :: "'r::field_char_0 math \<Rightarrow> 'r pub_event \<Rightarrow> 'r PubHandler \<Rightarrow> 'r PubHandler option" where
  "pub_step m (Receive now h t d) s = OnLivoxLidarPointCloudCallback now h t d s"
| "pub_step m (Process now) s = RawDataProcess m now s"
| "pub_step m (Configure h p) s = Some (AddLidarsExtParam kLivoxLidarType h p s)"

text \<open>The reference for a run: without timers and frames, each packet waits with the points that it stands for, and when it is
  its turn these points, moved by the parameters of the lidar, are appended to those of its lidar. The first parameters
  that are configured when a packet is processed are final.\<close>

record 'r pipeline =
  to_come :: "(u32 \<times> ('r ExtParameterDetailed \<Rightarrow> 'r PointXyzlt list)) list"
  configured :: "u32 \<Rightarrow> 'r ExtParameter option"
  turning :: "u32 \<Rightarrow> bool \<times> 'r ExtParameterDetailed"
  made :: "u32 \<Rightarrow> 'r PointXyzlt list"

definition turn_of :: "'r::field_char_0 math \<Rightarrow> bool \<times> 'r ExtParameterDetailed \<Rightarrow> 'r ExtParameter option \<Rightarrow> bool \<times> 'r ExtParameterDetailed" where
  "turn_of m x c = (case c of Some p \<Rightarrow> (if fst x then x else (True, extrinsic (SetLidarsExtParam m p mk_LidarPubHandler))) | None \<Rightarrow> x)"

fun expect :: "'r::field_char_0 math \<Rightarrow> 'r pub_event \<Rightarrow> 'r pipeline \<Rightarrow> 'r pipeline" where
  "expect m (Receive now h t d) P =
     (if eth_data_type d = 0 then P
      else P\<lparr>to_come := to_come P @
        [(h, \<lambda>e. packet_points m e t (GetEthPacketTimestamp now (time_type d) (eth_timestamp d)) d)]\<rparr>)"
| "expect m (Process now) P =
     (case to_come P of [] \<Rightarrow> P
      | (h, f) # rest \<Rightarrow> (let x = turn_of m (turning P h) (configured P h)
          in P\<lparr>to_come := rest, turning := (turning P)(h := x), made := (made P)(h := made P h @ f (snd x))\<rparr>))"
| "expect m (Configure h p) P = P\<lparr>configured := (configured P)(h \<mapsto> p)\<rparr>"

definition pipeline_of :: "'r::field_char_0 PubHandler \<Rightarrow> 'r pipeline" where
  "pipeline_of s = \<lparr>to_come = [], configured = lidar_extrinsics s, turning = (\<lambda>h. parameters h s), made = (\<lambda>h. all_points h s)\<rparr>"

definition stands_for :: "'r::field_char_0 math \<Rightarrow> RawPacket \<Rightarrow> u32 \<times> ('r ExtParameterDetailed \<Rightarrow> 'r PointXyzlt list) \<Rightarrow> bool" where
  "stands_for m pkt w \<longleftrightarrow> rp_lidar_type pkt = kLivoxLidarType \<and> rp_handle pkt = fst w \<and> says m pkt (snd w)"

definition follows :: "'r::field_char_0 math \<Rightarrow> 'r PubHandler \<Rightarrow> 'r pipeline \<Rightarrow> bool" where
  "follows m s P \<longleftrightarrow> pub_inv s \<and> list_all2 (stands_for m) (raw_packet_queue s) (to_come P) \<and>
     configured P = lidar_extrinsics s \<and> (\<forall>h. turning P h = parameters h s \<and> made P h = all_points h s)"

lemma follows_moves: "follows m s P \<Longrightarrow> only_moves s s' \<Longrightarrow> follows m s' P"
  by (simp add: follows_def only_moves_def)

lemma Receive_follows:
  assumes "OnLivoxLidarPointCloudCallback now h t d s = Some s'" and "follows m s P"
  shows "follows m s' (expect m (Receive now h t d) P)"
proof (cases "eth_data_type d = 0")
  case True
  then have "only_moves s s'" using assms
    by (auto simp: follows_def OnLivoxLidarPointCloudCallback_def only_moves_def Let_def pub_inv_def all_points_def delivered_def
        pending_def parameters_def split: if_splits bind_splits prod.splits)
  then show ?thesis using True follows_moves [OF assms(2)] by simp
next
  case False
  let ?stamp = "GetEthPacketTimestamp now (time_type d) (eth_timestamp d)"
  obtain raw where raw: "rd (eth_data d) 0 (unat (ucast (eth_length d) - 37 + 1 :: u32)) = Some raw"
    using assms(1) False by (auto simp: OnLivoxLidarPointCloudCallback_def Let_def split: if_splits bind_splits)
  let ?pkt = "\<lparr>rp_lidar_type = kLivoxLidarType, rp_handle = h, extrinsic_enable = False, point_num = ucast (dot_num d),
      data_type = eth_data_type d, line_num = line_num_of t, time_stamp = ?stamp,
      point_interval = ucast (ucast (time_interval d) * 100 div ucast (dot_num d) :: u32), raw_data = raw\<rparr>"
  have s': "s' = s\<lparr>is_timestamp_sync := (time_type d \<noteq> 0), raw_packet_queue := raw_packet_queue s @ [?pkt]\<rparr>"
    using assms(1) False raw by (auto simp: OnLivoxLidarPointCloudCallback_def Let_def split: if_splits)
  have "stands_for m ?pkt (h, \<lambda>e. packet_points m e t ?stamp d)"
    using received_says [OF raw refl, of m h t ?stamp] by (simp add: stands_for_def)
  then show ?thesis using assms(2) False unfolding s'
    by (auto simp: follows_def pub_inv_def all_points_def delivered_def pending_def parameters_def intro: list_all2_appendI)
qed

lemma Process_follows:
  assumes "RawDataProcess m now s = Some s'" and "follows m s P"
  shows "follows m s' (expect m (Process now) P)"
proof (cases "raw_packet_queue s")
  case Nil
  then have "s' = s" "to_come P = []" using assms by (auto simp: RawDataProcess_def follows_def)
  then show ?thesis using assms(2) by simp
next
  case (Cons pkt rest)
  then obtain h f ws where w: "to_come P = (h, f) # ws" "stands_for m pkt (h, f)" "list_all2 (stands_for m) rest ws"
    using assms(2) by (auto simp: follows_def list_all2_Cons1)
  have h: "rp_handle pkt = h" "rp_lidar_type pkt = kLivoxLidarType" and f: "says m pkt f" using w(2) by (simp_all add: stands_for_def)
  let ?d = "case map_of (process_handlers s) h of None \<Rightarrow> mk_LidarPubHandler | Some d \<Rightarrow> d"
  let ?e = "case lidar_extrinsics s h of None \<Rightarrow> ?d | Some p \<Rightarrow> SetLidarsExtParam m p ?d"
  obtain d where d: "PointCloudProcess m pkt ?e = Some d"
    and t: "CheckTimer now h (s\<lparr>raw_packet_queue := rest, process_handlers := cmap_put h d (process_handlers s)\<rparr>) = Some s'"
    using assms(1) Cons h by (auto simp: RawDataProcess_def GetLidarId_def Let_def split: bind_splits)
  let ?s = "s\<lparr>raw_packet_queue := rest, process_handlers := cmap_put h d (process_handlers s)\<rparr>"
  let ?x = "turn_of m (turning P h) (configured P h)"
  have e: "points_clouds ?e = pending h s" "(is_set_extrinsic_params ?e, extrinsic ?e) = ?x"
    using assms(2)
    by (auto simp: follows_def pending_def turn_of_def parameters_def SetLidarsExtParam_def mk_LidarPubHandler_def Let_def
        split: option.split)
  have d': "d = ?e\<lparr>points_clouds := points_clouds ?e @ f (extrinsic ?e)\<rparr>" using f d unfolding says_def by blast
  have x: "snd ?x = extrinsic ?e" "fst ?x = is_set_extrinsic_params ?e" using e(2) by (metis snd_conv, metis fst_conv)
  have "pending k ?s = (if k = h then pending h s @ f (snd ?x) else pending k s)" for k
    unfolding x(1) e(1) [symmetric] using d' by (simp add: pending_def)
  then have "all_points k ?s = (if k = h then all_points h s @ f (snd ?x) else all_points k s)" for k
    by (simp add: all_points_def delivered_def)
  moreover have "parameters k ?s = (if k = h then ?x else parameters k s)" for k
    using d' e(2) by (simp add: parameters_def)
  ultimately have F: "follows m ?s (expect m (Process now) P)"
    using assms(2) w(1,3) by (auto simp: follows_def pub_inv_def Let_def)
  have "pub_inv ?s" using assms(2) by (simp add: follows_def pub_inv_def)
  then show ?thesis by (rule follows_moves [OF F CheckTimer_spec [OF t]])
qed

text \<open>C21: no point is lost, duplicated, changed or moved to another lidar, whatever the order of packets, of rounds of the
  processing thread, of configurations and of clock readings, in both modes of synchronisation: the points of a lidar that
  were published, followed by those in the frame and those that are collected, are exactly the points of its processed
  packets in order, each record of each packet decoded, moved by the parameters of the lidar, numbered by line and
  timed, and the packets that wait are the others. The coordinates are exact numbers, not \<^verbatim>\<open>float\<close>. The run is one
  without invalid accesses, with a callback for points, from a state without waiting packets.\<close>

theorem points_accounted:
  assumes "foldM (pub_step m) evs s = Some s'" and "pub_inv s" and "raw_packet_queue s = []"
  defines "P \<equiv> fold (expect m) evs (pipeline_of s)"
  shows "all_points k s' = made P k \<and> map rp_handle (raw_packet_queue s') = map fst (to_come P) \<and> pub_inv s'"
proof -
  have step: "follows m u' (expect m ev Q)" if "pub_step m ev u = Some u'" "follows m u Q" for ev u u' Q
  proof (cases ev)
    case (Receive now h t d)
    have "OnLivoxLidarPointCloudCallback now h t d u = Some u'" using that(1) Receive by simp
    then show ?thesis unfolding Receive by (rule Receive_follows [OF _ that(2)])
  next
    case (Process now)
    have "RawDataProcess m now u = Some u'" using that(1) Process by simp
    then show ?thesis unfolding Process by (rule Process_follows [OF _ that(2)])
  next
    case (Configure h p)
    then show ?thesis using that
      by (auto simp: follows_def AddLidarsExtParam_def GetLidarId_def pub_inv_def all_points_def delivered_def pending_def parameters_def)
  qed
  have "follows m s' (fold (expect m) evs Q)" if "foldM (pub_step m) evs u = Some s'" "follows m u Q" for u Q
    using that
  proof (induction evs arbitrary: u Q)
    case Nil
    then show ?case by simp
  next
    case (Cons ev evs)
    then obtain v where "pub_step m ev u = Some v" "foldM (pub_step m) evs v = Some s'" by (auto split: bind_splits)
    then show ?case using Cons step by simp
  qed
  moreover have "follows m s (pipeline_of s)" using assms(2,3) by (simp add: follows_def pipeline_of_def)
  ultimately have F: "follows m s' P" using assms(1) unfolding P_def by blast
  then have "map rp_handle (raw_packet_queue s') = map fst (to_come P)"
    unfolding follows_def list_all2_conv_all_nth by (auto simp: stands_for_def intro: nth_equalityI)
  then show ?thesis using F by (simp add: follows_def)
qed

definition rat_math :: "rat math" where
  "rat_math = \<lparr>m_sin = (\<lambda>x. x), m_cos = (\<lambda>_. 1), m_pi = 3\<rparr>"

definition example_eth :: EthernetPacket where
  "example_eth = \<lparr>eth_length = 36 + 8, time_interval = 4, dot_num = 1, eth_data_type = 2, time_type = 0,
     eth_timestamp = 0, eth_data = [1, 0, 2, 0, 3, 0, 9, 4]\<rparr>"

definition example_eth2 :: EthernetPacket where
  "example_eth2 = \<lparr>eth_length = 36 + 16, time_interval = 4, dot_num = 2, eth_data_type = 2, time_type = 0,
     eth_timestamp = 0, eth_data = [1, 0, 2, 0, 3, 0, 9, 4, 0xFF, 0xFF, 5, 0, 6, 0, 8, 7]\<rparr>"

definition example_events :: "rat pub_event list" where
  "example_events = [Receive 50 7 9 example_eth2, Process 1000]"

lemma example_run:
  "foldM (pub_step rat_math) example_events (mk_PubHandler\<lparr>has_points_callback := True\<rparr>) \<noteq> None"
  unfolding example_eth2_def example_events_def by code_simp

lemma example_pipeline:
  "map (\<lambda>p. (pz p, intensity p, pt_tag p, offset_time p))
     (made (fold (expect rat_math) example_events (pipeline_of (mk_PubHandler\<lparr>has_points_callback := True\<rparr>))) 7)
   = [(3 / 100, 9, 4, 50), (6 / 100, 8, 7, 250)]"
  unfolding example_eth2_def example_events_def by code_simp

lemma points_accounted_witness:
  "\<exists>s'. foldM (pub_step rat_math) example_events (mk_PubHandler\<lparr>has_points_callback := True\<rparr>) = Some s' \<and>
     map (\<lambda>p. (pz p, intensity p, pt_tag p, offset_time p)) (all_points 7 s') = [(3 / 100, 9, 4, 50), (6 / 100, 8, 7, 250)]"
proof -
  let ?s = "mk_PubHandler\<lparr>has_points_callback := True\<rparr> :: rat PubHandler"
  obtain s' where s': "foldM (pub_step rat_math) example_events ?s = Some s'" using example_run by blast
  have "pub_inv ?s" "raw_packet_queue ?s = []" by (simp_all add: mk_PubHandler_def empty_frame_def pub_inv_def)
  from points_accounted [OF s' this, of 7] show ?thesis using s' example_pipeline by simp
qed

section \<open>The transformation\<close>

definition real_math :: "real math" where
  "real_math = \<lparr>m_sin = sin, m_cos = cos, m_pi = pi\<rparr>"

lemma plane_rotation:
  fixes a b c s :: "'r::field_char_0"
  assumes "c * c + s * s = 1"
  shows "(a * c - b * s) * (a * c - b * s) + (a * s + b * c) * (a * s + b * c) = a * a + b * b"
proof -
  have "(a * c - b * s) * (a * c - b * s) + (a * s + b * c) * (a * s + b * c) = (a * a + b * b) * (c * c + s * s)"
    by (simp add: algebra_simps)
  then show ?thesis using assms by simp
qed

lemma rotation_rows:
  fixes e :: "'r::field_char_0 ExtParameterDetailed"
  assumes "\<And>i j. rotation e i j =
      [[cp * cy, sr * sp * cy - cr * sy, cr * sp * cy + sr * sy],
       [cp * sy, sr * sp * sy + cr * cy, cr * sp * sy - sr * cy],
       [- sp, sr * cp, cr * cp]] ! i ! j"
    and "cr * cr + sr * sr = 1" and "cp * cp + sp * sp = 1" and "cy * cy + sy * sy = 1"
  shows "apply_row e 0 (x, y, z) * apply_row e 0 (x, y, z) + apply_row e 1 (x, y, z) * apply_row e 1 (x, y, z) +
    apply_row e 2 (x, y, z) * apply_row e 2 (x, y, z) = x * x + y * y + z * z"
proof -
  let ?u = "y * cr - z * sr" and ?w = "y * sr + z * cr"
  let ?v = "x * cp - ?w * (- sp)"
  have 0: "apply_row e 0 (x, y, z) = ?v * cy - ?u * sy" by (simp add: apply_row_def assms(1) algebra_simps)
  have 1: "apply_row e 1 (x, y, z) = ?v * sy + ?u * cy" by (simp add: apply_row_def assms(1) algebra_simps)
  have 2: "apply_row e 2 (x, y, z) = x * (- sp) + ?w * cp"
    by (simp add: apply_row_def assms(1) algebra_simps numeral_2_eq_2)
  have "?u * ?u + ?w * ?w = y * y + z * z" by (rule plane_rotation [OF assms(2)])
  moreover have "?v * ?v + (x * (- sp) + ?w * cp) * (x * (- sp) + ?w * cp) = x * x + ?w * ?w"
    by (rule plane_rotation) (use assms(3) in simp)
  moreover have "(?v * cy - ?u * sy) * (?v * cy - ?u * sy) + (?v * sy + ?u * cy) * (?v * sy + ?u * cy) = ?v * ?v + ?u * ?u"
    by (rule plane_rotation [OF assms(4)])
  ultimately show ?thesis unfolding 0 1 2 by (simp only: ac_simps)
qed

text \<open>C35: the rotation that the extrinsic parameters of a lidar are turned into, with the mathematical sine and
  cosine, keeps the length of every vector, so that points of configured lidars are moved rigidly.\<close>

theorem configured_lidar_is_rigid:
  assumes "\<not> is_set_extrinsic_params d" and "e = extrinsic (SetLidarsExtParam real_math p d)"
  shows "(apply_row e 0 (x, y, z))\<^sup>2 + (apply_row e 1 (x, y, z))\<^sup>2 + (apply_row e 2 (x, y, z))\<^sup>2 = x\<^sup>2 + y\<^sup>2 + z\<^sup>2"
proof -
  let ?r = "roll p * pi / 180" and ?p = "pitch p * pi / 180" and ?y = "yaw p * pi / 180"
  have "rotation e i j =
      [[cos ?p * cos ?y, sin ?r * sin ?p * cos ?y - cos ?r * sin ?y, cos ?r * sin ?p * cos ?y + sin ?r * sin ?y],
       [cos ?p * sin ?y, sin ?r * sin ?p * sin ?y + cos ?r * cos ?y, cos ?r * sin ?p * sin ?y - sin ?r * cos ?y],
       [- sin ?p, sin ?r * cos ?p, cos ?r * cos ?p]] ! i ! j" for i j
    using assms by (simp add: SetLidarsExtParam_def real_math_def Let_def)
  from rotation_rows [OF this, of x y z] show ?thesis
    using sin_cos_squared_add3 by (simp add: power2_eq_square)
qed

lemma configured_lidar_is_rigid_witness:
  "(apply_row (extrinsic (SetLidarsExtParam real_math \<lparr>roll = 90, pitch = 0, yaw = 45, ext_x = 0, ext_y = 0, ext_z = 0\<rparr>
      mk_LidarPubHandler)) 0 (1, 2, 3))\<^sup>2
   + (apply_row (extrinsic (SetLidarsExtParam real_math \<lparr>roll = 90, pitch = 0, yaw = 45, ext_x = 0, ext_y = 0, ext_z = 0\<rparr>
      mk_LidarPubHandler)) 1 (1, 2, 3))\<^sup>2
   + (apply_row (extrinsic (SetLidarsExtParam real_math \<lparr>roll = 90, pitch = 0, yaw = 45, ext_x = 0, ext_y = 0, ext_z = 0\<rparr>
      mk_LidarPubHandler)) 2 (1, 2, 3))\<^sup>2 = 14"
  using configured_lidar_is_rigid [OF _ refl, of mk_LidarPubHandler
      "\<lparr>roll = 90, pitch = 0, yaw = 45, ext_x = 0, ext_y = 0, ext_z = 0\<rparr>" 1 2 3]
  by (simp add: mk_LidarPubHandler_def)

text \<open>The points of a lidar without configured parameters are skewed: the initial rotation has a one in the
  wrong place, and the height of a point is added to its second coordinate.\<close>

theorem unconfigured_lidar_is_skewed:
  fixes e :: "'r::field_char_0 ExtParameterDetailed"
  assumes "e = extrinsic mk_LidarPubHandler"
  shows "high_xyz False e (x, y, z) 0 = of_int x / 1000 \<and> high_xyz False e (x, y, z) 1 = (of_int y + of_int z) / 1000 \<and>
    high_xyz False e (x, y, z) 2 = of_int z / 1000 \<and> high_xyz True e (x, y, z) 1 = of_int y / 1000"
  using assms by (simp add: mk_LidarPubHandler_def default_extrinsic_def high_xyz_def apply_row_def numeral_2_eq_2)

lemma unconfigured_lidar_is_skewed_witness:
  "high_xyz False (extrinsic (mk_LidarPubHandler :: rat LidarPubHandler)) (0, 0, 2000) 1 = 2"
  using unconfigured_lidar_is_skewed [OF refl, of 0 0 2000, where 'r = rat] by simp

section \<open>Bounds\<close>

text \<open>A packet of points that announces no points divides by zero.\<close>

theorem empty_packet_divides_by_zero:
  assumes "eth_data_type d \<noteq> 0" and "dot_num d = 0"
  shows "OnLivoxLidarPointCloudCallback now h t d s = None"
  using assms by (simp add: OnLivoxLidarPointCloudCallback_def)

lemma empty_packet_divides_by_zero_witness:
  "OnLivoxLidarPointCloudCallback 5 7 9 (example_eth\<lparr>dot_num := 0\<rparr>) (mk_PubHandler :: rat PubHandler) = None"
  by (rule empty_packet_divides_by_zero) (simp_all add: example_eth_def)

lemma add_to_frame_room:
  assumes "map_of (process_handlers s) h = Some d" and "points_clouds d \<noteq> []"
  shows "(case add_to_frame h s of
      None \<Rightarrow> kMaxSourceLidar \<le> unat (lidar_num (frame s))
    | Some s' \<Rightarrow> unat (lidar_num (frame s)) < kMaxSourceLidar \<and> unat (lidar_num (frame s')) = unat (lidar_num (frame s)) + 1 \<and>
        (\<forall>k. k \<noteq> h \<longrightarrow> map_of (process_handlers s') k = map_of (process_handlers s) k))"
proof (cases "unat (lidar_num (frame s)) < 32")
  case True
  then have "unat (lidar_num (frame s) + 1) = unat (lidar_num (frame s)) + 1" by (simp add: unat_word_ariths)
  then show ?thesis using True assms by (simp add: add_to_frame_def GetLidarPointClouds_def Let_def)
next
  case False
  then show ?thesis using assms(1) by (simp add: add_to_frame_def Let_def)
qed

lemma add_all_room:
  assumes "distinct hs" and "\<forall>h \<in> set hs. \<exists>d. map_of (process_handlers s) h = Some d \<and> points_clouds d \<noteq> []"
    and "unat (lidar_num (frame s)) \<le> kMaxSourceLidar"
  shows "foldM add_to_frame hs s = None \<longleftrightarrow> kMaxSourceLidar < unat (lidar_num (frame s)) + length hs"
  using assms
proof (induction hs arbitrary: s)
  case Nil
  then show ?case by simp
next
  case (Cons h hs)
  then obtain d where d: "map_of (process_handlers s) h = Some d" "points_clouds d \<noteq> []" by auto
  show ?case
  proof (cases "add_to_frame h s")
    case None
    then show ?thesis using add_to_frame_room [OF d] by simp
  next
    case (Some s')
    then have s': "unat (lidar_num (frame s)) < 32" "unat (lidar_num (frame s')) = unat (lidar_num (frame s)) + 1"
      "\<forall>k. k \<noteq> h \<longrightarrow> map_of (process_handlers s') k = map_of (process_handlers s) k"
      using add_to_frame_room [OF d] by simp_all
    have "\<forall>k \<in> set hs. \<exists>d. map_of (process_handlers s') k = Some d \<and> points_clouds d \<noteq> []"
      using Cons.prems(1,2) s'(3) by (metis distinct.simps(2) list.set_intros(2))
    then have "foldM add_to_frame hs s' = None \<longleftrightarrow> 32 < unat (lidar_num (frame s')) + length hs"
      using Cons.prems(1) s'(1,2) by (intro Cons.IH) simp_all
    then show ?thesis using Some s'(2) by simp
  qed
qed

text \<open>When the frame is due without time synchronisation, and every lidar has points, the handler stays inside
  the frame exactly when there are at most 32 lidars; it does not limit their number.\<close>

theorem frame_capacity:
  assumes "\<not> is_timestamp_sync s" and "\<not> first_check s" and "uint (publish_interval s) \<le> now - last_pub_time s"
    and "lidar_num (frame s) = 0" and "distinct (map fst (process_handlers s))"
    and "\<forall>(h, d) \<in> set (process_handlers s). points_clouds d \<noteq> []"
  shows "CheckTimer now h s = None \<longleftrightarrow> kMaxSourceLidar < length (process_handlers s)"
proof -
  let ?s = "s\<lparr>last_pub_time := last_pub_time s + uint (publish_interval s)\<rparr>"
  have "\<forall>k \<in> set (map fst (process_handlers ?s)). \<exists>d. map_of (process_handlers ?s) k = Some d \<and> points_clouds d \<noteq> []"
    using assms(5,6) by (fastforce simp: map_of_eq_Some_iff)
  from add_all_room [OF _ this] have "foldM add_to_frame (map fst (process_handlers s)) ?s = None \<longleftrightarrow> 32 < length (process_handlers s)"
    using assms(4,5) by simp
  moreover have "CheckTimer now h s = None \<longleftrightarrow> foldM add_to_frame (map fst (process_handlers s)) ?s = None"
    using assms(1-3) by (simp add: CheckTimer_def Let_def bind_eq_None_conv)
  ultimately show ?thesis by simp
qed

definition some_points :: "nat LidarPubHandler" where
  "some_points = \<lparr>points_clouds = [\<lparr>px = 0, py = 0, pz = 0, intensity = 0, pt_tag = 0, pt_line = 0, offset_time = 0\<rparr>],
     extrinsic = \<lparr>trans = (\<lambda>_. 0), rotation = (\<lambda>_ _. 0)\<rparr>, is_set_extrinsic_params = True\<rparr>"

lemma frame_capacity_witness:
  "CheckTimer 200000000 5 (mk_PubHandler\<lparr>first_check := False, process_handlers := [(5, some_points), (7, some_points)]\<rparr>) \<noteq> None"
proof -
  let ?s = "mk_PubHandler\<lparr>first_check := False, process_handlers := [(5, some_points), (7, some_points)]\<rparr>"
  have "CheckTimer 200000000 5 ?s = None \<longleftrightarrow> kMaxSourceLidar < length (process_handlers ?s)"
    by (rule frame_capacity) (simp_all add: mk_PubHandler_def empty_frame_def some_points_def)
  then show ?thesis by simp
qed

end
