(* ===== verification/Lvx_Protocol.thy ===== *)
theory Lvx_Protocol
  imports Prelude
begin

text \<open>
  The command frame of the Livox protocol (\<^verbatim>\<open>sdk_core/comm/sdk_protocol.cpp\<close>, \<^verbatim>\<open>comm_port.cpp\<close>,
  \<^verbatim>\<open>generate_seq.cpp\<close>): packing into and parsing out of a byte buffer laid out as the packed struct
  \<^verbatim>\<open>SdkPacket\<close>. The two checksums come from the vendored FastCRC library and are parameters of the
  definitions, of which nothing is assumed. A buffer is the memory behind the pointer; its declared
  size is a separate argument, as in the code.
\<close>

section \<open>Packets\<close>

text \<open>\<^verbatim>\<open>kLidarSdk\<close> of \<^verbatim>\<open>ProtocolType\<close>.\<close>

abbreviation kLidarSdk :: u8 where "kLidarSdk \<equiv> 0"

text \<open>The \<^verbatim>\<open>data\<close> pointer is the memory it points at.\<close>

record CommPacket =
  protocol :: u8
  cp_version :: u8
  seq_num :: u32
  cmd_id :: u16
  cmd_type :: u8
  sender_type :: u8
  cp_data :: bytes
  data_len :: u16

abbreviation kSdkProtocolSof :: u8 where "kSdkProtocolSof \<equiv> 0xAA"
abbreviation kSdkVer :: u8 where "kSdkVer \<equiv> 0"

definition GetPreambleLen :: u32 where "GetPreambleLen = 24"

definition GetPacketWrapperLen :: u32 where "GetPacketWrapperLen = 25 - 1"

definition packet_length :: "u16 \<Rightarrow> u16" where
  "packet_length n = ucast (ucast n + GetPacketWrapperLen)"

text \<open>\<open>Pack\<close> returns the code, the buffer, and the value stored in \<^verbatim>\<open>o_len\<close>.\<close>

definition Pack :: "(bytes \<Rightarrow> u16) \<Rightarrow> (bytes \<Rightarrow> u32) \<Rightarrow> bytes \<Rightarrow> u32 \<Rightarrow> CommPacket
    \<Rightarrow> (int \<times> bytes \<times> u32 option) option" where
  "Pack crc16 crc32 o_buf o_buf_size pkt =
     (if protocol pkt \<noteq> kLidarSdk then Some (-1, o_buf, None)
      else do {
        let len = packet_length (data_len pkt);
        b \<leftarrow> wr o_buf 0 [kSdkProtocolSof];
        b \<leftarrow> wr b 1 [kSdkVer];
        b \<leftarrow> wr b 2 (le_enc 2 len);
        if ucast len > o_buf_size then Some (-1, b, None)
        else do {
          b \<leftarrow> wr b 4 (le_enc 4 (seq_num pkt AND 0xFFFF));
          b \<leftarrow> wr b 8 (le_enc 2 (cmd_id pkt));
          b \<leftarrow> wr b 10 [cmd_type pkt];
          b \<leftarrow> wr b 11 [sender_type pkt];
          h \<leftarrow> rd b 0 18;
          b \<leftarrow> wr b 18 (le_enc 2 (crc16 h));
          d \<leftarrow> rd (cp_data pkt) 0 (unat (data_len pkt));
          b \<leftarrow> wr b 20 (le_enc 4 (if data_len pkt = 0 then 0 else crc32 d));
          b \<leftarrow> wr b 24 d;
          Some (0, b, Some (ucast len))
        }
      })"

definition GetPacketLen :: "bytes \<Rightarrow> u32 option" where
  "GetPacketLen buf = do { l \<leftarrow> rd buf 2 2; Some (ucast (le_dec l :: u16)) }"

definition ParsePacket :: "bytes \<Rightarrow> u32 \<Rightarrow> CommPacket option option" where
  "ParsePacket buf buf_size =
     (if buf_size < GetPacketWrapperLen then Some None
      else do {
        v \<leftarrow> rd buf 1 1;
        q \<leftarrow> rd buf 4 4;
        c \<leftarrow> rd buf 8 2;
        t \<leftarrow> rd buf 10 1;
        s \<leftarrow> rd buf 11 1;
        l \<leftarrow> rd buf 2 2;
        Some (Some \<lparr>protocol = kLidarSdk, cp_version = hd v, seq_num = le_dec q, cmd_id = le_dec c,
          cmd_type = hd t, sender_type = hd s, cp_data = drop 24 buf,
          data_len = ucast (ucast (le_dec l :: u16) - GetPacketWrapperLen)\<rparr>)
      })"

definition CheckPreamble :: "(bytes \<Rightarrow> u16) \<Rightarrow> (bytes \<Rightarrow> u32) \<Rightarrow> bytes \<Rightarrow> u32 \<Rightarrow> bool option" where
  "CheckPreamble crc16 crc32 buf buf_size =
     (if buf_size < GetPreambleLen then Some False
      else do {
        f \<leftarrow> rd buf 0 1;
        if hd f \<noteq> kSdkProtocolSof then Some False else do {
        v \<leftarrow> rd buf 1 1;
        if hd v \<noteq> kSdkVer then Some False else do {
        len \<leftarrow> GetPacketLen buf;
        if len < GetPreambleLen then Some False else do {
        h \<leftarrow> rd buf 0 18;
        c \<leftarrow> rd buf 18 2;
        if le_dec c \<noteq> crc16 h then Some False else do {
        crc \<leftarrow> (if len - GetPacketWrapperLen = 0 then Some 0
                else map_option crc32 (rd buf 24 (unat (len - GetPacketWrapperLen))));
        d \<leftarrow> rd buf 20 4;
        Some (le_dec d = crc)
      }}}}})"

definition ParseCommStream :: "(bytes \<Rightarrow> u16) \<Rightarrow> (bytes \<Rightarrow> u32) \<Rightarrow> bytes \<Rightarrow> u32 \<Rightarrow> CommPacket option option" where
  "ParseCommStream crc16 crc32 buf buf_size = do {
     ok \<leftarrow> CheckPreamble crc16 crc32 buf buf_size;
     if ok then ParsePacket buf buf_size else Some None
   }"

section \<open>Round trip\<close>

lemma packet_length_nat:
  assumes "unat n + 24 < 2 ^ 16"
  shows "unat (packet_length n) = unat n + 24"
proof -
  have "unat (ucast n :: u32) = unat n"
    using unat_less [of n] by (simp add: unsigned_ucast_eq take_bit_nat_eq_self_iff)
  then have "unat (ucast n + GetPacketWrapperLen) = unat n + 24"
    using assms by (simp add: GetPacketWrapperLen_def unat_word_ariths)
  then show ?thesis
    using assms unfolding packet_length_def
    by (simp only: unsigned_ucast_eq) (simp add: take_bit_nat_eq_self_iff)
qed

lemma unat_ucast_u16 [simp]: "unat (ucast (n :: u16) :: u32) = unat n"
  using unat_less [of n] by (simp add: unsigned_ucast_eq take_bit_nat_eq_self_iff)

lemma Pack_layout:
  assumes "protocol pkt = kLidarSdk" and "unat (data_len pkt) + 24 < 2 ^ 16"
    and "unat (data_len pkt) + 24 \<le> unat o_size" and "unat o_size \<le> length o_buf"
    and "unat (data_len pkt) \<le> length (cp_data pkt)"
  obtains b where
    "Pack crc16 crc32 o_buf o_size pkt = Some (0, b, Some (ucast (packet_length (data_len pkt))))"
    "length b = length o_buf"
    "rd b 0 1 = Some [kSdkProtocolSof]" "rd b 1 1 = Some [kSdkVer]"
    "rd b 2 2 = Some (le_enc 2 (packet_length (data_len pkt)))"
    "rd b 4 4 = Some (le_enc 4 (seq_num pkt AND 0xFFFF))"
    "rd b 8 2 = Some (le_enc 2 (cmd_id pkt))" "rd b 10 1 = Some [cmd_type pkt]"
    "rd b 11 1 = Some [sender_type pkt]"
    "\<exists>h. rd b 0 18 = Some h \<and> rd b 18 2 = Some (le_enc 2 (crc16 h))"
    "rd b 20 4 = Some (le_enc 4 (if data_len pkt = 0 then 0
       else crc32 (take (unat (data_len pkt)) (cp_data pkt))))"
    "rd b 24 (unat (data_len pkt)) = Some (take (unat (data_len pkt)) (cp_data pkt))"
proof -
  let ?len = "packet_length (data_len pkt)" and ?d = "take (unat (data_len pkt)) (cp_data pkt)"
  have d: "rd (cp_data pkt) 0 (unat (data_len pkt)) = Some ?d" "length ?d = unat (data_len pkt)"
    using assms(5) by (simp_all add: rd_def)
  have n: "unat (data_len pkt) + 24 \<le> length o_buf" using assms(3,4) by simp
  have room: "\<not> ucast ?len > o_size"
    using assms(2,3) by (simp add: word_less_nat_alt packet_length_nat)
  obtain b1 where b1: "wr o_buf 0 [kSdkProtocolSof] = Some b1" "length b1 = length o_buf"
    using wr_fits [of 0 "[kSdkProtocolSof]" o_buf] n by auto
  obtain b2 where b2: "wr b1 1 [kSdkVer] = Some b2" "length b2 = length o_buf"
    using wr_fits [of 1 "[kSdkVer]" b1] n b1 by auto
  obtain b3 where b3: "wr b2 2 (le_enc 2 ?len) = Some b3" "length b3 = length o_buf"
    using wr_fits [of 2 "le_enc 2 ?len" b2] n b2 by auto
  obtain b4 where b4: "wr b3 4 (le_enc 4 (seq_num pkt AND 0xFFFF)) = Some b4" "length b4 = length o_buf"
    using wr_fits [of 4 "le_enc 4 (seq_num pkt AND 0xFFFF)" b3] n b3 by auto
  obtain b5 where b5: "wr b4 8 (le_enc 2 (cmd_id pkt)) = Some b5" "length b5 = length o_buf"
    using wr_fits [of 8 "le_enc 2 (cmd_id pkt)" b4] n b4 by auto
  obtain b6 where b6: "wr b5 10 [cmd_type pkt] = Some b6" "length b6 = length o_buf"
    using wr_fits [of 10 "[cmd_type pkt]" b5] n b5 by auto
  obtain b7 where b7: "wr b6 11 [sender_type pkt] = Some b7" "length b7 = length o_buf"
    using wr_fits [of 11 "[sender_type pkt]" b6] n b6 by auto
  obtain h where h: "rd b7 0 18 = Some h" using n b7 by (auto simp: rd_def)
  obtain b8 where b8: "wr b7 18 (le_enc 2 (crc16 h)) = Some b8" "length b8 = length o_buf"
    using wr_fits [of 18 "le_enc 2 (crc16 h)" b7] n b7 by auto
  let ?c = "if data_len pkt = 0 then 0 else crc32 ?d"
  obtain b9 where b9: "wr b8 20 (le_enc 4 ?c) = Some b9" "length b9 = length o_buf"
    using wr_fits [of 20 "le_enc 4 ?c" b8] n b8 by auto
  obtain b where b: "wr b9 24 ?d = Some b" "length b = length o_buf"
    using wr_fits [of 24 ?d b9] n b9 d by auto
  note ws = b1(1) b2(1) b3(1) b4(1) b5(1) b6(1) b7(1) b8(1) b9(1) b(1)
  note keep = ws [THEN rd_wr_disjoint] and same = ws [THEN rd_wr_same]
  have pack: "Pack crc16 crc32 o_buf o_size pkt = Some (0, b, Some (ucast ?len))"
    using assms(1) room ws h d(1) by (simp add: Pack_def Let_def)
  show thesis
    by (rule that [OF pack b(2)]; use same d(2) h in \<open>simp add: keep\<close>)
qed

lemma packet_length_diff:
  assumes "unat n + 24 < 2 ^ 16"
  shows "ucast (packet_length n) - GetPacketWrapperLen = ucast n"
    and "\<not> ucast (packet_length n) < GetPreambleLen"
proof -
  have l: "unat (ucast (packet_length n) :: u32) = unat n + 24"
    by (simp add: packet_length_nat [OF assms])
  then have "(ucast (packet_length n) :: u32) = ucast n + 24"
    using assms by (intro word_unat_eq_iff [THEN iffD2]) (simp add: unat_word_ariths)
  then show "ucast (packet_length n) - GetPacketWrapperLen = ucast n"
    by (simp add: GetPacketWrapperLen_def)
  show "\<not> ucast (packet_length n) < GetPreambleLen"
    using l by (simp add: word_less_nat_alt GetPreambleLen_def)
qed

lemma frame_roundtrip_buf:
  assumes "protocol pkt = kLidarSdk" and "unat (data_len pkt) + 24 < 2 ^ 16"
    and "unat (data_len pkt) + 24 \<le> unat o_size" and "unat o_size \<le> length o_buf"
    and "unat (data_len pkt) \<le> length (cp_data pkt)"
  shows "\<exists>b n p. Pack crc16 crc32 o_buf o_size pkt = Some (0, b, Some n) \<and>
    unat n = unat (data_len pkt) + 24 \<and> length b = length o_buf \<and>
    ParseCommStream crc16 crc32 b n = Some (Some p) \<and>
    p = pkt\<lparr>cp_version := 0, seq_num := seq_num pkt AND 0xFFFF, cp_data := drop 24 b\<rparr> \<and>
    take (unat (data_len pkt)) (cp_data p) = take (unat (data_len pkt)) (cp_data pkt)"
proof -
  let ?len = "packet_length (data_len pkt)" and ?d = "take (unat (data_len pkt)) (cp_data pkt)"
  obtain b where b: "Pack crc16 crc32 o_buf o_size pkt = Some (0, b, Some (ucast ?len))"
    "length b = length o_buf"
    "rd b 0 1 = Some [kSdkProtocolSof]" "rd b 1 1 = Some [kSdkVer]"
    "rd b 2 2 = Some (le_enc 2 ?len)" "rd b 4 4 = Some (le_enc 4 (seq_num pkt AND 0xFFFF))"
    "rd b 8 2 = Some (le_enc 2 (cmd_id pkt))" "rd b 10 1 = Some [cmd_type pkt]"
    "rd b 11 1 = Some [sender_type pkt]"
    "\<exists>h. rd b 0 18 = Some h \<and> rd b 18 2 = Some (le_enc 2 (crc16 h))"
    "rd b 20 4 = Some (le_enc 4 (if data_len pkt = 0 then 0 else crc32 ?d))"
    "rd b 24 (unat (data_len pkt)) = Some ?d"
    by (rule Pack_layout [OF assms])
  note len = packet_length_diff [OF assms(2)]
  have n: "unat (ucast ?len :: u32) = unat (data_len pkt) + 24"
    by (simp add: packet_length_nat [OF assms(2)])
  then have "\<not> ucast ?len < GetPacketWrapperLen"
    by (simp add: word_less_nat_alt GetPacketWrapperLen_def)
  moreover have "(ucast (data_len pkt) :: u32) = 0 \<longleftrightarrow> data_len pkt = 0"
    by (metis unat_ucast_u16 unat_0_iff)
  moreover have "ucast (ucast (data_len pkt) :: u32) = data_len pkt"
    by (rule bit_word_eqI) (auto simp: bit_simps)
  ultimately have "ParseCommStream crc16 crc32 b (ucast ?len) =
    Some (Some (pkt\<lparr>cp_version := 0, seq_num := seq_num pkt AND 0xFFFF, cp_data := drop 24 b\<rparr>))"
    using b(3-11) b(12) assms(1) len
    by (auto simp: ParseCommStream_def CheckPreamble_def GetPacketLen_def ParsePacket_def le_dec_enc)
  moreover have "take (unat (data_len pkt)) (drop 24 b) = ?d"
    using b(12) by (simp add: rd_Some_iff)
  ultimately show ?thesis using b(1,2) n by auto
qed

text \<open>What is sent is the front of the buffer; the receiver needs no more than that.\<close>

lemma ParseCommStream_take:
  assumes "ParseCommStream crc16 crc32 b n = Some (Some p)" and "GetPacketLen b = Some n" and "unat n \<le> length b"
  shows "ParseCommStream crc16 crc32 (take (unat n) b) n = Some (Some (p\<lparr>cp_data := drop 24 (take (unat n) b)\<rparr>))"
proof -
  have "24 \<le> unat n"
    using assms(1) by (auto simp: ParseCommStream_def CheckPreamble_def GetPreambleLen_def bind_eq_Some_conv
        word_less_nat_alt split: if_splits)
  then have r: "rd (take (unat n) b) o2 k = rd b o2 k" if "o2 + k \<le> unat n" for o2 k
    using that assms(3) by (simp add: rd_def drop_take min_def)
  have g: "GetPacketLen (take (unat n) b) = GetPacketLen b" using \<open>24 \<le> unat n\<close> by (simp add: GetPacketLen_def r)
  have l: "24 + unat (n - GetPacketWrapperLen) \<le> unat n"
    using \<open>24 \<le> unat n\<close> by (simp add: GetPacketWrapperLen_def unat_sub word_le_nat_alt)
  have c: "CheckPreamble crc16 crc32 (take (unat n) b) n = CheckPreamble crc16 crc32 b n"
    using \<open>24 \<le> unat n\<close> l unfolding CheckPreamble_def g by (simp add: r assms(2) cong: if_cong)
  have "\<not> n < GetPacketWrapperLen" using \<open>24 \<le> unat n\<close> by (simp add: word_less_nat_alt GetPacketWrapperLen_def)
  then show ?thesis
    using assms(1) \<open>24 \<le> unat n\<close> unfolding ParseCommStream_def c
    by (auto simp: ParsePacket_def r bind_eq_Some_conv split: if_splits)
qed

lemma frame_roundtrip:
  assumes "protocol pkt = kLidarSdk" and "unat (data_len pkt) + 24 < 2 ^ 16"
    and "unat (data_len pkt) + 24 \<le> unat o_size" and "unat o_size \<le> length o_buf"
    and "unat (data_len pkt) \<le> length (cp_data pkt)"
  shows "\<exists>b n p. Pack crc16 crc32 o_buf o_size pkt = Some (0, b, Some n) \<and>
    unat n = unat (data_len pkt) + 24 \<and> length b = length o_buf \<and>
    ParseCommStream crc16 crc32 (take (unat n) b) n = Some (Some p) \<and>
    p = pkt\<lparr>cp_version := 0, seq_num := seq_num pkt AND 0xFFFF, cp_data := take (unat (data_len pkt)) (cp_data pkt)\<rparr>"
proof -
  obtain b n p where b: "Pack crc16 crc32 o_buf o_size pkt = Some (0, b, Some n)"
    "unat n = unat (data_len pkt) + 24" "length b = length o_buf" "ParseCommStream crc16 crc32 b n = Some (Some p)"
    "p = pkt\<lparr>cp_version := 0, seq_num := seq_num pkt AND 0xFFFF, cp_data := drop 24 b\<rparr>"
    "take (unat (data_len pkt)) (cp_data p) = take (unat (data_len pkt)) (cp_data pkt)"
    using frame_roundtrip_buf [OF assms] by blast
  obtain b' where b': "Pack crc16 crc32 o_buf o_size pkt = Some (0, b', Some (ucast (packet_length (data_len pkt))))"
    "rd b' 2 2 = Some (le_enc 2 (packet_length (data_len pkt)))"
    by (rule Pack_layout [OF assms])
  have "b' = b" "n = ucast (packet_length (data_len pkt))" using b(1) b'(1) by simp_all
  then have "GetPacketLen b = Some n" using b'(2) by (simp add: GetPacketLen_def le_dec_enc)
  moreover have "unat n \<le> length b" using b(2,3) assms(3,4) by simp
  ultimately have "ParseCommStream crc16 crc32 (take (unat n) b) n = Some (Some (p\<lparr>cp_data := drop 24 (take (unat n) b)\<rparr>))"
    using b(4) by (intro ParseCommStream_take)
  moreover have "drop 24 (take (unat n) b) = take (unat (data_len pkt)) (cp_data pkt)"
    using b(2,5,6) by (simp add: drop_take)
  ultimately show ?thesis using b by auto
qed

text \<open>C10: a command packet of at most 65511 data bytes that fits the buffer is packed into a frame that the
  receiver accepts and parses back to the same identifier, type, sender and data. The version is read as 0, whatever it was
  (the receiver does not look at it), and the sequence number loses its upper half. The receiver is given
  exactly the bytes of the frame. This holds for every pair of checksum functions. Longer data, whose length wraps
  around in the 16 bits of the header, is not covered.\<close>

theorem Pack_Parse_roundtrip:
  assumes "protocol pkt = kLidarSdk" and "unat (data_len pkt) + 24 < 2 ^ 16"
    and "unat (data_len pkt) + 24 \<le> unat o_size" and "unat o_size \<le> length o_buf"
    and "unat (data_len pkt) \<le> length (cp_data pkt)"
  shows "\<exists>b n. Pack crc16 crc32 o_buf o_size pkt = Some (0, b, Some n) \<and>
    unat n = unat (data_len pkt) + 24 \<and>
    ParseCommStream crc16 crc32 (take (unat n) b) n = Some (Some (pkt\<lparr>cp_version := 0,
      seq_num := seq_num pkt AND 0xFFFF, cp_data := take (unat (data_len pkt)) (cp_data pkt)\<rparr>))"
  using frame_roundtrip [OF assms, of crc16 crc32] by blast

definition example_pkt :: CommPacket where
  "example_pkt = \<lparr>protocol = 0, cp_version = 7, seq_num = 0x12345, cmd_id = 0x100, cmd_type = 0,
     sender_type = 0, cp_data = [1, 2, 3], data_len = 3\<rparr>"

theorem Pack_Parse_roundtrip_witness:
  "\<exists>b n. Pack (\<lambda>_. 5) (\<lambda>_. 6) (replicate 30 0) 30 example_pkt = Some (0, b, Some n) \<and>
    ParseCommStream (\<lambda>_. 5) (\<lambda>_. 6) (take (unat n) b) n = Some (Some (example_pkt\<lparr>cp_version := 0,
      seq_num := 0x12345 AND 0xFFFF, cp_data := [1, 2, 3]\<rparr>))"
  using Pack_Parse_roundtrip [of example_pkt 30 "replicate 30 0" "\<lambda>_. 5" "\<lambda>_. 6"]
  by (auto simp: example_pkt_def)

section \<open>Rejection\<close>

text \<open>What the receiver accepts is a frame of at least 24 bytes whose start byte, version, length and
  both checksums agree; a frame with a wrong header checksum is refused whatever else it holds.\<close>

theorem CheckPreamble_sound:
  assumes "CheckPreamble crc16 crc32 buf n = Some True"
  shows "24 \<le> unat n \<and> rd buf 0 1 = Some [kSdkProtocolSof] \<and> rd buf 1 1 = Some [kSdkVer] \<and>
    (\<exists>h c l. rd buf 0 18 = Some h \<and> rd buf 18 2 = Some c \<and> le_dec c = crc16 h \<and>
      GetPacketLen buf = Some l \<and> 24 \<le> unat l \<and>
      (l = 24 \<or> rd buf 24 (unat l - 24) \<noteq> None \<and>
        (\<exists>d. rd buf 20 4 = Some d \<and> le_dec d = crc32 (the (rd buf 24 (unat l - 24))))))"
proof -
  from assms obtain f v h c l crc d where *: "\<not> n < GetPreambleLen" "rd buf 0 1 = Some f" "hd f = kSdkProtocolSof"
    "rd buf 1 1 = Some v" "hd v = kSdkVer" "GetPacketLen buf = Some l" "\<not> l < GetPreambleLen"
    "rd buf 0 18 = Some h" "rd buf 18 2 = Some c" "le_dec c = crc16 h"
    "(if l - GetPacketWrapperLen = 0 then Some 0
      else map_option crc32 (rd buf 24 (unat (l - GetPacketWrapperLen)))) = Some crc"
    "rd buf 20 4 = Some d" "le_dec d = crc"
    by (auto simp: CheckPreamble_def bind_eq_Some_conv split: if_splits)
  have u: "24 \<le> unat n" "24 \<le> unat l"
    using *(1,7) by (simp_all add: GetPreambleLen_def word_less_nat_alt)
  have fv: "f = [kSdkProtocolSof]" "v = [kSdkVer]"
    using *(2-5) length_rd [of buf 0 1 f] length_rd [of buf 1 1 v]
    by (auto simp: length_Suc_conv)
  have d: "unat (l - GetPacketWrapperLen) = unat l - 24" "l - GetPacketWrapperLen = 0 \<longleftrightarrow> l = 24"
    using u(2) by (simp_all add: GetPacketWrapperLen_def unat_sub word_le_nat_alt)
  show ?thesis using * u fv d by (auto split: if_splits)
qed

definition example_header :: "u8 \<Rightarrow> bytes" where
  "example_header n = [0xAA, 0, n, 0, 0, 0, 0, 0, 0, 0, 0, 0, 0, 0, 0, 0, 0, 0, 5, 0, 0, 0, 0, 0]"

lemma example_header_rd [simp]:
  "length (example_header n) = 24" "rd (example_header n) 0 1 = Some [0xAA]"
  "rd (example_header n) 1 1 = Some [0]" "rd (example_header n) 18 2 = Some [5, 0]"
  "rd (example_header n) 2 2 = Some [n, 0]"
  "\<exists>h. rd (example_header n) 0 18 = Some h"
  by (simp_all add: example_header_def rd_def numeral_eq_Suc)

theorem CheckPreamble_sound_witness:
  "\<exists>h c. rd (example_header 24) 0 18 = Some h \<and> rd (example_header 24) 18 2 = Some c \<and> le_dec c = (5 :: u16)"
proof -
  have "CheckPreamble (\<lambda>_. 5) (\<lambda>_. 6) (example_header 24) 24 = Some True"
    by code_simp
  from CheckPreamble_sound [OF this] show ?thesis by blast
qed

text \<open>The receiver takes the length of the data from the frame and never compares it with the size of
  the datagram: a datagram of exactly 24 bytes whose header is well-formed and announces data makes
  the checksum computation read past the end.\<close>

theorem CheckPreamble_overread:
  assumes "length buf = 24" and "24 \<le> unat n" and "rd buf 0 1 = Some [kSdkProtocolSof]"
    and "rd buf 1 1 = Some [kSdkVer]" and "GetPacketLen buf = Some l" and "24 < unat l"
    and "rd buf 0 18 = Some h" and "rd buf 18 2 = Some (le_enc 2 (crc16 h))"
  shows "CheckPreamble crc16 crc32 buf n = None"
proof -
  have "unat (l - GetPacketWrapperLen) = unat l - 24"
    using assms(6) by (simp add: GetPacketWrapperLen_def unat_sub word_le_nat_alt)
  moreover from this have "l - GetPacketWrapperLen \<noteq> 0" using assms(6) by auto
  ultimately show ?thesis
    using assms by (simp add: CheckPreamble_def GetPreambleLen_def word_less_nat_alt le_dec_enc rd_def)
qed

theorem CheckPreamble_overread_witness:
  "CheckPreamble (\<lambda>_. 5) (\<lambda>_. 6) (example_header 25) 24 = None"
proof -
  obtain h where h: "rd (example_header 25) 0 18 = Some h" using example_header_rd by blast
  have l: "GetPacketLen (example_header 25) = Some 25" by code_simp
  have c: "rd (example_header 25) 18 2 = Some (le_enc 2 (5 :: u16))" by code_simp
  show ?thesis
    by (rule CheckPreamble_overread [OF _ _ example_header_rd(2) example_header_rd(3) l _ h c]) simp_all
qed

section \<open>Sequence numbers\<close>

text \<open>
  The generator keeps one static atomic counter; a call reads it, computes the successor and retries
  until the exchange succeeds, so that each call is one atomic step on the value it finally exchanges.
\<close>

definition GetSeq :: "u32 \<Rightarrow> u32 \<times> u32" where
  "GetSeq v = (let desired = (if v = 0xFFFF then 1 else v + 1) in (desired, desired))"

definition seq_init :: u32 where "seq_init = 1"

primrec seq_after :: "nat \<Rightarrow> u32" where
  "seq_after 0 = seq_init"
| "seq_after (Suc n) = snd (GetSeq (seq_after n))"

lemma seq_after_nat: "unat (seq_after n) = n mod 65535 + 1"
proof (induction n)
  case 0
  then show ?case by (simp add: seq_init_def)
next
  case (Suc n)
  have m: "n mod 65535 < 65535" by simp
  show ?case
  proof (cases "n mod 65535 = 65534")
    case True
    then have "unat (seq_after n) = unat (0xFFFF :: u32)" using Suc by simp
    then have "seq_after n = 0xFFFF" by (simp only: word_unat_eq_iff)
    then show ?thesis using True by (simp add: GetSeq_def mod_Suc)
  next
    case False
    then have "seq_after n \<noteq> 0xFFFF" using Suc by auto
    moreover have "unat (seq_after n + 1) = unat (seq_after n) + 1"
      using Suc m by (simp add: unat_word_ariths)
    ultimately show ?thesis using False Suc by (simp add: GetSeq_def Let_def mod_Suc)
  qed
qed

text \<open>Every sequence number handed out is between 1 and 65535, so that the 16 bits the frame carries
  identify it, and any 65535 consecutive calls hand out different numbers.\<close>

theorem GetSeq_unique:
  "1 \<le> unat (seq_after n) \<and> unat (seq_after n) \<le> 65535 \<and> seq_after n AND 0xFFFF = seq_after n \<and>
   (i < j \<and> j < i + 65535 \<longrightarrow> seq_after i \<noteq> seq_after j)"
proof -
  have le: "unat (seq_after n) \<le> 65535" by (simp add: seq_after_nat)
  have "take_bit 16 (seq_after n) = seq_after n"
    using le by (intro word_unat_eq_iff [THEN iffD2])
      (simp add: unsigned_take_bit_eq take_bit_nat_eq_self_iff)
  then have a: "seq_after n AND 0xFFFF = seq_after n"
    by (simp add: take_bit_eq_mask mask_eq_exp_minus_1)
  have "seq_after i \<noteq> seq_after j" if "i < j" "j < i + 65535"
  proof
    assume "seq_after i = seq_after j"
    then have "i mod 65535 = j mod 65535" using seq_after_nat by (metis add_right_cancel)
    then have "65535 dvd j - i" using that(1) by (metis mod_eq_dvd_iff_nat order_less_imp_le)
    then show False using that by (auto dest: dvd_imp_le)
  qed
  with le a show ?thesis by (simp add: seq_after_nat)
qed

theorem GetSeq_unique_witness: "seq_after 0 \<noteq> seq_after 3 \<and> seq_after 70000 AND 0xFFFF = seq_after 70000"
  using GetSeq_unique [of 70000 0 3] by simp

end
