(* ===== verification/Lvx_Request.thy ===== *)
theory Lvx_Request
  imports Prelude
begin

text \<open>
  Configuration requests of the Livox SDK (\<^verbatim>\<open>command_handler/build_request.cpp\<close>): the conversion of
  dotted addresses, and the builders that lay out key-value parameters in the request buffer. A
  builder returns its boolean, the buffer and \<^verbatim>\<open>req_len\<close>. \<^term>\<open>None\<close> is a write outside the buffer or
  the exception of \<^verbatim>\<open>std::stoi\<close>. The character arrays that the API passes are given as the strings
  they denote.
\<close>

section \<open>Dotted addresses\<close>

text \<open>\<open>stoi\<close> is \<^verbatim>\<open>std::stoi\<close> in base ten: optional white space, an optional sign, at least one digit,
  anything behind; it throws when there is no digit or the value leaves the range of \<^verbatim>\<open>int\<close>.\<close>

definition is_space :: "char \<Rightarrow> bool" where
  "is_space c \<longleftrightarrow> c = CHR '' '' \<or> (9 \<le> (of_char c :: nat) \<and> (of_char c :: nat) \<le> 13)"

fun read_sign :: "string \<Rightarrow> int \<times> string" where
  "read_sign (c # cs) = (if c = CHR ''-'' then (-1, cs) else if c = CHR ''+'' then (1, cs) else (1, c # cs))"
| "read_sign [] = (1, [])"

definition stoi :: "string \<Rightarrow> int option" where
  "stoi s =
     (let (sgn, t) = read_sign (dropWhile is_space s);
          ds = takeWhile is_digit t;
          v = sgn * int (dec_value ds)
      in if ds = [] \<or> v < - (2 ^ 31) \<or> 2 ^ 31 \<le> v then None else Some v)"

text \<open>The loop of \<^verbatim>\<open>IpToU8\<close> on the rest of the string from \<^verbatim>\<open>pos1\<close>; the separator is one character in
  every call.\<close>

function IpToU8_loop :: "char \<Rightarrow> string \<Rightarrow> bytes \<Rightarrow> (bool \<times> bytes) option" where
  "IpToU8_loop sep src result =
     (if sep \<in> set src
      then do {
        val \<leftarrow> stoi (takeWhile (\<lambda>c. c \<noteq> sep) src);
        if val < 0 \<or> val > 256 then Some (False, result)
        else IpToU8_loop sep (tl (dropWhile (\<lambda>c. c \<noteq> sep) src)) (result @ [word_of_int val])
      }
      else if src \<noteq> []
      then do {
        val \<leftarrow> stoi src;
        if val < 0 \<or> val > 256 then Some (False, result)
        else (let r = result @ [word_of_int val] in Some (length r = 4, r))
      }
      else Some (length result = 4, result))"
  by pat_completeness auto
termination
proof (relation "measure (\<lambda>(_, src, _). length src)")
  fix sep :: char and src result and val :: int
  assume "sep \<in> set src"
  then have "dropWhile (\<lambda>c. c \<noteq> sep) src \<noteq> []" by (simp add: dropWhile_eq_Nil_conv)
  moreover have "length (dropWhile (\<lambda>c. c \<noteq> sep) src) \<le> length src" by (rule length_dropWhile_le)
  ultimately show "((sep, tl (dropWhile (\<lambda>c. c \<noteq> sep) src), result @ [word_of_int val]), sep, src, result)
      \<in> measure (\<lambda>(_, src, _). length src)"
    by (cases "dropWhile (\<lambda>c. c \<noteq> sep) src") auto
qed simp

declare IpToU8_loop.simps [simp del]

definition IpToU8 :: "string \<Rightarrow> char \<Rightarrow> (bool \<times> bytes) option" where
  "IpToU8 src sep = IpToU8_loop sep src []"

text \<open>The rendering of an address in \<^verbatim>\<open>HandleDetectionData\<close> and \<^verbatim>\<open>VerifyNetSegment\<close>.\<close>

definition ip_string :: "u8 \<Rightarrow> u8 \<Rightarrow> u8 \<Rightarrow> u8 \<Rightarrow> string" where
  "ip_string a b c d = dec_string (unat a) @ ''.'' @ dec_string (unat b) @ ''.''
     @ dec_string (unat c) @ ''.'' @ dec_string (unat d)"

lemma digit_facts:
  "is_digit c \<Longrightarrow> \<not> is_space c \<and> c \<noteq> CHR ''-'' \<and> c \<noteq> CHR ''+'' \<and> c \<noteq> CHR ''.''"
  by (auto simp: is_digit_def is_space_def)

lemma stoi_dec_string:
  assumes "n < 2147483648"
  shows "stoi (dec_string n) = Some (int n)"
proof -
  obtain c cs where c: "dec_string n = c # cs" by (cases "dec_string n") auto
  have all: "\<forall>x \<in> set (dec_string n). is_digit x"
    using dec_string_digits [of n] by (simp add: list_all_iff)
  then have d: "is_digit c" using c by simp
  have "dropWhile is_space (dec_string n) = dec_string n"
    using digit_facts [OF d] c by simp
  moreover have "read_sign (dec_string n) = (1, dec_string n)" using digit_facts [OF d] c by simp
  moreover have "takeWhile is_digit (dec_string n) = dec_string n"
    using all by (simp add: takeWhile_eq_all_conv)
  ultimately show ?thesis using assms by (simp add: stoi_def Let_def del: takeWhile_eq_all_conv)
qed

lemma dec_string_no_dot: "CHR ''.'' \<notin> set (dec_string n)"
  using dec_string_digits [of n] by (auto simp: list_all_iff dest: digit_facts)

lemma IpToU8_loop_step:
  assumes "n \<le> 256"
  shows "IpToU8_loop CHR ''.'' (dec_string n @ CHR ''.'' # rest) r
    = IpToU8_loop CHR ''.'' rest (r @ [word_of_int (int n)])"
proof -
  have tk: "takeWhile (\<lambda>c. c \<noteq> CHR ''.'') (dec_string n @ CHR ''.'' # rest) = dec_string n"
    using dec_string_no_dot [of n] by (subst takeWhile_append2) auto
  have dr: "dropWhile (\<lambda>c. c \<noteq> CHR ''.'') (dec_string n @ CHR ''.'' # rest) = CHR ''.'' # rest"
    using dec_string_no_dot [of n] by (subst dropWhile_append2) auto
  have "stoi (dec_string n) = Some (int n)" using assms by (intro stoi_dec_string) simp
  then show ?thesis
    using assms by (subst IpToU8_loop.simps) (simp add: tk dr)
qed

lemma IpToU8_loop_last:
  assumes "n \<le> 256"
  shows "IpToU8_loop CHR ''.'' (dec_string n) r
    = Some (length r = 3, r @ [word_of_int (int n)])"
proof -
  have "stoi (dec_string n) = Some (int n)" using assms by (intro stoi_dec_string) simp
  then show ?thesis
    using assms dec_string_no_dot [of n] by (subst IpToU8_loop.simps) simp
qed

lemma IpToU8_dotted:
  assumes "a \<le> 256" "b \<le> 256" "c \<le> 256" "d \<le> 256"
  shows "IpToU8 (dec_string a @ ''.'' @ dec_string b @ ''.'' @ dec_string c @ ''.'' @ dec_string d) CHR ''.''
    = Some (True, map (\<lambda>n. word_of_int (int n)) [a, b, c, d])"
  using assms by (simp add: IpToU8_def IpToU8_loop_step IpToU8_loop_last)

lemma IpToU8_rendered: "IpToU8 (ip_string a b c d) CHR ''.'' = Some (True, [a, b, c, d])"
  unfolding ip_string_def
  by (subst IpToU8_dotted) (simp_all add: less_imp_le order_less_le_trans [OF unat_u8_less])

text \<open>Every address the SDK renders as a dotted string is read back to its four bytes.\<close>

theorem IpToU8_ip_string:
  "IpToU8 (ip_string a b c d) CHR ''.'' = Some (True, [a, b, c, d])"
  by (rule IpToU8_rendered)

text \<open>The range check admits 256, which the conversion to a byte turns into 0: the address
  256.168.1.256 is accepted and sent to the device as 0.168.1.0.\<close>

theorem IpToU8_accepts_256:
  "IpToU8 ''256.168.1.256'' CHR ''.'' = Some (True, [0, 168, 1, 0])"
proof -
  have "''256.168.1.256'' = dec_string 256 @ ''.'' @ dec_string 168 @ ''.'' @ dec_string 1 @ ''.'' @ dec_string 256"
    by code_simp
  then show ?thesis by (simp only:) (subst IpToU8_dotted, simp_all)
qed

section \<open>Key-value parameters\<close>

abbreviation kMaxCommandBufferSize :: nat where "kMaxCommandBufferSize \<equiv> 1400"

definition req_buffer :: bytes where
  "req_buffer = replicate kMaxCommandBufferSize 0"

abbreviation kKeyLidarIpCfg :: u16 where "kKeyLidarIpCfg \<equiv> 0x0004"
abbreviation kKeyStateInfoHostIpCfg :: u16 where "kKeyStateInfoHostIpCfg \<equiv> 0x0005"
abbreviation kKeyLidarPointDataHostIpCfg :: u16 where "kKeyLidarPointDataHostIpCfg \<equiv> 0x0006"
abbreviation kKeyLidarImuHostIpCfg :: u16 where "kKeyLidarImuHostIpCfg \<equiv> 0x0007"

abbreviation kLivoxLidarTypeMid360 :: u8 where "kLivoxLidarTypeMid360 \<equiv> 9"
abbreviation kLivoxLidarTypeIndustrialHAP :: u8 where "kLivoxLidarTypeIndustrialHAP \<equiv> 10"
abbreviation kLivoxLidarTypePA :: u8 where "kLivoxLidarTypePA \<equiv> 16"
abbreviation kLivoxLidarTypeMid360s :: u8 where "kLivoxLidarTypeMid360s \<equiv> 35"

record ViewLidarIpInfo =
  vl_handle :: u32
  vl_dev_type :: u8
  vl_host_ip :: string
  vl_lidar_cmd_port :: u16
  vl_lidar_point_port :: u16
  vl_lidar_imu_data_port :: u16
  vl_host_point_port :: u16
  vl_host_imu_data_port :: u16

record LivoxLidarNetInfo =
  lidar_ipaddr :: string
  lidar_subnet_mask :: string
  lidar_gateway :: string
  ln_cmd_data_port :: u16
  ln_push_msg_port :: u16
  ln_point_data_port :: u16
  ln_imu_data_port :: u16
  ln_log_data_port :: u16

record HostNetInfo =
  host_ip :: string
  multicast_ip :: string
  hn_cmd_data_port :: u16
  hn_push_msg_port :: u16
  hn_point_data_port :: u16
  hn_imu_data_port :: u16
  hn_log_data_port :: u16

record LivoxLidarCfg =
  device_type :: u8
  lidar_net_info :: LivoxLidarNetInfo
  host_net_info :: HostNetInfo
  cmd_key_set :: "u16 list"

record LivoxLidarIpInfo =
  ip_addr :: string
  net_mask :: string
  gw_addr :: string

text \<open>The three host address structs of the API differ in the names of their ports only.\<close>

record HostIpInfo =
  host_ip_addr :: string
  host_port :: u16
  lidar_port :: u16

text \<open>The header \<open>key_num\<close> at an offset, a key with its length, and the two port fields of a
  \<^verbatim>\<open>HostIpInfoValue\<close> behind its address.\<close>

definition put_key :: "bytes \<Rightarrow> nat \<Rightarrow> u16 \<Rightarrow> u16 \<Rightarrow> bytes option" where
  "put_key b off key len = do { b \<leftarrow> wr b off (le_enc 2 key); wr b (off + 2) (le_enc 2 len) }"

definition put_ports :: "bytes \<Rightarrow> nat \<Rightarrow> u16 \<Rightarrow> u16 \<Rightarrow> bytes option" where
  "put_ports b off hp lp = do { b \<leftarrow> wr b (off + 4) (le_enc 2 hp); wr b (off + 6) (le_enc 2 lp) }"

definition InitHostIpAddr :: "string \<Rightarrow> bytes \<Rightarrow> nat \<Rightarrow> (bool \<times> bytes) option" where
  "InitHostIpAddr ip b off = do {
     (ok, v) \<leftarrow> IpToU8 ip CHR ''.'';
     if \<not> ok then Some (False, b)
     else do { b \<leftarrow> wr b off (take 4 v); Some (True, b) }
   }"

definition InitMulticastHostIpAddr :: "string \<Rightarrow> bytes \<Rightarrow> nat \<Rightarrow> (bool \<times> bytes) option" where
  "InitMulticastHostIpAddr ip b off = do {
     (ok, v) \<leftarrow> IpToU8 ip CHR ''.'';
     if \<not> ok then Some (False, b)
     else do { b \<leftarrow> wr b off (take 4 v); Some (True, b) }
   }"

definition InitLidarIpinfoVal :: "LivoxLidarIpInfo \<Rightarrow> bytes \<Rightarrow> nat \<Rightarrow> (bool \<times> bytes) option" where
  "InitLidarIpinfoVal c b off = do {
     (ok, v) \<leftarrow> IpToU8 (ip_addr c) CHR ''.'';
     if \<not> ok then Some (False, b) else do {
     b \<leftarrow> wr b off (take 4 v);
     (ok, v) \<leftarrow> IpToU8 (net_mask c) CHR ''.'';
     if \<not> ok then Some (False, b) else do {
     b \<leftarrow> wr b (off + 4) (take 4 v);
     (ok, v) \<leftarrow> IpToU8 (gw_addr c) CHR ''.'';
     if \<not> ok then Some (False, b) else do {
     b \<leftarrow> wr b (off + 8) (take 4 v);
     Some (True, b)
   }}}}"

type_synonym built = "(bool \<times> bytes \<times> u16) option"

definition BuildUpdateViewLidarCfgRequest :: "ViewLidarIpInfo \<Rightarrow> bytes \<Rightarrow> u16 \<Rightarrow> built" where
  "BuildUpdateViewLidarCfgRequest v b req_len = do {
     let key_num = (if vl_dev_type v = kLivoxLidarTypePA then 1 else 2 :: u16);
     b \<leftarrow> wr b 0 (le_enc 2 key_num);
     b \<leftarrow> put_key b 4 kKeyLidarPointDataHostIpCfg 8;
     (ok, b) \<leftarrow> InitHostIpAddr (vl_host_ip v) b 8;
     if \<not> ok then Some (False, b, 4) else do {
     b \<leftarrow> put_ports b 8 (vl_host_point_port v) (vl_lidar_point_port v);
     if vl_dev_type v = kLivoxLidarTypePA then Some (True, b, 16) else do {
     b \<leftarrow> put_key b 16 kKeyLidarImuHostIpCfg 8;
     (ok, b) \<leftarrow> InitHostIpAddr (vl_host_ip v) b 20;
     if \<not> ok then Some (False, b, 16) else do {
     b \<leftarrow> put_ports b 20 (vl_host_imu_data_port v) (vl_lidar_imu_data_port v);
     Some (True, b, 28)
   }}}}"

abbreviation kMid360LidarPushMsgPort :: u16 where "kMid360LidarPushMsgPort \<equiv> 56200"
abbreviation kMid360LidarPointCloudPort :: u16 where "kMid360LidarPointCloudPort \<equiv> 56300"
abbreviation kMid360LidarImuDataPort :: u16 where "kMid360LidarImuDataPort \<equiv> 56400"
abbreviation kMid360sLidarPointCloudPort :: u16 where "kMid360sLidarPointCloudPort \<equiv> 56300"
abbreviation kMid360sLidarImuDataPort :: u16 where "kMid360sLidarImuDataPort \<equiv> 56400"
abbreviation kHAPPointDataPort :: u16 where "kHAPPointDataPort \<equiv> 57000"
abbreviation kHAPIMUPort :: u16 where "kHAPIMUPort \<equiv> 58000"
abbreviation kPaLidarPointCloudPort :: u16 where "kPaLidarPointCloudPort \<equiv> 10000"

text \<open>The choice between the unicast and the multicast address.\<close>

definition InitHostOrMulticast :: "HostNetInfo \<Rightarrow> bytes \<Rightarrow> nat \<Rightarrow> (bool \<times> bytes) option" where
  "InitHostOrMulticast h b off =
     (if multicast_ip h = [] then InitHostIpAddr (host_ip h) b off
      else InitMulticastHostIpAddr (multicast_ip h) b off)"

text \<open>This builder stores the number of keys at the incoming \<open>req_len\<close>, and the rest at fixed places.\<close>

definition BuildUpdateMid360LidarCfgRequest :: "LivoxLidarCfg \<Rightarrow> bytes \<Rightarrow> u16 \<Rightarrow> built" where
  "BuildUpdateMid360LidarCfgRequest c b req_len = do {
     let h = host_net_info c;
     b \<leftarrow> wr b (unat req_len) (le_enc 2 (3 :: u16));
     b \<leftarrow> put_key b 4 kKeyStateInfoHostIpCfg 8;
     (ok, b) \<leftarrow> InitHostIpAddr (host_ip h) b 8;
     if \<not> ok then Some (False, b, 4) else do {
     (ok, b) \<leftarrow> InitHostOrMulticast h b 8;
     if \<not> ok then Some (False, b, 4) else do {
     b \<leftarrow> put_ports b 8 (hn_push_msg_port h) kMid360LidarPushMsgPort;
     b \<leftarrow> put_key b 16 kKeyLidarPointDataHostIpCfg 8;
     (ok, b) \<leftarrow> InitHostOrMulticast h b 20;
     if \<not> ok then Some (False, b, 16) else do {
     b \<leftarrow> put_ports b 20 (hn_point_data_port h) kMid360LidarPointCloudPort;
     b \<leftarrow> put_key b 28 kKeyLidarImuHostIpCfg 8;
     (ok, b) \<leftarrow> InitHostOrMulticast h b 32;
     if \<not> ok then Some (False, b, 28) else do {
     b \<leftarrow> put_ports b 32 (hn_imu_data_port h) kMid360LidarImuDataPort;
     Some (True, b, 40)
   }}}}}"

definition lidar_point_port_of :: "u8 \<Rightarrow> u16 option" where
  "lidar_point_port_of t =
     (if t = kLivoxLidarTypeIndustrialHAP then Some kHAPPointDataPort
      else if t = kLivoxLidarTypeMid360 then Some kMid360LidarPointCloudPort
      else if t = kLivoxLidarTypePA then Some kPaLidarPointCloudPort
      else if t = kLivoxLidarTypeMid360s then Some kMid360sLidarPointCloudPort
      else None)"

definition lidar_imu_port_of :: "u8 \<Rightarrow> u16 option" where
  "lidar_imu_port_of t =
     (if t = kLivoxLidarTypeIndustrialHAP then Some kHAPIMUPort
      else if t = kLivoxLidarTypeMid360 then Some kMid360LidarImuDataPort
      else if t = kLivoxLidarTypeMid360s then Some kMid360sLidarImuDataPort
      else None)"

definition BuildUpdateLidarCfgRequest :: "LivoxLidarCfg \<Rightarrow> bytes \<Rightarrow> u16 \<Rightarrow> built" where
  "BuildUpdateLidarCfgRequest c b req_len = do {
     let h = host_net_info c;
     let key_num = (if device_type c = kLivoxLidarTypePA then 1 else 2 :: u16);
     b \<leftarrow> wr b (unat req_len) (le_enc 2 key_num);
     b \<leftarrow> put_key b 4 kKeyLidarPointDataHostIpCfg 8;
     (ok, b) \<leftarrow> InitHostOrMulticast h b 8;
     if \<not> ok then Some (False, b, 4) else
     (case lidar_point_port_of (device_type c) of None \<Rightarrow> Some (False, b, 4) | Some port \<Rightarrow> do {
     b \<leftarrow> put_ports b 8 (hn_point_data_port h) port;
     if device_type c = kLivoxLidarTypePA then Some (True, b, 16) else do {
     b \<leftarrow> put_key b 16 kKeyLidarImuHostIpCfg 8;
     (ok, b) \<leftarrow> InitHostOrMulticast h b 20;
     if \<not> ok then Some (False, b, 16) else
     (case lidar_imu_port_of (device_type c) of None \<Rightarrow> Some (False, b, 16) | Some port \<Rightarrow> do {
     b \<leftarrow> put_ports b 20 (hn_imu_data_port h) port;
     Some (True, b, 28)
   })}})}"

definition BuildSetLidarIPInfoRequest :: "LivoxLidarIpInfo \<Rightarrow> bytes \<Rightarrow> u16 \<Rightarrow> built" where
  "BuildSetLidarIPInfoRequest c b req_len = do {
     b \<leftarrow> wr b (unat req_len) (le_enc 2 (1 :: u16));
     b \<leftarrow> put_key b 4 kKeyLidarIpCfg 12;
     (ok, b) \<leftarrow> InitLidarIpinfoVal c b 8;
     if \<not> ok then Some (False, b, 4) else Some (True, b, 20)
   }"

definition BuildSetHostStateInfoIPCfgRequest :: "HostIpInfo \<Rightarrow> bytes \<Rightarrow> u16 \<Rightarrow> built" where
  "BuildSetHostStateInfoIPCfgRequest c b req_len = do {
     b \<leftarrow> wr b (unat req_len) (le_enc 2 (1 :: u16));
     b \<leftarrow> put_key b 4 kKeyStateInfoHostIpCfg 8;
     (ok, b) \<leftarrow> InitHostIpAddr (host_ip_addr c) b 8;
     if \<not> ok then Some (False, b, 4) else do {
     b \<leftarrow> put_ports b 8 (host_port c) (lidar_port c);
     Some (True, b, 16)
   }}"

definition BuildSetHostPointDataIPInfoRequest :: "HostIpInfo \<Rightarrow> bytes \<Rightarrow> u16 \<Rightarrow> built" where
  "BuildSetHostPointDataIPInfoRequest c b req_len = do {
     b \<leftarrow> wr b (unat req_len) (le_enc 2 (1 :: u16));
     b \<leftarrow> put_key b 4 kKeyLidarPointDataHostIpCfg 8;
     (ok, b) \<leftarrow> InitHostIpAddr (host_ip_addr c) b 8;
     if \<not> ok then Some (False, b, 4) else do {
     b \<leftarrow> put_ports b 8 (host_port c) (lidar_port c);
     Some (True, b, 16)
   }}"

definition BuildSetHostImuDataIPInfoRequest :: "HostIpInfo \<Rightarrow> bytes \<Rightarrow> u16 \<Rightarrow> built" where
  "BuildSetHostImuDataIPInfoRequest c b req_len = do {
     b \<leftarrow> wr b (unat req_len) (le_enc 2 (1 :: u16));
     b \<leftarrow> put_key b 4 kKeyLidarImuHostIpCfg 8;
     (ok, b) \<leftarrow> InitHostIpAddr (host_ip_addr c) b 8;
     if \<not> ok then Some (False, b, 4) else do {
     b \<leftarrow> put_ports b 8 (host_port c) (lidar_port c);
     Some (True, b, 16)
   }}"

section \<open>The wire format\<close>

text \<open>What the device reads: the number of keys, two reserved bytes, then for each key its number, the
  length of its value and the value.\<close>

fun read_kvs :: "nat \<Rightarrow> bytes \<Rightarrow> (u16 \<times> bytes) list option" where
  "read_kvs 0 bs = (if bs = [] then Some [] else None)"
| "read_kvs (Suc n) bs = do {
     k \<leftarrow> rd bs 0 2;
     l \<leftarrow> rd bs 2 2;
     v \<leftarrow> rd bs 4 (unat (le_dec l :: u16));
     kvs \<leftarrow> read_kvs n (drop (4 + length v) bs);
     Some ((le_dec k, v) # kvs)
   }"

definition read_request :: "bytes \<Rightarrow> (u16 \<times> bytes) list option" where
  "read_request bs = do { n \<leftarrow> rd bs 0 2; _ \<leftarrow> rd bs 2 2; read_kvs (unat (le_dec n :: u16)) (drop 4 bs) }"

definition kv_bytes :: "u16 \<times> bytes \<Rightarrow> bytes" where
  "kv_bytes kv = le_enc 2 (fst kv) @ le_enc 2 (of_nat (length (snd kv)) :: u16) @ snd kv"

definition request_bytes :: "(u16 \<times> bytes) list \<Rightarrow> bytes" where
  "request_bytes kvs = le_enc 2 (of_nat (length kvs) :: u16) @ [0, 0] @ concat (map kv_bytes kvs)"

lemma unat_of_nat_u16: "n < 2 ^ 16 \<Longrightarrow> unat (of_nat n :: u16) = n"
  by (simp add: unat_of_nat)

lemma read_kvs_bytes:
  "\<forall>kv \<in> set kvs. length (snd kv) < 2 ^ 16 \<Longrightarrow> read_kvs (length kvs) (concat (map kv_bytes kvs)) = Some kvs"
proof (induction kvs)
  case Nil
  then show ?case by simp
next
  case (Cons kv kvs)
  let ?rest = "concat (map kv_bytes kvs)"
  have l: "unat (of_nat (length (snd kv)) :: u16) = length (snd kv)"
    using Cons.prems by (intro unat_of_nat_u16) simp
  have "rd (kv_bytes kv @ ?rest) 0 2 = Some (le_enc 2 (fst kv))"
    "rd (kv_bytes kv @ ?rest) 2 2 = Some (le_enc 2 (of_nat (length (snd kv)) :: u16))"
    "rd (kv_bytes kv @ ?rest) 4 (length (snd kv)) = Some (snd kv)"
    "drop (4 + length (snd kv)) (kv_bytes kv @ ?rest) = ?rest"
    by (simp_all add: kv_bytes_def rd_def)
  then show ?case using Cons l by (simp add: le_dec_enc)
qed

lemma read_request_bytes:
  assumes "\<forall>kv \<in> set kvs. length (snd kv) < 2 ^ 16" and "length kvs < 2 ^ 16"
  shows "read_request (request_bytes kvs) = Some kvs"
proof -
  have "rd (request_bytes kvs) 0 2 = Some (le_enc 2 (of_nat (length kvs) :: u16))"
    "rd (request_bytes kvs) 2 2 = Some [0, 0]" "drop 4 (request_bytes kvs) = concat (map kv_bytes kvs)"
    by (simp_all add: request_bytes_def rd_def)
  then show ?thesis
    using read_kvs_bytes [OF assms(1)] unat_of_nat_u16 [OF assms(2)] by (simp add: read_request_def le_dec_enc)
qed

section \<open>What the builders put on the wire\<close>

lemma IpToU8_loop_length: "IpToU8_loop sep src r = Some (True, v) \<Longrightarrow> length v = 4"
proof (induction sep src r rule: IpToU8_loop.induct)
  case (1 sep src r)
  from "1.prems" show ?case
    using "1.IH" by (subst (asm) IpToU8_loop.simps) (auto simp: Let_def bind_eq_Some_conv split: if_splits)
qed

lemma IpToU8_length: "IpToU8 s c = Some (True, v) \<Longrightarrow> length v = 4"
  by (auto simp: IpToU8_def dest: IpToU8_loop_length)

text \<open>The builders write from left to right into a buffer of zeros.\<close>

lemma wr_zeros:
  "length pre = off \<Longrightarrow> length bs \<le> n \<Longrightarrow>
   wr (pre @ replicate n 0) off bs = Some ((pre @ bs) @ replicate (n - length bs) 0)"
  by (simp add: wr_def)

lemma wr_header: "wr req_buffer 0 (le_enc 2 (k :: u16)) = Some ((le_enc 2 k @ [0, 0]) @ replicate 1396 0)"
proof -
  have "replicate 1398 (0 :: u8) = [0, 0] @ replicate 1396 0" by (simp add: numeral_eq_Suc)
  then show ?thesis by (simp add: wr_def req_buffer_def)
qed

lemma put_key_zeros:
  "length pre = off \<Longrightarrow> 4 \<le> n \<Longrightarrow>
   put_key (pre @ replicate n 0) off k l = Some ((pre @ le_enc 2 k @ le_enc 2 l) @ replicate (n - 4) 0)"
  by (simp add: put_key_def wr_zeros wr_zeros [of "pre @ le_enc 2 k" _ _ "n - 2", simplified])

lemma put_ports_zeros:
  "length pre = off + 4 \<Longrightarrow> 4 \<le> n \<Longrightarrow>
   put_ports (pre @ replicate n 0) off hp lp = Some ((pre @ le_enc 2 hp @ le_enc 2 lp) @ replicate (n - 4) 0)"
  by (simp add: put_ports_def wr_zeros wr_zeros [of "pre @ le_enc 2 hp" _ _ "n - 2", simplified])

lemma InitHostIpAddr_zeros:
  "IpToU8 ip CHR ''.'' = Some (True, v) \<Longrightarrow> length pre = off \<Longrightarrow> 4 \<le> n \<Longrightarrow>
   InitHostIpAddr ip (pre @ replicate n 0) off = Some (True, (pre @ v) @ replicate (n - 4) 0)"
  using IpToU8_length [of ip "CHR ''.''" v] by (simp add: InitHostIpAddr_def wr_zeros)

lemma InitHostOrMulticast_zeros:
  "IpToU8 (if multicast_ip h = [] then host_ip h else multicast_ip h) CHR ''.'' = Some (True, v) \<Longrightarrow>
   length pre = off \<Longrightarrow> 4 \<le> n \<Longrightarrow>
   InitHostOrMulticast h (pre @ replicate n 0) off = Some (True, (pre @ v) @ replicate (n - 4) 0)"
  by (auto simp: InitHostOrMulticast_def InitMulticastHostIpAddr_def InitHostIpAddr_zeros
      InitHostIpAddr_def [symmetric] split: if_splits)

lemma InitHostOrMulticast_again:
  assumes "IpToU8 (if multicast_ip h = [] then host_ip h else multicast_ip h) CHR ''.'' = Some (True, v)"
    and "length pre = off" and "length u = 4"
  shows "InitHostOrMulticast h ((pre @ u) @ rest) off = Some (True, (pre @ v) @ rest)"
proof -
  have "length v = 4" by (rule IpToU8_length [OF assms(1)])
  then have "wr ((pre @ u) @ rest) off (take 4 v) = Some ((pre @ v) @ rest)"
    using assms(2,3) by (simp add: wr_def)
  then show ?thesis using assms(1)
    by (auto simp: InitHostOrMulticast_def InitMulticastHostIpAddr_def InitHostIpAddr_def split: if_splits)
qed

definition host_value :: "bytes \<Rightarrow> u16 \<Rightarrow> u16 \<Rightarrow> bytes" where
  "host_value ip hp lp = ip @ le_enc 2 hp @ le_enc 2 lp"

lemmas build_steps = wr_header put_key_zeros put_ports_zeros InitHostIpAddr_zeros InitHostOrMulticast_zeros

lemmas build_bytes = request_bytes_def kv_bytes_def host_value_def

lemma length_host_value: "length ip = 4 \<Longrightarrow> length (host_value ip hp lp) = 8"
  by (simp add: host_value_def)

text \<open>For a valid host address the update request of the viewer mode is one well-formed message that
  the device reads as exactly the intended keys: the point-data address with the two point ports
  and, except for the PA type, the IMU address with the two IMU ports.\<close>

theorem BuildUpdateViewLidarCfgRequest_reads:
  assumes "IpToU8 (vl_host_ip v) CHR ''.'' = Some (True, ip)"
  shows "\<exists>b n. BuildUpdateViewLidarCfgRequest v req_buffer l = Some (True, b, n) \<and>
    length b = kMaxCommandBufferSize \<and>
    read_request (take (unat n) b) =
      Some ((kKeyLidarPointDataHostIpCfg, host_value ip (vl_host_point_port v) (vl_lidar_point_port v)) #
        (if vl_dev_type v = kLivoxLidarTypePA then []
         else [(kKeyLidarImuHostIpCfg, host_value ip (vl_host_imu_data_port v) (vl_lidar_imu_data_port v))]))"
proof -
  have len: "length ip = 4" by (rule IpToU8_length [OF assms])
  let ?p = "(kKeyLidarPointDataHostIpCfg, host_value ip (vl_host_point_port v) (vl_lidar_point_port v))"
  let ?i = "(kKeyLidarImuHostIpCfg, host_value ip (vl_host_imu_data_port v) (vl_lidar_imu_data_port v))"
  show ?thesis
  proof (cases "vl_dev_type v = kLivoxLidarTypePA")
    case True
    have "BuildUpdateViewLidarCfgRequest v req_buffer l = Some (True, request_bytes [?p] @ replicate 1384 0, 16)"
      using assms len True
      by (simp add: BuildUpdateViewLidarCfgRequest_def build_steps del: append_assoc append_Cons)
        (simp add: build_bytes)
    moreover have "take 16 (request_bytes [?p] @ replicate 1384 0) = request_bytes [?p]"
      "length (request_bytes [?p]) = 16"
      using len by (simp_all add: build_bytes)
    ultimately show ?thesis using True len by (simp add: read_request_bytes length_host_value)
  next
    case False
    have "BuildUpdateViewLidarCfgRequest v req_buffer l = Some (True, request_bytes [?p, ?i] @ replicate 1372 0, 28)"
      using assms len False
      by (simp add: BuildUpdateViewLidarCfgRequest_def build_steps del: append_assoc append_Cons)
        (simp add: build_bytes)
    moreover have "take 28 (request_bytes [?p, ?i] @ replicate 1372 0) = request_bytes [?p, ?i]"
      "length (request_bytes [?p, ?i]) = 28"
      using len by (simp_all add: build_bytes)
    ultimately show ?thesis using False len by (simp add: read_request_bytes length_host_value)
  qed
qed

definition example_view :: ViewLidarIpInfo where
  "example_view = \<lparr>vl_handle = 1, vl_dev_type = 9, vl_host_ip = ip_string 192 168 1 5, vl_lidar_cmd_port = 56100,
     vl_lidar_point_port = 56300, vl_lidar_imu_data_port = 56400, vl_host_point_port = 57000,
     vl_host_imu_data_port = 58000\<rparr>"

theorem BuildUpdateViewLidarCfgRequest_reads_witness:
  "\<exists>b n. BuildUpdateViewLidarCfgRequest example_view req_buffer 0 = Some (True, b, n) \<and>
    read_request (take (unat n) b) =
      Some [(6, host_value [192, 168, 1, 5] 57000 56300), (7, host_value [192, 168, 1, 5] 58000 56400)]"
  using BuildUpdateViewLidarCfgRequest_reads [of example_view "[192, 168, 1, 5]" 0]
  by (auto simp: example_view_def IpToU8_rendered)

text \<open>For a Mid360 configuration with valid addresses and an incoming length of zero, the update
  request is one well-formed message with the state, point-data and IMU keys, in which the
  multicast address replaces the host address whenever it is set, and the device side has the
  fixed Mid360 ports.\<close>

theorem BuildUpdateMid360LidarCfgRequest_reads:
  assumes "IpToU8 (host_ip (host_net_info c)) CHR ''.'' = Some (True, hip)"
    and "IpToU8 (if multicast_ip (host_net_info c) = [] then host_ip (host_net_info c)
      else multicast_ip (host_net_info c)) CHR ''.'' = Some (True, ip)"
  shows "\<exists>b n. BuildUpdateMid360LidarCfgRequest c req_buffer 0 = Some (True, b, n) \<and>
    read_request (take (unat n) b) = Some
      [(kKeyStateInfoHostIpCfg, host_value ip (hn_push_msg_port (host_net_info c)) kMid360LidarPushMsgPort),
       (kKeyLidarPointDataHostIpCfg, host_value ip (hn_point_data_port (host_net_info c)) kMid360LidarPointCloudPort),
       (kKeyLidarImuHostIpCfg, host_value ip (hn_imu_data_port (host_net_info c)) kMid360LidarImuDataPort)]"
proof -
  have len: "length ip = 4" "length hip = 4" using assms by (auto dest: IpToU8_length)
  let ?h = "host_net_info c"
  let ?kvs = "[(kKeyStateInfoHostIpCfg, host_value ip (hn_push_msg_port ?h) kMid360LidarPushMsgPort),
       (kKeyLidarPointDataHostIpCfg, host_value ip (hn_point_data_port ?h) kMid360LidarPointCloudPort),
       (kKeyLidarImuHostIpCfg, host_value ip (hn_imu_data_port ?h) kMid360LidarImuDataPort)]"
  note again = InitHostOrMulticast_again [OF assms(2)]
  have "BuildUpdateMid360LidarCfgRequest c req_buffer 0 = Some (True, request_bytes ?kvs @ replicate 1360 0, 40)"
    using assms len
    by (simp add: BuildUpdateMid360LidarCfgRequest_def Let_def build_steps again del: append_assoc append_Cons)
      (simp add: build_bytes)
  moreover have "take 40 (request_bytes ?kvs @ replicate 1360 0) = request_bytes ?kvs"
    "length (request_bytes ?kvs) = 40"
    using len by (simp_all add: build_bytes)
  ultimately show ?thesis using len by (simp add: read_request_bytes length_host_value)
qed

definition example_cfg :: LivoxLidarCfg where
  "example_cfg = \<lparr>device_type = 9,
     lidar_net_info = \<lparr>lidar_ipaddr = ip_string 192 168 1 100, lidar_subnet_mask = [], lidar_gateway = [],
       ln_cmd_data_port = 56100, ln_push_msg_port = 56200, ln_point_data_port = 56300,
       ln_imu_data_port = 56400, ln_log_data_port = 56500\<rparr>,
     host_net_info = \<lparr>host_ip = ip_string 192 168 1 5, multicast_ip = ip_string 224 1 1 5,
       hn_cmd_data_port = 56101, hn_push_msg_port = 56201, hn_point_data_port = 56301,
       hn_imu_data_port = 56401, hn_log_data_port = 56501\<rparr>,
     cmd_key_set = []\<rparr>"

lemma ip_string_nonempty: "ip_string a b c d \<noteq> []"
  by (simp add: ip_string_def)

theorem BuildUpdateMid360LidarCfgRequest_reads_witness:
  "\<exists>b n. BuildUpdateMid360LidarCfgRequest example_cfg req_buffer 0 = Some (True, b, n) \<and>
    read_request (take (unat n) b) = Some
      [(5, host_value [224, 1, 1, 5] 56201 56200), (6, host_value [224, 1, 1, 5] 56301 56300),
       (7, host_value [224, 1, 1, 5] 56401 56400)]"
  using BuildUpdateMid360LidarCfgRequest_reads [of example_cfg "[192, 168, 1, 5]" "[224, 1, 1, 5]"]
  by (simp add: example_cfg_def IpToU8_rendered ip_string_nonempty)

lemma BuildSetHostPointDataIPInfoRequest_reads:
  assumes "IpToU8 (host_ip_addr c) CHR ''.'' = Some (True, ip)"
  shows "\<exists>b n. BuildSetHostPointDataIPInfoRequest c req_buffer 0 = Some (True, b, n) \<and>
    read_request (take (unat n) b) = Some [(kKeyLidarPointDataHostIpCfg, host_value ip (host_port c) (lidar_port c))]"
proof -
  have len: "length ip = 4" using assms by (rule IpToU8_length)
  let ?kvs = "[(kKeyLidarPointDataHostIpCfg, host_value ip (host_port c) (lidar_port c))]"
  have "BuildSetHostPointDataIPInfoRequest c req_buffer 0 = Some (True, request_bytes ?kvs @ replicate 1384 0, 16)"
    using assms len
    by (simp add: BuildSetHostPointDataIPInfoRequest_def build_steps del: append_assoc append_Cons)
      (simp add: build_bytes)
  moreover have "take 16 (request_bytes ?kvs @ replicate 1384 0) = request_bytes ?kvs"
    "length (request_bytes ?kvs) = 16"
    using len by (simp_all add: build_bytes)
  ultimately show ?thesis using len by (simp add: read_request_bytes length_host_value)
qed

text \<open>An address the conversion rejects makes every builder of a host address fail, and the device
  never gets a partial request: the boolean is false.\<close>

theorem builders_reject_bad_address:
  assumes "IpToU8 ip CHR ''.'' = Some (False, v)" and "host_ip_addr c = ip" and "vl_host_ip w = ip"
  shows "(\<exists>b n. BuildSetHostPointDataIPInfoRequest c req_buffer 0 = Some (False, b, n)) \<and>
    (\<exists>b n. BuildSetHostStateInfoIPCfgRequest c req_buffer 0 = Some (False, b, n)) \<and>
    (\<exists>b n. BuildSetHostImuDataIPInfoRequest c req_buffer 0 = Some (False, b, n)) \<and>
    (\<exists>b n. BuildUpdateViewLidarCfgRequest w req_buffer 0 = Some (False, b, n))"
  using assms
  by (simp add: BuildSetHostPointDataIPInfoRequest_def BuildSetHostStateInfoIPCfgRequest_def
      BuildSetHostImuDataIPInfoRequest_def BuildUpdateViewLidarCfgRequest_def InitHostIpAddr_def build_steps
      del: append_assoc append_Cons)

theorem builders_reject_bad_address_witness:
  "\<exists>b n. BuildSetHostPointDataIPInfoRequest \<lparr>host_ip_addr = ''300.1.1.1'', host_port = 1, lidar_port = 2\<rparr> req_buffer 0
     = Some (False, b, n)"
proof -
  have "IpToU8 ''300.1.1.1'' CHR ''.'' = Some (False, [])" by code_simp
  from builders_reject_bad_address [OF this, of "\<lparr>host_ip_addr = ''300.1.1.1'', host_port = 1, lidar_port = 2\<rparr>"
      "example_view\<lparr>vl_host_ip := ''300.1.1.1''\<rparr>"]
  show ?thesis by simp
qed

end
