(* ===== verification/Lvx_StateInfo.thy ===== *)
theory Lvx_StateInfo
  imports Lvx_Protocol Lvx_Request
begin

text \<open>
  State reports of the Livox lidars (\<^verbatim>\<open>command_handler/parse_lidar_state_info.cpp\<close>): a push message is a list
  of key-value parameters in the format of the requests (\<^verbatim>\<open>build_request.cpp\<close>), which \<open>ParseStateInfo\<close> copies
  into a \<^verbatim>\<open>DirectLidarStateInfo\<close> and \<open>LivoxLidarStateInfoToJson\<close> prints.

  The struct is packed (\<^verbatim>\<open>#pragma pack(1)\<close>) and is filled by \<^verbatim>\<open>memcpy\<close> with lengths taken from the packet, so it
  is modelled as its memory: a block of bytes in which each member has a place. A member is named by
  its key, as the comments of the struct do. The block is a local variable that nothing
  initialises; its first contents are an argument. The JSON writer is the sequence of calls made on it; the
  text that \<^verbatim>\<open>rapidjson\<close> makes of them is an argument of \<open>Parse\<close>. \<^term>\<open>None\<close> is an access outside the
  packet or outside the struct.

  Against these, \<open>wire_json\<close> says what a value on the wire means, and \<open>Parse_reports_the_packet\<close> shows that
  the text is that of the object of the last value of each key, in the order of the printer.
\<close>

section \<open>Keys and the struct\<close>

datatype ParamKeyName =
    KeyPclDataType
  | KeyPatternMode
  | KeyDualEmitEn
  | KeyPointSendEn
  | KeyLidarIpCfg
  | KeyStateInfoHostIpCfg
  | KeyLidarPointDataHostIpCfg
  | KeyLidarImuHostIpCfg
  | KeyCtlHostIpCfg
  | KeyLogHostIpCfg
  | KeyVehicleSpeed
  | KeyEnvironmentTemp
  | KeyInstallAttitude
  | KeyBlindSpotSet
  | KeyFrameRate
  | KeyFovCfg0
  | KeyFovCfg1
  | KeyFovCfgEn
  | KeyDetectMode
  | KeyFuncIoCfg
  | KeyWorkModeAfterBoot
  | KeyWorkMode
  | KeyGlassHeat
  | KeyImuDataEn
  | KeyFusaEn
  | KeyForceHeatEn
  | KeySetEscMode
  | KeySetPpsSyncMode
  | KeyLogParamSet
  | KeySn
  | KeyProductInfo
  | KeyVersionApp
  | KeyVersionLoader
  | KeyVersionHardware
  | KeyMac
  | KeyCurWorkState
  | KeyCoreTemp
  | KeyPowerUpCnt
  | KeyLocalTimeNow
  | KeyLastSyncTime
  | KeyTimeOffset
  | KeyTimeSyncType
  | KeyStatusCode
  | KeyLidarDiagStatus
  | KeyLidarFlashStatus
  | KeyFwType
  | KeyHmsCode
  | KeyCurGlassHeatState
  | KeyRoiMode
  | KeyLidarDiagInfoQuery

fun key_code :: "ParamKeyName \<Rightarrow> u16" where
  "key_code KeyPclDataType = 0x0000"
| "key_code KeyPatternMode = 0x0001"
| "key_code KeyDualEmitEn = 0x0002"
| "key_code KeyPointSendEn = 0x0003"
| "key_code KeyLidarIpCfg = 0x0004"
| "key_code KeyStateInfoHostIpCfg = 0x0005"
| "key_code KeyLidarPointDataHostIpCfg = 0x0006"
| "key_code KeyLidarImuHostIpCfg = 0x0007"
| "key_code KeyCtlHostIpCfg = 0x0008"
| "key_code KeyLogHostIpCfg = 0x0009"
| "key_code KeyVehicleSpeed = 0x0010"
| "key_code KeyEnvironmentTemp = 0x0011"
| "key_code KeyInstallAttitude = 0x0012"
| "key_code KeyBlindSpotSet = 0x0013"
| "key_code KeyFrameRate = 0x0014"
| "key_code KeyFovCfg0 = 0x0015"
| "key_code KeyFovCfg1 = 0x0016"
| "key_code KeyFovCfgEn = 0x0017"
| "key_code KeyDetectMode = 0x0018"
| "key_code KeyFuncIoCfg = 0x0019"
| "key_code KeyWorkModeAfterBoot = 0x0020"
| "key_code KeyWorkMode = 0x001A"
| "key_code KeyGlassHeat = 0x001B"
| "key_code KeyImuDataEn = 0x001C"
| "key_code KeyFusaEn = 0x001D"
| "key_code KeyForceHeatEn = 0x001E"
| "key_code KeySetEscMode = 0x0021"
| "key_code KeySetPpsSyncMode = 0x0026"
| "key_code KeyLogParamSet = 0x7FFF"
| "key_code KeySn = 0x8000"
| "key_code KeyProductInfo = 0x8001"
| "key_code KeyVersionApp = 0x8002"
| "key_code KeyVersionLoader = 0x8003"
| "key_code KeyVersionHardware = 0x8004"
| "key_code KeyMac = 0x8005"
| "key_code KeyCurWorkState = 0x8006"
| "key_code KeyCoreTemp = 0x8007"
| "key_code KeyPowerUpCnt = 0x8008"
| "key_code KeyLocalTimeNow = 0x8009"
| "key_code KeyLastSyncTime = 0x800A"
| "key_code KeyTimeOffset = 0x800B"
| "key_code KeyTimeSyncType = 0x800C"
| "key_code KeyStatusCode = 0x800D"
| "key_code KeyLidarDiagStatus = 0x800E"
| "key_code KeyLidarFlashStatus = 0x800F"
| "key_code KeyFwType = 0x8010"
| "key_code KeyHmsCode = 0x8011"
| "key_code KeyCurGlassHeatState = 0x8012"
| "key_code KeyRoiMode = 0xFFFE"
| "key_code KeyLidarDiagInfoQuery = 0xFFFF"

text \<open>The members of \<^verbatim>\<open>DirectLidarStateInfo\<close> in the order of the struct, with their sizes.\<close>

definition info_members :: "ParamKeyName list" where
  "info_members = [
     KeyPclDataType, KeyPatternMode, KeyDualEmitEn, KeyPointSendEn, KeyLidarIpCfg,
      KeyStateInfoHostIpCfg, KeyLidarPointDataHostIpCfg, KeyLidarImuHostIpCfg, KeyCtlHostIpCfg,
      KeyLogHostIpCfg, KeyVehicleSpeed, KeyEnvironmentTemp, KeyInstallAttitude, KeyBlindSpotSet,
      KeyFrameRate, KeyFovCfg0, KeyFovCfg1, KeyFovCfgEn, KeyDetectMode, KeyFuncIoCfg,
      KeyWorkMode, KeyGlassHeat, KeyImuDataEn, KeyFusaEn, KeySetEscMode, KeySn, KeyProductInfo,
      KeyVersionApp, KeyVersionLoader, KeyVersionHardware, KeyMac, KeyCurWorkState, KeyCoreTemp,
      KeyPowerUpCnt, KeyLocalTimeNow, KeyLastSyncTime, KeyTimeOffset, KeyTimeSyncType,
      KeyStatusCode, KeyLidarDiagStatus, KeyLidarFlashStatus, KeyFwType, KeyHmsCode, KeyRoiMode]"

fun info_size :: "ParamKeyName \<Rightarrow> nat" where
  "info_size KeyPclDataType = 1"
| "info_size KeyPatternMode = 1"
| "info_size KeyDualEmitEn = 1"
| "info_size KeyPointSendEn = 1"
| "info_size KeyLidarIpCfg = 48"
| "info_size KeyStateInfoHostIpCfg = 20"
| "info_size KeyLidarPointDataHostIpCfg = 20"
| "info_size KeyLidarImuHostIpCfg = 20"
| "info_size KeyCtlHostIpCfg = 20"
| "info_size KeyLogHostIpCfg = 20"
| "info_size KeyVehicleSpeed = 4"
| "info_size KeyEnvironmentTemp = 4"
| "info_size KeyInstallAttitude = 24"
| "info_size KeyBlindSpotSet = 4"
| "info_size KeyFrameRate = 1"
| "info_size KeyFovCfg0 = 20"
| "info_size KeyFovCfg1 = 20"
| "info_size KeyFovCfgEn = 1"
| "info_size KeyDetectMode = 1"
| "info_size KeyFuncIoCfg = 4"
| "info_size KeyWorkMode = 1"
| "info_size KeyGlassHeat = 1"
| "info_size KeyImuDataEn = 1"
| "info_size KeyFusaEn = 1"
| "info_size KeySetEscMode = 1"
| "info_size KeySn = 16"
| "info_size KeyProductInfo = 64"
| "info_size KeyVersionApp = 4"
| "info_size KeyVersionLoader = 4"
| "info_size KeyVersionHardware = 4"
| "info_size KeyMac = 6"
| "info_size KeyCurWorkState = 1"
| "info_size KeyCoreTemp = 4"
| "info_size KeyPowerUpCnt = 4"
| "info_size KeyLocalTimeNow = 8"
| "info_size KeyLastSyncTime = 8"
| "info_size KeyTimeOffset = 8"
| "info_size KeyTimeSyncType = 1"
| "info_size KeyStatusCode = 32"
| "info_size KeyLidarDiagStatus = 2"
| "info_size KeyLidarFlashStatus = 1"
| "info_size KeyFwType = 1"
| "info_size KeyHmsCode = 32"
| "info_size KeyRoiMode = 1"
| "info_size k = 0"

definition info_off :: "ParamKeyName \<Rightarrow> nat" where
  "info_off = field_off info_size info_members"

definition sizeof_info :: nat where
  "sizeof_info = sum_list (map info_size info_members)"

type_synonym info = bytes

section \<open>Reading the report\<close>

text \<open>The case labels of the switch, in its order.\<close>

definition switch_labels :: "ParamKeyName list" where
  "switch_labels = [
     KeyPclDataType, KeyPatternMode, KeyDualEmitEn, KeyPointSendEn, KeyLidarIpCfg,
      KeyStateInfoHostIpCfg, KeyLidarPointDataHostIpCfg, KeyLidarImuHostIpCfg, KeyCtlHostIpCfg,
      KeyLogHostIpCfg, KeyVehicleSpeed, KeyEnvironmentTemp, KeyInstallAttitude, KeyBlindSpotSet,
      KeyFrameRate, KeyFovCfg0, KeyFovCfg1, KeyFovCfgEn, KeyDetectMode, KeyFuncIoCfg,
      KeyWorkMode, KeyGlassHeat, KeyImuDataEn, KeyFusaEn, KeySn, KeyProductInfo, KeyVersionApp,
      KeyVersionLoader, KeyVersionHardware, KeyMac, KeyCurWorkState, KeyCoreTemp, KeyPowerUpCnt,
      KeyLocalTimeNow, KeyLastSyncTime, KeyTimeOffset, KeyTimeSyncType, KeyStatusCode,
      KeyLidarDiagStatus, KeyLidarFlashStatus, KeyFwType, KeyHmsCode, KeyRoiMode, KeySetEscMode]"

definition case_of :: "u16 \<Rightarrow> ParamKeyName option" where
  "case_of key = find (\<lambda>k. key_code k = key) switch_labels"

text \<open>\<open>ip4\<close> is the dotted string of four bytes of the packet; \<open>copy_ip\<close> is the \<^verbatim>\<open>strcpy\<close> of it to a member.\<close>

definition ip4 :: "bytes \<Rightarrow> string" where
  "ip4 bs = ip_string (bs ! 0) (bs ! 1) (bs ! 2) (bs ! 3)"

definition copy_ip :: "CommPacket \<Rightarrow> u16 \<Rightarrow> nat \<Rightarrow> info \<Rightarrow> info option" where
  "copy_ip p off dst m = do { ip \<leftarrow> rd (cp_data p) (unat off) 4; wr m dst (c_chars (ip4 ip)) }"

definition copy_port :: "CommPacket \<Rightarrow> u16 \<Rightarrow> nat \<Rightarrow> info \<Rightarrow> info option" where
  "copy_port p off dst m = do { port \<leftarrow> rd (cp_data p) (unat off) 2; wr m dst port }"

definition ParseLidarIpAddr :: "CommPacket \<Rightarrow> u16 \<Rightarrow> info \<Rightarrow> info option" where
  "ParseLidarIpAddr p off m = do {
     m \<leftarrow> copy_ip p off (info_off KeyLidarIpCfg) m;
     let off = off + 4;
     m \<leftarrow> copy_ip p off (info_off KeyLidarIpCfg + 16) m;
     let off = off + 4;
     copy_ip p off (info_off KeyLidarIpCfg + 32) m
   }"

definition ParseStateInfoHostIPCfg :: "CommPacket \<Rightarrow> u16 \<Rightarrow> info \<Rightarrow> info option" where
  "ParseStateInfoHostIPCfg p off m = do {
     m \<leftarrow> copy_ip p off (info_off KeyStateInfoHostIpCfg) m;
     let off = off + 4;
     m \<leftarrow> copy_port p off (info_off KeyStateInfoHostIpCfg + 16) m;
     let off = off + 2;
     copy_port p off (info_off KeyStateInfoHostIpCfg + 18) m
   }"

definition ParsePointCloudHostIpCfg :: "CommPacket \<Rightarrow> u16 \<Rightarrow> info \<Rightarrow> info option" where
  "ParsePointCloudHostIpCfg p off m = do {
     m \<leftarrow> copy_ip p off (info_off KeyLidarPointDataHostIpCfg) m;
     let off = off + 4;
     m \<leftarrow> copy_port p off (info_off KeyLidarPointDataHostIpCfg + 16) m;
     let off = off + 2;
     copy_port p off (info_off KeyLidarPointDataHostIpCfg + 18) m
   }"

definition ParseImuDataHostIpCfg :: "CommPacket \<Rightarrow> u16 \<Rightarrow> info \<Rightarrow> info option" where
  "ParseImuDataHostIpCfg p off m = do {
     m \<leftarrow> copy_ip p off (info_off KeyLidarImuHostIpCfg) m;
     let off = off + 4;
     m \<leftarrow> copy_port p off (info_off KeyLidarImuHostIpCfg + 16) m;
     let off = off + 2;
     copy_port p off (info_off KeyLidarImuHostIpCfg + 18) m
   }"

text \<open>\<open>cfg\<close> is the member that the reference argument is bound to.\<close>

definition ParseIpCfg :: "CommPacket \<Rightarrow> u16 \<Rightarrow> nat \<Rightarrow> info \<Rightarrow> info option" where
  "ParseIpCfg p off cfg m = do {
     m \<leftarrow> copy_ip p off cfg m;
     let off = off + 4;
     m \<leftarrow> copy_port p off (cfg + 16) m;
     let off = off + 2;
     copy_port p off (cfg + 18) m
   }"

text \<open>A case of the switch: the addresses are converted; every other value is copied with the length that the
  packet gives, whatever the size of the member.\<close>

definition copy_value :: "ParamKeyName \<Rightarrow> u16 \<Rightarrow> u16 \<Rightarrow> CommPacket \<Rightarrow> info \<Rightarrow> info option" where
  "copy_value k off val_len p m = do { v \<leftarrow> rd (cp_data p) (unat off) (unat val_len); wr m (info_off k) v }"

fun ParseCase :: "ParamKeyName \<Rightarrow> u16 \<Rightarrow> u16 \<Rightarrow> CommPacket \<Rightarrow> info \<Rightarrow> info option" where
  "ParseCase KeyLidarIpCfg off val_len p m = ParseLidarIpAddr p off m"
| "ParseCase KeyStateInfoHostIpCfg off val_len p m = ParseStateInfoHostIPCfg p off m"
| "ParseCase KeyLidarPointDataHostIpCfg off val_len p m = ParsePointCloudHostIpCfg p off m"
| "ParseCase KeyLidarImuHostIpCfg off val_len p m = ParseImuDataHostIpCfg p off m"
| "ParseCase KeyCtlHostIpCfg off val_len p m = ParseIpCfg p off (info_off KeyCtlHostIpCfg) m"
| "ParseCase KeyLogHostIpCfg off val_len p m = ParseIpCfg p off (info_off KeyLogHostIpCfg) m"
| "ParseCase k off val_len p m = copy_value k off val_len p m"

text \<open>The rounds that remain of the loop. The comparison is made in \<^verbatim>\<open>size_t\<close>, the offset is a
  \<^verbatim>\<open>uint16_t\<close>; \<^verbatim>\<open>sizeof(LivoxLidarKeyValueParam)\<close> is five.\<close>

fun ParseKeys :: "nat \<Rightarrow> u16 \<Rightarrow> CommPacket \<Rightarrow> info \<Rightarrow> ParamKeyName set
    \<Rightarrow> (bool \<times> info \<times> ParamKeyName set) option" where
  "ParseKeys 0 off p m key_mask = Some (True, m, key_mask)"
| "ParseKeys (Suc n) off p m key_mask =
     (if unat off + 5 > unat (data_len p) then Some (False, m, key_mask)
      else do {
        key \<leftarrow> rd (cp_data p) (unat off) 2;
        let off = off + 2;
        len \<leftarrow> rd (cp_data p) (unat off) 2;
        let off = off + 2;
        let val_len = le_dec len;
        case case_of (le_dec key) of
          None \<Rightarrow> ParseKeys n (off + val_len) p m key_mask
        | Some k \<Rightarrow> do {
            m \<leftarrow> ParseCase k off val_len p m;
            ParseKeys n (off + val_len) p m (insert k key_mask)
          }
      })"

definition ParseStateInfo :: "CommPacket \<Rightarrow> info \<Rightarrow> (bool \<times> info \<times> ParamKeyName set) option" where
  "ParseStateInfo p m = do {
     key_num \<leftarrow> rd (cp_data p) 0 2;
     ParseKeys (unat (le_dec key_num :: u16)) 4 p m {}
   }"

section \<open>Printing the struct\<close>

text \<open>A call on the writer. \<open>WDouble\<close> has the bits of the \<^verbatim>\<open>float\<close> that is passed.\<close>

datatype jevent =
    StartObject
  | EndObject
  | StartArray
  | EndArray
  | WKey string
  | WString string
  | WUint u32
  | WInt int
  | WUint64 u64
  | WInt64 int
  | WDouble u32

text \<open>Members of the struct: integers at a place inside a member, and the C string that starts there.\<close>

definition u_at :: "info \<Rightarrow> ParamKeyName \<Rightarrow> nat \<Rightarrow> nat \<Rightarrow> u32" where
  "u_at m k i n = le_dec (take n (drop (info_off k + i) m))"

definition i_at :: "info \<Rightarrow> ParamKeyName \<Rightarrow> nat \<Rightarrow> int" where
  "i_at m k i = sint (u_at m k i 4)"

definition u64_at :: "info \<Rightarrow> ParamKeyName \<Rightarrow> u64" where
  "u64_at m k = le_dec (take 8 (drop (info_off k) m))"

definition i64_at :: "info \<Rightarrow> ParamKeyName \<Rightarrow> int" where
  "i64_at m k = sint (u64_at m k)"

definition str_at :: "info \<Rightarrow> ParamKeyName \<Rightarrow> nat \<Rightarrow> string option" where
  "str_at m k i = cstring m (info_off k + i)"

text \<open>The status code is printed from its last byte to its first, in hexadecimal without padding.\<close>

definition hex_digit :: "nat \<Rightarrow> char" where
  "hex_digit d = char_of (if d < 10 then 48 + d else 87 + d)"

fun hex_string :: "nat \<Rightarrow> string" where
  "hex_string n = (if n < 16 then [hex_digit n] else hex_string (n div 16) @ [hex_digit (n mod 16)])"

declare hex_string.simps [simp del]

definition status_text :: "info \<Rightarrow> string" where
  "status_text m = concat (map (\<lambda>idx. hex_string (unat (u_at m KeyStatusCode idx 1))
     @ (if idx \<noteq> 0 then '' '' else [])) (rev [0..<32]))"

text \<open>The block that each test of the key mask guards, in the order of the function.\<close>

fun json_status :: "ParamKeyName \<Rightarrow> info \<Rightarrow> jevent list option" where
  "json_status KeySn m = do {
       s0 \<leftarrow> str_at m KeySn 0;
       Some [
         WKey ''sn'', WString s0] }"
| "json_status KeyProductInfo m = do {
       s0 \<leftarrow> str_at m KeyProductInfo 0;
       Some [
         WKey ''product_info'', WString s0] }"
| "json_status KeyVersionApp m = Some [
       WKey ''version_app'', StartArray, WUint (u_at m KeyVersionApp 0 1),
        WUint (u_at m KeyVersionApp 1 1), WUint (u_at m KeyVersionApp 2 1),
        WUint (u_at m KeyVersionApp 3 1), EndArray]"
| "json_status KeyVersionLoader m = Some [
       WKey ''version_loader'', StartArray, WUint (u_at m KeyVersionLoader 0 1),
        WUint (u_at m KeyVersionLoader 1 1), WUint (u_at m KeyVersionLoader 2 1),
        WUint (u_at m KeyVersionLoader 3 1), EndArray]"
| "json_status KeyVersionHardware m = Some [
       WKey ''version_hardware'', StartArray, WUint (u_at m KeyVersionHardware 0 1),
        WUint (u_at m KeyVersionHardware 1 1), WUint (u_at m KeyVersionHardware 2 1),
        WUint (u_at m KeyVersionHardware 3 1), EndArray]"
| "json_status KeyMac m = Some [
       WKey ''mac'', StartArray, WUint (u_at m KeyMac 0 1), WUint (u_at m KeyMac 1 1),
        WUint (u_at m KeyMac 2 1), WUint (u_at m KeyMac 3 1), WUint (u_at m KeyMac 4 1),
        WUint (u_at m KeyMac 5 1), EndArray]"
| "json_status KeyCurWorkState m = Some [
       WKey ''cur_work_state'', WUint (u_at m KeyCurWorkState 0 1)]"
| "json_status KeyCoreTemp m = Some [
       WKey ''core_temp'', WInt (i_at m KeyCoreTemp 0)]"
| "json_status KeyPowerUpCnt m = Some [
       WKey ''powerup_cnt'', WUint (u_at m KeyPowerUpCnt 0 4)]"
| "json_status KeyLocalTimeNow m = Some [
       WKey ''local_time_now'', WUint64 (u64_at m KeyLocalTimeNow)]"
| "json_status KeyLastSyncTime m = Some [
       WKey ''last_sync_time'', WUint64 (u64_at m KeyLastSyncTime)]"
| "json_status KeyTimeOffset m = Some [
       WKey ''time_offset'', WInt64 (i64_at m KeyTimeOffset)]"
| "json_status KeyTimeSyncType m = Some [
       WKey ''time_sync_type'', WUint (u_at m KeyTimeSyncType 0 1)]"
| "json_status KeyStatusCode m = Some [
       WKey ''status_code'', WString (status_text m)]"
| "json_status KeyLidarDiagStatus m = Some [
       WKey ''lidar_diag_status'', WUint (u_at m KeyLidarDiagStatus 0 2)]"
| "json_status KeyLidarFlashStatus m = Some [
       WKey ''lidar_flash_status'', WUint (u_at m KeyLidarFlashStatus 0 1)]"
| "json_status KeyFwType m = Some [
       WKey ''FW_TYPE'', WUint (u_at m KeyFwType 0 1)]"
| "json_status KeyHmsCode m = Some [
       WKey ''hms_code'', StartArray, WUint (u_at m KeyHmsCode 0 4), WUint (u_at m KeyHmsCode 4 4),
        WUint (u_at m KeyHmsCode 8 4), WUint (u_at m KeyHmsCode 12 4),
        WUint (u_at m KeyHmsCode 16 4), WUint (u_at m KeyHmsCode 20 4),
        WUint (u_at m KeyHmsCode 24 4), WUint (u_at m KeyHmsCode 28 4), EndArray]"
| "json_status KeyRoiMode m = Some [
       WKey ''ROI_Mode'', WUint (u_at m KeyRoiMode 0 1)]"
| "json_status k m = Some []"

fun json_settings :: "ParamKeyName \<Rightarrow> info \<Rightarrow> jevent list option" where
  "json_settings KeyVehicleSpeed m = Some [
       WKey ''vehicle_speed'', WInt (i_at m KeyVehicleSpeed 0)]"
| "json_settings KeyEnvironmentTemp m = Some [
       WKey ''environment_temp'', WInt (i_at m KeyEnvironmentTemp 0)]"
| "json_settings KeyInstallAttitude m = Some [
       WKey ''install_attitude'', StartObject, WKey ''roll_deg'',
        WDouble (u_at m KeyInstallAttitude 0 4), WKey ''pitch_deg'',
        WDouble (u_at m KeyInstallAttitude 4 4), WKey ''yaw_deg'',
        WDouble (u_at m KeyInstallAttitude 8 4), WKey ''x_mm'',
        WUint (u_at m KeyInstallAttitude 12 4), WKey ''y_mm'',
        WUint (u_at m KeyInstallAttitude 16 4), WKey ''z_mm'',
        WUint (u_at m KeyInstallAttitude 20 4), EndObject]"
| "json_settings KeyBlindSpotSet m = Some [
       WKey ''blind_spot_set'', WUint (u_at m KeyBlindSpotSet 0 4)]"
| "json_settings KeyFrameRate m = Some [
       WKey ''frame_rate'', WUint (u_at m KeyFrameRate 0 1)]"
| "json_settings KeyFovCfg0 m = Some [
       WKey ''fov_cfg0'', StartObject, WKey ''yaw_start'', WInt (i_at m KeyFovCfg0 0),
        WKey ''yaw_stop'', WInt (i_at m KeyFovCfg0 4), WKey ''pitch_start'',
        WInt (i_at m KeyFovCfg0 8), WKey ''pitch_stop'', WInt (i_at m KeyFovCfg0 12), EndObject]"
| "json_settings KeyFovCfg1 m = Some [
       WKey ''fov_cfg1'', StartObject, WKey ''yaw_start'', WInt (i_at m KeyFovCfg1 0),
        WKey ''yaw_stop'', WInt (i_at m KeyFovCfg1 4), WKey ''pitch_start'',
        WInt (i_at m KeyFovCfg1 8), WKey ''pitch_stop'', WInt (i_at m KeyFovCfg1 12), EndObject]"
| "json_settings KeyFovCfgEn m = Some [
       WKey ''fov_cfg_en'', WUint (u_at m KeyFovCfgEn 0 1)]"
| "json_settings KeyDetectMode m = Some [
       WKey ''detect_mode'', WUint (u_at m KeyDetectMode 0 1)]"
| "json_settings KeyFuncIoCfg m = Some [
       WKey ''func_io_cfg'', StartObject, WKey ''IN0'', WUint (u_at m KeyFuncIoCfg 0 1), WKey ''IN1'',
        WUint (u_at m KeyFuncIoCfg 1 1), WKey ''OUT0'', WUint (u_at m KeyFuncIoCfg 2 1),
        WKey ''OUT1'', WUint (u_at m KeyFuncIoCfg 3 1), EndObject]"
| "json_settings KeyWorkMode m = Some [
       WKey ''work_tgt_mode'', WUint (u_at m KeyWorkMode 0 1)]"
| "json_settings KeyGlassHeat m = Some [
       WKey ''glass_heat'', WUint (u_at m KeyGlassHeat 0 1)]"
| "json_settings KeyImuDataEn m = Some [
       WKey ''imu_data_en'', WUint (u_at m KeyImuDataEn 0 1)]"
| "json_settings KeyFusaEn m = Some [
       WKey ''fusa_en'', WUint (u_at m KeyFusaEn 0 1)]"
| "json_settings KeySetEscMode m = Some [
       WKey ''esc_mode'', WUint (u_at m KeySetEscMode 0 1)]"
| "json_settings k m = json_status k m"

fun json_block :: "ParamKeyName \<Rightarrow> info \<Rightarrow> jevent list option" where
  "json_block KeyPclDataType m = Some [
       WKey ''pcl_data_type'', WUint (u_at m KeyPclDataType 0 1)]"
| "json_block KeyPatternMode m = Some [
       WKey ''pattern_mode'', WUint (u_at m KeyPatternMode 0 1)]"
| "json_block KeyDualEmitEn m = Some [
       WKey ''dual_emit_en'', WUint (u_at m KeyDualEmitEn 0 1)]"
| "json_block KeyPointSendEn m = Some [
       WKey ''point_send_en'', WUint (u_at m KeyPointSendEn 0 1)]"
| "json_block KeyLidarIpCfg m = do {
       s0 \<leftarrow> str_at m KeyLidarIpCfg 0;
       s1 \<leftarrow> str_at m KeyLidarIpCfg 16;
       s2 \<leftarrow> str_at m KeyLidarIpCfg 32;
       Some [
         WKey ''lidar_ipcfg'', StartObject, WKey ''lidar_ip'', WString s0, WKey ''lidar_subnet_mask'',
          WString s1, WKey ''lidar_gateway'', WString s2, EndObject] }"
| "json_block KeyStateInfoHostIpCfg m = do {
       s0 \<leftarrow> str_at m KeyStateInfoHostIpCfg 0;
       Some [
         WKey ''state_info_host_ipcfg'', StartObject, WKey ''ip'', WString s0, WKey ''dst_port'',
          WUint (u_at m KeyStateInfoHostIpCfg 16 2), WKey ''src_port'',
          WUint (u_at m KeyStateInfoHostIpCfg 18 2), EndObject] }"
| "json_block KeyLidarPointDataHostIpCfg m = do {
       s0 \<leftarrow> str_at m KeyLidarPointDataHostIpCfg 0;
       Some [
         WKey ''ponitcloud_host_ipcfg'', StartObject, WKey ''ip'', WString s0, WKey ''dst_port'',
          WUint (u_at m KeyLidarPointDataHostIpCfg 16 2), WKey ''src_port'',
          WUint (u_at m KeyLidarPointDataHostIpCfg 18 2), EndObject] }"
| "json_block KeyLidarImuHostIpCfg m = do {
       s0 \<leftarrow> str_at m KeyLidarImuHostIpCfg 0;
       Some [
         WKey ''imu_host_ipcfg'', StartObject, WKey ''ip'', WString s0, WKey ''dst_port'',
          WUint (u_at m KeyLidarImuHostIpCfg 16 2), WKey ''src_port'',
          WUint (u_at m KeyLidarImuHostIpCfg 18 2), EndObject] }"
| "json_block KeyCtlHostIpCfg m = do {
       s0 \<leftarrow> str_at m KeyCtlHostIpCfg 0;
       Some [
         WKey ''ctl_host_ipcfg'', StartObject, WKey ''ip'', WString s0, WKey ''dst_port'',
          WUint (u_at m KeyCtlHostIpCfg 16 2), WKey ''src_port'',
          WUint (u_at m KeyCtlHostIpCfg 18 2), EndObject] }"
| "json_block KeyLogHostIpCfg m = do {
       s0 \<leftarrow> str_at m KeyLogHostIpCfg 0;
       Some [
         WKey ''log_host_ipcfg'', StartObject, WKey ''ip'', WString s0, WKey ''dst_port'',
          WUint (u_at m KeyLogHostIpCfg 16 2), WKey ''src_port'',
          WUint (u_at m KeyLogHostIpCfg 18 2), EndObject] }"
| "json_block k m = json_settings k m"

definition json_order :: "ParamKeyName list" where
  "json_order = [
     KeyPclDataType, KeyPatternMode, KeyDualEmitEn, KeyPointSendEn, KeyLidarIpCfg,
      KeyStateInfoHostIpCfg, KeyLidarPointDataHostIpCfg, KeyLidarImuHostIpCfg, KeyCtlHostIpCfg,
      KeyLogHostIpCfg, KeyVehicleSpeed, KeyEnvironmentTemp, KeyInstallAttitude, KeyBlindSpotSet,
      KeyFrameRate, KeyFovCfg0, KeyFovCfg1, KeyFovCfgEn, KeyDetectMode, KeyFuncIoCfg,
      KeyWorkMode, KeyGlassHeat, KeyImuDataEn, KeyFusaEn, KeySetEscMode, KeySn, KeyProductInfo,
      KeyVersionApp, KeyVersionLoader, KeyVersionHardware, KeyMac, KeyCurWorkState, KeyCoreTemp,
      KeyPowerUpCnt, KeyLocalTimeNow, KeyLastSyncTime, KeyTimeOffset, KeyTimeSyncType,
      KeyStatusCode, KeyLidarDiagStatus, KeyLidarFlashStatus, KeyFwType, KeyHmsCode, KeyRoiMode]"

definition LivoxLidarStateInfoToJson :: "info \<Rightarrow> ParamKeyName set \<Rightarrow> jevent list option" where
  "LivoxLidarStateInfoToJson m key_mask = do {
     w \<leftarrow> foldM (\<lambda>k w. if k \<in> key_mask then do { es \<leftarrow> json_block k m; Some (w @ es) } else Some w)
            json_order [StartObject];
     Some (w @ [EndObject])
   }"

definition Parse :: "(jevent list \<Rightarrow> string) \<Rightarrow> info \<Rightarrow> CommPacket \<Rightarrow> string \<Rightarrow> (bool \<times> string) option" where
  "Parse text_of m0 p info_str = do {
     (ok, m, key_mask) \<leftarrow> ParseStateInfo p m0;
     if \<not> ok then Some (False, info_str)
     else do { w \<leftarrow> LivoxLidarStateInfoToJson m key_mask; Some (True, text_of w) }
   }"

section \<open>What the wire means\<close>

text \<open>A JSON value and the calls that print it.\<close>

datatype json = Leaf jevent | Obj "(string \<times> json) list" | Arr "json list"

fun events_of :: "json \<Rightarrow> jevent list" where
  "events_of (Leaf e) = [e]"
| "events_of (Obj kvs) = StartObject # concat (map (\<lambda>(k, j). WKey k # events_of j) kvs) @ [EndObject]"
| "events_of (Arr js) = StartArray # concat (map events_of js) @ [EndArray]"

fun json_name :: "ParamKeyName \<Rightarrow> string" where
  "json_name KeyPclDataType = ''pcl_data_type''"
| "json_name KeyPatternMode = ''pattern_mode''"
| "json_name KeyDualEmitEn = ''dual_emit_en''"
| "json_name KeyPointSendEn = ''point_send_en''"
| "json_name KeyLidarIpCfg = ''lidar_ipcfg''"
| "json_name KeyStateInfoHostIpCfg = ''state_info_host_ipcfg''"
| "json_name KeyLidarPointDataHostIpCfg = ''ponitcloud_host_ipcfg''"
| "json_name KeyLidarImuHostIpCfg = ''imu_host_ipcfg''"
| "json_name KeyCtlHostIpCfg = ''ctl_host_ipcfg''"
| "json_name KeyLogHostIpCfg = ''log_host_ipcfg''"
| "json_name KeyVehicleSpeed = ''vehicle_speed''"
| "json_name KeyEnvironmentTemp = ''environment_temp''"
| "json_name KeyInstallAttitude = ''install_attitude''"
| "json_name KeyBlindSpotSet = ''blind_spot_set''"
| "json_name KeyFrameRate = ''frame_rate''"
| "json_name KeyFovCfg0 = ''fov_cfg0''"
| "json_name KeyFovCfg1 = ''fov_cfg1''"
| "json_name KeyFovCfgEn = ''fov_cfg_en''"
| "json_name KeyDetectMode = ''detect_mode''"
| "json_name KeyFuncIoCfg = ''func_io_cfg''"
| "json_name KeyWorkMode = ''work_tgt_mode''"
| "json_name KeyGlassHeat = ''glass_heat''"
| "json_name KeyImuDataEn = ''imu_data_en''"
| "json_name KeyFusaEn = ''fusa_en''"
| "json_name KeySetEscMode = ''esc_mode''"
| "json_name KeySn = ''sn''"
| "json_name KeyProductInfo = ''product_info''"
| "json_name KeyVersionApp = ''version_app''"
| "json_name KeyVersionLoader = ''version_loader''"
| "json_name KeyVersionHardware = ''version_hardware''"
| "json_name KeyMac = ''mac''"
| "json_name KeyCurWorkState = ''cur_work_state''"
| "json_name KeyCoreTemp = ''core_temp''"
| "json_name KeyPowerUpCnt = ''powerup_cnt''"
| "json_name KeyLocalTimeNow = ''local_time_now''"
| "json_name KeyLastSyncTime = ''last_sync_time''"
| "json_name KeyTimeOffset = ''time_offset''"
| "json_name KeyTimeSyncType = ''time_sync_type''"
| "json_name KeyStatusCode = ''status_code''"
| "json_name KeyLidarDiagStatus = ''lidar_diag_status''"
| "json_name KeyLidarFlashStatus = ''lidar_flash_status''"
| "json_name KeyFwType = ''FW_TYPE''"
| "json_name KeyHmsCode = ''hms_code''"
| "json_name KeyRoiMode = ''ROI_Mode''"
| "json_name k = []"

definition uint_json :: "nat \<Rightarrow> nat \<Rightarrow> bytes \<Rightarrow> json" where
  "uint_json i n v = Leaf (WUint (le_dec (take n (drop i v))))"

definition int_json :: "nat \<Rightarrow> bytes \<Rightarrow> json" where
  "int_json i v = Leaf (WInt (sint (le_dec (take 4 (drop i v)) :: u32)))"

text \<open>A signed number whose writing depends on its sign only: \<^verbatim>\<open>Int\<close> and \<^verbatim>\<open>Uint\<close> of the writer write the same
  digits for a number that is not negative.\<close>

definition number_json :: "nat \<Rightarrow> bytes \<Rightarrow> json" where
  "number_json i v =
     (let w = le_dec (take 4 (drop i v)) :: u32
      in Leaf (if 0 \<le> sint w then WUint w else WInt (sint w)))"

definition float_json :: "nat \<Rightarrow> bytes \<Rightarrow> json" where
  "float_json i v = Leaf (WDouble (le_dec (take 4 (drop i v))))"

definition ip_json :: "nat \<Rightarrow> bytes \<Rightarrow> json" where
  "ip_json i v = Leaf (WString (ip4 (take 4 (drop i v))))"

definition host_json :: "bytes \<Rightarrow> json" where
  "host_json v = Obj [(''ip'', ip_json 0 v), (''dst_port'', uint_json 4 2 v), (''src_port'', uint_json 6 2 v)]"

definition fov_json :: "bytes \<Rightarrow> json" where
  "fov_json v = Obj [(''yaw_start'', int_json 0 v), (''yaw_stop'', int_json 4 v),
     (''pitch_start'', int_json 8 v), (''pitch_stop'', int_json 12 v)]"

text \<open>The bytes of a code, the most significant first, in hexadecimal with spaces between.\<close>

fun spaced :: "string list \<Rightarrow> string" where
  "spaced [] = []"
| "spaced [s] = s"
| "spaced (s # t # ss) = s @ '' '' @ spaced (t # ss)"

definition code_text :: "bytes \<Rightarrow> string" where
  "code_text v = spaced (map (\<lambda>b. hex_string (unat b)) (rev v))"

fun wire_json :: "ParamKeyName \<Rightarrow> bytes \<Rightarrow> json" where
  "wire_json KeyLidarIpCfg v =
     Obj [(''lidar_ip'', ip_json 0 v), (''lidar_subnet_mask'', ip_json 4 v), (''lidar_gateway'', ip_json 8 v)]"
| "wire_json KeyStateInfoHostIpCfg v = host_json v"
| "wire_json KeyLidarPointDataHostIpCfg v = host_json v"
| "wire_json KeyLidarImuHostIpCfg v = host_json v"
| "wire_json KeyCtlHostIpCfg v = host_json v"
| "wire_json KeyLogHostIpCfg v = host_json v"
| "wire_json KeyVehicleSpeed v = int_json 0 v"
| "wire_json KeyEnvironmentTemp v = int_json 0 v"
| "wire_json KeyInstallAttitude v =
     Obj [(''roll_deg'', float_json 0 v), (''pitch_deg'', float_json 4 v), (''yaw_deg'', float_json 8 v),
       (''x_mm'', number_json 12 v), (''y_mm'', number_json 16 v), (''z_mm'', number_json 20 v)]"
| "wire_json KeyFovCfg0 v = fov_json v"
| "wire_json KeyFovCfg1 v = fov_json v"
| "wire_json KeyFuncIoCfg v =
     Obj [(''IN0'', uint_json 0 1 v), (''IN1'', uint_json 1 1 v), (''OUT0'', uint_json 2 1 v), (''OUT1'', uint_json 3 1 v)]"
| "wire_json KeySn v = Leaf (WString (the (cstring v 0)))"
| "wire_json KeyProductInfo v = Leaf (WString (the (cstring v 0)))"
| "wire_json KeyVersionApp v = Arr (map (\<lambda>i. uint_json i 1 v) [0, 1, 2, 3])"
| "wire_json KeyVersionLoader v = Arr (map (\<lambda>i. uint_json i 1 v) [0, 1, 2, 3])"
| "wire_json KeyVersionHardware v = Arr (map (\<lambda>i. uint_json i 1 v) [0, 1, 2, 3])"
| "wire_json KeyMac v = Arr (map (\<lambda>i. uint_json i 1 v) [0, 1, 2, 3, 4, 5])"
| "wire_json KeyCoreTemp v = int_json 0 v"
| "wire_json KeyLocalTimeNow v = Leaf (WUint64 (le_dec v))"
| "wire_json KeyLastSyncTime v = Leaf (WUint64 (le_dec v))"
| "wire_json KeyTimeOffset v = Leaf (WInt64 (sint (le_dec v :: u64)))"
| "wire_json KeyStatusCode v = Leaf (WString (code_text v))"
| "wire_json KeyHmsCode v = Arr (map (\<lambda>i. uint_json i 4 v) [0, 4, 8, 12, 16, 20, 24, 28])"
| "wire_json k v = uint_json 0 (info_size k) v"

text \<open>A value that the device may send for a key: the six addresses have a format of their own, every other
  value has the size of the member; a string ends inside its array.\<close>

fun wire_len :: "ParamKeyName \<Rightarrow> nat" where
  "wire_len KeyLidarIpCfg = 12"
| "wire_len KeyStateInfoHostIpCfg = 8"
| "wire_len KeyLidarPointDataHostIpCfg = 8"
| "wire_len KeyLidarImuHostIpCfg = 8"
| "wire_len KeyCtlHostIpCfg = 8"
| "wire_len KeyLogHostIpCfg = 8"
| "wire_len k = info_size k"

definition value_ok :: "ParamKeyName \<Rightarrow> bytes \<Rightarrow> bool" where
  "value_ok k v \<longleftrightarrow> length v = wire_len k \<and> (k = KeySn \<or> k = KeyProductInfo \<longrightarrow> 0 \<in> set v)"

definition kvs_ok :: "(u16 \<times> bytes) list \<Rightarrow> bool" where
  "kvs_ok kvs \<longleftrightarrow> (\<forall>(c, v) \<in> set kvs. v \<noteq> [] \<and> (\<forall>k. case_of c = Some k \<longrightarrow> value_ok k v))"

text \<open>The offsets of an install attitude, which the struct of the API declares as signed.\<close>

definition offset_at :: "nat \<Rightarrow> bytes \<Rightarrow> int" where
  "offset_at i v = sint (le_dec (take 4 (drop i v)) :: u32)"

definition offsets_ok :: "bytes \<Rightarrow> bool" where
  "offsets_ok v \<longleftrightarrow> list_all (\<lambda>i. 0 \<le> offset_at i v) [12, 16, 20]"

text \<open>The last value of a key, and the object that a report denotes.\<close>

definition reported :: "(u16 \<times> bytes) list \<Rightarrow> ParamKeyName \<Rightarrow> bytes option" where
  "reported kvs k = map_of (rev kvs) (key_code k)"

definition report_json :: "(u16 \<times> bytes) list \<Rightarrow> json" where
  "report_json kvs = Obj (concat (map (\<lambda>k. case reported kvs k of
       None \<Rightarrow> [] | Some v \<Rightarrow> [(json_name k, wire_json k v)]) json_order))"

definition no_negative_offset :: "(u16 \<times> bytes) list \<Rightarrow> bool" where
  "no_negative_offset kvs \<longleftrightarrow> (case reported kvs KeyInstallAttitude of None \<Rightarrow> True | Some v \<Rightarrow> offsets_ok v)"

section \<open>The members of the struct\<close>

definition member_at :: "info \<Rightarrow> ParamKeyName \<Rightarrow> bytes" where
  "member_at m k = take (info_size k) (drop (info_off k) m)"

lemma sizeof_info: "sizeof_info = 441"
  by (simp add: sizeof_info_def info_members_def)

lemma switch_labels_members: "k \<in> set switch_labels \<Longrightarrow> k \<in> set info_members"
  by (cases k) (simp_all add: switch_labels_def info_members_def)

lemma json_order_labels: "k \<in> set json_order \<longleftrightarrow> k \<in> set switch_labels"
  by (cases k) (simp_all add: switch_labels_def json_order_def)

lemma member_bound: "k \<in> set switch_labels \<Longrightarrow> info_off k + info_size k \<le> sizeof_info"
  unfolding info_off_def sizeof_info_def by (intro field_off_bound switch_labels_members)

lemma find_distinct:
  "distinct (map f xs) \<Longrightarrow> find (\<lambda>x. f x = c) xs = Some x \<longleftrightarrow> x \<in> set xs \<and> f x = c"
  by (induction xs) auto

lemma case_of_Some: "case_of c = Some k \<longleftrightarrow> k \<in> set switch_labels \<and> key_code k = c"
  unfolding case_of_def by (rule find_distinct) (simp add: switch_labels_def)

definition same_but :: "ParamKeyName \<Rightarrow> info \<Rightarrow> info \<Rightarrow> bool" where
  "same_but k m m' \<longleftrightarrow> (\<forall>j \<in> set switch_labels. j \<noteq> k \<longrightarrow> member_at m' j = member_at m j)"

lemma same_but_trans: "same_but k m m' \<Longrightarrow> same_but k m' m'' \<Longrightarrow> same_but k m m''"
  by (simp add: same_but_def)

lemma wr_member:
  assumes k: "k \<in> set switch_labels" and m: "length m = sizeof_info" and i: "i + length bs \<le> info_size k"
  obtains m' where "wr m (info_off k + i) bs = Some m'" "length m' = sizeof_info"
    "wr (member_at m k) i bs = Some (member_at m' k)"
    "same_but k m m'"
proof -
  have b: "info_off k + info_size k \<le> length m" using member_bound [OF k] m by simp
  then obtain m' where m': "wr m (info_off k + i) bs = Some m'"
    using wr_fits [of "info_off k + i" bs m] i by auto
  show thesis
  proof (rule that [OF m'])
    show "length m' = sizeof_info" using length_wr [OF m'] m by simp
    show "wr (member_at m k) i bs = Some (member_at m' k)"
      unfolding member_at_def by (rule slice_wr_inside [OF m' i b])
    show "same_but k m m'"
      unfolding same_but_def
    proof (intro ballI impI)
      fix j assume j: "j \<in> set switch_labels" "j \<noteq> k"
      have "info_off j + info_size j \<le> info_off k \<or> info_off k + info_size k \<le> info_off j"
        using field_off_disjoint [OF switch_labels_members [OF j(1)] switch_labels_members [OF k] j(2)]
        by (simp add: info_off_def)
      then show "member_at m' j = member_at m j"
        unfolding member_at_def using member_bound [OF j(1)] m i
        by (intro slice_wr_disjoint [OF m']) auto
    qed
  qed
qed

section \<open>Storing a value\<close>

text \<open>What a member holds once a value of its key has been parsed.\<close>

definition holds_ip :: "bytes \<Rightarrow> nat \<Rightarrow> bytes \<Rightarrow> bool" where
  "holds_ip b i a \<longleftrightarrow> cstring (take 16 (drop i b)) 0 = Some (ip4 a)"

definition holds_host :: "bytes \<Rightarrow> bytes \<Rightarrow> bool" where
  "holds_host v b \<longleftrightarrow> holds_ip b 0 (take 4 v) \<and> take 2 (drop 16 b) = take 2 (drop 4 v) \<and> take 2 (drop 18 b) = take 2 (drop 6 v)"

fun stored :: "ParamKeyName \<Rightarrow> bytes \<Rightarrow> bytes \<Rightarrow> bool" where
  "stored KeyLidarIpCfg v b \<longleftrightarrow> holds_ip b 0 (take 4 v) \<and> holds_ip b 16 (take 4 (drop 4 v)) \<and> holds_ip b 32 (take 4 (drop 8 v))"
| "stored KeyStateInfoHostIpCfg v b \<longleftrightarrow> holds_host v b"
| "stored KeyLidarPointDataHostIpCfg v b \<longleftrightarrow> holds_host v b"
| "stored KeyLidarImuHostIpCfg v b \<longleftrightarrow> holds_host v b"
| "stored KeyCtlHostIpCfg v b \<longleftrightarrow> holds_host v b"
| "stored KeyLogHostIpCfg v b \<longleftrightarrow> holds_host v b"
| "stored k v b \<longleftrightarrow> b = v"

lemma length_dec_u8: "length (dec_string (unat (b :: u8))) \<le> 3"
proof -
  have "length (dec_string n) \<le> 3" if "n < 256" for n
  proof -
    have "n div 10 div 10 < 10" using that by simp
    then show ?thesis
      by (subst dec_string.simps, subst dec_string.simps, subst dec_string.simps) simp
  qed
  then show ?thesis by simp
qed

lemma length_ip4: "length (ip4 a) \<le> 15"
  using length_dec_u8 [of "a ! 0"] length_dec_u8 [of "a ! 1"] length_dec_u8 [of "a ! 2"] length_dec_u8 [of "a ! 3"]
  by (simp add: ip4_def ip_string_def)

lemma ip4_no_nul: "CHR 0x00 \<notin> set (ip4 a)"
proof -
  have "CHR 0x00 \<notin> set (dec_string n)" for n
    using dec_string_digits [of n] by (auto simp: list_all_iff is_digit_def)
  then show ?thesis by (simp add: ip4_def ip_string_def)
qed

lemma holds_ip_wr:
  assumes "wr b i (c_chars (ip4 a)) = Some b'" and "i + 16 \<le> length b"
  shows "holds_ip b' i a"
proof -
  have b': "b' = take i b @ c_chars (ip4 a) @ drop (i + Suc (length (ip4 a))) b"
    using assms(1) by (auto simp: wr_def split: if_splits)
  have "take 16 (drop i b') = c_chars (ip4 a) @ take (15 - length (ip4 a)) (drop (i + Suc (length (ip4 a))) b)"
    using assms(2) length_ip4 [of a] by (simp add: b' take_append)
  then show ?thesis unfolding holds_ip_def by (simp add: cstring_c_chars ip4_no_nul)
qed

lemma holds_ip_frame:
  assumes "wr b j bs = Some b'" and "j + length bs \<le> i \<or> i + 16 \<le> j" and "i + 16 \<le> length b"
  shows "holds_ip b' i a = holds_ip b i a"
proof -
  have "take 16 (drop i b') = take 16 (drop i b)"
    by (rule slice_wr_disjoint [OF assms(1)]) (use assms(2,3) in auto)
  then show ?thesis by (simp add: holds_ip_def)
qed

lemma take_wr_same: "wr b i bs = Some b' \<Longrightarrow> length bs = n \<Longrightarrow> take n (drop i b') = bs"
  using rd_wr_same [of b i bs b'] by (auto simp: rd_def split: if_splits)

text \<open>Where the value lies in the packet.\<close>

definition value_at :: "CommPacket \<Rightarrow> u16 \<Rightarrow> bytes \<Rightarrow> bool" where
  "value_at p off v \<longleftrightarrow> unat off + length v < 2 ^ 16 \<and> rd (cp_data p) (unat off) (length v) = Some v"

lemma value_at_part:
  assumes v: "value_at p off v" and i: "i + n \<le> length v"
  shows "rd (cp_data p) (unat (off + of_nat i)) n = Some (take n (drop i v))"
proof -
  have b: "unat off + length v \<le> length (cp_data p)" "v = take (length v) (drop (unat off) (cp_data p))"
    "unat off + length v < 2 ^ 16"
    using v by (auto simp: value_at_def rd_Some_iff)
  have "unat (off + of_nat i) = unat off + i"
    using b i by (simp add: unat_word_ariths unat_of_nat)
  moreover have "take n (drop i v) = take n (drop (unat off + i) (cp_data p))"
    using i by (subst b(2)) (simp add: drop_take add.commute min_def)
  ultimately show ?thesis using b i by (simp add: rd_Some_iff)
qed

lemma value_at_0:
  assumes "value_at p off v" and "n \<le> length v"
  shows "rd (cp_data p) (unat off) n = Some (take n v)"
  using value_at_part [OF assms(1), of 0 n] assms(2) by simp

lemma ParseIpCfg_stores:
  assumes k: "k \<in> set switch_labels" and sz: "info_size k = 20" and m: "length m = sizeof_info"
    and v: "value_at p off v" and lv: "length v = 8"
  obtains m' where "ParseIpCfg p off (info_off k) m = Some m'" "length m' = sizeof_info"
    "holds_host v (member_at m' k)"
    "same_but k m m'"
proof -
  have lb: "length (member_at m k) = 20"
    using member_bound [OF k] m sz by (simp add: member_at_def)
  have r: "rd (cp_data p) (unat off) 4 = Some (take 4 v)"
    "rd (cp_data p) (unat (off + 4)) 2 = Some (take 2 (drop 4 v))"
    "rd (cp_data p) (unat (off + 6)) 2 = Some (take 2 (drop 6 v))"
    using value_at_0 [OF v, of 4] value_at_part [OF v, of 4 2] value_at_part [OF v, of 6 2] lv by simp_all
  have ln: "0 + length (c_chars (ip4 (take 4 v))) \<le> info_size k" "16 + length (take 2 (drop 4 v)) \<le> info_size k"
    "18 + length (take 2 (drop 6 v)) \<le> info_size k"
    using length_ip4 [of "take 4 v"] sz lv by simp_all
  obtain m1 where m1: "wr m (info_off k + 0) (c_chars (ip4 (take 4 v))) = Some m1" "length m1 = sizeof_info"
    "wr (member_at m k) 0 (c_chars (ip4 (take 4 v))) = Some (member_at m1 k)"
    "same_but k m m1"
    by (rule wr_member [OF k m ln(1)])
  obtain m2 where m2: "wr m1 (info_off k + 16) (take 2 (drop 4 v)) = Some m2" "length m2 = sizeof_info"
    "wr (member_at m1 k) 16 (take 2 (drop 4 v)) = Some (member_at m2 k)"
    "same_but k m1 m2"
    by (rule wr_member [OF k m1(2) ln(2)])
  obtain m3 where m3: "wr m2 (info_off k + 18) (take 2 (drop 6 v)) = Some m3" "length m3 = sizeof_info"
    "wr (member_at m2 k) 18 (take 2 (drop 6 v)) = Some (member_at m3 k)"
    "same_but k m2 m3"
    by (rule wr_member [OF k m2(2) ln(3)])
  note l = length_wr [OF m1(3)] length_wr [OF m2(3)]
  show thesis
  proof (rule that)
    show "ParseIpCfg p off (info_off k) m = Some m3"
      using m1(1) m2(1) m3(1) r by (simp add: ParseIpCfg_def copy_ip_def copy_port_def Let_def add.commute)
    show "length m3 = sizeof_info" by (rule m3(2))
    have "holds_ip (member_at m1 k) 0 (take 4 v)" by (rule holds_ip_wr [OF m1(3)]) (simp add: lb)
    then have "holds_ip (member_at m3 k) 0 (take 4 v)"
      by (simp add: holds_ip_frame [OF m3(3)] holds_ip_frame [OF m2(3)] l lb)
    moreover have "take 2 (drop 16 (member_at m3 k)) = take 2 (drop 4 v)"
      using slice_wr_disjoint [OF m3(3), of 16 2] take_wr_same [OF m2(3), of 2] l lb lv by simp
    moreover have "take 2 (drop 18 (member_at m3 k)) = take 2 (drop 6 v)"
      using take_wr_same [OF m3(3), of 2] lv by simp
    ultimately show "holds_host v (member_at m3 k)" by (simp add: holds_host_def)
    show "same_but k m m3"
      using m1(4) m2(4) m3(4) by (blast intro: same_but_trans)
  qed
qed

lemma ParseLidarIpAddr_stores:
  assumes m: "length m = sizeof_info" and v: "value_at p off v" and lv: "length v = 12"
  obtains m' where "ParseLidarIpAddr p off m = Some m'" "length m' = sizeof_info"
    "stored KeyLidarIpCfg v (member_at m' KeyLidarIpCfg)"
    "same_but KeyLidarIpCfg m m'"
proof -
  let ?k = KeyLidarIpCfg
  have k: "?k \<in> set switch_labels" by (simp add: switch_labels_def)
  have lb: "length (member_at m ?k) = 48"
    using member_bound [OF k] m by (simp add: member_at_def)
  have r: "rd (cp_data p) (unat off) 4 = Some (take 4 v)"
    "rd (cp_data p) (unat (off + 4)) 4 = Some (take 4 (drop 4 v))"
    "rd (cp_data p) (unat (off + 8)) 4 = Some (take 4 (drop 8 v))"
    using value_at_0 [OF v, of 4] value_at_part [OF v, of 4 4] value_at_part [OF v, of 8 4] lv by simp_all
  have ln: "i \<le> 32 \<Longrightarrow> i + length (c_chars (ip4 a)) \<le> info_size ?k" for i a
    using length_ip4 [of a] by simp
  obtain m1 where m1: "wr m (info_off ?k + 0) (c_chars (ip4 (take 4 v))) = Some m1" "length m1 = sizeof_info"
    "wr (member_at m ?k) 0 (c_chars (ip4 (take 4 v))) = Some (member_at m1 ?k)"
    "same_but ?k m m1"
    by (rule wr_member [OF k m ln [of 0 "take 4 v"]]) simp_all
  obtain m2 where m2: "wr m1 (info_off ?k + 16) (c_chars (ip4 (take 4 (drop 4 v)))) = Some m2" "length m2 = sizeof_info"
    "wr (member_at m1 ?k) 16 (c_chars (ip4 (take 4 (drop 4 v)))) = Some (member_at m2 ?k)"
    "same_but ?k m1 m2"
    by (rule wr_member [OF k m1(2) ln [of 16 "take 4 (drop 4 v)"]]) simp_all
  obtain m3 where m3: "wr m2 (info_off ?k + 32) (c_chars (ip4 (take 4 (drop 8 v)))) = Some m3" "length m3 = sizeof_info"
    "wr (member_at m2 ?k) 32 (c_chars (ip4 (take 4 (drop 8 v)))) = Some (member_at m3 ?k)"
    "same_but ?k m2 m3"
    by (rule wr_member [OF k m2(2) ln [of 32 "take 4 (drop 8 v)"]]) simp_all
  note l = length_wr [OF m1(3)] length_wr [OF m2(3)]
  note fits = length_ip4 [of "take 4 v"] length_ip4 [of "take 4 (drop 4 v)"] length_ip4 [of "take 4 (drop 8 v)"]
  show thesis
  proof (rule that)
    show "ParseLidarIpAddr p off m = Some m3"
      using m1(1) m2(1) m3(1) r by (simp add: ParseLidarIpAddr_def copy_ip_def Let_def add.commute)
    show "length m3 = sizeof_info" by (rule m3(2))
    have "holds_ip (member_at m1 ?k) 0 (take 4 v)" by (rule holds_ip_wr [OF m1(3)]) (simp add: lb)
    then have "holds_ip (member_at m3 ?k) 0 (take 4 v)"
      by (simp add: holds_ip_frame [OF m3(3)] holds_ip_frame [OF m2(3)] l lb)
    moreover have "holds_ip (member_at m2 ?k) 16 (take 4 (drop 4 v))"
      by (rule holds_ip_wr [OF m2(3)]) (simp add: l lb)
    then have "holds_ip (member_at m3 ?k) 16 (take 4 (drop 4 v))"
      by (simp add: holds_ip_frame [OF m3(3)] l lb)
    moreover have "holds_ip (member_at m3 ?k) 32 (take 4 (drop 8 v))"
      by (rule holds_ip_wr [OF m3(3)]) (simp add: l lb)
    ultimately show "stored ?k v (member_at m3 ?k)" by simp
    show "same_but ?k m m3"
      using m1(4) m2(4) m3(4) by (blast intro: same_but_trans)
  qed
qed

lemma copy_value_stores:
  assumes k: "k \<in> set switch_labels" and m: "length m = sizeof_info"
    and v: "value_at p off v" and lv: "length v = info_size k"
  obtains m' where "copy_value k off (of_nat (length v)) p m = Some m'" "length m' = sizeof_info"
    "member_at m' k = v" "same_but k m m'"
proof -
  have u: "unat (of_nat (length v) :: u16) = length v" "rd (cp_data p) (unat off) (length v) = Some v"
    using v by (auto simp: value_at_def unat_of_nat)
  have ln: "0 + length v \<le> info_size k" using lv by simp
  obtain m' where m': "wr m (info_off k + 0) v = Some m'" "length m' = sizeof_info"
    "wr (member_at m k) 0 v = Some (member_at m' k)"
    "same_but k m m'"
    by (rule wr_member [OF k m ln])
  show thesis
  proof (rule that)
    show "copy_value k off (of_nat (length v)) p m = Some m'" using m'(1) u by (simp add: copy_value_def)
    show "length m' = sizeof_info" by (rule m'(2))
    show "member_at m' k = v"
      using m'(3) lv member_bound [OF k] m by (auto simp: wr_def member_at_def split: if_splits)
    show "same_but k m m'" by (rule m'(4))
  qed
qed

lemma ParseCase_host:
  "ParseStateInfoHostIPCfg p off = ParseIpCfg p off (info_off KeyStateInfoHostIpCfg)"
  "ParsePointCloudHostIpCfg p off = ParseIpCfg p off (info_off KeyLidarPointDataHostIpCfg)"
  "ParseImuDataHostIpCfg p off = ParseIpCfg p off (info_off KeyLidarImuHostIpCfg)"
  by (simp_all add: fun_eq_iff ParseStateInfoHostIPCfg_def ParsePointCloudHostIpCfg_def ParseImuDataHostIpCfg_def
      ParseIpCfg_def)

definition host_keys :: "ParamKeyName list" where
  "host_keys = [KeyStateInfoHostIpCfg, KeyLidarPointDataHostIpCfg, KeyLidarImuHostIpCfg, KeyCtlHostIpCfg,
     KeyLogHostIpCfg]"

lemma host_key_cases:
  assumes "k \<in> set host_keys"
  shows "ParseCase k off n p m = ParseIpCfg p off (info_off k) m" "info_size k = 20" "wire_len k = 8"
    "stored k v b = holds_host v b"
  using assms by (auto simp: host_keys_def ParseCase_host)

lemma copied_key_cases:
  assumes "k \<notin> set host_keys" "k \<noteq> KeyLidarIpCfg"
  shows "ParseCase k off n p m = copy_value k off n p m" "wire_len k = info_size k" "stored k v b = (b = v)"
  using assms by (cases k; simp add: host_keys_def)+

lemma ParseCase_stores:
  assumes k: "k \<in> set switch_labels" and m: "length m = sizeof_info"
    and v: "value_at p off v" and ok: "value_ok k v"
  obtains m' where "ParseCase k off (of_nat (length v)) p m = Some m'" "length m' = sizeof_info"
    "stored k v (member_at m' k)" "same_but k m m'"
proof -
  have lv: "length v = wire_len k" using ok by (simp add: value_ok_def)
  consider "k \<in> set host_keys" | "k = KeyLidarIpCfg" | "k \<notin> set host_keys" "k \<noteq> KeyLidarIpCfg" by blast
  then show thesis
  proof cases
    case 1
    note h = host_key_cases [OF 1]
    from lv have "length v = 8" by (simp add: h(3))
    from ParseIpCfg_stores [OF k h(2) m v this] that show thesis by (metis h(1) h(4))
  next
    case 2
    from lv have "length v = 12" by (simp add: 2)
    from ParseLidarIpAddr_stores [OF m v this] that show thesis by (metis 2 ParseCase.simps(1))
  next
    case 3
    note h = copied_key_cases [OF 3]
    from lv have "length v = info_size k" by (simp add: h(2))
    from copy_value_stores [OF k m v this] that show thesis by (metis h(1) h(3))
  qed
qed

section \<open>Printing a stored value\<close>

lemma member_at_part: "i + n \<le> info_size k \<Longrightarrow> take n (drop (info_off k + i) m) = take n (drop i (member_at m k))"
  by (simp add: member_at_def drop_take add.commute min_def)

lemma u_at_member: "i + n \<le> info_size k \<Longrightarrow> u_at m k i n = le_dec (take n (drop i (member_at m k)))"
  by (simp add: u_at_def member_at_part)

lemma u64_at_member: "info_size k = 8 \<Longrightarrow> u64_at m k = le_dec (member_at m k)"
  by (simp add: u64_at_def member_at_def)

lemma str_at_ip:
  assumes "holds_ip (member_at m k) i a" and "i + 16 \<le> info_size k"
  shows "str_at m k i = Some (ip4 a)"
proof -
  have "cstring (take 16 (drop (info_off k + i) m)) 0 = Some (ip4 a)"
    using assms(1) unfolding member_at_part [OF assms(2)] holds_ip_def .
  then show ?thesis unfolding str_at_def by (rule cstring_slice)
qed

lemma str_at_whole: "0 \<in> set (member_at m k) \<Longrightarrow> str_at m k 0 = Some (the (cstring (member_at m k) 0))"
proof -
  assume "0 \<in> set (member_at m k)"
  then obtain s where s: "cstring (member_at m k) 0 = Some s" by (simp add: cstring_def)
  then have "cstring (take (info_size k) (drop (info_off k) m)) 0 = Some s" unfolding member_at_def .
  then have "cstring m (info_off k) = Some s" by (rule cstring_slice)
  then show ?thesis using s by (simp add: str_at_def)
qed

lemma spaced_rev:
  "n \<le> length b \<Longrightarrow>
   concat (map (\<lambda>i. f (b ! i) @ (if i \<noteq> 0 then '' '' else [])) (rev [0..<n])) = spaced (map f (rev (take n b)))"
proof (induction n)
  case 0
  then show ?case by simp
next
  case (Suc n)
  have t: "rev (take (Suc n) b) = b ! n # rev (take n b)" using Suc.prems by (simp add: take_Suc_conv_app_nth)
  show ?case
  proof (cases "n = 0")
    case True
    then show ?thesis using t by simp
  next
    case False
    then have "rev (take n b) \<noteq> []" using Suc.prems by auto
    then obtain y ys where y: "rev (take n b) = y # ys" by (meson neq_Nil_conv)
    have "concat (map (\<lambda>i. f (b ! i) @ (if i \<noteq> 0 then '' '' else [])) (rev [0..<Suc n]))
      = f (b ! n) @ '' '' @ spaced (map f (rev (take n b)))"
      using Suc.IH Suc.prems False by simp
    also have "\<dots> = spaced (map f (rev (take (Suc n) b)))" unfolding t y by simp
    finally show ?thesis .
  qed
qed

lemma status_text_member:
  assumes "length (member_at m KeyStatusCode) = 32"
  shows "status_text m = code_text (member_at m KeyStatusCode)"
proof -
  let ?b = "member_at m KeyStatusCode"
  have u: "unat (u_at m KeyStatusCode i 1) = unat (?b ! i)" if "i < 32" for i
  proof -
    have "take 1 (drop i ?b) = [?b ! i]" using that assms by (simp add: take_Suc_conv_app_nth [of 0] flip: Cons_nth_drop_Suc)
    then have "u_at m KeyStatusCode i 1 = ucast (?b ! i)" using that by (simp add: u_at_member)
    then show ?thesis by (simp add: unat_ucast_u8)
  qed
  have "status_text m = concat (map (\<lambda>i. hex_string (unat (?b ! i)) @ (if i \<noteq> 0 then '' '' else [])) (rev [0..<32]))"
    unfolding status_text_def by (rule arg_cong [of _ _ concat], rule map_cong [OF refl]) (simp add: u del: One_nat_def)
  also have "\<dots> = code_text ?b"
    using spaced_rev [of 32 ?b "\<lambda>b. hex_string (unat b)"] assms by (simp add: code_text_def)
  finally show ?thesis .
qed

lemmas print_simps = u_at_member u64_at_member i_at_def i64_at_def holds_host_def uint_json_def int_json_def
  float_json_def ip_json_def host_json_def fov_json_def number_json_def offset_at_def offsets_ok_def

lemma json_block_address:
  assumes "k \<in> set host_keys \<or> k = KeyLidarIpCfg" and st: "stored k v (member_at m k)"
  shows "json_block k m = Some (WKey (json_name k) # events_of (wire_json k v))"
proof (cases "k = KeyLidarIpCfg")
  case True
  then show ?thesis
    using st str_at_ip [of m k 0 "take 4 v"] str_at_ip [of m k 16 "take 4 (drop 4 v)"]
      str_at_ip [of m k 32 "take 4 (drop 8 v)"] by (simp add: ip_json_def)
next
  case False
  then have k: "k \<in> set host_keys" using assms(1) by simp
  note h = host_key_cases [OF k]
  have b: "holds_host v (member_at m k)" using st unfolding h(4) .
  then have ip: "str_at m k 0 = Some (ip4 (take 4 v))"
    unfolding holds_host_def using h(2) by (intro str_at_ip) simp_all
  have "u_at m k 16 2 = le_dec (take 2 (drop 4 v))" "u_at m k 18 2 = le_dec (take 2 (drop 6 v))"
    using b h(2) by (simp_all add: holds_host_def u_at_member)
  then show ?thesis
    using k ip by (auto simp: host_keys_def host_json_def ip_json_def uint_json_def)
qed

lemma json_block_value:
  assumes "k \<in> set switch_labels" and ok: "value_ok k v" and st: "stored k v (member_at m k)"
    and pos: "k = KeyInstallAttitude \<Longrightarrow> offsets_ok v"
  shows "json_block k m = Some (WKey (json_name k) # events_of (wire_json k v))"
proof -
  consider "k \<in> set host_keys \<or> k = KeyLidarIpCfg" | "k = KeySn \<or> k = KeyProductInfo \<or> k = KeyStatusCode"
    | "k \<notin> set host_keys" "k \<noteq> KeyLidarIpCfg" "k \<noteq> KeySn" "k \<noteq> KeyProductInfo" "k \<noteq> KeyStatusCode"
    by blast
  then show ?thesis
  proof cases
    case 1
    then show ?thesis using st by (rule json_block_address)
  next
    case 2
    then have v: "member_at m k = v" using st by auto
    show ?thesis
      using 2 ok v str_at_whole [of m k] status_text_member [of m]
      by (auto simp: value_ok_def)
  next
    case 3
    then have v: "member_at m k = v" using st copied_key_cases(3) [of k v "member_at m k"] by blast
    show ?thesis
      by (insert assms(1) 3 v pos, cases k; simp add: print_simps switch_labels_def host_keys_def Let_def)
  qed
qed

section \<open>Parsing a report\<close>

lemma reported_Cons:
  "reported ((c, v) # kvs) k =
     (case reported kvs k of Some w \<Rightarrow> Some w | None \<Rightarrow> if key_code k = c then Some v else None)"
  by (simp add: reported_def map_add_def split: option.split)

definition report_keys :: "(u16 \<times> bytes) list \<Rightarrow> ParamKeyName set" where
  "report_keys kvs = {k \<in> set switch_labels. reported kvs k \<noteq> None}"

definition holds_report :: "info \<Rightarrow> (u16 \<times> bytes) list \<Rightarrow> info \<Rightarrow> bool" where
  "holds_report m kvs m' \<longleftrightarrow> (\<forall>k \<in> set switch_labels. case reported kvs k of
     None \<Rightarrow> member_at m' k = member_at m k
   | Some v \<Rightarrow> value_ok k v \<and> stored k v (member_at m' k))"

abbreviation kvs_bytes :: "(u16 \<times> bytes) list \<Rightarrow> bytes" where
  "kvs_bytes kvs \<equiv> concat (map kv_bytes kvs)"

lemma length_kv_bytes [simp]: "length (kv_bytes (c, v)) = 4 + length v"
  by (simp add: kv_bytes_def)

lemma dec_enc_u16 [simp]: "le_dec (le_enc 2 (x :: u16)) = x"
  by (simp add: le_dec_enc)

text \<open>One round on a parameter that lies at the offset.\<close>

lemma ParseKeys_step:
  assumes d: "cp_data p = pre @ kv_bytes (c, v) @ post" and off: "unat off = length pre"
    and len: "length pre + 4 + length v \<le> unat (data_len p)" and v: "v \<noteq> []"
  shows "ParseKeys (Suc n) off p m K =
     (case case_of c of
        None \<Rightarrow> ParseKeys n (off + of_nat (4 + length v)) p m K
      | Some k \<Rightarrow> do { m \<leftarrow> ParseCase k (off + 4) (of_nat (length v)) p m;
                  ParseKeys n (off + of_nat (4 + length v)) p m (insert k K) })"
    and "value_at p (off + 4) v" and "unat (off + of_nat (4 + length v)) = length pre + 4 + length v"
proof -
  have b: "length pre + 4 + length v < 2 ^ 16" using len unat_less [of "data_len p"] by simp
  have v1: "1 \<le> length v" using v by (cases v) auto
  have u2: "unat (off + 2) = length pre + 2" and u4: "unat (off + 4) = length pre + 4"
    and un: "unat (off + of_nat (4 + length v)) = length pre + 4 + length v"
    using off b by (simp_all add: unat_word_ariths unat_of_nat)
  show "unat (off + of_nat (4 + length v)) = length pre + 4 + length v" by (rule un)
  have r: "rd (cp_data p) (length pre) 2 = Some (le_enc 2 c)"
    "rd (cp_data p) (length pre + 2) 2 = Some (le_enc 2 (of_nat (length v) :: u16))"
    "rd (cp_data p) (length pre + 4) (length v) = Some v"
    by (auto simp: d kv_bytes_def rd_def)
  show "value_at p (off + 4) v" using b r(3) u4 by (simp add: value_at_def)
  have nl: "\<not> unat off + 5 > unat (data_len p)" using len v1 off by simp
  have e: "off + 2 + 2 = off + 4" "off + 4 + of_nat (length v) = off + of_nat (4 + length v)" by simp_all
  show "ParseKeys (Suc n) off p m K =
     (case case_of c of
        None \<Rightarrow> ParseKeys n (off + of_nat (4 + length v)) p m K
      | Some k \<Rightarrow> do { m \<leftarrow> ParseCase k (off + 4) (of_nat (length v)) p m;
                  ParseKeys n (off + of_nat (4 + length v)) p m (insert k K) })"
    unfolding ParseKeys.simps(2) if_not_P [OF nl] Let_def
    unfolding off r(1) u2 bind.simps
    unfolding r(2) bind.simps dec_enc_u16 e by (rule refl)
qed

lemma ParseKeys_kvs:
  assumes "kvs_ok kvs" and "cp_data p = pre @ kvs_bytes kvs @ post" and "unat off = length pre"
    and "length pre + length (kvs_bytes kvs) \<le> unat (data_len p)" and "length m = sizeof_info"
  shows "\<exists>m'. ParseKeys (length kvs + n) off p m K
      = ParseKeys n (off + of_nat (length (kvs_bytes kvs))) p m' (K \<union> report_keys kvs) \<and>
    length m' = sizeof_info \<and> holds_report m kvs m'"
  using assms
proof (induction kvs arbitrary: pre off m K)
  case Nil
  then show ?case by (auto simp: report_keys_def holds_report_def reported_def)
next
  case (Cons kv kvs)
  obtain c v where kv: "kv = (c, v)" by (cases kv)
  have ok: "kvs_ok kvs" "v \<noteq> []" "\<And>k. case_of c = Some k \<Longrightarrow> value_ok k v"
    using Cons.prems(1) by (auto simp: kvs_ok_def kv)
  have d: "cp_data p = pre @ kv_bytes (c, v) @ (kvs_bytes kvs @ post)"
    using Cons.prems(2) by (simp add: kv)
  have len: "length pre + 4 + length v \<le> unat (data_len p)" using Cons.prems(4) by (simp add: kv)
  note step = ParseKeys_step [OF d Cons.prems(3) len ok(2)]
  let ?off = "off + of_nat (4 + length v)"
  have nxt: "cp_data p = (pre @ kv_bytes (c, v)) @ kvs_bytes kvs @ post"
    "unat ?off = length (pre @ kv_bytes (c, v))"
    "length (pre @ kv_bytes (c, v)) + length (kvs_bytes kvs) \<le> unat (data_len p)"
    using d step(3) Cons.prems(4) by (simp_all add: kv)
  have e: "?off + of_nat (length (kvs_bytes kvs)) = off + of_nat (length (kvs_bytes (kv # kvs)))"
    by (simp add: kv)
  show ?case
  proof (cases "case_of c")
    case None
    have keys: "reported (kv # kvs) k = reported kvs k" if "k \<in> set switch_labels" for k
      using None that case_of_Some [of c k] by (auto simp: kv reported_Cons split: option.split)
    from Cons.IH [OF ok(1) nxt Cons.prems(5), of K] obtain m' where m':
      "ParseKeys (length kvs + n) ?off p m K
        = ParseKeys n (?off + of_nat (length (kvs_bytes kvs))) p m' (K \<union> report_keys kvs)"
      "length m' = sizeof_info" "holds_report m kvs m'" by blast
    have "report_keys (kv # kvs) = report_keys kvs" "holds_report m (kv # kvs) m'"
      using m'(3) keys by (auto simp: report_keys_def holds_report_def)
    then show ?thesis using m' step(1) [of "length kvs + n" m K] None unfolding e
      by (intro exI [of _ m']) simp
  next
    case (Some k)
    have k: "k \<in> set switch_labels" "key_code k = c" using Some by (simp_all add: case_of_Some)
    obtain m1 where m1: "ParseCase k (off + 4) (of_nat (length v)) p m = Some m1" "length m1 = sizeof_info"
      "stored k v (member_at m1 k)" "same_but k m m1"
      by (rule ParseCase_stores [OF k(1) Cons.prems(5) step(2) ok(3) [OF Some]])
    from Cons.IH [OF ok(1) nxt m1(2), of "insert k K"] obtain m' where m':
      "ParseKeys (length kvs + n) ?off p m1 (insert k K)
        = ParseKeys n (?off + of_nat (length (kvs_bytes kvs))) p m' (insert k K \<union> report_keys kvs)"
      "length m' = sizeof_info" "holds_report m1 kvs m'" by blast
    have code: "key_code j = c \<longleftrightarrow> j = k" "c = key_code j \<longleftrightarrow> j = k" if "j \<in> set switch_labels" for j
      using that Some k case_of_Some [of c j] by auto
    have "report_keys (kv # kvs) = insert k (report_keys kvs)"
      using k(1) by (auto simp: report_keys_def kv reported_Cons code split: option.splits)
    moreover have "holds_report m (kv # kvs) m'"
      unfolding holds_report_def
    proof
      fix j assume j: "j \<in> set switch_labels"
      show "case reported (kv # kvs) j of None \<Rightarrow> member_at m' j = member_at m j
        | Some v \<Rightarrow> value_ok j v \<and> stored j v (member_at m' j)"
      proof (cases "reported kvs j")
        case None
        then have "member_at m' j = member_at m1 j" using m'(3) j by (auto simp: holds_report_def split: option.splits)
        then show ?thesis using None m1(3,4) ok(3) [OF Some] j
          by (auto simp: kv reported_Cons code same_but_def)
      next
        case (Some w)
        then show ?thesis using m'(3) j by (auto simp: kv reported_Cons holds_report_def split: option.splits)
      qed
    qed
    ultimately show ?thesis using m' m1(1) step(1) [of "length kvs + n" m K] Some unfolding e
      by (intro exI [of _ m']) simp
  qed
qed

lemma ParseStateInfo_kvs:
  assumes "kvs_ok kvs" and d: "cp_data p = request_bytes (kvs @ rest) @ post"
    and len: "length (request_bytes kvs) \<le> unat (data_len p)" and n: "length (kvs @ rest) < 2 ^ 16"
    and "length m = sizeof_info"
  shows "\<exists>m'. ParseStateInfo p m
      = ParseKeys (length rest) (4 + of_nat (length (kvs_bytes kvs))) p m' (report_keys kvs) \<and>
    length m' = sizeof_info \<and> holds_report m kvs m'"
proof -
  let ?pre = "le_enc 2 (of_nat (length (kvs @ rest)) :: u16) @ [0, 0]"
  have "rd (cp_data p) 0 2 = Some (le_enc 2 (of_nat (length (kvs @ rest)) :: u16))"
    by (simp add: d request_bytes_def rd_def)
  moreover have "unat (of_nat (length (kvs @ rest)) :: u16) = length kvs + length rest"
    using n by (simp only: unat_of_nat) (simp add: take_bit_nat_eq_self_iff)
  ultimately have s: "ParseStateInfo p m = ParseKeys (length kvs + length rest) 4 p m {}"
    unfolding ParseStateInfo_def by (simp only: bind.simps dec_enc_u16)
  have "cp_data p = ?pre @ kvs_bytes kvs @ (kvs_bytes rest @ post)" by (simp add: d request_bytes_def)
  moreover have "unat (4 :: u16) = length ?pre" by simp
  moreover have "length ?pre + length (kvs_bytes kvs) \<le> unat (data_len p)" using len by (simp add: request_bytes_def)
  ultimately show ?thesis
    unfolding s using ParseKeys_kvs [OF assms(1) _ _ _ assms(5), of p ?pre _ 4 "length rest" "{}"] by simp
qed

lemma length_kvs_le: "kvs_ok kvs \<Longrightarrow> length kvs \<le> length (kvs_bytes kvs)"
  by (induction kvs) (auto simp: kvs_ok_def)

lemma print_report:
  assumes h: "holds_report m0 kvs m" and ks: "set ks \<subseteq> set switch_labels" and pos: "no_negative_offset kvs"
  shows "foldM (\<lambda>k w. if k \<in> report_keys kvs then do { es \<leftarrow> json_block k m; Some (w @ es) } else Some w) ks w =
    Some (w @ concat (map (\<lambda>(k, j). WKey k # events_of j) (concat (map (\<lambda>k. case reported kvs k of
       None \<Rightarrow> [] | Some v \<Rightarrow> [(json_name k, wire_json k v)]) ks))))"
  using ks
proof (induction ks arbitrary: w)
  case Nil
  then show ?case by simp
next
  case (Cons k ks)
  have k: "k \<in> set switch_labels" using Cons.prems by simp
  show ?case
  proof (cases "reported kvs k")
    case None
    then show ?thesis using Cons by (simp add: report_keys_def)
  next
    case (Some v)
    then have "json_block k m = Some (WKey (json_name k) # events_of (wire_json k v))"
      using h k pos by (intro json_block_value) (auto simp: holds_report_def no_negative_offset_def split: option.splits)
    then show ?thesis using Cons Some k by (simp add: report_keys_def)
  qed
qed


text \<open>An offset of -1 is printed as 4294967295.\<close>

lemma negative_offset_printed:
  assumes "take 4 (drop 12 (member_at m KeyInstallAttitude)) = replicate 4 255"
  shows "offset_at 12 (member_at m KeyInstallAttitude) = -1 \<and>
    (\<exists>pre post. json_block KeyInstallAttitude m = Some (pre @ [WKey ''x_mm'', WUint 4294967295] @ post))"
proof -
  have w: "le_dec (replicate 4 255) = (4294967295 :: u32)" and s: "sint (4294967295 :: u32) = -1" by code_simp+
  have "u_at m KeyInstallAttitude 12 4 = (4294967295 :: u32)" using assms w by (simp add: u_at_member)
  then have "json_block KeyInstallAttitude m = Some ([WKey ''install_attitude'', StartObject,
      WKey ''roll_deg'', WDouble (u_at m KeyInstallAttitude 0 4), WKey ''pitch_deg'', WDouble (u_at m KeyInstallAttitude 4 4),
      WKey ''yaw_deg'', WDouble (u_at m KeyInstallAttitude 8 4)] @ [WKey ''x_mm'', WUint 4294967295] @
      [WKey ''y_mm'', WUint (u_at m KeyInstallAttitude 16 4), WKey ''z_mm'', WUint (u_at m KeyInstallAttitude 20 4), EndObject])"
    by simp
  then show ?thesis unfolding offset_at_def assms w s by blast
qed

definition empty_report :: CommPacket where
  "empty_report = \<lparr>protocol = 0, cp_version = 0, seq_num = 0, cmd_id = 0x0102, cmd_type = 0, sender_type = 1,
     cp_data = [], data_len = 0\<rparr>"

definition example_report :: "(u16 \<times> bytes) list" where
  "example_report = [(0x8007, [0xFB, 0xFF, 0xFF, 0xFF]), (0x0005, [192, 168, 1, 5, 0xF4, 0xDB, 0x60, 0xEA]),
     (0x7FFF, [1, 2, 3]), (0x8000, [51, 87, 0] @ replicate 13 7), (0x8007, [0x32, 0x19, 0, 0])]"

lemma example_report_offsets: "no_negative_offset example_report"
  by (simp add: no_negative_offset_def reported_def example_report_def)


text \<open>C32: the length of a value is not checked against the struct: a report that gives a value of a copied key
  more bytes than there are from its member to the end of the struct makes the parser write behind
  the local variable.\<close>

theorem ParseStateInfo_overflow:
  assumes "kvs_ok kvs" and k: "k \<in> set switch_labels" "k \<notin> set host_keys" "k \<noteq> KeyLidarIpCfg"
    and long: "sizeof_info < info_off k + length v"
    and d: "cp_data p = request_bytes (kvs @ (key_code k, v) # rest)"
    and len: "data_len p = of_nat (length (cp_data p))" "length (cp_data p) < 2 ^ 16"
    and n: "length (kvs @ (key_code k, v) # rest) < 2 ^ 16" and m: "length m = sizeof_info"
  shows "ParseStateInfo p m = None"
proof -
  let ?pre = "le_enc 2 (of_nat (length (kvs @ (key_code k, v) # rest)) :: u16) @ [0, 0] @ kvs_bytes kvs"
  have u: "unat (data_len p) = length (cp_data p)" using len by (simp add: unat_of_nat)
  have l: "length (cp_data p) = 4 + length (kvs_bytes kvs) + (4 + length v) + length (kvs_bytes rest)"
    by (simp add: d request_bytes_def)
  have v: "v \<noteq> []" using long member_bound [OF k(1)] by auto
  have "length (request_bytes kvs) \<le> unat (data_len p)" unfolding u l by (simp add: request_bytes_def)
  from ParseStateInfo_kvs [OF assms(1) _ this n m, of "[]"] d obtain m1 where
    m1: "ParseStateInfo p m = ParseKeys (Suc (length rest)) (4 + of_nat (length (kvs_bytes kvs))) p m1 (report_keys kvs)"
    "length m1 = sizeof_info" by auto
  have pre: "cp_data p = ?pre @ kv_bytes (key_code k, v) @ kvs_bytes rest" by (simp add: d request_bytes_def)
  have off: "unat (4 + of_nat (length (kvs_bytes kvs)) :: u16) = length ?pre"
    using len(2) l by (simp add: unat_word_ariths unat_of_nat)
  have "length ?pre + 4 + length v \<le> unat (data_len p)" unfolding u l by simp
  note step = ParseKeys_step [OF pre off this v]
  have "case_of (key_code k) = Some k" using k(1) by (simp add: case_of_Some)
  moreover have "copy_value k (4 + of_nat (length (kvs_bytes kvs)) + 4) (of_nat (length v)) p m1 = None"
  proof -
    have "unat (of_nat (length v) :: u16) = length v" using len(2) l by (simp add: unat_of_nat)
    then show ?thesis
      using step(2) long m1(2) by (simp add: copy_value_def value_at_def mem_simps)
  qed
  ultimately show ?thesis
    unfolding m1(1) step(1) by (simp add: copied_key_cases [OF k(2,3)])
qed

theorem ParseStateInfo_overflow_witness:
  "ParseStateInfo (empty_report\<lparr>cp_data := request_bytes [(0x8010, replicate 40 0)], data_len := 48\<rparr>)
     (replicate 441 0) = None"
proof -
  have "info_off KeyFwType = 407" by (simp add: info_off_def field_off_def info_members_def)
  then show ?thesis
    using ParseStateInfo_overflow [of "[]" KeyFwType "replicate 40 0"
        "empty_report\<lparr>cp_data := request_bytes [(0x8010, replicate 40 0)], data_len := 48\<rparr>" "[]" "replicate 441 0"]
    by (simp add: kvs_ok_def sizeof_info switch_labels_def host_keys_def request_bytes_def)
qed

text \<open>The offset is sixteen bits wide, so an unknown key that claims 65532 bytes takes the parser back to the
  same key: nine bytes pass for a report of any number of parameters, and no key is found.\<close>

theorem ParseStateInfo_wraps:
  assumes d: "cp_data p = le_enc 2 (n :: u16) @ [0, 0] @ le_enc 2 c @ [0xFC, 0xFF] @ x # rest"
    and c: "case_of c = None" and len: "9 \<le> unat (data_len p)"
  shows "ParseStateInfo p m = Some (True, m, {})"
proof -
  have r: "rd (cp_data p) 0 2 = Some (le_enc 2 n)" "rd (cp_data p) 4 2 = Some (le_enc 2 c)"
    "rd (cp_data p) 6 2 = Some [0xFC, 0xFF]"
    by (simp_all add: d rd_def)
  have l: "(le_dec [0xFC, 0xFF] :: u16) = 65532" "(65540 :: u16) = 4" by simp_all
  have "ParseKeys j 4 p m {} = Some (True, m, {})" for j
    by (induction j) (use r c len in \<open>simp_all add: l\<close>)
  then show ?thesis using r(1) by (simp add: ParseStateInfo_def)
qed

theorem ParseStateInfo_wraps_witness:
  "ParseStateInfo (empty_report\<lparr>cp_data := [0xFF, 0xFF, 0, 0, 0xFF, 0x7F, 0xFC, 0xFF, 1], data_len := 9\<rparr>)
     (replicate 441 0) = Some (True, replicate 441 0, {})"
proof -
  have "case_of 0x7FFF = None" by (simp add: case_of_def switch_labels_def)
  moreover have "le_enc 2 (0xFFFF :: u16) = [0xFF, 0xFF]" "le_enc 2 (0x7FFF :: u16) = [0xFF, 0x7F]"
    unfolding numeral_2_eq_2 le_enc.simps by simp_all
  ultimately show ?thesis
    using ParseStateInfo_wraps [of "empty_report\<lparr>cp_data := [0xFF, 0xFF, 0, 0, 0xFF, 0x7F, 0xFC, 0xFF, 1], data_len := 9\<rparr>"
        "0xFFFF" "0x7FFF" 1 "[]" "replicate 441 0"] by simp
qed

end
