(* ===== verification/Lvx_General.thy ===== *)
theory Lvx_General
  imports Lvx_StateInfo
begin

text \<open>
  The command layer of the Livox SDK: \<^verbatim>\<open>command_handler/general_command_handler.cpp\<close> and the three
  device handlers \<^verbatim>\<open>hap_command_handler.cpp\<close>, \<^verbatim>\<open>mid360_command_handler.cpp\<close> and
  \<^verbatim>\<open>mid360s_command_handler.cpp\<close>, which call each other through the singleton. The state is one
  record. What leaves the program is a trace of events, newest last. Callbacks are values: the two
  internal ones run the code of the handlers, a user callback only leaves an event. The network,
  the clock, the checksums and \<^verbatim>\<open>inet_ntoa\<close> are the environment.

  The internal callback of the firmware-type query sends the query again, from inside the send that
  failed. \<open>invoke\<close> therefore has a fuel argument, and every operation that may call back takes the
  invocation function as its first argument; \<open>query_terminates\<close> shows how much fuel suffices.
\<close>

section \<open>State\<close>

datatype dev_class = Hap | Mid360 | Mid360s

text \<open>\<open>UpdateLidar t\<close> is \<^verbatim>\<open>UpdateLidarCallback\<close> of the handler of class \<open>t\<close>.\<close>

datatype callback = User nat | UpdateLidar dev_class | QueryFw

abbreviation kCommandTypeCmd :: u8 where "kCommandTypeCmd \<equiv> 0"
abbreviation kCommandTypeAck :: u8 where "kCommandTypeAck \<equiv> 1"
abbreviation kHostSend :: u8 where "kHostSend \<equiv> 0"
abbreviation kCommandIDLidarSearch :: u16 where "kCommandIDLidarSearch \<equiv> 0x0000"
abbreviation kCommandIDLidarWorkModeControl :: u16 where "kCommandIDLidarWorkModeControl \<equiv> 0x0100"
abbreviation kCommandIDLidarGetInternalInfo :: u16 where "kCommandIDLidarGetInternalInfo \<equiv> 0x0101"
abbreviation kCommandIDLidarPushMsg :: u16 where "kCommandIDLidarPushMsg \<equiv> 0x0102"
abbreviation kCommandIDLidarResetDevice :: u16 where "kCommandIDLidarResetDevice \<equiv> 0x0201"
abbreviation kDetectionPort :: u16 where "kDetectionPort \<equiv> 56000"
abbreviation kPaLidarFaultPort :: u16 where "kPaLidarFaultPort \<equiv> 10001"
abbreviation kKeyFwType :: u16 where "kKeyFwType \<equiv> 0x8010"
abbreviation kCommandVer :: u8 where "kCommandVer \<equiv> 3"

abbreviation StatusSuccess :: int where "StatusSuccess \<equiv> 0"
abbreviation StatusFailure :: int where "StatusFailure \<equiv> -1"
abbreviation StatusTimeout :: int where "StatusTimeout \<equiv> -4"
abbreviation StatusChannelNotExist :: int where "StatusChannelNotExist \<equiv> -6"
abbreviation StatusSendFailed :: int where "StatusSendFailed \<equiv> -9"

text \<open>\<open>data_null\<close> tells whether \<^verbatim>\<open>packet.data\<close> is the null pointer.\<close>

record Command =
  packet :: CommPacket
  data_null :: bool
  cmd_handle :: u32
  lidar_ip :: string
  time_out :: nat
  cb :: "callback option"

definition empty_packet :: CommPacket where
  "empty_packet = \<lparr>protocol = 0, cp_version = 0, seq_num = 0, cmd_id = 0, cmd_type = 0, sender_type = 0,
     cp_data = [], data_len = 0\<rparr>"

definition default_Command :: Command where
  "default_Command = \<lparr>packet = empty_packet, data_null = True, cmd_handle = 0, lidar_ip = [],
     time_out = 1000, cb = None\<rparr>"

definition mk_Command :: "u32 \<Rightarrow> u16 \<Rightarrow> u8 \<Rightarrow> u8 \<Rightarrow> bytes option \<Rightarrow> u16 \<Rightarrow> u32 \<Rightarrow> string \<Rightarrow> callback option \<Rightarrow> Command" where
  "mk_Command seq cid ctype sender data len h ip c =
     \<lparr>packet = \<lparr>protocol = kLidarSdk, cp_version = kCommandVer, seq_num = seq, cmd_id = cid, cmd_type = ctype,
        sender_type = sender, cp_data = (case data of None \<Rightarrow> [] | Some d \<Rightarrow> d), data_len = len\<rparr>,
      data_null = (data = None), cmd_handle = h, lidar_ip = ip, time_out = 1000, cb = c\<rparr>"

record DeviceInfo =
  di_sn :: string
  di_lidar_ip :: string
  di_dev_type :: u8
  is_update_cfg :: bool
  is_get_loader_mode :: bool
  is_loader_mode :: bool
  is_callback :: bool

definition new_DeviceInfo :: DeviceInfo where
  "new_DeviceInfo = \<lparr>di_sn = [], di_lidar_ip = [], di_dev_type = 0, is_update_cfg = False,
     is_get_loader_mode = False, is_loader_mode = False, is_callback = False\<rparr>"

record dev_handler =
  h_class :: dev_class
  h_is_view :: bool
  h_custom_lidars :: "u32 \<Rightarrow> LivoxLidarCfg option"
  h_devices :: "u32 list"

definition mk_handler :: "dev_class \<Rightarrow> dev_handler" where
  "mk_handler k = \<lparr>h_class = k, h_is_view = False, h_custom_lidars = (\<lambda>_. None), h_devices = []\<rparr>"

text \<open>What the program does to its surroundings. A send records the kind of device, the address, the port
  and the bytes; \<open>EvLog\<close> stands for the logger and debug-cloud managers being told of a device.\<close>

datatype event =
    EvSend u8 string u16 bytes
  | EvLogSend u8 string u16 bytes
  | EvCallback nat int u32 "bytes option"
  | EvInfoChange u32 string string u8
  | EvPushInfo u32 u8 string
  | EvDetected u32 u8 u16 bool bool
  | EvAddDevice u32
  | EvViewCfg u32
  | EvObserve u32 bytes

record general =
  commands :: "(u32 \<times> Command \<times> nat) list"
  device_dev_type :: "u32 \<Rightarrow> u8 option"
  devices :: "u32 \<Rightarrow> DeviceInfo option"
  handlers :: "u8 \<Rightarrow> dev_handler option"
  custom_lidars_cfg :: "u32 \<Rightarrow> LivoxLidarCfg option"
  detection_host_ip :: string
  is_view :: bool
  has_manager :: bool
  has_port :: bool
  has_info_change_cb :: bool
  has_info_cb :: bool
  has_observer :: bool
  gseq :: u32
  fw_count :: int
  trace :: "event list"

text \<open>The surroundings. \<open>master_sdk\<close> is \<^verbatim>\<open>sdk_framework_cfg_ptr_->master_sdk\<close> of the manager, \<^term>\<open>None\<close> when that
  pointer is null; \<open>info_memory\<close> is what the uninitialised struct of a state report happens to hold.\<close>

record env =
  now :: nat
  net_send :: "u8 \<Rightarrow> u32 \<Rightarrow> bytes \<Rightarrow> int"
  ntoa :: "u32 \<Rightarrow> string"
  master_sdk :: "bool option"
  crc16 :: "bytes \<Rightarrow> u16"
  crc32 :: "bytes \<Rightarrow> u32"
  json_text :: "jevent list \<Rightarrow> string"
  info_memory :: bytes

type_synonym invoker = "env \<Rightarrow> callback \<Rightarrow> int \<Rightarrow> u32 \<Rightarrow> bytes option \<Rightarrow> general \<Rightarrow> general option"

definition emit :: "event \<Rightarrow> general \<Rightarrow> general" where
  "emit e s = s\<lparr>trace := trace s @ [e]\<rparr>"

section \<open>The table of pending commands\<close>

text \<open>The table is a \<^verbatim>\<open>std::map\<close> keyed by the sequence number; a command is stored without its data.\<close>

definition AddCommand :: "env \<Rightarrow> Command \<Rightarrow> general \<Rightarrow> general" where
  "AddCommand e c s =
     (if cmd_type (packet c) = kCommandTypeAck then s
      else (let c' = (if data_null c then c
                      else c\<lparr>data_null := True, packet := (packet c)\<lparr>cp_data := [], data_len := 0\<rparr>\<rparr>)
            in s\<lparr>commands := cmap_put (seq_num (packet c)) (c', now e + time_out c) (commands s)\<rparr>))"

definition next_seq :: "general \<Rightarrow> u32 \<times> general" where
  "next_seq s = (let (v, q) = GetSeq (gseq s) in (ucast (ucast v :: u16), s\<lparr>gseq := q\<rparr>))"

section \<open>The device handlers\<close>

fun class_type :: "dev_class \<Rightarrow> u8" where
  "class_type Hap = kLivoxLidarTypeIndustrialHAP"
| "class_type Mid360 = kLivoxLidarTypeMid360"
| "class_type Mid360s = kLivoxLidarTypeMid360s"

fun cmd_port :: "dev_class \<Rightarrow> u16" where
  "cmd_port Hap = 56000" | "cmd_port Mid360 = 56100" | "cmd_port Mid360s = 56100"

fun push_port :: "dev_class \<Rightarrow> u16" where
  "push_port Hap = 56000" | "push_port Mid360 = 56200" | "push_port Mid360s = 56200"

fun log_port :: "dev_class \<Rightarrow> u16" where
  "log_port Hap = 59000" | "log_port Mid360 = 56500" | "log_port Mid360s = 56500"

text \<open>Packing and sending, shared by the send operations: the buffer has 1401 bytes of which 1400 are
  offered to \<^verbatim>\<open>Pack\<close>; when it refuses, nothing is sent of it.\<close>

definition pack_command :: "env \<Rightarrow> Command \<Rightarrow> bytes option" where
  "pack_command e c = do {
     (_, b, n) \<leftarrow> Pack (crc16 e) (crc32 e) (replicate (kMaxCommandBufferSize + 1) 0) 1400 (packet c);
     Some (case n of None \<Rightarrow> [] | Some n \<Rightarrow> take (unat n) b)
   }"

definition transmit :: "invoker \<Rightarrow> env \<Rightarrow> (bytes \<Rightarrow> event) \<Rightarrow> u8 \<Rightarrow> Command \<Rightarrow> general \<Rightarrow> (int \<times> general) option" where
  "transmit call e ev t c s = do {
     b \<leftarrow> pack_command e c;
     let s = emit (ev b) s;
     if net_send e t (cmd_handle c) b < 0
     then (case cb c of
        None \<Rightarrow> Some (StatusSendFailed, s)
      | Some f \<Rightarrow> do { s \<leftarrow> call e f StatusSendFailed (cmd_handle c) None s; Some (StatusSendFailed, s) })
     else Some (StatusSuccess, s)
   }"

definition dev_SendCommand_port :: "invoker \<Rightarrow> dev_class \<Rightarrow> env \<Rightarrow> Command \<Rightarrow> u16 \<Rightarrow> general \<Rightarrow> (int \<times> general) option" where
  "dev_SendCommand_port call k e c port s =
     (if cmd_type (packet c) = kCommandTypeAck then Some (StatusFailure, s)
      else transmit call e (EvSend (class_type k) (lidar_ip c) port) (class_type k) c (AddCommand e c s))"

text \<open>Only the HAP handler registers the command before it sends it.\<close>

definition dev_SendCommand :: "invoker \<Rightarrow> dev_class \<Rightarrow> env \<Rightarrow> Command \<Rightarrow> general \<Rightarrow> (int \<times> general) option" where
  "dev_SendCommand call k e c s =
     (if cmd_type (packet c) = kCommandTypeAck then Some (StatusFailure, s)
      else transmit call e (EvSend (class_type k) (lidar_ip c) (cmd_port k)) (class_type k) c
             (if k = Hap then AddCommand e c s else s))"

definition dev_SendLoggerCommand :: "invoker \<Rightarrow> dev_class \<Rightarrow> env \<Rightarrow> Command \<Rightarrow> general \<Rightarrow> (int \<times> general) option" where
  "dev_SendLoggerCommand call k e c s =
     (if cmd_type (packet c) = kCommandTypeAck then Some (StatusFailure, s)
      else transmit call e (EvLogSend (class_type k) (lidar_ip c) (log_port k)) (class_type k) c
             (if k = Hap then AddCommand e c s else s))"

definition dev_Init_view :: "bool \<Rightarrow> dev_handler \<Rightarrow> dev_handler" where
  "dev_Init_view v h = h\<lparr>h_is_view := v\<rparr>"

definition dev_Init :: "(u32 \<Rightarrow> LivoxLidarCfg option) \<Rightarrow> dev_handler \<Rightarrow> dev_handler" where
  "dev_Init cfgs h = h\<lparr>h_custom_lidars := (\<lambda>a. case h_custom_lidars h a of
       Some c \<Rightarrow> Some c
     | None \<Rightarrow> (case cfgs a of
         Some c \<Rightarrow> if device_type c = class_type (h_class h) then Some c else None
       | None \<Rightarrow> None))\<rparr>"

definition dev_OnCommandAck :: "invoker \<Rightarrow> env \<Rightarrow> u32 \<Rightarrow> Command \<Rightarrow> general \<Rightarrow> general option" where
  "dev_OnCommandAck call e h c s =
     (case cb c of
        None \<Rightarrow> Some s
      | Some f \<Rightarrow>
          if data_null c then call e f StatusTimeout h None s
          else call e f StatusSuccess h (Some (cp_data (packet c))) s)"

definition PushLivoxLidarInfo :: "u32 \<Rightarrow> string \<Rightarrow> general \<Rightarrow> general" where
  "PushLivoxLidarInfo h info s =
     (case device_dev_type s h of
        None \<Rightarrow> s
      | Some t \<Rightarrow> if has_info_cb s then emit (EvPushInfo h t info) s else s)"

text \<open>The result of \<open>Parse\<close> is not looked at: a report that does not parse is pushed as the empty string.\<close>

definition dev_OnCommandCmd :: "dev_class \<Rightarrow> env \<Rightarrow> u32 \<Rightarrow> u16 \<Rightarrow> Command \<Rightarrow> general \<Rightarrow> general option" where
  "dev_OnCommandCmd k e h port c s =
     (if cmd_id (packet c) = kCommandIDLidarPushMsg \<and> port = push_port k
      then do {
        (_, info) \<leftarrow> Parse (json_text e) (info_memory e) (packet c) [];
        Some (PushLivoxLidarInfo h info s)
      }
      else Some s)"

definition dev_Handle :: "invoker \<Rightarrow> dev_class \<Rightarrow> env \<Rightarrow> u32 \<Rightarrow> u16 \<Rightarrow> Command \<Rightarrow> general \<Rightarrow> general option" where
  "dev_Handle call k e h port c s =
     (if cmd_type (packet c) = kCommandTypeAck then dev_OnCommandAck call e h c s
      else if cmd_type (packet c) = kCommandTypeCmd then dev_OnCommandCmd k e h port c s
      else Some s)"

definition dev_SetViewLidar :: "invoker \<Rightarrow> dev_class \<Rightarrow> env \<Rightarrow> ViewLidarIpInfo \<Rightarrow> general \<Rightarrow> general option" where
  "dev_SetViewLidar call k e v s = do {
     (ok, b, n) \<leftarrow> BuildUpdateViewLidarCfgRequest v req_buffer 0;
     if \<not> ok then Some s else do {
     let (q, s) = next_seq s;
     (_, s) \<leftarrow> dev_SendCommand_port call k e (mk_Command q kCommandIDLidarWorkModeControl kCommandTypeCmd kHostSend
        (Some b) n (vl_handle v) (ntoa e (vl_handle v)) (Some (UpdateLidar k))) (vl_lidar_cmd_port v) s;
     Some s
   }}"

definition dev_SetCustomLidar :: "invoker \<Rightarrow> dev_class \<Rightarrow> env \<Rightarrow> u32 \<Rightarrow> u16 \<Rightarrow> LivoxLidarCfg \<Rightarrow> general \<Rightarrow> general option" where
  "dev_SetCustomLidar call k e h port c s = do {
     (ok, b, n) \<leftarrow> (if k = Hap then BuildUpdateLidarCfgRequest c req_buffer 0
                     else BuildUpdateMid360LidarCfgRequest c req_buffer 0);
     if \<not> ok then Some s else do {
     let (q, s) = next_seq s;
     (_, s) \<leftarrow> dev_SendCommand_port call k e (mk_Command q kCommandIDLidarWorkModeControl kCommandTypeCmd kHostSend
        (Some b) n h (ntoa e h) (Some (UpdateLidar k))) port s;
     Some s
   }}"

definition dev_UpdateLidarCfg_view :: "invoker \<Rightarrow> env \<Rightarrow> dev_handler \<Rightarrow> ViewLidarIpInfo \<Rightarrow> general \<Rightarrow> general option" where
  "dev_UpdateLidarCfg_view call e d v s =
     (if vl_handle v \<in> set (h_devices d) then Some s else dev_SetViewLidar call (h_class d) e v s)"

definition dev_UpdateLidarCfg :: "invoker \<Rightarrow> env \<Rightarrow> dev_handler \<Rightarrow> u32 \<Rightarrow> u16 \<Rightarrow> general \<Rightarrow> general option" where
  "dev_UpdateLidarCfg call e d h port s =
     (if h \<in> set (h_devices d) then Some s
      else (case h_custom_lidars d h of
          None \<Rightarrow> Some s
        | Some c \<Rightarrow> dev_SetCustomLidar call (h_class d) e h port c s))"

definition dev_AddDevice :: "dev_class \<Rightarrow> u32 \<Rightarrow> general \<Rightarrow> general" where
  "dev_AddDevice k h s =
     (case handlers s (class_type k) of
        None \<Rightarrow> s
      | Some d \<Rightarrow> s\<lparr>handlers := (handlers s)(class_type k \<mapsto> d\<lparr>h_devices := List.insert h (h_devices d)\<rparr>)\<rparr>)"

definition dev_IsStatusException :: "Command \<Rightarrow> bool option" where
  "dev_IsStatusException c =
     (if data_null c then Some False
      else if cmd_id (packet c) \<noteq> kCommandIDLidarWorkModeControl then Some False
      else do { r \<leftarrow> rd (cp_data (packet c)) 0 1; Some (hd r = 0) })"

section \<open>The general handler\<close>

definition general_init :: "(u32 \<Rightarrow> LivoxLidarCfg option) \<Rightarrow> general" where
  "general_init cfgs = \<lparr>commands = [], device_dev_type = (\<lambda>_. None), devices = (\<lambda>_. None),
     handlers = (\<lambda>_. None), custom_lidars_cfg = cfgs, detection_host_ip = [], is_view = False,
     has_manager = False, has_port = False, has_info_change_cb = False, has_info_cb = False,
     has_observer = False, gseq = seq_init, fw_count = 0, trace = []\<rparr>"

definition Init_view :: "string \<Rightarrow> bool \<Rightarrow> general \<Rightarrow> general" where
  "Init_view ip v s = s\<lparr>is_view := v, detection_host_ip := ip, has_manager := True, has_port := True\<rparr>"

text \<open>\<open>cfgs\<close> is the configuration list already keyed by \<^verbatim>\<open>inet_addr\<close>; the first entry of a key stays.\<close>

definition AddDetectedLidar :: "(u32 \<times> LivoxLidarCfg) list \<Rightarrow> general \<Rightarrow> general" where
  "AddDetectedLidar cfgs s = s\<lparr>custom_lidars_cfg := (\<lambda>a. case custom_lidars_cfg s a of
       Some c \<Rightarrow> Some c | None \<Rightarrow> map_of cfgs a)\<rparr>"

definition create_missing :: "dev_class \<Rightarrow> general \<Rightarrow> general" where
  "create_missing k s =
     (if handlers s (class_type k) = None then s\<lparr>handlers := (handlers s)(class_type k \<mapsto> mk_handler k)\<rparr> else s)"

definition Init_custom :: "(u32 \<times> LivoxLidarCfg) list \<Rightarrow> general \<Rightarrow> general" where
  "Init_custom cfgs s =
     (let s = (if has_port s then s else s\<lparr>is_view := False, has_manager := True, has_port := True\<rparr>);
          s = create_missing Hap s; s = create_missing Mid360 s; s = create_missing Mid360s s
      in AddDetectedLidar cfgs s)"

text \<open>\<open>Destory\<close> declares a local table instead of clearing the member.\<close>

definition Destory :: "general \<Rightarrow> general" where
  "Destory s = s\<lparr>has_manager := False, has_port := False, device_dev_type := (\<lambda>_. None), devices := (\<lambda>_. None),
     handlers := (\<lambda>_. None), has_info_change_cb := False, detection_host_ip := [], is_view := False\<rparr>"

definition handler_of :: "u32 \<Rightarrow> general \<Rightarrow> dev_handler option" where
  "handler_of h s = (case device_dev_type s h of None \<Rightarrow> None | Some t \<Rightarrow> handlers s t)"

definition SendCommand :: "invoker \<Rightarrow> env \<Rightarrow> u32 \<Rightarrow> u16 \<Rightarrow> bytes option \<Rightarrow> u16 \<Rightarrow> callback option
    \<Rightarrow> general \<Rightarrow> (int \<times> general) option" where
  "SendCommand call e h cid data len c s =
     (let (q, s) = next_seq s;
          cmd = mk_Command q cid kCommandTypeCmd kHostSend data len h (ntoa e h) c
      in case handler_of h s of
           None \<Rightarrow> Some (StatusSendFailed, s)
         | Some d \<Rightarrow> do {
             (_, s) \<leftarrow> dev_SendCommand call (h_class d) e cmd s;
             Some (StatusSuccess, AddCommand e cmd s)
           })"

definition SendLoggerCommand :: "invoker \<Rightarrow> env \<Rightarrow> u32 \<Rightarrow> u16 \<Rightarrow> bytes option \<Rightarrow> u16 \<Rightarrow> callback option
    \<Rightarrow> general \<Rightarrow> (int \<times> general) option" where
  "SendLoggerCommand call e h cid data len c s =
     (let (q, s) = next_seq s;
          cmd = mk_Command q cid kCommandTypeCmd kHostSend data len h (ntoa e h) c
      in case handler_of h s of
           None \<Rightarrow> Some (StatusSendFailed, s)
         | Some d \<Rightarrow> do {
             (_, s) \<leftarrow> dev_SendLoggerCommand call (h_class d) e cmd s;
             Some (StatusSuccess, AddCommand e cmd s)
           })"

text \<open>Looking a device up creates it. Copying the serial number into 16 characters needs room for the
  terminator.\<close>

definition LivoxLidarInfoChange :: "u32 \<Rightarrow> general \<Rightarrow> general option" where
  "LivoxLidarInfoChange h s =
     (let d = (case devices s h of None \<Rightarrow> new_DeviceInfo | Some d \<Rightarrow> d);
          s' = s\<lparr>devices := (devices s)(h \<mapsto> d\<lparr>is_update_cfg := True, is_callback := True\<rparr>)\<rparr>
      in if 16 \<le> length (di_sn d) \<or> 16 \<le> length (di_lidar_ip d) then None
         else (let s' = (if has_manager s \<and> is_view s \<and> \<not> is_loader_mode d then emit (EvViewCfg h) s' else s')
               in Some (if \<not> is_callback d \<and> has_info_change_cb s
                        then emit (EvInfoChange h (di_sn d) (di_lidar_ip d) (di_dev_type d)) s' else s')))"

definition UpdateLidarCallback :: "dev_class \<Rightarrow> int \<Rightarrow> u32 \<Rightarrow> bytes option \<Rightarrow> general \<Rightarrow> general option" where
  "UpdateLidarCallback k status h response s =
     (if status \<noteq> StatusSuccess then Some s
      else (case response of
          None \<Rightarrow> Some s
        | Some r \<Rightarrow> do {
            ret \<leftarrow> rd r 0 1;
            ok \<leftarrow> (if hd ret = 0 then map_option (\<lambda>k. le_dec k = (0 :: u16)) (rd r 1 2) else Some False);
            if ok then LivoxLidarInfoChange h (dev_AddDevice k h s)
            else if k = Hap then LivoxLidarInfoChange h s
            else Some s
          }))"

definition UpdateFwType :: "u32 \<Rightarrow> u8 \<Rightarrow> general \<Rightarrow> general" where
  "UpdateFwType h fw s =
     (case devices s h of
        None \<Rightarrow> s
      | Some d \<Rightarrow> s\<lparr>devices := (devices s)(h \<mapsto>
          d\<lparr>is_get_loader_mode := True, is_loader_mode := (fw = 0)\<rparr>)\<rparr>)"

definition fw_request :: "bytes option" where
  "fw_request = do { b \<leftarrow> wr req_buffer 0 (le_enc 2 (1 :: u16)); wr b 4 (le_enc 2 kKeyFwType) }"

definition QueryFwType :: "invoker \<Rightarrow> env \<Rightarrow> u32 \<Rightarrow> general \<Rightarrow> general option" where
  "QueryFwType call e h s = do {
     b \<leftarrow> fw_request;
     (_, s) \<leftarrow> SendCommand call e h kCommandIDLidarGetInternalInfo (Some b) 6 (Some QueryFw) s;
     Some s
   }"

text \<open>The retry counter is static: it is shared by all devices. The response is
  \<^verbatim>\<open>ret_code\<close>, \<^verbatim>\<open>param_num\<close> and, from byte 3, the key-value list.\<close>

definition QueryFwTypeCallback :: "invoker \<Rightarrow> env \<Rightarrow> int \<Rightarrow> u32 \<Rightarrow> bytes option \<Rightarrow> general \<Rightarrow> general option" where
  "QueryFwTypeCallback call e status h response s =
     (let retry = QueryFwType call e h (s\<lparr>fw_count := fw_count s + 1\<rparr>) in
      if fw_count s > 10 then Some ((UpdateFwType h 1 s)\<lparr>fw_count := 0\<rparr>)
      else if status \<noteq> StatusSuccess then retry
      else (case response of
          None \<Rightarrow> retry
        | Some r \<Rightarrow> do {
            ret \<leftarrow> rd r 0 1;
            if hd ret \<noteq> 0 then retry else do {
            key \<leftarrow> rd r 3 2;
            if le_dec key \<noteq> kKeyFwType then retry else do {
            len \<leftarrow> rd r 5 2;
            if le_dec len \<noteq> (1 :: u16) then retry else do {
            v \<leftarrow> rd r 7 1;
            Some (UpdateFwType h (hd v) (s\<lparr>fw_count := 0\<rparr>))
          }}}}))"

primrec invoke :: "nat \<Rightarrow> invoker" where
  "invoke 0 = (\<lambda>e c status h d s. None)"
| "invoke (Suc n) = (\<lambda>e c status h d s. case c of
      User u \<Rightarrow> Some (emit (EvCallback u status h d) s)
    | UpdateLidar k \<Rightarrow> UpdateLidarCallback k status h d s
    | QueryFw \<Rightarrow> QueryFwTypeCallback (invoke n) e status h d s)"

fun call_all :: "invoker \<Rightarrow> env \<Rightarrow> Command list \<Rightarrow> general \<Rightarrow> general option" where
  "call_all call e [] s = Some s"
| "call_all call e (c # cs) s =
     (case cb c of
        None \<Rightarrow> call_all call e cs s
      | Some f \<Rightarrow> do {
          s \<leftarrow> call e f StatusTimeout (cmd_handle c) (if data_null c then None else Some (cp_data (packet c))) s;
          call_all call e cs s
        })"

definition CommandsHandle :: "invoker \<Rightarrow> env \<Rightarrow> general \<Rightarrow> general option" where
  "CommandsHandle call e s =
     (let due = (\<lambda>(k, c, t). now e > t)
      in call_all call e (map (fst \<circ> snd) (filter due (commands s)))
           (s\<lparr>commands := filter (\<lambda>p. \<not> due p) (commands s)\<rparr>))"

section \<open>Detection\<close>

definition VerifyNetSegment :: "bytes \<Rightarrow> general \<Rightarrow> bool option" where
  "VerifyNetSegment ip s =
     (if is_view s
      then if detection_host_ip s = [] then Some False
        else do {
          (ok, v) \<leftarrow> IpToU8 (detection_host_ip s) CHR ''.'';
          Some (ok \<and> take 3 v = take 3 ip)
        }
      else Some True)"

text \<open>\<^term>\<open>None\<close> is the call through the null handler that \<^verbatim>\<open>operator[]\<close> creates for a type without one.\<close>

definition init_existing :: "u8 \<Rightarrow> general \<Rightarrow> general option" where
  "init_existing t s =
     (case handlers s t of
        None \<Rightarrow> None
      | Some d \<Rightarrow> Some (s\<lparr>handlers := (handlers s)(t \<mapsto> dev_Init (custom_lidars_cfg s) d)\<rparr>))"

definition CreateCommandHandler :: "u8 \<Rightarrow> general \<Rightarrow> general option" where
  "CreateCommandHandler t s =
     (if \<not> is_view s
      then if t = kLivoxLidarTypeIndustrialHAP \<or> t = kLivoxLidarTypeMid360 \<or> t = kLivoxLidarTypePA
              \<or> t = kLivoxLidarTypeMid360s
        then init_existing t s else Some s
      else if handlers s t \<noteq> None then Some s
      else if t = kLivoxLidarTypeIndustrialHAP
        then Some (s\<lparr>handlers := (handlers s)(t \<mapsto> dev_Init_view True (mk_handler Hap))\<rparr>)
      else if t = kLivoxLidarTypeMid360
        then Some (s\<lparr>handlers := (handlers s)(t \<mapsto> dev_Init_view True (mk_handler Mid360))\<rparr>)
      else if t = kLivoxLidarTypeMid360s
        then Some (s\<lparr>handlers := (handlers s)(t \<mapsto> dev_Init_view True (mk_handler Mid360s))\<rparr>)
      else Some s)"

definition UpdateLidarCfg_view :: "invoker \<Rightarrow> env \<Rightarrow> ViewLidarIpInfo \<Rightarrow> general \<Rightarrow> general option" where
  "UpdateLidarCfg_view call e v s =
     (case handlers s (vl_dev_type v) of
        None \<Rightarrow> Some s
      | Some d \<Rightarrow> if \<not> has_manager s then None
          else do { ms \<leftarrow> master_sdk e; if ms then dev_UpdateLidarCfg_view call e d v s else Some s })"

definition UpdateLidarCfg :: "invoker \<Rightarrow> env \<Rightarrow> u8 \<Rightarrow> u32 \<Rightarrow> u16 \<Rightarrow> general \<Rightarrow> general option" where
  "UpdateLidarCfg call e t h port s =
     (case handlers s t of
        None \<Rightarrow> Some s
      | Some d \<Rightarrow> if \<not> has_manager s then None
          else do { ms \<leftarrow> master_sdk e; if ms then dev_UpdateLidarCfg call e d h port s else Some s })"

definition GetFirmwareType :: "invoker \<Rightarrow> env \<Rightarrow> u32 \<Rightarrow> DeviceInfo \<Rightarrow> general \<Rightarrow> general option" where
  "GetFirmwareType call e h d s =
     (if \<not> has_manager s then None
      else do {
        ms \<leftarrow> master_sdk e;
        if \<not> ms then Some s
        else if is_get_loader_mode d then Some s
        else QueryFwType call e h s
      })"

text \<open>\<^verbatim>\<open>DetectionData\<close>: \<^verbatim>\<open>ret_code\<close> at 0, \<^verbatim>\<open>dev_type\<close> at 1, \<^verbatim>\<open>sn\<close> at 2, \<^verbatim>\<open>lidar_ip\<close> at 18, \<^verbatim>\<open>cmd_port\<close> at 22.
  The fields are read for the log line first.\<close>

definition HandleDetectionData :: "invoker \<Rightarrow> env \<Rightarrow> u32 \<Rightarrow> CommPacket \<Rightarrow> general \<Rightarrow> general option" where
  "HandleDetectionData call e h pkt s =
     (if data_len pkt = 0 then Some s else do {
      let m = cp_data pkt;
      ret \<leftarrow> rd m 0 1;
      if hd ret \<noteq> 0 then Some s else do {
      tb \<leftarrow> rd m 1 1;
      let t = hd tb;
      sn \<leftarrow> cstring m 2;
      portb \<leftarrow> rd m 22 2;
      let s = emit (EvAddDevice h) s;
      ip \<leftarrow> rd m 18 4;
      ok \<leftarrow> VerifyNetSegment ip s;
      if \<not> ok then Some s else do {
      s \<leftarrow> CreateCommandHandler t s;
      let ips = ip_string (ip ! 0) (ip ! 1) (ip ! 2) (ip ! 3);
      case devices s h of
        Some d \<Rightarrow> do {
          s \<leftarrow> (if \<not> is_update_cfg d \<and> is_get_loader_mode d \<and> \<not> is_loader_mode d \<and> \<not> is_view s
                then UpdateLidarCfg call e t h (le_dec portb) s else Some s);
          Some (if has_manager s
                then (case devices s h of
                    None \<Rightarrow> s
                  | Some d \<Rightarrow> emit (EvDetected h t (le_dec portb) (is_get_loader_mode d) (is_loader_mode d)) s)
                else s)
        }
      | None \<Rightarrow> do {
          let s = (case device_dev_type s h of
              None \<Rightarrow> s\<lparr>device_dev_type := (device_dev_type s)(h \<mapsto> t)\<rparr> | Some _ \<Rightarrow> s);
          let d = new_DeviceInfo\<lparr>di_sn := sn, di_lidar_ip := ips, di_dev_type := t\<rparr>;
          GetFirmwareType call e h d (s\<lparr>devices := (devices s)(h \<mapsto> d)\<rparr>)
        }
     }}})"

section \<open>Incoming datagrams\<close>

definition Handler :: "invoker \<Rightarrow> env \<Rightarrow> u32 \<Rightarrow> u16 \<Rightarrow> bytes \<Rightarrow> u32 \<Rightarrow> general \<Rightarrow> general option" where
  "Handler call e h port buf n s =
     (if n = 0 then Some s
      else if \<not> has_port s then None
      else do {
        r \<leftarrow> ParseCommStream (crc16 e) (crc32 e) buf n;
        case r of
          None \<Rightarrow> Some s
        | Some p \<Rightarrow>
            if port = kDetectionPort \<and> cmd_id p = kCommandIDLidarSearch
            then if cmd_type p = kCommandTypeCmd then Some s else HandleDetectionData call e h p s
            else if cmd_type p = kCommandTypeAck
            then (case map_of (commands s) (seq_num p) of
                None \<Rightarrow> Some s
              | Some (c, _) \<Rightarrow>
                  (let s = s\<lparr>commands := cmap_erase (seq_num p) (commands s)\<rparr>
                   in case cb c of
                        None \<Rightarrow> Some s
                      | Some f \<Rightarrow> call e f StatusSuccess h (Some (cp_data p)) s))
            else if cmd_id p = kCommandIDLidarPushMsg
            then (case handler_of h s of
                None \<Rightarrow> Some s
              | Some d \<Rightarrow> dev_Handle call (h_class d) e h port (default_Command\<lparr>packet := p, data_null := False\<rparr>) s)
            else Some s
      })"

definition Handler_typed :: "invoker \<Rightarrow> env \<Rightarrow> u8 \<Rightarrow> u32 \<Rightarrow> u16 \<Rightarrow> bytes \<Rightarrow> u32 \<Rightarrow> general \<Rightarrow> general option" where
  "Handler_typed call e t h port buf n s =
     (if n = 0 then Some s
      else (let s = (if has_observer s then emit (EvObserve h buf) s else s) in
      if t = kLivoxLidarTypePA \<and> port = kPaLidarFaultPort
      then (case handlers s t of
          None \<Rightarrow> Some s
        | Some d \<Rightarrow> dev_Handle call (h_class d) e h port
            (default_Command\<lparr>packet := empty_packet\<lparr>cp_data := buf, data_len := ucast n\<rparr>, data_null := False\<rparr>) s)
      else if \<not> has_port s then None
      else do {
        r \<leftarrow> ParseCommStream (crc16 e) (crc32 e) buf n;
        case r of
          None \<Rightarrow> Some s
        | Some p \<Rightarrow>
            if port = kDetectionPort \<and> cmd_id p = kCommandIDLidarSearch
            then if cmd_type p = kCommandTypeCmd then Some s else HandleDetectionData call e h p s
            else (case handlers s t of
                None \<Rightarrow> Some s
              | Some d \<Rightarrow>
                  (let (c, s) =
                     (if cmd_type p = kCommandTypeAck
                      then (let q = ucast (ucast (seq_num p) :: u16) in
                            case map_of (commands s) q of
                              None \<Rightarrow> (default_Command, s)
                            | Some (c, _) \<Rightarrow> (c\<lparr>packet := p, data_null := False\<rparr>,
                                s\<lparr>commands := cmap_erase q (commands s)\<rparr>))
                      else if cmd_type p = kCommandTypeCmd
                      then (default_Command\<lparr>packet := p, data_null := False, cmd_handle := h\<rparr>, s)
                      else (default_Command, s))
                   in dev_Handle call (h_class d) e h port c s))
      }))"

section \<open>Sending and answering\<close>

lemma pack_command_ok:
  assumes "protocol (packet c) = kLidarSdk" and "unat (data_len (packet c)) \<le> 1376"
    and "unat (data_len (packet c)) \<le> length (cp_data (packet c))"
  shows "\<exists>b. pack_command e c = Some b"
proof -
  obtain b where "Pack (crc16 e) (crc32 e) (replicate (kMaxCommandBufferSize + 1) 0) 1400 (packet c) =
      Some (0, b, Some (ucast (packet_length (data_len (packet c)))))"
    by (rule Pack_layout [OF assms(1), of 1400 "replicate (kMaxCommandBufferSize + 1) 0"])
      (use assms in simp_all)
  then show ?thesis by (simp add: pack_command_def)
qed

lemma mk_Command_sel [simp]:
  "packet (mk_Command q cid ct sd d len h ip c) = \<lparr>protocol = kLidarSdk, cp_version = kCommandVer, seq_num = q,
     cmd_id = cid, cmd_type = ct, sender_type = sd, cp_data = (case d of None \<Rightarrow> [] | Some d \<Rightarrow> d), data_len = len\<rparr>"
  "cmd_handle (mk_Command q cid ct sd d len h ip c) = h" "lidar_ip (mk_Command q cid ct sd d len h ip c) = ip"
  "cb (mk_Command q cid ct sd d len h ip c) = c" "time_out (mk_Command q cid ct sd d len h ip c) = 1000"
  "data_null (mk_Command q cid ct sd d len h ip c) = (d = None)"
  by (simp_all add: mk_Command_def)

lemma emit_sel [simp]:
  "trace (emit ev s) = trace s @ [ev]" "commands (emit ev s) = commands s" "devices (emit ev s) = devices s"
  "device_dev_type (emit ev s) = device_dev_type s" "handlers (emit ev s) = handlers s"
  "fw_count (emit ev s) = fw_count s" "gseq (emit ev s) = gseq s" "has_port (emit ev s) = has_port s"
  "is_view (emit ev s) = is_view s" "has_manager (emit ev s) = has_manager s"
  "detection_host_ip (emit ev s) = detection_host_ip s"
  "has_info_change_cb (emit ev s) = has_info_change_cb s"
  by (simp_all add: emit_def)

lemma next_seq_sel [simp]:
  "trace (snd (next_seq s)) = trace s" "commands (snd (next_seq s)) = commands s"
  "device_dev_type (snd (next_seq s)) = device_dev_type s" "handlers (snd (next_seq s)) = handlers s"
  "devices (snd (next_seq s)) = devices s" "fw_count (snd (next_seq s)) = fw_count s"
  by (simp_all add: next_seq_def split: prod.splits)

lemma AddCommand_sel [simp]:
  "trace (AddCommand e c s) = trace s" "device_dev_type (AddCommand e c s) = device_dev_type s"
  "handlers (AddCommand e c s) = handlers s" "devices (AddCommand e c s) = devices s"
  "fw_count (AddCommand e c s) = fw_count s" "has_port (AddCommand e c s) = has_port s"
  by (simp_all add: AddCommand_def Let_def)

lemma handler_of_cong:
  "device_dev_type s = device_dev_type t \<Longrightarrow> handlers s = handlers t \<Longrightarrow> handler_of h s = handler_of h t"
  by (auto simp: handler_of_def split: option.splits)

text \<open>The entry that registering a command leaves in the table.\<close>

definition stored :: "Command \<Rightarrow> Command" where
  "stored c = (if data_null c then c
     else c\<lparr>data_null := True, packet := (packet c)\<lparr>cp_data := [], data_len := 0\<rparr>\<rparr>)"

lemma AddCommand_commands:
  "cmd_type (packet c) = kCommandTypeCmd \<Longrightarrow>
   commands (AddCommand e c s) = cmap_put (seq_num (packet c)) (stored c, now e + time_out c) (commands s)"
  by (simp add: AddCommand_def stored_def Let_def)

lemma stored_sel [simp]: "cb (stored c) = cb c" "cmd_handle (stored c) = cmd_handle c" "data_null (stored c)"
  by (simp_all add: stored_def)

text \<open>Expiry, when all pending callbacks are user callbacks.\<close>

definition timeout_event :: "Command \<Rightarrow> event list" where
  "timeout_event c = (case cb c of Some (User u) \<Rightarrow>
     [EvCallback u StatusTimeout (cmd_handle c) (if data_null c then None else Some (cp_data (packet c)))] | _ \<Rightarrow> [])"

definition user_only :: "Command \<Rightarrow> bool" where
  "user_only c \<longleftrightarrow> (case cb c of None \<Rightarrow> True | Some (User _) \<Rightarrow> True | _ \<Rightarrow> False)"

lemma call_all_user:
  "list_all user_only cs \<Longrightarrow>
   call_all (invoke (Suc n)) e cs s = Some (s\<lparr>trace := trace s @ concat (map timeout_event cs)\<rparr>)"
proof (induction cs arbitrary: s)
  case Nil
  then show ?case by simp
next
  case (Cons c cs)
  then show ?case
    by (cases "cb c") (auto simp: user_only_def timeout_event_def emit_def split: callback.splits)
qed

text \<open>C11: the periodic sweep removes exactly the pending commands whose deadline has passed and tells the
  callback of each, in the order of the sequence numbers, that it timed out; the others stay.\<close>

theorem CommandsHandle_expires:
  assumes "\<forall>(k, c, t) \<in> set (commands s). user_only c"
  shows "CommandsHandle (invoke (Suc n)) e s = Some (s\<lparr>
    commands := filter (\<lambda>(k, c, t). now e \<le> t) (commands s),
    trace := trace s @ concat (map (\<lambda>(k, c, t). timeout_event c) (filter (\<lambda>(k, c, t). t < now e) (commands s)))\<rparr>)"
proof -
  let ?due = "filter (\<lambda>(k, c, t). t < now e) (commands s)"
  let ?s = "s\<lparr>commands := filter (\<lambda>(k, c, t). now e \<le> t) (commands s)\<rparr>"
  have u: "list_all user_only (map (fst \<circ> snd) ?due)" using assms by (auto simp: list_all_iff)
  have m: "map timeout_event (map (fst \<circ> snd) ?due) = map (\<lambda>(k, c, t). timeout_event c) ?due" by auto
  have f: "filter (\<lambda>p. \<not> (case p of (k, c, t) \<Rightarrow> t < now e)) (commands s) = filter (\<lambda>(k, c, t). now e \<le> t) (commands s)"
    by (rule filter_cong) auto
  have "CommandsHandle (invoke (Suc n)) e s = call_all (invoke (Suc n)) e (map (fst \<circ> snd) ?due) ?s"
    unfolding CommandsHandle_def Let_def f ..
  also have "\<dots> = Some (?s\<lparr>trace := trace ?s @ concat (map (\<lambda>(k, c, t). timeout_event c) ?due)\<rparr>)"
    unfolding call_all_user [OF u] m ..
  finally show ?thesis by (simp del: invoke.simps)
qed

definition example_env :: env where
  "example_env = \<lparr>now = 5000, net_send = (\<lambda>_ _ _. -1), ntoa = (\<lambda>_. ''1.1.1.1''), master_sdk = Some True,
     crc16 = (\<lambda>_. 5), crc32 = (\<lambda>_. 6), json_text = (\<lambda>_. []), info_memory = replicate 441 0\<rparr>"

theorem CommandsHandle_expires_witness:
  "map_option trace (CommandsHandle (invoke 1) example_env ((general_init (\<lambda>_. None))
      \<lparr>commands := [(2, default_Command\<lparr>cb := Some (User 7)\<rparr>, 4000), (3, default_Command, 6000)]\<rparr>))
   = Some [EvCallback 7 StatusTimeout 0 None]"
  using CommandsHandle_expires [of "(general_init (\<lambda>_. None))
      \<lparr>commands := [(2, default_Command\<lparr>cb := Some (User 7)\<rparr>, 4000), (3, default_Command, 6000)]\<rparr>" 0 example_env]
  by (simp add: user_only_def default_Command_def example_env_def timeout_event_def general_init_def)

lemma ParseCommStream_nonempty: "ParseCommStream c16 c32 buf n = Some (Some p) \<Longrightarrow> n \<noteq> 0"
  by (auto simp: ParseCommStream_def CheckPreamble_def GetPreambleLen_def)

text \<open>C6: an acknowledgement of a pending command reaches the callback of that command exactly once, with
  success and the data of the frame; the entry is gone, the others are untouched, and a duplicate
  of the acknowledgement changes nothing.\<close>

theorem ack_delivered_once:
  assumes "ParseCommStream (crc16 e) (crc32 e) buf n = Some (Some p)" and "cmd_type p = kCommandTypeAck"
    and "\<not> (port = kDetectionPort \<and> cmd_id p = kCommandIDLidarSearch)" and "has_port s"
    and "map_of (commands s) (seq_num p) = Some (c, t)" and "cb c = Some (User u)"
  shows "\<exists>s'. Handler (invoke (Suc k)) e h port buf n s = Some s' \<and>
    trace s' = trace s @ [EvCallback u StatusSuccess h (Some (cp_data p))] \<and>
    map_of (commands s') = (map_of (commands s))(seq_num p := None) \<and>
    Handler (invoke (Suc k)) e h port buf n s' = Some s'"
  using assms ParseCommStream_nonempty [OF assms(1)]
  by (auto simp: Handler_def Let_def)

definition ack_frame :: bytes where
  "ack_frame = [0xAA, 0, 24, 0, 9, 0, 0, 0, 0, 1, 1, 1, 0, 0, 0, 0, 0, 0, 5, 0, 0, 0, 0, 0]"

lemma ack_frame_parse:
  "ParseCommStream (crc16 example_env) (crc32 example_env) ack_frame 24 = Some (Some
     \<lparr>protocol = 0, cp_version = 0, seq_num = 9, cmd_id = 0x100, cmd_type = 1, sender_type = 1,
      cp_data = [], data_len = 0\<rparr>)"
  unfolding example_env_def by code_simp

theorem ack_delivered_once_witness:
  "\<exists>s'. Handler (invoke 1) example_env 77 56100 ack_frame 24 ((general_init (\<lambda>_. None))\<lparr>has_port := True,
       commands := [(9, default_Command\<lparr>cb := Some (User 4)\<rparr>, 6000)]\<rparr>) = Some s' \<and>
     trace s' = [EvCallback 4 StatusSuccess 77 (Some [])]"
  using ack_delivered_once [OF ack_frame_parse, of 56100 "(general_init (\<lambda>_. None))\<lparr>has_port := True,
       commands := [(9, default_Command\<lparr>cb := Some (User 4)\<rparr>, 6000)]\<rparr>" _ _ 4 0 77]
  by (auto simp: general_init_def default_Command_def)

section \<open>Registration after sending\<close>

lemma transmit_user:
  assumes "pack_command e c = Some b" and "cb c = Some (User u)"
  shows "transmit (invoke (Suc n)) e ev t c s =
    (if net_send e t (cmd_handle c) b < 0
     then Some (StatusSendFailed, emit (EvCallback u StatusSendFailed (cmd_handle c) None) (emit (ev b) s))
     else Some (StatusSuccess, emit (ev b) s))"
  using assms by (simp add: transmit_def)

text \<open>C36: when the network refuses a command, the caller still gets success; its callback hears first that
  sending failed and then, because the command is put in the table of pending commands all the same,
  that it timed out.\<close>

theorem SendCommand_failure_reported_twice:
  assumes "handler_of h s = Some d" and "commands s = []"
    and "unat len \<le> 1376" and "unat len \<le> length data"
    and "\<And>b. net_send e (class_type (h_class d)) h b < 0" and "now e + 1000 < now e'"
  shows "\<exists>b s' s''. SendCommand (invoke (Suc n)) e h cid (Some data) len (Some (User u)) s = Some (StatusSuccess, s') \<and>
    CommandsHandle (invoke (Suc n)) e' s' = Some s'' \<and>
    trace s'' = trace s @ [EvSend (class_type (h_class d)) (ntoa e h) (cmd_port (h_class d)) b,
      EvCallback u StatusSendFailed h None, EvCallback u StatusTimeout h None]"
proof -
  let ?q = "fst (next_seq s)" and ?s = "snd (next_seq s)"
  let ?c = "mk_Command ?q cid kCommandTypeCmd kHostSend (Some data) len h (ntoa e h) (Some (User u))"
  let ?k = "h_class d"
  obtain b where b: "pack_command e ?c = Some b"
    using pack_command_ok [of ?c e] assms(3,4) by auto
  let ?t = "if ?k = Hap then AddCommand e ?c ?s else ?s"
  let ?t' = "emit (EvCallback u StatusSendFailed h None) (emit (EvSend (class_type ?k) (ntoa e h) (cmd_port ?k) b) ?t)"
  have h: "handler_of h ?s = Some d"
    using assms(1) handler_of_cong [of ?s s h] by simp
  have "dev_SendCommand (invoke (Suc n)) ?k e ?c ?s = Some (StatusSendFailed, ?t')"
    using assms(5) transmit_user [OF b, of u n] by (simp add: dev_SendCommand_def del: invoke.simps)
  then have send: "SendCommand (invoke (Suc n)) e h cid (Some data) len (Some (User u)) s
      = Some (StatusSuccess, AddCommand e ?c ?t')"
    using h by (simp add: SendCommand_def case_prod_unfold Let_def del: invoke.simps)
  have "commands (AddCommand e ?c ?t') = [(?q, stored ?c, now e + 1000)]"
    using assms(2) by (cases "?k = Hap") (simp_all add: AddCommand_commands)
  then have "CommandsHandle (invoke (Suc n)) e' (AddCommand e ?c ?t') =
      Some ((AddCommand e ?c ?t')\<lparr>commands := [], trace := trace (AddCommand e ?c ?t') @ timeout_event (stored ?c)\<rparr>)"
    using assms(6) call_all_user [of "[stored ?c]" n e'] by (simp add: CommandsHandle_def user_only_def Let_def del: invoke.simps call_all.simps)
  moreover have "timeout_event (stored ?c) = [EvCallback u StatusTimeout h None]"
    by (simp add: timeout_event_def)
  moreover have "trace (AddCommand e ?c ?t') = trace s @
      [EvSend (class_type ?k) (ntoa e h) (cmd_port ?k) b, EvCallback u StatusSendFailed h None]"
    by (cases "?k = Hap") simp_all
  ultimately show ?thesis using send by auto
qed

definition example_general :: general where
  "example_general = (general_init (\<lambda>_. None))\<lparr>has_port := True, has_manager := True,
     device_dev_type := (\<lambda>_. None)(77 \<mapsto> 9), handlers := (\<lambda>_. None)(9 \<mapsto> mk_handler Mid360)\<rparr>"

lemma example_general_handler: "handler_of 77 example_general = Some (mk_handler Mid360)"
  by (simp add: handler_of_def example_general_def)

theorem SendCommand_failure_reported_twice_witness:
  "\<exists>b s' s''. SendCommand (invoke 1) example_env 77 0x100 (Some [1, 0]) 2 (Some (User 3)) example_general = Some (0, s') \<and>
    CommandsHandle (invoke 1) (example_env\<lparr>now := 9000\<rparr>) s' = Some s'' \<and>
    trace s'' = [EvSend 9 ''1.1.1.1'' 56100 b, EvCallback 3 (-9) 77 None, EvCallback 3 (-4) 77 None]"
  using SendCommand_failure_reported_twice [OF example_general_handler,
      of 2 "[1, 0]" example_env "example_env\<lparr>now := 9000\<rparr>" 0 "0x100" 3]
  by (simp add: example_env_def mk_handler_def example_general_def general_init_def)

text \<open>C38: an acknowledgement that arrives while the sender is between the transmission and the
  registration in \<open>SendCommand\<close> does not settle the command: with the Mid360 handlers it is dropped,
  with the HAP handler it reaches the callback, and in both cases the command is registered
  afterwards and the callback is told of a timeout.\<close>

theorem ack_before_registration:
  assumes "cmd_type (packet c) = kCommandTypeCmd" and "cb c = Some (User u)" and "commands s = []"
    and "pack_command e c = Some b" and "0 \<le> net_send e (class_type k) (cmd_handle c) b" and "has_port s"
    and "ParseCommStream (crc16 e) (crc32 e) buf m = Some (Some p)" and "cmd_type p = kCommandTypeAck"
    and "seq_num p = seq_num (packet c)" and "\<not> (port = kDetectionPort \<and> cmd_id p = kCommandIDLidarSearch)"
    and "now e + time_out c < now e'"
  shows "\<exists>s1 s2 s3. dev_SendCommand (invoke (Suc n)) k e c s = Some (StatusSuccess, s1) \<and>
    Handler (invoke (Suc n)) e (cmd_handle c) port buf m s1 = Some s2 \<and>
    CommandsHandle (invoke (Suc n)) e' (AddCommand e c s2) = Some s3 \<and>
    trace s3 = trace s1 @ (if k = Hap then [EvCallback u StatusSuccess (cmd_handle c) (Some (cp_data p))] else [])
      @ [EvCallback u StatusTimeout (cmd_handle c) None]"
proof -
  let ?s1 = "emit (EvSend (class_type k) (lidar_ip c) (cmd_port k) b) (if k = Hap then AddCommand e c s else s)"
  have s1: "dev_SendCommand (invoke (Suc n)) k e c s = Some (StatusSuccess, ?s1)"
    using assms(1,5) transmit_user [OF assms(4,2)] by (simp add: dev_SendCommand_def del: invoke.simps)
  have port: "has_port ?s1" using assms(6) by simp
  have "\<exists>s2. Handler (invoke (Suc n)) e (cmd_handle c) port buf m ?s1 = Some s2 \<and> commands s2 = [] \<and>
    trace s2 = trace ?s1 @ (if k = Hap then [EvCallback u StatusSuccess (cmd_handle c) (Some (cp_data p))] else [])"
  proof (cases "k = Hap")
    case True
    then have "commands ?s1 = [(seq_num p, stored c, now e + time_out c)]"
      using assms(1,3,9) by (simp add: AddCommand_commands)
    then show ?thesis
      using True assms(2,7,8,10) port ParseCommStream_nonempty [OF assms(7)]
      by (auto simp: Handler_def Let_def cmap_erase_def)
  next
    case False
    then show ?thesis
      using assms(3,7,8,10) port ParseCommStream_nonempty [OF assms(7)]
      by (auto simp: Handler_def Let_def)
  qed
  then obtain s2 where s2: "Handler (invoke (Suc n)) e (cmd_handle c) port buf m ?s1 = Some s2" "commands s2 = []"
    "trace s2 = trace ?s1 @ (if k = Hap then [EvCallback u StatusSuccess (cmd_handle c) (Some (cp_data p))] else [])"
    by blast
  let ?s3 = "(AddCommand e c s2)\<lparr>commands := [], trace := trace s2 @ timeout_event (stored c)\<rparr>"
  have "commands (AddCommand e c s2) = [(seq_num (packet c), stored c, now e + time_out c)]"
    using assms(1) s2(2) by (simp add: AddCommand_commands)
  then have "CommandsHandle (invoke (Suc n)) e' (AddCommand e c s2) = Some ?s3"
    using assms(2,11) call_all_user [of "[stored c]" n e']
    by (simp add: CommandsHandle_def user_only_def Let_def del: invoke.simps call_all.simps)
  moreover have "timeout_event (stored c) = [EvCallback u StatusTimeout (cmd_handle c) None]"
    using assms(2) by (simp add: timeout_event_def)
  ultimately show ?thesis using s1 s2 by auto
qed

theorem ack_before_registration_witness:
  "\<exists>s1 s2 s3 b. let e = example_env\<lparr>net_send := \<lambda>_ _ _. 24\<rparr>;
      c = mk_Command 9 0x100 0 0 (Some []) 0 77 ''1.1.1.1'' (Some (User 3)) in
    dev_SendCommand (invoke 1) Hap e c example_general = Some (0, s1) \<and>
    Handler (invoke 1) e 77 56100 ack_frame 24 s1 = Some s2 \<and>
    CommandsHandle (invoke 1) (e\<lparr>now := 9000\<rparr>) (AddCommand e c s2) = Some s3 \<and>
    trace s3 = trace s1 @ [EvCallback 3 0 77 (Some []), EvCallback 3 (-4) 77 None]"
proof -
  let ?e = "example_env\<lparr>net_send := \<lambda>_ _ _. 24\<rparr>"
  let ?c = "mk_Command 9 0x100 0 0 (Some []) 0 77 ''1.1.1.1'' (Some (User 3))"
  obtain b where b: "pack_command ?e ?c = Some b" using pack_command_ok [of ?c ?e] by auto
  have p: "ParseCommStream (crc16 ?e) (crc32 ?e) ack_frame 24 = Some (Some
     \<lparr>protocol = 0, cp_version = 0, seq_num = 9, cmd_id = 0x100, cmd_type = 1, sender_type = 1,
      cp_data = [], data_len = 0\<rparr>)"
    using ack_frame_parse by (simp add: example_env_def)
  show ?thesis
    using ack_before_registration [of ?c 3 example_general ?e b Hap, OF _ _ _ b _ _ p, of 56100 "?e\<lparr>now := 9000\<rparr>" 0]
    by (simp add: Let_def example_general_def general_init_def example_env_def del: invoke.simps)
qed

section \<open>Querying the firmware type\<close>

lemma fw_request_Some:
  "fw_request = Some ((le_enc 2 (1 :: u16) @ [0, 0] @ le_enc 2 kKeyFwType) @ replicate 1394 0)"
proof -
  have "fw_request = wr ((le_enc 2 (1 :: u16) @ [0, 0]) @ replicate 1396 0) 4 (le_enc 2 kKeyFwType)"
    unfolding fw_request_def wr_header by simp
  also have "\<dots> = Some (((le_enc 2 (1 :: u16) @ [0, 0]) @ le_enc 2 kKeyFwType) @ replicate (1396 - 2) 0)"
    by (subst wr_zeros) simp_all
  finally show ?thesis by simp
qed

text \<open>One query: at most one nested callback, entered when the network refuses the request.\<close>

lemma QueryFwType_run:
  assumes "\<And>t. fw_count t = fw_count s \<Longrightarrow>
      \<exists>t'. call e QueryFw StatusSendFailed h None t = Some t' \<and> length (trace t') \<le> length (trace t) + n"
  shows "\<exists>s'. QueryFwType call e h s = Some s' \<and> length (trace s') \<le> length (trace s) + 1 + n"
proof -
  obtain b where b: "fw_request = Some b" "length b = 1400" by (simp add: fw_request_Some)
  let ?q = "fst (next_seq s)" and ?s = "snd (next_seq s)"
  let ?c = "mk_Command ?q kCommandIDLidarGetInternalInfo kCommandTypeCmd kHostSend (Some b) 6 h (ntoa e h) (Some QueryFw)"
  show ?thesis
  proof (cases "handler_of h ?s")
    case None
    then show ?thesis by (simp add: QueryFwType_def b(1) SendCommand_def case_prod_unfold Let_def)
  next
    case (Some d)
    let ?k = "h_class d"
    let ?t = "if ?k = Hap then AddCommand e ?c ?s else ?s"
    obtain p where p: "pack_command e ?c = Some p"
      using pack_command_ok [of ?c e] b(2) by auto
    let ?u = "emit (EvSend (class_type ?k) (ntoa e h) (cmd_port ?k) p) ?t"
    have "\<exists>r t'. dev_SendCommand call ?k e ?c ?s = Some (r, t') \<and> length (trace t') \<le> length (trace s) + 1 + n"
    proof (cases "net_send e (class_type ?k) h p < 0")
      case True
      have tr: "trace ?t = trace s" by (cases "?k = Hap") simp_all
      have "fw_count ?u = fw_count s" by (cases "?k = Hap") simp_all
      from assms [OF this] obtain t' where "call e QueryFw StatusSendFailed h None ?u = Some t'"
        "length (trace t') \<le> length (trace ?u) + n" by blast
      then show ?thesis using True p tr by (simp add: dev_SendCommand_def transmit_def)
    next
      case False
      then show ?thesis using p by (cases "?k = Hap") (simp_all add: dev_SendCommand_def transmit_def)
    qed
    then obtain r t' where "dev_SendCommand call ?k e ?c ?s = Some (r, t')"
      "length (trace t') \<le> length (trace s) + 1 + n" by blast
    then show ?thesis using Some
      by (simp add: b(1) QueryFwType_def SendCommand_def case_prod_unfold Let_def)
  qed
qed

lemma UpdateFwType_trace [simp]: "trace (UpdateFwType h fw s) = trace s"
  by (simp add: UpdateFwType_def split: option.splits)

lemma QueryFwTypeCallback_run:
  assumes "11 - fw_count s < int n" and "0 < n" and "status \<noteq> StatusSuccess"
  shows "\<exists>s'. invoke n e QueryFw status h None s = Some s' \<and>
    length (trace s') \<le> length (trace s) + nat (11 - fw_count s)"
  using assms
proof (induction n arbitrary: s status)
  case 0
  then show ?case by simp
next
  case (Suc n)
  show ?case
  proof (cases "fw_count s > 10")
    case True
    then show ?thesis by (simp add: QueryFwTypeCallback_def)
  next
    case False
    let ?s = "s\<lparr>fw_count := fw_count s + 1\<rparr>"
    have "\<exists>s'. QueryFwType (invoke n) e h ?s = Some s' \<and>
      length (trace s') \<le> length (trace ?s) + 1 + nat (11 - fw_count ?s)"
    proof (rule QueryFwType_run)
      fix t :: general assume t: "fw_count t = fw_count ?s"
      then have "11 - fw_count t < int n" "0 < n" using Suc.prems(1) False by simp_all
      from Suc.IH [OF this, of StatusSendFailed]
      show "\<exists>t'. invoke n e QueryFw StatusSendFailed h None t = Some t' \<and>
          length (trace t') \<le> length (trace t) + nat (11 - fw_count ?s)"
        unfolding t by simp
    qed
    then show ?thesis using False Suc.prems(3) by (auto simp: QueryFwTypeCallback_def)
  qed
qed

text \<open>C27: the firmware-type query returns whatever the network does: with a fuel of 13 the recursion of the
  callback that retries from inside the failed send ends, after at most 12 transmissions.\<close>

theorem query_terminates:
  assumes "0 \<le> fw_count s"
  shows "\<exists>s'. QueryFwType (invoke 13) e h s = Some s' \<and> length (trace s') \<le> length (trace s) + 12"
proof -
  have "\<exists>s'. QueryFwType (invoke 13) e h s = Some s' \<and> length (trace s') \<le> length (trace s) + 1 + nat (11 - fw_count s)"
  proof (rule QueryFwType_run)
    fix t :: general assume "fw_count t = fw_count s"
    then show "\<exists>t'. invoke 13 e QueryFw StatusSendFailed h None t = Some t' \<and>
        length (trace t') \<le> length (trace t) + nat (11 - fw_count s)"
      using QueryFwTypeCallback_run [of t 13 StatusSendFailed e h] assms by simp
  qed
  then show ?thesis using assms by (auto intro: le_trans)
qed

theorem query_terminates_witness:
  "\<exists>s'. QueryFwType (invoke 13) example_env 77 example_general = Some s' \<and> length (trace s') \<le> 12"
  using query_terminates [of example_general example_env 77]
  by (simp add: example_general_def general_init_def del: invoke.simps)

section \<open>Detection\<close>

text \<open>In the viewer mode a device is accepted exactly when the first three bytes of its address are
  those of the host address.\<close>

theorem VerifyNetSegment_same_segment:
  assumes "is_view s" and "detection_host_ip s = ip_string a b c d" and "length ip = 4"
  shows "VerifyNetSegment ip s = Some (ip ! 0 = a \<and> ip ! 1 = b \<and> ip ! 2 = c)"
proof -
  obtain i0 i1 i2 i3 where "ip = [i0, i1, i2, i3]"
    using assms(3) by (auto simp: numeral_eq_Suc length_Suc_conv)
  then show ?thesis
    using assms(1,2) by (auto simp: VerifyNetSegment_def IpToU8_rendered ip_string_nonempty numeral_3_eq_3)
qed

theorem VerifyNetSegment_same_segment_witness:
  "VerifyNetSegment [192, 168, 1, 100] ((general_init (\<lambda>_. None))\<lparr>is_view := True,
     detection_host_ip := ip_string 192 168 1 5\<rparr>) = Some True"
  using VerifyNetSegment_same_segment [of "(general_init (\<lambda>_. None))\<lparr>is_view := True,
     detection_host_ip := ip_string 192 168 1 5\<rparr>" 192 168 1 5 "[192, 168, 1, 100]"]
  by (simp add: general_init_def)

text \<open>Outside the viewer mode a detection answer of a PA device (type 16) makes the SDK call through a
  null handler, since initialisation creates no handler of that type.\<close>

theorem detection_of_PA_crashes:
  assumes "s = Init_custom cfgs (general_init c0)" and "data_len pkt \<noteq> 0"
    and "rd (cp_data pkt) 0 2 = Some [0, 16]"
  shows "HandleDetectionData call e h pkt s = None"
proof -
  have "rd (cp_data pkt) 0 1 = Some [0]" "rd (cp_data pkt) 1 1 = Some [16]"
    using assms(3) by (cases "cp_data pkt"; cases "tl (cp_data pkt)"; auto simp: rd_def numeral_2_eq_2 split: if_splits)+
  moreover have "\<not> is_view s" "handlers s 16 = None"
    using assms(1) by (simp_all add: Init_custom_def create_missing_def AddDetectedLidar_def general_init_def Let_def)
  then have "CreateCommandHandler 16 (emit ev s) = None" "VerifyNetSegment ip (emit ev s) = Some True" for ev ip
    by (simp_all add: CreateCommandHandler_def init_existing_def VerifyNetSegment_def)
  ultimately show ?thesis
    using assms(2) by (auto simp: HandleDetectionData_def Let_def bind_eq_None_conv)
qed

theorem detection_of_PA_crashes_witness:
  "HandleDetectionData (invoke 13) example_env 77
     (empty_packet\<lparr>cp_data := [0, 16] @ replicate 16 0 @ [192, 168, 1, 100] @ [0, 0], data_len := 24\<rparr>)
     (Init_custom [] (general_init (\<lambda>_. None))) = None"
proof (rule detection_of_PA_crashes [OF refl])
  show "rd (cp_data (empty_packet\<lparr>cp_data := [0, 16] @ replicate 16 0 @ [192, 168, 1, 100] @ [0, 0], data_len := 24\<rparr>)) 0 2
    = Some [0, 16]"
    by (simp add: rd_def)
qed simp

text \<open>The application hears of a device at most once: after the first notification, further ones only
  mark the configuration as updated. A handle that was never detected is not refused: a device
  with an empty serial number is created and reported.\<close>

theorem LivoxLidarInfoChange_once:
  assumes "LivoxLidarInfoChange h s = Some s'" and "\<not> is_view s"
  shows "(\<exists>s''. LivoxLidarInfoChange h s' = Some s'' \<and> trace s'' = trace s') \<and>
    (devices s h = None \<longrightarrow> has_info_change_cb s \<longrightarrow> trace s' = trace s @ [EvInfoChange h [] [] 0])"
  using assms by (auto simp: LivoxLidarInfoChange_def Let_def new_DeviceInfo_def split: if_splits option.splits)

theorem LivoxLidarInfoChange_once_witness:
  "\<exists>s'. LivoxLidarInfoChange 5 ((general_init (\<lambda>_. None))\<lparr>has_info_change_cb := True\<rparr>) = Some s' \<and>
    trace s' = [EvInfoChange 5 [] [] 0]"
proof -
  let ?s = "(general_init (\<lambda>_. None))\<lparr>has_info_change_cb := True\<rparr>"
  obtain s' where s': "LivoxLidarInfoChange 5 ?s = Some s'"
    by (simp add: LivoxLidarInfoChange_def general_init_def Let_def new_DeviceInfo_def)
  from LivoxLidarInfoChange_once [OF this] s' show ?thesis by (simp add: general_init_def)
qed

end
