(* ===== verification/Lvx_Devices.thy ===== *)
theory Lvx_Devices
  imports Lvx_General
begin

text \<open>
  The three device handlers of the Livox SDK as their files write them
  (\<^verbatim>\<open>command_handler/hap_command_handler.cpp\<close>, \<^verbatim>\<open>mid360_command_handler.cpp\<close>,
  \<^verbatim>\<open>mid360s_command_handler.cpp\<close>): one group of definitions per class, with its own ports, its own device
  type and its own order of registering and sending. \<open>Lvx_General\<close> works with one set of operations
  that is indexed by the class; the last section proves that this is the virtual dispatch on the
  three groups. The state of a handler is a \<open>dev_handler\<close>; its members are reached through
  \<open>handlers\<close>, as the code reaches them through its singleton.
\<close>

abbreviation kHAPCmdPort :: u16 where "kHAPCmdPort \<equiv> 56000"
abbreviation kHAPPushMsgPort :: u16 where "kHAPPushMsgPort \<equiv> 56000"
abbreviation kHAPLogPort :: u16 where "kHAPLogPort \<equiv> 59000"
abbreviation kMid360LidarCmdPort :: u16 where "kMid360LidarCmdPort \<equiv> 56100"
abbreviation kMid360LidarLogPort :: u16 where "kMid360LidarLogPort \<equiv> 56500"
abbreviation kMid360sLidarCmdPort :: u16 where "kMid360sLidarCmdPort \<equiv> 56100"
abbreviation kMid360sLidarPushMsgPort :: u16 where "kMid360sLidarPushMsgPort \<equiv> 56200"
abbreviation kMid360sLidarLogPort :: u16 where "kMid360sLidarLogPort \<equiv> 56500"

section \<open>HapCommandHandler\<close>

definition Hap_Init_view :: "bool \<Rightarrow> dev_handler \<Rightarrow> dev_handler" where
  "Hap_Init_view v d = d\<lparr>h_is_view := v\<rparr>"

definition Hap_Init :: "(u32 \<Rightarrow> LivoxLidarCfg option) \<Rightarrow> dev_handler \<Rightarrow> dev_handler" where
  "Hap_Init cfgs d = d\<lparr>h_custom_lidars := (\<lambda>h. case cfgs h of
       None \<Rightarrow> h_custom_lidars d h
     | Some c \<Rightarrow> if device_type c = kLivoxLidarTypeIndustrialHAP \<and> h_custom_lidars d h = None
         then Some c else h_custom_lidars d h)\<rparr>"

definition Hap_OnCommandAck :: "invoker \<Rightarrow> env \<Rightarrow> u32 \<Rightarrow> Command \<Rightarrow> general \<Rightarrow> general option" where
  "Hap_OnCommandAck call e h c s =
     (case cb c of
        None \<Rightarrow> Some s
      | Some f \<Rightarrow>
          if data_null c then call e f StatusTimeout h None s
          else call e f StatusSuccess h (Some (cp_data (packet c))) s)"

definition Hap_OnCommandCmd :: "env \<Rightarrow> u32 \<Rightarrow> u16 \<Rightarrow> Command \<Rightarrow> general \<Rightarrow> general option" where
  "Hap_OnCommandCmd e h port c s =
     (if cmd_id (packet c) = kCommandIDLidarPushMsg \<and> port = kHAPPushMsgPort
      then do {
        (_, info) \<leftarrow> Parse (json_text e) (info_memory e) (packet c) [];
        Some (PushLivoxLidarInfo h info s)
      }
      else Some s)"

definition Hap_Handle :: "invoker \<Rightarrow> env \<Rightarrow> u32 \<Rightarrow> u16 \<Rightarrow> Command \<Rightarrow> general \<Rightarrow> general option" where
  "Hap_Handle call e h port c s =
     (if cmd_type (packet c) = kCommandTypeAck then Hap_OnCommandAck call e h c s
      else if cmd_type (packet c) = kCommandTypeCmd then Hap_OnCommandCmd e h port c s
      else Some s)"

definition Hap_SendCommand_port :: "invoker \<Rightarrow> env \<Rightarrow> Command \<Rightarrow> u16 \<Rightarrow> general \<Rightarrow> (int \<times> general) option" where
  "Hap_SendCommand_port call e c lidar_cmd_port s =
     (if cmd_type (packet c) = kCommandTypeAck then Some (StatusFailure, s)
      else (let s = AddCommand e c s in do {
        buf \<leftarrow> pack_command e c;
        let s = emit (EvSend kLivoxLidarTypeIndustrialHAP (lidar_ip c) lidar_cmd_port buf) s;
        if net_send e kLivoxLidarTypeIndustrialHAP (cmd_handle c) buf < 0
        then (case cb c of
            None \<Rightarrow> Some (StatusSendFailed, s)
          | Some f \<Rightarrow> do { s \<leftarrow> call e f StatusSendFailed (cmd_handle c) None s; Some (StatusSendFailed, s) })
        else Some (StatusSuccess, s)
      }))"

definition Hap_SendCommand :: "invoker \<Rightarrow> env \<Rightarrow> Command \<Rightarrow> general \<Rightarrow> (int \<times> general) option" where
  "Hap_SendCommand call e c s =
     (if cmd_type (packet c) = kCommandTypeAck then Some (StatusFailure, s)
      else (let s = AddCommand e c s in do {
        buf \<leftarrow> pack_command e c;
        let s = emit (EvSend kLivoxLidarTypeIndustrialHAP (lidar_ip c) kHAPCmdPort buf) s;
        if net_send e kLivoxLidarTypeIndustrialHAP (cmd_handle c) buf < 0
        then (case cb c of
            None \<Rightarrow> Some (StatusSendFailed, s)
          | Some f \<Rightarrow> do { s \<leftarrow> call e f StatusSendFailed (cmd_handle c) None s; Some (StatusSendFailed, s) })
        else Some (StatusSuccess, s)
      }))"

definition Hap_SendLoggerCommand :: "invoker \<Rightarrow> env \<Rightarrow> Command \<Rightarrow> general \<Rightarrow> (int \<times> general) option" where
  "Hap_SendLoggerCommand call e c s =
     (if cmd_type (packet c) = kCommandTypeAck then Some (StatusFailure, s)
      else (let s = AddCommand e c s in do {
        buf \<leftarrow> pack_command e c;
        let s = emit (EvLogSend kLivoxLidarTypeIndustrialHAP (lidar_ip c) kHAPLogPort buf) s;
        if net_send e kLivoxLidarTypeIndustrialHAP (cmd_handle c) buf < 0
        then (case cb c of
            None \<Rightarrow> Some (StatusSendFailed, s)
          | Some f \<Rightarrow> do { s \<leftarrow> call e f StatusSendFailed (cmd_handle c) None s; Some (StatusSendFailed, s) })
        else Some (StatusSuccess, s)
      }))"

definition Hap_SetViewLidar :: "invoker \<Rightarrow> env \<Rightarrow> ViewLidarIpInfo \<Rightarrow> general \<Rightarrow> general option" where
  "Hap_SetViewLidar call e v s = do {
     (ok, req_buff, req_len) \<leftarrow> BuildUpdateViewLidarCfgRequest v req_buffer 0;
     if \<not> ok then Some s else do {
       let (q, s) = next_seq s;
       let c = mk_Command q kCommandIDLidarWorkModeControl kCommandTypeCmd kHostSend (Some req_buff) req_len
         (vl_handle v) (ntoa e (vl_handle v)) (Some (UpdateLidar Hap));
       (_, s) \<leftarrow> Hap_SendCommand_port call e c (vl_lidar_cmd_port v) s;
       Some s
     }}"

definition Hap_SetCustomLidar :: "invoker \<Rightarrow> env \<Rightarrow> u32 \<Rightarrow> u16 \<Rightarrow> LivoxLidarCfg \<Rightarrow> general \<Rightarrow> general option" where
  "Hap_SetCustomLidar call e h lidar_cmd_port lidar_cfg s = do {
     (ok, req_buff, req_len) \<leftarrow> BuildUpdateLidarCfgRequest lidar_cfg req_buffer 0;
     if \<not> ok then Some s else do {
       let (q, s) = next_seq s;
       let c = mk_Command q kCommandIDLidarWorkModeControl kCommandTypeCmd kHostSend (Some req_buff) req_len
         h (ntoa e h) (Some (UpdateLidar Hap));
       (_, s) \<leftarrow> Hap_SendCommand_port call e c lidar_cmd_port s;
       Some s
     }}"

definition Hap_UpdateLidarCfg_view :: "invoker \<Rightarrow> env \<Rightarrow> dev_handler \<Rightarrow> ViewLidarIpInfo \<Rightarrow> general \<Rightarrow> general option" where
  "Hap_UpdateLidarCfg_view call e d v s =
     (if vl_handle v \<in> set (h_devices d) then Some s else Hap_SetViewLidar call e v s)"

definition Hap_UpdateLidarCfg :: "invoker \<Rightarrow> env \<Rightarrow> dev_handler \<Rightarrow> u32 \<Rightarrow> u16 \<Rightarrow> general \<Rightarrow> general option" where
  "Hap_UpdateLidarCfg call e d h lidar_cmd_port s =
     (if h \<in> set (h_devices d) then Some s
      else (case h_custom_lidars d h of
          Some lidar_cfg \<Rightarrow> Hap_SetCustomLidar call e h lidar_cmd_port lidar_cfg s
        | None \<Rightarrow> Some s))"

definition Hap_AddDevice :: "u32 \<Rightarrow> general \<Rightarrow> general" where
  "Hap_AddDevice h s =
     (case handlers s kLivoxLidarTypeIndustrialHAP of
        None \<Rightarrow> s
      | Some d \<Rightarrow> s\<lparr>handlers := (handlers s)(kLivoxLidarTypeIndustrialHAP \<mapsto>
          d\<lparr>h_devices := List.insert h (h_devices d)\<rparr>)\<rparr>)"

definition Hap_UpdateLidarCallback :: "int \<Rightarrow> u32 \<Rightarrow> bytes option \<Rightarrow> general \<Rightarrow> general option" where
  "Hap_UpdateLidarCallback status h response s =
     (if status \<noteq> StatusSuccess then Some s
      else (case response of
          None \<Rightarrow> Some s
        | Some r \<Rightarrow> do {
            ret_code \<leftarrow> rd r 0 1;
            ok \<leftarrow> (if hd ret_code = 0 then map_option (\<lambda>k. le_dec k = (0 :: u16)) (rd r 1 2) else Some False);
            if ok then LivoxLidarInfoChange h (Hap_AddDevice h s) else LivoxLidarInfoChange h s
          }))"

definition Hap_IsStatusException :: "Command \<Rightarrow> bool option" where
  "Hap_IsStatusException c =
     (if data_null c then Some False
      else if cmd_id (packet c) \<noteq> kCommandIDLidarWorkModeControl then Some False
      else do { ret_code \<leftarrow> rd (cp_data (packet c)) 0 1; Some (hd ret_code = 0) })"

section \<open>Mid360CommandHandler\<close>

definition Mid360_Init_view :: "bool \<Rightarrow> dev_handler \<Rightarrow> dev_handler" where
  "Mid360_Init_view v d = d\<lparr>h_is_view := v\<rparr>"

definition Mid360_Init :: "(u32 \<Rightarrow> LivoxLidarCfg option) \<Rightarrow> dev_handler \<Rightarrow> dev_handler" where
  "Mid360_Init cfgs d = d\<lparr>h_custom_lidars := (\<lambda>h. case cfgs h of
       None \<Rightarrow> h_custom_lidars d h
     | Some c \<Rightarrow> if device_type c = kLivoxLidarTypeMid360 \<and> h_custom_lidars d h = None
         then Some c else h_custom_lidars d h)\<rparr>"

definition Mid360_OnCommandAck :: "invoker \<Rightarrow> env \<Rightarrow> u32 \<Rightarrow> Command \<Rightarrow> general \<Rightarrow> general option" where
  "Mid360_OnCommandAck call e h c s =
     (case cb c of
        None \<Rightarrow> Some s
      | Some f \<Rightarrow>
          if data_null c then call e f StatusTimeout h None s
          else call e f StatusSuccess h (Some (cp_data (packet c))) s)"

definition Mid360_OnCommandCmd :: "env \<Rightarrow> u32 \<Rightarrow> u16 \<Rightarrow> Command \<Rightarrow> general \<Rightarrow> general option" where
  "Mid360_OnCommandCmd e h port c s =
     (if cmd_id (packet c) = kCommandIDLidarPushMsg \<and> port = kMid360LidarPushMsgPort
      then do {
        (_, info) \<leftarrow> Parse (json_text e) (info_memory e) (packet c) [];
        Some (PushLivoxLidarInfo h info s)
      }
      else Some s)"

definition Mid360_Handle :: "invoker \<Rightarrow> env \<Rightarrow> u32 \<Rightarrow> u16 \<Rightarrow> Command \<Rightarrow> general \<Rightarrow> general option" where
  "Mid360_Handle call e h port c s =
     (if cmd_type (packet c) = kCommandTypeAck then Mid360_OnCommandAck call e h c s
      else if cmd_type (packet c) = kCommandTypeCmd then Mid360_OnCommandCmd e h port c s
      else Some s)"

definition Mid360_SendCommand_port :: "invoker \<Rightarrow> env \<Rightarrow> Command \<Rightarrow> u16 \<Rightarrow> general \<Rightarrow> (int \<times> general) option" where
  "Mid360_SendCommand_port call e c lidar_cmd_port s =
     (if cmd_type (packet c) = kCommandTypeAck then Some (StatusFailure, s)
      else (let s = AddCommand e c s in do {
        buf \<leftarrow> pack_command e c;
        let s = emit (EvSend kLivoxLidarTypeMid360 (lidar_ip c) lidar_cmd_port buf) s;
        if net_send e kLivoxLidarTypeMid360 (cmd_handle c) buf < 0
        then (case cb c of
            None \<Rightarrow> Some (StatusSendFailed, s)
          | Some f \<Rightarrow> do { s \<leftarrow> call e f StatusSendFailed (cmd_handle c) None s; Some (StatusSendFailed, s) })
        else Some (StatusSuccess, s)
      }))"

definition Mid360_SendCommand :: "invoker \<Rightarrow> env \<Rightarrow> Command \<Rightarrow> general \<Rightarrow> (int \<times> general) option" where
  "Mid360_SendCommand call e c s =
     (if cmd_type (packet c) = kCommandTypeAck then Some (StatusFailure, s)
      else do {
        buf \<leftarrow> pack_command e c;
        let s = emit (EvSend kLivoxLidarTypeMid360 (lidar_ip c) kMid360LidarCmdPort buf) s;
        if net_send e kLivoxLidarTypeMid360 (cmd_handle c) buf < 0
        then (case cb c of
            None \<Rightarrow> Some (StatusSendFailed, s)
          | Some f \<Rightarrow> do { s \<leftarrow> call e f StatusSendFailed (cmd_handle c) None s; Some (StatusSendFailed, s) })
        else Some (StatusSuccess, s)
      })"

definition Mid360_SendLoggerCommand :: "invoker \<Rightarrow> env \<Rightarrow> Command \<Rightarrow> general \<Rightarrow> (int \<times> general) option" where
  "Mid360_SendLoggerCommand call e c s =
     (if cmd_type (packet c) = kCommandTypeAck then Some (StatusFailure, s)
      else do {
        buf \<leftarrow> pack_command e c;
        let s = emit (EvLogSend kLivoxLidarTypeMid360 (lidar_ip c) kMid360LidarLogPort buf) s;
        if net_send e kLivoxLidarTypeMid360 (cmd_handle c) buf < 0
        then (case cb c of
            None \<Rightarrow> Some (StatusSendFailed, s)
          | Some f \<Rightarrow> do { s \<leftarrow> call e f StatusSendFailed (cmd_handle c) None s; Some (StatusSendFailed, s) })
        else Some (StatusSuccess, s)
      })"

definition Mid360_SetViewLidar :: "invoker \<Rightarrow> env \<Rightarrow> ViewLidarIpInfo \<Rightarrow> general \<Rightarrow> general option" where
  "Mid360_SetViewLidar call e v s = do {
     (ok, req_buff, req_len) \<leftarrow> BuildUpdateViewLidarCfgRequest v req_buffer 0;
     if \<not> ok then Some s else do {
       let (q, s) = next_seq s;
       let c = mk_Command q kCommandIDLidarWorkModeControl kCommandTypeCmd kHostSend (Some req_buff) req_len
         (vl_handle v) (ntoa e (vl_handle v)) (Some (UpdateLidar Mid360));
       (_, s) \<leftarrow> Mid360_SendCommand_port call e c (vl_lidar_cmd_port v) s;
       Some s
     }}"

definition Mid360_SetCustomLidar :: "invoker \<Rightarrow> env \<Rightarrow> u32 \<Rightarrow> u16 \<Rightarrow> LivoxLidarCfg \<Rightarrow> general \<Rightarrow> general option" where
  "Mid360_SetCustomLidar call e h lidar_cmd_port lidar_cfg s = do {
     (ok, req_buff, req_len) \<leftarrow> BuildUpdateMid360LidarCfgRequest lidar_cfg req_buffer 0;
     if \<not> ok then Some s else do {
       let (q, s) = next_seq s;
       let c = mk_Command q kCommandIDLidarWorkModeControl kCommandTypeCmd kHostSend (Some req_buff) req_len
         h (ntoa e h) (Some (UpdateLidar Mid360));
       (_, s) \<leftarrow> Mid360_SendCommand_port call e c lidar_cmd_port s;
       Some s
     }}"

definition Mid360_UpdateLidarCfg_view :: "invoker \<Rightarrow> env \<Rightarrow> dev_handler \<Rightarrow> ViewLidarIpInfo \<Rightarrow> general \<Rightarrow> general option" where
  "Mid360_UpdateLidarCfg_view call e d v s =
     (if vl_handle v \<in> set (h_devices d) then Some s else Mid360_SetViewLidar call e v s)"

definition Mid360_UpdateLidarCfg :: "invoker \<Rightarrow> env \<Rightarrow> dev_handler \<Rightarrow> u32 \<Rightarrow> u16 \<Rightarrow> general \<Rightarrow> general option" where
  "Mid360_UpdateLidarCfg call e d h lidar_cmd_port s =
     (if h \<in> set (h_devices d) then Some s
      else (case h_custom_lidars d h of
          Some lidar_cfg \<Rightarrow> Mid360_SetCustomLidar call e h lidar_cmd_port lidar_cfg s
        | None \<Rightarrow> Some s))"

definition Mid360_AddDevice :: "u32 \<Rightarrow> general \<Rightarrow> general" where
  "Mid360_AddDevice h s =
     (case handlers s kLivoxLidarTypeMid360 of
        None \<Rightarrow> s
      | Some d \<Rightarrow> s\<lparr>handlers := (handlers s)(kLivoxLidarTypeMid360 \<mapsto>
          d\<lparr>h_devices := List.insert h (h_devices d)\<rparr>)\<rparr>)"

definition Mid360_UpdateLidarCallback :: "int \<Rightarrow> u32 \<Rightarrow> bytes option \<Rightarrow> general \<Rightarrow> general option" where
  "Mid360_UpdateLidarCallback status h response s =
     (if status \<noteq> StatusSuccess then Some s
      else (case response of
          None \<Rightarrow> Some s
        | Some r \<Rightarrow> do {
            ret_code \<leftarrow> rd r 0 1;
            ok \<leftarrow> (if hd ret_code = 0 then map_option (\<lambda>k. le_dec k = (0 :: u16)) (rd r 1 2) else Some False);
            if ok then LivoxLidarInfoChange h (Mid360_AddDevice h s) else Some s
          }))"

definition Mid360_IsStatusException :: "Command \<Rightarrow> bool option" where
  "Mid360_IsStatusException c =
     (if data_null c then Some False
      else if cmd_id (packet c) \<noteq> kCommandIDLidarWorkModeControl then Some False
      else do { ret_code \<leftarrow> rd (cp_data (packet c)) 0 1; Some (hd ret_code = 0) })"

section \<open>Mid360sCommandHandler\<close>

definition Mid360s_Init_view :: "bool \<Rightarrow> dev_handler \<Rightarrow> dev_handler" where
  "Mid360s_Init_view v d = d\<lparr>h_is_view := v\<rparr>"

definition Mid360s_Init :: "(u32 \<Rightarrow> LivoxLidarCfg option) \<Rightarrow> dev_handler \<Rightarrow> dev_handler" where
  "Mid360s_Init cfgs d = d\<lparr>h_custom_lidars := (\<lambda>h. case cfgs h of
       None \<Rightarrow> h_custom_lidars d h
     | Some c \<Rightarrow> if device_type c = kLivoxLidarTypeMid360s \<and> h_custom_lidars d h = None
         then Some c else h_custom_lidars d h)\<rparr>"

definition Mid360s_OnCommandAck :: "invoker \<Rightarrow> env \<Rightarrow> u32 \<Rightarrow> Command \<Rightarrow> general \<Rightarrow> general option" where
  "Mid360s_OnCommandAck call e h c s =
     (case cb c of
        None \<Rightarrow> Some s
      | Some f \<Rightarrow>
          if data_null c then call e f StatusTimeout h None s
          else call e f StatusSuccess h (Some (cp_data (packet c))) s)"

definition Mid360s_OnCommandCmd :: "env \<Rightarrow> u32 \<Rightarrow> u16 \<Rightarrow> Command \<Rightarrow> general \<Rightarrow> general option" where
  "Mid360s_OnCommandCmd e h port c s =
     (if cmd_id (packet c) = kCommandIDLidarPushMsg \<and> port = kMid360sLidarPushMsgPort
      then do {
        (_, info) \<leftarrow> Parse (json_text e) (info_memory e) (packet c) [];
        Some (PushLivoxLidarInfo h info s)
      }
      else Some s)"

definition Mid360s_Handle :: "invoker \<Rightarrow> env \<Rightarrow> u32 \<Rightarrow> u16 \<Rightarrow> Command \<Rightarrow> general \<Rightarrow> general option" where
  "Mid360s_Handle call e h port c s =
     (if cmd_type (packet c) = kCommandTypeAck then Mid360s_OnCommandAck call e h c s
      else if cmd_type (packet c) = kCommandTypeCmd then Mid360s_OnCommandCmd e h port c s
      else Some s)"

definition Mid360s_SendCommand_port :: "invoker \<Rightarrow> env \<Rightarrow> Command \<Rightarrow> u16 \<Rightarrow> general \<Rightarrow> (int \<times> general) option" where
  "Mid360s_SendCommand_port call e c lidar_cmd_port s =
     (if cmd_type (packet c) = kCommandTypeAck then Some (StatusFailure, s)
      else (let s = AddCommand e c s in do {
        buf \<leftarrow> pack_command e c;
        let s = emit (EvSend kLivoxLidarTypeMid360s (lidar_ip c) lidar_cmd_port buf) s;
        if net_send e kLivoxLidarTypeMid360s (cmd_handle c) buf < 0
        then (case cb c of
            None \<Rightarrow> Some (StatusSendFailed, s)
          | Some f \<Rightarrow> do { s \<leftarrow> call e f StatusSendFailed (cmd_handle c) None s; Some (StatusSendFailed, s) })
        else Some (StatusSuccess, s)
      }))"

definition Mid360s_SendCommand :: "invoker \<Rightarrow> env \<Rightarrow> Command \<Rightarrow> general \<Rightarrow> (int \<times> general) option" where
  "Mid360s_SendCommand call e c s =
     (if cmd_type (packet c) = kCommandTypeAck then Some (StatusFailure, s)
      else do {
        buf \<leftarrow> pack_command e c;
        let s = emit (EvSend kLivoxLidarTypeMid360s (lidar_ip c) kMid360sLidarCmdPort buf) s;
        if net_send e kLivoxLidarTypeMid360s (cmd_handle c) buf < 0
        then (case cb c of
            None \<Rightarrow> Some (StatusSendFailed, s)
          | Some f \<Rightarrow> do { s \<leftarrow> call e f StatusSendFailed (cmd_handle c) None s; Some (StatusSendFailed, s) })
        else Some (StatusSuccess, s)
      })"

definition Mid360s_SendLoggerCommand :: "invoker \<Rightarrow> env \<Rightarrow> Command \<Rightarrow> general \<Rightarrow> (int \<times> general) option" where
  "Mid360s_SendLoggerCommand call e c s =
     (if cmd_type (packet c) = kCommandTypeAck then Some (StatusFailure, s)
      else do {
        buf \<leftarrow> pack_command e c;
        let s = emit (EvLogSend kLivoxLidarTypeMid360s (lidar_ip c) kMid360sLidarLogPort buf) s;
        if net_send e kLivoxLidarTypeMid360s (cmd_handle c) buf < 0
        then (case cb c of
            None \<Rightarrow> Some (StatusSendFailed, s)
          | Some f \<Rightarrow> do { s \<leftarrow> call e f StatusSendFailed (cmd_handle c) None s; Some (StatusSendFailed, s) })
        else Some (StatusSuccess, s)
      })"

definition Mid360s_SetViewLidar :: "invoker \<Rightarrow> env \<Rightarrow> ViewLidarIpInfo \<Rightarrow> general \<Rightarrow> general option" where
  "Mid360s_SetViewLidar call e v s = do {
     (ok, req_buff, req_len) \<leftarrow> BuildUpdateViewLidarCfgRequest v req_buffer 0;
     if \<not> ok then Some s else do {
       let (q, s) = next_seq s;
       let c = mk_Command q kCommandIDLidarWorkModeControl kCommandTypeCmd kHostSend (Some req_buff) req_len
         (vl_handle v) (ntoa e (vl_handle v)) (Some (UpdateLidar Mid360s));
       (_, s) \<leftarrow> Mid360s_SendCommand_port call e c (vl_lidar_cmd_port v) s;
       Some s
     }}"

definition Mid360s_SetCustomLidar :: "invoker \<Rightarrow> env \<Rightarrow> u32 \<Rightarrow> u16 \<Rightarrow> LivoxLidarCfg \<Rightarrow> general \<Rightarrow> general option" where
  "Mid360s_SetCustomLidar call e h lidar_cmd_port lidar_cfg s = do {
     (ok, req_buff, req_len) \<leftarrow> BuildUpdateMid360LidarCfgRequest lidar_cfg req_buffer 0;
     if \<not> ok then Some s else do {
       let (q, s) = next_seq s;
       let c = mk_Command q kCommandIDLidarWorkModeControl kCommandTypeCmd kHostSend (Some req_buff) req_len
         h (ntoa e h) (Some (UpdateLidar Mid360s));
       (_, s) \<leftarrow> Mid360s_SendCommand_port call e c lidar_cmd_port s;
       Some s
     }}"

definition Mid360s_UpdateLidarCfg_view :: "invoker \<Rightarrow> env \<Rightarrow> dev_handler \<Rightarrow> ViewLidarIpInfo \<Rightarrow> general \<Rightarrow> general option" where
  "Mid360s_UpdateLidarCfg_view call e d v s =
     (if vl_handle v \<in> set (h_devices d) then Some s else Mid360s_SetViewLidar call e v s)"

definition Mid360s_UpdateLidarCfg :: "invoker \<Rightarrow> env \<Rightarrow> dev_handler \<Rightarrow> u32 \<Rightarrow> u16 \<Rightarrow> general \<Rightarrow> general option" where
  "Mid360s_UpdateLidarCfg call e d h lidar_cmd_port s =
     (if h \<in> set (h_devices d) then Some s
      else (case h_custom_lidars d h of
          Some lidar_cfg \<Rightarrow> Mid360s_SetCustomLidar call e h lidar_cmd_port lidar_cfg s
        | None \<Rightarrow> Some s))"

definition Mid360s_AddDevice :: "u32 \<Rightarrow> general \<Rightarrow> general" where
  "Mid360s_AddDevice h s =
     (case handlers s kLivoxLidarTypeMid360s of
        None \<Rightarrow> s
      | Some d \<Rightarrow> s\<lparr>handlers := (handlers s)(kLivoxLidarTypeMid360s \<mapsto>
          d\<lparr>h_devices := List.insert h (h_devices d)\<rparr>)\<rparr>)"

definition Mid360s_UpdateLidarCallback :: "int \<Rightarrow> u32 \<Rightarrow> bytes option \<Rightarrow> general \<Rightarrow> general option" where
  "Mid360s_UpdateLidarCallback status h response s =
     (if status \<noteq> StatusSuccess then Some s
      else (case response of
          None \<Rightarrow> Some s
        | Some r \<Rightarrow> do {
            ret_code \<leftarrow> rd r 0 1;
            ok \<leftarrow> (if hd ret_code = 0 then map_option (\<lambda>k. le_dec k = (0 :: u16)) (rd r 1 2) else Some False);
            if ok then LivoxLidarInfoChange h (Mid360s_AddDevice h s) else Some s
          }))"

definition Mid360s_IsStatusException :: "Command \<Rightarrow> bool option" where
  "Mid360s_IsStatusException c =
     (if data_null c then Some False
      else if cmd_id (packet c) \<noteq> kCommandIDLidarWorkModeControl then Some False
      else do { ret_code \<leftarrow> rd (cp_data (packet c)) 0 1; Some (hd ret_code = 0) })"

section \<open>Virtual dispatch\<close>

lemmas handler_defs =
  Hap_Init_view_def Hap_Init_def Hap_OnCommandAck_def Hap_OnCommandCmd_def Hap_Handle_def Hap_SendCommand_port_def Hap_SendCommand_def Hap_SendLoggerCommand_def Hap_SetViewLidar_def Hap_SetCustomLidar_def Hap_UpdateLidarCfg_view_def Hap_UpdateLidarCfg_def Hap_AddDevice_def Hap_UpdateLidarCallback_def Hap_IsStatusException_def
  Mid360_Init_view_def Mid360_Init_def Mid360_OnCommandAck_def Mid360_OnCommandCmd_def Mid360_Handle_def Mid360_SendCommand_port_def Mid360_SendCommand_def Mid360_SendLoggerCommand_def Mid360_SetViewLidar_def Mid360_SetCustomLidar_def Mid360_UpdateLidarCfg_view_def Mid360_UpdateLidarCfg_def Mid360_AddDevice_def Mid360_UpdateLidarCallback_def Mid360_IsStatusException_def
  Mid360s_Init_view_def Mid360s_Init_def Mid360s_OnCommandAck_def Mid360s_OnCommandCmd_def Mid360s_Handle_def Mid360s_SendCommand_port_def Mid360s_SendCommand_def Mid360s_SendLoggerCommand_def Mid360s_SetViewLidar_def Mid360s_SetCustomLidar_def Mid360s_UpdateLidarCfg_view_def Mid360s_UpdateLidarCfg_def Mid360s_AddDevice_def Mid360s_UpdateLidarCallback_def Mid360s_IsStatusException_def

fun on_class :: "'a \<Rightarrow> 'a \<Rightarrow> 'a \<Rightarrow> dev_class \<Rightarrow> 'a" where
  "on_class a b c Hap = a"
| "on_class a b c Mid360 = b"
| "on_class a b c Mid360s = c"

lemma Init_dispatch:
  "dev_Init cfgs d = on_class (Hap_Init cfgs d) (Mid360_Init cfgs d) (Mid360s_Init cfgs d) (h_class d)"
  by (cases "h_class d") (auto simp: dev_Init_def handler_defs fun_eq_iff split: option.splits
      intro!: arg_cong [of _ _ "\<lambda>f. d\<lparr>h_custom_lidars := f\<rparr>"])

lemma Handle_dispatch:
  "dev_Handle call k e h port c s =
     on_class (Hap_Handle call e h port c s) (Mid360_Handle call e h port c s) (Mid360s_Handle call e h port c s) k"
  by (cases k) (simp_all add: dev_Handle_def dev_OnCommandAck_def dev_OnCommandCmd_def handler_defs)

lemma SendCommand_port_dispatch:
  "dev_SendCommand_port call k e c port s = on_class (Hap_SendCommand_port call e c port s)
     (Mid360_SendCommand_port call e c port s) (Mid360s_SendCommand_port call e c port s) k"
  by (cases k) (simp_all add: dev_SendCommand_port_def transmit_def handler_defs Let_def)

lemma SendCommand_dispatch:
  "dev_SendCommand call k e c s = on_class (Hap_SendCommand call e c s)
     (Mid360_SendCommand call e c s) (Mid360s_SendCommand call e c s) k"
  by (cases k) (simp_all add: dev_SendCommand_def transmit_def handler_defs Let_def)

lemma SendLoggerCommand_dispatch:
  "dev_SendLoggerCommand call k e c s = on_class (Hap_SendLoggerCommand call e c s)
     (Mid360_SendLoggerCommand call e c s) (Mid360s_SendLoggerCommand call e c s) k"
  by (cases k) (simp_all add: dev_SendLoggerCommand_def transmit_def handler_defs Let_def)

lemma UpdateLidarCfg_view_dispatch:
  "dev_UpdateLidarCfg_view call e d v s = on_class (Hap_UpdateLidarCfg_view call e d v s)
     (Mid360_UpdateLidarCfg_view call e d v s) (Mid360s_UpdateLidarCfg_view call e d v s) (h_class d)"
  by (cases "h_class d") (simp_all add: dev_UpdateLidarCfg_view_def dev_SetViewLidar_def SendCommand_port_dispatch
      Hap_UpdateLidarCfg_view_def Mid360_UpdateLidarCfg_view_def Mid360s_UpdateLidarCfg_view_def
      Hap_SetViewLidar_def Mid360_SetViewLidar_def Mid360s_SetViewLidar_def Let_def cong: if_cong)

lemma UpdateLidarCfg_dispatch:
  "dev_UpdateLidarCfg call e d h port s = on_class (Hap_UpdateLidarCfg call e d h port s)
     (Mid360_UpdateLidarCfg call e d h port s) (Mid360s_UpdateLidarCfg call e d h port s) (h_class d)"
  by (cases "h_class d") (simp_all add: dev_UpdateLidarCfg_def dev_SetCustomLidar_def SendCommand_port_dispatch
      Hap_UpdateLidarCfg_def Mid360_UpdateLidarCfg_def Mid360s_UpdateLidarCfg_def
      Hap_SetCustomLidar_def Mid360_SetCustomLidar_def Mid360s_SetCustomLidar_def Let_def split: option.split cong: if_cong)

lemma AddDevice_dispatch:
  "dev_AddDevice k h s = on_class (Hap_AddDevice h s) (Mid360_AddDevice h s) (Mid360s_AddDevice h s) k"
  by (cases k) (simp_all add: dev_AddDevice_def handler_defs split: option.split)

lemma UpdateLidarCallback_dispatch:
  "UpdateLidarCallback k status h r s = on_class (Hap_UpdateLidarCallback status h r s)
     (Mid360_UpdateLidarCallback status h r s) (Mid360s_UpdateLidarCallback status h r s) k"
  by (cases k; cases r) (simp_all add: UpdateLidarCallback_def AddDevice_dispatch
      Hap_UpdateLidarCallback_def Mid360_UpdateLidarCallback_def Mid360s_UpdateLidarCallback_def cong: if_cong)

text \<open>The operations that the command layer calls through the base class, indexed by the class of the
  handler, are those that the three handler files define: ports, device types, configuration
  requests, the registration before sending and the reaction to a refused configuration included.\<close>

theorem virtual_dispatch:
  "dev_Init cfgs d = on_class Hap_Init Mid360_Init Mid360s_Init (h_class d) cfgs d \<and>
   dev_Handle call k e h port c s = on_class Hap_Handle Mid360_Handle Mid360s_Handle k call e h port c s \<and>
   dev_SendCommand call k e c s = on_class Hap_SendCommand Mid360_SendCommand Mid360s_SendCommand k call e c s \<and>
   dev_SendLoggerCommand call k e c s =
     on_class Hap_SendLoggerCommand Mid360_SendLoggerCommand Mid360s_SendLoggerCommand k call e c s \<and>
   dev_UpdateLidarCfg_view call e d v s =
     on_class Hap_UpdateLidarCfg_view Mid360_UpdateLidarCfg_view Mid360s_UpdateLidarCfg_view (h_class d) call e d v s \<and>
   dev_UpdateLidarCfg call e d h port s =
     on_class Hap_UpdateLidarCfg Mid360_UpdateLidarCfg Mid360s_UpdateLidarCfg (h_class d) call e d h port s \<and>
   UpdateLidarCallback k status h r s =
     on_class Hap_UpdateLidarCallback Mid360_UpdateLidarCallback Mid360s_UpdateLidarCallback k status h r s"
  unfolding Init_dispatch Handle_dispatch SendCommand_dispatch SendLoggerCommand_dispatch
    UpdateLidarCfg_view_dispatch UpdateLidarCfg_dispatch UpdateLidarCallback_dispatch
  by (cases k; cases "h_class d") simp_all

end
