(* ===== verification/Lvx_Command.thy ===== *)
theory Lvx_Command
  imports Lvx_General
begin

text \<open>
  The commands of the Livox SDK API (\<^verbatim>\<open>command_handler/command_impl.cpp\<close>): each lays out a request in a
  zeroed buffer and hands it to \<open>SendCommand\<close> of the general handler. The setters with one key share
  one layout, here \<open>send_kv\<close>. Enumeration arguments are the bytes they are stored as; floating point
  fields are the 32-bit images that are copied.
\<close>

section \<open>One key, one value\<close>

definition send_kv :: "invoker \<Rightarrow> env \<Rightarrow> u32 \<Rightarrow> u16 \<Rightarrow> bytes \<Rightarrow> callback option \<Rightarrow> general
    \<Rightarrow> (int \<times> general) option" where
  "send_kv call e h key val c s = do {
     b \<leftarrow> wr req_buffer 0 (le_enc 2 (1 :: u16));
     b \<leftarrow> put_key b 4 key (of_nat (length val));
     b \<leftarrow> wr b 8 val;
     SendCommand call e h kCommandIDLidarWorkModeControl (Some b) (of_nat (8 + length val)) c s
   }"

definition SendSingleControlCommand :: "invoker \<Rightarrow> env \<Rightarrow> u32 \<Rightarrow> callback option \<Rightarrow> u16 \<Rightarrow> u8 \<Rightarrow> general
    \<Rightarrow> (int \<times> general) option" where
  "SendSingleControlCommand call e h c key v s = send_kv call e h key [v] c s"

record InstallAttitude =
  roll_deg :: u32
  pitch_deg :: u32
  yaw_deg :: u32
  att_x :: u32
  att_y :: u32
  att_z :: u32

definition attitude_bytes :: "InstallAttitude \<Rightarrow> bytes" where
  "attitude_bytes a = le_enc 4 (roll_deg a) @ le_enc 4 (pitch_deg a) @ le_enc 4 (yaw_deg a)
     @ le_enc 4 (att_x a) @ le_enc 4 (att_y a) @ le_enc 4 (att_z a)"

record FovCfg =
  yaw_start :: u32
  yaw_stop :: u32
  pitch_start :: u32
  pitch_stop :: u32
  fov_rsvd :: u32

definition fov_bytes :: "FovCfg \<Rightarrow> bytes" where
  "fov_bytes f = le_enc 4 (yaw_start f) @ le_enc 4 (yaw_stop f) @ le_enc 4 (pitch_start f)
     @ le_enc 4 (pitch_stop f) @ le_enc 4 (fov_rsvd f)"

record FuncIOCfg =
  in0 :: u8
  int1 :: u8
  out0 :: u8
  out1 :: u8

record LogParam =
  log_send_method :: u8
  log_id :: u16
  log_frequency :: u16
  is_save_setting :: u8
  check_code :: u8

definition log_bytes :: "LogParam \<Rightarrow> bytes" where
  "log_bytes p = [log_send_method p] @ le_enc 2 (log_id p) @ le_enc 2 (log_frequency p)
     @ [is_save_setting p, check_code p]"

definition SetLivoxLidarPclDataType :: "invoker \<Rightarrow> env \<Rightarrow> u32 \<Rightarrow> u8 \<Rightarrow> callback option \<Rightarrow> general \<Rightarrow> (int \<times> general) option" where
  "SetLivoxLidarPclDataType call e h data_type c s = send_kv call e h 0x0000 [data_type] c s"

definition SetLivoxLidarScanPattern :: "invoker \<Rightarrow> env \<Rightarrow> u32 \<Rightarrow> u8 \<Rightarrow> callback option \<Rightarrow> general \<Rightarrow> (int \<times> general) option" where
  "SetLivoxLidarScanPattern call e h scan_pattern c s = send_kv call e h 0x0001 [scan_pattern] c s"

definition SetLivoxLidarDualEmit :: "invoker \<Rightarrow> env \<Rightarrow> u32 \<Rightarrow> bool \<Rightarrow> callback option \<Rightarrow> general \<Rightarrow> (int \<times> general) option" where
  "SetLivoxLidarDualEmit call e h enable c s = send_kv call e h 0x0002 [if enable then 0x01 else 0x00] c s"

definition EnableLivoxLidarPointSend :: "invoker \<Rightarrow> env \<Rightarrow> u32 \<Rightarrow> callback option \<Rightarrow> general \<Rightarrow> (int \<times> general) option" where
  "EnableLivoxLidarPointSend call e h c s = send_kv call e h 0x0003 [0x00] c s"

definition DisableLivoxLidarPointSend :: "invoker \<Rightarrow> env \<Rightarrow> u32 \<Rightarrow> callback option \<Rightarrow> general \<Rightarrow> (int \<times> general) option" where
  "DisableLivoxLidarPointSend call e h c s = send_kv call e h 0x0003 [0x01] c s"

definition SetLivoxLidarInstallAttitude :: "invoker \<Rightarrow> env \<Rightarrow> u32 \<Rightarrow> InstallAttitude \<Rightarrow> callback option \<Rightarrow> general \<Rightarrow> (int \<times> general) option" where
  "SetLivoxLidarInstallAttitude call e h a c s = send_kv call e h 0x0012 (attitude_bytes a) c s"

definition SetLivoxLidarFovCfg0 :: "invoker \<Rightarrow> env \<Rightarrow> u32 \<Rightarrow> FovCfg \<Rightarrow> callback option \<Rightarrow> general \<Rightarrow> (int \<times> general) option" where
  "SetLivoxLidarFovCfg0 call e h f c s = send_kv call e h 0x0015 (fov_bytes f) c s"

definition SetLivoxLidarFovCfg1 :: "invoker \<Rightarrow> env \<Rightarrow> u32 \<Rightarrow> FovCfg \<Rightarrow> callback option \<Rightarrow> general \<Rightarrow> (int \<times> general) option" where
  "SetLivoxLidarFovCfg1 call e h f c s = send_kv call e h 0x0016 (fov_bytes f) c s"

definition EnableLivoxLidarFov :: "invoker \<Rightarrow> env \<Rightarrow> u32 \<Rightarrow> u8 \<Rightarrow> callback option \<Rightarrow> general \<Rightarrow> (int \<times> general) option" where
  "EnableLivoxLidarFov call e h fov_en c s = send_kv call e h 0x0017 [fov_en] c s"

definition DisableLivoxLidarFov :: "invoker \<Rightarrow> env \<Rightarrow> u32 \<Rightarrow> callback option \<Rightarrow> general \<Rightarrow> (int \<times> general) option" where
  "DisableLivoxLidarFov call e h c s = send_kv call e h 0x0017 [0x00] c s"

definition SetLivoxLidarDetectMode :: "invoker \<Rightarrow> env \<Rightarrow> u32 \<Rightarrow> u8 \<Rightarrow> callback option \<Rightarrow> general \<Rightarrow> (int \<times> general) option" where
  "SetLivoxLidarDetectMode call e h mode c s = send_kv call e h 0x0018 [mode] c s"

definition SetLivoxLidarFuncIOCfg :: "invoker \<Rightarrow> env \<Rightarrow> u32 \<Rightarrow> FuncIOCfg \<Rightarrow> callback option \<Rightarrow> general \<Rightarrow> (int \<times> general) option" where
  "SetLivoxLidarFuncIOCfg call e h f c s = send_kv call e h 0x0019 [in0 f, int1 f, out0 f, out1 f] c s"

definition SetLivoxLidarBlindSpot :: "invoker \<Rightarrow> env \<Rightarrow> u32 \<Rightarrow> u32 \<Rightarrow> callback option \<Rightarrow> general \<Rightarrow> (int \<times> general) option" where
  "SetLivoxLidarBlindSpot call e h blind_spot c s = send_kv call e h 0x0013 (le_enc 4 blind_spot) c s"

definition SetLivoxLidarWorkMode :: "invoker \<Rightarrow> env \<Rightarrow> u32 \<Rightarrow> u8 \<Rightarrow> callback option \<Rightarrow> general \<Rightarrow> (int \<times> general) option" where
  "SetLivoxLidarWorkMode call e h work_mode c s = send_kv call e h 0x001A [work_mode] c s"

definition EnableLivoxLidarGlassHeat :: "invoker \<Rightarrow> env \<Rightarrow> u32 \<Rightarrow> callback option \<Rightarrow> general \<Rightarrow> (int \<times> general) option" where
  "EnableLivoxLidarGlassHeat call e h c s = send_kv call e h 0x001B [0x01] c s"

definition DisableLivoxLidarGlassHeat :: "invoker \<Rightarrow> env \<Rightarrow> u32 \<Rightarrow> callback option \<Rightarrow> general \<Rightarrow> (int \<times> general) option" where
  "DisableLivoxLidarGlassHeat call e h c s = send_kv call e h 0x001B [0x00] c s"

definition SetLivoxLidarGlassHeat :: "invoker \<Rightarrow> env \<Rightarrow> u32 \<Rightarrow> u8 \<Rightarrow> callback option \<Rightarrow> general \<Rightarrow> (int \<times> general) option" where
  "SetLivoxLidarGlassHeat call e h glass_heat c s = send_kv call e h 0x001B [glass_heat] c s"

definition EnableLivoxLidarImuData :: "invoker \<Rightarrow> env \<Rightarrow> u32 \<Rightarrow> callback option \<Rightarrow> general \<Rightarrow> (int \<times> general) option" where
  "EnableLivoxLidarImuData call e h c s = send_kv call e h 0x001C [0x01] c s"

definition DisableLivoxLidarImuData :: "invoker \<Rightarrow> env \<Rightarrow> u32 \<Rightarrow> callback option \<Rightarrow> general \<Rightarrow> (int \<times> general) option" where
  "DisableLivoxLidarImuData call e h c s = send_kv call e h 0x001C [0x00] c s"

definition EnableLivoxLidarFusaFunciont :: "invoker \<Rightarrow> env \<Rightarrow> u32 \<Rightarrow> callback option \<Rightarrow> general \<Rightarrow> (int \<times> general) option" where
  "EnableLivoxLidarFusaFunciont call e h c s = send_kv call e h 0x001D [0x01] c s"

definition DisableLivoxLidarFusaFunciont :: "invoker \<Rightarrow> env \<Rightarrow> u32 \<Rightarrow> callback option \<Rightarrow> general \<Rightarrow> (int \<times> general) option" where
  "DisableLivoxLidarFusaFunciont call e h c s = send_kv call e h 0x001D [0x00] c s"

definition SetLivoxLidarPpsSyncMode :: "invoker \<Rightarrow> env \<Rightarrow> u32 \<Rightarrow> u8 \<Rightarrow> callback option \<Rightarrow> general \<Rightarrow> (int \<times> general) option" where
  "SetLivoxLidarPpsSyncMode call e h pps_sync_mode c s = send_kv call e h 0x0026 [pps_sync_mode] c s"

definition SetLivoxLidarEscMode :: "invoker \<Rightarrow> env \<Rightarrow> u32 \<Rightarrow> u8 \<Rightarrow> callback option \<Rightarrow> general \<Rightarrow> (int \<times> general) option" where
  "SetLivoxLidarEscMode call e h esc_mode c s = send_kv call e h 0x0021 [esc_mode] c s"

definition SetLivoxLidarLogParam :: "invoker \<Rightarrow> env \<Rightarrow> u32 \<Rightarrow> LogParam \<Rightarrow> callback option \<Rightarrow> general \<Rightarrow> (int \<times> general) option" where
  "SetLivoxLidarLogParam call e h p c s = send_kv call e h 0x7FFF (log_bytes p) c s"

definition SetLivoxLidarWorkModeAfterBoot :: "invoker \<Rightarrow> env \<Rightarrow> u32 \<Rightarrow> u8 \<Rightarrow> callback option \<Rightarrow> general \<Rightarrow> (int \<times> general) option" where
  "SetLivoxLidarWorkModeAfterBoot call e h work_mode c s = send_kv call e h 0x0020 [work_mode] c s"

definition StartForcedHeating :: "invoker \<Rightarrow> env \<Rightarrow> u32 \<Rightarrow> callback option \<Rightarrow> general \<Rightarrow> (int \<times> general) option" where
  "StartForcedHeating call e h c s = SendSingleControlCommand call e h c 0x001E 0x01 s"

definition StopForcedHeating :: "invoker \<Rightarrow> env \<Rightarrow> u32 \<Rightarrow> callback option \<Rightarrow> general \<Rightarrow> (int \<times> general) option" where
  "StopForcedHeating call e h c s = SendSingleControlCommand call e h c 0x001E 0x00 s"

section \<open>Addresses\<close>

text \<open>A builder that fails ends the command with \<open>-1\<close>.\<close>

definition send_built :: "invoker \<Rightarrow> env \<Rightarrow> u32 \<Rightarrow> built \<Rightarrow> callback option \<Rightarrow> general \<Rightarrow> (int \<times> general) option" where
  "send_built call e h r c s = do {
     (ok, b, n) \<leftarrow> r;
     if \<not> ok then Some (-1, s)
     else SendCommand call e h kCommandIDLidarWorkModeControl (Some b) n c s
   }"

definition SetLivoxLidarIp :: "invoker \<Rightarrow> env \<Rightarrow> u32 \<Rightarrow> LivoxLidarIpInfo \<Rightarrow> callback option \<Rightarrow> general \<Rightarrow> (int \<times> general) option" where
  "SetLivoxLidarIp call e h i c s = send_built call e h (BuildSetLidarIPInfoRequest i req_buffer 0) c s"

definition SetLivoxLidarStateInfoHostIPCfg :: "invoker \<Rightarrow> env \<Rightarrow> u32 \<Rightarrow> HostIpInfo \<Rightarrow> callback option \<Rightarrow> general \<Rightarrow> (int \<times> general) option" where
  "SetLivoxLidarStateInfoHostIPCfg call e h i c s = send_built call e h (BuildSetHostStateInfoIPCfgRequest i req_buffer 0) c s"

definition SetLivoxLidarPointDataHostIPCfg :: "invoker \<Rightarrow> env \<Rightarrow> u32 \<Rightarrow> HostIpInfo \<Rightarrow> callback option \<Rightarrow> general \<Rightarrow> (int \<times> general) option" where
  "SetLivoxLidarPointDataHostIPCfg call e h i c s = send_built call e h (BuildSetHostPointDataIPInfoRequest i req_buffer 0) c s"

definition SetLivoxLidarImuDataHostIPCfg :: "invoker \<Rightarrow> env \<Rightarrow> u32 \<Rightarrow> HostIpInfo \<Rightarrow> callback option \<Rightarrow> general \<Rightarrow> (int \<times> general) option" where
  "SetLivoxLidarImuDataHostIPCfg call e h i c s = send_built call e h (BuildSetHostImuDataIPInfoRequest i req_buffer 0) c s"

section \<open>Queries\<close>

text \<open>The keys of a device type, in the order of the source; the \<^verbatim>\<open>std::set\<close> that holds them sorts them.\<close>

definition GetQueryLidarInternalInfoKeys :: "u32 \<Rightarrow> general \<Rightarrow> u16 list option" where
  "GetQueryLidarInternalInfoKeys h s =
     (case device_dev_type s h of
        None \<Rightarrow> None
      | Some t \<Rightarrow>
          if t = kLivoxLidarTypeIndustrialHAP then Some (sort (remdups
      [0x0000, 0x0001, 0x0002, 0x0003, 0x0004, 0x0006, 0x0007, 0x0009, 0x0012,
       0x0013, 0x001A, 0x001B, 0x001C, 0x001D, 0x001E, 0x8000, 0x8001, 0x8002,
       0x8003, 0x8004, 0x8005, 0x8006, 0x800D, 0x800E, 0x800F, 0x8010, 0x8012]))
          else if t = kLivoxLidarTypeMid360 then Some (sort (remdups
      [0x0000, 0x0001, 0x0004, 0x0005, 0x0006, 0x0007, 0x0012, 0x0015, 0x0016,
       0x0017, 0x0018, 0x0019, 0x001A, 0x001C, 0x8000, 0x8001, 0x8002, 0x8003,
       0x8004, 0x8005, 0x8006, 0x8007, 0x8008, 0x8009, 0x800A, 0x800B, 0x800C,
       0x800E, 0x8010, 0x8011]))
          else if t = kLivoxLidarTypeMid360s then Some (sort (remdups
      [0x0000, 0x0001, 0x0004, 0x0005, 0x0006, 0x0007, 0x0012, 0x0015, 0x0016,
       0x0017, 0x0018, 0x0019, 0x001A, 0x001C, 0x0021, 0x8000, 0x8001, 0x8002,
       0x8003, 0x8004, 0x8005, 0x8006, 0x8007, 0x8008, 0x8009, 0x800A, 0x800B,
       0x800C, 0x800E, 0x8010, 0x8011]))
          else None)"

fun put_keys :: "bytes \<Rightarrow> nat \<Rightarrow> u16 list \<Rightarrow> bytes option" where
  "put_keys b off [] = Some b"
| "put_keys b off (k # ks) = do { b \<leftarrow> wr b off (le_enc 2 k); put_keys b (off + 2) ks }"

definition send_query :: "invoker \<Rightarrow> env \<Rightarrow> u32 \<Rightarrow> u16 list \<Rightarrow> callback option \<Rightarrow> general \<Rightarrow> (int \<times> general) option" where
  "send_query call e h ks c s = do {
     b \<leftarrow> wr req_buffer 0 (le_enc 2 (of_nat (length ks) :: u16));
     b \<leftarrow> put_keys b 4 ks;
     SendCommand call e h kCommandIDLidarGetInternalInfo (Some b) (of_nat (4 + 2 * length ks)) c s
   }"

definition QueryLivoxLidarInternalInfo :: "invoker \<Rightarrow> env \<Rightarrow> u32 \<Rightarrow> callback option \<Rightarrow> general \<Rightarrow> (int \<times> general) option" where
  "QueryLivoxLidarInternalInfo call e h c s =
     (case GetQueryLidarInternalInfoKeys h s of
        None \<Rightarrow> Some (-7, s)
      | Some ks \<Rightarrow> send_query call e h ks c s)"

definition QueryLivoxLidarFwType :: "invoker \<Rightarrow> env \<Rightarrow> u32 \<Rightarrow> callback option \<Rightarrow> general \<Rightarrow> (int \<times> general) option" where
  "QueryLivoxLidarFwType call e h c s = send_query call e h [0x8010] c s"

definition QueryLivoxLidarFirmwareVer :: "invoker \<Rightarrow> env \<Rightarrow> u32 \<Rightarrow> callback option \<Rightarrow> general \<Rightarrow> (int \<times> general) option" where
  "QueryLivoxLidarFirmwareVer call e h c s = send_query call e h [0x8002] c s"

section \<open>Other commands\<close>

definition LivoxLidarStartUpgrade :: "invoker \<Rightarrow> env \<Rightarrow> u32 \<Rightarrow> bytes option \<Rightarrow> u16 \<Rightarrow> callback option \<Rightarrow> general \<Rightarrow> (int \<times> general) option" where
  "LivoxLidarStartUpgrade call e h d n c s = SendCommand call e h 0x0400 d n c s"

definition LivoxLidarXferFirmware :: "invoker \<Rightarrow> env \<Rightarrow> u32 \<Rightarrow> bytes option \<Rightarrow> u16 \<Rightarrow> callback option \<Rightarrow> general \<Rightarrow> (int \<times> general) option" where
  "LivoxLidarXferFirmware call e h d n c s = SendCommand call e h 0x0401 d n c s"

definition LivoxLidarCompleteXferFirmware :: "invoker \<Rightarrow> env \<Rightarrow> u32 \<Rightarrow> bytes option \<Rightarrow> u16 \<Rightarrow> callback option \<Rightarrow> general \<Rightarrow> (int \<times> general) option" where
  "LivoxLidarCompleteXferFirmware call e h d n c s = SendCommand call e h 0x0402 d n c s"

definition LivoxLidarGetUpgradeProgress :: "invoker \<Rightarrow> env \<Rightarrow> u32 \<Rightarrow> bytes option \<Rightarrow> u16 \<Rightarrow> callback option \<Rightarrow> general \<Rightarrow> (int \<times> general) option" where
  "LivoxLidarGetUpgradeProgress call e h d n c s = SendCommand call e h 0x0403 d n c s"

definition LivoxLidarRequestFirmwareInfo :: "invoker \<Rightarrow> env \<Rightarrow> u32 \<Rightarrow> callback option \<Rightarrow> general \<Rightarrow> (int \<times> general) option" where
  "LivoxLidarRequestFirmwareInfo call e h c s = SendCommand call e h 0xFF None 0 c s"

definition LivoxLidarRequestReboot :: "invoker \<Rightarrow> env \<Rightarrow> u32 \<Rightarrow> callback option \<Rightarrow> general \<Rightarrow> (int \<times> general) option" where
  "LivoxLidarRequestReboot call e h c s = SendCommand call e h 0x0200 (Some (le_enc 2 (100 :: u16))) 2 c s"

text \<open>The reset request is not initialised before the serial number is copied into it; \<open>junk\<close> is what it
  holds.\<close>

definition LivoxLidarRequestReset :: "bytes \<Rightarrow> invoker \<Rightarrow> env \<Rightarrow> u32 \<Rightarrow> callback option \<Rightarrow> general \<Rightarrow> (int \<times> general) option" where
  "LivoxLidarRequestReset junk call e h c s =
     (case devices s h of
        None \<Rightarrow> Some (StatusChannelNotExist, s)
      | Some d \<Rightarrow>
          if length (di_sn d) > 16 then Some (StatusChannelNotExist, s)
          else do {
            b \<leftarrow> wr junk 0 (map (\<lambda>c. of_nat (of_char c)) (di_sn d));
            SendCommand call e h kCommandIDLidarResetDevice (Some b) 16 c s
          })"

section \<open>Time from an RMC sentence\<close>

text \<open>\<open>Split_loop\<close> is the loop over \<^verbatim>\<open>std::getline\<close>: a separator at the very end opens no further part.\<close>

function Split_loop :: "char \<Rightarrow> string \<Rightarrow> string list" where
  "Split_loop p s =
     (if s = [] then []
      else if p \<in> set s then takeWhile (\<lambda>c. c \<noteq> p) s # Split_loop p (tl (dropWhile (\<lambda>c. c \<noteq> p) s))
      else [s])"
  by pat_completeness auto
termination
proof (relation "measure (\<lambda>(_, s). length s)")
  fix p :: char and s assume "s \<noteq> []" "p \<in> set s"
  then have "dropWhile (\<lambda>c. c \<noteq> p) s \<noteq> []" by (simp add: dropWhile_eq_Nil_conv)
  moreover have "length (dropWhile (\<lambda>c. c \<noteq> p) s) \<le> length s" by (rule length_dropWhile_le)
  ultimately show "((p, tl (dropWhile (\<lambda>c. c \<noteq> p) s)), p, s) \<in> measure (\<lambda>(_, s). length s)"
    by (cases "dropWhile (\<lambda>c. c \<noteq> p) s") auto
qed simp

declare Split_loop.simps [simp del]

definition Split :: "string \<Rightarrow> char \<Rightarrow> string list" where
  "Split s p = Split_loop p s"

text \<open>\<open>to_ts\<close> is \<^verbatim>\<open>StringToTimestamp\<close>, which rests on the locale and time zone of the host. \<^term>\<open>None\<close> is an
  access behind the last field.\<close>

definition ParseGPRMC :: "(string \<Rightarrow> string \<Rightarrow> int) \<Rightarrow> string \<Rightarrow> u64 option" where
  "ParseGPRMC to_ts gprmc =
     (let v = Split gprmc (CHR '','') in
      if length v < 9 then Some 0
      else if length (v ! 1) < 6 then Some 0
      else if length v < 10 then None
      else if length (v ! 9) < 6 then Some 0
      else (let year = drop 4 (v ! 9); month = take 2 (drop 2 (v ! 9)); day = take 2 (v ! 9);
                hour = take 2 (v ! 1); minute = take 2 (drop 2 (v ! 1)); second = take 2 (drop 4 (v ! 1));
                time = ''20'' @ year @ ''-'' @ month @ ''-'' @ day @ '' '' @ hour @ '':'' @ minute @ '':'' @ second;
                time_ms = (word_of_int (to_ts ''%Y-%m-%d %H:%M:%S'' time * 1000) :: u64)
            in Some (time_ms * 1000 * 1000)))"

definition SetLivoxLidarRmcSyncTime :: "(string \<Rightarrow> string \<Rightarrow> int) \<Rightarrow> invoker \<Rightarrow> env \<Rightarrow> u32 \<Rightarrow> string \<Rightarrow> callback option
    \<Rightarrow> general \<Rightarrow> (int \<times> general) option" where
  "SetLivoxLidarRmcSyncTime to_ts call e h rmc c s = do {
     ns \<leftarrow> ParseGPRMC to_ts rmc;
     SendCommand call e h 0x0202 (Some ([2] @ le_enc 8 ns)) 9 c s
   }"

section \<open>What reaches the wire\<close>

text \<open>The sending path of a command that the network takes.\<close>

lemma SendCommand_sent:
  assumes "handler_of h s = Some d" and "unat len \<le> 1376" and "unat len \<le> length data"
    and "\<And>b. 0 \<le> net_send e (class_type (h_class d)) h b"
  shows "\<exists>b s' p n. SendCommand call e h cid (Some data) len c s = Some (StatusSuccess, s') \<and>
    trace s' = trace s @ [EvSend (class_type (h_class d)) (ntoa e h) (cmd_port (h_class d)) b] \<and>
    ParseCommStream (crc16 e) (crc32 e) b n = Some (Some p) \<and> unat n = length b \<and>
    cmd_id p = cid \<and> cmd_type p = kCommandTypeCmd \<and> data_len p = len \<and> take (unat len) (cp_data p) = take (unat len) data"
proof -
  let ?q = "fst (next_seq s)" and ?s = "snd (next_seq s)"
  let ?c = "mk_Command ?q cid kCommandTypeCmd kHostSend (Some data) len h (ntoa e h) c"
  let ?k = "h_class d"
  have "protocol (packet ?c) = kLidarSdk" "unat (data_len (packet ?c)) + 24 < 2 ^ 16"
    "unat (data_len (packet ?c)) + 24 \<le> unat (1400 :: u32)"
    "unat (1400 :: u32) \<le> length (replicate (kMaxCommandBufferSize + 1) (0 :: u8))"
    "unat (data_len (packet ?c)) \<le> length (cp_data (packet ?c))"
    using assms(2,3) by simp_all
  from frame_roundtrip [OF this, of "crc16 e" "crc32 e"]
  obtain f n p where f: "Pack (crc16 e) (crc32 e) (replicate (kMaxCommandBufferSize + 1) 0) 1400 (packet ?c) = Some (0, f, Some n)"
    "unat n = unat len + 24" "length f = kMaxCommandBufferSize + 1"
    "ParseCommStream (crc16 e) (crc32 e) (take (unat n) f) n = Some (Some p)"
    "cmd_id p = cid" "cmd_type p = kCommandTypeCmd" "data_len p = len"
    "take (unat len) (cp_data p) = take (unat len) data"
    by auto
  let ?b = "take (unat n) f"
  have b: "pack_command e ?c = Some ?b" using f(1) by (simp add: pack_command_def)
  let ?t = "if ?k = Hap then AddCommand e ?c ?s else ?s"
  have h: "handler_of h ?s = Some d" using assms(1) handler_of_cong [of ?s s h] by simp
  have "dev_SendCommand call ?k e ?c ?s = Some (StatusSuccess, emit (EvSend (class_type ?k) (ntoa e h) (cmd_port ?k) ?b) ?t)"
    using b assms(4) [of ?b] by (simp add: dev_SendCommand_def transmit_def not_less [symmetric])
  then have "SendCommand call e h cid (Some data) len c s
      = Some (StatusSuccess, AddCommand e ?c (emit (EvSend (class_type ?k) (ntoa e h) (cmd_port ?k) ?b) ?t))"
    using h by (simp add: SendCommand_def case_prod_unfold Let_def)
  moreover have "unat n = length ?b" using f(2,3) assms(2) by simp
  moreover have "trace (AddCommand e ?c (emit (EvSend (class_type ?k) (ntoa e h) (cmd_port ?k) ?b) ?t))
      = trace s @ [EvSend (class_type ?k) (ntoa e h) (cmd_port ?k) ?b]"
    by (cases "?k = Hap") simp_all
  ultimately show ?thesis using f(4-8) by blast
qed

text \<open>\<open>sent_as e h d s r kv\<close>: the result \<open>r\<close> of a command in state \<open>s\<close> is success, with one frame sent to
  the command port, which the protocol parses as a command whose data the device reads as \<open>kv\<close>.\<close>

definition sent_as :: "env \<Rightarrow> u32 \<Rightarrow> dev_handler \<Rightarrow> general \<Rightarrow> (int \<times> general) option \<Rightarrow> u16 \<times> bytes \<Rightarrow> bool" where
  "sent_as e h d s r kv \<longleftrightarrow> (\<exists>b s' p n. r = Some (StatusSuccess, s') \<and>
     trace s' = trace s @ [EvSend (class_type (h_class d)) (ntoa e h) (cmd_port (h_class d)) b] \<and>
     ParseCommStream (crc16 e) (crc32 e) b n = Some (Some p) \<and> unat n = length b \<and>
     cmd_id p = kCommandIDLidarWorkModeControl \<and> cmd_type p = kCommandTypeCmd \<and>
     read_request (take (unat (data_len p)) (cp_data p)) = Some [kv])"

lemma request_sent_as:
  assumes "handler_of h s = Some d" and "\<And>b. 0 \<le> net_send e (class_type (h_class d)) h b"
    and "length val \<le> 1000" and "n = 8 + length val"
  shows "sent_as e h d s (SendCommand call e h kCommandIDLidarWorkModeControl
    (Some (request_bytes [(key, val)] @ replicate m 0)) (of_nat n) c s) (key, val)"
proof -
  let ?r = "request_bytes [(key, val)]"
  let ?b = "?r @ replicate m 0"
  have l: "length ?r = n" using assms(4) by (simp add: build_bytes)
  have n: "unat (of_nat n :: u16) = n" using assms(3,4) by (intro unat_of_nat_u16) simp
  have "take n ?b = ?r" using l by simp
  moreover have "read_request ?r = Some [(key, val)]" using assms(3) by (intro read_request_bytes) simp_all
  ultimately have r: "read_request (take (unat (of_nat n :: u16)) ?b) = Some [(key, val)]" by (simp only: n)
  show ?thesis
    using SendCommand_sent [OF assms(1), of "of_nat n" ?b e call kCommandIDLidarWorkModeControl c]
      assms(2-4) n l r by (auto simp: sent_as_def simp del: of_nat_add) (metis)
qed

lemma send_kv_sent_as:
  assumes "handler_of h s = Some d" and "\<And>b. 0 \<le> net_send e (class_type (h_class d)) h b"
  shows "length val \<le> 1000 \<Longrightarrow> sent_as e h d s (send_kv call e h key val c s) (key, val)"
proof -
  assume len: "length val \<le> 1000"
  then have "send_kv call e h key val c s = SendCommand call e h kCommandIDLidarWorkModeControl
      (Some (request_bytes [(key, val)] @ replicate (1392 - length val) 0)) (of_nat (8 + length val)) c s"
    by (simp add: send_kv_def build_steps wr_zeros del: append_assoc append_Cons of_nat_add)
      (simp add: build_bytes)
  then show ?thesis using request_sent_as [OF assms len refl] by (simp del: of_nat_add)
qed

text \<open>Each switch of the API reaches the device as exactly its key with its one-byte value, from the
  buffer through the frame to what the device reads. Sending points is the one switch where zero means on.\<close>

theorem switches_on_the_wire:
  assumes "handler_of h s = Some d" and "\<And>b. 0 \<le> net_send e (class_type (h_class d)) h b"
  shows "sent_as e h d s (EnableLivoxLidarPointSend call e h c s) (0x0003, [0]) \<and>
    sent_as e h d s (DisableLivoxLidarPointSend call e h c s) (0x0003, [1]) \<and>
    sent_as e h d s (EnableLivoxLidarGlassHeat call e h c s) (0x001B, [1]) \<and>
    sent_as e h d s (DisableLivoxLidarGlassHeat call e h c s) (0x001B, [0]) \<and>
    sent_as e h d s (EnableLivoxLidarImuData call e h c s) (0x001C, [1]) \<and>
    sent_as e h d s (DisableLivoxLidarImuData call e h c s) (0x001C, [0]) \<and>
    sent_as e h d s (EnableLivoxLidarFusaFunciont call e h c s) (0x001D, [1]) \<and>
    sent_as e h d s (DisableLivoxLidarFusaFunciont call e h c s) (0x001D, [0]) \<and>
    sent_as e h d s (StartForcedHeating call e h c s) (0x001E, [1]) \<and>
    sent_as e h d s (StopForcedHeating call e h c s) (0x001E, [0]) \<and>
    sent_as e h d s (SetLivoxLidarDualEmit call e h v c s) (0x0002, [if v then 1 else 0])"
  using send_kv_sent_as [OF assms]
  by (simp add: EnableLivoxLidarPointSend_def DisableLivoxLidarPointSend_def EnableLivoxLidarGlassHeat_def
      DisableLivoxLidarGlassHeat_def EnableLivoxLidarImuData_def DisableLivoxLidarImuData_def
      EnableLivoxLidarFusaFunciont_def DisableLivoxLidarFusaFunciont_def StartForcedHeating_def
      StopForcedHeating_def SetLivoxLidarDualEmit_def SendSingleControlCommand_def)

theorem switches_on_the_wire_witness:
  "sent_as (example_env\<lparr>net_send := \<lambda>_ _ _. 33\<rparr>) 77 (mk_handler Mid360) example_general
     (EnableLivoxLidarImuData (invoke 1) (example_env\<lparr>net_send := \<lambda>_ _ _. 33\<rparr>) 77 (Some (User 1)) example_general)
     (0x001C, [1])"
  using switches_on_the_wire [OF example_general_handler, of "example_env\<lparr>net_send := \<lambda>_ _ _. 33\<rparr>" "invoke 1" "Some (User 1)"]
  by simp

text \<open>The same for the settings with a value: modes, blind spot, field of view, attitude, I/O and log
  parameters arrive as their keys with the little-endian image of the value.\<close>

lemma values_on_the_wire:
  assumes "handler_of h s = Some d" and "\<And>b. 0 \<le> net_send e (class_type (h_class d)) h b"
  shows "sent_as e h d s (SetLivoxLidarPclDataType call e h v c s) (0x0000, [v]) \<and>
    sent_as e h d s (SetLivoxLidarScanPattern call e h v c s) (0x0001, [v]) \<and>
    sent_as e h d s (SetLivoxLidarDetectMode call e h v c s) (0x0018, [v]) \<and>
    sent_as e h d s (SetLivoxLidarWorkMode call e h v c s) (0x001A, [v]) \<and>
    sent_as e h d s (SetLivoxLidarWorkModeAfterBoot call e h v c s) (0x0020, [v]) \<and>
    sent_as e h d s (SetLivoxLidarEscMode call e h v c s) (0x0021, [v]) \<and>
    sent_as e h d s (SetLivoxLidarPpsSyncMode call e h v c s) (0x0026, [v]) \<and>
    sent_as e h d s (SetLivoxLidarGlassHeat call e h v c s) (0x001B, [v]) \<and>
    sent_as e h d s (EnableLivoxLidarFov call e h v c s) (0x0017, [v]) \<and>
    sent_as e h d s (DisableLivoxLidarFov call e h c s) (0x0017, [0]) \<and>
    sent_as e h d s (SetLivoxLidarBlindSpot call e h x c s) (0x0013, le_enc 4 x) \<and>
    sent_as e h d s (SetLivoxLidarFovCfg0 call e h f c s) (0x0015, fov_bytes f) \<and>
    sent_as e h d s (SetLivoxLidarFovCfg1 call e h f c s) (0x0016, fov_bytes f) \<and>
    sent_as e h d s (SetLivoxLidarFuncIOCfg call e h i c s) (0x0019, [in0 i, int1 i, out0 i, out1 i]) \<and>
    sent_as e h d s (SetLivoxLidarInstallAttitude call e h a c s) (0x0012, attitude_bytes a) \<and>
    sent_as e h d s (SetLivoxLidarLogParam call e h l c s) (0x7FFF, log_bytes l)"
  by (intro conjI;
      simp add: SetLivoxLidarPclDataType_def SetLivoxLidarScanPattern_def SetLivoxLidarDetectMode_def
        SetLivoxLidarWorkMode_def SetLivoxLidarWorkModeAfterBoot_def SetLivoxLidarEscMode_def
        SetLivoxLidarPpsSyncMode_def SetLivoxLidarGlassHeat_def EnableLivoxLidarFov_def DisableLivoxLidarFov_def
        SetLivoxLidarBlindSpot_def SetLivoxLidarFovCfg0_def SetLivoxLidarFovCfg1_def SetLivoxLidarFuncIOCfg_def
        SetLivoxLidarInstallAttitude_def SetLivoxLidarLogParam_def;
      rule send_kv_sent_as [OF assms]; simp add: fov_bytes_def attitude_bytes_def log_bytes_def)

text \<open>And for the addresses of the lidar and of the host, when they are addresses.\<close>

lemma addresses_on_the_wire:
  assumes "handler_of h s = Some d" and "\<And>b. 0 \<le> net_send e (class_type (h_class d)) h b"
    and "IpToU8 (ip_addr a) CHR ''.'' = Some (True, ip)" and "IpToU8 (net_mask a) CHR ''.'' = Some (True, nmask)"
    and "IpToU8 (gw_addr a) CHR ''.'' = Some (True, gw)" and "IpToU8 (host_ip_addr q) CHR ''.'' = Some (True, hip)"
  shows "sent_as e h d s (SetLivoxLidarIp call e h a c s) (0x0004, ip @ nmask @ gw) \<and>
    sent_as e h d s (SetLivoxLidarStateInfoHostIPCfg call e h q c s) (0x0005, host_value hip (host_port q) (lidar_port q)) \<and>
    sent_as e h d s (SetLivoxLidarPointDataHostIPCfg call e h q c s) (0x0006, host_value hip (host_port q) (lidar_port q)) \<and>
    sent_as e h d s (SetLivoxLidarImuDataHostIPCfg call e h q c s) (0x0007, host_value hip (host_port q) (lidar_port q))"
proof -
  have len: "length ip = 4" "length nmask = 4" "length gw = 4" "length hip = 4"
    using assms(3-6) by (auto dest: IpToU8_length)
  let ?hv = "host_value hip (host_port q) (lidar_port q)"
  have lidar: "SetLivoxLidarIp call e h a c s = SendCommand call e h kCommandIDLidarWorkModeControl
      (Some (request_bytes [(0x0004, ip @ nmask @ gw)] @ replicate 1380 0)) (of_nat 20) c s"
    using assms(3-5) len
    by (simp add: SetLivoxLidarIp_def send_built_def BuildSetLidarIPInfoRequest_def InitLidarIpinfoVal_def build_steps wr_zeros
        del: append_assoc append_Cons) (simp add: build_bytes)
  have host: "SetLivoxLidarStateInfoHostIPCfg call e h q c s = SendCommand call e h kCommandIDLidarWorkModeControl
      (Some (request_bytes [(0x0005, ?hv)] @ replicate 1384 0)) (of_nat 16) c s"
    "SetLivoxLidarPointDataHostIPCfg call e h q c s = SendCommand call e h kCommandIDLidarWorkModeControl
      (Some (request_bytes [(0x0006, ?hv)] @ replicate 1384 0)) (of_nat 16) c s"
    "SetLivoxLidarImuDataHostIPCfg call e h q c s = SendCommand call e h kCommandIDLidarWorkModeControl
      (Some (request_bytes [(0x0007, ?hv)] @ replicate 1384 0)) (of_nat 16) c s"
    using assms(6) len
    by (simp_all add: SetLivoxLidarStateInfoHostIPCfg_def SetLivoxLidarPointDataHostIPCfg_def SetLivoxLidarImuDataHostIPCfg_def
        send_built_def BuildSetHostStateInfoIPCfgRequest_def BuildSetHostPointDataIPInfoRequest_def
        BuildSetHostImuDataIPInfoRequest_def build_steps del: append_assoc append_Cons) (simp_all add: build_bytes)
  show ?thesis
    unfolding lidar host by (intro conjI; rule request_sent_as [OF assms(1,2)]; simp add: len length_host_value)
qed

text \<open>A sentence with exactly nine comma-separated fields passes the count check and is then read at
  field index nine, one past the end.\<close>

theorem ParseGPRMC_nine_fields:
  assumes "length (Split gprmc (CHR '','')) = 9" and "6 \<le> length (Split gprmc (CHR '','') ! 1)"
  shows "ParseGPRMC to_ts gprmc = None"
  using assms by (simp add: ParseGPRMC_def Let_def)

theorem ParseGPRMC_nine_fields_witness:
  "ParseGPRMC (\<lambda>_ _. 0) ''$GPRMC,123519,A,1,N,2,E,3,4'' = None"
  by (rule ParseGPRMC_nine_fields) code_simp+

end
