(* ===== verification/Lvx_DataHandler.thy ===== *)
theory Lvx_DataHandler
  imports Prelude
begin

text \<open>
  Distribution of point and IMU packets (\<^verbatim>\<open>data_handler/data_handler.cpp\<close>): one callback for points, one for
  IMU data, and a table of observers that get both. A callback is a number that stands for the function
  and its client data; \<^term>\<open>None\<close> is an empty function. The calls that were made are kept, newest last.
\<close>

section \<open>State and operations\<close>

abbreviation kLivoxLidarImuData :: u8 where "kLivoxLidarImuData \<equiv> 0"

record data_call =
  dc_callback :: nat
  dc_handle :: u32
  dc_dev_type :: u8
  dc_packet :: bytes

record data_handler =
  point_data_callbacks :: "nat option"
  imu_data_callbacks :: "nat option"
  observers :: "(u16 \<times> nat option) list"
  observer_id :: u16
  data_calls :: "data_call list"

definition dh_start :: data_handler where
  "dh_start = \<lparr>point_data_callbacks = None, imu_data_callbacks = None, observers = [], observer_id = 1, data_calls = []\<rparr>"

definition dh_Destory :: "data_handler \<Rightarrow> data_handler" where
  "dh_Destory d = d\<lparr>point_data_callbacks := None, imu_data_callbacks := None, observers := []\<rparr>"

definition SetPointDataCallback :: "nat option \<Rightarrow> data_handler \<Rightarrow> data_handler" where
  "SetPointDataCallback c d = d\<lparr>point_data_callbacks := c\<rparr>"

definition SetImuDataCallback :: "nat option \<Rightarrow> data_handler \<Rightarrow> data_handler" where
  "SetImuDataCallback c d = d\<lparr>imu_data_callbacks := c\<rparr>"

text \<open>The exchange of the atomic counter succeeds; a thread that interferes only makes it start again.\<close>

definition GenerateObserverId :: "data_handler \<Rightarrow> u16 \<times> data_handler" where
  "GenerateObserverId d =
     (let desired = (if observer_id d = 0xFFFF then 1 else observer_id d + 1)
      in (desired, d\<lparr>observer_id := desired\<rparr>))"

definition AddPointCloudObserver :: "nat option \<Rightarrow> data_handler \<Rightarrow> u16 \<times> data_handler" where
  "AddPointCloudObserver c d =
     (let (i, d) = GenerateObserverId d in (i, d\<lparr>observers := cmap_put i c (observers d)\<rparr>))"

definition RemovePointCloudObserver :: "u16 \<Rightarrow> data_handler \<Rightarrow> data_handler" where
  "RemovePointCloudObserver i d = d\<lparr>observers := cmap_erase i (observers d)\<rparr>"

definition call_data :: "nat option \<Rightarrow> u32 \<Rightarrow> u8 \<Rightarrow> bytes \<Rightarrow> data_handler \<Rightarrow> data_handler" where
  "call_data c h t buf d =
     (case c of None \<Rightarrow> d | Some f \<Rightarrow> d\<lparr>data_calls := data_calls d @ [\<lparr>dc_callback = f, dc_handle = h, dc_dev_type = t, dc_packet = buf\<rparr>]\<rparr>)"

text \<open>\<^verbatim>\<open>data_type\<close> is the byte at place 10 of the packed \<^verbatim>\<open>LivoxLidarEthernetPacket\<close>.\<close>

definition dh_Handle :: "u8 \<Rightarrow> u32 \<Rightarrow> bytes \<Rightarrow> data_handler \<Rightarrow> data_handler option" where
  "dh_Handle t h buf d = do {
     data_type \<leftarrow> rd buf 10 1;
     let d = (if hd data_type = kLivoxLidarImuData then call_data (imu_data_callbacks d) h t buf d
              else call_data (point_data_callbacks d) h t buf d);
     Some (fold (\<lambda>(i, c). call_data c h t buf) (observers d) d)
   }"

section \<open>Who gets a packet\<close>

definition receivers :: "bytes \<Rightarrow> data_handler \<Rightarrow> nat list" where
  "receivers buf d = (case if buf ! 10 = kLivoxLidarImuData then imu_data_callbacks d else point_data_callbacks d of
       None \<Rightarrow> [] | Some f \<Rightarrow> [f]) @ List.map_filter snd (observers d)"

lemma fold_call_data:
  "fold (\<lambda>(i, c). call_data c h t buf) obs d
     = d\<lparr>data_calls := data_calls d @ map (\<lambda>f. \<lparr>dc_callback = f, dc_handle = h, dc_dev_type = t, dc_packet = buf\<rparr>)
          (List.map_filter snd obs)\<rparr>"
  by (induction obs arbitrary: d) (auto simp: call_data_def map_filter_simps split: option.split)

lemma dh_Handle_calls:
  assumes "11 \<le> length buf"
  shows "dh_Handle t h buf d = Some (d\<lparr>data_calls := data_calls d
     @ map (\<lambda>f. \<lparr>dc_callback = f, dc_handle = h, dc_dev_type = t, dc_packet = buf\<rparr>) (receivers buf d)\<rparr>)"
proof -
  have "rd buf 10 1 = Some [buf ! 10]"
    using assms by (simp add: rd_def take_Suc_conv_app_nth [of 0] flip: Cons_nth_drop_Suc)
  then show ?thesis
    by (simp add: dh_Handle_def Let_def fold_call_data call_data_def receivers_def split: option.split)
qed

text \<open>Observers are numbered from 2; the numbers start again at 1 behind 65535, whatever is registered.\<close>

primrec id_after :: "nat \<Rightarrow> u16" where
  "id_after 0 = 1"
| "id_after (Suc n) = (if id_after n = 0xFFFF then 1 else id_after n + 1)"

lemma unat_id_after: "unat (id_after n) = n mod 65535 + 1"
proof (induction n)
  case 0
  then show ?case by simp
next
  case (Suc n)
  show ?case
  proof (cases "n mod 65535 = 65534")
    case True
    then have "id_after n = 0xFFFF" using Suc by (simp add: word_unat_eq_iff)
    moreover have "Suc n mod 65535 = 0" using True by (simp add: mod_Suc)
    ultimately show ?thesis by simp
  next
    case False
    then have b: "unat (id_after n) < 65535" "n mod 65535 < 65534"
      using Suc mod_less_divisor [of 65535 n] by auto
    then have "id_after n \<noteq> 0xFFFF" by (auto simp: word_unat_eq_iff)
    moreover have "unat (id_after n + 1) = unat (id_after n) + 1"
      using b(1) by (simp add: unat_word_ariths)
    moreover have "Suc n mod 65535 = Suc (n mod 65535)" using b(2) by (simp add: mod_Suc)
    ultimately show ?thesis using Suc by simp
  qed
qed

text \<open>The observer that was registered 65535 registrations ago is replaced.\<close>

lemma observer_replaced: "id_after (n + 65535) = id_after n"
  by (simp add: word_unat_eq_iff unat_id_after)

lemma AddPointCloudObserver_id:
  "observer_id d = id_after n \<Longrightarrow> fst (AddPointCloudObserver c d) = id_after (Suc n) \<and>
     observer_id (snd (AddPointCloudObserver c d)) = id_after (Suc n) \<and>
     map_of (observers (snd (AddPointCloudObserver c d))) (id_after (Suc n)) = Some c"
  by (simp add: AddPointCloudObserver_def GenerateObserverId_def Let_def)

end
