(* ===== verification/Lvx_Manager.thy ===== *)
theory Lvx_Manager
  imports Lvx_Command Lvx_DataHandler
begin

text \<open>
  The device manager of the Livox SDK (\<^verbatim>\<open>device_manager.cpp\<close>): it owns the sockets, decides which component
  gets a datagram, finds new lidars and keeps what the viewer knows of them. Its state is one record,
  with the state of the command layer (\<^verbatim>\<open>Lvx_General\<close>) and of the data handler inside.

  The kernel is modelled by the set of open sockets and by \<open>m_delegates\<close>, which registrations the three event
  loops hold; \<open>create_socket\<close> says what the n-th call of \<^verbatim>\<open>util::CreateSocket\<close> returns. The command layer calls
  the manager back in three places, always as the last thing it does (\<^verbatim>\<open>HandleDetectionData\<close> and the answer to
  \<^verbatim>\<open>GetLivoxLidarInternalInfo\<close>) or without looking at its own state again (\<^verbatim>\<open>UpdateViewLidarCfgCallback\<close>); these
  calls are events of its trace, which the manager takes up when the command layer returns.
\<close>

section \<open>State\<close>

abbreviation kHostDebugPointCloudPort :: u16 where "kHostDebugPointCloudPort \<equiv> 44332"
abbreviation kLogPort :: u16 where "kLogPort \<equiv> 0"
abbreviation kPaHostFaultPort :: u16 where "kPaHostFaultPort \<equiv> 42867"
abbreviation kHAPLogPort :: u16 where "kHAPLogPort \<equiv> 59000"
abbreviation kPaLidarLogPort :: u16 where "kPaLidarLogPort \<equiv> 1002"
abbreviation kMid360LidarLogPort :: u16 where "kMid360LidarLogPort \<equiv> 56500"
abbreviation kHAPDebugPointCloudPort :: u16 where "kHAPDebugPointCloudPort \<equiv> 60000"
abbreviation kMid360LidarDebugPointCloudPort :: u16 where "kMid360LidarDebugPointCloudPort \<equiv> 60301"

record ViewDevice =
  vd_handle :: u32
  vd_cmd_port :: u16
  vd_dev_type :: u8
  vd_is_get :: bool
  vd_is_set :: bool

datatype io_thread = CmdIO | DataIO | DetectionIO

text \<open>What leaves for the managers of debug point clouds and of logs, and the broadcast that looks for lidars.\<close>

datatype m_event = EvDebugCloud u32 u16 bytes | EvLogger u32 u16 bytes | EvDetect int bytes

record manager =
  m_is_view :: bool
  m_detection_host_ip :: string
  m_has_port :: bool
  m_master_sdk :: "bool option"
  m_log_enable :: bool
  lidars_cfg_ptr :: "LivoxLidarCfg list option"
  custom_lidars_cfg_ptr :: "LivoxLidarCfg list option"
  type_lidars_cfg_map :: "u8 \<Rightarrow> LivoxLidarCfg option"
  custom_lidars_cfg_map :: "u32 \<Rightarrow> LivoxLidarCfg option"
  detection_socket :: int
  detection_broadcast_socket :: int
  socket_vec :: "int list"
  channel_info :: "string \<Rightarrow> int option"
  custom_command_channel :: "string \<Rightarrow> int option"
  command_channel :: "int set"
  data_channel :: "int set"
  vec_broadcast_socket :: "int list"
  detection_thread :: bool
  is_stop_detection :: bool
  lidars_dev_type :: "u32 \<Rightarrow> u16 option"
  view_devices :: "u32 \<Rightarrow> ViewDevice option"
  view_lidars_info :: "u32 \<Rightarrow> ViewLidarIpInfo option"
  m_open :: "int set"
  m_delegates :: "(io_thread \<times> int) set"
  m_created :: nat
  m_data :: data_handler
  m_general :: general
  m_trace :: "m_event list"

text \<open>The surroundings: the base environment of the command layer, what the system answers to \<^verbatim>\<open>CreateSocket\<close>
  (port, address, multicast address) and \<^verbatim>\<open>sendto\<close>, \<^verbatim>\<open>inet_addr\<close>, and whether the preparation of logs and
  threads succeeds.\<close>

record surroundings =
  base_env :: env
  create_socket :: "nat \<Rightarrow> u16 \<Rightarrow> string \<Rightarrow> string \<Rightarrow> int"
  sendto :: "int \<Rightarrow> bytes \<Rightarrow> int"
  inet_addr :: "string \<Rightarrow> u32"
  logs_ready :: bool
  io_threads_ready :: "io_thread \<Rightarrow> bool"

definition manager_start :: manager where
  "manager_start = \<lparr>m_is_view = False, m_detection_host_ip = [], m_has_port = False, m_master_sdk = None,
     m_log_enable = False, lidars_cfg_ptr = None, custom_lidars_cfg_ptr = None,
     type_lidars_cfg_map = (\<lambda>_. None), custom_lidars_cfg_map = (\<lambda>_. None), detection_socket = 0,
     detection_broadcast_socket = 0, socket_vec = [], channel_info = (\<lambda>_. None),
     custom_command_channel = (\<lambda>_. None), command_channel = {}, data_channel = {}, vec_broadcast_socket = [],
     detection_thread = False, is_stop_detection = False, lidars_dev_type = (\<lambda>_. None), view_devices = (\<lambda>_. None),
     view_lidars_info = (\<lambda>_. None), m_open = {}, m_delegates = {}, m_created = 0, m_data = dh_start,
     m_general = general_init (\<lambda>_. None), m_trace = []\<rparr>"

definition m_emit :: "m_event \<Rightarrow> manager \<Rightarrow> manager" where
  "m_emit ev m = m\<lparr>m_trace := m_trace m @ [ev]\<rparr>"

section \<open>Sockets\<close>

definition CreateSocket :: "surroundings \<Rightarrow> u16 \<Rightarrow> string \<Rightarrow> string \<Rightarrow> manager \<Rightarrow> int \<times> manager" where
  "CreateSocket e port ip multi m =
     (let s = create_socket e (m_created m) port ip multi
      in (s, m\<lparr>m_created := Suc (m_created m), m_open := (if s < 0 then m_open m else insert s (m_open m))\<rparr>))"

definition CloseSock :: "int \<Rightarrow> manager \<Rightarrow> manager" where
  "CloseSock s m = m\<lparr>m_open := m_open m - {s}\<rparr>"

definition AddDelegate :: "io_thread \<Rightarrow> int \<Rightarrow> manager \<Rightarrow> manager" where
  "AddDelegate t s m = m\<lparr>m_delegates := insert (t, s) (m_delegates m)\<rparr>"

definition channel_key :: "string \<Rightarrow> u16 \<Rightarrow> string" where
  "channel_key ip port = ip @ '':'' @ dec_string (unat port)"

definition CreateCmdSocketAndAddDelegate :: "surroundings \<Rightarrow> string \<Rightarrow> u16 \<Rightarrow> manager \<Rightarrow> bool \<times> manager" where
  "CreateCmdSocketAndAddDelegate e ip port m =
     (if ip = [] \<or> port = 0 \<or> port = kLogPort then (True, m)
      else (let key = channel_key ip port in
        case channel_info m key of
          Some s \<Rightarrow> (True,
            if custom_command_channel m key = None
            then m\<lparr>custom_command_channel := (custom_command_channel m)(key \<mapsto> s)\<rparr> else m)
        | None \<Rightarrow>
            (let (sock, m) = (if ip = ''local'' then CreateSocket e port [] [] m else CreateSocket e port ip [] m) in
             if sock < 0 then (False, m)
             else (True, AddDelegate CmdIO sock (m\<lparr>
               socket_vec := socket_vec m @ [sock],
               channel_info := (channel_info m)(key \<mapsto> sock),
               command_channel := insert sock (command_channel m),
               custom_command_channel := (custom_command_channel m)(key \<mapsto> sock)\<rparr>)))))"

definition CreateDataSocketAndAddDelegate :: "surroundings \<Rightarrow> string \<Rightarrow> u16 \<Rightarrow> string \<Rightarrow> manager \<Rightarrow> bool \<times> manager" where
  "CreateDataSocketAndAddDelegate e ip port multi m =
     (if ip = [] \<or> port = 0 \<or> port = kLogPort \<or> port = kDetectionPort then (True, m)
      else (let key = channel_key ip port in
        if channel_info m key \<noteq> None then (True, m)
        else
            (let (sock, m) = (if ip = ''local'' then CreateSocket e port [] multi m else CreateSocket e port ip multi m) in
             if sock < 0 then (False, m)
             else (True, AddDelegate DataIO sock (m\<lparr>
               socket_vec := socket_vec m @ [sock],
               channel_info := (channel_info m)(key \<mapsto> sock),
               data_channel := insert sock (data_channel m)\<rparr>)))))"

text \<open>Steps that stop at the first that fails.\<close>

definition and_then :: "bool \<times> manager \<Rightarrow> (manager \<Rightarrow> bool \<times> manager) \<Rightarrow> bool \<times> manager" where
  "and_then r f = (if fst r then f (snd r) else r)"

text \<open>A new thread has a new event loop, without registrations; the thread before it ends.\<close>

definition CreateThread :: "surroundings \<Rightarrow> io_thread \<Rightarrow> manager \<Rightarrow> bool \<times> manager" where
  "CreateThread e t m = (io_threads_ready e t, m\<lparr>m_delegates := {d \<in> m_delegates m. fst d \<noteq> t}\<rparr>)"

definition CreateIOThread :: "surroundings \<Rightarrow> manager \<Rightarrow> bool \<times> manager" where
  "CreateIOThread e m =
     and_then (CreateThread e DetectionIO m) (\<lambda>m.
     and_then (CreateThread e CmdIO m) (CreateThread e DataIO))"

definition CreateDetectionChannel :: "surroundings \<Rightarrow> manager \<Rightarrow> bool \<times> manager" where
  "CreateDetectionChannel e m =
     (let (b, m) = CreateSocket e kDetectionPort ''255.255.255.255'' [] m;
          m = m\<lparr>detection_broadcast_socket := b\<rparr>
      in if b < 0 then (False, m) else
     (let m = AddDelegate DetectionIO b m;
          key = channel_key (m_detection_host_ip m) kDetectionPort;
          (s, m) = CreateSocket e kDetectionPort (m_detection_host_ip m) [] m;
          m = m\<lparr>detection_socket := s\<rparr>
      in if s < 0 then (False, m) else
     (let m = AddDelegate DetectionIO s m;
          m = m\<lparr>channel_info := (channel_info m)(key \<mapsto> s)\<rparr>
      in (True, if custom_command_channel m key = None
                then m\<lparr>custom_command_channel := (custom_command_channel m)(key \<mapsto> s)\<rparr> else m))))"

definition CreateDataChannel :: "surroundings \<Rightarrow> HostNetInfo \<Rightarrow> manager \<Rightarrow> bool \<times> manager" where
  "CreateDataChannel e n m =
     and_then (CreateDataSocketAndAddDelegate e (host_ip n) (hn_point_data_port n) (multicast_ip n) m) (\<lambda>m.
     and_then (CreateDataSocketAndAddDelegate e (host_ip n) (hn_imu_data_port n) (multicast_ip n) m) (\<lambda>m.
     CreateDataSocketAndAddDelegate e (host_ip n) kHostDebugPointCloudPort (multicast_ip n) m))"

definition CreateBroadcastSocket :: "surroundings \<Rightarrow> u16 \<Rightarrow> manager \<Rightarrow> bool \<times> manager" where
  "CreateBroadcastSocket e port m =
     (let (s, m) = CreateSocket e port ''255.255.255.255'' [] m
      in if s < 0 then (False, m)
         else (True, AddDelegate CmdIO s (m\<lparr>vec_broadcast_socket := vec_broadcast_socket m @ [s]\<rparr>)))"

definition CreateCommandChannel :: "surroundings \<Rightarrow> u8 \<Rightarrow> HostNetInfo \<Rightarrow> manager \<Rightarrow> (bool \<times> manager) option" where
  "CreateCommandChannel e t n m = do {
     master \<leftarrow> m_master_sdk m;
     Some (and_then (if master then CreateCmdSocketAndAddDelegate e (host_ip n) (hn_cmd_data_port n) m else (True, m)) (\<lambda>m.
     and_then (CreateCmdSocketAndAddDelegate e (host_ip n) (hn_push_msg_port n) m) (\<lambda>m.
     and_then (if t = kLivoxLidarTypePA then CreateCmdSocketAndAddDelegate e (host_ip n) kPaHostFaultPort m else (True, m)) (\<lambda>m.
     and_then (if t = kLivoxLidarTypeMid360 \<or> t = kLivoxLidarTypeMid360s
               then CreateBroadcastSocket e (hn_push_msg_port n) m else (True, m)) (\<lambda>m.
     if m_log_enable m then CreateCmdSocketAndAddDelegate e (host_ip n) (hn_log_data_port n) m else (True, m))))))
   }"

fun channels_of :: "surroundings \<Rightarrow> LivoxLidarCfg list \<Rightarrow> manager \<Rightarrow> (bool \<times> manager) option" where
  "channels_of e [] m = Some (True, m)"
| "channels_of e (c # cs) m =
     (let (ok, m) = CreateDataChannel e (host_net_info c) m in
      if \<not> ok then Some (False, m)
      else do {
        (ok, m) \<leftarrow> CreateCommandChannel e (device_type c) (host_net_info c) m;
        if \<not> ok then Some (False, m) else channels_of e cs m
      })"

text \<open>A null pointer, to the list of configurations or to the framework configuration, is \<^term>\<open>None\<close>.\<close>

definition CreateChannel :: "surroundings \<Rightarrow> manager \<Rightarrow> (bool \<times> manager) option" where
  "CreateChannel e m =
     (let r = CreateDetectionChannel e m in
      if \<not> fst r then Some r
      else do { cs \<leftarrow> custom_lidars_cfg_ptr (snd r); channels_of e cs (snd r) })"

definition CreateViewSocket :: "surroundings \<Rightarrow> string \<Rightarrow> u16 \<Rightarrow> manager \<Rightarrow> bool \<times> manager" where
  "CreateViewSocket e ip port m =
     (let key = channel_key ip port in
      if channel_info m key \<noteq> None then (True, m)
      else (let (s, m) = CreateSocket e port ip [] m in
        if s < 0 then (False, m)
        else (True, AddDelegate DataIO s (m\<lparr>socket_vec := socket_vec m @ [s],
               channel_info := (channel_info m)(key \<mapsto> s)\<rparr>))))"

definition CreateViewDataChannel :: "surroundings \<Rightarrow> ViewLidarIpInfo \<Rightarrow> manager \<Rightarrow> manager" where
  "CreateViewDataChannel e v m =
     snd (and_then (CreateViewSocket e (vl_host_ip v) (vl_host_point_port v) m)
       (CreateViewSocket e (vl_host_ip v) (vl_host_imu_data_port v)))"

section \<open>Sending\<close>

definition GetCmdChannel :: "u32 \<Rightarrow> manager \<Rightarrow> int option" where
  "GetCmdChannel h m =
     (case custom_lidars_cfg_map m h of
        None \<Rightarrow> None
      | Some c \<Rightarrow> custom_command_channel m
          (channel_key (host_ip (host_net_info c)) (hn_cmd_data_port (host_net_info c))))"

definition GetLoggerCmdChannel :: "u32 \<Rightarrow> manager \<Rightarrow> int option" where
  "GetLoggerCmdChannel h m =
     (case custom_lidars_cfg_map m h of
        None \<Rightarrow> None
      | Some c \<Rightarrow> custom_command_channel m
          (channel_key (host_ip (host_net_info c)) (hn_log_data_port (host_net_info c))))"

text \<open>The socket that a command leaves through, and what \<^verbatim>\<open>sendto\<close> answers.\<close>

definition mgr_SendCommand :: "surroundings \<Rightarrow> u32 \<Rightarrow> bytes \<Rightarrow> manager \<Rightarrow> int \<times> int" where
  "mgr_SendCommand e h buf m =
     (let sock = (case GetCmdChannel h m of Some s \<Rightarrow> s | None \<Rightarrow> detection_socket m) in (sock, sendto e sock buf))"

definition mgr_SendLoggerCommand :: "surroundings \<Rightarrow> u32 \<Rightarrow> bytes \<Rightarrow> manager \<Rightarrow> int \<times> int" where
  "mgr_SendLoggerCommand e h buf m =
     (let sock = (case GetLoggerCmdChannel h m of Some s \<Rightarrow> s | None \<Rightarrow> detection_socket m) in (sock, sendto e sock buf))"

text \<open>The environment that the command layer sees. Whatever it sends on behalf of the manager are commands.\<close>

definition env_of :: "surroundings \<Rightarrow> manager \<Rightarrow> env" where
  "env_of e m = (base_env e)\<lparr>net_send := (\<lambda>t h buf. snd (mgr_SendCommand e h buf m)), master_sdk := m_master_sdk m\<rparr>"

section \<open>Callbacks from the command layer\<close>

definition UpdateViewLidarCfgCallback :: "u32 \<Rightarrow> manager \<Rightarrow> manager" where
  "UpdateViewLidarCfgCallback h m =
     (if m_is_view m
      then (case view_devices m h of
          None \<Rightarrow> m
        | Some d \<Rightarrow> m\<lparr>view_devices := (view_devices m)(h \<mapsto> d\<lparr>vd_is_set := True\<rparr>)\<rparr>)
      else m)"

fun view_event :: "event \<Rightarrow> manager \<Rightarrow> manager" where
  "view_event (EvViewCfg h) m = UpdateViewLidarCfgCallback h m"
| "view_event _ m = m"

text \<open>A call into the command layer: its new state, and the callbacks to the manager on the way. The events
  of the call are returned.\<close>

definition general_call :: "(general \<Rightarrow> general option) \<Rightarrow> manager \<Rightarrow> (event list \<times> manager) option" where
  "general_call f m = do {
     g \<leftarrow> f (m_general m);
     let evs = drop (length (trace (m_general m))) (trace g);
     Some (evs, fold view_event evs (m\<lparr>m_general := g\<rparr>))
   }"

definition general_do :: "(general \<Rightarrow> general option) \<Rightarrow> manager \<Rightarrow> manager option" where
  "general_do f m = map_option snd (general_call f m)"

text \<open>The key-value list of an answer to the query of internal information. The counter has eight bits, the
  number of parameters sixteen, and so has the offset. \<open>Running\<close> is a loop that has not ended after the given number
  of rounds, \<open>Crash\<close> a read behind the answer.\<close>

datatype 'a outcome = Done 'a | Crash | Running

definition kv_read :: "u16 \<Rightarrow> bytes \<Rightarrow> ViewLidarIpInfo \<Rightarrow> (u16 \<times> ViewLidarIpInfo) option" where
  "kv_read off data v = do {
     key \<leftarrow> rd data (unat off) 2;
     v \<leftarrow> (if le_dec key = kKeyLidarPointDataHostIpCfg then do {
              a \<leftarrow> rd data (unat off + 8) 2; b \<leftarrow> rd data (unat off + 10) 2;
              Some (v\<lparr>vl_host_point_port := le_dec a, vl_lidar_point_port := le_dec b\<rparr>) }
            else if le_dec key = kKeyLidarImuHostIpCfg then do {
              a \<leftarrow> rd data (unat off + 8) 2; b \<leftarrow> rd data (unat off + 10) 2;
              Some (v\<lparr>vl_host_imu_data_port := le_dec a, vl_lidar_imu_data_port := le_dec b\<rparr>) }
            else Some v);
     len \<leftarrow> rd data (unat off + 2) 2;
     Some (off + 4 + le_dec len, v)
   }"

fun param_loop :: "nat \<Rightarrow> u8 \<Rightarrow> u16 \<Rightarrow> u16 \<Rightarrow> bytes \<Rightarrow> ViewLidarIpInfo \<Rightarrow> ViewLidarIpInfo outcome" where
  "param_loop 0 i param_num off data v = (if unat i < unat param_num then Running else Done v)"
| "param_loop (Suc fuel) i param_num off data v =
     (if unat i < unat param_num
      then (case kv_read off data v of
          None \<Rightarrow> Crash
        | Some (off, v) \<Rightarrow> param_loop fuel (i + 1) param_num off data v)
      else Done v)"

text \<open>The answer is \<^verbatim>\<open>ret_code\<close>, \<^verbatim>\<open>param_num\<close> at 1, and the list from 3. The ports of the Mid-360 devices are constants.\<close>

definition fixed_ports :: "ViewLidarIpInfo \<Rightarrow> ViewLidarIpInfo" where
  "fixed_ports v =
     (let v = (if vl_dev_type v = kLivoxLidarTypeMid360
               then v\<lparr>vl_lidar_point_port := kMid360LidarPointCloudPort, vl_lidar_imu_data_port := kMid360LidarImuDataPort\<rparr>
               else v)
      in if vl_dev_type v = kLivoxLidarTypeMid360s
         then v\<lparr>vl_lidar_point_port := kMid360sLidarPointCloudPort, vl_lidar_imu_data_port := kMid360sLidarImuDataPort\<rparr>
         else v)"

definition AddViewLidar :: "nat \<Rightarrow> invoker \<Rightarrow> surroundings \<Rightarrow> u32 \<Rightarrow> bytes option \<Rightarrow> manager \<Rightarrow> manager option" where
  "AddViewLidar fuel call e h response m =
     (case response of
        None \<Rightarrow> Some m
      | Some r \<Rightarrow> do {
          ret \<leftarrow> rd r 0 1;
          if hd ret \<noteq> 0 then Some m
          else (case view_devices m h of
              None \<Rightarrow> Some m
            | Some d \<Rightarrow>
                if vd_is_get d then Some m
                else do {
                  num \<leftarrow> rd r 1 2;
                  v \<leftarrow> (case param_loop fuel 0 (le_dec num) 0 (drop 3 r)
                           \<lparr>vl_handle = h, vl_dev_type = vd_dev_type d, vl_host_ip = m_detection_host_ip m,
                            vl_lidar_cmd_port = vd_cmd_port d, vl_lidar_point_port = 0, vl_lidar_imu_data_port = 0,
                            vl_host_point_port = 0, vl_host_imu_data_port = 0\<rparr> of
                         Done v \<Rightarrow> Some (fixed_ports v) | _ \<Rightarrow> None);
                  let m = CreateViewDataChannel e v m;
                  let m = m\<lparr>view_lidars_info := (view_lidars_info m)(h \<mapsto> v)\<rparr>;
                  let m = m\<lparr>view_devices := (view_devices m)(h \<mapsto> d\<lparr>vd_is_get := True\<rparr>)\<rparr>;
                  general_do (UpdateLidarCfg_view call (env_of e m) v) m
                })
        })"

text \<open>The callback of the query, with which the manager registers; the API gives its users other numbers.\<close>

abbreviation internal_info_callback :: nat where "internal_info_callback \<equiv> 0"

definition GetLivoxLidarInternalInfo :: "invoker \<Rightarrow> surroundings \<Rightarrow> u32 \<Rightarrow> manager \<Rightarrow> manager option" where
  "GetLivoxLidarInternalInfo call e h m =
     general_do (\<lambda>g. map_option snd
       (QueryLivoxLidarInternalInfo call (env_of e m) h (Some (User internal_info_callback)) g)) m"

definition GetLivoxLidarInternalInfoCallback :: "nat \<Rightarrow> invoker \<Rightarrow> surroundings \<Rightarrow> int \<Rightarrow> u32 \<Rightarrow> bytes option \<Rightarrow> manager \<Rightarrow> manager option" where
  "GetLivoxLidarInternalInfoCallback fuel call e status h response m =
     (if status \<noteq> StatusSuccess then Some m else AddViewLidar fuel call e h response m)"

definition mgr_HandleDetectionData :: "invoker \<Rightarrow> surroundings \<Rightarrow> u32 \<Rightarrow> u8 \<Rightarrow> u16 \<Rightarrow> bool \<Rightarrow> bool \<Rightarrow> manager \<Rightarrow> manager option" where
  "mgr_HandleDetectionData call e h t lidar_cmd_port got_mode load_mode m =
     (let info_change = (\<lambda>m. if got_mode \<and> load_mode then general_do (LivoxLidarInfoChange h) m else Some m)
      in if h = 0 then Some m
      else if m_is_view m then do {
        let d = (case view_devices m h of
            Some d \<Rightarrow> d
          | None \<Rightarrow> \<lparr>vd_handle = h, vd_cmd_port = lidar_cmd_port, vd_dev_type = t, vd_is_get = False, vd_is_set = False\<rparr>);
        let m = m\<lparr>view_devices := (view_devices m)(h \<mapsto> d)\<rparr>;
        if \<not> vd_is_get d \<and> got_mode \<and> \<not> load_mode
        then do { m \<leftarrow> GetLivoxLidarInternalInfo call e h m; info_change m }
        else if got_mode \<and> \<not> load_mode \<and> \<not> vd_is_set d
        then (case view_lidars_info m h of
            None \<Rightarrow> Some m
          | Some v \<Rightarrow> do { m \<leftarrow> general_do (UpdateLidarCfg_view call (env_of e m) v) m; info_change m })
        else info_change m
      }
      else (case lidars_dev_type m h of
          Some dt \<Rightarrow> if dt \<noteq> ucast t then Some m else info_change m
        | None \<Rightarrow> info_change (m\<lparr>lidars_dev_type := (lidars_dev_type m)(h \<mapsto> ucast t)\<rparr>)))"

text \<open>The last call of the command layer, if it is one to the manager.\<close>

fun take_up :: "nat \<Rightarrow> invoker \<Rightarrow> surroundings \<Rightarrow> event \<Rightarrow> manager \<Rightarrow> manager option" where
  "take_up fuel call e (EvDetected h t port g l) m = mgr_HandleDetectionData call e h t port g l m"
| "take_up fuel call e (EvCallback u status h response) m =
     (if u = internal_info_callback then GetLivoxLidarInternalInfoCallback fuel call e status h response m else Some m)"
| "take_up fuel call e _ m = Some m"

definition general_handler :: "nat \<Rightarrow> invoker \<Rightarrow> surroundings \<Rightarrow> (general \<Rightarrow> general option) \<Rightarrow> manager \<Rightarrow> manager option" where
  "general_handler fuel call e f m = do { (evs, m) \<leftarrow> general_call f m; foldM (take_up fuel call e) evs m }"

section \<open>Incoming datagrams\<close>

definition data_do :: "u8 \<Rightarrow> u32 \<Rightarrow> bytes \<Rightarrow> manager \<Rightarrow> manager option" where
  "data_do t h buf m = map_option (\<lambda>d. m\<lparr>m_data := d\<rparr>) (dh_Handle t h buf (m_data m))"

definition OnViewData :: "nat \<Rightarrow> invoker \<Rightarrow> surroundings \<Rightarrow> u32 \<Rightarrow> u16 \<Rightarrow> bytes \<Rightarrow> u32 \<Rightarrow> manager \<Rightarrow> manager option" where
  "OnViewData fuel call e h port buf n m =
     (case view_lidars_info m h of
        Some v \<Rightarrow>
          if port = vl_lidar_point_port v \<or> port = vl_lidar_imu_data_port v
          then data_do (vl_dev_type v) h buf m
          else general_handler fuel call e (Handler_typed call (env_of e m) (vl_dev_type v) h port buf n) m
      | None \<Rightarrow> general_handler fuel call e (Handler call (env_of e m) h port buf n) m)"

definition OnCustomData :: "nat \<Rightarrow> invoker \<Rightarrow> surroundings \<Rightarrow> LivoxLidarCfg \<Rightarrow> u32 \<Rightarrow> u16 \<Rightarrow> bytes \<Rightarrow> u32 \<Rightarrow> manager \<Rightarrow> manager option" where
  "OnCustomData fuel call e c h port buf n m =
     (let l = lidar_net_info c in
      if port = ln_imu_data_port l \<or> port = ln_point_data_port l then data_do (device_type c) h buf m
      else if port = kDetectionPort \<or> port = ln_cmd_data_port l \<or> port = ln_push_msg_port l
              \<or> port = ln_log_data_port l \<or> port = kPaLidarFaultPort
      then general_handler fuel call e (Handler_typed call (env_of e m) (device_type c) h port buf n) m
      else Some m)"

text \<open>The answer of a lidar whose address is not configured: it gets the configuration of its type, which
  keeps the address, and the sockets of all configured lidars are made.\<close>

definition keyed_cfgs :: "surroundings \<Rightarrow> LivoxLidarCfg list \<Rightarrow> (u32 \<times> LivoxLidarCfg) list" where
  "keyed_cfgs e cs = map (\<lambda>c. (inet_addr e (lidar_ipaddr (lidar_net_info c)), c)) cs"

definition AddFoundLidar :: "surroundings \<Rightarrow> u32 \<Rightarrow> u8 \<Rightarrow> manager \<Rightarrow> manager option" where
  "AddFoundLidar e h t m =
     (case type_lidars_cfg_map m t of
        None \<Rightarrow> Some m
      | Some c \<Rightarrow> do {
          let c = c\<lparr>lidar_net_info := (lidar_net_info c)\<lparr>lidar_ipaddr := ntoa (base_env e) h\<rparr>\<rparr>;
          cs \<leftarrow> custom_lidars_cfg_ptr m;
          let m = m\<lparr>type_lidars_cfg_map := (type_lidars_cfg_map m)(t \<mapsto> c),
            custom_lidars_cfg_map := (custom_lidars_cfg_map m)(h \<mapsto> c), custom_lidars_cfg_ptr := Some (cs @ [c])\<rparr>;
          m \<leftarrow> general_do (\<lambda>g. Some (Init_custom (keyed_cfgs e (cs @ [c])) g)) m;
          m \<leftarrow> general_do (CreateCommandHandler t) m;
          (ok, m) \<leftarrow> channels_of e (cs @ [c]) m;
          Some m
        })"

definition OnUnknownData :: "surroundings \<Rightarrow> u32 \<Rightarrow> u16 \<Rightarrow> bytes \<Rightarrow> u32 \<Rightarrow> manager \<Rightarrow> manager option" where
  "OnUnknownData e h port buf n m =
     (if port \<noteq> kDetectionPort then Some m
      else if \<not> m_has_port m then None
      else do {
        r \<leftarrow> ParseCommStream (crc16 (base_env e)) (crc32 (base_env e)) buf n;
        case r of
          None \<Rightarrow> Some m
        | Some p \<Rightarrow>
            if cmd_id p \<noteq> kCommandIDLidarSearch then Some m
            else if data_len p = 0 then Some m
            else do {
              ret \<leftarrow> rd (cp_data p) 0 1;
              if hd ret \<noteq> 0 then Some m
              else do { t \<leftarrow> rd (cp_data p) 1 1; AddFoundLidar e h (hd t) m }
            }
      })"

text \<open>A datagram of \<open>got\<close> bytes in a buffer of 8192, from \<open>h\<close> and \<open>port\<close>. The managers of debug clouds and logs see it
  before anything else.\<close>

definition to_other_managers :: "u32 \<Rightarrow> u16 \<Rightarrow> bytes \<Rightarrow> manager \<Rightarrow> manager" where
  "to_other_managers h port buf m =
     (let m = (if port = kMid360LidarDebugPointCloudPort \<or> port = kHAPDebugPointCloudPort
               then m_emit (EvDebugCloud h port buf) m else m)
      in if port = kHAPLogPort \<or> port = kPaLidarLogPort \<or> port = kMid360LidarLogPort
         then m_emit (EvLogger h port buf) m else m)"

definition OnData :: "nat \<Rightarrow> invoker \<Rightarrow> surroundings \<Rightarrow> u32 \<Rightarrow> u16 \<Rightarrow> bytes \<Rightarrow> int \<Rightarrow> manager \<Rightarrow> manager option" where
  "OnData fuel call e h port buf got m =
     (if got \<le> 0 then Some m
      else if ntoa (base_env e) h = m_detection_host_ip m then Some m
      else (let m = to_other_managers h port (take (nat got) buf) m; n = word_of_int got in
        if m_is_view m then OnViewData fuel call e h port buf n m
        else case custom_lidars_cfg_map m h of
            Some c \<Rightarrow> OnCustomData fuel call e c h port buf n m
          | None \<Rightarrow> OnUnknownData e h port buf n m))"

definition OnTimer :: "nat \<Rightarrow> invoker \<Rightarrow> surroundings \<Rightarrow> manager \<Rightarrow> manager option" where
  "OnTimer fuel call e m = general_handler fuel call e (CommandsHandle call (env_of e m)) m"

section \<open>Looking for lidars\<close>

definition Detection :: "surroundings \<Rightarrow> manager \<Rightarrow> manager option" where
  "Detection e m =
     (if \<not> m_has_port m then None
      else (let (q, s) = GetSeq (gseq (m_general m)); m = m\<lparr>m_general := (m_general m)\<lparr>gseq := s\<rparr>\<rparr> in do {
        b \<leftarrow> pack_command (base_env e)
          (mk_Command q kCommandIDLidarSearch kCommandTypeCmd kHostSend (Some req_buffer) 0 0 [] None);
        Some (m_emit (EvDetect (detection_socket m) b) m)
      }))"

text \<open>A round of the thread that looks for lidars; it ends when it finds the flag set.\<close>

definition DetectionLidars_round :: "surroundings \<Rightarrow> manager \<Rightarrow> manager option" where
  "DetectionLidars_round e m = (if detection_thread m \<and> \<not> is_stop_detection m then Detection e m else Some m)"

section \<open>Starting and stopping\<close>

text \<open>\<open>log_cfg\<close> tells whether logging is enabled; without one it is not. The thread is created before the flag is
  cleared.\<close>

definition start_detection :: "manager \<Rightarrow> manager" where
  "start_detection m = (let m = m\<lparr>detection_thread := True\<rparr> in m\<lparr>is_stop_detection := False\<rparr>)"

definition Init_viewer :: "surroundings \<Rightarrow> string \<Rightarrow> bool option \<Rightarrow> manager \<Rightarrow> bool \<times> manager" where
  "Init_viewer e ip log_cfg m =
     (let m = m\<lparr>m_is_view := True, m_detection_host_ip := ip, m_has_port := True\<rparr>
      in if \<not> logs_ready e then (False, m) else
     (let m = m\<lparr>m_log_enable := (log_cfg = Some True)\<rparr>;
          m = m\<lparr>m_general := Init_view ip (m_is_view m) (m_general m)\<rparr>
      in and_then (CreateIOThread e m) (\<lambda>m.
         and_then (CreateDetectionChannel e m) (\<lambda>m. (True, start_detection m)))))"

definition GetLidarConfigMap :: "surroundings \<Rightarrow> LivoxLidarCfg list \<Rightarrow> LivoxLidarCfg list \<Rightarrow> manager \<Rightarrow> manager" where
  "GetLidarConfigMap e lidars customs m =
     m\<lparr>type_lidars_cfg_map := fold (\<lambda>c f. f(device_type c \<mapsto> c)) lidars (type_lidars_cfg_map m),
       custom_lidars_cfg_map := fold (\<lambda>c f. f(inet_addr e (lidar_ipaddr (lidar_net_info c)) \<mapsto> c)) customs
         (custom_lidars_cfg_map m)\<rparr>"

definition detection_host :: "LivoxLidarCfg list option \<Rightarrow> LivoxLidarCfg list option \<Rightarrow> string option" where
  "detection_host lidars customs =
     (case lidars of
        Some (c # _) \<Rightarrow> Some (host_ip (host_net_info c))
      | _ \<Rightarrow> (case customs of Some (c # _) \<Rightarrow> Some (host_ip (host_net_info c)) | _ \<Rightarrow> None))"

definition Init_configured :: "surroundings \<Rightarrow> LivoxLidarCfg list option \<Rightarrow> LivoxLidarCfg list option
    \<Rightarrow> bool option \<Rightarrow> bool option \<Rightarrow> manager \<Rightarrow> (bool \<times> manager) option" where
  "Init_configured e lidars customs log_cfg framework m =
     (let m = m\<lparr>m_is_view := False, lidars_cfg_ptr := lidars, custom_lidars_cfg_ptr := customs,
            m_master_sdk := framework\<rparr>
      in case detection_host lidars customs of
        None \<Rightarrow> Some (False, m)
      | Some ip \<Rightarrow>
          (let m = m\<lparr>m_detection_host_ip := ip, m_has_port := True\<rparr> in
           if log_cfg = None \<or> \<not> logs_ready e then Some (False, m)
           else do {
             let m = m\<lparr>m_log_enable := (log_cfg = Some True)\<rparr>;
             cs \<leftarrow> customs;
             m \<leftarrow> general_do (\<lambda>g. Some (Init_custom (keyed_cfgs e cs) g)) m;
             ls \<leftarrow> lidars;
             let m = GetLidarConfigMap e ls cs m;
             let (ok, m) = CreateIOThread e m;
             if \<not> ok then Some (False, m)
             else do {
               (ok, m) \<leftarrow> CreateChannel e m;
               if \<not> ok then Some (False, m)
               else Some (True, if ls \<noteq> [] \<or> cs \<noteq> [] then start_detection m else m)
             }
           }))"

definition remove_all :: "io_thread \<Rightarrow> int set \<Rightarrow> manager \<Rightarrow> manager" where
  "remove_all t S m = m\<lparr>m_delegates := {d \<in> m_delegates m. \<not> (fst d = t \<and> snd d \<in> S \<and> 0 < snd d)}\<rparr>"

definition close_all :: "int list \<Rightarrow> manager \<Rightarrow> manager" where
  "close_all ss m = fold CloseSock ss m"

definition mgr_Destory :: "manager \<Rightarrow> manager" where
  "mgr_Destory m =
     (let m = m\<lparr>m_detection_host_ip := []\<rparr>;
          m = remove_all DetectionIO {detection_socket m} m;
          m = remove_all DetectionIO {detection_broadcast_socket m} m;
          m = remove_all CmdIO (command_channel m) m;
          m = remove_all CmdIO (set (vec_broadcast_socket m)) m;
          m = remove_all DataIO (data_channel m) m;
          m = (close_all (socket_vec m) m)\<lparr>socket_vec := []\<rparr>;
          m = (close_all (vec_broadcast_socket m) m)\<lparr>vec_broadcast_socket := []\<rparr>;
          m = (if \<not> detection_thread m then m
               else (let m = m\<lparr>is_stop_detection := True, detection_thread := False\<rparr>;
                         m = (if 0 < detection_socket m then (CloseSock (detection_socket m) m)\<lparr>detection_socket := -1\<rparr> else m)
                     in if 0 < detection_broadcast_socket m
                        then (CloseSock (detection_broadcast_socket m) m)\<lparr>detection_broadcast_socket := -1\<rparr> else m))
      in m\<lparr>lidars_cfg_ptr := None, custom_lidars_cfg_ptr := None, type_lidars_cfg_map := (\<lambda>_. None),
           custom_lidars_cfg_map := (\<lambda>_. None), channel_info := (\<lambda>_. None), custom_command_channel := (\<lambda>_. None),
           command_channel := {}, data_channel := {}, m_has_port := False, is_stop_detection := True,
           lidars_dev_type := (\<lambda>_. None), m_is_view := False, m_detection_host_ip := [],
           view_devices := (\<lambda>_. None), view_lidars_info := (\<lambda>_. None)\<rparr>)"

end
