(* ===== verification/Lvx_Sockets.thy ===== *)
theory Lvx_Sockets
  imports Lvx_Manager
begin

text \<open>
  Which sockets the device manager holds open and which registrations the event loops keep: an invariant of
  every running manager, by rule induction over its start, its datagrams, its timer and its rounds of
  detection, and what the stop leaves behind.
\<close>

section \<open>Sockets of a running manager\<close>

text \<open>What the tables say of the sockets: every channel is an open socket of the manager, commands use channels
  that exist, the open sockets are those that the manager lists, and each is registered with the loop that
  serves it. In the viewer the data sockets are in no channel set.\<close>

definition view_sockets :: "manager \<Rightarrow> int set" where
  "view_sockets m = (if m_is_view m then set (socket_vec m) else {})"

definition sockets_ok :: "manager \<Rightarrow> bool" where
  "sockets_ok m \<longleftrightarrow>
     (\<forall>key s. channel_info m key = Some s \<longrightarrow> s = detection_socket m \<or> s \<in> set (socket_vec m)) \<and>
     custom_command_channel m \<subseteq>\<^sub>m channel_info m \<and>
     m_open m = {detection_socket m, detection_broadcast_socket m} \<union> set (socket_vec m) \<union> set (vec_broadcast_socket m) \<and>
     m_delegates m = {DetectionIO} \<times> {detection_socket m, detection_broadcast_socket m}
       \<union> {CmdIO} \<times> (command_channel m \<union> set (vec_broadcast_socket m)) \<union> {DataIO} \<times> (data_channel m \<union> view_sockets m) \<and>
     (\<not> m_is_view m \<longrightarrow> set (socket_vec m) = command_channel m \<union> data_channel m) \<and>
     (m_is_view m \<longrightarrow> command_channel m = {} \<and> data_channel m = {}) \<and>
     (\<not> m_is_view m \<longrightarrow> view_devices m = (\<lambda>_. None))"

lemma sockets_okE:
  assumes "sockets_ok m"
  obtains "\<And>key s. channel_info m key = Some s \<Longrightarrow> s = detection_socket m \<or> s \<in> set (socket_vec m)"
    "custom_command_channel m \<subseteq>\<^sub>m channel_info m"
    "m_open m = {detection_socket m, detection_broadcast_socket m} \<union> set (socket_vec m) \<union> set (vec_broadcast_socket m)"
    "m_delegates m = {DetectionIO} \<times> {detection_socket m, detection_broadcast_socket m}
       \<union> {CmdIO} \<times> (command_channel m \<union> set (vec_broadcast_socket m)) \<union> {DataIO} \<times> (data_channel m \<union> view_sockets m)"
    "\<not> m_is_view m \<Longrightarrow> set (socket_vec m) = command_channel m \<union> data_channel m"
    "m_is_view m \<Longrightarrow> command_channel m = {} \<and> data_channel m = {}"
    "\<not> m_is_view m \<Longrightarrow> view_devices m = (\<lambda>_. None)"
  using assms unfolding sockets_ok_def by blast

text \<open>The part of the state that this is about, and that the threads need.\<close>

definition socket_part where
  "socket_part m = (channel_info m, custom_command_channel m, m_open m, m_delegates m, socket_vec m,
     vec_broadcast_socket m, command_channel m, data_channel m, detection_socket m, detection_broadcast_socket m,
     m_is_view m, detection_thread m, if m_is_view m then (\<lambda>_. None) else view_devices m)"

lemma sockets_ok_part: "socket_part m' = socket_part m \<Longrightarrow> sockets_ok m' = sockets_ok m"
  by (cases "m_is_view m"; cases "m_is_view m'"; simp add: socket_part_def sockets_ok_def view_sockets_def)

definition keeps_running :: "manager \<Rightarrow> manager \<Rightarrow> bool" where
  "keeps_running m m' \<longleftrightarrow> (sockets_ok m \<longrightarrow> sockets_ok m') \<and> m_is_view m' = m_is_view m \<and> detection_thread m' = detection_thread m"

lemma keeps_running_refl [simp]: "keeps_running m m"
  by (simp add: keeps_running_def)

lemma keeps_running_trans [trans]: "keeps_running m m' \<Longrightarrow> keeps_running m' m'' \<Longrightarrow> keeps_running m m''"
  by (simp add: keeps_running_def)

lemma keeps_running_part:
  assumes "socket_part m' = socket_part m"
  shows "keeps_running m m'"
proof -
  have "m_is_view m' = m_is_view m" "detection_thread m' = detection_thread m"
    using assms by (simp_all add: socket_part_def)
  then show ?thesis using sockets_ok_part [OF assms] by (simp add: keeps_running_def)
qed

lemma part_update [simp]:
  "socket_part (m\<lparr>m_general := g\<rparr>) = socket_part m" "m_is_view m \<Longrightarrow> socket_part (m\<lparr>view_devices := d\<rparr>) = socket_part m"
  "socket_part (m\<lparr>view_lidars_info := v\<rparr>) = socket_part m" "socket_part (m\<lparr>m_data := dh\<rparr>) = socket_part m"
  "socket_part (m\<lparr>m_trace := tr\<rparr>) = socket_part m" "socket_part (m\<lparr>lidars_dev_type := ld\<rparr>) = socket_part m"
  "socket_part (m\<lparr>type_lidars_cfg_map := tc\<rparr>) = socket_part m"
  "socket_part (m\<lparr>custom_lidars_cfg_map := cc\<rparr>) = socket_part m"
  "socket_part (m\<lparr>custom_lidars_cfg_ptr := cp\<rparr>) = socket_part m"
  "socket_part (m\<lparr>m_created := n\<rparr>) = socket_part m"
  by (simp_all add: socket_part_def)

lemma le_new_channel: "f \<subseteq>\<^sub>m g \<Longrightarrow> g k = None \<Longrightarrow> f \<subseteq>\<^sub>m g(k \<mapsto> s)"
  by (auto simp: map_le_def dom_def)

lemma le_old_channel: "f \<subseteq>\<^sub>m g \<Longrightarrow> g k = Some s \<Longrightarrow> f(k \<mapsto> s) \<subseteq>\<^sub>m g"
  by (auto simp: map_le_def)

text \<open>The ways in which a socket joins the tables.\<close>

lemma new_command_socket:
  assumes "sockets_ok m" and v: "\<not> m_is_view m" and k: "channel_info m key = None"
  shows "sockets_ok (m\<lparr>m_created := n, m_open := insert s (m_open m), socket_vec := socket_vec m @ [s],
    channel_info := (channel_info m)(key \<mapsto> s), command_channel := insert s (command_channel m),
    custom_command_channel := (custom_command_channel m)(key \<mapsto> s), m_delegates := insert (CmdIO, s) (m_delegates m)\<rparr>)"
  using assms(1)
proof (rule sockets_okE)
  assume c: "\<And>key s. channel_info m key = Some s \<Longrightarrow> s = detection_socket m \<or> s \<in> set (socket_vec m)"
    and le: "custom_command_channel m \<subseteq>\<^sub>m channel_info m"
    and op: "m_open m = {detection_socket m, detection_broadcast_socket m} \<union> set (socket_vec m) \<union> set (vec_broadcast_socket m)"
    and de: "m_delegates m = {DetectionIO} \<times> {detection_socket m, detection_broadcast_socket m}
       \<union> {CmdIO} \<times> (command_channel m \<union> set (vec_broadcast_socket m)) \<union> {DataIO} \<times> (data_channel m \<union> view_sockets m)"
    and ve: "\<not> m_is_view m \<Longrightarrow> set (socket_vec m) = command_channel m \<union> data_channel m"
    and vd: "\<not> m_is_view m \<Longrightarrow> view_devices m = (\<lambda>_. None)"
  show ?thesis
    unfolding sockets_ok_def
  proof (intro conjI, goal_cases)
    case 1
    show ?case by (simp; blast dest: c)
  next
    case 2
    show ?case by (simp add: le map_le_upd)
  next
    case 3
    show ?case unfolding op by (simp; blast)
  next
    case 4
    show ?case unfolding de using v by (simp add: view_sockets_def; blast)
  next
    case 5
    show ?case using v ve by simp
  next
    case 6
    show ?case using v by simp
  next
    case 7
    show ?case using vd by simp
  qed
qed

lemma new_data_socket:
  assumes "sockets_ok m" and v: "\<not> m_is_view m" and k: "channel_info m key = None"
  shows "sockets_ok (m\<lparr>m_created := n, m_open := insert s (m_open m), socket_vec := socket_vec m @ [s],
    channel_info := (channel_info m)(key \<mapsto> s), data_channel := insert s (data_channel m),
    m_delegates := insert (DataIO, s) (m_delegates m)\<rparr>)"
  using assms(1)
proof (rule sockets_okE)
  assume c: "\<And>key s. channel_info m key = Some s \<Longrightarrow> s = detection_socket m \<or> s \<in> set (socket_vec m)"
    and le: "custom_command_channel m \<subseteq>\<^sub>m channel_info m"
    and op: "m_open m = {detection_socket m, detection_broadcast_socket m} \<union> set (socket_vec m) \<union> set (vec_broadcast_socket m)"
    and de: "m_delegates m = {DetectionIO} \<times> {detection_socket m, detection_broadcast_socket m}
       \<union> {CmdIO} \<times> (command_channel m \<union> set (vec_broadcast_socket m)) \<union> {DataIO} \<times> (data_channel m \<union> view_sockets m)"
    and ve: "\<not> m_is_view m \<Longrightarrow> set (socket_vec m) = command_channel m \<union> data_channel m"
    and vw: "m_is_view m \<Longrightarrow> command_channel m = {} \<and> data_channel m = {}"
    and vd: "\<not> m_is_view m \<Longrightarrow> view_devices m = (\<lambda>_. None)"
  show ?thesis
    unfolding sockets_ok_def
  proof (intro conjI, goal_cases)
    case 1
    show ?case by (simp; blast dest: c)
  next
    case 2
    show ?case by (simp add: le le_new_channel [OF le k])
  next
    case 3
    show ?case unfolding op by (simp; blast)
  next
    case 4
    show ?case unfolding de using v by (simp add: view_sockets_def; blast)
  next
    case 5
    show ?case using v ve by simp
  next
    case 6
    show ?case using v by simp
  next
    case 7
    show ?case using vd by simp
  qed
qed

lemma new_view_socket:
  assumes "sockets_ok m" and v: "m_is_view m" and k: "channel_info m key = None"
  shows "sockets_ok (m\<lparr>m_created := n, m_open := insert s (m_open m), socket_vec := socket_vec m @ [s],
    channel_info := (channel_info m)(key \<mapsto> s), m_delegates := insert (DataIO, s) (m_delegates m)\<rparr>)"
  using assms(1)
proof (rule sockets_okE)
  assume c: "\<And>key s. channel_info m key = Some s \<Longrightarrow> s = detection_socket m \<or> s \<in> set (socket_vec m)"
    and le: "custom_command_channel m \<subseteq>\<^sub>m channel_info m"
    and op: "m_open m = {detection_socket m, detection_broadcast_socket m} \<union> set (socket_vec m) \<union> set (vec_broadcast_socket m)"
    and de: "m_delegates m = {DetectionIO} \<times> {detection_socket m, detection_broadcast_socket m}
       \<union> {CmdIO} \<times> (command_channel m \<union> set (vec_broadcast_socket m)) \<union> {DataIO} \<times> (data_channel m \<union> view_sockets m)"
    and ve: "\<not> m_is_view m \<Longrightarrow> set (socket_vec m) = command_channel m \<union> data_channel m"
    and vw: "m_is_view m \<Longrightarrow> command_channel m = {} \<and> data_channel m = {}"
    and vd: "\<not> m_is_view m \<Longrightarrow> view_devices m = (\<lambda>_. None)"
  show ?thesis
    unfolding sockets_ok_def
  proof (intro conjI, goal_cases)
    case 1
    show ?case by (simp; blast dest: c)
  next
    case 2
    show ?case by (simp add: le le_new_channel [OF le k])
  next
    case 3
    show ?case unfolding op by (simp; blast)
  next
    case 4
    show ?case unfolding de using v vw [OF v] by (simp add: view_sockets_def; blast)
  next
    case 5
    show ?case using v by simp
  next
    case 6
    show ?case using vw by simp
  next
    case 7
    show ?case using vd by simp
  qed
qed

lemma new_broadcast_socket:
  assumes "sockets_ok m" and "True"
  shows "sockets_ok (m\<lparr>m_created := n, m_open := insert s (m_open m), vec_broadcast_socket := vec_broadcast_socket m @ [s], m_delegates := insert (CmdIO, s) (m_delegates m)\<rparr>)"
  using assms(1)
proof (rule sockets_okE)
  assume c: "\<And>key s. channel_info m key = Some s \<Longrightarrow> s = detection_socket m \<or> s \<in> set (socket_vec m)"
    and le: "custom_command_channel m \<subseteq>\<^sub>m channel_info m"
    and op: "m_open m = {detection_socket m, detection_broadcast_socket m} \<union> set (socket_vec m) \<union> set (vec_broadcast_socket m)"
    and de: "m_delegates m = {DetectionIO} \<times> {detection_socket m, detection_broadcast_socket m}
       \<union> {CmdIO} \<times> (command_channel m \<union> set (vec_broadcast_socket m)) \<union> {DataIO} \<times> (data_channel m \<union> view_sockets m)"
    and ve: "\<not> m_is_view m \<Longrightarrow> set (socket_vec m) = command_channel m \<union> data_channel m"
    and vw: "m_is_view m \<Longrightarrow> command_channel m = {} \<and> data_channel m = {}"
    and vd: "\<not> m_is_view m \<Longrightarrow> view_devices m = (\<lambda>_. None)"
  show ?thesis
    unfolding sockets_ok_def
  proof (intro conjI, goal_cases)
    case 1
    show ?case by (simp; blast dest: c)
  next
    case 2
    show ?case by (simp add: le)
  next
    case 3
    show ?case unfolding op by (simp; blast)
  next
    case 4
    show ?case unfolding de by (simp add: view_sockets_def; blast)
  next
    case 5
    show ?case using ve by simp
  next
    case 6
    show ?case using vw by simp
  next
    case 7
    show ?case using vd by simp
  qed
qed

lemma channel_reused:
  assumes "sockets_ok m" and "channel_info m key = Some s"
  shows "sockets_ok (m\<lparr>custom_command_channel := (custom_command_channel m)(key \<mapsto> s)\<rparr>)"
  using assms by (auto simp: sockets_ok_def view_sockets_def le_old_channel)

lemma sockets_ok_created [simp]: "sockets_ok (m\<lparr>m_created := n\<rparr>) = sockets_ok m"
  by (rule sockets_ok_part) simp

lemma CreateCmdSocket_keeps:
  assumes "CreateCmdSocketAndAddDelegate e ip port m = (ok, m')" and "\<not> m_is_view m"
  shows "keeps_running m m'"
proof (cases "ip = [] \<or> port = 0")
  case True
  then show ?thesis using assms by (auto simp: CreateCmdSocketAndAddDelegate_def)
next
  case False
  show ?thesis
  proof (cases "channel_info m (channel_key ip port)")
    case (Some s)
    then show ?thesis using assms False channel_reused [of m "channel_key ip port" s]
      by (auto simp: CreateCmdSocketAndAddDelegate_def Let_def keeps_running_def split: if_splits)
  next
    case None
    then show ?thesis using assms False new_command_socket [of m "channel_key ip port"]
      by (auto simp: CreateCmdSocketAndAddDelegate_def Let_def CreateSocket_def AddDelegate_def keeps_running_def
          socket_part_def sockets_ok_created split: if_splits)
  qed
qed

lemma CreateDataSocket_keeps:
  assumes "CreateDataSocketAndAddDelegate e ip port multi m = (ok, m')" and "\<not> m_is_view m"
  shows "keeps_running m m'"
  using assms new_data_socket [of m "channel_key ip port"]
  by (auto simp: CreateDataSocketAndAddDelegate_def Let_def CreateSocket_def AddDelegate_def keeps_running_def
      split: if_splits)

lemma CreateBroadcastSocket_keeps:
  assumes "CreateBroadcastSocket e port m = (ok, m')"
  shows "keeps_running m m'"
  using assms new_broadcast_socket [of m]
  by (auto simp: CreateBroadcastSocket_def Let_def CreateSocket_def AddDelegate_def keeps_running_def split: if_splits)

lemma CreateViewSocket_keeps:
  assumes "CreateViewSocket e ip port m = (ok, m')" and "m_is_view m"
  shows "keeps_running m m'"
  using assms new_view_socket [of m "channel_key ip port"]
  by (auto simp: CreateViewSocket_def Let_def CreateSocket_def AddDelegate_def keeps_running_def split: if_splits)

text \<open>Steps in sequence.\<close>

lemma keeps_view: "keeps_running m m' \<Longrightarrow> m_is_view m' = m_is_view m"
  by (simp add: keeps_running_def)

lemma cmd_snd: "\<not> m_is_view m \<Longrightarrow> keeps_running m (snd (CreateCmdSocketAndAddDelegate e ip port m))"
  by (cases "CreateCmdSocketAndAddDelegate e ip port m") (auto dest: CreateCmdSocket_keeps)

lemma data_snd: "\<not> m_is_view m \<Longrightarrow> keeps_running m (snd (CreateDataSocketAndAddDelegate e ip port multi m))"
  by (cases "CreateDataSocketAndAddDelegate e ip port multi m") (auto dest: CreateDataSocket_keeps)

lemma broadcast_snd: "keeps_running m (snd (CreateBroadcastSocket e port m))"
  by (cases "CreateBroadcastSocket e port m") (auto dest: CreateBroadcastSocket_keeps)

lemma and_then_snd:
  assumes "keeps_running m (snd r)" and "\<And>m1. keeps_running m m1 \<Longrightarrow> keeps_running m1 (snd (f m1))"
  shows "keeps_running m (snd (and_then r f))"
  using assms keeps_running_trans [of m "snd r" "snd (f (snd r))"] by (simp add: and_then_def)

lemma and_then_nv:
  assumes v: "\<not> m_is_view m" and "keeps_running m (snd r)"
    and "\<And>m1. \<not> m_is_view m1 \<Longrightarrow> keeps_running m1 (snd (f m1))"
  shows "keeps_running m (snd (and_then r f))"
  by (rule and_then_snd [OF assms(2)], rule assms(3)) (use v in \<open>simp add: keeps_view\<close>)

lemma CreateDataChannel_keeps: "\<not> m_is_view m \<Longrightarrow> keeps_running m (snd (CreateDataChannel e n m))"
  unfolding CreateDataChannel_def
  by (rule and_then_nv, assumption, rule data_snd, assumption, rule and_then_nv, assumption, rule data_snd, assumption,
      rule data_snd, assumption)

lemma CreateCommandChannel_keeps:
  assumes "CreateCommandChannel e t n m = Some r" and "\<not> m_is_view m"
  shows "keeps_running m (snd r)"
proof -
  from assms(1) obtain master where "m_master_sdk m = Some master" by (auto simp: CreateCommandChannel_def split: bind_splits)
  with assms(1) have r: "r = and_then (if master then CreateCmdSocketAndAddDelegate e (host_ip n) (hn_cmd_data_port n) m else (True, m)) (\<lambda>m.
     and_then (CreateCmdSocketAndAddDelegate e (host_ip n) (hn_push_msg_port n) m) (\<lambda>m.
     and_then (if t = kLivoxLidarTypePA then CreateCmdSocketAndAddDelegate e (host_ip n) kPaHostFaultPort m else (True, m)) (\<lambda>m.
     and_then (if t = kLivoxLidarTypeMid360 \<or> t = kLivoxLidarTypeMid360s
               then CreateBroadcastSocket e (hn_push_msg_port n) m else (True, m)) (\<lambda>m.
     if m_log_enable m then CreateCmdSocketAndAddDelegate e (host_ip n) (hn_log_data_port n) m else (True, m)))))"
    by (simp add: CreateCommandChannel_def)
  have c: "keeps_running m (snd (if b then CreateCmdSocketAndAddDelegate e ip port m else (True, m)))"
    if "\<not> m_is_view m" for b ip port m
    using cmd_snd [OF that] by simp
  have d: "keeps_running m (snd (if b then CreateBroadcastSocket e port m else (True, m)))" for b port m
    using broadcast_snd by simp
  show ?thesis
    unfolding r
    by (rule and_then_nv [OF assms(2) c [OF assms(2)]], rule and_then_nv, assumption, rule cmd_snd, assumption,
        rule and_then_nv, assumption, rule c, assumption, rule and_then_nv, assumption, rule d, rule c, assumption)
qed

lemma channels_of_keeps:
  "channels_of e cs m = Some (ok, m') \<Longrightarrow> \<not> m_is_view m \<Longrightarrow> keeps_running m m'"
proof (induction cs arbitrary: m)
  case Nil
  then show ?case by simp
next
  case (Cons c cs)
  obtain ok1 m1 where 1: "CreateDataChannel e (host_net_info c) m = (ok1, m1)" by fastforce
  have k1: "keeps_running m m1" using CreateDataChannel_keeps [OF Cons.prems(2), of e "host_net_info c"] 1 by simp
  have v1: "\<not> m_is_view m1" using keeps_view [OF k1] Cons.prems(2) by simp
  show ?case
  proof (cases ok1)
    case False
    then show ?thesis using Cons.prems(1) 1 k1 by simp
  next
    case True
    then obtain ok2 m2 where 2: "CreateCommandChannel e (device_type c) (host_net_info c) m1 = Some (ok2, m2)"
      using Cons.prems(1) 1 by (auto split: bind_splits)
    have k2: "keeps_running m1 m2" using CreateCommandChannel_keeps [OF 2 v1] by simp
    have v2: "\<not> m_is_view m2" using keeps_view [OF k2] v1 by simp
    show ?thesis
    proof (cases ok2)
      case False
      then show ?thesis using Cons.prems(1) 1 2 True k1 k2 keeps_running_trans by auto
    next
      case t2: True
      then have "channels_of e cs m2 = Some (ok, m')" using Cons.prems(1) 1 2 True by simp
      then have "keeps_running m2 m'" using v2 by (rule Cons.IH)
      then show ?thesis using k1 k2 keeps_running_trans by blast
    qed
  qed
qed

lemma CreateViewDataChannel_keeps: "m_is_view m \<Longrightarrow> keeps_running m (CreateViewDataChannel e v m)"
proof -
  have c: "keeps_running m (snd (CreateViewSocket e ip port m))" if "m_is_view m" for ip port m
    using that by (cases "CreateViewSocket e ip port m") (auto dest: CreateViewSocket_keeps)
  assume "m_is_view m"
  then show ?thesis unfolding CreateViewDataChannel_def by (intro and_then_snd c) (auto dest: keeps_view)
qed

section \<open>Every operation keeps the tables\<close>

lemma view_event_part: "socket_part (view_event ev m) = socket_part m"
  by (cases "(ev, m)" rule: view_event.cases) (auto simp: UpdateViewLidarCfgCallback_def split: option.split)

lemma fold_view_event_part: "socket_part (fold view_event evs m) = socket_part m"
  by (induction evs arbitrary: m) (simp_all add: view_event_part)

lemma general_call_part: "general_call f m = Some (evs, m') \<Longrightarrow> socket_part m' = socket_part m"
  by (auto simp: general_call_def Let_def fold_view_event_part split: bind_splits)

lemma general_do_keeps: "general_do f m = Some m' \<Longrightarrow> keeps_running m m'"
  by (auto simp: general_do_def intro: keeps_running_part general_call_part)

text \<open>Whatever a run returns has kept the tables. The rules follow the shape of the operations.\<close>

named_theorems run_intros

definition run_keeps :: "manager \<Rightarrow> manager option \<Rightarrow> bool" where
  "run_keeps m r \<longleftrightarrow> (sockets_ok m \<longrightarrow> (\<forall>m'. r = Some m' \<longrightarrow> keeps_running m m'))"

lemma run_keepsD: "run_keeps m r \<Longrightarrow> sockets_ok m \<Longrightarrow> r = Some m' \<Longrightarrow> keeps_running m m'"
  by (simp add: run_keeps_def)

lemma run_None [run_intros]: "run_keeps m None"
  by (simp add: run_keeps_def)

lemma run_Some [run_intros]: "keeps_running m m' \<Longrightarrow> run_keeps m (Some m')"
  by (simp add: run_keeps_def)

lemma run_if [run_intros]: "(b \<Longrightarrow> run_keeps m r) \<Longrightarrow> (\<not> b \<Longrightarrow> run_keeps m r') \<Longrightarrow> run_keeps m (if b then r else r')"
  by simp

lemma run_option [run_intros]:
  "(x = None \<Longrightarrow> run_keeps m r) \<Longrightarrow> (\<And>y. x = Some y \<Longrightarrow> run_keeps m (f y)) \<Longrightarrow>
   run_keeps m (case x of None \<Rightarrow> r | Some y \<Rightarrow> f y)"
  by (cases x) simp_all

lemma run_bind: "(\<And>y. x = Some y \<Longrightarrow> run_keeps m (f y)) \<Longrightarrow> run_keeps m (Option.bind x f)"
  by (cases x) (simp_all add: run_keeps_def)

lemma run_step:
  assumes k: "keeps_running m m1" and r: "run_keeps m1 r"
  shows "run_keeps m r"
  unfolding run_keeps_def
proof (intro impI allI)
  fix m' assume "sockets_ok m" "r = Some m'"
  then have "keeps_running m1 m'" using k r by (simp add: run_keeps_def keeps_running_def)
  with k show "keeps_running m m'" by (rule keeps_running_trans)
qed

lemma run_then:
  assumes "run_keeps m r" and "\<And>m1. keeps_running m m1 \<Longrightarrow> run_keeps m1 (f m1)"
  shows "run_keeps m (Option.bind r f)"
proof (cases r)
  case None
  then show ?thesis by (simp add: run_None)
next
  case (Some m1)
  show ?thesis
  proof (cases "sockets_ok m")
    case True
    then have k: "keeps_running m m1" by (rule run_keepsD [OF assms(1) _ Some])
    show ?thesis unfolding Some bind.simps by (rule run_step [OF k assms(2) [OF k]])
  next
    case False
    then show ?thesis by (simp add: run_keeps_def)
  qed
qed

lemma run_general [run_intros]: "run_keeps m (general_do f m)"
  by (simp add: run_keeps_def general_do_keeps)

lemma run_part: "socket_part m1 = socket_part m \<Longrightarrow> run_keeps m1 r \<Longrightarrow> run_keeps m r"
  by (rule run_step [OF keeps_running_part])

lemma AddViewLidar_keeps: "run_keeps m (AddViewLidar fuel call e h r m)"
proof (cases "m_is_view m")
  case True
  have k: "run_keeps m (general_do f (CreateViewDataChannel e v m\<lparr>view_lidars_info := a, view_devices := b\<rparr>))"
    for f v a b
  proof (rule run_step [OF CreateViewDataChannel_keeps [OF True]], rule run_part [rotated], rule run_general)
    have "m_is_view (CreateViewDataChannel e v m)" using keeps_view [OF CreateViewDataChannel_keeps [OF True]] True by simp
    then show "socket_part (CreateViewDataChannel e v m\<lparr>view_lidars_info := a, view_devices := b\<rparr>)
      = socket_part (CreateViewDataChannel e v m)" by simp
  qed
  show ?thesis
    unfolding AddViewLidar_def Let_def by (intro run_intros run_bind keeps_running_refl k)
next
  case False
  then have "AddViewLidar fuel call e h r m = Some m" if "sockets_ok m" "AddViewLidar fuel call e h r m = Some m'" for m'
    using that by (auto simp: AddViewLidar_def sockets_ok_def split: option.splits bind_splits if_splits)
  then show ?thesis by (auto simp: run_keeps_def)
qed

lemma mgr_HandleDetectionData_keeps: "run_keeps m (mgr_HandleDetectionData call e h t port g l m)"
proof -
  have i: "run_keeps m (if b then general_do f m else Some m)" for b f m
    by (intro run_intros keeps_running_refl)
  have p: "run_keeps m r" if "m_is_view m" "run_keeps (m\<lparr>view_devices := d\<rparr>) r" for d r
    using that(2) by (rule run_part [rotated]) (simp add: that(1))
  have q: "run_keeps m r" if "run_keeps (m\<lparr>lidars_dev_type := d\<rparr>) r" for d r
    using that by (rule run_part [rotated]) simp
  show ?thesis
    unfolding mgr_HandleDetectionData_def GetLivoxLidarInternalInfo_def Let_def
  proof (rule run_if, goal_cases)
    case 1
    show ?case by (intro run_intros keeps_running_refl)
  next
    case 2
    show ?case
    proof (rule run_if, goal_cases)
      case 1
      show ?case
        by (rule p [OF 1, where d = "(view_devices m)(h \<mapsto> case view_devices m h of
            Some d \<Rightarrow> d
          | None \<Rightarrow> \<lparr>vd_handle = h, vd_cmd_port = port, vd_dev_type = t, vd_is_get = False, vd_is_set = False\<rparr>)"],
          intro run_if run_option run_then run_general i run_Some keeps_running_refl)
    next
      case 2
      show ?case
      proof (rule run_option, goal_cases)
        case 1
        show ?case by (rule q [OF i])
      next
        case 2
        show ?case by (intro run_if i run_Some keeps_running_refl)
      qed
    qed
  qed
qed

lemma take_up_keeps: "run_keeps m (take_up fuel call e ev m)"
proof (cases ev)
  case (EvDetected h t port g l)
  show ?thesis unfolding EvDetected take_up.simps by (rule mgr_HandleDetectionData_keeps)
next
  case (EvCallback u status h r)
  show ?thesis unfolding EvCallback take_up.simps GetLivoxLidarInternalInfoCallback_def
    by (intro run_if run_Some keeps_running_refl AddViewLidar_keeps)
qed (simp_all add: run_Some)

lemma foldM_take_up_keeps: "run_keeps m (foldM (take_up fuel call e) evs m)"
proof (induction evs arbitrary: m)
  case Nil
  show ?case unfolding foldM.simps by (rule run_Some [OF keeps_running_refl])
next
  case (Cons ev evs)
  show ?case unfolding foldM.simps by (rule run_then [OF take_up_keeps Cons.IH])
qed

lemma general_handler_keeps: "run_keeps m (general_handler fuel call e f m)"
proof (cases "general_call f m")
  case None
  then show ?thesis by (simp add: general_handler_def run_None)
next
  case (Some r)
  then obtain evs m1 where "general_call f m = Some (evs, m1)" by (cases r) simp
  then show ?thesis
    unfolding general_handler_def by (simp add: run_part [OF general_call_part foldM_take_up_keeps])
qed

lemma data_do_keeps: "run_keeps m (data_do t h buf m)"
  by (auto simp: data_do_def run_keeps_def intro: keeps_running_part)

lemma AddFoundLidar_keeps: "\<not> m_is_view m \<Longrightarrow> run_keeps m (AddFoundLidar e h t m)"
proof -
  have c: "run_keeps m (do { (ok, m) \<leftarrow> channels_of e cs m; Some m })" if "\<not> m_is_view m" for cs m
    using channels_of_keeps [OF _ that] by (auto simp: run_keeps_def split: bind_splits)
  have v: "\<not> m_is_view m'" if "keeps_running m m'" "\<not> m_is_view m" for m m'
    using that keeps_view by simp
  assume nv: "\<not> m_is_view m"
  show ?thesis
    unfolding AddFoundLidar_def Let_def
  proof (rule run_option, goal_cases)
    case 1
    show ?case by (rule run_Some [OF keeps_running_refl])
  next
    case (2 c)
    show ?case
    proof (rule run_bind, rule run_part [rotated], rule run_then [OF run_general], goal_cases)
      case (1 cs m1)
      have nv1: "\<not> m_is_view m1" using keeps_view [OF 1(2)] nv by simp
      show ?case
      proof (rule run_then [OF run_general], goal_cases)
        case (1 m2)
        then show ?case by (intro c) (rule v [OF _ nv1])
      qed
    qed simp
  qed
qed

lemma OnData_keeps: "run_keeps m (OnData fuel call e h port buf got m)"
proof -
  have o: "socket_part (to_other_managers h port b m) = socket_part m" for b
    by (simp add: to_other_managers_def m_emit_def Let_def)
  have v: "run_keeps m (OnViewData fuel call e h port buf n m)" for n m
    unfolding OnViewData_def by (intro run_option run_if data_do_keeps general_handler_keeps)
  have c: "run_keeps m (OnCustomData fuel call e cfg h port buf n m)" for cfg n m
    unfolding OnCustomData_def Let_def by (intro run_if data_do_keeps general_handler_keeps run_Some keeps_running_refl)
  have u: "run_keeps m (OnUnknownData e h port buf n m)" if "\<not> m_is_view m" for n m
    unfolding OnUnknownData_def
    by (intro run_if run_Some run_None run_bind run_option keeps_running_refl AddFoundLidar_keeps [OF that])
  have d: "run_keeps m1 (if m_is_view m1 then OnViewData fuel call e h port buf n m1
      else case custom_lidars_cfg_map m1 h of Some c \<Rightarrow> OnCustomData fuel call e c h port buf n m1
        | None \<Rightarrow> OnUnknownData e h port buf n m1)" for n m1
    by (intro run_if run_option v c u)
  show ?thesis
    unfolding OnData_def Let_def
    by (intro run_if run_Some keeps_running_refl run_part [OF o d])
qed

lemma OnTimer_keeps: "run_keeps m (OnTimer fuel call e m)"
  unfolding OnTimer_def by (rule general_handler_keeps)

lemma Detection_keeps: "run_keeps m (Detection e m)"
  by (auto simp: Detection_def Let_def m_emit_def run_keeps_def socket_part_def intro!: keeps_running_part
      split: prod.splits bind_splits if_splits)

section \<open>A running manager\<close>

text \<open>The states between a successful start and the stop: datagrams, ticks of the timer of the event loops and
  rounds of the thread that looks for lidars come in any order, with any answers of the system.\<close>

inductive running :: "surroundings \<Rightarrow> manager \<Rightarrow> bool" for e where
  viewer: "Init_viewer e ip log_cfg manager_start = (True, m) \<Longrightarrow> running e m"
| configured: "Init_configured e lidars customs log_cfg framework manager_start = Some (True, m) \<Longrightarrow> running e m"
| datagram: "running e m \<Longrightarrow> OnData fuel call e h port buf got m = Some m' \<Longrightarrow> running e m'"
| timer: "running e m \<Longrightarrow> OnTimer fuel call e m = Some m' \<Longrightarrow> running e m'"
| look: "running e m \<Longrightarrow> DetectionLidars_round e m = Some m' \<Longrightarrow> running e m'"

definition no_sockets :: "manager \<Rightarrow> bool" where
  "no_sockets m \<longleftrightarrow> channel_info m = (\<lambda>_. None) \<and> custom_command_channel m = (\<lambda>_. None) \<and> m_open m = {} \<and>
     m_delegates m = {} \<and> socket_vec m = [] \<and> vec_broadcast_socket m = [] \<and> command_channel m = {} \<and>
     data_channel m = {} \<and> view_devices m = (\<lambda>_. None)"

lemma CreateDetectionChannel_ok:
  assumes "CreateDetectionChannel e m = (True, m')" and "no_sockets m"
  shows "sockets_ok m'" "m_is_view m' = m_is_view m" "detection_thread m' = detection_thread m"
  using assms
  by (auto simp: CreateDetectionChannel_def CreateSocket_def AddDelegate_def Let_def no_sockets_def sockets_ok_def
      view_sockets_def map_le_def split: if_splits)

text \<open>A manager that is not running has no sockets; its threads may still know some. New threads know none.\<close>

definition idle :: "manager \<Rightarrow> bool" where
  "idle m \<longleftrightarrow> channel_info m = (\<lambda>_. None) \<and> custom_command_channel m = (\<lambda>_. None) \<and> m_open m = {} \<and>
     socket_vec m = [] \<and> vec_broadcast_socket m = [] \<and> command_channel m = {} \<and> data_channel m = {} \<and>
     view_devices m = (\<lambda>_. None)"

lemma idle_start: "idle manager_start"
  by (simp add: idle_def manager_start_def)

lemma CreateIOThread_new:
  assumes "CreateIOThread e m = (True, m')"
  shows "m' = m\<lparr>m_delegates := {}\<rparr>"
proof -
  have "\<And>t. t = DetectionIO \<or> t = CmdIO \<or> t = DataIO" by (metis io_thread.exhaust)
  then have "{d \<in> m_delegates m. fst d \<noteq> DetectionIO \<and> fst d \<noteq> CmdIO \<and> fst d \<noteq> DataIO} = {}" by blast
  then show ?thesis
    using assms by (auto simp: CreateIOThread_def CreateThread_def and_then_def split: if_splits)
qed

lemma idle_new_threads: "idle m \<Longrightarrow> no_sockets (m\<lparr>m_delegates := {}\<rparr>)"
  by (simp add: idle_def no_sockets_def)

lemma start_detection_ok: "sockets_ok m \<Longrightarrow> sockets_ok (start_detection m) \<and> detection_thread (start_detection m)"
  by (auto simp: start_detection_def Let_def sockets_ok_def view_sockets_def)

lemma CreateDetectionChannel_master:
  "CreateDetectionChannel e m = (ok, m') \<Longrightarrow> m_master_sdk m' = m_master_sdk m"
  by (auto simp: CreateDetectionChannel_def CreateSocket_def AddDelegate_def Let_def split: if_splits)

lemma viewer_steps:
  assumes "Init_viewer e ip log_cfg m0 = (True, m)"
  shows "(case CreateDetectionChannel e (m0\<lparr>m_is_view := True, m_detection_host_ip := ip, m_has_port := True,
      m_log_enable := (log_cfg = Some True), m_general := Init_view ip True (m_general m0), m_delegates := {}\<rparr>) of
    (ok, m1) \<Rightarrow> ok \<and> m = start_detection m1)"
proof -
  let ?m = "m0\<lparr>m_is_view := True, m_detection_host_ip := ip, m_has_port := True,
    m_log_enable := (log_cfg = Some True), m_general := Init_view ip True (m_general m0)\<rparr>"
  obtain ok m1 where t: "CreateIOThread e ?m = (ok, m1)" by fastforce
  then have i: "ok" "and_then (CreateDetectionChannel e m1) (\<lambda>m. (True, start_detection m)) = (True, m)"
    using assms by (auto simp: Init_viewer_def Let_def and_then_def split: if_splits)
  have "m1 = ?m\<lparr>m_delegates := {}\<rparr>" using CreateIOThread_new t i(1) by simp
  then show ?thesis using i(2) by (auto simp: and_then_def split: if_splits)
qed

lemma Init_viewer_ok:
  assumes "Init_viewer e ip log_cfg m0 = (True, m)" and "idle m0"
  shows "sockets_ok m \<and> detection_thread m \<and> m_is_view m \<and> m_master_sdk m = m_master_sdk m0"
proof -
  let ?m = "m0\<lparr>m_is_view := True, m_detection_host_ip := ip, m_has_port := True,
    m_log_enable := (log_cfg = Some True), m_general := Init_view ip True (m_general m0), m_delegates := {}\<rparr>"
  have no: "no_sockets ?m" using assms(2) by (simp add: idle_def no_sockets_def)
  obtain ok m1 where c: "CreateDetectionChannel e ?m = (ok, m1)" by fastforce
  then have "ok" "m = start_detection m1" using viewer_steps [OF assms(1)] by (auto split: if_splits)
  then show ?thesis
    using CreateDetectionChannel_ok [of e ?m m1] CreateDetectionChannel_master [OF c] c no start_detection_ok [of m1]
    by (simp add: start_detection_def)
qed

lemma detection_host_nonempty:
  "detection_host (Some ls) (Some cs) \<noteq> None \<Longrightarrow> ls \<noteq> [] \<or> cs \<noteq> []"
  by (auto simp: detection_host_def)

lemma general_do_idle: "general_do f m = Some m' \<Longrightarrow> idle m \<Longrightarrow> \<not> m_is_view m \<Longrightarrow> idle m' \<and> \<not> m_is_view m'"
  using general_call_part [of f m _ m']
  by (auto simp: general_do_def idle_def socket_part_def)

lemma Init_configured_ok:
  assumes i: "Init_configured e lidars customs log_cfg framework m0 = Some (True, m)" and "idle m0"
  shows "sockets_ok m \<and> detection_thread m \<and> \<not> m_is_view m"
proof -
  obtain ip where ip: "detection_host lidars customs = Some ip"
    using i by (auto simp: Init_configured_def Let_def split: option.splits)
  obtain cs where cs: "customs = Some cs" using i ip by (auto simp: Init_configured_def Let_def split: if_splits bind_splits)
  obtain ls where ls: "lidars = Some ls" using i ip cs by (auto simp: Init_configured_def Let_def split: if_splits bind_splits)
  let ?m = "m0\<lparr>m_is_view := False, lidars_cfg_ptr := lidars, custom_lidars_cfg_ptr := customs,
    m_master_sdk := framework, m_detection_host_ip := ip, m_has_port := True, m_log_enable := (log_cfg = Some True)\<rparr>"
  obtain m1 t ok m2 where m1: "general_do (\<lambda>g. Some (Init_custom (keyed_cfgs e cs) g)) ?m = Some m1"
    and t: "CreateIOThread e (GetLidarConfigMap e ls cs m1) = (True, t)"
    and m2: "CreateChannel e t = Some (ok, m2)"
    and m: "ok" "m = start_detection m2"
    using i ip cs ls detection_host_nonempty [of ls cs]
    by (auto simp: Init_configured_def Let_def split: if_splits bind_splits prod.splits)
  have n0: "idle ?m" "\<not> m_is_view ?m" using assms(2) by (simp_all add: idle_def)
  have "idle (GetLidarConfigMap e ls cs m1)" "\<not> m_is_view (GetLidarConfigMap e ls cs m1)"
    using general_do_idle [OF m1 n0] by (simp_all add: GetLidarConfigMap_def idle_def)
  then have n1: "no_sockets t" "\<not> m_is_view t"
    using CreateIOThread_new [OF t] idle_new_threads by simp_all
  obtain b m3 where c: "CreateDetectionChannel e t = (b, m3)" by fastforce
  have b: "b" using m2 c m(1) by (auto simp: CreateChannel_def Let_def split: if_splits)
  note d = CreateDetectionChannel_ok [OF c [unfolded eqTrueI [OF b]] n1(1)]
  obtain cs' where "channels_of e cs' m3 = Some (ok, m2)" using m2 c b by (auto simp: CreateChannel_def Let_def split: bind_splits)
  then have "keeps_running m3 m2" by (rule channels_of_keeps) (simp add: d n1)
  then have "sockets_ok m2" "\<not> m_is_view m2" using d n1 by (simp_all add: keeps_running_def)
  then show ?thesis using start_detection_ok [of m2] m(2) by (simp add: start_detection_def)
qed

lemma running_ok: "running e m \<Longrightarrow> sockets_ok m \<and> detection_thread m"
proof (induction rule: running.induct)
  case (viewer ip log_cfg m)
  then show ?case using Init_viewer_ok idle_start by blast
next
  case (configured lidars customs log_cfg framework m)
  then show ?case using Init_configured_ok idle_start by blast
next
  case (datagram m fuel call h port buf got m')
  then have "keeps_running m m'" using run_keepsD [OF OnData_keeps] by blast
  then show ?case using datagram.IH by (simp add: keeps_running_def)
next
  case (timer m fuel call m')
  then have "keeps_running m m'" using run_keepsD [OF OnTimer_keeps] by blast
  then show ?case using timer.IH by (simp add: keeps_running_def)
next
  case (look m m')
  then have "keeps_running m m'"
    using run_keepsD [OF Detection_keeps] by (auto simp: DetectionLidars_round_def split: if_splits)
  then show ?case using look.IH by (simp add: keeps_running_def)
qed

text \<open>C7: in every running state the sockets are accounted for: what is open is what the manager lists, each socket
  is registered with the event loop that serves it, and a command or a log command to any lidar leaves
  through a socket that is open.\<close>

theorem manager_sockets:
  assumes "running e m"
  shows "sockets_ok m \<and> fst (mgr_SendCommand e h buf m) \<in> m_open m \<and> fst (mgr_SendLoggerCommand e h buf m) \<in> m_open m \<and>
    (\<forall>s \<in> m_open m. \<exists>t. (t, s) \<in> m_delegates m)"
proof -
  have ok: "sockets_ok m" using running_ok [OF assms] by blast
  then have o: "detection_socket m \<in> m_open m"
    "\<And>k s. custom_command_channel m k = Some s \<Longrightarrow> s \<in> m_open m"
    by (auto simp: sockets_ok_def map_le_def dom_def) metis+
  have "\<forall>s \<in> m_open m. \<exists>t. (t, s) \<in> m_delegates m"
    using ok by (cases "m_is_view m") (auto simp: sockets_ok_def view_sockets_def)
  then show ?thesis
    using ok o by (auto simp: mgr_SendCommand_def mgr_SendLoggerCommand_def Let_def GetCmdChannel_def
        GetLoggerCmdChannel_def split: option.splits)
qed

lemma close_all_open: "m_open (close_all ss m) = m_open m - set ss"
  by (induction ss arbitrary: m) (auto simp: close_all_def CloseSock_def)

lemma close_all_same [simp]:
  "m_delegates (close_all ss m) = m_delegates m" "detection_thread (close_all ss m) = detection_thread m"
  "detection_socket (close_all ss m) = detection_socket m" "socket_vec (close_all ss m) = socket_vec m"
  "detection_broadcast_socket (close_all ss m) = detection_broadcast_socket m"
  "vec_broadcast_socket (close_all ss m) = vec_broadcast_socket m"
  by (induction ss arbitrary: m) (simp_all add: close_all_def CloseSock_def)

lemma mgr_Destory_open:
  assumes "detection_thread m" and "0 < detection_socket m" and "0 < detection_broadcast_socket m"
  shows "m_open (mgr_Destory m) = m_open m - set (socket_vec m) - set (vec_broadcast_socket m)
    - {detection_socket m} - {detection_broadcast_socket m}"
  using assms by (simp add: mgr_Destory_def Let_def close_all_open remove_all_def CloseSock_def)

lemma mgr_Destory_delegates:
  "m_delegates (mgr_Destory m) = {d \<in> m_delegates m. \<not> (0 < snd d \<and>
     (fst d = DetectionIO \<and> snd d \<in> {detection_socket m, detection_broadcast_socket m} \<or>
      fst d = CmdIO \<and> snd d \<in> command_channel m \<union> set (vec_broadcast_socket m) \<or>
      fst d = DataIO \<and> snd d \<in> data_channel m))}"
  by (auto simp: mgr_Destory_def Let_def remove_all_def CloseSock_def)

lemma mgr_Destory_sockets:
  assumes "sockets_ok m" and t: "detection_thread m" and "\<forall>s \<in> m_open m. 0 < s"
  shows "m_open (mgr_Destory m) = {}"
    "m_delegates (mgr_Destory m) = (if m_is_view m then {DataIO} \<times> set (socket_vec m) else {})"
proof -
  note ok = assms(1) [unfolded sockets_ok_def]
  have pos: "0 < detection_socket m" "0 < detection_broadcast_socket m" using ok assms(3) by auto
  show "m_open (mgr_Destory m) = {}" using ok by (auto simp: mgr_Destory_open [OF t pos])
  show "m_delegates (mgr_Destory m) = (if m_is_view m then {DataIO} \<times> set (socket_vec m) else {})"
    using ok assms(3) by (cases "m_is_view m") (auto simp: mgr_Destory_delegates view_sockets_def)
qed

lemma mgr_Destory_idle: "m_open (mgr_Destory m) = {} \<Longrightarrow> idle (mgr_Destory m)"
  by (simp add: idle_def mgr_Destory_def Let_def remove_all_def CloseSock_def)

text \<open>Stopping a running manager closes every socket. The event loops forget them when the manager was
  configured; a viewer leaves the registrations of its data sockets behind, with the descriptors closed.\<close>

theorem Destory_releases:
  assumes "running e m" and "\<forall>s \<in> m_open m. 0 < s"
  shows "m_open (mgr_Destory m) = {} \<and>
    m_delegates (mgr_Destory m) = (if m_is_view m then {DataIO} \<times> set (socket_vec m) else {})"
  using running_ok [OF assms(1)] mgr_Destory_sockets assms(2) by blast

end
