(* ===== verification/Lvx_Datagrams.thy ===== *)
theory Lvx_Datagrams
  imports Lvx_Sockets
begin

text \<open>
  What the device manager does with a datagram: data goes to the receivers, a detection answer configures an
  unknown lidar, and two ways in which an answer stops the program: the loop over the parameters of
  a device, and the first detection answer of a viewer. The examples for the manager are at the end.
\<close>

section \<open>The parameter list of a viewer\<close>

lemma u8_less: "unat (i :: u8) < 256"
  using unsigned_less [of i, where ?'a = nat] by simp

lemma u8_suc: "unat (i :: u8) < 255 \<Longrightarrow> unat (i + 1) = Suc (unat i)"
  by (simp add: unat_word_ariths)

lemma param_loop_enough:
  assumes "unat n < 256" and "unat n - unat i \<le> fuel"
  shows "param_loop fuel i n off d v \<noteq> Running"
  using assms
proof (induction fuel arbitrary: i off v)
  case 0
  then show ?case by simp
next
  case (Suc fuel)
  show ?case
  proof (cases "unat i < unat n")
    case True
    then have "unat (i + 1) = Suc (unat i)" using Suc.prems(1) by (intro u8_suc) simp
    then have "param_loop fuel (i + 1) n off' d v' \<noteq> Running" for off' v'
      using Suc.prems by (intro Suc.IH) simp_all
    then show ?thesis using True by (simp split: option.split prod.split)
  qed simp
qed

lemma param_loop_never: "256 \<le> unat n \<Longrightarrow> param_loop fuel i n off d v \<noteq> Done v'"
proof (induction fuel arbitrary: i off v)
  case 0
  have "unat i < unat n" using u8_less [of i] 0 by (rule less_le_trans)
  then show ?case by simp
next
  case (Suc fuel)
  have "unat i < unat n" using u8_less [of i] Suc.prems by (rule less_le_trans)
  then show ?case using Suc by (simp split: option.split prod.split)
qed

text \<open>C28: the loop over the parameters of an answer ends when fewer than 256 are announced, after as many rounds.
  Its counter has eight bits: when more are announced it has no regular end, so it reads behind the answer or
  does not stop at all.\<close>

theorem param_loop_terminates:
  "if unat n < 256 then param_loop (unat n) 0 n off d v \<noteq> Running
   else \<forall>fuel v'. param_loop fuel 0 n off d v \<noteq> Done v'"
  by (simp add: param_loop_enough param_loop_never)

text \<open>An answer that brings the offset back to the start keeps the loop, and with it the thread of the command
  sockets, busy for ever.\<close>

lemma kv_read_back:
  assumes "take 4 d = [1, 0, 0xFC, 0xFF]"
  shows "kv_read 0 d v = Some (0, v)"
proof -
  obtain t where "d = [1, 0, 0xFC, 0xFF] @ t" using append_take_drop_id [of 4 d] assms by metis
  then have "rd d 0 2 = Some [1, 0]" "rd d (Suc (Suc 0)) 2 = Some [0xFC, 0xFF]" by (simp_all add: rd_def)
  moreover have "le_dec [1, 0 :: u8] = (1 :: u16)" "le_dec [0xFC, 0xFF :: u8] = (0xFFFC :: u16)" by simp_all
  ultimately show ?thesis by (simp add: kv_read_def)
qed

lemma param_loop_hangs:
  assumes "256 \<le> unat n" and "take 4 d = [1, 0, 0xFC, 0xFF]"
  shows "param_loop fuel i n 0 d v = Running"
proof (induction fuel arbitrary: i)
  case 0
  have "unat i < unat n" using u8_less [of i] assms(1) by (rule less_le_trans)
  then show ?case by simp
next
  case (Suc fuel)
  have "unat i < unat n" using u8_less [of i] assms(1) by (rule less_le_trans)
  then show ?case using Suc by (simp add: kv_read_back [OF assms(2)])
qed

section \<open>The way of a datagram\<close>

lemma OnData_other:
  assumes "0 < got" and "ntoa (base_env e) h \<noteq> m_detection_host_ip m"
    and "port \<notin> {kMid360LidarDebugPointCloudPort, kHAPDebugPointCloudPort, kHAPLogPort, kPaLidarLogPort, kMid360LidarLogPort}"
  shows "OnData fuel call e h port buf got m =
    (if m_is_view m then OnViewData fuel call e h port buf (word_of_int got) m
     else case custom_lidars_cfg_map m h of
         Some c \<Rightarrow> OnCustomData fuel call e c h port buf (word_of_int got) m
       | None \<Rightarrow> OnUnknownData e h port buf (word_of_int got) m)"
  using assms by (simp add: OnData_def to_other_managers_def Let_def)

text \<open>A datagram of a configured lidar that comes from its point or IMU port goes to the callback for its kind of
  data and to every observer, once each, and changes nothing else of the manager.\<close>

theorem data_reaches_receivers:
  assumes "0 < got" and "ntoa (base_env e) h \<noteq> m_detection_host_ip m"
    and "port \<notin> {kMid360LidarDebugPointCloudPort, kHAPDebugPointCloudPort, kHAPLogPort, kPaLidarLogPort, kMid360LidarLogPort}"
    and "\<not> m_is_view m" and "custom_lidars_cfg_map m h = Some c"
    and "port = ln_point_data_port (lidar_net_info c) \<or> port = ln_imu_data_port (lidar_net_info c)"
    and "11 \<le> length buf"
  shows "OnData fuel call e h port buf got m = Some (m\<lparr>m_data := (m_data m)\<lparr>data_calls := data_calls (m_data m) @
    map (\<lambda>f. \<lparr>dc_callback = f, dc_handle = h, dc_dev_type = device_type c, dc_packet = buf\<rparr>) (receivers buf (m_data m))\<rparr>\<rparr>)"
  using assms(4-6)
  by (auto simp: OnData_other [OF assms(1-3)] OnCustomData_def Let_def data_do_def dh_Handle_calls [OF assms(7)])

section \<open>The first answer in a viewer\<close>

lemma CreateDetectionChannel_rest:
  "CreateDetectionChannel e m = (ok, m') \<Longrightarrow> m_general m' = m_general m \<and> m_detection_host_ip m' = m_detection_host_ip m
     \<and> view_lidars_info m' = view_lidars_info m"
  by (auto simp: CreateDetectionChannel_def CreateSocket_def AddDelegate_def Let_def split: if_splits)

lemma Init_viewer_general:
  assumes "Init_viewer e ip log_cfg manager_start = (True, m)"
  shows "m_general m = Init_view ip True (general_init (\<lambda>_. None)) \<and> m_detection_host_ip m = ip \<and>
    view_lidars_info m = (\<lambda>_. None)"
proof -
  let ?m = "manager_start\<lparr>m_is_view := True, m_detection_host_ip := ip, m_has_port := True,
    m_log_enable := (log_cfg = Some True), m_general := Init_view ip True (m_general manager_start), m_delegates := {}\<rparr>"
  obtain ok m1 where c: "CreateDetectionChannel e ?m = (ok, m1)" by fastforce
  then have "ok" "m = start_detection m1" using viewer_steps [OF assms] by (auto split: if_splits)
  then show ?thesis
    using CreateDetectionChannel_rest [OF c] by (simp add: start_detection_def manager_start_def)
qed

lemma VerifyNetSegment_emit: "VerifyNetSegment ip (emit ev s) = VerifyNetSegment ip s"
  by (simp add: VerifyNetSegment_def)

lemma HandleDetectionData_no_framework:
  assumes "is_view s" and "devices s h = None" and "master_sdk e = None"
    and "VerifyNetSegment ip s = Some True" and "rd (cp_data p) 18 4 = Some ip" and "data_len p \<noteq> 0"
    and "rd (cp_data p) 0 1 = Some [0]"
  shows "HandleDetectionData call e h p s = None"
proof -
  have v: "VerifyNetSegment ip (emit ev s) = Some True" for ev
    using assms(4) by (simp add: VerifyNetSegment_emit)
  have c: "devices s' h = None" if "CreateCommandHandler t (emit ev s) = Some s'" for t ev s'
    using that assms(1,2) by (auto simp: CreateCommandHandler_def split: if_splits)
  have g: "GetFirmwareType call e h d s' = None" for d s'
    using assms(3) by (simp add: GetFirmwareType_def)
  have False if "HandleDetectionData call e h p s = Some r" for r
    using that assms(5-7) by (auto simp: HandleDetectionData_def Let_def v g dest: c split: bind_splits option.splits)
  then show ?thesis by (cases "HandleDetectionData call e h p s") auto
qed

text \<open>C34: a viewer dies of the first detection answer that comes from its own network segment: the query of the
  firmware type looks at the framework configuration, which only the other start of the SDK sets.\<close>

theorem viewer_detection_crashes:
  assumes "Init_viewer e (ip_string a b c d) log_cfg manager_start = (True, m)"
    and "0 < got" and "ntoa (base_env e) h \<noteq> ip_string a b c d"
    and "ParseCommStream (crc16 (base_env e)) (crc32 (base_env e)) buf (word_of_int got) = Some (Some p)"
    and "cmd_id p = kCommandIDLidarSearch" and "cmd_type p \<noteq> kCommandTypeCmd" and "data_len p \<noteq> 0"
    and "rd (cp_data p) 0 1 = Some [0]" and "rd (cp_data p) 18 4 = Some [a, b, c, x]"
  shows "OnData fuel call e h kDetectionPort buf got m = None"
proof -
  note g = Init_viewer_general [OF assms(1)]
  note i = Init_viewer_ok [OF assms(1) idle_start]
  let ?g = "Init_view (ip_string a b c d) True (general_init (\<lambda>_. None))"
  have "VerifyNetSegment [a, b, c, x] ?g = Some True"
    using VerifyNetSegment_same_segment [of ?g a b c d "[a, b, c, x]"] by (simp add: Init_view_def)
  then have "HandleDetectionData call (env_of e m) h p ?g = None"
    using assms(7-9) i by (intro HandleDetectionData_no_framework) (simp_all add: Init_view_def general_init_def env_of_def manager_start_def)
  then have "Handler call (env_of e m) h kDetectionPort buf (word_of_int got) ?g = None"
    using assms(4-6) ParseCommStream_nonempty [OF assms(4)]
    by (simp add: Handler_def env_of_def Init_view_def)
  then show ?thesis
    using g i assms(2,3)
    by (simp add: OnData_other OnViewData_def general_handler_def general_call_def)
qed

section \<open>A lidar that is not configured\<close>

text \<open>What the creation of sockets leaves alone.\<close>

definition conf_part where
  "conf_part m = (m_master_sdk m, custom_lidars_cfg_map m, custom_lidars_cfg_ptr m, type_lidars_cfg_map m, m_general m)"

lemma conf_part_simps [simp]:
  "conf_part (snd (CreateCmdSocketAndAddDelegate e ip port m)) = conf_part m"
  "conf_part (snd (CreateDataSocketAndAddDelegate e ip port multi m)) = conf_part m"
  "conf_part (snd (CreateBroadcastSocket e port m)) = conf_part m"
  by (auto simp: conf_part_def CreateCmdSocketAndAddDelegate_def CreateDataSocketAndAddDelegate_def
      CreateBroadcastSocket_def CreateSocket_def AddDelegate_def Let_def split: option.split)

lemma and_then_conf:
  assumes "conf_part (snd r) = conf_part m" and "\<And>m'. conf_part m' = conf_part m \<Longrightarrow> conf_part (snd (f m')) = conf_part m"
  shows "conf_part (snd (and_then r f)) = conf_part m"
  using assms by (simp add: and_then_def)

lemma CreateDataChannel_conf: "conf_part (snd (CreateDataChannel e n m)) = conf_part m"
  unfolding CreateDataChannel_def by (intro and_then_conf) simp_all

lemma CreateCommandChannel_conf:
  assumes "m_master_sdk m = Some b"
  shows "\<exists>r. CreateCommandChannel e t n m = Some r \<and> conf_part (snd r) = conf_part m"
  unfolding CreateCommandChannel_def assms bind.bind_lunit option.inject ex_simps
  by (rule exI, rule conjI [OF refl], intro and_then_conf) simp_all

lemma channels_of_total:
  assumes "m_master_sdk m \<noteq> None"
  shows "\<exists>r. channels_of e cs m = Some r \<and> conf_part (snd r) = conf_part m"
  using assms
proof (induction cs arbitrary: m)
  case Nil
  show ?case by simp
next
  case (Cons c cs)
  obtain ok1 m1 where 1: "CreateDataChannel e (host_net_info c) m = (ok1, m1)" by fastforce
  have c1: "conf_part m1 = conf_part m" using CreateDataChannel_conf [of e "host_net_info c" m] 1 by simp
  then obtain b where "m_master_sdk m1 = Some b" using Cons.prems by (auto simp: conf_part_def)
  then obtain ok2 m2 where 2: "CreateCommandChannel e (device_type c) (host_net_info c) m1 = Some (ok2, m2)"
    and c2: "conf_part m2 = conf_part m1"
    using CreateCommandChannel_conf [of m1 b e "device_type c" "host_net_info c"] by auto
  have "m_master_sdk m2 \<noteq> None" using c2 c1 Cons.prems by (simp add: conf_part_def)
  then obtain r where "channels_of e cs m2 = Some r" "conf_part (snd r) = conf_part m2" using Cons.IH by blast
  then show ?case using 1 2 c1 c2 by (cases r) auto
qed

lemma general_do_quiet:
  assumes "f (m_general m) = Some g" and "trace g = trace (m_general m)"
  shows "general_do f m = Some (m\<lparr>m_general := g\<rparr>)"
  using assms by (simp add: general_do_def general_call_def)

lemma Init_custom_keeps [simp]: "trace (Init_custom cfgs g) = trace g"
  "handlers g t \<noteq> None \<Longrightarrow> handlers (Init_custom cfgs g) t \<noteq> None"
  by (simp_all add: Init_custom_def create_missing_def AddDetectedLidar_def Let_def)

lemma CreateCommandHandler_existing:
  assumes "handlers g t \<noteq> None"
  shows "\<exists>g'. CreateCommandHandler t g = Some g' \<and> trace g' = trace g"
  using assms by (auto simp: CreateCommandHandler_def init_existing_def)

definition found_cfg :: "surroundings \<Rightarrow> u32 \<Rightarrow> LivoxLidarCfg \<Rightarrow> LivoxLidarCfg" where
  "found_cfg e h c = c\<lparr>lidar_net_info := (lidar_net_info c)\<lparr>lidar_ipaddr := ntoa (base_env e) h\<rparr>\<rparr>"

lemma AddFoundLidar_configures:
  assumes "type_lidars_cfg_map m t = Some c" and "custom_lidars_cfg_ptr m = Some cs"
    and "handlers (m_general m) t \<noteq> None" and "m_master_sdk m \<noteq> None"
  shows "\<exists>m'. AddFoundLidar e h t m = Some m' \<and> custom_lidars_cfg_ptr m' = Some (cs @ [found_cfg e h c]) \<and>
    custom_lidars_cfg_map m' = (custom_lidars_cfg_map m)(h \<mapsto> found_cfg e h c)"
proof -
  let ?c = "found_cfg e h c"
  let ?m = "m\<lparr>type_lidars_cfg_map := (type_lidars_cfg_map m)(t \<mapsto> ?c),
    custom_lidars_cfg_map := (custom_lidars_cfg_map m)(h \<mapsto> ?c), custom_lidars_cfg_ptr := Some (cs @ [?c])\<rparr>"
  let ?g = "Init_custom (keyed_cfgs e (cs @ [?c])) (m_general m)"
  have 1: "general_do (\<lambda>g. Some (Init_custom (keyed_cfgs e (cs @ [?c])) g)) ?m = Some (?m\<lparr>m_general := ?g\<rparr>)"
    by (rule general_do_quiet) simp_all
  obtain g' where "CreateCommandHandler t ?g = Some g'" "trace g' = trace ?g"
    using CreateCommandHandler_existing [OF Init_custom_keeps(2) [OF assms(3)]] by blast
  then have 2: "general_do (CreateCommandHandler t) (?m\<lparr>m_general := ?g\<rparr>) = Some (?m\<lparr>m_general := g'\<rparr>)"
    by (subst general_do_quiet) simp_all
  obtain ok m' where 3: "channels_of e (cs @ [?c]) (?m\<lparr>m_general := g'\<rparr>) = Some (ok, m')"
    and c: "conf_part m' = conf_part (?m\<lparr>m_general := g'\<rparr>)"
    using channels_of_total [of "?m\<lparr>m_general := g'\<rparr>" e "cs @ [?c]"] assms(4) by auto
  have "AddFoundLidar e h t m = Some m'"
    using 1 2 3 assms(1,2) by (simp add: AddFoundLidar_def Let_def found_cfg_def)
  then show ?thesis using c by (simp add: conf_part_def)
qed

text \<open>C18: the detection answer of a lidar whose address is not configured, but whose type is, configures the address: its
  next datagrams are those of a configured lidar.\<close>

theorem unknown_lidar_is_configured:
  assumes "0 < got" and "ntoa (base_env e) h \<noteq> m_detection_host_ip m" and "\<not> m_is_view m"
    and "custom_lidars_cfg_map m h = None" and "m_has_port m"
    and "ParseCommStream (crc16 (base_env e)) (crc32 (base_env e)) buf (word_of_int got) = Some (Some p)"
    and "cmd_id p = kCommandIDLidarSearch" and "data_len p \<noteq> 0"
    and "rd (cp_data p) 0 1 = Some [0]" and "rd (cp_data p) 1 1 = Some [t]"
    and "type_lidars_cfg_map m t = Some c" and "custom_lidars_cfg_ptr m = Some cs"
    and "handlers (m_general m) t \<noteq> None" and "m_master_sdk m \<noteq> None"
  shows "\<exists>m'. OnData fuel call e h kDetectionPort buf got m = Some m' \<and>
    custom_lidars_cfg_ptr m' = Some (cs @ [found_cfg e h c]) \<and>
    custom_lidars_cfg_map m' = (custom_lidars_cfg_map m)(h \<mapsto> found_cfg e h c)"
proof -
  have "OnData fuel call e h kDetectionPort buf got m = AddFoundLidar e h t m"
    using assms(1-10) by (simp add: OnData_other OnUnknownData_def)
  then show ?thesis using AddFoundLidar_configures [OF assms(11-14)] by simp
qed

section \<open>Examples\<close>

definition example_surroundings :: surroundings where
  "example_surroundings = \<lparr>base_env = example_env, create_socket = (\<lambda>n _ _ _. 10 + int n),
     sendto = (\<lambda>_ b. int (length b)), inet_addr = (\<lambda>_. 88), logs_ready = True, io_threads_ready = (\<lambda>_. True)\<rparr>"

definition example_viewer :: manager where
  "example_viewer = snd (Init_viewer example_surroundings (ip_string 192 168 1 5) None manager_start)"

lemma example_viewer_fields:
  "Init_viewer example_surroundings (ip_string 192 168 1 5) None manager_start = (True, example_viewer)"
  "m_open example_viewer = {10, 11}" "detection_socket example_viewer = 11" "socket_vec example_viewer = []"
  by (simp_all add: example_viewer_def Init_viewer_def example_surroundings_def manager_start_def Let_def and_then_def
      CreateIOThread_def CreateThread_def CreateDetectionChannel_def CreateSocket_def AddDelegate_def start_detection_def
      insert_commute)

definition example_manager :: manager where
  "example_manager = snd (the (Init_configured example_surroundings (Some [example_cfg]) (Some []) (Some False)
     (Some True) manager_start))"

lemma example_manager_starts:
  "\<exists>m. Init_configured example_surroundings (Some [example_cfg]) (Some []) (Some False) (Some True) manager_start
     = Some (True, m)"
  by (simp add: Init_configured_def example_surroundings_def detection_host_def manager_start_def Let_def general_do_quiet
      GetLidarConfigMap_def CreateIOThread_def CreateThread_def and_then_def CreateChannel_def CreateDetectionChannel_def
      CreateSocket_def AddDelegate_def)

lemma example_manager_start:
  "Init_configured example_surroundings (Some [example_cfg]) (Some []) (Some False) (Some True) manager_start
     = Some (True, example_manager)"
  using example_manager_starts by (auto simp: example_manager_def)

text \<open>A detection answer of a Mid-360.\<close>

definition answer_frame :: bytes where
  "answer_frame = [0xAA, 0, 48, 0, 9, 0, 0, 0, 0, 0, 1, 1, 0, 0, 0, 0, 0, 0, 5, 0, 6, 0, 0, 0] @
     [0, 9] @ replicate 16 0 @ [192, 168, 1, 100, 0, 0]"

definition answer_packet :: CommPacket where
  "answer_packet = \<lparr>protocol = 0, cp_version = 0, seq_num = 9, cmd_id = 0, cmd_type = 1, sender_type = 1,
     cp_data = drop 24 answer_frame, data_len = 24\<rparr>"

lemma answer_frame_parse:
  "ParseCommStream (crc16 (base_env example_surroundings)) (crc32 (base_env example_surroundings)) answer_frame
     (word_of_int 48) = Some (Some answer_packet)"
  unfolding example_surroundings_def example_env_def by code_simp

lemma answer_packet_sel:
  "cmd_id answer_packet = 0" "cmd_type answer_packet = 1" "data_len answer_packet = 24"
  "rd (cp_data answer_packet) 0 (Suc 0) = Some [0]" "rd (cp_data answer_packet) (Suc 0) (Suc 0) = Some [9]"
  "rd (cp_data answer_packet) 18 4 = Some [192, 168, 1, 100]"
  by (simp_all add: answer_packet_def answer_frame_def rd_def)

theorem manager_sockets_witness:
  "sockets_ok example_manager \<and> fst (mgr_SendCommand example_surroundings 5 [1, 2] example_manager) \<in> m_open example_manager"
  using manager_sockets [OF running.configured [OF example_manager_start]] by blast

theorem Destory_releases_witness:
  "m_open (mgr_Destory example_viewer) = {} \<and> m_delegates (mgr_Destory example_viewer) = {}"
  using Destory_releases [OF running.viewer [OF example_viewer_fields(1)]] by (simp add: example_viewer_fields)

theorem data_reaches_receivers_witness:
  "map_option (\<lambda>m. data_calls (m_data m)) (OnData 0 (invoke 1) example_surroundings 88 56300 (replicate 11 0) 11
     (manager_start\<lparr>custom_lidars_cfg_map := [88 \<mapsto> example_cfg], m_data := dh_start\<lparr>imu_data_callbacks := Some 3\<rparr>\<rparr>))
   = Some [\<lparr>dc_callback = 3, dc_handle = 88, dc_dev_type = 9, dc_packet = replicate 11 0\<rparr>]"
  by (subst data_reaches_receivers [of 11 example_surroundings 88 _ 56300 example_cfg])
    (simp_all add: example_surroundings_def example_env_def manager_start_def example_cfg_def receivers_def dh_start_def
      map_filter_simps)

theorem viewer_detection_crashes_witness:
  "OnData 0 (invoke 13) example_surroundings 88 kDetectionPort answer_frame 48 example_viewer = None"
proof (rule viewer_detection_crashes [OF example_viewer_fields(1) _ _ answer_frame_parse])
  show "ntoa (base_env example_surroundings) 88 \<noteq> ip_string 192 168 1 5" by code_simp
qed (simp_all add: answer_packet_sel)

theorem unknown_lidar_is_configured_witness:
  "\<exists>m'. OnData 0 (invoke 13) example_surroundings 88 kDetectionPort answer_frame 48
      (manager_start\<lparr>m_has_port := True, type_lidars_cfg_map := [9 \<mapsto> example_cfg], custom_lidars_cfg_ptr := Some [],
         m_master_sdk := Some True, m_general := Init_custom [] (general_init (\<lambda>_. None))\<rparr>) = Some m' \<and>
    custom_lidars_cfg_map m' 88 \<noteq> None"
proof -
  let ?m = "manager_start\<lparr>m_has_port := True, type_lidars_cfg_map := [9 \<mapsto> example_cfg], custom_lidars_cfg_ptr := Some [],
         m_master_sdk := Some True, m_general := Init_custom [] (general_init (\<lambda>_. None))\<rparr>"
  have "handlers (m_general ?m) 9 \<noteq> None"
    by (simp add: Init_custom_def create_missing_def AddDetectedLidar_def general_init_def Let_def)
  moreover have "ntoa (base_env example_surroundings) 88 \<noteq> m_detection_host_ip ?m"
    by (simp add: example_surroundings_def example_env_def manager_start_def)
  ultimately show ?thesis
    using unknown_lidar_is_configured [OF _ _ _ _ _ answer_frame_parse, where m = ?m and h = 88 and t = 9
        and c = example_cfg and cs = "[]" and fuel = 0 and call = "invoke 13"]
    by (fastforce simp: answer_packet_sel manager_start_def simp del: Init_custom_keeps)
qed

end
