(* ===== verification/Lvx_Upgrade.thy ===== *)
theory Lvx_Upgrade
  imports Prelude
begin

text \<open>
  Firmware upgrades of the Livox SDK: the firmware file (\<^verbatim>\<open>upgrade/firmware.cpp\<close>), the state machine of the upgrade
  of one device (\<^verbatim>\<open>upgrade/livox_lidar_upgrader.cpp\<close>) and the manager (\<^verbatim>\<open>upgrade_manager.cpp\<close>).

  A request goes to the command layer with a handler for its answer. Here it is put on the list
  \<open>waiting\<close>, and the answers come in any order as steps of their own, also those that the command layer makes itself:
  a timeout, and the report of a send that the network refused, which leaves the request where it is
  (\<^verbatim>\<open>SendCommand_failure_reported_twice\<close> in \<^verbatim>\<open>Lvx_General\<close>). The only thing that the code does after a request is the
  call of the observer. Two simplifications: the report of a refused send, whose callback runs inside \<^verbatim>\<open>SendCommand\<close> before the
  request is registered and before the observer is called, is a step of its own that comes later; and a request to a device that the command layer
  does not know, which registers nothing and calls nothing back, is not represented: its requests wait for ever, as an upgrade
  of an unknown device does.
\<close>

section \<open>The firmware file\<close>

text \<open>The packed header has 286 bytes; its fields are read where they lie. \<open>fw_stream\<close> tells whether the stream is open. The
  file is given by its contents.\<close>

record Firmware =
  fw_header :: bytes
  fw_data :: bytes
  fw_tail :: bytes
  file_size :: u64
  fw_stream :: bool

definition mk_Firmware :: Firmware where
  "mk_Firmware = \<lparr>fw_header = replicate 286 0, fw_data = [], fw_tail = replicate 16 0, file_size = 0, fw_stream = False\<rparr>"

definition MiniFileSize :: u64 where
  "MiniFileSize = 286 + 16 + 1"

definition hdr :: "nat \<Rightarrow> nat \<Rightarrow> Firmware \<Rightarrow> bytes" where
  "hdr off n f = take n (drop off (fw_header f))"

definition FirmwarePackageVersion :: "Firmware \<Rightarrow> u32" where "FirmwarePackageVersion f = le_dec (hdr 0 4 f)"
definition firmware_length :: "Firmware \<Rightarrow> u32" where "firmware_length f = le_dec (hdr 8 4 f)"

text \<open>\<open>fresh n\<close> is the content of new memory of \<open>n\<close> bytes. A read from a file that is too short keeps what it found, and a
  stream that has failed reads nothing more.\<close>

definition read_from :: "bytes \<Rightarrow> nat \<Rightarrow> bytes \<Rightarrow> bytes" where
  "read_from file off old = (let got = take (length old) (drop off file) in got @ drop (length got) old)"

definition ReadAndCheckHeader :: "(bytes \<Rightarrow> u16) \<Rightarrow> (nat \<Rightarrow> bytes) \<Rightarrow> bytes \<Rightarrow> Firmware \<Rightarrow> bool \<times> Firmware" where
  "ReadAndCheckHeader crc16 fresh file f =
     (let f = f\<lparr>fw_header := read_from file 0 (fw_header f)\<rparr> in
      if crc16 (hdr 0 284 f) \<noteq> le_dec (hdr 284 2 f) then (False, f)
      else (let n = unat (firmware_length f);
                f = f\<lparr>fw_data := read_from file 286 (fresh n)\<rparr>
            in (True, if length file < 286 + n then f
                      else f\<lparr>fw_tail := read_from file (286 + n) (fw_tail f)\<rparr>)))"

text \<open>A stream that is open already cannot be opened: it fails, \<^verbatim>\<open>tellg\<close> answers -1 and nothing is read. No return
  from here closes the stream.\<close>

definition Firmware_Open :: "(bytes \<Rightarrow> u16) \<Rightarrow> (nat \<Rightarrow> bytes) \<Rightarrow> bytes option \<Rightarrow> Firmware \<Rightarrow> bool \<times> Firmware" where
  "Firmware_Open crc16 fresh file f =
     (if fw_stream f
      then ReadAndCheckHeader crc16 fresh [] (f\<lparr>file_size := -1\<rparr>)
      else (case file of
          None \<Rightarrow> (False, f)
        | Some content \<Rightarrow>
            (let f = f\<lparr>fw_stream := True, file_size := of_nat (length content)\<rparr> in
             if file_size f < MiniFileSize then (False, f)
             else ReadAndCheckHeader crc16 fresh content f)))"

definition Firmware_Close :: "Firmware \<Rightarrow> Firmware" where
  "Firmware_Close f = f\<lparr>fw_stream := False\<rparr>"

section \<open>The state machine\<close>

datatype LivoxLidarFsmEvent = EventRequestUpgrade | EventXferFirmware | EventCompleteXferFirmware
  | EventGetUpgradeProgress | EventComplete | EventReinit | EventTimeout | EventErr | EventUndef

fun event_code :: "LivoxLidarFsmEvent \<Rightarrow> u32" where
  "event_code EventRequestUpgrade = 0"
| "event_code EventXferFirmware = 1"
| "event_code EventCompleteXferFirmware = 2"
| "event_code EventGetUpgradeProgress = 3"
| "event_code EventComplete = 4"
| "event_code EventReinit = 5"
| "event_code EventTimeout = 6"
| "event_code EventErr = 7"
| "event_code EventUndef = 8"

abbreviation UpgradeIdle :: u32 where "UpgradeIdle \<equiv> 0"
abbreviation UpgradeRequest :: u32 where "UpgradeRequest \<equiv> 1"
abbreviation UpgradeXferFirmware :: u32 where "UpgradeXferFirmware \<equiv> 2"
abbreviation UpgradeCompleteXferFirmware :: u32 where "UpgradeCompleteXferFirmware \<equiv> 3"
abbreviation UpgradeGetUpgradeProgress :: u32 where "UpgradeGetUpgradeProgress \<equiv> 4"
abbreviation UpgradeCompleted :: u32 where "UpgradeCompleted \<equiv> 5"
abbreviation UpgradeTimeout :: u32 where "UpgradeTimeout \<equiv> 6"
abbreviation UpgradeErr :: u32 where "UpgradeErr \<equiv> 7"

abbreviation kGeneralTryCountLimit :: u32 where "kGeneralTryCountLimit \<equiv> 10"
abbreviation kGetProcessTryCountLimit :: u32 where "kGetProcessTryCountLimit \<equiv> 30"
abbreviation kSystemIsNotReady :: u8 where "kSystemIsNotReady \<equiv> 2"
abbreviation EraseFirmware :: u8 where "EraseFirmware \<equiv> 0x34"
abbreviation kEnlFileVersionV3 :: u32 where "kEnlFileVersionV3 \<equiv> 0x03000000"

text \<open>The handlers of answers, which stand for the requests that they are registered with, and the member functions of the
  event table.\<close>

datatype up_handler = StartUpgradeResponse | XferFirmwareResponse | CompleteXferFirmwareResponse
  | GetProgressResponse | UpgradeCompleteResponse

datatype FnFsmEvent = DoStartUpgrade | DoXferFirmware | DoCompleteXferFirmware | DoGetUpgradeProgress | DoUpgradeComplete

record up_request =
  rq_handler :: up_handler
  rq_cmd_id :: u16
  rq_data :: bytes

record upgrader =
  read_offset :: u32
  read_length :: u32
  up_handle :: u32
  fsm_state :: u32
  upgrade_error :: u32
  up_progress :: u8
  try_count :: u32
  up_observer :: bool
  waiting :: "up_request list"
  sent :: "up_request list"
  notified :: "(LivoxLidarFsmEvent \<times> u8) list"

definition mk_LivoxLidarUpgrader :: "u32 \<Rightarrow> upgrader" where
  "mk_LivoxLidarUpgrader h = \<lparr>read_offset = 0, read_length = 1024, up_handle = h, fsm_state = 0, upgrade_error = 0,
     up_progress = 0, try_count = 0, up_observer = False, waiting = [], sent = [], notified = []\<rparr>"

definition AddUpgradeProgressObserver :: "upgrader \<Rightarrow> upgrader" where
  "AddUpgradeProgressObserver u = u\<lparr>up_observer := True\<rparr>"

definition IsUpgradeComplete :: "upgrader \<Rightarrow> bool" where
  "IsUpgradeComplete u \<longleftrightarrow> fsm_state u = UpgradeIdle"

definition IsUpgradeError :: "upgrader \<Rightarrow> bool" where
  "IsUpgradeError u \<longleftrightarrow> fsm_state u = UpgradeTimeout \<or> fsm_state u = UpgradeErr"

definition request :: "up_handler \<Rightarrow> u16 \<Rightarrow> bytes \<Rightarrow> upgrader \<Rightarrow> upgrader" where
  "request h c b u = (let r = \<lparr>rq_handler = h, rq_cmd_id = c, rq_data = b\<rparr>
     in u\<lparr>waiting := waiting u @ [r], sent := sent u @ [r]\<rparr>)"

text \<open>The requests. \<open>stk\<close> is what the buffer on the stack holds before the request is written to it.\<close>

definition StartUpgrade :: "Firmware \<Rightarrow> upgrader \<Rightarrow> upgrader" where
  "StartUpgrade f u =
     (let u = u\<lparr>read_offset := 0, upgrade_error := 0, up_progress := 0\<rparr>;
          req = hdr 12 1 f @ hdr 14 1 f @ hdr 8 4 f @ hdr 13 1 f
      in if FirmwarePackageVersion f = kEnlFileVersionV3
         then request StartUpgradeResponse 0x0400 (req @ hdr 4 4 f @ hdr 276 8 f @ hdr 148 32 f) u
         else request StartUpgradeResponse 0x0400 req u)"

definition XferFirmware :: "bytes \<Rightarrow> Firmware \<Rightarrow> upgrader \<Rightarrow> upgrader option" where
  "XferFirmware stk f u =
     (if read_offset u < firmware_length f
      then (let n = (if read_length u > firmware_length f - read_offset u then firmware_length f - read_offset u
                     else read_length u)
            in do {
              d \<leftarrow> rd (fw_data f) (unat (read_offset u)) (unat n);
              Some (request XferFirmwareResponse 0x0401
                (le_enc 4 (read_offset u) @ le_enc 4 n @ hdr 14 1 f @ take 3 (drop 9 stk) @ d) u)
            })
      else Some u)"

text \<open>The length of the checksum goes through one byte, and the copy may go on behind the checksum, into
  the rest of the header.\<close>

definition CompleteXferFirmware :: "Firmware \<Rightarrow> upgrader \<Rightarrow> upgrader option" where
  "CompleteXferFirmware f u = do {
     let n = (ucast (le_dec (hdr 18 2 f) :: u16) :: u8);
     c \<leftarrow> rd (fw_header f) 20 (unat n);
     Some (request CompleteXferFirmwareResponse 0x0402 (hdr 17 1 f @ [n] @ c) u)
   }"

definition GetUpgradeProgress :: "upgrader \<Rightarrow> upgrader" where
  "GetUpgradeProgress u = request GetProgressResponse 0x0403 [] u"

definition UpgradeComplete :: "upgrader \<Rightarrow> upgrader" where
  "UpgradeComplete u = request UpgradeCompleteResponse 0x0200 (le_enc 2 (100 :: u16)) u"

fun run_handler :: "bytes \<Rightarrow> Firmware \<Rightarrow> FnFsmEvent \<Rightarrow> upgrader \<Rightarrow> upgrader option" where
  "run_handler stk f DoStartUpgrade u = Some (StartUpgrade f u)"
| "run_handler stk f DoXferFirmware u = XferFirmware stk f u"
| "run_handler stk f DoCompleteXferFirmware u = CompleteXferFirmware f u"
| "run_handler stk f DoGetUpgradeProgress u = Some (GetUpgradeProgress u)"
| "run_handler stk f DoUpgradeComplete u = Some (UpgradeComplete u)"

definition upgrade_event_table :: "(u32 \<times> LivoxLidarFsmEvent \<times> FnFsmEvent option \<times> u32) list" where
  "upgrade_event_table =
     [(UpgradeIdle, EventRequestUpgrade, Some DoStartUpgrade, UpgradeRequest),
      (UpgradeRequest, EventRequestUpgrade, Some DoStartUpgrade, UpgradeRequest),
      (UpgradeRequest, EventXferFirmware, Some DoXferFirmware, UpgradeXferFirmware),
      (UpgradeXferFirmware, EventXferFirmware, Some DoXferFirmware, UpgradeXferFirmware),
      (UpgradeXferFirmware, EventCompleteXferFirmware, Some DoCompleteXferFirmware, UpgradeCompleteXferFirmware),
      (UpgradeCompleteXferFirmware, EventCompleteXferFirmware, Some DoCompleteXferFirmware, UpgradeCompleteXferFirmware),
      (UpgradeCompleteXferFirmware, EventGetUpgradeProgress, Some DoGetUpgradeProgress, UpgradeGetUpgradeProgress),
      (UpgradeGetUpgradeProgress, EventGetUpgradeProgress, Some DoGetUpgradeProgress, UpgradeGetUpgradeProgress),
      (UpgradeGetUpgradeProgress, EventComplete, Some DoUpgradeComplete, UpgradeCompleted),
      (UpgradeCompleted, EventComplete, Some DoUpgradeComplete, UpgradeCompleted),
      (UpgradeCompleted, EventReinit, None, UpgradeIdle)]"

definition LivoxLidarFsmStateChange :: "LivoxLidarFsmEvent \<Rightarrow> upgrader \<Rightarrow> upgrader" where
  "LivoxLidarFsmStateChange ev u = (if event_code ev < event_code EventUndef then u\<lparr>fsm_state := event_code ev\<rparr> else u)"

definition notify :: "LivoxLidarFsmEvent \<Rightarrow> u8 \<Rightarrow> upgrader \<Rightarrow> upgrader" where
  "notify ev p u = (if up_observer u then u\<lparr>notified := notified u @ [(ev, p)]\<rparr> else u)"

definition FsmEventHandler :: "bytes \<Rightarrow> Firmware \<Rightarrow> LivoxLidarFsmEvent \<Rightarrow> u8 \<Rightarrow> upgrader \<Rightarrow> upgrader option" where
  "FsmEventHandler stk f ev p u =
     (let u = (if ev = EventTimeout \<or> ev = EventErr then LivoxLidarFsmStateChange ev u else u)
      in map_option (notify ev p)
        (case find (\<lambda>(s, e, _, _). fsm_state u = s \<and> ev = e) upgrade_event_table of
           None \<Rightarrow> Some u
         | Some (_, _, handler, next_state) \<Rightarrow>
             (let u = u\<lparr>fsm_state := next_state\<rparr> in
              case handler of None \<Rightarrow> Some u | Some h \<Rightarrow> run_handler stk f h u)))"

definition StartUpgradeLivoxLidar :: "bytes \<Rightarrow> Firmware \<Rightarrow> upgrader \<Rightarrow> upgrader option" where
  "StartUpgradeLivoxLidar stk f u = FsmEventHandler stk f EventRequestUpgrade 10 u"

section \<open>Answers\<close>

text \<open>An answer that is no success: a timeout, or a send that failed. The count starts again when it reaches the limit.\<close>

definition try_again :: "bytes \<Rightarrow> Firmware \<Rightarrow> u32 \<Rightarrow> LivoxLidarFsmEvent \<Rightarrow> u8 \<Rightarrow> LivoxLidarFsmEvent \<Rightarrow> upgrader \<Rightarrow> upgrader option" where
  "try_again stk f limit ev p gives_up u =
     (let u = u\<lparr>try_count := try_count u + 1\<rparr>
      in if try_count u < limit then FsmEventHandler stk f ev p u
         else FsmEventHandler stk f gives_up 100 (u\<lparr>try_count := 0\<rparr>))"

definition StartUpgradeResponseHandler :: "bytes \<Rightarrow> Firmware \<Rightarrow> int \<Rightarrow> bytes \<Rightarrow> upgrader \<Rightarrow> upgrader option" where
  "StartUpgradeResponseHandler stk f status response u =
     (if status = 0
      then (let u = u\<lparr>try_count := 0\<rparr> in do {
        ret \<leftarrow> rd response 0 1;
        if hd ret \<noteq> 0
        then if hd ret = kSystemIsNotReady then FsmEventHandler stk f EventRequestUpgrade 10 u
             else if hd ret = EraseFirmware then FsmEventHandler stk f EventRequestUpgrade 10 u
             else FsmEventHandler stk f EventErr 100 u
        else FsmEventHandler stk f EventXferFirmware 20 u
      })
      else try_again stk f kGeneralTryCountLimit EventRequestUpgrade 10 EventErr u)"

definition XferFirmwareResponseHandler :: "bytes \<Rightarrow> Firmware \<Rightarrow> int \<Rightarrow> bytes \<Rightarrow> upgrader \<Rightarrow> upgrader option" where
  "XferFirmwareResponseHandler stk f status response u =
     (if status = 0
      then (let u = u\<lparr>try_count := 0\<rparr> in do {
        ret \<leftarrow> rd response 0 1;
        if hd ret \<noteq> 0 then FsmEventHandler stk f EventErr 100 u
        else (let u = u\<lparr>read_offset := read_offset u + read_length u\<rparr>
              in if read_offset u < firmware_length f then FsmEventHandler stk f EventXferFirmware 20 u
                 else FsmEventHandler stk f EventCompleteXferFirmware 40 u)
      })
      else try_again stk f kGeneralTryCountLimit EventXferFirmware 20 EventErr u)"

definition CompleteXferFirmwareResponseHandler :: "bytes \<Rightarrow> Firmware \<Rightarrow> int \<Rightarrow> bytes \<Rightarrow> upgrader \<Rightarrow> upgrader option" where
  "CompleteXferFirmwareResponseHandler stk f status response u =
     (if status = 0
      then (let u = u\<lparr>try_count := 0\<rparr> in do {
        ret \<leftarrow> rd response 0 1;
        if hd ret \<noteq> 0 then FsmEventHandler stk f EventErr 100 u
        else FsmEventHandler stk f EventGetUpgradeProgress 50 u
      })
      else try_again stk f kGeneralTryCountLimit EventCompleteXferFirmware 50 EventErr u)"

definition GetProgressResponseHandler :: "bytes \<Rightarrow> Firmware \<Rightarrow> int \<Rightarrow> bytes \<Rightarrow> upgrader \<Rightarrow> upgrader option" where
  "GetProgressResponseHandler stk f status response u =
     (if status = 0
      then (let u = u\<lparr>try_count := 0\<rparr> in do {
        ret \<leftarrow> rd response 0 1;
        if hd ret \<noteq> 0 then FsmEventHandler stk f EventErr 100 u
        else do {
          progress \<leftarrow> rd response 1 1;
          if hd progress < 100 then FsmEventHandler stk f EventGetUpgradeProgress (hd progress div 2 + 50) u
          else FsmEventHandler stk f EventComplete 100 u
        }
      })
      else try_again stk f kGetProcessTryCountLimit EventGetUpgradeProgress (up_progress u div 2 + 50) EventErr u)"

definition UpgradeCompleteResponseHandler :: "bytes \<Rightarrow> Firmware \<Rightarrow> int \<Rightarrow> bytes \<Rightarrow> upgrader \<Rightarrow> upgrader option" where
  "UpgradeCompleteResponseHandler stk f status response u =
     (if status = 0
      then (let u = u\<lparr>try_count := 0\<rparr> in do {
        ret \<leftarrow> rd response 0 1;
        if hd ret \<noteq> 0 then FsmEventHandler stk f EventErr 100 u
        else FsmEventHandler stk f EventReinit 100 u
      })
      else try_again stk f kGeneralTryCountLimit EventComplete 100 EventReinit u)"

fun answer :: "bytes \<Rightarrow> Firmware \<Rightarrow> up_handler \<Rightarrow> int \<Rightarrow> bytes \<Rightarrow> upgrader \<Rightarrow> upgrader option" where
  "answer stk f StartUpgradeResponse status response u = StartUpgradeResponseHandler stk f status response u"
| "answer stk f XferFirmwareResponse status response u = XferFirmwareResponseHandler stk f status response u"
| "answer stk f CompleteXferFirmwareResponse status response u = CompleteXferFirmwareResponseHandler stk f status response u"
| "answer stk f GetProgressResponse status response u = GetProgressResponseHandler stk f status response u"
| "answer stk f UpgradeCompleteResponse status response u = UpgradeCompleteResponseHandler stk f status response u"

section \<open>The manager of upgrades\<close>

record UpgradeManager =
  livox_lidar_firmware :: Firmware
  livox_lidar_info_cb :: bool

definition mk_UpgradeManager :: UpgradeManager where
  "mk_UpgradeManager = \<lparr>livox_lidar_firmware = mk_Firmware, livox_lidar_info_cb = False\<rparr>"

definition SetLivoxLidarUpgradeFirmwarePath :: "(bytes \<Rightarrow> u16) \<Rightarrow> (nat \<Rightarrow> bytes) \<Rightarrow> bytes option \<Rightarrow> UpgradeManager \<Rightarrow> bool \<times> UpgradeManager" where
  "SetLivoxLidarUpgradeFirmwarePath crc16 fresh file m =
     (let (ok, f) = Firmware_Open crc16 fresh file (livox_lidar_firmware m) in (ok, m\<lparr>livox_lidar_firmware := f\<rparr>))"

definition SetLivoxLidarUpgradeProgressCallback :: "bool \<Rightarrow> UpgradeManager \<Rightarrow> UpgradeManager" where
  "SetLivoxLidarUpgradeProgressCallback cb m = m\<lparr>livox_lidar_info_cb := cb\<rparr>"

definition CloseLivoxLidarFirmwareFile :: "UpgradeManager \<Rightarrow> UpgradeManager" where
  "CloseLivoxLidarFirmwareFile m = m\<lparr>livox_lidar_firmware := Firmware_Close (livox_lidar_firmware m)\<rparr>"

text \<open>The upgrades of all devices are started; their objects go away at the end, which waits for each to be complete or
  in error. The observer calls the callback if there is one.\<close>

fun start_all :: "bytes \<Rightarrow> Firmware \<Rightarrow> upgrader list \<Rightarrow> upgrader list option" where
  "start_all stk f [] = Some []"
| "start_all stk f (u # us) = do { u \<leftarrow> StartUpgradeLivoxLidar stk f u; us \<leftarrow> start_all stk f us; Some (u # us) }"

definition UpgradeLivoxLidars :: "bytes \<Rightarrow> u32 list \<Rightarrow> UpgradeManager \<Rightarrow> (upgrader list \<times> UpgradeManager) option" where
  "UpgradeLivoxLidars stk hs m = do {
     us \<leftarrow> start_all stk (livox_lidar_firmware m)
       (map (\<lambda>h. let u = mk_LivoxLidarUpgrader h in if livox_lidar_info_cb m then AddUpgradeProgressObserver u else u) hs);
     Some (us, CloseLivoxLidarFirmwareFile m)
   }"

section \<open>Runs of an upgrade\<close>

text \<open>A step: the request at a place of the list is answered and taken off it, or its sending is reported as refused and
  it stays. A place that is not there is no step.\<close>

datatype up_event = Answer nat int bytes | Refused nat

definition up_step :: "bytes \<Rightarrow> Firmware \<Rightarrow> up_event \<Rightarrow> upgrader \<Rightarrow> upgrader option" where
  "up_step stk f ev u = (case ev of
     Answer i status response \<Rightarrow>
       if i < length (waiting u)
       then answer stk f (rq_handler (waiting u ! i)) status response
         (u\<lparr>waiting := take i (waiting u) @ drop (Suc i) (waiting u)\<rparr>)
       else Some u
   | Refused i \<Rightarrow>
       if i < length (waiting u) then answer stk f (rq_handler (waiting u ! i)) (-9) [] u else Some u)"

text \<open>What the device has acknowledged: the data of the requests that were answered with success.\<close>

definition taken_by :: "up_event \<Rightarrow> upgrader \<Rightarrow> bytes" where
  "taken_by ev u = (case ev of
     Answer i status response \<Rightarrow>
       if i < length (waiting u) \<and> rq_handler (waiting u ! i) = XferFirmwareResponse \<and> status = 0 \<and> response \<noteq> [] \<and> hd response = 0
       then drop 12 (rq_data (waiting u ! i)) else []
   | Refused i \<Rightarrow> [])"

fun taken :: "bytes \<Rightarrow> Firmware \<Rightarrow> up_event list \<Rightarrow> upgrader \<Rightarrow> bytes" where
  "taken stk f [] u = []"
| "taken stk f (ev # evs) u =
     taken_by ev u @ (case up_step stk f ev u of None \<Rightarrow> [] | Some u \<Rightarrow> taken stk f evs u)"

abbreviation up_run :: "bytes \<Rightarrow> Firmware \<Rightarrow> up_event list \<Rightarrow> upgrader \<Rightarrow> upgrader option" where
  "up_run stk f \<equiv> foldM (up_step stk f)"

text \<open>A firmware that was opened, short enough that the offset does not wrap, and a stack buffer of its size.\<close>

definition fw_ok :: "Firmware \<Rightarrow> bool" where
  "fw_ok f \<longleftrightarrow> length (fw_header f) = 286 \<and> length (fw_data f) = unat (firmware_length f) \<and>
     length (fw_data f) \<le> 2 ^ 32 - 1024"

definition chunk :: "Firmware \<Rightarrow> nat \<Rightarrow> bytes" where
  "chunk f off = take 1024 (drop off (fw_data f))"

text \<open>The events in the states where they are expected.\<close>

lemma fsm_start: "fsm_state u = 0 \<or> fsm_state u = 1 \<Longrightarrow>
    FsmEventHandler stk f EventRequestUpgrade p u = Some (notify EventRequestUpgrade p (StartUpgrade f (u\<lparr>fsm_state := 1\<rparr>)))"
  by (auto simp: FsmEventHandler_def upgrade_event_table_def)

lemma fsm_xfer: "fsm_state u = 1 \<or> fsm_state u = 2 \<Longrightarrow>
    FsmEventHandler stk f EventXferFirmware p u
      = map_option (notify EventXferFirmware p) (XferFirmware stk f (u\<lparr>fsm_state := 2\<rparr>))"
  by (auto simp: FsmEventHandler_def upgrade_event_table_def)

lemma fsm_complete_xfer: "fsm_state u = 2 \<or> fsm_state u = 3 \<Longrightarrow>
    FsmEventHandler stk f EventCompleteXferFirmware p u
      = map_option (notify EventCompleteXferFirmware p) (CompleteXferFirmware f (u\<lparr>fsm_state := 3\<rparr>))"
  by (auto simp: FsmEventHandler_def upgrade_event_table_def)

lemma fsm_progress: "fsm_state u = 3 \<or> fsm_state u = 4 \<Longrightarrow>
    FsmEventHandler stk f EventGetUpgradeProgress p u
      = Some (notify EventGetUpgradeProgress p (GetUpgradeProgress (u\<lparr>fsm_state := 4\<rparr>)))"
  by (auto simp: FsmEventHandler_def upgrade_event_table_def)

lemma fsm_complete: "fsm_state u = 4 \<or> fsm_state u = 5 \<Longrightarrow>
    FsmEventHandler stk f EventComplete p u = Some (notify EventComplete p (UpgradeComplete (u\<lparr>fsm_state := 5\<rparr>)))"
  by (auto simp: FsmEventHandler_def upgrade_event_table_def)

lemma fsm_reinit: "fsm_state u = 5 \<Longrightarrow>
    FsmEventHandler stk f EventReinit p u = Some (notify EventReinit p (u\<lparr>fsm_state := 0\<rparr>))"
  by (simp add: FsmEventHandler_def upgrade_event_table_def)

lemma fsm_err: "FsmEventHandler stk f EventErr p u = Some (notify EventErr p (u\<lparr>fsm_state := 7\<rparr>))"
  by (simp add: FsmEventHandler_def upgrade_event_table_def LivoxLidarFsmStateChange_def)

lemmas fsm_events = fsm_start fsm_xfer fsm_complete_xfer fsm_progress fsm_complete fsm_reinit fsm_err

lemma notify_sel [simp]:
  "read_offset (notify ev p u) = read_offset u" "read_length (notify ev p u) = read_length u"
  "fsm_state (notify ev p u) = fsm_state u" "waiting (notify ev p u) = waiting u" "sent (notify ev p u) = sent u"
  "try_count (notify ev p u) = try_count u"
  by (simp_all add: notify_def)

lemma request_sel [simp]:
  "read_offset (request h c b u) = read_offset u" "read_length (request h c b u) = read_length u"
  "fsm_state (request h c b u) = fsm_state u" "try_count (request h c b u) = try_count u"
  "waiting (request h c b u) = waiting u @ [\<lparr>rq_handler = h, rq_cmd_id = c, rq_data = b\<rparr>]"
  "sent (request h c b u) = sent u @ [\<lparr>rq_handler = h, rq_cmd_id = c, rq_data = b\<rparr>]"
  by (simp_all add: request_def Let_def)

text \<open>A request for a part of the firmware is made of that part.\<close>

definition is_xfer :: "Firmware \<Rightarrow> u32 \<Rightarrow> up_request \<Rightarrow> bool" where
  "is_xfer f off r \<longleftrightarrow> rq_handler r = XferFirmwareResponse \<and> rq_cmd_id r = 0x0401 \<and> drop 12 (rq_data r) = chunk f (unat off)"

lemma XferFirmware_sends:
  assumes "fw_ok f" and "length stk = 2048" and "read_length u = 1024" and "read_offset u < firmware_length f"
  shows "\<exists>r. is_xfer f (read_offset u) r \<and>
    XferFirmware stk f u = Some (u\<lparr>waiting := waiting u @ [r], sent := sent u @ [r]\<rparr>)"
proof -
  let ?n = "if read_length u > firmware_length f - read_offset u then firmware_length f - read_offset u else read_length u"
  let ?o = "unat (read_offset u)"
  have len: "length (fw_data f) = unat (firmware_length f)" "length (fw_header f) = 286" using assms(1) by (simp_all add: fw_ok_def)
  have o: "?o < length (fw_data f)" using assms(4) len by (simp add: word_less_nat_alt)
  have d: "unat (firmware_length f - read_offset u) = length (fw_data f) - ?o"
    using assms(4) len by (simp add: unat_sub word_less_nat_alt less_imp_le)
  have n: "unat ?n = min 1024 (length (fw_data f) - ?o)"
    using assms(3) d by (auto simp: word_less_nat_alt)
  then have "rd (fw_data f) ?o (unat ?n) = Some (chunk f ?o)"
    using o by (auto simp: rd_Some_iff chunk_def min_def)
  let ?b = "le_enc 4 (read_offset u) @ le_enc 4 ?n @ hdr 14 1 f @ take 3 (drop 9 stk) @ chunk f ?o"
  let ?r = "\<lparr>rq_handler = XferFirmwareResponse, rq_cmd_id = 0x0401, rq_data = ?b\<rparr>"
  have "drop 12 ?b = chunk f ?o" using len assms(2) by (simp add: hdr_def)
  then have "is_xfer f (read_offset u) ?r" by (simp add: is_xfer_def)
  moreover have "XferFirmware stk f u = Some (u\<lparr>waiting := waiting u @ [?r], sent := sent u @ [?r]\<rparr>)"
    using \<open>rd (fw_data f) ?o (unat ?n) = Some (chunk f ?o)\<close> assms(4)
    by (simp add: XferFirmware_def Let_def request_def split del: if_split)
  ultimately show ?thesis by blast
qed

lemma CompleteXferFirmware_sends:
  assumes "fw_ok f"
  shows "\<exists>b. CompleteXferFirmware f u = Some (request CompleteXferFirmwareResponse 0x0402 b u)"
proof -
  have b: "unat (n :: u8) < 256" for n using unsigned_less [of n, where ?'a = nat] by simp
  have "unat (n :: u8) \<le> 266" for n by (rule less_imp_le, rule less_trans [OF b]) simp
  then have "20 + unat (n :: u8) \<le> length (fw_header f)" for n using assms by (simp add: fw_ok_def)
  then show ?thesis by (auto simp: CompleteXferFirmware_def Let_def rd_def)
qed

section \<open>Each request is answered once\<close>

text \<open>Where the upgrade is, with \<open>acc\<close> acknowledged so far. At most one request waits.\<close>

definition up_phase :: "Firmware \<Rightarrow> bytes \<Rightarrow> upgrader \<Rightarrow> bool" where
  "up_phase f acc u \<longleftrightarrow>
     fsm_state u = 1 \<and> map rq_handler (waiting u) = [StartUpgradeResponse] \<and> acc = [] \<and> read_offset u = 0 \<or>
     fsm_state u = 2 \<and> read_offset u < firmware_length f \<and> acc = take (unat (read_offset u)) (fw_data f) \<and>
       (\<exists>r. waiting u = [r] \<and> is_xfer f (read_offset u) r) \<or>
     fsm_state u = 2 \<and> fw_data f = [] \<and> acc = [] \<and> waiting u = [] \<or>
     fsm_state u = 3 \<and> map rq_handler (waiting u) = [CompleteXferFirmwareResponse] \<and> acc = fw_data f \<or>
     fsm_state u = 4 \<and> map rq_handler (waiting u) = [GetProgressResponse] \<and> acc = fw_data f \<or>
     fsm_state u = 5 \<and> map rq_handler (waiting u) = [UpgradeCompleteResponse] \<and> acc = fw_data f \<or>
     fsm_state u = 0 \<and> waiting u = [] \<and> acc = fw_data f \<or>
     fsm_state u = 7 \<and> waiting u = []"

definition completed :: "upgrader \<Rightarrow> bool" where
  "completed u \<longleftrightarrow> (\<exists>r \<in> set (sent u). rq_cmd_id r = 0x0402)"

definition up_inv :: "Firmware \<Rightarrow> bytes \<Rightarrow> upgrader \<Rightarrow> bool" where
  "up_inv f acc u \<longleftrightarrow> read_length u = 1024 \<and> (\<exists>n. acc = take n (fw_data f)) \<and> (completed u \<longrightarrow> acc = fw_data f) \<and> up_phase f acc u"

text \<open>Between two requests.\<close>

definition quiet :: "Firmware \<Rightarrow> bytes \<Rightarrow> upgrader \<Rightarrow> bool" where
  "quiet f acc u \<longleftrightarrow> read_length u = 1024 \<and> (\<exists>n. acc = take n (fw_data f)) \<and> (completed u \<longrightarrow> acc = fw_data f) \<and> waiting u = []"

lemma quiet_upd [simp]:
  "quiet f acc (u\<lparr>try_count := n\<rparr>) = quiet f acc u"
  "quiet f acc (u\<lparr>fsm_state := s\<rparr>) = quiet f acc u"
  "quiet f acc (u\<lparr>read_offset := off\<rparr>) = quiet f acc u"
  by (simp_all add: quiet_def completed_def)

lemma completed_sel [simp]:
  "completed (notify ev p u) = completed u"
  "completed (request h c b u) \<longleftrightarrow> completed u \<or> c = 0x0402"
  by (auto simp: completed_def)

lemma enter_start:
  assumes "quiet f [] u" and "fsm_state u = 0 \<or> fsm_state u = 1"
  shows "\<exists>u'. FsmEventHandler stk f EventRequestUpgrade p u = Some u' \<and> up_inv f [] u'"
  using assms(1)
  by (auto simp: fsm_start [OF assms(2)] StartUpgrade_def Let_def up_inv_def up_phase_def quiet_def completed_def)

lemma enter_xfer:
  assumes "fw_ok f" and "length stk = 2048" and "quiet f acc u" and "fsm_state u = 1 \<or> fsm_state u = 2"
    and "acc = take (unat (read_offset u)) (fw_data f)"
    and "read_offset u < firmware_length f \<or> fw_data f = [] \<and> read_offset u = 0"
  shows "\<exists>u'. FsmEventHandler stk f EventXferFirmware p u = Some u' \<and> up_inv f acc u' \<and> read_offset u' = read_offset u \<and>
    fsm_state u' = 2"
proof (cases "read_offset u < firmware_length f")
  case True
  then obtain r where r: "is_xfer f (read_offset u) r"
    "XferFirmware stk f (u\<lparr>fsm_state := 2\<rparr>) = Some (u\<lparr>fsm_state := 2, waiting := [r], sent := sent u @ [r]\<rparr>)"
    using XferFirmware_sends [OF assms(1,2), of "u\<lparr>fsm_state := 2\<rparr>"] assms(3) by (auto simp: quiet_def)
  then show ?thesis
    using assms(3,5) True by (auto simp: fsm_xfer [OF assms(4)] up_inv_def up_phase_def quiet_def completed_def is_xfer_def)
next
  case False
  then show ?thesis
    using assms(3,5,6) by (auto simp: fsm_xfer [OF assms(4)] XferFirmware_def up_inv_def up_phase_def quiet_def completed_def)
qed

lemma enter_complete_xfer:
  assumes "fw_ok f" and "quiet f (fw_data f) u" and "fsm_state u = 2 \<or> fsm_state u = 3"
  shows "\<exists>u'. FsmEventHandler stk f EventCompleteXferFirmware p u = Some u' \<and> up_inv f (fw_data f) u' \<and> fsm_state u' = 3"
  using CompleteXferFirmware_sends [OF assms(1), of "u\<lparr>fsm_state := 3\<rparr>"] assms(2)
  by (auto simp: fsm_complete_xfer [OF assms(3)] up_inv_def up_phase_def quiet_def)

lemma enter_progress:
  assumes "quiet f (fw_data f) u" and "fsm_state u = 3 \<or> fsm_state u = 4"
  shows "\<exists>u'. FsmEventHandler stk f EventGetUpgradeProgress p u = Some u' \<and> up_inv f (fw_data f) u' \<and> fsm_state u' = 4"
  using assms(1) by (auto simp: fsm_progress [OF assms(2)] GetUpgradeProgress_def up_inv_def up_phase_def quiet_def)

lemma enter_complete:
  assumes "quiet f (fw_data f) u" and "fsm_state u = 4 \<or> fsm_state u = 5"
  shows "\<exists>u'. FsmEventHandler stk f EventComplete p u = Some u' \<and> up_inv f (fw_data f) u' \<and> fsm_state u' = 5"
  using assms(1) by (auto simp: fsm_complete [OF assms(2)] UpgradeComplete_def up_inv_def up_phase_def quiet_def)

lemma enter_idle:
  assumes "quiet f (fw_data f) u" and "fsm_state u = 5"
  shows "\<exists>u'. FsmEventHandler stk f EventReinit p u = Some u' \<and> up_inv f (fw_data f) u' \<and> fsm_state u' = 0 \<and> waiting u' = []"
  using assms(1) by (auto simp: fsm_reinit [OF assms(2)] up_inv_def up_phase_def quiet_def completed_def)

lemma enter_err:
  assumes "quiet f acc u"
  shows "\<exists>u'. FsmEventHandler stk f EventErr p u = Some u' \<and> up_inv f acc u'"
  using assms by (auto simp: fsm_err up_inv_def up_phase_def quiet_def completed_def)

lemma try_again_inv:
  assumes "\<And>n. \<exists>u'. FsmEventHandler stk f ev p (u\<lparr>try_count := n\<rparr>) = Some u' \<and> up_inv f acc u'"
    and "\<And>n. \<exists>u'. FsmEventHandler stk f gives_up 100 (u\<lparr>try_count := n\<rparr>) = Some u' \<and> up_inv f acc u'"
  shows "\<exists>u'. try_again stk f limit ev p gives_up u = Some u' \<and> up_inv f acc u'"
  using assms by (simp add: try_again_def Let_def)

text \<open>An answer of success brings the bytes that its handler reads: the return code, and the progress behind it when the code is 0.
  The handlers do not look at its length. One lemma per phase: after any such answer, or none, the upgrade is in a phase
  again; any other reads behind the answer.\<close>

definition answered :: "up_handler \<Rightarrow> int \<Rightarrow> bytes \<Rightarrow> bool" where
  "answered h status r \<longleftrightarrow>
     (status = 0 \<longrightarrow> r \<noteq> [] \<and> (h = GetProgressResponse \<longrightarrow> hd r = 0 \<longrightarrow> 2 \<le> length r))"

lemma not_answered: "\<not> answered h status r \<Longrightarrow> answer stk f h status r u = None"
  by (cases h; cases r)
    (auto simp: answered_def rd_def StartUpgradeResponseHandler_def XferFirmwareResponseHandler_def
      CompleteXferFirmwareResponseHandler_def GetProgressResponseHandler_def UpgradeCompleteResponseHandler_def Let_def)

lemma answered_rd: "answered h status r \<Longrightarrow> status = 0 \<Longrightarrow> rd r 0 1 = Some [hd r]"
  by (cases r) (auto simp: answered_def rd_def)

lemma answered_progress: "answered GetProgressResponse status r \<Longrightarrow> status = 0 \<Longrightarrow> hd r = 0 \<Longrightarrow> rd r 1 1 = Some [r ! 1]"
  by (cases r; cases "tl r") (auto simp: answered_def rd_def)

lemma answer_start:
  assumes "fw_ok f" and "length stk = 2048" and "answered StartUpgradeResponse st r" and "quiet f [] u" and "fsm_state u = 1" and "read_offset u = 0"
  shows "\<exists>u'. answer stk f StartUpgradeResponse st r u = Some u' \<and> up_inv f [] u'"
proof (cases "st = 0")
  case True
  have "read_offset u < firmware_length f \<or> fw_data f = []"
    using assms(1,6) by (cases "firmware_length f = 0") (auto simp: fw_ok_def word_gt_0)
  then have "\<exists>u'. FsmEventHandler stk f EventXferFirmware p (u\<lparr>try_count := 0\<rparr>) = Some u' \<and> up_inv f [] u'" for p
    using enter_xfer [of f stk "[]" "u\<lparr>try_count := 0\<rparr>" p] assms by auto
  then show ?thesis
    using answered_rd [OF assms(3) True] True enter_start [of f "u\<lparr>try_count := 0\<rparr>"] enter_err [of f "[]" "u\<lparr>try_count := 0\<rparr>"] assms(4,5)
    by (simp add: StartUpgradeResponseHandler_def Let_def)
next
  case False
  then show ?thesis
    using assms(4,5) by (simp add: StartUpgradeResponseHandler_def) (intro try_again_inv enter_start enter_err, simp_all)
qed

lemma answer_complete_xfer:
  assumes "fw_ok f" and "answered CompleteXferFirmwareResponse st r" and "quiet f (fw_data f) u" and "fsm_state u = 3"
  shows "\<exists>u'. answer stk f CompleteXferFirmwareResponse st r u = Some u' \<and> up_inv f (fw_data f) u'"
proof (cases "st = 0")
  case True
  then show ?thesis
    using answered_rd [OF assms(2) True] enter_progress [of f "u\<lparr>try_count := 0\<rparr>" stk 50]
      enter_err [of f "fw_data f" "u\<lparr>try_count := 0\<rparr>" stk 100] assms(3,4)
    by (auto simp: CompleteXferFirmwareResponseHandler_def Let_def)
next
  case False
  have "\<exists>u'. FsmEventHandler stk f EventCompleteXferFirmware p (u\<lparr>try_count := n\<rparr>) = Some u' \<and> up_inv f (fw_data f) u'" for p n
    using enter_complete_xfer [OF assms(1), of "u\<lparr>try_count := n\<rparr>"] assms(3,4) by auto
  then show ?thesis
    using False assms(3,4) by (simp add: CompleteXferFirmwareResponseHandler_def) (intro try_again_inv enter_err, simp_all)
qed

lemma answer_progress:
  assumes "answered GetProgressResponse st r" and "quiet f (fw_data f) u" and "fsm_state u = 4"
  shows "\<exists>u'. answer stk f GetProgressResponse st r u = Some u' \<and> up_inv f (fw_data f) u'"
proof -
  have p: "\<exists>u'. FsmEventHandler stk f EventGetUpgradeProgress p (u\<lparr>try_count := n\<rparr>) = Some u' \<and> up_inv f (fw_data f) u'" for p n
    using enter_progress [of f "u\<lparr>try_count := n\<rparr>"] assms(2,3) by auto
  show ?thesis
  proof (cases "st = 0")
    case True
    then show ?thesis
      using answered_rd [OF assms(1) True] answered_progress [OF assms(1)] p [of _ 0] enter_complete [of f "u\<lparr>try_count := 0\<rparr>" stk 100]
        enter_err [of f "fw_data f" "u\<lparr>try_count := 0\<rparr>" stk 100] assms(2,3)
      by (auto simp: GetProgressResponseHandler_def Let_def)
  next
    case False
    then show ?thesis
      using assms(2,3) p by (simp add: GetProgressResponseHandler_def) (intro try_again_inv enter_err, simp_all)
  qed
qed

lemma answer_reboot:
  assumes "answered UpgradeCompleteResponse st r" and "quiet f (fw_data f) u" and "fsm_state u = 5"
  shows "\<exists>u'. answer stk f UpgradeCompleteResponse st r u = Some u' \<and> up_inv f (fw_data f) u'"
proof -
  have c: "\<exists>u'. FsmEventHandler stk f EventComplete p (u\<lparr>try_count := n\<rparr>) = Some u' \<and> up_inv f (fw_data f) u'"
    "\<exists>u'. FsmEventHandler stk f EventReinit p (u\<lparr>try_count := n\<rparr>) = Some u' \<and> up_inv f (fw_data f) u'" for p n
    using enter_complete [of f "u\<lparr>try_count := n\<rparr>" stk p] enter_idle [of f "u\<lparr>try_count := n\<rparr>" stk p] assms(2,3) by auto
  show ?thesis
  proof (cases "st = 0")
    case True
    then show ?thesis
      using answered_rd [OF assms(1) True] c [of 100 0] enter_err [of f _ "u\<lparr>try_count := 0\<rparr>"] assms(2,3)
      by (auto simp: UpgradeCompleteResponseHandler_def Let_def)
  next
    case False
    then show ?thesis
      using c by (simp add: UpgradeCompleteResponseHandler_def) (intro try_again_inv, simp_all)
  qed
qed

lemma take_chunk: "take n (fw_data f) @ chunk f n = take (n + 1024) (fw_data f)"
  by (simp add: chunk_def take_add)

lemma quiet_take: "quiet f acc u \<Longrightarrow> acc \<noteq> fw_data f \<Longrightarrow> quiet f (take n (fw_data f)) u"
  by (auto simp: quiet_def)

lemma answer_xfer_ok:
  assumes "fw_ok f" and "length stk = 2048" and "quiet f (take (unat (read_offset u)) (fw_data f)) u" and "fsm_state u = 2"
    and "read_offset u < firmware_length f" and "r \<noteq> []" and "hd r = 0"
  shows "\<exists>u'. answer stk f XferFirmwareResponse 0 r u = Some u' \<and>
    up_inv f (take (unat (read_offset u) + 1024) (fw_data f)) u' \<and>
    (if unat (read_offset u) + 1024 < length (fw_data f)
     then fsm_state u' = 2 \<and> unat (read_offset u') = unat (read_offset u) + 1024 else fsm_state u' = 3)"
proof -
  let ?o = "read_offset u" and ?u = "u\<lparr>try_count := 0, read_offset := read_offset u + 1024\<rparr>"
  have len: "length (fw_data f) = unat (firmware_length f)" "length (fw_data f) \<le> 2 ^ 32 - 1024" using assms(1) by (simp_all add: fw_ok_def)
  have o: "unat ?o < length (fw_data f)" using assms(5) len by (simp add: word_less_nat_alt)
  then have o': "unat (?o + 1024) = unat ?o + 1024" using len by (simp add: unat_word_ariths)
  have rl: "read_length u = 1024" using assms(3) by (simp add: quiet_def)
  have "take (unat ?o) (fw_data f) \<noteq> fw_data f" using o by (metis length_take min.strict_order_iff not_less_iff_gr_or_eq min_def)
  then have q: "quiet f (take n (fw_data f)) u" for n using quiet_take [OF assms(3)] by simp
  have r: "rd r 0 1 = Some [0]" using assms(6,7) by (cases r) (simp_all add: rd_def)
  show ?thesis
  proof (cases "unat ?o + 1024 < length (fw_data f)")
    case True
    then have less: "?o + 1024 < firmware_length f" using len o' by (simp add: word_less_nat_alt)
    moreover have "quiet f (take (unat ?o + 1024) (fw_data f)) ?u" using q by simp
    ultimately obtain u' where "FsmEventHandler stk f EventXferFirmware 20 ?u = Some u'"
      "up_inv f (take (unat ?o + 1024) (fw_data f)) u'" "read_offset u' = ?o + 1024" "fsm_state u' = 2"
      using enter_xfer [OF assms(1,2), of _ ?u] assms(4) o' by auto
    then show ?thesis using True r less rl o' by (simp add: XferFirmwareResponseHandler_def Let_def)
  next
    case False
    then have less: "\<not> ?o + 1024 < firmware_length f" using len o' by (simp add: word_less_nat_alt)
    have all: "take (unat ?o + 1024) (fw_data f) = fw_data f" using False by simp
    then have "quiet f (fw_data f) ?u" using q [of "unat ?o + 1024"] by simp
    then obtain u' where "FsmEventHandler stk f EventCompleteXferFirmware 40 ?u = Some u'"
      "up_inv f (fw_data f) u'" "fsm_state u' = 3"
      using enter_complete_xfer [OF assms(1), of ?u] assms(4) by auto
    then show ?thesis using False r less rl all by (simp add: XferFirmwareResponseHandler_def Let_def)
  qed
qed

lemma answer_xfer:
  assumes "fw_ok f" and "length stk = 2048" and "quiet f (take (unat (read_offset u)) (fw_data f)) u" and "fsm_state u = 2"
    and "read_offset u < firmware_length f" and "answered XferFirmwareResponse st r"
  shows "\<exists>u'. answer stk f XferFirmwareResponse st r u = Some u' \<and>
    up_inv f (take (unat (read_offset u)) (fw_data f) @ (if st = 0 \<and> r \<noteq> [] \<and> hd r = 0 then chunk f (unat (read_offset u)) else [])) u'"
proof (cases "st = 0 \<and> r \<noteq> [] \<and> hd r = 0")
  case True
  then show ?thesis
    using answer_xfer_ok [OF assms(1-5), of r] assms(6) by (cases r) (auto simp: answered_def take_chunk)
next
  case False
  have e: "\<exists>u'. FsmEventHandler stk f EventErr p (u\<lparr>try_count := n\<rparr>) = Some u' \<and>
    up_inv f (take (unat (read_offset u)) (fw_data f)) u'" for p n
    using enter_err [of f _ "u\<lparr>try_count := n\<rparr>"] assms(3) by simp
  show ?thesis
  proof (cases "st = 0")
    case True
    then show ?thesis
      using False e [of 100 0] answered_rd [OF assms(6) True] assms(6) by (auto simp: XferFirmwareResponseHandler_def Let_def answered_def)
  next
    case False
    have "\<exists>u'. FsmEventHandler stk f EventXferFirmware p (u\<lparr>try_count := n\<rparr>) = Some u' \<and>
      up_inv f (take (unat (read_offset u)) (fw_data f)) u'" for p n
      using enter_xfer [OF assms(1,2), of _ "u\<lparr>try_count := n\<rparr>" p] assms(3-5) by auto
    then show ?thesis
      using False e by (simp add: XferFirmwareResponseHandler_def) (intro try_again_inv, simp_all)
  qed
qed

text \<open>A waiting request, answered, leaves the upgrade quiet.\<close>

lemma up_inv_quiet:
  assumes "up_inv f acc u" and "waiting u = [r]"
  shows "quiet f acc (u\<lparr>waiting := []\<rparr>)"
  using assms by (auto simp: up_inv_def quiet_def completed_def)

lemma up_step_inv:
  assumes "fw_ok f" and "length stk = 2048" and "up_inv f acc u" and "i < length (waiting u) \<Longrightarrow> answered (rq_handler (waiting u ! i)) st r"
  shows "\<exists>u'. up_step stk f (Answer i st r) u = Some u' \<and> up_inv f (acc @ taken_by (Answer i st r) u) u'"
proof (cases "i < length (waiting u)")
  case False
  then show ?thesis using assms(3) by (simp add: up_step_def taken_by_def)
next
  case True
  then obtain q where w: "waiting u = [q]"
    using assms(3) by (auto simp: up_inv_def up_phase_def map_eq_Cons_conv)
  have i: "i = 0" using True w by simp
  have a: "answered (rq_handler q) st r" using assms(4) [OF True] w i by simp
  let ?u = "u\<lparr>waiting := []\<rparr>"
  have quiet: "quiet f acc ?u" by (rule up_inv_quiet [OF assms(3) w])
  have step: "up_step stk f (Answer i st r) u = answer stk f (rq_handler q) st r ?u" using w i by (simp add: up_step_def)
  have t: "taken_by (Answer i st r) u = (if rq_handler q = XferFirmwareResponse \<and> st = 0 \<and> r \<noteq> [] \<and> hd r = 0 then drop 12 (rq_data q) else [])"
    using w i by (simp add: taken_by_def)
  have "up_phase f acc u" using assms(3) by (simp add: up_inv_def)
  then consider
      (start) "fsm_state u = 1" "rq_handler q = StartUpgradeResponse" "acc = []" "read_offset u = 0"
    | (xfer) "fsm_state u = 2" "read_offset u < firmware_length f" "acc = take (unat (read_offset u)) (fw_data f)" "is_xfer f (read_offset u) q"
    | (complete) "fsm_state u = 3" "rq_handler q = CompleteXferFirmwareResponse" "acc = fw_data f"
    | (progress) "fsm_state u = 4" "rq_handler q = GetProgressResponse" "acc = fw_data f"
    | (reboot) "fsm_state u = 5" "rq_handler q = UpgradeCompleteResponse" "acc = fw_data f"
    using w by (auto simp: up_phase_def)
  then show ?thesis
  proof cases
    case start
    then show ?thesis using answer_start [OF assms(1,2), of st r ?u] quiet step t a by simp
  next
    case xfer
    then show ?thesis using answer_xfer [OF assms(1,2), of ?u st r] quiet step t a
      by (cases "st = 0 \<and> r \<noteq> [] \<and> hd r = 0") (auto simp: is_xfer_def)
  next
    case complete
    then show ?thesis using answer_complete_xfer [OF assms(1), of st r ?u] quiet step t a by simp
  next
    case progress
    then show ?thesis using answer_progress [of st r f ?u] quiet step t a by simp
  next
    case reboot
    then show ?thesis using answer_reboot [of st r f ?u] quiet step t a by simp
  qed
qed

text \<open>The steps of a run in which no request is answered more than once, and whether one of its answers is too short.\<close>

definition answers_once :: "up_event list \<Rightarrow> bool" where
  "answers_once evs \<longleftrightarrow> list_all (\<lambda>ev. case ev of Answer i status r \<Rightarrow> True | Refused i \<Rightarrow> False) evs"

fun cut_short :: "bytes \<Rightarrow> Firmware \<Rightarrow> up_event list \<Rightarrow> upgrader \<Rightarrow> bool" where
  "cut_short stk f [] u \<longleftrightarrow> False"
| "cut_short stk f (ev # evs) u \<longleftrightarrow>
     (case ev of
        Refused i \<Rightarrow> False
      | Answer i status r \<Rightarrow> i < length (waiting u) \<and> \<not> answered (rq_handler (waiting u ! i)) status r) \<or>
     (case up_step stk f ev u of None \<Rightarrow> False | Some u \<Rightarrow> cut_short stk f evs u)"

lemma up_run_cases:
  assumes "fw_ok f" and "length stk = 2048" and "up_inv f acc u" and "answers_once evs"
  shows "(\<exists>n. acc @ taken stk f evs u = take n (fw_data f)) \<and>
    (case up_run stk f evs u of
       None \<Rightarrow> cut_short stk f evs u
     | Some u' \<Rightarrow> \<not> cut_short stk f evs u \<and> up_inv f (acc @ taken stk f evs u) u')"
  using assms(3,4)
proof (induction evs arbitrary: acc u)
  case Nil
  then show ?case by (auto simp: up_inv_def)
next
  case (Cons ev evs)
  then obtain i st r where ev: "ev = Answer i st r" by (cases ev) (auto simp: answers_once_def)
  have once: "answers_once evs" using Cons.prems(2) by (simp add: answers_once_def)
  show ?case
  proof (cases "i < length (waiting u) \<longrightarrow> answered (rq_handler (waiting u ! i)) st r")
    case True
    then obtain u1 where 1: "up_step stk f ev u = Some u1" "up_inv f (acc @ taken_by ev u) u1"
      using up_step_inv [OF assms(1,2) Cons.prems(1), of i st r] ev by auto
    have "cut_short stk f (ev # evs) u \<longleftrightarrow> cut_short stk f evs u1" using 1(1) True by (auto simp: ev)
    moreover have "taken stk f (ev # evs) u = taken_by ev u @ taken stk f evs u1" "up_run stk f (ev # evs) u = up_run stk f evs u1"
      using 1(1) by simp_all
    ultimately show ?thesis using Cons.IH [OF 1(2) once] by (simp only: append_assoc)
  next
    case False
    then have "up_step stk f ev u = None" by (simp add: ev up_step_def not_answered)
    moreover have "taken_by ev u = []" using False by (auto simp: ev taken_by_def answered_def)
    ultimately show ?thesis using Cons.prems(1) False ev by (auto simp: up_inv_def)
  qed
qed

lemma started:
  "\<exists>u. StartUpgradeLivoxLidar stk f (mk_LivoxLidarUpgrader h) = Some u \<and> up_inv f [] u \<and> fsm_state u = 1"
  by (auto simp: StartUpgradeLivoxLidar_def mk_LivoxLidarUpgrader_def fsm_start StartUpgrade_def Let_def up_inv_def
      up_phase_def completed_def)

text \<open>C9: as long as each request is answered at most once, whatever the answers are: what the device has acknowledged is always
  a prefix of the firmware, and the request to complete the transfer is only sent when it has acknowledged the whole
  firmware. An invalid access happens exactly when an answer of success is shorter than what its handler reads. No send is
  refused, and the firmware is one that was opened and has at most 2^32 - 1024 bytes.\<close>

theorem firmware_transferred:
  assumes "fw_ok f" and "length stk = 2048"
    and "StartUpgradeLivoxLidar stk f (mk_LivoxLidarUpgrader h) = Some u" and "answers_once evs"
  shows "(up_run stk f evs u = None \<longleftrightarrow> cut_short stk f evs u) \<and> (\<exists>n. taken stk f evs u = take n (fw_data f)) \<and>
    (\<forall>u'. up_run stk f evs u = Some u' \<longrightarrow> completed u' \<or> IsUpgradeComplete u' \<longrightarrow> taken stk f evs u = fw_data f)"
proof -
  have "up_inv f [] u" using started [of stk f h] assms(3) by simp
  note run = up_run_cases [OF assms(1,2) this assms(4)]
  show ?thesis
  proof (cases "up_run stk f evs u")
    case None
    then show ?thesis using run by simp
  next
    case (Some u')
    then show ?thesis using run by (auto simp: up_inv_def up_phase_def IsUpgradeComplete_def)
  qed
qed

section \<open>A device that accepts everything\<close>

text \<open>An answer of success with a second byte, which is the progress where one is asked for.\<close>

abbreviation accepts_at :: "u8 \<Rightarrow> up_event" where "accepts_at p \<equiv> Answer 0 0 [0, p]"

abbreviation accepts :: up_event where "accepts \<equiv> accepts_at 100"

definition chunks_from :: "Firmware \<Rightarrow> nat \<Rightarrow> nat" where
  "chunks_from f off = (length (fw_data f) - off + 1023) div 1024"

lemma taken_append:
  "up_run stk f evs u = Some u' \<Longrightarrow> taken stk f (evs @ evs') u = taken stk f evs u @ taken stk f evs' u'"
  by (induction evs arbitrary: u) (auto split: bind_splits)

lemma xfer_phaseE:
  assumes "up_inv f acc u" and "fsm_state u = 2" and "fw_data f \<noteq> []"
  obtains r where "waiting u = [r]" "is_xfer f (read_offset u) r" "read_offset u < firmware_length f"
    "acc = take (unat (read_offset u)) (fw_data f)"
  using assms by (auto simp: up_inv_def up_phase_def)

lemma accept_xfer:
  assumes "fw_ok f" and "length stk = 2048" and "up_inv f acc u" and "fsm_state u = 2" and "fw_data f \<noteq> []"
  shows "\<exists>u'. up_step stk f (accepts_at p) u = Some u' \<and> (\<exists>acc'. up_inv f acc' u') \<and>
    (if unat (read_offset u) + 1024 < length (fw_data f)
     then fsm_state u' = 2 \<and> unat (read_offset u') = unat (read_offset u) + 1024 else fsm_state u' = 3)"
proof -
  obtain r where r: "waiting u = [r]" "is_xfer f (read_offset u) r" "read_offset u < firmware_length f"
    "acc = take (unat (read_offset u)) (fw_data f)"
    by (rule xfer_phaseE [OF assms(3-5)])
  have "up_step stk f (accepts_at p) u = answer stk f XferFirmwareResponse 0 [0, p] (u\<lparr>waiting := []\<rparr>)"
    using r(1,2) by (simp add: up_step_def is_xfer_def)
  then show ?thesis
    using answer_xfer_ok [OF assms(1,2), of "u\<lparr>waiting := []\<rparr>" "[0, p]"] up_inv_quiet [OF assms(3) r(1)] r(3,4) assms(4) by auto
qed

lemma accept_xfers:
  assumes "fw_ok f" and "length stk = 2048" and "up_inv f acc u" and "fsm_state u = 2" and "fw_data f \<noteq> []"
    and "unat (read_offset u) < length (fw_data f)" and "length qs = chunks_from f (unat (read_offset u))"
  shows "\<exists>u'. up_run stk f (map accepts_at qs) u = Some u' \<and> (\<exists>acc'. up_inv f acc' u') \<and> fsm_state u' = 3"
  using assms(3,4,6,7)
proof (induction qs arbitrary: u acc)
  case Nil
  then show ?case by (simp add: chunks_from_def)
next
  case (Cons q qs)
  let ?o = "unat (read_offset u)"
  obtain u1 acc1 where 1: "up_step stk f (accepts_at q) u = Some u1" "up_inv f acc1 u1"
    and 2: "if ?o + 1024 < length (fw_data f) then fsm_state u1 = 2 \<and> unat (read_offset u1) = ?o + 1024 else fsm_state u1 = 3"
    using accept_xfer [OF assms(1,2) Cons.prems(1,2) assms(5)] by blast
  show ?case
  proof (cases "?o + 1024 < length (fw_data f)")
    case True
    then have "length qs = chunks_from f (unat (read_offset u1))" using Cons.prems(4) 2 by (auto simp: chunks_from_def)
    then show ?thesis using Cons.IH [OF 1(2)] True 2 1(1) by simp
  next
    case False
    then have "chunks_from f ?o < 2" using Cons.prems(3) by (simp add: chunks_from_def less_mult_imp_div_less)
    then have "qs = []" using Cons.prems(4) by (cases qs) simp_all
    then show ?thesis using 1 2 False by auto
  qed
qed

lemma accept_start:
  assumes "fw_ok f" and "length stk = 2048" and "up_inv f acc u" and "fsm_state u = 1"
  shows "\<exists>u'. up_step stk f (accepts_at p) u = Some u' \<and> (\<exists>acc'. up_inv f acc' u') \<and> fsm_state u' = 2 \<and> read_offset u' = 0"
proof -
  obtain r where r: "waiting u = [r]" "rq_handler r = StartUpgradeResponse" "acc = []" "read_offset u = 0"
    using assms(3,4) by (auto simp: up_inv_def up_phase_def map_eq_Cons_conv)
  have "read_offset u < firmware_length f \<or> fw_data f = []" using assms(1) r by (cases "firmware_length f = 0") (auto simp: fw_ok_def word_gt_0)
  then show ?thesis
    using enter_xfer [OF assms(1,2), of "[]" "u\<lparr>waiting := [], try_count := 0\<rparr>" 20] up_inv_quiet [OF assms(3) r(1)] r assms(4)
    by (auto simp: up_step_def StartUpgradeResponseHandler_def Let_def rd_def)
qed

lemma progress_phase:
  assumes "up_inv f acc u" and "fsm_state u = 4"
  shows "up_step stk f (accepts_at p) u
      = FsmEventHandler stk f (if p < 100 then EventGetUpgradeProgress else EventComplete)
          (if p < 100 then p div 2 + 50 else 100) (u\<lparr>waiting := [], try_count := 0\<rparr>)"
    and "quiet f (fw_data f) (u\<lparr>waiting := [], try_count := 0\<rparr>)"
proof -
  obtain r where r: "waiting u = [r]" "rq_handler r = GetProgressResponse" "acc = fw_data f"
    using assms by (auto simp: up_inv_def up_phase_def map_eq_Cons_conv)
  then show "up_step stk f (accepts_at p) u
      = FsmEventHandler stk f (if p < 100 then EventGetUpgradeProgress else EventComplete)
          (if p < 100 then p div 2 + 50 else 100) (u\<lparr>waiting := [], try_count := 0\<rparr>)"
    by (simp add: up_step_def GetProgressResponseHandler_def Let_def rd_def)
  show "quiet f (fw_data f) (u\<lparr>waiting := [], try_count := 0\<rparr>)" using up_inv_quiet [OF assms(1) r(1)] r(3) by simp
qed

lemma accept_progress:
  assumes "up_inv f acc u" and "fsm_state u = 4" and "\<forall>p \<in> set ps. p < 100"
  shows "\<exists>u'. up_run stk f (map accepts_at ps) u = Some u' \<and> (\<exists>acc'. up_inv f acc' u') \<and> fsm_state u' = 4"
  using assms
proof (induction ps arbitrary: u acc)
  case (Cons p ps)
  then obtain u1 where "up_step stk f (accepts_at p) u = Some u1" "up_inv f (fw_data f) u1" "fsm_state u1 = 4"
    using progress_phase(1) [OF Cons.prems(1,2), of stk p] progress_phase(2) [OF Cons.prems(1,2)] enter_progress [of f "u\<lparr>waiting := [], try_count := 0\<rparr>" stk "p div 2 + 50"]
    by auto
  then show ?case using Cons.IH [of "fw_data f" u1] Cons.prems(3) by auto
qed auto

lemma accept_complete:
  assumes "fw_ok f" and "up_inv f acc u" and "fsm_state u = 3"
  shows "\<exists>u'. up_step stk f (accepts_at q) u = Some u' \<and> up_inv f (fw_data f) u' \<and> fsm_state u' = 4"
proof -
  obtain r where r: "waiting u = [r]" "rq_handler r = CompleteXferFirmwareResponse" "acc = fw_data f"
    using assms(2,3) by (auto simp: up_inv_def up_phase_def map_eq_Cons_conv)
  then show ?thesis
    using enter_progress [of f "u\<lparr>waiting := [], try_count := 0\<rparr>" stk 50] up_inv_quiet [OF assms(2) r(1)] assms(3)
    by (auto simp: up_step_def CompleteXferFirmwareResponseHandler_def Let_def rd_def)
qed

lemma accept_end:
  assumes "fw_ok f" and "up_inv f acc u" and "fsm_state u = 4" and "100 \<le> p"
  shows "\<exists>u'. up_run stk f [accepts_at p, accepts_at q] u = Some u' \<and> fsm_state u' = 0 \<and> waiting u' = []"
proof -
  obtain u2 where 2: "up_step stk f (accepts_at p) u = Some u2" "up_inv f (fw_data f) u2" "fsm_state u2 = 5"
    using progress_phase(1) [OF assms(2,3), of stk p] progress_phase(2) [OF assms(2,3)] enter_complete [of f "u\<lparr>waiting := [], try_count := 0\<rparr>" stk 100] assms(3,4)
    by (auto simp: not_less [symmetric])
  obtain r2 where r2: "waiting u2 = [r2]" "rq_handler r2 = UpgradeCompleteResponse"
    using 2(2,3) by (auto simp: up_inv_def up_phase_def map_eq_Cons_conv)
  obtain u3 where 3: "up_step stk f (accepts_at q) u2 = Some u3" "fsm_state u3 = 0" "waiting u3 = []"
    using enter_idle [of f "u2\<lparr>waiting := [], try_count := 0\<rparr>" stk 100] up_inv_quiet [OF 2(2) r2(1)] r2 2(3)
    by (auto simp: up_step_def UpgradeCompleteResponseHandler_def Let_def rd_def)
  show ?thesis using 2(1) 3 by simp
qed

text \<open>C4: a device that accepts every request, reports any number of progress values below 100 and then one of at least 100, has
  its upgrade completed: after one answer to the start, one per 1024 bytes of a firmware that is not empty, one to the completion of the
  transfer, those to the progress queries, and one to the reboot. No request waits then, and the device has
  acknowledged the firmware. (An empty firmware is never completed: no part is asked for.) The firmware is one that was opened
  and has at most 2^32 - 1024 bytes.\<close>

theorem upgrade_completes:
  assumes "fw_ok f" and "length stk = 2048" and "fw_data f \<noteq> []"
    and "StartUpgradeLivoxLidar stk f (mk_LivoxLidarUpgrader h) = Some u"
    and "length qs = (length (fw_data f) + 1023) div 1024" and "\<forall>p \<in> set ps. p < 100" and "100 \<le> done"
    and "evs = accepts_at a # map accepts_at qs @ accepts_at b # map accepts_at ps @ [accepts_at done, accepts_at c]"
  shows "\<exists>u'. up_run stk f evs u = Some u' \<and> IsUpgradeComplete u' \<and> waiting u' = [] \<and> taken stk f evs u = fw_data f"
proof -
  have 0: "up_inv f [] u" "fsm_state u = 1" using started [of stk f h] assms(4) by simp_all
  obtain u1 acc1 where 1: "up_step stk f (accepts_at a) u = Some u1" "up_inv f acc1 u1" "fsm_state u1 = 2" "read_offset u1 = 0"
    using accept_start [OF assms(1,2) 0] by blast
  obtain u2 acc2 where 2: "up_run stk f (map accepts_at qs) u1 = Some u2" "up_inv f acc2 u2" "fsm_state u2 = 3"
    using accept_xfers [OF assms(1,2) 1(2,3) assms(3), of qs] 1(4) assms(3,5) by (auto simp: chunks_from_def)
  obtain u3 where 3: "up_step stk f (accepts_at b) u2 = Some u3" "up_inv f (fw_data f) u3" "fsm_state u3 = 4"
    using accept_complete [OF assms(1) 2(2,3)] by blast
  obtain u4 acc4 where 4: "up_run stk f (map accepts_at ps) u3 = Some u4" "up_inv f acc4 u4" "fsm_state u4 = 4"
    using accept_progress [OF 3(2,3) assms(6)] by blast
  obtain u5 where 5: "up_run stk f [accepts_at done, accepts_at c] u4 = Some u5" "fsm_state u5 = 0" "waiting u5 = []"
    using accept_end [OF assms(1) 4(2,3) assms(7)] by blast
  have run: "up_run stk f evs u = Some u5"
    unfolding assms(8) using 1(1) 2(1) 3(1) 4(1) 5(1) by (simp add: foldM_append)
  have "answers_once evs" by (auto simp: answers_once_def assms(8) list_all_iff)
  from up_run_cases [OF assms(1,2) 0(1) this] run
  have "up_inv f (taken stk f evs u) u5" by simp
  then show ?thesis using run 5(2,3) by (auto simp: up_inv_def up_phase_def IsUpgradeComplete_def)
qed

section \<open>A send that is refused\<close>

text \<open>In the middle of the transfer at \<open>off\<close>, with requests for the parts at \<open>offs\<close> under way.\<close>

definition transferring :: "Firmware \<Rightarrow> nat \<Rightarrow> u32 \<Rightarrow> nat list \<Rightarrow> upgrader \<Rightarrow> bool" where
  "transferring f off tries offs u \<longleftrightarrow> fsm_state u = 2 \<and> read_length u = 1024 \<and> unat (read_offset u) = off \<and>
     off < length (fw_data f) \<and> try_count u = tries \<and>
     list_all2 (\<lambda>x r. rq_handler r = XferFirmwareResponse \<and> drop 12 (rq_data r) = chunk f x) offs (waiting u)"

lemma transferring_Cons:
  assumes "transferring f off tries (o1 # offs) u"
  obtains r rs where "waiting u = r # rs" "rq_handler r = XferFirmwareResponse" "drop 12 (rq_data r) = chunk f o1"
    "transferring f off tries offs (u\<lparr>waiting := rs\<rparr>)"
  using assms by (cases "waiting u") (auto simp: transferring_def)

lemma fsm_xfer_transferring:
  assumes "fw_ok f" and "length stk = 2048" and "fsm_state u = 1 \<or> fsm_state u = 2" and "read_length u = 1024"
    and "unat (read_offset u) < length (fw_data f)"
    and "list_all2 (\<lambda>x r. rq_handler r = XferFirmwareResponse \<and> drop 12 (rq_data r) = chunk f x) offs (waiting u)"
  shows "\<exists>u'. FsmEventHandler stk f EventXferFirmware p u = Some u' \<and>
    transferring f (unat (read_offset u)) (try_count u) (offs @ [unat (read_offset u)]) u'"
proof -
  have "read_offset u < firmware_length f" using assms(1,5) by (simp add: fw_ok_def word_less_nat_alt)
  then obtain r where "is_xfer f (read_offset u) r" "XferFirmware stk f (u\<lparr>fsm_state := 2\<rparr>)
      = Some (u\<lparr>fsm_state := 2, waiting := waiting u @ [r], sent := sent u @ [r]\<rparr>)"
    using XferFirmware_sends [OF assms(1,2), of "u\<lparr>fsm_state := 2\<rparr>"] assms(4) by auto
  then show ?thesis
    using assms(4-6) by (auto simp: fsm_xfer [OF assms(3)] transferring_def is_xfer_def intro: list_all2_appendI)
qed

lemma transferring_retry:
  assumes "fw_ok f" and "length stk = 2048" and "transferring f off tries offs u" and "tries + 1 < 10" and "st \<noteq> 0"
  shows "\<exists>u'. XferFirmwareResponseHandler stk f st r u = Some u' \<and> transferring f off (tries + 1) (offs @ [off]) u'"
  using fsm_xfer_transferring [OF assms(1,2), of "u\<lparr>try_count := tries + 1\<rparr>" offs 20] assms(3-5)
  by (auto simp: XferFirmwareResponseHandler_def try_again_def Let_def transferring_def)

lemma transferring_refused:
  assumes "fw_ok f" and "length stk = 2048" and "transferring f off tries (o1 # offs) u" and "tries + 1 < 10"
  shows "\<exists>u'. up_step stk f (Refused 0) u = Some u' \<and> transferring f off (tries + 1) (o1 # offs @ [off]) u'"
proof -
  obtain r rs where "waiting u = r # rs" "rq_handler r = XferFirmwareResponse" by (rule transferring_Cons [OF assms(3)])
  then show ?thesis using transferring_retry [OF assms, of "-9" "[]"] by (simp add: up_step_def)
qed

lemma transferring_timeout:
  assumes "fw_ok f" and "length stk = 2048" and "transferring f off tries (o1 # offs) u" and "tries + 1 < 10"
  shows "\<exists>u'. up_step stk f (Answer 0 (-4) []) u = Some u' \<and> transferring f off (tries + 1) (offs @ [off]) u'"
proof -
  obtain r rs where "waiting u = r # rs" "rq_handler r = XferFirmwareResponse" "transferring f off tries offs (u\<lparr>waiting := rs\<rparr>)"
    by (rule transferring_Cons [OF assms(3)])
  then show ?thesis using transferring_retry [OF assms(1,2) _ assms(4), of off offs "u\<lparr>waiting := rs\<rparr>" "-4" "[]"]
    by (simp add: up_step_def)
qed

lemma transferring_accept:
  assumes "fw_ok f" and "length stk = 2048" and "transferring f off tries (o1 # offs) u"
  shows "taken_by accepts u = chunk f o1"
    and "off + 1024 < length (fw_data f) \<Longrightarrow>
      \<exists>u'. up_step stk f accepts u = Some u' \<and> transferring f (off + 1024) 0 (offs @ [off + 1024]) u'"
    and "length (fw_data f) \<le> off + 1024 \<Longrightarrow> \<exists>u'. up_step stk f accepts u = Some u' \<and> completed u' \<and> fsm_state u' = 3"
proof -
  obtain r rs where w: "waiting u = r # rs" "rq_handler r = XferFirmwareResponse" "drop 12 (rq_data r) = chunk f o1"
    and t: "transferring f off tries offs (u\<lparr>waiting := rs\<rparr>)"
    by (rule transferring_Cons [OF assms(3)])
  then show "taken_by accepts u = chunk f o1" by (simp add: taken_by_def)
  let ?u = "u\<lparr>waiting := rs, try_count := 0, read_offset := read_offset u + 1024\<rparr>"
  have len: "length (fw_data f) = unat (firmware_length f)" "length (fw_data f) \<le> 2 ^ 32 - 1024" using assms(1) by (simp_all add: fw_ok_def)
  have off: "unat (read_offset u + 1024) = off + 1024" using t len by (simp add: transferring_def unat_word_ariths)
  have rl: "read_length u = 1024" "fsm_state u = 2" using t by (simp_all add: transferring_def)
  have step: "up_step stk f accepts u =
      (if off + 1024 < length (fw_data f) then FsmEventHandler stk f EventXferFirmware 20 ?u
       else FsmEventHandler stk f EventCompleteXferFirmware 40 ?u)"
    using w rl off len by (simp add: up_step_def XferFirmwareResponseHandler_def Let_def rd_def word_less_nat_alt)
  show "\<exists>u'. up_step stk f accepts u = Some u' \<and> transferring f (off + 1024) 0 (offs @ [off + 1024]) u'"
    if "off + 1024 < length (fw_data f)"
    using fsm_xfer_transferring [OF assms(1,2), of ?u offs 20] t rl off that step by (simp add: transferring_def)
  show "\<exists>u'. up_step stk f accepts u = Some u' \<and> completed u' \<and> fsm_state u' = 3" if "length (fw_data f) \<le> off + 1024"
    using CompleteXferFirmware_sends [OF assms(1), of "?u\<lparr>fsm_state := 3\<rparr>"] that step rl
    by (auto simp: fsm_complete_xfer)
qed

lemma transferring_start:
  assumes "fw_ok f" and "length stk = 2048" and "fw_data f \<noteq> []"
    and "StartUpgradeLivoxLidar stk f (mk_LivoxLidarUpgrader h) = Some u"
  shows "\<exists>u'. up_step stk f accepts u = Some u' \<and> transferring f 0 0 [0] u'" "taken_by accepts u = []"
proof -
  have u: "fsm_state u = 1" "read_offset u = 0" "read_length u = 1024"
    "map rq_handler (waiting u) = [StartUpgradeResponse]"
    using assms(4)
    by (auto simp: StartUpgradeLivoxLidar_def mk_LivoxLidarUpgrader_def fsm_start StartUpgrade_def Let_def)
  then obtain r where r: "waiting u = [r]" "rq_handler r = StartUpgradeResponse" by (auto simp: map_eq_Cons_conv)
  show "taken_by accepts u = []" using r by (simp add: taken_by_def)
  show "\<exists>u'. up_step stk f accepts u = Some u' \<and> transferring f 0 0 [0] u'"
    using fsm_xfer_transferring [OF assms(1,2), of "u\<lparr>waiting := [], try_count := 0\<rparr>" "[]" 20] u r assms(3)
    by (simp add: up_step_def StartUpgradeResponseHandler_def Let_def rd_def)
qed

text \<open>C37: when the network refuses one send, the request is answered twice, and from then on two requests are under way. If
  then one part of the firmware gets lost, it is not sent again: the upgrade goes on with the next part and
  completes the transfer without it.\<close>

theorem refused_send_loses_part:
  assumes "fw_ok f" and "length stk = 2048" and "2048 < length (fw_data f)" and "length (fw_data f) \<le> 3072"
    and "StartUpgradeLivoxLidar stk f (mk_LivoxLidarUpgrader h) = Some u"
    and "evs = [accepts, Refused 0, Answer 0 (-4) [], accepts, accepts, Answer 0 (-4) [], accepts]"
  shows "\<exists>u'. up_run stk f evs u = Some u' \<and> completed u' \<and> fsm_state u' = UpgradeCompleteXferFirmware \<and>
    taken stk f evs u = take 1024 (fw_data f) @ take 1024 (fw_data f) @ drop 2048 (fw_data f)"
proof -
  have one: "(0 :: u32) + 1 < 10" "(1 :: u32) + 1 < 10" by simp_all
  have d: "fw_data f \<noteq> []" using assms(3) by auto
  obtain u1 where 1: "up_step stk f accepts u = Some u1" "transferring f 0 0 [0] u1"
    using transferring_start(1) [OF assms(1,2) d assms(5)] by blast
  obtain u2 where 2: "up_step stk f (Refused 0) u1 = Some u2" "transferring f 0 1 [0, 0] u2"
    using transferring_refused [OF assms(1,2) 1(2) one(1)] by auto
  obtain u3 where 3: "up_step stk f (Answer 0 (-4) []) u2 = Some u3" "transferring f 0 2 [0, 0] u3"
    using transferring_timeout [OF assms(1,2) 2(2) one(2)] by auto
  obtain u4 where 4: "up_step stk f accepts u3 = Some u4" "transferring f 1024 0 [0, 1024] u4"
    using transferring_accept(2) [OF assms(1,2) 3(2)] assms(3) by auto
  obtain u5 where 5: "up_step stk f accepts u4 = Some u5" "transferring f 2048 0 [1024, 2048] u5"
    using transferring_accept(2) [OF assms(1,2) 4(2)] assms(3) by auto
  obtain u6 where 6: "up_step stk f (Answer 0 (-4) []) u5 = Some u6" "transferring f 2048 1 [2048, 2048] u6"
    using transferring_timeout [OF assms(1,2) 5(2) one(1)] by auto
  obtain u7 where 7: "up_step stk f accepts u6 = Some u7" "completed u7" "fsm_state u7 = 3"
    using transferring_accept(3) [OF assms(1,2) 6(2)] assms(4) by auto
  have t: "taken_by accepts u = []" "taken_by accepts u3 = chunk f 0" "taken_by accepts u4 = chunk f 0"
    "taken_by accepts u6 = chunk f 2048"
    using transferring_start(2) [OF assms(1,2) d assms(5)] transferring_accept(1) [OF assms(1,2) 3(2)]
      transferring_accept(1) [OF assms(1,2) 4(2)] transferring_accept(1) [OF assms(1,2) 6(2)] by simp_all
  have "taken_by (Refused 0) u1 = []" "taken_by (Answer 0 (-4) []) v = []" for v by (simp_all add: taken_by_def)
  then show ?thesis
    using t 1(1) 2(1) 3(1) 4(1) 5(1) 6(1) 7 assms(4) by (simp add: assms(6) chunk_def)
qed

section \<open>What a file leaves behind\<close>

lemma read_from_empty [simp]: "read_from [] off old = old"
  by (simp add: read_from_def)

lemma length_read_from [simp]: "length (read_from file off old) = length old"
  by (simp add: read_from_def Let_def)

text \<open>A file that is too short for the length in its header is accepted, and the rest of the firmware is whatever was in the
  new memory.\<close>

lemma short_file_accepted:
  assumes "fresh = (\<lambda>n. replicate n junk)" and "303 \<le> length file" and "length file < 2 ^ 64"
    and "crc16 (take 284 file) = le_dec (take 2 (drop 284 file))" and "n = unat (le_dec (take 4 (drop 8 file)) :: u32)"
    and "length file < 286 + n"
  shows "\<exists>f. Firmware_Open crc16 fresh (Some file) mk_Firmware = (True, f) \<and> length (fw_data f) = n \<and>
    fw_data f = drop 286 file @ replicate (286 + n - length file) junk"
proof -
  have h: "read_from file 0 (replicate 286 0) = take 286 file" using assms(2) by (simp add: read_from_def)
  have small: "\<not> (of_nat (length file) :: u64) < MiniFileSize"
    using assms(2,3) by (simp add: MiniFileSize_def word_less_nat_alt unat_of_nat take_bit_nat_eq_self)
  have "read_from file 286 (replicate n junk) = drop 286 file @ replicate (286 + n - length file) junk"
    using assms(2,6) by (simp add: read_from_def Let_def)
  moreover have "take 4 (drop 8 (take 286 file)) = take 4 (drop 8 file)" "take 2 (drop 284 (take 286 file)) = take 2 (drop 284 file)"
    by (simp_all add: drop_take)
  ultimately show ?thesis
    using assms(1,2,4-6) small h
    by (simp add: Firmware_Open_def ReadAndCheckHeader_def mk_Firmware_def Let_def hdr_def firmware_length_def min_def)
qed

text \<open>After a file whose header has a wrong checksum no other file is accepted, whatever it is: the stream of the wrong
  file stays open, the next one cannot be opened, and the old header is checked again.\<close>

theorem refused_file_blocks:
  assumes "Firmware_Open crc16 fresh (Some file) mk_Firmware = (False, f)" and "303 \<le> length file" and "length file < 2 ^ 64"
  shows "\<exists>f'. Firmware_Open crc16 fresh' file' f = (False, f')"
proof -
  have small: "\<not> (of_nat (length file) :: u64) < MiniFileSize"
    using assms(2,3) by (simp add: MiniFileSize_def word_less_nat_alt unat_of_nat take_bit_nat_eq_self)
  have "fw_stream f" "crc16 (hdr 0 284 f) \<noteq> le_dec (hdr 284 2 f)"
    using assms(1) small
    by (auto simp: Firmware_Open_def ReadAndCheckHeader_def mk_Firmware_def Let_def split: if_splits)
  then show ?thesis by (simp add: Firmware_Open_def ReadAndCheckHeader_def Let_def hdr_def)
qed

section \<open>Examples\<close>

definition example_firmware :: Firmware where
  "example_firmware = mk_Firmware\<lparr>fw_header := replicate 8 0 @ le_enc 4 (2500 :: u32) @ replicate 274 0, fw_data := replicate 2500 7\<rparr>"

lemma example_firmware_ok: "fw_ok example_firmware"
proof -
  have "firmware_length example_firmware = 2500"
    unfolding example_firmware_def firmware_length_def hdr_def by (simp add: le_dec_enc)
  then show ?thesis unfolding fw_ok_def by (simp add: example_firmware_def)
qed

definition example_upgrader :: upgrader where
  "example_upgrader = the (StartUpgradeLivoxLidar (replicate 2048 0) example_firmware (mk_LivoxLidarUpgrader 77))"

lemma example_upgrader_started:
  "StartUpgradeLivoxLidar (replicate 2048 0) example_firmware (mk_LivoxLidarUpgrader 77) = Some example_upgrader"
  by (simp add: example_upgrader_def StartUpgradeLivoxLidar_def mk_LivoxLidarUpgrader_def fsm_start)

theorem firmware_transferred_witness:
  "up_run (replicate 2048 0) example_firmware [accepts, Answer 0 (-4) [], accepts] example_upgrader \<noteq> None \<and>
   up_run (replicate 2048 0) example_firmware [Answer 0 0 []] example_upgrader = None"
proof -
  have once: "answers_once [accepts, Answer 0 (-4) [], accepts]" "answers_once [Answer 0 0 []]" by (simp_all add: answers_once_def)
  have "\<not> cut_short (replicate 2048 0) example_firmware [accepts, Answer 0 (-4) [], accepts] example_upgrader"
    by (simp add: answered_def split: option.split)
  moreover have "cut_short (replicate 2048 0) example_firmware [Answer 0 0 []] example_upgrader"
    by (simp add: answered_def example_upgrader_def StartUpgradeLivoxLidar_def mk_LivoxLidarUpgrader_def fsm_start StartUpgrade_def Let_def)
  ultimately show ?thesis
    using firmware_transferred [OF example_firmware_ok length_replicate example_upgrader_started] once by blast
qed

theorem upgrade_completes_witness:
  "\<exists>u'. up_run (replicate 2048 0) example_firmware
      [accepts_at 7, accepts_at 0, accepts_at 0, accepts_at 0, accepts_at 0, accepts_at 30, accepts_at 99, accepts_at 100, accepts_at 0]
      example_upgrader = Some u' \<and> IsUpgradeComplete u'"
  using upgrade_completes [OF example_firmware_ok _ _ example_upgrader_started, of "[0, 0, 0]" "[30, 99]" 100 _ 7 0 0]
  by (auto simp: example_firmware_def)

theorem refused_send_loses_part_witness:
  "\<exists>u'. up_run (replicate 2048 0) example_firmware
     [accepts, Refused 0, Answer 0 (-4) [], accepts, accepts, Answer 0 (-4) [], accepts] example_upgrader = Some u' \<and> completed u'"
  using refused_send_loses_part [OF example_firmware_ok _ _ _ example_upgrader_started refl]
  by (auto simp: example_firmware_def)

theorem refused_file_blocks_witness:
  "\<exists>f f'. Firmware_Open (\<lambda>_. 1) (\<lambda>n. replicate n 0) (Some (replicate 400 0)) mk_Firmware = (False, f) \<and>
    Firmware_Open (\<lambda>_. 1) (\<lambda>n. replicate n 0) (Some (replicate 284 0 @ [1, 0] @ replicate 100 0)) f = (False, f')"
proof -
  obtain b f where f: "Firmware_Open (\<lambda>_. 1) (\<lambda>n. replicate n 0) (Some (replicate 400 0)) mk_Firmware = (b, f)" by fastforce
  have "\<not> b" using f
    by (auto simp: Firmware_Open_def ReadAndCheckHeader_def mk_Firmware_def MiniFileSize_def Let_def hdr_def read_from_def
        numeral_2_eq_2 split: if_splits)
  then show ?thesis using refused_file_blocks [of "\<lambda>_. 1" _ "replicate 400 0" f] f by auto
qed

end
