(* ===== verification/Lvx_Config.thy ===== *)
theory Lvx_Config
  imports Complex_Main Lvx_Devices
begin

text \<open>
  The configuration of the Livox SDK: the file (\<^verbatim>\<open>parse_cfg_file.cpp\<close>) and the check of what it says
  (\<^verbatim>\<open>params_check.cpp\<close>). The parser of JSON is rapidjson, a parameter; its documents are the data type \<open>rj\<close>, and what the
  code asks of them are the functions on it. To ask for a member of a value that is no object is an assertion of
  rapidjson that fails, \<^term>\<open>None\<close>.
\<close>

section \<open>Documents\<close>

text \<open>A number is \<open>JUint\<close> when it fits \<^verbatim>\<open>unsigned\<close>, \<open>JInt\<close> when it is another integer. Members keep their order, and the first of a name is found.\<close>

datatype rj = JNull | JBool bool | JUint u32 | JInt int | JDouble rat | JString string | JArray "rj list" | JObject "(string \<times> rj) list"

fun find_member :: "string \<Rightarrow> rj \<Rightarrow> rj option option" where
  "find_member name (JObject ms) = Some (map_of ms name)"
| "find_member name _ = None"

text \<open>A string is taken as a C string: up to its first NUL.\<close>

definition GetString :: "string \<Rightarrow> string" where
  "GetString s = takeWhile (\<lambda>c. of_char c \<noteq> (0 :: nat)) s"

text \<open>Asking for a member that is a number, which is cut to the width of a port. The outer option is the assertion, the
  inner one says that the member is missing or of another type.\<close>

definition port_of :: "string \<Rightarrow> rj \<Rightarrow> u16 option option" where
  "port_of name v = do {
     m \<leftarrow> find_member name v;
     Some (case m of Some (JUint n) \<Rightarrow> Some (ucast n) | _ \<Rightarrow> None)
   }"

section \<open>The file\<close>

record LivoxLidarLoggerCfg =
  lidar_log_enable :: bool
  lidar_log_cache_size :: u64
  lidar_log_path :: string

text \<open>What \<^verbatim>\<open>Parse\<close> fills.\<close>

record sdk_cfg =
  lidars_cfg :: "LivoxLidarCfg list"
  custom_cfg :: "LivoxLidarCfg list"
  lidar_logger_cfg :: LivoxLidarLoggerCfg
  master_sdk_cfg :: bool

definition new_LivoxLidarCfg :: LivoxLidarCfg where
  "new_LivoxLidarCfg = \<lparr>device_type = 0,
     lidar_net_info = \<lparr>lidar_ipaddr = [], lidar_subnet_mask = [], lidar_gateway = [], ln_cmd_data_port = 0,
       ln_push_msg_port = 0, ln_point_data_port = 0, ln_imu_data_port = 0, ln_log_data_port = 0\<rparr>,
     host_net_info = \<lparr>host_ip = [], multicast_ip = [], hn_cmd_data_port = 0, hn_push_msg_port = 0,
       hn_point_data_port = 0, hn_imu_data_port = 0, hn_log_data_port = 0\<rparr>,
     cmd_key_set = []\<rparr>"

text \<open>Each of these returns \<^term>\<open>Some None\<close> where the code returns false: the object that it fills is then not used.\<close>

definition ParseLidarNetInfo :: "rj \<Rightarrow> LivoxLidarNetInfo \<Rightarrow> LivoxLidarNetInfo option option" where
  "ParseLidarNetInfo object l = do {
     m \<leftarrow> find_member ''lidar_net_info'' object;
     case m of
       Some (JObject ms) \<Rightarrow> do {
         cmd \<leftarrow> port_of ''cmd_data_port'' (JObject ms);
         case cmd of None \<Rightarrow> Some None | Some cmd \<Rightarrow> do {
         push \<leftarrow> port_of ''push_msg_port'' (JObject ms);
         case push of None \<Rightarrow> Some None | Some push \<Rightarrow> do {
         point \<leftarrow> port_of ''point_data_port'' (JObject ms);
         case point of None \<Rightarrow> Some None | Some point \<Rightarrow> do {
         imu \<leftarrow> port_of ''imu_data_port'' (JObject ms);
         case imu of None \<Rightarrow> Some None | Some imu \<Rightarrow> do {
         lg \<leftarrow> port_of ''log_data_port'' (JObject ms);
         case lg of None \<Rightarrow> Some None | Some lg \<Rightarrow>
           Some (Some (l\<lparr>ln_cmd_data_port := cmd, ln_push_msg_port := push, ln_point_data_port := point,
             ln_imu_data_port := imu, ln_log_data_port := lg\<rparr>))
       }}}}}
     | _ \<Rightarrow> Some None
   }"

text \<open>The address: \<^verbatim>\<open>host_ip\<close> comes before \<^verbatim>\<open>cmd_data_ip\<close> when both are there.\<close>

definition host_address :: "rj \<Rightarrow> string option option" where
  "host_address object = do {
     host \<leftarrow> find_member ''host_ip'' object;
     cmd \<leftarrow> find_member ''cmd_data_ip'' object;
     Some (if host = None \<and> cmd = None then None
           else if (case host of None \<Rightarrow> False | Some (JString _) \<Rightarrow> False | _ \<Rightarrow> True) then None
           else if (case cmd of None \<Rightarrow> False | Some (JString _) \<Rightarrow> False | _ \<Rightarrow> True) then None
           else (case host of
               Some (JString s) \<Rightarrow> Some (GetString s)
             | _ \<Rightarrow> (case cmd of Some (JString s) \<Rightarrow> Some (GetString s) | _ \<Rightarrow> Some [])))
   }"

definition multicast_address :: "rj \<Rightarrow> string option option" where
  "multicast_address object = do {
     m \<leftarrow> find_member ''multicast_ip'' object;
     Some (case m of None \<Rightarrow> Some [] | Some (JString s) \<Rightarrow> Some (GetString s) | _ \<Rightarrow> None)
   }"

definition ParseHostNetInfo :: "rj \<Rightarrow> HostNetInfo \<Rightarrow> HostNetInfo option option" where
  "ParseHostNetInfo object h = do {
     ip \<leftarrow> host_address object;
     case ip of None \<Rightarrow> Some None | Some ip \<Rightarrow> do {
     multi \<leftarrow> multicast_address object;
     case multi of None \<Rightarrow> Some None | Some multi \<Rightarrow> do {
     cmd \<leftarrow> port_of ''cmd_data_port'' object;
     case cmd of None \<Rightarrow> Some None | Some cmd \<Rightarrow> do {
     push \<leftarrow> port_of ''push_msg_port'' object;
     case push of None \<Rightarrow> Some None | Some push \<Rightarrow> do {
     point \<leftarrow> port_of ''point_data_port'' object;
     case point of None \<Rightarrow> Some None | Some point \<Rightarrow> do {
     imu \<leftarrow> port_of ''imu_data_port'' object;
     case imu of None \<Rightarrow> Some None | Some imu \<Rightarrow> do {
     lg \<leftarrow> port_of ''log_data_port'' object;
     case lg of None \<Rightarrow> Some None | Some lg \<Rightarrow>
       Some (Some (h\<lparr>host_ip := ip, multicast_ip := multi, hn_cmd_data_port := cmd, hn_push_msg_port := push,
         hn_point_data_port := point, hn_imu_data_port := imu, hn_log_data_port := lg\<rparr>))
   }}}}}}}"

text \<open>\<^verbatim>\<open>ParseGeneralCfgInfo\<close> does nothing.\<close>

definition ParseTypeLidarCfg :: "rj \<Rightarrow> rj \<Rightarrow> u8 \<Rightarrow> LivoxLidarCfg \<Rightarrow> LivoxLidarCfg option option" where
  "ParseTypeLidarCfg object host t c = do {
     let c = c\<lparr>device_type := t\<rparr>;
     l \<leftarrow> ParseLidarNetInfo object (lidar_net_info c);
     case l of None \<Rightarrow> Some None | Some l \<Rightarrow> do {
     h \<leftarrow> ParseHostNetInfo host (host_net_info c);
     case h of None \<Rightarrow> Some None | Some h \<Rightarrow>
       Some (Some (c\<lparr>lidar_net_info := l, host_net_info := h\<rparr>))
   }}"

fun ParseLidarIps :: "rj \<Rightarrow> rj \<Rightarrow> u8 \<Rightarrow> rj list \<Rightarrow> sdk_cfg \<Rightarrow> sdk_cfg option option" where
  "ParseLidarIps object host t [] s = Some (Some s)"
| "ParseLidarIps object host t (JString ip # ips) s = do {
     let c = new_LivoxLidarCfg;
     c \<leftarrow> ParseTypeLidarCfg object host t (c\<lparr>lidar_net_info := (lidar_net_info c)\<lparr>lidar_ipaddr := GetString ip\<rparr>\<rparr>);
     case c of
       None \<Rightarrow> Some None
     | Some c \<Rightarrow> ParseLidarIps object host t ips (s\<lparr>custom_cfg := custom_cfg s @ [c]\<rparr>)
   }"
| "ParseLidarIps object host t (_ # ips) s = Some None"

fun ParseNewLidarCfg :: "rj \<Rightarrow> u8 \<Rightarrow> rj list \<Rightarrow> sdk_cfg \<Rightarrow> sdk_cfg option option" where
  "ParseNewLidarCfg object t [] s = Some (Some s)"
| "ParseNewLidarCfg object t (host # hosts) s = do {
     ips \<leftarrow> find_member ''lidar_ip'' host;
     case ips of
       Some (JArray ips) \<Rightarrow> do {
         s \<leftarrow> ParseLidarIps object host t ips s;
         case s of None \<Rightarrow> Some None | Some s \<Rightarrow> ParseNewLidarCfg object t hosts s
       }
     | _ \<Rightarrow> do {
         c \<leftarrow> ParseTypeLidarCfg object host t new_LivoxLidarCfg;
         case c of
           None \<Rightarrow> Some None
         | Some c \<Rightarrow> ParseNewLidarCfg object t hosts (s\<lparr>lidars_cfg := lidars_cfg s @ [c]\<rparr>)
       }
   }"

definition ParseOldLidarCfg :: "rj \<Rightarrow> u8 \<Rightarrow> rj \<Rightarrow> sdk_cfg \<Rightarrow> sdk_cfg option option" where
  "ParseOldLidarCfg object t host s = do {
     c \<leftarrow> ParseTypeLidarCfg object host t new_LivoxLidarCfg;
     Some (map_option (\<lambda>c. s\<lparr>lidars_cfg := lidars_cfg s @ [c]\<rparr>) c)
   }"

definition ParseLidarCfg :: "rj \<Rightarrow> u8 \<Rightarrow> sdk_cfg \<Rightarrow> sdk_cfg option option" where
  "ParseLidarCfg object t s = do {
     m \<leftarrow> find_member ''host_net_info'' object;
     case m of
       Some (JArray hosts) \<Rightarrow> ParseNewLidarCfg object t hosts s
     | Some (JObject ms) \<Rightarrow> ParseOldLidarCfg object t (JObject ms) s
     | _ \<Rightarrow> Some None
   }"

definition dev_type_map :: "(string \<times> u8) list" where
  "dev_type_map = [(''HAP'', kLivoxLidarTypeIndustrialHAP), (''MID360'', kLivoxLidarTypeMid360),
     (''Mid360s'', kLivoxLidarTypeMid360s)]"

text \<open>The sections of the types, in this order; one that is no object is left out.\<close>

fun ParseSections :: "rj \<Rightarrow> (string \<times> u8) list \<Rightarrow> sdk_cfg \<Rightarrow> sdk_cfg option option" where
  "ParseSections doc [] s = Some (Some s)"
| "ParseSections doc ((name, t) # types) s = do {
     m \<leftarrow> find_member name doc;
     case m of
       Some (JObject ms) \<Rightarrow> do {
         s \<leftarrow> ParseLidarCfg (JObject ms) t s;
         case s of None \<Rightarrow> Some None | Some s \<Rightarrow> ParseSections doc types s
       }
     | _ \<Rightarrow> ParseSections doc types s
   }"

definition parse_master :: "rj \<Rightarrow> bool option option" where
  "parse_master doc = do {
     m \<leftarrow> find_member ''master_sdk'' doc;
     Some (case m of None \<Rightarrow> Some True | Some (JBool b) \<Rightarrow> Some b | _ \<Rightarrow> None)
   }"

definition parse_logger :: "rj \<Rightarrow> LivoxLidarLoggerCfg option option" where
  "parse_logger doc = do {
     en \<leftarrow> find_member ''lidar_log_enable'' doc;
     size_m \<leftarrow> find_member ''lidar_log_cache_size_MB'' doc;
     path \<leftarrow> find_member ''lidar_log_path'' doc;
     Some (case en of
         None \<Rightarrow> Some \<lparr>lidar_log_enable = False, lidar_log_cache_size = 0,
           lidar_log_path = (case path of Some (JString s) \<Rightarrow> GetString s | _ \<Rightarrow> ''./'')\<rparr>
       | Some (JBool b) \<Rightarrow>
           (case size_m of
              Some (JUint n) \<Rightarrow>
                (case path of
                   Some (JString s) \<Rightarrow> Some \<lparr>lidar_log_enable = b, lidar_log_cache_size = ucast n, lidar_log_path = GetString s\<rparr>
                 | _ \<Rightarrow> None)
            | _ \<Rightarrow> None)
       | _ \<Rightarrow> None)
   }"

text \<open>\<open>json\<close> is the parser of rapidjson. A file that cannot be opened is read all the same, through a null pointer.\<close>

definition ParseCfg :: "(bytes \<Rightarrow> rj option) \<Rightarrow> bytes option \<Rightarrow> sdk_cfg option option" where
  "ParseCfg json file = do {
     content \<leftarrow> file;
     case json content of
       None \<Rightarrow> Some None
     | Some doc \<Rightarrow> do {
         master \<leftarrow> parse_master doc;
         case master of None \<Rightarrow> Some None | Some master \<Rightarrow> do {
         logger \<leftarrow> parse_logger doc;
         case logger of None \<Rightarrow> Some None | Some logger \<Rightarrow>
           ParseSections doc dev_type_map
             \<lparr>lidars_cfg = [], custom_cfg = [], lidar_logger_cfg = logger, master_sdk_cfg = master\<rparr>
       }}
   }"

section \<open>The check\<close>

fun check_lidar_ips :: "string set \<Rightarrow> LivoxLidarCfg list \<Rightarrow> string set option" where
  "check_lidar_ips seen [] = Some seen"
| "check_lidar_ips seen (c # cs) =
     (let ip = lidar_ipaddr (lidar_net_info c) in
      if ip = [] then check_lidar_ips seen cs
      else if ip \<in> seen then None
      else check_lidar_ips (insert ip seen) cs)"

fun check_custom_ips :: "string set \<Rightarrow> LivoxLidarCfg list \<Rightarrow> bool" where
  "check_custom_ips seen [] = True"
| "check_custom_ips seen (c # cs) =
     (let ip = lidar_ipaddr (lidar_net_info c) in
      if ip = [] then False
      else if ip \<in> seen then False
      else check_custom_ips (insert ip seen) cs)"

definition CheckLidarIp :: "LivoxLidarCfg list \<Rightarrow> LivoxLidarCfg list \<Rightarrow> bool" where
  "CheckLidarIp lidars customs =
     (case check_lidar_ips {} lidars of None \<Rightarrow> False | Some seen \<Rightarrow> check_custom_ips seen customs)"

definition CheckPort :: "u8 \<Rightarrow> LivoxLidarNetInfo \<Rightarrow> LivoxLidarNetInfo" where
  "CheckPort t l =
     (if t = kLivoxLidarTypeMid360
      then l\<lparr>ln_cmd_data_port := kMid360LidarCmdPort, ln_push_msg_port := kMid360LidarPushMsgPort,
        ln_point_data_port := kMid360LidarPointCloudPort, ln_imu_data_port := kMid360LidarImuDataPort,
        ln_log_data_port := kMid360LidarLogPort\<rparr>
      else if t = kLivoxLidarTypeMid360s
      then l\<lparr>ln_cmd_data_port := kMid360sLidarCmdPort, ln_push_msg_port := kMid360sLidarPushMsgPort,
        ln_point_data_port := kMid360sLidarPointCloudPort, ln_imu_data_port := kMid360sLidarImuDataPort,
        ln_log_data_port := kMid360sLidarLogPort\<rparr>
      else l)"

definition CheckLidarPort :: "LivoxLidarCfg list \<Rightarrow> LivoxLidarCfg list" where
  "CheckLidarPort = map (\<lambda>c. c\<lparr>lidar_net_info := CheckPort (device_type c) (lidar_net_info c)\<rparr>)"

text \<open>The outer option is the exception of \<^verbatim>\<open>std::stoi\<close> in \<^verbatim>\<open>IpToU8\<close>.\<close>

fun CheckLidarMulticastIp :: "LivoxLidarCfg list \<Rightarrow> bool option" where
  "CheckLidarMulticastIp [] = Some True"
| "CheckLidarMulticastIp (c # cs) =
     (let ip = multicast_ip (host_net_info c) in
      if ip = [] then CheckLidarMulticastIp cs
      else do {
        (ok, v) \<leftarrow> IpToU8 ip CHR ''.'';
        if \<not> ok then Some False
        else (let net_ip = (le_dec (rev v) :: u32) in
          if net_ip \<le> 0xE0000000 \<or> net_ip > 0xEFFFFFFF then Some False
          else CheckLidarMulticastIp cs)
      })"

definition ParamsCheck :: "LivoxLidarCfg list \<Rightarrow> LivoxLidarCfg list \<Rightarrow> (bool \<times> LivoxLidarCfg list \<times> LivoxLidarCfg list) option" where
  "ParamsCheck lidars customs =
     (if lidars = [] \<and> customs = [] then Some (False, lidars, customs)
      else if \<not> CheckLidarIp lidars customs then Some (False, lidars, customs)
      else (let lidars = CheckLidarPort lidars; customs = CheckLidarPort customs in do {
        ok \<leftarrow> CheckLidarMulticastIp (lidars @ customs);
        Some (ok, lidars, customs)
      }))"

section \<open>What a file says\<close>

text \<open>What a document means: for each type of device the ports of the lidars, and the hosts with the addresses of the
  lidars that talk to them, or without any for all lidars of the type. The predicates say which members a document has to
  have, and of which form; members may be in any order and there may be others.\<close>

type_synonym host_section = "HostNetInfo \<times> string list option"

type_synonym sections = "string \<Rightarrow> (LivoxLidarNetInfo \<times> host_section list) option"

definition c_text :: "string \<Rightarrow> bool" where
  "c_text s \<longleftrightarrow> list_all (\<lambda>c. of_char c \<noteq> (0 :: nat)) s"

definition number_says :: "(string \<times> rj) list \<Rightarrow> string \<Rightarrow> u16 \<Rightarrow> bool" where
  "number_says ms name n \<longleftrightarrow> map_of ms name = Some (JUint (ucast n))"

definition text_says :: "(string \<times> rj) list \<Rightarrow> string \<Rightarrow> string \<Rightarrow> bool" where
  "text_says ms name s \<longleftrightarrow> map_of ms name = Some (JString s) \<and> c_text s"

definition net_says :: "(string \<times> rj) list \<Rightarrow> LivoxLidarNetInfo \<Rightarrow> bool" where
  "net_says ms l \<longleftrightarrow> number_says ms ''cmd_data_port'' (ln_cmd_data_port l) \<and> number_says ms ''push_msg_port'' (ln_push_msg_port l) \<and>
     number_says ms ''point_data_port'' (ln_point_data_port l) \<and> number_says ms ''imu_data_port'' (ln_imu_data_port l) \<and>
     number_says ms ''log_data_port'' (ln_log_data_port l)"

text \<open>The address of a host is its \<^verbatim>\<open>host_ip\<close>, or the \<^verbatim>\<open>cmd_data_ip\<close> of the older form; a multicast address is optional.\<close>

definition address_says :: "(string \<times> rj) list \<Rightarrow> string \<Rightarrow> bool" where
  "address_says ms ip \<longleftrightarrow>
     text_says ms ''host_ip'' ip \<and> (case map_of ms ''cmd_data_ip'' of None \<Rightarrow> True | Some (JString _) \<Rightarrow> True | _ \<Rightarrow> False) \<or>
     map_of ms ''host_ip'' = None \<and> text_says ms ''cmd_data_ip'' ip"

definition multicast_says :: "(string \<times> rj) list \<Rightarrow> string \<Rightarrow> bool" where
  "multicast_says ms ip \<longleftrightarrow> text_says ms ''multicast_ip'' ip \<or> map_of ms ''multicast_ip'' = None \<and> ip = []"

definition host_says :: "(string \<times> rj) list \<Rightarrow> HostNetInfo \<Rightarrow> bool" where
  "host_says ms h \<longleftrightarrow> address_says ms (host_ip h) \<and> multicast_says ms (multicast_ip h) \<and>
     number_says ms ''cmd_data_port'' (hn_cmd_data_port h) \<and> number_says ms ''push_msg_port'' (hn_push_msg_port h) \<and>
     number_says ms ''point_data_port'' (hn_point_data_port h) \<and> number_says ms ''imu_data_port'' (hn_imu_data_port h) \<and>
     number_says ms ''log_data_port'' (hn_log_data_port h)"

text \<open>A host without a list of addresses is for all lidars of the type.\<close>

definition addresses_say :: "(string \<times> rj) list \<Rightarrow> string list option \<Rightarrow> bool" where
  "addresses_say ms ips \<longleftrightarrow> (case map_of ms ''lidar_ip'' of
       Some (JArray vs) \<Rightarrow> (case ips of None \<Rightarrow> False | Some xs \<Rightarrow> vs = map JString xs \<and> list_all c_text xs)
     | _ \<Rightarrow> ips = None)"

fun entry_says :: "rj \<Rightarrow> host_section \<Rightarrow> bool" where
  "entry_says (JObject ms) hs = (host_says ms (fst hs) \<and> addresses_say ms (snd hs))"
| "entry_says _ hs = False"

text \<open>The hosts are a list, or one object in the older form, which is for all lidars of the type.\<close>

fun hosts_say :: "rj option \<Rightarrow> host_section list \<Rightarrow> bool" where
  "hosts_say (Some (JArray vs)) hosts = list_all2 entry_says vs hosts"
| "hosts_say (Some (JObject ms)) hosts = (case hosts of [(h, None)] \<Rightarrow> host_says ms h | _ \<Rightarrow> False)"
| "hosts_say _ hosts = False"

definition section_says :: "(string \<times> rj) list \<Rightarrow> LivoxLidarNetInfo \<times> host_section list \<Rightarrow> bool" where
  "section_says ms sec \<longleftrightarrow> (case map_of ms ''lidar_net_info'' of Some (JObject ns) \<Rightarrow> net_says ns (fst sec) | _ \<Rightarrow> False) \<and>
     hosts_say (map_of ms ''host_net_info'') (snd sec)"

definition master_says :: "(string \<times> rj) list \<Rightarrow> bool \<Rightarrow> bool" where
  "master_says ms b \<longleftrightarrow> map_of ms ''master_sdk'' = Some (JBool b) \<or> map_of ms ''master_sdk'' = None \<and> b"

definition logger_says :: "(string \<times> rj) list \<Rightarrow> LivoxLidarLoggerCfg \<Rightarrow> bool" where
  "logger_says ms lg \<longleftrightarrow> (case map_of ms ''lidar_log_enable'' of
       None \<Rightarrow> \<not> lidar_log_enable lg \<and> lidar_log_cache_size lg = 0 \<and>
         (text_says ms ''lidar_log_path'' (lidar_log_path lg) \<or>
          map_of ms ''lidar_log_path'' = None \<and> lidar_log_path lg = ''./'')
     | Some v \<Rightarrow> v = JBool (lidar_log_enable lg) \<and> text_says ms ''lidar_log_path'' (lidar_log_path lg) \<and>
         (case map_of ms ''lidar_log_cache_size_MB'' of Some (JUint n) \<Rightarrow> lidar_log_cache_size lg = ucast n | _ \<Rightarrow> False))"

definition type_says :: "(string \<times> rj) list \<Rightarrow> string \<Rightarrow> (LivoxLidarNetInfo \<times> host_section list) option \<Rightarrow> bool" where
  "type_says ms name sec \<longleftrightarrow> (case map_of ms name of
       Some (JObject ss) \<Rightarrow> (case sec of None \<Rightarrow> False | Some sec \<Rightarrow> section_says ss sec)
     | _ \<Rightarrow> sec = None)"

fun doc_says :: "rj \<Rightarrow> bool \<Rightarrow> LivoxLidarLoggerCfg \<Rightarrow> sections \<Rightarrow> bool" where
  "doc_says (JObject ms) master lg secs = (master_says ms master \<and> logger_says ms lg \<and>
     list_all (\<lambda>(name, _). type_says ms name (secs name)) dev_type_map)"
| "doc_says _ master lg secs = False"

text \<open>The configurations that this means.\<close>

definition cfg_of :: "u8 \<Rightarrow> LivoxLidarNetInfo \<Rightarrow> HostNetInfo \<Rightarrow> string \<Rightarrow> LivoxLidarCfg" where
  "cfg_of t l h ip = \<lparr>device_type = t, lidar_net_info = l\<lparr>lidar_ipaddr := ip, lidar_subnet_mask := [], lidar_gateway := []\<rparr>,
     host_net_info = h, cmd_key_set = []\<rparr>"

definition type_cfgs :: "u8 \<Rightarrow> LivoxLidarNetInfo \<times> host_section list \<Rightarrow> LivoxLidarCfg list" where
  "type_cfgs t sec = map (\<lambda>(h, _). cfg_of t (fst sec) h []) (filter (\<lambda>hs. snd hs = None) (snd sec))"

definition address_cfgs :: "u8 \<Rightarrow> LivoxLidarNetInfo \<times> host_section list \<Rightarrow> LivoxLidarCfg list" where
  "address_cfgs t sec = concat (map (\<lambda>(h, ips). case ips of None \<Rightarrow> [] | Some xs \<Rightarrow> map (cfg_of t (fst sec) h) xs) (snd sec))"

definition all_type_cfgs :: "sections \<Rightarrow> (string \<times> u8) list \<Rightarrow> LivoxLidarCfg list" where
  "all_type_cfgs secs types = concat (map (\<lambda>(name, t). case secs name of None \<Rightarrow> [] | Some sec \<Rightarrow> type_cfgs t sec) types)"

definition all_address_cfgs :: "sections \<Rightarrow> (string \<times> u8) list \<Rightarrow> LivoxLidarCfg list" where
  "all_address_cfgs secs types = concat (map (\<lambda>(name, t). case secs name of None \<Rightarrow> [] | Some sec \<Rightarrow> address_cfgs t sec) types)"

lemma GetString_text: "c_text s \<Longrightarrow> GetString s = s"
  by (simp add: GetString_def c_text_def list_all_iff takeWhile_eq_all_conv)

lemma ucast_port: "ucast (ucast (n :: u16) :: u32) = n"
  by (transfer; simp)

lemma port_of_says: "number_says ms name n \<Longrightarrow> port_of name (JObject ms) = Some (Some n)"
  by (simp add: port_of_def number_says_def ucast_port)

lemma ParseLidarNetInfo_says:
  assumes "section_says ms (l, hosts)"
  shows "ParseLidarNetInfo (JObject ms) x = Some (Some (x\<lparr>ln_cmd_data_port := ln_cmd_data_port l,
     ln_push_msg_port := ln_push_msg_port l, ln_point_data_port := ln_point_data_port l,
     ln_imu_data_port := ln_imu_data_port l, ln_log_data_port := ln_log_data_port l\<rparr>))"
proof -
  obtain ns where m: "map_of ms ''lidar_net_info'' = Some (JObject ns)" and "net_says ns l"
    using assms by (auto simp: section_says_def split: option.splits rj.splits)
  then have "number_says ns ''cmd_data_port'' (ln_cmd_data_port l)" "number_says ns ''push_msg_port'' (ln_push_msg_port l)"
    "number_says ns ''point_data_port'' (ln_point_data_port l)" "number_says ns ''imu_data_port'' (ln_imu_data_port l)"
    "number_says ns ''log_data_port'' (ln_log_data_port l)" by (simp_all add: net_says_def)
  note p = this [THEN port_of_says]
  show ?thesis by (simp add: ParseLidarNetInfo_def m p)
qed

lemma host_address_says: "address_says ms ip \<Longrightarrow> host_address (JObject ms) = Some (Some ip)"
  by (auto simp: address_says_def host_address_def text_says_def GetString_text split: option.splits rj.splits)

lemma multicast_address_says: "multicast_says ms ip \<Longrightarrow> multicast_address (JObject ms) = Some (Some ip)"
  by (auto simp: multicast_says_def multicast_address_def text_says_def GetString_text)

lemma ParseHostNetInfo_says:
  assumes "host_says ms h"
  shows "ParseHostNetInfo (JObject ms) x = Some (Some h)"
proof -
  have "number_says ms ''cmd_data_port'' (hn_cmd_data_port h)" "number_says ms ''push_msg_port'' (hn_push_msg_port h)"
    "number_says ms ''point_data_port'' (hn_point_data_port h)" "number_says ms ''imu_data_port'' (hn_imu_data_port h)"
    "number_says ms ''log_data_port'' (hn_log_data_port h)"
    and a: "address_says ms (host_ip h)" "multicast_says ms (multicast_ip h)"
    using assms by (simp_all add: host_says_def)
  note p = this(1-5) [THEN port_of_says]
  have "x\<lparr>host_ip := host_ip h, multicast_ip := multicast_ip h, hn_cmd_data_port := hn_cmd_data_port h,
      hn_push_msg_port := hn_push_msg_port h, hn_point_data_port := hn_point_data_port h,
      hn_imu_data_port := hn_imu_data_port h, hn_log_data_port := hn_log_data_port h\<rparr> = h" by (cases h; cases x) simp
  then show ?thesis by (simp add: ParseHostNetInfo_def host_address_says [OF a(1)] multicast_address_says [OF a(2)] p)
qed

lemma ParseTypeLidarCfg_says:
  assumes "section_says ms (l, hosts)" and "host_says hms h"
  shows "ParseTypeLidarCfg (JObject ms) (JObject hms) t
    (new_LivoxLidarCfg\<lparr>lidar_net_info := (lidar_net_info new_LivoxLidarCfg)\<lparr>lidar_ipaddr := ip\<rparr>\<rparr>) = Some (Some (cfg_of t l h ip))"
  by (cases l) (simp add: ParseTypeLidarCfg_def ParseLidarNetInfo_says [OF assms(1)] ParseHostNetInfo_says [OF assms(2)]
      new_LivoxLidarCfg_def cfg_of_def)

lemma ParseTypeLidarCfg_type:
  assumes "section_says ms (l, hosts)" and "host_says hms h"
  shows "ParseTypeLidarCfg (JObject ms) (JObject hms) t new_LivoxLidarCfg = Some (Some (cfg_of t l h []))"
  using ParseTypeLidarCfg_says [OF assms, of t "[]"] by (simp add: new_LivoxLidarCfg_def)

lemma ParseLidarIps_says:
  assumes "section_says ms (l, hosts)" and "host_says hms h" and "list_all c_text ips"
  shows "ParseLidarIps (JObject ms) (JObject hms) t (map JString ips) s
    = Some (Some (s\<lparr>custom_cfg := custom_cfg s @ map (cfg_of t l h) ips\<rparr>))"
  using assms(3)
  by (induction ips arbitrary: s) (simp_all add: Let_def GetString_text ParseTypeLidarCfg_says [OF assms(1,2)])

lemma ParseNewLidarCfg_entry:
  assumes "section_says ms (l, all_hosts)" and "entry_says v (h, ips)"
  shows "ParseNewLidarCfg (JObject ms) t (v # vs) s = ParseNewLidarCfg (JObject ms) t vs
    (s\<lparr>lidars_cfg := lidars_cfg s @ type_cfgs t (l, [(h, ips)]), custom_cfg := custom_cfg s @ address_cfgs t (l, [(h, ips)])\<rparr>)"
proof -
  obtain hms where v: "v = JObject hms" and h: "host_says hms h" and a: "addresses_say hms ips"
    using assms(2) by (cases v) auto
  note p = ParseTypeLidarCfg_type [OF assms(1) h, of t] and q = ParseLidarIps_says [OF assms(1) h]
  consider (list) xs where "map_of hms ''lidar_ip'' = Some (JArray (map JString xs))" "ips = Some xs" "list_all c_text xs"
    | (none) "ips = None" "\<nexists>ws. map_of hms ''lidar_ip'' = Some (JArray ws)"
    using a by (auto simp: addresses_say_def split: option.splits rj.splits)
  then show ?thesis
  proof cases
    case list
    then show ?thesis using q [of xs t s] v by (simp add: type_cfgs_def address_cfgs_def)
  next
    case none
    then show ?thesis using p v
      by (auto simp: type_cfgs_def address_cfgs_def split: option.splits rj.splits)
  qed
qed

lemma ParseNewLidarCfg_says:
  assumes "section_says ms (l, all_hosts)" and "list_all2 entry_says vs hosts"
  shows "ParseNewLidarCfg (JObject ms) t vs s = Some (Some
    (s\<lparr>lidars_cfg := lidars_cfg s @ type_cfgs t (l, hosts), custom_cfg := custom_cfg s @ address_cfgs t (l, hosts)\<rparr>))"
  using assms(2)
proof (induction vs hosts arbitrary: s rule: list_all2_induct)
  case Nil
  show ?case by (simp add: type_cfgs_def address_cfgs_def)
next
  case (Cons v vs hs hosts)
  obtain h ips where hs: "hs = (h, ips)" by fastforce
  have "type_cfgs t (l, (h, ips) # hosts) = type_cfgs t (l, [(h, ips)]) @ type_cfgs t (l, hosts)"
    "address_cfgs t (l, (h, ips) # hosts) = address_cfgs t (l, [(h, ips)]) @ address_cfgs t (l, hosts)"
    unfolding type_cfgs_def address_cfgs_def fst_conv snd_conv by simp_all
  then show ?case
    using ParseNewLidarCfg_entry [OF assms(1), of v h ips t vs s] Cons hs by simp
qed

lemma ParseLidarCfg_says:
  assumes "section_says ms sec"
  shows "ParseLidarCfg (JObject ms) t s = Some (Some
    (s\<lparr>lidars_cfg := lidars_cfg s @ type_cfgs t sec, custom_cfg := custom_cfg s @ address_cfgs t sec\<rparr>))"
proof -
  obtain l hosts where sec: "sec = (l, hosts)" by fastforce
  then have h: "hosts_say (map_of ms ''host_net_info'') hosts" using assms by (simp add: section_says_def)
  note a = assms [unfolded sec]
  from h consider (list) vs where "map_of ms ''host_net_info'' = Some (JArray vs)" "list_all2 entry_says vs hosts"
    | (one) hms g where "map_of ms ''host_net_info'' = Some (JObject hms)" "hosts = [(g, None)]" "host_says hms g"
    by (cases "(map_of ms ''host_net_info'', hosts)" rule: hosts_say.cases) (auto split: list.splits option.splits prod.splits)
  then show ?thesis
  proof cases
    case list
    then show ?thesis using ParseNewLidarCfg_says [OF a] sec by (simp add: ParseLidarCfg_def)
  next
    case one
    then show ?thesis using ParseTypeLidarCfg_type [OF a] sec
      by (simp add: ParseLidarCfg_def ParseOldLidarCfg_def type_cfgs_def address_cfgs_def)
  qed
qed

lemma ParseSections_says:
  assumes "list_all (\<lambda>(name, _). type_says ms name (secs name)) types"
  shows "ParseSections (JObject ms) types s = Some (Some
    (s\<lparr>lidars_cfg := lidars_cfg s @ all_type_cfgs secs types, custom_cfg := custom_cfg s @ all_address_cfgs secs types\<rparr>))"
  using assms
proof (induction types arbitrary: s)
  case Nil
  show ?case by (simp add: all_type_cfgs_def all_address_cfgs_def)
next
  case (Cons nt types)
  obtain name t where nt: "nt = (name, t)" by fastforce
  then have "type_says ms name (secs name)" using Cons.prems by simp
  then consider (some) ss sec where "map_of ms name = Some (JObject ss)" "secs name = Some sec" "section_says ss sec"
    | (none) "secs name = None" "\<nexists>ss. map_of ms name = Some (JObject ss)"
    by (auto simp: type_says_def split: option.splits rj.splits)
  then show ?case
  proof cases
    case some
    then show ?thesis
      using Cons nt ParseLidarCfg_says [of ss sec t s] by (simp add: all_type_cfgs_def all_address_cfgs_def)
  next
    case none
    then show ?thesis using Cons nt
      by (auto simp: all_type_cfgs_def all_address_cfgs_def split: option.splits rj.splits)
  qed
qed

text \<open>C16: a file whose document describes a configuration is read as that configuration: the types and the addresses of
  its sections, each with the ports of its section and the host that it belongs to, the logger and the role of the SDK. The members
  may be in any order and among others, the optional ones (role, logger, multicast address, addresses of lidars) may be
  missing, and a host may be in the older form. The configurations come in the order of the types (HAP, MID360, Mid360s),
  whatever the order of their sections, and within a type in that of the file. Ports are below 65536 and texts have no NUL.\<close>

theorem ParseCfg_reads:
  assumes "json content = Some doc" and "doc_says doc master lg secs"
  shows "ParseCfg json (Some content) = Some (Some \<lparr>lidars_cfg = all_type_cfgs secs dev_type_map,
    custom_cfg = all_address_cfgs secs dev_type_map, lidar_logger_cfg = lg, master_sdk_cfg = master\<rparr>)"
proof -
  obtain ms where doc: "doc = JObject ms" and m: "master_says ms master" and l: "logger_says ms lg"
    and s: "list_all (\<lambda>(name, _). type_says ms name (secs name)) dev_type_map"
    using assms(2) by (cases doc) auto
  have "parse_master doc = Some (Some master)" using m by (auto simp: doc parse_master_def master_says_def)
  moreover have "parse_logger doc = Some (Some lg)"
    using l by (cases lg) (auto simp: doc parse_logger_def logger_says_def text_says_def GetString_text split: option.splits rj.splits)
  ultimately show ?thesis using assms(1) ParseSections_says [OF s] doc by (simp add: ParseCfg_def)
qed

text \<open>Ports of a document.\<close>

definition port_json :: "u16 \<Rightarrow> rj" where
  "port_json n = JUint (ucast n)"

definition net_json :: "LivoxLidarNetInfo \<Rightarrow> rj" where
  "net_json l = JObject [(''cmd_data_port'', port_json (ln_cmd_data_port l)), (''push_msg_port'', port_json (ln_push_msg_port l)),
     (''point_data_port'', port_json (ln_point_data_port l)), (''imu_data_port'', port_json (ln_imu_data_port l)),
     (''log_data_port'', port_json (ln_log_data_port l))]"

definition example_net :: LivoxLidarNetInfo where
  "example_net = \<lparr>lidar_ipaddr = [], lidar_subnet_mask = [], lidar_gateway = [], ln_cmd_data_port = 56000,
     ln_push_msg_port = 0, ln_point_data_port = 57000, ln_imu_data_port = 58000, ln_log_data_port = 59000\<rparr>"

text \<open>The sample of the required fields in \<^verbatim>\<open>Livox-SDK2/README.md\<close>, and the file \<^verbatim>\<open>config/MID360_config.json\<close> of
  livox_ros_driver2, whose host is in the older form and which has members for others.\<close>

definition readme_doc :: rj where
  "readme_doc = JObject [(''HAP'', JObject [(''lidar_net_info'', net_json example_net),
     (''host_net_info'', JArray [JObject [
        (''lidar_ip'', JArray (map JString [''192.168.1.10'', ''192.168.1.11'', ''192.168.1.12'', ''192.168.1.13''])),
        (''host_ip'', JString ''192.168.1.5''), (''cmd_data_port'', JUint 56000), (''push_msg_port'', JUint 0),
        (''point_data_port'', JUint 57000), (''imu_data_port'', JUint 58000), (''log_data_port'', JUint 59000)]])])]"

definition readme_host :: HostNetInfo where
  "readme_host = \<lparr>host_ip = ''192.168.1.5'', multicast_ip = [], hn_cmd_data_port = 56000, hn_push_msg_port = 0,
     hn_point_data_port = 57000, hn_imu_data_port = 58000, hn_log_data_port = 59000\<rparr>"

definition readme_sections :: sections where
  "readme_sections = [''HAP'' \<mapsto> (example_net,
     [(readme_host, Some [''192.168.1.10'', ''192.168.1.11'', ''192.168.1.12'', ''192.168.1.13''])])]"

definition ros_doc :: rj where
  "ros_doc = JObject [(''lidar_summary_info'', JObject [(''lidar_type'', JUint 8)]),
     (''MID360'', JObject [
       (''lidar_net_info'', JObject [(''cmd_data_port'', JUint 56100), (''push_msg_port'', JUint 56200),
          (''point_data_port'', JUint 56300), (''imu_data_port'', JUint 56400), (''log_data_port'', JUint 56500)]),
       (''host_net_info'', JObject [
          (''cmd_data_ip'', JString ''10.21.31.188''), (''cmd_data_port'', JUint 56101),
          (''push_msg_ip'', JString ''10.21.31.188''), (''push_msg_port'', JUint 56201),
          (''point_data_ip'', JString ''10.21.31.188''), (''point_data_port'', JUint 56301),
          (''imu_data_ip'', JString ''10.21.31.188''), (''imu_data_port'', JUint 56401),
          (''log_data_ip'', JString []), (''log_data_port'', JUint 56501)])]),
     (''lidar_configs'', JArray [JObject [(''ip'', JString ''10.21.31.201''), (''pcl_data_type'', JUint 1), (''pattern_mode'', JUint 0),
       (''extrinsic_parameter'', JObject [(''roll'', JDouble 0), (''pitch'', JDouble 0), (''yaw'', JDouble 0),
          (''x'', JUint 0), (''y'', JUint 0), (''z'', JUint 0)])]])]"

definition ros_net :: LivoxLidarNetInfo where
  "ros_net = \<lparr>lidar_ipaddr = [], lidar_subnet_mask = [], lidar_gateway = [], ln_cmd_data_port = 56100,
     ln_push_msg_port = 56200, ln_point_data_port = 56300, ln_imu_data_port = 56400, ln_log_data_port = 56500\<rparr>"

definition ros_host :: HostNetInfo where
  "ros_host = \<lparr>host_ip = ''10.21.31.188'', multicast_ip = [], hn_cmd_data_port = 56101, hn_push_msg_port = 56201,
     hn_point_data_port = 56301, hn_imu_data_port = 56401, hn_log_data_port = 56501\<rparr>"

definition no_logger :: LivoxLidarLoggerCfg where
  "no_logger = \<lparr>lidar_log_enable = False, lidar_log_cache_size = 0, lidar_log_path = ''./''\<rparr>"

lemma readme_says: "doc_says readme_doc True no_logger readme_sections"
  unfolding readme_doc_def readme_sections_def readme_host_def example_net_def no_logger_def net_json_def port_json_def
  by code_simp

lemma ros_says: "doc_says ros_doc True no_logger [''MID360'' \<mapsto> (ros_net, [(ros_host, None)])]"
  unfolding ros_doc_def ros_net_def ros_host_def no_logger_def
  by code_simp

theorem ParseCfg_reads_witness:
  "ParseCfg (\<lambda>_. Some readme_doc) (Some []) = Some (Some
     \<lparr>lidars_cfg = [],
      custom_cfg = map (cfg_of kLivoxLidarTypeIndustrialHAP example_net readme_host)
        [''192.168.1.10'', ''192.168.1.11'', ''192.168.1.12'', ''192.168.1.13''],
      lidar_logger_cfg = no_logger, master_sdk_cfg = True\<rparr>) \<and>
   ParseCfg (\<lambda>_. Some ros_doc) (Some []) = Some (Some
     \<lparr>lidars_cfg = [cfg_of kLivoxLidarTypeMid360 ros_net ros_host []], custom_cfg = [],
      lidar_logger_cfg = no_logger, master_sdk_cfg = True\<rparr>)"
  using ParseCfg_reads [of "\<lambda>_. Some readme_doc" "[]", OF _ readme_says] ParseCfg_reads [of "\<lambda>_. Some ros_doc" "[]", OF _ ros_says]
  by (simp add: all_type_cfgs_def all_address_cfgs_def dev_type_map_def readme_sections_def type_cfgs_def address_cfgs_def)

section \<open>What the check accepts\<close>

definition lidar_ip_of :: "LivoxLidarCfg \<Rightarrow> string" where
  "lidar_ip_of c = lidar_ipaddr (lidar_net_info c)"

lemma check_lidar_ips_iff:
  "check_lidar_ips seen cs = (let ips = filter (\<lambda>ip. ip \<noteq> []) (map lidar_ip_of cs) in
     if distinct ips \<and> set ips \<inter> seen = {} then Some (seen \<union> set ips) else None)"
  by (induction cs arbitrary: seen) (auto simp: Let_def lidar_ip_of_def)

lemma check_custom_ips_iff:
  "check_custom_ips seen cs \<longleftrightarrow> [] \<notin> set (map lidar_ip_of cs) \<and> distinct (map lidar_ip_of cs) \<and>
     set (map lidar_ip_of cs) \<inter> seen = {}"
  by (induction cs arbitrary: seen) (auto simp: Let_def lidar_ip_of_def)

lemma CheckLidarIp_iff:
  "CheckLidarIp lidars customs \<longleftrightarrow> [] \<notin> set (map lidar_ip_of customs) \<and>
     distinct (filter (\<lambda>ip. ip \<noteq> []) (map lidar_ip_of lidars) @ map lidar_ip_of customs)"
  by (auto simp: CheckLidarIp_def check_lidar_ips_iff check_custom_ips_iff Let_def)

definition multicast_ok :: "string \<Rightarrow> bool" where
  "multicast_ok ip \<longleftrightarrow> ip = [] \<or>
     (\<exists>v. IpToU8 ip CHR ''.'' = Some (True, v) \<and> (be_dec v :: u32) > 0xE0000000 \<and> (be_dec v :: u32) \<le> 0xEFFFFFFF)"

lemma CheckLidarMulticastIp_Cons:
  "CheckLidarMulticastIp (c # cs) = Some True \<longleftrightarrow>
     multicast_ok (multicast_ip (host_net_info c)) \<and> CheckLidarMulticastIp cs = Some True"
proof (cases "multicast_ip (host_net_info c) = []")
  case False
  then show ?thesis
    by (cases "IpToU8 (multicast_ip (host_net_info c)) CHR ''.''")
      (auto simp: Let_def multicast_ok_def be_dec_def not_le not_less split: if_splits)
qed (simp add: multicast_ok_def)

lemma CheckLidarMulticastIp_iff:
  "CheckLidarMulticastIp cs = Some True \<longleftrightarrow> (\<forall>c \<in> set cs. multicast_ok (multicast_ip (host_net_info c)))"
  by (induction cs) (simp_all add: CheckLidarMulticastIp_Cons del: CheckLidarMulticastIp.simps(2))

text \<open>C17: the check accepts a configuration exactly when it is not empty, no two lidars have the same address, every lidar that is
  configured by its address has one, and every multicast address is one; it then gives the Mid-360 lidars their
  fixed ports.\<close>

theorem ParamsCheck_accepts:
  "ParamsCheck lidars customs = Some (True, l, c) \<longleftrightarrow>
     lidars @ customs \<noteq> [] \<and> [] \<notin> set (map lidar_ip_of customs) \<and>
     distinct (filter (\<lambda>ip. ip \<noteq> []) (map lidar_ip_of lidars) @ map lidar_ip_of customs) \<and>
     list_all (\<lambda>x. multicast_ok (multicast_ip (host_net_info x))) (lidars @ customs) \<and>
     l = CheckLidarPort lidars \<and> c = CheckLidarPort customs"
proof -
  have m: "CheckLidarMulticastIp (CheckLidarPort lidars @ CheckLidarPort customs) = Some True \<longleftrightarrow>
      (\<forall>x \<in> set (lidars @ customs). multicast_ok (multicast_ip (host_net_info x)))"
    unfolding CheckLidarMulticastIp_iff by (simp add: CheckLidarPort_def ball_Un)
  show ?thesis
    by (cases "CheckLidarMulticastIp (CheckLidarPort lidars @ CheckLidarPort customs)")
      (use m in \<open>auto simp: ParamsCheck_def CheckLidarIp_iff Let_def list_all_iff simp del: distinct_append\<close>)
qed

text \<open>A port of more than 16 bits is taken modulo 65536, and accepted.\<close>

lemma large_port_is_cut: "port_of ''cmd_data_port'' (JObject [(''cmd_data_port'', JUint 70000)]) = Some (Some 4464)"
  by (simp add: port_of_def)

text \<open>A file that cannot be opened, a document or a host that is no object: the process dies.\<close>

lemma missing_file: "ParseCfg json None = None"
  by (simp add: ParseCfg_def)

lemma document_is_no_object: "json content = Some (JArray vs) \<Longrightarrow> ParseCfg json (Some content) = None"
  by (simp add: ParseCfg_def parse_master_def)

lemma host_is_no_object:
  "ParseNewLidarCfg object t (JString ip # hosts) s = None"
  by simp

end
