(* ===== verification/Lvx_Api.thy ===== *)
theory Lvx_Api
  imports Lvx_Datagrams Lvx_Upgrade Lvx_Config
begin

text \<open>
  The interface of the Livox SDK (\<^verbatim>\<open>livox_lidar_sdk.cpp\<close>): starting it from a configuration file or from the address of the
  host, stopping it, and what the user registers. Its state is the flag of the interface and the components below it.
  The commands of the interface hand on their arguments and are those of \<^verbatim>\<open>Lvx_Command\<close>.
\<close>

section \<open>State and operations\<close>

record sdk =
  is_initialized :: bool
  sdk_manager :: manager
  sdk_upgrade :: UpgradeManager

definition sdk_start :: sdk where
  "sdk_start = \<lparr>is_initialized = False, sdk_manager = manager_start, sdk_upgrade = mk_UpgradeManager\<rparr>"

text \<open>The logs of the devices are on when they are asked for, with a cache of a reasonable size (\<^verbatim>\<open>LoggerManager::Init\<close>).\<close>

definition GetLogEnable :: "LivoxLidarLoggerCfg \<Rightarrow> bool" where
  "GetLogEnable c \<longleftrightarrow> lidar_log_enable c \<and> lidar_log_cache_size c \<noteq> 0 \<and> lidar_log_cache_size c \<le> 1000000000"

text \<open>\<open>path\<close> is \<^term>\<open>None\<close> for a null pointer, and otherwise what is found there.\<close>

definition LivoxLidarSdkInit :: "(bytes \<Rightarrow> rj option) \<Rightarrow> surroundings \<Rightarrow> bytes option option \<Rightarrow> string option
    \<Rightarrow> LivoxLidarLoggerCfg option \<Rightarrow> sdk \<Rightarrow> (bool \<times> sdk) option" where
  "LivoxLidarSdkInit json e path host log_cfg s =
     (if is_initialized s then Some (False, s)
      else case path of
        Some file \<Rightarrow> do {
          cfg \<leftarrow> ParseCfg json file;
          case cfg of
            None \<Rightarrow> Some (False, s)
          | Some cfg \<Rightarrow> do {
              (ok, lidars, customs) \<leftarrow> ParamsCheck (lidars_cfg cfg) (custom_cfg cfg);
              if \<not> ok then Some (False, s)
              else do {
                (ok, m) \<leftarrow> Init_configured e (Some lidars) (Some customs) (Some (GetLogEnable (lidar_logger_cfg cfg)))
                  (Some (master_sdk_cfg cfg)) (sdk_manager s);
                Some (ok, s\<lparr>sdk_manager := m, is_initialized := ok\<rparr>)
              }
            }
        }
      | None \<Rightarrow>
          (case host of
             None \<Rightarrow> Some (False, s)
           | Some ip \<Rightarrow>
               (let (ok, m) = Init_viewer e ip (map_option GetLogEnable log_cfg) (sdk_manager s)
                in Some (ok, s\<lparr>sdk_manager := m, is_initialized := ok\<rparr>))))"

text \<open>The manager of the logs, which is stopped first, is not modelled.\<close>

definition LivoxLidarSdkUninit :: "sdk \<Rightarrow> sdk" where
  "LivoxLidarSdkUninit s =
     (if \<not> is_initialized s then s
      else (let m = mgr_Destory (sdk_manager s);
                m = m\<lparr>m_data := dh_Destory (m_data m)\<rparr>;
                m = m\<lparr>m_general := Destory (m_general m)\<rparr>
            in s\<lparr>sdk_manager := m, is_initialized := False\<rparr>))"

definition with_data :: "(data_handler \<Rightarrow> data_handler) \<Rightarrow> sdk \<Rightarrow> sdk" where
  "with_data f s = s\<lparr>sdk_manager := (sdk_manager s)\<lparr>m_data := f (m_data (sdk_manager s))\<rparr>\<rparr>"

definition with_general :: "(general \<Rightarrow> general) \<Rightarrow> sdk \<Rightarrow> sdk" where
  "with_general f s = s\<lparr>sdk_manager := (sdk_manager s)\<lparr>m_general := f (m_general (sdk_manager s))\<rparr>\<rparr>"

definition LivoxLidarAddPointCloudObserver :: "nat option \<Rightarrow> sdk \<Rightarrow> u16 \<times> sdk" where
  "LivoxLidarAddPointCloudObserver callback s =
     (let (i, d) = AddPointCloudObserver callback (m_data (sdk_manager s)) in (i, with_data (\<lambda>_. d) s))"

definition LivoxLidarRemovePointCloudObserver :: "u16 \<Rightarrow> sdk \<Rightarrow> sdk" where
  "LivoxLidarRemovePointCloudObserver i = with_data (RemovePointCloudObserver i)"

definition SetLivoxLidarPointCloudCallBack :: "nat option \<Rightarrow> sdk \<Rightarrow> sdk" where
  "SetLivoxLidarPointCloudCallBack callback = with_data (SetPointDataCallback callback)"

definition api_SetLivoxLidarImuDataCallback :: "nat option \<Rightarrow> sdk \<Rightarrow> sdk" where
  "api_SetLivoxLidarImuDataCallback callback = with_data (SetImuDataCallback callback)"

definition LivoxLidarAddCmdObserver :: "bool \<Rightarrow> sdk \<Rightarrow> sdk" where
  "LivoxLidarAddCmdObserver callback = with_general (\<lambda>g. g\<lparr>has_observer := callback\<rparr>)"

definition LivoxLidarRemoveCmdObserver :: "sdk \<Rightarrow> sdk" where
  "LivoxLidarRemoveCmdObserver = with_general (\<lambda>g. g\<lparr>has_observer := False\<rparr>)"

definition SetLivoxLidarInfoCallback :: "bool \<Rightarrow> sdk \<Rightarrow> sdk" where
  "SetLivoxLidarInfoCallback callback = with_general (\<lambda>g. g\<lparr>has_info_cb := callback\<rparr>)"

definition SetLivoxLidarInfoChangeCallback :: "bool \<Rightarrow> sdk \<Rightarrow> sdk" where
  "SetLivoxLidarInfoChangeCallback callback = with_general (\<lambda>g. g\<lparr>has_info_change_cb := callback\<rparr>)"

definition api_SetLivoxLidarPclDataType :: "invoker \<Rightarrow> env \<Rightarrow> u32 \<Rightarrow> u8 \<Rightarrow> callback option \<Rightarrow> general \<Rightarrow> (int \<times> general) option" where
  "api_SetLivoxLidarPclDataType call e h data_type c g =
     (if data_type = kLivoxLidarImuData then EnableLivoxLidarImuData call e h c g
      else SetLivoxLidarPclDataType call e h data_type c g)"

definition api_SetLivoxLidarUpgradeFirmwarePath :: "(bytes \<Rightarrow> u16) \<Rightarrow> (nat \<Rightarrow> bytes) \<Rightarrow> bytes option \<Rightarrow> sdk \<Rightarrow> bool \<times> sdk" where
  "api_SetLivoxLidarUpgradeFirmwarePath crc fresh file s =
     (let (ok, u) = SetLivoxLidarUpgradeFirmwarePath crc fresh file (sdk_upgrade s) in (ok, s\<lparr>sdk_upgrade := u\<rparr>))"

definition api_SetLivoxLidarUpgradeProgressCallback :: "bool \<Rightarrow> sdk \<Rightarrow> sdk" where
  "api_SetLivoxLidarUpgradeProgressCallback callback s = s\<lparr>sdk_upgrade := SetLivoxLidarUpgradeProgressCallback callback (sdk_upgrade s)\<rparr>"

definition api_UpgradeLivoxLidars :: "bytes \<Rightarrow> u32 list \<Rightarrow> sdk \<Rightarrow> (upgrader list \<times> sdk) option" where
  "api_UpgradeLivoxLidars stk hs s =
     map_option (\<lambda>(us, u). (us, s\<lparr>sdk_upgrade := u\<rparr>)) (UpgradeLivoxLidars stk hs (sdk_upgrade s))"

section \<open>Settings\<close>

text \<open>C30: every setting of the API that is one key with a value reaches the device as exactly that key with exactly its
  bytes, through the buffer, the frame and the parser, when the handle is that of a known lidar whose commands the network takes
  and the addresses among the settings are addresses. Sending points is the switch where zero means on, and
  asking for IMU data as the data type of the points sends the IMU switch instead.\<close>

theorem settings_on_the_wire:
  assumes "handler_of h s = Some d" and "\<And>b. 0 \<le> net_send e (class_type (h_class d)) h b"
    and "IpToU8 (ip_addr a) CHR ''.'' = Some (True, ip)" and "IpToU8 (net_mask a) CHR ''.'' = Some (True, nmask)"
    and "IpToU8 (gw_addr a) CHR ''.'' = Some (True, gw)" and "IpToU8 (host_ip_addr q) CHR ''.'' = Some (True, hip)"
  shows "sent_as e h d s (api_SetLivoxLidarPclDataType call e h v c s)
      (if v = kLivoxLidarImuData then (0x001C, [1]) else (0x0000, [v])) \<and>
    sent_as e h d s (SetLivoxLidarScanPattern call e h v c s) (0x0001, [v]) \<and>
    sent_as e h d s (SetLivoxLidarDualEmit call e h w c s) (0x0002, [if w then 1 else 0]) \<and>
    sent_as e h d s (EnableLivoxLidarPointSend call e h c s) (0x0003, [0]) \<and>
    sent_as e h d s (DisableLivoxLidarPointSend call e h c s) (0x0003, [1]) \<and>
    sent_as e h d s (SetLivoxLidarIp call e h a c s) (0x0004, ip @ nmask @ gw) \<and>
    sent_as e h d s (SetLivoxLidarStateInfoHostIPCfg call e h q c s) (0x0005, host_value hip (host_port q) (lidar_port q)) \<and>
    sent_as e h d s (SetLivoxLidarPointDataHostIPCfg call e h q c s) (0x0006, host_value hip (host_port q) (lidar_port q)) \<and>
    sent_as e h d s (SetLivoxLidarImuDataHostIPCfg call e h q c s) (0x0007, host_value hip (host_port q) (lidar_port q)) \<and>
    sent_as e h d s (SetLivoxLidarInstallAttitude call e h t c s) (0x0012, attitude_bytes t) \<and>
    sent_as e h d s (SetLivoxLidarBlindSpot call e h x c s) (0x0013, le_enc 4 x) \<and>
    sent_as e h d s (SetLivoxLidarFovCfg0 call e h f c s) (0x0015, fov_bytes f) \<and>
    sent_as e h d s (SetLivoxLidarFovCfg1 call e h f c s) (0x0016, fov_bytes f) \<and>
    sent_as e h d s (EnableLivoxLidarFov call e h v c s) (0x0017, [v]) \<and>
    sent_as e h d s (DisableLivoxLidarFov call e h c s) (0x0017, [0]) \<and>
    sent_as e h d s (SetLivoxLidarDetectMode call e h v c s) (0x0018, [v]) \<and>
    sent_as e h d s (SetLivoxLidarFuncIOCfg call e h i c s) (0x0019, [in0 i, int1 i, out0 i, out1 i]) \<and>
    sent_as e h d s (SetLivoxLidarWorkMode call e h v c s) (0x001A, [v]) \<and>
    sent_as e h d s (EnableLivoxLidarGlassHeat call e h c s) (0x001B, [1]) \<and>
    sent_as e h d s (DisableLivoxLidarGlassHeat call e h c s) (0x001B, [0]) \<and>
    sent_as e h d s (SetLivoxLidarGlassHeat call e h v c s) (0x001B, [v]) \<and>
    sent_as e h d s (EnableLivoxLidarImuData call e h c s) (0x001C, [1]) \<and>
    sent_as e h d s (DisableLivoxLidarImuData call e h c s) (0x001C, [0]) \<and>
    sent_as e h d s (EnableLivoxLidarFusaFunciont call e h c s) (0x001D, [1]) \<and>
    sent_as e h d s (DisableLivoxLidarFusaFunciont call e h c s) (0x001D, [0]) \<and>
    sent_as e h d s (StartForcedHeating call e h c s) (0x001E, [1]) \<and>
    sent_as e h d s (StopForcedHeating call e h c s) (0x001E, [0]) \<and>
    sent_as e h d s (SetLivoxLidarWorkModeAfterBoot call e h v c s) (0x0020, [v]) \<and>
    sent_as e h d s (SetLivoxLidarEscMode call e h v c s) (0x0021, [v]) \<and>
    sent_as e h d s (SetLivoxLidarPpsSyncMode call e h v c s) (0x0026, [v])"
  using values_on_the_wire [OF assms(1,2), of call v c x f i t] switches_on_the_wire [OF assms(1,2), of call c w]
    addresses_on_the_wire [OF assms, of call c]
  by (simp add: api_SetLivoxLidarPclDataType_def)

theorem settings_on_the_wire_witness:
  "let e = example_env\<lparr>net_send := \<lambda>_ _ _. 33\<rparr>;
       q = \<lparr>host_ip_addr = ip_string 192 168 1 5, host_port = 56301, lidar_port = 56300\<rparr> in
   sent_as e 77 (mk_handler Mid360) example_general
     (SetLivoxLidarBlindSpot (invoke 1) e 77 50 (Some (User 1)) example_general) (0x0013, [50, 0, 0, 0]) \<and>
   sent_as e 77 (mk_handler Mid360) example_general
     (SetLivoxLidarPointDataHostIPCfg (invoke 1) e 77 q (Some (User 1)) example_general)
     (0x0006, host_value [192, 168, 1, 5] 56301 56300)"
proof -
  have "le_enc 4 (50 :: u32) = [50, 0, 0, 0]" by code_simp
  then show ?thesis
    using settings_on_the_wire [OF example_general_handler, of "example_env\<lparr>net_send := \<lambda>_ _ _. 33\<rparr>"
        "\<lparr>ip_addr = ip_string 192 168 1 100, net_mask = ip_string 255 255 255 0, gw_addr = ip_string 192 168 1 1\<rparr>"
        "[192, 168, 1, 100]" "[255, 255, 255, 0]" "[192, 168, 1, 1]"
        "\<lparr>host_ip_addr = ip_string 192 168 1 5, host_port = 56301, lidar_port = 56300\<rparr>" "[192, 168, 1, 5]"
        "invoke 1" _ "Some (User 1)" _ _ 50]
    by (simp add: IpToU8_rendered Let_def)
qed

section \<open>Sessions\<close>

text \<open>What happens to the interface: it is started and stopped, any number of times, and between the threads of the manager take
  datagrams, timers and rounds of detection, in any order. Only starts that succeed are here, and descriptors are
  positive when they are closed: 0 is the standard input.\<close>

inductive session :: "surroundings \<Rightarrow> sdk \<Rightarrow> bool" for e where
  start: "session e sdk_start"
| init: "session e s \<Longrightarrow> LivoxLidarSdkInit json e path host log_cfg s = Some (True, s') \<Longrightarrow> session e s'"
| uninit: "session e s \<Longrightarrow> \<forall>x \<in> m_open (sdk_manager s). 0 < x \<Longrightarrow> session e (LivoxLidarSdkUninit s)"
| datagram: "session e s \<Longrightarrow> is_initialized s \<Longrightarrow> OnData fuel call e h port buf got (sdk_manager s) = Some m
    \<Longrightarrow> session e (s\<lparr>sdk_manager := m\<rparr>)"
| timer: "session e s \<Longrightarrow> is_initialized s \<Longrightarrow> OnTimer fuel call e (sdk_manager s) = Some m \<Longrightarrow> session e (s\<lparr>sdk_manager := m\<rparr>)"
| look: "session e s \<Longrightarrow> is_initialized s \<Longrightarrow> DetectionLidars_round e (sdk_manager s) = Some m
    \<Longrightarrow> session e (s\<lparr>sdk_manager := m\<rparr>)"
| data_user: "session e s \<Longrightarrow> session e (with_data f s)"
| general_user: "session e s \<Longrightarrow> session e (with_general f' s)"

definition session_ok :: "sdk \<Rightarrow> bool" where
  "session_ok s \<longleftrightarrow> (if is_initialized s then sockets_ok (sdk_manager s) \<and> detection_thread (sdk_manager s) else idle (sdk_manager s))"

lemma init_ok:
  assumes "session_ok s" and "LivoxLidarSdkInit json e path host log_cfg s = Some (True, s')"
  shows "session_ok s'"
proof (cases path)
  case None
  then obtain ip m where "Init_viewer e ip (map_option GetLogEnable log_cfg) (sdk_manager s) = (True, m)"
    "s' = s\<lparr>sdk_manager := m, is_initialized := True\<rparr>" "idle (sdk_manager s)"
    using assms by (auto simp: LivoxLidarSdkInit_def session_ok_def split: if_splits option.splits prod.splits)
  then show ?thesis using Init_viewer_ok by (simp add: session_ok_def)
next
  case (Some content)
  then obtain ls cs lcfg master m where "Init_configured e ls cs lcfg master (sdk_manager s) = Some (True, m)"
    "s' = s\<lparr>sdk_manager := m, is_initialized := True\<rparr>" "idle (sdk_manager s)"
    using assms by (auto simp: LivoxLidarSdkInit_def session_ok_def split: if_splits option.splits bind_splits prod.splits)
  then show ?thesis using Init_configured_ok by (simp add: session_ok_def)
qed

lemma uninit_ok:
  assumes "session_ok s" and "\<forall>x \<in> m_open (sdk_manager s). 0 < x"
  shows "session_ok (LivoxLidarSdkUninit s)"
proof (cases "is_initialized s")
  case True
  then have "idle (mgr_Destory (sdk_manager s))"
    using assms mgr_Destory_sockets(1) mgr_Destory_idle by (simp add: session_ok_def)
  then show ?thesis using True by (simp add: LivoxLidarSdkUninit_def Let_def session_ok_def idle_def)
qed (use assms in \<open>simp add: LivoxLidarSdkUninit_def\<close>)

lemma step_ok: "session_ok s \<Longrightarrow> is_initialized s \<Longrightarrow> keeps_running (sdk_manager s) m \<Longrightarrow> session_ok (s\<lparr>sdk_manager := m\<rparr>)"
  by (simp add: session_ok_def keeps_running_def)

lemma user_ok: "session_ok (with_data f s) = session_ok s" "session_ok (with_general f' s) = session_ok s"
  by (simp_all add: session_ok_def with_data_def with_general_def sockets_ok_def view_sockets_def idle_def)

lemma session_invariant: "session e s \<Longrightarrow> session_ok s"
proof (induction rule: session.induct)
  case start
  show ?case by (simp add: session_ok_def sdk_start_def idle_start)
next
  case (init s json path host log_cfg s')
  then show ?case using init_ok by blast
next
  case (uninit s)
  then show ?case using uninit_ok by blast
next
  case (datagram s fuel call h port buf got m)
  then show ?case using run_keepsD [OF OnData_keeps] by (intro step_ok) (simp_all add: session_ok_def)
next
  case (timer s fuel call m)
  then show ?case using run_keepsD [OF OnTimer_keeps] by (intro step_ok) (simp_all add: session_ok_def)
next
  case (look s m)
  then show ?case
    using run_keepsD [OF Detection_keeps]
    by (intro step_ok) (auto simp: DetectionLidars_round_def session_ok_def split: if_splits)
qed (simp_all add: user_ok)

text \<open>C8: over any sequence of successful starts, of stops in which no open descriptor is 0, and of datagrams, timers and
  rounds of detection, a started interface has exactly the sockets that its manager lists and a command leaves through an open
  one, and a stopped one has none. Starts that fail are not part of a session: the last property of this theory shows that they can leave a socket open.\<close>

theorem session_sockets:
  assumes "session e s"
  shows "if is_initialized s
    then sockets_ok (sdk_manager s) \<and> fst (mgr_SendCommand e h buf (sdk_manager s)) \<in> m_open (sdk_manager s)
    else m_open (sdk_manager s) = {}"
proof (cases "is_initialized s")
  case True
  then have ok: "sockets_ok (sdk_manager s)" using session_invariant [OF assms] by (simp add: session_ok_def)
  then have "detection_socket (sdk_manager s) \<in> m_open (sdk_manager s)"
    "\<And>k x. custom_command_channel (sdk_manager s) k = Some x \<Longrightarrow> x \<in> m_open (sdk_manager s)"
    by (auto simp: sockets_ok_def map_le_def dom_def) metis+
  then show ?thesis
    using True ok by (auto simp: mgr_SendCommand_def Let_def GetCmdChannel_def split: option.splits)
qed (use session_invariant [OF assms] in \<open>simp add: session_ok_def idle_def\<close>)

theorem session_sockets_witness:
  "session example_surroundings (sdk_start\<lparr>sdk_manager := example_viewer, is_initialized := True\<rparr>) \<and>
   fst (mgr_SendCommand example_surroundings 7 [] example_viewer) \<in> m_open example_viewer"
proof -
  let ?s = "sdk_start\<lparr>sdk_manager := example_viewer, is_initialized := True\<rparr>"
  have "LivoxLidarSdkInit (\<lambda>_. None) example_surroundings None (Some (ip_string 192 168 1 5)) None sdk_start = Some (True, ?s)"
    by (simp add: LivoxLidarSdkInit_def sdk_start_def example_viewer_fields)
  then have s: "session example_surroundings ?s" by (rule session.init [OF session.start])
  then show ?thesis using session_sockets [of example_surroundings ?s 7 "[]"] by simp
qed

section \<open>Starting again\<close>

text \<open>The configuration of a lidar that the command layer keeps.\<close>

lemma CreateDetectionChannel_conf: "conf_part (snd (CreateDetectionChannel e m)) = conf_part m"
  by (simp add: conf_part_def CreateDetectionChannel_def CreateSocket_def AddDelegate_def Let_def)

lemma CreateChannel_conf:
  assumes "CreateChannel e m = Some (ok, m')" and "m_master_sdk m \<noteq> None"
  shows "conf_part m' = conf_part m"
proof (cases "fst (CreateDetectionChannel e m)")
  case True
  let ?m = "snd (CreateDetectionChannel e m)"
  obtain cs where c: "channels_of e cs ?m = Some (ok, m')"
    using assms(1) True by (auto simp: CreateChannel_def Let_def split: bind_splits)
  have "m_master_sdk ?m \<noteq> None" using CreateDetectionChannel_conf [of e m] assms(2) by (simp add: conf_part_def)
  then show ?thesis using channels_of_total [of ?m e cs] c CreateDetectionChannel_conf [of e m] by auto
next
  case False
  then show ?thesis using assms(1) CreateDetectionChannel_conf [of e m] by (simp add: CreateChannel_def Let_def)
qed

lemma Init_configured_conf:
  assumes i: "Init_configured e (Some ls) (Some cs) (Some lcfg) (Some b) m0 = Some (True, m)"
  shows "m_general m = Init_custom (keyed_cfgs e cs) (m_general m0)"
    "custom_lidars_cfg_map m = fold (\<lambda>c f. f(inet_addr e (lidar_ipaddr (lidar_net_info c)) \<mapsto> c)) cs (custom_lidars_cfg_map m0)"
proof -
  obtain ip where ip: "detection_host (Some ls) (Some cs) = Some ip"
    using i by (auto simp: Init_configured_def Let_def split: option.splits)
  let ?m = "m0\<lparr>m_is_view := False, lidars_cfg_ptr := Some ls, custom_lidars_cfg_ptr := Some cs,
    m_master_sdk := Some b, m_detection_host_ip := ip, m_has_port := True, m_log_enable := lcfg\<rparr>"
  let ?g = "?m\<lparr>m_general := Init_custom (keyed_cfgs e cs) (m_general m0)\<rparr>"
  have "general_do (\<lambda>g. Some (Init_custom (keyed_cfgs e cs) g)) ?m = Some ?g"
    by (rule general_do_quiet) simp_all
  then obtain t m2 where t: "CreateIOThread e (GetLidarConfigMap e ls cs ?g) = (True, t)"
    and m2: "CreateChannel e t = Some (True, m2)" and m: "m = m2 \<or> m = start_detection m2"
    using i ip by (auto simp: Init_configured_def Let_def split: if_splits bind_splits prod.splits)
  have "conf_part m2 = conf_part t"
    using CreateIOThread_new [OF t] by (intro CreateChannel_conf [OF m2]) (simp add: GetLidarConfigMap_def)
  then have "conf_part m = conf_part t" using m by (auto simp: conf_part_def start_detection_def)
  then show "m_general m = Init_custom (keyed_cfgs e cs) (m_general m0)"
    "custom_lidars_cfg_map m = fold (\<lambda>c f. f(inet_addr e (lidar_ipaddr (lidar_net_info c)) \<mapsto> c)) cs (custom_lidars_cfg_map m0)"
    using CreateIOThread_new [OF t] by (simp_all add: conf_part_def GetLidarConfigMap_def)
qed

text \<open>With a system that makes every socket and thread, any configuration starts.\<close>

lemma and_then_fst [simp]: "fst (and_then r f) \<longleftrightarrow> fst r \<and> fst (f (snd r))"
  by (simp add: and_then_def)

lemma sockets_made:
  assumes "\<And>n p i u. 0 \<le> create_socket e n p i u"
  shows "fst (CreateCmdSocketAndAddDelegate e ip port m)" "fst (CreateDataSocketAndAddDelegate e ip port multi m)"
    "fst (CreateBroadcastSocket e port m)" "fst (CreateDetectionChannel e m)"
proof -
  have "\<And>n p i u. \<not> create_socket e n p i u < 0" using assms by (simp add: not_less)
  then show "fst (CreateCmdSocketAndAddDelegate e ip port m)" "fst (CreateDataSocketAndAddDelegate e ip port multi m)"
    "fst (CreateBroadcastSocket e port m)" "fst (CreateDetectionChannel e m)"
    by (simp_all add: CreateCmdSocketAndAddDelegate_def CreateDataSocketAndAddDelegate_def CreateBroadcastSocket_def
        CreateDetectionChannel_def CreateSocket_def Let_def split: option.split)
qed

lemma channels_made:
  assumes "\<And>n p i u. 0 \<le> create_socket e n p i u" and "m_master_sdk m \<noteq> None"
  shows "\<exists>m'. channels_of e cs m = Some (True, m')"
  using assms(2)
proof (induction cs arbitrary: m)
  case Nil
  show ?case by simp
next
  case (Cons c cs)
  note made = sockets_made [OF assms(1)]
  obtain ok1 m1 where 1: "CreateDataChannel e (host_net_info c) m = (ok1, m1)" by fastforce
  have "fst (CreateDataChannel e (host_net_info c) m)" using made by (simp add: CreateDataChannel_def)
  then have ok1: "ok1" using 1 by simp
  have c1: "conf_part m1 = conf_part m" using CreateDataChannel_conf [of e "host_net_info c" m] 1 by simp
  then obtain b where b: "m_master_sdk m1 = Some b" using Cons.prems by (auto simp: conf_part_def)
  then obtain ok2 m2 where 2: "CreateCommandChannel e (device_type c) (host_net_info c) m1 = Some (ok2, m2)"
    and c2: "conf_part m2 = conf_part m1"
    using CreateCommandChannel_conf [of m1 b e "device_type c" "host_net_info c"] by auto
  have "\<exists>r. CreateCommandChannel e (device_type c) (host_net_info c) m1 = Some r \<and> fst r"
    using b made by (simp add: CreateCommandChannel_def)
  then have ok2: "ok2" using 2 by auto
  have "m_master_sdk m2 \<noteq> None" using c2 c1 Cons.prems by (simp add: conf_part_def)
  then show ?case using Cons.IH 1 2 ok1 ok2 by auto
qed

lemma Init_configured_succeeds:
  assumes "\<And>n p i u. 0 \<le> create_socket e n p i u" and "logs_ready e" and "\<And>t. io_threads_ready e t" and "ls \<noteq> [] \<or> cs \<noteq> []"
  shows "\<exists>m. Init_configured e (Some ls) (Some cs) (Some lcfg) (Some b) m0 = Some (True, m)"
proof -
  obtain ip where ip: "detection_host (Some ls) (Some cs) = Some ip"
    using assms(4) by (cases ls; cases cs) (simp_all add: detection_host_def)
  let ?m = "m0\<lparr>m_is_view := False, lidars_cfg_ptr := Some ls, custom_lidars_cfg_ptr := Some cs,
    m_master_sdk := Some b, m_detection_host_ip := ip, m_has_port := True, m_log_enable := lcfg\<rparr>"
  let ?g = "?m\<lparr>m_general := Init_custom (keyed_cfgs e cs) (m_general m0)\<rparr>"
  have g: "general_do (\<lambda>g. Some (Init_custom (keyed_cfgs e cs) g)) ?m = Some ?g"
    by (rule general_do_quiet) simp_all
  obtain t where t: "CreateIOThread e (GetLidarConfigMap e ls cs ?g) = (True, t)"
    using assms(3) by (simp add: CreateIOThread_def CreateThread_def and_then_def)
  have "m_master_sdk t = Some b" "custom_lidars_cfg_ptr t = Some cs"
    using CreateIOThread_new [OF t] by (simp_all add: GetLidarConfigMap_def)
  then have p: "custom_lidars_cfg_ptr (snd (CreateDetectionChannel e t)) = Some cs"
    "m_master_sdk (snd (CreateDetectionChannel e t)) \<noteq> None"
    using CreateDetectionChannel_conf [of e t] by (simp_all add: conf_part_def)
  obtain m2 where "CreateChannel e t = Some (True, m2)"
    using channels_made [OF assms(1) p(2)] p(1) sockets_made(4) [OF assms(1)] by (auto simp: CreateChannel_def Let_def)
  then show ?thesis using ip g t assms(2) by (simp add: Init_configured_def Let_def)
qed

lemma Init_custom_old: "custom_lidars_cfg g h = Some c \<Longrightarrow> custom_lidars_cfg (Init_custom cfgs g) h = Some c"
  by (simp add: Init_custom_def AddDetectedLidar_def create_missing_def Let_def)

lemma close_all_general: "m_general (close_all ss m) = m_general m"
  by (induction ss arbitrary: m) (simp_all add: close_all_def CloseSock_def)

lemma ParamsCheck_cfgs: "ParamsCheck ls cs = Some (True, l, c) \<Longrightarrow> l = CheckLidarPort ls \<and> c = CheckLidarPort cs"
  by (auto simp: ParamsCheck_def Let_def split: if_splits bind_splits)

text \<open>C39: a lidar that was configured before the interface was stopped keeps that configuration in the command layer when it is
  started again with another file, while the manager has the new one: only the latter is cleared.\<close>

theorem restart_keeps_configuration:
  assumes "is_initialized s" and "custom_lidars_cfg (m_general (sdk_manager s)) h = Some c"
    and "LivoxLidarSdkInit json e (Some content) host log_cfg (LivoxLidarSdkUninit s) = Some (True, s')"
  shows "custom_lidars_cfg (m_general (sdk_manager s')) h = Some c \<and>
    (\<exists>cfg. ParseCfg json content = Some (Some cfg) \<and> custom_lidars_cfg_map (sdk_manager s')
       = fold (\<lambda>c f. f(inet_addr e (lidar_ipaddr (lidar_net_info c)) \<mapsto> c)) (CheckLidarPort (custom_cfg cfg)) (\<lambda>_. None))"
proof -
  let ?m = "sdk_manager (LivoxLidarSdkUninit s)"
  have u: "\<not> is_initialized (LivoxLidarSdkUninit s)" "custom_lidars_cfg_map ?m = (\<lambda>_. None)"
    "m_general ?m = Destory (m_general (mgr_Destory (sdk_manager s)))"
    using assms(1) by (simp_all add: LivoxLidarSdkUninit_def mgr_Destory_def Let_def)
  obtain cfg l cs where cfg: "ParseCfg json content = Some (Some cfg)" "ParamsCheck (lidars_cfg cfg) (custom_cfg cfg) = Some (True, l, cs)"
    and i: "Init_configured e (Some l) (Some cs) (Some (GetLogEnable (lidar_logger_cfg cfg))) (Some (master_sdk_cfg cfg)) ?m
      = Some (True, sdk_manager s')"
    using assms(3) u(1) by (auto simp: LivoxLidarSdkInit_def split: if_splits option.splits bind_splits prod.splits)
  have "custom_lidars_cfg (m_general ?m) h = Some c"
    using assms(2) u(3) by (simp add: Destory_def mgr_Destory_def Let_def remove_all_def CloseSock_def close_all_general)
  moreover have "cs = CheckLidarPort (custom_cfg cfg)" using cfg(2) ParamsCheck_cfgs by blast
  ultimately show ?thesis using Init_configured_conf [OF i] cfg(1) u(2) Init_custom_old by auto
qed

definition restart_doc :: rj where
  "restart_doc = JObject [(''MID360'', JObject [
     (''lidar_net_info'', net_json example_net),
     (''host_net_info'', JArray [JObject [(''host_ip'', JString ''10.0.0.5''), (''cmd_data_port'', JUint 9000),
        (''push_msg_port'', JUint 9001), (''point_data_port'', JUint 9002), (''imu_data_port'', JUint 9003),
        (''log_data_port'', JUint 9004), (''lidar_ip'', JArray [JString ''192.168.1.100''])]])])]"

definition restart_cfg :: LivoxLidarCfg where
  "restart_cfg = \<lparr>device_type = kLivoxLidarTypeMid360, lidar_net_info = example_net\<lparr>lidar_ipaddr := ''192.168.1.100''\<rparr>,
     host_net_info = \<lparr>host_ip = ''10.0.0.5'', multicast_ip = [], hn_cmd_data_port = 9000, hn_push_msg_port = 9001,
       hn_point_data_port = 9002, hn_imu_data_port = 9003, hn_log_data_port = 9004\<rparr>, cmd_key_set = []\<rparr>"

lemma restart_file:
  "ParseCfg (\<lambda>_. Some restart_doc) (Some []) = Some (Some \<lparr>lidars_cfg = [], custom_cfg = [restart_cfg],
     lidar_logger_cfg = \<lparr>lidar_log_enable = False, lidar_log_cache_size = 0, lidar_log_path = ''./''\<rparr>, master_sdk_cfg = True\<rparr>)"
  unfolding restart_doc_def restart_cfg_def by code_simp

lemma restart_check: "ParamsCheck [] [restart_cfg] = Some (True, [], CheckLidarPort [restart_cfg])"
  unfolding restart_cfg_def by code_simp

definition first_session :: sdk where
  "first_session = \<lparr>is_initialized = True, sdk_manager = manager_start\<lparr>m_general := Init_custom [(88, example_cfg)] (general_init (\<lambda>_. None))\<rparr>,
     sdk_upgrade = mk_UpgradeManager\<rparr>"

lemma restart_starts:
  "\<exists>s'. LivoxLidarSdkInit (\<lambda>_. Some restart_doc) example_surroundings (Some (Some [])) None None (LivoxLidarSdkUninit first_session)
     = Some (True, s')"
proof -
  obtain m where "Init_configured example_surroundings (Some []) (Some (CheckLidarPort [restart_cfg])) (Some False) (Some True)
      (sdk_manager (LivoxLidarSdkUninit first_session)) = Some (True, m)"
    using Init_configured_succeeds [of example_surroundings "[]" "CheckLidarPort [restart_cfg]" False True]
    by (auto simp: example_surroundings_def CheckLidarPort_def)
  moreover have "\<not> is_initialized (LivoxLidarSdkUninit first_session)" by (simp add: LivoxLidarSdkUninit_def Let_def)
  ultimately show ?thesis
    by (simp add: LivoxLidarSdkInit_def restart_file restart_check GetLogEnable_def)
qed

theorem restart_keeps_configuration_witness:
  "\<exists>s'. LivoxLidarSdkInit (\<lambda>_. Some restart_doc) example_surroundings (Some (Some [])) None None (LivoxLidarSdkUninit first_session)
     = Some (True, s') \<and> custom_lidars_cfg (m_general (sdk_manager s')) 88 = Some example_cfg \<and>
     custom_lidars_cfg_map (sdk_manager s') 88 \<noteq> Some example_cfg"
proof -
  obtain s' where s': "LivoxLidarSdkInit (\<lambda>_. Some restart_doc) example_surroundings (Some (Some [])) None None
      (LivoxLidarSdkUninit first_session) = Some (True, s')" using restart_starts by blast
  have "is_initialized first_session" "custom_lidars_cfg (m_general (sdk_manager first_session)) 88 = Some example_cfg"
    by (simp_all add: first_session_def Init_custom_def AddDetectedLidar_def create_missing_def general_init_def Let_def)
  note r = restart_keeps_configuration [OF this s']
  have "custom_lidars_cfg_map (sdk_manager s') 88 = Some (hd (CheckLidarPort [restart_cfg]))"
    using r by (auto simp: restart_file CheckLidarPort_def example_surroundings_def)
  moreover have "hd (CheckLidarPort [restart_cfg]) \<noteq> example_cfg"
    by (simp add: CheckLidarPort_def restart_cfg_def example_cfg_def)
  ultimately show ?thesis using s' r by auto
qed

section \<open>A start that fails\<close>

text \<open>C40: when the second socket of the detection cannot be made, the start fails with the first one open, and stopping closes
  nothing, because the interface is not started.\<close>

theorem failed_start_leaks:
  assumes "\<not> is_initialized s" and "logs_ready e" and "io_threads_ready e = (\<lambda>_. True)"
    and "b = create_socket e (m_created (sdk_manager s)) kDetectionPort ''255.255.255.255'' []" and "0 \<le> b"
    and "create_socket e (Suc (m_created (sdk_manager s))) kDetectionPort ip [] < 0"
  shows "\<exists>s'. LivoxLidarSdkInit json e None (Some ip) log_cfg s = Some (False, s') \<and> \<not> is_initialized s' \<and>
    b \<in> m_open (sdk_manager s') \<and> LivoxLidarSdkUninit s' = s'"
  using assms
  by (simp add: LivoxLidarSdkInit_def LivoxLidarSdkUninit_def Init_viewer_def CreateIOThread_def CreateThread_def and_then_def
      CreateDetectionChannel_def CreateSocket_def AddDelegate_def Let_def)

theorem failed_start_leaks_witness:
  "\<exists>s'. LivoxLidarSdkInit (\<lambda>_. None) (example_surroundings\<lparr>create_socket := (\<lambda>n _ _ _. if n = 0 then 10 else -1)\<rparr>) None
      (Some (ip_string 192 168 1 5)) None sdk_start = Some (False, s') \<and> 10 \<in> m_open (sdk_manager s') \<and> LivoxLidarSdkUninit s' = s'"
  using failed_start_leaks [of sdk_start "example_surroundings\<lparr>create_socket := (\<lambda>n _ _ _. if n = 0 then 10 else -1)\<rparr>" 10
      "ip_string 192 168 1 5" "\<lambda>_. None" None]
  by (auto simp: sdk_start_def manager_start_def example_surroundings_def)

end
