(* ===== verification/Ros_Setup.thy ===== *)
theory Ros_Setup
  imports Ros_PubHandler Ros_Lds Lvx_Api
begin

text \<open>
  How the Livox ROS driver sets its lidars up: the settings in the configuration file (\<^verbatim>\<open>parse_cfg_file/parse_livox_lidar_cfg.cpp\<close>,
  \<^verbatim>\<open>parse_cfg_file.cpp\<close>), the start of the driver (\<^verbatim>\<open>lds_lidar.cpp\<close>) and what it asks a lidar that shows up
  (\<^verbatim>\<open>call_back/livox_lidar_callback.cpp\<close>). The points of a lidar are published when its state is \<open>kConnectStateSampling\<close>.

  A call of the interface of the SDK that sends a command is a request on a list, and its callback a later step; what the SDK does with the
  command is in \<^verbatim>\<open>Lvx_General\<close> and \<^verbatim>\<open>Lvx_Command\<close>. JSON, \<^verbatim>\<open>inet_addr\<close> and the system are parameters. There is one driver
  object, which the global pointer \<^verbatim>\<open>g_lds_ldiar\<close> names; its constructor is \<open>ResetLds\<close> of \<^verbatim>\<open>Ros_Lds\<close>.
\<close>

section \<open>The settings of the user\<close>

text \<open>\<open>GetInt\<close> and \<open>GetFloat\<close> of a value of another type are assertions that fail, \<^term>\<open>None\<close>.\<close>

fun GetInt :: "rj \<Rightarrow> int option" where
  "GetInt (JUint n) = (if n < 0x80000000 then Some (uint n) else None)"
| "GetInt (JInt i) = (if - (2 ^ 31) \<le> i \<and> i < 2 ^ 31 then Some i else None)"
| "GetInt _ = None"

fun GetFloat :: "rj \<Rightarrow> 'r::field_char_0 option" where
  "GetFloat (JUint n) = Some (of_int (uint n))"
| "GetFloat (JInt i) = Some (of_int i)"
| "GetFloat (JDouble q) = Some (of_rat q)"
| "GetFloat _ = None"

definition int8_of :: "int \<Rightarrow> int" where
  "int8_of i = sint (word_of_int i :: 8 word)"

definition int_setting :: "string \<Rightarrow> rj \<Rightarrow> int option" where
  "int_setting name config = do {
     m \<leftarrow> find_member name config;
     case m of None \<Rightarrow> Some (-1) | Some v \<Rightarrow> map_option int8_of (GetInt v)
   }"

definition float_member :: "string \<Rightarrow> rj \<Rightarrow> 'r::field_char_0 option" where
  "float_member name v = do { m \<leftarrow> find_member name v; case m of None \<Rightarrow> Some 0 | Some x \<Rightarrow> GetFloat x }"

definition int_member :: "string \<Rightarrow> rj \<Rightarrow> u32 option" where
  "int_member name v = do { m \<leftarrow> find_member name v; case m of None \<Rightarrow> Some 0 | Some x \<Rightarrow> map_option word_of_int (GetInt x) }"

definition ParseExtrinsics :: "rj \<Rightarrow> 'r::field_char_0 ExtParameter option" where
  "ParseExtrinsics v = do {
     r \<leftarrow> float_member ''roll'' v; p \<leftarrow> float_member ''pitch'' v; y \<leftarrow> float_member ''yaw'' v;
     tx \<leftarrow> int_member ''x'' v; ty \<leftarrow> int_member ''y'' v; tz \<leftarrow> int_member ''z'' v;
     Some \<lparr>roll = r, pitch = p, yaw = y, ext_x = tx, ext_y = ty, ext_z = tz\<rparr>
   }"

definition no_extrinsics :: "'r::zero ExtParameter" where
  "no_extrinsics = \<lparr>roll = 0, pitch = 0, yaw = 0, ext_x = 0, ext_y = 0, ext_z = 0\<rparr>"

fun ParseUserConfigs :: "(string \<Rightarrow> u32) \<Rightarrow> rj list \<Rightarrow> 'r::field_char_0 UserLivoxLidarConfig list option" where
  "ParseUserConfigs inet [] = Some []"
| "ParseUserConfigs inet (config # configs) = do {
     ip \<leftarrow> find_member ''ip'' config;
     case ip of
       None \<Rightarrow> ParseUserConfigs inet configs
     | Some (JString ip) \<Rightarrow> do {
         t \<leftarrow> int_setting ''pcl_data_type'' config;
         p \<leftarrow> int_setting ''pattern_mode'' config;
         b \<leftarrow> int_setting ''blind_spot_set'' config;
         d \<leftarrow> int_setting ''dual_emit_en'' config;
         m \<leftarrow> find_member ''extrinsic_parameter'' config;
         ext \<leftarrow> (case m of None \<Rightarrow> Some no_extrinsics | Some v \<Rightarrow> ParseExtrinsics v);
         rest \<leftarrow> ParseUserConfigs inet configs;
         Some (\<lparr>cfg_handle = inet (GetString ip), pcl_data_type = t, pattern_mode = p, blind_spot_set = b, dual_emit_en = d,
           extrinsic_param = ext, set_bits = 0, get_bits = 0\<rparr> # rest)
       }
     | _ \<Rightarrow> None
   }"

text \<open>Without a file, a document or settings the list stays empty; the caller goes on with it all the same.\<close>

definition LivoxParse :: "(bytes \<Rightarrow> rj option) \<Rightarrow> (string \<Rightarrow> u32) \<Rightarrow> bytes option \<Rightarrow> (bool \<times> 'r::field_char_0 UserLivoxLidarConfig list) option" where
  "LivoxParse json inet content =
     (case Option.bind content json of
        None \<Rightarrow> Some (False, [])
      | Some doc \<Rightarrow> do {
          m \<leftarrow> find_member ''lidar_configs'' doc;
          case m of
            Some (JArray configs) \<Rightarrow>
              if configs = [] then Some (False, [])
              else map_option (\<lambda>cs. (cs \<noteq> [], cs)) (ParseUserConfigs inet configs)
          | _ \<Rightarrow> Some (False, [])
        })"

definition ParseSummaryInfo :: "(bytes \<Rightarrow> rj option) \<Rightarrow> bytes option \<Rightarrow> u8 option option" where
  "ParseSummaryInfo json content =
     (case Option.bind content json of
        None \<Rightarrow> Some None
      | Some doc \<Rightarrow> do {
          m \<leftarrow> find_member ''lidar_summary_info'' doc;
          case m of
            Some (JObject ms) \<Rightarrow> (case map_of ms ''lidar_type'' of Some (JUint n) \<Rightarrow> Some (Some (ucast n)) | _ \<Rightarrow> Some None)
          | _ \<Rightarrow> Some None
        })"

section \<open>The driver\<close>

text \<open>What a lidar is asked for. The four settings have a bit each in \<open>set_bits\<close>.\<close>

datatype setting = DataType | ScanPattern | BlindSpot | DualEmit

datatype 'r lidar_command =
    SetSetting setting u32 int
  | SetAttitude u32 "'r ExtParameter"
  | SetNormalMode u32
  | EnableImu u32

record ('p, 'r) driver =
  lds :: "('p, 'r) Lds"
  pub :: "'r PubHandler"
  ll_sdk :: sdk
  lidar_listen_id :: u16
  ll_lidar_type :: u8
  ll_initialized :: bool
  requests :: "'r lidar_command list"

definition setting_bit :: "setting \<Rightarrow> u32" where
  "setting_bit k = (case k of DataType \<Rightarrow> 1 | ScanPattern \<Rightarrow> 2 | BlindSpot \<Rightarrow> 4 | DualEmit \<Rightarrow> 8)"

text \<open>\<^verbatim>\<open>dual_emit_en\<close> is sent as a Boolean.\<close>

definition setting_value :: "setting \<Rightarrow> 'r UserLivoxLidarConfig \<Rightarrow> int" where
  "setting_value k c = (case k of DataType \<Rightarrow> pcl_data_type c | ScanPattern \<Rightarrow> pattern_mode c | BlindSpot \<Rightarrow> blind_spot_set c
     | DualEmit \<Rightarrow> dual_emit_en c)"

definition sent_value :: "setting \<Rightarrow> int \<Rightarrow> int" where
  "sent_value k v = (if k = DualEmit then (if v = 0 then 0 else 1) else v)"

definition send_request :: "'r lidar_command \<Rightarrow> ('p, 'r) driver \<Rightarrow> ('p, 'r) driver" where
  "send_request r s = s\<lparr>requests := requests s @ [r]\<rparr>"

definition update_device :: "(('p, 'r) LidarDevice \<Rightarrow> ('p, 'r) LidarDevice) \<Rightarrow> u8 \<Rightarrow> ('p, 'r) driver \<Rightarrow> ('p, 'r) driver option" where
  "update_device f i s = map_option (\<lambda>l. s\<lparr>lds := l\<rparr>) (update_lidar (\<lambda>d. Some (f d)) (unat i) (lds s))"

definition GetLidarDevice :: "u32 \<Rightarrow> ('p, 'r) driver \<Rightarrow> u8 option" where
  "GetLidarDevice h s = GetIndex kLivoxLidarType h (cache_index (lds s))"

definition take_index :: "u32 \<Rightarrow> ('p, 'r) driver \<Rightarrow> u8 option \<times> ('p, 'r) driver" where
  "take_index h s = (let (i, c) = GetFreeIndex kLivoxLidarType h (cache_index (lds s)) in (i, s\<lparr>lds := (lds s)\<lparr>cache_index := c\<rparr>\<rparr>))"

section \<open>Starting\<close>

abbreviation kLivoxLidarCartesianCoordinateLowData :: int where "kLivoxLidarCartesianCoordinateLowData \<equiv> 2"

definition tenth :: "u32 \<Rightarrow> u32" where
  "tenth w = word_of_int (if sint w < 0 then - ((- sint w) div 10) else sint w div 10)"

definition scaled_extrinsics :: "'r UserLivoxLidarConfig \<Rightarrow> 'r ExtParameter" where
  "scaled_extrinsics c = (let p = extrinsic_param c in
     if pcl_data_type c = kLivoxLidarCartesianCoordinateLowData
     then p\<lparr>ext_x := tenth (ext_x p), ext_y := tenth (ext_y p), ext_z := tenth (ext_z p)\<rparr> else p)"

fun fill_devices :: "'r UserLivoxLidarConfig list \<Rightarrow> ('p, 'r) driver \<Rightarrow> ('p, 'r) driver option" where
  "fill_devices [] s = Some s"
| "fill_devices (c # cs) s =
     (case take_index (cfg_handle c) s of
        (None, s) \<Rightarrow> fill_devices cs s
      | (Some i, s) \<Rightarrow> do {
          s \<leftarrow> update_device (\<lambda>d. d\<lparr>lidar_type := kLivoxLidarType, livox_config := c, handle := cfg_handle c\<rparr>) i s;
          fill_devices cs (s\<lparr>pub := AddLidarsExtParam kLivoxLidarType (cfg_handle c) (scaled_extrinsics c) (pub s)\<rparr>)
        })"

definition InitLivoxLidar :: "(bytes \<Rightarrow> rj option) \<Rightarrow> surroundings \<Rightarrow> bytes option \<Rightarrow> ('p, 'r::field_char_0) driver
    \<Rightarrow> (bool \<times> ('p, 'r) driver) option" where
  "InitLivoxLidar json e content s = do {
     (_, configs) \<leftarrow> LivoxParse json (inet_addr e) content;
     (ok, sdk) \<leftarrow> LivoxLidarSdkInit json e (Some content) None None (ll_sdk s);
     let s = s\<lparr>ll_sdk := sdk\<rparr>;
     if \<not> ok then Some (False, s)
     else do {
       s \<leftarrow> fill_devices configs s;
       Some (True, s\<lparr>ll_sdk := SetLivoxLidarInfoChangeCallback True (ll_sdk s)\<rparr>)
     }
   }"

text \<open>The callback of the point handler for packets of the SDK has the number 0. The processing thread, which is started when there is none, is
  the rounds of \<open>RawDataProcess\<close>.\<close>

definition SetPointCloudsCallback :: "('p, 'r) driver \<Rightarrow> ('p, 'r) driver" where
  "SetPointCloudsCallback s =
     (let (i, sdk) = LivoxLidarAddPointCloudObserver (Some 0) (ll_sdk s)
      in s\<lparr>pub := (pub s)\<lparr>has_points_callback := True\<rparr>, lidar_listen_id := i, ll_sdk := sdk\<rparr>)"

definition SetLidarPubHandle :: "('p, 'r) driver \<Rightarrow> ('p, 'r) driver" where
  "SetLidarPubHandle s =
     (let s = SetPointCloudsCallback s;
          s = s\<lparr>pub := (pub s)\<lparr>has_imu_callback := True\<rparr>\<rparr>
      in s\<lparr>pub := SetPointCloudConfig (publish_freq (lds s)) (pub s)\<rparr>)"

definition InitLidars :: "(bytes \<Rightarrow> rj option) \<Rightarrow> surroundings \<Rightarrow> bytes option \<Rightarrow> ('p, 'r::field_char_0) driver
    \<Rightarrow> (bool \<times> ('p, 'r) driver) option" where
  "InitLidars json e content s = do {
     t \<leftarrow> ParseSummaryInfo json content;
     case t of
       None \<Rightarrow> Some (False, s)
     | Some t \<Rightarrow>
         (let s = s\<lparr>ll_lidar_type := t\<rparr> in
          if t AND kLivoxLidarType \<noteq> 0 then InitLivoxLidar json e content s else Some (True, s))
   }"

definition InitLdsLidar :: "(bytes \<Rightarrow> rj option) \<Rightarrow> surroundings \<Rightarrow> bytes option \<Rightarrow> ('p, 'r::field_char_0) driver
    \<Rightarrow> (bool \<times> ('p, 'r) driver) option" where
  "InitLdsLidar json e content s =
     (if ll_initialized s then Some (False, s)
      else do {
        (ok, s) \<leftarrow> InitLidars json e content s;
        Some (if \<not> ok then (False, s) else (True, (SetLidarPubHandle s)\<lparr>ll_initialized := True\<rparr>))
      })"

text \<open>The flag stays set.\<close>

definition DeInitLdsLidar :: "('p, 'r) driver \<Rightarrow> int \<times> ('p, 'r) driver" where
  "DeInitLdsLidar s =
     (if \<not> ll_initialized s then (-1, s)
      else (0, if ll_lidar_type s AND kLivoxLidarType \<noteq> 0 then s\<lparr>ll_sdk := LivoxLidarSdkUninit (ll_sdk s)\<rparr> else s))"

section \<open>A lidar shows up\<close>

definition ask_setting :: "u32 \<Rightarrow> u8 \<Rightarrow> setting \<Rightarrow> ('p, 'r) driver \<Rightarrow> ('p, 'r) driver option" where
  "ask_setting h i k s = do {
     d \<leftarrow> nth_opt (lidars (lds s)) (unat i);
     let v = setting_value k (livox_config d);
     if v = -1 then Some s
     else do {
       s \<leftarrow> update_device (\<lambda>d. d\<lparr>livox_config := (livox_config d)\<lparr>set_bits := set_bits (livox_config d) OR setting_bit k\<rparr>\<rparr>) i s;
       Some (send_request (SetSetting k h (sent_value k v)) s)
     }
   }"

definition LidarInfoChangeCallback :: "u32 \<Rightarrow> ('p, 'r) driver \<Rightarrow> ('p, 'r) driver option" where
  "LidarInfoChangeCallback h s =
     (let start = (\<lambda>s. Some (send_request (EnableImu h) (send_request (SetNormalMode h) s))) in
      case GetLidarDevice h s of
        None \<Rightarrow>
          (case take_index h s of
             (None, s) \<Rightarrow> Some s
           | (Some i, s) \<Rightarrow> do { s \<leftarrow> update_device (\<lambda>d. d\<lparr>lidar_type := kLivoxLidarType\<rparr>) i s; start s })
      | Some i \<Rightarrow> do {
          s \<leftarrow> ask_setting h i DataType s;
          s \<leftarrow> ask_setting h i ScanPattern s;
          s \<leftarrow> ask_setting h i BlindSpot s;
          s \<leftarrow> ask_setting h i DualEmit s;
          d \<leftarrow> nth_opt (lidars (lds s)) (unat i);
          start (send_request (SetAttitude (cfg_handle (livox_config d)) (extrinsic_param (livox_config d))) s)
        })"

section \<open>Answers\<close>

text \<open>The four callbacks of the settings are alike. A response is there when the device answered; an answer of failure prints its
  fields, so a null pointer is dereferenced.\<close>

definition SettingCallback :: "setting \<Rightarrow> int \<Rightarrow> u32 \<Rightarrow> bytes option \<Rightarrow> ('p, 'r) driver \<Rightarrow> ('p, 'r) driver option" where
  "SettingCallback k status h response s =
     (case GetLidarDevice h s of
        None \<Rightarrow> Some s
      | Some i \<Rightarrow> do {
          d \<leftarrow> nth_opt (lidars (lds s)) (unat i);
          if status = StatusSuccess
          then update_device (\<lambda>d.
            (let d = d\<lparr>livox_config := (livox_config d)\<lparr>set_bits := set_bits (livox_config d) AND NOT (setting_bit k)\<rparr>\<rparr>
             in if set_bits (livox_config d) = 0 then d\<lparr>connect_state := kConnectStateSampling\<rparr> else d)) i s
          else if status = StatusTimeout
          then Some (send_request (SetSetting k h (sent_value k (setting_value k (livox_config d)))) s)
          else map_option (\<lambda>_. s) response
        })"

definition SetDataTypeCallback :: "int \<Rightarrow> u32 \<Rightarrow> bytes option \<Rightarrow> ('p, 'r) driver \<Rightarrow> ('p, 'r) driver option" where
  "SetDataTypeCallback = SettingCallback DataType"

definition SetPatternModeCallback :: "int \<Rightarrow> u32 \<Rightarrow> bytes option \<Rightarrow> ('p, 'r) driver \<Rightarrow> ('p, 'r) driver option" where
  "SetPatternModeCallback = SettingCallback ScanPattern"

definition SetBlindSpotCallback :: "int \<Rightarrow> u32 \<Rightarrow> bytes option \<Rightarrow> ('p, 'r) driver \<Rightarrow> ('p, 'r) driver option" where
  "SetBlindSpotCallback = SettingCallback BlindSpot"

definition SetDualEmitCallback :: "int \<Rightarrow> u32 \<Rightarrow> bytes option \<Rightarrow> ('p, 'r) driver \<Rightarrow> ('p, 'r) driver option" where
  "SetDualEmitCallback = SettingCallback DualEmit"

definition SetAttitudeCallback :: "int \<Rightarrow> u32 \<Rightarrow> ('p, 'r) driver \<Rightarrow> ('p, 'r) driver option" where
  "SetAttitudeCallback status h s =
     (case GetLidarDevice h s of
        None \<Rightarrow> Some s
      | Some i \<Rightarrow> do {
          d \<leftarrow> nth_opt (lidars (lds s)) (unat i);
          Some (if status = StatusTimeout
                then send_request (SetAttitude (cfg_handle (livox_config d)) (extrinsic_param (livox_config d))) s else s)
        })"

definition WorkModeChangedCallback :: "int \<Rightarrow> u32 \<Rightarrow> ('p, 'r) driver \<Rightarrow> ('p, 'r) driver" where
  "WorkModeChangedCallback status h s = (if status \<noteq> StatusSuccess then send_request (SetNormalMode h) s else s)"

definition EnableLivoxLidarImuDataCallback :: "int \<Rightarrow> u32 \<Rightarrow> bytes option \<Rightarrow> ('p, 'r) driver \<Rightarrow> ('p, 'r) driver" where
  "EnableLivoxLidarImuDataCallback status h response s =
     (if GetLidarDevice h s = None \<or> response = None then s
      else if status = StatusTimeout then send_request (EnableImu h) s else s)"

text \<open>The callback that a request was made with.\<close>

fun answer_request :: "'r lidar_command \<Rightarrow> int \<Rightarrow> bytes option \<Rightarrow> ('p, 'r) driver \<Rightarrow> ('p, 'r) driver option" where
  "answer_request (SetSetting k h v) status response s =
     (case k of DataType \<Rightarrow> SetDataTypeCallback status h response s
      | ScanPattern \<Rightarrow> SetPatternModeCallback status h response s
      | BlindSpot \<Rightarrow> SetBlindSpotCallback status h response s
      | DualEmit \<Rightarrow> SetDualEmitCallback status h response s)"
| "answer_request (SetAttitude h p) status response s = SetAttitudeCallback status h s"
| "answer_request (SetNormalMode h) status response s = Some (WorkModeChangedCallback status h s)"
| "answer_request (EnableImu h) status response s = Some (EnableLivoxLidarImuDataCallback status h response s)"

section \<open>Runs\<close>

text \<open>A lidar shows up, or the request at a place of the list is answered. A place that is not there is no step.\<close>

datatype setup_event = Shows u32 | Answered nat int "bytes option"

fun setup_step :: "setup_event \<Rightarrow> ('p, 'r) driver \<Rightarrow> ('p, 'r) driver option" where
  "setup_step (Shows h) s = LidarInfoChangeCallback h s"
| "setup_step (Answered n status response) s =
     (if n < length (requests s)
      then answer_request (requests s ! n) status response (s\<lparr>requests := take n (requests s) @ drop (Suc n) (requests s)\<rparr>)
      else Some s)"

fun setting_no :: "setting \<Rightarrow> nat" where
  "setting_no DataType = 0"
| "setting_no ScanPattern = 1"
| "setting_no BlindSpot = 2"
| "setting_no DualEmit = 3"

lemma setting_no_inj [simp]: "setting_no k = setting_no k' \<longleftrightarrow> k = k'"
  by (cases k; cases k') simp_all

lemma bit_setting: "bit (setting_bit k) n \<longleftrightarrow> n = setting_no k"
proof -
  have "setting_bit k = 2 ^ setting_no k" "setting_no k < 32" by (cases k; simp add: setting_bit_def)+
  then show ?thesis by (auto simp: bit_exp_iff)
qed

definition device :: "u8 \<Rightarrow> ('p, 'r) driver \<Rightarrow> ('p, 'r) LidarDevice" where
  "device i s = lidars (lds s) ! unat i"

definition slots_ok :: "('p, 'r) driver \<Rightarrow> bool" where
  "slots_ok s \<longleftrightarrow> ci_inv (cache_index (lds s)) \<and> length (lidars (lds s)) = kMaxSourceLidar"

definition waits :: "setting \<Rightarrow> u32 \<Rightarrow> ('p, 'r) driver \<Rightarrow> bool" where
  "waits k h s \<longleftrightarrow> (\<exists>v. SetSetting k h v \<in> set (requests s))"

text \<open>What is kept for a lidar \<open>h\<close> in slot \<open>i\<close> with the settings of \<open>c\<close>: the bit of a setting is only set while a request for
  it waits, the requests are those of \<open>c\<close>, and once it has been \<open>asked\<close> the lidar samples or has a bit set.\<close>

definition setup_inv :: "u32 \<Rightarrow> u8 \<Rightarrow> 'r UserLivoxLidarConfig \<Rightarrow> bool \<Rightarrow> ('p, 'r) driver \<Rightarrow> bool" where
  "setup_inv h i c asked s \<longleftrightarrow> slots_ok s \<and> GetLidarDevice h s = Some i \<and>
     (\<forall>k. setting_value k (livox_config (device i s)) = setting_value k c) \<and>
     (\<forall>k. bit (set_bits (livox_config (device i s))) (setting_no k) \<longrightarrow> waits k h s) \<and>
     (\<forall>n. bit (set_bits (livox_config (device i s))) n \<longrightarrow> n \<in> range setting_no) \<and>
     (\<forall>k v. SetSetting k h v \<in> set (requests s) \<longrightarrow> v = sent_value k (setting_value k c)) \<and>
     (asked \<longrightarrow> set_bits (livox_config (device i s)) \<noteq> 0 \<or> connect_state (device i s) = kConnectStateSampling)"

lemma setting_value_bits [simp]: "setting_value k (c\<lparr>set_bits := b\<rparr>) = setting_value k c"
  by (cases k) (simp_all add: setting_value_def)

lemma waits_send: "waits k h (send_request r s) \<longleftrightarrow> waits k h s \<or> (\<exists>v. r = SetSetting k h v)"
  by (auto simp: waits_def send_request_def)

lemma waits_lds [simp]: "waits k h (s\<lparr>lds := l\<rparr>) = waits k h s"
  by (simp add: waits_def)

lemma update_device_Some:
  assumes "slots_ok s" and "unat j < kMaxSourceLidar"
  shows "update_device f j s = Some (s\<lparr>lds := (lds s)\<lparr>lidars := (lidars (lds s))[unat j := f (device j s)]\<rparr>\<rparr>)"
  using assms by (simp add: update_device_def update_lidar_def slots_ok_def device_def)

lemma GetLidarDevice_lt: "slots_ok s \<Longrightarrow> GetLidarDevice h s = Some j \<Longrightarrow> unat j < kMaxSourceLidar"
  using GetIndex_lt by (auto simp: slots_ok_def GetLidarDevice_def)

lemma GetLidarDevice_inj: "slots_ok s \<Longrightarrow> GetLidarDevice h s = Some j \<Longrightarrow> GetLidarDevice h' s = Some j \<Longrightarrow> h = h'"
  using GetIndex_inj by (auto simp: slots_ok_def GetLidarDevice_def)

lemma GetLidarDevice_same [simp]:
  "GetLidarDevice h (send_request r s) = GetLidarDevice h s"
  "GetLidarDevice h (s\<lparr>requests := rs\<rparr>) = GetLidarDevice h s"
  "GetLidarDevice h (s\<lparr>lds := (lds s)\<lparr>lidars := ds\<rparr>\<rparr>) = GetLidarDevice h s"
  by (simp_all add: GetLidarDevice_def send_request_def)

lemma slots_ok_same [simp]:
  "slots_ok (send_request r s) = slots_ok s" "slots_ok (s\<lparr>requests := rs\<rparr>) = slots_ok s"
  "slots_ok (s\<lparr>lds := (lds s)\<lparr>lidars := (lidars (lds s))[n := d]\<rparr>\<rparr>) = slots_ok s"
  by (simp_all add: slots_ok_def send_request_def)

lemma device_same [simp]: "device i (send_request r s) = device i s" "device i (s\<lparr>requests := rs\<rparr>) = device i s"
  by (simp_all add: device_def send_request_def)

lemma requests_send [simp]: "requests (send_request r s) = requests s @ [r]"
  by (simp add: send_request_def)

lemma device_put:
  assumes "slots_ok s" and "unat i < kMaxSourceLidar"
  shows "device i (s\<lparr>lds := (lds s)\<lparr>lidars := (lidars (lds s))[unat j := d]\<rparr>\<rparr>) = (if i = j then d else device i s)"
  using assms by (auto simp: device_def slots_ok_def nth_list_update word_unat_eq_iff)

text \<open>The request of one setting, for this lidar or for another.\<close>

lemma setup_inv_send:
  assumes "setup_inv h i c asked s" and "\<And>k v. r \<noteq> SetSetting k h v"
  shows "setup_inv h i c asked (send_request r s)"
proof -
  have "SetSetting k h v \<in> set (requests (send_request r s)) \<longleftrightarrow> SetSetting k h v \<in> set (requests s)" for k v
    using assms(2) [of k v] by auto
  then show ?thesis using assms(1) by (simp add: setup_inv_def waits_def del: requests_send)
qed

lemma setup_inv_other:
  assumes "setup_inv h i c asked s" and "j \<noteq> i"
  shows "setup_inv h i c asked (s\<lparr>lds := (lds s)\<lparr>lidars := (lidars (lds s))[unat j := d]\<rparr>\<rparr>)"
  using assms GetLidarDevice_lt [of s h i] by (simp add: setup_inv_def device_put)

lemma ask_setting_keeps:
  assumes inv: "setup_inv h i c asked s" and j: "GetLidarDevice h' s = Some j"
  shows "\<exists>s'. ask_setting h' j k s = Some s' \<and> setup_inv h i c asked s' \<and> GetLidarDevice h' s' = Some j \<and>
    (set_bits (livox_config (device i s)) \<noteq> 0 \<longrightarrow> set_bits (livox_config (device i s')) \<noteq> 0) \<and>
    (h' = h \<longrightarrow> setting_value k c \<noteq> -1 \<longrightarrow> set_bits (livox_config (device i s')) \<noteq> 0)"
proof -
  have ok: "slots_ok s" and i: "GetLidarDevice h s = Some i" using inv by (simp_all add: setup_inv_def)
  note lt = GetLidarDevice_lt [OF ok j] GetLidarDevice_lt [OF ok i]
  have n: "nth_opt (lidars (lds s)) (unat j) = Some (device j s)"
    using ok lt by (simp add: slots_ok_def device_def)
  show ?thesis
  proof (cases "setting_value k (livox_config (device j s)) = -1")
    case True
    then show ?thesis using inv n j i by (auto simp: ask_setting_def setup_inv_def)
  next
    case False
    let ?d = "(device j s)\<lparr>livox_config := (livox_config (device j s))\<lparr>set_bits := set_bits (livox_config (device j s)) OR setting_bit k\<rparr>\<rparr>"
    let ?t = "s\<lparr>lds := (lds s)\<lparr>lidars := (lidars (lds s))[unat j := ?d]\<rparr>\<rparr>"
    let ?r = "SetSetting k h' (sent_value k (setting_value k (livox_config (device j s))))"
    have a: "ask_setting h' j k s = Some (send_request ?r ?t)"
      using n False by (simp add: ask_setting_def update_device_Some [OF ok lt(1)])
    show ?thesis
    proof (cases "h' = h")
      case False
      then have "j \<noteq> i" using GetLidarDevice_inj [OF ok j] i by auto
      then have "setup_inv h i c asked ?t" "device i ?t = device i s"
        using setup_inv_other [OF inv] by (simp_all add: device_put [OF ok lt(2)])
      then have "setup_inv h i c asked (send_request ?r ?t)" using False by (intro setup_inv_send) simp_all
      then show ?thesis using a False j \<open>device i ?t = device i s\<close> by simp
    next
      case True
      then have "j = i" using i j by simp
      have b: "set_bits (livox_config ?d) \<noteq> 0"
      proof
        assume "set_bits (livox_config ?d) = 0"
        then have "bit (set_bits (livox_config (device j s)) OR setting_bit k) (setting_no k) = bit (0 :: u32) (setting_no k)" by simp
        then show False by (simp add: bit_or_iff bit_setting)
      qed
      have "setup_inv h i c asked (send_request ?r ?t)"
        using inv b True \<open>j = i\<close>
        by (auto simp: setup_inv_def device_put [OF ok lt(2)] waits_send bit_or_iff bit_setting)
      then show ?thesis using a b True \<open>j = i\<close> i by (simp add: device_put [OF ok lt(2)])
    qed
  qed
qed

lemma take_index_cases:
  assumes "slots_ok s" and "GetLidarDevice h s = None"
  shows "take_index h s = (None, s) \<or> (\<exists>j t. take_index h s = (Some j, t) \<and> unat j < kMaxSourceLidar \<and> slots_ok t \<and>
    lidars (lds t) = lidars (lds s) \<and> requests t = requests s \<and>
    (\<forall>a. GetLidarDevice a t = (if a = h then Some j else GetLidarDevice a s)))"
proof -
  let ?c = "cache_index (lds s)"
  obtain key where key: "GenerateIndexKey kLivoxLidarType h = Some key" using GetIndex_key by blast
  then have n: "map_index ?c key = None" using assms(2) by (simp add: GetLidarDevice_def GetIndex_def)
  have "ci_inv ?c" using assms(1) by (simp add: slots_ok_def)
  from take_slot_cases [OF this n] show ?thesis
  proof (elim disjE conjE exE)
    assume "take_slot key ?c = (None, ?c)"
    then show ?thesis using key n by (simp add: take_index_def GetFreeIndex_def)
  next
    fix j c' assume "unat j < kMaxSourceLidar" "take_slot key ?c = (Some j, c')"
      "map_index c' = (map_index ?c)(key \<mapsto> j)" "ci_inv c'"
    then show ?thesis using key n assms(1) GetIndex_upd [OF key, of c' ?c "Some j"]
      by (simp add: take_index_def GetFreeIndex_def slots_ok_def GetLidarDevice_def)
  qed
qed

text \<open>A request that is answered leaves the list.\<close>

lemma set_removed:
  assumes "n < length xs"
  shows "set xs = insert (xs ! n) (set (take n xs @ drop (Suc n) xs))"
proof -
  have "xs = take n xs @ xs ! n # drop (Suc n) xs" by (rule id_take_nth_drop [OF assms])
  then show ?thesis by (metis list.set(2) set_append Un_insert_right)
qed

lemma setup_inv_remove:
  assumes "setup_inv h i c asked s" and "n < length (requests s)" and "\<And>k v. requests s ! n \<noteq> SetSetting k h v"
  shows "setup_inv h i c asked (s\<lparr>requests := take n (requests s) @ drop (Suc n) (requests s)\<rparr>)"
proof -
  have "SetSetting k h v \<in> set (take n (requests s) @ drop (Suc n) (requests s)) \<longleftrightarrow> SetSetting k h v \<in> set (requests s)" for k v
    using set_removed [OF assms(2)] assms(3) [of k v] by auto
  then show ?thesis using assms(1) by (simp add: setup_inv_def waits_def del: set_append)
qed

lemma shown:
  assumes "setup_inv h i c asked s" and "\<exists>k. setting_value k c \<noteq> -1"
  shows "\<exists>s'. LidarInfoChangeCallback h' s = Some s' \<and> setup_inv h i c (asked \<or> h' = h) s'"
proof (cases "GetLidarDevice h' s")
  case None
  have ok: "slots_ok s" and i: "GetLidarDevice h s = Some i" using assms(1) by (simp_all add: setup_inv_def)
  then have "h' \<noteq> h" using None by auto
  from take_index_cases [OF ok None] show ?thesis
  proof (elim disjE conjE exE)
    assume "take_index h' s = (None, s)"
    then show ?thesis using None assms(1) \<open>h' \<noteq> h\<close> by (simp add: LidarInfoChangeCallback_def)
  next
    fix j t assume t: "take_index h' s = (Some j, t)" "unat j < kMaxSourceLidar" "slots_ok t" "lidars (lds t) = lidars (lds s)"
      "requests t = requests s" "\<forall>a. GetLidarDevice a t = (if a = h' then Some j else GetLidarDevice a s)"
    then have "setup_inv h i c asked t" using assms(1) \<open>h' \<noteq> h\<close> by (simp add: setup_inv_def device_def waits_def)
    moreover have "j \<noteq> i" using GetLidarDevice_inj [OF t(3), of h' j h] t(6) i \<open>h' \<noteq> h\<close> by auto
    ultimately have "setup_inv h i c asked (t\<lparr>lds := (lds t)\<lparr>lidars := (lidars (lds t))[unat j := d]\<rparr>\<rparr>)" for d
      by (rule setup_inv_other)
    then show ?thesis using None t(1) \<open>h' \<noteq> h\<close>
      by (auto simp: LidarInfoChangeCallback_def update_device_Some [OF t(3,2)] intro!: setup_inv_send)
  qed
next
  case (Some j)
  note keep = ask_setting_keeps [where h = h and i = i and c = c]
  obtain s1 where 1: "ask_setting h' j DataType s = Some s1" "setup_inv h i c asked s1" "GetLidarDevice h' s1 = Some j"
    "h' = h \<Longrightarrow> setting_value DataType c \<noteq> -1 \<Longrightarrow> set_bits (livox_config (device i s1)) \<noteq> 0"
    using keep [OF assms(1) Some, of DataType] by blast
  obtain s2 where 2: "ask_setting h' j ScanPattern s1 = Some s2" "setup_inv h i c asked s2" "GetLidarDevice h' s2 = Some j"
    "set_bits (livox_config (device i s1)) \<noteq> 0 \<Longrightarrow> set_bits (livox_config (device i s2)) \<noteq> 0"
    "h' = h \<Longrightarrow> setting_value ScanPattern c \<noteq> -1 \<Longrightarrow> set_bits (livox_config (device i s2)) \<noteq> 0"
    using keep [OF 1(2,3), of ScanPattern] by blast
  obtain s3 where 3: "ask_setting h' j BlindSpot s2 = Some s3" "setup_inv h i c asked s3" "GetLidarDevice h' s3 = Some j"
    "set_bits (livox_config (device i s2)) \<noteq> 0 \<Longrightarrow> set_bits (livox_config (device i s3)) \<noteq> 0"
    "h' = h \<Longrightarrow> setting_value BlindSpot c \<noteq> -1 \<Longrightarrow> set_bits (livox_config (device i s3)) \<noteq> 0"
    using keep [OF 2(2,3), of BlindSpot] by blast
  obtain s4 where 4: "ask_setting h' j DualEmit s3 = Some s4" "setup_inv h i c asked s4" "GetLidarDevice h' s4 = Some j"
    "set_bits (livox_config (device i s3)) \<noteq> 0 \<Longrightarrow> set_bits (livox_config (device i s4)) \<noteq> 0"
    "h' = h \<Longrightarrow> setting_value DualEmit c \<noteq> -1 \<Longrightarrow> set_bits (livox_config (device i s4)) \<noteq> 0"
    using keep [OF 3(2,3), of DualEmit] by blast
  have "set_bits (livox_config (device i s4)) \<noteq> 0" if "h' = h"
  proof -
    obtain k where "setting_value k c \<noteq> -1" using assms(2) by blast
    then show ?thesis using that 1(4) 2(4,5) 3(4,5) 4(4,5) by (cases k) blast+
  qed
  then have a: "setup_inv h i c (asked \<or> h' = h) s4" using 4(2) by (auto simp: setup_inv_def)
  have "slots_ok s4" using 4(2) by (simp add: setup_inv_def)
  then have "nth_opt (lidars (lds s4)) (unat j) = Some (device j s4)"
    using GetLidarDevice_lt [OF _ 4(3)] by (simp add: slots_ok_def device_def)
  then show ?thesis using Some 1(1) 2(1) 3(1) 4(1) a
    by (auto simp: LidarInfoChangeCallback_def intro!: setup_inv_send)
qed

lemma other_setting_answered:
  assumes "setup_inv h i c asked s" and "h' \<noteq> h" and "st = StatusSuccess \<or> st = StatusTimeout"
  shows "\<exists>s'. SettingCallback k st h' r s = Some s' \<and> setup_inv h i c asked s'"
proof (cases "GetLidarDevice h' s")
  case None
  then show ?thesis using assms(1) by (simp add: SettingCallback_def)
next
  case (Some j)
  have ok: "slots_ok s" and i: "GetLidarDevice h s = Some i" using assms(1) by (simp_all add: setup_inv_def)
  note lt = GetLidarDevice_lt [OF ok Some]
  have n: "nth_opt (lidars (lds s)) (unat j) = Some (device j s)" using ok lt by (simp add: slots_ok_def device_def)
  have "j \<noteq> i" using GetLidarDevice_inj [OF ok Some] i assms(2) by auto
  note o = setup_inv_other [OF assms(1) this]
  have s: "setup_inv h i c asked (send_request (SetSetting k h' v) s)" for v
    using assms(1,2) by (intro setup_inv_send) simp_all
  from assms(3) show ?thesis
  proof
    assume "st = StatusSuccess"
    then show ?thesis using Some n o by (simp add: SettingCallback_def update_device_Some [OF ok lt])
  next
    assume "st = StatusTimeout"
    then show ?thesis using Some n s by (simp add: SettingCallback_def)
  qed
qed

lemma own_setting_answered:
  assumes inv: "setup_inv h i c asked s" and n: "n < length (requests s)" and r: "requests s ! n = SetSetting k h v"
    and st: "st = StatusSuccess \<or> st = StatusTimeout"
  shows "\<exists>s'. SettingCallback k st h rsp (s\<lparr>requests := take n (requests s) @ drop (Suc n) (requests s)\<rparr>) = Some s' \<and>
    setup_inv h i c asked s'"
proof -
  let ?u = "s\<lparr>requests := take n (requests s) @ drop (Suc n) (requests s)\<rparr>"
  have ok: "slots_ok s" "slots_ok ?u" and i: "GetLidarDevice h s = Some i" "GetLidarDevice h ?u = Some i"
    using inv by (simp_all add: setup_inv_def)
  note lt = GetLidarDevice_lt [OF ok(1) i(1)]
  have d: "nth_opt (lidars (lds ?u)) (unat i) = Some (device i s)" using ok(1) lt by (simp add: slots_ok_def device_def)
  have w: "waits k' h ?u" if "waits k' h s" "k' \<noteq> k" for k'
    using that set_removed [OF n] r by (auto simp: waits_def)
  have vals: "w' = sent_value k' (setting_value k' c)" if "SetSetting k' h w' \<in> set (requests ?u)" for k' w'
    using that inv set_removed [OF n] by (auto simp: setup_inv_def)
  from st show ?thesis
  proof
    assume st: "st = StatusSuccess"
    let ?b = "set_bits (livox_config (device i s)) AND NOT (setting_bit k)"
    let ?e = "(device i s)\<lparr>livox_config := (livox_config (device i s))\<lparr>set_bits := ?b\<rparr>\<rparr>"
    let ?d = "if ?b = 0 then ?e\<lparr>connect_state := kConnectStateSampling\<rparr> else ?e"
    let ?t = "?u\<lparr>lds := (lds ?u)\<lparr>lidars := (lidars (lds ?u))[unat i := ?d]\<rparr>\<rparr>"
    have "SettingCallback k st h rsp ?u = Some ?t"
      using i(2) d st update_device_Some [OF ok(2) lt] by (simp add: SettingCallback_def Let_def)
    moreover have dev: "device i ?t = ?d" by (rule trans [OF device_put [OF ok(2) lt]]) simp
    have bits: "set_bits (livox_config ?d) = ?b" and vals': "setting_value k' (livox_config ?d) = setting_value k' c" for k'
      using inv by (simp_all add: setup_inv_def)
    moreover have "setup_inv h i c asked ?t"
      unfolding setup_inv_def dev bits vals'
    proof (intro conjI allI impI)
      show "slots_ok ?t" by (simp only: slots_ok_same ok(1))
      show "GetLidarDevice h ?t = Some i" by (simp only: GetLidarDevice_same i(1))
      show "setting_value k' c = setting_value k' c" for k' ..
      show "waits k' h ?t" if "bit ?b (setting_no k')" for k'
      proof -
        have "bit (set_bits (livox_config (device i s))) (setting_no k')" "k' \<noteq> k" using that by (auto simp: bit_simps bit_setting)
        then have "waits k' h ?u" using inv w by (simp add: setup_inv_def)
        then show ?thesis by (simp add: waits_def)
      qed
      show "m \<in> range setting_no" if "bit ?b m" for m
        using that inv by (simp add: setup_inv_def bit_simps)
      show "w' = sent_value k' (setting_value k' c)" if "SetSetting k' h w' \<in> set (requests ?t)" for k' w'
        using that vals by simp
      show "?b \<noteq> 0 \<or> connect_state ?d = kConnectStateSampling" by simp
    qed
    ultimately show ?thesis by blast
  next
    assume st: "st = StatusTimeout"
    let ?t = "send_request (SetSetting k h (sent_value k (setting_value k (livox_config (device i s))))) ?u"
    have "SettingCallback k st h rsp ?u = Some ?t" using i(2) d st by (simp add: SettingCallback_def)
    moreover have "setup_inv h i c asked ?t"
      using inv w vals by (auto simp: setup_inv_def waits_send)
    ultimately show ?thesis by blast
  qed
qed

lemma answered:
  assumes "setup_inv h i c asked s" and "st = StatusSuccess \<or> st = StatusTimeout"
  shows "\<exists>s'. setup_step (Answered n st r) s = Some s' \<and> setup_inv h i c asked s'"
proof (cases "n < length (requests s)")
  case False
  then show ?thesis using assms(1) by simp
next
  case n: True
  let ?u = "s\<lparr>requests := take n (requests s) @ drop (Suc n) (requests s)\<rparr>"
  note callbacks = SetDataTypeCallback_def SetPatternModeCallback_def SetBlindSpotCallback_def SetDualEmitCallback_def
  show ?thesis
  proof (cases "\<exists>k v. requests s ! n = SetSetting k h v")
    case True
    then obtain k v where "requests s ! n = SetSetting k h v" by blast
    then show ?thesis using n own_setting_answered [OF assms(1) n _ assms(2), of k v r]
      by (cases k) (simp_all add: callbacks)
  next
    case False
    then have u: "setup_inv h i c asked ?u" using n assms(1) by (intro setup_inv_remove) simp_all
    then have lk: "slots_ok ?u" by (simp add: setup_inv_def)
    show ?thesis
    proof (cases "requests s ! n")
      case (SetSetting k h' v)
      then have "h' \<noteq> h" using False by auto
      then show ?thesis using SetSetting n other_setting_answered [OF u _ assms(2), of h' k r]
        by (cases k) (simp_all add: callbacks)
    next
      case (SetAttitude h' p)
      have d: "GetLidarDevice h' ?u = Some j \<Longrightarrow> nth_opt (lidars (lds ?u)) (unat j) = Some (device j ?u)" for j
        using lk GetLidarDevice_lt [OF lk] by (simp add: slots_ok_def device_def)
      show ?thesis using SetAttitude n u d
        by (cases "GetLidarDevice h' ?u") (auto simp: SetAttitudeCallback_def intro: setup_inv_send)
    next
      case (SetNormalMode h')
      then show ?thesis using n u by (auto simp: WorkModeChangedCallback_def intro: setup_inv_send)
    next
      case (EnableImu h')
      then show ?thesis using n u by (auto simp: EnableLivoxLidarImuDataCallback_def intro: setup_inv_send)
    qed
  qed
qed

fun served :: "setup_event \<Rightarrow> bool" where
  "served (Shows h) \<longleftrightarrow> True"
| "served (Answered n status response) \<longleftrightarrow> status = StatusSuccess \<or> status = StatusTimeout"

lemma setup_run:
  assumes "setup_inv h i c asked s" and "\<exists>k. setting_value k c \<noteq> -1" and "\<forall>ev \<in> set evs. served ev"
  shows "\<exists>s'. foldM setup_step evs s = Some s' \<and> setup_inv h i c (asked \<or> Shows h \<in> set evs) s'"
  using assms(1,3)
proof (induction evs arbitrary: s asked)
  case Nil
  then show ?case by simp
next
  case (Cons ev evs)
  have "\<exists>s'. setup_step ev s = Some s' \<and> setup_inv h i c (asked \<or> ev = Shows h) s'"
  proof (cases ev)
    case (Shows h')
    then show ?thesis using shown [OF Cons.prems(1) assms(2), of h'] by simp
  next
    case (Answered n st r)
    then show ?thesis using answered [OF Cons.prems(1), of st n r] Cons.prems(2) by simp
  qed
  then obtain s' where s': "setup_step ev s = Some s'" "setup_inv h i c (asked \<or> ev = Shows h) s'" by blast
  obtain t where "foldM setup_step evs s' = Some t" "setup_inv h i c ((asked \<or> ev = Shows h) \<or> Shows h \<in> set evs) t"
    using Cons.IH [OF s'(2)] Cons.prems(2) by auto
  moreover have "((asked \<or> ev = Shows h) \<or> Shows h \<in> set evs) = (asked \<or> Shows h \<in> set (ev # evs))" by auto
  ultimately show ?case using s'(1) by simp
qed

text \<open>C29: a lidar whose settings ask for something samples when its settings are through: in every run, of lidars that show up in any
  order and number, of answers that are success or a timeout, in any order, nothing invalid is accessed, each
  request that waits for the lidar carries the value of its setting, and when the lidar has shown up and none waits any more,
  it is in the state in which its points are published. An answer of failure is not among the events: it is not
  asked again, so that the bit stays set.\<close>

theorem settings_reach_sampling:
  assumes "slots_ok s" and "GetLidarDevice h s = Some i" and "c = livox_config (device i s)" and "set_bits c = 0"
    and "requests s = []" and "setting_value k c \<noteq> -1" and "\<forall>ev \<in> set evs. served ev" and "Shows h \<in> set evs"
  shows "\<exists>s'. foldM setup_step evs s = Some s' \<and>
    (\<forall>k v. SetSetting k h v \<in> set (requests s') \<longrightarrow> v = sent_value k (setting_value k c)) \<and>
    ((\<forall>k v. SetSetting k h v \<notin> set (requests s')) \<longrightarrow> connect_state (device i s') = kConnectStateSampling)"
proof -
  have "setup_inv h i c False s" using assms(1-5) by (simp add: setup_inv_def)
  then obtain s' where s': "foldM setup_step evs s = Some s'" "setup_inv h i c True s'"
    using setup_run [of h i c False s evs] assms(6-8) by auto
  have "set_bits (livox_config (device i s')) = 0" if none: "\<forall>k v. SetSetting k h v \<notin> set (requests s')"
  proof (rule bit_word_eqI)
    fix n
    have "\<not> bit (set_bits (livox_config (device i s'))) n"
    proof
      assume b: "bit (set_bits (livox_config (device i s'))) n"
      then obtain k where "n = setting_no k" using s'(2) by (auto simp: setup_inv_def)
      then have "waits k h s'" using b s'(2) by (auto simp: setup_inv_def)
      then show False using none by (auto simp: waits_def)
    qed
    then show "bit (set_bits (livox_config (device i s'))) n = bit 0 n" by simp
  qed
  then show ?thesis using s' by (auto simp: setup_inv_def)
qed

definition asked_device :: "(nat, nat) LidarDevice" where
  "asked_device = example_device\<lparr>connect_state := kConnectStateOff,
     livox_config := (livox_config example_device)\<lparr>pcl_data_type := 1, pattern_mode := 0\<rparr>\<rparr>"

definition example_driver :: "(nat, nat) driver" where
  "example_driver = \<lparr>lds = example_lds\<lparr>lidars := replicate 32 asked_device\<rparr>, pub = mk_PubHandler, ll_sdk = sdk_start,
     lidar_listen_id = 0, ll_lidar_type = 8, ll_initialized = True, requests = []\<rparr>"

definition example_setup :: "setup_event list" where
  "example_setup = [Shows 7, Answered 0 StatusTimeout None, Answered 0 StatusSuccess None, Answered 3 StatusSuccess None]"

lemma example_setup_requests:
  "map_option requests (foldM setup_step example_setup example_driver) =
     Some [SetAttitude 0 (extrinsic_param (livox_config asked_device)), SetNormalMode 7, EnableImu 7]"
  unfolding example_setup_def by code_simp

lemma settings_reach_sampling_witness:
  "\<exists>s'. foldM setup_step example_setup example_driver = Some s' \<and> connect_state (device 1 s') = kConnectStateSampling"
proof -
  have "slots_ok example_driver"
    using run_slots_inv by (simp add: slots_ok_def example_driver_def example_lds_def)
  moreover have "GetLidarDevice 7 example_driver = Some 1" unfolding example_driver_def example_lds_def by code_simp
  moreover have "device 1 example_driver = asked_device" by (simp add: device_def example_driver_def)
  moreover have "set_bits (livox_config asked_device) = 0" "setting_value DataType (livox_config asked_device) \<noteq> -1"
    by (simp_all add: asked_device_def example_device_def setting_value_def)
  moreover have "requests example_driver = []" by (simp add: example_driver_def)
  moreover have "\<forall>ev \<in> set example_setup. served ev" "Shows 7 \<in> set example_setup" by (simp_all add: example_setup_def)
  ultimately obtain s' where s': "foldM setup_step example_setup example_driver = Some s'"
    "(\<forall>k v. SetSetting k 7 v \<notin> set (requests s')) \<longrightarrow> connect_state (device 1 s') = kConnectStateSampling"
    using settings_reach_sampling [of example_driver 7 1 "livox_config asked_device" DataType example_setup] by auto
  then show ?thesis using example_setup_requests by auto
qed

end
