(* ===== verification/Spec2Isabelle.thy ===== *)
theory Spec2Isabelle
  imports Rs_Frames Rs_Driver Rs_BasicAttr Rs_Section Rs_Split Rs_Blocks Rs_SyncQueue Ros_Ldq Ros_Comm Ros_Lds Ros_PubHandler
    Lvx_Protocol Lvx_Request Lvx_General Lvx_Devices Lvx_Command Lvx_Api Ros_Setup
begin

text \<open>
  A verification library for the sensor support repository: the drivers that bring the points of
  RoboSense and Livox lidars to ROS.

  \<^bold>\<open>The program.\<close> Three parts in C++ are modelled.

  \<^item> \<^verbatim>\<open>rslidar_sdk/src/rs_driver\<close>, the RoboSense driver. Datagrams go through a lock-free queue from the
    receiving to the decoding thread. A decoder, one of 21 classes, checks the packet, computes times and angles of its
    blocks, filters points by azimuth and distance, and cuts the stream of blocks into frames.
  \<^item> \<^verbatim>\<open>Livox-SDK2/sdk_core\<close>, the Livox SDK. It finds devices, configures them and sends commands. Commands
    are framed by a protocol with two checksums, wait in a table for their acknowledgement and time
    out. The handling depends on the class of the device.
  \<^item> \<^verbatim>\<open>livox_ros_driver2/src\<close>, the Livox ROS driver, which turns point packets into
    points in the frame of the vehicle, collects them per lidar into frames, and buffers the frames in a
    ring per lidar for the thread that publishes them.

  \<^bold>\<open>Conventions\<close> (\<^verbatim>\<open>Prelude\<close>). Machine integers are words of their width; \<^verbatim>\<open>int32_t\<close> angles, whose
  values stay far from the bounds, are \<^typ>\<open>int\<close>. A buffer is a list of bytes. Reading and writing
  (\<open>rd\<close>, \<open>wr\<close>) outside a buffer, a null dereference and an uncaught exception are \<^term>\<open>None\<close>; a function
  of the code that reports an error returns it as a value. So a result \<^term>\<open>Some x\<close> also says that the
  code stays inside its buffers.

  \<^bold>\<open>Theories.\<close>

  \<^item> \<^verbatim>\<open>Rs_BasicAttr\<close>: time stamps, temperatures and CRC-32 of \<^verbatim>\<open>decoder/basic_attr.hpp\<close>. Round trip of the
    time stamps; the table of the checksum is the bit-serial division; a changed byte is detected.
  \<^item> \<^verbatim>\<open>Rs_Section\<close>: the azimuth and distance filters of \<^verbatim>\<open>decoder/section.hpp\<close>.
  \<^item> \<^verbatim>\<open>Rs_Split\<close>: the three strategies of \<^verbatim>\<open>decoder/split_strategy.hpp\<close>. A locale of splitters, and one of
    splitters that meter an advance, carry the counting of frames; the strategies interpret them.
  \<^item> \<^verbatim>\<open>Rs_Blocks\<close>: the block iterators of \<^verbatim>\<open>decoder/block_iterator.hpp\<close>.
  \<^item> \<^verbatim>\<open>Rs_ChanAngles\<close>: the angles of the lasers (\<^verbatim>\<open>decoder/chan_angles.hpp\<close>) and the range of the trigonometric tables
    (\<^verbatim>\<open>decoder/trigon.hpp\<close>); the numbering of the lasers is a permutation by angle.
  \<^item> \<^verbatim>\<open>Rs_Decoder\<close>: the base class of the decoders (\<^verbatim>\<open>decoder/decoder.hpp\<close>), with the callbacks of the driver. Three locales, each extending
    the one before for MSOP, DIFOP and IMU packets, are the contract of a decoder; from it follows that the checks of the base class make every
    packet safe. The host (clock, calendar, trigonometry, transformation) is the record \<open>host\<close>.
  \<^item> \<^verbatim>\<open>Rs_Mech\<close>, \<^verbatim>\<open>Rs_MechLidars\<close>: the mechanical lidars (\<^verbatim>\<open>decoder/decoder_mech.hpp\<close> and the eleven decoders from RS16 to
    RSP128). Their loops differ in the layout of the packet and the iterator; the locale \<open>mech_lidar\<close> proves what decoding does
    once, and each lidar interprets it and the contract.
  \<^item> \<^verbatim>\<open>Rs_Mems\<close>, \<^verbatim>\<open>Rs_Emx\<close>: the MEMS lidars M1, M2, M3, E1, MX, the jumbo packets of M1, and EMX, in the same way.
  \<^item> \<^verbatim>\<open>Rs_Airy\<close>: the three AIRY lidars, with their IMU packets.
  \<^item> \<^verbatim>\<open>Rs_Factory\<close>: types of lidars and their names (\<^verbatim>\<open>driver/driver_param.hpp\<close>), the factory (\<^verbatim>\<open>decoder/decoder_factory.hpp\<close>)
    and the virtual functions as a dispatch over the class; the contract holds for the dispatch. \<^verbatim>\<open>Rs_Frames\<close>: the frames that the dispatch
    makes, for the lidars without a state of their own.
  \<^item> \<^verbatim>\<open>Rs_Input\<close>: what the inputs (\<^verbatim>\<open>driver/input\<close>) take from a datagram, a file or the user, and the reassembly of IP fragments
    (\<^verbatim>\<open>input/jumbo.hpp\<close>).
  \<^item> \<^verbatim>\<open>Rs_Driver\<close>: the driver (\<^verbatim>\<open>driver/lidar_driver_impl.hpp\<close>), composed of inputs, queues and decoders. Its runs are sequences of
    steps of both threads; every run is safe, the queue is drained, and published packets are numbered. The clearing of a full
    queue is shown not to be safe when the two threads overlap.
  \<^item> \<^verbatim>\<open>Fifo\<close>: the contract of a bounded queue as a locale, with what follows for any sequence of
    operations; \<^verbatim>\<open>Rs_SyncQueue\<close> (\<^verbatim>\<open>utility/sync_queue.hpp\<close>) and \<^verbatim>\<open>Ros_Ldq\<close> (\<^verbatim>\<open>comm/ldq.cpp\<close>) interpret it.
    \<^verbatim>\<open>Rs_SyncQueue\<close> also has the interleavings of a producer and a consumer as a step relation, with an
    invariant over all reachable states.
  \<^item> \<^verbatim>\<open>Ros_Comm\<close>, \<^verbatim>\<open>Ros_Lds\<close>: the data of the ROS driver; the table of slots (\<^verbatim>\<open>comm/cache_index.cpp\<close>) and
    the storage of points and IMU data per lidar (\<^verbatim>\<open>lds.cpp\<close>), proved to put every packet into the queue of
    its lidar.
  \<^item> \<^verbatim>\<open>Ros_PubHandler\<close>: the point handler (\<^verbatim>\<open>comm/pub_handler.cpp\<close>); what is published of a
    lidar, with what is still collected, is exactly the decoded and moved records of its packets in order, and the
    extrinsic transformation is a rotation.
  \<^item> \<^verbatim>\<open>Ros_Setup\<close>: how the ROS driver sets lidars up (\<^verbatim>\<open>lds_lidar.cpp\<close>, \<^verbatim>\<open>parse_cfg_file/\<close>,
    \<^verbatim>\<open>call_back/livox_lidar_callback.cpp\<close>): the settings of the user, the commands to a lidar that shows up and the callbacks of their
    answers; a lidar samples as soon as its settings are through.
  \<^item> \<^verbatim>\<open>Lvx_Protocol\<close>: frames of \<^verbatim>\<open>comm/sdk_protocol.cpp\<close>, \<^verbatim>\<open>comm/comm_port.cpp\<close>; sequence numbers. The
    checksum functions are parameters without assumptions.
  \<^item> \<^verbatim>\<open>Lvx_Request\<close>: the request builders of \<^verbatim>\<open>command_handler/build_request.cpp\<close> and a reader of their
    format, the specification against which they are proved.
  \<^item> \<^verbatim>\<open>Lvx_General\<close>: the command layer of \<^verbatim>\<open>general_command_handler.cpp\<close>. Its state is the record
    \<open>general\<close>: pending commands, known devices, handlers, and the trace of what left the program.
    Network, clock, checksums and \<^verbatim>\<open>inet_ntoa\<close> are the record \<open>env\<close>.
  \<^item> \<^verbatim>\<open>Lvx_Devices\<close>: the handlers of the three device classes as their files write them, and the proof
    that the class-indexed operations of \<^verbatim>\<open>Lvx_General\<close> are the virtual dispatch on them.
  \<^item> \<^verbatim>\<open>Lvx_Command\<close>: the commands of \<^verbatim>\<open>command_impl.cpp\<close>, each proved to arrive at the device as its key and
    value.

  \<^item> \<^verbatim>\<open>Lvx_StateInfo\<close>: the reports that a device pushes (\<^verbatim>\<open>parse_lidar_state_info.cpp\<close>). The struct that the parser
    fills is modelled by its bytes, so that a copy that is too long hits the next member; the printer makes calls of a
    JSON writer. A report of the right sizes is printed as the values it carries; two other reports break the parser.
  \<^item> \<^verbatim>\<open>Lvx_DataHandler\<close>: the receivers of point and IMU data (\<^verbatim>\<open>data_handler.cpp\<close>).
  \<^item> \<^verbatim>\<open>Lvx_Manager\<close>: the device manager (\<^verbatim>\<open>device_manager.cpp\<close>), which composes the command layer and the data handler; its record
    \<open>manager\<close> has both inside. \<^verbatim>\<open>Lvx_Sockets\<close>: the states that it reaches as an inductive predicate, with the invariant
    of its sockets. \<^verbatim>\<open>Lvx_Datagrams\<close>: where a datagram goes, and what a detection answer does.
  \<^item> \<^verbatim>\<open>Lvx_Upgrade\<close>: firmware upgrades (\<^verbatim>\<open>upgrade\<close>, \<^verbatim>\<open>upgrade_manager.cpp\<close>): the file, and the state machine of
    the upgrade of a device, whose runs are sequences of answers to the requests that wait. The invariant of the runs says what the
    device has acknowledged; it needs that each request is answered once, which the command layer does not guarantee.
  \<^item> \<^verbatim>\<open>Lvx_Config\<close>: the configuration file (\<^verbatim>\<open>parse_cfg_file.cpp\<close>), whose documents are a data type, and its check
    (\<^verbatim>\<open>params_check.cpp\<close>). A document made from a configuration is read as that configuration, and the check is characterised.
  \<^item> \<^verbatim>\<open>Lvx_Api\<close>: the interface (\<^verbatim>\<open>livox_lidar_sdk.cpp\<close>). Its sessions are any sequence of starts, stops, and steps of the device
    manager; the invariant of the sockets holds through all of them. What a stop leaves behind is shown by the two theorems on
    a second start and on a start that fails.

  \<^bold>\<open>Bounds and fuel.\<close> Loops over lists and words are structural or have a measure. Only the callback of
  the firmware query, which calls the sending function it was called from, has a fuel argument:
  \<open>invoke n\<close> allows callbacks nested \<open>n\<close> deep, and 13 suffice from every state (\<open>query_terminates\<close>), since
  the code gives up after its counter has passed 10. Statements about user callbacks hold for every
  fuel of at least 1. The loop of the device manager over the parameters of a device (\<open>param_loop\<close>) has as fuel the number of rounds: 255
  are enough when it ends at all. The queues of the driver have any capacity below \<^term>\<open>2 ^ 31 :: nat\<close>; the code has 102400.

  \<^bold>\<open>Not modelled.\<close> Sockets, threads, files, logging, the parser of JSON, and ROS; floating point (distances,
  times and coordinates of rs_driver are elements of any ordered field with a floor, without rounding); the calendar functions of the host;
  the thread and socket set-up of the inputs, and how long the reader of a file waits. What rapidjson makes of the calls of the writer, and the memory in which the struct of a
  report is created, are fields of \<open>env\<close>; what the system answers to a call for a socket is a field of
  \<open>surroundings\<close>. Of the Livox SDK the logs of the devices and the debug dumps are left; of the ROS driver the conversion to ROS messages. Locks are not
  modelled: an operation of the command layer runs to its end, except where a theorem splits it at a
  send. The memory model of the queue is sequential consistency.
\<close>

end
